(* ===== verification/Coco_Prelude.thy ===== *)
theory Coco_Prelude
  imports Complex_Main "HOL-Library.Code_Target_Nat"
begin

text \<open>
  Shared vocabulary of the development: the ways an operation of \<open>native/coco.c\<close> can fail to
  return normally, the arithmetic of the C type \<open>size_t\<close>, characters and C strings, and generic
  facts on lists that several components use.

  C strings are modelled as HOL strings without the terminating NUL; \<open>char_at\<close> reads the
  terminator at index \<open>length s\<close>.
\<close>

section \<open>Failures\<close>

text \<open>
  \<open>Coco_error\<close> is a call of \<open>coco_error\<close> (which prints its message and exits), with the name of
  the reporting function; \<open>Assert_failed\<close> is a failing \<open>assert\<close>; \<open>Out_of_bounds\<close> is an access
  outside an array, \<open>Buffer_overflow\<close> a write behind the end of a caller's buffer,
  \<open>Null_deref\<close> a dereference of NULL, \<open>Div_by_zero\<close> an integer division by zero, \<open>Double_free\<close>
  freeing memory that is not allocated, \<open>Uninitialized\<close> reading memory that has not been written and
  \<open>Int_overflow\<close> a result of arithmetic or a conversion that \<open>int\<close>
  cannot hold: all seven are undefined behaviour in C. \<open>No_return\<close> is a loop that does not end. \<open>Not_finite\<close> stands for
  NaN or an infinity where a part of the model has real numbers only.
\<close>

datatype error =
    Coco_error string
  | Assert_failed string
  | Out_of_bounds
  | Buffer_overflow
  | Null_deref
  | Div_by_zero
  | Double_free
  | Int_overflow
  | Uninitialized
  | No_return
  | Not_finite

type_synonym 'a result = "error + 'a"

definition rbind :: "'a result \<Rightarrow> ('a \<Rightarrow> 'b result) \<Rightarrow> 'b result" where
  "rbind m f = (case m of Inl e \<Rightarrow> Inl e | Inr x \<Rightarrow> f x)"

lemma rbind_simps [simp]:
  "rbind (Inl e) f = Inl e"
  "rbind (Inr x) f = f x"
  by (simp_all add: rbind_def)

lemma rbind_eq_Inr: "rbind m f = Inr y \<longleftrightarrow> (\<exists>x. m = Inr x \<and> f x = Inr y)"
  by (cases m) simp_all

text \<open>Reading and writing an array element; an index behind the end is undefined behaviour.\<close>

definition rnth :: "'a list \<Rightarrow> nat \<Rightarrow> 'a result" where
  "rnth xs i = (if i < length xs then Inr (xs ! i) else Inl Out_of_bounds)"

definition rupd :: "'a list \<Rightarrow> nat \<Rightarrow> 'a \<Rightarrow> 'a list result" where
  "rupd xs i v = (if i < length xs then Inr (xs[i := v]) else Inl Out_of_bounds)"

lemma rnth_in [simp]: "i < length xs \<Longrightarrow> rnth xs i = Inr (xs ! i)"
  by (simp add: rnth_def)

lemma rnth_out [simp]: "length xs \<le> i \<Longrightarrow> rnth xs i = Inl Out_of_bounds"
  by (simp add: rnth_def)

lemma rupd_in [simp]: "i < length xs \<Longrightarrow> rupd xs i v = Inr (xs[i := v])"
  by (simp add: rupd_def)

lemma rnth_eq_Inr: "rnth xs i = Inr v \<longleftrightarrow> i < length xs \<and> v = xs ! i"
  by (auto simp: rnth_def)

section \<open>The type size_t\<close>

text \<open>
  \<open>size_t\<close> is 64 bits wide (LP64). Values are natural numbers below \<open>2 ^ 64\<close>; the operations that
  can wrap around are written with \<open>size_t\<close> and \<open>size_sub\<close>.
\<close>

definition size_t :: "nat \<Rightarrow> nat" where
  "size_t n = n mod 2 ^ 64"

definition size_sub :: "nat \<Rightarrow> nat \<Rightarrow> nat" where
  "size_sub a b = (a + 2 ^ 64 - b) mod 2 ^ 64"

lemma size_t_id [simp]: "n < 2 ^ 64 \<Longrightarrow> size_t n = n"
  by (simp add: size_t_def)

lemma size_sub_le [simp]: "b \<le> a \<Longrightarrow> a < 2 ^ 64 \<Longrightarrow> size_sub a b = a - b"
proof -
  assume "b \<le> a" and "a < 2 ^ 64"
  then have "a + 2 ^ 64 - b = (a - b) + 2 ^ 64" by simp
  then show ?thesis
    using \<open>a < 2 ^ 64\<close> unfolding size_sub_def by (simp only: mod_add_self2) simp
qed

lemma size_sub_wrap: "size_sub 0 1 = 2 ^ 64 - 1"
  by (simp add: size_sub_def)

section \<open>Characters and C strings\<close>

definition NUL :: char where
  "NUL = char_of (0::nat)"

definition char_at :: "string \<Rightarrow> nat \<Rightarrow> char" where
  "char_at s i = (if i < length s then s ! i else NUL)"

text \<open>A C string holds no NUL before its terminator.\<close>

definition c_string :: "string \<Rightarrow> bool" where
  "c_string s \<longleftrightarrow> NUL \<notin> set s"

text \<open>The classification functions of \<open>ctype.h\<close> in the C locale.\<close>

definition isdigit :: "char \<Rightarrow> bool" where
  "isdigit c \<longleftrightarrow> 48 \<le> (of_char c :: nat) \<and> (of_char c :: nat) \<le> 57"

definition isspace :: "char \<Rightarrow> bool" where
  "isspace c \<longleftrightarrow> (of_char c :: nat) = 32 \<or> (9 \<le> (of_char c :: nat) \<and> (of_char c :: nat) \<le> 13)"

definition isalpha :: "char \<Rightarrow> bool" where
  "isalpha c \<longleftrightarrow> (65 \<le> (of_char c :: nat) \<and> (of_char c :: nat) \<le> 90)
     \<or> (97 \<le> (of_char c :: nat) \<and> (of_char c :: nat) \<le> 122)"

lemma of_char_NUL [simp]: "(of_char NUL :: nat) = 0"
  by (simp add: NUL_def)

lemma ctype_NUL [simp]: "\<not> isspace NUL" "\<not> isdigit NUL" "\<not> isalpha NUL"
  by (simp_all add: isspace_def isdigit_def isalpha_def)

section \<open>Generic list facts\<close>

lemma upt_snoc_take: "take n [a..<b] = [a..<min (a + n) b]"
  by (cases "a + n \<le> b") (simp_all add: min_def take_upt)

lemma set_dropWhile_subset: "set (dropWhile P xs) \<subseteq> set xs"
  by (auto dest: set_dropWhileD)

lemma length_dropWhile_lt: "xs \<noteq> [] \<Longrightarrow> P (hd xs) \<Longrightarrow> length (dropWhile P xs) < length xs"
  by (cases xs) (simp_all add: length_dropWhile_le le_imp_less_Suc)

end
