(* ===== verification/Coco_Strings.thy ===== *)
theory Coco_Strings
  imports Coco_Prelude
begin

text \<open>
  The string routines of \<open>code-experiments/src/coco_string.c\<close> (lines 1114 to 1602 of
  \<open>native/coco.c\<close>): \<open>coco_strconcat\<close>, \<open>coco_strfind\<close>, \<open>coco_string_split\<close>,
  \<open>coco_remove_from_string\<close> and \<open>coco_string_trim\<close>. The loops follow the code index by index;
  the lemmas relate each routine to a specification over whole strings.
\<close>

section \<open>Concatenation\<close>

text \<open>
  The new buffer has \<open>len1 + len2 + 1\<close> bytes; \<open>s1\<close> is copied without and \<open>s2\<close> with its
  terminator. The model returns the string the buffer then holds.
\<close>

definition coco_strconcat :: "string \<Rightarrow> string \<Rightarrow> string" where
  "coco_strconcat s1 s2 =
     (let len1 = length s1; len2 = length s2;
          s = replicate (len1 + len2 + 1) NUL;
          s = take len1 s1 @ drop len1 s;
          s = take len1 s @ take (len2 + 1) (s2 @ [NUL])
      in takeWhile (\<lambda>c. c \<noteq> NUL) s)"

lemma coco_strconcat_append:
  assumes "c_string s1" and "c_string s2"
  shows "coco_strconcat s1 s2 = s1 @ s2"
proof -
  have "takeWhile (\<lambda>c. c \<noteq> NUL) (s1 @ s2 @ [NUL]) = s1 @ s2"
    using assms by (auto simp: c_string_def takeWhile_append)
  then show ?thesis by (simp add: coco_strconcat_def)
qed

section \<open>Searching: coco_strfind\<close>

text \<open>The inner loop: the first \<open>j\<close> with \<open>base[i + j] != seq[j]\<close>, or \<open>strlen_seq\<close>.\<close>

function strfind_inner :: "string \<Rightarrow> string \<Rightarrow> nat \<Rightarrow> nat \<Rightarrow> nat" where
  "strfind_inner base seq i j =
     (if j < length seq then
        (if char_at base (i + j) \<noteq> char_at seq j then j
         else strfind_inner base seq i (Suc j))
      else j)"
  by pat_completeness auto
termination
  by (relation "measure (\<lambda>(base, seq, i, j). length seq - j)") auto

text \<open>The outer loop over the start positions.\<close>

function strfind_outer :: "string \<Rightarrow> string \<Rightarrow> nat \<Rightarrow> nat \<Rightarrow> int result" where
  "strfind_outer base seq last_first_idx i =
     (if i \<le> last_first_idx then
        (if char_at base i = char_at seq 0 \<and> strfind_inner base seq i 0 = length seq then
           (if i > 1000000000 then Inl (Coco_error ''coco_strfind'') else Inr (int i))
         else strfind_outer base seq last_first_idx (Suc i))
      else Inr (- 1))"
  by pat_completeness auto
termination
  by (relation "measure (\<lambda>(base, seq, n, i). Suc n - i)") auto

declare strfind_inner.simps [simp del] strfind_outer.simps [simp del]

text \<open>
  \<open>last_first_idx\<close> is computed before the length test and wraps around when \<open>seq\<close> is the
  longer string; the test then returns before it is used.
\<close>

definition coco_strfind :: "string \<Rightarrow> string \<Rightarrow> int result" where
  "coco_strfind base seq =
     (let last_first_idx = size_sub (length base) (length seq) in
      if length base < length seq then Inr (- 1)
      else strfind_outer base seq last_first_idx 0)"

text \<open>Specification: \<open>seq\<close> occurs in \<open>base\<close> at position \<open>i\<close>.\<close>

definition occurs_at :: "string \<Rightarrow> string \<Rightarrow> nat \<Rightarrow> bool" where
  "occurs_at base seq i \<longleftrightarrow> i + length seq \<le> length base \<and> take (length seq) (drop i base) = seq"

lemma occurs_at_nth:
  "i + length seq \<le> length base \<Longrightarrow>
     occurs_at base seq i \<longleftrightarrow> (\<forall>j < length seq. base ! (i + j) = seq ! j)"
  by (auto simp: occurs_at_def list_eq_iff_nth_eq)

lemma strfind_inner_bounds: "j \<le> length seq \<Longrightarrow>
   j \<le> strfind_inner base seq i j \<and> strfind_inner base seq i j \<le> length seq"
proof (induction base seq i j rule: strfind_inner.induct)
  case (1 base seq i j)
  show ?case
  proof (cases "j < length seq \<and> char_at base (i + j) = char_at seq j")
    case True
    with "1.IH" have "Suc j \<le> strfind_inner base seq i (Suc j)
        \<and> strfind_inner base seq i (Suc j) \<le> length seq" by auto
    with True show ?thesis by (simp add: strfind_inner.simps [of base seq i j])
  next
    case False
    with "1.prems" show ?thesis by (auto simp: strfind_inner.simps [of base seq i j])
  qed
qed

lemma strfind_inner_full:
  "i + length seq \<le> length base \<Longrightarrow> j \<le> length seq \<Longrightarrow>
   strfind_inner base seq i j = length seq \<longleftrightarrow>
     (\<forall>k. j \<le> k \<and> k < length seq \<longrightarrow> base ! (i + k) = seq ! k)"
proof (induction base seq i j rule: strfind_inner.induct)
  case (1 base seq i j)
  show ?case
  proof (cases "j < length seq")
    case True
    have c: "char_at base (i + j) = base ! (i + j)" "char_at seq j = seq ! j"
      using True "1.prems" by (auto simp: char_at_def)
    show ?thesis
    proof (cases "base ! (i + j) = seq ! j")
      case eq: True
      with True c "1.IH" "1.prems" have "strfind_inner base seq i (Suc j) = length seq \<longleftrightarrow>
          (\<forall>k. Suc j \<le> k \<and> k < length seq \<longrightarrow> base ! (i + k) = seq ! k)" by auto
      moreover have "(\<forall>k. j \<le> k \<and> k < length seq \<longrightarrow> base ! (i + k) = seq ! k) \<longleftrightarrow>
          (\<forall>k. Suc j \<le> k \<and> k < length seq \<longrightarrow> base ! (i + k) = seq ! k)"
        using eq by (metis Suc_leD Suc_leI le_neq_implies_less)
      ultimately show ?thesis
        using eq True c by (simp add: strfind_inner.simps [of base seq i j])
    next
      case False
      with True c show ?thesis by (auto simp: strfind_inner.simps [of base seq i j])
    qed
  next
    case False
    with "1.prems" have "j = length seq" by simp
    then show ?thesis by (auto simp: strfind_inner.simps [of base seq i "length seq"])
  qed
qed

lemma strfind_hit:
  assumes "seq \<noteq> []" and "i + length seq \<le> length base"
  shows "char_at base i = char_at seq 0 \<and> strfind_inner base seq i 0 = length seq
     \<longleftrightarrow> occurs_at base seq i"
proof -
  have "strfind_inner base seq i 0 = length seq \<longleftrightarrow> occurs_at base seq i"
    using strfind_inner_full [of i seq base 0] assms(2) by (simp add: occurs_at_nth)
  moreover have "occurs_at base seq i \<Longrightarrow> char_at base i = char_at seq 0"
    using assms by (cases seq) (auto simp: occurs_at_nth char_at_def dest: spec [of _ 0])
  ultimately show ?thesis by blast
qed

lemma strfind_outer_first:
  assumes "seq \<noteq> []" and "m = length base - length seq" and "length seq \<le> length base"
    and "\<forall>k < i. \<not> occurs_at base seq k" and "length base \<le> 1000000000"
  shows "(\<exists>k. strfind_outer base seq m i = Inr (int k) \<and> occurs_at base seq k
             \<and> (\<forall>k' < k. \<not> occurs_at base seq k'))
       \<or> strfind_outer base seq m i = Inr (- 1) \<and> (\<forall>k. \<not> occurs_at base seq k)"
  using assms
proof (induction base seq m i rule: strfind_outer.induct)
  case (1 base seq m i)
  show ?case
  proof (cases "i \<le> m")
    case False
    then have "\<not> occurs_at base seq k" for k
      using "1.prems" by (cases "k < i") (auto simp: occurs_at_def)
    with False show ?thesis by (simp add: strfind_outer.simps [of base seq m i])
  next
    case True
    then have le: "i + length seq \<le> length base" using "1.prems" by simp
    note hit = strfind_hit [OF "1.prems"(1) le]
    show ?thesis
    proof (cases "occurs_at base seq i")
      case occ: True
      have "i \<le> 1000000000" using le "1.prems"(5) by simp
      with occ True hit "1.prems"(4) show ?thesis
        by (auto simp: strfind_outer.simps [of base seq m i])
    next
      case nocc: False
      have "\<forall>k < Suc i. \<not> occurs_at base seq k"
        using "1.prems"(4) nocc by (auto simp: less_Suc_eq)
      moreover have "strfind_outer base seq m i = strfind_outer base seq m (Suc i)"
        using True nocc hit by (auto simp: strfind_outer.simps [of base seq m i])
      ultimately show ?thesis
        using "1.IH" True nocc hit "1.prems" by simp
    qed
  qed
qed

lemma size_sub_length: "length (ys::'a list) \<le> length (xs::'b list) \<Longrightarrow> length xs \<le> 1000000000
   \<Longrightarrow> size_sub (length xs) (length ys) = length xs - length ys"
  by (rule size_sub_le) auto

lemma coco_strfind_first:
  assumes "seq \<noteq> []" and "length base \<le> 1000000000"
  shows "(\<exists>k. coco_strfind base seq = Inr (int k) \<and> occurs_at base seq k
             \<and> (\<forall>k' < k. \<not> occurs_at base seq k'))
       \<or> coco_strfind base seq = Inr (- 1) \<and> (\<forall>k. \<not> occurs_at base seq k)"
proof (cases "length base < length seq")
  case True
  then show ?thesis by (auto simp: coco_strfind_def occurs_at_def)
next
  case False
  with assms strfind_outer_first [of seq "length base - length seq" base 0] show ?thesis
    by (auto simp: coco_strfind_def size_sub_length)
qed

section \<open>Splitting: coco_string_split\<close>

text \<open>
  The tokens \<open>strtok\<close> delivers for a one-character delimiter: it skips delimiters, then takes
  everything up to the next one.
\<close>

function strtok_tokens :: "char \<Rightarrow> string \<Rightarrow> string list" where
  "strtok_tokens d s =
     (let s' = dropWhile (\<lambda>c. c = d) s in
      if s' = [] then []
      else takeWhile (\<lambda>c. c \<noteq> d) s' # strtok_tokens d (dropWhile (\<lambda>c. c \<noteq> d) s'))"
  by pat_completeness auto
termination
proof (relation "measure (\<lambda>(d, s). length s)", goal_cases)
  case (2 d s x)
  then have "hd x \<noteq> d" using hd_dropWhile [of "\<lambda>c. c = d" s] by simp
  with 2 have "length (dropWhile (\<lambda>c. c \<noteq> d) x) < length x"
    by (intro length_dropWhile_lt) auto
  also have "\<dots> \<le> length s" using 2 by (simp add: length_dropWhile_le)
  finally show ?case by simp
qed simp

declare strtok_tokens.simps [simp del]

text \<open>The counting loop over the copied string.\<close>

fun split_count :: "char \<Rightarrow> string \<Rightarrow> nat \<Rightarrow> nat" where
  "split_count d [] n = n"
| "split_count d (c # cs) n = split_count d cs (if c = d then Suc n else n)"

text \<open>The loop that stores the tokens; the result array has \<open>count\<close> entries.\<close>

fun split_fill :: "nat \<Rightarrow> nat \<Rightarrow> string list \<Rightarrow> string list \<Rightarrow> string list result" where
  "split_fill n i acc [] = (if i < n then Inr acc else Inl Out_of_bounds)"
| "split_fill n i acc (t # ts) =
     (if i < n then split_fill n (Suc i) (acc @ [t]) ts
      else Inl (Assert_failed ''coco_string_split''))"

text \<open>The NULL that ends the array of substrings is not part of the returned list.\<close>

definition coco_string_split :: "string \<Rightarrow> char \<Rightarrow> string list result" where
  "coco_string_split s delimiter =
     (let n = Suc (split_count delimiter s 1)
      in split_fill n 0 [] (strtok_tokens delimiter s))"

lemma split_count_add: "split_count d s n = n + split_count d s 0"
proof (induction s arbitrary: n)
  case (Cons c s)
  show ?case using Cons.IH [of "Suc n"] Cons.IH [of n] Cons.IH [of 1] by simp
qed simp

lemma split_count_dropWhile: "split_count d (dropWhile P s) 0 \<le> split_count d s 0"
proof (induction s)
  case (Cons c s)
  have "split_count d s 0 \<le> split_count d s (Suc 0)" by (simp add: split_count_add [of d s "Suc 0"])
  with Cons show ?case by auto
qed simp

lemma split_count_drop_token:
  "dropWhile (\<lambda>c. c \<noteq> d) s \<noteq> [] \<Longrightarrow>
     Suc (split_count d (tl (dropWhile (\<lambda>c. c \<noteq> d) s)) 0) \<le> split_count d s 0"
proof (induction s)
  case (Cons c s)
  show ?case
  proof (cases "c = d")
    case True
    then show ?thesis by (simp add: split_count_add [of d s "Suc 0"])
  next
    case False
    with Cons show ?thesis by simp
  qed
qed simp

lemma strtok_tokens_skip: "strtok_tokens d (d # s) = strtok_tokens d s"
  by (simp add: strtok_tokens.simps [of d "d # s"] strtok_tokens.simps [of d s])

lemma strtok_tokens_length: "length (strtok_tokens d s) \<le> Suc (split_count d s 0)"
proof (induction "length s" arbitrary: s rule: less_induct)
  case less
  define s' where "s' = dropWhile (\<lambda>c. c = d) s"
  define r where "r = dropWhile (\<lambda>c. c \<noteq> d) s'"
  show ?case
  proof (cases "s' = [] \<or> r = []")
    case True
    then show ?thesis
      by (auto simp: strtok_tokens.simps [of d s] strtok_tokens.simps [of d "[]"]
          simp flip: s'_def r_def)
  next
    case False
    then have "hd r = d" using hd_dropWhile [of "\<lambda>c. c \<noteq> d" s'] by (simp add: r_def)
    with False obtain r' where r: "r = d # r'" by (cases r) auto
    have "length s' \<le> length s" "length r \<le> length s'"
      by (simp_all add: s'_def r_def length_dropWhile_le)
    then have "length (strtok_tokens d r') \<le> Suc (split_count d r' 0)"
      using less [of r'] r by simp
    moreover have "Suc (split_count d r' 0) \<le> split_count d s' 0"
      using split_count_drop_token [of d s'] r by (simp add: r_def [symmetric])
    moreover have "split_count d s' 0 \<le> split_count d s 0"
      by (simp add: s'_def split_count_dropWhile)
    moreover have "strtok_tokens d s = takeWhile (\<lambda>c. c \<noteq> d) s' # strtok_tokens d r'"
      using False r strtok_tokens_skip [of d r']
      by (simp add: strtok_tokens.simps [of d s] flip: s'_def r_def)
    ultimately show ?thesis by simp
  qed
qed

lemma split_fill_ok: "i + length ts < n \<Longrightarrow> split_fill n i acc ts = Inr (acc @ ts)"
  by (induction ts arbitrary: i acc) simp_all

text \<open>Neither the assertion nor the array bound of the result is ever violated.\<close>

lemma coco_string_split_tokens [simp]:
  "coco_string_split s d = Inr (strtok_tokens d s)"
  using strtok_tokens_length [of d s] split_count_add [of d s 1]
  by (simp add: coco_string_split_def split_fill_ok)

lemma strtok_tokens_nonempty: "t \<in> set (strtok_tokens d s) \<Longrightarrow> t \<noteq> [] \<and> d \<notin> set t \<and> set t \<subseteq> set s"
proof (induction d s rule: strtok_tokens.induct)
  case (1 d s)
  define s' where "s' = dropWhile (\<lambda>c. c = d) s"
  show ?case
  proof (cases "s' = []")
    case True
    with "1.prems" show ?thesis by (simp add: strtok_tokens.simps [of d s] flip: s'_def)
  next
    case False
    then have hd: "hd s' \<noteq> d" using hd_dropWhile [of "\<lambda>c. c = d" s] by (simp add: s'_def)
    have sub: "set s' \<subseteq> set s" by (simp add: s'_def set_dropWhile_subset)
    from False "1.prems" consider "t = takeWhile (\<lambda>c. c \<noteq> d) s'"
      | "t \<in> set (strtok_tokens d (dropWhile (\<lambda>c. c \<noteq> d) s'))"
      by (auto simp: strtok_tokens.simps [of d s] simp flip: s'_def)
    then show ?thesis
    proof cases
      case 1
      with False hd sub show ?thesis
        by (cases s') (auto dest: set_takeWhileD)
    next
      case 2
      with "1.IH" [OF s'_def False]
      have "t \<noteq> [] \<and> d \<notin> set t \<and> set t \<subseteq> set (dropWhile (\<lambda>c. c \<noteq> d) s')" .
      with sub set_dropWhile_subset [of "\<lambda>c. c \<noteq> d" s'] show ?thesis by auto
    qed
  qed
qed

fun join :: "char \<Rightarrow> string list \<Rightarrow> string" where
  "join d [] = []"
| "join d [x] = x"
| "join d (x # y # xs) = x @ d # join d (y # xs)"

lemma strtok_tokens_token:
  assumes "x \<noteq> []" and "d \<notin> set x"
  shows "strtok_tokens d (x @ d # s) = x # strtok_tokens d s"
    and "strtok_tokens d x = [x]"
proof -
  obtain c cs where x: "x = c # cs" "c \<noteq> d" using assms by (cases x) auto
  have t: "takeWhile (\<lambda>c. c \<noteq> d) (x @ d # s) = x" "dropWhile (\<lambda>c. c \<noteq> d) (x @ d # s) = d # s"
    "takeWhile (\<lambda>c. c \<noteq> d) x = x" "dropWhile (\<lambda>c. c \<noteq> d) x = []"
    using assms(2) by (auto simp: takeWhile_append dropWhile_append takeWhile_eq_all_conv)
  have d: "dropWhile (\<lambda>c. c = d) (x @ d # s) = x @ d # s" "dropWhile (\<lambda>c. c = d) x = x"
    using x by simp_all
  show "strtok_tokens d (x @ d # s) = x # strtok_tokens d s"
    using x t(1,2) d(1) strtok_tokens_skip [of d s] by (subst strtok_tokens.simps) (simp add: Let_def)
  show "strtok_tokens d x = [x]"
    unfolding strtok_tokens.simps [of d x] Let_def d(2) t(3,4)
    using x by (simp add: strtok_tokens.simps [of d "[]"])
qed

lemma strtok_tokens_join:
  "\<forall>x \<in> set xs. x \<noteq> [] \<and> d \<notin> set x \<Longrightarrow> strtok_tokens d (join d xs) = xs"
  by (induction d xs rule: join.induct)
    (simp_all add: strtok_tokens_token strtok_tokens.simps [of _ "[]"])

section \<open>Removing a part: coco_remove_from_string\<close>

text \<open>The standard function \<open>strstr\<close>: the first occurrence, as an index.\<close>

fun strstr :: "string \<Rightarrow> string \<Rightarrow> nat option" where
  "strstr [] p = (if p = [] then Some 0 else None)"
| "strstr (c # cs) p =
     (if take (length p) (c # cs) = p then Some 0 else map_option Suc (strstr cs p))"

definition coco_remove_from_string :: "string \<Rightarrow> string \<Rightarrow> string \<Rightarrow> string result" where
  "coco_remove_from_string string from_s to_s =
     (let start = (if from_s = [] then Some 0 else strstr string from_s);
          stop = (if to_s = [] then Some (length string) else strstr string to_s)
      in case (start, stop) of
           (Some a, Some b) \<Rightarrow>
             (if b < a then Inl (Coco_error ''coco_remove_from_string'')
              else Inr (take a string @ drop b string))
         | _ \<Rightarrow> Inl (Coco_error ''coco_remove_from_string''))"

lemma strstr_first:
  "strstr s p = (if \<exists>i. occurs_at s p i then Some (LEAST i. occurs_at s p i) else None)"
proof (induction s p rule: strstr.induct)
  case (1 p)
  have "(LEAST i. occurs_at [] [] i) = 0" by (rule Least_equality) (auto simp: occurs_at_def)
  then show ?case by (auto simp: occurs_at_def)
next
  case (2 c cs p)
  have shift: "occurs_at (c # cs) p (Suc i) \<longleftrightarrow> occurs_at cs p i" for i
    by (simp add: occurs_at_def)
  have zero: "occurs_at (c # cs) p 0 \<longleftrightarrow> take (length p) (c # cs) = p"
    by (auto simp: occurs_at_def dest: arg_cong [where f = length])
  show ?case
  proof (cases "take (length p) (c # cs) = p")
    case True
    then have "(LEAST i. occurs_at (c # cs) p i) = 0"
      using zero by (intro Least_equality) auto
    with True zero show ?thesis by auto
  next
    case False
    then have ex: "(\<exists>i. occurs_at (c # cs) p i) \<longleftrightarrow> (\<exists>i. occurs_at cs p i)"
      using zero shift by (metis not0_implies_Suc)
    have "(LEAST i. occurs_at (c # cs) p i) = Suc (LEAST i. occurs_at cs p i)"
      if "occurs_at cs p i" for i
      using Least_Suc [of "occurs_at (c # cs) p" "Suc i"] that False zero shift by auto
    with False ex "2.IH" show ?thesis by auto
  qed
qed

lemma occurs_at_append: "occurs_at (p @ q @ r) q (length p)"
  by (simp add: occurs_at_def)

lemma strstr_append:
  assumes "\<forall>i < length p. \<not> occurs_at (p @ q @ r) q i"
  shows "strstr (p @ q @ r) q = Some (length p)"
proof -
  have "(LEAST i. occurs_at (p @ q @ r) q i) = length p"
    using assms occurs_at_append [of p q r] by (intro Least_equality) (auto intro: leI)
  with occurs_at_append [of p q r] show ?thesis by (auto simp: strstr_first)
qed

lemma coco_remove_from_string_between:
  assumes "from_s \<noteq> []" and "to_s \<noteq> []"
    and "\<forall>i < length p. \<not> occurs_at (p @ from_s @ x @ to_s @ y) from_s i"
    and "\<forall>i < length (p @ from_s @ x). \<not> occurs_at (p @ from_s @ x @ to_s @ y) to_s i"
  shows "coco_remove_from_string (p @ from_s @ x @ to_s @ y) from_s to_s = Inr (p @ to_s @ y)"
proof -
  have "strstr (p @ from_s @ x @ to_s @ y) from_s = Some (length p)"
    using strstr_append [of p from_s "x @ to_s @ y"] assms(3) by simp
  moreover have "strstr (p @ from_s @ x @ to_s @ y) to_s = Some (length (p @ from_s @ x))"
    using strstr_append [of "p @ from_s @ x" to_s y] assms(4) by simp
  ultimately show ?thesis
    using assms(1,2) by (simp add: coco_remove_from_string_def)
qed

section \<open>Trimming: coco_string_trim\<close>

text \<open>
  The routine works in place on a buffer that holds the string and its terminator. \<open>frontp\<close> and
  \<open>endp\<close> are indices into the buffer.
\<close>

function trim_front :: "string \<Rightarrow> nat \<Rightarrow> nat" where
  "trim_front buf frontp =
     (if frontp < length buf \<and> isspace (buf ! frontp) then trim_front buf (Suc frontp) else frontp)"
  by pat_completeness auto
termination
  by (relation "measure (\<lambda>(buf, f). length buf - f)") auto

function trim_back :: "string \<Rightarrow> nat \<Rightarrow> nat \<Rightarrow> nat" where
  "trim_back buf frontp endp =
     (if endp = 0 then 0
      else if isspace (buf ! (endp - 1)) \<and> endp - 1 \<noteq> frontp then trim_back buf frontp (endp - 1)
      else endp - 1)"
  by pat_completeness auto
termination
  by (relation "measure (\<lambda>(buf, f, e). e)") auto

function trim_shift :: "string \<Rightarrow> nat \<Rightarrow> nat \<Rightarrow> string" where
  "trim_shift buf endp frontp =
     (if frontp < length buf \<and> buf ! frontp \<noteq> NUL
      then trim_shift (buf[endp := buf ! frontp]) (Suc endp) (Suc frontp)
      else buf[endp := NUL])"
  by pat_completeness auto
termination
  by (relation "measure (\<lambda>(buf, e, f). length buf - f)") auto

declare trim_front.simps [simp del] trim_back.simps [simp del] trim_shift.simps [simp del]

definition coco_string_trim :: "string \<Rightarrow> string" where
  "coco_string_trim string =
     (if string = [] then string
      else if list_all isspace string then []
      else
        let len = length string;
            buf = string @ [NUL];
            frontp = trim_front buf 0;
            endp = (if len \<noteq> frontp then trim_back buf frontp len else len);
            buf = (if len - 1 \<noteq> endp then buf[endp + 1 := NUL]
                   else if frontp \<noteq> 0 \<and> endp = frontp then buf[0 := NUL]
                   else buf);
            buf = (if frontp \<noteq> 0 then trim_shift buf 0 frontp else buf)
        in takeWhile (\<lambda>c. c \<noteq> NUL) buf)"

definition trim_spec :: "string \<Rightarrow> string" where
  "trim_spec s = rev (dropWhile isspace (rev (dropWhile isspace s)))"

lemma trim_decomposition:
  assumes "\<not> list_all isspace s"
  obtains w1 core w2 where "s = w1 @ core @ w2" "list_all isspace w1" "list_all isspace w2"
    "core \<noteq> []" "\<not> isspace (hd core)" "\<not> isspace (last core)"
proof -
  define m where "m = dropWhile isspace s"
  define core where "core = rev (dropWhile isspace (rev m))"
  have m: "m \<noteq> []" using assms by (auto simp: m_def list_all_iff)
  then have hm: "\<not> isspace (hd m)" unfolding m_def by (rule hd_dropWhile)
  have c: "core \<noteq> []"
  proof
    assume "core = []"
    then have "\<forall>x \<in> set m. isspace x" by (simp add: core_def)
    with m hm show False by simp
  qed
  have mc: "m = core @ rev (takeWhile isspace (rev m))"
    using takeWhile_dropWhile_id [of isspace "rev m"]
    by (metis core_def rev_append rev_rev_ident)
  show ?thesis
  proof
    show "s = takeWhile isspace s @ core @ rev (takeWhile isspace (rev m))"
      using mc by (simp add: m_def)
    show "list_all isspace (takeWhile isspace s)"
      by (auto simp: list_all_iff dest: set_takeWhileD)
    show "list_all isspace (rev (takeWhile isspace (rev m)))"
      by (auto simp: list_all_iff dest: set_takeWhileD)
    show "core \<noteq> []" by (fact c)
    show "\<not> isspace (hd core)" using hm mc c by (metis hd_append2)
    have "dropWhile isspace (rev m) \<noteq> []" using c by (simp add: core_def)
    then have "\<not> isspace (hd (dropWhile isspace (rev m)))" by (rule hd_dropWhile)
    then show "\<not> isspace (last core)" by (simp add: core_def last_rev)
  qed
qed

lemma trim_spec_core:
  assumes "list_all isspace w1" "list_all isspace w2" "core \<noteq> []"
    "\<not> isspace (hd core)" "\<not> isspace (last core)"
  shows "trim_spec (w1 @ core @ w2) = core"
proof -
  have "dropWhile isspace (w1 @ core @ w2) = core @ w2"
    using assms by (cases core) (auto simp: dropWhile_append list_all_iff)
  moreover have "dropWhile isspace (rev w2 @ rev core) = rev core"
    using assms by (cases core rule: rev_cases) (auto simp: dropWhile_append list_all_iff)
  ultimately show ?thesis by (simp add: trim_spec_def)
qed

lemma trim_front_skip:
  "list_all isspace w1 \<Longrightarrow> \<not> isspace c \<Longrightarrow> i \<le> length w1 \<Longrightarrow> trim_front (w1 @ c # r) i = length w1"
proof (induction "w1 @ c # r" i rule: trim_front.induct)
  case (1 i)
  show ?case
  proof (cases "i = length w1")
    case True
    with 1 show ?thesis by (simp add: trim_front.simps [of _ "length w1"])
  next
    case False
    with 1 have "i < length w1" by simp
    with 1 show ?thesis
      by (simp add: trim_front.simps [of _ i] nth_append list_all_length)
  qed
qed

lemma trim_back_skip:
  "f < e \<Longrightarrow> f \<le> k \<Longrightarrow> k < e \<Longrightarrow> \<not> isspace (buf ! k) \<Longrightarrow> \<forall>i. k < i \<and> i < e \<longrightarrow> isspace (buf ! i)
   \<Longrightarrow> trim_back buf f e = k"
proof (induction buf f e rule: trim_back.induct)
  case (1 buf f e)
  show ?case
  proof (cases "e - 1 = k")
    case True
    with 1 show ?thesis by (simp add: trim_back.simps [of buf f e])
  next
    case False
    with 1 have "isspace (buf ! (e - 1))" "e - 1 \<noteq> f" "k < e - 1" by auto
    moreover have "\<forall>i. k < i \<and> i < e - 1 \<longrightarrow> isspace (buf ! i)" using "1.prems" by auto
    ultimately show ?thesis
      using "1.IH" "1.prems" by (simp add: trim_back.simps [of buf f e])
  qed
qed

lemma trim_shift_moves:
  "e < f \<Longrightarrow> f < length buf \<Longrightarrow> NUL \<in> set (drop f buf) \<Longrightarrow> NUL \<notin> set (take e buf) \<Longrightarrow>
   takeWhile (\<lambda>c. c \<noteq> NUL) (trim_shift buf e f)
     = take e buf @ takeWhile (\<lambda>c. c \<noteq> NUL) (drop f buf)"
proof (induction buf e f rule: trim_shift.induct)
  case (1 buf e f)
  have split: "drop f buf = buf ! f # drop (Suc f) buf"
    using "1.prems"(2) by (rule Cons_nth_drop_Suc [symmetric])
  show ?case
  proof (cases "buf ! f = NUL")
    case True
    have "buf[e := NUL] = take e buf @ NUL # drop (Suc e) buf"
      using "1.prems"(1,2) by (simp add: upd_conv_take_nth_drop)
    with True split "1.prems" show ?thesis
      by (auto simp: trim_shift.simps [of buf e f] takeWhile_append)
  next
    case False
    let ?buf = "buf[e := buf ! f]"
    have "NUL \<in> set (drop (Suc f) buf)" using False split "1.prems"(3) by auto
    moreover from this have "Suc f < length buf" by (metis drop_all empty_iff leI list.set(1))
    moreover have "take (Suc e) ?buf = take e buf @ [buf ! f]"
      using "1.prems"(1,2) by (simp add: take_Suc_conv_app_nth)
    moreover have "drop (Suc f) ?buf = drop (Suc f) buf"
      using "1.prems"(1) by simp
    ultimately show ?thesis
      using False "1.prems" "1.IH" split by (simp add: trim_shift.simps [of buf e f])
  qed
qed

lemma coco_string_trim_spec:
  assumes cs: "c_string s"
  shows "coco_string_trim s = trim_spec s"
proof (cases "list_all isspace s")
  case True
  then show ?thesis
    by (auto simp: coco_string_trim_def trim_spec_def list_all_iff dest: set_dropWhileD)
next
  case False
  then obtain w1 core w2 where s: "s = w1 @ core @ w2" and w: "list_all isspace w1"
      "list_all isspace w2" and c: "core \<noteq> []" "\<not> isspace (hd core)" "\<not> isspace (last core)"
    by (rule trim_decomposition)
  define buf where "buf = s @ [NUL]"
  define k where "k = length w1 + (length core - 1)"
  obtain c0 cr where core: "core = c0 # cr" using c by (cases core) auto
  have len: "0 < length core" "0 < length s" using c s by auto
  have k: "length w1 \<le> k" "k < length s" "Suc k = length w1 + length core"
    using len by (simp_all add: k_def s Suc_leI less_eq_Suc_le)
  have front: "trim_front buf 0 = length w1"
    using trim_front_skip [OF w(1), of c0 0 "cr @ w2 @ [NUL]"] c core s by (simp add: buf_def)
  have bk: "buf ! k = last core"
    using c len by (simp add: buf_def s k_def nth_append last_conv_nth del: One_nat_def)
  have sp: "isspace (buf ! i)" if "k < i" "i < length s" for i
    using that k w(2) by (auto simp: buf_def s nth_append list_all_length)
  have bck: "trim_back buf (length w1) (length s) = k"
    using k bk sp c by (intro trim_back_skip) auto
  define buf' where "buf' = (if length s - 1 \<noteq> k then buf[k + 1 := NUL]
       else if length w1 \<noteq> 0 \<and> k = length w1 then buf[0 := NUL] else buf)"
  have nn: "NUL \<notin> set w1" "NUL \<notin> set core"
    using cs s by (auto simp: c_string_def)
  have drop: "\<exists>r. drop (length w1) buf' = core @ NUL # r"
  proof (cases "w2 = []")
    case True
    then have "length s - 1 = k" using k(3) by (simp add: s flip: k(3))
    then show ?thesis using True by (auto simp: buf'_def buf_def s)
  next
    case False
    then have "length s - 1 \<noteq> k" using len k(3) by (auto simp: s)
    moreover have "drop (length w1) (buf[k + 1 := NUL]) = core @ (w2 @ [NUL])[0 := NUL]"
      using k(3) by (simp add: buf_def s drop_update_swap list_update_append)
    ultimately show ?thesis using False by (cases w2) (auto simp: buf'_def)
  qed
  then obtain r where r: "drop (length w1) buf' = core @ NUL # r" by blast
  have tw: "takeWhile (\<lambda>c. c \<noteq> NUL) (core @ NUL # r) = core"
    using nn(2) by (auto simp: takeWhile_append)
  have "takeWhile (\<lambda>c. c \<noteq> NUL) (if length w1 \<noteq> 0 then trim_shift buf' 0 (length w1) else buf') = core"
  proof (cases "w1 = []")
    case True
    with r tw show ?thesis by simp
  next
    case False
    have "length w1 < length buf'" using r len by (metis append_is_Nil_conv c(1) drop_all leI)
    then show ?thesis
      using trim_shift_moves [of 0 "length w1" buf'] False r tw by simp
  qed
  moreover have "coco_string_trim s =
     takeWhile (\<lambda>c. c \<noteq> NUL) (if length w1 \<noteq> 0 then trim_shift buf' 0 (length w1) else buf')"
  proof -
    have "length s \<noteq> length w1" using len s by simp
    moreover have "w1 = [] \<Longrightarrow> trim_back buf 0 (length s) = k" using bck by simp
    ultimately show ?thesis using False len front bck
      unfolding coco_string_trim_def buf'_def
      by (simp add: Let_def buf_def [symmetric] del: length_0_conv)
  qed
  ultimately show ?thesis using trim_spec_core [OF w c] s by simp
qed

section \<open>Properties\<close>

text \<open>
  \<open>coco_strfind\<close> returns the first position at which the non-empty sequence occurs in a string
  of at most \<open>10 ^ 9\<close> characters, and \<open>- 1\<close> when it does not occur.
\<close>

theorem coco_strfind_correct:
  assumes "seq \<noteq> []" and "length base \<le> 1000000000"
  shows "coco_strfind base seq =
    Inr (if \<exists>k. occurs_at base seq k then int (LEAST k. occurs_at base seq k) else - 1)"
proof (cases "\<exists>k. occurs_at base seq k")
  case True
  then obtain k where k: "coco_strfind base seq = Inr (int k)" "occurs_at base seq k"
    "\<forall>k' < k. \<not> occurs_at base seq k'"
    using coco_strfind_first [OF assms] by blast
  then have "(LEAST k. occurs_at base seq k) = k" by (intro Least_equality) (auto intro: leI)
  with True k show ?thesis by simp
next
  case False
  then show ?thesis using coco_strfind_first [OF assms] by auto
qed

theorem coco_strfind_correct_witness:
  "coco_strfind ''xbarbar'' ''bar'' = Inr 1 \<and> coco_strfind ''foo'' ''bar'' = Inr (- 1)"
proof
  have o: "occurs_at ''xbarbar'' ''bar'' 1" "\<not> occurs_at ''xbarbar'' ''bar'' 0" by code_simp+
  then have "(LEAST k. occurs_at ''xbarbar'' ''bar'' k) = 1"
    by (intro Least_equality) (simp, metis One_nat_def Suc_leI gr0I)
  with o coco_strfind_correct [of "''bar''" "''xbarbar''"] show "coco_strfind ''xbarbar'' ''bar'' = Inr 1"
    by (auto simp del: One_nat_def)
  have "\<not> occurs_at ''foo'' ''bar'' k" for k by (cases k) (auto simp: occurs_at_def)
  with coco_strfind_correct [of "''bar''" "''foo''"] show "coco_strfind ''foo'' ''bar'' = Inr (- 1)" by simp
qed

text \<open>
  Splitting undoes joining: a list of non-empty strings without the separator that is joined by
  the separator is split into exactly these strings, within the array that was allocated for it.
\<close>

theorem coco_string_split_join:
  assumes "\<forall>x \<in> set xs. x \<noteq> [] \<and> d \<notin> set x"
  shows "coco_string_split (join d xs) d = Inr xs"
  using strtok_tokens_join [OF assms] by simp

theorem coco_string_split_join_witness:
  "coco_string_split ''1-5,21-30,7'' (CHR '','') = Inr [''1-5'', ''21-30'', ''7'']"
  using coco_string_split_join [of "[''1-5'', ''21-30'', ''7'']" "CHR '',''"] by simp

text \<open>
  \<open>coco_string_trim\<close>, which shifts the text inside its buffer, removes exactly the white space at
  both ends of every C string.
\<close>

theorem coco_string_trim_correct:
  assumes "c_string s"
  shows "coco_string_trim s = trim_spec s"
  using assms by (rule coco_string_trim_spec)

theorem coco_string_trim_correct_witness:
  "coco_string_trim ''  a b '' = ''a b''"
proof -
  have "c_string ''  a b ''" by code_simp
  moreover have "trim_spec ''  a b '' = ''a b''" by code_simp
  ultimately show ?thesis using coco_string_trim_correct by simp
qed

text \<open>
  \<open>coco_remove_from_string\<close> cuts out the text from the first occurrence of \<open>from\<close> up to, and not
  including, the first occurrence of \<open>to\<close> behind it.
\<close>

theorem coco_remove_from_string_correct:
  assumes "from_s \<noteq> []" and "to_s \<noteq> []"
    and "\<forall>i < length p. \<not> occurs_at (p @ from_s @ x @ to_s @ y) from_s i"
    and "\<forall>i < length (p @ from_s @ x). \<not> occurs_at (p @ from_s @ x @ to_s @ y) to_s i"
  shows "coco_remove_from_string (p @ from_s @ x @ to_s @ y) from_s to_s = Inr (p @ to_s @ y)"
  using assms by (rule coco_remove_from_string_between)

theorem coco_remove_from_string_correct_witness:
  "coco_remove_from_string ''f01_i02_d03'' ''_i'' ''_d'' = Inr ''f01_d03''"
proof -
  have "\<forall>i < 3. \<not> occurs_at ''f01_i02_d03'' ''_i'' i" "\<forall>i < 7. \<not> occurs_at ''f01_i02_d03'' ''_d'' i"
    by code_simp+
  with coco_remove_from_string_correct [of "''_i''" "''_d''" "''f01''" "''02''" "''03''"] show ?thesis
    by (simp add: eval_nat_numeral)
qed

end
