(* ===== verification/Coco_Ranges.thy ===== *)
theory Coco_Ranges
  imports Coco_Strings
begin

text \<open>
  Lists of numbers given as strings: \<open>coco_string_parse_ranges\<close> (\<open>coco_string.c\<close>) and
  \<open>coco_count_numbers\<close> (\<open>coco_utilities.c\<close>). Number arrays are lists that include the
  terminating 0 the code writes; NULL is \<open>None\<close>. Warnings do not influence the control flow and
  are not modelled.
\<close>

section \<open>strtol\<close>

definition digit_value :: "char \<Rightarrow> nat" where
  "digit_value c = of_char c - 48"

fun decimal_value :: "nat \<Rightarrow> string \<Rightarrow> nat" where
  "decimal_value acc [] = acc"
| "decimal_value acc (c # cs) =
     (if isdigit c then decimal_value (10 * acc + digit_value c) cs else acc)"

definition LONG_MAX :: int where
  "LONG_MAX = 2 ^ 63 - 1"

definition LONG_MIN :: int where
  "LONG_MIN = - (2 ^ 63)"

text \<open>\<open>strtol(s, NULL, 10)\<close>: optional white space, optional sign, digits, clamped to \<open>long\<close>.\<close>

definition strtol10 :: "string \<Rightarrow> int" where
  "strtol10 s =
     (let s = dropWhile isspace s in
      case s of
        [] \<Rightarrow> 0
      | c # cs \<Rightarrow>
          (if c = CHR ''-'' then max LONG_MIN (- int (decimal_value 0 cs))
           else if c = CHR ''+'' then min LONG_MAX (int (decimal_value 0 cs))
           else min LONG_MAX (int (decimal_value 0 (c # cs)))))"

text \<open>The cast \<open>(size_t) strtol(...)\<close>.\<close>

definition strtol_size :: "string \<Rightarrow> nat" where
  "strtol_size s = nat (strtol10 s mod 2 ^ 64)"

section \<open>coco_count_numbers\<close>

function count_numbers_loop :: "nat list \<Rightarrow> nat \<Rightarrow> nat \<Rightarrow> nat result" where
  "count_numbers_loop numbers max_count count =
     (if count < max_count then
        (if count \<ge> length numbers then Inl Out_of_bounds
         else if numbers ! count \<noteq> 0 then count_numbers_loop numbers max_count (Suc count)
         else Inr count)
      else Inr count)"
  by pat_completeness auto
termination
  by (relation "measure (\<lambda>(ns, m, c). m - c)") auto

declare count_numbers_loop.simps [simp del]

definition coco_count_numbers :: "nat list option \<Rightarrow> nat \<Rightarrow> nat result" where
  "coco_count_numbers numbers max_count =
     (case numbers of
        None \<Rightarrow> (if max_count = 0 then Inl (Coco_error ''coco_count_numbers'') else Inl Null_deref)
      | Some ns \<Rightarrow>
          rbind (count_numbers_loop ns max_count 0) (\<lambda>count.
            if count = max_count then Inl (Coco_error ''coco_count_numbers'') else Inr count))"

section \<open>coco_string_parse_ranges\<close>

text \<open>One range: \<open>None\<close> when the code stops parsing at it, else its two bounds.\<close>

definition range_numbers :: "string \<Rightarrow> nat \<Rightarrow> nat \<Rightarrow> (nat \<times> nat) option result" where
  "range_numbers r mn mx =
     (let dashes = length (filter (\<lambda>c. c = CHR ''-'') r) in
      if dashes > 1 then Inr None
      else if dashes = 0 then Inr (Some (strtol_size r, strtol_size r))
      else
        rbind (coco_string_split r (CHR ''-'')) (\<lambda>numbers.
          case numbers of
            [] \<Rightarrow> (if mn = 0 \<or> mx = 0 then Inr None else Inr (Some (mn, mx)))
          | [a] \<Rightarrow>
              (if hd r = CHR ''-'' then
                 (if mn = 0 then Inr None else Inr (Some (mn, strtol_size a)))
               else
                 (if mx = 0 then Inr None else Inr (Some (strtol_size a, mx))))
          | [a, b] \<Rightarrow> Inr (Some (strtol_size a, strtol_size b))
          | _ \<Rightarrow> Inl (Assert_failed ''coco_string_parse_ranges'')))"

text \<open>Adjusting a range to the boundaries; \<open>None\<close> when nothing of it is left.\<close>

definition range_clip :: "nat \<Rightarrow> nat \<Rightarrow> nat \<times> nat \<Rightarrow> (nat \<times> nat) option" where
  "range_clip mn mx num =
     (let n0 = (if mn > 0 \<and> fst num < mn then mn else fst num);
          n1 = (if mx > 0 \<and> snd num > mx then mx else snd num)
      in if n0 > n1 then None else Some (n0, n1))"

function range_write :: "nat \<Rightarrow> nat list \<Rightarrow> nat \<Rightarrow> nat \<Rightarrow> nat list" where
  "range_write max_count res j n1 =
     (if j \<le> n1 then
        (if length res > size_sub max_count 1 then res
         else range_write max_count (res @ [j]) (Suc j) n1)
      else res)"
  by pat_completeness auto
termination
  by (relation "measure (\<lambda>(m, res, j, n1). Suc n1 - j)") auto

declare range_write.simps [simp del]

definition ranges_finish :: "nat list \<Rightarrow> nat list option" where
  "ranges_finish res = (if res = [] then None else Some (res @ [0]))"

fun ranges_loop :: "nat \<Rightarrow> nat \<Rightarrow> nat \<Rightarrow> nat list \<Rightarrow> string list \<Rightarrow> nat list option result" where
  "ranges_loop mn mx max_count res [] = Inr (ranges_finish res)"
| "ranges_loop mn mx max_count res (r # rs) =
     rbind (range_numbers r mn mx) (\<lambda>num.
       case num of
         None \<Rightarrow> Inr (ranges_finish res)
       | Some num \<Rightarrow>
           (case range_clip mn mx num of
              None \<Rightarrow> Inr (ranges_finish res)
            | Some (n0, n1) \<Rightarrow>
                ranges_loop mn mx max_count (range_write max_count res n0 n1) rs))"

definition range_char :: "char \<Rightarrow> bool" where
  "range_char c \<longleftrightarrow> c = CHR ''-'' \<or> c = CHR '','' \<or> isdigit c"

definition coco_string_parse_ranges ::
  "string option \<Rightarrow> nat \<Rightarrow> nat \<Rightarrow> nat \<Rightarrow> nat list option result" where
  "coco_string_parse_ranges string mn mx max_count =
     (case string of
        None \<Rightarrow> Inr None
      | Some str \<Rightarrow>
          if length str = 0 then Inr None
          else if \<not> list_all range_char str then Inr None
          else if mx > 0 \<and> mn > mx then Inr None
          else rbind (coco_string_split str (CHR '','')) (ranges_loop mn mx max_count []))"

section \<open>Facts\<close>

lemma isdigit_char: "isdigit c \<Longrightarrow> \<not> isspace c \<and> c \<noteq> CHR ''-'' \<and> c \<noteq> CHR ''+'' \<and> c \<noteq> CHR '',''"
  by (auto simp: isdigit_def isspace_def)

text \<open>The counting loop stops at the first 0.\<close>

lemma count_numbers_loop_prefix:
  "\<forall>x \<in> set xs. x \<noteq> 0 \<Longrightarrow> length xs < m \<Longrightarrow> i \<le> length xs
   \<Longrightarrow> count_numbers_loop (xs @ 0 # ys) m i = Inr (length xs)"
proof (induction "xs @ 0 # ys" m i rule: count_numbers_loop.induct)
  case (1 m i)
  show ?case
  proof (cases "i = length xs")
    case True
    with 1 show ?thesis by (simp add: count_numbers_loop.simps [of _ m "length xs"])
  next
    case False
    with 1 show ?thesis
      by (simp add: count_numbers_loop.simps [of _ m i] nth_append)
  qed
qed

lemma coco_count_numbers_prefix:
  "\<forall>x \<in> set xs. x \<noteq> 0 \<Longrightarrow> length xs < m \<Longrightarrow> coco_count_numbers (Some (xs @ [0])) m = Inr (length xs)"
  by (simp add: coco_count_numbers_def count_numbers_loop_prefix)

lemma count_numbers_loop_full:
  "\<forall>x \<in> set xs. x \<noteq> 0 \<Longrightarrow> m \<le> length xs \<Longrightarrow> i \<le> m \<Longrightarrow> count_numbers_loop (xs @ ys) m i = Inr m"
proof (induction "xs @ ys" m i rule: count_numbers_loop.induct)
  case (1 m i)
  then show ?case
    by (cases "i = m")
      (simp_all add: count_numbers_loop.simps [of _ m i] count_numbers_loop.simps [of _ m m] nth_append)
qed

lemma coco_count_numbers_full:
  "\<forall>x \<in> set xs. x \<noteq> 0 \<Longrightarrow> m \<le> length xs
   \<Longrightarrow> coco_count_numbers (Some (xs @ ys)) m = Inl (Coco_error ''coco_count_numbers'')"
  by (simp add: coco_count_numbers_def count_numbers_loop_full)

text \<open>The writing loop appends the range, cut off at \<open>max_count\<close> entries.\<close>

lemma range_write_take:
  "0 < m \<Longrightarrow> m < 2 ^ 64 \<Longrightarrow> length res \<le> m
   \<Longrightarrow> range_write m res j n1 = res @ take (m - length res) [j..<Suc n1]"
proof (induction m res j n1 rule: range_write.induct)
  case (1 m res j n1)
  show ?case
  proof (cases "j \<le> n1 \<and> length res < m")
    case True
    then obtain k where k: "m - length res = Suc k" by (cases "m - length res") auto
    have "range_write m (res @ [j]) (Suc j) n1
        = (res @ [j]) @ take (m - length (res @ [j])) [Suc j..<Suc n1]"
      using "1.IH" "1.prems" conjunct1 [OF True] conjunct2 [OF True] by (simp del: upt_Suc)
    moreover have "m - length (res @ [j]) = k" using k by simp
    moreover have "[j..<Suc n1] = j # [Suc j..<Suc n1]" using True by (simp add: upt_conv_Cons)
    ultimately show ?thesis
      using conjunct1 [OF True] conjunct2 [OF True] "1.prems" k
      by (simp add: range_write.simps [of m res j n1] del: upt_Suc)
  next
    case False
    with "1.prems" show ?thesis by (auto simp: range_write.simps [of m res j n1])
  qed
qed

lemma range_clip_within:
  "range_clip mn mx num = Some (n0, n1) \<Longrightarrow>
     n0 \<le> n1 \<and> (mn > 0 \<longrightarrow> mn \<le> n0) \<and> (mx > 0 \<longrightarrow> n1 \<le> mx) \<and> fst num \<le> n0 \<and> n1 \<le> snd num"
  by (auto simp: range_clip_def Let_def split: if_splits)

text \<open>What every result of \<open>ranges_loop\<close> satisfies, by induction over the ranges.\<close>

lemma ranges_loop_within:
  assumes "0 < m" and "m < 2 ^ 64"
  shows "ranges_loop mn mx m res rs = Inr (Some out) \<Longrightarrow> length res \<le> m \<Longrightarrow>
     \<forall>x \<in> set res. (mn > 0 \<longrightarrow> mn \<le> x) \<and> (mx > 0 \<longrightarrow> x \<le> mx) \<Longrightarrow>
     \<exists>ns. out = ns @ [0] \<and> ns \<noteq> [] \<and> length ns \<le> m \<and>
       (\<forall>x \<in> set ns. (mn > 0 \<longrightarrow> mn \<le> x) \<and> (mx > 0 \<longrightarrow> x \<le> mx))"
proof (induction rs arbitrary: res)
  case Nil
  then show ?case by (auto simp: ranges_finish_def split: if_splits)
next
  case (Cons r rs)
  show ?case
  proof (cases "\<exists>num n0 n1. range_numbers r mn mx = Inr (Some num) \<and> range_clip mn mx num = Some (n0, n1)")
    case True
    then obtain num n0 n1 where n: "range_numbers r mn mx = Inr (Some num)"
      and c: "range_clip mn mx num = Some (n0, n1)" by blast
    have w: "range_write m res n0 n1 = res @ take (m - length res) [n0..<Suc n1]"
      using assms Cons.prems(2) by (rule range_write_take)
    have "\<forall>x \<in> set (take (m - length res) [n0..<Suc n1]).
        (mn > 0 \<longrightarrow> mn \<le> x) \<and> (mx > 0 \<longrightarrow> x \<le> mx)"
      using range_clip_within [OF c] by (auto dest!: in_set_takeD)
    with w have "length (range_write m res n0 n1) \<le> m"
      "\<forall>x \<in> set (range_write m res n0 n1). (mn > 0 \<longrightarrow> mn \<le> x) \<and> (mx > 0 \<longrightarrow> x \<le> mx)"
      using Cons.prems(2,3) by (auto simp del: upt_Suc)
    with Cons.IH [of "range_write m res n0 n1"] Cons.prems(1) n c show ?thesis by simp
  next
    case False
    with Cons.prems(1) have "ranges_finish res = Some out"
      by (cases "range_numbers r mn mx") (auto split: option.splits)
    with Cons.prems show ?thesis by (auto simp: ranges_finish_def split: if_splits)
  qed
qed

section \<open>Printed ranges are parsed back\<close>

text \<open>The decimal representation \<open>printf\<close> writes for the conversion \<open>%lu\<close>.\<close>

fun show_nat :: "nat \<Rightarrow> string" where
  "show_nat n = (if n < 10 then [char_of (48 + n)] else show_nat (n div 10) @ [char_of (48 + n mod 10)])"

declare show_nat.simps [simp del]

lemma digit_char: "k < 10 \<Longrightarrow> isdigit (char_of (48 + k)) \<and> digit_value (char_of (48 + k)) = k"
  by (simp add: isdigit_def digit_value_def)

lemma show_nat_digits: "list_all isdigit (show_nat n)"
proof (induction n rule: show_nat.induct)
  case (1 n)
  then show ?case
    by (cases "n < 10") (simp_all add: show_nat.simps [of n] digit_char)
qed

lemma show_nat_nonempty: "show_nat n \<noteq> []"
  by (simp add: show_nat.simps [of n])

lemma decimal_value_append:
  "list_all isdigit xs \<Longrightarrow> decimal_value acc (xs @ ys) = decimal_value (decimal_value acc xs) ys"
  by (induction xs arbitrary: acc) simp_all

lemma decimal_value_show: "decimal_value 0 (show_nat n) = n"
proof (induction n rule: show_nat.induct)
  case (1 n)
  show ?case
  proof (cases "n < 10")
    case True
    then show ?thesis by (simp add: show_nat.simps [of n] digit_char)
  next
    case False
    with 1 have "decimal_value 0 (show_nat n) = 10 * (n div 10) + n mod 10"
      by (simp add: show_nat.simps [of n] decimal_value_append show_nat_digits digit_char)
    then show ?thesis by simp
  qed
qed

lemma strtol_size_show: "n < 2 ^ 63 \<Longrightarrow> strtol_size (show_nat n) = n"
proof -
  assume n: "n < 2 ^ 63"
  obtain c cs where s: "show_nat n = c # cs" using show_nat_nonempty [of n] by (cases "show_nat n") auto
  then have c: "isdigit c" using show_nat_digits [of n] by simp
  have "strtol10 (show_nat n) = int n"
    using s c isdigit_char [OF c] decimal_value_show [of n] n
    by (simp add: strtol10_def LONG_MAX_def)
  then show ?thesis using n by (simp add: strtol_size_def nat_mod_as_int)
qed

text \<open>The five forms of a range: \<open>n\<close>, \<open>n-m\<close>, \<open>-m\<close>, \<open>n-\<close> and \<open>-\<close>.\<close>

datatype range_item = Single nat | Between nat nat | Up_to nat | From nat | Everything

fun show_item :: "range_item \<Rightarrow> string" where
  "show_item (Single n) = show_nat n"
| "show_item (Between a b) = show_nat a @ ''-'' @ show_nat b"
| "show_item (Up_to b) = ''-'' @ show_nat b"
| "show_item (From a) = show_nat a @ ''-''"
| "show_item Everything = ''-''"

fun item_bounds :: "nat \<Rightarrow> nat \<Rightarrow> range_item \<Rightarrow> nat \<times> nat" where
  "item_bounds mn mx (Single n) = (n, n)"
| "item_bounds mn mx (Between a b) = (a, b)"
| "item_bounds mn mx (Up_to b) = (mn, b)"
| "item_bounds mn mx (From a) = (a, mx)"
| "item_bounds mn mx Everything = (mn, mx)"

fun item_closed :: "nat \<Rightarrow> nat \<Rightarrow> range_item \<Rightarrow> bool" where
  "item_closed mn mx (Up_to b) = (mn > 0)"
| "item_closed mn mx (From a) = (mx > 0)"
| "item_closed mn mx Everything = (mn > 0 \<and> mx > 0)"
| "item_closed mn mx _ = True"

definition item_ok :: "nat \<Rightarrow> nat \<Rightarrow> range_item \<Rightarrow> bool" where
  "item_ok mn mx it \<longleftrightarrow>
     (let (lo, hi) = item_bounds mn mx it in
      item_closed mn mx it \<and> lo \<le> hi \<and> hi < 2 ^ 63 \<and> (mn > 0 \<longrightarrow> mn \<le> lo) \<and> (mx > 0 \<longrightarrow> hi \<le> mx))"

definition item_numbers :: "nat \<Rightarrow> nat \<Rightarrow> range_item \<Rightarrow> nat list" where
  "item_numbers mn mx it = (let (lo, hi) = item_bounds mn mx it in [lo..<Suc hi])"

lemma show_nat_no_dash: "CHR ''-'' \<notin> set (show_nat n)" "CHR '','' \<notin> set (show_nat n)"
  using show_nat_digits [of n] isdigit_char by (auto simp: list_all_iff)

lemma filter_dash_show: "filter (\<lambda>c. c = CHR ''-'') (show_nat n) = []"
  using show_nat_no_dash(1) [of n] by (auto simp: filter_empty_conv)

lemma tokens_dash:
  "strtok_tokens (CHR ''-'') (show_nat a @ ''-'') = [show_nat a]"
  "strtok_tokens (CHR ''-'') (CHR ''-'' # show_nat b) = [show_nat b]"
  "strtok_tokens (CHR ''-'') (show_nat a @ CHR ''-'' # show_nat b) = [show_nat a, show_nat b]"
  "strtok_tokens (CHR ''-'') ''-'' = []"
  using strtok_tokens_token [OF show_nat_nonempty show_nat_no_dash(1)]
    strtok_tokens_skip [of "CHR ''-''" "show_nat b"]
    strtok_tokens_skip [of "CHR ''-''" "[]"]
  by (simp_all add: strtok_tokens.simps [of _ "[]"])

lemma hd_show_append: "hd (show_nat a @ xs) \<noteq> CHR ''-''"
  using show_nat_nonempty [of a] show_nat_no_dash(1) [of a] by (cases "show_nat a") auto

lemma range_numbers_item:
  "item_ok mn mx it \<Longrightarrow> range_numbers (show_item it) mn mx = Inr (Some (item_bounds mn mx it))"
  by (cases it)
    (auto simp: item_ok_def range_numbers_def Let_def filter_dash_show tokens_dash hd_show_append
      strtol_size_show)

lemma range_clip_item: "item_ok mn mx it \<Longrightarrow>
   range_clip mn mx (item_bounds mn mx it) = Some (item_bounds mn mx it)"
  by (auto simp: item_ok_def range_clip_def Let_def split: prod.splits)

lemma ranges_loop_items:
  assumes m: "0 < m" "m < 2 ^ 64"
  shows "\<forall>it \<in> set its. item_ok mn mx it \<Longrightarrow> length res \<le> m \<Longrightarrow>
     ranges_loop mn mx m res (map show_item its)
       = Inr (ranges_finish (res @ take (m - length res) (concat (map (item_numbers mn mx) its))))"
proof (induction its arbitrary: res)
  case (Cons it its)
  obtain lo hi where b: "item_bounds mn mx it = (lo, hi)" by fastforce
  have ok: "item_ok mn mx it" using Cons.prems by simp
  have w: "range_write m res lo hi = res @ take (m - length res) [lo..<Suc hi]"
    using m Cons.prems(2) by (rule range_write_take)
  have "ranges_loop mn mx m res (map show_item (it # its))
      = ranges_loop mn mx m (range_write m res lo hi) (map show_item its)"
    using range_numbers_item [OF ok] range_clip_item [OF ok] b by simp
  also have "\<dots> = Inr (ranges_finish (range_write m res lo hi
      @ take (m - length (range_write m res lo hi)) (concat (map (item_numbers mn mx) its))))"
    using Cons.prems w by (intro Cons.IH) auto
  finally show ?case by (simp add: w b item_numbers_def [of mn mx it] min_def del: upt_Suc)
qed simp

lemma show_item_chars: "list_all range_char (show_item it)" "CHR '','' \<notin> set (show_item it)"
    "show_item it \<noteq> []"
proof -
  have "list_all range_char (show_nat n)" for n
    using show_nat_digits [of n] by (auto simp: list_all_iff range_char_def)
  then show "list_all range_char (show_item it)"
    by (cases it) (simp_all add: range_char_def)
  show "CHR '','' \<notin> set (show_item it)" "show_item it \<noteq> []"
    by (cases it; simp add: show_nat_no_dash show_nat_nonempty)+
qed

lemma join_items:
  "list_all range_char (join (CHR '','') (map show_item its))"
  "its \<noteq> [] \<Longrightarrow> join (CHR '','') (map show_item its) \<noteq> []"
proof -
  show "list_all range_char (join (CHR '','') (map show_item its))"
    by (induction its rule: induct_list012)
      (simp_all add: show_item_chars range_char_def [of "CHR '',''"])
  show "its \<noteq> [] \<Longrightarrow> join (CHR '','') (map show_item its) \<noteq> []"
    by (induction its rule: induct_list012) (simp_all add: show_item_chars)
qed

lemma parse_ranges_items:
  assumes "its \<noteq> []" and "\<forall>it \<in> set its. item_ok mn mx it"
    and "0 < m" and "m < 2 ^ 64" and "mx > 0 \<longrightarrow> mn \<le> mx"
  shows "coco_string_parse_ranges (Some (join (CHR '','') (map show_item its))) mn mx m
    = Inr (ranges_finish (take m (concat (map (item_numbers mn mx) its))))"
  using assms join_items [of its] ranges_loop_items [OF assms(3,4,2), of "[]"]
    strtok_tokens_join [of "map show_item its" "CHR '',''"]
  by (auto simp: coco_string_parse_ranges_def show_item_chars)

section \<open>Properties\<close>



text \<open>
  Whatever the string, the numbers \<open>coco_string_parse_ranges\<close> returns are at most \<open>max_count\<close>,
  lie between \<open>min\<close> and \<open>max\<close> (where these are not 0) and are followed by the terminating 0.
\<close>

theorem coco_string_parse_ranges_bounds:
  assumes "0 < m" and "m < 2 ^ 64"
    and "coco_string_parse_ranges str mn mx m = Inr (Some out)"
  shows "\<exists>ns. out = ns @ [0] \<and> ns \<noteq> [] \<and> length ns \<le> m \<and>
    (\<forall>x \<in> set ns. (mn > 0 \<longrightarrow> mn \<le> x) \<and> (mx > 0 \<longrightarrow> x \<le> mx))"
proof -
  obtain rs where "ranges_loop mn mx m [] rs = Inr (Some out)"
    using assms(3) by (auto simp: coco_string_parse_ranges_def rbind_eq_Inr split: option.splits if_splits)
  from ranges_loop_within [OF assms(1,2) this] show ?thesis by simp
qed

theorem coco_string_parse_ranges_bounds_witness:
  "\<exists>ns. [3, 4, 5, 0] = ns @ [0] \<and> (\<forall>x \<in> set ns. (3::nat) \<le> x \<and> x \<le> 5)"
proof -
  have "coco_string_parse_ranges (Some ''1-9,2'') 3 5 10 = Inr (Some [3, 4, 5, 0])" by code_simp
  from coco_string_parse_ranges_bounds [OF _ _ this] show ?thesis by auto
qed

text \<open>
  \<open>coco_count_numbers\<close> counts the numbers before the first 0; it fails when there are
  \<open>max_count\<close> of them, not only when there are more as its comment says.
\<close>

theorem coco_count_numbers_boundary:
  assumes "\<forall>x \<in> set xs. x \<noteq> 0"
  shows "coco_count_numbers (Some (xs @ [0])) m =
    (if length xs < m then Inr (length xs) else Inl (Coco_error ''coco_count_numbers''))"
  using coco_count_numbers_prefix [OF assms, of m] coco_count_numbers_full [OF assms, of m "[0]"] by simp

theorem coco_count_numbers_boundary_witness:
  "coco_count_numbers (Some [4, 5, 0]) 3 = Inr 2
   \<and> coco_count_numbers (Some [4, 5, 0]) 2 = Inl (Coco_error ''coco_count_numbers'')"
  using coco_count_numbers_boundary [of "[4, 5]"] by simp

end
