(* ===== verification/Coco_Options.thy ===== *)
theory Coco_Options
  imports Coco_Ranges
begin

text \<open>
  Option strings of the form \<open>name1: value1 name2: value2\<close> (\<open>coco_utilities.c\<close>): the readers
  \<open>coco_options_read\<close> and its instances, \<open>coco_options_read_values\<close>, the option keys used to
  warn about unknown options, and \<open>coco_vstrdupf\<close> with its fixed buffer. Arguments that may be
  NULL are options.
\<close>

section \<open>sscanf conversions\<close>

text \<open>
  The number of assignments (\<open>EOF\<close> is \<open>- 1\<close>) and the assigned value of one \<open>sscanf\<close> conversion.
\<close>

type_synonym 'v scan = "int \<times> 'v option"

definition hex_value :: "char \<Rightarrow> nat" where
  "hex_value c =
     (let n = of_char c in
      if 48 \<le> n \<and> n \<le> 57 then n - 48
      else if 97 \<le> n \<and> n \<le> 102 then n - 87
      else if 65 \<le> n \<and> n \<le> 70 then n - 55
      else 99)"

fun base_value :: "nat \<Rightarrow> nat \<Rightarrow> string \<Rightarrow> nat" where
  "base_value b acc [] = acc"
| "base_value b acc (c # cs) = (if hex_value c < b then base_value b (b * acc + hex_value c) cs else acc)"

definition starts_digit :: "nat \<Rightarrow> string \<Rightarrow> bool" where
  "starts_digit b s \<longleftrightarrow> s \<noteq> [] \<and> hex_value (hd s) < b"

text \<open>The conversion \<open>%i\<close>: decimal, octal with a leading 0, hexadecimal with a leading 0x.\<close>

definition scan_i :: "string \<Rightarrow> int scan" where
  "scan_i s =
     (let s = dropWhile isspace s in
      if s = [] then (- 1, None)
      else
        let neg = (hd s = CHR ''-'');
            t = (if hd s = CHR ''-'' \<or> hd s = CHR ''+'' then tl s else s);
            sg = (\<lambda>n. if neg then - int n else int n)
        in
          if take 2 t = ''0x'' \<or> take 2 t = ''0X'' then
            (if starts_digit 16 (drop 2 t) then (1, Some (sg (base_value 16 0 (drop 2 t)))) else (0, None))
          else if take 1 t = ''0'' then (1, Some (sg (base_value 8 0 t)))
          else if starts_digit 10 t then (1, Some (sg (base_value 10 0 t)))
          else (0, None))"

text \<open>The conversion \<open>%lu\<close>; a minus sign negates in \<open>unsigned long\<close>.\<close>

definition scan_lu :: "string \<Rightarrow> nat scan" where
  "scan_lu s =
     (let s = dropWhile isspace s in
      if s = [] then (- 1, None)
      else
        let neg = (hd s = CHR ''-'');
            t = (if hd s = CHR ''-'' \<or> hd s = CHR ''+'' then tl s else s);
            n = min (2 ^ 64 - 1) (base_value 10 0 t)
        in if starts_digit 10 t
           then (1, Some (if neg \<and> base_value 10 0 t < 2 ^ 64 then size_sub 0 n else n))
           else (0, None))"

text \<open>The conversions \<open>%s\<close> and, after a quote, \<open>%[^"]\<close>.\<close>

definition scan_word :: "string \<Rightarrow> string scan" where
  "scan_word s =
     (let s = dropWhile isspace s in
      if s = [] then (- 1, None) else (1, Some (takeWhile (\<lambda>c. \<not> isspace c) s)))"

definition quote_char :: char where
  "quote_char = char_of (34::nat)"

definition scan_quoted :: "string \<Rightarrow> string scan" where
  "scan_quoted s =
     (case s of
        [] \<Rightarrow> (- 1, None)
      | q # t \<Rightarrow>
          if q \<noteq> quote_char then (0, None)
          else if t = [] then (- 1, None)
          else if hd t = quote_char then (0, None)
          else (1, Some (takeWhile (\<lambda>c. c \<noteq> quote_char) t)))"

section \<open>Reading one option\<close>

function skip_spaces :: "string \<Rightarrow> nat \<Rightarrow> nat" where
  "skip_spaces s i = (if isspace (char_at s i) then skip_spaces s (Suc i) else i)"
  by pat_completeness auto
termination
  by (relation "measure (\<lambda>(s, i). length s - i)") (auto simp: char_at_def split: if_splits)

declare skip_spaces.simps [simp del]

definition coco_options_read :: "(string \<Rightarrow> 'v scan) \<Rightarrow> string option \<Rightarrow> string \<Rightarrow> 'v scan result" where
  "coco_options_read sscanf options name =
     (case options of
        None \<Rightarrow> Inr (0, None)
      | Some opts \<Rightarrow>
          if length opts = 0 then Inr (0, None)
          else rbind (coco_strfind opts name) (\<lambda>i1.
            if i1 < 0 then Inr (0, None)
            else rbind (coco_strfind (drop (nat i1) opts) '':'') (\<lambda>colon.
              let i2 = i1 + colon + 1;
                  i2 = int (skip_spaces opts (nat i2))
              in if i2 \<le> i1 then Inr (0, None)
                 else Inr (sscanf (drop (nat i2) opts)))))"

definition coco_options_read_int :: "string option \<Rightarrow> string \<Rightarrow> int scan result" where
  "coco_options_read_int = coco_options_read scan_i"

definition coco_options_read_size_t :: "string option \<Rightarrow> string \<Rightarrow> nat scan result" where
  "coco_options_read_size_t = coco_options_read scan_lu"

text \<open>
  \<open>coco_options_read_string\<close> repeats the search of \<open>coco_options_read\<close> and chooses the format by
  the first character of the value.
\<close>

definition coco_options_read_string :: "string option \<Rightarrow> string \<Rightarrow> string scan result" where
  "coco_options_read_string =
     coco_options_read (\<lambda>v. if char_at v 0 = quote_char then scan_quoted v else scan_word v)"

text \<open>
  \<open>coco_options_read_values\<close> copies into the caller's buffer of \<open>cap\<close> bytes; the result is the
  number of characters copied and the string in the buffer (\<open>None\<close>: not written).
\<close>

function read_values_loop :: "string \<Rightarrow> nat \<Rightarrow> nat \<Rightarrow> nat \<Rightarrow> string \<Rightarrow> string result" where
  "read_values_loop options cap i2 i pointer =
     (let c = char_at options (i2 + i) in
      if \<not> isalpha c \<and> c \<noteq> NUL then
        (if isspace c then read_values_loop options cap (Suc i2) i pointer
         else if i < cap then read_values_loop options cap i2 (Suc i) (pointer @ [c])
         else Inl Buffer_overflow)
      else if i < cap then Inr pointer else Inl Buffer_overflow)"
  by pat_completeness auto
termination
  by (relation "measure (\<lambda>(opts, cap, i2, i, p). length opts - (i2 + i))")
    (auto simp: char_at_def split: if_splits)

declare read_values_loop.simps [simp del]

definition coco_options_read_values :: "string option \<Rightarrow> string \<Rightarrow> nat \<Rightarrow> string scan result" where
  "coco_options_read_values options name cap =
     (case options of
        None \<Rightarrow> Inr (0, None)
      | Some opts \<Rightarrow>
          if length opts = 0 then Inr (0, None)
          else rbind (coco_strfind opts name) (\<lambda>i1.
            if i1 < 0 then Inr (0, None)
            else rbind (coco_strfind (drop (nat i1) opts) '':'') (\<lambda>colon.
              let i2 = i1 + colon + 1 in
              if i2 \<le> i1 then Inr (0, None)
              else rbind (read_values_loop opts cap (nat i2) 0 []) (\<lambda>pointer.
                Inr (int (length pointer), Some pointer)))))"

section \<open>Formatted duplication\<close>

text \<open>
  \<open>coco_vstrdupf\<close> formats into a static buffer of 444 bytes. The text \<open>written\<close> is what
  \<open>vsprintf\<close> produces for the format \<open>fmt\<close> and its arguments; it is only checked after it has been
  written.
\<close>

definition COCO_VSTRDUPF_BUFLEN :: nat where
  "COCO_VSTRDUPF_BUFLEN = 444"

definition coco_vstrdupf :: "string \<Rightarrow> string \<Rightarrow> string result" where
  "coco_vstrdupf fmt written =
     (if \<not> length fmt < COCO_VSTRDUPF_BUFLEN div 2 - 2 then Inl (Assert_failed ''coco_vstrdupf'')
      else if length written + 1 > COCO_VSTRDUPF_BUFLEN then Inl Buffer_overflow
      else if length written > COCO_VSTRDUPF_BUFLEN - 3 then Inl (Coco_error ''coco_vstrdupf'')
      else Inr written)"

section \<open>Option keys\<close>

text \<open>\<open>coco_option_keys_t\<close> with its count is the list of the keys; NULL is \<open>None\<close>.\<close>

definition coco_option_keys_allocate :: "nat \<Rightarrow> string list \<Rightarrow> string list option result" where
  "coco_option_keys_allocate count keys =
     (if count = 0 then Inr None
      else if length keys < count then Inl Out_of_bounds
      else Inr (Some (take count keys)))"

fun key_found :: "string \<Rightarrow> string list \<Rightarrow> bool" where
  "key_found k [] = False"
| "key_found k (x # xs) = (if k = x then True else key_found k xs)"

fun redundant_loop :: "string list \<Rightarrow> string list \<Rightarrow> string list \<Rightarrow> string list" where
  "redundant_loop known [] acc = acc"
| "redundant_loop known (g # gs) acc =
     redundant_loop known gs (if \<not> key_found g known then acc @ [g] else acc)"

definition coco_option_keys_get_redundant :: "string list \<Rightarrow> string list \<Rightarrow> string list option result" where
  "coco_option_keys_get_redundant known given =
     (let redundant_keys = redundant_loop known given []
      in coco_option_keys_allocate (length redundant_keys) redundant_keys)"

definition coco_option_keys_add :: "string list \<Rightarrow> string list option \<Rightarrow> string list option result" where
  "coco_option_keys_add basic additional =
     (case additional of
        None \<Rightarrow> Inr (Some basic)
      | Some add \<Rightarrow> coco_option_keys_allocate (length basic + length add) (basic @ add))"

text \<open>The key in one substring: what follows the last space, or everything in the first substring.\<close>

definition last_word :: "string \<Rightarrow> string" where
  "last_word s = rev (takeWhile (\<lambda>c. c \<noteq> CHR '' '') (rev s))"

definition key_of :: "nat \<Rightarrow> string \<Rightarrow> string" where
  "key_of i tok =
     (let s = coco_string_trim tok in if CHR '' '' \<notin> set s \<or> i = 0 then s else last_word s)"

text \<open>The loop over the substrings; it returns the number of keys and the array.\<close>

fun option_keys_loop :: "nat \<Rightarrow> string list \<Rightarrow> string list \<Rightarrow> nat \<times> string list" where
  "option_keys_loop i acc [] = (i, acc)"
| "option_keys_loop i acc (t # ts) =
     (if i > 0 \<and> ts = [] then (i, acc @ [t])
      else option_keys_loop (Suc i) (acc @ [key_of i t]) ts)"

definition coco_option_keys :: "string option \<Rightarrow> string list option result" where
  "coco_option_keys option_string =
     (case option_string of
        None \<Rightarrow> Inr None
      | Some s \<Rightarrow>
          if length s = 0 then Inr None
          else rbind (coco_string_split s (CHR '':'')) (\<lambda>keys.
            let (i, keys') = option_keys_loop 0 [] keys in coco_option_keys_allocate i keys'))"

fun output_loop :: "string \<Rightarrow> string list \<Rightarrow> string result" where
  "output_loop s [] = Inr s"
| "output_loop s (k # ks) =
     rbind (coco_vstrdupf (''%s %s'' @ [char_of (10::nat)]) (s @ '' '' @ k @ [char_of (10::nat)])) (\<lambda>s'. output_loop s' ks)"

definition coco_option_keys_get_output_string :: "string list option \<Rightarrow> string \<Rightarrow> string option result" where
  "coco_option_keys_get_output_string option_keys info_string =
     (case option_keys of
        None \<Rightarrow> Inr None
      | Some keys \<Rightarrow>
          if length keys > 0 then rbind (output_loop info_string keys) (\<lambda>s. Inr (Some s))
          else Inr None)"

section \<open>Facts\<close>

lemma read_values_loop_spec:
  assumes "c_string options" and "length pointer = i"
  shows "read_values_loop options cap i2 i pointer =
     (let vs = pointer @ filter (\<lambda>c. \<not> isspace c) (takeWhile (\<lambda>c. \<not> isalpha c) (drop (i2 + i) options))
      in if length vs < cap then Inr vs else Inl Buffer_overflow)"
  using assms
proof (induction options cap i2 i pointer rule: read_values_loop.induct)
  case (1 options cap i2 i pointer)
  let ?c = "char_at options (i2 + i)"
  show ?case
  proof (cases "i2 + i < length options")
    case False
    then show ?thesis
      using "1.prems" by (simp add: read_values_loop.simps [of options cap i2 i] char_at_def)
  next
    case True
    then have d: "drop (i2 + i) options = ?c # drop (Suc (i2 + i)) options"
      by (simp add: char_at_def Cons_nth_drop_Suc)
    have "?c \<in> set options" using True by (simp add: char_at_def)
    then have n: "?c \<noteq> NUL" using "1.prems"(1) by (auto simp: c_string_def)
    consider "isalpha ?c" | "\<not> isalpha ?c" "isspace ?c" | "\<not> isalpha ?c" "\<not> isspace ?c" "i < cap"
      | "\<not> isalpha ?c" "\<not> isspace ?c" "\<not> i < cap" by blast
    then show ?thesis
    proof cases
      case 1
      then show ?thesis using "1.prems" d by (simp add: read_values_loop.simps [of options cap i2 i])
    next
      case 2
      then show ?thesis
        using "1.IH"(1) [OF refl] "1.prems" n d by (simp add: read_values_loop.simps [of options cap i2 i])
    next
      case 3
      then show ?thesis
        using "1.IH"(2) [OF refl] "1.prems" n d
        by (simp add: read_values_loop.simps [of options cap i2 i] Let_def)
    next
      case 4
      then show ?thesis
        using "1.prems" n d by (simp add: read_values_loop.simps [of options cap i2 i] Let_def)
    qed
  qed
qed

lemma key_found_iff [simp]: "key_found k xs \<longleftrightarrow> k \<in> set xs"
  by (induction xs) auto

lemma redundant_loop_filter: "redundant_loop known gs acc = acc @ filter (\<lambda>g. g \<notin> set known) gs"
  by (induction gs arbitrary: acc) auto

lemma coco_option_keys_get_redundant_filter:
  "coco_option_keys_get_redundant known given =
     (let r = filter (\<lambda>g. g \<notin> set known) given in Inr (if r = [] then None else Some r))"
  by (simp add: coco_option_keys_get_redundant_def redundant_loop_filter
      coco_option_keys_allocate_def Let_def)

lemma option_keys_loop_length:
  "option_keys_loop i acc ts = (n, ks) \<Longrightarrow> length acc = i \<Longrightarrow> n \<le> length ks"
  by (induction i acc ts arbitrary: n ks rule: option_keys_loop.induct) (auto split: if_splits)

text \<open>\<open>coco_option_keys\<close> always returns, whatever the string.\<close>

lemma coco_option_keys_total: "\<exists>ks. coco_option_keys s = Inr ks"
proof (cases s)
  case (Some str)
  obtain n ks where l: "option_keys_loop 0 [] (strtok_tokens (CHR '':'') str) = (n, ks)"
    by fastforce
  have "n \<le> length ks" using option_keys_loop_length [OF l] by simp
  with l Some show ?thesis
    by (auto simp: coco_option_keys_def coco_option_keys_allocate_def)
qed (simp add: coco_option_keys_def)

section \<open>A well-formed option is read\<close>

text \<open>
  \<open>option_at opts name pre rest\<close>: the first occurrence of \<open>name\<close> in \<open>opts\<close> follows \<open>pre\<close> and is
  followed by a colon and \<open>rest\<close>.
\<close>

definition option_at :: "string \<Rightarrow> string \<Rightarrow> string \<Rightarrow> string \<Rightarrow> bool" where
  "option_at opts name pre rest \<longleftrightarrow>
     opts = pre @ name @ '':'' @ rest \<and> name \<noteq> [] \<and> CHR '':'' \<notin> set name
     \<and> length opts \<le> 1000000000 \<and> (\<forall>i < length pre. \<not> occurs_at opts name i)"

lemma coco_strfind_at:
  assumes "seq \<noteq> []" "length base \<le> 1000000000" "occurs_at base seq k" "\<forall>i < k. \<not> occurs_at base seq i"
  shows "coco_strfind base seq = Inr (int k)"
  using coco_strfind_first [OF assms(1,2)] assms(3,4) by (metis linorder_neqE_nat)

lemma coco_strfind_colon:
  assumes "CHR '':'' \<notin> set name" "length (name @ '':'' @ rest) \<le> 1000000000"
  shows "coco_strfind (name @ '':'' @ rest) '':'' = Inr (int (length name))"
proof (rule coco_strfind_at)
  show "occurs_at (name @ '':'' @ rest) '':'' (length name)" by (rule occurs_at_append)
  show "\<forall>i < length name. \<not> occurs_at (name @ '':'' @ rest) '':'' i"
    using assms(1) by (auto simp: occurs_at_nth nth_append in_set_conv_nth)
qed (use assms in auto)

lemma skip_spaces_spec: "skip_spaces s i = i + length (takeWhile isspace (drop i s))"
proof (induction s i rule: skip_spaces.induct)
  case (1 s i)
  show ?case
  proof (cases "i < length s")
    case True
    then have "drop i s = char_at s i # drop (Suc i) s" by (simp add: char_at_def Cons_nth_drop_Suc)
    with 1 show ?thesis by (simp add: skip_spaces.simps [of s i])
  next
    case False
    then show ?thesis by (simp add: skip_spaces.simps [of s i] char_at_def)
  qed
qed

lemma option_at_find:
  assumes "option_at opts name pre rest"
  shows "coco_strfind opts name = Inr (int (length pre))"
    and "coco_strfind (drop (length pre) opts) '':'' = Inr (int (length name))"
    and "drop (length pre + length name + 1) opts = rest" and "opts \<noteq> []"
proof -
  note o = assms [unfolded option_at_def]
  have "occurs_at opts name (length pre)" using o occurs_at_append by metis
  with o show "coco_strfind opts name = Inr (int (length pre))" by (intro coco_strfind_at) auto
  show "coco_strfind (drop (length pre) opts) '':'' = Inr (int (length name))"
    using o coco_strfind_colon [of name rest] by auto
  show "drop (length pre + length name + 1) opts = rest" "opts \<noteq> []"
    using o by auto
qed

lemma coco_options_read_value:
  assumes "option_at opts name pre rest"
  shows "coco_options_read sscanf (Some opts) name = Inr (sscanf (dropWhile isspace rest))"
proof -
  note f = option_at_find [OF assms]
  let ?i2 = "length pre + length name + 1"
  have i2: "nat (int (length pre) + int (length name) + 1) = ?i2" by simp
  have "drop (skip_spaces opts ?i2) opts = dropWhile isspace rest"
    by (metis add.commute drop_drop dropWhile_eq_drop f(3) skip_spaces_spec)
  moreover have "?i2 \<le> skip_spaces opts ?i2" by (simp add: skip_spaces_spec)
  ultimately show ?thesis
    using f i2 by (simp add: coco_options_read_def Let_def)
qed

lemma hex_value_digit: "isdigit c \<Longrightarrow> hex_value c = digit_value c \<and> digit_value c < 10"
  by (auto simp: isdigit_def hex_value_def digit_value_def Let_def)

lemma base_value_digits: "list_all isdigit ds \<Longrightarrow> base_value 10 acc (ds @ r)
    = base_value 10 (decimal_value acc ds) r"
  by (induction ds arbitrary: acc) (auto simp: hex_value_digit)

lemma base_value_stop: "\<not> starts_digit b r \<Longrightarrow> base_value b acc r = acc"
  by (cases r) (auto simp: starts_digit_def)

lemma scan_i_decimal:
  assumes "list_all isdigit ds" "ds \<noteq> []" "hd ds \<noteq> CHR ''0''" "\<not> starts_digit 10 r"
  shows "scan_i (ds @ r) = (1, Some (int (decimal_value 0 ds)))"
proof -
  obtain c cs where ds: "ds = c # cs" using assms(2) by (cases ds) auto
  have c: "isdigit c" "\<not> isspace c" "c \<noteq> CHR ''-''" "c \<noteq> CHR ''+''" "c \<noteq> CHR ''0''"
    using assms(1,3) ds isdigit_char [of c] by auto
  have "base_value 10 0 (ds @ r) = decimal_value 0 ds"
    using assms(1,4) by (simp add: base_value_digits base_value_stop)
  moreover have "starts_digit 10 (ds @ r)" using c hex_value_digit [of c] by (simp add: ds starts_digit_def)
  ultimately show ?thesis using c ds by (simp add: scan_i_def Let_def)
qed

lemma show_nat_hd: "n > 0 \<Longrightarrow> hd (show_nat n) \<noteq> CHR ''0''"
proof (induction n rule: show_nat.induct)
  case (1 n)
  show ?case
  proof (cases "n < 10")
    case True
    have "char_of (48 + n) \<noteq> CHR ''0''"
    proof
      assume "char_of (48 + n) = CHR ''0''"
      then have "(of_char (char_of (48 + n) :: char) :: nat) = of_char CHR ''0''" by simp
      with True "1.prems" show False by simp
    qed
    then show ?thesis using True by (simp add: show_nat.simps [of n])
  next
    case False
    then have "hd (show_nat n) = hd (show_nat (n div 10))"
      using show_nat_nonempty [of "n div 10"] by (simp add: show_nat.simps [of n])
    with 1 False show ?thesis by simp
  qed
qed

lemma coco_options_read_int_show:
  assumes "option_at opts name pre (sp @ show_nat n @ r)" and "list_all isspace sp"
    and "0 < n" and "\<not> starts_digit 10 r"
  shows "coco_options_read_int (Some opts) name = Inr (1, Some (int n))"
proof -
  have "\<not> isspace (hd (show_nat n))"
    using show_nat_digits [of n] show_nat_nonempty [of n] isdigit_char
    by (cases "show_nat n") auto
  then have "dropWhile isspace (sp @ show_nat n @ r) = show_nat n @ r"
    using assms(2) show_nat_nonempty [of n]
    by (cases "show_nat n") (auto simp: dropWhile_append list_all_iff)
  then show ?thesis
    using coco_options_read_value [OF assms(1), of scan_i] assms(3,4)
      scan_i_decimal [of "show_nat n" r] show_nat_digits [of n]
    by (simp add: coco_options_read_int_def show_nat_nonempty show_nat_hd decimal_value_show)
qed

lemma coco_options_read_values_value:
  assumes "option_at opts name pre rest" and "c_string opts"
  shows "coco_options_read_values (Some opts) name cap =
     (let vs = filter (\<lambda>c. \<not> isspace c) (takeWhile (\<lambda>c. \<not> isalpha c) rest)
      in if length vs < cap then Inr (int (length vs), Some vs) else Inl Buffer_overflow)"
proof -
  note f = option_at_find [OF assms(1)]
  have i2: "nat (int (length pre) + int (length name) + 1) = length pre + length name + 1" by simp
  show ?thesis
    using f i2 read_values_loop_spec [OF assms(2), of "[]" 0 cap "length pre + length name + 1"]
    by (simp add: coco_options_read_values_def Let_def)
qed

section \<open>Properties\<close>

text \<open>
  A decimal option value is read back: for the first occurrence of the key, followed by a
  colon, white space and a positive number, \<open>coco_options_read_int\<close> assigns that number.
\<close>

theorem coco_options_read_int_correct:
  assumes "option_at opts name pre (sp @ show_nat n @ r)" and "list_all isspace sp"
    and "0 < n" and "\<not> starts_digit 10 r"
  shows "coco_options_read_int (Some opts) name = Inr (1, Some (int n))"
  using assms by (rule coco_options_read_int_show)

theorem coco_options_read_int_correct_witness:
  "coco_options_read_int (Some ''year: 2016 x: 3'') ''year'' = Inr (1, Some 2016)"
proof -
  have "option_at ''year: 2016 x: 3'' ''year'' [] ('' '' @ show_nat 2016 @ '' x: 3'')" by code_simp
  moreover have "\<not> starts_digit 10 '' x: 3''" "list_all isspace '' ''" by code_simp+
  ultimately show ?thesis using coco_options_read_int_correct [of _ _ "[]" "'' ''" 2016 "'' x: 3''"] by simp
qed

text \<open>
  C40. \<open>coco_options_read_values\<close> copies the value up to the next letter without its white space; it
  writes behind the end of the caller's buffer exactly when the value with its terminator does not
  fit.
\<close>

theorem coco_options_read_values_correct:
  assumes "option_at opts name pre rest" and "c_string opts"
  shows "coco_options_read_values (Some opts) name cap =
    (let vs = filter (\<lambda>c. \<not> isspace c) (takeWhile (\<lambda>c. \<not> isalpha c) rest)
     in if length vs < cap then Inr (int (length vs), Some vs) else Inl Buffer_overflow)"
  using assms by (rule coco_options_read_values_value)

theorem coco_options_read_values_correct_witness:
  "coco_options_read_values (Some ''instances: 1 - 5, 7'') ''instances'' 6 = Inr (5, Some ''1-5,7'')
   \<and> coco_options_read_values (Some ''instances: 1 - 5, 7'') ''instances'' 5 = Inl Buffer_overflow"
proof -
  have "option_at ''instances: 1 - 5, 7'' ''instances'' [] '' 1 - 5, 7''" by code_simp
  moreover have "c_string ''instances: 1 - 5, 7''" by code_simp
  moreover have "filter (\<lambda>c. \<not> isspace c) (takeWhile (\<lambda>c. \<not> isalpha c) '' 1 - 5, 7'') = ''1-5,7''" by code_simp
  ultimately show ?thesis
    using coco_options_read_values_correct [of "''instances: 1 - 5, 7''" "''instances''" "[]" "'' 1 - 5, 7''"]
    by (simp add: Let_def)
qed

text \<open>
  The redundant option keys are the given keys that are not known, in the order given, and
  extracting the keys of an option string never fails.
\<close>

theorem option_keys_redundant:
  "(\<exists>ks. coco_option_keys s = Inr ks)
   \<and> coco_option_keys_get_redundant known given =
       (let r = filter (\<lambda>g. g \<notin> set known) given in Inr (if r = [] then None else Some r))"
  using coco_option_keys_total coco_option_keys_get_redundant_filter by blast

end
