(* ===== verification/Coco_Numerics.thy ===== *)
theory Coco_Numerics
  imports Coco_Prelude "HOL-Library.Word"
begin

unbundle bit_operations_syntax

text \<open>
  Numerical helpers: the double helpers and vector functions of \<open>coco_utilities.c\<close>, the lagged
  Fibonacci generator of \<open>coco_random.c\<close> and \<open>mo_utilities.c\<close>, the dominance relation of
  normalized objective vectors. The type \<open>double\<close> is idealised as the exact real numbers: there is
  no rounding, no NaN and no infinity. Vectors are lists.
\<close>

section \<open>Double helpers\<close>

definition coco_double_round :: "real \<Rightarrow> real" where
  "coco_double_round number = of_int \<lfloor>number + 1 / 2\<rfloor>"

definition coco_double_max :: "real \<Rightarrow> real \<Rightarrow> real" where
  "coco_double_max a b = (if a \<ge> b then a else b)"

definition coco_double_min :: "real \<Rightarrow> real \<Rightarrow> real" where
  "coco_double_min a b = (if a \<le> b then a else b)"

text \<open>The cast of a negative double to \<open>size_t\<close> is undefined; \<open>None\<close> stands for it.\<close>

definition coco_double_to_size_t :: "real \<Rightarrow> nat option" where
  "coco_double_to_size_t number =
     (let r = \<lfloor>coco_double_round number\<rfloor> in if 0 \<le> r \<and> r < 2 ^ 64 then Some (nat r) else None)"

definition INT_MAX :: int where
  "INT_MAX = 2 ^ 31 - 1"

definition INT_MIN :: int where
  "INT_MIN = - (2 ^ 31)"

text \<open>The cast \<open>(int)\<close> truncates towards 0.\<close>

definition c_truncate :: "real \<Rightarrow> int" where
  "c_truncate x = (if x \<ge> 0 then \<lfloor>x\<rfloor> else \<lceil>x\<rceil>)"

definition coco_double_to_int :: "real \<Rightarrow> int result" where
  "coco_double_to_int number =
     (if number > of_int INT_MAX then Inl (Coco_error ''coco_double_to_int'')
      else if number < of_int INT_MIN then Inl (Coco_error ''coco_double_to_int'')
      else Inr (c_truncate (number + 1 / 2)))"

definition coco_double_almost_equal :: "real \<Rightarrow> real \<Rightarrow> real \<Rightarrow> bool" where
  "coco_double_almost_equal a b precision \<longleftrightarrow> \<bar>a - b\<bar> < precision"

section \<open>Vectors\<close>

text \<open>The loops run over the index; the arrays have at least \<open>dimension\<close> entries.\<close>

definition chosen_precision :: real where
  "chosen_precision = 1 / 10 ^ 9"

definition coco_vector_scale :: "real list \<Rightarrow> real \<Rightarrow> real \<Rightarrow> real list \<times> real" where
  "coco_vector_scale x nom denom =
     (let nom = (if denom \<noteq> 0 then nom / denom else nom) in (map (\<lambda>v. v * nom) x, nom))"

fun sum_squares :: "real \<Rightarrow> real list \<Rightarrow> real" where
  "sum_squares ssum [] = ssum"
| "sum_squares ssum (v # x) = sum_squares (ssum + v * v) x"

definition coco_vector_norm :: "real list \<Rightarrow> real" where
  "coco_vector_norm x = sqrt (sum_squares 0 x)"

fun sum_products :: "real \<Rightarrow> real list \<Rightarrow> real list \<Rightarrow> real result" where
  "sum_products ssum [] y = Inr ssum"
| "sum_products ssum (v # x) (w # y) = sum_products (ssum + v * w) x y"
| "sum_products ssum (v # x) [] = Inl Out_of_bounds"

definition coco_vector_scalar_product :: "real list \<Rightarrow> real list \<Rightarrow> real result" where
  "coco_vector_scalar_product x y = sum_products 0 x y"

fun coco_vector_is_zero :: "real list \<Rightarrow> bool" where
  "coco_vector_is_zero [] = True"
| "coco_vector_is_zero (v # x) =
     (if coco_double_almost_equal v 0 chosen_precision then coco_vector_is_zero x else False)"

section \<open>The random number generator\<close>

definition COCO_SHORT_LAG :: nat where
  "COCO_SHORT_LAG = 273"

definition COCO_LONG_LAG :: nat where
  "COCO_LONG_LAG = 607"

record coco_random_state =
  rnd_x :: "real list"
  rnd_index :: nat

text \<open>
  One step of a generator loop: the entry \<open>i\<close> becomes the fractional sum of itself and entry \<open>k\<close>.
\<close>

definition random_step :: "nat \<Rightarrow> nat \<Rightarrow> real list \<Rightarrow> real list" where
  "random_step i k x = (let t = x ! i + x ! k in x[i := (if t \<ge> 1 then t - 1 else t)])"

fun generate_first :: "nat list \<Rightarrow> real list \<Rightarrow> real list" where
  "generate_first [] x = x"
| "generate_first (i # is) x =
     generate_first is (random_step i (i + (COCO_LONG_LAG - COCO_SHORT_LAG)) x)"

fun generate_second :: "nat list \<Rightarrow> real list \<Rightarrow> real list" where
  "generate_second [] x = x"
| "generate_second (i # is) x = generate_second is (random_step i (i - COCO_SHORT_LAG) x)"

definition coco_random_generate :: "coco_random_state \<Rightarrow> coco_random_state" where
  "coco_random_generate state =
     \<lparr> rnd_x = generate_second [COCO_SHORT_LAG..<COCO_LONG_LAG]
         (generate_first [0..<COCO_SHORT_LAG] (rnd_x state)),
       rnd_index = 0 \<rparr>"

definition advance_seed :: "32 word \<Rightarrow> nat \<Rightarrow> 32 word" where
  "advance_seed seed i = 1812433253 * (seed XOR drop_bit 30 seed) + (of_nat i + 1)"

fun expand_seed :: "32 word \<Rightarrow> nat list \<Rightarrow> real list" where
  "expand_seed seed [] = []"
| "expand_seed seed (i # is) =
     real (unat seed) / (2 ^ 32 - 1) # expand_seed (advance_seed seed i) is"

definition coco_random_new :: "32 word \<Rightarrow> coco_random_state" where
  "coco_random_new seed = \<lparr> rnd_x = expand_seed seed [0..<COCO_LONG_LAG], rnd_index = 12 \<rparr>"

definition coco_random_uniform :: "coco_random_state \<Rightarrow> real \<times> coco_random_state" where
  "coco_random_uniform state =
     (let state = (if rnd_index state \<ge> COCO_LONG_LAG then coco_random_generate state else state)
      in (rnd_x state ! rnd_index state, state\<lparr>rnd_index := rnd_index state + 1\<rparr>))"

text \<open>
  \<open>COCO_NORMAL_POLAR\<close> is defined, so the polar method is compiled. \<open>None\<close> stands for the
  non-finite value that \<open>sqrt(-2 * log(u1))\<close> has for \<open>u1 = 0\<close>.
\<close>

definition coco_random_normal :: "coco_random_state \<Rightarrow> real option \<times> coco_random_state" where
  "coco_random_normal state =
     (let (u1, state) = coco_random_uniform state;
          (u2, state) = coco_random_uniform state
      in (if u1 > 0 then Some (sqrt (- 2 * ln u1) * cos (2 * pi * u2)) else None, state))"

text \<open>The invariant of the generator.\<close>

definition random_ok :: "coco_random_state \<Rightarrow> bool" where
  "random_ok s \<longleftrightarrow> length (rnd_x s) = COCO_LONG_LAG \<and> rnd_index s \<le> COCO_LONG_LAG
     \<and> (\<forall>v \<in> set (rnd_x s). 0 \<le> v \<and> v \<le> 1)"

section \<open>Facts about the generator\<close>

lemma random_step_ok:
  assumes "length x = COCO_LONG_LAG" "i < COCO_LONG_LAG" "k < COCO_LONG_LAG"
    and "\<forall>v \<in> set x. 0 \<le> v \<and> v \<le> 1"
  shows "length (random_step i k x) = COCO_LONG_LAG \<and> (\<forall>v \<in> set (random_step i k x). 0 \<le> v \<and> v \<le> 1)"
proof -
  have "0 \<le> x ! i" "x ! i \<le> 1" "0 \<le> x ! k" "x ! k \<le> 1" using assms by (auto dest: nth_mem)
  moreover have "set (x[i := v]) \<subseteq> insert v (set x)" for v by (rule set_update_subset_insert)
  ultimately show ?thesis using assms(1,4) by (fastforce simp: random_step_def Let_def)
qed

lemma generate_first_ok:
  "\<forall>i \<in> set is. i < COCO_SHORT_LAG \<Longrightarrow> length x = COCO_LONG_LAG \<Longrightarrow> \<forall>v \<in> set x. 0 \<le> v \<and> v \<le> 1
   \<Longrightarrow> length (generate_first is x) = COCO_LONG_LAG \<and> (\<forall>v \<in> set (generate_first is x). 0 \<le> v \<and> v \<le> 1)"
proof (induction "is" x rule: generate_first.induct)
  case (2 i "is" x)
  have "i < COCO_LONG_LAG" "i + (COCO_LONG_LAG - COCO_SHORT_LAG) < COCO_LONG_LAG"
    using "2.prems"(1) by (auto simp: COCO_LONG_LAG_def COCO_SHORT_LAG_def)
  from random_step_ok [OF "2.prems"(2) this "2.prems"(3)] "2.IH" "2.prems"(1) show ?case by simp
qed simp

lemma generate_second_ok:
  "\<forall>i \<in> set is. i < COCO_LONG_LAG \<Longrightarrow> length x = COCO_LONG_LAG \<Longrightarrow> \<forall>v \<in> set x. 0 \<le> v \<and> v \<le> 1
   \<Longrightarrow> length (generate_second is x) = COCO_LONG_LAG \<and> (\<forall>v \<in> set (generate_second is x). 0 \<le> v \<and> v \<le> 1)"
proof (induction "is" x rule: generate_second.induct)
  case (2 i "is" x)
  have "i < COCO_LONG_LAG" "i - COCO_SHORT_LAG < COCO_LONG_LAG" using "2.prems"(1) by auto
  from random_step_ok [OF "2.prems"(2) this "2.prems"(3)] "2.IH" "2.prems"(1) show ?case by simp
qed simp

lemma coco_random_generate_ok: "random_ok s \<Longrightarrow> random_ok (coco_random_generate s)"
proof -
  assume s: "random_ok s"
  let ?x = "generate_first [0..<COCO_SHORT_LAG] (rnd_x s)"
  have "length ?x = COCO_LONG_LAG \<and> (\<forall>v \<in> set ?x. 0 \<le> v \<and> v \<le> 1)"
    using s by (intro generate_first_ok) (auto simp: random_ok_def)
  then have "length (generate_second [COCO_SHORT_LAG..<COCO_LONG_LAG] ?x) = COCO_LONG_LAG
      \<and> (\<forall>v \<in> set (generate_second [COCO_SHORT_LAG..<COCO_LONG_LAG] ?x). 0 \<le> v \<and> v \<le> 1)"
    by (intro generate_second_ok) auto
  then show ?thesis by (simp add: random_ok_def coco_random_generate_def)
qed

lemma expand_seed_ok:
  "length (expand_seed seed is) = length is \<and> (\<forall>v \<in> set (expand_seed seed is). 0 \<le> v \<and> v \<le> 1)"
proof (induction seed "is" rule: expand_seed.induct)
  case (2 seed i "is")
  have "unat seed < 2 ^ LENGTH(32)" by (rule unsigned_less)
  then have "unat seed \<le> 4294967295" by simp
  then have "real (unat seed) \<le> real 4294967295" by (simp only: of_nat_le_iff)
  moreover have "0 \<le> real (unat seed)" by (rule of_nat_0_le_iff)
  ultimately show ?case using 2 by simp
qed simp

lemma coco_random_new_ok: "random_ok (coco_random_new seed)"
  using expand_seed_ok [of seed "[0..<COCO_LONG_LAG]"]
  by (simp add: coco_random_new_def random_ok_def COCO_LONG_LAG_def)

lemma coco_random_uniform_ok:
  assumes "random_ok s" and "coco_random_uniform s = (u, s')"
  shows "random_ok s' \<and> 0 \<le> u \<and> u \<le> 1 \<and> rnd_index s' > 0"
proof -
  define t where "t = (if rnd_index s \<ge> COCO_LONG_LAG then coco_random_generate s else s)"
  have t: "random_ok t" "rnd_index t < COCO_LONG_LAG"
    using assms(1) coco_random_generate_ok
    by (auto simp: t_def coco_random_generate_def COCO_LONG_LAG_def)
  have "u = rnd_x t ! rnd_index t" "s' = t\<lparr>rnd_index := rnd_index t + 1\<rparr>"
    using assms(2) by (auto simp: coco_random_uniform_def t_def Let_def)
  with t show ?thesis by (auto simp: random_ok_def)
qed

lemma coco_random_normal_ok:
  assumes "random_ok s" and "coco_random_normal s = (z, s')"
  shows "random_ok s' \<and> (z = None \<longrightarrow> fst (coco_random_uniform s) = 0)"
proof -
  obtain u1 s1 where 1: "coco_random_uniform s = (u1, s1)" by fastforce
  obtain u2 s2 where 2: "coco_random_uniform s1 = (u2, s2)" by fastforce
  note ok1 = coco_random_uniform_ok [OF assms(1) 1]
  note ok2 = coco_random_uniform_ok [OF conjunct1 [OF ok1] 2]
  show ?thesis using assms(2) 1 2 ok1 ok2
    by (auto simp: coco_random_normal_def split: if_splits)
qed

section \<open>Normalized objective vectors: mo_utilities.c\<close>

definition mo_precision :: real where
  "mo_precision = 1 / 10 ^ 13"

definition mo_discretization :: real where
  "mo_discretization = 5 * (1 / 10 ^ 13)"

fun norm_loop :: "real \<Rightarrow> nat list \<Rightarrow> real list \<Rightarrow> real list \<Rightarrow> real result" where
  "norm_loop nrm [] first second = Inr nrm"
| "norm_loop nrm (i # is) first second =
     rbind (rnth first i) (\<lambda>a. rbind (rnth second i) (\<lambda>b.
       norm_loop (nrm + (a - b) ^ 2) is first second))"

definition mo_get_norm :: "real list \<Rightarrow> real list \<Rightarrow> nat \<Rightarrow> real result" where
  "mo_get_norm first second n = rbind (norm_loop 0 [0..<n] first second) (\<lambda>nrm. Inr (sqrt nrm))"

text \<open>The first loop of \<open>mo_normalize\<close>: scale, round to the grid, cut off below 0.\<close>

definition normalize_value :: "real \<Rightarrow> real \<Rightarrow> real \<Rightarrow> real result" where
  "normalize_value y ideal nadir =
     (if \<not> nadir - ideal > mo_discretization then Inl (Assert_failed ''mo_normalize'')
      else
        let v = (y - ideal) / (nadir - ideal);
            v = coco_double_round (v / mo_discretization) * mo_discretization
        in Inr (if v < 0 then 0 else v))"

fun normalize_loop ::
  "nat list \<Rightarrow> real list \<Rightarrow> real list \<Rightarrow> real list \<Rightarrow> real list \<Rightarrow> real list result" where
  "normalize_loop [] y ideal nadir acc = Inr acc"
| "normalize_loop (i # is) y ideal nadir acc =
     rbind (rnth y i) (\<lambda>yi. rbind (rnth ideal i) (\<lambda>di. rbind (rnth nadir i) (\<lambda>ni.
       rbind (normalize_value yi di ni) (\<lambda>v. normalize_loop is y ideal nadir (acc @ [v])))))"

text \<open>The second loop, for two objectives: beyond one extreme the other objective is at least 1.\<close>

definition adjust_extreme :: "nat \<Rightarrow> real list \<Rightarrow> real list result" where
  "adjust_extreme i v =
     rbind (rnth v i) (\<lambda>vi. rbind (rnth v (1 - i)) (\<lambda>vo.
       if coco_double_almost_equal vi 0 mo_precision \<and> vo < 1 then rupd v (1 - i) 1 else Inr v))"

definition mo_normalize :: "real list \<Rightarrow> real list \<Rightarrow> real list \<Rightarrow> nat \<Rightarrow> real list result" where
  "mo_normalize y ideal nadir num_obj =
     rbind (normalize_loop [0..<num_obj] y ideal nadir []) (\<lambda>v.
       if num_obj = 0 then Inr v
       else if num_obj \<noteq> 2 then Inl (Assert_failed ''mo_normalize'')
       else rbind (adjust_extreme 0 v) (adjust_extreme 1))"

fun dominance_flags ::
  "nat list \<Rightarrow> real list \<Rightarrow> real list \<Rightarrow> bool \<Rightarrow> bool \<Rightarrow> (bool \<times> bool) result" where
  "dominance_flags [] y1 y2 flag1 flag2 = Inr (flag1, flag2)"
| "dominance_flags (i # is) y1 y2 flag1 flag2 =
     rbind (rnth y1 i) (\<lambda>a. rbind (rnth y2 i) (\<lambda>b.
       if coco_double_almost_equal a b mo_precision then dominance_flags is y1 y2 flag1 flag2
       else if a < b then dominance_flags is y1 y2 True flag2
       else if a > b then dominance_flags is y1 y2 flag1 True
       else dominance_flags is y1 y2 flag1 flag2))"

definition mo_get_dominance :: "real list \<Rightarrow> real list \<Rightarrow> nat \<Rightarrow> int result" where
  "mo_get_dominance normalized_y1 normalized_y2 num_obj =
     rbind (dominance_flags [0..<num_obj] normalized_y1 normalized_y2 False False) (\<lambda>(flag1, flag2).
       if flag1 \<and> \<not> flag2 then Inr 1
       else if \<not> flag1 \<and> flag2 then Inr (- 1)
       else if flag1 \<and> flag2 then Inr 0
       else Inr (- 2))"

fun within_loop :: "nat list \<Rightarrow> real list \<Rightarrow> bool \<Rightarrow> bool result" where
  "within_loop [] y inside = Inr inside"
| "within_loop (i # is) y inside =
     rbind (rnth y i) (\<lambda>v.
       if coco_double_almost_equal v 0 mo_precision \<or> coco_double_almost_equal v 1 mo_precision
          \<or> (v > 0 \<and> v < 1)
       then within_loop is y inside
       else within_loop is y False)"

definition mo_is_within_ROI :: "real list \<Rightarrow> nat \<Rightarrow> bool result" where
  "mo_is_within_ROI normalized_y num_obj = within_loop [0..<num_obj] normalized_y True"

definition mo_get_distance_to_ROI :: "real list \<Rightarrow> nat \<Rightarrow> real result" where
  "mo_get_distance_to_ROI normalized_y num_obj =
     rbind (mo_is_within_ROI normalized_y num_obj) (\<lambda>inside.
       if inside then Inr 0
       else if num_obj \<noteq> 2 then Inl (Assert_failed ''mo_get_distance_to_ROI'')
       else rbind (rnth normalized_y 0) (\<lambda>y0. rbind (rnth normalized_y 1) (\<lambda>y1.
         if \<not> y0 \<ge> 0 \<or> \<not> y1 \<ge> 0 then Inl (Assert_failed ''mo_get_distance_to_ROI'')
         else
           let diff_0 = y0 - 1; diff_1 = y1 - 1 in
           if diff_0 > 0 \<and> diff_1 > 0 then Inr (sqrt (diff_0 ^ 2 + diff_1 ^ 2))
           else if diff_0 > 0 then Inr diff_0
           else Inr diff_1)))"

section \<open>Facts about normalized vectors\<close>

text \<open>The grid of the rounded values and its points by their integer coordinates.\<close>

definition grid :: "nat list \<Rightarrow> real list" where
  "grid ks = map (\<lambda>k. real k * mo_discretization) ks"

lemma length_grid [simp]: "length (grid ks) = length ks"
  by (simp add: grid_def)

lemma nth_grid [simp]: "i < length ks \<Longrightarrow> grid ks ! i = real (ks ! i) * mo_discretization"
  by (simp add: grid_def)

lemma upt2: "[0..<2] = [0, 1::nat]"
  by (simp add: upt_rec)

lemma grid_almost_equal [simp]:
  "coco_double_almost_equal (real a * mo_discretization) (real b * mo_discretization) mo_precision \<longleftrightarrow> a = b"
proof -
  have "\<bar>real a - real b\<bar> * 5 < 1 \<longleftrightarrow> a = b"
    by (rule linorder_cases [of a b]) (simp_all add: abs_if)
  moreover have "\<bar>real a * mo_discretization - real b * mo_discretization\<bar>
      = \<bar>real a - real b\<bar> * 5 * mo_precision"
  proof -
    have "real a * mo_discretization - real b * mo_discretization
        = (real a - real b) * (5 * mo_precision)"
      by (simp add: mo_discretization_def mo_precision_def field_simps)
    then have "\<bar>real a * mo_discretization - real b * mo_discretization\<bar>
        = \<bar>real a - real b\<bar> * \<bar>5 * mo_precision\<bar>"
      by (simp only: abs_mult)
    then show ?thesis by (simp add: mo_precision_def)
  qed
  moreover have "\<bar>real a - real b\<bar> * 5 * mo_precision < mo_precision \<longleftrightarrow> \<bar>real a - real b\<bar> * 5 < 1"
    by (simp add: mo_precision_def mult.commute)
  ultimately show ?thesis unfolding coco_double_almost_equal_def by simp
qed

lemma grid_less [simp]: "real a * mo_discretization < real b * mo_discretization \<longleftrightarrow> a < b"
  by (simp add: mo_discretization_def)

text \<open>Dominance of integer vectors, the specification.\<close>

definition pareto :: "nat list \<Rightarrow> nat list \<Rightarrow> bool" where
  "pareto a b \<longleftrightarrow> list_all2 (\<le>) a b \<and> a \<noteq> b"

definition dominance_spec :: "nat list \<Rightarrow> nat list \<Rightarrow> int" where
  "dominance_spec a b = (if a = b then - 2 else if pareto a b then 1 else if pareto b a then - 1 else 0)"

lemma dominance_flags_grid:
  assumes "length a = n" "length b = n"
  shows "\<forall>i \<in> set is. i < n \<Longrightarrow> dominance_flags is (grid a) (grid b) f1 f2
    = Inr (f1 \<or> (\<exists>i \<in> set is. a ! i < b ! i), f2 \<or> (\<exists>i \<in> set is. a ! i > b ! i))"
proof (induction "is" arbitrary: f1 f2)
  case (Cons i "is")
  then have "i < n" by simp
  with Cons assms show ?case by (cases "a ! i" "b ! i" rule: linorder_cases) simp_all
qed simp

lemma mo_get_dominance_grid:
  assumes "length a = n" "length b = n"
  shows "mo_get_dominance (grid a) (grid b) n = Inr (dominance_spec a b)"
proof -
  let ?lt = "\<exists>i \<in> set [0..<n]. a ! i < b ! i" and ?gt = "\<exists>i \<in> set [0..<n]. a ! i > b ! i"
  have le: "list_all2 (\<le>) a b \<longleftrightarrow> \<not> ?gt" "list_all2 (\<le>) b a \<longleftrightarrow> \<not> ?lt"
    using assms by (auto simp: list_all2_conv_all_nth not_less)
  have eq: "a = b \<longleftrightarrow> \<not> ?lt \<and> \<not> ?gt"
    using le list_all2_antisym [of "(\<le>)" "(\<le>)" a b] by (auto intro: list_all2_refl)
  have d: "mo_get_dominance (grid a) (grid b) n = rbind (Inr (?lt, ?gt)) (\<lambda>(flag1, flag2).
       if flag1 \<and> \<not> flag2 then Inr 1
       else if \<not> flag1 \<and> flag2 then Inr (- 1)
       else if flag1 \<and> flag2 then Inr 0
       else Inr (- 2))"
    using dominance_flags_grid [OF assms, of "[0..<n]" False False]
    by (simp only: mo_get_dominance_def) simp
  show ?thesis
    unfolding d dominance_spec_def pareto_def eq_commute [of b a] le eq by (cases ?lt; cases ?gt) simp_all
qed

lemma dominance_spec_swap:
  "dominance_spec b a = (let d = dominance_spec a b in if d = 1 then - 1 else if d = - 1 then 1 else d)"
proof -
  have "\<not> (pareto a b \<and> pareto b a)"
    using list_all2_antisym [of "(\<le>)" "(\<le>)" a b] by (auto simp: pareto_def)
  then show ?thesis by (auto simp: dominance_spec_def Let_def)
qed

lemma pareto_trans: "pareto a b \<Longrightarrow> pareto b c \<Longrightarrow> pareto a c"
proof -
  assume p: "pareto a b" "pareto b c"
  then have "list_all2 (\<le>) a c"
    using list_all2_trans [of "(\<le>)" "(\<le>)" "(\<le>)" a b c] order_trans by (auto simp: pareto_def)
  moreover have "a \<noteq> c"
  proof
    assume "a = c"
    then have "list_all2 (\<le>) a b" "list_all2 (\<le>) b a" using p by (auto simp: pareto_def)
    then have "a = b" by (intro list_all2_antisym [of "(\<le>)" "(\<le>)"]) auto
    then show False using p by (simp add: pareto_def)
  qed
  ultimately show ?thesis by (simp add: pareto_def)
qed

lemma normalize_value_grid:
  assumes "nadir - ideal > mo_discretization"
  shows "\<exists>k::nat. normalize_value y ideal nadir = Inr (real k * mo_discretization)"
proof -
  define z where "z = \<lfloor>(y - ideal) / (nadir - ideal) / mo_discretization + 1 / 2\<rfloor>"
  have d: "0 < mo_discretization" by (simp add: mo_discretization_def)
  have n: "normalize_value y ideal nadir =
      Inr (if of_int z * mo_discretization < 0 then 0 else of_int z * mo_discretization)"
    using assms by (simp add: normalize_value_def coco_double_round_def z_def Let_def)
  show ?thesis
  proof (cases "z < 0")
    case True
    then have "of_int z * mo_discretization < 0" using d by (simp add: mult_less_0_iff)
    then show ?thesis using n by (intro exI [of _ 0]) simp
  next
    case False
    then have "\<not> of_int z * mo_discretization < 0" "of_int z = real (nat z)"
      using d by (simp_all add: mult_less_0_iff)
    then show ?thesis using n by (intro exI [of _ "nat z"]) (simp only: if_False)
  qed
qed

lemma one_on_grid: "(1::real) = real 2000000000000 * mo_discretization"
  by (simp add: mo_discretization_def)

text \<open>
  The normalized vector of two objectives lies on the grid, and beyond one extreme the other
  coordinate is at least 1.
\<close>

lemma mo_normalize_grid:
  assumes "length y = 2" "length ideal = 2" "length nadir = 2"
    and "\<forall>i < 2. nadir ! i - ideal ! i > mo_discretization"
  shows "\<exists>a b. mo_normalize y ideal nadir 2 = Inr (grid [a, b])
    \<and> (a = 0 \<longrightarrow> 2000000000000 \<le> b) \<and> (b = 0 \<longrightarrow> 2000000000000 \<le> a)"
proof -
  obtain a where a: "normalize_value (y ! 0) (ideal ! 0) (nadir ! 0) = Inr (real a * mo_discretization)"
    using normalize_value_grid assms(4) by force
  obtain b where b: "normalize_value (y ! 1) (ideal ! 1) (nadir ! 1) = Inr (real b * mo_discretization)"
    using normalize_value_grid assms(4) by force
  let ?one = "2000000000000 :: nat"
  have l: "normalize_loop [0..<2] y ideal nadir [] = Inr (grid [a, b])"
    using a b assms by (simp add: upt2 grid_def)
  have z: "coco_double_almost_equal (real k * mo_discretization) 0 mo_precision \<longleftrightarrow> k = 0" for k
    using grid_almost_equal [of k 0] by simp
  have lt: "real k * mo_discretization < 1 \<longleftrightarrow> k < ?one" for k
    unfolding one_on_grid by (rule grid_less)
  have one: "2000000000000 * mo_discretization = 1" by (simp add: mo_discretization_def)
  have g1: "grid [p, ?one] = [real p * mo_discretization, 1]" for p
    unfolding one_on_grid by (simp only: grid_def list.map)
  have g2: "grid [?one, p] = [1, real p * mo_discretization]" for p
    unfolding one_on_grid by (simp only: grid_def list.map)
  have g: "grid [p, q] = [real p * mo_discretization, real q * mo_discretization]" for p q
    by (simp add: grid_def)
  have s0: "adjust_extreme 0 (grid [p, q]) = Inr (grid [p, if p = 0 \<and> q < ?one then ?one else q])" for p q
    unfolding adjust_extreme_def by (simp add: z lt g g1 one)
  have s1: "adjust_extreme 1 (grid [p, q]) = Inr (grid [if q = 0 \<and> p < ?one then ?one else p, q])" for p q
    unfolding adjust_extreme_def by (simp add: z lt g g2 one)
  show ?thesis
    by (intro exI [of _ "if (if a = 0 \<and> b < ?one then ?one else b) = 0 \<and> a < ?one then ?one else a"]
        exI [of _ "if a = 0 \<and> b < ?one then ?one else b"])
      (simp add: mo_normalize_def l s0 s1 del: One_nat_def)
qed

section \<open>Properties\<close>

text \<open>
  \<open>coco_double_to_int\<close> rounds integers above \<open>- 1\<close> to themselves, but returns \<open>n + 1\<close> for every
  negative integer \<open>n\<close> of the type \<open>int\<close>: the cast truncates towards 0 after 0.5 has been added.
\<close>

theorem coco_double_to_int_negative:
  assumes "INT_MIN \<le> n" and "n \<le> INT_MAX"
  shows "coco_double_to_int (of_int n) = Inr (if n < 0 then n + 1 else n)"
proof (cases "n < 0")
  case True
  then have "\<not> 0 \<le> (of_int n :: real) + 1 / 2"
  proof -
    have "of_int n \<le> (- 1 :: real)" using True by simp
    then show ?thesis by linarith
  qed
  moreover have "\<lceil>(of_int n :: real) + 1 / 2\<rceil> = n + 1" by (rule ceiling_unique) simp_all
  ultimately show ?thesis using assms True by (simp add: coco_double_to_int_def c_truncate_def)
next
  case False
  moreover have "\<lfloor>(of_int n :: real) + 1 / 2\<rfloor> = n" by (rule floor_unique) simp_all
  ultimately show ?thesis using assms by (simp add: coco_double_to_int_def c_truncate_def)
qed

theorem coco_double_to_int_negative_witness:
  "coco_double_to_int (- 2) = Inr (- 1) \<and> coco_double_to_int 3 = Inr 3"
  using coco_double_to_int_negative [of "- 2"] coco_double_to_int_negative [of 3]
  by (simp add: INT_MIN_def INT_MAX_def)



text \<open>
  C35. Normalized objective vectors lie on a grid, the value beyond one extreme of the front forces
  the other coordinate to be at least 1, and on the grid \<open>mo_get_dominance\<close> decides exact Pareto
  dominance; it changes sign when its arguments are swapped.
\<close>

theorem mo_dominance_of_normalized:
  assumes "length y = 2" "length z = 2" "length ideal = 2" "length nadir = 2"
    and "\<forall>i < 2. nadir ! i - ideal ! i > mo_discretization"
  shows "\<exists>a b. mo_normalize y ideal nadir 2 = Inr (grid a) \<and> mo_normalize z ideal nadir 2 = Inr (grid b)
    \<and> length a = 2 \<and> length b = 2
    \<and> (a ! 0 = 0 \<longrightarrow> 1 \<le> grid a ! 1) \<and> (a ! 1 = 0 \<longrightarrow> 1 \<le> grid a ! 0)
    \<and> mo_get_dominance (grid a) (grid b) 2 = Inr (dominance_spec a b)
    \<and> mo_get_dominance (grid b) (grid a) 2 = Inr (let d = dominance_spec a b in
         if d = 1 then - 1 else if d = - 1 then 1 else d)"
proof -
  obtain a1 a2 where a: "mo_normalize y ideal nadir 2 = Inr (grid [a1, a2])"
    "a1 = 0 \<longrightarrow> 2000000000000 \<le> a2" "a2 = 0 \<longrightarrow> 2000000000000 \<le> a1"
    using mo_normalize_grid [OF assms(1,3,4,5)] by blast
  obtain b1 b2 where b: "mo_normalize z ideal nadir 2 = Inr (grid [b1, b2])"
    using mo_normalize_grid [OF assms(2,3,4,5)] by blast
  have one: "1 \<le> real k * mo_discretization" if "2000000000000 \<le> k" for k
    unfolding one_on_grid using that by (simp add: mo_discretization_def)
  have "mo_get_dominance (grid [a1, a2]) (grid [b1, b2]) 2 = Inr (dominance_spec [a1, a2] [b1, b2])"
    "mo_get_dominance (grid [b1, b2]) (grid [a1, a2]) 2 = Inr (dominance_spec [b1, b2] [a1, a2])"
    by (rule mo_get_dominance_grid; simp)+
  then show ?thesis
    using a b one dominance_spec_swap [of "[b1, b2]" "[a1, a2]"]
    by (intro exI [of _ "[a1, a2]"] exI [of _ "[b1, b2]"]) auto
qed

theorem mo_dominance_of_normalized_witness:
  "\<exists>a b. mo_normalize [1, 2] [0, 0] [4, 4] 2 = Inr (grid a) \<and> mo_normalize [2, 2] [0, 0] [4, 4] 2 = Inr (grid b)
    \<and> mo_get_dominance (grid a) (grid b) 2 = Inr (dominance_spec a b)"
proof -
  have "\<forall>i < 2. ([4, 4] :: real list) ! i - [0, 0] ! i > mo_discretization"
    by (auto simp: less_2_cases_iff mo_discretization_def)
  from mo_dominance_of_normalized [OF _ _ _ _ this, of "[1, 2]" "[2, 2]"] show ?thesis by auto
qed

end
