(* ===== verification/Coco_Problem_Calls.thy ===== *)
theory Coco_Problem_Calls
  imports Coco_Options
begin

text \<open>
  The dispatch from a function number to the construction of a problem: \<open>coco_get_bbob_problem\<close>
  (\<open>suite_bbob.c\<close>), \<open>coco_get_largescale_problem\<close> (\<open>suite_largescale.c\<close>),
  \<open>coco_get_cons_bbob_problem\<close> (\<open>suite_cons_bbob.c\<close>), \<open>coco_get_bbob_mixint_problem\<close>
  (\<open>suite_bbob_mixint.c\<close>) and the toy problems. A problem is represented by the call that allocates
  it: the allocator and the arguments it gets (function, dimension, instance, random seed and the
  extra argument of some allocators). What the allocators compute is not part of this theory.
\<close>

section \<open>Allocators\<close>

datatype bbob_allocator =
    F_sphere | F_ellipsoid | F_rastrigin | F_bueche_rastrigin | F_linear_slope
  | F_attractive_sector | F_step_ellipsoid | F_rosenbrock | F_rosenbrock_rotated
  | F_ellipsoid_rotated | F_discus | F_bent_cigar | F_sharp_ridge | F_different_powers
  | F_rastrigin_rotated | F_weierstrass | F_schaffers nat | F_griewank_rosenbrock | F_schwefel
  | F_gallagher nat | F_katsuura | F_lunacek_bi_rastrigin

datatype permblock_allocator =
    P_attractive_sector | P_step_ellipsoid | P_rosenbrock | P_ellipsoid | P_discus_generalized
  | P_bent_cigar_generalized | P_sharp_ridge_generalized | P_different_powers | P_rastrigin
  | P_weierstrass | P_schaffers nat | P_griewank_rosenbrock | P_schwefel_generalized
  | P_gallagher nat | P_katsuura | P_lunacek_bi_rastrigin

datatype toy_allocator =
    T_sphere | T_ellipsoid | T_rastrigin | T_bueche_rastrigin | T_linear_slope | T_rosenbrock

datatype cons_allocator =
    C_sphere | C_ellipsoid | C_linear_slope | C_ellipsoid_rotated | C_discus | C_bent_cigar
  | C_different_powers | C_rastrigin | C_rastrigin_rotated

datatype allocator =
    Bbob bbob_allocator
  | Permblock permblock_allocator

text \<open>
  \<open>Alloc a f d i seed\<close> is a call of the allocator \<open>a\<close>; \<open>Constrained\<close> carries the number of
  linear constraints and the seed. \<open>Discretized outer inner n p\<close> is \<open>transform_vars_discretize\<close>
  of \<open>p\<close> with the region of interest \<open>outer\<close> and \<open>n\<close> integer variables, after the region of
  interest of \<open>p\<close> has been changed to \<open>inner\<close> (where it is not \<open>None\<close>); \<open>Scaled c p\<close> is
  \<open>transform_obj_scale\<close>. \<open>Stacked suite p1 p2 f i d\<close> is the stacked bi-objective problem whose
  id is built from the suite name, the function, instance and dimension; the underlying problems
  come with their \<open>suite_dep_function\<close>.
\<close>

datatype problem_call =
    Toy toy_allocator nat
  | Alloc allocator nat nat nat int
  | Constrained cons_allocator string nat nat nat nat int
  | Discretized "(int \<times> int) list" "(int \<times> int) option list" nat problem_call
  | Scaled real problem_call
  | Stacked string "nat \<times> problem_call" "nat \<times> problem_call" nat nat nat

section \<open>Seeds\<close>

definition to_long :: "nat \<Rightarrow> int" where
  "to_long n = (if n < 2 ^ 63 then int n else int n - 2 ^ 64)"

text \<open>\<open>(long) (offset + 10000 * instance)\<close>, computed in \<open>size_t\<close>.\<close>

definition bbob_seed :: "nat \<Rightarrow> nat \<Rightarrow> int" where
  "bbob_seed offset inst = to_long (size_t (offset + size_t (10000 * inst)))"

section \<open>The bbob functions\<close>

definition coco_get_bbob_problem :: "nat \<Rightarrow> nat \<Rightarrow> nat \<Rightarrow> problem_call result" where
  "coco_get_bbob_problem function dimension instance =
     (let rseed = bbob_seed function instance;
          rseed_3 = bbob_seed 3 instance;
          rseed_17 = bbob_seed 17 instance;
          call = (\<lambda>a seed. Inr (Alloc (Bbob a) function dimension instance seed))
      in
        if function = 1 then call F_sphere rseed
        else if function = 2 then call F_ellipsoid rseed
        else if function = 3 then call F_rastrigin rseed
        else if function = 4 then call F_bueche_rastrigin rseed_3
        else if function = 5 then call F_linear_slope rseed
        else if function = 6 then call F_attractive_sector rseed
        else if function = 7 then call F_step_ellipsoid rseed
        else if function = 8 then call F_rosenbrock rseed
        else if function = 9 then call F_rosenbrock_rotated rseed
        else if function = 10 then call F_ellipsoid_rotated rseed
        else if function = 11 then call F_discus rseed
        else if function = 12 then call F_bent_cigar rseed
        else if function = 13 then call F_sharp_ridge rseed
        else if function = 14 then call F_different_powers rseed
        else if function = 15 then call F_rastrigin_rotated rseed
        else if function = 16 then call F_weierstrass rseed
        else if function = 17 then call (F_schaffers 10) rseed
        else if function = 18 then call (F_schaffers 1000) rseed_17
        else if function = 19 then call F_griewank_rosenbrock rseed
        else if function = 20 then call F_schwefel rseed
        else if function = 21 then call (F_gallagher 101) rseed
        else if function = 22 then call (F_gallagher 21) rseed
        else if function = 23 then call F_katsuura rseed
        else if function = 24 then call F_lunacek_bi_rastrigin rseed
        else Inl (Coco_error ''coco_get_bbob_problem''))"

definition coco_get_largescale_problem :: "nat \<Rightarrow> nat \<Rightarrow> nat \<Rightarrow> problem_call result" where
  "coco_get_largescale_problem function dimension instance =
     (let rseed = bbob_seed function instance;
          rseed_3 = bbob_seed 3 instance;
          rseed_17 = bbob_seed 17 instance;
          call = (\<lambda>a seed. Inr (Alloc a function dimension instance seed))
      in
        if function = 1 then call (Bbob F_sphere) rseed
        else if function = 2 then call (Bbob F_ellipsoid) rseed
        else if function = 3 then call (Bbob F_rastrigin) rseed
        else if function = 4 then call (Bbob F_bueche_rastrigin) rseed_3
        else if function = 5 then call (Bbob F_linear_slope) rseed
        else if function = 6 then call (Permblock P_attractive_sector) rseed
        else if function = 7 then call (Permblock P_step_ellipsoid) rseed
        else if function = 8 then call (Bbob F_rosenbrock) rseed
        else if function = 9 then call (Permblock P_rosenbrock) rseed
        else if function = 10 then call (Permblock P_ellipsoid) rseed
        else if function = 11 then call (Permblock P_discus_generalized) rseed
        else if function = 12 then call (Permblock P_bent_cigar_generalized) rseed
        else if function = 13 then call (Permblock P_sharp_ridge_generalized) rseed
        else if function = 14 then call (Permblock P_different_powers) rseed
        else if function = 15 then call (Permblock P_rastrigin) rseed
        else if function = 16 then call (Permblock P_weierstrass) rseed
        else if function = 17 then call (Permblock (P_schaffers 10)) rseed
        else if function = 18 then call (Permblock (P_schaffers 1000)) rseed_17
        else if function = 19 then call (Permblock P_griewank_rosenbrock) rseed
        else if function = 20 then call (Permblock P_schwefel_generalized) rseed
        else if function = 21 then call (Permblock (P_gallagher 101)) rseed
        else if function = 22 then call (Permblock (P_gallagher 21)) rseed
        else if function = 23 then call (Permblock P_katsuura) rseed
        else if function = 24 then call (Permblock P_lunacek_bi_rastrigin) rseed
        else Inl (Coco_error ''coco_get_largescale_problem''))"

definition toy_problem :: "nat \<Rightarrow> nat \<Rightarrow> problem_call result" where
  "toy_problem function dimension =
     (if function = 1 then Inr (Toy T_sphere dimension)
      else if function = 2 then Inr (Toy T_ellipsoid dimension)
      else if function = 3 then Inr (Toy T_rastrigin dimension)
      else if function = 4 then Inr (Toy T_bueche_rastrigin dimension)
      else if function = 5 then Inr (Toy T_linear_slope dimension)
      else if function = 6 then Inr (Toy T_rosenbrock dimension)
      else Inl (Coco_error ''suite_toy_get_problem''))"

section \<open>Constrained problems\<close>

text \<open>\<open>ceil(function / 6)\<close> in doubles is exact for every function number below \<open>2 ^ 53\<close>.\<close>

definition obj_function_type :: "nat \<Rightarrow> nat" where
  "obj_function_type function = nat \<lceil>real function / real 6\<rceil>"

text \<open>\<open>%\<close> truncates towards 0; \<open>(int) function - 1\<close> is \<open>- 1\<close> for function 0.\<close>

definition c_mod :: "int \<Rightarrow> int \<Rightarrow> int" where
  "c_mod a b = sgn a * (\<bar>a\<bar> mod \<bar>b\<bar>)"

definition nb_of_linear_constraints :: "nat \<Rightarrow> nat \<Rightarrow> nat" where
  "nb_of_linear_constraints function dimension =
     (let p = c_mod (int function - 1) 6 + 1 in
      if p = 1 then 1
      else if p = 2 then 2
      else if p = 3 then 6
      else if p = 4 then 6 + dimension div 2
      else if p = 5 then 6 + dimension
      else 6 + 3 * dimension)"

definition coco_get_cons_bbob_problem :: "string \<Rightarrow> nat \<Rightarrow> nat \<Rightarrow> nat \<Rightarrow> problem_call result" where
  "coco_get_cons_bbob_problem suite_name function dimension instance =
     (let rseed = to_long (size_t (function + size_t (20000 * instance)));
          n = nb_of_linear_constraints function dimension;
          t = obj_function_type function;
          call = (\<lambda>a. Inr (Constrained a suite_name function dimension instance n rseed))
      in
        if t = 1 then call C_sphere
        else if t = 2 then call C_ellipsoid
        else if t = 3 then call C_linear_slope
        else if t = 4 then call C_ellipsoid_rotated
        else if t = 5 then call C_discus
        else if t = 6 then call C_bent_cigar
        else if t = 7 then call C_different_powers
        else if t = 8 then call C_rastrigin
        else if t = 9 then call C_rastrigin_rotated
        else Inl (Coco_error ''get_cons_bbob_problem''))"

section \<open>Mixed-integer problems\<close>

text \<open>The cardinality of each variable; 0 marks a continuous one.\<close>

definition variable_cardinality :: "nat list" where
  "variable_cardinality = [2, 4, 8, 16, 0]"

text \<open>
  The loop over the variables of \<open>coco_get_bbob_mixint_problem\<close>: the region of interest of the
  outer problem, the one of the inner problem (unchanged where continuous, \<open>None\<close>) and the number
  of integer variables. \<open>dimension / 5\<close> is 0 for dimension 0 only, where the loop does not run.
\<close>

fun mixint_loop :: "int \<Rightarrow> nat \<Rightarrow> nat list \<Rightarrow> (int \<times> int) list \<Rightarrow> (int \<times> int) option list \<Rightarrow> nat
    \<Rightarrow> (int \<times> int) list \<times> (int \<times> int) option list \<times> nat" where
  "mixint_loop bound dimension [] outer inner num_integer = (outer, inner, num_integer)"
| "mixint_loop bound dimension (i # is) outer inner num_integer =
     (let cardinality = variable_cardinality ! (i div (dimension div 5)) in
      if cardinality = 0 then
        mixint_loop bound dimension is (outer @ [(- bound, bound)]) (inner @ [None])
          (if num_integer = dimension then i else num_integer)
      else
        mixint_loop bound dimension is (outer @ [(0, int cardinality - 1)])
          (inner @ [Some (- 4, 4)]) num_integer)"

definition mixint_bounds ::
  "int \<Rightarrow> nat \<Rightarrow> (int \<times> int) list \<times> (int \<times> int) option list \<times> nat" where
  "mixint_bounds bound dimension = mixint_loop bound dimension [0..<dimension] [] [] dimension"

definition suite_bbob_mixint_scaling_factors :: "real list" where
  "suite_bbob_mixint_scaling_factors =
     [1, 1 / 10 ^ 3, 1 / 10, 1 / 10, 1,
      1 / 10 ^ 2, 1, 1 / 10 ^ 2, 1 / 10 ^ 2, 1 / 10 ^ 3,
      1 / 10 ^ 2, 1 / 10 ^ 4, 1 / 10, 1, 1 / 10,
      1, 10, 1, 10, 1 / 10,
      1, 1, 10, 1 / 10]"

definition coco_get_bbob_mixint_problem ::
  "nat \<Rightarrow> nat \<Rightarrow> nat \<Rightarrow> (nat \<Rightarrow> nat \<Rightarrow> nat \<Rightarrow> problem_call result) \<Rightarrow> problem_call result" where
  "coco_get_bbob_mixint_problem function dimension instance coco_get_problem_function =
     (if dimension mod 5 \<noteq> 0 then Inl (Coco_error ''coco_get_bbob_mixint_problem'')
      else rbind (coco_get_problem_function function dimension instance) (\<lambda>problem.
        let (outer, inner, num_integer) = mixint_bounds 5 dimension in
        rbind (rnth suite_bbob_mixint_scaling_factors (size_sub function 1)) (\<lambda>factor.
          Inr (Scaled factor (Discretized outer inner num_integer problem)))))"

section \<open>Facts\<close>

lemma coco_get_bbob_problem_total:
  "(\<exists>p. coco_get_bbob_problem f d i = Inr p) \<longleftrightarrow> 1 \<le> f \<and> f \<le> 24"
proof
  assume "1 \<le> f \<and> f \<le> 24"
  then have "f \<in> {1..24}" by simp
  also have "{1..24::nat} = set [1..<25]" by auto
  finally have "f \<in> set [1..<25]" .
  then show "\<exists>p. coco_get_bbob_problem f d i = Inr p"
    by (auto simp: coco_get_bbob_problem_def Let_def upt_rec)
next
  assume "\<exists>p. coco_get_bbob_problem f d i = Inr p"
  then show "1 \<le> f \<and> f \<le> 24"
    by (auto simp: coco_get_bbob_problem_def Let_def split: if_splits)
qed

lemma obj_function_type_div: "obj_function_type f = (f + 5) div 6"
proof -
  have "real f / real 6 \<le> real ((f + 5) div 6)"
  proof -
    have "f \<le> 6 * ((f + 5) div 6)" by presburger
    then have "real f \<le> 6 * real ((f + 5) div 6)" by linarith
    then show ?thesis by simp
  qed
  moreover have "real ((f + 5) div 6) - 1 < real f / real 6"
  proof -
    have "6 * ((f + 5) div 6) < f + 6" by presburger
    then have "6 * real ((f + 5) div 6) < real f + 6" by linarith
    then show ?thesis by simp
  qed
  ultimately have "\<lceil>real f / real 6\<rceil> = int ((f + 5) div 6)" by (intro ceiling_unique) simp_all
  then show ?thesis by (simp add: obj_function_type_def)
qed

lemma coco_get_largescale_problem_total:
  "(\<exists>p. coco_get_largescale_problem f d i = Inr p) \<longleftrightarrow> 1 \<le> f \<and> f \<le> 24"
proof
  assume "1 \<le> f \<and> f \<le> 24"
  then have "f \<in> {1..24}" by simp
  also have "{1..24::nat} = set [1..<25]" by auto
  finally have "f \<in> set [1..<25]" .
  then show "\<exists>p. coco_get_largescale_problem f d i = Inr p"
    by (auto simp: coco_get_largescale_problem_def Let_def upt_rec)
next
  assume "\<exists>p. coco_get_largescale_problem f d i = Inr p"
  then show "1 \<le> f \<and> f \<le> 24"
    by (auto simp: coco_get_largescale_problem_def Let_def split: if_splits)
qed

lemma coco_get_cons_bbob_problem_total:
  assumes "1 \<le> f" and "f \<le> 54"
  shows "\<exists>p. coco_get_cons_bbob_problem s f d i = Inr p"
proof -
  have "1 \<le> (f + 5) div 6 \<and> (f + 5) div 6 \<le> 9" using assms by linarith
  then have "obj_function_type f \<in> {1..9}" by (simp add: obj_function_type_div)
  also have "{1..9::nat} = set [1..<10]" by auto
  finally show ?thesis by (auto simp: coco_get_cons_bbob_problem_def Let_def upt_rec)
qed

text \<open>
  The region of interest of a mixed-integer problem: the first four fifths of the variables are
  integers with 2, 4, 8 and 16 values, the rest is continuous.
\<close>

definition mixint_outer :: "int \<Rightarrow> nat \<Rightarrow> nat \<Rightarrow> int \<times> int" where
  "mixint_outer bound q i =
     (if i < q then (0, 1) else if i < 2 * q then (0, 3) else if i < 3 * q then (0, 7)
      else if i < 4 * q then (0, 15) else (- bound, bound))"

lemma variable_cardinality_block:
  assumes "i < 5 * q"
  shows "variable_cardinality ! (i div q) = (if i < q then 2 else if i < 2 * q then 4
     else if i < 3 * q then 8 else if i < 4 * q then 16 else 0)"
proof -
  have q: "0 < q" using assms by (cases q) auto
  have d: "i div q = k" if "k * q \<le> i" "i < Suc k * q" for k
    using that q by (intro div_nat_eqI) (simp_all add: mult.commute)
  consider "i < q" | "q \<le> i" "i < 2 * q" | "2 * q \<le> i" "i < 3 * q" | "3 * q \<le> i" "i < 4 * q"
    | "4 * q \<le> i" by linarith
  then show ?thesis
  proof cases
    case 1 then show ?thesis using d [of 0] by (simp add: variable_cardinality_def)
  next
    case 2 then show ?thesis using d [of 1] by (simp add: variable_cardinality_def)
  next
    case 3 then show ?thesis using d [of 2] by (simp add: variable_cardinality_def)
  next
    case 4 then show ?thesis using d [of 3] by (simp add: variable_cardinality_def numeral_eq_Suc)
  next
    case 5 then show ?thesis using d [of 4] assms by (simp add: variable_cardinality_def numeral_eq_Suc)
  qed
qed

lemma mixint_loop_spec:
  assumes "dimension = 5 * q"
  shows "j \<le> dimension \<Longrightarrow>
    mixint_loop bound dimension [j..<dimension] outer inner
        (if j \<le> 4 * q then dimension else 4 * q)
      = (outer @ map (mixint_outer bound q) [j..<dimension],
         inner @ map (\<lambda>i. if i < 4 * q then Some (- 4, 4) else None) [j..<dimension],
         4 * q)"
proof (induction "dimension - j" arbitrary: j outer inner)
  case 0
  then show ?case using assms by (cases q) auto
next
  case (Suc k)
  then have j: "j < 5 * q" "k = dimension - Suc j" using assms by auto
  then have u: "[j..<dimension] = j # [Suc j..<dimension]" using assms by (simp add: upt_conv_Cons)
  note IH = Suc.hyps(1) [OF j(2)]
  show ?case
  proof (cases "j < 4 * q")
    case True
    then show ?thesis using IH assms j
      by (simp add: u [unfolded assms] variable_cardinality_block [OF j(1)] mixint_outer_def Let_def)
  next
    case False
    have "(if (if j \<le> 4 * q then dimension else 4 * q) = dimension then j
        else (if j \<le> 4 * q then dimension else 4 * q)) = 4 * q"
      using False j assms by auto
    moreover have "variable_cardinality ! 4 = 0"
      by (simp add: variable_cardinality_def numeral_eq_Suc)
    ultimately show ?thesis using IH assms j False
      unfolding assms u [unfolded assms]
      by (cases "j = 4 * q") (simp_all add: variable_cardinality_block [OF j(1)] mixint_outer_def Let_def)
  qed
qed

lemma mixint_bounds_spec:
  "mixint_bounds bound (5 * q) =
     (map (mixint_outer bound q) [0..<5 * q],
      map (\<lambda>i. if i < 4 * q then Some (- 4, 4) else None) [0..<5 * q], 4 * q)"
  using mixint_loop_spec [of "5 * q" q 0 bound "[]" "[]"] by (simp add: mixint_bounds_def)

section \<open>Properties\<close>

text \<open>
  C38. A mixed-integer problem of dimension \<open>5 q\<close> has \<open>4 q\<close> integer variables, \<open>q\<close> each with 2, 4, 8
  and 16 values starting at 0, followed by \<open>q\<close> continuous ones; the inner problem gets the region of
  interest \<open>[-4, 4]\<close> exactly for the integer variables. Other dimensions are an error.
\<close>

theorem mixint_problem_bounds:
  assumes "coco_get_problem_function f d i = Inr p" and "1 \<le> f" and "f \<le> 24"
  shows "coco_get_bbob_mixint_problem f d i coco_get_problem_function =
    (if d mod 5 = 0 then
       Inr (Scaled (suite_bbob_mixint_scaling_factors ! (f - 1))
         (Discretized (map (mixint_outer 5 (d div 5)) [0..<d])
           (map (\<lambda>j. if j < 4 * (d div 5) then Some (- 4, 4) else None) [0..<d]) (4 * (d div 5)) p))
     else Inl (Coco_error ''coco_get_bbob_mixint_problem''))"
proof (cases "d mod 5 = 0")
  case True
  then have d: "d = 5 * (d div 5)" by presburger
  have len: "length suite_bbob_mixint_scaling_factors = 24"
    by (simp add: suite_bbob_mixint_scaling_factors_def)
  have "mixint_bounds 5 d = (map (mixint_outer 5 (d div 5)) [0..<d],
      map (\<lambda>j. if j < 4 * (d div 5) then Some (- 4, 4) else None) [0..<d], 4 * (d div 5))"
    using mixint_bounds_spec [of 5 "d div 5"] d by simp
  then show ?thesis using assms True len by (simp add: coco_get_bbob_mixint_problem_def)
qed (simp add: coco_get_bbob_mixint_problem_def)

theorem mixint_problem_bounds_witness:
  "coco_get_bbob_mixint_problem 1 5 7 coco_get_bbob_problem =
     Inr (Scaled 1 (Discretized [(0, 1), (0, 3), (0, 7), (0, 15), (- 5, 5)]
       [Some (- 4, 4), Some (- 4, 4), Some (- 4, 4), Some (- 4, 4), None] 4
       (Alloc (Bbob F_sphere) 1 5 7 70001)))"
proof -
  have "coco_get_bbob_problem 1 5 7 = Inr (Alloc (Bbob F_sphere) 1 5 7 70001)"
    by (simp add: coco_get_bbob_problem_def bbob_seed_def to_long_def)
  from mixint_problem_bounds [of coco_get_bbob_problem 1 5 7, OF this] show ?thesis
    by (simp add: suite_bbob_mixint_scaling_factors_def mixint_outer_def upt_rec)
qed

end
