(* ===== verification/Coco_Biobj.thy ===== *)
theory Coco_Biobj
  imports Coco_Numerics Coco_Problem_Calls
begin

text \<open>
  The bi-objective suites (\<open>suite_biobj_utilities.c\<close>, \<open>suite_biobj_mixint.c\<close>): the pair of bbob
  functions behind a bi-objective function number, the table of instances, the search for new
  instances, and the construction of a bi-objective problem. What an allocated problem computes is
  the argument \<open>objective_of\<close>: its objective function, best value and best parameter.
\<close>

section \<open>Data\<close>

record bbob_objective =
  evaluate_function :: "real list \<Rightarrow> real"
  best_value :: real
  best_parameter :: "real list"

definition sel_bbob_functions :: "nat list" where
  "sel_bbob_functions = [1, 2, 6, 8, 13, 14, 15, 17, 20, 21]"

definition all_bbob_functions :: "nat list" where
  "all_bbob_functions =
     [1, 2, 3, 4, 5, 6, 7, 8, 9, 10, 11, 12, 13, 14, 15, 16, 17, 18, 19, 20, 21, 22, 23, 24]"

text \<open>Triples: bi-objective instance, instance of the first and of the second problem.\<close>

definition suite_biobj_instances :: "(nat \<times> nat \<times> nat) list" where
  "suite_biobj_instances =
     [(1, 2, 4), (2, 3, 5), (3, 7, 8), (4, 9, 10), (5, 11, 12), (6, 13, 14), (7, 15, 16),
      (8, 17, 18), (9, 19, 21), (10, 21, 22), (11, 23, 24), (12, 25, 26), (13, 27, 28),
      (14, 29, 30), (15, 31, 34)]"

text \<open>\<open>suite_biobj_new_inst_t\<close>: its matrix has \<open>max_new_instances\<close> rows.\<close>

record suite_biobj_new_inst =
  new_instances :: "(nat \<times> nat \<times> nat) list"
  max_new_instances :: nat

section \<open>Function indices\<close>

text \<open>
  The magic formula for the first 55 functions. All its intermediate results are multiples of 1/4
  below 128 or the square root of such a number, so that doubles agree with the real numbers.
\<close>

definition magic_index1 :: "nat \<Rightarrow> nat result" where
  "magic_index1 function_idx =
     (case coco_double_to_size_t
             (of_int \<lfloor>- (1 / 2) + sqrt (1 / 4 + 2 * real (size_sub (size_sub 55 function_idx) 1))\<rfloor>) of
        None \<Rightarrow> Inl Out_of_bounds
      | Some r \<Rightarrow> Inr (size_sub (size_sub 10 r) 1))"

definition magic_index2 :: "nat \<Rightarrow> nat \<Rightarrow> nat" where
  "magic_index2 function_idx function1_idx =
     size_t (size_sub function_idx (size_t (function1_idx * 10))
       + size_t (function1_idx * (function1_idx + 1)) div 2)"

text \<open>The branches for the indices 55 to 91.\<close>

definition ext_indices :: "(nat \<times> nat) list" where
  "ext_indices =
     [(0, 2), (0, 3), (0, 4), (1, 2), (1, 3), (1, 4), (2, 3), (2, 4), (3, 4),
      (5, 6), (5, 8), (6, 7), (6, 8), (7, 8),
      (9, 10), (9, 11), (9, 12), (9, 13), (10, 11), (10, 12), (10, 13), (11, 12), (11, 13),
      (14, 17), (14, 18), (16, 17), (16, 18), (17, 18),
      (19, 21), (19, 22), (19, 23), (20, 21), (20, 22), (20, 23), (21, 22), (21, 23), (22, 23)]"

definition biobj_function_indices :: "nat \<Rightarrow> (nat \<times> nat) result" where
  "biobj_function_indices function_idx =
     (if function_idx < 55 then
        rbind (magic_index1 function_idx) (\<lambda>f1. Inr (f1, magic_index2 function_idx f1))
      else if function_idx - 55 < length ext_indices then Inr (ext_indices ! (function_idx - 55))
      else Inl (Coco_error ''coco_get_biobj_problem''))"

section \<open>New instances\<close>

definition suite_biobj_check_inst_consistency ::
  "(problem_call \<Rightarrow> bbob_objective) \<Rightarrow> nat \<Rightarrow> nat \<Rightarrow> nat \<Rightarrow> nat \<Rightarrow> nat \<Rightarrow> bool result" where
  "suite_biobj_check_inst_consistency objective_of dimension function1 instance1 function2 instance2 =
     rbind (coco_get_bbob_problem function1 dimension instance1) (\<lambda>p1.
     rbind (coco_get_bbob_problem function2 dimension instance2) (\<lambda>p2.
       let o1 = objective_of p1; o2 = objective_of p2;
           ideal = [best_value o1, best_value o2];
           nadir = [evaluate_function o1 (best_parameter o2), evaluate_function o2 (best_parameter o1)]
       in rbind (mo_get_norm ideal nadir 2) (\<lambda>nrm1.
          rbind (mo_get_norm (best_parameter o1) (best_parameter o2) dimension) (\<lambda>nrm2.
            Inr (nrm1 < 1 / 10 \<or> nrm2 < 1 / 10 ^ 4)))))"

text \<open>
  The loops of \<open>suite_biobj_get_new_instance\<close>: over the dimensions (0 is skipped), over the second
  and the first functions, and over the pairs of equal functions; each stops as soon as a check
  breaks the search.
\<close>

fun check_dimensions :: "(nat \<Rightarrow> bool result) \<Rightarrow> nat list \<Rightarrow> bool result" where
  "check_dimensions check [] = Inr False"
| "check_dimensions check (d # ds) =
     (if d = 0 then check_dimensions check ds
      else rbind (check d) (\<lambda>break. if break then Inr True else check_dimensions check ds))"

fun check_second :: "(nat \<Rightarrow> nat \<Rightarrow> nat \<Rightarrow> bool result) \<Rightarrow> nat list \<Rightarrow> nat \<Rightarrow> nat list \<Rightarrow> bool result" where
  "check_second check ds f1 [] = Inr False"
| "check_second check ds f1 (f2 # fs) =
     rbind (check_dimensions (\<lambda>d. check d f1 f2) ds) (\<lambda>break.
       if break then Inr True else check_second check ds f1 fs)"

fun check_pairs :: "(nat \<Rightarrow> nat \<Rightarrow> nat \<Rightarrow> bool result) \<Rightarrow> nat list \<Rightarrow> nat list \<Rightarrow> bool result" where
  "check_pairs check ds [] = Inr False"
| "check_pairs check ds (f1 # fs) =
     rbind (check_second check ds f1 fs) (\<lambda>break.
       if break then Inr True else check_pairs check ds fs)"

fun check_equal :: "(nat \<Rightarrow> nat \<Rightarrow> nat \<Rightarrow> bool result) \<Rightarrow> nat list \<Rightarrow> nat list \<Rightarrow> bool result" where
  "check_equal check ds [] = Inr False"
| "check_equal check ds (f # fs) =
     rbind (check_dimensions (\<lambda>d. check d f f) ds) (\<lambda>break.
       if break then Inr True else check_equal check ds fs)"

fun store_instance :: "nat \<times> nat \<times> nat \<Rightarrow> (nat \<times> nat \<times> nat) list \<Rightarrow> (nat \<times> nat \<times> nat) list" where
  "store_instance e [] = []"
| "store_instance e (r # rs) = (if fst r = 0 then e # rs else r # store_instance e rs)"

text \<open>The search over the tries \<open>1\<close> to \<open>max_tries\<close>.\<close>

fun try_instances ::
  "(nat \<Rightarrow> bool result) \<Rightarrow> nat \<Rightarrow> nat list \<Rightarrow> nat result" where
  "try_instances broken instance1 [] = Inl (Coco_error ''suite_biobj_get_new_instance'')"
| "try_instances broken instance1 (t # ts) =
     (let instance2 = size_t (instance1 + t) in
      rbind (broken instance2) (\<lambda>b. if b then try_instances broken instance1 ts else Inr instance2))"

definition max_tries :: nat where
  "max_tries = 1000"

definition suite_biobj_get_new_instance ::
  "(problem_call \<Rightarrow> bbob_objective) \<Rightarrow> suite_biobj_new_inst \<Rightarrow> nat \<Rightarrow> nat \<Rightarrow> nat list \<Rightarrow> nat list
    \<Rightarrow> nat list \<Rightarrow> (nat \<times> suite_biobj_new_inst) result" where
  "suite_biobj_get_new_instance objective_of new_inst_data instance instance1 bbob_functions
      sel_functions dimensions =
     rbind (try_instances (\<lambda>instance2.
         let check = (\<lambda>d f1 f2.
               suite_biobj_check_inst_consistency objective_of d f1 instance1 f2 instance2)
         in rbind (check_pairs check dimensions bbob_functions) (\<lambda>break.
              if break then Inr True else check_equal check dimensions sel_functions))
       instance1 [1..<Suc max_tries]) (\<lambda>instance2.
       Inr (instance2, new_inst_data
         \<lparr>new_instances := store_instance (instance, instance1, instance2) (new_instances new_inst_data)\<rparr>))"

section \<open>Bi-objective problems\<close>

fun find_instance :: "nat \<Rightarrow> (nat \<times> nat \<times> nat) list \<Rightarrow> (nat \<times> nat) option" where
  "find_instance i [] = None"
| "find_instance i ((a, i1, i2) # rs) = (if a = i then Some (i1, i2) else find_instance i rs)"

text \<open>In the matrix of new instances the search stops at the first unused row.\<close>

fun find_new_instance :: "nat \<Rightarrow> (nat \<times> nat \<times> nat) list \<Rightarrow> (nat \<times> nat) option" where
  "find_new_instance i [] = None"
| "find_new_instance i ((a, i1, i2) # rs) =
     (if a = 0 then None else if a = i then Some (i1, i2) else find_new_instance i rs)"

definition fresh_new_inst :: "nat \<Rightarrow> suite_biobj_new_inst" where
  "fresh_new_inst n = \<lparr> new_instances = replicate n (0, 0, 0), max_new_instances = n \<rparr>"

definition biobj_instances ::
  "(problem_call \<Rightarrow> bbob_objective) \<Rightarrow> nat \<Rightarrow> suite_biobj_new_inst option \<Rightarrow> nat \<Rightarrow> nat list
    \<Rightarrow> (nat \<times> nat \<times> suite_biobj_new_inst option) result" where
  "biobj_instances objective_of instance new_inst_data num_new_instances dimensions =
     (case find_instance instance suite_biobj_instances of
        Some (i1, i2) \<Rightarrow> Inr (i1, i2, new_inst_data)
      | None \<Rightarrow>
          (case (case new_inst_data of None \<Rightarrow> None
                   | Some d \<Rightarrow> find_new_instance instance (new_instances d)) of
             Some (i1, i2) \<Rightarrow> Inr (i1, i2, new_inst_data)
           | None \<Rightarrow>
               (let d = (case new_inst_data of None \<Rightarrow> fresh_new_inst num_new_instances | Some d \<Rightarrow> d);
                    i1 = size_t (2 * instance + 1)
                in rbind (suite_biobj_get_new_instance objective_of d instance i1
                            all_bbob_functions sel_bbob_functions dimensions) (\<lambda>(i2, d').
                     Inr (i1, i2, Some d')))))"

definition coco_get_biobj_problem ::
  "(problem_call \<Rightarrow> bbob_objective) \<Rightarrow> nat \<Rightarrow> nat \<Rightarrow> nat
    \<Rightarrow> (nat \<Rightarrow> nat \<Rightarrow> nat \<Rightarrow> problem_call result) \<Rightarrow> suite_biobj_new_inst option \<Rightarrow> nat \<Rightarrow> nat list
    \<Rightarrow> (problem_call \<times> suite_biobj_new_inst option) result" where
  "coco_get_biobj_problem objective_of function dimension instance coco_get_problem_function
      new_inst_data num_new_instances dimensions =
     (let function_idx = size_sub function 1;
          functions = (if function_idx < 55 then sel_bbob_functions else all_bbob_functions)
      in
        rbind (biobj_function_indices function_idx) (\<lambda>(function1_idx, function2_idx).
        rbind (biobj_instances objective_of instance new_inst_data num_new_instances dimensions)
          (\<lambda>(instance1, instance2, new_inst_data).
        rbind (rnth functions function1_idx) (\<lambda>f1.
        rbind (rnth functions function2_idx) (\<lambda>f2.
        rbind (coco_get_problem_function f1 dimension instance1) (\<lambda>problem1.
        rbind (coco_get_problem_function f2 dimension instance2) (\<lambda>problem2.
          Inr (Stacked ''bbob-biobj'' (f1, problem1) (f2, problem2) function instance dimension,
               new_inst_data))))))))"

section \<open>Mixed-integer bi-objective problems\<close>

definition discretize_and_scale :: "nat \<Rightarrow> nat \<times> problem_call \<Rightarrow> (nat \<times> problem_call) result" where
  "discretize_and_scale dimension p =
     (let (outer, inner, num_integer) = mixint_bounds 100 dimension in
      rbind (rnth suite_bbob_mixint_scaling_factors (size_sub (fst p) 1)) (\<lambda>factor.
        Inr (fst p, Scaled factor (Discretized outer inner num_integer (snd p)))))"

definition coco_get_biobj_mixint_problem ::
  "(problem_call \<Rightarrow> bbob_objective) \<Rightarrow> nat \<Rightarrow> nat \<Rightarrow> nat
    \<Rightarrow> (nat \<Rightarrow> nat \<Rightarrow> nat \<Rightarrow> problem_call result) \<Rightarrow> suite_biobj_new_inst option \<Rightarrow> nat \<Rightarrow> nat list
    \<Rightarrow> (problem_call \<times> suite_biobj_new_inst option) result" where
  "coco_get_biobj_mixint_problem objective_of function dimension instance coco_get_problem_function
      new_inst_data num_new_instances dimensions =
     (if dimension mod 5 \<noteq> 0 then Inl (Coco_error ''coco_get_biobj_mixint_problem'')
      else
        rbind (coco_get_biobj_problem objective_of function dimension instance
                 coco_get_problem_function new_inst_data num_new_instances dimensions)
          (\<lambda>(problem_cont, new_inst_data).
            case problem_cont of
              Stacked _ problem1 problem2 _ _ _ \<Rightarrow>
                rbind (discretize_and_scale dimension problem1) (\<lambda>problem1_mixint.
                rbind (discretize_and_scale dimension problem2) (\<lambda>problem2_mixint.
                  Inr (Stacked ''bbob-biobj-mixint'' problem1_mixint problem2_mixint
                         function instance dimension, new_inst_data)))
            | _ \<Rightarrow> Inl Null_deref))"

section \<open>Facts about the function indices\<close>

lemma sqrt_ge_iff: "0 \<le> a \<Longrightarrow> 0 \<le> b \<Longrightarrow> a \<le> sqrt b \<longleftrightarrow> a\<^sup>2 \<le> b"
  by (metis real_le_rsqrt real_sqrt_ge_0_iff real_sqrt_pow2 power_mono)

text \<open>The floor in the magic formula is the index of the triangular number below its argument.\<close>

lemma magic_floor:
  assumes "t * (t + 1) \<le> 2 * k" and "2 * k < (t + 1) * (t + 2)"
  shows "\<lfloor>- (1 / 2) + sqrt (1 / 4 + 2 * real k)\<rfloor> = int t"
proof -
  have lo: "real t * real t + real t \<le> 2 * real k"
  proof -
    have "real (t * (t + 1)) \<le> real (2 * k)" using assms(1) by (simp only: of_nat_le_iff)
    then show ?thesis by (simp add: algebra_simps)
  qed
  have hi: "2 * real k < real t * real t + 3 * real t + 2"
  proof -
    have "real (2 * k) < real ((t + 1) * (t + 2))" using assms(2) by (simp only: of_nat_less_iff)
    then show ?thesis by (simp add: algebra_simps)
  qed
  have "real t + 1 / 2 \<le> sqrt (1 / 4 + 2 * real k)"
    using lo by (subst sqrt_ge_iff) (simp_all add: power2_eq_square algebra_simps)
  moreover have "\<not> real t + 3 / 2 \<le> sqrt (1 / 4 + 2 * real k)"
    using hi by (subst sqrt_ge_iff) (simp_all add: power2_eq_square algebra_simps)
  ultimately show ?thesis by (intro floor_unique) simp_all
qed

lemma magic_index1_value:
  assumes "function_idx < 55" and "t * (t + 1) \<le> 2 * (54 - function_idx)"
    and "2 * (54 - function_idx) < (t + 1) * (t + 2)" and "t \<le> 9"
  shows "magic_index1 function_idx = Inr (9 - t)"
proof -
  have k: "size_sub (size_sub 55 function_idx) 1 = 54 - function_idx" using assms(1) by simp
  have "coco_double_to_size_t (of_int (int t)) = Some t"
    using assms(4) by (simp add: coco_double_to_size_t_def coco_double_round_def Let_def)
  then show ?thesis
    using assms(4) by (simp only: magic_index1_def k magic_floor [OF assms(2,3)]) simp
qed

text \<open>Row \<open>i\<close> of the triangle of pairs \<open>i \<le> j < 10\<close>.\<close>

lemma biobj_row:
  assumes "i \<le> j" "j < 10"
  shows "biobj_function_indices (i * 10 - (i * (i + 1)) div 2 + j) = Inr (i, j)"
proof -
  let ?idx = "i * 10 - (i * (i + 1)) div 2 + j"
  have i: "i \<in> {0, 1, 2, 3, 4, 5, 6, 7, 8, 9}" using assms by auto
  have idx: "?idx < 55" "(9 - i) * (9 - i + 1) \<le> 2 * (54 - ?idx)"
    "2 * (54 - ?idx) < (9 - i + 1) * (9 - i + 2)"
    using i assms by auto
  then have 1: "magic_index1 ?idx = Inr (9 - (9 - i))" by (intro magic_index1_value) auto
  have "magic_index2 ?idx i = j"
    using i assms by (auto simp: magic_index2_def size_t_def size_sub_def mod_simps)
  with 1 idx(1) assms show ?thesis by (simp add: biobj_function_indices_def)
qed

lemma biobj_triangle_rows:
  "map biobj_function_indices [0..<55]
     = map Inr (concat (map (\<lambda>i. map (Pair i) [i..<10]) [0..<10]))"
proof -
  let ?row = "\<lambda>i. map (\<lambda>j. i * 10 - (i * (i + 1)) div 2 + j) [i..<10]"
  have rows: "[0..<55] = concat (map ?row [0..<10])" by (simp add: upt_rec)
  have "map biobj_function_indices (?row i) = map (\<lambda>j. Inr (i, j)) [i..<10]" if "i < 10" for i
    using that biobj_row by simp
  then have "map (map biobj_function_indices) (map ?row [0..<10])
      = map (\<lambda>i. map (\<lambda>j. Inr (i, j)) [i..<10]) [0..<10]"
    by simp
  then show ?thesis unfolding rows by (simp only: map_concat) (simp add: comp_def)
qed

lemma biobj_ext_rows: "map biobj_function_indices [55..<92] = map Inr ext_indices"
proof -
  have "length ext_indices = 37" by (simp add: ext_indices_def)
  then have "biobj_function_indices k = Inr (ext_indices ! (k - 55))" if "55 \<le> k" "k < 92" for k
    using that by (simp add: biobj_function_indices_def)
  then show ?thesis
    by (intro nth_equalityI) (simp_all add: ext_indices_def)
qed

text \<open>The numbers of the two bbob functions behind a bi-objective function number.\<close>

definition biobj_functions :: "nat \<Rightarrow> (nat \<times> nat) result" where
  "biobj_functions function =
     (let function_idx = size_sub function 1;
          functions = (if function_idx < 55 then sel_bbob_functions else all_bbob_functions)
      in rbind (biobj_function_indices function_idx) (\<lambda>(i, j).
           rbind (rnth functions i) (\<lambda>f1. rbind (rnth functions j) (\<lambda>f2. Inr (f1, f2)))))"

definition biobj_table :: "(nat \<times> nat) list" where
  "biobj_table =
     map (\<lambda>(i, j). (sel_bbob_functions ! i, sel_bbob_functions ! j))
       (concat (map (\<lambda>i. map (Pair i) [i..<10]) [0..<10]))
     @ map (\<lambda>(i, j). (i + 1, j + 1)) ext_indices"

lemma biobj_functions_table: "map biobj_functions [1..<93] = map Inr biobj_table"
proof -
  have split: "[1..<93] = map Suc [0..<55] @ map Suc [55..<92]"
    using upt_add_eq_append [of 1 56 37] by (simp add: map_Suc_upt del: upt_Suc)
  let ?sel = "\<lambda>(i, j). rbind (rnth sel_bbob_functions i) (\<lambda>f1. rbind (rnth sel_bbob_functions j) (\<lambda>f2. Inr (f1, f2)))"
  let ?all = "\<lambda>(i, j). rbind (rnth all_bbob_functions i) (\<lambda>f1. rbind (rnth all_bbob_functions j) (\<lambda>f2. Inr (f1, f2)))"
  let ?rows = "concat (map (\<lambda>i. map (Pair i) [i..<10]) [0..<10]) :: (nat \<times> nat) list"
  have a: "map biobj_functions (map Suc [0..<55]) = map (\<lambda>r. rbind r ?sel) (map biobj_function_indices [0..<55])"
    by (simp add: biobj_functions_def)
  have b: "map biobj_functions (map Suc [55..<92]) = map (\<lambda>r. rbind r ?all) (map biobj_function_indices [55..<92])"
    by (simp add: biobj_functions_def)
  have s: "length sel_bbob_functions = 10" by (simp add: sel_bbob_functions_def)
  have rows: "\<forall>p \<in> set ?rows. fst p < 10 \<and> snd p < 10" by auto
  have 1: "map (\<lambda>r. rbind r ?sel) (map Inr ?rows)
      = map Inr (map (\<lambda>(i, j). (sel_bbob_functions ! i, sel_bbob_functions ! j)) ?rows)"
    unfolding map_map using rows s by (intro map_cong) auto
  have all: "length all_bbob_functions = 24" "\<And>i. i < 24 \<Longrightarrow> all_bbob_functions ! i = i + 1"
  proof -
    have e: "all_bbob_functions = [1..<25]" by (simp add: all_bbob_functions_def upt_rec)
    show "length all_bbob_functions = 24" "\<And>i. i < 24 \<Longrightarrow> all_bbob_functions ! i = i + 1"
      unfolding e by (simp_all del: upt_Suc)
  qed
  have "\<forall>p \<in> set ext_indices. fst p < 24 \<and> snd p < 24" by (simp add: ext_indices_def)
  then have 2: "map (\<lambda>r. rbind r ?all) (map Inr ext_indices) = map Inr (map (\<lambda>(i, j). (i + 1, j + 1)) ext_indices)"
    unfolding map_map using all by (intro map_cong) auto
  show ?thesis
    unfolding split map_append a b biobj_triangle_rows biobj_ext_rows 1 2 biobj_table_def ..
qed

section \<open>Facts about the search for instances\<close>

lemma check_dimensions_False:
  "check_dimensions check ds = Inr False \<longleftrightarrow> (\<forall>d \<in> set ds. d \<noteq> 0 \<longrightarrow> check d = Inr False)"
proof (induction ds)
  case (Cons d ds)
  then show ?case by (cases "check d") auto
qed simp

lemma check_second_False:
  "check_second check ds f1 fs = Inr False
     \<longleftrightarrow> (\<forall>f2 \<in> set fs. \<forall>d \<in> set ds. d \<noteq> 0 \<longrightarrow> check d f1 f2 = Inr False)"
proof (induction fs)
  case (Cons f2 fs)
  then show ?case
    using check_dimensions_False [of "\<lambda>d. check d f1 f2" ds]
    by (cases "check_dimensions (\<lambda>d. check d f1 f2) ds") auto
qed simp

lemma check_pairs_False:
  "check_pairs check ds fs = Inr False
     \<longleftrightarrow> sorted_wrt (\<lambda>f1 f2. \<forall>d \<in> set ds. d \<noteq> 0 \<longrightarrow> check d f1 f2 = Inr False) fs"
proof (induction fs)
  case (Cons f1 fs)
  then show ?case
    using check_second_False [of check ds f1 fs] by (cases "check_second check ds f1 fs") auto
qed simp

lemma check_equal_False:
  "check_equal check ds fs = Inr False
     \<longleftrightarrow> (\<forall>f \<in> set fs. \<forall>d \<in> set ds. d \<noteq> 0 \<longrightarrow> check d f f = Inr False)"
proof (induction fs)
  case (Cons f fs)
  then show ?case
    using check_dimensions_False [of "\<lambda>d. check d f f" ds]
    by (cases "check_dimensions (\<lambda>d. check d f f) ds") auto
qed simp

text \<open>When no check fails with an error, no loop does.\<close>

lemma check_dimensions_total:
  "\<forall>d \<in> set ds. d \<noteq> 0 \<longrightarrow> (\<exists>b. check d = Inr b) \<Longrightarrow> \<exists>b. check_dimensions check ds = Inr b"
  by (induction ds) auto

lemma check_second_total:
  "\<forall>d \<in> set ds. \<forall>f2 \<in> set fs. d \<noteq> 0 \<longrightarrow> (\<exists>b. check d f1 f2 = Inr b)
   \<Longrightarrow> \<exists>b. check_second check ds f1 fs = Inr b"
proof (induction fs)
  case (Cons f2 fs)
  then obtain b where "check_dimensions (\<lambda>d. check d f1 f2) ds = Inr b"
    using check_dimensions_total [of ds "\<lambda>d. check d f1 f2"] by auto
  with Cons show ?case by auto
qed auto

lemma check_pairs_total:
  "\<forall>d \<in> set ds. \<forall>f1 \<in> set fs. \<forall>f2 \<in> set fs. d \<noteq> 0 \<longrightarrow> (\<exists>b. check d f1 f2 = Inr b)
   \<Longrightarrow> \<exists>b. check_pairs check ds fs = Inr b"
proof (induction fs)
  case (Cons f1 fs)
  then obtain b where "check_second check ds f1 fs = Inr b"
    using check_second_total [of ds fs check f1] by auto
  with Cons show ?case by auto
qed auto

lemma check_equal_total:
  "\<forall>d \<in> set ds. \<forall>f \<in> set fs. d \<noteq> 0 \<longrightarrow> (\<exists>b. check d f f = Inr b)
   \<Longrightarrow> \<exists>b. check_equal check ds fs = Inr b"
proof (induction fs)
  case (Cons f fs)
  then obtain b where "check_dimensions (\<lambda>d. check d f f) ds = Inr b"
    using check_dimensions_total [of ds "\<lambda>d. check d f f"] by auto
  with Cons show ?case by auto
qed auto

text \<open>The first try that is not broken is taken.\<close>

lemma try_instances_first:
  assumes "\<forall>t \<in> set ts. \<exists>b. broken (size_t (i1 + t)) = Inr b"
  shows "case try_instances broken i1 ts of
      Inr i2 \<Rightarrow> \<exists>p t q. ts = p @ t # q \<and> i2 = size_t (i1 + t) \<and> broken i2 = Inr False
         \<and> (\<forall>u \<in> set p. broken (size_t (i1 + u)) = Inr True)
    | Inl e \<Rightarrow> e = Coco_error ''suite_biobj_get_new_instance''
         \<and> (\<forall>u \<in> set ts. broken (size_t (i1 + u)) = Inr True)"
  using assms
proof (induction ts)
  case (Cons t ts)
  then obtain b where b: "broken (size_t (i1 + t)) = Inr b" by auto
  show ?case
  proof (cases b)
    case True
    then show ?thesis
      using Cons b by (cases "try_instances broken i1 ts") (auto simp: Let_def, metis append_Cons set_ConsD)
  next
    case False
    with b have "try_instances broken i1 (t # ts) = Inr (size_t (i1 + t))" by (simp add: Let_def)
    with b False show ?thesis by (auto intro: exI [of _ "[]"])
  qed
qed simp

section \<open>Properties\<close>

text \<open>
  The magic formula numbers the pairs of the ten selected bbob functions row by row: the first 55
  bi-objective functions are the pairs of indices \<open>i \<le> j < 10\<close> in lexicographic order, without gaps
  or repetitions, in spite of the subtractions in \<open>size_t\<close> that wrap around.
\<close>

theorem biobj_magic_formula:
  "map biobj_function_indices [0..<55] = map Inr (concat (map (\<lambda>i. map (Pair i) [i..<10]) [0..<10]))"
  by (rule biobj_triangle_rows)

text \<open>
  C37. The 92 bi-objective functions are 92 different pairs of bbob functions, the first number never
  above the second, and both between 1 and 24.
\<close>

theorem biobj_functions_distinct:
  "map biobj_functions [1..<93] = map Inr biobj_table \<and> distinct biobj_table
   \<and> (\<forall>(a, b) \<in> set biobj_table. 1 \<le> a \<and> a \<le> b \<and> b \<le> 24)"
proof -
  have "distinct biobj_table" by code_simp
  moreover have "\<forall>(a, b) \<in> set biobj_table. 1 \<le> a \<and> a \<le> b \<and> b \<le> 24" by code_simp
  ultimately show ?thesis using biobj_functions_table by simp
qed

theorem biobj_functions_distinct_witness:
  "(1, 3) \<in> set biobj_table \<and> (1::nat) \<le> 1 \<and> (1::nat) \<le> 3 \<and> (3::nat) \<le> 24"
proof -
  have "(1, 3) \<in> set biobj_table" by code_simp
  with biobj_functions_distinct show ?thesis by auto
qed

text \<open>The best parameters of the allocated bbob problems have the right length.\<close>

definition parameters_ok :: "(problem_call \<Rightarrow> bbob_objective) \<Rightarrow> bool" where
  "parameters_ok objective_of \<longleftrightarrow> (\<forall>f d i p. coco_get_bbob_problem f d i = Inr p
     \<longrightarrow> length (best_parameter (objective_of p)) = d)"

text \<open>An instance is appropriate when every pair of functions passes the check in every dimension.\<close>

definition appropriate :: "(problem_call \<Rightarrow> bbob_objective) \<Rightarrow> nat list \<Rightarrow> nat \<Rightarrow> nat \<Rightarrow> bool" where
  "appropriate objective_of ds i1 i2 \<longleftrightarrow>
     (\<forall>d \<in> set ds. d \<noteq> 0 \<longrightarrow>
        (\<forall>f1 \<in> {1..24}. \<forall>f2 \<in> {1..24}. f1 < f2
           \<longrightarrow> suite_biobj_check_inst_consistency objective_of d f1 i1 f2 i2 = Inr False)
        \<and> (\<forall>f \<in> set sel_bbob_functions.
             suite_biobj_check_inst_consistency objective_of d f i1 f i2 = Inr False))"

lemma norm_loop_total:
  "\<forall>i \<in> set is. i < length a \<and> i < length b \<Longrightarrow> \<exists>r. norm_loop acc is a b = Inr r"
  by (induction "is" arbitrary: acc) auto

lemma consistency_total:
  assumes "parameters_ok objective_of" "f1 \<in> {1..24}" "f2 \<in> {1..24}"
  shows "\<exists>b. suite_biobj_check_inst_consistency objective_of d f1 i1 f2 i2 = Inr b"
proof -
  obtain p1 p2 where p: "coco_get_bbob_problem f1 d i1 = Inr p1" "coco_get_bbob_problem f2 d i2 = Inr p2"
    using assms(2,3) coco_get_bbob_problem_total [THEN iffD2] by (metis atLeastAtMost_iff)
  then have "length (best_parameter (objective_of p1)) = d" "length (best_parameter (objective_of p2)) = d"
    using assms(1) by (auto simp: parameters_ok_def)
  then have "\<exists>r. norm_loop 0 [0..<d] (best_parameter (objective_of p1)) (best_parameter (objective_of p2)) = Inr r"
    by (intro norm_loop_total) auto
  moreover have "\<exists>r. norm_loop 0 [0..<2] [x, y] [z, w] = Inr r" for x y z w :: real
    by (intro norm_loop_total) auto
  ultimately show ?thesis
    using p by (auto simp: suite_biobj_check_inst_consistency_def mo_get_norm_def Let_def) (metis rbind_simps(2))
qed

lemma all_bbob_upt: "all_bbob_functions = [1..<25]"
  by (simp add: all_bbob_functions_def upt_rec)

lemma sel_bbob_range: "f \<in> set sel_bbob_functions \<Longrightarrow> f \<in> {1..24}"
  by (auto simp: sel_bbob_functions_def)

definition broken_search :: "(problem_call \<Rightarrow> bbob_objective) \<Rightarrow> nat list \<Rightarrow> nat \<Rightarrow> nat \<Rightarrow> bool result" where
  "broken_search objective_of ds i1 i2 =
     (let check = (\<lambda>d f1 f2. suite_biobj_check_inst_consistency objective_of d f1 i1 f2 i2)
      in rbind (check_pairs check ds all_bbob_functions) (\<lambda>break.
           if break then Inr True else check_equal check ds sel_bbob_functions))"

lemma broken_search_appropriate:
  assumes "parameters_ok objective_of"
  shows "broken_search objective_of ds i1 i2 = Inr (\<not> appropriate objective_of ds i1 i2)"
proof -
  let ?c = "\<lambda>d f1 f2. suite_biobj_check_inst_consistency objective_of d f1 i1 f2 i2"
  obtain b where b: "check_pairs ?c ds all_bbob_functions = Inr b"
    using check_pairs_total [of ds all_bbob_functions ?c] consistency_total [OF assms]
    by (force simp: all_bbob_upt)
  obtain e where e: "check_equal ?c ds sel_bbob_functions = Inr e"
    using check_equal_total [of ds sel_bbob_functions ?c] consistency_total [OF assms] sel_bbob_range by blast
  have "\<not> b \<longleftrightarrow> (\<forall>f1 \<in> {1..24}. \<forall>f2 \<in> {1..24}. f1 < f2 \<longrightarrow> (\<forall>d \<in> set ds. d \<noteq> 0 \<longrightarrow> ?c d f1 f2 = Inr False))"
  proof -
    have "\<not> b \<longleftrightarrow> check_pairs ?c ds all_bbob_functions = Inr False" using b by simp
    also have "\<dots> \<longleftrightarrow> sorted_wrt (\<lambda>f1 f2. \<forall>d \<in> set ds. d \<noteq> 0 \<longrightarrow> ?c d f1 f2 = Inr False) [1..<25]"
      unfolding check_pairs_False all_bbob_upt ..
    also have "\<dots> \<longleftrightarrow> (\<forall>i j. i < j \<longrightarrow> j < 24 \<longrightarrow> (\<forall>d \<in> set ds. d \<noteq> 0 \<longrightarrow> ?c d (1 + i) (1 + j) = Inr False))"
      by (auto simp: sorted_wrt_iff_nth_less simp del: upt_Suc)
    also have "\<dots> \<longleftrightarrow> (\<forall>f1 \<in> {1..24}. \<forall>f2 \<in> {1..24}. f1 < f2 \<longrightarrow> (\<forall>d \<in> set ds. d \<noteq> 0 \<longrightarrow> ?c d f1 f2 = Inr False))"
    proof (intro iffI ballI impI allI)
      fix f1 f2 d
      assume *: "\<forall>i j. i < j \<longrightarrow> j < 24 \<longrightarrow> (\<forall>d \<in> set ds. d \<noteq> 0 \<longrightarrow> ?c d (1 + i) (1 + j) = Inr False)"
        and "f1 \<in> {1..24::nat}" "f2 \<in> {1..24}" "f1 < f2" "d \<in> set ds" "d \<noteq> 0"
      then show "?c d f1 f2 = Inr False" using * [rule_format, of "f1 - 1" "f2 - 1" d] by auto
    qed auto
    finally show ?thesis .
  qed
  moreover have "\<not> e \<longleftrightarrow> (\<forall>f \<in> set sel_bbob_functions. \<forall>d \<in> set ds. d \<noteq> 0 \<longrightarrow> ?c d f f = Inr False)"
    using e check_equal_False [of ?c ds sel_bbob_functions] by simp
  ultimately have "(b \<or> e) \<longleftrightarrow> \<not> appropriate objective_of ds i1 i2" unfolding appropriate_def by blast
  then show ?thesis using b e by (cases b) (simp_all add: broken_search_def Let_def)
qed

text \<open>
  C30. The search for a new bi-objective instance: it returns the first of the 1000 instances after
  \<open>instance1\<close> that is appropriate for all pairs of functions in all dimensions that are not filtered
  out, and enters it into the matrix of new instances; if there is none it ends in \<open>coco_error\<close>.
\<close>

theorem new_instance_first_appropriate:
  assumes "parameters_ok objective_of"
  shows "case suite_biobj_get_new_instance objective_of new inst i1 all_bbob_functions sel_bbob_functions ds of
      Inr (i2, new') \<Rightarrow> (\<exists>t \<in> {1..1000}. i2 = size_t (i1 + t) \<and> appropriate objective_of ds i1 i2
           \<and> (\<forall>u \<in> {1..<t}. \<not> appropriate objective_of ds i1 (size_t (i1 + u))))
         \<and> new_instances new' = store_instance (inst, i1, i2) (new_instances new)
    | Inl e \<Rightarrow> e = Coco_error ''suite_biobj_get_new_instance''
         \<and> (\<forall>u \<in> {1..1000}. \<not> appropriate objective_of ds i1 (size_t (i1 + u)))"
proof -
  let ?b = "\<lambda>i2. broken_search objective_of ds i1 i2" and ?ts = "[1..<Suc max_tries]"
  have ts: "set ?ts = {1..1000}" by (auto simp: max_tries_def)
  have g: "suite_biobj_get_new_instance objective_of new inst i1 all_bbob_functions sel_bbob_functions ds
      = rbind (try_instances ?b i1 ?ts) (\<lambda>i2. Inr (i2, new
         \<lparr>new_instances := store_instance (inst, i1, i2) (new_instances new)\<rparr>))"
    by (simp add: suite_biobj_get_new_instance_def broken_search_def del: upt_Suc)
  have r: "case try_instances ?b i1 ?ts of
      Inr i2 \<Rightarrow> \<exists>p t q. ?ts = p @ t # q \<and> i2 = size_t (i1 + t) \<and> ?b i2 = Inr False
         \<and> (\<forall>u \<in> set p. ?b (size_t (i1 + u)) = Inr True)
    | Inl e \<Rightarrow> e = Coco_error ''suite_biobj_get_new_instance''
         \<and> (\<forall>u \<in> set ?ts. ?b (size_t (i1 + u)) = Inr True)"
    using broken_search_appropriate [OF assms] by (intro try_instances_first) simp
  show ?thesis
  proof (cases "try_instances ?b i1 ?ts")
    case (Inl e)
    have g': "suite_biobj_get_new_instance objective_of new inst i1 all_bbob_functions sel_bbob_functions ds = Inl e"
      unfolding g Inl by simp
    show ?thesis
      using r [unfolded Inl sum.case ts] unfolding g' by (simp add: broken_search_appropriate [OF assms])
  next
    case (Inr i2)
    then obtain p t q where split: "?ts = p @ t # q" "i2 = size_t (i1 + t)" "?b i2 = Inr False"
      "\<forall>u \<in> set p. ?b (size_t (i1 + u)) = Inr True"
      using r by (simp del: upt_Suc) blast
    have "t = 1 + length p" "p = [1..<t]"
    proof -
      have l: "length p < length ?ts" using arg_cong [OF split(1), of length] by simp
      have "?ts ! length p = t" by (simp only: split(1) nth_append_length)
      then show t: "t = 1 + length p" using l by (simp del: upt_Suc)
      have "p = take (length p) ?ts" by (simp only: split(1)) simp
      then show "p = [1..<t]" using l t by (simp add: take_upt del: upt_Suc)
    qed
    then have "\<forall>u \<in> {1..<t}. \<not> appropriate objective_of ds i1 (size_t (i1 + u))"
      using split(4) by (simp add: broken_search_appropriate [OF assms])
    moreover have "appropriate objective_of ds i1 i2"
      using split(3) by (simp add: broken_search_appropriate [OF assms])
    moreover have "t \<in> {1..1000}"
    proof -
      have "t \<in> set ?ts" by (simp only: split(1)) simp
      then show ?thesis by (simp only: ts)
    qed
    moreover have g': "suite_biobj_get_new_instance objective_of new inst i1 all_bbob_functions sel_bbob_functions ds
      = Inr (i2, new\<lparr>new_instances := store_instance (inst, i1, i2) (new_instances new)\<rparr>)"
      unfolding g Inr by simp
    ultimately show ?thesis using split(2) unfolding g' by auto
  qed
qed

text \<open>A model in which the best parameter of instance \<open>i\<close> is the vector with all entries \<open>i\<close>.\<close>

fun sample_objective :: "problem_call \<Rightarrow> bbob_objective" where
  "sample_objective (Alloc a f d i seed) =
     \<lparr> evaluate_function = (\<lambda>x. sum_squares (real i) x), best_value = 0, best_parameter = replicate d (real i) \<rparr>"
| "sample_objective p = \<lparr> evaluate_function = (\<lambda>x. 0), best_value = 0, best_parameter = [] \<rparr>"

lemma sample_objective_parameters: "parameters_ok sample_objective"
proof -
  have "\<exists>a s. p = Alloc a f d i s" if "coco_get_bbob_problem f d i = Inr p" for f d i p
    using that by (auto simp: coco_get_bbob_problem_def Let_def split: if_splits)
  then show ?thesis by (fastforce simp: parameters_ok_def)
qed

theorem new_instance_first_appropriate_witness:
  "case suite_biobj_get_new_instance sample_objective (fresh_new_inst 1) 16 33 all_bbob_functions
      sel_bbob_functions [2] of
      Inr (i2, new') \<Rightarrow> appropriate sample_objective [2] 33 i2
    | Inl e \<Rightarrow> \<not> appropriate sample_objective [2] 33 34"
  using new_instance_first_appropriate [OF sample_objective_parameters,
      where new = "fresh_new_inst 1" and inst = 16 and ?i1.0 = 33 and ds = "[2]"]
  by (auto split: sum.splits simp: Ball_def dest: spec [of _ 1])

end
