(* ===== verification/Coco_Suites.thy ===== *)
theory Coco_Suites
  imports Coco_Biobj
begin

text \<open>
  The suites: \<open>coco_suite.c\<close> and the initializers, instance tables and problem getters of the seven
  suites. A suite is a record with the fields of \<open>coco_suite_t\<close>; operations that change it return
  the changed record. The memory of the old current problem, the console output and the back
  pointer from a problem to its suite are not modelled.
\<close>

section \<open>Problems and suites\<close>

record coco_problem =
  problem :: problem_call
  suite_dep_function :: nat
  suite_dep_instance :: nat
  suite_dep_index :: nat

record coco_suite =
  suite_name :: string
  number_of_dimensions :: nat
  suite_dimensions :: "nat list"
  number_of_functions :: nat
  suite_functions :: "nat list"
  number_of_instances :: nat
  default_instances :: string
  suite_instances :: "nat list"
  current_problem :: "coco_problem option"
  current_dimension_idx :: int
  current_function_idx :: int
  current_instance_idx :: int
  suite_data :: "suite_biobj_new_inst option"

definition COCO_MAX_INSTANCES :: nat where
  "COCO_MAX_INSTANCES = 1000"

text \<open>\<open>PATH_MAX\<close> on Linux.\<close>

definition COCO_PATH_MAX :: nat where
  "COCO_PATH_MAX = 4096"

section \<open>Problem indices\<close>

definition coco_suite_encode_problem_index :: "coco_suite \<Rightarrow> nat \<Rightarrow> nat \<Rightarrow> nat \<Rightarrow> nat" where
  "coco_suite_encode_problem_index suite function_idx dimension_idx instance_idx =
     size_t (instance_idx + function_idx * number_of_instances suite
       + dimension_idx * number_of_instances suite * number_of_functions suite)"

text \<open>
  \<open>None\<close>: the index is too large and nothing is written through the three pointers. Otherwise the
  function, dimension and instance index.
\<close>

definition coco_suite_decode_problem_index :: "coco_suite \<Rightarrow> nat \<Rightarrow> (nat \<times> nat \<times> nat) option result" where
  "coco_suite_decode_problem_index suite problem_index =
     (let ni = number_of_instances suite; nf = number_of_functions suite;
          nd = number_of_dimensions suite
      in
        if problem_index > size_sub (size_t (ni * nf * nd)) 1 then Inr None
        else if ni = 0 \<or> nf = 0 \<or> size_t (ni * nf) = 0 then Inl Div_by_zero
        else Inr (Some ((problem_index div ni) mod nf, problem_index div size_t (ni * nf),
                        problem_index mod ni)))"

definition coco_suite_get_number_of_problems :: "coco_suite \<Rightarrow> nat" where
  "coco_suite_get_number_of_problems suite =
     size_t (number_of_instances suite * number_of_functions suite * number_of_dimensions suite)"

section \<open>Initializers\<close>

definition coco_suite_allocate :: "string \<Rightarrow> nat \<Rightarrow> nat list \<Rightarrow> string \<Rightarrow> coco_suite result" where
  "coco_suite_allocate name n_functions dims default_inst =
     (if dims = [] \<or> n_functions = 0 \<or> default_inst = [] then Inl (Assert_failed ''coco_suite_allocate'')
      else Inr \<lparr> suite_name = name,
                 number_of_dimensions = length dims,
                 suite_dimensions = dims,
                 number_of_functions = n_functions,
                 suite_functions = map Suc [0..<n_functions],
                 number_of_instances = 0,
                 default_instances = default_inst,
                 suite_instances = [],
                 current_problem = None,
                 current_dimension_idx = - 1,
                 current_function_idx = - 1,
                 current_instance_idx = - 1,
                 suite_data = None \<rparr>)"

definition suite_toy_initialize :: "coco_suite result" where
  "suite_toy_initialize = coco_suite_allocate ''toy'' 6 [2, 3, 5, 10, 20] ''instances: 1''"

definition suite_bbob_initialize :: "coco_suite result" where
  "suite_bbob_initialize = coco_suite_allocate ''bbob'' 24 [2, 3, 5, 10, 20, 40] ''year: 2021''"

definition suite_biobj_initialize :: "string \<Rightarrow> coco_suite result" where
  "suite_biobj_initialize name =
     (if name = ''bbob-biobj'' then
        coco_suite_allocate ''bbob-biobj'' 55 [2, 3, 5, 10, 20, 40] ''instances: 1-15''
      else if name = ''bbob-biobj-ext'' then
        coco_suite_allocate ''bbob-biobj-ext'' (55 + 37) [2, 3, 5, 10, 20, 40] ''instances: 1-15''
      else Inl (Coco_error ''suite_biobj_initialize''))"

definition suite_largescale_initialize :: "coco_suite result" where
  "suite_largescale_initialize =
     coco_suite_allocate ''bbob-largescale'' 24 [20, 40, 80, 160, 320, 640] ''instances: 1-15''"

definition suite_cons_bbob_initialize :: "string \<Rightarrow> coco_suite result" where
  "suite_cons_bbob_initialize name = coco_suite_allocate name 54 [2, 3, 5, 10, 20, 40] ''year: 2022''"

definition suite_bbob_mixint_initialize :: "string \<Rightarrow> coco_suite result" where
  "suite_bbob_mixint_initialize name =
     coco_suite_allocate name 24 [5, 10, 20, 40, 80, 160] ''instances: 1-15''"

definition suite_biobj_mixint_initialize :: "coco_suite result" where
  "suite_biobj_mixint_initialize =
     coco_suite_allocate ''bbob-biobj-mixint'' 92 [5, 10, 20, 40, 80, 160] ''instances: 1-15''"

definition is_constrained :: "string \<Rightarrow> bool" where
  "is_constrained name \<longleftrightarrow> take 16 name = ''bbob-constrained''"

definition coco_suite_intialize :: "string \<Rightarrow> coco_suite result" where
  "coco_suite_intialize name =
     (if name = ''toy'' then suite_toy_initialize
      else if name = ''bbob'' then suite_bbob_initialize
      else if name = ''bbob-biobj'' \<or> name = ''bbob-biobj-ext'' then suite_biobj_initialize name
      else if name = ''bbob-largescale'' then suite_largescale_initialize
      else if is_constrained name then suite_cons_bbob_initialize name
      else if name = ''bbob-mixint'' then suite_bbob_mixint_initialize name
      else if name = ''bbob-biobj-mixint'' then suite_biobj_mixint_initialize
      else Inl (Coco_error ''coco_suite_intialize''))"

section \<open>Instances by year\<close>

definition suite_bbob_get_instances_by_year :: "int \<Rightarrow> string result" where
  "suite_bbob_get_instances_by_year year =
     (if year = 2009 then Inr ''1-5,1-5,1-5''
      else if year = 2010 then Inr ''1-15''
      else if year = 2012 then Inr ''1-5,21-30''
      else if year = 2013 then Inr ''1-5,31-40''
      else if year = 2015 then Inr ''1-5,41-50''
      else if year = 2016 \<or> year = 0 then Inr ''1-5,51-60''
      else if year = 2017 then Inr ''1-5,61-70''
      else if year = 2018 then Inr ''1-5,71-80''
      else if year = 2021 then Inr ''1-5,91-100''
      else Inl (Coco_error ''suite_bbob_get_instances_by_year''))"

definition suite_biobj_get_instances_by_year :: "int \<Rightarrow> string result" where
  "suite_biobj_get_instances_by_year year =
     (if year = 2016 \<or> year = 0 then Inr ''1-10'' else Inr ''1-15'')"

definition suite_cons_bbob_get_instances_by_year :: "int \<Rightarrow> string result" where
  "suite_cons_bbob_get_instances_by_year year =
     (if year = 2022 \<or> year = 0 then Inr ''1-15''
      else Inl (Coco_error ''suite_cons_bbob_get_instances_by_year''))"

definition suite_largescale_get_instances_by_year :: "int \<Rightarrow> string result" where
  "suite_largescale_get_instances_by_year year =
     (if year = 2016 \<or> year = 0 then Inr ''1-15''
      else Inl (Coco_error ''suite_largescale_get_instances_by_year''))"

definition suite_bbob_mixint_get_instances_by_year :: "int \<Rightarrow> string result" where
  "suite_bbob_mixint_get_instances_by_year year = Inr ''1-15''"

definition suite_biobj_mixint_get_instances_by_year :: "int \<Rightarrow> string result" where
  "suite_biobj_mixint_get_instances_by_year year = Inr ''1-15''"

definition coco_suite_get_instances_by_year :: "coco_suite \<Rightarrow> int \<Rightarrow> string result" where
  "coco_suite_get_instances_by_year suite year =
     (let name = suite_name suite in
      if name = ''bbob'' then suite_bbob_get_instances_by_year year
      else if name = ''bbob-biobj'' \<or> name = ''bbob-biobj-ext'' then suite_biobj_get_instances_by_year year
      else if is_constrained name then suite_cons_bbob_get_instances_by_year year
      else if name = ''bbob-largescale'' then suite_largescale_get_instances_by_year year
      else if name = ''bbob-mixint'' then suite_bbob_mixint_get_instances_by_year year
      else if name = ''bbob-biobj-mixint'' then suite_biobj_mixint_get_instances_by_year year
      else Inl (Coco_error ''coco_suite_get_instances_by_year''))"

section \<open>Problems of the suites\<close>

text \<open>Reading the function, dimension and instance at the three indices.\<close>

definition with_indices ::
  "coco_suite \<Rightarrow> nat \<Rightarrow> nat \<Rightarrow> nat \<Rightarrow> (nat \<Rightarrow> nat \<Rightarrow> nat \<Rightarrow> 'a result) \<Rightarrow> 'a result" where
  "with_indices suite function_idx dimension_idx instance_idx k =
     rbind (rnth (suite_functions suite) function_idx) (\<lambda>function.
     rbind (rnth (suite_dimensions suite) dimension_idx) (\<lambda>dimension.
     rbind (rnth (suite_instances suite) instance_idx) (\<lambda>instance. k function dimension instance)))"

text \<open>The fields every getter sets after it has constructed the problem.\<close>

definition suite_problem ::
  "coco_suite \<Rightarrow> nat \<Rightarrow> nat \<Rightarrow> nat \<Rightarrow> (nat \<Rightarrow> nat \<Rightarrow> nat \<Rightarrow> problem_call result) \<Rightarrow> coco_problem result" where
  "suite_problem suite function_idx dimension_idx instance_idx get =
     with_indices suite function_idx dimension_idx instance_idx (\<lambda>function dimension instance.
       rbind (get function dimension instance) (\<lambda>p.
         Inr \<lparr> problem = p, suite_dep_function = function, suite_dep_instance = instance,
               suite_dep_index =
                 coco_suite_encode_problem_index suite function_idx dimension_idx instance_idx \<rparr>))"

definition suite_toy_get_problem :: "coco_suite \<Rightarrow> nat \<Rightarrow> nat \<Rightarrow> nat \<Rightarrow> coco_problem result" where
  "suite_toy_get_problem suite fi di ii = suite_problem suite fi di ii (\<lambda>f d i. toy_problem f d)"

definition suite_bbob_get_problem :: "coco_suite \<Rightarrow> nat \<Rightarrow> nat \<Rightarrow> nat \<Rightarrow> coco_problem result" where
  "suite_bbob_get_problem suite fi di ii = suite_problem suite fi di ii coco_get_bbob_problem"

definition suite_largescale_get_problem :: "coco_suite \<Rightarrow> nat \<Rightarrow> nat \<Rightarrow> nat \<Rightarrow> coco_problem result" where
  "suite_largescale_get_problem suite fi di ii = suite_problem suite fi di ii coco_get_largescale_problem"

definition suite_cons_bbob_get_problem :: "coco_suite \<Rightarrow> nat \<Rightarrow> nat \<Rightarrow> nat \<Rightarrow> coco_problem result" where
  "suite_cons_bbob_get_problem suite fi di ii =
     suite_problem suite fi di ii (coco_get_cons_bbob_problem (suite_name suite))"

definition dim_large_scale :: nat where
  "dim_large_scale = 50"

definition suite_bbob_mixint_get_problem :: "coco_suite \<Rightarrow> nat \<Rightarrow> nat \<Rightarrow> nat \<Rightarrow> coco_problem result" where
  "suite_bbob_mixint_get_problem suite fi di ii =
     suite_problem suite fi di ii (\<lambda>function dimension instance.
       coco_get_bbob_mixint_problem function dimension instance
         (if dimension < dim_large_scale then coco_get_bbob_problem else coco_get_largescale_problem))"

text \<open>
  The getters of the bi-objective suites pass the address of a local copy of \<open>suite->data\<close>: the
  new instances are computed for the call and do not reach the suite.
\<close>

definition suite_biobj_get_problem ::
  "(problem_call \<Rightarrow> bbob_objective) \<Rightarrow> coco_suite \<Rightarrow> nat \<Rightarrow> nat \<Rightarrow> nat \<Rightarrow> coco_problem result" where
  "suite_biobj_get_problem objective_of suite fi di ii =
     suite_problem suite fi di ii (\<lambda>function dimension instance.
       rbind (coco_get_biobj_problem objective_of function dimension instance coco_get_bbob_problem
                (suite_data suite) (number_of_instances suite) (suite_dimensions suite))
         (\<lambda>(p, new_inst_data). Inr p))"

definition suite_biobj_mixint_get_problem ::
  "(problem_call \<Rightarrow> bbob_objective) \<Rightarrow> coco_suite \<Rightarrow> nat \<Rightarrow> nat \<Rightarrow> nat \<Rightarrow> coco_problem result" where
  "suite_biobj_mixint_get_problem objective_of suite fi di ii =
     suite_problem suite fi di ii (\<lambda>function dimension instance.
       rbind (coco_get_biobj_mixint_problem objective_of function dimension instance
                (if dimension < dim_large_scale then coco_get_bbob_problem else coco_get_largescale_problem)
                (suite_data suite) (number_of_instances suite) (suite_dimensions suite))
         (\<lambda>(p, new_inst_data). Inr p))"

definition coco_suite_get_problem_from_indices ::
  "(problem_call \<Rightarrow> bbob_objective) \<Rightarrow> coco_suite \<Rightarrow> nat \<Rightarrow> nat \<Rightarrow> nat \<Rightarrow> coco_problem option result" where
  "coco_suite_get_problem_from_indices objective_of suite fi di ii =
     with_indices suite fi di ii (\<lambda>function dimension instance.
       if function = 0 \<or> dimension = 0 \<or> instance = 0 then Inr None
       else
         let name = suite_name suite in
         rbind
           (if name = ''toy'' then suite_toy_get_problem suite fi di ii
            else if name = ''bbob'' then suite_bbob_get_problem suite fi di ii
            else if name = ''bbob-biobj'' \<or> name = ''bbob-biobj-ext'' then
              suite_biobj_get_problem objective_of suite fi di ii
            else if is_constrained name then suite_cons_bbob_get_problem suite fi di ii
            else if name = ''bbob-largescale'' then suite_largescale_get_problem suite fi di ii
            else if name = ''bbob-mixint'' then suite_bbob_mixint_get_problem suite fi di ii
            else if name = ''bbob-biobj-mixint'' then
              suite_biobj_mixint_get_problem objective_of suite fi di ii
            else Inl (Coco_error ''coco_suite_get_problem_from_indices''))
           (\<lambda>p. Inr (Some p)))"

text \<open>An index that cannot be decoded leaves the three indices at their initial value 0.\<close>

definition coco_suite_get_problem ::
  "(problem_call \<Rightarrow> bbob_objective) \<Rightarrow> coco_suite \<Rightarrow> nat \<Rightarrow> coco_problem option result" where
  "coco_suite_get_problem objective_of suite problem_index =
     rbind (coco_suite_decode_problem_index suite problem_index) (\<lambda>decoded.
       case decoded of
         None \<Rightarrow> coco_suite_get_problem_from_indices objective_of suite 0 0 0
       | Some (function_idx, dimension_idx, instance_idx) \<Rightarrow>
           coco_suite_get_problem_from_indices objective_of suite function_idx dimension_idx instance_idx)"

text \<open>The three search loops of \<open>coco_suite_get_problem_by_function_dimension_instance\<close>.\<close>

function index_of :: "nat list \<Rightarrow> nat \<Rightarrow> nat \<Rightarrow> nat \<Rightarrow> nat option result" where
  "index_of items number v i =
     (if i < number then
        (if i \<ge> length items then Inl Out_of_bounds
         else if items ! i = v then Inr (Some i)
         else index_of items number v (Suc i))
      else Inr None)"
  by pat_completeness auto
termination
  by (relation "measure (\<lambda>(items, number, v, i). number - i)") auto

declare index_of.simps [simp del]

definition coco_suite_get_problem_by_function_dimension_instance ::
  "(problem_call \<Rightarrow> bbob_objective) \<Rightarrow> coco_suite \<Rightarrow> nat \<Rightarrow> nat \<Rightarrow> nat \<Rightarrow> coco_problem option result" where
  "coco_suite_get_problem_by_function_dimension_instance objective_of suite function dimension instance =
     rbind (index_of (suite_functions suite) (number_of_functions suite) function 0) (\<lambda>fi. case fi of
       None \<Rightarrow> Inr None
     | Some fi \<Rightarrow> rbind (index_of (suite_dimensions suite) (number_of_dimensions suite) dimension 0) (\<lambda>di. case di of
         None \<Rightarrow> Inr None
       | Some di \<Rightarrow> rbind (index_of (suite_instances suite) (number_of_instances suite) instance 0) (\<lambda>ii. case ii of
           None \<Rightarrow> Inr None
         | Some ii \<Rightarrow> coco_suite_get_problem_from_indices objective_of suite fi di ii)))"

section \<open>Facts about problem indices\<close>

text \<open>The product of the three counts is not 0 and fits into \<open>size_t\<close>.\<close>

definition counts_ok :: "coco_suite \<Rightarrow> bool" where
  "counts_ok suite \<longleftrightarrow> 0 < number_of_instances suite \<and> 0 < number_of_functions suite
     \<and> 0 < number_of_dimensions suite
     \<and> number_of_instances suite * number_of_functions suite * number_of_dimensions suite < 2 ^ 64"

lemma mixed_radix_lt:
  assumes "(i::nat) < ni" "f < nf" "d < nd"
  shows "i + f * ni + d * ni * nf < ni * nf * nd"
proof -
  have "i + f * ni < ni * nf"
  proof -
    have "i + f * ni < Suc f * ni" using assms(1) by simp
    also have "\<dots> \<le> nf * ni" using assms(2) by (intro mult_le_mono1) simp
    finally show ?thesis by (simp add: mult.commute)
  qed
  then have "i + f * ni + d * (ni * nf) < Suc d * (ni * nf)" by simp
  also have "\<dots> \<le> nd * (ni * nf)" using assms(3) by (intro mult_le_mono1) simp
  finally show ?thesis by (simp add: ac_simps)
qed

lemma encode_value:
  assumes "counts_ok s" "i < number_of_instances s" "f < number_of_functions s" "d < number_of_dimensions s"
  shows "coco_suite_encode_problem_index s f d i
      = i + f * number_of_instances s + d * number_of_instances s * number_of_functions s"
    and "coco_suite_encode_problem_index s f d i < coco_suite_get_number_of_problems s"
  using mixed_radix_lt [OF assms(2-4)] assms(1)
  by (simp_all add: coco_suite_encode_problem_index_def coco_suite_get_number_of_problems_def counts_ok_def)

lemma decode_encode:
  assumes "counts_ok s" "i < number_of_instances s" "f < number_of_functions s" "d < number_of_dimensions s"
  shows "coco_suite_decode_problem_index s (coco_suite_encode_problem_index s f d i) = Inr (Some (f, d, i))"
proof -
  let ?ni = "number_of_instances s" and ?nf = "number_of_functions s" and ?nd = "number_of_dimensions s"
  let ?p = "i + f * ?ni + d * ?ni * ?nf"
  have lt: "?p < ?ni * ?nf * ?nd" using assms(2-4) by (rule mixed_radix_lt)
  have pos: "0 < ?ni" "0 < ?nf" "0 < ?nd" "?ni * ?nf * ?nd < 2 ^ 64" using assms(1) by (auto simp: counts_ok_def)
  then have le: "?ni * ?nf < 2 ^ 64"
    by (metis Suc_leI le_less_trans mult.right_neutral mult_le_mono2 One_nat_def)
  have p: "?p = i + ?ni * (f + d * ?nf)" by (simp add: algebra_simps)
  have "?p div ?ni = f + d * ?nf" unfolding p using assms(2) by simp
  moreover have "?p mod ?ni = i" unfolding p using assms(2) by simp
  moreover have "?p div (?ni * ?nf) = d"
  proof -
    have lt: "i + f * ?ni < ?ni * ?nf" using mixed_radix_lt [OF assms(2,3), of 0 1] by simp
    have p: "?p = (i + f * ?ni) + (?ni * ?nf) * d" by (simp add: algebra_simps)
    show ?thesis unfolding p using lt pos by (simp only: div_mult_self2 div_less)
  qed
  ultimately show ?thesis
    using lt pos le encode_value(1) [OF assms] assms(3)
    by (simp add: coco_suite_decode_problem_index_def Let_def)
qed

lemma encode_decode:
  assumes "counts_ok s" "p < coco_suite_get_number_of_problems s"
  shows "\<exists>f d i. coco_suite_decode_problem_index s p = Inr (Some (f, d, i))
    \<and> f < number_of_functions s \<and> d < number_of_dimensions s \<and> i < number_of_instances s
    \<and> coco_suite_encode_problem_index s f d i = p"
proof -
  let ?ni = "number_of_instances s" and ?nf = "number_of_functions s" and ?nd = "number_of_dimensions s"
  let ?i = "p mod ?ni" and ?f = "p div ?ni mod ?nf" and ?d = "p div (?ni * ?nf)"
  have pos: "0 < ?ni" "0 < ?nf" "0 < ?nd" and prod: "?ni * ?nf * ?nd < 2 ^ 64"
    using assms(1) by (auto simp: counts_ok_def)
  then have p: "p < ?ni * ?nf * ?nd" using assms(2) by (simp add: coco_suite_get_number_of_problems_def)
  have i: "?i < ?ni" and f: "?f < ?nf" using pos by simp_all
  have d: "?d < ?nd" using p by (simp add: less_mult_imp_div_less mult.commute)
  have eq: "?i + ?f * ?ni + ?d * ?ni * ?nf = p"
  proof -
    have "p = ?i + ?ni * (p div ?ni)" by simp
    also have "p div ?ni = ?f + ?nf * (p div ?ni div ?nf)" by simp
    also have "p div ?ni div ?nf = ?d" by (simp add: div_mult2_eq)
    finally show ?thesis by (simp add: algebra_simps)
  qed
  then have e: "coco_suite_encode_problem_index s ?f ?d ?i = p"
    using encode_value(1) [OF assms(1) i f d] by simp
  show ?thesis
    using decode_encode [OF assms(1) i f d] i f d e by (metis (no_types))
qed

section \<open>Properties\<close>

text \<open>
  C28. Problem indices are a bijection: in a suite whose counts are positive and whose number of
  problems fits into \<open>size_t\<close>, decoding an encoded triple gives the triple back, every encoded index
  is below the number of problems, and every index below it decodes to a triple that encodes to it.
\<close>

theorem problem_index_bijection:
  assumes "counts_ok s"
  shows "(\<forall>f < number_of_functions s. \<forall>d < number_of_dimensions s. \<forall>i < number_of_instances s.
      coco_suite_encode_problem_index s f d i < coco_suite_get_number_of_problems s
      \<and> coco_suite_decode_problem_index s (coco_suite_encode_problem_index s f d i) = Inr (Some (f, d, i)))
    \<and> (\<forall>p < coco_suite_get_number_of_problems s. \<exists>f d i.
      coco_suite_decode_problem_index s p = Inr (Some (f, d, i))
      \<and> coco_suite_encode_problem_index s f d i = p)"
  using encode_value(2) [OF assms] decode_encode [OF assms] encode_decode [OF assms] by blast

definition sample_suite :: coco_suite where
  "sample_suite = \<lparr> suite_name = ''bbob'', number_of_dimensions = 2, suite_dimensions = [2, 3],
     number_of_functions = 3, suite_functions = [1, 2, 3], number_of_instances = 2,
     default_instances = ''year: 2021'', suite_instances = [1, 91], current_problem = None,
     current_dimension_idx = 0, current_function_idx = 0, current_instance_idx = - 1, suite_data = None \<rparr>"

lemma sample_suite_counts: "counts_ok sample_suite"
  by (simp add: counts_ok_def sample_suite_def)

theorem problem_index_bijection_witness:
  "coco_suite_decode_problem_index sample_suite (coco_suite_encode_problem_index sample_suite 2 1 1)
     = Inr (Some (2, 1, 1))"
  using problem_index_bijection [OF sample_suite_counts] by (simp add: sample_suite_def)

text \<open>
  A problem index that is too large is not an error: nothing is written through the pointers of
  \<open>coco_suite_decode_problem_index\<close>, and \<open>coco_suite_get_problem\<close> returns the problem with index 0.
\<close>

theorem get_problem_index_too_large:
  assumes "counts_ok s" and "coco_suite_get_number_of_problems s \<le> p"
  shows "coco_suite_decode_problem_index s p = Inr None
    \<and> coco_suite_get_problem objective_of s p = coco_suite_get_problem objective_of s 0"
proof -
  have n: "0 < coco_suite_get_number_of_problems s" "coco_suite_get_number_of_problems s < 2 ^ 64"
    using assms(1) by (simp_all add: counts_ok_def coco_suite_get_number_of_problems_def)
  then have "size_sub (coco_suite_get_number_of_problems s) 1 = coco_suite_get_number_of_problems s - 1" by simp
  then have too_large: "coco_suite_decode_problem_index s p = Inr None"
  proof -
    have "coco_suite_get_number_of_problems s - 1 < p" using n(1) assms(2) by linarith
    then show ?thesis
      using n unfolding coco_suite_decode_problem_index_def Let_def
      by (simp add: coco_suite_get_number_of_problems_def [symmetric])
  qed
  moreover have "coco_suite_decode_problem_index s 0 = Inr (Some (0, 0, 0))"
  proof -
    have "0 < number_of_instances s" "0 < number_of_functions s" "0 < number_of_dimensions s"
      using assms(1) by (simp_all add: counts_ok_def)
    from decode_encode [OF assms(1) this] show ?thesis by (simp add: coco_suite_encode_problem_index_def)
  qed
  ultimately show ?thesis by (simp add: coco_suite_get_problem_def)
qed

theorem get_problem_index_too_large_witness:
  "coco_suite_decode_problem_index sample_suite 12 = Inr None
    \<and> coco_suite_get_problem sample_objective sample_suite 12 = coco_suite_get_problem sample_objective sample_suite 0"
  using get_problem_index_too_large [OF sample_suite_counts, of 12 sample_objective]
  by (simp add: coco_suite_get_number_of_problems_def sample_suite_def)

end
