(* ===== verification/Coco_Suite_Next.thy ===== *)
theory Coco_Suite_Next
  imports Coco_Suites
begin

text \<open>
  Iteration through a suite (\<open>coco_suite.c\<close>): the search for the next item that has not been
  filtered out, its three instances for instances, functions and dimensions, and
  \<open>coco_suite_get_next_problem\<close>. The main lemma describes the iteration by the list of the index
  triples that are still to come.
\<close>

section \<open>The next item\<close>

text \<open>Array access with an index of type \<open>long\<close>.\<close>

definition item_at :: "nat list \<Rightarrow> int \<Rightarrow> nat result" where
  "item_at items i = (if i < 0 then Inl Out_of_bounds else rnth items (nat i))"

text \<open>The \<open>do\<close>-\<open>while\<close> loops: increment, and repeat before the last item while the item is 0.\<close>

function item_advance :: "nat list \<Rightarrow> nat \<Rightarrow> int \<Rightarrow> int result" where
  "item_advance items n cur =
     (let cur = cur + 1 in
      if cur < int n - 1 then
        rbind (item_at items cur) (\<lambda>v. if v = 0 then item_advance items n cur else Inr cur)
      else Inr cur)"
  by pat_completeness auto
termination
  by (relation "measure (\<lambda>(items, n, cur). nat (int n - cur))") auto

declare item_advance.simps [simp del]

definition coco_suite_is_next_item_found :: "nat list \<Rightarrow> nat \<Rightarrow> int \<Rightarrow> (bool \<times> int) result" where
  "coco_suite_is_next_item_found items number_of_items current_item_id =
     (let restart =
        rbind (item_advance items number_of_items (- 1)) (\<lambda>cur.
        rbind (item_at items cur) (\<lambda>v.
          if v = 0 then Inl (Coco_error ''coco_suite_is_next_item_found'') else Inr (False, cur)))
      in
        if current_item_id \<noteq> int number_of_items - 1 then
          rbind (item_advance items number_of_items current_item_id) (\<lambda>cur.
            if \<not> cur < int number_of_items then Inl (Assert_failed ''coco_suite_is_next_item_found'')
            else rbind (item_at items cur) (\<lambda>v. if v \<noteq> 0 then Inr (True, cur) else restart))
        else restart)"

definition coco_suite_is_next_instance_found :: "coco_suite \<Rightarrow> (bool \<times> coco_suite) result" where
  "coco_suite_is_next_instance_found suite =
     rbind (coco_suite_is_next_item_found (suite_instances suite) (number_of_instances suite)
              (current_instance_idx suite)) (\<lambda>(found, cur).
       Inr (found, suite\<lparr>current_instance_idx := cur\<rparr>))"

definition coco_suite_is_next_function_found :: "coco_suite \<Rightarrow> (bool \<times> coco_suite) result" where
  "coco_suite_is_next_function_found suite =
     rbind (coco_suite_is_next_item_found (suite_functions suite) (number_of_functions suite)
              (current_function_idx suite)) (\<lambda>(found, cur).
       let suite = suite\<lparr>current_function_idx := cur\<rparr> in
       if \<not> found then
         rbind (coco_suite_is_next_instance_found (suite\<lparr>current_instance_idx := - 1\<rparr>))
           (\<lambda>(_, suite). Inr (found, suite))
       else Inr (found, suite))"

definition coco_suite_is_next_dimension_found :: "coco_suite \<Rightarrow> (bool \<times> coco_suite) result" where
  "coco_suite_is_next_dimension_found suite =
     rbind (coco_suite_is_next_item_found (suite_dimensions suite) (number_of_dimensions suite)
              (current_dimension_idx suite)) (\<lambda>(found, cur).
       Inr (found, suite\<lparr>current_dimension_idx := cur\<rparr>))"

section \<open>The next problem\<close>

text \<open>The short-circuit conjunction of the three searches; the result is whether one was found.\<close>

definition advance_suite :: "coco_suite \<Rightarrow> (bool \<times> coco_suite) result" where
  "advance_suite suite =
     rbind (coco_suite_is_next_instance_found suite) (\<lambda>(found, suite).
       if found then Inr (True, suite)
       else rbind (coco_suite_is_next_function_found suite) (\<lambda>(found, suite).
         if found then Inr (True, suite) else coco_suite_is_next_dimension_found suite))"

text \<open>\<open>observer\<close> stands for \<open>coco_problem_add_observer\<close> with the given observer, \<open>None\<close> for NULL.\<close>

definition coco_suite_get_next_problem ::
  "(problem_call \<Rightarrow> bbob_objective) \<Rightarrow> (coco_problem \<Rightarrow> coco_problem) option \<Rightarrow> coco_suite
    \<Rightarrow> (coco_problem option \<times> coco_suite) result" where
  "coco_suite_get_next_problem objective_of observer suite =
     rbind (advance_suite suite) (\<lambda>(found, suite).
       if \<not> found then Inr (None, suite)
       else if \<not> current_function_idx suite \<ge> 0 \<or> \<not> current_dimension_idx suite \<ge> 0
               \<or> \<not> current_instance_idx suite \<ge> 0
       then Inl (Assert_failed ''coco_suite_get_next_problem'')
       else
         rbind (coco_suite_get_problem_from_indices objective_of suite
                  (nat (current_function_idx suite)) (nat (current_dimension_idx suite))
                  (nat (current_instance_idx suite))) (\<lambda>p.
           let p = (case observer of None \<Rightarrow> p | Some add \<Rightarrow> map_option add p)
           in Inr (p, suite\<lparr>current_problem := p\<rparr>)))"

section \<open>The positive items\<close>

text \<open>The indices above \<open>cur\<close> of the items that are not 0, in increasing order.\<close>

definition later_items :: "nat list \<Rightarrow> int \<Rightarrow> nat list" where
  "later_items items cur = filter (\<lambda>k. cur < int k \<and> items ! k \<noteq> 0) [0..<length items]"

abbreviation positive_items :: "nat list \<Rightarrow> nat list" where
  "positive_items items \<equiv> later_items items (- 1)"

lemma later_items_last: "later_items items (int (length items) - 1) = []"
  by (auto simp: later_items_def filter_empty_conv)

text \<open>Unfolding the list of later items at the next index.\<close>

lemma later_items_step:
  assumes "- 1 \<le> cur" and "cur + 1 < int (length items)"
  shows "later_items items cur =
    (if items ! nat (cur + 1) = 0 then later_items items (cur + 1)
     else nat (cur + 1) # later_items items (cur + 1))"
proof -
  let ?k = "nat (cur + 1)"
  have k: "?k < length items" "int ?k = cur + 1" using assms by auto
  have u: "[0..<length items] = [0..<?k] @ ?k # [Suc ?k..<length items]"
    using k(1) upt_add_eq_append [of 0 ?k "length items - ?k"]
    by (simp add: upt_conv_Cons del: upt_Suc)
  have lo: "filter (\<lambda>k. cur < int k \<and> items ! k \<noteq> 0) [0..<?k] = []"
    "filter (\<lambda>k. cur + 1 < int k \<and> items ! k \<noteq> 0) [0..<?k] = []"
    using k(2) by (auto simp: filter_empty_conv)
  have hi: "filter (\<lambda>k. cur < int k \<and> items ! k \<noteq> 0) [Suc ?k..<length items]
      = filter (\<lambda>k. cur + 1 < int k \<and> items ! k \<noteq> 0) [Suc ?k..<length items]"
    using k(2) by (intro filter_cong) auto
  show ?thesis
    unfolding later_items_def u filter_append lo using k(2) hi by simp
qed

lemma item_advance_later:
  "- 1 \<le> cur \<Longrightarrow> cur < int (length items) - 1 \<Longrightarrow>
   \<exists>c. item_advance items (length items) cur = Inr c \<and> cur < c \<and> c < int (length items)
     \<and> (case later_items items cur of
          [] \<Rightarrow> items ! nat c = 0
        | k # ks \<Rightarrow> c = int k \<and> items ! k \<noteq> 0 \<and> ks = later_items items c)"
proof (induction items "length items" cur rule: item_advance.induct)
  case (1 items cur)
  note step = later_items_step [OF "1.prems"(1), of items]
  have c: "0 \<le> cur + 1" "cur + 1 < int (length items)" "nat (cur + 1) < length items"
    using "1.prems" by auto
  show ?case
  proof (cases "cur + 1 < int (length items) - 1 \<and> items ! nat (cur + 1) = 0")
    case True
    have "item_advance items (length items) cur = item_advance items (length items) (cur + 1)"
      using True c by (simp add: item_advance.simps [of items "length items" cur] item_at_def Let_def)
    moreover have "later_items items cur = later_items items (cur + 1)" using True step c by simp
    moreover obtain c' where "item_advance items (length items) (cur + 1) = Inr c'" "cur + 1 < c'"
      "c' < int (length items)"
      "case later_items items (cur + 1) of [] \<Rightarrow> items ! nat c' = 0
        | k # ks \<Rightarrow> c' = int k \<and> items ! k \<noteq> 0 \<and> ks = later_items items c'"
      using "1.hyps" [OF refl] True c by (auto simp: item_at_def)
    ultimately show ?thesis by auto
  next
    case False
    then have "item_advance items (length items) cur = Inr (cur + 1)"
      using c by (auto simp: item_advance.simps [of items "length items" cur] item_at_def Let_def)
    moreover have "items ! nat (cur + 1) = 0 \<Longrightarrow> later_items items (cur + 1) = []"
    proof -
      assume "items ! nat (cur + 1) = 0"
      with False c have "cur + 1 = int (length items) - 1" by auto
      then show ?thesis using later_items_last [of items] by (simp only:)
    qed
    ultimately show ?thesis using step c by auto
  qed
qed

text \<open>The specification of the search for the next item.\<close>

lemma next_item_spec:
  assumes "positive_items items \<noteq> []" "- 1 \<le> cur" "cur < int (length items)"
  shows "coco_suite_is_next_item_found items (length items) cur =
    Inr (case later_items items cur of
           [] \<Rightarrow> (False, int (hd (positive_items items)))
         | k # ks \<Rightarrow> (True, int k))"
proof -
  obtain k ks where p: "positive_items items = k # ks" using assms(1) by (cases "positive_items items") auto
  have n: "0 < length items" using p by (auto simp: later_items_def)
  obtain c where c: "item_advance items (length items) (- 1) = Inr c" "c = int k" "items ! k \<noteq> 0"
      "c < int (length items)"
    using item_advance_later [of "- 1" items] p n by (fastforce simp: item_advance.simps [of items _ "-1"])
  have restart: "rbind (item_advance items (length items) (- 1)) (\<lambda>cur.
        rbind (item_at items cur) (\<lambda>v.
          if v = 0 then Inl (Coco_error ''coco_suite_is_next_item_found'') else Inr (False, cur)))
      = Inr (False, int k)"
    using c by (simp add: item_at_def)
  show ?thesis
  proof (cases "cur = int (length items) - 1")
    case True
    then show ?thesis using restart p later_items_last [of items]
      by (simp add: coco_suite_is_next_item_found_def Let_def)
  next
    case False
    then obtain d where d: "item_advance items (length items) cur = Inr d" "cur < d" "d < int (length items)"
      "case later_items items cur of [] \<Rightarrow> items ! nat d = 0
         | k # ks \<Rightarrow> d = int k \<and> items ! k \<noteq> 0 \<and> ks = later_items items d"
      using item_advance_later [of cur items] assms(2,3) by auto
    then have "item_at items d = Inr (items ! nat d)" using assms(2) by (simp add: item_at_def)
    with d restart p False show ?thesis
      by (cases "later_items items cur")
        (simp_all add: coco_suite_is_next_item_found_def Let_def del: rbind_simps(1))
  qed
qed

section \<open>The problems still to come\<close>

text \<open>The index triples (dimension, function, instance) in the order of the iteration.\<close>

definition remaining :: "coco_suite \<Rightarrow> (nat \<times> nat \<times> nat) list" where
  "remaining s =
     map (\<lambda>i. (nat (current_dimension_idx s), nat (current_function_idx s), i))
       (later_items (suite_instances s) (current_instance_idx s))
     @ concat (map (\<lambda>f. map (\<lambda>i. (nat (current_dimension_idx s), f, i)) (positive_items (suite_instances s)))
         (later_items (suite_functions s) (current_function_idx s)))
     @ concat (map (\<lambda>d. concat (map (\<lambda>f. map (\<lambda>i. (d, f, i)) (positive_items (suite_instances s)))
           (positive_items (suite_functions s))))
         (later_items (suite_dimensions s) (current_dimension_idx s)))"

definition suite_ok :: "coco_suite \<Rightarrow> bool" where
  "suite_ok s \<longleftrightarrow>
     number_of_dimensions s = length (suite_dimensions s)
     \<and> number_of_functions s = length (suite_functions s)
     \<and> number_of_instances s = length (suite_instances s)
     \<and> positive_items (suite_dimensions s) \<noteq> []
     \<and> positive_items (suite_functions s) \<noteq> []
     \<and> positive_items (suite_instances s) \<noteq> []
     \<and> 0 \<le> current_dimension_idx s \<and> current_dimension_idx s < int (length (suite_dimensions s))
     \<and> 0 \<le> current_function_idx s \<and> current_function_idx s < int (length (suite_functions s))
     \<and> - 1 \<le> current_instance_idx s \<and> current_instance_idx s < int (length (suite_instances s))"

text \<open>The part of a suite that the iteration does not change.\<close>

definition same_items :: "coco_suite \<Rightarrow> coco_suite \<Rightarrow> bool" where
  "same_items s t \<longleftrightarrow> suite_name t = suite_name s
     \<and> suite_dimensions t = suite_dimensions s \<and> suite_functions t = suite_functions s
     \<and> suite_instances t = suite_instances s \<and> suite_data t = suite_data s
     \<and> number_of_dimensions t = number_of_dimensions s \<and> number_of_functions t = number_of_functions s
     \<and> number_of_instances t = number_of_instances s"

lemma later_items_mem: "k \<in> set (later_items items cur) \<Longrightarrow> cur < int k \<and> k < length items \<and> items ! k \<noteq> 0"
  by (auto simp: later_items_def)

lemma later_items_Cons:
  assumes "- 1 \<le> cur" "later_items items cur = k # ks"
  shows "ks = later_items items (int k)"
proof -
  have k: "cur < int k" "k < length items" "items ! k \<noteq> 0"
    using later_items_mem [of k items cur] assms(2) by auto
  then have "cur < int (length items) - 1" by auto
  with item_advance_later [OF assms(1), of items] assms(2) show ?thesis by auto
qed

lemma positive_items_hd:
  "positive_items items \<noteq> [] \<Longrightarrow>
     positive_items items = hd (positive_items items) # later_items items (int (hd (positive_items items)))
     \<and> hd (positive_items items) < length items \<and> items ! hd (positive_items items) \<noteq> 0"
  using later_items_Cons [of "- 1" items] later_items_mem [of "hd (positive_items items)" items "- 1"]
  by (cases "positive_items items") auto

lemma next_instance_spec:
  assumes "suite_ok s"
  shows "coco_suite_is_next_instance_found s =
    Inr (case later_items (suite_instances s) (current_instance_idx s) of
           [] \<Rightarrow> (False, s\<lparr>current_instance_idx := int (hd (positive_items (suite_instances s)))\<rparr>)
         | i # is \<Rightarrow> (True, s\<lparr>current_instance_idx := int i\<rparr>))"
  using assms next_item_spec [of "suite_instances s" "current_instance_idx s"]
  by (simp add: suite_ok_def coco_suite_is_next_instance_found_def split: list.split)

lemma next_function_spec:
  assumes "suite_ok s"
  shows "coco_suite_is_next_function_found s =
    Inr (case later_items (suite_functions s) (current_function_idx s) of
           [] \<Rightarrow> (False, s\<lparr>current_function_idx := int (hd (positive_items (suite_functions s))),
                         current_instance_idx := int (hd (positive_items (suite_instances s)))\<rparr>)
         | f # fs \<Rightarrow> (True, s\<lparr>current_function_idx := int f\<rparr>))"
proof (cases "later_items (suite_functions s) (current_function_idx s)")
  case Nil
  let ?t = "s\<lparr>current_function_idx := int (hd (positive_items (suite_functions s))), current_instance_idx := - 1\<rparr>"
  have "suite_ok ?t" using assms positive_items_hd [of "suite_functions s"] by (auto simp: suite_ok_def)
  from next_instance_spec [OF this] positive_items_hd [of "suite_instances s"] assms
  have "coco_suite_is_next_instance_found ?t =
      Inr (True, ?t\<lparr>current_instance_idx := int (hd (positive_items (suite_instances s)))\<rparr>)"
    by (cases "positive_items (suite_instances s)") (auto simp: suite_ok_def)
  with Nil assms next_item_spec [of "suite_functions s" "current_function_idx s"] show ?thesis
    by (simp add: suite_ok_def coco_suite_is_next_function_found_def)
next
  case (Cons f fs)
  with assms next_item_spec [of "suite_functions s" "current_function_idx s"] show ?thesis
    by (simp add: suite_ok_def coco_suite_is_next_function_found_def)
qed

lemma next_dimension_spec:
  assumes "suite_ok s"
  shows "coco_suite_is_next_dimension_found s =
    Inr (case later_items (suite_dimensions s) (current_dimension_idx s) of
           [] \<Rightarrow> (False, s\<lparr>current_dimension_idx := int (hd (positive_items (suite_dimensions s)))\<rparr>)
         | d # ds \<Rightarrow> (True, s\<lparr>current_dimension_idx := int d\<rparr>))"
  using assms next_item_spec [of "suite_dimensions s" "current_dimension_idx s"]
  by (simp add: suite_ok_def coco_suite_is_next_dimension_found_def split: list.split)

text \<open>One step of the iteration removes the first of the remaining triples and moves to it.\<close>

definition moved_to :: "coco_suite \<Rightarrow> nat \<times> nat \<times> nat \<Rightarrow> coco_suite" where
  "moved_to s t = (case t of (d, f, i) \<Rightarrow>
     s\<lparr>current_dimension_idx := int d, current_function_idx := int f, current_instance_idx := int i\<rparr>)"

definition first_triple :: "coco_suite \<Rightarrow> nat \<times> nat \<times> nat" where
  "first_triple s = (hd (positive_items (suite_dimensions s)), hd (positive_items (suite_functions s)),
     hd (positive_items (suite_instances s)))"

lemma advance_suite_spec:
  assumes ok: "suite_ok s"
  shows "case remaining s of
      [] \<Rightarrow> advance_suite s = Inr (False, moved_to s (first_triple s))
    | t # ts \<Rightarrow> advance_suite s = Inr (True, moved_to s t) \<and> remaining (moved_to s t) = ts"
proof -
  let ?I = "suite_instances s" and ?F = "suite_functions s" and ?D = "suite_dimensions s"
  let ?ci = "current_instance_idx s" and ?cf = "current_function_idx s" and ?cd = "current_dimension_idx s"
  note hi = positive_items_hd [of ?I] and hf = positive_items_hd [of ?F] and hd' = positive_items_hd [of ?D]
  have ne: "positive_items ?I \<noteq> []" "positive_items ?F \<noteq> []" "positive_items ?D \<noteq> []"
    and c: "0 \<le> ?cd" "0 \<le> ?cf" "- 1 \<le> ?ci" using ok by (auto simp: suite_ok_def)
  let ?s1 = "s\<lparr>current_instance_idx := int (hd (positive_items ?I))\<rparr>"
  let ?s2 = "?s1\<lparr>current_function_idx := int (hd (positive_items ?F)),
      current_instance_idx := int (hd (positive_items ?I))\<rparr>"
  have ok1: "suite_ok ?s1" and ok2: "suite_ok ?s2" using ok hi hf by (auto simp: suite_ok_def)
  show ?thesis
  proof (cases "later_items ?I ?ci")
    case (Cons i "is")
    then have "is = later_items ?I (int i)" using later_items_Cons c by blast
    with Cons next_instance_spec [OF ok] c show ?thesis
      by (simp add: advance_suite_def remaining_def moved_to_def)
  next
    case Nil
    note 1 = Nil next_instance_spec [OF ok]
    show ?thesis
    proof (cases "later_items ?F ?cf")
      case (Cons f fs)
      then have "fs = later_items ?F (int f)" using later_items_Cons [of ?cf ?F f fs] c by simp
      moreover obtain i "is" where i: "positive_items ?I = i # is" using ne by (cases "positive_items ?I") auto
      ultimately show ?thesis
        using 1 Cons next_function_spec [OF ok1] c later_items_Cons [of "- 1" ?I i "is"]
        by (simp add: advance_suite_def remaining_def moved_to_def)
    next
      case Nil
      note 2 = Nil next_function_spec [OF ok1]
      show ?thesis
      proof (cases "later_items ?D ?cd")
        case (Cons d ds)
        then have "ds = later_items ?D (int d)" using later_items_Cons [of ?cd ?D d ds] c by simp
        moreover obtain i "is" where "positive_items ?I = i # is" using ne by (cases "positive_items ?I") auto
        moreover obtain f fs where "positive_items ?F = f # fs" using ne by (cases "positive_items ?F") auto
        ultimately show ?thesis
          using 1 2 Cons next_dimension_spec [OF ok2] c later_items_Cons [of "- 1" ?I i "is"]
            later_items_Cons [of "- 1" ?F f fs]
          by (simp add: advance_suite_def remaining_def moved_to_def)
      next
        case Nil
        with 1 2 next_dimension_spec [OF ok2] show ?thesis
          by (simp add: advance_suite_def remaining_def moved_to_def first_triple_def)
      qed
    qed
  qed
qed

section \<open>Running through a suite\<close>

text \<open>
  The loop \<open>while ((p = coco_suite_get_next_problem(suite, NULL)) != NULL)\<close> of a client, for at most
  \<open>fuel\<close> calls: the problems in the order they are returned and the suite after NULL was returned.
\<close>

fun run_suite ::
  "nat \<Rightarrow> (problem_call \<Rightarrow> bbob_objective) \<Rightarrow> coco_suite \<Rightarrow> (coco_problem list \<times> coco_suite) option result" where
  "run_suite 0 objective_of suite = Inr None"
| "run_suite (Suc fuel) objective_of suite =
     rbind (coco_suite_get_next_problem objective_of None suite) (\<lambda>(p, suite).
       case p of
         None \<Rightarrow> Inr (Some ([], suite))
       | Some p \<Rightarrow> rbind (run_suite fuel objective_of suite) (\<lambda>rest.
           Inr (map_option (\<lambda>(ps, s). (p # ps, s)) rest)))"

lemma getters_same:
  assumes "same_items s t"
  shows "suite_toy_get_problem t = suite_toy_get_problem s"
    "suite_bbob_get_problem t = suite_bbob_get_problem s"
    "suite_biobj_get_problem objective_of t = suite_biobj_get_problem objective_of s"
    "suite_cons_bbob_get_problem t = suite_cons_bbob_get_problem s"
    "suite_largescale_get_problem t = suite_largescale_get_problem s"
    "suite_bbob_mixint_get_problem t = suite_bbob_mixint_get_problem s"
    "suite_biobj_mixint_get_problem objective_of t = suite_biobj_mixint_get_problem objective_of s"
proof -
  have "with_indices t = (with_indices s :: nat \<Rightarrow> nat \<Rightarrow> nat \<Rightarrow> (nat \<Rightarrow> nat \<Rightarrow> nat \<Rightarrow> coco_problem result) \<Rightarrow> _)"
    using assms by (intro ext) (simp add: with_indices_def same_items_def)
  moreover have "coco_suite_encode_problem_index t = coco_suite_encode_problem_index s"
    using assms by (intro ext) (simp add: coco_suite_encode_problem_index_def same_items_def)
  ultimately have "suite_problem t = suite_problem s"
    by (intro ext) (simp add: suite_problem_def)
  with assms show "suite_toy_get_problem t = suite_toy_get_problem s"
    "suite_bbob_get_problem t = suite_bbob_get_problem s"
    "suite_biobj_get_problem objective_of t = suite_biobj_get_problem objective_of s"
    "suite_cons_bbob_get_problem t = suite_cons_bbob_get_problem s"
    "suite_largescale_get_problem t = suite_largescale_get_problem s"
    "suite_bbob_mixint_get_problem t = suite_bbob_mixint_get_problem s"
    "suite_biobj_mixint_get_problem objective_of t = suite_biobj_mixint_get_problem objective_of s"
    by (auto intro!: ext simp: suite_toy_get_problem_def suite_bbob_get_problem_def suite_biobj_get_problem_def
      suite_cons_bbob_get_problem_def suite_largescale_get_problem_def same_items_def
      suite_bbob_mixint_get_problem_def suite_biobj_mixint_get_problem_def)
qed

lemma from_indices_same:
  assumes "same_items s t"
  shows "coco_suite_get_problem_from_indices objective_of t = coco_suite_get_problem_from_indices objective_of s"
proof -
  have "suite_name t = suite_name s" "with_indices t = (with_indices s
      :: nat \<Rightarrow> nat \<Rightarrow> nat \<Rightarrow> (nat \<Rightarrow> nat \<Rightarrow> nat \<Rightarrow> coco_problem option result) \<Rightarrow> _)"
    using assms by (auto intro!: ext simp: with_indices_def same_items_def)
  then show ?thesis
    unfolding coco_suite_get_problem_from_indices_def by (simp only: getters_same [OF assms])
qed

lemma from_indices_current [simp]:
  "coco_suite_get_problem_from_indices objective_of (s\<lparr>current_problem := p\<rparr>) =
     coco_suite_get_problem_from_indices objective_of s"
  "coco_suite_get_problem_from_indices objective_of (moved_to s t) =
     coco_suite_get_problem_from_indices objective_of s"
  by (rule from_indices_same, cases t, simp add: same_items_def moved_to_def)+

lemma current_problem_irrelevant [simp]:
  "remaining (s\<lparr>current_problem := p\<rparr>) = remaining s"
  "suite_ok (s\<lparr>current_problem := p\<rparr>) = suite_ok s"
  "first_triple (s\<lparr>current_problem := p\<rparr>) = first_triple s"
  "first_triple (moved_to s t) = first_triple s"
  by (cases t; simp add: remaining_def suite_ok_def first_triple_def moved_to_def)+

lemma remaining_mem:
  assumes "suite_ok s" "(d, f, i) \<in> set (remaining s)"
  shows "d < length (suite_dimensions s) \<and> f < length (suite_functions s) \<and> i < length (suite_instances s)
    \<and> suite_instances s ! i \<noteq> 0"
  using assms by (auto simp: remaining_def suite_ok_def nat_less_iff dest!: later_items_mem)

lemma moved_to_ok:
  assumes "suite_ok s" "d < length (suite_dimensions s)" "f < length (suite_functions s)"
    "i < length (suite_instances s)"
  shows "suite_ok (moved_to s (d, f, i))"
  using assms by (simp add: suite_ok_def moved_to_def)

lemma first_triple_ok:
  assumes "suite_ok s" "first_triple s = (d, f, i)"
  shows "d < length (suite_dimensions s) \<and> f < length (suite_functions s) \<and> i < length (suite_instances s)"
  using assms positive_items_hd [of "suite_dimensions s"] positive_items_hd [of "suite_functions s"]
    positive_items_hd [of "suite_instances s"]
  by (auto simp: first_triple_def suite_ok_def)

text \<open>One call, seen through \<open>remaining\<close>.\<close>

lemma get_next_problem_spec:
  assumes "suite_ok s"
  shows "coco_suite_get_next_problem objective_of None s =
    (case remaining s of
       [] \<Rightarrow> Inr (None, moved_to s (first_triple s))
     | (d, f, i) # ts \<Rightarrow>
         rbind (coco_suite_get_problem_from_indices objective_of s f d i) (\<lambda>p.
           Inr (p, (moved_to s (d, f, i))\<lparr>current_problem := p\<rparr>)))"
proof (cases "remaining s")
  case Nil
  with advance_suite_spec [OF assms] show ?thesis by (simp add: coco_suite_get_next_problem_def)
next
  case (Cons t ts)
  obtain d f i where t: "t = (d, f, i)" by (cases t)
  have "current_dimension_idx (moved_to s t) = int d" "current_function_idx (moved_to s t) = int f"
    "current_instance_idx (moved_to s t) = int i"
    by (simp_all add: t moved_to_def)
  with advance_suite_spec [OF assms] Cons t show ?thesis
    by (simp add: coco_suite_get_next_problem_def)
qed

lemma run_suite_spec:
  "suite_ok s \<Longrightarrow> length (remaining s) < fuel
   \<Longrightarrow> list_all2 (\<lambda>(d, f, i) p. coco_suite_get_problem_from_indices objective_of s f d i = Inr (Some p))
         (remaining s) ps
   \<Longrightarrow> \<exists>s'. run_suite fuel objective_of s = Inr (Some (ps, s')) \<and> suite_ok s'
        \<and> same_items s s'
        \<and> current_dimension_idx s' = int (fst (first_triple s))
        \<and> current_function_idx s' = int (fst (snd (first_triple s)))
        \<and> current_instance_idx s' = int (snd (snd (first_triple s)))"
proof (induction fuel objective_of s arbitrary: ps rule: run_suite.induct)
  case (2 fuel objective_of s)
  note ok = "2.prems"(1)
  show ?case
  proof (cases "remaining s")
    case Nil
    obtain d f i where t: "first_triple s = (d, f, i)" by (cases "first_triple s")
    have "suite_ok (moved_to s (d, f, i))" using first_triple_ok [OF ok t] moved_to_ok [OF ok] by blast
    moreover have "ps = []" using "2.prems"(3) Nil by simp
    ultimately show ?thesis using get_next_problem_spec [OF ok] Nil t
      by (simp add: same_items_def moved_to_def)
  next
    case (Cons t ts)
    obtain d f i where t: "t = (d, f, i)" by (cases t)
    obtain p qs where p: "coco_suite_get_problem_from_indices objective_of s f d i = Inr (Some p)"
      "ps = p # qs" and qs: "list_all2 (\<lambda>(d, f, i) p.
          coco_suite_get_problem_from_indices objective_of s f d i = Inr (Some p)) ts qs"
      using "2.prems"(3) Cons t by (auto simp: list_all2_Cons1)
    let ?s = "(moved_to s (d, f, i))\<lparr>current_problem := Some p\<rparr>"
    have next1: "coco_suite_get_next_problem objective_of None s = Inr (Some p, ?s)"
      using get_next_problem_spec [OF ok] Cons t p by simp
    have rem: "remaining ?s = ts" using advance_suite_spec [OF ok] Cons t by simp
    have "suite_ok ?s"
      using moved_to_ok [OF ok, of d f i] remaining_mem [OF ok, of d f i] Cons t by simp
    moreover have "length (remaining ?s) < fuel" using "2.prems"(2) rem Cons by simp
    moreover have "list_all2 (\<lambda>(d, f, i) p.
          coco_suite_get_problem_from_indices objective_of ?s f d i = Inr (Some p)) (remaining ?s) qs"
      using qs rem by simp
    ultimately obtain s' where s': "run_suite fuel objective_of ?s = Inr (Some (qs, s'))" "suite_ok s'"
      "same_items ?s s'" "current_dimension_idx s' = int (fst (first_triple ?s))"
      "current_function_idx s' = int (fst (snd (first_triple ?s)))"
      "current_instance_idx s' = int (snd (snd (first_triple ?s)))"
      using "2.IH" [OF refl, of ?s qs] by auto
    moreover have "same_items s s'" using s'(3) by (simp add: same_items_def moved_to_def)
    ultimately show ?thesis using next1 p(2) by simp
  qed
qed simp

section \<open>A complete run\<close>

text \<open>All index triples that have not been filtered out, in the order dimension, function, instance.\<close>

definition all_triples :: "coco_suite \<Rightarrow> (nat \<times> nat \<times> nat) list" where
  "all_triples s =
     concat (map (\<lambda>d. concat (map (\<lambda>f. map (\<lambda>i. (d, f, i)) (positive_items (suite_instances s)))
         (positive_items (suite_functions s))))
       (positive_items (suite_dimensions s)))"

text \<open>The state in which the constructor leaves a suite.\<close>

definition at_start :: "coco_suite \<Rightarrow> bool" where
  "at_start s \<longleftrightarrow> suite_ok s
     \<and> current_dimension_idx s = int (hd (positive_items (suite_dimensions s)))
     \<and> current_function_idx s = int (hd (positive_items (suite_functions s)))
     \<and> current_instance_idx s = - 1"

lemma remaining_start:
  assumes "at_start s"
  shows "remaining s = all_triples s"
proof -
  obtain d ds where d: "positive_items (suite_dimensions s) = d # ds"
    using assms by (cases "positive_items (suite_dimensions s)") (auto simp: at_start_def suite_ok_def)
  obtain f fs where f: "positive_items (suite_functions s) = f # fs"
    using assms by (cases "positive_items (suite_functions s)") (auto simp: at_start_def suite_ok_def)
  show ?thesis
    using assms d f later_items_Cons [OF _ d] later_items_Cons [OF _ f]
    by (simp add: remaining_def all_triples_def at_start_def)
qed

lemma set_positive_items: "set (positive_items xs) = {k. k < length xs \<and> xs ! k \<noteq> 0}"
  by (auto simp: later_items_def)

lemma set_all_triples:
  "set (all_triples s) = {(d, f, i). d < length (suite_dimensions s) \<and> suite_dimensions s ! d \<noteq> 0
     \<and> f < length (suite_functions s) \<and> suite_functions s ! f \<noteq> 0
     \<and> i < length (suite_instances s) \<and> suite_instances s ! i \<noteq> 0}"
  by (auto simp: all_triples_def set_positive_items)

lemma sorted_positive_items: "sorted_wrt (<) (positive_items xs)"
  unfolding later_items_def by (intro sorted_wrt_filter) simp

lemma sorted_wrt_concat_map:
  assumes "sorted_wrt (<) (xs :: nat list)" "\<And>x. x \<in> set xs \<Longrightarrow> sorted_wrt R (g x)"
    "\<And>x y a b. x \<in> set xs \<Longrightarrow> y \<in> set xs \<Longrightarrow> x < y \<Longrightarrow> a \<in> set (g x) \<Longrightarrow> b \<in> set (g y) \<Longrightarrow> R a b"
  shows "sorted_wrt R (concat (map g xs))"
  using assms
proof (induction xs)
  case (Cons x xs)
  have lt: "\<forall>y \<in> set xs. x < y" and sorted: "sorted_wrt (<) xs" using Cons.prems(1) by auto
  have "sorted_wrt R (concat (map g xs))"
    using Cons.prems(2,3) by (intro Cons.IH sorted) (meson list.set_intros(2))+
  moreover have "sorted_wrt R (g x)" using Cons.prems(2) by simp
  moreover have "\<forall>a \<in> set (g x). \<forall>b \<in> set (concat (map g xs)). R a b"
  proof (intro ballI)
    fix a b assume a: "a \<in> set (g x)" and "b \<in> set (concat (map g xs))"
    then obtain y where "y \<in> set xs" "b \<in> set (g y)" by auto
    then show "R a b" using Cons.prems(3) [of x y a b] a lt by simp
  qed
  ultimately show ?case by (simp only: list.map concat.simps sorted_wrt_append simp_thms)
qed simp

definition triple_index :: "coco_suite \<Rightarrow> nat \<times> nat \<times> nat \<Rightarrow> nat" where
  "triple_index s t = (case t of (d, f, i) \<Rightarrow> coco_suite_encode_problem_index s f d i)"

lemma all_triples_increasing:
  assumes "suite_ok s" "counts_ok s"
  shows "sorted_wrt (\<lambda>t u. triple_index s t < triple_index s u) (all_triples s)"
proof -
  let ?ni = "length (suite_instances s)" and ?nf = "length (suite_functions s)"
  let ?v = "\<lambda>d f i. i + f * ?ni + d * ?ni * ?nf"
  have val: "triple_index s (d, f, i) = ?v d f i"
    if "d < length (suite_dimensions s)" "f < ?nf" "i < ?ni" for d f i
    using encode_value(1) [OF assms(2), of i f d] that assms(1) by (simp add: triple_index_def suite_ok_def)
  have row: "i + f * ?ni < i' + f' * ?ni" if "i < ?ni" "f < f'" for f f' i i'
  proof -
    have "i + f * ?ni < Suc f * ?ni" using that by simp
    also have "\<dots> \<le> f' * ?ni" using that by (intro mult_le_mono1) simp
    finally show ?thesis by simp
  qed
  have plane: "?v d f i < ?v d' f' i'" if "i < ?ni" "f < ?nf" "d < d'" for d d' f f' i i'
  proof -
    have "?v d f i < ?ni * ?nf * Suc d" using mixed_radix_lt [of i ?ni f ?nf d "Suc d"] that by simp
    also have "\<dots> \<le> ?ni * ?nf * d'" using that by (intro mult_le_mono2) simp
    finally show ?thesis by (simp add: ac_simps)
  qed
  show ?thesis unfolding all_triples_def
  proof (intro sorted_wrt_concat_map sorted_positive_items)
    fix d f assume "d \<in> set (positive_items (suite_dimensions s))" "f \<in> set (positive_items (suite_functions s))"
    then have df: "d < length (suite_dimensions s)" "f < ?nf" by (auto simp: set_positive_items)
    have "sorted_wrt (\<lambda>i j. triple_index s (d, f, i) < triple_index s (d, f, j)) (positive_items (suite_instances s))"
    proof (rule sorted_wrt_mono_rel [OF _ sorted_positive_items])
      fix i j assume "i \<in> set (positive_items (suite_instances s))" "j \<in> set (positive_items (suite_instances s))" "i < j"
      then show "triple_index s (d, f, i) < triple_index s (d, f, j)"
        using df by (simp add: val set_positive_items)
    qed
    then show "sorted_wrt (\<lambda>t u. triple_index s t < triple_index s u)
        (map (\<lambda>i. (d, f, i)) (positive_items (suite_instances s)))"
      by (simp add: sorted_wrt_map)
  qed (auto simp: val set_positive_items intro: row plane)
qed

end
