(* ===== verification/Coco_Suite_Construct.thy ===== *)
theory Coco_Suite_Construct
  imports Coco_Suite_Next
begin

text \<open>
  The constructor \<open>coco_suite\<close> (\<open>coco_suite.c\<close>): choosing the instances from a year or a list,
  filtering functions, instances and dimensions by the suite options, and the starting point of the
  iteration; and the getters by index.
\<close>

section \<open>Instances\<close>

definition coco_suite_set_instance :: "coco_suite \<Rightarrow> nat list option \<Rightarrow> coco_suite result" where
  "coco_suite_set_instance suite instance_numbers =
     (case instance_numbers of
        None \<Rightarrow> Inl (Coco_error ''coco_suite_set_instance'')
      | Some numbers \<Rightarrow>
          rbind (coco_count_numbers instance_numbers COCO_MAX_INSTANCES) (\<lambda>n.
            if n = 0 then Inl (Coco_error ''coco_allocate_memory'')
            else Inr (suite\<lparr>number_of_instances := n, suite_instances := take n numbers\<rparr>)))"

text \<open>
  The year keeps its initial value \<open>- 1\<close> when \<open>sscanf\<close> assigns nothing; every result of
  \<open>coco_options_read_int\<close> other than 0 counts as success, \<open>EOF\<close> too.
\<close>

definition coco_suite_get_instance_indices :: "coco_suite \<Rightarrow> string option \<Rightarrow> nat list option result" where
  "coco_suite_get_instance_indices suite suite_instance =
     (case suite_instance of
        None \<Rightarrow> Inr None
      | Some str \<Rightarrow>
          rbind (coco_strfind str ''year'') (\<lambda>year_found.
          rbind (coco_strfind str ''instances'') (\<lambda>instances_found.
            if year_found < 0 \<and> instances_found < 0 then Inr None
            else
              let both = year_found > 0 \<and> instances_found > 0;
                  parse_instances = (\<not> (both \<and> year_found < instances_found));
                  parse_year = (\<not> (both \<and> \<not> year_found < instances_found))
              in
                rbind
                  (if year_found \<ge> 0 \<and> parse_year then
                     rbind (coco_options_read_int suite_instance ''year'') (\<lambda>(ret, year).
                       if ret \<noteq> 0 then
                         rbind (coco_suite_get_instances_by_year suite
                                  (case year of None \<Rightarrow> - 1 | Some y \<Rightarrow> y)) (\<lambda>year_string.
                           coco_string_parse_ranges (Some year_string) 1 0 COCO_MAX_INSTANCES)
                       else Inr None)
                   else Inr None) (\<lambda>result.
                if instances_found \<ge> 0 \<and> parse_instances then
                  rbind (coco_options_read_values suite_instance ''instances'' COCO_MAX_INSTANCES)
                    (\<lambda>(ret, inst).
                      if ret > 0 then coco_string_parse_ranges inst 1 0 COCO_MAX_INSTANCES
                      else Inr result)
                else Inr result))))"

section \<open>Filters\<close>

fun found_in :: "nat \<Rightarrow> nat list \<Rightarrow> bool" where
  "found_in i [] = False"
| "found_in i (j # js) = (if i = j then True else found_in i js)"

fun filter_indices_loop :: "nat list \<Rightarrow> nat list \<Rightarrow> nat list \<Rightarrow> nat list result" where
  "filter_indices_loop [] items indices = Inr items"
| "filter_indices_loop (i # is) items indices =
     (if found_in i indices then filter_indices_loop is items indices
      else rbind (rupd items (i - 1) 0) (\<lambda>items. filter_indices_loop is items indices))"

definition coco_suite_filter_indices :: "nat list \<Rightarrow> nat \<Rightarrow> nat list \<Rightarrow> nat list result" where
  "coco_suite_filter_indices items number_of_items indices =
     rbind (coco_count_numbers (Some indices) COCO_MAX_INSTANCES) (\<lambda>count.
       filter_indices_loop [1..<Suc number_of_items] items (take count indices))"

fun filter_dimensions_loop :: "nat list \<Rightarrow> nat list \<Rightarrow> nat list \<Rightarrow> nat list result" where
  "filter_dimensions_loop [] dims numbers = Inr dims"
| "filter_dimensions_loop (i # is) dims numbers =
     rbind (rnth dims i) (\<lambda>d.
       if found_in d numbers then filter_dimensions_loop is dims numbers
       else rbind (rupd dims i 0) (\<lambda>dims. filter_dimensions_loop is dims numbers))"

definition coco_suite_filter_dimensions :: "coco_suite \<Rightarrow> nat list \<Rightarrow> coco_suite result" where
  "coco_suite_filter_dimensions suite dimension_numbers =
     rbind (coco_count_numbers (Some dimension_numbers) COCO_MAX_INSTANCES) (\<lambda>count.
     rbind (filter_dimensions_loop [0..<number_of_dimensions suite] (suite_dimensions suite)
              (take count dimension_numbers)) (\<lambda>dims.
       Inr (suite\<lparr>suite_dimensions := dims\<rparr>)))"

section \<open>Getters by index\<close>

definition coco_suite_get_function_from_function_index :: "coco_suite \<Rightarrow> nat \<Rightarrow> nat result" where
  "coco_suite_get_function_from_function_index suite function_idx =
     (if function_idx \<ge> number_of_functions suite
      then Inl (Coco_error ''coco_suite_get_function_from_function_index'')
      else rnth (suite_functions suite) function_idx)"

definition coco_suite_get_dimension_from_dimension_index :: "coco_suite \<Rightarrow> nat \<Rightarrow> nat result" where
  "coco_suite_get_dimension_from_dimension_index suite dimension_idx =
     (if dimension_idx \<ge> number_of_dimensions suite
      then Inl (Coco_error ''coco_suite_get_dimension_from_dimension_index'')
      else rnth (suite_dimensions suite) dimension_idx)"

text \<open>The code reads \<open>suite->functions\<close> here.\<close>

definition coco_suite_get_instance_from_instance_index :: "coco_suite \<Rightarrow> nat \<Rightarrow> nat result" where
  "coco_suite_get_instance_from_instance_index suite instance_idx =
     (if instance_idx \<ge> number_of_instances suite
      then Inl (Coco_error ''coco_suite_get_instance_from_instance_index'')
      else rnth (suite_functions suite) instance_idx)"

section \<open>The constructor\<close>

definition newline :: string where
  "newline = [char_of (10::nat)]"

text \<open>The warning about option keys that are not known; only its failures matter.\<close>

definition check_redundant_keys :: "string list \<Rightarrow> string \<Rightarrow> string \<Rightarrow> string \<Rightarrow> unit result" where
  "check_redundant_keys known option_string info_redundant info_valid =
     rbind (coco_option_keys_allocate (length known) known) (\<lambda>known_keys.
     rbind (coco_option_keys (Some option_string)) (\<lambda>given.
       case given of
         None \<Rightarrow> Inr ()
       | Some given_keys \<Rightarrow>
           rbind (coco_option_keys_get_redundant known given_keys) (\<lambda>redundant.
             case redundant of
               None \<Rightarrow> Inr ()
             | Some r \<Rightarrow>
                 if length r > 0 then
                   rbind (coco_option_keys_get_output_string (Some r) info_redundant) (\<lambda>_.
                   rbind (coco_option_keys_get_output_string known_keys info_valid) (\<lambda>_. Inr ()))
                 else Inr ())))"

definition suite_instances_step :: "coco_suite \<Rightarrow> string option \<Rightarrow> coco_suite result" where
  "suite_instances_step suite suite_instance =
     (case suite_instance of
        None \<Rightarrow>
          rbind (coco_suite_get_instance_indices suite (Some (default_instances suite)))
            (coco_suite_set_instance suite)
      | Some str \<Rightarrow>
          if length str = 0 then
            rbind (coco_suite_get_instance_indices suite (Some (default_instances suite)))
              (coco_suite_set_instance suite)
          else
            rbind (coco_suite_get_instance_indices suite (Some str)) (\<lambda>inst.
            rbind (case inst of
                     None \<Rightarrow> coco_suite_get_instance_indices suite (Some (default_instances suite))
                   | Some ns \<Rightarrow> Inr (Some ns)) (\<lambda>inst.
            rbind (check_redundant_keys [''year'', ''instances''] str
                     (''coco_suite(): Some keys in suite instance were ignored:'' @ newline)
                     (''Valid keys for suite instance are:'' @ newline)) (\<lambda>_.
              coco_suite_set_instance suite inst))))"

text \<open>Reading a list of indices from the options and filtering an array with it.\<close>

definition filter_by_option :: "string \<Rightarrow> string \<Rightarrow> nat list \<Rightarrow> nat \<Rightarrow> nat list result" where
  "filter_by_option options key items number_of_items =
     rbind (coco_options_read_values (Some options) key (COCO_PATH_MAX + 1)) (\<lambda>(ret, str).
       if ret > 0 then
         rbind (coco_string_parse_ranges str 1 number_of_items COCO_MAX_INSTANCES) (\<lambda>indices.
           case indices of
             None \<Rightarrow> Inr items
           | Some ix \<Rightarrow> coco_suite_filter_indices items number_of_items ix)
       else Inr items)"

definition dimension_char :: "char \<Rightarrow> bool" where
  "dimension_char c \<longleftrightarrow> c = CHR '','' \<or> isdigit c"

text \<open>The option \<open>dimensions\<close>: \<open>None\<close> when a disallowed character makes \<open>coco_suite\<close> return NULL.\<close>

definition filter_dimensions_option :: "string \<Rightarrow> coco_suite \<Rightarrow> coco_suite option result" where
  "filter_dimensions_option options suite =
     rbind (coco_options_read_values (Some options) ''dimensions'' (COCO_PATH_MAX + 1)) (\<lambda>(ret, str).
       if ret > 0 then
         (if \<not> list_all dimension_char (case str of None \<Rightarrow> [] | Some v \<Rightarrow> v) then Inr None
          else
            rbind (rnth (suite_dimensions suite) 0) (\<lambda>lo.
            rbind (rnth (suite_dimensions suite) (size_sub (number_of_dimensions suite) 1)) (\<lambda>hi.
            rbind (coco_string_parse_ranges str lo hi COCO_MAX_INSTANCES) (\<lambda>numbers.
              case numbers of
                None \<Rightarrow> Inr (Some suite)
              | Some ns \<Rightarrow> rbind (coco_suite_filter_dimensions suite ns) (\<lambda>suite. Inr (Some suite))))))
       else Inr (Some suite))"

text \<open>The two options on dimensions, of which only the first one counts.\<close>

definition dimension_options_step :: "coco_suite \<Rightarrow> string \<Rightarrow> coco_suite option result" where
  "dimension_options_step suite options =
     rbind (coco_strfind options ''dimensions'') (\<lambda>dim_found.
     rbind (coco_strfind options ''dimension_indices'') (\<lambda>dim_idx_found.
     let both = dim_found > 0 \<and> dim_idx_found > 0;
         parce_dim_idx = (\<not> (both \<and> dim_found < dim_idx_found));
         parce_dim = (\<not> (both \<and> \<not> dim_found < dim_idx_found))
     in
     rbind (if dim_idx_found \<ge> 0 \<and> parce_dim_idx
            then filter_by_option options ''dimension_indices'' (suite_dimensions suite)
                   (number_of_dimensions suite)
            else Inr (suite_dimensions suite)) (\<lambda>ds.
     let suite = suite\<lparr>suite_dimensions := ds\<rparr> in
     if dim_found \<ge> 0 \<and> parce_dim then filter_dimensions_option options suite
     else Inr (Some suite))))"

definition suite_options_step :: "coco_suite \<Rightarrow> string \<Rightarrow> coco_suite option result" where
  "suite_options_step suite options =
     rbind (filter_by_option options ''function_indices'' (suite_functions suite)
              (number_of_functions suite)) (\<lambda>fs.
     rbind (filter_by_option options ''instance_indices'' (suite_instances suite)
              (number_of_instances suite)) (\<lambda>is.
     rbind (dimension_options_step (suite\<lparr>suite_functions := fs, suite_instances := is\<rparr>) options) (\<lambda>filtered.
       case filtered of
         None \<Rightarrow> Inr None
       | Some suite \<Rightarrow>
           rbind (check_redundant_keys
                    [''dimensions'', ''dimension_indices'', ''function_indices'', ''instance_indices'']
                    options
                    (''coco_suite(): Some keys in suite options were ignored:'' @ newline)
                    (''Valid keys for suite options are:'' @ newline)) (\<lambda>_. Inr (Some suite)))))"

text \<open>The checks and the first search at the end of the constructor.\<close>

definition suite_start_step :: "coco_suite \<Rightarrow> coco_suite option result" where
  "suite_start_step suite =
     (if number_of_dimensions suite < 1 \<or> number_of_functions suite < 1 \<or> number_of_instances suite < 1
      then Inl (Coco_error ''coco_suite'')
      else
        rbind (coco_suite_is_next_function_found suite) (\<lambda>(_, suite).
        rbind (coco_suite_is_next_dimension_found suite) (\<lambda>(_, suite). Inr (Some suite))))"

definition coco_suite :: "string \<Rightarrow> string option \<Rightarrow> string option \<Rightarrow> coco_suite option result" where
  "coco_suite name suite_instance suite_options =
     rbind (coco_suite_intialize name) (\<lambda>suite.
     rbind (suite_instances_step suite suite_instance) (\<lambda>suite.
     rbind (case suite_options of
              None \<Rightarrow> Inr (Some suite)
            | Some options \<Rightarrow>
                if length options > 0 then suite_options_step suite options else Inr (Some suite))
       (\<lambda>filtered. case filtered of None \<Rightarrow> Inr None | Some suite \<Rightarrow> suite_start_step suite)))"

section \<open>Facts about the filters\<close>

lemma found_in_iff [simp]: "found_in i js \<longleftrightarrow> i \<in> set js"
  by (induction js) auto

lemma filter_indices_loop_spec:
  "\<forall>i \<in> set is. 0 < i \<and> i \<le> length items \<Longrightarrow> distinct is \<Longrightarrow>
   filter_indices_loop is items indices =
     Inr (map (\<lambda>k. if Suc k \<in> set is \<and> Suc k \<notin> set indices then 0 else items ! k) [0..<length items])"
proof (induction "is" items indices rule: filter_indices_loop.induct)
  case (1 items indices)
  then show ?case by (simp add: map_nth)
next
  case (2 i "is" items indices)
  then have i: "i - 1 < length items" "Suc (i - 1) = i" by auto
  show ?case
  proof (cases "i \<in> set indices")
    case True
    then show ?thesis using 2 by (auto intro!: map_cong)
  next
    case False
    have "filter_indices_loop is (items[i - 1 := 0]) indices =
      Inr (map (\<lambda>k. if Suc k \<in> set is \<and> Suc k \<notin> set indices then 0 else items[i - 1 := 0] ! k)
         [0..<length items])"
      using "2.IH"(2) [of "items[i - 1 := 0]"] False "2.prems" i(1) by simp
    then show ?thesis using False i by (auto intro!: map_cong simp: nth_list_update)
  qed
qed

lemma coco_suite_filter_indices_spec:
  assumes "\<forall>x \<in> set ns. x \<noteq> 0" "length ns < COCO_MAX_INSTANCES"
  shows "coco_suite_filter_indices items (length items) (ns @ [0]) =
    Inr (map (\<lambda>k. if Suc k \<in> set ns then items ! k else 0) [0..<length items])"
  using assms filter_indices_loop_spec [of "[1..<Suc (length items)]" items ns]
  by (auto simp: coco_suite_filter_indices_def coco_count_numbers_prefix simp del: upt_Suc intro!: map_cong)

lemma filter_dimensions_loop_spec:
  "n \<le> length dims \<Longrightarrow> filter_dimensions_loop [n..<length dims] dims numbers =
     Inr (take n dims @ map (\<lambda>d. if d \<in> set numbers then d else 0) (drop n dims))"
proof (induction "length dims - n" arbitrary: n dims)
  case (Suc k)
  then have n: "n < length dims" "k = length dims - Suc n" by auto
  then have u: "[n..<length dims] = n # [Suc n..<length dims]" by (simp add: upt_conv_Cons)
  have d: "drop n dims = dims ! n # drop (Suc n) dims" using n by (simp add: Cons_nth_drop_Suc)
  show ?case
  proof (cases "dims ! n \<in> set numbers")
    case True
    then show ?thesis using Suc.hyps(1) [OF n(2)] n u d by (simp add: take_Suc_conv_app_nth)
  next
    case False
    have "filter_dimensions_loop [Suc n..<length (dims[n := 0])] (dims[n := 0]) numbers =
        Inr (take (Suc n) (dims[n := 0])
          @ map (\<lambda>d. if d \<in> set numbers then d else 0) (drop (Suc n) (dims[n := 0])))"
      using Suc.hyps(1) [of "dims[n := 0]" "Suc n"] n by simp
    then show ?thesis using False n u d by (simp add: take_Suc_conv_app_nth)
  qed
qed simp

lemma coco_suite_filter_dimensions_spec:
  assumes "\<forall>x \<in> set ns. x \<noteq> 0" "length ns < COCO_MAX_INSTANCES"
    "number_of_dimensions s = length (suite_dimensions s)"
  shows "coco_suite_filter_dimensions s (ns @ [0]) =
    Inr (s\<lparr>suite_dimensions := map (\<lambda>d. if d \<in> set ns then d else 0) (suite_dimensions s)\<rparr>)"
  using assms filter_dimensions_loop_spec [of 0 "suite_dimensions s" ns]
  by (simp add: coco_suite_filter_dimensions_def coco_count_numbers_prefix)

section \<open>Every constructed suite can be iterated\<close>

lemma parse_ranges_within:
  assumes "coco_string_parse_ranges str mn mx m = Inr (Some out)" "0 < m" "m < 2 ^ 64"
  shows "\<exists>ns. out = ns @ [0] \<and> ns \<noteq> [] \<and> length ns \<le> m
    \<and> (\<forall>x \<in> set ns. (mn > 0 \<longrightarrow> mn \<le> x) \<and> (mx > 0 \<longrightarrow> x \<le> mx))"
proof -
  obtain rs where "ranges_loop mn mx m [] rs = Inr (Some out)"
    using assms(1)
    by (auto simp: coco_string_parse_ranges_def rbind_eq_Inr split: option.splits if_splits)
  from ranges_loop_within [OF assms(2,3) this] show ?thesis by simp
qed

lemma count_numbers_Inr:
  "count_numbers_loop ns m i = Inr n \<Longrightarrow> i \<le> m \<Longrightarrow> \<forall>k < i. k < length ns \<and> ns ! k \<noteq> 0
   \<Longrightarrow> n \<le> m \<and> (\<forall>k < n. k < length ns \<and> ns ! k \<noteq> 0)"
proof (induction ns m i rule: count_numbers_loop.induct)
  case (1 ns m i)
  show ?case
  proof (cases "i < m \<and> i < length ns \<and> ns ! i \<noteq> 0")
    case True
    then have "count_numbers_loop ns m (Suc i) = Inr n"
      using "1.prems"(1) by (simp add: count_numbers_loop.simps [of ns m i])
    moreover have "\<forall>k < Suc i. k < length ns \<and> ns ! k \<noteq> 0" using True "1.prems"(3) by (auto simp: less_Suc_eq)
    ultimately show ?thesis using True by (intro "1.IH") simp_all
  next
    case False
    then have "n = i"
      using "1.prems"(1) by (auto simp: count_numbers_loop.simps [of ns m i] split: if_splits)
    with "1.prems" show ?thesis by simp
  qed
qed

lemma coco_count_numbers_Inr:
  assumes "coco_count_numbers (Some ns) m = Inr n"
  shows "n < m \<and> n \<le> length ns \<and> (\<forall>k < n. ns ! k \<noteq> 0)"
proof -
  have "count_numbers_loop ns m 0 = Inr n" "n \<noteq> m"
    using assms by (auto simp: coco_count_numbers_def rbind_eq_Inr split: if_splits)
  moreover from count_numbers_Inr [OF this(1)]
  have "n \<le> m" "\<forall>k < n. k < length ns \<and> ns ! k \<noteq> 0" by simp_all
  moreover from this(2) have "n \<le> length ns" by (cases n) auto
  ultimately show ?thesis by simp
qed

text \<open>An array with at least one positive item.\<close>

abbreviation some_positive :: "nat list \<Rightarrow> bool" where
  "some_positive xs \<equiv> \<exists>k < length xs. xs ! k \<noteq> 0"

lemma some_positive_iff: "some_positive xs \<longleftrightarrow> positive_items xs \<noteq> []"
proof -
  have "positive_items xs = [] \<longleftrightarrow> set (positive_items xs) = {}" by simp
  then show ?thesis unfolding set_positive_items by auto
qed

lemma filter_by_option_ok:
  assumes "filter_by_option options key items (length items) = Inr items'"
    and "items \<noteq> []" "\<forall>x \<in> set items. x \<noteq> 0"
  shows "length items' = length items \<and> some_positive items'"
proof (cases "items' = items")
  case True
  then show ?thesis using assms by (auto intro!: exI [of _ 0])
next
  case False
  then obtain str ix where p: "coco_string_parse_ranges str 1 (length items) COCO_MAX_INSTANCES = Inr (Some ix)"
    and f: "coco_suite_filter_indices items (length items) ix = Inr items'"
    using assms(1) by (auto simp: filter_by_option_def rbind_eq_Inr split: if_splits option.splits)
  obtain ns where ns: "ix = ns @ [0]" "ns \<noteq> []" "\<forall>x \<in> set ns. 1 \<le> x \<and> x \<le> length items"
    using parse_ranges_within [OF p] assms(2) by (auto simp: COCO_MAX_INSTANCES_def)
  have nz: "\<forall>x \<in> set ns. x \<noteq> 0" using ns(3) by auto
  have "length ns < COCO_MAX_INSTANCES"
  proof (rule ccontr)
    assume "\<not> length ns < COCO_MAX_INSTANCES"
    with f ns(1) coco_count_numbers_full [OF nz, of COCO_MAX_INSTANCES "[0]"] show False
      by (simp add: coco_suite_filter_indices_def)
  qed
  with f ns(1) nz have items': "items' = map (\<lambda>k. if Suc k \<in> set ns then items ! k else 0) [0..<length items]"
    by (simp add: coco_suite_filter_indices_spec)
  obtain x where x: "x \<in> set ns" using ns(2) by (cases ns) auto
  then have "x - 1 < length items" "Suc (x - 1) \<in> set ns" using ns(3) by auto
  then have "x - 1 < length items'" "items' ! (x - 1) \<noteq> 0"
    using assms(3) by (simp_all add: items')
  then show ?thesis using items' by auto
qed

text \<open>The invariant of the steps of the constructor.\<close>

definition suite_wf :: "coco_suite \<Rightarrow> bool" where
  "suite_wf s \<longleftrightarrow>
     number_of_dimensions s = length (suite_dimensions s) \<and> number_of_dimensions s \<le> 6
     \<and> number_of_functions s = length (suite_functions s) \<and> number_of_functions s \<le> 92
     \<and> suite_dimensions s \<noteq> [] \<and> suite_functions s \<noteq> []
     \<and> current_dimension_idx s = - 1 \<and> current_function_idx s = - 1 \<and> current_instance_idx s = - 1"

definition instances_wf :: "coco_suite \<Rightarrow> bool" where
  "instances_wf s \<longleftrightarrow> number_of_instances s = length (suite_instances s)
     \<and> number_of_instances s < COCO_MAX_INSTANCES \<and> suite_instances s \<noteq> []"

lemma initialize_wf:
  assumes "coco_suite_intialize name = Inr s"
  shows "suite_wf s \<and> (\<forall>x \<in> set (suite_functions s). x \<noteq> 0) \<and> (\<forall>x \<in> set (suite_dimensions s). x \<noteq> 0)"
  using assms
  by (auto simp: coco_suite_intialize_def suite_toy_initialize_def suite_bbob_initialize_def
      suite_biobj_initialize_def suite_largescale_initialize_def suite_cons_bbob_initialize_def
      suite_bbob_mixint_initialize_def suite_biobj_mixint_initialize_def coco_suite_allocate_def
      suite_wf_def split: if_splits)

lemma set_instance_wf:
  assumes "coco_suite_set_instance s inst = Inr s'"
  shows "\<exists>ns. s' = s\<lparr>number_of_instances := length ns, suite_instances := ns\<rparr> \<and> ns \<noteq> []
    \<and> length ns < COCO_MAX_INSTANCES \<and> (\<forall>x \<in> set ns. x \<noteq> 0)"
proof -
  obtain numbers n where n: "coco_count_numbers (Some numbers) COCO_MAX_INSTANCES = Inr n" "n \<noteq> 0"
    "s' = s\<lparr>number_of_instances := n, suite_instances := take n numbers\<rparr>"
    using assms by (auto simp: coco_suite_set_instance_def rbind_eq_Inr split: option.splits if_splits)
  note c = coco_count_numbers_Inr [OF n(1)]
  have "\<forall>x \<in> set (take n numbers). x \<noteq> 0" using c by (auto simp: in_set_conv_nth)
  moreover have "length (take n numbers) = n" using c by simp
  moreover from this have "take n numbers \<noteq> []" using n(2) by auto
  ultimately show ?thesis using c n(3) by (metis conjunct1)
qed

lemma instances_step_wf:
  assumes "suite_instances_step s inst = Inr s'"
  shows "\<exists>ns. s' = s\<lparr>number_of_instances := length ns, suite_instances := ns\<rparr> \<and> ns \<noteq> []
    \<and> length ns < COCO_MAX_INSTANCES \<and> (\<forall>x \<in> set ns. x \<noteq> 0)"
proof -
  obtain ix where "coco_suite_set_instance s ix = Inr s'"
    using assms by (auto simp: suite_instances_step_def rbind_eq_Inr split: option.splits if_splits)
  then show ?thesis by (rule set_instance_wf)
qed

lemma filter_dimensions_loop_length:
  "filter_dimensions_loop is dims ns = Inr dims' \<Longrightarrow> length dims' = length dims"
  by (induction "is" dims ns rule: filter_dimensions_loop.induct)
    (auto simp: rbind_eq_Inr rupd_def split: if_splits)

lemma filter_dimensions_option_wf:
  assumes "filter_dimensions_option options s = Inr (Some s')"
  shows "\<exists>ds. s' = s\<lparr>suite_dimensions := ds\<rparr> \<and> length ds = length (suite_dimensions s)"
proof (cases "s' = s")
  case True
  then show ?thesis by (intro exI [of _ "suite_dimensions s"]) simp
next
  case False
  then obtain ns where "coco_suite_filter_dimensions s ns = Inr s'"
    using assms by (auto simp: filter_dimensions_option_def rbind_eq_Inr split: if_splits option.splits)
  then show ?thesis
    by (auto simp: coco_suite_filter_dimensions_def rbind_eq_Inr dest: filter_dimensions_loop_length)
qed

lemma options_step_wf:
  assumes "suite_options_step s options = Inr (Some s')" "suite_wf s" "instances_wf s"
    and "\<forall>x \<in> set (suite_functions s). x \<noteq> 0" "\<forall>x \<in> set (suite_dimensions s). x \<noteq> 0"
    and "\<forall>x \<in> set (suite_instances s). x \<noteq> 0"
  shows "suite_wf s' \<and> instances_wf s' \<and> some_positive (suite_functions s') \<and> some_positive (suite_instances s')"
proof -
  have n: "number_of_functions s = length (suite_functions s)" "number_of_instances s = length (suite_instances s)"
    "number_of_dimensions s = length (suite_dimensions s)"
    using assms(2,3) by (auto simp: suite_wf_def instances_wf_def)
  obtain fs "is" where f: "filter_by_option options ''function_indices'' (suite_functions s)
        (length (suite_functions s)) = Inr fs"
    and i: "filter_by_option options ''instance_indices'' (suite_instances s)
        (length (suite_instances s)) = Inr is"
    and dim: "dimension_options_step (s\<lparr>suite_functions := fs, suite_instances := is\<rparr>) options = Inr (Some s')"
    using assms(1) n unfolding suite_options_step_def
    by (fastforce simp: rbind_eq_Inr split: option.splits)
  obtain ds where d: "ds = suite_dimensions s \<or> filter_by_option options ''dimension_indices'' (suite_dimensions s)
        (length (suite_dimensions s)) = Inr ds"
    and s': "s' = s\<lparr>suite_functions := fs, suite_instances := is, suite_dimensions := ds\<rparr>
       \<or> filter_dimensions_option options
           (s\<lparr>suite_functions := fs, suite_instances := is, suite_dimensions := ds\<rparr>) = Inr (Some s')"
    using dim n unfolding dimension_options_step_def
    by (fastforce simp: rbind_eq_Inr Let_def split: if_splits)
  have ne: "suite_functions s \<noteq> []" "suite_instances s \<noteq> []" "suite_dimensions s \<noteq> []"
    using assms(2,3) by (auto simp: suite_wf_def instances_wf_def)
  note f' = filter_by_option_ok [OF f ne(1) assms(4)]
  note i' = filter_by_option_ok [OF i ne(2) assms(6)]
  have d': "length ds = length (suite_dimensions s)"
    using d filter_by_option_ok [OF _ ne(3) assms(5), of options "''dimension_indices''" ds] by auto
  obtain ds' where "s' = s\<lparr>suite_functions := fs, suite_instances := is, suite_dimensions := ds'\<rparr>"
    "length ds' = length (suite_dimensions s)"
    using s' d' filter_dimensions_option_wf by fastforce
  then show ?thesis
    using assms(2,3) f' i' ne by (auto simp: suite_wf_def instances_wf_def)
qed

text \<open>Without a positive item the search ends in an error.\<close>

lemma next_item_none:
  assumes "\<not> some_positive items" "items \<noteq> []"
  shows "coco_suite_is_next_item_found items (length items) (- 1)
    = Inl (Coco_error ''coco_suite_is_next_item_found'')"
proof (cases "length items = 0")
  case False
  have "later_items items (- 1) = []" using assms(1) by (simp only: some_positive_iff simp_thms)
  then obtain c where "item_advance items (length items) (- 1) = Inr c" "- 1 < c" "c < int (length items)"
    "items ! nat c = 0"
    using item_advance_later [of "- 1" items] False by auto
  then show ?thesis
    using False by (auto simp: coco_suite_is_next_item_found_def item_at_def Let_def)
qed (use assms in simp)

lemma start_step_ok:
  assumes "suite_start_step s = Inr (Some s')" "suite_wf s" "instances_wf s"
    and "some_positive (suite_functions s)" "some_positive (suite_instances s)"
  shows "at_start s' \<and> counts_ok s' \<and> same_items s s'"
proof -
  have n: "number_of_functions s = length (suite_functions s)" "number_of_instances s = length (suite_instances s)"
    "number_of_dimensions s = length (suite_dimensions s)"
    and c: "current_function_idx s = - 1" "current_dimension_idx s = - 1" "current_instance_idx s = - 1"
    using assms(2,3) by (auto simp: suite_wf_def instances_wf_def)
  obtain f fs where f: "positive_items (suite_functions s) = f # fs"
    using assms(4) unfolding some_positive_iff by (cases "positive_items (suite_functions s)") simp_all
  have "0 < length (suite_functions s)" using assms(4) by auto
  then have "coco_suite_is_next_item_found (suite_functions s) (length (suite_functions s)) (- 1) = Inr (True, int f)"
    using next_item_spec [of "suite_functions s" "- 1"] f by simp
  then have fn: "coco_suite_is_next_function_found s = Inr (True, s\<lparr>current_function_idx := int f\<rparr>)"
    using n c by (simp add: coco_suite_is_next_function_found_def)
  have ds: "some_positive (suite_dimensions s)"
  proof (rule ccontr)
    assume "\<not> some_positive (suite_dimensions s)"
    with next_item_none [of "suite_dimensions s"] assms(1,2) fn n c show False
      by (auto simp: suite_start_step_def coco_suite_is_next_dimension_found_def suite_wf_def split: if_splits)
  qed
  obtain d es where d: "positive_items (suite_dimensions s) = d # es"
    using ds unfolding some_positive_iff by (cases "positive_items (suite_dimensions s)") simp_all
  have "0 < length (suite_dimensions s)" using ds by auto
  then have "coco_suite_is_next_item_found (suite_dimensions s) (length (suite_dimensions s)) (- 1) = Inr (True, int d)"
    using next_item_spec [of "suite_dimensions s" "- 1"] d by simp
  then have s': "s' = s\<lparr>current_function_idx := int f, current_dimension_idx := int d\<rparr>"
    using assms(1) fn n c
    by (auto simp: suite_start_step_def coco_suite_is_next_dimension_found_def split: if_splits)
  have "f < length (suite_functions s)" "d < length (suite_dimensions s)"
    using positive_items_hd [of "suite_functions s"] positive_items_hd [of "suite_dimensions s"] f d by auto
  moreover have "length (suite_instances s) * length (suite_functions s) * length (suite_dimensions s)
      \<le> COCO_MAX_INSTANCES * 92 * 6"
    using assms(2,3) by (intro mult_le_mono) (auto simp: suite_wf_def instances_wf_def)
  ultimately show ?thesis
    using assms(2-5) f d n c
    by (auto simp: s' at_start_def suite_ok_def counts_ok_def same_items_def some_positive_iff [symmetric]
        COCO_MAX_INSTANCES_def)
qed

lemma coco_suite_ok:
  assumes "coco_suite name inst opts = Inr (Some s)"
  shows "at_start s \<and> counts_ok s"
proof -
  obtain s0 s1 s2 where s0: "coco_suite_intialize name = Inr s0"
    and s1: "suite_instances_step s0 inst = Inr s1"
    and s2: "s2 = s1 \<or> (\<exists>options. suite_options_step s1 options = Inr (Some s2))"
    and s: "suite_start_step s2 = Inr (Some s)"
  proof -
    obtain s0 s1 where s01: "coco_suite_intialize name = Inr s0" "suite_instances_step s0 inst = Inr s1"
      and r: "rbind (case opts of None \<Rightarrow> Inr (Some s1)
            | Some options \<Rightarrow> if length options > 0 then suite_options_step s1 options else Inr (Some s1))
         (\<lambda>filtered. case filtered of None \<Rightarrow> Inr None | Some suite \<Rightarrow> suite_start_step suite) = Inr (Some s)"
      using assms unfolding coco_suite_def rbind_eq_Inr [where y = "Some s"] by blast
    obtain s2 where "(case opts of None \<Rightarrow> Inr (Some s1)
            | Some options \<Rightarrow> if length options > 0 then suite_options_step s1 options else Inr (Some s1))
        = Inr (Some s2)" and s2: "suite_start_step s2 = Inr (Some s)"
      using r by (auto simp: rbind_eq_Inr split: option.splits)
    then have "s2 = s1 \<or> (\<exists>options. suite_options_step s1 options = Inr (Some s2))"
      by (auto split: option.splits if_splits)
    with s01 s2 show thesis by (intro that) simp_all
  qed
  note w0 = initialize_wf [OF s0]
  obtain ns where ns: "s1 = s0\<lparr>number_of_instances := length ns, suite_instances := ns\<rparr>" "ns \<noteq> []"
    "length ns < COCO_MAX_INSTANCES" "\<forall>x \<in> set ns. x \<noteq> 0"
    using instances_step_wf [OF s1] by blast
  then have w1: "suite_wf s1" "instances_wf s1" "\<forall>x \<in> set (suite_functions s1). x \<noteq> 0"
    "\<forall>x \<in> set (suite_dimensions s1). x \<noteq> 0" "\<forall>x \<in> set (suite_instances s1). x \<noteq> 0"
    using w0 by (auto simp: suite_wf_def instances_wf_def)
  have all: "some_positive xs" if "xs \<noteq> []" "\<forall>x \<in> set xs. x \<noteq> 0" for xs
    using that by (auto intro!: exI [of _ 0])
  have "suite_wf s2 \<and> instances_wf s2 \<and> some_positive (suite_functions s2) \<and> some_positive (suite_instances s2)"
    using s2
  proof
    assume "s2 = s1"
    with w1 all show ?thesis by (auto simp: suite_wf_def instances_wf_def)
  qed (use options_step_wf w1 in blast)
  then show ?thesis using start_step_ok [OF s] by blast
qed

section \<open>Character classes of option values\<close>

lemma range_char_class: "range_char c \<Longrightarrow> \<not> isalpha c \<and> \<not> isspace c"
proof -
  assume "range_char c"
  then consider "c = CHR ''-''" | "c = CHR '',''" | "isdigit c" unfolding range_char_def by blast
  then show ?thesis
    by cases (simp_all add: isalpha_def isspace_def isdigit_def)
qed

lemma item_ok_numbers:
  assumes "item_ok 1 mx it"
  shows "item_numbers 1 mx it \<noteq> []" and "x \<in> set (item_numbers 1 mx it) \<Longrightarrow> x \<noteq> 0"
proof -
  obtain lo hi where "item_bounds 1 mx it = (lo, hi)" by fastforce
  with assms show "item_numbers 1 mx it \<noteq> []" "x \<in> set (item_numbers 1 mx it) \<Longrightarrow> x \<noteq> 0"
    by (auto simp: item_ok_def item_numbers_def)
qed

lemma space_class: "isspace c \<Longrightarrow> \<not> isalpha c"
  by (auto simp: isalpha_def isspace_def)

section \<open>Properties\<close>

text \<open>
  C29. Every suite the constructor returns is ready for the iteration: at least one dimension, one
  function and one instance are left, the counts are the lengths of the arrays, the number of
  problems fits into \<open>size_t\<close>, and the current dimension and function are the first that are left
  while the current instance is before the first.
\<close>

theorem coco_suite_constructed_ok:
  assumes "coco_suite name inst opts = Inr (Some s)"
  shows "at_start s \<and> counts_ok s"
  using assms by (rule coco_suite_ok)

lemma bbob_default_constructed:
  "coco_suite ''bbob'' None None = Inr (Some
     \<lparr> suite_name = ''bbob'', number_of_dimensions = 6, suite_dimensions = [2, 3, 5, 10, 20, 40],
       number_of_functions = 24, suite_functions = map Suc [0..<24], number_of_instances = 15,
       default_instances = ''year: 2021'',
       suite_instances = [1, 2, 3, 4, 5, 91, 92, 93, 94, 95, 96, 97, 98, 99, 100], current_problem = None,
       current_dimension_idx = 0, current_function_idx = 0, current_instance_idx = - 1, suite_data = None \<rparr>)"
  by code_simp

theorem coco_suite_constructed_ok_witness:
  "\<exists>s. coco_suite ''bbob'' None None = Inr (Some s) \<and> at_start s \<and> counts_ok s"
  using coco_suite_constructed_ok [OF bbob_default_constructed] bbob_default_constructed by blast

text \<open>
  \<open>coco_suite_get_instance_from_instance_index\<close> returns the function number at the given index,
  not the instance number: in the default bbob suite index 5 gives 6 although the instance is 91.
\<close>

theorem instance_getter_returns_function:
  "(\<forall>s ii. ii < number_of_instances s \<and> ii < length (suite_functions s) \<longrightarrow>
      coco_suite_get_instance_from_instance_index s ii = Inr (suite_functions s ! ii))
   \<and> (case coco_suite ''bbob'' None None of
        Inr (Some s) \<Rightarrow> coco_suite_get_instance_from_instance_index s 5 = Inr 6 \<and> suite_instances s ! 5 = 91
      | _ \<Rightarrow> False)"
  unfolding bbob_default_constructed
  by (simp add: coco_suite_get_instance_from_instance_index_def eval_nat_numeral)

theorem instance_getter_returns_function_witness:
  "coco_suite_get_instance_from_instance_index sample_suite 1 = Inr 2"
  using instance_getter_returns_function by (simp add: sample_suite_def)



end
