(* ===== verification/Coco_Suite_Complete.thy ===== *)
theory Coco_Suite_Complete
  imports Coco_Suite_Construct
begin

text \<open>
  Every problem of a constructed suite can be allocated: the constructor only replaces entries of
  the tables of the initializer by 0, and the getters are defined on what remains.
\<close>

section \<open>What the constructor keeps of the tables\<close>

text \<open>The functions and dimensions of a suite by its name.\<close>

definition table_functions :: "string \<Rightarrow> nat" where
  "table_functions name =
     (if name = ''toy'' then 6
      else if name = ''bbob-biobj'' then 55
      else if name = ''bbob-biobj-ext'' \<or> name = ''bbob-biobj-mixint'' then 92
      else if is_constrained name then 54
      else 24)"

definition table_dimensions :: "string \<Rightarrow> nat list" where
  "table_dimensions name =
     (if name = ''toy'' then [2, 3, 5, 10, 20]
      else if name = ''bbob-largescale'' then [20, 40, 80, 160, 320, 640]
      else if name = ''bbob-mixint'' \<or> name = ''bbob-biobj-mixint'' then [5, 10, 20, 40, 80, 160]
      else [2, 3, 5, 10, 20, 40])"

definition tables_ok :: "string \<Rightarrow> coco_suite \<Rightarrow> bool" where
  "tables_ok name s \<longleftrightarrow> suite_name s = name \<and> suite_data s = None
     \<and> length (suite_functions s) = table_functions name
     \<and> (\<forall>k < length (suite_functions s). suite_functions s ! k \<noteq> 0 \<longrightarrow> suite_functions s ! k = Suc k)
     \<and> set (suite_dimensions s) \<subseteq> insert 0 (set (table_dimensions name))"

definition known_suite :: "string \<Rightarrow> bool" where
  "known_suite name \<longleftrightarrow> name = ''toy'' \<or> name = ''bbob''
     \<or> (name = ''bbob-biobj'' \<or> name = ''bbob-biobj-ext'') \<or> is_constrained name
     \<or> name = ''bbob-largescale'' \<or> name = ''bbob-mixint'' \<or> name = ''bbob-biobj-mixint''"

lemma disjunction_7: "A \<or> B \<or> C \<or> D \<or> E \<or> F \<or> G \<Longrightarrow> (A \<Longrightarrow> P) \<Longrightarrow> (B \<Longrightarrow> P) \<Longrightarrow> (C \<Longrightarrow> P)
    \<Longrightarrow> (D \<Longrightarrow> P) \<Longrightarrow> (E \<Longrightarrow> P) \<Longrightarrow> (F \<Longrightarrow> P) \<Longrightarrow> (G \<Longrightarrow> P) \<Longrightarrow> P"
  by blast

lemmas known_suite_cases = disjunction_7 [OF iffD1 [OF known_suite_def]]

lemma not_constrained [simp]:
  "\<not> is_constrained ''toy''" "\<not> is_constrained ''bbob''" "\<not> is_constrained ''bbob-biobj''"
  "\<not> is_constrained ''bbob-biobj-ext''" "\<not> is_constrained ''bbob-largescale''"
  "\<not> is_constrained ''bbob-mixint''" "\<not> is_constrained ''bbob-biobj-mixint''"
  by (simp_all add: is_constrained_def)

lemma initialize_tables:
  assumes "coco_suite_intialize name = Inr s"
  shows "tables_ok name s \<and> known_suite name"
proof -
  have u: "k < n \<Longrightarrow> map Suc [0..<n] ! k = Suc k" for k n by simp
  have c: "is_constrained name \<Longrightarrow> name \<notin> {''toy'', ''bbob'', ''bbob-biobj'', ''bbob-biobj-ext'',
      ''bbob-largescale'', ''bbob-mixint'', ''bbob-biobj-mixint''}" by auto
  show ?thesis
    using assms c unfolding coco_suite_intialize_def
    by (auto simp: suite_toy_initialize_def suite_bbob_initialize_def
      suite_biobj_initialize_def suite_largescale_initialize_def suite_cons_bbob_initialize_def
      suite_bbob_mixint_initialize_def suite_biobj_mixint_initialize_def coco_suite_allocate_def
      tables_ok_def table_functions_def table_dimensions_def known_suite_def u
      simp del: upt_Suc split: if_splits)
qed

text \<open>A filter replaces entries by 0.\<close>

definition zeroed :: "nat list \<Rightarrow> nat list \<Rightarrow> bool" where
  "zeroed xs ys \<longleftrightarrow> list_all2 (\<lambda>x y. y = x \<or> y = 0) xs ys"

lemma zeroed_refl [simp]: "zeroed xs xs"
  by (simp add: zeroed_def list_all2_refl)

lemma zeroed_trans: "zeroed xs ys \<Longrightarrow> zeroed ys zs \<Longrightarrow> zeroed xs zs"
  unfolding zeroed_def by (rule list_all2_trans) auto

lemma zeroed_update: "i < length xs \<Longrightarrow> zeroed xs (xs[i := 0])"
  by (simp add: zeroed_def list_all2_conv_all_nth nth_list_update)

lemma filter_indices_loop_zeroed: "filter_indices_loop is items ix = Inr items' \<Longrightarrow> zeroed items items'"
proof (induction "is" items ix arbitrary: items' rule: filter_indices_loop.induct)
  case (2 i "is" items ix)
  then show ?case
    by (auto simp: rbind_eq_Inr rupd_def split: if_splits intro: zeroed_trans [OF zeroed_update])
qed simp

lemma filter_dimensions_loop_zeroed: "filter_dimensions_loop is dims ns = Inr dims' \<Longrightarrow> zeroed dims dims'"
proof (induction "is" arbitrary: dims)
  case (Cons i "is")
  show ?case
  proof (cases "i < length dims \<and> dims ! i \<in> set ns")
    case True
    with Cons show ?thesis by simp
  next
    case False
    then have "i < length dims \<and> filter_dimensions_loop is (dims[i := 0]) ns = Inr dims'"
      using Cons.prems by (auto simp: rbind_eq_Inr rupd_def rnth_def split: if_splits)
    then show ?thesis using Cons.IH zeroed_trans [OF zeroed_update] by blast
  qed
qed simp

lemma filter_by_option_zeroed: "filter_by_option options key items n = Inr items' \<Longrightarrow> zeroed items items'"
  by (auto simp: filter_by_option_def coco_suite_filter_indices_def rbind_eq_Inr
      split: if_splits option.splits dest: filter_indices_loop_zeroed)

lemma filter_dimensions_option_zeroed:
  assumes "filter_dimensions_option options s = Inr (Some s')"
  shows "\<exists>ds. s' = s\<lparr>suite_dimensions := ds\<rparr> \<and> zeroed (suite_dimensions s) ds"
proof (cases "s' = s")
  case True
  then show ?thesis by (intro exI [of _ "suite_dimensions s"]) simp
next
  case False
  then obtain ns where "coco_suite_filter_dimensions s ns = Inr s'"
    using assms by (auto simp: filter_dimensions_option_def rbind_eq_Inr split: if_splits option.splits)
  then show ?thesis
    by (auto simp: coco_suite_filter_dimensions_def rbind_eq_Inr dest: filter_dimensions_loop_zeroed)
qed

lemma zeroed_subset: "zeroed xs ys \<Longrightarrow> set ys \<subseteq> insert 0 (set xs)"
  unfolding zeroed_def by (induction xs ys rule: list_all2_induct) auto

lemma tables_zeroed:
  assumes "tables_ok name s" "zeroed (suite_functions s) fs" "zeroed (suite_dimensions s) ds"
  shows "tables_ok name (s\<lparr>suite_functions := fs, suite_instances := is, suite_dimensions := ds\<rparr>)"
proof -
  have "length fs = length (suite_functions s)"
    "\<forall>k < length fs. fs ! k \<noteq> 0 \<longrightarrow> fs ! k = suite_functions s ! k"
    using assms(2) by (auto simp: zeroed_def list_all2_conv_all_nth)
  with assms(1) zeroed_subset [OF assms(3)] show ?thesis by (auto simp: tables_ok_def)
qed

lemma options_step_tables:
  assumes "suite_options_step s options = Inr (Some s')" "tables_ok name s"
  shows "tables_ok name s'"
proof -
  obtain fs "is" where f0: "filter_by_option options ''function_indices'' (suite_functions s)
        (number_of_functions s) = Inr fs"
    and dim: "dimension_options_step (s\<lparr>suite_functions := fs, suite_instances := is\<rparr>) options = Inr (Some s')"
    using assms(1) unfolding suite_options_step_def
    by (fastforce simp: rbind_eq_Inr split: option.splits)
  obtain ds where d0: "ds = suite_dimensions s \<or> filter_by_option options ''dimension_indices'' (suite_dimensions s)
        (number_of_dimensions s) = Inr ds"
    and s': "s' = s\<lparr>suite_functions := fs, suite_instances := is, suite_dimensions := ds\<rparr>
       \<or> filter_dimensions_option options
           (s\<lparr>suite_functions := fs, suite_instances := is, suite_dimensions := ds\<rparr>) = Inr (Some s')"
    using dim unfolding dimension_options_step_def
    by (fastforce simp: rbind_eq_Inr Let_def split: if_splits)
  have f: "zeroed (suite_functions s) fs" using f0 by (rule filter_by_option_zeroed)
  have d: "zeroed (suite_dimensions s) ds" using d0 filter_by_option_zeroed zeroed_refl by blast
  from s' show ?thesis
  proof
    assume "filter_dimensions_option options
        (s\<lparr>suite_functions := fs, suite_instances := is, suite_dimensions := ds\<rparr>) = Inr (Some s')"
    from filter_dimensions_option_zeroed [OF this] obtain ds' where
      "s' = s\<lparr>suite_functions := fs, suite_instances := is, suite_dimensions := ds'\<rparr>" "zeroed ds ds'" by auto
    then show ?thesis using tables_zeroed [OF assms(2) f] zeroed_trans [OF d] by simp
  qed (use tables_zeroed [OF assms(2) f d] in simp)
qed

lemma start_step_tables:
  assumes "suite_start_step s = Inr (Some s')" "tables_ok name s"
  shows "tables_ok name s'"
proof -
  have i: "tables_ok name t'" if "coco_suite_is_next_instance_found t = Inr (b, t')" "tables_ok name t" for b t t'
    using that by (auto simp: coco_suite_is_next_instance_found_def rbind_eq_Inr tables_ok_def)
  have f: "tables_ok name t'" if nf: "coco_suite_is_next_function_found t = Inr (b, t')" and tab: "tables_ok name t" for b t t'
  proof -
    obtain found c where c: "coco_suite_is_next_item_found (suite_functions t) (number_of_functions t)
        (current_function_idx t) = Inr (found, c)"
      using nf by (fastforce simp: coco_suite_is_next_function_found_def rbind_eq_Inr)
    have "t' = t\<lparr>current_function_idx := c\<rparr>
        \<or> (\<exists>b. coco_suite_is_next_instance_found (t\<lparr>current_function_idx := c, current_instance_idx := - 1\<rparr>) = Inr (b, t'))"
      using nf c by (cases found) (auto simp: coco_suite_is_next_function_found_def rbind_eq_Inr)
    then show ?thesis
      using tab i [of "t\<lparr>current_function_idx := c, current_instance_idx := - 1\<rparr>"]
      by (auto simp: tables_ok_def)
  qed
  have d: "tables_ok name t'" if "coco_suite_is_next_dimension_found t = Inr (b, t')" "tables_ok name t" for b t t'
    using that by (auto simp: coco_suite_is_next_dimension_found_def rbind_eq_Inr tables_ok_def)
  obtain b t b' where "coco_suite_is_next_function_found s = Inr (b, t)"
    "coco_suite_is_next_dimension_found t = Inr (b', s')"
    using assms(1) by (auto simp: suite_start_step_def rbind_eq_Inr split: if_splits)
  then show ?thesis using f d assms(2) by blast
qed

lemma coco_suite_tables:
  assumes "coco_suite name inst opts = Inr (Some s)"
  shows "tables_ok name s \<and> known_suite name"
proof -
  obtain s0 s1 where s0: "coco_suite_intialize name = Inr s0" and s1: "suite_instances_step s0 inst = Inr s1"
    and r: "rbind (case opts of None \<Rightarrow> Inr (Some s1)
          | Some options \<Rightarrow> if length options > 0 then suite_options_step s1 options else Inr (Some s1))
       (\<lambda>filtered. case filtered of None \<Rightarrow> Inr None | Some suite \<Rightarrow> suite_start_step suite) = Inr (Some s)"
    using assms unfolding coco_suite_def rbind_eq_Inr [where y = "Some s"] by blast
  obtain s2 where s2: "s2 = s1 \<or> (\<exists>options. suite_options_step s1 options = Inr (Some s2))"
    and s: "suite_start_step s2 = Inr (Some s)"
    using r by (auto simp: rbind_eq_Inr split: option.splits if_splits)
  have "tables_ok name s1"
    using initialize_tables [OF s0] instances_step_wf [OF s1] by (auto simp: tables_ok_def)
  then have "tables_ok name s2" using s2 options_step_tables by blast
  then show ?thesis using start_step_tables [OF s] initialize_tables [OF s0] by blast
qed

section \<open>Every remaining problem can be constructed\<close>

lemma mod5_table: "d \<in> set (table_dimensions name) \<Longrightarrow> name = ''bbob-mixint'' \<or> name = ''bbob-biobj-mixint''
   \<Longrightarrow> d mod 5 = 0"
  by (auto simp: table_dimensions_def)

lemma mixint_total:
  assumes "d mod 5 = 0" "1 \<le> f" "f \<le> 24" "\<exists>p. get f d i = Inr p"
  shows "\<exists>p. coco_get_bbob_mixint_problem f d i get = Inr p"
proof -
  have "size_sub f 1 < length suite_bbob_mixint_scaling_factors"
    using assms(2,3) by (simp add: suite_bbob_mixint_scaling_factors_def)
  then show ?thesis using assms by (auto simp: coco_get_bbob_mixint_problem_def split: prod.split)
qed

lemma toy_problem_total: "1 \<le> f \<Longrightarrow> f \<le> 6 \<Longrightarrow> \<exists>p. toy_problem f d = Inr p"
  by (auto simp: toy_problem_def)

lemma biobj_functions_total:
  assumes "1 \<le> f" "f \<le> 92"
  shows "\<exists>a b. biobj_functions f = Inr (a, b) \<and> 1 \<le> a \<and> a \<le> 24 \<and> 1 \<le> b \<and> b \<le> 24"
proof -
  have f: "f \<in> set [1..<93]" using assms by auto
  have "biobj_functions f \<in> set (map biobj_functions [1..<93])" unfolding set_map using f by (rule imageI)
  then obtain p where p: "p \<in> set biobj_table" "biobj_functions f = Inr p"
    unfolding biobj_functions_table by auto
  have "\<forall>p \<in> set biobj_table. 1 \<le> fst p \<and> fst p \<le> 24 \<and> 1 \<le> snd p \<and> snd p \<le> 24"
    by code_simp
  moreover obtain a b where "p = (a, b)" by fastforce
  ultimately show ?thesis using p by auto
qed

definition table_instance :: "nat \<Rightarrow> bool" where
  "table_instance i \<longleftrightarrow> 1 \<le> i \<and> i \<le> 15"

lemma find_instance_table: "table_instance i \<Longrightarrow> \<exists>i1 i2. find_instance i suite_biobj_instances = Some (i1, i2)"
proof -
  assume "table_instance i"
  then have "i \<in> set [1..<16]" by (auto simp: table_instance_def)
  then show ?thesis by (auto simp: suite_biobj_instances_def upt_rec)
qed

lemma biobj_problem_total:
  assumes "1 \<le> f" "f \<le> 92" "table_instance i"
    and "\<And>f i. 1 \<le> f \<Longrightarrow> f \<le> 24 \<Longrightarrow> \<exists>p. get f d i = Inr p"
  shows "\<exists>f1 p1 f2 p2. coco_get_biobj_problem objective_of f d i get new n dims
      = Inr (Stacked ''bbob-biobj'' (f1, p1) (f2, p2) f i d, new)
    \<and> biobj_functions f = Inr (f1, f2) \<and> 1 \<le> f1 \<and> f1 \<le> 24 \<and> 1 \<le> f2 \<and> f2 \<le> 24"
proof -
  obtain f1 f2 where f12: "biobj_functions f = Inr (f1, f2)" "1 \<le> f1" "f1 \<le> 24" "1 \<le> f2" "f2 \<le> 24"
    using biobj_functions_total [OF assms(1,2)] by blast
  obtain i1 i2 where inst: "find_instance i suite_biobj_instances = Some (i1, i2)"
    using find_instance_table [OF assms(3)] by blast
  obtain p1 p2 where p: "get f1 d i1 = Inr p1" "get f2 d i2 = Inr p2"
    using assms(4) f12 by metis
  obtain j k where jk: "biobj_function_indices (size_sub f 1) = Inr (j, k)"
    "rnth (if size_sub f 1 < 55 then sel_bbob_functions else all_bbob_functions) j = Inr f1"
    "rnth (if size_sub f 1 < 55 then sel_bbob_functions else all_bbob_functions) k = Inr f2"
    using f12(1) unfolding biobj_functions_def Let_def by (auto simp: rbind_eq_Inr)
  then show ?thesis using inst p f12
    by (simp add: coco_get_biobj_problem_def Let_def biobj_instances_def)
qed

lemma biobj_mixint_total:
  assumes "1 \<le> f" "f \<le> 92" "table_instance i" "d mod 5 = 0"
    and "\<And>f i. 1 \<le> f \<Longrightarrow> f \<le> 24 \<Longrightarrow> \<exists>p. get f d i = Inr p"
  shows "\<exists>p. coco_get_biobj_mixint_problem objective_of f d i get new n dims = Inr (p, new)"
proof -
  have sc: "\<exists>q. discretize_and_scale d (g, p) = Inr q" if "1 \<le> g" "g \<le> 24" for g p
  proof -
    have "size_sub g 1 < length suite_bbob_mixint_scaling_factors"
      using that by (simp add: suite_bbob_mixint_scaling_factors_def)
    then show ?thesis by (auto simp: discretize_and_scale_def split: prod.split)
  qed
  obtain f1 p1 f2 p2 where p: "coco_get_biobj_problem objective_of f d i get new n dims
      = Inr (Stacked ''bbob-biobj'' (f1, p1) (f2, p2) f i d, new)"
    and f: "1 \<le> f1" "f1 \<le> 24" "1 \<le> f2" "f2 \<le> 24"
    using biobj_problem_total [where get = get and objective_of = objective_of and new = new and n = n
        and dims = dims, OF assms(1-3,5)] by blast
  obtain q1 where "discretize_and_scale d (f1, p1) = Inr q1" using sc f by blast
  moreover obtain q2 where "discretize_and_scale d (f2, p2) = Inr q2" using sc f by blast
  ultimately show ?thesis using p assms(4) by (simp add: coco_get_biobj_mixint_problem_def)
qed

text \<open>The suites whose problems depend on a search for new instances beyond the table.\<close>

definition biobj_suite :: "string \<Rightarrow> bool" where
  "biobj_suite name \<longleftrightarrow> name \<in> {''bbob-biobj'', ''bbob-biobj-ext'', ''bbob-biobj-mixint''}"

lemma suite_problem_Inr:
  assumes "fi < length (suite_functions s)" "di < length (suite_dimensions s)" "ii < length (suite_instances s)"
    and "get (suite_functions s ! fi) (suite_dimensions s ! di) (suite_instances s ! ii) = Inr q"
  shows "\<exists>p. suite_problem s fi di ii get = Inr p
    \<and> suite_dep_function p = suite_functions s ! fi \<and> suite_dep_instance p = suite_instances s ! ii
    \<and> suite_dep_index p = coco_suite_encode_problem_index s fi di ii"
  using assms by (simp add: suite_problem_def with_indices_def)

text \<open>The getter of a suite is \<open>suite_problem\<close> with a construction that succeeds.\<close>

definition constructible ::
  "(problem_call \<Rightarrow> bbob_objective) \<Rightarrow> coco_suite \<Rightarrow> nat \<Rightarrow> nat \<Rightarrow> nat \<Rightarrow> bool" where
  "constructible objective_of s fi di ii \<longleftrightarrow>
     (\<exists>p. coco_suite_get_problem_from_indices objective_of s fi di ii = Inr (Some p)
       \<and> suite_dep_function p = suite_functions s ! fi \<and> suite_dep_instance p = suite_instances s ! ii
       \<and> suite_dep_index p = coco_suite_encode_problem_index s fi di ii)"

lemma triple_constructible:
  assumes "tables_ok name s" "known_suite name" "(di, fi, ii) \<in> set (all_triples s)"
    and "biobj_suite name \<Longrightarrow> \<forall>i \<in> set (suite_instances s). i \<noteq> 0 \<longrightarrow> table_instance i"
  shows "constructible objective_of s fi di ii"
proof -
  let ?f = "suite_functions s ! fi" and ?d = "suite_dimensions s ! di" and ?i = "suite_instances s ! ii"
  have idx: "fi < length (suite_functions s)" "di < length (suite_dimensions s)" "ii < length (suite_instances s)"
    and nz: "?f \<noteq> 0" "?d \<noteq> 0" "?i \<noteq> 0"
    using assms(3) by (auto simp: set_all_triples)
  have name: "suite_name s = name" using assms(1) by (simp add: tables_ok_def)
  have f: "1 \<le> ?f" "?f \<le> table_functions name" using assms(1) idx(1) nz(1) by (auto simp: tables_ok_def)
  have d: "?d \<in> set (table_dimensions name)"
    using assms(1) idx(2) nz(2) by (auto simp: tables_ok_def dest: nth_mem)
  have i: "biobj_suite name \<Longrightarrow> table_instance ?i" using assms(4) idx(3) nz(3) by simp
  note bb = coco_get_bbob_problem_total [THEN iffD2] coco_get_largescale_problem_total [THEN iffD2]
  have get: "\<exists>p. (if ?d < dim_large_scale then coco_get_bbob_problem else coco_get_largescale_problem) f ?d i = Inr p"
    if "1 \<le> f" "f \<le> 24" for f i using that bb by auto
  note call = suite_problem_Inr [OF idx]
  have wi: "with_indices s fi di ii k = k ?f ?d ?i" for k :: "nat \<Rightarrow> nat \<Rightarrow> nat \<Rightarrow> coco_problem option result"
    using idx by (simp add: with_indices_def)
  note top = constructible_def coco_suite_get_problem_from_indices_def wi name nz
  show ?thesis
  proof (cases rule: known_suite_cases [OF assms(2)])
    case 1
    then obtain q where "toy_problem ?f ?d = Inr q" using f toy_problem_total by (auto simp: table_functions_def)
    with 1 call [of "\<lambda>f d i. toy_problem f d" q] show ?thesis by (auto simp: top suite_toy_get_problem_def)
  next
    case 2
    then obtain q where "coco_get_bbob_problem ?f ?d ?i = Inr q"
      using f bb(1) by (fastforce simp: table_functions_def)
    with 2 call [of coco_get_bbob_problem q] show ?thesis by (auto simp: top suite_bbob_get_problem_def)
  next
    case 3
    let ?get = "\<lambda>function dimension instance.
       rbind (coco_get_biobj_problem objective_of function dimension instance coco_get_bbob_problem
                (suite_data s) (number_of_instances s) (suite_dimensions s))
         (\<lambda>(p, new_inst_data). Inr p)"
    have "?f \<le> 92" "biobj_suite name" using 3 f(2) by (auto simp: table_functions_def biobj_suite_def)
    then obtain q where "?get ?f ?d ?i = Inr q"
      using biobj_problem_total [of ?f ?i coco_get_bbob_problem ?d objective_of "suite_data s"
          "number_of_instances s" "suite_dimensions s"] f(1) i bb(1) by fastforce
    from call [of ?get, OF this] 3 show ?thesis by (auto simp: top suite_biobj_get_problem_def)
  next
    case 4
    then have n: "name \<notin> {''toy'', ''bbob'', ''bbob-biobj'', ''bbob-biobj-ext'', ''bbob-biobj-mixint''}" by auto
    with 4 f have "?f \<le> 54" by (simp add: table_functions_def)
    then obtain q where "coco_get_cons_bbob_problem name ?f ?d ?i = Inr q"
      using f(1) coco_get_cons_bbob_problem_total by blast
    from call [of "coco_get_cons_bbob_problem name", OF this] 4 n show ?thesis
      by (auto simp: top suite_cons_bbob_get_problem_def)
  next
    case 5
    then obtain q where "coco_get_largescale_problem ?f ?d ?i = Inr q"
      using f bb(2) by (fastforce simp: table_functions_def)
    with 5 call [of coco_get_largescale_problem q] show ?thesis
      by (auto simp: top suite_largescale_get_problem_def)
  next
    case 6
    let ?get = "\<lambda>function dimension instance.
       coco_get_bbob_mixint_problem function dimension instance
         (if dimension < dim_large_scale then coco_get_bbob_problem else coco_get_largescale_problem)"
    have small: "?f \<le> 24" and m5: "?d mod 5 = 0" using 6 f d mod5_table by (auto simp: table_functions_def)
    have "\<exists>q. ?get ?f ?d ?i = Inr q"
      by (rule mixint_total [OF m5 f(1) small], rule get [OF f(1) small])
    then obtain q where "?get ?f ?d ?i = Inr q" by (rule exE)
    from call [of ?get, OF this] 6 show ?thesis by (auto simp: top suite_bbob_mixint_get_problem_def)
  next
    case 7
    let ?get = "\<lambda>function dimension instance.
       rbind (coco_get_biobj_mixint_problem objective_of function dimension instance
                (if dimension < dim_large_scale then coco_get_bbob_problem else coco_get_largescale_problem)
                (suite_data s) (number_of_instances s) (suite_dimensions s))
         (\<lambda>(p, new_inst_data). Inr p)"
    have small: "?f \<le> 92" and m5: "?d mod 5 = 0" and bi: "biobj_suite name"
      using 7 f d mod5_table by (auto simp: table_functions_def biobj_suite_def)
    have "\<exists>p. coco_get_biobj_mixint_problem objective_of ?f ?d ?i
        (if ?d < dim_large_scale then coco_get_bbob_problem else coco_get_largescale_problem)
        (suite_data s) (number_of_instances s) (suite_dimensions s) = Inr (p, suite_data s)"
      by (rule biobj_mixint_total [OF f(1) small i [OF bi] m5], rule get)
    then obtain p where "coco_get_biobj_mixint_problem objective_of ?f ?d ?i
        (if ?d < dim_large_scale then coco_get_bbob_problem else coco_get_largescale_problem)
        (suite_data s) (number_of_instances s) (suite_dimensions s) = Inr (p, suite_data s)" by (rule exE)
    then have "?get ?f ?d ?i = Inr p" by (simp only: rbind_simps prod.case)
    from call [of ?get, OF this] 7 show ?thesis by (auto simp: top suite_biobj_mixint_get_problem_def)
  qed
qed

section \<open>A complete run\<close>

text \<open>What a problem of the suite at a triple of indices carries.\<close>

definition problem_at :: "coco_suite \<Rightarrow> nat \<times> nat \<times> nat \<Rightarrow> coco_problem \<Rightarrow> bool" where
  "problem_at s t p \<longleftrightarrow> (case t of (d, f, i) \<Rightarrow>
     suite_dep_function p = suite_functions s ! f \<and> suite_dep_instance p = suite_instances s ! i
     \<and> suite_dep_index p = coco_suite_encode_problem_index s f d i)"

lemma after_run_remaining:
  assumes "suite_ok s" "same_items s t"
    "current_dimension_idx t = int (fst (first_triple s))"
    "current_function_idx t = int (fst (snd (first_triple s)))"
    "current_instance_idx t = int (snd (snd (first_triple s)))"
  shows "remaining t = tl (all_triples s)"
proof -
  obtain d ds where d: "positive_items (suite_dimensions s) = d # ds"
    using assms(1) by (cases "positive_items (suite_dimensions s)") (auto simp: suite_ok_def)
  obtain f fs where f: "positive_items (suite_functions s) = f # fs"
    using assms(1) by (cases "positive_items (suite_functions s)") (auto simp: suite_ok_def)
  obtain i "is" where i: "positive_items (suite_instances s) = i # is"
    using assms(1) by (cases "positive_items (suite_instances s)") (auto simp: suite_ok_def)
  show ?thesis
    using assms d f i later_items_Cons [OF _ d] later_items_Cons [OF _ f] later_items_Cons [OF _ i]
    by (simp add: remaining_def all_triples_def same_items_def first_triple_def)
qed

lemma run_constructed:
  assumes "coco_suite name inst opts = Inr (Some s)"
    and "biobj_suite name \<Longrightarrow> \<forall>i \<in> set (suite_instances s). i \<noteq> 0 \<longrightarrow> table_instance i"
  shows "\<exists>ps t. run_suite (Suc (length (all_triples s))) objective_of s = Inr (Some (ps, t))
    \<and> list_all2 (problem_at s) (all_triples s) ps \<and> suite_ok t \<and> remaining t = tl (all_triples s)"
proof -
  have ok: "at_start s" "counts_ok s" using coco_suite_ok [OF assms(1)] by auto
  then have sok: "suite_ok s" by (simp add: at_start_def)
  have con: "\<exists>p. coco_suite_get_problem_from_indices objective_of s f d i = Inr (Some p) \<and> problem_at s (d, f, i) p"
    if "(d, f, i) \<in> set (all_triples s)" for d f i
    using triple_constructible [of name s d f i objective_of] coco_suite_tables [OF assms(1)] assms(2) that
    by (auto simp: constructible_def problem_at_def)
  define get where "get = (\<lambda>(d, f, i). the (projr (coco_suite_get_problem_from_indices objective_of s f d i)))"
  have get: "coco_suite_get_problem_from_indices objective_of s f d i = Inr (Some (get (d, f, i)))
      \<and> problem_at s (d, f, i) (get (d, f, i))" if "(d, f, i) \<in> set (all_triples s)" for d f i
    using con [OF that] by (auto simp: get_def)
  have fuel: "length (remaining s) < Suc (length (all_triples s))" by (simp add: remaining_start [OF ok(1)])
  have "list_all2 (\<lambda>(d, f, i) p. coco_suite_get_problem_from_indices objective_of s f d i = Inr (Some p))
      (remaining s) (map get (all_triples s))"
    unfolding remaining_start [OF ok(1)] using get by (auto simp: list_all2_conv_all_nth split: prod.split dest!: nth_mem)
  from run_suite_spec [OF sok fuel this] obtain t where
    "run_suite (Suc (length (all_triples s))) objective_of s = Inr (Some (map get (all_triples s), t))"
    "suite_ok t" "same_items s t"
    "current_dimension_idx t = int (fst (first_triple s))"
    "current_function_idx t = int (fst (snd (first_triple s)))"
    "current_instance_idx t = int (snd (snd (first_triple s)))" by blast
  moreover have "list_all2 (problem_at s) (all_triples s) (map get (all_triples s))"
    using get by (auto simp: list_all2_conv_all_nth dest!: nth_mem) (metis prod_cases3)
  ultimately show ?thesis using after_run_remaining [OF sok] by blast
qed

lemma problem_indices:
  "list_all2 (problem_at s) ts ps \<Longrightarrow> map suite_dep_index ps = map (triple_index s) ts"
  by (induction ts ps rule: list_all2_induct) (auto simp: problem_at_def triple_index_def)

section \<open>Properties\<close>

text \<open>
  C1. A client that calls \<open>coco_suite_get_next_problem\<close> until it returns NULL gets, for every suite
  the constructor returns (bi-objective suites with the instances of the table), every problem that
  was not filtered out exactly once: the loop ends after one call more than there are such
  problems, no call fails, and the problems come by dimension, then function, then instance, with
  increasing problem index.
\<close>

theorem coco_suite_run_complete:
  assumes "coco_suite name inst opts = Inr (Some s)"
    and "biobj_suite name \<Longrightarrow> \<forall>i \<in> set (suite_instances s). i \<noteq> 0 \<longrightarrow> table_instance i"
  shows "\<exists>ps t. run_suite (Suc (length (all_triples s))) objective_of s = Inr (Some (ps, t))
    \<and> list_all2 (problem_at s) (all_triples s) ps
    \<and> sorted_wrt (<) (map suite_dep_index ps)
    \<and> set (all_triples s) = {(d, f, i). d < number_of_dimensions s \<and> suite_dimensions s ! d \<noteq> 0
         \<and> f < number_of_functions s \<and> suite_functions s ! f \<noteq> 0
         \<and> i < number_of_instances s \<and> suite_instances s ! i \<noteq> 0}"
proof -
  have ok: "suite_ok s" "counts_ok s" using coco_suite_ok [OF assms(1)] by (auto simp: at_start_def)
  have "sorted_wrt (<) (map suite_dep_index ps)" if "list_all2 (problem_at s) (all_triples s) ps" for ps
    using all_triples_increasing [OF ok] problem_indices [OF that] by (simp add: sorted_wrt_map)
  moreover have "number_of_dimensions s = length (suite_dimensions s)"
    "number_of_functions s = length (suite_functions s)" "number_of_instances s = length (suite_instances s)"
    using ok(1) by (auto simp: suite_ok_def)
  ultimately show ?thesis
    using run_constructed [OF assms, of objective_of] set_all_triples [of s] by auto
qed

definition toy_small :: coco_suite where
  "toy_small = \<lparr> suite_name = ''toy'', number_of_dimensions = 5, suite_dimensions = [2, 0, 5, 0, 0],
     number_of_functions = 6, suite_functions = [0, 0, 3, 4, 0, 0], number_of_instances = 3,
     default_instances = ''instances: 1'', suite_instances = [1, 2, 3], current_problem = None,
     current_dimension_idx = 0, current_function_idx = 2, current_instance_idx = - 1, suite_data = None \<rparr>"

lemma toy_small_constructed:
  "coco_suite ''toy'' (Some ''instances: 1-3'') (Some ''dimensions: 2,5 function_indices: 3-4'')
     = Inr (Some toy_small)"
  by code_simp

theorem coco_suite_run_complete_witness:
  "length (all_triples toy_small) = 12 \<and> (\<exists>ps t. run_suite 13 sample_objective toy_small = Inr (Some (ps, t)) \<and> length ps = 12)"
proof -
  have n: "length (all_triples toy_small) = 12" by code_simp
  have "\<not> biobj_suite ''toy''" by (simp add: biobj_suite_def)
  then obtain ps t where "run_suite (Suc (length (all_triples toy_small))) sample_objective toy_small = Inr (Some (ps, t))"
    "list_all2 (problem_at toy_small) (all_triples toy_small) ps"
    using coco_suite_run_complete [OF toy_small_constructed, of sample_objective] by blast
  with n show ?thesis by (auto simp: list_all2_lengthD)
qed

text \<open>
  After the iteration has returned NULL the suite stands on its first problem: a second
  iteration starts with the second problem and never returns the first one.
\<close>

theorem coco_suite_second_run_skips_first:
  assumes "coco_suite name inst opts = Inr (Some s)"
    and "biobj_suite name \<Longrightarrow> \<forall>i \<in> set (suite_instances s). i \<noteq> 0 \<longrightarrow> table_instance i"
    and "run_suite (Suc (length (all_triples s))) objective_of s = Inr (Some (ps, t))"
  shows "suite_ok t \<and> remaining s = all_triples s \<and> remaining t = tl (all_triples s)"
  using run_constructed [OF assms(1,2), of objective_of] assms(3) coco_suite_ok [OF assms(1)] remaining_start
  by auto

theorem coco_suite_second_run_skips_first_witness:
  "\<exists>ps t. run_suite 13 sample_objective toy_small = Inr (Some (ps, t)) \<and> length (remaining t) = 11"
proof -
  have n: "length (all_triples toy_small) = 12" by code_simp
  have b: "\<not> biobj_suite ''toy''" by (simp add: biobj_suite_def)
  then obtain ps t where r: "run_suite (Suc (length (all_triples toy_small))) sample_objective toy_small = Inr (Some (ps, t))"
    using run_constructed [OF toy_small_constructed, of sample_objective] by blast
  have "remaining t = tl (all_triples toy_small)"
    using coco_suite_second_run_skips_first [OF toy_small_constructed _ r] b by blast
  with r n show ?thesis by simp
qed

end
