(* ===== verification/Avl_Model.thy ===== *)
theory Avl_Model
  imports Coco_Prelude "HOL-Library.Monad_Syntax" "HOL-Library.Word"
begin

text \<open>
  The augmented AVL tree of \<open>native/coco.c\<close> (libavl, lines 33462 to 34470), as the code has it:
  nodes at addresses of a heap with pointers to the neighbours, the parent and the children, a count
  of 64 bits and a depth of 8 bits, and a tree with its top, head and tail pointers.

  A pointer is an address or NULL. Every operation takes the tree and returns the changed one in the
  option monad: None stands for undefined behaviour (NULL or a freed node is dereferenced or freed)
  and for a loop that does not end. The two mirrored halves of the C functions
  (\<open>avl_node_insert_before\<close> and \<open>avl_node_insert_after\<close>, the two cases of \<open>avl_rebalance\<close>) are one
  definition with the side as a parameter.

  Modelled is the configuration that is compiled: \<open>AVL_DEPTH\<close> and \<open>AVL_COUNT\<close> are both defined and
  the functions under \<open>!AVL_TREE_COMMENT_UNUSED\<close> are left out. \<open>allocator\<close> and \<open>userdata\<close> are NULL in
  every tree (\<open>avl_tree_init\<close> sets them and nothing changes them), so they are not fields of the
  record; \<open>malloc\<close> is a parameter, the pointer that it returns.
\<close>

section \<open>Nodes, trees and pointers\<close>

type_synonym addr = nat

type_synonym ptr = "addr option"

record 'a avl_node =
  n_prev :: ptr
  n_next :: ptr
  n_parent :: ptr
  n_left :: ptr
  n_right :: ptr
  n_item :: 'a
  n_count :: "64 word"
  n_depth :: "8 word"

type_synonym 'a heap = "addr \<Rightarrow> 'a avl_node option"

text \<open>
  \<open>frees\<close> says whether \<open>freeitem\<close> is not NULL; the handler's calls are recorded, in order, in
  \<open>freed_items\<close>.
\<close>

record 'a avl_tree =
  top :: ptr
  head :: ptr
  tail :: ptr
  cmpitem :: "'a \<Rightarrow> 'a \<Rightarrow> int"
  frees :: bool
  nodes :: "'a heap"
  freed_items :: "'a list"

datatype side = Lft | Rgt

fun opposite :: "side \<Rightarrow> side" where
  "opposite Lft = Rgt"
| "opposite Rgt = Lft"

fun child :: "side \<Rightarrow> 'a avl_node \<Rightarrow> ptr" where
  "child Lft n = n_left n"
| "child Rgt n = n_right n"

fun set_child :: "side \<Rightarrow> ptr \<Rightarrow> 'a avl_node \<Rightarrow> 'a avl_node" where
  "set_child Lft p n = n \<lparr> n_left := p \<rparr>"
| "set_child Rgt p n = n \<lparr> n_right := p \<rparr>"

text \<open>The neighbour on a side, \<open>prev\<close> or \<open>next\<close>, and the end of the list on a side.\<close>

fun link :: "side \<Rightarrow> 'a avl_node \<Rightarrow> ptr" where
  "link Lft n = n_prev n"
| "link Rgt n = n_next n"

fun set_link :: "side \<Rightarrow> ptr \<Rightarrow> 'a avl_node \<Rightarrow> 'a avl_node" where
  "set_link Lft p n = n \<lparr> n_prev := p \<rparr>"
| "set_link Rgt p n = n \<lparr> n_next := p \<rparr>"

fun list_end :: "side \<Rightarrow> 'a avl_tree \<Rightarrow> ptr" where
  "list_end Lft t = head t"
| "list_end Rgt t = tail t"

fun set_list_end :: "side \<Rightarrow> ptr \<Rightarrow> 'a avl_tree \<Rightarrow> 'a avl_tree" where
  "set_list_end Lft p t = t \<lparr> head := p \<rparr>"
| "set_list_end Rgt p t = t \<lparr> tail := p \<rparr>"

text \<open>Reading and writing the node behind a pointer.\<close>

definition deref :: "'a avl_tree \<Rightarrow> ptr \<Rightarrow> 'a avl_node option" where
  "deref t p = Option.bind p (nodes t)"

definition put :: "ptr \<Rightarrow> ('a avl_node \<Rightarrow> 'a avl_node) \<Rightarrow> 'a avl_tree \<Rightarrow> 'a avl_tree option" where
  "put p f t = (case p of None \<Rightarrow> None
    | Some a \<Rightarrow> (case nodes t a of None \<Rightarrow> None
        | Some n \<Rightarrow> Some (t \<lparr> nodes := (nodes t)(a \<mapsto> f n) \<rparr>)))"

text \<open>The statement \<open>if (p) p->field = v;\<close>\<close>

definition put_if :: "ptr \<Rightarrow> ('a avl_node \<Rightarrow> 'a avl_node) \<Rightarrow> 'a avl_tree \<Rightarrow> 'a avl_tree option" where
  "put_if p f t = (if p = None then Some t else put p f t)"

text \<open>
  The pointer \<open>superparent\<close> to the field that points to a node: \<open>top\<close> of the tree, or a child field
  of a node.
\<close>

datatype slot = Top_field | Child_field side ptr

fun store :: "slot \<Rightarrow> ptr \<Rightarrow> 'a avl_tree \<Rightarrow> 'a avl_tree option" where
  "store Top_field v t = Some (t \<lparr> top := v \<rparr>)"
| "store (Child_field d p) v t = put p (set_child d v) t"

definition superparent :: "'a avl_tree \<Rightarrow> ptr \<Rightarrow> ptr \<Rightarrow> slot option" where
  "superparent t avlnode parent =
    (if parent = None then Some Top_field
     else do {
       n \<leftarrow> deref t parent;
       Some (Child_field (if avlnode = n_left n then Lft else Rgt) parent)
     })"

section \<open>Counts, depths and the balance\<close>

definition AVL_NODE_COUNT :: "'a avl_tree \<Rightarrow> ptr \<Rightarrow> (64 word) option" where
  "AVL_NODE_COUNT t p = (if p = None then Some 0 else map_option n_count (deref t p))"

definition AVL_NODE_DEPTH :: "'a avl_tree \<Rightarrow> ptr \<Rightarrow> (8 word) option" where
  "AVL_NODE_DEPTH t p = (if p = None then Some 0 else map_option n_depth (deref t p))"

text \<open>\<open>n->count = AVL_CALC_COUNT(n)\<close> and \<open>n->depth = AVL_CALC_DEPTH(n)\<close>\<close>

definition set_count :: "ptr \<Rightarrow> 'a avl_tree \<Rightarrow> 'a avl_tree option" where
  "set_count p t = do {
     n \<leftarrow> deref t p;
     cl \<leftarrow> AVL_NODE_COUNT t (n_left n);
     cr \<leftarrow> AVL_NODE_COUNT t (n_right n);
     put p (\<lambda>n. n \<lparr> n_count := cl + cr + 1 \<rparr>) t }"

definition set_depth :: "ptr \<Rightarrow> 'a avl_tree \<Rightarrow> 'a avl_tree option" where
  "set_depth p t = do {
     n \<leftarrow> deref t p;
     dl \<leftarrow> AVL_NODE_DEPTH t (n_left n);
     dr \<leftarrow> AVL_NODE_DEPTH t (n_right n);
     put p (\<lambda>n. n \<lparr> n_depth := word_of_nat ((if unat dl > unat dr then unat dl else unat dr) + 1) \<rparr>) t }"

definition avl_check_balance :: "'a avl_tree \<Rightarrow> ptr \<Rightarrow> int option" where
  "avl_check_balance t p = do {
     n \<leftarrow> deref t p;
     dr \<leftarrow> AVL_NODE_DEPTH t (n_right n);
     dl \<leftarrow> AVL_NODE_DEPTH t (n_left n);
     (let d = uint dr - uint dl in Some (if d < - 1 then - 1 else if d > 1 then 1 else 0)) }"

definition avl_count :: "'a avl_tree option \<Rightarrow> (64 word) option" where
  "avl_count avltree = (case avltree of None \<Rightarrow> Some 0 | Some t \<Rightarrow> AVL_NODE_COUNT t (top t))"

section \<open>Rebalancing\<close>

text \<open>
  A single rotation: the child on side \<open>d\<close> takes the place of the node; the pointer \<open>sp\<close> is the
  field that pointed to the node, \<open>parent\<close> the node's parent.
\<close>

definition rotate_single ::
    "side \<Rightarrow> ptr \<Rightarrow> ptr \<Rightarrow> ptr \<Rightarrow> slot \<Rightarrow> 'a avl_tree \<Rightarrow> 'a avl_tree option" where
  "rotate_single d avlnode chld parent sp t = do {
     c \<leftarrow> deref t chld;
     t \<leftarrow> put avlnode (set_child d (child (opposite d) c)) t;
     t \<leftarrow> put_if (child (opposite d) c) (\<lambda>n. n \<lparr> n_parent := avlnode \<rparr>) t;
     t \<leftarrow> put chld (set_child (opposite d) avlnode) t;
     t \<leftarrow> put avlnode (\<lambda>n. n \<lparr> n_parent := chld \<rparr>) t;
     t \<leftarrow> store sp chld t;
     t \<leftarrow> put chld (\<lambda>n. n \<lparr> n_parent := parent \<rparr>) t;
     t \<leftarrow> set_count avlnode t;
     t \<leftarrow> set_count chld t;
     t \<leftarrow> set_depth avlnode t;
     set_depth chld t }"

text \<open>A double rotation: the inner grandchild takes the place of the node.\<close>

definition rotate_double ::
    "side \<Rightarrow> ptr \<Rightarrow> ptr \<Rightarrow> ptr \<Rightarrow> slot \<Rightarrow> 'a avl_tree \<Rightarrow> 'a avl_tree option" where
  "rotate_double d avlnode chld parent sp t = do {
     c \<leftarrow> deref t chld;
     (let gchild = child (opposite d) c in do {
       g \<leftarrow> deref t gchild;
       t \<leftarrow> put avlnode (set_child d (child (opposite d) g)) t;
       t \<leftarrow> put_if (child (opposite d) g) (\<lambda>n. n \<lparr> n_parent := avlnode \<rparr>) t;
       t \<leftarrow> put chld (set_child (opposite d) (child d g)) t;
       t \<leftarrow> put_if (child d g) (\<lambda>n. n \<lparr> n_parent := chld \<rparr>) t;
       t \<leftarrow> put gchild (set_child (opposite d) avlnode) t;
       t \<leftarrow> put_if avlnode (\<lambda>n. n \<lparr> n_parent := gchild \<rparr>) t;
       t \<leftarrow> put gchild (set_child d chld) t;
       t \<leftarrow> put_if chld (\<lambda>n. n \<lparr> n_parent := gchild \<rparr>) t;
       t \<leftarrow> store sp gchild t;
       t \<leftarrow> put gchild (\<lambda>n. n \<lparr> n_parent := parent \<rparr>) t;
       t \<leftarrow> set_count avlnode t;
       t \<leftarrow> set_count chld t;
       t \<leftarrow> set_count gchild t;
       t \<leftarrow> set_depth avlnode t;
       t \<leftarrow> set_depth chld t;
       set_depth gchild t }) }"

text \<open>The case of the switch for a node whose subtree on side \<open>d\<close> is too deep.\<close>

definition rebalance_side :: "side \<Rightarrow> ptr \<Rightarrow> ptr \<Rightarrow> slot \<Rightarrow> 'a avl_tree \<Rightarrow> 'a avl_tree option" where
  "rebalance_side d avlnode parent sp t = do {
     n \<leftarrow> deref t avlnode;
     (let chld = child d n in do {
       c \<leftarrow> deref t chld;
       outer \<leftarrow> AVL_NODE_DEPTH t (child d c);
       inner \<leftarrow> AVL_NODE_DEPTH t (child (opposite d) c);
       (if unat outer \<ge> unat inner then rotate_single d avlnode chld parent sp t
        else rotate_double d avlnode chld parent sp t) }) }"

text \<open>One round of the loop of \<open>avl_rebalance\<close>, for a node with the given parent.\<close>

definition rebalance_step :: "ptr \<Rightarrow> ptr \<Rightarrow> 'a avl_tree \<Rightarrow> 'a avl_tree option" where
  "rebalance_step avlnode parent t = do {
     sp \<leftarrow> superparent t avlnode parent;
     b \<leftarrow> avl_check_balance t avlnode;
     (if b = - 1 then rebalance_side Lft avlnode parent sp t
      else if b = 1 then rebalance_side Rgt avlnode parent sp t
      else do {
        t \<leftarrow> set_count avlnode t;
        set_depth avlnode t }) }"

partial_function (option) avl_rebalance :: "'a avl_tree \<Rightarrow> ptr \<Rightarrow> 'a avl_tree option" where
  "avl_rebalance t avlnode = (if avlnode = None then Some t
    else do {
      n \<leftarrow> deref t avlnode;
      t \<leftarrow> rebalance_step avlnode (n_parent n) t;
      avl_rebalance t (n_parent n) })"

declare avl_rebalance.simps [code]

end
