(* ===== verification/Avl_Operations.thy ===== *)
theory Avl_Operations
  imports Avl_Model
begin

text \<open>
  The operations of the AVL tree of \<open>native/coco.c\<close>: searching, inserting, unlinking and deleting
  nodes, and setting up and purging a tree.
\<close>

section \<open>Searching\<close>

text \<open>The comparison of an item with the item of a node.\<close>

definition compare_node :: "'a avl_tree \<Rightarrow> 'a \<Rightarrow> ptr \<Rightarrow> int option" where
  "compare_node t item p = map_option (\<lambda>n. cmpitem t item (n_item n)) (deref t p)"

text \<open>
  \<open>avl_search_rightmost_equal\<close>: its two inner loops, which go down on the right and on the left
  side, are one loop that leaves each of them the way the code does: after an equal node the search
  goes on at its right child and remembers it, after another one at its left child.
\<close>

partial_function (option) rightmost_equal_loop ::
    "'a avl_tree \<Rightarrow> 'a \<Rightarrow> side \<Rightarrow> ptr \<Rightarrow> ptr \<Rightarrow> ptr option" where
  "rightmost_equal_loop t item d node r = do {
     n \<leftarrow> deref t node;
     (if child d n = None then Some r
      else do {
        c \<leftarrow> compare_node t item (child d n);
        (if c = 0 then rightmost_equal_loop t item Rgt (child d n) (child d n)
         else rightmost_equal_loop t item Lft (child d n) r) }) }"

declare rightmost_equal_loop.simps [code]

definition avl_search_rightmost_equal :: "'a avl_tree \<Rightarrow> ptr \<Rightarrow> 'a \<Rightarrow> ptr option" where
  "avl_search_rightmost_equal t node item = rightmost_equal_loop t item Rgt node node"

text \<open>The result of a search: the node and the value of \<open>exact\<close>.\<close>

partial_function (option) rightish_loop :: "'a avl_tree \<Rightarrow> 'a \<Rightarrow> ptr \<Rightarrow> (ptr \<times> bool) option" where
  "rightish_loop t item node = do {
     n \<leftarrow> deref t node;
     c \<leftarrow> compare_node t item node;
     (if c < 0 then
        (if n_left n \<noteq> None then rightish_loop t item (n_left n) else Some (n_prev n, False))
      else if c > 0 then
        (if n_right n \<noteq> None then rightish_loop t item (n_right n) else Some (node, False))
      else Some (node, True)) }"

declare rightish_loop.simps [code]

definition avl_search_rightish :: "'a avl_tree \<Rightarrow> 'a \<Rightarrow> (ptr \<times> bool) option" where
  "avl_search_rightish t item =
    (if top t = None then Some (None, False) else rightish_loop t item (top t))"

definition avl_item_search_right :: "'a avl_tree \<Rightarrow> 'a \<Rightarrow> (ptr \<times> bool) option" where
  "avl_item_search_right t item = do {
     r \<leftarrow> avl_search_rightish t item;
     (case r of (node, exact) \<Rightarrow>
        if exact then do { m \<leftarrow> avl_search_rightmost_equal t node item; Some (m, exact) }
        else Some (node, exact)) }"

definition avl_item_search :: "'a avl_tree \<Rightarrow> 'a \<Rightarrow> ptr option" where
  "avl_item_search t item = do {
     r \<leftarrow> avl_search_rightish t item;
     (case r of (n, c) \<Rightarrow> Some (if c then n else None)) }"

section \<open>Setting up a tree\<close>

definition avl_tree_init :: "('a \<Rightarrow> 'a \<Rightarrow> int) \<Rightarrow> bool \<Rightarrow> 'a avl_tree" where
  "avl_tree_init cmp free_item = \<lparr> top = None, head = None, tail = None, cmpitem = cmp, frees = free_item,
     nodes = (\<lambda>_. None), freed_items = [] \<rparr>"

definition avl_tree_clear :: "'a avl_tree \<Rightarrow> 'a avl_tree" where
  "avl_tree_clear t = t \<lparr> top := None, head := None, tail := None \<rparr>"

text \<open>Freeing a node that is not allocated is undefined behaviour.\<close>

definition avl_node_free :: "ptr \<Rightarrow> 'a avl_tree \<Rightarrow> 'a avl_tree option" where
  "avl_node_free p t = (case p of None \<Rightarrow> Some t
    | Some a \<Rightarrow> if nodes t a = None then None else Some (t \<lparr> nodes := (nodes t)(a := None) \<rparr>))"

definition free_item :: "'a \<Rightarrow> 'a avl_tree \<Rightarrow> 'a avl_tree" where
  "free_item x t = (if frees t then t \<lparr> freed_items := freed_items t @ [x] \<rparr> else t)"

partial_function (option) purge_loop :: "'a avl_tree \<Rightarrow> ptr \<Rightarrow> 'a avl_tree option" where
  "purge_loop t node = (if node = None then Some t
    else do {
      n \<leftarrow> deref t node;
      t \<leftarrow> avl_node_free node (free_item (n_item n) t);
      purge_loop t (n_next n) })"

declare purge_loop.simps [code]

definition avl_tree_purge :: "'a avl_tree \<Rightarrow> 'a avl_tree option" where
  "avl_tree_purge t = do { t \<leftarrow> purge_loop t (head t); Some (avl_tree_clear t) }"

section \<open>Inserting a node\<close>

definition avl_node_clear :: "ptr \<Rightarrow> 'a avl_tree \<Rightarrow> 'a avl_tree option" where
  "avl_node_clear p t = put p (\<lambda>n. n \<lparr> n_left := None, n_right := None, n_count := 1, n_depth := 1 \<rparr>) t"

text \<open>
  A node from \<open>malloc\<close> with its item (\<open>avl_alloc\<close> with \<open>avl_node_init\<close>). Its other fields are
  indeterminate in C; they are 0 here, and all of them are assigned before they are read.
\<close>

definition avl_alloc :: "ptr \<Rightarrow> 'a \<Rightarrow> 'a avl_tree \<Rightarrow> 'a avl_tree" where
  "avl_alloc m item t = (case m of None \<Rightarrow> t
    | Some b \<Rightarrow> t \<lparr> nodes := (nodes t)(b \<mapsto> \<lparr> n_prev = None, n_next = None, n_parent = None,
        n_left = None, n_right = None, n_item = item, n_count = 0, n_depth = 0 \<rparr>) \<rparr>)"

definition avl_insert_top :: "'a avl_tree \<Rightarrow> ptr \<Rightarrow> 'a avl_tree option" where
  "avl_insert_top t newnode = do {
     t \<leftarrow> avl_node_clear newnode t;
     t \<leftarrow> put newnode (\<lambda>n. n \<lparr> n_prev := None, n_next := None, n_parent := None \<rparr>) t;
     Some (t \<lparr> head := newnode, tail := newnode, top := newnode \<rparr>) }"

text \<open>
  Linking a new node beside a node that has no child on side \<open>d\<close>: before it for \<open>Lft\<close>, after it for
  \<open>Rgt\<close>.
\<close>

definition attach :: "side \<Rightarrow> 'a avl_tree \<Rightarrow> ptr \<Rightarrow> ptr \<Rightarrow> 'a avl_tree option" where
  "attach d t node newnode = do {
     t \<leftarrow> avl_node_clear newnode t;
     t \<leftarrow> put newnode (set_link (opposite d) node) t;
     t \<leftarrow> put newnode (\<lambda>n. n \<lparr> n_parent := node \<rparr>) t;
     n \<leftarrow> deref t node;
     t \<leftarrow> put newnode (set_link d (link d n)) t;
     t \<leftarrow> (if link d n \<noteq> None then put (link d n) (set_link (opposite d) newnode) t
            else Some (set_list_end d newnode t));
     t \<leftarrow> put node (set_link d newnode) t;
     t \<leftarrow> put node (set_child d newnode) t;
     avl_rebalance t node }"

text \<open>
  \<open>avl_node_insert_before\<close> (\<open>Lft\<close>) and \<open>avl_node_insert_after\<close> (\<open>Rgt\<close>) call each other: with NULL
  the new node goes to the far end, and beside a node with a child on the side it goes to the other
  side of the neighbour. Both return the new node.
\<close>

partial_function (option) insert_beside :: "side \<Rightarrow> 'a avl_tree \<Rightarrow> ptr \<Rightarrow> ptr \<Rightarrow> 'a avl_tree option" where
  "insert_beside d t node newnode =
    (if node = None then
       (if list_end (opposite d) t \<noteq> None then insert_beside (opposite d) t (list_end (opposite d) t) newnode
        else avl_insert_top t newnode)
     else do {
       n \<leftarrow> deref t node;
       (if child d n \<noteq> None then insert_beside (opposite d) t (link d n) newnode
        else attach d t node newnode) })"

declare insert_beside.simps [code]

definition avl_node_insert_before :: "'a avl_tree \<Rightarrow> ptr \<Rightarrow> ptr \<Rightarrow> ('a avl_tree \<times> ptr) option" where
  "avl_node_insert_before t node newnode =
    (if newnode = None then Some (t, None)
     else do { t \<leftarrow> insert_beside Lft t node newnode; Some (t, newnode) })"

definition avl_node_insert_after :: "'a avl_tree \<Rightarrow> ptr \<Rightarrow> ptr \<Rightarrow> ('a avl_tree \<times> ptr) option" where
  "avl_node_insert_after t node newnode =
    (if newnode = None then Some (t, None)
     else do { t \<leftarrow> insert_beside Rgt t node newnode; Some (t, newnode) })"

definition avl_node_insert :: "'a avl_tree \<Rightarrow> ptr \<Rightarrow> ('a avl_tree \<times> ptr) option" where
  "avl_node_insert t newnode = do {
     n \<leftarrow> deref t newnode;
     r \<leftarrow> avl_search_rightish t (n_item n);
     (case r of (node, c) \<Rightarrow> if c then Some (t, None) else avl_node_insert_after t node newnode) }"

text \<open>The pointer \<open>m\<close> is the result of \<open>malloc\<close>; NULL is returned when it is NULL.\<close>

definition avl_item_insert :: "'a avl_tree \<Rightarrow> ptr \<Rightarrow> 'a \<Rightarrow> ('a avl_tree \<times> ptr) option" where
  "avl_item_insert t m item =
    (let newnode = m; t = avl_alloc m item t in
     if newnode = None then Some (t, None)
     else do {
       r \<leftarrow> avl_node_insert t newnode;
       (case r of (t, p) \<Rightarrow>
          if p \<noteq> None then Some (t, newnode)
          else do { t \<leftarrow> avl_node_free newnode t; Some (t, None) }) })"

section \<open>Unlinking and deleting a node\<close>

text \<open>The node is taken out of the list of neighbours.\<close>

definition unlink_neighbours :: "ptr \<Rightarrow> 'a avl_tree \<Rightarrow> 'a avl_tree option" where
  "unlink_neighbours avlnode t = do {
     n \<leftarrow> deref t avlnode;
     t \<leftarrow> (if n_prev n \<noteq> None then put (n_prev n) (\<lambda>m. m \<lparr> n_next := n_next n \<rparr>) t
            else Some (t \<lparr> head := n_next n \<rparr>));
     n \<leftarrow> deref t avlnode;
     (if n_next n \<noteq> None then put (n_next n) (\<lambda>m. m \<lparr> n_prev := n_prev n \<rparr>) t
      else Some (t \<lparr> tail := n_prev n \<rparr>)) }"

text \<open>
  The substitute \<open>subst\<close>, the node's predecessor, is the last node of its left subtree: it is taken
  out of there, unless it is the left child itself. The result has the node at which rebalancing
  starts.
\<close>

definition detach_subst :: "ptr \<Rightarrow> ptr \<Rightarrow> 'a avl_tree \<Rightarrow> ('a avl_tree \<times> ptr) option" where
  "detach_subst subst left t =
    (if subst = left then Some (t, subst)
     else do {
       s \<leftarrow> deref t subst;
       (let balnode = n_parent s in do {
          t \<leftarrow> put balnode (set_child Rgt (n_left s)) t;
          t \<leftarrow> put_if (n_left s) (\<lambda>n. n \<lparr> n_parent := balnode \<rparr>) t;
          t \<leftarrow> put subst (set_child Lft left) t;
          t \<leftarrow> put left (\<lambda>n. n \<lparr> n_parent := subst \<rparr>) t;
          Some (t, balnode) }) })"

definition unlink_children :: "ptr \<Rightarrow> 'a avl_tree \<Rightarrow> ('a avl_tree \<times> ptr) option" where
  "unlink_children avlnode t = do {
     n \<leftarrow> deref t avlnode;
     (let parent = n_parent n; left = n_left n; right = n_right n in do {
        sp \<leftarrow> superparent t avlnode parent;
        (if left = None then do {
           t \<leftarrow> store sp right t;
           t \<leftarrow> put_if right (\<lambda>n. n \<lparr> n_parent := parent \<rparr>) t;
           Some (t, parent) }
         else if right = None then do {
           t \<leftarrow> store sp left t;
           t \<leftarrow> put left (\<lambda>n. n \<lparr> n_parent := parent \<rparr>) t;
           Some (t, parent) }
         else (let subst = n_prev n in do {
           r \<leftarrow> detach_subst subst left t;
           (case r of (t, balnode) \<Rightarrow> do {
              t \<leftarrow> put subst (set_child Rgt right) t;
              t \<leftarrow> put subst (\<lambda>n. n \<lparr> n_parent := parent \<rparr>) t;
              t \<leftarrow> put right (\<lambda>n. n \<lparr> n_parent := subst \<rparr>) t;
              t \<leftarrow> store sp subst t;
              Some (t, balnode) }) })) }) }"

definition avl_node_unlink :: "'a avl_tree \<Rightarrow> ptr \<Rightarrow> 'a avl_tree option" where
  "avl_node_unlink t avlnode = (if avlnode = None then Some t
    else do {
      t \<leftarrow> unlink_neighbours avlnode t;
      r \<leftarrow> unlink_children avlnode t;
      (case r of (t, balnode) \<Rightarrow> avl_rebalance t balnode) })"

text \<open>The result is the item of the node, or NULL.\<close>

definition avl_node_delete :: "'a avl_tree \<Rightarrow> ptr \<Rightarrow> ('a avl_tree \<times> 'a option) option" where
  "avl_node_delete t avlnode = (if avlnode = None then Some (t, None)
    else do {
      n \<leftarrow> deref t avlnode;
      t \<leftarrow> avl_node_unlink t avlnode;
      t \<leftarrow> avl_node_free avlnode (free_item (n_item n) t);
      Some (t, Some (n_item n)) })"

definition avl_item_delete :: "'a avl_tree \<Rightarrow> 'a \<Rightarrow> ('a avl_tree \<times> 'a option) option" where
  "avl_item_delete t item = do {
     p \<leftarrow> avl_item_search t item;
     avl_node_delete t p }"

end
