(* ===== verification/Avl_Shape.thy ===== *)
theory Avl_Shape
  imports Avl_Operations "HOL-Library.Tree"
begin

text \<open>
  The binary tree that a heap of AVL nodes stands for, and the tree with a hole around a node.

  \<open>shape h p t\<close> says that the nodes of the tree \<open>t\<close> of addresses lie in the heap \<open>h\<close> with the right
  child and parent pointers, counts and depths, the root's parent being \<open>p\<close>; \<open>surrounds\<close> says the
  same of the part of the tree above a subtree, where the counts and depths may be out of date.
\<close>

section \<open>Trees with a side\<close>

fun rootp :: "addr tree \<Rightarrow> ptr" where
  "rootp \<langle>\<rangle> = None"
| "rootp \<langle>l, a, r\<rangle> = Some a"

text \<open>The node \<open>a\<close> with the subtree \<open>t\<close> on side \<open>d\<close> and \<open>u\<close> on the other side.\<close>

fun node_on :: "side \<Rightarrow> 'b tree \<Rightarrow> 'b \<Rightarrow> 'b tree \<Rightarrow> 'b tree" where
  "node_on Lft t a u = \<langle>t, a, u\<rangle>"
| "node_on Rgt t a u = \<langle>u, a, t\<rangle>"

lemma opposite_opposite [simp]: "opposite (opposite d) = d"
  by (cases d) simp_all

lemma rootp_node_on [simp]: "rootp (node_on d t a u) = Some a"
  by (cases d) simp_all

lemma node_on_simps [simp]:
  "size (node_on d t b u) = size t + size u + 1"
  "height (node_on d t b u) = max (height t) (height u) + 1"
  "set_tree (node_on d t b u) = insert b (set_tree t \<union> set_tree u)"
  "node_on d t b u \<noteq> \<langle>\<rangle>"
  by (cases d; auto)+

lemma node_on_cases: "t \<noteq> \<langle>\<rangle> \<Longrightarrow> \<exists>x a y. t = node_on d x a y"
  by (cases t; cases d) auto

lemma rootp_None [simp]: "rootp t = None \<longleftrightarrow> t = \<langle>\<rangle>" "None = rootp t \<longleftrightarrow> t = \<langle>\<rangle>"
  by (cases t; simp)+

lemma rootp_in: "rootp t = Some a \<Longrightarrow> a \<in> set_tree t"
  by (cases t) auto

lemma finite_set_tree: "finite (set_tree t)"
  by simp

section \<open>The shape of a subtree\<close>

fun shape :: "'a heap \<Rightarrow> ptr \<Rightarrow> addr tree \<Rightarrow> bool" where
  "shape h p \<langle>\<rangle> \<longleftrightarrow> True"
| "shape h p \<langle>l, a, r\<rangle> \<longleftrightarrow> (\<exists>n. h a = Some n \<and> n_parent n = p \<and> n_left n = rootp l \<and> n_right n = rootp r
     \<and> n_count n = of_nat (size l + size r + 1) \<and> unat (n_depth n) = max (height l) (height r) + 1)
     \<and> shape h (Some a) l \<and> shape h (Some a) r"

lemma shape_node_on [simp]:
  "shape h p (node_on d t a u) \<longleftrightarrow> (\<exists>n. h a = Some n \<and> n_parent n = p \<and> child d n = rootp t
     \<and> child (opposite d) n = rootp u \<and> n_count n = of_nat (size t + size u + 1)
     \<and> unat (n_depth n) = max (height t) (height u) + 1) \<and> shape h (Some a) t \<and> shape h (Some a) u"
  by (cases d) (auto simp: max.commute add.commute)

text \<open>The fields of a node that the shape of the tree depends on\<close>

definition struct :: "'a avl_node \<Rightarrow> ptr \<times> ptr \<times> ptr \<times> 64 word \<times> 8 word" where
  "struct n = (n_parent n, n_left n, n_right n, n_count n, n_depth n)"

lemma shape_struct:
  "\<forall>b \<in> set_tree t. map_option struct (h' b) = map_option struct (h b) \<Longrightarrow> shape h p t \<Longrightarrow> shape h' p t"
proof (induction t arbitrary: p)
  case (Node l a r)
  from Node.prems(2) obtain n where n: "h a = Some n" by auto
  have "map_option struct (h' a) = map_option struct (h a)" using Node.prems(1) by simp
  with n obtain m where m: "h' a = Some m" "struct m = struct n" by auto
  have "shape h' (Some a) l" "shape h' (Some a) r" using Node by simp_all
  with n m Node.prems(2) show ?case by (simp add: struct_def)
qed simp

lemma shape_frame: "\<forall>b \<in> set_tree t. h' b = h b \<Longrightarrow> shape h' p t = shape h p t"
  by (induction t arbitrary: p) auto

lemma shape_upd [simp]: "b \<notin> set_tree t \<Longrightarrow> shape (h(b := v)) p t = shape h p t"
  by (rule shape_frame) auto

lemma shape_defined: "shape h p t \<Longrightarrow> a \<in> set_tree t \<Longrightarrow> \<exists>n. h a = Some n"
  by (induction t arbitrary: p) auto

text \<open>The tree around a hole: for every node above it, the side of the hole and the other subtree.\<close>

type_synonym surroundings = "(side \<times> addr \<times> addr tree) list"

fun plug :: "addr tree \<Rightarrow> surroundings \<Rightarrow> addr tree" where
  "plug t [] = t"
| "plug t ((d, a, u) # ctx) = plug (node_on d t a u) ctx"

fun around :: "surroundings \<Rightarrow> addr set" where
  "around [] = {}"
| "around ((d, a, u) # ctx) = insert a (set_tree u \<union> around ctx)"

text \<open>
  \<open>surrounds h tp r p ctx\<close>: the tree with top pointer \<open>tp\<close> continues above a subtree with root pointer
  \<open>r\<close> and parent \<open>p\<close> as described by \<open>ctx\<close>.
\<close>

fun surrounds :: "'a heap \<Rightarrow> ptr \<Rightarrow> ptr \<Rightarrow> ptr \<Rightarrow> surroundings \<Rightarrow> bool" where
  "surrounds h tp r p [] \<longleftrightarrow> tp = r \<and> p = None"
| "surrounds h tp r p ((d, a, u) # ctx) \<longleftrightarrow> p = Some a \<and> (\<exists>n. h a = Some n \<and> child d n = r
     \<and> child (opposite d) n = rootp u \<and> surrounds h tp (Some a) (n_parent n) ctx) \<and> shape h (Some a) u"

lemma plug_append [simp]: "plug t (c @ c') = plug (plug t c) c'"
  by (induction c arbitrary: t) auto

lemma set_plug [simp]: "set_tree (plug t ctx) = set_tree t \<union> around ctx"
  by (induction ctx arbitrary: t) auto

lemma around_append [simp]: "around (c @ c') = around c \<union> around c'"
  by (induction c) auto

lemma surrounds_frame:
  "\<forall>b \<in> around ctx. h' b = h b \<Longrightarrow> surrounds h' tp r p ctx = surrounds h tp r p ctx"
proof (induction ctx arbitrary: r p)
  case (Cons x ctx)
  obtain d a u where x: "x = (d, a, u)" by (cases x)
  have "shape h' (Some a) u = shape h (Some a) u" using Cons.prems x by (intro shape_frame) simp
  moreover have "surrounds h' tp (Some a) q ctx = surrounds h tp (Some a) q ctx" for q
    using Cons.prems x by (intro Cons.IH) simp
  ultimately show ?case using Cons.prems x by simp
qed simp

lemma surrounds_struct:
  "\<forall>b \<in> around ctx. map_option struct (h' b) = map_option struct (h b) \<Longrightarrow>
     surrounds h tp r p ctx \<Longrightarrow> surrounds h' tp r p ctx"
proof (induction ctx arbitrary: r p)
  case (Cons x ctx)
  obtain d a u where x: "x = (d, a, u)" by (cases x)
  from Cons.prems(2) x obtain n where p: "p = Some a" and n: "h a = Some n" "child d n = r"
    "child (opposite d) n = rootp u" "surrounds h tp (Some a) (n_parent n) ctx" and u: "shape h (Some a) u"
    by auto
  obtain m where m: "h' a = Some m" "struct m = struct n" using Cons.prems(1) n x by force
  have "child d m = r" "child (opposite d) m = rootp u" "n_parent m = n_parent n"
    using m(2) n by (cases d; simp add: struct_def)+
  moreover have "shape h' (Some a) u"
    using u Cons.prems(1) x by (intro shape_struct [of u h' h]) simp_all
  moreover have "surrounds h' tp (Some a) (n_parent n) ctx" using Cons n x by simp
  ultimately show ?case using p x m(1) by simp
qed simp

lemma surrounds_upd [simp]:
  "b \<notin> around ctx \<Longrightarrow> surrounds (h(b := v)) tp r p ctx = surrounds h tp r p ctx"
  by (rule surrounds_frame) auto

text \<open>Splitting and joining: the whole tree has a shape when the subtree has and the rest surrounds it.\<close>

text \<open>The positions left and right of the hole in the symmetric order.\<close>

fun lefts :: "surroundings \<Rightarrow> addr list" where
  "lefts [] = []"
| "lefts ((Lft, a, u) # ctx) = lefts ctx"
| "lefts ((Rgt, a, u) # ctx) = lefts ctx @ inorder u @ [a]"

fun rights :: "surroundings \<Rightarrow> addr list" where
  "rights [] = []"
| "rights ((Lft, a, u) # ctx) = a # inorder u @ rights ctx"
| "rights ((Rgt, a, u) # ctx) = rights ctx"

lemma inorder_plug [simp]: "inorder (plug t ctx) = lefts ctx @ inorder t @ rights ctx"
proof (induction ctx arbitrary: t)
  case (Cons x ctx)
  obtain d a u where "x = (d, a, u)" by (cases x)
  with Cons show ?case by (cases d) simp_all
qed simp

lemma lefts_append [simp]: "lefts (c @ c') = lefts c' @ lefts c"
  by (induction c rule: lefts.induct) simp_all

lemma rights_append [simp]: "rights (c @ c') = rights c @ rights c'"
  by (induction c rule: rights.induct) simp_all

lemma set_lefts_rights: "set (lefts ctx) \<union> set (rights ctx) = around ctx"
  by (induction ctx rule: lefts.induct) auto

text \<open>Every node of a tree has its place: a subtree of which it is the root, and what surrounds it.\<close>

lemma place_of: "a \<in> set_tree t \<Longrightarrow> \<exists>l r ctx. t = plug \<langle>l, a, r\<rangle> ctx"
proof (induction t)
  case (Node l b r)
  then consider "a = b" | "a \<in> set_tree l" | "a \<in> set_tree r" by auto
  then show ?case
  proof cases
    case 1
    then have "\<langle>l, b, r\<rangle> = plug \<langle>l, a, r\<rangle> []" by simp
    then show ?thesis by blast
  next
    case 2
    with Node.IH obtain l' r' ctx where "l = plug \<langle>l', a, r'\<rangle> ctx" by blast
    then have "\<langle>l, b, r\<rangle> = plug \<langle>l', a, r'\<rangle> (ctx @ [(Lft, b, r)])" by simp
    then show ?thesis by blast
  next
    case 3
    with Node.IH obtain l' r' ctx where "r = plug \<langle>l', a, r'\<rangle> ctx" by blast
    then have "\<langle>l, b, r\<rangle> = plug \<langle>l', a, r'\<rangle> (ctx @ [(Rgt, b, l)])" by simp
    then show ?thesis by blast
  qed
qed simp

text \<open>A tree in the heap is a subtree in the heap together with its surroundings.\<close>

lemma shape_plug:
  "shape h None (plug t ctx) \<and> tp = rootp (plug t ctx) \<Longrightarrow>
     \<exists>p. shape h p t \<and> surrounds h tp (rootp t) p ctx"
proof (induction ctx arbitrary: t)
  case (Cons x ctx)
  obtain d a u where x: "x = (d, a, u)" by (cases x)
  from Cons.prems x have "shape h None (plug (node_on d t a u) ctx) \<and> tp = rootp (plug (node_on d t a u) ctx)"
    by simp
  from Cons.IH [OF this] x show ?case by auto
qed simp

end
