(* ===== verification/Avl_Rotations.thy ===== *)
theory Avl_Rotations
  imports Avl_Shape
begin

text \<open>
  The two rotations of \<open>avl_rebalance\<close> on the heap: each gives the rotated tree its shape and changes
  no node outside of it except for the field that points to it.
\<close>

section \<open>Primitive steps\<close>

lemma deref_simps [simp]: "deref s (Some a) = nodes s a" "deref s None = None"
  by (simp_all add: deref_def)

lemma put_Some [simp]:
  "nodes s a = Some n \<Longrightarrow> put (Some a) f s = Some (s \<lparr> nodes := (nodes s)(a \<mapsto> f n) \<rparr>)"
  by (simp add: put_def)

lemma put_if_simps [simp]:
  "put_if None f s = Some s"
  "put_if (Some a) f s = put (Some a) f s"
  by (simp_all add: put_if_def)

lemma child_set_child [simp]:
  "child d (set_child d p n) = p"
  "child (opposite d) (set_child d p n) = child (opposite d) n"
  "child d (set_child (opposite d) p n) = child d n"
  by (cases d; simp)+

lemma fields_set_child [simp]:
  "n_prev (set_child d p n) = n_prev n" "n_next (set_child d p n) = n_next n"
  "n_parent (set_child d p n) = n_parent n" "n_item (set_child d p n) = n_item n"
  "n_count (set_child d p n) = n_count n" "n_depth (set_child d p n) = n_depth n"
  by (cases d; simp)+

lemma child_update [simp]:
  "child d (n \<lparr> n_parent := q \<rparr>) = child d n"
  "child d (n \<lparr> n_count := k \<rparr>) = child d n"
  "child d (n \<lparr> n_depth := e \<rparr>) = child d n"
  "child d (n \<lparr> n_prev := q \<rparr>) = child d n"
  "child d (n \<lparr> n_next := q \<rparr>) = child d n"
  by (cases d; simp)+

text \<open>Counts and depths of subtrees\<close>

lemma count_of_shape: "shape (nodes s) p t \<Longrightarrow> AVL_NODE_COUNT s (rootp t) = Some (of_nat (size t))"
  by (cases t) (auto simp: AVL_NODE_COUNT_def)

lemma depth_of_shape:
  "shape (nodes s) p t \<Longrightarrow> \<exists>e. AVL_NODE_DEPTH s (rootp t) = Some e \<and> unat e = height t"
  by (cases t) (auto simp: AVL_NODE_DEPTH_def)

lemma set_count_sides:
  assumes "nodes s a = Some n"
    and "AVL_NODE_COUNT s (child d n) = Some (of_nat i)"
    and "AVL_NODE_COUNT s (child (opposite d) n) = Some (of_nat j)"
  shows "set_count (Some a) s = Some (s \<lparr> nodes := (nodes s)(a \<mapsto> n \<lparr> n_count := of_nat (i + j + 1) \<rparr>) \<rparr>)"
  using assms by (cases d) (simp_all add: set_count_def add.commute add.left_commute)

lemma set_depth_sides:
  assumes "nodes s a = Some n"
    and "\<exists>e. AVL_NODE_DEPTH s (child d n) = Some e \<and> unat e = i"
    and "\<exists>e. AVL_NODE_DEPTH s (child (opposite d) n) = Some e \<and> unat e = j"
  shows "set_depth (Some a) s = Some (s \<lparr> nodes := (nodes s)(a \<mapsto> n \<lparr> n_depth := of_nat (max i j + 1) \<rparr>) \<rparr>)"
proof -
  have m: "(if i > j then i else j) = max i j" "(if j > i then j else i) = max i j" by auto
  show ?thesis using assms m by (cases d) (auto simp: set_depth_def)
qed

text \<open>What a store through \<open>superparent\<close> does\<close>

fun slot_addr :: "slot \<Rightarrow> addr set" where
  "slot_addr (Child_field e (Some b)) = {b}"
| "slot_addr sp = {}"

fun slot_valid :: "slot \<Rightarrow> 'a heap \<Rightarrow> bool" where
  "slot_valid Top_field h \<longleftrightarrow> True"
| "slot_valid (Child_field e None) h \<longleftrightarrow> False"
| "slot_valid (Child_field e (Some b)) h \<longleftrightarrow> h b \<noteq> None"

fun slot_top :: "slot \<Rightarrow> ptr \<Rightarrow> ptr \<Rightarrow> ptr" where
  "slot_top Top_field v tp = v"
| "slot_top (Child_field e q) v tp = tp"

fun slot_heap :: "slot \<Rightarrow> ptr \<Rightarrow> 'a heap \<Rightarrow> 'a heap" where
  "slot_heap (Child_field e (Some b)) v h = h(b := map_option (set_child e v) (h b))"
| "slot_heap sp v h = h"

lemma store_eq [simp]:
  "slot_valid sp (nodes s) \<Longrightarrow>
     store sp v s = Some (s \<lparr> top := slot_top sp v (top s), nodes := slot_heap sp v (nodes s) \<rparr>)"
  by (cases "(sp, v, nodes s)" rule: slot_heap.cases) (auto simp: put_def)

lemma slot_valid_dom: "(\<And>b. b \<in> slot_addr sp \<Longrightarrow> h' b = None \<longleftrightarrow> h b = None) \<Longrightarrow> slot_valid sp h' = slot_valid sp h"
  by (cases sp rule: slot_addr.cases) auto

lemma slot_heap_other [simp]: "b \<notin> slot_addr sp \<Longrightarrow> slot_heap sp v h b = h b"
  by (cases sp rule: slot_addr.cases) auto

lemma slot_heap_cong: "h b = h' b \<Longrightarrow> slot_heap sp v h b = slot_heap sp v h' b"
  by (cases sp rule: slot_addr.cases) auto

lemma shape_slot_heap [simp]:
  "set_tree t \<inter> slot_addr sp = {} \<Longrightarrow> shape (slot_heap sp v h) p t = shape h p t"
  by (rule shape_frame) (auto intro!: slot_heap_other)

text \<open>What \<open>if (x) x->parent = q;\<close> does\<close>

definition adopt :: "ptr \<Rightarrow> ptr \<Rightarrow> 'a heap \<Rightarrow> 'a heap" where
  "adopt r q h = (case r of None \<Rightarrow> h | Some b \<Rightarrow> h(b := map_option (\<lambda>n. n \<lparr> n_parent := q \<rparr>) (h b)))"

lemma put_if_adopt [simp]:
  "shape (nodes s) p t \<Longrightarrow>
     put_if (rootp t) (\<lambda>n. n \<lparr> n_parent := q \<rparr>) s = Some (s \<lparr> nodes := adopt (rootp t) q (nodes s) \<rparr>)"
  by (cases t) (auto simp: adopt_def)

lemma adopt_other [simp]: "b \<notin> set_tree t \<Longrightarrow> adopt (rootp t) q h b = h b"
  by (cases t) (auto simp: adopt_def)

lemma adopt_None: "adopt r q h b = None \<longleftrightarrow> h b = None"
  by (auto simp: adopt_def split: option.splits)

lemma shape_adopt [simp]:
  "shape h p t \<Longrightarrow> distinct (inorder t) \<Longrightarrow> shape (adopt (rootp t) q h) q t"
  by (cases t) (auto simp: adopt_def)

lemma shape_adopt_other [simp]:
  "set_tree t \<inter> set_tree u = {} \<Longrightarrow> shape (adopt (rootp t) q h) p u = shape h p u"
  by (rule shape_frame) (auto intro!: adopt_other)

section \<open>The rotations\<close>

text \<open>
  The heap after a round of the loop: the subtree \<open>t\<close> hangs at the field \<open>sp\<close>, and outside of its
  nodes \<open>A\<close> only that field has changed.
\<close>

definition round_ok ::
    "'a avl_tree \<Rightarrow> 'a avl_tree \<Rightarrow> slot \<Rightarrow> addr set \<Rightarrow> ptr \<Rightarrow> addr tree \<Rightarrow> bool" where
  "round_ok s s' sp A p t \<longleftrightarrow> shape (nodes s') p t \<and> top s' = slot_top sp (rootp t) (top s)
     \<and> (\<forall>b. b \<notin> A \<longrightarrow> nodes s' b = slot_heap sp (rootp t) (nodes s) b)"

lemma unat_depth: "k < 256 \<Longrightarrow> unat (word_of_nat k :: 8 word) = k"
  by (simp add: unat_of_nat)

lemma rotate_single_shape:
  assumes a: "nodes s a = Some na" "child d na = Some c" "child (opposite d) na = rootp z"
    and c: "nodes s c = Some nc" "child d nc = rootp x" "child (opposite d) nc = rootp y"
    and sh: "shape (nodes s) (Some c) x" "shape (nodes s) (Some c) y" "shape (nodes s) (Some a) z"
    and dist: "a \<noteq> c" "a \<notin> set_tree x" "a \<notin> set_tree y" "a \<notin> set_tree z"
      "c \<notin> set_tree x" "c \<notin> set_tree y" "c \<notin> set_tree z"
      "set_tree y \<inter> set_tree x = {}" "set_tree y \<inter> set_tree z = {}" "distinct (inorder y)"
    and sp: "slot_valid sp (nodes s)" "a \<notin> slot_addr sp" "c \<notin> slot_addr sp" "set_tree x \<inter> slot_addr sp = {}"
      "set_tree y \<inter> slot_addr sp = {}" "set_tree z \<inter> slot_addr sp = {}"
    and H: "max (height x) (max (height y) (height z) + 1) + 1 < 256"
  shows "\<exists>s'. rotate_single d (Some a) (Some c) p sp s = Some s'
    \<and> round_ok s s' sp ({a, c} \<union> set_tree x \<union> set_tree y \<union> set_tree z) p (node_on d x c (node_on d y a z))"
proof -
  define na' where "na' = set_child d (rootp y) na \<lparr> n_parent := Some c \<rparr>"
  define nc' where "nc' = set_child (opposite d) (Some a) nc \<lparr> n_parent := p \<rparr>"
  define h where "h = (slot_heap sp (Some c) ((adopt (rootp y) (Some a) ((nodes s)
     (a \<mapsto> set_child d (rootp y) na)))(c \<mapsto> set_child (opposite d) (Some a) nc, a \<mapsto> na')))(c \<mapsto> nc')"
  define s2 where "s2 = s \<lparr> top := slot_top sp (Some c) (top s), nodes := h \<rparr>"
  have v: "slot_valid sp ((adopt (rootp y) (Some a) ((nodes s)
     (a \<mapsto> set_child d (rootp y) na)))(c \<mapsto> set_child (opposite d) (Some a) nc, a \<mapsto> na'))"
    using sp by (subst slot_valid_dom [where h = "nodes s"]) (auto simp: adopt_None)
  have run: "rotate_single d (Some a) (Some c) p sp s = do {
     t \<leftarrow> set_count (Some a) s2;
     t \<leftarrow> set_count (Some c) t;
     t \<leftarrow> set_depth (Some a) t;
     set_depth (Some c) t }"
    using a c sh dist sp v unfolding rotate_single_def s2_def h_def
    by (simp add: na'_def nc'_def)
  have h: "h a = Some na'" "h c = Some nc'" using dist sp by (simp_all add: h_def)
  have shx: "shape h (Some c) x" and shy: "shape h (Some a) y" and shz: "shape h (Some a) z"
    using sh dist sp by (simp_all add: h_def Int_commute)
  define i where "i = size y + size z + 1"
  define k where "k = max (height y) (height z) + 1"
  define m where "m = max (height x) k + 1"
  have km: "unat (word_of_nat k :: 8 word) = k" "unat (word_of_nat m :: 8 word) = m"
    using H by (auto intro!: unat_depth simp: k_def m_def simp del: of_nat_Suc of_nat_add)
  define na2 where "na2 = na' \<lparr> n_count := of_nat i \<rparr>"
  define nc2 where "nc2 = nc' \<lparr> n_count := of_nat (size x + i + 1) \<rparr>"
  define na3 where "na3 = na2 \<lparr> n_depth := of_nat k \<rparr>"
  define nc3 where "nc3 = nc2 \<lparr> n_depth := of_nat m \<rparr>"
  note cnt = count_of_shape depth_of_shape
  have r1: "set_count (Some a) s2 = Some (s2 \<lparr> nodes := h(a \<mapsto> na2) \<rparr>)"
    unfolding na2_def i_def
    using h shy shz a(3) by (subst set_count_sides [where n = na' and d = d and i = "size y" and j = "size z"])
      (auto simp: s2_def na'_def intro!: cnt)
  have r2: "set_count (Some c) (s2 \<lparr> nodes := h(a \<mapsto> na2) \<rparr>) = Some (s2 \<lparr> nodes := h(a \<mapsto> na2, c \<mapsto> nc2) \<rparr>)"
    unfolding nc2_def
    using h shx c dist by (subst set_count_sides [where n = nc' and d = d and i = "size x" and j = i])
      (auto simp: s2_def nc'_def na2_def AVL_NODE_COUNT_def [where p = "Some a"] intro!: cnt [where p = "Some c"])
  have r3: "set_depth (Some a) (s2 \<lparr> nodes := h(a \<mapsto> na2, c \<mapsto> nc2) \<rparr>)
      = Some (s2 \<lparr> nodes := h(a \<mapsto> na3, c \<mapsto> nc2) \<rparr>)"
    unfolding na3_def k_def
    using h shy shz a(3) dist by (subst set_depth_sides [where n = na2 and d = d and i = "height y" and j = "height z"])
      (auto simp: s2_def na'_def na2_def fun_upd_twist intro!: cnt)
  have r4: "set_depth (Some c) (s2 \<lparr> nodes := h(a \<mapsto> na3, c \<mapsto> nc2) \<rparr>)
      = Some (s2 \<lparr> nodes := h(a \<mapsto> na3, c \<mapsto> nc3) \<rparr>)"
    unfolding nc3_def m_def
    using h shx c dist by (subst set_depth_sides [where n = nc2 and d = d and i = "height x"
        and j = k])
      (auto simp: s2_def nc'_def nc2_def na3_def AVL_NODE_DEPTH_def [where p = "Some a"] km
        intro!: cnt [where p = "Some c"])
  define s' where "s' = s2 \<lparr> nodes := h(a \<mapsto> na3, c \<mapsto> nc3) \<rparr>"
  have "rotate_single d (Some a) (Some c) p sp s = Some s'"
    unfolding run r1 by (simp add: r2 r3 r4 s'_def)
  moreover have "shape (nodes s') p (node_on d x c (node_on d y a z))"
    using shx shy shz dist a c km
    by (simp add: s'_def na3_def nc3_def na2_def nc2_def na'_def nc'_def i_def k_def m_def)
  moreover have "top s' = slot_top sp (Some c) (top s)"
    by (simp add: s'_def s2_def)
  moreover have "nodes s' b = slot_heap sp (Some c) (nodes s) b"
    if "b \<notin> {a, c} \<union> set_tree x \<union> set_tree y \<union> set_tree z" for b
    using that by (simp add: s'_def h_def) (rule slot_heap_cong, simp)
  ultimately show ?thesis unfolding round_ok_def rootp_node_on by blast
qed
lemma rotate_double_shape:
  assumes a: "nodes s a = Some na" "child d na = Some c" "child (opposite d) na = rootp z"
    and c: "nodes s c = Some nc" "child d nc = rootp x" "child (opposite d) nc = Some g"
    and g: "nodes s g = Some ng" "child d ng = rootp y" "child (opposite d) ng = rootp w"
    and sh: "shape (nodes s) (Some c) x" "shape (nodes s) (Some g) y" "shape (nodes s) (Some g) w"
      "shape (nodes s) (Some a) z"
    and dist: "a \<noteq> c" "a \<noteq> g" "c \<noteq> g" "a \<notin> set_tree x" "a \<notin> set_tree y" "a \<notin> set_tree w" "a \<notin> set_tree z"
      "c \<notin> set_tree x" "c \<notin> set_tree y" "c \<notin> set_tree w" "c \<notin> set_tree z"
      "g \<notin> set_tree x" "g \<notin> set_tree y" "g \<notin> set_tree w" "g \<notin> set_tree z"
      "set_tree y \<inter> set_tree x = {}" "set_tree w \<inter> set_tree x = {}" "set_tree y \<inter> set_tree z = {}"
      "set_tree w \<inter> set_tree z = {}" "set_tree w \<inter> set_tree y = {}" "set_tree y \<inter> set_tree w = {}"
      "distinct (inorder y)" "distinct (inorder w)"
    and sp: "slot_valid sp (nodes s)" "a \<notin> slot_addr sp" "c \<notin> slot_addr sp" "g \<notin> slot_addr sp"
      "set_tree x \<inter> slot_addr sp = {}" "set_tree y \<inter> slot_addr sp = {}" "set_tree w \<inter> slot_addr sp = {}"
      "set_tree z \<inter> slot_addr sp = {}"
    and H: "max (height x) (max (height y) (max (height w) (height z))) + 2 < 256"
  shows "\<exists>s'. rotate_double d (Some a) (Some c) p sp s = Some s'
    \<and> round_ok s s' sp ({a, c, g} \<union> set_tree x \<union> set_tree y \<union> set_tree w \<union> set_tree z) p
        (node_on d (node_on d x c y) g (node_on d w a z))"
proof -
  define na' where "na' = set_child d (rootp w) na \<lparr> n_parent := Some g \<rparr>"
  define nc' where "nc' = set_child (opposite d) (rootp y) nc \<lparr> n_parent := Some g \<rparr>"
  define ng1 where "ng1 = set_child d (Some c) (set_child (opposite d) (Some a) ng)"
  define ng' where "ng' = ng1 \<lparr> n_parent := p \<rparr>"
  define h1 where "h1 = (adopt (rootp y) (Some c) ((adopt (rootp w) (Some a) ((nodes s)
     (a \<mapsto> set_child d (rootp w) na)))(c \<mapsto> set_child (opposite d) (rootp y) nc)))(a \<mapsto> na', g \<mapsto> ng1, c \<mapsto> nc')"
  define h where "h = (slot_heap sp (Some g) h1)(g \<mapsto> ng')"
  define s2 where "s2 = s \<lparr> top := slot_top sp (Some g) (top s), nodes := h \<rparr>"
  have v: "slot_valid sp h1"
    using sp unfolding h1_def by (subst slot_valid_dom [where h = "nodes s"]) (auto simp: adopt_None)
  have run: "rotate_double d (Some a) (Some c) p sp s = do {
     t \<leftarrow> set_count (Some a) s2;
     t \<leftarrow> set_count (Some c) t;
     t \<leftarrow> set_count (Some g) t;
     t \<leftarrow> set_depth (Some a) t;
     t \<leftarrow> set_depth (Some c) t;
     set_depth (Some g) t }"
    using a c g sh dist sp v unfolding rotate_double_def s2_def h_def h1_def
    by (simp add: na'_def nc'_def ng'_def ng1_def fun_upd_twist Let_def)
  have h: "h a = Some na'" "h c = Some nc'" "h g = Some ng'" using dist sp by (simp_all add: h_def h1_def)
  have shx: "shape h (Some c) x" and shy: "shape h (Some c) y" and shw: "shape h (Some a) w"
    and shz: "shape h (Some a) z"
    using sh dist sp by (simp_all add: h_def h1_def Int_commute)
  define i where "i = size w + size z + 1"
  define j where "j = size x + size y + 1"
  define k where "k = max (height w) (height z) + 1"
  define l where "l = max (height x) (height y) + 1"
  define m where "m = max l k + 1"
  have km: "unat (word_of_nat k :: 8 word) = k" "unat (word_of_nat l :: 8 word) = l" "unat (word_of_nat m :: 8 word) = m"
    using H by (auto intro!: unat_depth simp: k_def l_def m_def simp del: of_nat_Suc of_nat_add)
  define na2 where "na2 = na' \<lparr> n_count := of_nat i \<rparr>"
  define nc2 where "nc2 = nc' \<lparr> n_count := of_nat j \<rparr>"
  define ng2 where "ng2 = ng' \<lparr> n_count := of_nat (j + i + 1) \<rparr>"
  define na3 where "na3 = na2 \<lparr> n_depth := of_nat k \<rparr>"
  define nc3 where "nc3 = nc2 \<lparr> n_depth := of_nat l \<rparr>"
  define ng3 where "ng3 = ng2 \<lparr> n_depth := of_nat m \<rparr>"
  note cnt = count_of_shape depth_of_shape
  have ch: "child d na' = rootp w" "child (opposite d) na' = rootp z" "child d nc' = rootp x"
    "child (opposite d) nc' = rootp y" "child d ng' = Some c" "child (opposite d) ng' = Some a"
    using a c g by (simp_all add: na'_def nc'_def ng'_def ng1_def)
  have r1: "set_count (Some a) s2 = Some (s2 \<lparr> nodes := h(a \<mapsto> na2) \<rparr>)"
    unfolding na2_def i_def
    using h shw shz ch by (subst set_count_sides [where n = na' and d = d and i = "size w" and j = "size z"])
      (auto simp: s2_def intro!: cnt)
  have r2: "set_count (Some c) (s2 \<lparr> nodes := h(a \<mapsto> na2) \<rparr>) = Some (s2 \<lparr> nodes := h(a \<mapsto> na2, c \<mapsto> nc2) \<rparr>)"
    unfolding nc2_def j_def
    using h shx shy ch dist by (subst set_count_sides [where n = nc' and d = d and i = "size x" and j = "size y"])
      (auto simp: s2_def intro!: cnt [where p = "Some c"])
  have r3: "set_count (Some g) (s2 \<lparr> nodes := h(a \<mapsto> na2, c \<mapsto> nc2) \<rparr>)
      = Some (s2 \<lparr> nodes := h(a \<mapsto> na2, c \<mapsto> nc2, g \<mapsto> ng2) \<rparr>)"
    unfolding ng2_def
    using h ch dist by (subst set_count_sides [where n = ng' and d = d and i = j and j = i])
      (auto simp: s2_def na2_def nc2_def AVL_NODE_COUNT_def)
  have r4: "set_depth (Some a) (s2 \<lparr> nodes := h(a \<mapsto> na2, c \<mapsto> nc2, g \<mapsto> ng2) \<rparr>)
      = Some (s2 \<lparr> nodes := h(a \<mapsto> na3, c \<mapsto> nc2, g \<mapsto> ng2) \<rparr>)"
    unfolding na3_def k_def
    using h shw shz ch dist by (subst set_depth_sides [where n = na2 and d = d and i = "height w" and j = "height z"])
      (auto simp: s2_def na2_def fun_upd_twist intro!: cnt)
  have r5: "set_depth (Some c) (s2 \<lparr> nodes := h(a \<mapsto> na3, c \<mapsto> nc2, g \<mapsto> ng2) \<rparr>)
      = Some (s2 \<lparr> nodes := h(a \<mapsto> na3, c \<mapsto> nc3, g \<mapsto> ng2) \<rparr>)"
    unfolding nc3_def l_def
    using h shx shy ch dist by (subst set_depth_sides [where n = nc2 and d = d and i = "height x" and j = "height y"])
      (auto simp: s2_def nc2_def fun_upd_twist intro!: cnt [where p = "Some c"])
  have r6: "set_depth (Some g) (s2 \<lparr> nodes := h(a \<mapsto> na3, c \<mapsto> nc3, g \<mapsto> ng2) \<rparr>)
      = Some (s2 \<lparr> nodes := h(a \<mapsto> na3, c \<mapsto> nc3, g \<mapsto> ng3) \<rparr>)"
    unfolding ng3_def m_def
    using h ch dist km by (subst set_depth_sides [where n = ng2 and d = d and i = l and j = k])
      (auto simp: s2_def ng2_def na3_def nc3_def AVL_NODE_DEPTH_def)
  define s' where "s' = s2 \<lparr> nodes := h(a \<mapsto> na3, c \<mapsto> nc3, g \<mapsto> ng3) \<rparr>"
  have "rotate_double d (Some a) (Some c) p sp s = Some s'"
    unfolding run r1 by (simp add: r2 r3 r4 r5 r6 s'_def)
  moreover have "shape (nodes s') p (node_on d (node_on d x c y) g (node_on d w a z))"
    using shx shy shw shz dist ch km
    by (simp add: s'_def na3_def nc3_def ng3_def na2_def nc2_def ng2_def i_def j_def k_def l_def m_def)
      (simp add: na'_def nc'_def ng'_def)
  moreover have "top s' = slot_top sp (Some g) (top s)"
    by (simp add: s'_def s2_def)
  moreover have "nodes s' b = slot_heap sp (Some g) (nodes s) b"
    if "b \<notin> {a, c, g} \<union> set_tree x \<union> set_tree y \<union> set_tree w \<union> set_tree z" for b
    using that by (simp add: s'_def h_def) (rule slot_heap_cong, simp add: h1_def)
  ultimately show ?thesis unfolding round_ok_def rootp_node_on by blast
qed
end
