(* ===== verification/Avl_Balance.thy ===== *)
theory Avl_Balance
  imports Avl_Shape
begin

text \<open>
  The abstract counterpart of \<open>avl_rebalance\<close>: balancing one node and all nodes above it, and the
  facts on AVL trees that make it correct.
\<close>

fun avl :: "'b tree \<Rightarrow> bool" where
  "avl \<langle>\<rangle> \<longleftrightarrow> True"
| "avl \<langle>l, a, r\<rangle> \<longleftrightarrow> avl l \<and> avl r \<and> height l \<le> height r + 1 \<and> height r \<le> height l + 1"

lemma avl_node_on [simp]:
  "avl (node_on d t a u) \<longleftrightarrow> avl t \<and> avl u \<and> height t \<le> height u + 1 \<and> height u \<le> height t + 1"
  by (cases d) auto

fun parts :: "side \<Rightarrow> 'b tree \<Rightarrow> 'b tree \<times> 'b \<times> 'b tree" where
  "parts Lft \<langle>l, a, r\<rangle> = (l, a, r)"
| "parts Rgt \<langle>l, a, r\<rangle> = (r, a, l)"
| "parts d \<langle>\<rangle> = undefined"

lemma parts_node_on [simp]: "parts d (node_on d t a u) = (t, a, u)"
  by (cases d) simp_all

lemma parts_node_on_opposite [simp]: "parts d (node_on (opposite d) t a u) = (u, a, t)"
  by (cases d) simp_all

text \<open>The rotation of a node \<open>a\<close> whose subtree \<open>t\<close> on side \<open>d\<close> is too deep.\<close>

definition rot :: "side \<Rightarrow> 'b tree \<Rightarrow> 'b \<Rightarrow> 'b tree \<Rightarrow> 'b tree" where
  "rot d t a z = (case parts d t of (x, c, v) \<Rightarrow>
     if height v \<le> height x then node_on d x c (node_on d v a z)
     else (case parts d v of (y, g, w) \<Rightarrow> node_on d (node_on d x c y) g (node_on d w a z)))"

definition bal :: "side \<Rightarrow> 'b tree \<Rightarrow> 'b \<Rightarrow> 'b tree \<Rightarrow> 'b tree" where
  "bal d t a u = (if height t > height u + 1 then rot d t a u
     else if height u > height t + 1 then rot (opposite d) u a t else node_on d t a u)"

fun rebuild :: "addr tree \<Rightarrow> surroundings \<Rightarrow> addr tree" where
  "rebuild t [] = t"
| "rebuild t ((d, a, u) # ctx) = rebuild (bal d t a u) ctx"

text \<open>A subtree that is too deep has the grandchild that the rotation lifts.\<close>

lemma rot_cases:
  assumes "avl t" and "avl z" and "height t = height z + 2"
  obtains (single) x c v where "t = node_on d x c v" "height v \<le> height x" "height x = height z + 1"
      "height z \<le> height v" "rot d t a z = node_on d x c (node_on d v a z)"
  | (double) x c y g w where "t = node_on d x c (node_on d y g w)" "height x = height z"
      "max (height y) (height w) = height z" "height z \<le> height y + 1" "height z \<le> height w + 1"
      "avl y" "avl w"
      "rot d t a z = node_on d (node_on d x c y) g (node_on d w a z)"
proof -
  obtain x c v where t: "t = node_on d x c v" using assms(3) node_on_cases [of t d] by fastforce
  show ?thesis
  proof (cases "height v \<le> height x")
    case True
    with single t assms show ?thesis by (auto simp: rot_def)
  next
    case False
    then obtain y g w where v: "v = node_on d y g w" using node_on_cases [of v d] by fastforce
    with double t False assms show ?thesis by (auto simp: rot_def)
  qed
qed

lemma rot_correct:
  assumes "avl t" and "avl z" and "height t = height z + 2"
  shows "avl (rot d t a z)" "height (rot d t a z) = height t \<or> height (rot d t a z) = height t + 1"
    "inorder (rot d t a z) = inorder (node_on d t a z)"
  by (rule rot_cases [OF assms, of d a]; use assms in \<open>cases d; force\<close>)+

text \<open>Balancing keeps the symmetric order and, for subtrees that differ by at most 2, gives an AVL tree.\<close>

lemma bal_correct:
  assumes "avl t" "avl u" "height t \<le> height u + 2" "height u \<le> height t + 2"
  shows "avl (bal d t a u)" "inorder (bal d t a u) = inorder (node_on d t a u)"
    "max (height t) (height u) \<le> height (bal d t a u)"
    "height (bal d t a u) \<le> max (height t) (height u) + 1"
    "height t \<le> height u + 1 \<Longrightarrow> height u \<le> height t + 1 \<Longrightarrow>
       height (bal d t a u) = max (height t) (height u) + 1"
proof -
  consider "height t = height u + 2" | "height u = height t + 2"
    | "height t \<le> height u + 1" "height u \<le> height t + 1" using assms by linarith
  then have "avl (bal d t a u) \<and> inorder (bal d t a u) = inorder (node_on d t a u)
    \<and> max (height t) (height u) \<le> height (bal d t a u) \<and> height (bal d t a u) \<le> max (height t) (height u) + 1
    \<and> (height t \<le> height u + 1 \<longrightarrow> height u \<le> height t + 1 \<longrightarrow>
       height (bal d t a u) = max (height t) (height u) + 1)"
  proof cases
    case 1
    with rot_correct [OF assms(1,2) 1, of d a] show ?thesis by (auto simp: bal_def)
  next
    case 2
    have "inorder (node_on (opposite d) u a t) = inorder (node_on d t a u)" by (cases d) simp_all
    with 2 rot_correct [OF assms(2,1) 2, of "opposite d" a] show ?thesis by (auto simp: bal_def)
  next
    case 3
    then have "bal d t a u = node_on d t a u" by (simp add: bal_def)
    with 3 assms show ?thesis unfolding node_on_simps avl_node_on by auto
  qed
  then show "avl (bal d t a u)" "inorder (bal d t a u) = inorder (node_on d t a u)"
    "max (height t) (height u) \<le> height (bal d t a u)"
    "height (bal d t a u) \<le> max (height t) (height u) + 1"
    "height t \<le> height u + 1 \<Longrightarrow> height u \<le> height t + 1 \<Longrightarrow>
       height (bal d t a u) = max (height t) (height u) + 1" by blast+
qed

text \<open>
  A subtree in an AVL tree may be replaced by an AVL tree that is by at most one higher or lower:
  rebuilding the nodes above gives an AVL tree.
\<close>

lemma avl_plug_subtree: "avl (plug t ctx) \<Longrightarrow> avl t"
  by (induction t ctx rule: plug.induct) auto

lemma avl_plug_cong: "avl t = avl t' \<Longrightarrow> height t = height t' \<Longrightarrow> avl (plug t ctx) = avl (plug t' ctx)"
proof (induction ctx arbitrary: t t')
  case (Cons x ctx)
  obtain d a u where "x = (d, a, u)" by (cases x)
  with Cons show ?case by simp
qed simp

lemma bal_step:
  assumes "avl (node_on d t0 a u)" and "avl t" and "height t \<le> height t0 + 1" and "height t0 \<le> height t + 1"
  shows "height t \<le> height u + 2" "height u \<le> height t + 2" "avl (bal d t a u)"
    "height (bal d t a u) \<le> height (node_on d t0 a u) + 1"
    "height (node_on d t0 a u) \<le> height (bal d t a u) + 1"
proof -
  show h: "height t \<le> height u + 2" "height u \<le> height t + 2" using assms by auto
  have u: "avl u" using assms by simp
  note b = bal_correct [OF assms(2) u h, of d a]
  show "avl (bal d t a u)" by (rule b(1))
  show "height (bal d t a u) \<le> height (node_on d t0 a u) + 1"
    using b(4) assms(3) unfolding node_on_simps by linarith
  show "height (node_on d t0 a u) \<le> height (bal d t a u) + 1"
  proof (cases "height t \<le> height u + 1 \<and> height u \<le> height t + 1")
    case True
    then show ?thesis using b(5) assms(4) unfolding node_on_simps by linarith
  next
    case False
    have "height t0 \<le> height u + 1" "height u \<le> height t0 + 1" using assms(1) by auto
    with False show ?thesis using b(3) assms(3,4) unfolding node_on_simps max_def by (auto split: if_splits)
  qed
qed

lemma rebuild_correct:
  assumes "avl (plug t0 ctx)" and "avl t" and "height t \<le> height t0 + 1" and "height t0 \<le> height t + 1"
  shows "avl (rebuild t ctx) \<and> inorder (rebuild t ctx) = inorder (plug t ctx)"
  using assms
proof (induction ctx arbitrary: t t0)
  case (Cons x ctx)
  obtain d a u where x: "x = (d, a, u)" by (cases x)
  have n: "avl (node_on d t0 a u)" using Cons.prems(1) x avl_plug_subtree [of "node_on d t0 a u" ctx] by simp
  note s = bal_step [OF n Cons.prems(2-4)]
  have "inorder (bal d t a u) = inorder (node_on d t a u)"
    using bal_correct(2) [OF Cons.prems(2) _ s(1,2)] n by simp
  with Cons.IH [OF _ s(3-5)] Cons.prems(1) x show ?case by simp
qed simp

section \<open>The depth fits into 8 bits\<close>

lemma avl_height: "avl t \<Longrightarrow> 2 ^ height t \<le> (size t + 1) ^ 2"
proof (induction t)
  case (Node l a r)
  let ?m = "max (height l) (height r)" and ?x = "size l + 1" and ?y = "size r + 1"
  have lr: "2 ^ height l \<le> ?x ^ 2" "2 ^ height r \<le> ?y ^ 2" using Node by auto
  have "2 ^ ?m \<le> ?x ^ 2 + ?y ^ 2 + 2 * ?x * ?y \<and> 2 * 2 ^ ?m \<le> ?x ^ 2 + ?y ^ 2 + 2 * ?x * ?y"
  proof -
    define k where "k = min (height l) (height r)"
    have k: "?m \<le> k + 1" "k \<le> height l" "k \<le> height r" using Node.prems by (auto simp: k_def)
    have p: "(2::nat) ^ k \<le> ?x ^ 2" "(2::nat) ^ k \<le> ?y ^ 2"
      using lr k(2,3) power_increasing [of k _ "2::nat"] by (meson le_trans one_le_numeral)+
    have "2 ^ k \<le> ?x * ?y"
    proof (cases "?x \<le> ?y")
      case True
      then have "?x ^ 2 \<le> ?x * ?y" unfolding power2_eq_square by (rule mult_le_mono2)
      with p show ?thesis by linarith
    next
      case False
      then have "?y ^ 2 \<le> ?x * ?y" unfolding power2_eq_square by (intro mult_le_mono1) simp
      with p show ?thesis by linarith
    qed
    moreover have "2 ^ ?m \<le> ?x ^ 2 \<or> 2 ^ ?m \<le> ?y ^ 2" using lr by (auto simp: max_def)
    moreover have "(2::nat) ^ ?m \<le> 2 * 2 ^ k" using power_increasing [OF k(1), of "2::nat"] by simp
    ultimately show ?thesis using p by (auto simp: mult.assoc)
  qed
  then have "2 * 2 ^ ?m \<le> (?x + ?y) ^ 2" unfolding power2_sum by (rule conjunct2)
  then show ?case by (simp add: add.commute add.left_commute)
qed simp

text \<open>An AVL tree with fewer than \<open>2 ^ 64\<close> nodes is at most 128 deep.\<close>

lemma avl_depth: "avl t \<Longrightarrow> size t < 2 ^ 64 \<Longrightarrow> height t \<le> 128"
proof -
  assume "avl t" and s: "size t < 2 ^ 64"
  then have "(2::nat) ^ height t \<le> (size t + 1) ^ 2" by (intro avl_height)
  also have "\<dots> \<le> (2 ^ 64) ^ 2" using s by (intro power_mono) simp_all
  finally have "(2::nat) ^ height t \<le> 2 ^ 128" by (simp only: power_mult [symmetric]) simp
  then show ?thesis by (rule power_le_imp_le_exp [rotated]) simp
qed

end
