(* ===== verification/Avl_Rebalance.thy ===== *)
theory Avl_Rebalance
  imports Avl_Rotations Avl_Balance
begin

text \<open>
  \<open>avl_rebalance\<close> on the heap does what \<open>rebuild\<close> does on the tree: the loop ends, uses no freed
  node, and leaves every node of the rebuilt tree with the right pointers, count and depth.
\<close>

section \<open>Separation\<close>

text \<open>The nodes above a subtree with the nodes \<open>A\<close> are different from them and from each other.\<close>

fun apart :: "addr set \<Rightarrow> surroundings \<Rightarrow> bool" where
  "apart A [] \<longleftrightarrow> True"
| "apart A ((d, a, u) # ctx) \<longleftrightarrow> a \<notin> A \<and> a \<notin> set_tree u \<and> A \<inter> set_tree u = {} \<and> distinct (inorder u)
     \<and> apart (insert a (A \<union> set_tree u)) ctx"

lemma apart_around: "apart A ctx \<Longrightarrow> A \<inter> around ctx = {}"
  by (induction A ctx rule: apart.induct) auto

lemma distinct_node_on [simp]:
  "distinct (inorder (node_on d t a u)) \<longleftrightarrow> distinct (inorder t) \<and> distinct (inorder u)
     \<and> a \<notin> set_tree t \<and> a \<notin> set_tree u \<and> set_tree t \<inter> set_tree u = {}"
  by (cases d) auto

lemma distinct_plug: "distinct (inorder (plug t ctx)) \<longleftrightarrow> distinct (inorder t) \<and> apart (set_tree t) ctx"
proof (induction ctx arbitrary: t)
  case (Cons x ctx)
  obtain d a u where x: "x = (d, a, u)" by (cases x)
  show ?case unfolding x plug.simps Cons.IH by auto
qed simp

section \<open>The field that points to a subtree\<close>

lemma surrounds_superparent:
  assumes "surrounds (nodes s) (top s) (Some a) p ctx" and "apart A ctx" and "a \<in> A"
  shows "\<exists>sp. superparent s (Some a) p = Some sp \<and> slot_valid sp (nodes s) \<and> A \<inter> slot_addr sp = {}
    \<and> (\<forall>h' r. (\<forall>b \<in> around ctx. h' b = slot_heap sp r (nodes s) b)
         \<longrightarrow> surrounds h' (slot_top sp r (top s)) r p ctx)"
proof (cases ctx)
  case Nil
  then show ?thesis using assms by (intro exI [of _ Top_field]) (simp add: superparent_def)
next
  case (Cons x ctx')
  obtain d b u where x: "x = (d, b, u)" by (cases x)
  from assms Cons x obtain n where p: "p = Some b" and n: "nodes s b = Some n" "child d n = Some a"
    "child (opposite d) n = rootp u" "surrounds (nodes s) (top s) (Some b) (n_parent n) ctx'"
    and u: "shape (nodes s) (Some b) u" by auto
  have ap: "b \<notin> A" "b \<notin> set_tree u" "A \<inter> set_tree u = {}" "b \<notin> around ctx'" "a \<notin> set_tree u"
    using assms(2,3) Cons x apart_around [of "insert b (A \<union> set_tree u)" ctx'] by auto
  have "superparent s (Some a) p = Some (Child_field d p)"
    using n ap rootp_in [of u a] by (cases d) (auto simp: superparent_def p)
  moreover have "surrounds h' (top s) r p ctx"
    if h': "\<forall>c \<in> around ctx. h' c = slot_heap (Child_field d p) r (nodes s) c" for h' r
  proof -
    have b: "h' b = Some (set_child d r n)" using h' n Cons x p by simp
    have eq: "\<forall>c \<in> set_tree u \<union> around ctx'. h' c = nodes s c"
      using h' ap Cons x p by auto
    have "shape h' (Some b) u" using shape_frame [of u h' "nodes s"] eq u by simp
    moreover have "surrounds h' (top s) (Some b) (n_parent n) ctx'"
      using surrounds_frame [of ctx' h' "nodes s"] eq n(4) by simp
    ultimately show ?thesis using b n(3) by (simp add: Cons x p)
  qed
  ultimately show ?thesis using n(1) ap by (intro exI [of _ "Child_field d p"]) (simp add: p)
qed

section \<open>One round of the loop\<close>

text \<open>What a node of the tree with up-to-date subtrees looks like before it is balanced.\<close>

lemma check_balance_side:
  assumes "nodes s a = Some n" "child d n = rootp t" "child (opposite d) n = rootp u"
    and "shape (nodes s) p t" "shape (nodes s) q u"
  shows "avl_check_balance s (Some a) =
    Some (if height t > height u + 1 then (if d = Lft then - 1 else 1)
      else if height u > height t + 1 then (if d = Lft then 1 else - 1) else 0)"
proof -
  obtain e where e: "AVL_NODE_DEPTH s (rootp t) = Some e" "unat e = height t"
    using depth_of_shape [OF assms(4)] by blast
  obtain f where f: "AVL_NODE_DEPTH s (rootp u) = Some f" "unat f = height u"
    using depth_of_shape [OF assms(5)] by blast
  have i: "uint e = int (height t)" "uint f = int (height u)" using e(2) f(2) by (metis uint_nat)+
  show ?thesis
    using assms(1-3) e(1) f(1) i by (cases d) (auto simp: avl_check_balance_def Let_def)
qed

lemma rebalance_side_ok:
  assumes n: "nodes s a = Some n" "child d n = rootp t" "child (opposite d) n = rootp u"
    and sh: "shape (nodes s) (Some a) t" "shape (nodes s) (Some a) u"
    and dist: "distinct (inorder (node_on d t a u))"
    and sp: "slot_valid sp (nodes s)" "insert a (set_tree t \<union> set_tree u) \<inter> slot_addr sp = {}"
    and avl: "avl t" "avl u" "height t = height u + 2" "height t \<le> 128"
  shows "\<exists>s'. rebalance_side d (Some a) p sp s = Some s'
    \<and> round_ok s s' sp (insert a (set_tree t \<union> set_tree u)) p (rot d t a u)"
proof (rule rot_cases [OF avl(1,2,3), of d a])
  fix x c v
  assume t: "t = node_on d x c v" and h: "height v \<le> height x" "height x = height u + 1"
    and rot: "rot d t a u = node_on d x c (node_on d v a u)"
  from sh(1) t obtain nc where c: "nodes s c = Some nc" "child d nc = rootp x" "child (opposite d) nc = rootp v"
    and shc: "shape (nodes s) (Some c) x" "shape (nodes s) (Some c) v" by auto
  have disj: "a \<noteq> c" "a \<notin> set_tree x" "a \<notin> set_tree v" "a \<notin> set_tree u" "c \<notin> set_tree x" "c \<notin> set_tree v"
    "c \<notin> set_tree u" "set_tree v \<inter> set_tree x = {}" "set_tree v \<inter> set_tree u = {}" "distinct (inorder v)"
    using dist unfolding t by auto
  have slot: "a \<notin> slot_addr sp" "c \<notin> slot_addr sp" "set_tree x \<inter> slot_addr sp = {}"
    "set_tree v \<inter> slot_addr sp = {}" "set_tree u \<inter> slot_addr sp = {}"
    using sp(2) unfolding t by auto
  have H: "max (height x) (max (height v) (height u) + 1) + 1 < 256" using h avl by auto
  obtain ex ev where "AVL_NODE_DEPTH s (rootp x) = Some ex" "unat ex = height x"
    "AVL_NODE_DEPTH s (rootp v) = Some ev" "unat ev = height v" using depth_of_shape shc by meson
  then have "rebalance_side d (Some a) p sp s = rotate_single d (Some a) (Some c) p sp s"
    using n(1,2) c h unfolding t by (simp add: rebalance_side_def Let_def)
  moreover have n2: "child d n = Some c" using n(2) t by simp
  note r = rotate_single_shape [OF n(1) n2 n(3) c shc sh(2) disj sp(1) slot H, of p]
  moreover have A: "{a, c} \<union> set_tree x \<union> set_tree v \<union> set_tree u = insert a (set_tree t \<union> set_tree u)" by (auto simp: t)
  ultimately show ?thesis using r unfolding A rot by simp
next
  fix x c y g w
  assume t: "t = node_on d x c (node_on d y g w)" and h: "height x = height u"
    "max (height y) (height w) = height u"
    and rot: "rot d t a u = node_on d (node_on d x c y) g (node_on d w a u)"
  from sh(1) t obtain nc ng where c: "nodes s c = Some nc" "child d nc = rootp x" "child (opposite d) nc = Some g"
    and g: "nodes s g = Some ng" "child d ng = rootp y" "child (opposite d) ng = rootp w"
    and dg: "unat (n_depth ng) = max (height y) (height w) + 1"
    and shc: "shape (nodes s) (Some c) x" "shape (nodes s) (Some g) y" "shape (nodes s) (Some g) w" by auto
  have disj: "a \<noteq> c" "a \<noteq> g" "c \<noteq> g" "a \<notin> set_tree x" "a \<notin> set_tree y" "a \<notin> set_tree w" "a \<notin> set_tree u"
    "c \<notin> set_tree x" "c \<notin> set_tree y" "c \<notin> set_tree w" "c \<notin> set_tree u"
    "g \<notin> set_tree x" "g \<notin> set_tree y" "g \<notin> set_tree w" "g \<notin> set_tree u"
    "set_tree y \<inter> set_tree x = {}" "set_tree w \<inter> set_tree x = {}" "set_tree y \<inter> set_tree u = {}"
    "set_tree w \<inter> set_tree u = {}" "set_tree w \<inter> set_tree y = {}" "set_tree y \<inter> set_tree w = {}"
    "distinct (inorder y)" "distinct (inorder w)"
    using dist unfolding t by auto
  have slot: "a \<notin> slot_addr sp" "c \<notin> slot_addr sp" "g \<notin> slot_addr sp" "set_tree x \<inter> slot_addr sp = {}"
    "set_tree y \<inter> slot_addr sp = {}" "set_tree w \<inter> slot_addr sp = {}" "set_tree u \<inter> slot_addr sp = {}"
    using sp(2) unfolding t by auto
  have H: "max (height x) (max (height y) (max (height w) (height u))) + 2 < 256" using h avl by auto
  obtain ex where "AVL_NODE_DEPTH s (rootp x) = Some ex" "unat ex = height x"
    using depth_of_shape [OF shc(1)] by blast
  then have "rebalance_side d (Some a) p sp s = rotate_double d (Some a) (Some c) p sp s"
    using n(1,2) c g(1) dg h unfolding t by (simp add: rebalance_side_def Let_def AVL_NODE_DEPTH_def [where p = "Some g"])
  moreover have n2: "child d n = Some c" using n(2) t by simp
  note r = rotate_double_shape [OF n(1) n2 n(3) c g shc sh(2) disj sp(1) slot H, of p]
  moreover have A: "{a, c, g} \<union> set_tree x \<union> set_tree y \<union> set_tree w \<union> set_tree u = insert a (set_tree t \<union> set_tree u)"
    by (auto simp: t)
  ultimately show ?thesis using r unfolding A rot by simp
qed


lemma rebalance_step_ok:
  assumes n: "nodes s a = Some n" "child d n = rootp t" "child (opposite d) n = rootp u"
    and sh: "shape (nodes s) (Some a) t" "shape (nodes s) (Some a) u"
    and ctx: "surrounds (nodes s) (top s) (Some a) p ctx"
    and dist: "distinct (inorder (plug (node_on d t a u) ctx))"
    and avl: "avl t" "avl u" "height t \<le> height u + 2" "height u \<le> height t + 2"
    and p: "n_parent n = p"
    and small: "height t \<le> 128" "height u \<le> 128"
  shows "\<exists>s'. rebalance_step (Some a) p s = Some s' \<and> shape (nodes s') p (bal d t a u)
    \<and> surrounds (nodes s') (top s') (rootp (bal d t a u)) p ctx"
proof -
  let ?A = "insert a (set_tree t \<union> set_tree u)"
  have du: "distinct (inorder (node_on d t a u))" and ap: "apart ?A ctx"
    using dist unfolding distinct_plug by simp_all
  obtain sp where sp: "superparent s (Some a) p = Some sp" "slot_valid sp (nodes s)" "?A \<inter> slot_addr sp = {}"
    and hang: "\<And>h' r. \<forall>b \<in> around ctx. h' b = slot_heap sp r (nodes s) b
         \<Longrightarrow> surrounds h' (slot_top sp r (top s)) r p ctx"
    using surrounds_superparent [OF ctx ap] by blast
  have finish: "\<exists>s'. rebalance_step (Some a) p s = Some s' \<and> shape (nodes s') p (bal d t a u)
      \<and> surrounds (nodes s') (top s') (rootp (bal d t a u)) p ctx"
    if "\<exists>s'. rebalance_step (Some a) p s = Some s' \<and> round_ok s s' sp ?A p (bal d t a u)"
  proof -
    from that obtain s' where s': "rebalance_step (Some a) p s = Some s'" "round_ok s s' sp ?A p (bal d t a u)"
      by blast
    have "\<forall>b \<in> around ctx. nodes s' b = slot_heap sp (rootp (bal d t a u)) (nodes s) b"
      using s'(2) apart_around [OF ap] unfolding round_ok_def by blast
    from hang [OF this] have "surrounds (nodes s') (top s') (rootp (bal d t a u)) p ctx"
      using s'(2) unfolding round_ok_def by simp
    with s' show ?thesis unfolding round_ok_def by blast
  qed
  note b = check_balance_side [OF n sh]
  consider (t) "height t = height u + 2" | (u) "height u = height t + 2"
    | (none) "height t \<le> height u + 1" "height u \<le> height t + 1" using avl by linarith
  then show ?thesis
  proof cases
    case t
    have "rebalance_step (Some a) p s = rebalance_side d (Some a) p sp s"
      using sp(1) b t by (cases d) (simp_all add: rebalance_step_def)
    moreover have "bal d t a u = rot d t a u" using t by (simp add: bal_def)
    ultimately show ?thesis
      using finish rebalance_side_ok [OF n sh du sp(2,3) avl(1,2) t small(1), of p] by simp
  next
    case u
    have "rebalance_step (Some a) p s = rebalance_side (opposite d) (Some a) p sp s"
      using sp(1) b u by (cases d) (simp_all add: rebalance_step_def)
    moreover have "bal d t a u = rot (opposite d) u a t" using u by (simp add: bal_def)
    moreover have "insert a (set_tree u \<union> set_tree t) = ?A" by blast
    moreover have "distinct (inorder (node_on (opposite d) u a t))" using du by auto
    ultimately show ?thesis
      using finish rebalance_side_ok [of s a n "opposite d" u t sp p] n sh sp(2,3) avl u small(2) by simp
  next
    case none
    define n1 where "n1 = n \<lparr> n_count := of_nat (size t + size u + 1) \<rparr>"
    define n2 where "n2 = n1 \<lparr> n_depth := of_nat (max (height t) (height u) + 1) \<rparr>"
    have r1: "set_count (Some a) s = Some (s \<lparr> nodes := (nodes s)(a \<mapsto> n1) \<rparr>)"
      unfolding n1_def using n sh by (intro set_count_sides [where d = d]) (auto intro: count_of_shape)
    have r2: "set_depth (Some a) (s \<lparr> nodes := (nodes s)(a \<mapsto> n1) \<rparr>) = Some (s \<lparr> nodes := (nodes s)(a \<mapsto> n2) \<rparr>)"
      unfolding n2_def using n sh du
      by (subst set_depth_sides [where n = n1 and d = d and i = "height t" and j = "height u"])
        (auto simp: n1_def intro!: depth_of_shape [where p = "Some a"])
    have km: "unat (word_of_nat (max (height t) (height u) + 1) :: 8 word) = max (height t) (height u) + 1"
      using small by (intro unat_depth) simp
    have "rebalance_step (Some a) p s = Some (s \<lparr> nodes := (nodes s)(a \<mapsto> n2) \<rparr>)"
      using sp(1) b none by (simp add: rebalance_step_def r1 r2)
    moreover have "bal d t a u = node_on d t a u" using none by (simp add: bal_def)
    moreover have "shape ((nodes s)(a \<mapsto> n2)) p (node_on d t a u)"
      using n sh du km p by (simp add: n2_def n1_def)
    moreover have "surrounds ((nodes s)(a \<mapsto> n2)) (top s) (Some a) p ctx"
      using ctx apart_around [OF ap] by simp
    ultimately show ?thesis by simp
  qed
qed


section \<open>The whole loop\<close>

lemma size_plug: "size t \<le> size (plug t ctx)"
proof (induction ctx arbitrary: t)
  case (Cons x ctx)
  obtain d a u where x: "x = (d, a, u)" by (cases x)
  from Cons [of "node_on d t a u"] show ?case unfolding x plug.simps node_on_simps by linarith
qed simp

lemma avl_rebalance_rebuild:
  assumes "shape (nodes s) p t" "surrounds (nodes s) (top s) (rootp t) p ctx"
    and "distinct (inorder (plug t ctx))"
    and "avl (plug t0 ctx)" "avl t" "height t \<le> height t0 + 1" "height t0 \<le> height t + 1"
    and "size (plug t ctx) < 2 ^ 64"
  shows "\<exists>s'. avl_rebalance s p = Some s' \<and> shape (nodes s') None (rebuild t ctx)
    \<and> top s' = rootp (rebuild t ctx)"
  using assms
proof (induction ctx arbitrary: s p t t0)
  case Nil
  then show ?case by (simp add: avl_rebalance.simps)
next
  case (Cons x ctx)
  obtain d a u where x: "x = (d, a, u)" by (cases x)
  from Cons.prems(2) x obtain n where p: "p = Some a" and n: "nodes s a = Some n" "child d n = rootp t"
    "child (opposite d) n = rootp u" and up: "surrounds (nodes s) (top s) (Some a) (n_parent n) ctx"
    and shu: "shape (nodes s) (Some a) u" by auto
  have sht: "shape (nodes s) (Some a) t" using Cons.prems(1) p by simp
  have node: "avl (node_on d t0 a u)" using Cons.prems(4) x avl_plug_subtree [of "node_on d t0 a u" ctx] by simp
  note step = bal_step [OF node Cons.prems(5-7)]
  have dist: "distinct (inorder (plug (node_on d t a u) ctx))" using Cons.prems(3) x by simp
  have avlu: "avl u" using node by simp
  have size: "size (node_on d t a u) < 2 ^ 64"
    using Cons.prems(8) size_plug [of "node_on d t a u" ctx] unfolding x plug.simps by linarith
  have small: "height t \<le> 128" "height u \<le> 128"
    using size avlu Cons.prems(5) by (auto intro: avl_depth)
  from rebalance_step_ok [OF n sht shu up dist Cons.prems(5) avlu step(1,2) refl small]
  obtain s1 where s1: "rebalance_step (Some a) (n_parent n) s = Some s1"
    "shape (nodes s1) (n_parent n) (bal d t a u)"
    "surrounds (nodes s1) (top s1) (rootp (bal d t a u)) (n_parent n) ctx" by blast
  have io: "inorder (bal d t a u) = inorder (node_on d t a u)"
    by (rule bal_correct(2) [OF Cons.prems(5) avlu step(1,2)])
  have "distinct (inorder (plug (bal d t a u) ctx))" using dist io by simp
  moreover have "size (plug (bal d t a u) ctx) < 2 ^ 64"
    using Cons.prems(8) x io by (metis inorder_plug length_inorder plug.simps(2))
  ultimately obtain s' where s': "avl_rebalance s1 (n_parent n) = Some s'"
    "shape (nodes s') None (rebuild (bal d t a u) ctx)" "top s' = rootp (rebuild (bal d t a u) ctx)"
    using Cons.IH [OF s1(2,3) _ _ step(3-5)] Cons.prems(4) x by auto
  have "avl_rebalance s p = Some s'"
    using s1(1) s'(1) n(1) p by (subst avl_rebalance.simps) simp
  with s' x show ?case by auto
qed

end
