(* ===== verification/Avl_Neighbours.thy ===== *)
theory Avl_Neighbours
  imports Avl_Rebalance
begin

text \<open>
  The doubly linked list of the nodes, the fields that rebalancing leaves alone, and the invariant of
  a tree: what the heap, the top, head and tail pointers of a tree stand for.
\<close>

section \<open>What rebalancing leaves alone\<close>

definition kept :: "'a avl_node \<Rightarrow> ptr \<times> ptr \<times> 'a" where
  "kept n = (n_prev n, n_next n, n_item n)"

lemma kept_simps [simp]:
  "kept (n \<lparr> n_parent := q \<rparr>) = kept n" "kept (n \<lparr> n_left := q \<rparr>) = kept n"
  "kept (n \<lparr> n_right := q \<rparr>) = kept n" "kept (n \<lparr> n_count := k \<rparr>) = kept n"
  "kept (n \<lparr> n_depth := e \<rparr>) = kept n" "kept (set_child d q n) = kept n"
  by (cases d; simp add: kept_def)+

text \<open>The neighbours and items of all nodes and the fields of the tree other than \<open>top\<close>.\<close>

definition view :: "'a avl_tree \<Rightarrow>
    (addr \<Rightarrow> (ptr \<times> ptr \<times> 'a) option) \<times> ptr \<times> ptr \<times> ('a \<Rightarrow> 'a \<Rightarrow> int) \<times> bool \<times> 'a list" where
  "view s = (\<lambda>b. map_option kept (nodes s b), head s, tail s, cmpitem s, frees s, freed_items s)"

named_theorems keeps

lemma view_put: "put p f s = Some s' \<Longrightarrow> (\<And>n. kept (f n) = kept n) \<Longrightarrow> view s' = view s"
  by (auto simp: put_def view_def fun_eq_iff split: option.splits)

lemma view_put_parent [keeps]: "put p (\<lambda>n. n \<lparr> n_parent := q \<rparr>) s = Some s' \<Longrightarrow> view s' = view s"
  by (erule view_put) simp

lemma view_put_child [keeps]: "put p (set_child d q) s = Some s' \<Longrightarrow> view s' = view s"
  by (erule view_put) simp

lemma view_put_if_parent [keeps]: "put_if p (\<lambda>n. n \<lparr> n_parent := q \<rparr>) s = Some s' \<Longrightarrow> view s' = view s"
  by (auto simp: put_if_def dest: keeps split: if_splits)

lemma view_top [simp]: "view (s \<lparr> top := q \<rparr>) = view s"
  by (simp add: view_def)

lemma view_store [keeps]: "store sp q s = Some s' \<Longrightarrow> view s' = view s"
  by (cases sp) (auto dest: keeps)

lemma view_set_count [keeps]: "set_count p s = Some s' \<Longrightarrow> view s' = view s"
  by (auto simp: set_count_def bind_eq_Some_conv dest: view_put)

lemma view_set_depth [keeps]: "set_depth p s = Some s' \<Longrightarrow> view s' = view s"
  by (auto simp: set_depth_def bind_eq_Some_conv dest: view_put)

lemma view_rotate_single [keeps]: "rotate_single d p c q sp s = Some s' \<Longrightarrow> view s' = view s"
  by (auto simp: rotate_single_def bind_eq_Some_conv dest!: keeps)

lemma view_rotate_double [keeps]: "rotate_double d p c q sp s = Some s' \<Longrightarrow> view s' = view s"
  by (auto simp: rotate_double_def bind_eq_Some_conv Let_def dest!: keeps)

lemma view_rebalance_step [keeps]: "rebalance_step p q s = Some s' \<Longrightarrow> view s' = view s"
  by (auto simp: rebalance_step_def rebalance_side_def Let_def bind_eq_Some_conv split: if_splits dest!: keeps)

lemma view_rebalance [keeps]: "avl_rebalance s p = Some s' \<Longrightarrow> view s' = view s"
proof (rule avl_rebalance.raw_induct [of "\<lambda>s p s'. view s' = view s"])
  fix rec :: "'a avl_tree \<Rightarrow> ptr \<Rightarrow> 'a avl_tree option" and s p s'
  assume IH: "\<And>s p s'. rec s p = Some s' \<Longrightarrow> view s' = view s"
    and run: "(if p = None then Some s
      else do { n \<leftarrow> deref s p; t \<leftarrow> rebalance_step p (n_parent n) s; rec t (n_parent n) }) = Some s'"
  then show "view s' = view s" by (fastforce simp: bind_eq_Some_conv split: if_splits dest: keeps)
qed

section \<open>The list of neighbours\<close>

text \<open>\<open>first_of xs q\<close> is the first element of a list, or \<open>q\<close> when it is empty; \<open>last_of\<close> the last one.\<close>

fun first_of :: "addr list \<Rightarrow> ptr \<Rightarrow> ptr" where
  "first_of [] q = q"
| "first_of (x # xs) q = Some x"

definition last_of :: "addr list \<Rightarrow> ptr \<Rightarrow> ptr" where
  "last_of xs p = first_of (rev xs) p"

text \<open>The nodes \<open>xs\<close> are linked in this order, with \<open>p\<close> before and \<open>q\<close> after them.\<close>

fun linked :: "(addr \<Rightarrow> (ptr \<times> ptr \<times> 'a) option) \<Rightarrow> ptr \<Rightarrow> addr list \<Rightarrow> ptr \<Rightarrow> bool" where
  "linked v p [] q \<longleftrightarrow> True"
| "linked v p (x # xs) q \<longleftrightarrow> (\<exists>i. v x = Some (p, first_of xs q, i)) \<and> linked v (Some x) xs q"

lemma first_of_append [simp]: "first_of (xs @ ys) q = first_of xs (first_of ys q)"
  by (cases xs) simp_all

lemma last_of_simps [simp]:
  "last_of [] p = p" "last_of (x # xs) p = last_of xs (Some x)" "last_of (xs @ ys) p = last_of ys (last_of xs p)"
  by (simp_all add: last_of_def)

lemma linked_append [simp]:
  "linked v p (xs @ ys) q \<longleftrightarrow> linked v p xs (first_of ys q) \<and> linked v (last_of xs p) ys q"
  by (induction xs arbitrary: p) auto

lemma linked_frame: "\<forall>b \<in> set xs. v' b = v b \<Longrightarrow> linked v' p xs q = linked v p xs q"
  by (induction xs arbitrary: p) auto

lemma linked_upd [simp]: "b \<notin> set xs \<Longrightarrow> linked (v(b := k)) p xs q = linked v p xs q"
  by (rule linked_frame) auto

lemma linked_defined: "linked v p xs q \<Longrightarrow> x \<in> set xs \<Longrightarrow> \<exists>k. v x = Some k"
  by (induction xs arbitrary: p) auto

section \<open>The invariant\<close>

definition node_view :: "'a avl_tree \<Rightarrow> addr \<Rightarrow> (ptr \<times> ptr \<times> 'a) option" where
  "node_view s b = map_option kept (nodes s b)"

text \<open>
  \<open>avl_inv s t\<close>: the tree \<open>s\<close> of the program stands for the binary tree \<open>t\<close> of addresses. Its nodes
  are different and fewer than \<open>2 ^ 64\<close>, it is balanced, the heap has its shape, and \<open>prev\<close>, \<open>next\<close>,
  \<open>head\<close> and \<open>tail\<close> link the nodes in symmetric order.
\<close>

definition avl_inv :: "'a avl_tree \<Rightarrow> addr tree \<Rightarrow> bool" where
  "avl_inv s t \<longleftrightarrow> distinct (inorder t) \<and> avl t \<and> size t < 2 ^ 64
     \<and> shape (nodes s) None t \<and> top s = rootp t
     \<and> linked (node_view s) None (inorder t) None
     \<and> head s = first_of (inorder t) None \<and> tail s = last_of (inorder t) None"

text \<open>The item of a node.\<close>

definition item_of :: "'a avl_tree \<Rightarrow> addr \<Rightarrow> 'a" where
  "item_of s a = n_item (the (nodes s a))"

text \<open>What the tree holds: the items of its nodes in the order of the list.\<close>

definition contents :: "'a avl_tree \<Rightarrow> addr tree \<Rightarrow> 'a list" where
  "contents s t = map (item_of s) (inorder t)"

lemma view_cong:
  assumes "view s' = view s"
  shows "node_view s' = node_view s" "head s' = head s" "tail s' = tail s" "cmpitem s' = cmpitem s"
    "frees s' = frees s" "freed_items s' = freed_items s"
  using assms by (auto simp: view_def node_view_def fun_eq_iff)

lemma item_at_view: "node_view s b = Some (p, q, i) \<Longrightarrow> item_of s b = i"
  by (auto simp: node_view_def item_of_def kept_def)

lemma node_view_item: "node_view s' b = node_view s b \<Longrightarrow> item_of s' b = item_of s b \<or> nodes s b = None"
  by (auto simp: node_view_def item_of_def kept_def)

lemma node_view_None: "node_view s b = None \<longleftrightarrow> nodes s b = None"
  by (simp add: node_view_def)

text \<open>The rebalancing at the end of an operation restores the invariant.\<close>

lemma rebalance_inv:
  assumes "shape (nodes s) p t" "surrounds (nodes s) (top s) (rootp t) p ctx"
    and "distinct (inorder (plug t ctx))"
    and "avl (plug t0 ctx)" "avl t" "height t \<le> height t0 + 1" "height t0 \<le> height t + 1"
    and "size (plug t ctx) < 2 ^ 64"
    and "linked (node_view s) None (inorder (plug t ctx)) None"
    and "head s = first_of (inorder (plug t ctx)) None" "tail s = last_of (inorder (plug t ctx)) None"
  shows "\<exists>s'. avl_rebalance s p = Some s' \<and> avl_inv s' (rebuild t ctx)
    \<and> inorder (rebuild t ctx) = inorder (plug t ctx) \<and> view s' = view s"
proof -
  obtain s' where s': "avl_rebalance s p = Some s'" "shape (nodes s') None (rebuild t ctx)"
    "top s' = rootp (rebuild t ctx)"
    using avl_rebalance_rebuild [OF assms(1-8)] by blast
  have v: "view s' = view s" using s'(1) by (rule view_rebalance)
  have r: "avl (rebuild t ctx)" "inorder (rebuild t ctx) = inorder (plug t ctx)"
    using rebuild_correct [OF assms(4-7)] by simp_all
  have "size (rebuild t ctx) = size (plug t ctx)" using r(2) by (metis length_inorder)
  then have "avl_inv s' (rebuild t ctx)"
    using assms(3,8-11) s' r view_cong [OF v] by (simp add: avl_inv_def)
  with s'(1) r(2) v show ?thesis by blast
qed

end
