(* ===== verification/Avl_Insert.thy ===== *)
theory Avl_Insert
  imports Avl_Neighbours
begin

text \<open>
  Inserting a node into the AVL tree: linking it beside another node keeps the invariant and puts it
  into the list at the right place.
\<close>

section \<open>Changing the ends of a list of neighbours\<close>

fun with_link :: "side \<Rightarrow> ptr \<Rightarrow> ptr \<times> ptr \<times> 'a \<Rightarrow> ptr \<times> ptr \<times> 'a" where
  "with_link Lft r (p, q, i) = (r, q, i)"
| "with_link Rgt r (p, q, i) = (p, r, i)"

lemma first_of_in: "first_of xs None = Some x \<Longrightarrow> x \<in> set xs"
  by (cases xs) simp_all

lemma last_of_in: "last_of xs None = Some x \<Longrightarrow> x \<in> set xs"
  using first_of_in [of "rev xs"] by (simp add: last_of_def)

lemma linked_renext:
  "linked v p xs q1 \<Longrightarrow> distinct xs \<Longrightarrow>
    \<forall>x \<in> set xs. v' x = (if last_of xs None = Some x then map_option (with_link Rgt q2) (v x) else v x) \<Longrightarrow>
    linked v' p xs q2"
proof (induction xs arbitrary: p)
  case (Cons x xs)
  show ?case
  proof (cases "xs = []")
    case True
    with Cons.prems show ?thesis by auto
  next
    case False
    then obtain ys y where xs: "xs = ys @ [y]" by (metis rev_exhaust)
    have l: "last_of (x # xs) None = Some y" "last_of xs None = Some y" by (simp_all add: xs)
    have "v' x = v x" using Cons.prems(2,3) l xs by auto
    moreover have "linked v' (Some x) xs q2"
      using Cons.prems l by (intro Cons.IH) auto
    moreover have "first_of xs q1 = first_of xs q2" using False by (cases xs) simp_all
    ultimately show ?thesis using Cons.prems(1) by auto
  qed
qed simp

lemma linked_reprev:
  assumes "linked v p1 xs q" "distinct xs"
    and "\<forall>x \<in> set xs. v' x = (if first_of xs None = Some x then map_option (with_link Lft p2) (v x) else v x)"
  shows "linked v' p2 xs q"
proof (cases xs)
  case (Cons x ys)
  have "linked v' (Some x) ys q"
    using assms Cons by (subst linked_frame [of ys v' v]) auto
  with assms Cons show ?thesis by auto
qed simp

lemma linked_insert:
  assumes "linked v p (xs @ ys) q" "distinct (xs @ ys)"
    and "\<exists>i. v' b = Some (last_of xs p, first_of ys q, i)"
    and "\<forall>x \<in> set xs. v' x = (if last_of xs None = Some x then map_option (with_link Rgt (Some b)) (v x) else v x)"
    and "\<forall>x \<in> set ys. v' x = (if first_of ys None = Some x then map_option (with_link Lft (Some b)) (v x) else v x)"
  shows "linked v' p (xs @ b # ys) q"
proof -
  have l: "linked v p xs (first_of ys q)" "linked v (last_of xs p) ys q" using assms(1) by simp_all
  have d: "distinct xs" "distinct ys" using assms(2) by simp_all
  have "linked v' p xs (Some b)" by (rule linked_renext [OF l(1) d(1) assms(4)])
  moreover have "linked v' (Some b) ys q" by (rule linked_reprev [OF l(2) d(2) assms(5)])
  ultimately show ?thesis using assms(3) by simp
qed

lemma linked_remove:
  assumes "linked v p (xs @ b # ys) q" "distinct (xs @ b # ys)"
    and "\<forall>x \<in> set xs. v' x = (if last_of xs None = Some x then map_option (with_link Rgt (first_of ys q)) (v x) else v x)"
    and "\<forall>x \<in> set ys. v' x = (if first_of ys None = Some x then map_option (with_link Lft (last_of xs p)) (v x) else v x)"
  shows "linked v' p (xs @ ys) q"
proof -
  have l: "linked v p xs (Some b)" "linked v (Some b) ys q" using assms(1) by simp_all
  have d: "distinct xs" "distinct ys" using assms(2) by simp_all
  have "linked v' p xs (first_of ys q)" by (rule linked_renext [OF l(1) d(1) assms(3)])
  moreover have "linked v' (last_of xs p) ys q" by (rule linked_reprev [OF l(2) d(2) assms(4)])
  ultimately show ?thesis by simp
qed

section \<open>Attaching a node\<close>

lemma link_set_link [simp]:
  "link d (set_link d p n) = p" "link (opposite d) (set_link d p n) = link (opposite d) n"
  "link d (set_link (opposite d) p n) = link d n"
  by (cases d; simp)+

lemma kept_set_link: "kept (set_link d q n) = with_link d q (kept n)"
  by (cases d) (simp_all add: kept_def)

lemma struct_set_link [simp]: "struct (set_link d q n) = struct n"
  by (cases d) (simp_all add: struct_def)

lemma kept_link: "link d n = (case kept n of (p, q, i) \<Rightarrow> (case d of Lft \<Rightarrow> p | Rgt \<Rightarrow> q))"
  by (cases d) (simp_all add: kept_def)

text \<open>
  The operations keep the items of all nodes and the fields that are no pointers; \<open>same_items A s s'\<close>
  says so of the nodes outside \<open>A\<close>.
\<close>

definition same_items :: "addr set \<Rightarrow> 'a avl_tree \<Rightarrow> 'a avl_tree \<Rightarrow> bool" where
  "same_items A s s' \<longleftrightarrow> (\<forall>c. c \<notin> A \<longrightarrow> map_option n_item (nodes s' c) = map_option n_item (nodes s c))
     \<and> cmpitem s' = cmpitem s \<and> frees s' = frees s"

lemma same_items_view: "view s' = view s \<Longrightarrow> same_items A s s'"
proof -
  assume v: "view s' = view s"
  have "map_option n_item (nodes s' c) = map_option n_item (nodes s c)" for c
  proof -
    have "map_option kept (nodes s' c) = map_option kept (nodes s c)"
      using view_cong(1) [OF v] unfolding node_view_def by metis
    then show ?thesis by (cases "nodes s' c"; cases "nodes s c") (auto simp: kept_def)
  qed
  with view_cong(4,5) [OF v] show ?thesis by (simp add: same_items_def)
qed

lemma same_items_refl [simp]: "same_items A s s"
  by (simp add: same_items_def)

lemma same_items_trans [trans]: "same_items A s s1 \<Longrightarrow> same_items A s1 s2 \<Longrightarrow> same_items A s s2"
  by (simp add: same_items_def)

lemma same_items_mono: "same_items A s s' \<Longrightarrow> A \<subseteq> B \<Longrightarrow> same_items B s s'"
  by (auto simp: same_items_def)

lemma same_items_item: "same_items A s s' \<Longrightarrow> c \<notin> A \<Longrightarrow> nodes s c \<noteq> None \<Longrightarrow> item_of s' c = item_of s c"
proof -
  assume "same_items A s s'" "c \<notin> A" "nodes s c \<noteq> None"
  then have "map_option n_item (nodes s' c) = map_option n_item (nodes s c)" "nodes s c \<noteq> None"
    by (simp_all add: same_items_def)
  then show ?thesis by (auto simp: item_of_def)
qed

text \<open>
  The steps of \<open>attach\<close> before it rebalances: the new node hangs below the node \<open>a\<close>, which has no
  child on side \<open>d\<close>, and stands beside it in the list.
\<close>

definition linked_in :: "side \<Rightarrow> 'a avl_tree \<Rightarrow> addr \<Rightarrow> addr \<Rightarrow> 'a avl_tree \<Rightarrow> bool" where
  "linked_in d s a b s1 \<longleftrightarrow> (\<exists>na nb. nodes s a = Some na \<and> nodes s b = Some nb
     \<and> (\<exists>mb. nodes s1 b = Some mb \<and> struct mb = (Some a, None, None, 1, 1)
          \<and> kept mb = with_link d (link d na) (with_link (opposite d) (Some a) (kept nb)))
     \<and> nodes s1 a = Some (set_child d (Some b) (set_link d (Some b) na))
     \<and> (\<forall>c. c \<noteq> a \<and> c \<noteq> b \<longrightarrow> nodes s1 c =
          (if link d na = Some c then map_option (set_link (opposite d) (Some b)) (nodes s c) else nodes s c))
     \<and> top s1 = top s \<and> cmpitem s1 = cmpitem s \<and> frees s1 = frees s \<and> freed_items s1 = freed_items s
     \<and> list_end (opposite d) s1 = list_end (opposite d) s
     \<and> list_end d s1 = (if link d na = None then Some b else list_end d s))"

lemma list_end_simps [simp]:
  "top (set_list_end d q s) = top s" "cmpitem (set_list_end d q s) = cmpitem s"
  "frees (set_list_end d q s) = frees s" "freed_items (set_list_end d q s) = freed_items s"
  "nodes (set_list_end d q s) = nodes s" "list_end d (set_list_end d q s) = q"
  "list_end (opposite d) (set_list_end d q s) = list_end (opposite d) s"
  "list_end d (s \<lparr> nodes := h \<rparr>) = list_end d s" "list_end d (s \<lparr> top := q \<rparr>) = list_end d s"
  by (cases d; simp)+

lemma set_list_end_nodes [simp]: "set_list_end d q s \<lparr> nodes := h \<rparr> = set_list_end d q (s \<lparr> nodes := h \<rparr>)"
  by (cases d) simp_all

lemma attach_prefix:
  assumes "nodes s a = Some na" "nodes s b = Some nb" "a \<noteq> b"
    and "\<And>m. link d na = Some m \<Longrightarrow> m \<noteq> a \<and> m \<noteq> b \<and> nodes s m \<noteq> None"
  shows "\<exists>s1. attach d s (Some a) (Some b) = avl_rebalance s1 (Some a) \<and> linked_in d s a b s1"
proof -
  define mb where "mb = set_link d (link d na) (set_link (opposite d) (Some a)
     (nb \<lparr> n_left := None, n_right := None, n_count := 1, n_depth := 1 \<rparr>) \<lparr> n_parent := Some a \<rparr>)"
  define ma where "ma = set_child d (Some b) (set_link d (Some b) na)"
  have mb: "struct mb = (Some a, None, None, 1, 1)"
    "kept mb = with_link d (link d na) (with_link (opposite d) (Some a) (kept nb))"
    by (cases d; simp add: mb_def struct_def kept_def)+
  show ?thesis
  proof (cases "link d na")
    case None
    define s1 where "s1 = set_list_end d (Some b) (s \<lparr> nodes := (nodes s)(b \<mapsto> mb, a \<mapsto> ma) \<rparr>)"
    have "attach d s (Some a) (Some b) = avl_rebalance s1 (Some a)"
      using assms(1-3) None by (simp add: attach_def avl_node_clear_def s1_def mb_def ma_def)
    moreover have "linked_in d s a b s1"
      using assms(1-3) None mb by (simp add: linked_in_def s1_def ma_def)
    ultimately show ?thesis by blast
  next
    case (Some m)
    with assms(4) [of m] obtain nm where m: "nodes s m = Some nm" "m \<noteq> a" "m \<noteq> b" by blast
    define s1 where "s1 = s \<lparr> nodes := (nodes s)(b \<mapsto> mb, m \<mapsto> set_link (opposite d) (Some b) nm, a \<mapsto> ma) \<rparr>"
    have "attach d s (Some a) (Some b) = avl_rebalance s1 (Some a)"
      using assms(1-3) Some m by (simp add: attach_def avl_node_clear_def s1_def mb_def ma_def)
    moreover have "linked_in d s a b s1"
      using assms(1-3) Some m mb by (simp add: linked_in_def s1_def ma_def)
    ultimately show ?thesis by blast
  qed
qed


text \<open>The list with the new node.\<close>

lemma linked_in_linked:
  assumes l: "linked (node_view s) None (lefts ((d, a, u) # ctx) @ rights ((d, a, u) # ctx)) None"
    and dist: "distinct (lefts ((d, a, u) # ctx) @ rights ((d, a, u) # ctx))"
    and b: "b \<notin> around ((d, a, u) # ctx)"
    and i: "linked_in d s a b s1"
  shows "linked (node_view s1) None (lefts ((d, a, u) # ctx) @ b # rights ((d, a, u) # ctx)) None"
proof -
  obtain na nb mb where n: "nodes s a = Some na" "nodes s1 b = Some mb"
    "kept mb = with_link d (link d na) (with_link (opposite d) (Some a) (kept nb))"
    "nodes s1 a = Some (set_child d (Some b) (set_link d (Some b) na))"
    and other: "\<And>c. c \<noteq> a \<Longrightarrow> c \<noteq> b \<Longrightarrow> nodes s1 c =
          (if link d na = Some c then map_option (set_link (opposite d) (Some b)) (nodes s c) else nodes s c)"
    using i by (auto simp: linked_in_def)
  have vb: "node_view s1 b = Some (with_link d (link d na) (with_link (opposite d) (Some a) (kept nb)))"
    using n by (simp add: node_view_def)
  have va: "node_view s1 a = map_option (with_link d (Some b)) (node_view s a)"
    using n by (simp add: node_view_def kept_set_link)
  have vc: "node_view s1 c = (if link d na = Some c then map_option (with_link (opposite d) (Some b)) (node_view s c)
      else node_view s c)" if "c \<noteq> a" "c \<noteq> b" for c
    using other [OF that] by (simp add: node_view_def option.map_comp comp_def kept_set_link)
  have bn: "b \<notin> set (lefts ((d, a, u) # ctx))" "b \<notin> set (rights ((d, a, u) # ctx))"
    using b set_lefts_rights [of "(d, a, u) # ctx"] by auto
  obtain P Q i where k: "kept nb = (P, Q, i)" by (cases "kept nb")
  show ?thesis
  proof (cases d)
    case Lft
    have link: "link d na = last_of (lefts ctx) None"
      using l Lft n(1) by (auto simp: node_view_def kept_def)
    have xs: "\<forall>x \<in> set (lefts ctx). node_view s1 x =
        (if last_of (lefts ctx) None = Some x then map_option (with_link Rgt (Some b)) (node_view s x) else node_view s x)"
    proof (intro ballI)
      fix x assume "x \<in> set (lefts ctx)"
      then have "x \<noteq> a" "x \<noteq> b" using dist bn Lft by auto
      from vc [OF this] link Lft show "node_view s1 x = (if last_of (lefts ctx) None = Some x
        then map_option (with_link Rgt (Some b)) (node_view s x) else node_view s x)" by auto
    qed
    have ys: "\<forall>x \<in> set (a # inorder u @ rights ctx). node_view s1 x = (if first_of (a # inorder u @ rights ctx) None = Some x
        then map_option (with_link Lft (Some b)) (node_view s x) else node_view s x)"
    proof (intro ballI)
      fix x assume x: "x \<in> set (a # inorder u @ rights ctx)"
      then have b: "x \<noteq> b" and l: "last_of (lefts ctx) None \<noteq> Some x"
        using dist bn Lft last_of_in [of "lefts ctx" x] by auto
      from vc [OF _ b] va l link Lft show "node_view s1 x = (if first_of (a # inorder u @ rights ctx) None = Some x
        then map_option (with_link Lft (Some b)) (node_view s x) else node_view s x)" by auto
    qed
    show ?thesis
      using l dist vb k link Lft by (simp only: lefts.simps rights.simps)
        (rule linked_insert [OF _ _ _ xs ys], simp_all)
  next
    case Rgt
    have link: "link d na = first_of (rights ctx) None"
      using l Rgt n(1) by (auto simp: node_view_def kept_def)
    have xs: "\<forall>x \<in> set (lefts ctx @ inorder u @ [a]). node_view s1 x = (if last_of (lefts ctx @ inorder u @ [a]) None = Some x
        then map_option (with_link Rgt (Some b)) (node_view s x) else node_view s x)"
    proof (intro ballI)
      fix x assume x: "x \<in> set (lefts ctx @ inorder u @ [a])"
      then have b: "x \<noteq> b" and l: "first_of (rights ctx) None \<noteq> Some x"
        using dist bn Rgt first_of_in [of "rights ctx" x] by auto
      from vc [OF _ b] va l link Rgt show "node_view s1 x = (if last_of (lefts ctx @ inorder u @ [a]) None = Some x
        then map_option (with_link Rgt (Some b)) (node_view s x) else node_view s x)" by auto
    qed
    have ys: "\<forall>x \<in> set (rights ctx). node_view s1 x =
        (if first_of (rights ctx) None = Some x then map_option (with_link Lft (Some b)) (node_view s x) else node_view s x)"
    proof (intro ballI)
      fix x assume "x \<in> set (rights ctx)"
      then have "x \<noteq> a" "x \<noteq> b" using dist bn Rgt by auto
      from vc [OF this] link Rgt show "node_view s1 x = (if first_of (rights ctx) None = Some x
        then map_option (with_link Lft (Some b)) (node_view s x) else node_view s x)" by auto
    qed
    show ?thesis
      using l dist vb k link Rgt by (simp only: lefts.simps rights.simps)
        (rule linked_insert [OF _ _ _ xs ys], simp_all)
  qed
qed


lemma child_set_link [simp]: "child e (set_link d q n) = child e n" "n_parent (set_link d q n) = n_parent n"
  by (cases d; cases e; simp)+

lemma link_set_child [simp]: "link e (set_child d q n) = link e n"
  by (cases d; cases e; simp)

text \<open>The surroundings of the new node.\<close>

lemma linked_in_surrounds:
  assumes "linked_in d s a b s1" and "surrounds (nodes s) (top s) None (Some a) ((d, a, u) # ctx)"
    and "apart {} ((d, a, u) # ctx)" and "b \<notin> around ((d, a, u) # ctx)"
  shows "surrounds (nodes s1) (top s1) (Some b) (Some a) ((d, a, u) # ctx)"
proof -
  obtain na where n: "nodes s a = Some na" "nodes s1 a = Some (set_child d (Some b) (set_link d (Some b) na))"
    "top s1 = top s"
    and other: "\<And>c. c \<noteq> a \<Longrightarrow> c \<noteq> b \<Longrightarrow> nodes s1 c =
          (if link d na = Some c then map_option (set_link (opposite d) (Some b)) (nodes s c) else nodes s c)"
    using assms(1) by (auto simp: linked_in_def)
  have eq: "map_option struct (nodes s1 c) = map_option struct (nodes s c)" if "c \<noteq> a" "c \<noteq> b" for c
    using other [OF that] by (simp add: option.map_comp comp_def)
  have ap: "a \<notin> set_tree u" "a \<notin> around ctx" "b \<notin> set_tree u" "b \<notin> around ctx"
    using assms(3,4) apart_around [of "insert a (set_tree u)" ctx] by auto
  have equ: "\<forall>c \<in> set_tree u. map_option struct (nodes s1 c) = map_option struct (nodes s c)"
    "\<forall>c \<in> around ctx. map_option struct (nodes s1 c) = map_option struct (nodes s c)"
    using ap by (auto intro!: eq)
  have "shape (nodes s1) (Some a) u"
    using assms(2) equ by (intro shape_struct [of u "nodes s1" "nodes s"]) simp_all
  moreover have "surrounds (nodes s1) (top s) (Some a) (n_parent na) ctx"
    using assms(2) n(1) equ by (intro surrounds_struct [of ctx "nodes s1" "nodes s"]) simp_all
  ultimately show ?thesis using n assms(2) by auto
qed

lemma attach_inv:
  assumes inv: "avl_inv s (plug \<langle>\<rangle> ((d, a, u) # ctx))" 
    and b: "nodes s b = Some nb" "b \<notin> around ((d, a, u) # ctx)" and size: "size (plug \<langle>\<rangle> ((d, a, u) # ctx)) + 1 < 2 ^ 64"
  shows "\<exists>s' t'. attach d s (Some a) (Some b) = Some s' \<and> avl_inv s' t'
    \<and> inorder t' = lefts ((d, a, u) # ctx) @ b # rights ((d, a, u) # ctx) \<and> same_items {} s s' \<and> freed_items s' = freed_items s"
proof -
  let ?c = "(d, a, u) # ctx" and ?t = "\<langle>\<langle>\<rangle>, b, \<langle>\<rangle>\<rangle>"
  from inv have dist: "distinct (lefts ?c @ rights ?c)" and avl: "avl (plug \<langle>\<rangle> ?c)"
    and l: "linked (node_view s) None (lefts ?c @ rights ?c) None"
    and ht: "head s = first_of (lefts ?c @ rights ?c) None" "tail s = last_of (lefts ?c @ rights ?c) None"
    and sh: "shape (nodes s) None (plug \<langle>\<rangle> ?c)" "top s = rootp (plug \<langle>\<rangle> ?c)"
    unfolding avl_inv_def inorder_plug inorder.simps append_Nil by simp_all
  obtain p where "surrounds (nodes s) (top s) None p ?c" using shape_plug [of "nodes s" "\<langle>\<rangle>" ?c "top s"] sh by auto
  then have sur: "surrounds (nodes s) (top s) None (Some a) ?c" by simp
  then obtain na where na: "nodes s a = Some na" by auto
  have ab: "a \<noteq> b" using b(2) by auto
  have ap: "apart {} ?c" using inv distinct_plug [of "\<langle>\<rangle>" ?c] by (simp add: avl_inv_def)
  have link: "link d na = (if d = Lft then last_of (lefts ctx) None else first_of (rights ctx) None)"
    using l na by (cases d) (auto simp: node_view_def kept_def)
  have m: "m \<noteq> a \<and> m \<noteq> b \<and> nodes s m \<noteq> None" if "link d na = Some m" for m
  proof -
    have "m \<in> set (lefts ?c) \<union> set (rights ?c)" "m \<noteq> a"
      using that link dist last_of_in [of "lefts ctx" m] first_of_in [of "rights ctx" m] by (cases d; auto)+
    then show ?thesis
      using b(2) set_lefts_rights [of ?c] linked_defined [OF l, of m] by (auto simp: node_view_def)
  qed
  obtain s1 where s1: "attach d s (Some a) (Some b) = avl_rebalance s1 (Some a)" "linked_in d s a b s1"
    using attach_prefix [OF na b(1) ab m] by blast
  have "shape (nodes s1) (Some a) ?t" using s1(2) by (auto simp: linked_in_def struct_def)
  moreover have "surrounds (nodes s1) (top s1) (rootp ?t) (Some a) ?c"
    using linked_in_surrounds [OF s1(2) sur ap b(2)] by simp
  moreover have "distinct (inorder (plug ?t ?c))"
    unfolding inorder_plug using dist b(2) set_lefts_rights [of ?c] by auto
  moreover have "size (plug ?t ?c) < 2 ^ 64"
  proof -
    have "size (plug ?t ?c) = size (plug \<langle>\<rangle> ?c) + 1"
      by (simp only: length_inorder [symmetric] inorder_plug) simp
    with size show ?thesis by simp
  qed
  moreover have "linked (node_view s1) None (inorder (plug ?t ?c)) None"
    unfolding inorder_plug using linked_in_linked [OF l dist b(2) s1(2)] by simp
  moreover have "head s1 = first_of (inorder (plug ?t ?c)) None \<and> tail s1 = last_of (inorder (plug ?t ?c)) None"
  proof (cases d)
    case Lft
    with s1(2) na link ht show ?thesis unfolding inorder_plug
      by (cases "lefts ctx" rule: rev_cases) (auto simp: linked_in_def)
  next
    case Rgt
    with s1(2) na link ht show ?thesis unfolding inorder_plug
      by (cases "rights ctx") (auto simp: linked_in_def)
  qed
  ultimately obtain s' where s': "avl_rebalance s1 (Some a) = Some s'" "avl_inv s' (rebuild ?t ?c)"
    "inorder (rebuild ?t ?c) = inorder (plug ?t ?c)" "view s' = view s1"
    using rebalance_inv [of s1 "Some a" ?t ?c "\<langle>\<rangle>"] avl by auto
  have "same_items {} s s1"
  proof -
    have "map_option n_item (nodes s1 c) = map_option n_item (nodes s c)" for c
    proof -
      have k: "n_item (set_link e q n) = n_item n" for e q and n :: "'a avl_node" by (cases e) simp_all
      have kb: "n_item mb = n_item nb" if "kept mb = with_link d r (with_link (opposite d) q (kept nb))"
        for mb nb :: "'a avl_node" and r q using that by (cases d) (auto simp: kept_def)
      show ?thesis using s1(2) b(1) na k kb by (cases "c = a"; cases "c = b")
        (auto simp: linked_in_def option.map_comp comp_def)
    qed
    with s1(2) show ?thesis by (auto simp: same_items_def linked_in_def)
  qed
  also have "same_items {} s1 s'" using s'(4) by (rule same_items_view)
  finally have "same_items {} s s'" .
  moreover have "freed_items s' = freed_items s" using view_cong(6) [OF s'(4)] s1(2) by (auto simp: linked_in_def)
  moreover have "inorder (rebuild ?t ?c) = lefts ?c @ b # rights ?c"
    unfolding s'(3) inorder_plug by simp
  ultimately show ?thesis using s1(1) s'(1,2) by auto
qed

section \<open>Inserting beside a node\<close>

text \<open>The place on the outermost left or right of a tree.\<close>

lemma outermost:
  "x \<noteq> \<langle>\<rangle> \<Longrightarrow> \<exists>m u c. x = plug \<langle>\<rangle> ((e, m, u) # c)
     \<and> (e = Lft \<longrightarrow> lefts ((e, m, u) # c) = []) \<and> (e = Rgt \<longrightarrow> rights ((e, m, u) # c) = [])"
proof (induction x)
  case (Node l a r)
  show ?case
  proof (cases e)
    case Lft
    show ?thesis
    proof (cases "l = \<langle>\<rangle>")
      case True
      with Lft show ?thesis by (intro exI [of _ a] exI [of _ r] exI [of _ "[]"]) simp
    next
      case False
      with Node.IH(1) obtain m u c where "l = plug \<langle>\<rangle> ((e, m, u) # c)" "lefts ((e, m, u) # c) = []"
        using Lft by blast
      with Lft show ?thesis by (intro exI [of _ m] exI [of _ u] exI [of _ "c @ [(Lft, a, r)]"]) simp
    qed
  next
    case Rgt
    show ?thesis
    proof (cases "r = \<langle>\<rangle>")
      case True
      with Rgt show ?thesis by (intro exI [of _ a] exI [of _ l] exI [of _ "[]"]) simp
    next
      case False
      with Node.IH(2) obtain m u c where "r = plug \<langle>\<rangle> ((e, m, u) # c)" "rights ((e, m, u) # c) = []"
        using Rgt by blast
      with Rgt show ?thesis by (intro exI [of _ m] exI [of _ u] exI [of _ "c @ [(Rgt, a, l)]"]) simp
    qed
  qed
qed simp

text \<open>The new node stands behind (\<open>Rgt\<close>) or before (\<open>Lft\<close>) the node \<open>p\<close>; NULL is beyond the far end.\<close>

definition inserted :: "side \<Rightarrow> ptr \<Rightarrow> addr \<Rightarrow> addr list \<Rightarrow> addr list \<Rightarrow> bool" where
  "inserted d p b zs zs' \<longleftrightarrow> (\<exists>xs ys. zs = xs @ ys \<and> zs' = xs @ b # ys
     \<and> (if d = Rgt then last_of xs None = p else first_of ys None = p))"

definition insert_ok :: "side \<Rightarrow> 'a avl_tree \<Rightarrow> addr tree \<Rightarrow> ptr \<Rightarrow> addr \<Rightarrow> bool" where
  "insert_ok d s t p b \<longleftrightarrow> (\<exists>s' t'. insert_beside d s p (Some b) = Some s' \<and> avl_inv s' t'
     \<and> inserted d p b (inorder t) (inorder t') \<and> same_items {} s s' \<and> freed_items s' = freed_items s)"

lemma insert_outermost:
  assumes inv: "avl_inv s t" and t: "t = plug \<langle>\<rangle> ((e, m, u) # c)"
    and b: "nodes s b = Some nb" "b \<notin> set_tree t" and size: "size t + 1 < 2 ^ 64"
  shows "\<exists>s' t'. insert_beside e s (Some m) (Some b) = Some s' \<and> avl_inv s' t'
    \<and> inorder t' = lefts ((e, m, u) # c) @ b # rights ((e, m, u) # c)
    \<and> same_items {} s s' \<and> freed_items s' = freed_items s"
proof -
  have "b \<notin> around ((e, m, u) # c)" using b(2) unfolding t set_plug by simp
  from attach_inv [OF inv [unfolded t] b(1) this size [unfolded t]]
  obtain s' t' where "attach e s (Some m) (Some b) = Some s'" "avl_inv s' t'"
    "inorder t' = lefts ((e, m, u) # c) @ b # rights ((e, m, u) # c)"
    "same_items {} s s'" "freed_items s' = freed_items s" by blast
  moreover obtain n where "nodes s m = Some n" "child e n = None"
    using inv shape_plug [of "nodes s" "\<langle>\<rangle>" "(e, m, u) # c" "top s"] unfolding t avl_inv_def by auto
  ultimately show ?thesis by (subst insert_beside.simps) auto
qed

lemma insert_beside_node:
  assumes inv: "avl_inv s t" and a: "a \<in> set_tree t"
    and b: "nodes s b = Some nb" "b \<notin> set_tree t" and size: "size t + 1 < 2 ^ 64"
  shows "insert_ok d s t (Some a) b"
proof -
  obtain l r ctx where "t = plug \<langle>l, a, r\<rangle> ctx" using place_of [OF a] by blast
  then obtain x y where t: "t = plug (node_on d x a y) ctx" using node_on_cases [of "\<langle>l, a, r\<rangle>" d] by (cases d) auto
  have "shape (nodes s) None t" "top s = rootp t" using inv by (simp_all add: avl_inv_def)
  then obtain p where "shape (nodes s) p (node_on d x a y)"
    using shape_plug [of "nodes s" "node_on d x a y" ctx "top s"] t by auto
  then obtain n where n: "nodes s a = Some n" "child d n = rootp x" by auto
  show ?thesis
  proof (cases "x = \<langle>\<rangle>")
    case True
    then have "t = plug \<langle>\<rangle> ((d, a, y) # ctx)" using t by simp
    from insert_outermost [OF inv this b size] obtain s' t' where s': "insert_beside d s (Some a) (Some b) = Some s'"
      "avl_inv s' t'" "inorder t' = lefts ((d, a, y) # ctx) @ b # rights ((d, a, y) # ctx)"
      "same_items {} s s'" "freed_items s' = freed_items s" by blast
    have "inserted d (Some a) b (inorder t) (inorder t')"
      unfolding inserted_def using s'(3) t True
      by (intro exI [of _ "lefts ((d, a, y) # ctx)"] exI [of _ "rights ((d, a, y) # ctx)"]) (cases d; simp)
    with s' show ?thesis unfolding insert_ok_def by blast
  next
    case False
    then obtain m u c where x: "x = plug \<langle>\<rangle> ((opposite d, m, u) # c)"
      "opposite d = Lft \<longrightarrow> lefts ((opposite d, m, u) # c) = []" "opposite d = Rgt \<longrightarrow> rights ((opposite d, m, u) # c) = []"
      using outermost [of x "opposite d"] by blast
    let ?c = "c @ (d, a, y) # ctx"
    have tm: "t = plug \<langle>\<rangle> ((opposite d, m, u) # ?c)" using t x(1) by simp
    have io: "inorder t = lefts ctx @ inorder (node_on d x a y) @ rights ctx" by (simp add: t)
    have link: "link d n = Some m"
      using inv n(1) x unfolding avl_inv_def io by (cases d) (auto simp: node_view_def kept_def)
    from insert_outermost [OF inv tm b size] obtain s' t' where s':
      "insert_beside (opposite d) s (Some m) (Some b) = Some s'" "avl_inv s' t'"
      "inorder t' = lefts ((opposite d, m, u) # ?c) @ b # rights ((opposite d, m, u) # ?c)"
      "same_items {} s s'" "freed_items s' = freed_items s" by blast
    have "insert_beside d s (Some a) (Some b) = Some s'"
      using s'(1) n False link by (subst insert_beside.simps) simp
    moreover have "inserted d (Some a) b (inorder t) (inorder t')"
      unfolding inserted_def using s'(3) tm x
      by (intro exI [of _ "lefts ((opposite d, m, u) # ?c)"] exI [of _ "rights ((opposite d, m, u) # ?c)"])
        (cases d; simp)
    ultimately show ?thesis using s' unfolding insert_ok_def by blast
  qed
qed

lemma insert_beside_null:
  assumes inv: "avl_inv s t" and b: "nodes s b = Some nb" "b \<notin> set_tree t" and size: "size t + 1 < 2 ^ 64"
  shows "insert_ok d s t None b"
proof (cases "t = \<langle>\<rangle>")
  case True
  have ends: "list_end (opposite d) s = None"
    using inv True by (cases d) (simp_all add: avl_inv_def)
  define nb' where "nb' = nb \<lparr> n_left := None, n_right := None, n_count := 1, n_depth := 1,
    n_prev := None, n_next := None, n_parent := None \<rparr>"
  define s' where "s' = s \<lparr> nodes := (nodes s)(b \<mapsto> nb'), head := Some b, tail := Some b, top := Some b \<rparr>"
  have "insert_beside d s None (Some b) = Some s'"
    using b(1) ends by (simp add: insert_beside.simps avl_insert_top_def avl_node_clear_def s'_def nb'_def)
  moreover have "avl_inv s' \<langle>\<langle>\<rangle>, b, \<langle>\<rangle>\<rangle>"
    by (simp add: avl_inv_def s'_def nb'_def node_view_def kept_def)
  moreover have "same_items {} s s'" using b(1) by (simp add: same_items_def s'_def nb'_def)
  ultimately show ?thesis
    unfolding insert_ok_def inserted_def using True
    by (intro exI [of _ s'] exI [of _ "\<langle>\<langle>\<rangle>, b, \<langle>\<rangle>\<rangle>"] conjI exI [of _ "[]"]) (simp_all add: s'_def)
next
  case False
  then obtain m u c where t: "t = plug \<langle>\<rangle> ((opposite d, m, u) # c)"
    "opposite d = Lft \<longrightarrow> lefts ((opposite d, m, u) # c) = []" "opposite d = Rgt \<longrightarrow> rights ((opposite d, m, u) # c) = []"
    using outermost [of t "opposite d"] by blast
  have ends: "list_end (opposite d) s = Some m"
    using inv t unfolding avl_inv_def by (cases d) simp_all
  from insert_outermost [OF inv t(1) b size] obtain s' t' where s':
    "insert_beside (opposite d) s (Some m) (Some b) = Some s'" "avl_inv s' t'"
    "inorder t' = lefts ((opposite d, m, u) # c) @ b # rights ((opposite d, m, u) # c)"
    "same_items {} s s'" "freed_items s' = freed_items s" by blast
  have "insert_beside d s None (Some b) = Some s'"
    using s'(1) ends by (subst insert_beside.simps) simp
  moreover have "inserted d None b (inorder t) (inorder t')"
    unfolding inserted_def using s'(3) t
    by (intro exI [of _ "lefts ((opposite d, m, u) # c)"] exI [of _ "rights ((opposite d, m, u) # c)"]) (cases d; simp)
  ultimately show ?thesis using s' unfolding insert_ok_def by blast
qed

end
