(* ===== verification/Avl_Delete.thy ===== *)
theory Avl_Delete
  imports Avl_Insert
begin

text \<open>
  Unlinking and deleting a node of the AVL tree: the invariant is kept and exactly this node leaves
  the list.
\<close>

section \<open>The list of neighbours\<close>

lemma struct_link_update [simp]:
  "struct (n \<lparr> n_next := q \<rparr>) = struct n" "struct (n \<lparr> n_prev := q \<rparr>) = struct n"
  by (simp_all add: struct_def)

lemma kept_link_update:
  "kept (n \<lparr> n_next := q \<rparr>) = with_link Rgt q (kept n)" "kept (n \<lparr> n_prev := q \<rparr>) = with_link Lft q (kept n)"
  by (simp_all add: kept_def)

text \<open>The tree \<open>s1\<close> has the shape of \<open>s\<close> and its list is \<open>zs\<close>.\<close>

definition relinked :: "'a avl_tree \<Rightarrow> 'a avl_tree \<Rightarrow> addr list \<Rightarrow> bool" where
  "relinked s s1 zs \<longleftrightarrow> (\<forall>c. map_option struct (nodes s1 c) = map_option struct (nodes s c))
     \<and> linked (node_view s1) None zs None \<and> head s1 = first_of zs None \<and> tail s1 = last_of zs None
     \<and> top s1 = top s \<and> freed_items s1 = freed_items s \<and> same_items {} s s1"

lemma unlink_neighbours_ok:
  assumes l: "linked (node_view s) None (xs @ a # ys) None" and dist: "distinct (xs @ a # ys)"
    and ht: "head s = first_of (xs @ a # ys) None" "tail s = last_of (xs @ a # ys) None"
    and n: "nodes s a = Some n"
  shows "\<exists>s1. unlink_neighbours (Some a) s = Some s1 \<and> nodes s1 a = Some n \<and> relinked s s1 (xs @ ys)"
proof -
  have pn: "n_prev n = last_of xs None" "n_next n = first_of ys None"
    using l n by (auto simp: node_view_def kept_def)
  define nx where "nx = first_of ys None"
  define pv where "pv = last_of xs None"
  define h1 where "h1 = (case pv of None \<Rightarrow> nodes s
    | Some m \<Rightarrow> (nodes s)(m := map_option (\<lambda>k. k \<lparr> n_next := nx \<rparr>) (nodes s m)))"
  define h2 where "h2 = (case nx of None \<Rightarrow> h1
    | Some m \<Rightarrow> h1(m := map_option (\<lambda>k. k \<lparr> n_prev := pv \<rparr>) (h1 m)))"
  define s1 where "s1 = s \<lparr> nodes := h2, head := (if pv = None then nx else head s),
    tail := (if nx = None then pv else tail s) \<rparr>"
  have pv: "m \<in> set xs" "m \<noteq> a" "m \<notin> set ys" "\<exists>k. nodes s m = Some k" if "pv = Some m" for m
    using that last_of_in [of xs m] dist linked_defined [OF l, of m] by (auto simp: pv_def node_view_def)
  have nx: "m \<in> set ys" "m \<noteq> a" "m \<notin> set xs" "\<exists>k. nodes s m = Some k" if "nx = Some m" for m
    using that first_of_in [of ys m] dist linked_defined [OF l, of m] by (auto simp: nx_def node_view_def)
  have a1: "h1 a = Some n" using n pv by (auto simp: h1_def split: option.splits)
  have a2: "h2 a = Some n" using a1 nx by (auto simp: h2_def split: option.splits)
  have h1nx: "\<exists>k. h1 m = Some k" if "nx = Some m" for m
    using nx [OF that] by (auto simp: h1_def split: option.splits)
  have "unlink_neighbours (Some a) s = Some s1"
  proof (cases pv)
    case None
    show ?thesis
    proof (cases nx)
      case None
      with \<open>pv = None\<close> n pn show ?thesis
        by (simp add: unlink_neighbours_def s1_def h1_def h2_def pv_def nx_def)
    next
      case (Some m)
      with \<open>pv = None\<close> n pn nx [OF Some] show ?thesis
        by (auto simp: unlink_neighbours_def s1_def h1_def h2_def pv_def nx_def)
    qed
  next
    case p: (Some m)
    show ?thesis
    proof (cases nx)
      case None
      with p n pn pv [OF p] show ?thesis
        by (auto simp: unlink_neighbours_def s1_def h1_def h2_def pv_def nx_def)
    next
      case (Some k)
      with p n pn pv [OF p] nx [OF Some] h1nx [OF Some] show ?thesis
        by (auto simp: unlink_neighbours_def s1_def h1_def h2_def pv_def nx_def)
    qed
  qed
  moreover have "nodes s1 a = Some n" using a2 by (simp add: s1_def)
  moreover have "relinked s s1 (xs @ ys)"
  proof -
    have "map_option struct (h2 c) = map_option struct (nodes s c)" for c
      by (auto simp: h1_def h2_def option.map_comp comp_def split: option.splits)
    moreover have "linked (node_view s1) None (xs @ ys) None"
    proof (rule linked_remove [OF l dist])
      show "\<forall>x \<in> set xs. node_view s1 x =
        (if last_of xs None = Some x then map_option (with_link Rgt (first_of ys None)) (node_view s x) else node_view s x)"
      proof (intro ballI)
        fix x assume x: "x \<in> set xs"
        then have "x \<notin> set ys" using dist by auto
        then have "nx \<noteq> Some x" using nx by auto
        then show "node_view s1 x =
          (if last_of xs None = Some x then map_option (with_link Rgt (first_of ys None)) (node_view s x) else node_view s x)"
          unfolding pv_def [symmetric] nx_def [symmetric]
          by (auto simp: node_view_def s1_def h1_def h2_def kept_link_update option.map_comp comp_def split: option.splits)
      qed
      show "\<forall>x \<in> set ys. node_view s1 x =
        (if first_of ys None = Some x then map_option (with_link Lft (last_of xs None)) (node_view s x) else node_view s x)"
      proof (intro ballI)
        fix x assume x: "x \<in> set ys"
        then have "x \<notin> set xs" using dist by auto
        then have "pv \<noteq> Some x" using pv by auto
        then show "node_view s1 x =
          (if first_of ys None = Some x then map_option (with_link Lft (last_of xs None)) (node_view s x) else node_view s x)"
          unfolding pv_def [symmetric] nx_def [symmetric]
          by (auto simp: node_view_def s1_def h1_def h2_def kept_link_update option.map_comp comp_def split: option.splits)
      qed
    qed
    moreover have "head s1 = first_of (xs @ ys) None" "tail s1 = last_of (xs @ ys) None"
      using ht by (cases xs rule: rev_cases; cases ys; auto simp: s1_def pv_def nx_def)+
    moreover have "same_items {} s s1"
      by (auto simp: same_items_def s1_def h1_def h2_def option.map_comp comp_def split: option.splits)
    ultimately show ?thesis by (simp add: relinked_def s1_def)
  qed
  ultimately show ?thesis by blast
qed


section \<open>A part of the surroundings\<close>

text \<open>
  \<open>spine h r p c r' p'\<close>: the nodes \<open>c\<close> lead from a subtree with root pointer \<open>r\<close> and parent \<open>p\<close> up to
  the root pointer \<open>r'\<close> of a larger subtree with parent \<open>p'\<close>.
\<close>

fun spine :: "'a heap \<Rightarrow> ptr \<Rightarrow> ptr \<Rightarrow> surroundings \<Rightarrow> ptr \<Rightarrow> ptr \<Rightarrow> bool" where
  "spine h r p [] r' p' \<longleftrightarrow> r = r' \<and> p = p'"
| "spine h r p ((d, a, u) # c) r' p' \<longleftrightarrow> p = Some a \<and> (\<exists>n. h a = Some n \<and> child d n = r
     \<and> child (opposite d) n = rootp u \<and> spine h (Some a) (n_parent n) c r' p') \<and> shape h (Some a) u"

lemma surrounds_append:
  "surrounds h tp r p (c @ c') \<longleftrightarrow> (\<exists>r' p'. spine h r p c r' p' \<and> surrounds h tp r' p' c')"
proof (induction c arbitrary: r p)
  case (Cons x c)
  obtain d a u where "x = (d, a, u)" by (cases x)
  with Cons show ?case by auto
qed simp

lemma spine_frame:
  "\<forall>b \<in> around c. h' b = h b \<Longrightarrow> spine h' r p c r' p' = spine h r p c r' p'"
proof (induction c arbitrary: r p)
  case (Cons x c)
  obtain d a u where x: "x = (d, a, u)" by (cases x)
  have "shape h' (Some a) u = shape h (Some a) u" using Cons.prems x by (intro shape_frame) simp
  moreover have "spine h' (Some a) q c r' p' = spine h (Some a) q c r' p'" for q
    using Cons.prems x by (intro Cons.IH) simp
  ultimately show ?case using Cons.prems x by simp
qed simp

lemma spine_upd [simp]: "b \<notin> around c \<Longrightarrow> spine (h(b := v)) r p c r' p' = spine h r p c r' p'"
  by (rule spine_frame) auto

lemma spine_root: "spine h r p c r' p' \<Longrightarrow> c \<noteq> [] \<Longrightarrow> \<exists>a. r' = Some a \<and> a \<in> around c \<and> (\<exists>n. h a = Some n)"
proof (induction c arbitrary: r p)
  case (Cons x c)
  obtain d a u where "x = (d, a, u)" by (cases x)
  with Cons show ?case by (cases c) auto
qed simp

text \<open>Changing the child pointer at the lower end and the parent pointer at the upper end.\<close>

lemma spine_lower:
  assumes "spine h r p ((d, a, u) # c) r' p'" "h a = Some n" "a \<notin> set_tree u" "a \<notin> around c"
  shows "spine (h(a \<mapsto> set_child d q n)) q p ((d, a, u) # c) r' p'"
  using assms by auto

lemma spine_upper:
  assumes "spine h r p c r' p'" "c \<noteq> []" "apart A c"
  shows "spine (adopt r' q h) r p c r' q"
  using assms
proof (induction c arbitrary: r p A)
  case (Cons x c)
  obtain d a u where x: "x = (d, a, u)" by (cases x)
  from Cons.prems(1) x obtain n where n: "p = Some a" "h a = Some n" "child d n = r" "child (opposite d) n = rootp u"
    "spine h (Some a) (n_parent n) c r' p'" "shape h (Some a) u" by auto
  have ap: "a \<notin> set_tree u" "apart (insert a (A \<union> set_tree u)) c" using Cons.prems(3) x by auto
  show ?case
  proof (cases "c = []")
    case True
    with n ap x show ?thesis by (auto simp: adopt_def)
  next
    case False
    from spine_root [OF n(5) False] obtain b where b: "r' = Some b" "b \<in> around c" by blast
    have "b \<noteq> a" "b \<notin> set_tree u" using b(2) apart_around [OF ap(2)] by auto
    moreover have "spine (adopt r' q h) (Some a) (n_parent n) c r' q" by (rule Cons.IH [OF n(5) False ap(2)])
    moreover have "adopt r' q h a = Some n" "shape (adopt r' q h) (Some a) u"
      using calculation(1,2) n b(1) by (simp_all add: adopt_def)
    ultimately show ?thesis using n x by simp
  qed
qed simp

lemma spine_adopt_other [simp]:
  "set_tree t \<inter> around c = {} \<Longrightarrow> spine (adopt (rootp t) q h) r p c r' p' = spine h r p c r' p'"
  by (rule spine_frame) (auto intro!: adopt_other)

section \<open>The substitute\<close>

text \<open>
  The state after \<open>detach_subst\<close>: the rest \<open>sl\<close> of the substitute's old place hangs below \<open>q\<close>, and from
  there the nodes \<open>lc\<close> lead up to the left child \<open>r'\<close> of the substitute \<open>b\<close>.
\<close>

definition detached ::
    "'a avl_tree \<Rightarrow> 'a avl_tree \<Rightarrow> addr \<Rightarrow> addr tree \<Rightarrow> surroundings \<Rightarrow> ptr \<Rightarrow> bool" where
  "detached s s2 b sl lc q \<longleftrightarrow> shape (nodes s2) q sl
     \<and> (\<exists>r' n. spine (nodes s2) (rootp sl) q lc r' (Some b) \<and> nodes s2 b = Some n \<and> n_left n = r')
     \<and> (\<forall>c. c \<notin> insert b (set_tree sl \<union> around lc) \<longrightarrow> nodes s2 c = nodes s c)
     \<and> top s2 = top s"

lemma put_eq_adopt:
  "put (Some b) (\<lambda>n. n \<lparr> n_parent := q \<rparr>) s = (if nodes s b = None then None
     else Some (s \<lparr> nodes := adopt (Some b) q (nodes s) \<rparr>))"
  by (auto simp: put_def adopt_def split: option.splits)

lemma detach_subst_ok:
  assumes sh: "shape (nodes s) (Some a) (plug \<langle>sl, b, \<langle>\<rangle>\<rangle> lc)" and sides: "rights lc = []"
    and dist: "distinct (inorder (plug \<langle>sl, b, \<langle>\<rangle>\<rangle> lc))"
    and sp: "spine (nodes s) (Some b) p lc (rootp (plug \<langle>sl, b, \<langle>\<rangle>\<rangle> lc)) (Some a)"
    and b: "nodes s b = Some n" "n_parent n = p" "n_left n = rootp sl" "shape (nodes s) (Some b) sl"
  shows "\<exists>s2 q. detach_subst (Some b) (rootp (plug \<langle>sl, b, \<langle>\<rangle>\<rangle> lc)) s = Some (s2, q) \<and> detached s s2 b sl lc q"
proof (cases lc)
  case Nil
  then show ?thesis using b by (auto simp: detach_subst_def detached_def)
next
  case (Cons x lc')
  obtain d c u where x: "x = (d, c, u)" by (cases x)
  have d: "d = Rgt" using sides Cons x by (cases d) simp_all
  let ?l = "plug \<langle>sl, b, \<langle>\<rangle>\<rangle> lc"
  from sp Cons x obtain nc where c: "p = Some c" "nodes s c = Some nc" by auto
  have ap: "apart (insert b (set_tree sl)) lc" and dsl: "distinct (inorder sl)" "b \<notin> set_tree sl"
    using dist unfolding distinct_plug by simp_all
  have dis: "b \<notin> around lc" "set_tree sl \<inter> around lc = {}" "c \<noteq> b" "c \<notin> set_tree sl" "c \<notin> set_tree u" "c \<notin> around lc'"
    using apart_around [OF ap] ap Cons x apart_around [of "insert c (insert b (set_tree sl) \<union> set_tree u)" lc'] by auto
  obtain e where e: "rootp ?l = Some e" "e \<in> around lc" "\<exists>k. nodes s e = Some k"
    using spine_root [OF sp] Cons by blast
  have eb: "e \<noteq> b" "e \<notin> set_tree sl" using e(2) dis by auto
  define h1 where "h1 = (nodes s)(c \<mapsto> set_child Rgt (rootp sl) nc)"
  define h2 where "h2 = adopt (rootp sl) (Some c) h1"
  define nb where "nb = set_child Lft (rootp ?l) n"
  define h3 where "h3 = h2(b \<mapsto> nb)"
  define h4 where "h4 = adopt (Some e) (Some b) h3"
  define s2 where "s2 = s \<lparr> nodes := h4 \<rparr>"
  have sh1: "shape h1 (Some b) sl" using b(4) dis by (simp add: h1_def)
  have hb: "h2 b = Some n" using b(1) dis dsl by (simp add: h2_def h1_def)
  have he: "h3 e \<noteq> None" using e(3) eb dsl dis by (auto simp: h3_def h2_def h1_def)
  have "detach_subst (Some b) (rootp ?l) s = Some (s2, Some c)"
    using b(1-3) c e(1) eb sh1 hb he unfolding s2_def h4_def h3_def h2_def nb_def h1_def
    by (simp add: detach_subst_def Let_def put_eq_adopt del: set_child.simps)
  moreover have "detached s s2 b sl lc (Some c)"
  proof -
    have "spine h1 (rootp sl) p lc (rootp ?l) (Some a)"
      using spine_lower [of "nodes s" "Some b" p d c u lc' "rootp ?l" "Some a" nc "rootp sl"] sp Cons x c dis d
      by (simp add: h1_def)
    then have "spine h3 (rootp sl) p lc (rootp ?l) (Some a)"
      using dis by (simp add: h3_def h2_def)
    from spine_upper [OF this _ ap, of "Some b"] Cons
    have "spine (adopt (rootp ?l) (Some b) h3) (rootp sl) p lc (rootp ?l) (Some b)" by blast
    then have "spine h4 (rootp sl) (Some c) lc (rootp ?l) (Some b)"
      unfolding e(1) c(1) h4_def .
    moreover have "shape h4 (Some c) sl"
      using sh1 dsl eb by (simp add: h4_def h3_def h2_def adopt_def [of "Some e"])
    moreover have "h4 b = Some nb" using eb by (simp add: h4_def h3_def adopt_def)
    moreover have "h4 k = nodes s k" if "k \<notin> insert b (set_tree sl \<union> around lc)" for k
    proof -
      have "k \<noteq> b" "k \<notin> set_tree sl" "k \<noteq> e" "k \<noteq> c" using that e(2) Cons x by auto
      then show ?thesis by (simp add: h4_def h3_def h2_def h1_def adopt_def [of "Some e"])
    qed
    ultimately show ?thesis by (auto simp: detached_def s2_def nb_def)
  qed
  ultimately show ?thesis by blast
qed

section \<open>The children\<close>

text \<open>
  The state in which \<open>avl_node_unlink\<close> calls \<open>avl_rebalance\<close> with \<open>q\<close>: a subtree \<open>t\<close> below \<open>q\<close> in
  the surroundings \<open>c\<close> has taken the place of a subtree \<open>t0\<close> of about the same height.
\<close>

definition ready :: "'a avl_tree \<Rightarrow> ptr \<Rightarrow> addr tree \<Rightarrow> surroundings \<Rightarrow> addr tree \<Rightarrow> bool" where
  "ready s q t c t0 \<longleftrightarrow> shape (nodes s) q t \<and> surrounds (nodes s) (top s) (rootp t) q c
     \<and> avl (plug t0 c) \<and> avl t \<and> height t \<le> height t0 + 1 \<and> height t0 \<le> height t + 1"

definition unlinked :: "'a avl_tree \<Rightarrow> addr \<Rightarrow> addr list \<Rightarrow> bool" where
  "unlinked s a zs \<longleftrightarrow> (\<exists>s2 q t c t0. unlink_children (Some a) s = Some (s2, q) \<and> ready s2 q t c t0
     \<and> inorder (plug t c) = zs)"

text \<open>A tree with its shape, without its list.\<close>

definition shaped :: "'a avl_tree \<Rightarrow> addr tree \<Rightarrow> bool" where
  "shaped s t \<longleftrightarrow> distinct (inorder t) \<and> avl t \<and> shape (nodes s) None t \<and> top s = rootp t"

text \<open>A node with its surroundings and the field that points to it.\<close>

lemma shaped_place:
  assumes "shaped s (plug \<langle>l, a, r\<rangle> ctx)"
  obtains n p sp where "nodes s a = Some n" "n_parent n = p" "n_left n = rootp l" "n_right n = rootp r"
    "shape (nodes s) (Some a) l" "shape (nodes s) (Some a) r" "surrounds (nodes s) (top s) (Some a) p ctx"
    "superparent s (Some a) p = Some sp" "slot_valid sp (nodes s)"
    "insert a (set_tree l \<union> set_tree r) \<inter> slot_addr sp = {}"
    "insert a (set_tree l \<union> set_tree r) \<inter> around ctx = {}"
    "\<And>h' q. \<forall>b \<in> around ctx. h' b = slot_heap sp q (nodes s) b
         \<Longrightarrow> surrounds h' (slot_top sp q (top s)) q p ctx"
proof -
  obtain p where p: "shape (nodes s) p \<langle>l, a, r\<rangle>" "surrounds (nodes s) (top s) (Some a) p ctx"
    using shape_plug [of "nodes s" "\<langle>l, a, r\<rangle>" ctx "top s"] assms by (auto simp: shaped_def)
  have ap: "apart (insert a (set_tree l \<union> set_tree r)) ctx"
    using assms distinct_plug [of "\<langle>l, a, r\<rangle>" ctx] by (simp add: shaped_def Un_commute)
  show thesis
    using surrounds_superparent [OF p(2) ap] apart_around [OF ap] p that by auto
qed

text \<open>One of the subtrees is empty: the other one takes the place of the node.\<close>

lemma unlink_one:
  assumes t: "shaped s (plug \<langle>l, a, r\<rangle> ctx)" and e: "l = \<langle>\<rangle> \<or> r = \<langle>\<rangle>"
  shows "unlinked s a (lefts ctx @ inorder l @ inorder r @ rights ctx)"
proof -
  from t obtain n p sp where n: "nodes s a = Some n" "n_parent n = p" "n_left n = rootp l" "n_right n = rootp r"
    and sh: "shape (nodes s) (Some a) l" "shape (nodes s) (Some a) r"
    and sp: "superparent s (Some a) p = Some sp" "slot_valid sp (nodes s)"
      "insert a (set_tree l \<union> set_tree r) \<inter> slot_addr sp = {}"
    and dis: "insert a (set_tree l \<union> set_tree r) \<inter> around ctx = {}"
    and hang: "\<And>h' q. \<forall>b \<in> around ctx. h' b = slot_heap sp q (nodes s) b
         \<Longrightarrow> surrounds h' (slot_top sp q (top s)) q p ctx"
    by (rule shaped_place) blast
  define u where "u = (if l = \<langle>\<rangle> then r else l)"
  have u: "set_tree u \<inter> slot_addr sp = {}" "set_tree u \<inter> around ctx = {}" "shape (nodes s) (Some a) u"
    using sp(3) dis sh by (auto simp: u_def)
  have avl: "avl \<langle>l, a, r\<rangle>" and du: "distinct (inorder u)"
    using t avl_plug_subtree [of "\<langle>l, a, r\<rangle>" ctx] distinct_plug [of "\<langle>l, a, r\<rangle>" ctx] by (auto simp: shaped_def u_def)
  define h where "h = adopt (rootp u) p (slot_heap sp (rootp u) (nodes s))"
  define s2 where "s2 = s \<lparr> top := slot_top sp (rootp u) (top s), nodes := h \<rparr>"
  have shu: "shape (slot_heap sp (rootp u) (nodes s)) (Some a) u" using u by simp
  have run: "unlink_children (Some a) s = Some (s2, p)"
  proof (cases "l = \<langle>\<rangle>")
    case True
    then show ?thesis using n sp(1,2) shu by (simp add: unlink_children_def Let_def s2_def h_def u_def)
  next
    case False
    with e have "r = \<langle>\<rangle>" "u = l" by (auto simp: u_def)
    moreover obtain b where b: "rootp l = Some b" "b \<in> set_tree l" using False by (cases l) auto
    moreover have "slot_heap sp (Some b) (nodes s) b \<noteq> None"
    proof -
      have "b \<notin> slot_addr sp" using b(2) sp(3) by blast
      then show ?thesis using shape_defined [OF sh(1) b(2)] by auto
    qed
    ultimately show ?thesis using n sp(1,2) False
      by (simp add: unlink_children_def Let_def s2_def h_def put_eq_adopt)
  qed
  have "shape h p u" unfolding h_def by (rule shape_adopt [OF shu du])
  moreover have "surrounds h (slot_top sp (rootp u) (top s)) (rootp u) p ctx"
  proof (rule hang, intro ballI)
    fix b assume "b \<in> around ctx"
    then have "b \<notin> set_tree u" using u(2) by blast
    then show "h b = slot_heap sp (rootp u) (nodes s) b" by (simp add: h_def)
  qed
  moreover have "avl (plug \<langle>l, a, r\<rangle> ctx)" using t by (simp add: shaped_def)
  moreover have "avl u" "height u \<le> height \<langle>l, a, r\<rangle> + 1" "height \<langle>l, a, r\<rangle> \<le> height u + 1"
    using avl e by (auto simp: u_def)
  ultimately have "ready s2 p u ctx \<langle>l, a, r\<rangle>" by (simp add: ready_def s2_def)
  moreover have "inorder (plug u ctx) = lefts ctx @ inorder l @ inorder r @ rights ctx"
    using e by (auto simp: u_def)
  ultimately show ?thesis using run unfolding unlinked_def by blast
qed

lemma adopt_Some [simp]:
  "adopt (Some b) q (h(b \<mapsto> n)) = h(b \<mapsto> n \<lparr> n_parent := q \<rparr>)"
  "k \<noteq> b \<Longrightarrow> adopt (Some b) q h k = h k"
  by (simp_all add: adopt_def)

text \<open>Both subtrees are there: the predecessor takes the place of the node.\<close>

lemma unlink_two:
  assumes t: "shaped s (plug \<langle>l, a, r\<rangle> ctx)" and l0: "l \<noteq> \<langle>\<rangle>" and r0: "r \<noteq> \<langle>\<rangle>"
    and prev: "\<And>n. nodes s a = Some n \<Longrightarrow> n_prev n = last_of (inorder l) None"
  shows "unlinked s a (lefts ctx @ inorder l @ inorder r @ rights ctx)"
proof -
  obtain b sl lc0 where l: "l = plug \<langle>\<rangle> ((Rgt, b, sl) # lc0)" and rl0: "rights ((Rgt, b, sl) # lc0) = []"
    using outermost [OF l0, of Rgt] by blast
  define lc where "lc = lc0"
  have l: "l = plug \<langle>sl, b, \<langle>\<rangle>\<rangle> lc" and rl: "rights lc = []" using l rl0 by (simp_all add: lc_def)
  from t obtain n p sp where n: "nodes s a = Some n" "n_parent n = p" "n_left n = rootp l" "n_right n = rootp r"
    and sh: "shape (nodes s) (Some a) l" "shape (nodes s) (Some a) r"
    and sur: "surrounds (nodes s) (top s) (Some a) p ctx"
    and sp: "superparent s (Some a) p = Some sp" "slot_valid sp (nodes s)"
      "insert a (set_tree l \<union> set_tree r) \<inter> slot_addr sp = {}"
    and dis: "insert a (set_tree l \<union> set_tree r) \<inter> around ctx = {}"
    and hang: "\<And>h' q. \<forall>b \<in> around ctx. h' b = slot_heap sp q (nodes s) b
         \<Longrightarrow> surrounds h' (slot_top sp q (top s)) q p ctx"
    by (rule shaped_place) blast
  have avl: "avl \<langle>l, a, r\<rangle>" and dt: "distinct (inorder \<langle>l, a, r\<rangle>)"
    using t avl_plug_subtree [of "\<langle>l, a, r\<rangle>" ctx] distinct_plug [of "\<langle>l, a, r\<rangle>" ctx] by (auto simp: shaped_def)
  have lr: "set_tree l \<inter> set_tree r = {}" "a \<notin> set_tree l" "a \<notin> set_tree r" "distinct (inorder l)" "distinct (inorder r)"
    using dt by auto
  have setl: "set_tree l = insert b (set_tree sl) \<union> around lc" by (simp add: l)
  have pb: "n_prev n = Some b" using prev [OF n(1)] rl by (simp add: l)
  obtain pb where b: "shape (nodes s) pb \<langle>sl, b, \<langle>\<rangle>\<rangle>" "surrounds (nodes s) (top s) (Some b) pb (lc @ (Lft, a, r) # ctx)"
    using shape_plug [of "nodes s" "\<langle>sl, b, \<langle>\<rangle>\<rangle>" "lc @ (Lft, a, r) # ctx" "top s"] t by (auto simp: shaped_def l)
  then obtain nb where nb: "nodes s b = Some nb" "n_parent nb = pb" "n_left nb = rootp sl" "shape (nodes s) (Some b) sl"
    by auto
  have spine: "spine (nodes s) (Some b) pb lc (rootp l) (Some a)"
    using b(2) n(1,3) by (auto simp: surrounds_append)
  from detach_subst_ok [of s a sl b lc pb nb, folded l, OF sh(1) rl lr(4) spine nb]
  obtain s2 q where s2: "detach_subst (Some b) (rootp l) s = Some (s2, q)" "detached s s2 b sl lc q" by blast
  from s2(2) obtain r' m where d: "shape (nodes s2) q sl" "spine (nodes s2) (rootp sl) q lc r' (Some b)"
    "nodes s2 b = Some m" "n_left m = r'" "top s2 = top s"
    and same: "\<And>c. c \<notin> set_tree l \<Longrightarrow> nodes s2 c = nodes s c"
    unfolding detached_def setl by auto
  have bl: "b \<in> set_tree l" "b \<notin> set_tree r" "b \<notin> slot_addr sp" "b \<notin> set_tree sl" "b \<notin> around lc" "b \<notin> around ctx"
    "set_tree sl \<inter> around lc = {}"
    using setl lr sp(3) dis distinct_plug [of "\<langle>sl, b, \<langle>\<rangle>\<rangle>" lc] apart_around [of "set_tree \<langle>sl, b, \<langle>\<rangle>\<rangle>" lc]
    unfolding l by auto
  define m' where "m' = m \<lparr> n_right := rootp r, n_parent := p \<rparr>"
  define h1 where "h1 = adopt (rootp r) (Some b) ((nodes s2)(b \<mapsto> m'))"
  define h where "h = slot_heap sp (Some b) h1"
  define s3 where "s3 = s2 \<lparr> top := slot_top sp (Some b) (top s2), nodes := h \<rparr>"
  have shr: "shape (nodes s2) (Some a) r"
    using sh(2) same lr(1) by (subst shape_frame [of r "nodes s2" "nodes s"]) auto
  obtain k where k: "rootp r = Some k" "k \<in> set_tree r" using r0 by (cases r) auto
  have kb: "k \<noteq> b" "nodes s2 k \<noteq> None" using k(2) bl(2) shape_defined [OF shr k(2)] by auto
  have valid: "slot_valid sp h1"
  proof (subst slot_valid_dom [where h = "nodes s"])
    fix c assume "c \<in> slot_addr sp"
    then have "c \<notin> set_tree l" "c \<noteq> b" using sp(3) bl(3) by auto
    then show "h1 c = None \<longleftrightarrow> nodes s c = None" using same by (simp add: h1_def adopt_None)
  qed (rule sp(2))
  have run: "unlink_children (Some a) s = Some (s3, q)"
    using n sp(1) l0 r0 pb s2(1) d(3) kb valid k(1)
    by (simp add: unlink_children_def Let_def put_eq_adopt s3_def h_def h1_def m'_def)
  have sl: "set_tree sl \<inter> slot_addr sp = {}" "around lc \<inter> slot_addr sp = {}" "set_tree r \<inter> slot_addr sp = {}"
    "set_tree r \<inter> set_tree sl = {}" "set_tree r \<inter> around lc = {}"
    using sp(3) lr(1) unfolding setl by auto
  have "shape h q sl" using d(1) sl bl unfolding h_def h1_def by simp
  moreover have "surrounds h (slot_top sp (Some b) (top s)) (rootp sl) q (lc @ (Lft, b, r) # ctx)"
  proof -
    have "spine h (rootp sl) q lc r' (Some b) = spine h1 (rootp sl) q lc r' (Some b)"
      unfolding h_def using sl(2) by (intro spine_frame) (auto intro!: slot_heap_other)
    then have "spine h (rootp sl) q lc r' (Some b)"
      using d(2) sl(5) bl(5) by (simp add: h1_def)
    moreover have "h b = Some m'" using bl(2,3) by (simp add: h_def h1_def)
    moreover have "shape h (Some b) r"
      unfolding h_def h1_def using shr lr(5) sl(3) bl(2) by (simp add: shape_adopt [where p = "Some a"])
    moreover have "surrounds h (slot_top sp (Some b) (top s)) (Some b) p ctx"
    proof (rule hang, intro ballI)
      fix c assume "c \<in> around ctx"
      then have "c \<notin> set_tree l" "c \<notin> set_tree r" "c \<noteq> b" using dis bl(6) by auto
      then show "h c = slot_heap sp (Some b) (nodes s) c"
        unfolding h_def by (intro slot_heap_cong) (simp add: h1_def same)
    qed
    ultimately show ?thesis using d(4) unfolding surrounds_append
      by (intro exI [of _ r'] exI [of _ "Some b"]) (simp add: m'_def)
  qed
  moreover have "avl (plug \<langle>sl, b, \<langle>\<rangle>\<rangle> (lc @ (Lft, b, r) # ctx))"
  proof -
    have "avl (plug \<langle>l, a, r\<rangle> ctx) = avl (plug \<langle>l, b, r\<rangle> ctx)"
      using avl by (intro avl_plug_cong) simp_all
    then show ?thesis using t by (simp add: shaped_def l)
  qed
  moreover have "avl \<langle>sl, b, \<langle>\<rangle>\<rangle>" using avl avl_plug_subtree [of "\<langle>sl, b, \<langle>\<rangle>\<rangle>" lc] by (simp add: l)
  ultimately have "ready s3 q sl (lc @ (Lft, b, r) # ctx) \<langle>sl, b, \<langle>\<rangle>\<rangle>" using d(5) by (simp add: ready_def s3_def)
  moreover have "inorder (plug sl (lc @ (Lft, b, r) # ctx)) = lefts ctx @ inorder l @ inorder r @ rights ctx"
    using rl by (simp add: l)
  ultimately show ?thesis using run unfolding unlinked_def by blast
qed

section \<open>Unlinking and deleting\<close>

lemma view_detach_subst [keeps]: "detach_subst p l s = Some (s', q) \<Longrightarrow> view s' = view s"
  by (auto simp: detach_subst_def Let_def bind_eq_Some_conv split: if_splits dest!: keeps)

lemma view_put_right [keeps]: "put p (set_child Rgt r) s = Some s' \<Longrightarrow> view s' = view s"
  by (rule view_put_child)

lemma view_unlink_children [keeps]: "unlink_children p s = Some (s', q) \<Longrightarrow> view s' = view s"
  by (auto simp: unlink_children_def Let_def bind_eq_Some_conv split: if_splits prod.splits dest!: keeps)

lemma shaped_struct:
  assumes "shaped s t" "\<forall>c. map_option struct (nodes s1 c) = map_option struct (nodes s c)" "top s1 = top s"
  shows "shaped s1 t"
  using assms shape_struct [of t "nodes s1" "nodes s" None] by (simp add: shaped_def)

lemma remove1_middle: "distinct (xs @ a # ys) \<Longrightarrow> remove1 a (xs @ a # ys) = xs @ ys"
  by (simp add: remove1_append)

lemma unlink_inv:
  assumes inv: "avl_inv s t" and a: "a \<in> set_tree t"
  shows "\<exists>s' t'. avl_node_unlink s (Some a) = Some s' \<and> avl_inv s' t' \<and> inorder t' = remove1 a (inorder t)
    \<and> same_items {} s s' \<and> freed_items s' = freed_items s"
proof -
  obtain l r ctx where t: "t = plug \<langle>l, a, r\<rangle> ctx" using place_of [OF a] by blast
  let ?xs = "lefts ctx @ inorder l" and ?ys = "inorder r @ rights ctx"
  have io: "inorder t = ?xs @ a # ?ys" by (simp add: t)
  have l: "linked (node_view s) None (?xs @ a # ?ys) None" and dist: "distinct (?xs @ a # ?ys)"
    and ht: "head s = first_of (?xs @ a # ?ys) None" "tail s = last_of (?xs @ a # ?ys) None"
    and sh: "shaped s t" using inv io unfolding avl_inv_def shaped_def by simp_all
  obtain n where n: "nodes s a = Some n" using shape_defined [of "nodes s" None t a] a inv by (auto simp: avl_inv_def)
  obtain s1 where s1: "unlink_neighbours (Some a) s = Some s1" "nodes s1 a = Some n" "relinked s s1 (?xs @ ?ys)"
    using unlink_neighbours_ok [OF l dist ht n] by blast
  have sh1: "shaped s1 (plug \<langle>l, a, r\<rangle> ctx)"
    using shaped_struct [OF sh, of s1] s1(3) by (simp add: relinked_def t)
  have prev: "n_prev n = last_of ?xs None" using l n by (auto simp: node_view_def kept_def)
  have "unlinked s1 a (lefts ctx @ inorder l @ inorder r @ rights ctx)"
  proof (cases "l = \<langle>\<rangle> \<or> r = \<langle>\<rangle>")
    case True
    from unlink_one [OF sh1 True] show ?thesis .
  next
    case False
    then have "l \<noteq> \<langle>\<rangle>" "r \<noteq> \<langle>\<rangle>" by simp_all
    moreover have "n_prev k = last_of (inorder l) None" if "nodes s1 a = Some k" for k
      using that s1(2) prev False by (cases "inorder l" rule: rev_cases) auto
    ultimately show ?thesis by (rule unlink_two [OF sh1])
  qed
  then obtain s2 q u c t0 where s2: "unlink_children (Some a) s1 = Some (s2, q)" "ready s2 q u c t0"
    "inorder (plug u c) = ?xs @ ?ys" unfolding unlinked_def by auto
  have v: "view s2 = view s1" using s2(1) by (rule view_unlink_children)
  have d: "distinct (inorder (plug u c))" using s2(3) dist by simp
  have "size (plug u c) < 2 ^ 64"
  proof -
    have "size (plug u c) < size t" by (simp only: length_inorder [symmetric] s2(3) io) simp
    with inv show ?thesis by (simp add: avl_inv_def)
  qed
  moreover have "linked (node_view s2) None (inorder (plug u c)) None"
    "head s2 = first_of (inorder (plug u c)) None" "tail s2 = last_of (inorder (plug u c)) None"
    unfolding s2(3) view_cong [OF v] using s1(3) by (simp_all add: relinked_def)
  ultimately obtain s' where s': "avl_rebalance s2 q = Some s'" "avl_inv s' (rebuild u c)"
    "inorder (rebuild u c) = inorder (plug u c)" "view s' = view s2"
    using rebalance_inv [of s2 q u c t0] s2(2) d unfolding ready_def by blast
  have "avl_node_unlink s (Some a) = Some s'"
    using s1(1) s2(1) s'(1) by (simp add: avl_node_unlink_def)
  moreover have "inorder (rebuild u c) = remove1 a (inorder t)"
    unfolding s'(3) s2(3) io remove1_middle [OF dist] by simp
  moreover have "same_items {} s s'"
  proof -
    have "same_items {} s s1" using s1(3) by (simp add: relinked_def)
    also have "same_items {} s1 s2" using v by (rule same_items_view)
    also have "same_items {} s2 s'" using s'(4) by (rule same_items_view)
    finally show ?thesis .
  qed
  moreover have "freed_items s' = freed_items s"
    using view_cong(6) [OF s'(4)] view_cong(6) [OF v] s1(3) by (simp add: relinked_def)
  ultimately show ?thesis using s'(2) by blast
qed

text \<open>A change of a node that is not in the tree, or of the record of freed items, keeps the invariant.\<close>

lemma avl_inv_frame:
  assumes "avl_inv s t" "\<forall>c \<in> set_tree t. nodes s' c = nodes s c"
    and "top s' = top s" "head s' = head s" "tail s' = tail s"
  shows "avl_inv s' t"
proof -
  have "shape (nodes s') None t = shape (nodes s) None t" using assms(2) by (rule shape_frame)
  moreover have "linked (node_view s') None (inorder t) None = linked (node_view s) None (inorder t) None"
    using assms(2) by (intro linked_frame) (simp add: node_view_def)
  ultimately show ?thesis using assms by (simp add: avl_inv_def)
qed

lemma delete_inv:
  assumes inv: "avl_inv s t" and a: "a \<in> set_tree t"
  shows "\<exists>s' t'. avl_node_delete s (Some a) = Some (s', Some (item_of s a)) \<and> avl_inv s' t'
    \<and> inorder t' = remove1 a (inorder t) \<and> nodes s' a = None \<and> same_items {a} s s'
    \<and> freed_items s' = freed_items s @ (if frees s then [item_of s a] else [])"
proof -
  obtain n where n: "nodes s a = Some n" using shape_defined [of "nodes s" None t a] a inv by (auto simp: avl_inv_def)
  from unlink_inv [OF inv a] obtain s1 t' where s1: "avl_node_unlink s (Some a) = Some s1" "avl_inv s1 t'"
    "inorder t' = remove1 a (inorder t)" "same_items {} s s1" "freed_items s1 = freed_items s" by blast
  have a': "a \<notin> set_tree t'"
    using inv s1(3) set_remove1_eq [of "inorder t" a] by (simp add: avl_inv_def flip: set_inorder)
  have "map_option n_item (nodes s1 a) = Some (n_item n)" "frees s1 = frees s"
    using s1(4) n by (simp_all add: same_items_def)
  then obtain m where m: "nodes s1 a = Some m" by auto
  define s' where "s' = (free_item (n_item n) s1) \<lparr> nodes := (nodes s1)(a := None) \<rparr>"
  have f: "nodes (free_item x s1) = nodes s1" "top (free_item x s1) = top s1" "head (free_item x s1) = head s1"
    "tail (free_item x s1) = tail s1" "cmpitem (free_item x s1) = cmpitem s1" "frees (free_item x s1) = frees s1" for x
    by (simp_all add: free_item_def)
  have "avl_node_delete s (Some a) = Some (s', Some (item_of s a))"
    using n s1(1) m by (simp add: avl_node_delete_def avl_node_free_def f s'_def item_of_def)
  moreover have "avl_inv s' t'" by (rule avl_inv_frame [OF s1(2)]) (use a' in \<open>auto simp: s'_def f\<close>)
  moreover have "nodes s' a = None" by (simp add: s'_def)
  moreover have "same_items {a} s s'" using s1(4) by (auto simp: same_items_def s'_def f)
  moreover have "freed_items s' = freed_items s @ (if frees s then [item_of s a] else [])"
    using s1(5) \<open>frees s1 = frees s\<close> n by (simp add: s'_def free_item_def item_of_def)
  ultimately show ?thesis using s1(3) by blast
qed

end
