(* ===== verification/Avl_Search.thy ===== *)
theory Avl_Search
  imports Avl_Insert Avl_Delete
begin

text \<open>
  Searching the AVL tree: for an item whose comparison with the items of the list is first positive,
  then 0 and then negative, \<open>avl_search_rightish\<close> and \<open>avl_item_search_right\<close> find the nodes their
  documentation promises.
\<close>

section \<open>The searches\<close>

text \<open>The comparison of the searched item with the item of a node.\<close>

abbreviation cmp_at :: "'a avl_tree \<Rightarrow> 'a \<Rightarrow> addr \<Rightarrow> int" where
  "cmp_at s x a \<equiv> cmpitem s x (item_of s a)"

definition directed :: "(addr \<Rightarrow> int) \<Rightarrow> addr list \<Rightarrow> bool" where
  "directed c zs \<longleftrightarrow> sorted_wrt (\<lambda>a b. (c a < 0 \<longrightarrow> c b < 0) \<and> (c b > 0 \<longrightarrow> c a > 0)) zs"

text \<open>
  The result of a search: an equal node, such that all equal nodes behind it are in its right subtree,
  or the last node that is smaller.
\<close>

definition found :: "(addr \<Rightarrow> int) \<Rightarrow> addr tree \<Rightarrow> ptr \<times> bool \<Rightarrow> bool" where
  "found c t r \<longleftrightarrow> (case r of
      (p, True) \<Rightarrow> \<exists>l a u ctx. t = plug \<langle>l, a, u\<rangle> ctx \<and> p = Some a \<and> c a = 0 \<and> (\<forall>b \<in> set (rights ctx). c b < 0)
    | (p, False) \<Rightarrow> \<exists>xs ys. inorder t = xs @ ys \<and> p = last_of xs None \<and> (\<forall>a \<in> set xs. c a > 0) \<and> (\<forall>a \<in> set ys. c a < 0))"

lemma found_smaller:
  "inorder t = xs @ ys \<Longrightarrow> p = last_of xs None \<Longrightarrow> \<forall>a \<in> set xs. c a > 0 \<Longrightarrow> \<forall>a \<in> set ys. c a < 0 \<Longrightarrow>
     found c t (p, False)"
  by (auto simp: found_def)

lemma compare_node_at:
  "nodes s a = Some n \<Longrightarrow> compare_node s x (Some a) = Some (cmp_at s x a)"
  by (simp add: compare_node_def item_of_def)

lemma rightish_loop_found:
  assumes "shape (nodes s) p u" "u \<noteq> \<langle>\<rangle>" "t = plug u ctx"
    and "linked (node_view s) None (inorder t) None" "directed (cmp_at s x) (inorder t)"
    and "\<forall>a \<in> set (lefts ctx). cmp_at s x a > 0" "\<forall>a \<in> set (rights ctx). cmp_at s x a < 0"
  shows "\<exists>r. rightish_loop s x (rootp u) = Some r \<and> found (cmp_at s x) t r"
  using assms
proof (induction u arbitrary: p ctx)
  case (Node l a r)
  from Node.prems(1) obtain n where n: "nodes s a = Some n" "n_left n = rootp l" "n_right n = rootp r"
    and sh: "shape (nodes s) (Some a) l" "shape (nodes s) (Some a) r" by auto
  have c: "compare_node s x (Some a) = Some (cmp_at s x a)" by (rule compare_node_at [OF n(1)])
  have loop: "rightish_loop s x (Some a) = (if cmp_at s x a < 0 then
        (if l \<noteq> \<langle>\<rangle> then rightish_loop s x (rootp l) else Some (n_prev n, False))
      else if cmp_at s x a > 0 then
        (if r \<noteq> \<langle>\<rangle> then rightish_loop s x (rootp r) else Some (Some a, False))
      else Some (Some a, True))"
    using n c by (subst rightish_loop.simps) simp
  consider (neg) "cmp_at s x a < 0" | (pos) "cmp_at s x a > 0" | (eq) "cmp_at s x a = 0" by linarith
  then show ?case
  proof cases
    case neg
    have right: "\<forall>b \<in> set (a # inorder r @ rights ctx). cmp_at s x b < 0"
      using Node.prems(3,5,7) neg by (auto simp: directed_def sorted_wrt_append)
    show ?thesis
    proof (cases "l = \<langle>\<rangle>")
      case True
      have "n_prev n = last_of (lefts ctx) None"
        using Node.prems(3,4) n(1) True by (auto simp: node_view_def kept_def)
      then have "found (cmp_at s x) t (n_prev n, False)"
        using Node.prems(3,6) right True
        by (intro found_smaller [of t "lefts ctx" "a # inorder r @ rights ctx"]) simp_all
      with loop neg True show ?thesis by simp
    next
      case False
      have "\<exists>q. rightish_loop s x (rootp l) = Some q \<and> found (cmp_at s x) t q"
        using Node.prems right sh(1) False by (intro Node.IH(1) [of "Some a" "(Lft, a, r) # ctx"]) simp_all
      with loop neg False show ?thesis by simp
    qed
  next
    case pos
    have left: "\<forall>b \<in> set (lefts ctx @ inorder l @ [a]). cmp_at s x b > 0"
      using Node.prems(3,5,6) pos by (auto simp: directed_def sorted_wrt_append)
    show ?thesis
    proof (cases "r = \<langle>\<rangle>")
      case True
      have "found (cmp_at s x) t (Some a, False)"
        using Node.prems(3,7) left True
        by (intro found_smaller [of t "lefts ctx @ inorder l @ [a]" "rights ctx"]) simp_all
      with loop pos True show ?thesis by simp
    next
      case False
      have "\<exists>q. rightish_loop s x (rootp r) = Some q \<and> found (cmp_at s x) t q"
        using Node.prems left sh(2) False by (intro Node.IH(2) [of "Some a" "(Rgt, a, l) # ctx"]) simp_all
      with loop pos False show ?thesis by simp
    qed
  next
    case eq
    then have "found (cmp_at s x) t (Some a, True)" using Node.prems(3,7) by (auto simp: found_def)
    with loop eq show ?thesis by simp
  qed
qed simp

lemma search_rightish_found:
  assumes "avl_inv s t" "directed (cmp_at s x) (inorder t)"
  shows "\<exists>r. avl_search_rightish s x = Some r \<and> found (cmp_at s x) t r"
proof (cases "t = \<langle>\<rangle>")
  case True
  with assms show ?thesis by (simp add: avl_search_rightish_def avl_inv_def found_def)
next
  case False
  from assms have "\<exists>r. rightish_loop s x (rootp t) = Some r \<and> found (cmp_at s x) t r"
    using False by (intro rightish_loop_found [of s None t _ "[]"]) (simp_all add: avl_inv_def)
  moreover have "top s = rootp t" using assms(1) by (simp add: avl_inv_def)
  ultimately show ?thesis using False by (simp add: avl_search_rightish_def)
qed

text \<open>The last equal node of a part of the tree, \<open>r\<close> when there is none.\<close>

lemma rightmost_equal_loop_last:
  assumes "shape (nodes s) p u" "nodes s b = Some m" "child d m = rootp u"
    and "directed (cmp_at s x) (inorder u)" "\<forall>a \<in> set_tree u. cmp_at s x a \<le> 0"
  shows "rightmost_equal_loop s x d (Some b) r = Some (last_of (filter (\<lambda>a. cmp_at s x a = 0) (inorder u)) r)"
  using assms
proof (induction u arbitrary: p b m d r)
  case Leaf
  then show ?case by (subst rightmost_equal_loop.simps) simp
next
  case (Node l a r')
  from Node.prems(1) obtain n where n: "nodes s a = Some n" "child Lft n = rootp l" "child Rgt n = rootp r'"
    and sh: "shape (nodes s) (Some a) l" "shape (nodes s) (Some a) r'" by auto
  have c: "compare_node s x (Some a) = Some (cmp_at s x a)" by (rule compare_node_at [OF n(1)])
  have d: "directed (cmp_at s x) (inorder l)" "directed (cmp_at s x) (inorder r')"
    using Node.prems(4) by (simp_all add: directed_def sorted_wrt_append)
  have loop: "rightmost_equal_loop s x d (Some b) r = (if cmp_at s x a = 0 then rightmost_equal_loop s x Rgt (Some a) (Some a)
      else rightmost_equal_loop s x Lft (Some a) r)"
    using Node.prems(2,3) c by (subst rightmost_equal_loop.simps) simp
  show ?case
  proof (cases "cmp_at s x a = 0")
    case True
    have "rightmost_equal_loop s x Rgt (Some a) (Some a)
        = Some (last_of (filter (\<lambda>a. cmp_at s x a = 0) (inorder r')) (Some a))"
      using Node.prems(5) by (intro Node.IH(2) [OF sh(2) n(1,3) d(2)]) simp
    with loop True show ?thesis by simp
  next
    case False
    have neg: "cmp_at s x a < 0" using False Node.prems(5) by force
    have "\<forall>b \<in> set (inorder r'). cmp_at s x b < 0"
      using Node.prems(4) neg by (auto simp: directed_def sorted_wrt_append)
    then have "filter (\<lambda>a. cmp_at s x a = 0) (inorder r') = []" by (auto simp: filter_empty_conv)
    moreover have "rightmost_equal_loop s x Lft (Some a) r
        = Some (last_of (filter (\<lambda>a. cmp_at s x a = 0) (inorder l)) r)"
      using Node.prems(5) by (intro Node.IH(1) [OF sh(1) n(1,2) d(1)]) simp
    ultimately show ?thesis using loop False by simp
  qed
qed

text \<open>\<open>avl_item_search_right\<close> returns the last node whose item is not greater than the searched one.\<close>

lemma search_right_last:
  assumes inv: "avl_inv s t" and dir: "directed (cmp_at s x) (inorder t)"
  shows "avl_item_search_right s x = Some (last_of (filter (\<lambda>a. cmp_at s x a \<ge> 0) (inorder t)) None,
    \<exists>a \<in> set_tree t. cmp_at s x a = 0)"
proof -
  obtain p e where r: "avl_search_rightish s x = Some (p, e)" "found (cmp_at s x) t (p, e)"
    using search_rightish_found [OF assms] by force
  show ?thesis
  proof (cases e)
    case False
    then obtain xs ys where z: "inorder t = xs @ ys" "p = last_of xs None" "\<forall>a \<in> set xs. cmp_at s x a > 0"
      "\<forall>a \<in> set ys. cmp_at s x a < 0" using r(2) by (auto simp: found_def)
    have "filter (\<lambda>a. cmp_at s x a \<ge> 0) xs = xs" using z(3) by (intro filter_True) auto
    moreover have "filter (\<lambda>a. cmp_at s x a \<ge> 0) ys = []" using z(4) by (auto simp: filter_empty_conv)
    moreover have "\<not> (\<exists>a \<in> set_tree t. cmp_at s x a = 0)" using z by (auto simp flip: set_inorder)
    ultimately show ?thesis using r(1) False z(1,2) by (simp add: avl_item_search_right_def)
  next
    case True
    then obtain l a u ctx where t: "t = plug \<langle>l, a, u\<rangle> ctx" and p: "p = Some a" and a: "cmp_at s x a = 0"
      and right: "\<forall>b \<in> set (rights ctx). cmp_at s x b < 0" using r(2) by (auto simp: found_def)
    have sh: "shape (nodes s) None (plug \<langle>l, a, u\<rangle> ctx)" "top s = rootp (plug \<langle>l, a, u\<rangle> ctx)"
      using inv t by (simp_all add: avl_inv_def)
    then obtain q where "shape (nodes s) q \<langle>l, a, u\<rangle>"
      using shape_plug [of "nodes s" "\<langle>l, a, u\<rangle>" ctx "top s"] by blast
    then obtain n where n: "nodes s a = Some n" "child Rgt n = rootp u" "shape (nodes s) (Some a) u" by auto
    have le: "\<forall>b \<in> set (inorder u). cmp_at s x b \<le> 0" and du: "directed (cmp_at s x) (inorder u)"
      using dir a unfolding t directed_def by (auto simp: sorted_wrt_append not_less [symmetric])
    have "avl_search_rightmost_equal s p x = Some (last_of (filter (\<lambda>a. cmp_at s x a = 0) (inorder u)) p)"
      unfolding avl_search_rightmost_equal_def p
      using le by (intro rightmost_equal_loop_last [OF n(3,1,2) du]) simp
    moreover have "filter (\<lambda>a. cmp_at s x a \<ge> 0) (inorder u) = filter (\<lambda>a. cmp_at s x a = 0) (inorder u)"
      using le by (intro filter_cong) auto
    moreover have "filter (\<lambda>a. cmp_at s x a \<ge> 0) (rights ctx) = []"
      using right by (auto simp: filter_empty_conv)
    moreover have "\<exists>a \<in> set_tree t. cmp_at s x a = 0" using a t by auto
    ultimately show ?thesis using r(1) True a p by (simp add: avl_item_search_right_def t)
  qed
qed

end
