(* ===== verification/Avl_Items.thy ===== *)
theory Avl_Items
  imports Avl_Search
begin

text \<open>
  The AVL tree as an ordered list of items: the contract of the comparison function (the locale
  \<open>comparator\<close>), insertion and deletion on strictly ascending lists, and the refinement of these by
  \<open>avl_item_insert\<close> and \<open>avl_item_delete\<close> on the heap.
\<close>

section \<open>The contract of the comparison function\<close>

text \<open>A list in the order of a comparison function, without equal items.\<close>

definition ascending :: "('a \<Rightarrow> 'a \<Rightarrow> int) \<Rightarrow> 'a list \<Rightarrow> bool" where
  "ascending cmp xs \<longleftrightarrow> sorted_wrt (\<lambda>a b. cmp a b < 0) xs"

definition ordered_insert :: "('a \<Rightarrow> 'a \<Rightarrow> int) \<Rightarrow> 'a \<Rightarrow> 'a list \<Rightarrow> 'a list" where
  "ordered_insert cmp x xs = (if \<exists>y \<in> set xs. cmp x y = 0 then xs
     else filter (\<lambda>y. cmp x y > 0) xs @ x # filter (\<lambda>y. cmp x y < 0) xs)"

definition ordered_delete :: "('a \<Rightarrow> 'a \<Rightarrow> int) \<Rightarrow> 'a \<Rightarrow> 'a list \<Rightarrow> 'a list" where
  "ordered_delete cmp x xs = filter (\<lambda>y. cmp x y \<noteq> 0) xs"

text \<open>
  What the tree relies on: on the items that are \<open>ok\<close>, the comparison is a strict weak order whose
  sign changes with the order of the arguments.
\<close>

locale comparator =
  fixes cmp :: "'a \<Rightarrow> 'a \<Rightarrow> int" and ok :: "'a \<Rightarrow> bool"
  assumes flip: "ok x \<Longrightarrow> ok y \<Longrightarrow> cmp x y < 0 \<longleftrightarrow> cmp y x > 0"
    and less_trans: "ok x \<Longrightarrow> ok y \<Longrightarrow> ok z \<Longrightarrow> cmp x y < 0 \<Longrightarrow> cmp y z < 0 \<Longrightarrow> cmp x z < 0"
    and eq_less: "ok x \<Longrightarrow> ok y \<Longrightarrow> ok z \<Longrightarrow> cmp x y = 0 \<Longrightarrow> cmp y z < 0 \<Longrightarrow> cmp x z < 0"
begin

lemma eq_sym: "ok x \<Longrightarrow> ok y \<Longrightarrow> cmp x y = 0 \<Longrightarrow> cmp y x = 0"
  using flip [of x y] flip [of y x] by linarith

text \<open>The comparison with an item is positive, then 0 at most once, then negative along an ascending list.\<close>

lemma ascending_directed:
  assumes "ascending cmp (xs @ y # ys)" "ok x" "\<forall>z \<in> set (xs @ y # ys). ok z"
  shows "cmp x y \<le> 0 \<Longrightarrow> \<forall>z \<in> set ys. cmp x z < 0" "cmp x y \<ge> 0 \<Longrightarrow> \<forall>z \<in> set xs. cmp x z > 0"
proof -
  have y: "ok y" and xs: "\<And>z. z \<in> set xs \<Longrightarrow> ok z \<and> cmp z y < 0" and ys: "\<And>z. z \<in> set ys \<Longrightarrow> ok z \<and> cmp y z < 0"
    using assms by (auto simp: ascending_def sorted_wrt_append)
  show "\<forall>z \<in> set ys. cmp x z < 0" if "cmp x y \<le> 0"
  proof
    fix z assume "z \<in> set ys"
    with ys have z: "ok z" "cmp y z < 0" by auto
    show "cmp x z < 0"
    proof (cases "cmp x y = 0")
      case True
      then show ?thesis by (rule eq_less [OF assms(2) y z(1) _ z(2)])
    next
      case False
      then have "cmp x y < 0" using that by simp
      then show ?thesis by (rule less_trans [OF assms(2) y z(1) _ z(2)])
    qed
  qed
  show "\<forall>z \<in> set xs. cmp x z > 0" if "cmp x y \<ge> 0"
  proof
    fix z assume "z \<in> set xs"
    with xs have z: "ok z" "cmp z y < 0" by auto
    show "cmp x z > 0"
    proof (rule ccontr)
      assume "\<not> cmp x z > 0"
      then consider "cmp x z = 0" | "cmp x z < 0" by linarith
      then have "cmp x y < 0"
      proof cases
        case 1
        then show ?thesis by (rule eq_less [OF assms(2) z(1) y _ z(2)])
      next
        case 2
        then show ?thesis by (rule less_trans [OF assms(2) z(1) y _ z(2)])
      qed
      with that show False by simp
    qed
  qed
qed

lemma ascending_sorted_wrt:
  assumes "ascending cmp xs" "ok x" "\<forall>z \<in> set xs. ok z"
  shows "sorted_wrt (\<lambda>a b. (cmp x a \<le> 0 \<longrightarrow> cmp x b < 0) \<and> (cmp x b \<ge> 0 \<longrightarrow> cmp x a > 0)) xs"
  using assms
proof (induction xs)
  case (Cons a xs)
  have "cmp x a > 0" if b: "b \<in> set xs" "cmp x b \<ge> 0" for b
  proof -
    obtain us vs where "xs = us @ b # vs" using split_list [OF b(1)] by blast
    with Cons.prems b(2) ascending_directed(2) [of "a # us" b vs x] show ?thesis by auto
  qed
  moreover have "cmp x a \<le> 0 \<Longrightarrow> \<forall>z \<in> set xs. cmp x z < 0"
    using ascending_directed(1) [of "[]" a xs x] Cons.prems by simp
  moreover have "ascending cmp xs" using Cons.prems(1) by (simp add: ascending_def)
  ultimately show ?case using Cons.IH Cons.prems by auto
qed simp

lemma insert_ascending:
  assumes "ascending cmp xs" "ok x" "\<forall>z \<in> set xs. ok z"
  shows "ascending cmp (ordered_insert cmp x xs)"
proof -
  have "cmp a b < 0" if "a \<in> set xs" "b \<in> set xs" "cmp x a > 0" "cmp x b < 0" for a b
    using that assms flip [of a x] less_trans [of a x b] by auto
  then show ?thesis
    using assms flip unfolding ordered_insert_def ascending_def
    by (auto simp: sorted_wrt_append intro: sorted_wrt_filter)
qed

lemma delete_ascending: "ascending cmp xs \<Longrightarrow> ascending cmp (ordered_delete cmp x xs)"
  by (simp add: ascending_def ordered_delete_def sorted_wrt_filter)

lemma delete_middle:
  assumes "ascending cmp (xs @ y # ys)" "ok x" "\<forall>z \<in> set (xs @ y # ys). ok z" "cmp x y = 0"
  shows "ordered_delete cmp x (xs @ y # ys) = xs @ ys"
proof -
  have "\<forall>z \<in> set ys. cmp x z < 0" "\<forall>z \<in> set xs. cmp x z > 0"
    using ascending_directed [OF assms(1-3)] assms(4) by simp_all
  then have "filter (\<lambda>z. cmp x z \<noteq> 0) ys = ys" "filter (\<lambda>z. cmp x z \<noteq> 0) xs = xs"
    by (auto intro!: filter_True)
  with assms(4) show ?thesis by (simp add: ordered_delete_def)
qed

end

lemma set_ordered_insert: "set (ordered_insert cmp x xs) \<subseteq> insert x (set xs)"
  by (auto simp: ordered_insert_def)

section \<open>The heap holds an ascending list\<close>

text \<open>The tree \<open>s\<close> with the nodes \<open>t\<close> is in order: its items are \<open>ok\<close> and ascending.\<close>

definition ordered :: "('a \<Rightarrow> bool) \<Rightarrow> 'a avl_tree \<Rightarrow> addr tree \<Rightarrow> bool" where
  "ordered ok s t \<longleftrightarrow> avl_inv s t \<and> ascending (cmpitem s) (contents s t) \<and> (\<forall>x \<in> set (contents s t). ok x)"

lemma contents_cong: "inorder t' = inorder t \<Longrightarrow> \<forall>a \<in> set_tree t. item_of s' a = item_of s a \<Longrightarrow> contents s' t' = contents s t"
  by (simp add: contents_def)

lemma directed_contents:
  assumes "comparator (cmpitem s) ok" "ordered ok s t" "ok x"
  shows "directed (cmp_at s x) (inorder t)"
    "\<And>a b us vs ws. inorder t = us @ a # vs \<Longrightarrow> cmp_at s x a = 0 \<Longrightarrow> (\<forall>b \<in> set us. cmp_at s x b > 0) \<and> (\<forall>b \<in> set vs. cmp_at s x b < 0)"
proof -
  have "sorted_wrt (\<lambda>a b. (cmpitem s x a \<le> 0 \<longrightarrow> cmpitem s x b < 0) \<and> (cmpitem s x b \<ge> 0 \<longrightarrow> cmpitem s x a > 0))
      (contents s t)"
    using assms(2,3) by (intro comparator.ascending_sorted_wrt [OF assms(1)]) (auto simp: ordered_def)
  then have w: "sorted_wrt (\<lambda>a b. (cmp_at s x a \<le> 0 \<longrightarrow> cmp_at s x b < 0) \<and> (cmp_at s x b \<ge> 0 \<longrightarrow> cmp_at s x a > 0))
      (inorder t)"
    by (simp add: contents_def sorted_wrt_map)
  then show "directed (cmp_at s x) (inorder t)"
    unfolding directed_def by (rule sorted_wrt_mono_rel [rotated]) auto
  show "(\<forall>b \<in> set us. cmp_at s x b > 0) \<and> (\<forall>b \<in> set vs. cmp_at s x b < 0)"
    if "inorder t = us @ a # vs" "cmp_at s x a = 0" for a us vs
    using w that by (auto simp: sorted_wrt_append)
qed

lemma same_end: "distinct (xs @ ys) \<Longrightarrow> xs @ ys = xs' @ ys' \<Longrightarrow> last_of xs None = last_of xs' None \<Longrightarrow> xs = xs' \<and> ys = ys'"
proof (cases xs rule: rev_cases)
  case Nil
  assume "xs @ ys = xs' @ ys'" "last_of xs None = last_of xs' None"
  with Nil show ?thesis by (cases xs' rule: rev_cases) auto
next
  case (snoc us z)
  assume a: "distinct (xs @ ys)" "xs @ ys = xs' @ ys'" "last_of xs None = last_of xs' None"
  then obtain us' where xs': "xs' = us' @ [z]" using snoc by (cases xs' rule: rev_cases) auto
  have "z \<notin> set us" "z \<notin> set ys" using a(1) snoc by auto
  moreover have "us @ z # ys = us' @ z # ys'" using a(2) snoc xs' by simp
  ultimately show ?thesis using snoc xs' append_Cons_eq_iff [of z us ys us' ys'] by simp
qed

section \<open>Inserting an item\<close>

lemma item_of_alloc: "a \<noteq> b \<Longrightarrow> item_of (avl_alloc (Some b) x s) a = item_of s a" "item_of (avl_alloc (Some b) x s) b = x"
  by (simp_all add: item_of_def avl_alloc_def)

lemma item_insert_ok:
  assumes cmp: "comparator (cmpitem s) ok" and ord: "ordered ok s t" and x: "ok x"
    and size: "size t + 1 < 2 ^ 64" and b: "nodes s b = None"
  shows "\<exists>s' t' p. avl_item_insert s (Some b) x = Some (s', p) \<and> ordered ok s' t'
    \<and> contents s' t' = ordered_insert (cmpitem s) x (contents s t)
    \<and> (if \<exists>y \<in> set (contents s t). cmpitem s x y = 0 then p = None \<and> s' = s \<and> t' = t
       else p = Some b \<and> set_tree t' = insert b (set_tree t) \<and> item_of s' b = x \<and> same_items {b} s s'
         \<and> freed_items s' = freed_items s \<and> (\<exists>xs ys. inorder t = xs @ ys \<and> inorder t' = xs @ b # ys))"
proof -
  let ?s = "avl_alloc (Some b) x s" and ?c = "cmp_at s x"
  have inv: "avl_inv s t" using ord by (simp add: ordered_def)
  have bt: "b \<notin> set_tree t" using b shape_defined [of "nodes s" None t b] inv by (auto simp: avl_inv_def)
  have inv1: "avl_inv ?s t" by (rule avl_inv_frame [OF inv]) (use bt in \<open>auto simp: avl_alloc_def\<close>)
  have cmp1: "cmpitem ?s = cmpitem s" by (simp add: avl_alloc_def)
  have c: "cmp_at ?s x a = ?c a" if "a \<in> set_tree t" for a
  proof -
    have "a \<noteq> b" using that bt by blast
    then show ?thesis using item_of_alloc(1) [of a b x s] cmp1 by simp
  qed
  have dir: "directed (cmp_at ?s x) (inorder t)"
  proof -
    have "directed ?c (inorder t)" by (rule directed_contents(1) [OF cmp ord x])
    then show ?thesis unfolding directed_def
      by (rule sorted_wrt_mono_rel [rotated]) (simp add: c)
  qed
  obtain p e where r: "avl_search_rightish ?s x = Some (p, e)" "found (cmp_at ?s x) t (p, e)"
    using search_rightish_found [OF inv1 dir] by force
  obtain nb where nb: "nodes ?s b = Some nb" "n_item nb = x" by (simp add: avl_alloc_def)
  show ?thesis
  proof (cases e)
    case True
    then obtain a where a: "a \<in> set_tree t" "?c a = 0" using r(2) c by (fastforce simp: found_def)
    then have ex: "\<exists>y \<in> set (contents s t). cmpitem s x y = 0" by (auto simp: contents_def)
    have "avl_item_insert s (Some b) x = Some (s, None)"
      using r(1) True nb b by (simp add: avl_item_insert_def avl_node_insert_def avl_node_free_def)
        (simp add: avl_alloc_def fun_upd_idem)
    with ex ord show ?thesis
      by (intro exI [of _ s] exI [of _ t] exI [of _ None]) (simp add: ordered_insert_def)
  next
    case False
    then obtain xs ys where z: "inorder t = xs @ ys" "p = last_of xs None" "\<forall>a \<in> set xs. ?c a > 0" "\<forall>a \<in> set ys. ?c a < 0"
      using r(2) c by (fastforce simp: found_def simp flip: set_inorder)
    have none: "\<not> (\<exists>y \<in> set (contents s t). cmpitem s x y = 0)"
      using z by (auto simp: contents_def)
    have "insert_ok Rgt ?s t p b"
    proof (cases p)
      case None
      then show ?thesis using insert_beside_null [OF inv1 nb(1) bt size] by simp
    next
      case (Some a)
      then have "a \<in> set_tree t" using z(1,2) last_of_in [of xs a] by (auto simp flip: set_inorder)
      with Some show ?thesis using insert_beside_node [OF inv1 _ nb(1) bt size] by simp
    qed
    then obtain s' t' xs' ys' where s': "insert_beside Rgt ?s p (Some b) = Some s'" "avl_inv s' t'"
      "inorder t = xs' @ ys'" "inorder t' = xs' @ b # ys'" "last_of xs' None = p"
      "same_items {} ?s s'" "freed_items s' = freed_items ?s"
      unfolding insert_ok_def inserted_def by auto
    have "distinct (xs @ ys)" using inv unfolding avl_inv_def z(1) by blast
    from same_end [OF this trans [OF z(1) [symmetric] s'(3)] trans [OF z(2) [symmetric] s'(5) [symmetric]]]
    have eq: "xs' = xs \<and> ys' = ys" by simp
    have run: "avl_item_insert s (Some b) x = Some (s', Some b)"
      using r(1) False nb s'(1)
      by (simp add: avl_item_insert_def avl_node_insert_def avl_node_insert_after_def)
    have items: "item_of s' a = item_of ?s a" if "nodes ?s a \<noteq> None" for a
      by (rule same_items_item [OF s'(6) _ that]) simp
    have itemsb: "item_of s' b = x" using items [of b] nb item_of_alloc(2) by simp
    have itemst: "item_of s' a = item_of s a" if "a \<in> set_tree t" for a
    proof -
      have "nodes ?s a \<noteq> None" using that inv1 shape_defined [of "nodes ?s" None t a] by (auto simp: avl_inv_def)
      moreover have "a \<noteq> b" using that bt by blast
      ultimately show ?thesis using items [of a] item_of_alloc(1) [of a b x s] by simp
    qed
    have "contents s' t' = ordered_insert (cmpitem s) x (contents s t)"
    proof -
      have "map (item_of s') xs = map (item_of s) xs" "map (item_of s') ys = map (item_of s) ys"
        using itemst z(1) by (auto simp flip: set_inorder)
      moreover have "filter (\<lambda>y. cmpitem s x y > 0) (map (item_of s) (xs @ ys)) = map (item_of s) xs"
        "filter (\<lambda>y. cmpitem s x y < 0) (map (item_of s) (xs @ ys)) = map (item_of s) ys"
        using z(3,4) by (auto simp: filter_map comp_def filter_empty_conv intro!: filter_True)
      ultimately show ?thesis
        using none eq s'(4) z(1) itemsb by (simp add: ordered_insert_def contents_def)
    qed
    moreover have "cmpitem s' = cmpitem s" using s'(6) cmp1 by (simp add: same_items_def)
    ultimately have "ordered ok s' t'"
      using s'(2) ord x comparator.insert_ascending [OF cmp, of "contents s t" x] set_ordered_insert [of "cmpitem s" x "contents s t"]
      unfolding ordered_def by auto
    moreover have "same_items {b} s s'"
      using s'(6) by (auto simp: same_items_def avl_alloc_def)
    moreover have "set_tree t' = insert b (set_tree t)"
      using s'(3,4) by (metis Un_insert_right list.simps(15) set_append set_inorder)
    ultimately show ?thesis
      using run none itemsb s'(3,4,7) \<open>contents s' t' = _\<close>
      by (intro exI [of _ s'] exI [of _ t'] exI [of _ "Some b"]) (auto simp: avl_alloc_def)
  qed
qed

section \<open>Deleting an item\<close>

lemma contents_remove:
  assumes "inorder t = us @ a # vs" "distinct (inorder t)" "inorder t' = remove1 a (inorder t)"
    and "\<forall>c \<in> set_tree t - {a}. item_of s' c = item_of s c"
  shows "contents s' t' = map (item_of s) us @ map (item_of s) vs" "set_tree t' = set_tree t - {a}"
proof -
  have d: "a \<notin> set us" "a \<notin> set vs" using assms(1,2) by auto
  have io: "inorder t' = us @ vs" using assms(3) d by (simp add: assms(1) remove1_append)
  have st: "set_tree t = insert a (set us \<union> set vs)" using assms(1) by (simp flip: set_inorder)
  have "\<forall>c \<in> set us \<union> set vs. item_of s' c = item_of s c" using assms(4) d unfolding st by blast
  then show "contents s' t' = map (item_of s) us @ map (item_of s) vs" by (simp add: contents_def io)
  show "set_tree t' = set_tree t - {a}" using io st d by (auto simp flip: set_inorder)
qed

text \<open>Deleting a node: its item leaves the list.\<close>

lemma node_delete_ok:
  assumes ord: "ordered ok s t" and io: "inorder t = us @ a # vs"
  shows "\<exists>s' t'. avl_node_delete s (Some a) = Some (s', Some (item_of s a)) \<and> ordered ok s' t'
    \<and> inorder t' = us @ vs \<and> contents s' t' = map (item_of s) us @ map (item_of s) vs
    \<and> same_items {a} s s' \<and> nodes s' a = None \<and> set_tree t' = set_tree t - {a}
    \<and> freed_items s' = freed_items s @ (if frees s then [item_of s a] else [])"
proof -
  have inv: "avl_inv s t" using ord by (simp add: ordered_def)
  then have d: "distinct (inorder t)" by (simp add: avl_inv_def)
  have "a \<in> set_tree t" using io by (simp flip: set_inorder)
  from delete_inv [OF inv this] obtain s' t' where s': "avl_node_delete s (Some a) = Some (s', Some (item_of s a))"
    "avl_inv s' t'" "inorder t' = remove1 a (inorder t)" "nodes s' a = None" "same_items {a} s s'"
    "freed_items s' = freed_items s @ (if frees s then [item_of s a] else [])" by blast
  have "item_of s' c = item_of s c" if "c \<in> set_tree t - {a}" for c
  proof -
    have "nodes s c \<noteq> None" using that inv shape_defined [of "nodes s" None t c] by (auto simp: avl_inv_def)
    then show ?thesis using that same_items_item [OF s'(5), of c] by simp
  qed
  then have c: "contents s' t' = map (item_of s) us @ map (item_of s) vs" "set_tree t' = set_tree t - {a}"
    using contents_remove [OF io d s'(3)] by blast+
  have io': "inorder t' = us @ vs" using s'(3) d by (simp add: io remove1_append)
  have "cmpitem s' = cmpitem s" using s'(5) by (simp add: same_items_def)
  then have "ordered ok s' t'"
    using s'(2) ord c(1) by (auto simp: ordered_def ascending_def contents_def io sorted_wrt_append)
  with s' c io' show ?thesis by blast
qed

lemma item_delete_ok:
  assumes cmp: "comparator (cmpitem s) ok" and ord: "ordered ok s t" and x: "ok x"
  shows "\<exists>s' t' r. avl_item_delete s x = Some (s', r) \<and> ordered ok s' t'
    \<and> contents s' t' = ordered_delete (cmpitem s) x (contents s t)
    \<and> (case r of None \<Rightarrow> (\<forall>y \<in> set (contents s t). cmpitem s x y \<noteq> 0) \<and> s' = s
       | Some y \<Rightarrow> y \<in> set (contents s t) \<and> cmpitem s x y = 0
           \<and> freed_items s' = freed_items s @ (if frees s then [y] else []))
    \<and> cmpitem s' = cmpitem s \<and> frees s' = frees s \<and> (\<forall>c. nodes s c = None \<longrightarrow> nodes s' c = None)"
proof -
  have inv: "avl_inv s t" using ord by (simp add: ordered_def)
  have dir: "directed (cmp_at s x) (inorder t)" by (rule directed_contents(1) [OF cmp ord x])
  obtain p e where r: "avl_search_rightish s x = Some (p, e)" "found (cmp_at s x) t (p, e)"
    using search_rightish_found [OF inv dir] by force
  show ?thesis
  proof (cases e)
    case False
    then have none: "\<forall>y \<in> set (contents s t). cmpitem s x y \<noteq> 0"
      using r(2) by (fastforce simp: found_def contents_def simp flip: set_inorder)
    then have "ordered_delete (cmpitem s) x (contents s t) = contents s t"
      unfolding ordered_delete_def by (intro filter_True) simp
    moreover have "avl_item_delete s x = Some (s, None)"
      using r(1) False by (simp add: avl_item_delete_def avl_item_search_def avl_node_delete_def)
    ultimately show ?thesis using none ord
      by (intro exI [of _ s] exI [of _ t] exI [of _ None]) simp
  next
    case True
    then obtain l a u ctx where t: "t = plug \<langle>l, a, u\<rangle> ctx" and p: "p = Some a" and a: "cmp_at s x a = 0"
      using r(2) by (auto simp: found_def)
    let ?us = "lefts ctx @ inorder l" and ?vs = "inorder u @ rights ctx"
    have io: "inorder t = ?us @ a # ?vs" by (simp add: t)
    from node_delete_ok [OF ord io] obtain s' t' where s': "avl_node_delete s (Some a) = Some (s', Some (item_of s a))"
      "ordered ok s' t'" "contents s' t' = map (item_of s) ?us @ map (item_of s) ?vs"
      "freed_items s' = freed_items s @ (if frees s then [item_of s a] else [])" "same_items {a} s s'" "nodes s' a = None" by blast
    have "contents s t = map (item_of s) ?us @ item_of s a # map (item_of s) ?vs" by (simp add: contents_def io)
    then have "ordered_delete (cmpitem s) x (contents s t) = map (item_of s) ?us @ map (item_of s) ?vs"
      using comparator.delete_middle [OF cmp, of "map (item_of s) ?us" "item_of s a" "map (item_of s) ?vs" x] ord x a
      by (simp add: ordered_def)
    moreover have "avl_item_delete s x = Some (s', Some (item_of s a))"
      using r(1) True p s'(1) by (simp add: avl_item_delete_def avl_item_search_def)
    moreover have "item_of s a \<in> set (contents s t)" by (simp add: contents_def io)
    moreover have "cmpitem s' = cmpitem s \<and> frees s' = frees s" using s'(5) by (simp add: same_items_def)
    moreover have "\<forall>c. nodes s c = None \<longrightarrow> nodes s' c = None"
      using s'(5,6) unfolding same_items_def by (metis map_option_is_None singletonD)
    ultimately show ?thesis using s' a
      by (intro exI [of _ s'] exI [of _ t'] exI [of _ "Some (item_of s a)"]) simp
  qed
qed

section \<open>Counting and purging\<close>

lemma count_ok: "avl_inv s t \<Longrightarrow> map_option unat (avl_count (Some s)) = Some (length (contents s t))"
proof -
  assume inv: "avl_inv s t"
  then have "avl_count (Some s) = Some (of_nat (size t))"
    using count_of_shape [of s None t] by (simp add: avl_count_def avl_inv_def)
  moreover have "unat (word_of_nat (size t) :: 64 word) = size t"
    using inv by (simp add: avl_inv_def unat_of_nat)
  ultimately show ?thesis by (simp add: contents_def)
qed

lemma purge_loop_ok:
  assumes "linked (node_view s) p zs None" "distinct zs"
  shows "\<exists>s'. purge_loop s (first_of zs None) = Some s'
    \<and> nodes s' = (\<lambda>b. if b \<in> set zs then None else nodes s b)
    \<and> freed_items s' = freed_items s @ (if frees s then map (item_of s) zs else [])
    \<and> cmpitem s' = cmpitem s \<and> frees s' = frees s"
  using assms
proof (induction zs arbitrary: s p)
  case Nil
  then show ?case by (simp add: purge_loop.simps)
next
  case (Cons a zs)
  from Cons.prems(1) obtain n where n: "nodes s a = Some n" "n_next n = first_of zs None"
    by (auto simp: node_view_def kept_def)
  define s1 where "s1 = (free_item (n_item n) s) \<lparr> nodes := (nodes s)(a := None) \<rparr>"
  have "\<forall>b \<in> set zs. node_view s1 b = node_view s b"
    using Cons.prems(2) by (auto simp: node_view_def s1_def)
  then have "linked (node_view s1) (Some a) zs None"
    using Cons.prems(1) linked_frame [of zs "node_view s1" "node_view s"] by simp
  from Cons.IH [OF this] Cons.prems(2) obtain s' where s': "purge_loop s1 (first_of zs None) = Some s'"
    "nodes s' = (\<lambda>b. if b \<in> set zs then None else nodes s1 b)"
    "freed_items s' = freed_items s1 @ (if frees s1 then map (item_of s1) zs else [])"
    "cmpitem s' = cmpitem s1" "frees s' = frees s1" by auto
  have "purge_loop s (Some a) = Some s'"
    using n s'(1) by (subst purge_loop.simps) (simp add: avl_node_free_def free_item_def s1_def split: if_splits)
  moreover have "map (item_of s1) zs = map (item_of s) zs"
    using Cons.prems(2) by (auto simp: item_of_def s1_def)
  ultimately show ?case using s'(2-5) n(1)
    by (intro exI [of _ s']) (auto simp: s1_def free_item_def item_of_def fun_eq_iff)
qed

lemma tree_purge_ok:
  assumes "avl_inv s t"
  shows "\<exists>s'. avl_tree_purge s = Some s' \<and> avl_inv s' \<langle>\<rangle> \<and> (\<forall>a \<in> set_tree t. nodes s' a = None)
    \<and> freed_items s' = freed_items s @ (if frees s then contents s t else [])
    \<and> cmpitem s' = cmpitem s \<and> frees s' = frees s"
proof -
  from assms have l: "linked (node_view s) None (inorder t) None" "distinct (inorder t)"
    and h: "head s = first_of (inorder t) None" by (simp_all add: avl_inv_def)
  from purge_loop_ok [OF l] obtain s1 where s1: "purge_loop s (head s) = Some s1"
    "nodes s1 = (\<lambda>b. if b \<in> set (inorder t) then None else nodes s b)"
    "freed_items s1 = freed_items s @ (if frees s then map (item_of s) (inorder t) else [])"
    "cmpitem s1 = cmpitem s" "frees s1 = frees s" unfolding h by blast
  then show ?thesis
    by (simp add: avl_tree_purge_def avl_tree_clear_def avl_inv_def contents_def)
qed

text \<open>The depth and count of every node are those of its subtree.\<close>

lemma node_fields:
  assumes inv: "avl_inv s (plug \<langle>l, a, r\<rangle> ctx)"
  shows "\<exists>n. nodes s a = Some n \<and> unat (n_depth n) = height \<langle>l, a, r\<rangle> \<and> unat (n_count n) = size \<langle>l, a, r\<rangle>
    \<and> height \<langle>l, a, r\<rangle> \<le> 128"
proof -
  let ?t = "\<langle>l, a, r\<rangle>"
  obtain p where "shape (nodes s) p ?t"
    using shape_plug [of "nodes s" ?t ctx "top s"] inv unfolding avl_inv_def by blast
  then obtain n where n: "nodes s a = Some n" "n_count n = of_nat (size l + size r + 1)"
    "unat (n_depth n) = max (height l) (height r) + 1" by auto
  have size: "size ?t < 2 ^ 64" using inv size_plug [of ?t ctx] unfolding avl_inv_def by linarith
  have avl: "avl ?t" using inv avl_plug_subtree unfolding avl_inv_def by blast
  have "unat (n_count n) = size ?t"
    using n(2) size by (simp add: unat_of_nat del: of_nat_add of_nat_Suc)
  with n avl_depth [OF avl size] show ?thesis by auto
qed

end
