(* ===== verification/Coco_Biobj_Nodes.thy ===== *)
theory Coco_Biobj_Nodes
  imports Avl_Items Coco_Numerics
begin

text \<open>
  The items of the two AVL trees of the bi-objective logger (\<open>logger_biobj.c\<close>) and the comparison
  functions of the trees, which satisfy the contract that the AVL tree relies on.
\<close>

section \<open>Items\<close>

text \<open>\<open>indicator_contribution\<close> is the array's one element, for the indicator ``hyp''.\<close>

record logger_biobj_avl_item =
  item_x :: "real list"
  item_y :: "real list"
  item_normalized_y :: "real list"
  evaluation_number :: nat
  indicator_contribution :: real
  within_ROI :: bool

text \<open>The loop that copies the first \<open>n\<close> elements of an array.\<close>

fun copy_loop :: "nat list \<Rightarrow> real list \<Rightarrow> real list \<Rightarrow> real list result" where
  "copy_loop [] source target = Inr target"
| "copy_loop (i # is) source target =
     rbind (rnth source i) (\<lambda>v. rbind (rupd target i v) (copy_loop is source))"

text \<open>
  \<open>best_value\<close> and \<open>nadir_value\<close> are those of the problem; the indeterminate contents of the allocated
  vectors, all of them overwritten, are 0 here.
\<close>

definition logger_biobj_node_create ::
    "real list \<Rightarrow> real list \<Rightarrow> real list \<Rightarrow> real list \<Rightarrow> nat \<Rightarrow> nat \<Rightarrow> nat \<Rightarrow> logger_biobj_avl_item result" where
  "logger_biobj_node_create best_value nadir_value x y evaluation_num n num_obj =
    rbind (copy_loop [0..<n] x (replicate n 0)) (\<lambda>x_copy.
    rbind (copy_loop [0..<num_obj] y (replicate num_obj 0)) (\<lambda>y_copy.
    rbind (mo_normalize y_copy best_value nadir_value num_obj) (\<lambda>normalized.
    rbind (mo_is_within_ROI normalized num_obj) (\<lambda>inside.
      Inr \<lparr> item_x = x_copy, item_y = y_copy, item_normalized_y = normalized,
        evaluation_number = evaluation_num, indicator_contribution = 0, within_ROI = inside \<rparr>))))"

section \<open>The order of the trees\<close>

definition avl_tree_compare_by_last_objective :: "logger_biobj_avl_item \<Rightarrow> logger_biobj_avl_item \<Rightarrow> int" where
  "avl_tree_compare_by_last_objective item1 item2 =
     (if coco_double_almost_equal (item_normalized_y item1 ! 1) (item_normalized_y item2 ! 1) mo_precision then 0
      else if item_normalized_y item1 ! 1 < item_normalized_y item2 ! 1 then - 1 else 1)"

definition avl_tree_compare_by_eval_number :: "logger_biobj_avl_item \<Rightarrow> logger_biobj_avl_item \<Rightarrow> int" where
  "avl_tree_compare_by_eval_number item1 item2 =
     (if evaluation_number item1 < evaluation_number item2 then - 1
      else if evaluation_number item1 > evaluation_number item2 then 1 else 0)"

text \<open>The buffer tree orders all items; the archive tree those whose normalized vector is on the grid.\<close>

definition on_grid :: "logger_biobj_avl_item \<Rightarrow> bool" where
  "on_grid x \<longleftrightarrow> (\<exists>a b. item_normalized_y x = grid [a, b])"

interpretation by_eval_number: comparator avl_tree_compare_by_eval_number "\<lambda>_. True"
  by unfold_locales (auto simp: avl_tree_compare_by_eval_number_def split: if_splits)

lemma compare_on_grid:
  assumes "item_normalized_y x = grid [a, b]" "item_normalized_y z = grid [c, d]"
  shows "avl_tree_compare_by_last_objective x z = (if b = d then 0 else if b < d then - 1 else 1)"
  by (simp add: avl_tree_compare_by_last_objective_def assms)

interpretation by_last_normalized: comparator avl_tree_compare_by_last_objective on_grid
  by unfold_locales (auto simp: on_grid_def compare_on_grid split: if_splits)

lemma copy_loop_take:
  "n \<le> length source \<Longrightarrow> length target = n \<Longrightarrow>
    copy_loop [i..<n] source target = Inr (take i target @ drop i (take n source))"
proof (induction "n - i" arbitrary: i target)
  case (Suc m)
  then have i: "i < n" "[i..<n] = i # [Suc i..<n]" by (simp_all add: upt_rec)
  have "copy_loop [Suc i..<n] source (target[i := source ! i])
      = Inr (take (Suc i) (target[i := source ! i]) @ drop (Suc i) (take n source))"
    using Suc.hyps(2) Suc.prems by (intro Suc.hyps(1)) simp_all
  moreover have "take (Suc i) (target[i := source ! i]) = take i target @ [source ! i]"
    using i Suc.prems by (simp add: take_Suc_conv_app_nth)
  moreover have "drop i (take n source) = source ! i # drop (Suc i) (take n source)"
    using i Suc.prems by (simp add: Cons_nth_drop_Suc [symmetric])
  ultimately show ?case using i Suc.prems by simp
qed simp

lemma copy_loop_all: "n \<le> length source \<Longrightarrow> copy_loop [0..<n] source (replicate n 0) = Inr (take n source)"
  by (simp add: copy_loop_take)

end
