(* ===== verification/Avl_Properties.thy ===== *)
theory Avl_Properties
  imports Coco_Biobj_Nodes
begin

text \<open>
  The AVL tree as its clients see it: a step relation of calls on trees and their abstract effect on an
  ascending list of items, and what is shown of the single operations. The witnesses use items of the
  bi-objective logger in the order of its buffer tree.
\<close>

section \<open>Calls of a client\<close>

text \<open>A call with the pointer that \<open>malloc\<close> returns for it.\<close>

datatype 'a call =
    Item_insert ptr 'a
  | Item_delete 'a
  | Purge

fun perform :: "'a call \<Rightarrow> 'a avl_tree \<Rightarrow> 'a avl_tree option" where
  "perform (Item_insert m x) s = map_option fst (avl_item_insert s m x)"
| "perform (Item_delete x) s = map_option fst (avl_item_delete s x)"
| "perform Purge s = avl_tree_purge s"

text \<open>What \<open>malloc\<close> and the client promise: the pointer is NULL or not in use, the item has an order.\<close>

fun admissible :: "('a \<Rightarrow> bool) \<Rightarrow> 'a avl_tree \<Rightarrow> 'a call \<Rightarrow> bool" where
  "admissible ok s (Item_insert m x) \<longleftrightarrow> ok x \<and> deref s m = None"
| "admissible ok s (Item_delete x) \<longleftrightarrow> ok x"
| "admissible ok s Purge \<longleftrightarrow> True"

text \<open>The effect on the list of items.\<close>

fun effect :: "('a \<Rightarrow> 'a \<Rightarrow> int) \<Rightarrow> 'a call \<Rightarrow> 'a list \<Rightarrow> 'a list" where
  "effect cmp (Item_insert m x) xs = (if m = None then xs else ordered_insert cmp x xs)"
| "effect cmp (Item_delete x) xs = ordered_delete cmp x xs"
| "effect cmp Purge xs = []"

inductive reachable :: "('a \<Rightarrow> bool) \<Rightarrow> 'a avl_tree \<Rightarrow> 'a call list \<Rightarrow> 'a avl_tree \<Rightarrow> bool" for ok s0 where
  start: "reachable ok s0 [] s0"
| step: "reachable ok s0 cs s \<Longrightarrow> admissible ok s c \<Longrightarrow> perform c s = Some s' \<Longrightarrow> reachable ok s0 (cs @ [c]) s'"

lemma item_insert_null: "avl_item_insert s None x = Some (s, None)"
  by (simp add: avl_item_insert_def avl_alloc_def)

lemma ordered_init: "ordered ok (avl_tree_init cmp f) \<langle>\<rangle>"
  by (simp add: ordered_def avl_inv_def avl_tree_init_def contents_def ascending_def)

lemma perform_ok:
  assumes cmp: "comparator (cmpitem s) ok" and ord: "ordered ok s t" and adm: "admissible ok s c"
    and size: "length (contents s t) + 1 < 2 ^ 64"
  shows "\<exists>s' t'. perform c s = Some s' \<and> ordered ok s' t' \<and> cmpitem s' = cmpitem s
    \<and> contents s' t' = effect (cmpitem s) c (contents s t)"
proof (cases c)
  case (Item_insert m x)
  show ?thesis
  proof (cases m)
    case None
    with Item_insert ord show ?thesis by (auto simp: item_insert_null)
  next
    case (Some b)
    with adm Item_insert have b: "nodes s b = None" "ok x" by (simp_all add: deref_def)
    have sz: "size t + 1 < 2 ^ 64" using size by (simp add: contents_def)
    from item_insert_ok [OF cmp ord b(2) sz b(1)] obtain s' t' p where s': "avl_item_insert s (Some b) x = Some (s', p)"
      "ordered ok s' t'" "contents s' t' = ordered_insert (cmpitem s) x (contents s t)"
      "if \<exists>y \<in> set (contents s t). cmpitem s x y = 0 then p = None \<and> s' = s \<and> t' = t
       else p = Some b \<and> set_tree t' = insert b (set_tree t) \<and> item_of s' b = x \<and> same_items {b} s s'
         \<and> freed_items s' = freed_items s \<and> (\<exists>xs ys. inorder t = xs @ ys \<and> inorder t' = xs @ b # ys)" by blast
    have "cmpitem s' = cmpitem s" using s'(4) by (auto simp: same_items_def split: if_splits)
    with s'(1-3) Item_insert Some show ?thesis by auto
  qed
next
  case (Item_delete x)
  with item_delete_ok [OF cmp ord, of x] adm show ?thesis by fastforce
next
  case Purge
  have "avl_inv s t" using ord by (simp add: ordered_def)
  from tree_purge_ok [OF this] obtain s' where s': "avl_tree_purge s = Some s'" "avl_inv s' \<langle>\<rangle>" "cmpitem s' = cmpitem s"
    by blast
  then have "ordered ok s' \<langle>\<rangle>" by (simp add: ordered_def contents_def ascending_def)
  with s' Purge show ?thesis by (intro exI [of _ s'] exI [of _ "\<langle>\<rangle>"]) (simp add: contents_def)
qed

lemma length_ordered_insert: "length (ordered_insert cmp x xs) \<le> length xs + 1"
proof -
  have "length (filter (\<lambda>y. cmp x y > 0) xs) + length (filter (\<lambda>y. cmp x y < 0) xs) \<le> length xs"
    by (induction xs) auto
  then show ?thesis by (simp add: ordered_insert_def)
qed

lemma length_effect: "length (effect cmp c xs) \<le> length xs + 1"
proof (cases c)
  case (Item_insert m x)
  with length_ordered_insert [of cmp x xs] show ?thesis by simp
next
  case (Item_delete x)
  have "length (ordered_delete cmp x xs) \<le> length xs" unfolding ordered_delete_def by (rule length_filter_le)
  with Item_delete show ?thesis by simp
qed simp

lemma reachable_ordered:
  assumes "reachable ok (avl_tree_init cmp f) cs s" "comparator cmp ok" "length cs < 2 ^ 64"
  shows "\<exists>t. ordered ok s t \<and> cmpitem s = cmp \<and> contents s t = fold (effect cmp) cs [] \<and> length (contents s t) \<le> length cs"
  using assms
proof (induction rule: reachable.induct)
  case start
  have "contents (avl_tree_init cmp f) \<langle>\<rangle> = []" "cmpitem (avl_tree_init cmp f) = cmp"
    by (simp_all add: contents_def avl_tree_init_def)
  with ordered_init [of ok cmp f] show ?case by (intro exI [of _ "\<langle>\<rangle>"]) simp
next
  case (step cs s c s')
  from step.IH [OF step.prems(1)] step.prems(2) obtain t where t: "ordered ok s t" "cmpitem s = cmp"
    "contents s t = fold (effect cmp) cs []" "length (contents s t) \<le> length cs" by auto
  have c: "comparator (cmpitem s) ok" using step.prems(1) t(2) by simp
  have size: "length (contents s t) + 1 < 2 ^ 64" using t(4) step.prems(2) by simp
  from perform_ok [OF c t(1) step.hyps(2) size] step.hyps(3) obtain t' where t': "ordered ok s' t'"
    "cmpitem s' = cmpitem s" "contents s' t' = effect (cmpitem s) c (contents s t)" by auto
  have "length (contents s' t') \<le> length (cs @ [c])"
    using length_effect [of cmp c "contents s t"] t(2,4) t'(3) by simp
  with t t' show ?case by auto
qed

text \<open>Performing a list of admissible calls.\<close>

fun perform_all :: "'a call list \<Rightarrow> 'a avl_tree \<Rightarrow> 'a avl_tree option" where
  "perform_all [] s = Some s"
| "perform_all (c # cs) s = (if admissible (\<lambda>_. True) s c then Option.bind (perform c s) (perform_all cs) else None)"

lemma reachable_step_first:
  assumes "reachable ok s1 cs s" "admissible ok s0 c" "perform c s0 = Some s1"
  shows "reachable ok s0 (c # cs) s"
  using assms
proof (induction rule: reachable.induct)
  case start
  then have "reachable ok s0 ([] @ [c]) s1" by (blast intro: reachable.intros)
  then show ?case by simp
next
  case (step cs s d s')
  then have "reachable ok s0 ((c # cs) @ [d]) s'" by (blast intro: reachable.intros)
  then show ?case by simp
qed

lemma perform_all_reachable: "perform_all cs s0 = Some s \<Longrightarrow> reachable (\<lambda>_. True) s0 cs s"
proof (induction cs arbitrary: s0)
  case Nil
  then show ?case by (simp add: reachable.start)
next
  case (Cons c cs)
  then obtain s1 where "admissible (\<lambda>_. True) s0 c" "perform c s0 = Some s1" "perform_all cs s1 = Some s"
    by (auto simp: bind_eq_Some_conv split: if_splits)
  with Cons.IH [of s1] show ?case by (blast intro: reachable_step_first)
qed

section \<open>A tree with items of the logger\<close>

definition evaluated :: "nat \<Rightarrow> logger_biobj_avl_item" where
  "evaluated n = \<lparr> item_x = [], item_y = [], item_normalized_y = [], evaluation_number = n,
     indicator_contribution = 0, within_ROI = False \<rparr>"

definition sample_calls :: "logger_biobj_avl_item call list" where
  "sample_calls = [Item_insert (Some 7) (evaluated 3), Item_insert (Some 4) (evaluated 5),
     Item_insert (Some 9) (evaluated 8), Item_insert None (evaluated 1), Item_insert (Some 2) (evaluated 5),
     Item_insert (Some 2) (evaluated 4), Item_delete (evaluated 3)]"

definition sample_tree :: "logger_biobj_avl_item avl_tree" where
  "sample_tree = the (perform_all sample_calls (avl_tree_init avl_tree_compare_by_eval_number False))"

lemma sample_run: "perform_all sample_calls (avl_tree_init avl_tree_compare_by_eval_number False) = Some sample_tree"
proof -
  have "perform_all sample_calls (avl_tree_init avl_tree_compare_by_eval_number False) \<noteq> None" by code_simp
  then show ?thesis by (simp add: sample_tree_def)
qed

lemma sample_reachable: "reachable (\<lambda>_. True) (avl_tree_init avl_tree_compare_by_eval_number False) sample_calls sample_tree"
  by (rule perform_all_reachable [OF sample_run])

lemma sample_effect: "fold (effect avl_tree_compare_by_eval_number) sample_calls [] = [evaluated 4, evaluated 5, evaluated 8]"
  by code_simp

definition sample_shape :: "addr tree" where
  "sample_shape = \<langle>\<langle>\<langle>\<rangle>, 2, \<langle>\<rangle>\<rangle>, 4, \<langle>\<langle>\<rangle>, 9, \<langle>\<rangle>\<rangle>\<rangle>"

lemma shape_code [code]:
  "shape h p \<langle>\<rangle> \<longleftrightarrow> True"
  "shape h p \<langle>l, a, r\<rangle> \<longleftrightarrow> (case h a of None \<Rightarrow> False
     | Some n \<Rightarrow> n_parent n = p \<and> n_left n = rootp l \<and> n_right n = rootp r
         \<and> n_count n = of_nat (size l + size r + 1) \<and> unat (n_depth n) = max (height l) (height r) + 1)
     \<and> shape h (Some a) l \<and> shape h (Some a) r"
  by (auto split: option.splits)

lemma linked_code [code]:
  "linked v p [] q \<longleftrightarrow> True"
  "linked v p (x # xs) q \<longleftrightarrow> (case v x of None \<Rightarrow> False | Some (p', q', i) \<Rightarrow> p' = p \<and> q' = first_of xs q)
     \<and> linked v (Some x) xs q"
  by (auto split: option.splits)

lemma sample_inv: "avl_inv sample_tree sample_shape"
  by code_simp

lemma sample_contents: "contents sample_tree sample_shape = [evaluated 4, evaluated 5, evaluated 8]"
  by code_simp

lemma sample_cmp: "cmpitem sample_tree = avl_tree_compare_by_eval_number" "frees sample_tree = False"
  "freed_items sample_tree = []"
proof -
  obtain t where "cmpitem sample_tree = avl_tree_compare_by_eval_number"
    using reachable_ordered [OF sample_reachable by_eval_number.comparator_axioms] by (auto simp: sample_calls_def)
  then show "cmpitem sample_tree = avl_tree_compare_by_eval_number" .
qed (code_simp)+

lemma sample_ordered: "ordered (\<lambda>_. True) sample_tree sample_shape"
proof -
  have "ascending avl_tree_compare_by_eval_number [evaluated 4, evaluated 5, evaluated 8]" by code_simp
  then show ?thesis by (simp add: ordered_def sample_inv sample_contents sample_cmp)
qed

lemma sample_comparator: "comparator (cmpitem sample_tree) (\<lambda>_. True)"
  by (simp add: sample_cmp by_eval_number.comparator_axioms)

section \<open>The tree refines an ordered list\<close>

text \<open>
  C2. Refinement and safety of the AVL tree: after any sequence of admissible insertions, deletions and
  purges, starting from an initialized tree, the heap is a balanced, correctly linked search tree whose
  items are those of the abstract ordered list, and every further admissible call returns without
  touching NULL or a freed node.
\<close>

theorem tree_refines_list:
  assumes "comparator cmp ok" "reachable ok (avl_tree_init cmp f) cs s" "length cs + 1 < 2 ^ 64"
  shows "\<exists>t. ordered ok s t \<and> contents s t = fold (effect cmp) cs []
    \<and> (\<forall>c. admissible ok s c \<longrightarrow> (\<exists>s'. perform c s = Some s'))"
proof -
  have "length cs < 2 ^ 64" using assms(3) by simp
  from reachable_ordered [OF assms(2,1) this] obtain t where t: "ordered ok s t" "cmpitem s = cmp"
    "contents s t = fold (effect cmp) cs []" "length (contents s t) \<le> length cs" by blast
  have c: "comparator (cmpitem s) ok" using assms(1) t(2) by simp
  have size: "length (contents s t) + 1 < 2 ^ 64" using t(4) assms(3) by simp
  have "\<exists>s'. perform c s = Some s'" if "admissible ok s c" for c
    using perform_ok [OF c t(1) that size] by blast
  with t show ?thesis by blast
qed

theorem tree_refines_list_witness:
  "\<exists>t. ordered (\<lambda>_. True) sample_tree t \<and> contents sample_tree t = [evaluated 4, evaluated 5, evaluated 8]
    \<and> (\<forall>c. admissible (\<lambda>_. True) sample_tree c \<longrightarrow> (\<exists>s'. perform c sample_tree = Some s'))"
  using tree_refines_list [OF by_eval_number.comparator_axioms sample_reachable] sample_effect
  by (simp add: sample_calls_def)

section \<open>The single operations\<close>

text \<open>
  Inserting an item with a pointer from \<open>malloc\<close>: the new list is the ordered insertion of the item;
  when an equal item is there, NULL is returned and the tree is unchanged (the new node freed again);
  otherwise the new node is returned and it holds the item.
\<close>

theorem avl_item_insert_correct:
  assumes "comparator (cmpitem s) ok" "ordered ok s t" "ok x" "size t + 1 < 2 ^ 64" "nodes s b = None"
  shows "\<exists>s' t'. avl_item_insert s (Some b) x
      = Some (s', if \<exists>y \<in> set (contents s t). cmpitem s x y = 0 then None else Some b)
    \<and> ordered ok s' t' \<and> contents s' t' = ordered_insert (cmpitem s) x (contents s t)
    \<and> ((\<exists>y \<in> set (contents s t). cmpitem s x y = 0) \<longrightarrow> s' = s)
    \<and> (\<not> (\<exists>y \<in> set (contents s t). cmpitem s x y = 0) \<longrightarrow> set_tree t' = insert b (set_tree t) \<and> item_of s' b = x)"
  using item_insert_ok [OF assms] by (auto split: if_splits)

theorem avl_item_insert_correct_witness:
  "\<exists>s' t'. avl_item_insert sample_tree (Some 5) (evaluated 6) = Some (s', Some 5)
    \<and> ordered (\<lambda>_. True) s' t' \<and> contents s' t' = [evaluated 4, evaluated 5, evaluated 6, evaluated 8]
    \<and> set_tree t' = {5, 2, 4, 9} \<and> item_of s' 5 = evaluated 6"
proof -
  have "nodes sample_tree 5 = None" by code_simp
  moreover have "size sample_shape + 1 < 2 ^ 64" "set_tree sample_shape = {2, 4, 9}" by (simp_all add: sample_shape_def insert_commute)
  moreover have "\<not> (\<exists>y \<in> set [evaluated 4, evaluated 5, evaluated 8]. avl_tree_compare_by_eval_number (evaluated 6) y = 0)"
    "ordered_insert avl_tree_compare_by_eval_number (evaluated 6) [evaluated 4, evaluated 5, evaluated 8]
      = [evaluated 4, evaluated 5, evaluated 6, evaluated 8]" by code_simp+
  ultimately show ?thesis
    using avl_item_insert_correct [OF sample_comparator sample_ordered, where x = "evaluated 6" and b = 5]
    unfolding sample_contents sample_cmp by simp
qed

text \<open>
  Deleting an item: the items equal to it leave the list, the free handler is called once, on the
  deleted item, and that item is returned; when there is none, NULL is returned and nothing changes.
\<close>

theorem avl_item_delete_correct:
  assumes "comparator (cmpitem s) ok" "ordered ok s t" "ok x"
  shows "\<exists>s' t' r. avl_item_delete s x = Some (s', r) \<and> ordered ok s' t'
    \<and> contents s' t' = ordered_delete (cmpitem s) x (contents s t)
    \<and> (r = None \<longrightarrow> (\<forall>y \<in> set (contents s t). cmpitem s x y \<noteq> 0) \<and> s' = s)
    \<and> (\<forall>y. r = Some y \<longrightarrow> y \<in> set (contents s t) \<and> cmpitem s x y = 0
        \<and> freed_items s' = freed_items s @ (if frees s then [y] else []))"
  using item_delete_ok [OF assms] by (fastforce split: option.splits)

theorem avl_item_delete_correct_witness:
  "\<exists>s' t' r. avl_item_delete sample_tree (evaluated 5) = Some (s', r) \<and> ordered (\<lambda>_. True) s' t'
    \<and> contents s' t' = [evaluated 4, evaluated 8] \<and> (\<forall>y. r = Some y \<longrightarrow> freed_items s' = [])"
proof -
  have "ordered_delete avl_tree_compare_by_eval_number (evaluated 5) [evaluated 4, evaluated 5, evaluated 8]
      = [evaluated 4, evaluated 8]" by code_simp
  then show ?thesis
    using avl_item_delete_correct [OF sample_comparator sample_ordered, of "evaluated 5"]
    unfolding sample_contents sample_cmp by fastforce
qed

text \<open>
  C34. The search to the right returns the last node whose item is not greater than the searched one (NULL
  when there is none) and says whether an equal item is in the tree.
\<close>

theorem avl_item_search_right_correct:
  assumes "comparator (cmpitem s) ok" "ordered ok s t" "ok x"
  shows "avl_item_search_right s x
      = Some (last_of (filter (\<lambda>a. cmpitem s x (item_of s a) \<ge> 0) (inorder t)) None,
          \<exists>y \<in> set (contents s t). cmpitem s x y = 0)"
proof -
  have "avl_inv s t" using assms(2) by (simp add: ordered_def)
  from search_right_last [OF this directed_contents(1) [OF assms]] show ?thesis by (simp add: contents_def)
qed

theorem avl_item_search_right_correct_witness:
  "avl_item_search_right sample_tree (evaluated 7) = Some (Some 4, False)"
proof -
  have "last_of (filter (\<lambda>a. avl_tree_compare_by_eval_number (evaluated 7) (item_of sample_tree a) \<ge> 0) (inorder sample_shape)) None = Some 4"
    "\<not> (\<exists>y \<in> set [evaluated 4, evaluated 5, evaluated 8]. avl_tree_compare_by_eval_number (evaluated 7) y = 0)"
    by code_simp+
  then show ?thesis
    using avl_item_search_right_correct [OF sample_comparator sample_ordered, of "evaluated 7"]
    unfolding sample_contents sample_cmp by simp
qed

text \<open>
  C32. Unlinking a node of a valid tree ends, rebalancing included, and leaves a valid AVL tree of the
  other nodes in the same order; no item is freed.
\<close>

theorem avl_node_unlink_ends:
  assumes "avl_inv s t" "a \<in> set_tree t"
  shows "\<exists>s' t'. avl_node_unlink s (Some a) = Some s' \<and> avl_inv s' t' \<and> inorder t' = remove1 a (inorder t)
    \<and> freed_items s' = freed_items s \<and> (\<forall>b. map_option n_item (nodes s' b) = map_option n_item (nodes s b))"
  using unlink_inv [OF assms] by (auto simp: same_items_def)

theorem avl_node_unlink_ends_witness:
  "\<exists>s' t'. avl_node_unlink sample_tree (Some 4) = Some s' \<and> avl_inv s' t' \<and> inorder t' = [2, 9]"
proof -
  have "(4 :: addr) \<in> set_tree sample_shape" "remove1 4 (inorder sample_shape) = [2, 9]" by (simp_all add: sample_shape_def)
  then show ?thesis using avl_node_unlink_ends [OF sample_inv, of 4] by auto
qed

lemma subtree_plug: "u \<in> subtrees t \<Longrightarrow> \<exists>ctx. t = plug u ctx"
proof (induction t)
  case Leaf
  then show ?case by (auto intro: exI [of _ "[]"])
next
  case (Node l a r)
  have ctx: "plug u (c @ [(Lft, a, r)]) = \<langle>plug u c, a, r\<rangle>" "plug u (c @ [(Rgt, a, l)]) = \<langle>l, a, plug u c\<rangle>" for c
    by (simp_all add: plug_append)
  consider "u = \<langle>l, a, r\<rangle>" | c where "l = plug u c" | c where "r = plug u c" using Node by auto
  then show ?case by cases (metis plug.simps(1), metis ctx(1), metis ctx(2))
qed



text \<open>
  Purging a tree frees every node exactly once, hands every item to the free handler once, in order,
  and leaves the empty tree.
\<close>

theorem avl_tree_purge_frees_all:
  assumes "avl_inv s t"
  shows "\<exists>s'. avl_tree_purge s = Some s' \<and> avl_inv s' \<langle>\<rangle> \<and> top s' = None
    \<and> (\<forall>a \<in> set_tree t. nodes s' a = None)
    \<and> freed_items s' = freed_items s @ (if frees s then contents s t else [])"
  using tree_purge_ok [OF assms] by (auto simp: avl_inv_def)

theorem avl_tree_purge_frees_all_witness:
  "\<exists>s'. avl_tree_purge sample_tree = Some s' \<and> top s' = None \<and> nodes s' 2 = None \<and> nodes s' 4 = None \<and> nodes s' 9 = None"
  using avl_tree_purge_frees_all [OF sample_inv] by (auto simp: sample_shape_def)

end
