(* ===== verification/Coco_Archive.thy ===== *)
theory Coco_Archive
  imports Avl_Items Coco_Numerics
begin

text \<open>
  The archive of \<open>coco_archive.c\<close>: an AVL tree of the non-dominated solutions of a bi-objective
  problem, with the two extreme solutions, the number of solutions and the hypervolume.

  An operation that follows a pointer of the tree returns \<open>Inl Null_deref\<close> when the tree's operation is
  undefined (\<open>None\<close> there). The pointers that \<open>malloc\<close> returns for new nodes are parameters.
\<close>

section \<open>Items\<close>

record archive_item =
  normalized_y :: "real list"
  item_text :: string

definition coco_archive_node_item_create ::
    "real list \<Rightarrow> real list \<Rightarrow> real list \<Rightarrow> nat \<Rightarrow> string \<Rightarrow> archive_item result" where
  "coco_archive_node_item_create y ideal nadir num_obj text =
     rbind (mo_normalize y ideal nadir num_obj) (\<lambda>v. Inr \<lparr> normalized_y = v, item_text = text \<rparr>)"

definition coco_archive_compare_by_last_objective :: "archive_item \<Rightarrow> archive_item \<Rightarrow> int" where
  "coco_archive_compare_by_last_objective item1 item2 =
     (if coco_double_almost_equal (normalized_y item1 ! 1) (normalized_y item2 ! 1) mo_precision then 0
      else if normalized_y item1 ! 1 < normalized_y item2 ! 1 then - 1 else 1)"

section \<open>The archive\<close>

record coco_archive =
  tree :: "archive_item avl_tree"
  ideal :: "real list"
  nadir :: "real list"
  number_of_objectives :: nat
  is_up_to_date :: bool
  number_of_solutions :: nat
  hypervolume :: real
  current_solution :: ptr
  extreme1 :: ptr
  extreme2 :: ptr
  extremes_already_returned :: bool

definition coco_archive_allocate :: coco_archive where
  "coco_archive_allocate = \<lparr> tree = avl_tree_init coco_archive_compare_by_last_objective True,
     ideal = [], nadir = [], number_of_objectives = 2, is_up_to_date = False, number_of_solutions = 0,
     hypervolume = 0, current_solution = None, extreme1 = None, extreme2 = None,
     extremes_already_returned = False \<rparr>"

definition on_heap :: "'b option \<Rightarrow> 'b result" where
  "on_heap m = (case m of None \<Rightarrow> Inl Null_deref | Some x \<Rightarrow> Inr x)"

text \<open>The loop that removes the nodes behind the new one that it dominates.\<close>

partial_function (option) remove_dominated ::
    "archive_item \<Rightarrow> ptr \<Rightarrow> ptr \<Rightarrow> nat \<Rightarrow> archive_item avl_tree \<Rightarrow> ptr \<Rightarrow> archive_item avl_tree result option" where
  "remove_dominated item ext1 ext2 num_obj t next_node =
    (if next_node = None then Some (Inr t)
     else do {
       n \<leftarrow> deref t next_node;
       (case mo_get_dominance (normalized_y item) (normalized_y (n_item n)) num_obj of
          Inl e \<Rightarrow> Some (Inl e)
        | Inr dominance \<Rightarrow>
            if dominance = 1 then
              (if next_node = ext1 \<or> next_node = ext2 then Some (Inl (Assert_failed ''coco_archive_add_solution''))
               else do {
                 r \<leftarrow> avl_node_delete t next_node;
                 remove_dominated item ext1 ext2 num_obj (fst r) (n_next n) })
            else Some (Inr t)) })"

declare remove_dominated.simps [code]

text \<open>
  The first part of \<open>coco_archive_add_solution\<close>: whether the archive is to be updated, the tree and
  the node from which dominated nodes are removed.
\<close>

definition find_position ::
    "coco_archive \<Rightarrow> archive_item \<Rightarrow> (bool \<times> archive_item avl_tree \<times> ptr) result" where
  "find_position archive insert_item =
    rbind (on_heap (avl_item_search_right (tree archive) insert_item)) (\<lambda>(node, exact).
      if node = None then Inr (True, tree archive, head (tree archive))
      else rbind (on_heap (deref (tree archive) node)) (\<lambda>n.
        rbind (mo_get_dominance (normalized_y insert_item) (normalized_y (n_item n)) (number_of_objectives archive))
          (\<lambda>dominance.
            if dominance > - 1 then
              (if dominance = 1 then
                 if node = extreme1 archive \<or> node = extreme2 archive then
                   Inl (Assert_failed ''coco_archive_add_solution'')
                 else rbind (on_heap (avl_node_delete (tree archive) node)) (\<lambda>(t, _). Inr (True, t, n_next n))
               else Inr (True, tree archive, n_next n))
            else Inr (False, tree archive, None))))"

text \<open>The pointer \<open>m\<close> is the result of \<open>malloc\<close> for the new node; the result is the value \<open>update\<close>.\<close>

definition coco_archive_add_solution ::
    "coco_archive \<Rightarrow> real \<Rightarrow> real \<Rightarrow> string \<Rightarrow> ptr \<Rightarrow> (coco_archive \<times> bool) result" where
  "coco_archive_add_solution archive y1 y2 text m =
    rbind (coco_archive_node_item_create [y1, y2] (ideal archive) (nadir archive) (number_of_objectives archive) text)
      (\<lambda>insert_item.
        rbind (find_position archive insert_item) (\<lambda>(update, t, next_node).
          if \<not> update then Inr (archive, False)
          else
            rbind (rbind (on_heap (remove_dominated insert_item (extreme1 archive) (extreme2 archive)
                (number_of_objectives archive) t next_node)) id) (\<lambda>t.
              rbind (on_heap (avl_item_insert t m insert_item)) (\<lambda>(t, p).
                Inr (archive \<lparr> tree := t, is_up_to_date := False \<rparr>, p \<noteq> None)))))"

section \<open>The fields that are computed\<close>

text \<open>The contribution of a pair of neighbours to the hypervolume.\<close>

definition hyp_contribution :: "archive_item \<Rightarrow> archive_item \<Rightarrow> nat \<Rightarrow> real result" where
  "hyp_contribution node_item left_node_item num_obj =
    rbind (mo_is_within_ROI (normalized_y left_node_item) num_obj) (\<lambda>left_inside.
      if left_inside then
        rbind (mo_is_within_ROI (normalized_y node_item) num_obj) (\<lambda>inside.
          let hyp = (if inside
              then (normalized_y node_item ! 0 - normalized_y left_node_item ! 0) * (1 - normalized_y left_node_item ! 1)
              else (1 - normalized_y left_node_item ! 0) * (1 - normalized_y left_node_item ! 1))
          in if \<not> hyp \<ge> 0 then Inl (Assert_failed ''coco_archive_update'') else Inr hyp)
      else Inr 0)"

partial_function (option) hypervolume_loop ::
    "nat \<Rightarrow> archive_item avl_tree \<Rightarrow> ptr \<Rightarrow> real \<Rightarrow> real result option" where
  "hypervolume_loop num_obj t node hv = do {
     n \<leftarrow> deref t node;
     (if n_next n = None then Some (Inr hv)
      else do {
        l \<leftarrow> deref t (n_next n);
        (case hyp_contribution (n_item n) (n_item l) num_obj of
           Inl e \<Rightarrow> Some (Inl e)
         | Inr hyp \<Rightarrow> hypervolume_loop num_obj t (n_next n) (hv + hyp)) }) }"

declare hypervolume_loop.simps [code]

definition coco_archive_update :: "coco_archive \<Rightarrow> coco_archive result" where
  "coco_archive_update archive =
    (if is_up_to_date archive then Inr archive
     else
       rbind (on_heap (avl_count (Some (tree archive)))) (\<lambda>c.
       rbind (rbind (on_heap (hypervolume_loop (number_of_objectives archive) (tree archive) (head (tree archive)) 0)) id)
         (\<lambda>hv. Inr (archive \<lparr> number_of_solutions := unat c, hypervolume := hv, is_up_to_date := True,
            current_solution := None, extremes_already_returned := False \<rparr>))))"

text \<open>
  The text of the next solution: the empty string at the end, NULL (\<open>None\<close>) only where the code says
  that it is never reached.
\<close>

partial_function (option) next_solution_text :: "coco_archive \<Rightarrow> (coco_archive \<times> string option) result option" where
  "next_solution_text archive =
    (case coco_archive_update archive of
       Inl e \<Rightarrow> Some (Inl e)
     | Inr archive \<Rightarrow>
         (if \<not> extremes_already_returned archive then
            (if current_solution archive = None then do {
               n \<leftarrow> deref (tree archive) (extreme1 archive);
               Some (Inr (archive \<lparr> current_solution := extreme2 archive \<rparr>, Some (item_text (n_item n)))) }
             else if current_solution archive = extreme2 archive then do {
               n \<leftarrow> deref (tree archive) (extreme2 archive);
               Some (Inr (archive \<lparr> extremes_already_returned := True, current_solution := head (tree archive) \<rparr>,
                 Some (item_text (n_item n)))) }
             else Some (Inr (archive, None)))
          else if current_solution archive = None then Some (Inr (archive, Some ''''))
          else do {
            n \<leftarrow> deref (tree archive) (current_solution archive);
            (if current_solution archive = extreme1 archive \<or> current_solution archive = extreme2 archive
             then next_solution_text (archive \<lparr> current_solution := n_next n \<rparr>)
             else Some (Inr (archive \<lparr> current_solution := n_next n \<rparr>, Some (item_text (n_item n))))) }))"

declare next_solution_text.simps [code]

definition coco_archive_get_next_solution_text :: "coco_archive \<Rightarrow> (coco_archive \<times> string option) result" where
  "coco_archive_get_next_solution_text archive = rbind (on_heap (next_solution_text archive)) id"

definition coco_archive_get_number_of_solutions :: "coco_archive \<Rightarrow> (coco_archive \<times> nat) result" where
  "coco_archive_get_number_of_solutions archive =
    rbind (coco_archive_update archive) (\<lambda>archive. Inr (archive, number_of_solutions archive))"

definition coco_archive_get_hypervolume :: "coco_archive \<Rightarrow> (coco_archive \<times> real) result" where
  "coco_archive_get_hypervolume archive =
    rbind (coco_archive_update archive) (\<lambda>archive. Inr (archive, hypervolume archive))"

text \<open>The tree after \<open>coco_archive_free\<close>, whose nodes and items are all freed.\<close>

definition coco_archive_free :: "coco_archive \<Rightarrow> archive_item avl_tree result" where
  "coco_archive_free archive = on_heap (avl_tree_purge (tree archive))"

end
