(* ===== verification/Coco_Front.thy ===== *)
theory Coco_Front
  imports Coco_Archive
begin

text \<open>
  The solutions of the archive as a front: an abstract list of items in the order of the second
  objective, the update of the front by a new item, and the hypervolume as a number of grid cells.
  The comparison function of the archive satisfies the contract of the AVL tree on normalized items.
\<close>

section \<open>Normalized items\<close>

abbreviation y0 :: "archive_item \<Rightarrow> real" where
  "y0 x \<equiv> normalized_y x ! 0"

abbreviation y1 :: "archive_item \<Rightarrow> real" where
  "y1 x \<equiv> normalized_y x ! 1"

text \<open>What \<open>mo_normalize\<close> gives for two objectives.\<close>

definition normalized :: "archive_item \<Rightarrow> bool" where
  "normalized x \<longleftrightarrow> (\<exists>a b. normalized_y x = grid [a, b]
     \<and> (a = 0 \<longrightarrow> 2000000000000 \<le> b) \<and> (b = 0 \<longrightarrow> 2000000000000 \<le> a))"

definition dominates :: "archive_item \<Rightarrow> archive_item \<Rightarrow> bool" where
  "dominates x z \<longleftrightarrow> y0 x \<le> y0 z \<and> y1 x \<le> y1 z \<and> (y0 x < y0 z \<or> y1 x < y1 z)"

definition covers :: "archive_item \<Rightarrow> archive_item \<Rightarrow> bool" where
  "covers z x \<longleftrightarrow> y0 z \<le> y0 x \<and> y1 z \<le> y1 x"

lemma grid2: "grid [a, b] = [real a * mo_discretization, real b * mo_discretization]"
  by (simp add: grid_def)

lemma mo_discretization_nonzero [simp]: "mo_discretization \<noteq> 0"
  by (simp add: mo_discretization_def)

lemma grid_le: "real a * mo_discretization \<le> real b * mo_discretization \<longleftrightarrow> a \<le> b"
  by (simp add: mo_discretization_def)

lemma grid_eq: "real a * mo_discretization = real b * mo_discretization \<longleftrightarrow> a = b"
  by (simp add: mo_discretization_def)

text \<open>On normalized items the comparison function compares the second objective exactly.\<close>

lemma compare_normalized:
  assumes "normalized x" "normalized z"
  shows "coco_archive_compare_by_last_objective x z = (if y1 x = y1 z then 0 else if y1 x < y1 z then - 1 else 1)"
  using assms by (auto simp: normalized_def coco_archive_compare_by_last_objective_def grid2 grid_eq)

lemma compare_signs:
  assumes "normalized x" "normalized z"
  shows "coco_archive_compare_by_last_objective x z < 0 \<longleftrightarrow> y1 x < y1 z"
    "coco_archive_compare_by_last_objective x z > 0 \<longleftrightarrow> y1 x > y1 z"
    "coco_archive_compare_by_last_objective x z = 0 \<longleftrightarrow> y1 x = y1 z"
  using compare_normalized [OF assms] by auto

interpretation by_last_objective: comparator coco_archive_compare_by_last_objective normalized
  by unfold_locales (auto simp: compare_signs)

lemma dominance_normalized:
  assumes "normalized x" "normalized z"
  shows "mo_get_dominance (normalized_y x) (normalized_y z) 2 =
    Inr (if y0 x = y0 z \<and> y1 x = y1 z then - 2 else if dominates x z then 1 else if dominates z x then - 1 else 0)"
proof -
  obtain a b where x: "normalized_y x = grid [a, b]" using assms(1) by (auto simp: normalized_def)
  obtain c d where z: "normalized_y z = grid [c, d]" using assms(2) by (auto simp: normalized_def)
  have "mo_get_dominance (normalized_y x) (normalized_y z) 2 = Inr (dominance_spec [a, b] [c, d])"
    unfolding x z by (rule mo_get_dominance_grid) simp_all
  moreover have "dominance_spec [a, b] [c, d] = (if a = c \<and> b = d then - 2
    else if a \<le> c \<and> b \<le> d then 1 else if c \<le> a \<and> d \<le> b then - 1 else 0)"
    by (auto simp: dominance_spec_def pareto_def)
  moreover have "dominates x z \<longleftrightarrow> a \<le> c \<and> b \<le> d \<and> (a < c \<or> b < d)"
    "dominates z x \<longleftrightarrow> c \<le> a \<and> d \<le> b \<and> (c < a \<or> d < b)"
    "y0 x = y0 z \<longleftrightarrow> a = c" "y1 x = y1 z \<longleftrightarrow> b = d"
    by (simp_all add: dominates_def x z grid2 grid_le grid_eq)
  ultimately show ?thesis by auto
qed

section \<open>Fronts\<close>

text \<open>
  The second objective ascends and the first one descends, which for normalized items means that no
  item covers another one.
\<close>

definition front :: "archive_item list \<Rightarrow> bool" where
  "front xs \<longleftrightarrow> (\<forall>x \<in> set xs. normalized x) \<and> sorted_wrt (\<lambda>x z. y1 x < y1 z \<and> y0 x > y0 z) xs"

text \<open>The update of a front by an item that no item covers: the items that it dominates leave.\<close>

definition front_add :: "archive_item \<Rightarrow> archive_item list \<Rightarrow> archive_item list" where
  "front_add x xs = (if \<exists>z \<in> set xs. covers z x then xs
     else ordered_insert coco_archive_compare_by_last_objective x (filter (\<lambda>z. \<not> dominates x z) xs))"

lemma front_ascending: "front xs \<Longrightarrow> ascending coco_archive_compare_by_last_objective xs"
  unfolding front_def ascending_def
  by (elim conjE) (rule sorted_wrt_mono_rel [of xs "\<lambda>x z. y1 x < y1 z \<and> y0 x > y0 z"]; auto simp: compare_signs)

lemma front_nondominated: "front xs \<longleftrightarrow> (\<forall>x \<in> set xs. normalized x) \<and> sorted_wrt (\<lambda>x z. y1 x < y1 z) xs
    \<and> (\<forall>x \<in> set xs. \<forall>z \<in> set xs. x \<noteq> z \<longrightarrow> \<not> covers x z)"
proof
  assume f: "front xs"
  have "sorted_wrt (\<lambda>x z. y1 x < y1 z) xs"
    using f unfolding front_def by (elim conjE) (erule sorted_wrt_mono_rel [rotated], simp)
  moreover have "\<not> covers x z" if "x \<in> set xs" "z \<in> set xs" "x \<noteq> z" for x z
  proof -
    obtain i j where "i < length xs" "j < length xs" "xs ! i = x" "xs ! j = z" "i \<noteq> j"
      using \<open>x \<in> set xs\<close> \<open>z \<in> set xs\<close> \<open>x \<noteq> z\<close> by (metis in_set_conv_nth)
    then have "(y1 x < y1 z \<and> y0 x > y0 z) \<or> (y1 z < y1 x \<and> y0 z > y0 x)"
      using f unfolding front_def sorted_wrt_iff_nth_less by (metis nat_neq_iff)
    then show ?thesis by (auto simp: covers_def)
  qed
  ultimately show "(\<forall>x \<in> set xs. normalized x) \<and> sorted_wrt (\<lambda>x z. y1 x < y1 z) xs
    \<and> (\<forall>x \<in> set xs. \<forall>z \<in> set xs. x \<noteq> z \<longrightarrow> \<not> covers x z)" using f by (simp add: front_def)
next
  assume r: "(\<forall>x \<in> set xs. normalized x) \<and> sorted_wrt (\<lambda>x z. y1 x < y1 z) xs
    \<and> (\<forall>x \<in> set xs. \<forall>z \<in> set xs. x \<noteq> z \<longrightarrow> \<not> covers x z)"
  have "y0 x > y0 z" if "x \<in> set xs" "z \<in> set xs" "y1 x < y1 z" for x z
  proof -
    have "x \<noteq> z" using that(3) by blast
    then have "\<not> covers x z" using r that(1,2) by blast
    with that(3) show ?thesis by (simp add: covers_def)
  qed
  then have "sorted_wrt (\<lambda>x z. y1 x < y1 z \<and> y0 x > y0 z) xs"
    using r sorted_wrt_mono_rel [of xs "\<lambda>x z. y1 x < y1 z" "\<lambda>x z. y1 x < y1 z \<and> y0 x > y0 z"] by simp
  with r show "front xs" by (simp add: front_def)
qed

text \<open>
  The two parts of a front around a new item: the items that are at most as large in the second
  objective, and the larger ones.
\<close>

lemma front_split:
  assumes "front (ps @ ns)" "normalized x" "\<forall>z \<in> set ps. y1 z \<le> y1 x" "\<forall>z \<in> set ns. y1 x < y1 z"
  shows "(\<exists>z \<in> set (ps @ ns). covers z x) \<longleftrightarrow> ps \<noteq> [] \<and> y0 (last ps) \<le> y0 x"
    "ps = [] \<or> y0 x < y0 (last ps) \<Longrightarrow>
       front_add x (ps @ ns) = filter (\<lambda>z. y1 z \<noteq> y1 x) ps @ x # dropWhile (dominates x) ns"
    "ps = [] \<or> y0 x < y0 (last ps) \<Longrightarrow> front (front_add x (ps @ ns))"
proof -
  have ps: "\<forall>z \<in> set ps. y0 (last ps) \<le> y0 z"
  proof (cases ps rule: rev_cases)
    case (snoc us z)
    with assms(1) show ?thesis by (auto simp: front_def sorted_wrt_append)
  qed simp
  show c: "(\<exists>z \<in> set (ps @ ns). covers z x) \<longleftrightarrow> ps \<noteq> [] \<and> y0 (last ps) \<le> y0 x"
  proof
    assume "\<exists>z \<in> set (ps @ ns). covers z x"
    then obtain z where z: "z \<in> set ps" "y0 z \<le> y0 x" using assms(4) by (fastforce simp: covers_def)
    with ps have "y0 (last ps) \<le> y0 x" "ps \<noteq> []" by fastforce+
    then show "ps \<noteq> [] \<and> y0 (last ps) \<le> y0 x" by simp
  next
    assume "ps \<noteq> [] \<and> y0 (last ps) \<le> y0 x"
    then show "\<exists>z \<in> set (ps @ ns). covers z x" using assms(3) by (auto simp: covers_def intro!: bexI [of _ "last ps"])
  qed
  assume a: "ps = [] \<or> y0 x < y0 (last ps)"
  then have nc: "\<not> (\<exists>z \<in> set (ps @ ns). covers z x)" using c by auto
  have lt: "\<forall>z \<in> set ps. y0 x < y0 z" using a ps by fastforce
  have norm: "\<forall>z \<in> set (ps @ ns). normalized z" using assms(1) by (simp add: front_def)
  have fps: "filter (\<lambda>z. \<not> dominates x z) ps = filter (\<lambda>z. y1 z \<noteq> y1 x) ps"
    using lt assms(3) by (intro filter_cong refl) (auto simp: dominates_def)
  have fns: "filter (\<lambda>z. \<not> dominates x z) ns = dropWhile (dominates x) ns"
  proof -
    have "sorted_wrt (\<lambda>z w. y0 z > y0 w) ns"
      using assms(1) unfolding front_def sorted_wrt_append
      by (elim conjE) (rule sorted_wrt_mono_rel [of ns "\<lambda>x z. y1 x < y1 z \<and> y0 x > y0 z"]; simp)
    then show ?thesis using assms(4)
    proof (induction ns)
      case (Cons z ns)
      show ?case
      proof (cases "dominates x z")
        case True
        with Cons show ?thesis by simp
      next
        case False
        then have "y0 z < y0 x" using Cons.prems(2) by (auto simp: dominates_def)
        then have "filter (\<lambda>w. \<not> dominates x w) ns = ns"
          using Cons.prems(1) by (intro filter_True) (auto simp: dominates_def)
        with False show ?thesis by simp
      qed
    qed simp
  qed
  define ps' where "ps' = filter (\<lambda>z. y1 z \<noteq> y1 x) ps"
  define ns' where "ns' = dropWhile (dominates x) ns"
  have ps': "\<forall>z \<in> set ps'. y1 z < y1 x" using assms(3) by (auto simp: ps'_def)
  have sub: "set ns' \<subseteq> set ns" by (simp add: ns'_def set_dropWhile_subset)
  have cmp: "\<forall>z \<in> set ps'. coco_archive_compare_by_last_objective x z > 0"
    "\<forall>z \<in> set ns'. coco_archive_compare_by_last_objective x z < 0"
    using ps' sub assms(2,4) norm by (auto simp: compare_signs ps'_def)
  have "ordered_insert coco_archive_compare_by_last_objective x (ps' @ ns') = ps' @ x # ns'"
  proof -
    have "filter (\<lambda>z. coco_archive_compare_by_last_objective x z > 0) (ps' @ ns') = ps'"
      using cmp by (auto simp: filter_empty_conv intro!: filter_True)
    moreover have "filter (\<lambda>z. coco_archive_compare_by_last_objective x z < 0) (ps' @ ns') = ns'"
      using cmp by (auto simp: filter_empty_conv intro!: filter_True)
    moreover have "\<not> (\<exists>z \<in> set (ps' @ ns'). coco_archive_compare_by_last_objective x z = 0)" using cmp by auto
    ultimately show ?thesis by (simp add: ordered_insert_def)
  qed
  then show add: "front_add x (ps @ ns) = filter (\<lambda>z. y1 z \<noteq> y1 x) ps @ x # dropWhile (dominates x) ns"
    using nc fps fns by (simp add: front_add_def ps'_def ns'_def)
  show "front (front_add x (ps @ ns))"
  proof -
    have s: "sorted_wrt (\<lambda>x z. y1 x < y1 z \<and> y0 x > y0 z) (ps' @ ns')"
      using assms(1) unfolding front_def ps'_def ns'_def
      by (auto simp: sorted_wrt_append intro: sorted_wrt_filter sorted_wrt_dropWhile dest: set_dropWhileD)
    have "\<forall>z \<in> set ns'. y1 x < y1 z \<and> y0 x > y0 z"
    proof (cases ns')
      case (Cons w ws)
      have nd: "\<not> dominates x w" using Cons hd_dropWhile [of "dominates x" ns] unfolding ns'_def by auto
      have "y1 x < y1 w" using Cons sub assms(4) by auto
      then have "y0 w < y0 x" using nd by (auto simp: dominates_def)
      then show ?thesis using s Cons sub assms(4) by (auto simp: sorted_wrt_append)
    qed simp
    then have "sorted_wrt (\<lambda>x z. y1 x < y1 z \<and> y0 x > y0 z) (ps' @ x # ns')"
      using s ps' lt by (auto simp: sorted_wrt_append ps'_def)
    then show ?thesis
      using add norm assms(2) sub by (auto simp: front_def ps'_def ns'_def)
  qed
qed

end
