(* ===== verification/Coco_Archive_Add.thy ===== *)
theory Coco_Archive_Add
  imports Coco_Front
begin

text \<open>
  \<open>coco_archive_add_solution\<close> on the tree refines \<open>front_add\<close> on the front: no assertion fails, no
  freed node is used, and the extreme solutions stay where they are.
\<close>

section \<open>The invariant of an archive\<close>

definition archive_inv :: "coco_archive \<Rightarrow> addr tree \<Rightarrow> bool" where
  "archive_inv a t \<longleftrightarrow> ordered normalized (tree a) t \<and> cmpitem (tree a) = coco_archive_compare_by_last_objective
     \<and> frees (tree a) \<and> front (contents (tree a) t) \<and> number_of_objectives a = 2
     \<and> length (ideal a) = 2 \<and> length (nadir a) = 2 \<and> (\<forall>i < 2. nadir a ! i - ideal a ! i > mo_discretization)"

text \<open>The corners of the region of interest, the items of the extreme solutions.\<close>

definition corner1 :: "archive_item \<Rightarrow> bool" where
  "corner1 x \<longleftrightarrow> normalized_y x = grid [2000000000000, 0]"

definition corner2 :: "archive_item \<Rightarrow> bool" where
  "corner2 x \<longleftrightarrow> normalized_y x = grid [0, 2000000000000]"

definition with_extremes :: "coco_archive \<Rightarrow> addr tree \<Rightarrow> bool" where
  "with_extremes a t \<longleftrightarrow> archive_inv a t \<and> (\<exists>e1 e2 mid. inorder t = e1 # mid @ [e2]
     \<and> extreme1 a = Some e1 \<and> extreme2 a = Some e2
     \<and> corner1 (item_of (tree a) e1) \<and> corner2 (item_of (tree a) e2))"

text \<open>The item that the new solution becomes.\<close>

lemma item_create:
  assumes "archive_inv a t"
  shows "\<exists>x. coco_archive_node_item_create [v1, v2] (ideal a) (nadir a) (number_of_objectives a) text = Inr x
    \<and> normalized x \<and> item_text x = text \<and> mo_normalize [v1, v2] (ideal a) (nadir a) 2 = Inr (normalized_y x)"
proof -
  obtain p q where "mo_normalize [v1, v2] (ideal a) (nadir a) 2 = Inr (grid [p, q])"
    "p = 0 \<longrightarrow> 2000000000000 \<le> q" "q = 0 \<longrightarrow> 2000000000000 \<le> p"
    using mo_normalize_grid [of "[v1, v2]" "ideal a" "nadir a"] assms by (auto simp: archive_inv_def)
  with assms show ?thesis
    by (auto simp: coco_archive_node_item_create_def archive_inv_def normalized_def)
qed

section \<open>Finding the position\<close>

lemma contents_append: "inorder t = us @ ns \<Longrightarrow> contents s t = map (item_of s) us @ map (item_of s) ns"
  by (simp add: contents_def)

lemma position_split:
  assumes inv: "archive_inv a t" and x: "normalized x"
  obtains us ns where "inorder t = us @ ns" "\<forall>z \<in> set us. y1 (item_of (tree a) z) \<le> y1 x"
    "\<forall>z \<in> set ns. y1 x < y1 (item_of (tree a) z)"
    "avl_item_search_right (tree a) x = Some (last_of us None, \<exists>z \<in> set_tree t. cmp_at (tree a) x z = 0)"
proof -
  let ?i = "item_of (tree a)"
  have ord: "ordered normalized (tree a) t" and cmp: "cmpitem (tree a) = coco_archive_compare_by_last_objective"
    using inv by (simp_all add: archive_inv_def)
  have norm: "normalized (?i z)" if "z \<in> set_tree t" for z
    using inv that by (auto simp: archive_inv_def front_def contents_def)
  have sorted: "sorted_wrt (\<lambda>z w. y1 (?i z) < y1 (?i w)) (inorder t)"
    using inv by (auto simp: archive_inv_def front_def contents_def sorted_wrt_map elim: sorted_wrt_mono_rel [rotated])
  define us where "us = takeWhile (\<lambda>z. y1 (?i z) \<le> y1 x) (inorder t)"
  define ns where "ns = dropWhile (\<lambda>z. y1 (?i z) \<le> y1 x) (inorder t)"
  have io: "inorder t = us @ ns" by (simp add: us_def ns_def)
  have us: "\<forall>z \<in> set us. y1 (?i z) \<le> y1 x" by (auto simp: us_def dest: set_takeWhileD)
  have ns: "\<forall>z \<in> set ns. y1 x < y1 (?i z)"
  proof (cases ns)
    case (Cons w ws)
    then have "y1 x < y1 (?i w)" using hd_dropWhile [of "\<lambda>z. y1 (?i z) \<le> y1 x" "inorder t"] unfolding ns_def by auto
    then show ?thesis using sorted Cons io by (auto simp: sorted_wrt_append)
  qed simp
  have sgn: "cmp_at (tree a) x z \<ge> 0 \<longleftrightarrow> y1 (?i z) \<le> y1 x" if "z \<in> set_tree t" for z
    using compare_normalized [OF x norm [OF that]] cmp by auto
  have "filter (\<lambda>z. cmp_at (tree a) x z \<ge> 0) (inorder t) = filter (\<lambda>z. y1 (?i z) \<le> y1 x) (inorder t)"
    by (rule filter_cong) (use sgn in auto)
  also have "\<dots> = us" using us ns by (auto simp: io filter_empty_conv intro!: filter_True)
  finally have f: "filter (\<lambda>z. cmp_at (tree a) x z \<ge> 0) (inorder t) = us" .
  have "comparator (cmpitem (tree a)) normalized" using by_last_objective.comparator_axioms cmp by simp
  from search_right_last [OF _ directed_contents(1) [OF this ord x]] ord
  have "avl_item_search_right (tree a) x = Some (last_of us None, \<exists>z \<in> set_tree t. cmp_at (tree a) x z = 0)"
    unfolding f by (simp add: ordered_def)
  with that io us ns show thesis by blast
qed

section \<open>Removing the dominated nodes\<close>

text \<open>
  \<open>removed s s' zs\<close>: from the tree \<open>s\<close> the nodes \<open>zs\<close> have been deleted.
\<close>

definition removed :: "archive_item avl_tree \<Rightarrow> archive_item avl_tree \<Rightarrow> addr list \<Rightarrow> bool" where
  "removed s s' zs \<longleftrightarrow> same_items (set zs) s s' \<and> (\<forall>z \<in> set zs. nodes s' z = None)
     \<and> freed_items s' = freed_items s @ (if frees s then map (item_of s) zs else [])"

lemma next_node: "avl_inv s t \<Longrightarrow> inorder t = us @ a # vs \<Longrightarrow> \<exists>n. nodes s a = Some n \<and> n_next n = first_of vs None \<and> n_item n = item_of s a"
  by (auto simp: avl_inv_def node_view_def kept_def item_of_def)

lemma remove_dominated_ok:
  assumes "ordered normalized s t" "inorder t = us @ ns" "normalized x"
    and "\<forall>z \<in> set ns. (e1 = Some z \<or> e2 = Some z) \<longrightarrow> \<not> dominates x (item_of s z)"
    and "\<forall>z \<in> set ns. y1 x < y1 (item_of s z)"
  shows "\<exists>s' t'. remove_dominated x e1 e2 2 s (first_of ns None) = Some (Inr s') \<and> ordered normalized s' t'
    \<and> inorder t' = us @ dropWhile (\<lambda>z. dominates x (item_of s z)) ns
    \<and> removed s s' (takeWhile (\<lambda>z. dominates x (item_of s z)) ns)"
  using assms
proof (induction ns arbitrary: s t)
  case Nil
  then show ?case by (subst remove_dominated.simps) (auto simp: removed_def)
next
  case (Cons a ns)
  have inv: "avl_inv s t" using Cons.prems(1) by (simp add: ordered_def)
  obtain n where n: "nodes s a = Some n" "n_next n = first_of ns None" "n_item n = item_of s a"
    using next_node [OF inv Cons.prems(2)] by blast
  have norm: "normalized (item_of s a)"
    using Cons.prems(1,2) by (auto simp: ordered_def contents_def)
  have "y1 x < y1 (item_of s a)" using Cons.prems(5) by simp
  then have dom: "mo_get_dominance (normalized_y x) (normalized_y (n_item n)) 2 = Inr
      (if dominates x (item_of s a) then 1 else 0)"
    using dominance_normalized [OF Cons.prems(3) norm] n(3) by (auto simp: dominates_def)
  show ?case
  proof (cases "dominates x (item_of s a)")
    case False
    then show ?thesis using n dom Cons.prems
      by (intro exI [of _ s] exI [of _ t]) (subst remove_dominated.simps, simp add: removed_def)
  next
    case True
    have ne: "\<not> (Some a = e1 \<or> Some a = e2)" using True Cons.prems(4) by auto
    from node_delete_ok [OF Cons.prems(1,2)] obtain s1 t1 where s1: "avl_node_delete s (Some a) = Some (s1, Some (item_of s a))"
      "ordered normalized s1 t1" "inorder t1 = us @ ns" "same_items {a} s s1" "nodes s1 a = None"
      "freed_items s1 = freed_items s @ (if frees s then [item_of s a] else [])" by blast
    have dist: "a \<notin> set ns" using inv Cons.prems(2) by (auto simp: avl_inv_def)
    have item: "item_of s1 z = item_of s z" if "z \<in> set ns" for z
    proof -
      have "nodes s z \<noteq> None" using inv that Cons.prems(2) linked_defined [of "node_view s" None "inorder t" None z]
        by (auto simp: avl_inv_def node_view_def)
      moreover have "z \<noteq> a" using that dist by blast
      ultimately show ?thesis using same_items_item [OF s1(4), of z] by simp
    qed
    have "\<exists>s' t'. remove_dominated x e1 e2 2 s1 (first_of ns None) = Some (Inr s') \<and> ordered normalized s' t'
      \<and> inorder t' = us @ dropWhile (\<lambda>z. dominates x (item_of s1 z)) ns
      \<and> removed s1 s' (takeWhile (\<lambda>z. dominates x (item_of s1 z)) ns)"
      using Cons.prems item by (intro Cons.IH [OF s1(2,3)]) auto
    then obtain s' t' where s': "remove_dominated x e1 e2 2 s1 (first_of ns None) = Some (Inr s')" "ordered normalized s' t'"
      "inorder t' = us @ dropWhile (\<lambda>z. dominates x (item_of s1 z)) ns"
      "removed s1 s' (takeWhile (\<lambda>z. dominates x (item_of s1 z)) ns)" by blast
    have eq: "dropWhile (\<lambda>z. dominates x (item_of s1 z)) ns = dropWhile (\<lambda>z. dominates x (item_of s z)) ns"
      "takeWhile (\<lambda>z. dominates x (item_of s1 z)) ns = takeWhile (\<lambda>z. dominates x (item_of s z)) ns"
      using item by (auto intro: dropWhile_cong takeWhile_cong)
    let ?zs = "takeWhile (\<lambda>z. dominates x (item_of s z)) ns"
    have zs: "set ?zs \<subseteq> set ns" by (auto dest: set_takeWhileD)
    have "removed s s' (a # ?zs)"
    proof -
      have r: "same_items (set ?zs) s1 s'" "\<forall>z \<in> set ?zs. nodes s' z = None"
        "freed_items s' = freed_items s1 @ (if frees s1 then map (item_of s1) ?zs else [])"
        using s'(4) unfolding eq removed_def by blast+
      have m: "map (item_of s1) ?zs = map (item_of s) ?zs" using item zs by auto
      have "map_option n_item (nodes s' a) = map_option n_item (nodes s1 a)"
        using r(1) dist zs by (auto simp: same_items_def)
      then have "nodes s' a = None" using s1(5) by simp
      moreover have "same_items (set (a # ?zs)) s s'"
      proof (rule same_items_trans)
        show "same_items (set (a # ?zs)) s s1" using s1(4) by (rule same_items_mono) simp
        show "same_items (set (a # ?zs)) s1 s'" using r(1) by (rule same_items_mono) auto
      qed
      moreover have "frees s1 = frees s" using s1(4) by (simp add: same_items_def)
      ultimately show ?thesis using r s1(6) m by (auto simp: removed_def)
    qed
    moreover have "remove_dominated x e1 e2 2 s (Some a) = Some (Inr s')"
      using n dom True ne s1(1) s'(1) by (subst remove_dominated.simps) auto
    ultimately show ?thesis using s'(2,3) True unfolding eq by (intro exI [of _ s'] exI [of _ t']) simp
  qed
qed

section \<open>Adding a solution\<close>

lemma normalized_contents:
  "archive_inv a t \<Longrightarrow> z \<in> set_tree t \<Longrightarrow> normalized (item_of (tree a) z)"
  by (auto simp: archive_inv_def front_def contents_def)

lemma removed_items:
  assumes "avl_inv s t" "removed s s' zs" "z \<in> set_tree t" "z \<notin> set zs"
  shows "item_of s' z = item_of s z"
proof -
  have "nodes s z \<noteq> None" using shape_defined [of "nodes s" None t z] assms(1,3) by (auto simp: avl_inv_def)
  then show ?thesis using assms same_items_item [of "set zs" s s' z] by (simp add: removed_def)
qed

lemma removed_fields: "removed s s' zs \<Longrightarrow> cmpitem s' = cmpitem s \<and> frees s' = frees s"
  by (simp add: removed_def same_items_def)

lemma removed_none: "removed s s' zs \<Longrightarrow> nodes s b = None \<Longrightarrow> nodes s' b = None"
  by (cases "b \<in> set zs") (auto simp: removed_def same_items_def)

text \<open>The tree after \<open>find_position\<close>: its front is the old one without the items equal in the second objective.\<close>

definition positioned ::
    "coco_archive \<Rightarrow> addr tree \<Rightarrow> archive_item \<Rightarrow> archive_item avl_tree \<Rightarrow> addr list \<Rightarrow> bool" where
  "positioned a t x s1 ns \<longleftrightarrow> (\<exists>t1 us zs us'. ordered normalized s1 t1
     \<and> inorder t1 = us' @ ns \<and> inorder t = us @ ns \<and> removed (tree a) s1 zs
     \<and> us' = filter (\<lambda>z. z \<notin> set zs) us \<and> set zs \<subseteq> set us \<and> set zs \<inter> set ns = {}
     \<and> (\<forall>z \<in> set ns. y1 x < y1 (item_of (tree a) z))
     \<and> map (item_of (tree a)) us' @ x # dropWhile (dominates x) (map (item_of (tree a)) ns)
         = front_add x (contents (tree a) t)
     \<and> front (front_add x (contents (tree a) t))
     \<and> (\<forall>z \<in> set zs. dominates x (item_of (tree a) z)))"

lemma find_position_ok:
  assumes inv: "archive_inv a t" and x: "normalized x"
    and ext: "\<forall>z \<in> set_tree t. (extreme1 a = Some z \<or> extreme2 a = Some z) \<longrightarrow> \<not> dominates x (item_of (tree a) z)"
  shows "(\<exists>z \<in> set (contents (tree a) t). covers z x) \<and> find_position a x = Inr (False, tree a, None)
    \<or> \<not> (\<exists>z \<in> set (contents (tree a) t). covers z x)
      \<and> (\<exists>s1 ns. find_position a x = Inr (True, s1, first_of ns None) \<and> positioned a t x s1 ns)"
proof -
  let ?i = "item_of (tree a)"
  obtain us ns where io: "inorder t = us @ ns" and us: "\<forall>z \<in> set us. y1 (?i z) \<le> y1 x"
    and ns: "\<forall>z \<in> set ns. y1 x < y1 (?i z)"
    and search: "avl_item_search_right (tree a) x = Some (last_of us None, \<exists>z \<in> set_tree t. cmp_at (tree a) x z = 0)"
    using position_split [OF inv x] by blast
  have ord: "ordered normalized (tree a) t" and avl: "avl_inv (tree a) t" and two: "number_of_objectives a = 2"
    using inv unfolding archive_inv_def ordered_def by blast+
  have c: "contents (tree a) t = map ?i us @ map ?i ns" by (rule contents_append [OF io])
  have fr: "front (map ?i us @ map ?i ns)" using inv c by (simp add: archive_inv_def)
  have us': "\<forall>z \<in> set (map ?i us). y1 z \<le> y1 x" and ns': "\<forall>z \<in> set (map ?i ns). y1 x < y1 z" using us ns by auto
  note split = front_split [OF fr x us' ns', folded c]
  have dw: "dropWhile (dominates x) (map ?i ns) = map ?i (dropWhile (\<lambda>z. dominates x (?i z)) ns)"
    by (simp add: dropWhile_map comp_def)
  show ?thesis
  proof (cases us rule: rev_cases)
    case Nil
    have h: "head (tree a) = first_of ns None" using avl io Nil by (simp add: avl_inv_def)
    have "find_position a x = Inr (True, tree a, first_of ns None)"
      using search Nil h by (simp add: find_position_def on_heap_def)
    moreover have "positioned a t x (tree a) ns"
      unfolding positioned_def using split(2,3) Nil ord io ns
      by (intro exI [of _ t] exI [of _ us] exI [of _ "[]"] exI [of _ us]) (simp add: removed_def)
    moreover have "\<not> (\<exists>z \<in> set (contents (tree a) t). covers z x)" using split(1) Nil by simp
    ultimately show ?thesis by blast
  next
    case (snoc vs z)
    have z: "z \<in> set_tree t" using io snoc by (simp flip: set_inorder)
    have io': "inorder t = vs @ z # ns" using io snoc by simp
    obtain n where n: "nodes (tree a) z = Some n" "n_next n = first_of ns None" "n_item n = ?i z"
      using next_node [OF avl io'] by blast
    have nz: "normalized (?i z)" by (rule normalized_contents [OF inv z])
    have yz: "y1 (?i z) \<le> y1 x" using us snoc by simp
    have cov: "(\<exists>z \<in> set (contents (tree a) t). covers z x) \<longleftrightarrow> y0 (?i z) \<le> y0 x" using split(1) snoc by simp
    have start: "find_position a x =
        rbind (mo_get_dominance (normalized_y x) (normalized_y (?i z)) 2) (\<lambda>dominance.
            if dominance > - 1 then
              (if dominance = 1 then
                 if Some z = extreme1 a \<or> Some z = extreme2 a then
                   Inl (Assert_failed ''coco_archive_add_solution'')
                 else rbind (on_heap (avl_node_delete (tree a) (Some z))) (\<lambda>(t, _). Inr (True, t, n_next n))
               else Inr (True, tree a, n_next n))
            else Inr (False, tree a, None))"
      using search snoc n two by (simp add: find_position_def on_heap_def)
    show ?thesis
    proof (cases "y0 (?i z) \<le> y0 x")
      case True
      then have "mo_get_dominance (normalized_y x) (normalized_y (?i z)) 2 = Inr (- 1)
        \<or> mo_get_dominance (normalized_y x) (normalized_y (?i z)) 2 = Inr (- 2)"
        using dominance_normalized [OF x nz] yz by (auto simp: dominates_def)
      then have "find_position a x = Inr (False, tree a, None)" using start by auto
      with cov True show ?thesis by blast
    next
      case False
      then have lt: "y0 x < y0 (?i z)" by simp
      then have side: "map ?i us = [] \<or> y0 x < y0 (last (map ?i us))" using snoc by simp
      note add = split(2) [OF side] and fradd = split(3) [OF side]
      show ?thesis
      proof (cases "y1 (?i z) = y1 x")
        case True
        then have dom: "dominates x (?i z)" using lt by (simp add: dominates_def)
        then have d1: "mo_get_dominance (normalized_y x) (normalized_y (?i z)) 2 = Inr 1"
          using dominance_normalized [OF x nz] lt by simp
        have ne: "\<not> (Some z = extreme1 a \<or> Some z = extreme2 a)" using ext z dom by auto
        from node_delete_ok [OF ord io'] obtain s1 t1 where s1: "avl_node_delete (tree a) (Some z) = Some (s1, Some (?i z))"
          "ordered normalized s1 t1" "inorder t1 = vs @ ns" "same_items {z} (tree a) s1" "nodes s1 z = None"
          "freed_items s1 = freed_items (tree a) @ (if frees (tree a) then [?i z] else [])" by blast
        have "find_position a x = Inr (True, s1, first_of ns None)"
          using start d1 ne s1(1) n(2) by (simp add: on_heap_def)
        moreover have "removed (tree a) s1 [z]" using s1(4-6) by (simp add: removed_def)
        moreover have "filter (\<lambda>w. y1 w \<noteq> y1 x) (map ?i us) = map ?i vs"
        proof -
          have "\<forall>w \<in> set vs. y1 (?i w) < y1 (?i z)" using fr snoc by (auto simp: front_def sorted_wrt_append)
          then have "filter (\<lambda>w. y1 (?i w) \<noteq> y1 x) vs = vs" using True by (intro filter_True) auto
          with True snoc show ?thesis by (simp add: filter_map comp_def)
        qed
        moreover have "z \<notin> set vs" "z \<notin> set ns" using avl io' by (auto simp: avl_inv_def)
        moreover have "filter (\<lambda>w. w \<noteq> z) vs = vs" using \<open>z \<notin> set vs\<close> by (intro filter_True) auto
        ultimately have "positioned a t x s1 ns" "find_position a x = Inr (True, s1, first_of ns None)"
          unfolding positioned_def using s1(2,3) io ns add fradd snoc dom
          by - (rule exI [of _ t1], rule exI [of _ us], rule exI [of _ "[z]"], rule exI [of _ vs], simp add: subset_insertI)
        with cov False show ?thesis by blast
      next
        case ne: False
        then have "mo_get_dominance (normalized_y x) (normalized_y (?i z)) 2 = Inr 0"
          using dominance_normalized [OF x nz] lt yz by (auto simp: dominates_def)
        then have "find_position a x = Inr (True, tree a, first_of ns None)" using start n(2) by simp
        moreover have "filter (\<lambda>w. y1 w \<noteq> y1 x) (map ?i us) = map ?i us"
        proof -
          have "\<forall>w \<in> set vs. y1 (?i w) < y1 (?i z)" using fr snoc by (auto simp: front_def sorted_wrt_append)
          then show ?thesis using ne yz snoc by (intro filter_True) auto
        qed
        ultimately have "positioned a t x (tree a) ns" "find_position a x = Inr (True, tree a, first_of ns None)"
          unfolding positioned_def using ord io ns add fradd
          by - (rule exI [of _ t], rule exI [of _ us], rule exI [of _ "[]"], rule exI [of _ us], simp add: removed_def)
        with cov False show ?thesis by blast
      qed
    qed
  qed
qed

lemma add_solution_ok:
  assumes inv: "archive_inv a t"
    and create: "coco_archive_node_item_create [v1, v2] (ideal a) (nadir a) (number_of_objectives a) text = Inr x"
    and ext: "\<forall>z \<in> set_tree t. (extreme1 a = Some z \<or> extreme2 a = Some z) \<longrightarrow> \<not> dominates x (item_of (tree a) z)"
    and b: "nodes (tree a) b = None" and size: "size t + 1 < 2 ^ 64"
  shows "\<exists>s t' zs. coco_archive_add_solution a v1 v2 text (Some b)
      = Inr (if \<exists>z \<in> set (contents (tree a) t). covers z x then a else a \<lparr> tree := s, is_up_to_date := False \<rparr>,
          \<not> (\<exists>z \<in> set (contents (tree a) t). covers z x))
    \<and> (\<not> (\<exists>z \<in> set (contents (tree a) t). covers z x) \<longrightarrow>
        archive_inv (a \<lparr> tree := s, is_up_to_date := False \<rparr>) t'
        \<and> contents s t' = front_add x (contents (tree a) t)
        \<and> set_tree t' = insert b (set_tree t - set zs) \<and> b \<notin> set_tree t
        \<and> (\<forall>z \<in> set zs. z \<in> set_tree t \<and> dominates x (item_of (tree a) z))
        \<and> (\<forall>z \<in> set_tree t - set zs. item_of s z = item_of (tree a) z) \<and> item_of s b = x
        \<and> (\<forall>c. c \<noteq> b \<longrightarrow> nodes (tree a) c = None \<longrightarrow> nodes s c = None)
        \<and> (\<exists>us vs. inorder t' = us @ b # vs \<and> us @ vs = filter (\<lambda>z. z \<notin> set zs) (inorder t)))"
proof (cases "\<exists>z \<in> set (contents (tree a) t). covers z x")
  case True
  obtain x' where "coco_archive_node_item_create [v1, v2] (ideal a) (nadir a) (number_of_objectives a) text = Inr x'"
    "normalized x'" using item_create [OF inv] by blast
  with create have x: "normalized x" by simp
  from find_position_ok [OF inv x ext] True have "find_position a x = Inr (False, tree a, None)" by blast
  with create True show ?thesis by (simp add: coco_archive_add_solution_def)
next
  case False
  obtain x' where "coco_archive_node_item_create [v1, v2] (ideal a) (nadir a) (number_of_objectives a) text = Inr x'"
    "normalized x'" using item_create [OF inv] by blast
  with create have x: "normalized x" by simp
  from find_position_ok [OF inv x ext] False obtain s1 ns where
    pos: "find_position a x = Inr (True, s1, first_of ns None)" and p: "positioned a t x s1 ns" by blast
  from p obtain t1 us zs us' where ord1: "ordered normalized s1 t1" and io1: "inorder t1 = us' @ ns"
    and io: "inorder t = us @ ns" and rem: "removed (tree a) s1 zs"
    and us': "us' = filter (\<lambda>z. z \<notin> set zs) us" and zs: "set zs \<subseteq> set us" "set zs \<inter> set ns = {}"
    and ns: "\<forall>z \<in> set ns. y1 x < y1 (item_of (tree a) z)"
    and add: "map (item_of (tree a)) us' @ x # dropWhile (dominates x) (map (item_of (tree a)) ns)
         = front_add x (contents (tree a) t)"
    and fr: "front (front_add x (contents (tree a) t))"
    and dz: "\<forall>z \<in> set zs. dominates x (item_of (tree a) z)" unfolding positioned_def by blast
  have avl: "avl_inv (tree a) t" and cmp: "cmpitem (tree a) = coco_archive_compare_by_last_objective"
    using inv unfolding archive_inv_def ordered_def by blast+
  have i1: "item_of s1 z = item_of (tree a) z" if "z \<in> set_tree t" "z \<notin> set zs" for z
    using removed_items [OF avl rem that] .
  have nst: "set ns \<subseteq> set_tree t" "set us \<subseteq> set_tree t" using io by (auto simp flip: set_inorder)
  have i1ns: "\<forall>z \<in> set ns. item_of s1 z = item_of (tree a) z" and i1us: "\<forall>z \<in> set us'. item_of s1 z = item_of (tree a) z"
    using i1 zs nst us' by auto
  define ds where "ds = takeWhile (\<lambda>z. dominates x (item_of (tree a) z)) ns"
  define ns' where "ns' = dropWhile (\<lambda>z. dominates x (item_of (tree a) z)) ns"
  have eq: "dropWhile (\<lambda>z. dominates x (item_of s1 z)) ns = ns'" "takeWhile (\<lambda>z. dominates x (item_of s1 z)) ns = ds"
    unfolding ns'_def ds_def using i1ns by (auto intro: dropWhile_cong takeWhile_cong)
  have nsd: "ns = ds @ ns'" by (simp add: ds_def ns'_def)
  have dsd: "\<forall>z \<in> set ds. dominates x (item_of (tree a) z)" by (auto simp: ds_def dest: set_takeWhileD)
  have "\<exists>s' t'. remove_dominated x (extreme1 a) (extreme2 a) 2 s1 (first_of ns None) = Some (Inr s')
    \<and> ordered normalized s' t' \<and> inorder t' = us' @ dropWhile (\<lambda>z. dominates x (item_of s1 z)) ns
    \<and> removed s1 s' (takeWhile (\<lambda>z. dominates x (item_of s1 z)) ns)"
    using ext nst ns i1ns by (intro remove_dominated_ok [OF ord1 io1 x]) auto
  then obtain s2 t2 where s2: "remove_dominated x (extreme1 a) (extreme2 a) 2 s1 (first_of ns None) = Some (Inr s2)"
    "ordered normalized s2 t2" "inorder t2 = us' @ ns'" "removed s1 s2 ds" unfolding eq by blast
  have st2: "set_tree t2 = set_tree t - set (zs @ ds)"
  proof -
    have "set us \<inter> set ns = {}" "set ds \<inter> set ns' = {}" using avl io nsd by (auto simp: avl_inv_def)
    then show ?thesis using s2(3) io us' zs nsd by (auto simp flip: set_inorder)
  qed
  have avl1: "avl_inv s1 t1" using ord1 by (simp add: ordered_def)
  have i2: "item_of s2 z = item_of (tree a) z" if "z \<in> set_tree t2" for z
  proof -
    have z: "z \<in> set_tree t" "z \<notin> set zs" "z \<notin> set ds" using that st2 by auto
    have "z \<in> set_tree t1" using that s2(3) io1 nsd by (auto simp flip: set_inorder)
    then show ?thesis using removed_items [OF avl1 s2(4) _ z(3)] i1 [OF z(1,2)] by simp
  qed
  have c2: "contents s2 t2 = map (item_of (tree a)) us' @ map (item_of (tree a)) ns'"
    using i2 s2(3) by (auto simp: contents_def simp flip: set_inorder)
  have dw: "dropWhile (dominates x) (map (item_of (tree a)) ns) = map (item_of (tree a)) ns'"
    by (simp add: ns'_def dropWhile_map comp_def)
  have cmp2: "cmpitem s2 = coco_archive_compare_by_last_objective" "frees s2"
    using removed_fields [OF s2(4)] removed_fields [OF rem] cmp inv by (simp_all add: archive_inv_def)
  have cmpc: "comparator (cmpitem s2) normalized" using by_last_objective.comparator_axioms cmp2 by simp
  have fb: "nodes s2 b = None" using removed_none [OF s2(4) removed_none [OF rem b]] .
  have size2: "size t2 + 1 < 2 ^ 64"
  proof -
    have "length (us' @ ns') \<le> length (us @ ns)"
      by (simp add: us' nsd trans_le_add1)
    then have "size t2 \<le> size t" using s2(3) io by (metis length_inorder)
    with size show ?thesis by simp
  qed
  let ?F = "front_add x (contents (tree a) t)"
  have F: "?F = map (item_of (tree a)) us' @ x # map (item_of (tree a)) ns'" using add dw by simp
  have asc: "ascending (cmpitem s2) ?F" using front_ascending [OF fr] cmp2 by simp
  have nF: "\<forall>z \<in> set ?F. normalized z" using fr by (simp add: front_def)
  have "cmpitem s2 x x = 0" using compare_signs(3) [OF x x] cmp2 by simp
  then have dir: "\<forall>z \<in> set (map (item_of (tree a)) us'). cmpitem s2 x z > 0"
    "\<forall>z \<in> set (map (item_of (tree a)) ns'). cmpitem s2 x z < 0"
    using comparator.ascending_directed [OF cmpc, of "map (item_of (tree a)) us'" x "map (item_of (tree a)) ns'" x]
      asc nF x unfolding F by auto
  have none: "\<not> (\<exists>y \<in> set (contents s2 t2). cmpitem s2 x y = 0)" using dir c2 by auto
  have ins: "ordered_insert (cmpitem s2) x (contents s2 t2) = ?F"
  proof -
    have "filter (\<lambda>y. cmpitem s2 x y > 0) (contents s2 t2) = map (item_of (tree a)) us'"
      "filter (\<lambda>y. cmpitem s2 x y < 0) (contents s2 t2) = map (item_of (tree a)) ns'"
      using dir c2 by (auto simp: filter_empty_conv intro!: filter_True)
    with none F show ?thesis by (simp add: ordered_insert_def)
  qed
  from item_insert_ok [OF cmpc s2(2) x size2 fb] none ins obtain s3 t3 where s3:
    "avl_item_insert s2 (Some b) x = Some (s3, Some b)" "ordered normalized s3 t3" "contents s3 t3 = ?F"
    "set_tree t3 = insert b (set_tree t2)" "item_of s3 b = x" "same_items {b} s2 s3"
    "\<exists>xs ys. inorder t2 = xs @ ys \<and> inorder t3 = xs @ b # ys" by auto
  have bt: "b \<notin> set_tree t" using shape_defined [of "nodes (tree a)" None t b] avl b by (auto simp: avl_inv_def)
  have i3: "item_of s3 z = item_of (tree a) z" if "z \<in> set_tree t2" for z
  proof -
    have "z \<noteq> b" using that st2 bt by auto
    moreover have "nodes s2 z \<noteq> None" using that s2(2) shape_defined [of "nodes s2" None t2 z] by (auto simp: ordered_def avl_inv_def)
    ultimately show ?thesis using same_items_item [OF s3(6), of z] i2 [OF that] by simp
  qed
  have two: "number_of_objectives a = 2" using inv by (simp add: archive_inv_def)
  have "coco_archive_add_solution a v1 v2 text (Some b) = Inr (a \<lparr> tree := s3, is_up_to_date := False \<rparr>, True)"
    using create pos s2(1) s3(1) two by (simp add: coco_archive_add_solution_def on_heap_def)
  moreover have "archive_inv (a \<lparr> tree := s3, is_up_to_date := False \<rparr>) t3"
    using inv s3(2,3,6) cmp2 fr unfolding archive_inv_def by (simp add: same_items_def)
  moreover have "inorder t2 = filter (\<lambda>z. z \<notin> set (zs @ ds)) (inorder t)"
  proof -
    have d: "set us \<inter> set ns = {}" "set ds \<inter> set ns' = {}" using avl io nsd by (auto simp: avl_inv_def)
    have "filter (\<lambda>z. z \<notin> set (zs @ ds)) us = us'"
      unfolding us' using d nsd by (intro filter_cong) auto
    moreover have "filter (\<lambda>z. z \<notin> set (zs @ ds)) ds = []" by (auto simp: filter_empty_conv)
    moreover have "filter (\<lambda>z. z \<notin> set (zs @ ds)) ns' = ns'" using d zs nsd by (intro filter_True) auto
    ultimately show ?thesis unfolding s2(3) io nsd filter_append by simp
  qed
  moreover have "\<forall>z \<in> set (zs @ ds). z \<in> set_tree t \<and> dominates x (item_of (tree a) z)"
    using zs nsd nst dz dsd by auto
  moreover have "\<forall>c. c \<noteq> b \<longrightarrow> nodes (tree a) c = None \<longrightarrow> nodes s3 c = None"
  proof (intro allI impI)
    fix c assume "c \<noteq> b" "nodes (tree a) c = None"
    then show "nodes s3 c = None"
      using removed_none [OF s2(4) removed_none [OF rem]] s3(6) unfolding same_items_def by (metis map_option_is_None singletonD)
  qed
  ultimately show ?thesis
    using False s3(3-5,7) st2 bt i3
    by (intro exI [of _ s3] exI [of _ t3] exI [of _ "zs @ ds"]) (simp, metis)
qed

section \<open>The extreme solutions\<close>

lemma corners:
  "corner1 x \<Longrightarrow> y0 x = 1 \<and> y1 x = 0 \<and> normalized x" "corner2 x \<Longrightarrow> y0 x = 0 \<and> y1 x = 1 \<and> normalized x"
  by (auto simp: corner1_def corner2_def normalized_def grid2 one_on_grid)

lemma corner_not_dominated:
  assumes "normalized x" "corner1 e \<or> corner2 e"
  shows "\<not> dominates x e"
proof -
  obtain p q where x: "normalized_y x = grid [p, q]" "p = 0 \<longrightarrow> 2000000000000 \<le> q" "q = 0 \<longrightarrow> 2000000000000 \<le> p"
    using assms(1) by (auto simp: normalized_def)
  have g: "grid [2000000000000, 0] = grid [p', q'] \<longleftrightarrow> p' = 2000000000000 \<and> q' = 0" for p' q'
    by (auto simp: grid2 grid_eq)
  show ?thesis
  proof (rule disjE [OF assms(2)])
    assume "corner1 e"
    then have "dominates x e \<longleftrightarrow> p \<le> 2000000000000 \<and> q \<le> 0 \<and> (p < 2000000000000 \<or> q < 0)"
      using grid_le [of p 2000000000000] grid_le [of q 0] grid_less [of p 2000000000000] grid_less [of q 0]
      by (simp add: dominates_def corner1_def x(1) grid2)
    with x show ?thesis by auto
  next
    assume "corner2 e"
    then have "dominates x e \<longleftrightarrow> p \<le> 0 \<and> q \<le> 2000000000000 \<and> (p < 0 \<or> q < 2000000000000)"
      using grid_le [of q 2000000000000] grid_le [of p 0] grid_less [of q 2000000000000] grid_less [of p 0]
      by (simp add: dominates_def corner2_def x(1) grid2)
    with x show ?thesis by auto
  qed
qed

lemma nonnegative: "normalized x \<Longrightarrow> y0 x \<ge> 0 \<and> y1 x \<ge> 0"
  by (auto simp: normalized_def grid2 mo_discretization_def)

text \<open>Adding a solution to an archive with its extreme solutions: nothing can fail.\<close>

lemma add_solution_with_extremes:
  assumes inv: "with_extremes a t" and b: "nodes (tree a) b = None" and size: "size t + 1 < 2 ^ 64"
  shows "\<exists>x a' t'. mo_normalize [v1, v2] (ideal a) (nadir a) 2 = Inr (normalized_y x) \<and> item_text x = text
    \<and> coco_archive_add_solution a v1 v2 text (Some b) = Inr (a', \<not> (\<exists>z \<in> set (contents (tree a) t). covers z x))
    \<and> with_extremes a' t' \<and> contents (tree a') t' = front_add x (contents (tree a) t)
    \<and> ((\<exists>z \<in> set (contents (tree a) t). covers z x) \<longrightarrow> a' = a \<and> t' = t)
    \<and> (\<not> (\<exists>z \<in> set (contents (tree a) t). covers z x) \<longrightarrow> \<not> is_up_to_date a')
    \<and> normalized x \<and> size t' \<le> size t + 1 \<and> ideal a' = ideal a \<and> nadir a' = nadir a
    \<and> (\<forall>c. c \<noteq> b \<longrightarrow> nodes (tree a) c = None \<longrightarrow> nodes (tree a') c = None)"
proof -
  from inv have ai: "archive_inv a t" by (simp add: with_extremes_def)
  from inv obtain e1 e2 mid where e: "inorder t = e1 # mid @ [e2]" "extreme1 a = Some e1" "extreme2 a = Some e2"
    "corner1 (item_of (tree a) e1)" "corner2 (item_of (tree a) e2)" by (auto simp: with_extremes_def)
  obtain x where x: "coco_archive_node_item_create [v1, v2] (ideal a) (nadir a) (number_of_objectives a) text = Inr x"
    "normalized x" "item_text x = text" "mo_normalize [v1, v2] (ideal a) (nadir a) 2 = Inr (normalized_y x)"
    using item_create [OF ai] by blast
  have nd: "\<not> dominates x (item_of (tree a) e1)" "\<not> dominates x (item_of (tree a) e2)"
    using corner_not_dominated [OF x(2)] e(4,5) by blast+
  have ext: "\<forall>z \<in> set_tree t. (extreme1 a = Some z \<or> extreme2 a = Some z) \<longrightarrow> \<not> dominates x (item_of (tree a) z)"
    using nd e(2,3) by auto
  let ?c = "\<exists>z \<in> set (contents (tree a) t). covers z x"
  from add_solution_ok [OF ai x(1) ext b size] obtain s t' zs where r:
    "coco_archive_add_solution a v1 v2 text (Some b)
      = Inr (if ?c then a else a \<lparr> tree := s, is_up_to_date := False \<rparr>, \<not> ?c)"
    "\<not> ?c \<longrightarrow> archive_inv (a \<lparr> tree := s, is_up_to_date := False \<rparr>) t'
        \<and> contents s t' = front_add x (contents (tree a) t)
        \<and> set_tree t' = insert b (set_tree t - set zs) \<and> b \<notin> set_tree t
        \<and> (\<forall>z \<in> set zs. z \<in> set_tree t \<and> dominates x (item_of (tree a) z))
        \<and> (\<forall>z \<in> set_tree t - set zs. item_of s z = item_of (tree a) z) \<and> item_of s b = x
        \<and> (\<forall>c. c \<noteq> b \<longrightarrow> nodes (tree a) c = None \<longrightarrow> nodes s c = None)
        \<and> (\<exists>us vs. inorder t' = us @ b # vs \<and> us @ vs = filter (\<lambda>z. z \<notin> set zs) (inorder t))" by blast
  show ?thesis
  proof (cases ?c)
    case True
    then have "front_add x (contents (tree a) t) = contents (tree a) t" by (simp add: front_add_def)
    with True r(1) x inv show ?thesis by (intro exI [of _ x] exI [of _ a] exI [of _ t]) simp
  next
    case False
    let ?a = "a \<lparr> tree := s, is_up_to_date := False \<rparr>"
    from False r(2) have s: "archive_inv ?a t'" "contents s t' = front_add x (contents (tree a) t)" "b \<notin> set_tree t"
      "\<forall>z \<in> set zs. z \<in> set_tree t \<and> dominates x (item_of (tree a) z)"
      "\<forall>z \<in> set_tree t - set zs. item_of s z = item_of (tree a) z" "item_of s b = x"
      "\<exists>us vs. inorder t' = us @ b # vs \<and> us @ vs = filter (\<lambda>z. z \<notin> set zs) (inorder t)"
      "\<forall>c. c \<noteq> b \<longrightarrow> nodes (tree a) c = None \<longrightarrow> nodes s c = None" by blast+
    then obtain us vs where uv: "inorder t' = us @ b # vs" "us @ vs = filter (\<lambda>z. z \<notin> set zs) (inorder t)" by blast
    have ez: "e1 \<notin> set zs" "e2 \<notin> set zs" using s(4) nd by auto
    have et: "e1 \<in> set_tree t" "e2 \<in> set_tree t" using e(1) by (simp_all flip: set_inorder)
    have i: "item_of s e1 = item_of (tree a) e1" "item_of s e2 = item_of (tree a) e2" using s(5) ez et by blast+
    have m: "us @ vs = e1 # filter (\<lambda>z. z \<notin> set zs) mid @ [e2]" using uv(2) e(1) ez by simp
    have fr: "front (map (item_of s) (us @ b # vs))"
      using s(1) uv(1) by (simp add: archive_inv_def contents_def)
    have "us \<noteq> []"
    proof
      assume "us = []"
      then have "y1 x < y1 (item_of s e1)" using m fr s(6) by (simp add: front_def)
      then show False using corners(1) [OF e(4)] nonnegative [OF x(2)] i by simp
    qed
    then obtain us' where us: "us = e1 # us'" using m by (cases us) auto
    have "vs \<noteq> []"
    proof
      assume "vs = []"
      then have "y0 (item_of s e2) > y0 x" using m fr s(6) by (simp add: front_def sorted_wrt_append)
      then show False using corners(2) [OF e(5)] nonnegative [OF x(2)] i by simp
    qed
    then obtain vs' where vs: "vs = vs' @ [e2]" using m by (cases vs rule: rev_cases) auto
    have "with_extremes ?a t'"
      unfolding with_extremes_def using s(1) uv(1) us vs e(2-5) i
      by (intro conjI exI [of _ e1] exI [of _ e2] exI [of _ "us' @ b # vs'"]) simp_all
    moreover have "size t' \<le> size t + 1"
    proof -
      have "length (us @ vs) \<le> length (inorder t)" unfolding uv(2) by (rule length_filter_le)
      moreover have "size t' = length (us @ vs) + 1" "size t = length (inorder t)"
        using uv(1) length_inorder [of t'] by simp_all
      ultimately show ?thesis by linarith
    qed
    ultimately show ?thesis using False r(1) x s(2,8)
      by - (rule exI [of _ x], rule exI [of _ ?a], rule exI [of _ t'], simp)
  qed
qed

end
