(* ===== verification/Coco_Archive_Values.thy ===== *)
theory Coco_Archive_Values
  imports Coco_Archive_Add
begin

text \<open>
  The values that \<open>coco_archive_update\<close> computes. The hypervolume of an archive is specified as a number
  of grid cells: the region of interest is the square of \<open>roi\<close> times \<open>roi\<close> cells, and a cell counts when
  a solution of the front is at most as large in both objectives.
\<close>

section \<open>Cells\<close>

abbreviation roi :: nat where
  "roi \<equiv> 2000000000000"

definition cell :: "nat \<Rightarrow> archive_item \<Rightarrow> nat" where
  "cell k x = nat \<lfloor>normalized_y x ! k / mo_discretization\<rfloor>"

definition dominated_cells :: "archive_item list \<Rightarrow> (nat \<times> nat) set" where
  "dominated_cells xs = {(i, j). i < roi \<and> j < roi \<and> (\<exists>x \<in> set xs. cell 0 x \<le> i \<and> cell 1 x \<le> j)}"

lemma normalized_cell: "normalized x \<Longrightarrow> normalized_y x = grid [cell 0 x, cell 1 x]"
  by (auto simp: normalized_def cell_def grid2 One_nat_def)

lemma y_cell: "normalized x \<Longrightarrow> y0 x = real (cell 0 x) * mo_discretization"
  "normalized x \<Longrightarrow> y1 x = real (cell 1 x) * mo_discretization"
  by (auto simp: normalized_def cell_def grid2 One_nat_def)

lemma within_ROI_grid: "mo_is_within_ROI (grid [a, b]) 2 = Inr (a \<le> roi \<and> b \<le> roi)"
proof -
  have zero: "coco_double_almost_equal (real k * mo_discretization) 0 mo_precision \<longleftrightarrow> k = 0" for k
    using grid_almost_equal [of k 0] by simp
  have one: "coco_double_almost_equal (real k * mo_discretization) 1 mo_precision \<longleftrightarrow> k = roi" for k
    unfolding one_on_grid by (rule grid_almost_equal)
  have less: "real k * mo_discretization < 1 \<longleftrightarrow> k < roi" for k
    unfolding one_on_grid by (rule grid_less)
  have pos: "real k * mo_discretization > 0 \<longleftrightarrow> k > 0" for k
    by (simp add: mo_discretization_def)
  show ?thesis by (simp add: mo_is_within_ROI_def upt2 grid2 zero one less pos, arith)
qed

lemma within_ROI_item: "normalized x \<Longrightarrow> mo_is_within_ROI (normalized_y x) 2 = Inr (cell 0 x \<le> roi \<and> cell 1 x \<le> roi)"
  by (subst normalized_cell, assumption) (rule within_ROI_grid)

section \<open>Counting the dominated cells of a front\<close>

fun staircase :: "archive_item list \<Rightarrow> nat" where
  "staircase (x # z # xs) = (cell 0 x - cell 0 z) * (roi - cell 1 z) + staircase (z # xs)"
| "staircase xs = 0"

text \<open>The cells that a list of items dominates to the left of a given column.\<close>

definition left_cells :: "nat \<Rightarrow> archive_item list \<Rightarrow> (nat \<times> nat) set" where
  "left_cells c xs = {(i, j). i < c \<and> j < roi \<and> (\<exists>x \<in> set xs. cell 0 x \<le> i \<and> cell 1 x \<le> j)}"

lemma finite_left_cells: "finite (left_cells c xs)"
  by (rule finite_subset [of _ "{..<c} \<times> {..<roi}"]) (auto simp: left_cells_def)

lemma card_left_cells:
  assumes "sorted_wrt (\<lambda>x z. cell 1 x < cell 1 z \<and> cell 0 x > cell 0 z) (x # xs)"
  shows "card (left_cells (cell 0 x) xs) = staircase (x # xs)"
  using assms
proof (induction xs arbitrary: x)
  case Nil
  then show ?case by (simp add: left_cells_def)
next
  case (Cons z xs)
  let ?block = "{cell 0 z..<cell 0 x} \<times> {cell 1 z..<roi}"
  have l: "left_cells (cell 0 x) (z # xs) = ?block \<union> left_cells (cell 0 z) xs"
    using Cons.prems by (fastforce simp: left_cells_def)
  have d: "?block \<inter> left_cells (cell 0 z) xs = {}" by (auto simp: left_cells_def)
  have "card (left_cells (cell 0 x) (z # xs)) = card ?block + card (left_cells (cell 0 z) xs)"
    unfolding l using finite_left_cells d by (intro card_Un_disjoint) simp_all
  moreover have "card (left_cells (cell 0 z) xs) = staircase (z # xs)" using Cons by simp
  ultimately show ?case by simp
qed

lemma front_cells:
  "front xs \<Longrightarrow> sorted_wrt (\<lambda>x z. cell 1 x < cell 1 z \<and> cell 0 x > cell 0 z) xs"
proof -
  assume f: "front xs"
  then have n: "normalized x" if "x \<in> set xs" for x using that by (simp add: front_def)
  from f have s: "sorted_wrt (\<lambda>x z. y1 x < y1 z \<and> y0 x > y0 z) xs" by (simp add: front_def)
  show ?thesis
    by (rule sorted_wrt_mono_rel [OF _ s]) (use n in \<open>auto simp: y_cell grid_less simp del: One_nat_def\<close>)
qed

lemma corner_cells: "corner1 x \<Longrightarrow> cell 0 x = roi \<and> cell 1 x = 0" "corner2 x \<Longrightarrow> cell 0 x = 0 \<and> cell 1 x = roi"
  by (simp_all add: corner1_def corner2_def cell_def grid2 One_nat_def)

lemma card_dominated_cells:
  assumes "front (x # xs)" "corner1 x"
  shows "card (dominated_cells (x # xs)) = staircase (x # xs)"
proof -
  have "dominated_cells (x # xs) = left_cells (cell 0 x) xs"
    using corner_cells(1) [OF assms(2)] by (auto simp: dominated_cells_def left_cells_def)
  with card_left_cells [OF front_cells [OF assms(1)]] show ?thesis by simp
qed

section \<open>The hypervolume loop\<close>

lemma contribution_ok:
  assumes "normalized x" "normalized z" "cell 0 z \<le> cell 0 x" "cell 0 x \<le> roi" "cell 1 x \<le> roi" "cell 1 z \<le> roi"
  shows "hyp_contribution x z 2 = Inr (real ((cell 0 x - cell 0 z) * (roi - cell 1 z)) * mo_discretization ^ 2)"
proof -
  have "y0 x - y0 z = real (cell 0 x - cell 0 z) * mo_discretization"
    using assms(1-3) by (simp add: y_cell of_nat_diff algebra_simps)
  moreover have "1 - y1 z = real (roi - cell 1 z) * mo_discretization"
    using assms(2,6) by (simp add: y_cell of_nat_diff algebra_simps mo_discretization_def del: One_nat_def)
  ultimately have "(y0 x - y0 z) * (1 - y1 z) = real ((cell 0 x - cell 0 z) * (roi - cell 1 z)) * mo_discretization ^ 2"
    by (simp only: power2_eq_square of_nat_mult) (simp only: mult_ac)
  moreover have "real ((cell 0 x - cell 0 z) * (roi - cell 1 z)) * mo_discretization ^ 2 \<ge> 0" by simp
  ultimately show ?thesis
    using assms by (simp add: hyp_contribution_def within_ROI_item Let_def del: One_nat_def)
qed

lemma hypervolume_loop_ok:
  assumes "linked (node_view s) p (a # as) None"
    and "sorted_wrt (\<lambda>x z. cell 1 x < cell 1 z \<and> cell 0 x > cell 0 z) (map (item_of s) (a # as))"
    and "\<forall>x \<in> set (map (item_of s) (a # as)). normalized x \<and> cell 0 x \<le> roi \<and> cell 1 x \<le> roi"
  shows "hypervolume_loop 2 s (Some a) hv
    = Some (Inr (hv + real (staircase (map (item_of s) (a # as))) * mo_discretization ^ 2))"
  using assms
proof (induction as arbitrary: a p hv)
  case Nil
  then show ?case by (subst hypervolume_loop.simps) (auto simp: node_view_def kept_def deref_def)
next
  case (Cons b as)
  obtain n m where n: "nodes s a = Some n" "n_next n = Some b" and m: "nodes s b = Some m"
    using Cons.prems(1) by (auto simp: node_view_def kept_def)
  have item: "n_item n = item_of s a" "n_item m = item_of s b" using n m by (simp_all add: item_of_def)
  let ?c = "(cell 0 (item_of s a) - cell 0 (item_of s b)) * (roi - cell 1 (item_of s b))"
  have "hyp_contribution (item_of s a) (item_of s b) 2 = Inr (real ?c * mo_discretization ^ 2)"
    using Cons.prems(2,3) by (intro contribution_ok) auto
  then have "hypervolume_loop 2 s (Some a) hv = hypervolume_loop 2 s (Some b) (hv + real ?c * mo_discretization ^ 2)"
    using n m item by (subst hypervolume_loop.simps) (simp add: deref_def)
  also have "\<dots> = Some (Inr (hv + real ?c * mo_discretization ^ 2
      + real (staircase (map (item_of s) (b # as))) * mo_discretization ^ 2))"
    using Cons.prems by (intro Cons.IH [of "Some a"]) auto
  finally show ?case by (simp add: algebra_simps)
qed

lemma front_within:
  assumes "front (x # xs @ [z])" "corner1 x" "corner2 z" "v \<in> set (x # xs @ [z])"
  shows "normalized v \<and> cell 0 v \<le> roi \<and> cell 1 v \<le> roi"
proof -
  have "cell 0 v \<le> cell 0 x" "cell 1 v \<le> cell 1 z"
    using front_cells [OF assms(1)] assms(4) by (auto simp: sorted_wrt_append)
  with corner_cells assms show ?thesis by (auto simp: front_def)
qed

section \<open>Updating the archive\<close>

text \<open>What the getters rely on: the computed fields are those of the front, unless they are marked stale.\<close>

definition front_values :: "coco_archive \<Rightarrow> archive_item list \<Rightarrow> bool" where
  "front_values a xs \<longleftrightarrow> number_of_solutions a = length xs
     \<and> hypervolume a = real (card (dominated_cells xs)) * mo_discretization ^ 2"

definition up_to_date :: "coco_archive \<Rightarrow> addr tree \<Rightarrow> bool" where
  "up_to_date a t \<longleftrightarrow> with_extremes a t \<and> (is_up_to_date a \<longrightarrow> front_values a (contents (tree a) t))"

lemma update_ok:
  assumes "up_to_date a t"
  shows "\<exists>a'. coco_archive_update a = Inr a' \<and> is_up_to_date a' \<and> up_to_date a' t \<and> tree a' = tree a
    \<and> extreme1 a' = extreme1 a \<and> extreme2 a' = extreme2 a \<and> front_values a' (contents (tree a) t)
    \<and> (if is_up_to_date a then a' = a else current_solution a' = None \<and> \<not> extremes_already_returned a')"
proof (cases "is_up_to_date a")
  case True
  with assms show ?thesis by (simp add: coco_archive_update_def up_to_date_def)
next
  case False
  from assms have ai: "archive_inv a t" by (simp add: up_to_date_def with_extremes_def)
  from assms obtain e1 e2 mid where e: "inorder t = e1 # mid @ [e2]"
    "corner1 (item_of (tree a) e1)" "corner2 (item_of (tree a) e2)" by (auto simp: up_to_date_def with_extremes_def)
  let ?s = "tree a" let ?c = "contents ?s t"
  have inv: "avl_inv ?s t" and two: "number_of_objectives a = 2" and fr: "front ?c"
    using ai by (simp_all add: archive_inv_def ordered_def)
  have c: "?c = item_of ?s e1 # map (item_of ?s) mid @ [item_of ?s e2]" by (simp add: contents_def e(1))
  obtain w where w: "avl_count (Some ?s) = Some w" "unat w = length ?c" using count_ok [OF inv] by auto
  have h: "head ?s = Some e1" using inv by (simp add: avl_inv_def e(1))
  have l: "linked (node_view ?s) None (e1 # mid @ [e2]) None" using inv by (simp add: avl_inv_def e(1))
  have "hypervolume_loop 2 ?s (Some e1) 0
      = Some (Inr (0 + real (staircase (map (item_of ?s) (e1 # mid @ [e2]))) * mo_discretization ^ 2))"
  proof (rule hypervolume_loop_ok [OF l])
    show "sorted_wrt (\<lambda>x z. cell 1 x < cell 1 z \<and> cell 0 x > cell 0 z) (map (item_of ?s) (e1 # mid @ [e2]))"
      using front_cells [OF fr] by (simp add: c)
    show "\<forall>x \<in> set (map (item_of ?s) (e1 # mid @ [e2])). normalized x \<and> cell 0 x \<le> roi \<and> cell 1 x \<le> roi"
      using front_within [of "item_of ?s e1" "map (item_of ?s) mid" "item_of ?s e2"] fr e(2,3) by (auto simp: c)
  qed
  moreover have "staircase (map (item_of ?s) (e1 # mid @ [e2])) = card (dominated_cells ?c)"
    using card_dominated_cells [of "item_of ?s e1" "map (item_of ?s) mid @ [item_of ?s e2]"] fr e(2) by (simp add: c)
  ultimately have hv: "hypervolume_loop 2 ?s (Some e1) 0
      = Some (Inr (real (card (dominated_cells ?c)) * mo_discretization ^ 2))" by simp
  let ?a = "a \<lparr> number_of_solutions := length ?c, hypervolume := real (card (dominated_cells ?c)) * mo_discretization ^ 2,
    is_up_to_date := True, current_solution := None, extremes_already_returned := False \<rparr>"
  have "coco_archive_update a = Inr ?a"
    using False w hv h two by (simp add: coco_archive_update_def on_heap_def)
  moreover have "with_extremes ?a t"
    using assms unfolding up_to_date_def with_extremes_def archive_inv_def by simp
  ultimately show ?thesis using False by (intro exI [of _ ?a]) (simp add: up_to_date_def front_values_def)
qed

end
