(* ===== verification/Coco_Archive_Extremes.thy ===== *)
theory Coco_Archive_Extremes
  imports Coco_Archive_Values Coco_Options
begin

text \<open>
  The extreme solutions that the constructor of an archive adds: the result is an archive that holds
  exactly them and satisfies the invariant.
\<close>

section \<open>Adding the extreme points\<close>

definition extreme_format :: string where
  "extreme_format = ''0'' @ [CHR 0x09] @ ''%.*e'' @ [CHR 0x09] @ ''%.*e'' @ [CHR 0x0A]"

text \<open>
  Adding one of the extreme points; \<open>format_line\<close> is the line that \<open>vsprintf\<close> writes for two doubles.
\<close>

definition add_extreme ::
    "(real \<Rightarrow> real \<Rightarrow> string) \<Rightarrow> coco_archive \<Rightarrow> real \<Rightarrow> real \<Rightarrow> ptr \<Rightarrow> coco_archive result" where
  "add_extreme format_line archive v1 v2 m =
    rbind (coco_vstrdupf extreme_format (format_line v1 v2)) (\<lambda>text.
    rbind (coco_archive_add_solution archive v1 v2 text m) (\<lambda>(archive, update).
      if \<not> update then Inl (Assert_failed ''coco_archive'') else Inr archive))"

text \<open>The two extreme points and the pointers to them.\<close>

definition add_extremes ::
    "(real \<Rightarrow> real \<Rightarrow> string) \<Rightarrow> ptr \<Rightarrow> ptr \<Rightarrow> coco_archive \<Rightarrow> coco_archive result" where
  "add_extremes format_line m1 m2 archive =
    rbind (rnth (ideal archive) 0) (\<lambda>i0. rbind (rnth (ideal archive) 1) (\<lambda>i1.
    rbind (rnth (nadir archive) 0) (\<lambda>n0. rbind (rnth (nadir archive) 1) (\<lambda>n1.
    rbind (add_extreme format_line archive n0 i1 m1) (\<lambda>archive.
    rbind (add_extreme format_line archive i0 n1 m2) (\<lambda>archive.
      let archive = archive \<lparr> extreme1 := head (tree archive), extreme2 := tail (tree archive) \<rparr>
      in if extreme1 archive = extreme2 archive then Inl (Assert_failed ''coco_archive'')
         else Inr archive))))))"

section \<open>The extreme solutions\<close>

lemma normalize_value_ends:
  assumes "n - i > mo_discretization"
  shows "normalize_value n i n = Inr 1" "normalize_value i i n = Inr 0"
proof -
  have "n - i \<noteq> 0" using assms by (auto simp: mo_discretization_def)
  then show "normalize_value n i n = Inr 1" "normalize_value i i n = Inr 0"
    using assms by (simp_all add: normalize_value_def coco_double_round_def mo_discretization_def Let_def)
qed

lemma normalize_corners:
  assumes "n0 - i0 > mo_discretization" "n1 - i1 > mo_discretization"
  shows "mo_normalize [n0, i1] [i0, i1] [n0, n1] 2 = Inr (grid [roi, 0])"
    "mo_normalize [i0, n1] [i0, i1] [n0, n1] 2 = Inr (grid [0, roi])"
proof -
  have g: "grid [roi, 0] = [1, 0]" "grid [0, roi] = [0, 1]" by (simp_all add: grid2 mo_discretization_def)
  have a: "coco_double_almost_equal 1 0 mo_precision = False" "coco_double_almost_equal 0 0 mo_precision"
    by (simp_all add: coco_double_almost_equal_def mo_precision_def)
  show "mo_normalize [n0, i1] [i0, i1] [n0, n1] 2 = Inr (grid [roi, 0])"
    "mo_normalize [i0, n1] [i0, i1] [n0, n1] 2 = Inr (grid [0, roi])"
    using normalize_value_ends [OF assms(1)] normalize_value_ends [OF assms(2)]
    by (simp_all add: mo_normalize_def upt2 g a adjust_extreme_def)
qed

text \<open>The empty archive with its ideal and nadir points.\<close>

definition empty_archive :: "real \<Rightarrow> real \<Rightarrow> real \<Rightarrow> real \<Rightarrow> coco_archive" where
  "empty_archive i0 i1 n0 n1 = coco_archive_allocate \<lparr> ideal := [i0, i1], nadir := [n0, n1] \<rparr>"

lemma empty_archive_inv:
  assumes "n0 - i0 > mo_discretization" "n1 - i1 > mo_discretization"
  shows "archive_inv (empty_archive i0 i1 n0 n1) \<langle>\<rangle>"
  using assms
  by (auto simp: archive_inv_def empty_archive_def coco_archive_allocate_def ordered_def avl_inv_def avl_tree_init_def
      contents_def ascending_def front_def less_2_cases_iff)

lemma extreme_text:
  assumes "length (format_line v1 v2) \<le> 441"
  shows "coco_vstrdupf extreme_format (format_line v1 v2) = Inr (format_line v1 v2)"
proof -
  have "length extreme_format < COCO_VSTRDUPF_BUFLEN div 2 - 2" by (simp add: extreme_format_def COCO_VSTRDUPF_BUFLEN_def)
  then show ?thesis using assms by (simp add: coco_vstrdupf_def COCO_VSTRDUPF_BUFLEN_def)
qed

text \<open>Adding an extreme point that no solution covers to an archive whose extremes are not set yet.\<close>

lemma add_extreme_ok:
  assumes inv: "archive_inv a t" and none: "extreme1 a = None" "extreme2 a = None"
    and line: "length (format_line v1 v2) \<le> 441" and norm: "mo_normalize [v1, v2] (ideal a) (nadir a) 2 = Inr y"
    and b: "nodes (tree a) b = None" and size: "size t + 1 < 2 ^ 64"
    and new: "\<forall>x. normalized_y x = y \<longrightarrow> \<not> (\<exists>z \<in> set (contents (tree a) t). covers z x)"
  shows "\<exists>s t' x. add_extreme format_line a v1 v2 (Some b) = Inr (a \<lparr> tree := s, is_up_to_date := False \<rparr>)
    \<and> normalized_y x = y \<and> archive_inv (a \<lparr> tree := s, is_up_to_date := False \<rparr>) t'
    \<and> contents s t' = front_add x (contents (tree a) t) \<and> (\<forall>c. c \<noteq> b \<longrightarrow> nodes (tree a) c = None \<longrightarrow> nodes s c = None)"
proof -
  from item_create [OF inv, of v1 v2 "format_line v1 v2"] obtain x where
    x: "coco_archive_node_item_create [v1, v2] (ideal a) (nadir a) (number_of_objectives a) (format_line v1 v2) = Inr x"
    "mo_normalize [v1, v2] (ideal a) (nadir a) 2 = Inr (normalized_y x)" by blast
  have y: "normalized_y x = y" using x(2) norm by simp
  have ext: "\<forall>z \<in> set_tree t. (extreme1 a = Some z \<or> extreme2 a = Some z) \<longrightarrow> \<not> dominates x (item_of (tree a) z)"
    using none by simp
  have nc: "\<not> (\<exists>z \<in> set (contents (tree a) t). covers z x)" using new y by blast
  from add_solution_ok [OF inv x(1) ext b size] nc obtain s t' where
    "coco_archive_add_solution a v1 v2 (format_line v1 v2) (Some b) = Inr (a \<lparr> tree := s, is_up_to_date := False \<rparr>, True)"
    "archive_inv (a \<lparr> tree := s, is_up_to_date := False \<rparr>) t'" "contents s t' = front_add x (contents (tree a) t)"
    "\<forall>c. c \<noteq> b \<longrightarrow> nodes (tree a) c = None \<longrightarrow> nodes s c = None" by auto
  with y extreme_text [of format_line v1 v2, OF line] show ?thesis
    by (intro exI [of _ s] exI [of _ t'] exI [of _ x]) (simp add: add_extreme_def)
qed

lemma front_add_corners:
  assumes "corner1 x1" "corner2 x2"
  shows "front_add x1 [] = [x1]" "front_add x2 [x1] = [x1, x2]" "\<not> covers x1 x2"
proof -
  have n: "y0 x1 = 1 \<and> y1 x1 = 0 \<and> normalized x1" "y0 x2 = 0 \<and> y1 x2 = 1 \<and> normalized x2"
    using corners assms by blast+
  then have c: "coco_archive_compare_by_last_objective x2 x1 = 1" by (simp add: compare_normalized)
  show "front_add x1 [] = [x1]" by (simp add: front_add_def ordered_insert_def)
  show "\<not> covers x1 x2" using n by (simp add: covers_def)
  have "\<not> dominates x2 x1" using n by (simp add: dominates_def)
  with c n show "front_add x2 [x1] = [x1, x2]"
    by (simp add: front_add_def ordered_insert_def covers_def)
qed

lemma add_extremes_ok:
  assumes gap: "n0 - i0 > mo_discretization" "n1 - i1 > mo_discretization"
    and line: "length (format_line n0 i1) \<le> 441" "length (format_line i0 n1) \<le> 441" and b: "b1 \<noteq> b2"
  shows "\<exists>a t x1 x2. add_extremes format_line (Some b1) (Some b2) (empty_archive i0 i1 n0 n1) = Inr a
    \<and> up_to_date a t \<and> \<not> is_up_to_date a \<and> contents (tree a) t = [x1, x2] \<and> corner1 x1 \<and> corner2 x2
    \<and> ideal a = [i0, i1] \<and> nadir a = [n0, n1] \<and> (\<forall>c. c \<noteq> b1 \<longrightarrow> c \<noteq> b2 \<longrightarrow> nodes (tree a) c = None)"
proof -
  let ?e = "empty_archive i0 i1 n0 n1"
  have e: "ideal ?e = [i0, i1]" "nadir ?e = [n0, n1]" "extreme1 ?e = None" "extreme2 ?e = None"
    "nodes (tree ?e) c = None" "contents (tree ?e) \<langle>\<rangle> = []" for c
    by (simp_all add: empty_archive_def coco_archive_allocate_def avl_tree_init_def contents_def)
  have "\<exists>s t' x. add_extreme format_line ?e n0 i1 (Some b1) = Inr (?e \<lparr> tree := s, is_up_to_date := False \<rparr>)
    \<and> normalized_y x = grid [roi, 0] \<and> archive_inv (?e \<lparr> tree := s, is_up_to_date := False \<rparr>) t'
    \<and> contents s t' = front_add x (contents (tree ?e) \<langle>\<rangle>) \<and> (\<forall>c. c \<noteq> b1 \<longrightarrow> nodes (tree ?e) c = None \<longrightarrow> nodes s c = None)"
    using e normalize_corners(1) [OF gap] line(1)
    by (intro add_extreme_ok [OF empty_archive_inv [OF gap]]) simp_all
  then
  obtain s1 t1 x1 where s1: "add_extreme format_line ?e n0 i1 (Some b1) = Inr (?e \<lparr> tree := s1, is_up_to_date := False \<rparr>)"
    "corner1 x1" "archive_inv (?e \<lparr> tree := s1, is_up_to_date := False \<rparr>) t1" "contents s1 t1 = front_add x1 []"
    "\<forall>c. c \<noteq> b1 \<longrightarrow> nodes s1 c = None" unfolding e corner1_def by blast
  let ?a1 = "?e \<lparr> tree := s1, is_up_to_date := False \<rparr>"
  have c1: "contents s1 t1 = [x1]" using s1(4) by (simp add: front_add_def ordered_insert_def)
  then have "size t1 = 1" by (metis contents_def length_inorder length_map length_Cons list.size(3) One_nat_def)
  then have z1: "size t1 + 1 < 2 ^ 64" by simp
  have "\<exists>s t' x. add_extreme format_line ?a1 i0 n1 (Some b2) = Inr (?a1 \<lparr> tree := s, is_up_to_date := False \<rparr>)
    \<and> normalized_y x = grid [0, roi] \<and> archive_inv (?a1 \<lparr> tree := s, is_up_to_date := False \<rparr>) t'
    \<and> contents s t' = front_add x (contents (tree ?a1) t1) \<and> (\<forall>c. c \<noteq> b2 \<longrightarrow> nodes (tree ?a1) c = None \<longrightarrow> nodes s c = None)"
    using s1(5) b e normalize_corners(2) [OF gap] c1 front_add_corners(3) [OF s1(2)]
    line(2) z1 by (intro add_extreme_ok [OF s1(3)]) (auto simp: corner2_def)
  then obtain s2 t2 x2 where s2: "add_extreme format_line ?a1 i0 n1 (Some b2) = Inr (?a1 \<lparr> tree := s2, is_up_to_date := False \<rparr>)"
    "corner2 x2" "archive_inv (?a1 \<lparr> tree := s2, is_up_to_date := False \<rparr>) t2" "contents s2 t2 = front_add x2 [x1]"
    "\<forall>c. c \<noteq> b2 \<longrightarrow> nodes s1 c = None \<longrightarrow> nodes s2 c = None"
    using c1 unfolding corner2_def by (simp del: One_nat_def) blast
  have c2: "contents s2 t2 = [x1, x2]" using s2(4) front_add_corners(2) [OF s1(2) s2(2)] by simp
  then obtain p q where pq: "inorder t2 = [p, q]" "item_of s2 p = x1" "item_of s2 q = x2"
    by (auto simp: contents_def map_eq_Cons_conv)
  have "avl_inv s2 t2" using s2(3) by (simp add: archive_inv_def ordered_def)
  then have ht: "head s2 = Some p" "tail s2 = Some q" "p \<noteq> q" by (simp_all add: avl_inv_def pq(1))
  let ?a = "?e \<lparr> tree := s2, is_up_to_date := False, extreme1 := Some p, extreme2 := Some q \<rparr>"
  have "add_extremes format_line (Some b1) (Some b2) ?e = Inr ?a"
    using s1(1) s2(1) ht by (simp add: add_extremes_def e Let_def)
  moreover have "archive_inv ?a t2" using s2(3) unfolding archive_inv_def by simp
  then have "up_to_date ?a t2"
    using pq s1(2) s2(2) by (auto simp: up_to_date_def with_extremes_def)
  ultimately show ?thesis using c2 s1(2,5) s2(2,5) e
    by - (rule exI [of _ ?a], rule exI [of _ t2], rule exI [of _ x1], rule exI [of _ x2], simp)
qed

end
