(* ===== verification/Coco_Archive_Create.thy ===== *)
theory Coco_Archive_Create
  imports Coco_Archive_Extremes Coco_Suite_Construct Coco_Suite_Next
begin

text \<open>
  The constructor \<open>coco_archive\<close>: it asks the suite for the problem, takes over its ideal and nadir
  points and adds the two extreme solutions.
\<close>

section \<open>The constructor\<close>

definition coco_archive ::
    "(problem_call \<Rightarrow> bbob_objective) \<Rightarrow> (coco_problem \<Rightarrow> real list) \<Rightarrow> (coco_problem \<Rightarrow> real list)
      \<Rightarrow> (real \<Rightarrow> real \<Rightarrow> string) \<Rightarrow> ptr \<Rightarrow> ptr \<Rightarrow> string \<Rightarrow> nat \<Rightarrow> nat \<Rightarrow> nat \<Rightarrow> coco_archive result" where
  "coco_archive objective_of ideal_point nadir_point format_line m1 m2 sname function dimension instance =
    rbind (coco_vstrdupf ''instances: %lu'' (''instances: '' @ show_nat instance)) (\<lambda>suite_instance.
    rbind (coco_vstrdupf ''dimensions: %lu function_indices: %lu''
        (''dimensions: '' @ show_nat dimension @ '' function_indices: '' @ show_nat function)) (\<lambda>suite_options.
    rbind (coco_suite sname (Some suite_instance) (Some suite_options)) (\<lambda>suite.
      case suite of
        None \<Rightarrow> Inl (Coco_error ''coco_archive'')
      | Some suite \<Rightarrow>
          rbind (coco_suite_get_next_problem objective_of None suite) (\<lambda>(next_problem, suite).
            case next_problem of
              None \<Rightarrow> Inl (Coco_error ''coco_archive'')
            | Some p \<Rightarrow>
                rbind (rnth (ideal_point p) 0) (\<lambda>b0. rbind (rnth (ideal_point p) 1) (\<lambda>b1.
                rbind (rnth (nadir_point p) 0) (\<lambda>n0. rbind (rnth (nadir_point p) 1) (\<lambda>n1.
                  add_extremes format_line m1 m2
                    (coco_archive_allocate \<lparr> ideal := [b0, b1], nadir := [n0, n1] \<rparr>)))))))))"

section \<open>The constructed archive\<close>

text \<open>
  C8. The constructor returns an archive that satisfies the invariant: for a suite and a problem whose
  nadir point is above its ideal point, with the two pointers that \<open>malloc\<close> returns, no assertion fails
  and the archive holds exactly the two extreme solutions, marked as its extremes.
\<close>

theorem coco_archive_created:
  assumes "coco_suite sname (Some (''instances: '' @ show_nat instance))
      (Some (''dimensions: '' @ show_nat dimension @ '' function_indices: '' @ show_nat function)) = Inr (Some suite)"
    and "coco_suite_get_next_problem objective_of None suite = Inr (Some p, suite')"
    and "ideal_point p = [i0, i1]" "nadir_point p = [n0, n1]"
    and "n0 - i0 > mo_discretization" "n1 - i1 > mo_discretization"
    and "length (format_line n0 i1) \<le> 441" "length (format_line i0 n1) \<le> 441" "b1 \<noteq> b2"
    and "length (show_nat instance) \<le> 20" "length (show_nat dimension) \<le> 20" "length (show_nat function) \<le> 20"
  shows "\<exists>a t x1 x2. coco_archive objective_of ideal_point nadir_point format_line (Some b1) (Some b2)
      sname function dimension instance = Inr a \<and> with_extremes a t \<and> contents (tree a) t = [x1, x2]"
proof -
  have "coco_vstrdupf ''instances: %lu'' (''instances: '' @ show_nat instance) = Inr (''instances: '' @ show_nat instance)"
    "coco_vstrdupf ''dimensions: %lu function_indices: %lu''
        (''dimensions: '' @ show_nat dimension @ '' function_indices: '' @ show_nat function)
      = Inr (''dimensions: '' @ show_nat dimension @ '' function_indices: '' @ show_nat function)"
    using assms(10-12) by (simp_all add: coco_vstrdupf_def COCO_VSTRDUPF_BUFLEN_def)
  then have "coco_archive objective_of ideal_point nadir_point format_line (Some b1) (Some b2) sname function dimension instance
    = add_extremes format_line (Some b1) (Some b2) (empty_archive i0 i1 n0 n1)"
    using assms(1-4) by (simp add: coco_archive_def empty_archive_def)
  moreover obtain a t x1 x2 where "add_extremes format_line (Some b1) (Some b2) (empty_archive i0 i1 n0 n1) = Inr a"
    "up_to_date a t" "contents (tree a) t = [x1, x2]"
    using add_extremes_ok [OF assms(5-9)] by blast
  ultimately show ?thesis by (auto simp: up_to_date_def)
qed

definition biobj_sample_suite :: coco_suite where
  "biobj_sample_suite = (case coco_suite ''bbob-biobj'' (Some ''instances: 1'') (Some ''dimensions: 2 function_indices: 1'') of
     Inr (Some s) \<Rightarrow> s)"

lemma biobj_sample_suite: "coco_suite ''bbob-biobj'' (Some ''instances: 1'') (Some ''dimensions: 2 function_indices: 1'')
    = Inr (Some biobj_sample_suite)"
proof -
  have "case coco_suite ''bbob-biobj'' (Some ''instances: 1'') (Some ''dimensions: 2 function_indices: 1'') of
      Inr (Some s) \<Rightarrow> True | _ \<Rightarrow> False" by code_simp
  then show ?thesis by (auto simp: biobj_sample_suite_def split: sum.splits option.splits)
qed

lemma sample_advance: "case advance_suite biobj_sample_suite of Inr (b, s) \<Rightarrow> b
    \<and> current_function_idx s = 0 \<and> current_dimension_idx s = 0 \<and> current_instance_idx s = 0
    \<and> with_indices s 0 0 0 (\<lambda>f d i. Inr (f, d, i)) = Inr (1, 2, 1) \<and> suite_name s = ''bbob-biobj''
    | _ \<Rightarrow> False"
  by code_simp

lemma sample_biobj_call: "\<exists>c. coco_get_biobj_problem sample_objective 1 2 1 coco_get_bbob_problem new n dims = Inr (c, new)"
proof -
  have "biobj_function_indices 0 = Inr (0, 0)" using biobj_row [of 0 0] by simp
  moreover have "find_instance 1 suite_biobj_instances = Some (2, 4)" by code_simp
  moreover have "\<exists>c. coco_get_bbob_problem 1 2 2 = Inr c" "\<exists>c. coco_get_bbob_problem 1 2 4 = Inr c"
    "sel_bbob_functions ! 0 = 1" "0 < length sel_bbob_functions"
    by (simp_all add: coco_get_bbob_problem_def sel_bbob_functions_def)
  ultimately show ?thesis
    by (auto simp: coco_get_biobj_problem_def biobj_instances_def)
qed

lemma sample_next: "\<exists>p s. coco_suite_get_next_problem sample_objective None biobj_sample_suite = Inr (Some p, s)"
proof -
  obtain s where s: "advance_suite biobj_sample_suite = Inr (True, s)" "current_function_idx s = 0"
    "current_dimension_idx s = 0" "current_instance_idx s = 0" "suite_name s = ''bbob-biobj''"
    "with_indices s 0 0 0 (\<lambda>f d i. Inr (f, d, i)) = Inr (1, 2, 1)"
    using sample_advance by (auto split: sum.splits)
  have w: "with_indices s 0 0 0 k = k 1 2 1" for k :: "nat \<Rightarrow> nat \<Rightarrow> nat \<Rightarrow> 'b result"
    using s(6) by (auto simp: with_indices_def rbind_eq_Inr)
  obtain c where c: "coco_get_biobj_problem sample_objective 1 2 1 coco_get_bbob_problem
      (suite_data s) (number_of_instances s) (suite_dimensions s) = Inr (c, suite_data s)"
    using sample_biobj_call by blast
  obtain p where "suite_biobj_get_problem sample_objective s 0 0 0 = Inr p"
    using c by (simp add: suite_biobj_get_problem_def suite_problem_def w)
  then have "coco_suite_get_problem_from_indices sample_objective s 0 0 0 = Inr (Some p)"
    by (simp add: coco_suite_get_problem_from_indices_def w s(5))
  then show ?thesis using s by (simp add: coco_suite_get_next_problem_def)
qed

theorem coco_archive_created_witness:
  "\<exists>a t x1 x2. coco_archive sample_objective (\<lambda>_. [0, 0]) (\<lambda>_. [4, 4]) (\<lambda>_ _. ''0 0 4'') (Some 1) (Some 2)
      ''bbob-biobj'' 1 2 1 = Inr a \<and> with_extremes a t \<and> contents (tree a) t = [x1, x2]"
proof -
  obtain p s where n: "coco_suite_get_next_problem sample_objective None biobj_sample_suite = Inr (Some p, s)"
    using sample_next by blast
  have d: "show_nat 1 = ''1''" "show_nat 2 = ''2''" by code_simp+
  have "coco_suite ''bbob-biobj'' (Some (''instances: '' @ show_nat 1))
      (Some (''dimensions: '' @ show_nat 2 @ '' function_indices: '' @ show_nat 1)) = Inr (Some biobj_sample_suite)"
    using biobj_sample_suite unfolding d by simp
  from coco_archive_created [OF this n, of "\<lambda>_. [0, 0]" 0 0 "\<lambda>_. [4, 4]" 4 4 "\<lambda>_ _. ''0 0 4''" 1 2] d
  show ?thesis by (simp add: mo_discretization_def)
qed

end
