(* ===== verification/Coco_Archive_Texts.thy ===== *)
theory Coco_Archive_Texts
  imports Coco_Archive_Values
begin

text \<open>
  The output of an archive: repeated calls of \<open>coco_archive_get_next_solution_text\<close> return the texts of
  the two extreme solutions, then those of the other solutions in the order of the second objective,
  and then the empty string.
\<close>

section \<open>Repeated calls\<close>

fun next_texts :: "nat \<Rightarrow> coco_archive \<Rightarrow> (coco_archive \<times> string option list) result" where
  "next_texts 0 a = Inr (a, [])"
| "next_texts (Suc n) a =
     rbind (coco_archive_get_next_solution_text a) (\<lambda>(a, text).
     rbind (next_texts n a) (\<lambda>(a, texts). Inr (a, text # texts)))"

text \<open>The archive has returned its extreme solutions and stands before the nodes \<open>rest\<close>.\<close>

definition reading :: "coco_archive \<Rightarrow> addr list \<Rightarrow> bool" where
  "reading a rest \<longleftrightarrow> is_up_to_date a \<and> extremes_already_returned a \<and> current_solution a = first_of rest None
     \<and> (\<exists>p. linked (node_view (tree a)) p rest None)"

definition is_extreme :: "coco_archive \<Rightarrow> addr \<Rightarrow> bool" where
  "is_extreme a b \<longleftrightarrow> extreme1 a = Some b \<or> extreme2 a = Some b"

lemma reading_cons:
  assumes "reading a (b # bs)"
  shows "\<exists>n. nodes (tree a) b = Some n \<and> n_next n = first_of bs None \<and> n_item n = item_of (tree a) b
    \<and> reading (a \<lparr> current_solution := first_of bs None \<rparr>) bs"
  using assms by (auto simp: reading_def node_view_def kept_def item_of_def)

lemma next_solution_text_reading:
  "reading a rest \<Longrightarrow> next_solution_text a = Some (Inr (case dropWhile (is_extreme a) rest of
      [] \<Rightarrow> (a \<lparr> current_solution := None \<rparr>, Some '''')
    | b # bs \<Rightarrow> (a \<lparr> current_solution := first_of bs None \<rparr>, Some (item_text (item_of (tree a) b)))))"
proof (induction rest arbitrary: a)
  case Nil
  then have "a \<lparr> current_solution := None \<rparr> = a" by (simp add: reading_def)
  with Nil show ?case
    by (subst next_solution_text.simps) (simp add: coco_archive_update_def reading_def)
next
  case (Cons b bs)
  from reading_cons [OF Cons.prems] obtain n where n: "nodes (tree a) b = Some n" "n_next n = first_of bs None"
    "n_item n = item_of (tree a) b" "reading (a \<lparr> current_solution := first_of bs None \<rparr>) bs" by blast
  have u: "coco_archive_update a = Inr a" "extremes_already_returned a" "current_solution a = Some b"
    using Cons.prems by (simp_all add: coco_archive_update_def reading_def)
  show ?case
  proof (cases "is_extreme a b")
    case True
    have x: "is_extreme (a \<lparr> current_solution := first_of bs None \<rparr>) = is_extreme a"
      by (simp add: fun_eq_iff is_extreme_def)
    have "next_solution_text a = next_solution_text (a \<lparr> current_solution := first_of bs None \<rparr>)"
      using u n True by (subst next_solution_text.simps) (auto simp: deref_def is_extreme_def)
    also have "\<dots> = Some (Inr (case dropWhile (is_extreme a) bs of
        [] \<Rightarrow> (a \<lparr> current_solution := None \<rparr>, Some '''')
      | b # bs \<Rightarrow> (a \<lparr> current_solution := first_of bs None \<rparr>, Some (item_text (item_of (tree a) b)))))"
      unfolding Cons.IH [OF n(4)] x
      by (cases "dropWhile (is_extreme a) bs") (simp_all del: dropWhile_eq_Nil_conv)
    finally show ?thesis using True by simp
  next
    case False
    then show ?thesis
      using u n by (subst next_solution_text.simps) (auto simp: deref_def is_extreme_def)
  qed
qed

lemma reading_drop: "reading a rest \<Longrightarrow> dropWhile P rest = b # bs \<Longrightarrow> reading (a \<lparr> current_solution := first_of bs None \<rparr>) bs"
proof (induction rest arbitrary: a)
  case (Cons c rest)
  from reading_cons [OF Cons.prems(1)] have r: "reading (a \<lparr> current_solution := first_of rest None \<rparr>) rest" by blast
  show ?case
  proof (cases "P c")
    case True
    with Cons.IH [OF r] Cons.prems(2) show ?thesis by simp
  qed (use r Cons.prems(2) in simp)
qed simp

lemma take_replicate_more: "take (n - m) (v # replicate n v) = replicate (n - m) v"
proof -
  have "take (n - m) (replicate (Suc n) v) = replicate (n - m) v"
    by (simp add: take_replicate min_def del: replicate_Suc)
  then show ?thesis by simp
qed

lemma next_texts_reading:
  "reading a rest \<Longrightarrow> \<exists>a'. next_texts n a = Inr (a', take n (map (\<lambda>b. Some (item_text (item_of (tree a) b)))
      (filter (\<lambda>b. \<not> is_extreme a b) rest) @ replicate n (Some '''')))"
proof (induction n arbitrary: a rest)
  case (Suc n)
  let ?t = "\<lambda>b. Some (item_text (item_of (tree a) b))"
  note step = next_solution_text_reading [OF Suc.prems]
  show ?case
  proof (cases "dropWhile (is_extreme a) rest")
    case Nil
    let ?a = "a \<lparr> current_solution := None \<rparr>"
    have "reading ?a []" using Suc.prems by (simp add: reading_def)
    from Suc.IH [OF this] obtain a' where a': "next_texts n ?a = Inr (a', replicate n (Some ''''))" by auto
    have "filter (\<lambda>b. \<not> is_extreme a b) rest = []" using Nil by (simp add: dropWhile_eq_Nil_conv filter_empty_conv)
    then show ?thesis
      using step Nil a' by (simp add: coco_archive_get_next_solution_text_def on_heap_def)
  next
    case (Cons b bs)
    let ?a = "a \<lparr> current_solution := first_of bs None \<rparr>"
    have x: "is_extreme ?a = is_extreme a" by (simp add: fun_eq_iff is_extreme_def)
    have "reading ?a bs" by (rule reading_drop [OF Suc.prems Cons])
    from Suc.IH [OF this] obtain a' where a': "next_texts n ?a
        = Inr (a', take n (map ?t (filter (\<lambda>b. \<not> is_extreme a b) bs) @ replicate n (Some '''')))" unfolding x by auto
    have nb: "\<not> is_extreme a b" using Cons hd_dropWhile [of "is_extreme a" rest] by auto
    have "rest = takeWhile (is_extreme a) rest @ b # bs" using Cons takeWhile_dropWhile_id [of "is_extreme a" rest] by simp
    moreover have "filter (\<lambda>b. \<not> is_extreme a b) (takeWhile (is_extreme a) rest) = []"
      by (auto simp: filter_empty_conv dest: set_takeWhileD)
    ultimately have "filter (\<lambda>b. \<not> is_extreme a b) rest = b # filter (\<lambda>b. \<not> is_extreme a b) bs"
      using nb by (metis append_Nil filter.simps(2) filter_append)
    then show ?thesis
      using step Cons a'
      by (simp add: coco_archive_get_next_solution_text_def on_heap_def take_replicate_more)
  qed
qed simp

section \<open>The complete output\<close>

text \<open>The texts in the order of the output.\<close>

definition output_order :: "archive_item list \<Rightarrow> archive_item list" where
  "output_order xs = (case xs of [] \<Rightarrow> [] | x # zs \<Rightarrow> x # last zs # butlast zs)"

lemma next_texts_complete:
  assumes inv: "up_to_date a t" and stale: "\<not> is_up_to_date a"
  shows "\<exists>a'. next_texts (length (contents (tree a) t) + k) a
    = Inr (a', map (\<lambda>x. Some (item_text x)) (output_order (contents (tree a) t)) @ replicate k (Some ''''))"
proof -
  from inv obtain e1 e2 mid where e: "inorder t = e1 # mid @ [e2]" "extreme1 a = Some e1" "extreme2 a = Some e2"
    and avl: "avl_inv (tree a) t"
    by (auto simp: up_to_date_def with_extremes_def archive_inv_def ordered_def)
  from update_ok [OF inv] stale obtain a1 where a1: "coco_archive_update a = Inr a1" "is_up_to_date a1" "tree a1 = tree a"
    "extreme1 a1 = Some e1" "extreme2 a1 = Some e2" "current_solution a1 = None" "\<not> extremes_already_returned a1"
    using e by (auto split: if_splits)
  define a2 where "a2 = a1 \<lparr> current_solution := extreme2 a1 \<rparr>"
  define a3 where "a3 = a2 \<lparr> extremes_already_returned := True, current_solution := head (tree a2) \<rparr>"
  let ?i = "item_of (tree a)"
  have l: "linked (node_view (tree a)) None (inorder t) None" and h: "head (tree a) = Some e1"
    and dist: "distinct (inorder t)" using avl e(1) by (simp_all add: avl_inv_def)
  have node: "\<exists>n. nodes (tree a) b = Some n \<and> n_item n = ?i b" if "b \<in> set (inorder t)" for b
    using linked_defined [OF l that] by (auto simp: node_view_def item_of_def)
  have s1: "coco_archive_get_next_solution_text a = Inr (a2, Some (item_text (?i e1)))"
    using node [of e1] e(1) a1 unfolding coco_archive_get_next_solution_text_def a2_def
    by (subst next_solution_text.simps) (auto simp: on_heap_def deref_def)
  have s2: "coco_archive_get_next_solution_text a2 = Inr (a3, Some (item_text (?i e2)))"
    using node [of e2] e(1) a1 unfolding coco_archive_get_next_solution_text_def a3_def
    by (subst next_solution_text.simps) (auto simp: a2_def on_heap_def deref_def coco_archive_update_def)
  have "reading a3 (inorder t)"
    unfolding reading_def using a1 h l e(1) by (auto simp: a3_def a2_def simp del: linked.simps linked_append)
  from next_texts_reading [OF this, of "length mid + k"] obtain a' where
    "next_texts (length mid + k) a3 = Inr (a', take (length mid + k)
      (map (\<lambda>b. Some (item_text (item_of (tree a3) b))) (filter (\<lambda>b. \<not> is_extreme a3 b) (inorder t))
        @ replicate (length mid + k) (Some '''')))" by blast
  moreover have "filter (\<lambda>b. \<not> is_extreme a3 b) (inorder t) = mid"
    using dist e(1) a1 by (auto simp: is_extreme_def a3_def a2_def intro!: filter_True)
  moreover have "tree a3 = tree a" using a1 by (simp add: a3_def a2_def)
  moreover have "take (length mid + k) (map f mid @ replicate (length mid + k) (Some ''''))
      = map f mid @ replicate k (Some '''')" for f :: "addr \<Rightarrow> string option"
    by (simp add: take_append take_replicate)
  ultimately have "next_texts (length mid + k) a3
    = Inr (a', map (\<lambda>b. Some (item_text (?i b))) mid @ replicate k (Some ''''))" by simp
  then have "next_texts (Suc (Suc (length mid + k))) a = Inr (a', Some (item_text (?i e1)) # Some (item_text (?i e2))
      # map (\<lambda>b. Some (item_text (?i b))) mid @ replicate k (Some ''''))"
    using s1 s2 by simp
  moreover have "output_order (contents (tree a) t) = ?i e1 # ?i e2 # map ?i mid"
    by (simp add: output_order_def contents_def e(1))
  moreover have "length (contents (tree a) t) + k = Suc (Suc (length mid + k))" by (simp add: contents_def e(1))
  ultimately show ?thesis by (auto simp: comp_def)
qed

end
