(* ===== verification/Coco_Archive_Properties.thy ===== *)
theory Coco_Archive_Properties
  imports Coco_Archive_Extremes Coco_Archive_Texts
begin

text \<open>
  What is shown of the archive: adding solutions keeps exactly the non-dominated ones and never fails,
  the values are those of the front, the output is complete, and nothing is left allocated.
\<close>

section \<open>What a front covers\<close>

lemma covers_trans: "covers x y \<Longrightarrow> covers y z \<Longrightarrow> covers x z"
  by (auto simp: covers_def)

lemma set_ordered_insert_new:
  assumes "\<forall>z \<in> set ys. cmp x z \<noteq> 0"
  shows "set (ordered_insert cmp x ys) = insert x (set ys)"
proof -
  have "cmp x z < 0 \<or> cmp x z > 0" if "z \<in> set ys" for z using assms that linorder_neq_iff by blast
  with assms show ?thesis by (auto simp: ordered_insert_def)
qed

lemma front_add_covers:
  assumes "normalized x" "\<forall>z \<in> set xs. normalized z" "w \<in> insert x (set xs)"
  shows "\<exists>z \<in> set (front_add x xs). covers z w"
proof (cases "\<exists>z \<in> set xs. covers z x")
  case True
  with assms(3) show ?thesis by (auto simp: front_add_def covers_def)
next
  case False
  let ?ys = "filter (\<lambda>z. \<not> dominates x z) xs"
  have n: "coco_archive_compare_by_last_objective x z \<noteq> 0" if "z \<in> set ?ys" for z
  proof -
    have "normalized z" "\<not> covers z x" "\<not> dominates x z" using that assms(2) False by auto
    then show ?thesis using compare_signs(3) [OF assms(1), of z] by (auto simp: covers_def dominates_def)
  qed
  then have "set (ordered_insert coco_archive_compare_by_last_objective x ?ys) = insert x (set ?ys)"
    by (intro set_ordered_insert_new) blast
  then have s: "set (front_add x xs) = insert x {z \<in> set xs. \<not> dominates x z}" using False by (simp add: front_add_def)
  show ?thesis
  proof (cases "w = x \<or> dominates x w")
    case True
    then have "covers x w" by (auto simp: covers_def dominates_def)
    then show ?thesis unfolding s by blast
  next
    case False
    then have "w \<in> set (front_add x xs)" using assms(3) unfolding s by blast
    then show ?thesis by (intro bexI [of _ w]) (simp add: covers_def)
  qed
qed

lemma front_add_subset: "set (front_add x xs) \<subseteq> insert x (set xs)"
proof -
  have "set (ordered_insert c x (filter P xs)) \<subseteq> insert x (set xs)" for c :: "archive_item \<Rightarrow> archive_item \<Rightarrow> int" and P
    using set_ordered_insert [of c x "filter P xs"] by auto
  then show ?thesis unfolding front_add_def by (simp add: subset_insertI)
qed

section \<open>Adding a list of solutions\<close>

text \<open>A solution with the pointer that \<open>malloc\<close> returns for its node.\<close>

type_synonym solution = "real \<times> real \<times> string \<times> addr"

fun add_solutions :: "solution list \<Rightarrow> coco_archive \<Rightarrow> coco_archive result" where
  "add_solutions [] a = Inr a"
| "add_solutions ((v1, v2, text, b) # ss) a =
     rbind (coco_archive_add_solution a v1 v2 text (Some b)) (\<lambda>(a, update). add_solutions ss a)"

text \<open>The solutions become these items.\<close>

definition becomes :: "coco_archive \<Rightarrow> solution \<Rightarrow> archive_item \<Rightarrow> bool" where
  "becomes a s x \<longleftrightarrow> (case s of (v1, v2, text, b) \<Rightarrow>
     mo_normalize [v1, v2] (ideal a) (nadir a) 2 = Inr (normalized_y x) \<and> item_text x = text)"

definition fresh :: "solution list \<Rightarrow> coco_archive \<Rightarrow> bool" where
  "fresh ss a \<longleftrightarrow> distinct (map (snd \<circ> snd \<circ> snd) ss) \<and> (\<forall>s \<in> set ss. nodes (tree a) (snd (snd (snd s))) = None)"

lemma add_solutions_ok:
  assumes "with_extremes a t" "fresh ss a" "size t + length ss < 2 ^ 64"
  shows "\<exists>a' t' xs. add_solutions ss a = Inr a' \<and> with_extremes a' t' \<and> list_all2 (becomes a) ss xs
    \<and> contents (tree a') t' = fold front_add xs (contents (tree a) t)
    \<and> (\<forall>w \<in> set xs \<union> set (contents (tree a) t). \<exists>z \<in> set (contents (tree a') t'). covers z w)
    \<and> set (contents (tree a') t') \<subseteq> set xs \<union> set (contents (tree a) t)"
  using assms
proof (induction ss arbitrary: a t)
  case Nil
  have "\<exists>z \<in> set (contents (tree a) t). covers z w" if "w \<in> set (contents (tree a) t)" for w
    using that by (intro bexI [of _ w]) (simp_all add: covers_def)
  with Nil show ?case by (intro exI [of _ a] exI [of _ t] exI [of _ "[]"]) simp
next
  case (Cons s ss)
  obtain v1 v2 line b where s: "s = (v1, v2, line, b)" by (cases s) auto
  have b: "nodes (tree a) b = None" and size: "size t + 1 < 2 ^ 64" using Cons.prems(2,3) by (auto simp: fresh_def s)
  from add_solution_with_extremes [OF Cons.prems(1) b size, of v1 v2 line] obtain x a1 t1 where
    x: "mo_normalize [v1, v2] (ideal a) (nadir a) 2 = Inr (normalized_y x)" "item_text x = line" "normalized x"
    and r: "coco_archive_add_solution a v1 v2 line (Some b) = Inr (a1, \<not> (\<exists>z \<in> set (contents (tree a) t). covers z x))"
    and a1: "with_extremes a1 t1" "contents (tree a1) t1 = front_add x (contents (tree a) t)" "size t1 \<le> size t + 1"
      "ideal a1 = ideal a" "nadir a1 = nadir a" "\<forall>c. c \<noteq> b \<longrightarrow> nodes (tree a) c = None \<longrightarrow> nodes (tree a1) c = None"
    by blast
  have "nodes (tree a1) (snd (snd (snd z))) = None" if "z \<in> set ss" for z
    using Cons.prems(2) a1(6) that by (auto simp: fresh_def s)
  then have "fresh ss a1" using Cons.prems(2) by (simp add: fresh_def)
  moreover have "size t1 + length ss < 2 ^ 64" using a1(3) Cons.prems(3) by simp
  ultimately obtain a' t' xs where a': "add_solutions ss a1 = Inr a'" "with_extremes a' t'" "list_all2 (becomes a1) ss xs"
    "contents (tree a') t' = fold front_add xs (contents (tree a1) t1)"
    "\<forall>w \<in> set xs \<union> set (contents (tree a1) t1). \<exists>z \<in> set (contents (tree a') t'). covers z w"
    "set (contents (tree a') t') \<subseteq> set xs \<union> set (contents (tree a1) t1)"
    using Cons.IH [OF a1(1)] by blast
  have "becomes a1 = becomes a" using a1(4,5) by (simp add: becomes_def fun_eq_iff)
  then have "list_all2 (becomes a) (s # ss) (x # xs)" using a'(3) x by (simp add: s becomes_def)
  moreover have "\<forall>w \<in> set (x # xs) \<union> set (contents (tree a) t). \<exists>z \<in> set (contents (tree a') t'). covers z w"
  proof
    fix w assume w: "w \<in> set (x # xs) \<union> set (contents (tree a) t)"
    show "\<exists>z \<in> set (contents (tree a') t'). covers z w"
    proof (cases "w \<in> set xs")
      case True
      with a'(5) show ?thesis by blast
    next
      case False
      have "\<forall>z \<in> set (contents (tree a) t). normalized z"
        using Cons.prems(1) by (simp add: with_extremes_def archive_inv_def front_def)
      with False w obtain u where "u \<in> set (contents (tree a1) t1)" "covers u w"
        using front_add_covers [OF x(3), of "contents (tree a) t" w] a1(2) by auto
      with a'(5) covers_trans show ?thesis by blast
    qed
  qed
  moreover have "set (contents (tree a') t') \<subseteq> set (x # xs) \<union> set (contents (tree a) t)"
    using a'(6) front_add_subset [of x "contents (tree a) t"] unfolding a1(2) by auto
  moreover have "add_solutions (s # ss) a = Inr a'" using r a'(1) by (simp add: s)
  moreover have "contents (tree a') t' = fold front_add (x # xs) (contents (tree a) t)" using a'(4) a1(2) by simp
  ultimately show ?case using a'(2) by blast
qed

lemma add_solution_up_to_date:
  assumes inv: "up_to_date a t" and b: "nodes (tree a) b = None" and size: "size t + 1 < 2 ^ 64"
  shows "\<exists>x a' t'. mo_normalize [v1, v2] (ideal a) (nadir a) 2 = Inr (normalized_y x) \<and> item_text x = line
    \<and> normalized x
    \<and> coco_archive_add_solution a v1 v2 line (Some b) = Inr (a', \<not> (\<exists>z \<in> set (contents (tree a) t). covers z x))
    \<and> up_to_date a' t' \<and> contents (tree a') t' = front_add x (contents (tree a) t)"
proof -
  from inv have e: "with_extremes a t" by (simp add: up_to_date_def)
  from add_solution_with_extremes [OF e b size, of v1 v2 line] obtain x a' t' where
    r: "mo_normalize [v1, v2] (ideal a) (nadir a) 2 = Inr (normalized_y x)" "item_text x = line" "normalized x"
      "coco_archive_add_solution a v1 v2 line (Some b) = Inr (a', \<not> (\<exists>z \<in> set (contents (tree a) t). covers z x))"
      "with_extremes a' t'" "contents (tree a') t' = front_add x (contents (tree a) t)"
      "(\<exists>z \<in> set (contents (tree a) t). covers z x) \<longrightarrow> a' = a \<and> t' = t"
      "\<not> (\<exists>z \<in> set (contents (tree a) t). covers z x) \<longrightarrow> \<not> is_up_to_date a'" by blast
  then have "up_to_date a' t'" using inv by (cases "\<exists>z \<in> set (contents (tree a) t). covers z x") (auto simp: up_to_date_def)
  with r show ?thesis by blast
qed

lemma dominated_cells_mono:
  assumes "\<forall>w \<in> set ws. normalized w \<and> (\<exists>z \<in> set zs. normalized z \<and> covers z w)"
  shows "dominated_cells ws \<subseteq> dominated_cells zs"
proof -
  have "cell 0 z \<le> cell 0 w \<and> cell 1 z \<le> cell 1 w" if "normalized w" "normalized z" "covers z w" for z w
    using that by (simp add: covers_def y_cell mo_discretization_def del: One_nat_def)
  then have "\<exists>z \<in> set zs. cell 0 z \<le> i \<and> cell 1 z \<le> j" if "w \<in> set ws" "cell 0 w \<le> i" "cell 1 w \<le> j" for w i j
    using assms that by (meson le_trans)
  then show ?thesis unfolding dominated_cells_def by blast
qed

lemma dominated_cells_add:
  assumes "front xs" "normalized x"
  shows "dominated_cells (front_add x xs) = dominated_cells [x] \<union> dominated_cells xs"
proof -
  have n: "\<forall>w \<in> insert x (set xs). normalized w" using assms by (simp add: front_def)
  have "\<forall>w \<in> set (x # xs). normalized w \<and> (\<exists>z \<in> set (front_add x xs). normalized z \<and> covers z w)"
  proof
    fix w assume "w \<in> set (x # xs)"
    with front_add_covers [OF assms(2), of xs w] n obtain z where "z \<in> set (front_add x xs)" "covers z w" by auto
    with front_add_subset [of x xs] n \<open>w \<in> set (x # xs)\<close> show "normalized w \<and> (\<exists>z \<in> set (front_add x xs). normalized z \<and> covers z w)"
      by (metis list.simps(15) subsetD)
  qed
  then have "dominated_cells (x # xs) \<subseteq> dominated_cells (front_add x xs)" by (rule dominated_cells_mono)
  moreover have "dominated_cells (front_add x xs) \<subseteq> dominated_cells (x # xs)"
    using front_add_subset [of x xs] by (auto simp: dominated_cells_def)
  moreover have "dominated_cells (x # xs) = dominated_cells [x] \<union> dominated_cells xs"
    by (auto simp: dominated_cells_def)
  ultimately show ?thesis by blast
qed

section \<open>A small archive\<close>

definition sample_archive :: coco_archive where
  "sample_archive = (case add_extremes (\<lambda>_ _. ''extreme'') (Some 1) (Some 2) (empty_archive 0 0 4 4) of Inr a \<Rightarrow> a)"

lemma sample_archive_ok:
  "\<exists>t x1 x2. up_to_date sample_archive t \<and> \<not> is_up_to_date sample_archive \<and> contents (tree sample_archive) t = [x1, x2]
    \<and> corner1 x1 \<and> corner2 x2 \<and> ideal sample_archive = [0, 0] \<and> nadir sample_archive = [4, 4]
    \<and> (\<forall>c > 2. nodes (tree sample_archive) c = None) \<and> size t = 2"
proof -
  have "\<exists>a t x1 x2. add_extremes (\<lambda>_ _. ''extreme'') (Some 1) (Some 2) (empty_archive 0 0 4 4) = Inr a
    \<and> up_to_date a t \<and> \<not> is_up_to_date a \<and> contents (tree a) t = [x1, x2] \<and> corner1 x1 \<and> corner2 x2
    \<and> ideal a = [0, 0] \<and> nadir a = [4, 4] \<and> (\<forall>c. c \<noteq> 1 \<longrightarrow> c \<noteq> 2 \<longrightarrow> nodes (tree a) c = None)"
    by (rule add_extremes_ok) (simp_all add: mo_discretization_def)
  then obtain a t x1 x2 where a: "add_extremes (\<lambda>_ _. ''extreme'') (Some 1) (Some 2) (empty_archive 0 0 4 4) = Inr a"
    "up_to_date a t" "\<not> is_up_to_date a" "contents (tree a) t = [x1, x2]" "corner1 x1" "corner2 x2"
    "ideal a = [0, 0]" "nadir a = [4, 4]" "\<forall>c. c \<noteq> 1 \<longrightarrow> c \<noteq> 2 \<longrightarrow> nodes (tree a) c = None" by blast
  have "sample_archive = a" unfolding sample_archive_def a(1) by simp
  moreover have "size t = length (contents (tree a) t)" by (simp add: contents_def)
  then have "size t = 2" by (simp add: a(4))
  ultimately show ?thesis using a(2-9)
    by - (rule exI [of _ t], rule exI [of _ x1], rule exI [of _ x2], simp)
qed

text \<open>The solution (1, 1) in the middle of the region of interest from (0, 0) to (4, 4).\<close>

lemma sample_normalize: "mo_normalize [1, 1] [0, 0] [4, 4] 2 = Inr (grid [500000000000, 500000000000])"
proof -
  have "normalize_value 1 0 4 = Inr (real 500000000000 * mo_discretization)"
    by (simp add: normalize_value_def coco_double_round_def mo_discretization_def Let_def)
  moreover have "\<not> coco_double_almost_equal (real 500000000000 * mo_discretization) 0 mo_precision"
    using grid_almost_equal [of 500000000000 0] by (simp del: of_nat_numeral)
  ultimately show ?thesis by (simp add: mo_normalize_def upt2 grid2 adjust_extreme_def del: of_nat_numeral)
qed

lemma sample_not_covered:
  assumes "normalized_y x = grid [500000000000, 500000000000]" "corner1 x1" "corner2 x2"
  shows "\<not> (\<exists>z \<in> set [x1, x2]. covers z x)"
  using assms corners by (auto simp: covers_def grid2 mo_discretization_def)

section \<open>Adding solutions\<close>

text \<open>
  C3. Adding one solution refines the update of an abstract front of non-dominated items: no assertion
  fails and no freed node is used, the result says whether the archive changed, namely exactly when no
  solution of the archive covers the new one, and the two extreme solutions stay at the ends.
\<close>

theorem archive_add_refines_front:
  assumes "up_to_date a t" "nodes (tree a) b = None" "size t + 1 < 2 ^ 64"
  shows "\<exists>x a' t'. mo_normalize [v1, v2] (ideal a) (nadir a) 2 = Inr (normalized_y x) \<and> item_text x = line
    \<and> coco_archive_add_solution a v1 v2 line (Some b) = Inr (a', \<not> (\<exists>z \<in> set (contents (tree a) t). covers z x))
    \<and> up_to_date a' t' \<and> contents (tree a') t' = front_add x (contents (tree a) t)"
  using add_solution_up_to_date [OF assms] by blast

theorem archive_add_refines_front_witness:
  "\<exists>t a' t'. up_to_date sample_archive t \<and> coco_archive_add_solution sample_archive 1 1 ''line'' (Some 3) = Inr (a', True)
    \<and> up_to_date a' t'"
proof -
  obtain t x1 x2 where s: "up_to_date sample_archive t" "contents (tree sample_archive) t = [x1, x2]" "corner1 x1" "corner2 x2"
    "ideal sample_archive = [0, 0]" "nadir sample_archive = [4, 4]" "nodes (tree sample_archive) 3 = None" "size t + 1 < 2 ^ 64"
    using sample_archive_ok by auto
  from archive_add_refines_front [OF s(1,7,8), of 1 1 "''line''"] obtain x a' t' where
    x: "mo_normalize [1, 1] [0, 0] [4, 4] 2 = Inr (normalized_y x)"
    and r: "coco_archive_add_solution sample_archive 1 1 ''line'' (Some 3) = Inr (a', \<not> (\<exists>z \<in> set [x1, x2]. covers z x))"
      "up_to_date a' t'" unfolding s(2,5,6) by blast
  have "normalized_y x = grid [500000000000, 500000000000]" using x sample_normalize by simp
  from sample_not_covered [OF this s(3,4)] r s(1) show ?thesis by auto
qed

text \<open>
  C4. Safety and correctness of a run: after adding any list of solutions with pointers that are not in
  use, every solution ever added is covered by one in the archive, no solution of the archive covers
  another one, and the archive holds nothing else.
\<close>

theorem archive_keeps_nondominated:
  assumes "with_extremes a t" "fresh ss a" "size t + length ss < 2 ^ 64"
  shows "\<exists>a' t' xs. add_solutions ss a = Inr a' \<and> with_extremes a' t' \<and> list_all2 (becomes a) ss xs
    \<and> (\<forall>w \<in> set xs \<union> set (contents (tree a) t). \<exists>z \<in> set (contents (tree a') t'). covers z w)
    \<and> (\<forall>x \<in> set (contents (tree a') t'). \<forall>z \<in> set (contents (tree a') t'). x \<noteq> z \<longrightarrow> \<not> covers x z)
    \<and> set (contents (tree a') t') \<subseteq> set xs \<union> set (contents (tree a) t)"
proof -
  from add_solutions_ok [OF assms] obtain a' t' xs where r: "add_solutions ss a = Inr a'" "with_extremes a' t'"
    "list_all2 (becomes a) ss xs" "\<forall>w \<in> set xs \<union> set (contents (tree a) t). \<exists>z \<in> set (contents (tree a') t'). covers z w"
    "set (contents (tree a') t') \<subseteq> set xs \<union> set (contents (tree a) t)" by blast
  have "front (contents (tree a') t')" using r(2) by (simp add: with_extremes_def archive_inv_def)
  then have "\<forall>x \<in> set (contents (tree a') t'). \<forall>z \<in> set (contents (tree a') t'). x \<noteq> z \<longrightarrow> \<not> covers x z"
    using front_nondominated by blast
  with r show ?thesis by blast
qed

theorem archive_keeps_nondominated_witness:
  "\<exists>t a' t' xs. with_extremes sample_archive t
    \<and> add_solutions [(1, 1, ''a'', 3), (2, 3, ''b'', 4), (3, 1 / 2, ''c'', 5)] sample_archive = Inr a' \<and> with_extremes a' t'
    \<and> (\<forall>w \<in> set xs. \<exists>z \<in> set (contents (tree a') t'). covers z w) \<and> length xs = 3"
proof -
  obtain t where s: "with_extremes sample_archive t" "\<forall>c > 2. nodes (tree sample_archive) c = None" "size t = 2"
    using sample_archive_ok by (auto simp: up_to_date_def)
  let ?ss = "[(1, 1, ''a'', 3), (2, 3, ''b'', 4), (3, 1 / 2, ''c'', 5)] :: solution list"
  have f: "fresh ?ss sample_archive" using s(2) by (simp add: fresh_def)
  have "size t + length ?ss < 2 ^ 64" using s(3) by simp
  from archive_keeps_nondominated [OF s(1) f this] obtain a' t' xs where "add_solutions ?ss sample_archive = Inr a'"
    "with_extremes a' t'" "list_all2 (becomes sample_archive) ?ss xs"
    "\<forall>w \<in> set xs \<union> set (contents (tree sample_archive) t). \<exists>z \<in> set (contents (tree a') t'). covers z w" by blast
  with s(1) show ?thesis using list_all2_lengthD by fastforce
qed

section \<open>The values and the output\<close>

text \<open>
  C5. The getters return the number of solutions and the hypervolume, which is exactly the number of
  cells of the region of interest that a solution of the archive dominates times the area of a cell;
  the loop that computes it ends and its assertion never fails.
\<close>

theorem archive_getters_correct:
  assumes "up_to_date a t"
  shows "\<exists>a'. coco_archive_get_hypervolume a
      = Inr (a', real (card (dominated_cells (contents (tree a) t))) * mo_discretization ^ 2)
    \<and> coco_archive_get_number_of_solutions a = Inr (a', length (contents (tree a) t))
    \<and> up_to_date a' t \<and> tree a' = tree a"
  using update_ok [OF assms]
  by (auto simp: coco_archive_get_hypervolume_def coco_archive_get_number_of_solutions_def front_values_def)

theorem archive_getters_correct_witness:
  "\<exists>a'. coco_archive_get_hypervolume sample_archive = Inr (a', 0)
    \<and> coco_archive_get_number_of_solutions sample_archive = Inr (a', 2)"
proof -
  obtain t x1 x2 where s: "up_to_date sample_archive t" "contents (tree sample_archive) t = [x1, x2]" "corner1 x1" "corner2 x2"
    using sample_archive_ok by blast
  have "front [x1, x2]" using s(1) unfolding up_to_date_def with_extremes_def archive_inv_def s(2) by blast
  then have "card (dominated_cells [x1, x2]) = 0"
    using card_dominated_cells [of x1 "[x2]"] s(3) corner_cells(2) [OF s(4)] by simp
  with archive_getters_correct [OF s(1)] s(2) show ?thesis by auto
qed

text \<open>
  C7. Adding a solution never decreases the hypervolume: the cells dominated afterwards are those
  dominated before and those that the new solution dominates.
\<close>

theorem archive_hypervolume_grows:
  assumes "up_to_date a t" "nodes (tree a) b = None" "size t + 1 < 2 ^ 64"
  shows "\<exists>a1 h1 a2 u a3 h2. coco_archive_get_hypervolume a = Inr (a1, h1)
    \<and> coco_archive_add_solution a v1 v2 line (Some b) = Inr (a2, u)
    \<and> coco_archive_get_hypervolume a2 = Inr (a3, h2) \<and> h1 \<le> h2 \<and> (\<not> u \<longrightarrow> h2 = h1)"
proof -
  from add_solution_up_to_date [OF assms, of v1 v2 line] obtain x a2 t2 where
    x: "normalized x" and r: "coco_archive_add_solution a v1 v2 line (Some b)
      = Inr (a2, \<not> (\<exists>z \<in> set (contents (tree a) t). covers z x))"
      "up_to_date a2 t2" "contents (tree a2) t2 = front_add x (contents (tree a) t)" by blast
  from update_ok [OF assms(1)] obtain a1 where a1: "coco_archive_update a = Inr a1" "front_values a1 (contents (tree a) t)" by blast
  from update_ok [OF r(2)] obtain a3 where a3: "coco_archive_update a2 = Inr a3" "front_values a3 (contents (tree a2) t2)" by blast
  have "front (contents (tree a) t)" using assms(1) by (simp add: up_to_date_def with_extremes_def archive_inv_def)
  then have c: "dominated_cells (contents (tree a2) t2) = dominated_cells [x] \<union> dominated_cells (contents (tree a) t)"
    using dominated_cells_add [OF _ x] r(3) by simp
  have "finite (dominated_cells xs)" for xs
    by (rule finite_subset [of _ "{..<roi} \<times> {..<roi}"]) (auto simp: dominated_cells_def)
  then have "card (dominated_cells (contents (tree a) t)) \<le> card (dominated_cells (contents (tree a2) t2))"
    unfolding c by (intro card_mono) auto
  then have "hypervolume a1 \<le> hypervolume a3"
    using a1(2) a3(2) by (simp add: front_values_def mult_right_mono)
  moreover have "hypervolume a3 = hypervolume a1" if "\<exists>z \<in> set (contents (tree a) t). covers z x"
    using a1(2) a3(2) r(3) that by (simp add: front_values_def front_add_def)
  ultimately show ?thesis using a1(1) a3(1) r(1) by (auto simp: coco_archive_get_hypervolume_def)
qed

theorem archive_hypervolume_grows_witness:
  "\<exists>a1 h1 a2 u a3 h2. coco_archive_get_hypervolume sample_archive = Inr (a1, h1)
    \<and> coco_archive_add_solution sample_archive 1 1 ''line'' (Some 3) = Inr (a2, u)
    \<and> coco_archive_get_hypervolume a2 = Inr (a3, h2) \<and> h1 \<le> h2"
proof -
  obtain t where "up_to_date sample_archive t" "nodes (tree sample_archive) 3 = None" "size t + 1 < 2 ^ 64"
    using sample_archive_ok by auto
  from archive_hypervolume_grows [OF this, of 1 1 "''line''"] show ?thesis by blast
qed

text \<open>
  C6. Reading the archive out: as many calls as there are solutions return the text of the first and of
  the second extreme solution and then those of all the others in the order of the second objective;
  every further call returns the empty string. The line marked ``never reached'' is never reached.
\<close>

theorem archive_texts_complete:
  assumes "up_to_date a t" "\<not> is_up_to_date a"
  shows "\<exists>a'. next_texts (length (contents (tree a) t) + k) a
    = Inr (a', map (\<lambda>x. Some (item_text x)) (output_order (contents (tree a) t)) @ replicate k (Some ''''))"
  using next_texts_complete [OF assms] .

theorem archive_texts_complete_witness:
  "\<exists>a' u v. next_texts 5 sample_archive = Inr (a', [Some u, Some v, Some '''', Some '''', Some ''''])"
proof -
  obtain t x1 x2 where s: "up_to_date sample_archive t" "\<not> is_up_to_date sample_archive"
    "contents (tree sample_archive) t = [x1, x2]" using sample_archive_ok by blast
  have n: "length (contents (tree sample_archive) t) + 3 = 5" by (simp add: s(3))
  have r: "replicate 3 v = [v, v, v]" for v :: "string option" by (simp add: numeral_3_eq_3)
  have "map (\<lambda>x. Some (item_text x)) (output_order (contents (tree sample_archive) t)) = [Some (item_text x1), Some (item_text x2)]"
    by (simp add: output_order_def s(3))
  then show ?thesis using archive_texts_complete [OF s(1,2), of 3] unfolding n r by auto
qed

text \<open>
  C9. Freeing the archive frees every node of its tree once and hands every item to the free handler.
\<close>

theorem archive_free_complete:
  assumes "archive_inv a t"
  shows "\<exists>s. coco_archive_free a = Inr s \<and> (\<forall>b \<in> set_tree t. nodes s b = None)
    \<and> freed_items s = freed_items (tree a) @ contents (tree a) t"
proof -
  have "avl_inv (tree a) t" "frees (tree a)" using assms by (simp_all add: archive_inv_def ordered_def)
  with tree_purge_ok show ?thesis by (fastforce simp: coco_archive_free_def on_heap_def)
qed

theorem archive_free_complete_witness:
  "\<exists>s x1 x2. coco_archive_free sample_archive = Inr s \<and> freed_items s = freed_items (tree sample_archive) @ [x1, x2]"
proof -
  obtain t x1 x2 where s: "archive_inv sample_archive t" "contents (tree sample_archive) t = [x1, x2]"
    using sample_archive_ok by (auto simp: up_to_date_def with_extremes_def)
  from archive_free_complete [OF s(1)] s(2) show ?thesis by auto
qed

end
