(* ===== verification/Coco_Double.thy ===== *)
theory Coco_Double
  imports Coco_Numerics
begin

text \<open>
  The type \<open>double\<close> with its special values, for the code that tests and produces them: a finite
  number (idealised as an exact real, there is no rounding and no overflow), the two infinities and
  NaN. The operators of C are the overloaded HOL operators; a comparison with NaN is false. There is
  one zero, the positive one. The second part models the NAN and INFINITY helpers of
  \<open>coco_utilities.c\<close>.
\<close>

section \<open>Values and operators\<close>

datatype double = Real real | Infinity | Minus_Infinity | NaN

instantiation double :: "{zero, one, plus, minus, uminus, times, abs, ord}"
begin

definition zero_double_def: "0 = Real 0"

definition one_double_def: "1 = Real 1"

fun plus_double :: "double \<Rightarrow> double \<Rightarrow> double" where
  "Real a + Real b = Real (a + b)"
| "NaN + y = NaN"
| "x + NaN = NaN"
| "Infinity + Minus_Infinity = NaN"
| "Minus_Infinity + Infinity = NaN"
| "Infinity + y = Infinity"
| "Minus_Infinity + y = Minus_Infinity"
| "x + Infinity = Infinity"
| "x + Minus_Infinity = Minus_Infinity"

fun uminus_double :: "double \<Rightarrow> double" where
  "- Real a = Real (- a)"
| "- Infinity = Minus_Infinity"
| "- Minus_Infinity = Infinity"
| "- NaN = NaN"

definition minus_double :: "double \<Rightarrow> double \<Rightarrow> double" where
  "x - y = x + (- y :: double)"

text \<open>An infinity times a finite number: by its sign, NaN for 0.\<close>

definition signed_infinity :: "real \<Rightarrow> double" where
  "signed_infinity a = (if a > 0 then Infinity else if a < 0 then Minus_Infinity else NaN)"

fun times_double :: "double \<Rightarrow> double \<Rightarrow> double" where
  "Real a * Real b = Real (a * b)"
| "NaN * y = NaN"
| "x * NaN = NaN"
| "Infinity * Real b = signed_infinity b"
| "Real a * Infinity = signed_infinity a"
| "Minus_Infinity * Real b = signed_infinity (- b)"
| "Real a * Minus_Infinity = signed_infinity (- a)"
| "Infinity * Infinity = Infinity"
| "Minus_Infinity * Minus_Infinity = Infinity"
| "Infinity * Minus_Infinity = Minus_Infinity"
| "Minus_Infinity * Infinity = Minus_Infinity"

fun abs_double :: "double \<Rightarrow> double" where
  "\<bar>Real a\<bar> = Real \<bar>a\<bar>"
| "\<bar>NaN\<bar> = NaN"
| "\<bar>Infinity\<bar> = Infinity"
| "\<bar>Minus_Infinity\<bar> = Infinity"

fun less_double :: "double \<Rightarrow> double \<Rightarrow> bool" where
  "Real a < Real b \<longleftrightarrow> a < b"
| "NaN < y \<longleftrightarrow> False"
| "x < NaN \<longleftrightarrow> False"
| "Minus_Infinity < y \<longleftrightarrow> y \<noteq> Minus_Infinity"
| "x < Minus_Infinity \<longleftrightarrow> False"
| "Infinity < y \<longleftrightarrow> False"
| "x < Infinity \<longleftrightarrow> True"

definition less_eq_double :: "double \<Rightarrow> double \<Rightarrow> bool" where
  "x \<le> y \<longleftrightarrow> x < y \<or> (x = y \<and> x \<noteq> NaN)"

instance ..

end

text \<open>
  Division by zero gives an infinity (the zero counts as positive) or NaN. \<open>not_equal\<close> is the
  operator \<open>!=\<close>, true on NaN; \<open>equal_to\<close> is \<open>==\<close>.
\<close>

fun ddiv :: "double \<Rightarrow> double \<Rightarrow> double" where
  "ddiv (Real a) (Real b) = (if b \<noteq> 0 then Real (a / b) else signed_infinity a)"
| "ddiv (Real a) NaN = NaN"
| "ddiv (Real a) Infinity = Real 0"
| "ddiv (Real a) Minus_Infinity = Real 0"
| "ddiv Infinity (Real b) = (if b \<ge> 0 then Infinity else Minus_Infinity)"
| "ddiv Minus_Infinity (Real b) = (if b \<ge> 0 then Minus_Infinity else Infinity)"
| "ddiv x y = NaN"

definition equal_to :: "double \<Rightarrow> double \<Rightarrow> bool" where
  "equal_to x y \<longleftrightarrow> x = y \<and> x \<noteq> NaN"

definition not_equal :: "double \<Rightarrow> double \<Rightarrow> bool" where
  "not_equal x y \<longleftrightarrow> \<not> equal_to x y"

section \<open>The functions of math.h\<close>

fun dsqrt :: "double \<Rightarrow> double" where
  "dsqrt (Real a) = (if a < 0 then NaN else Real (sqrt a))"
| "dsqrt Infinity = Infinity"
| "dsqrt Minus_Infinity = NaN"
| "dsqrt NaN = NaN"

fun dexp :: "double \<Rightarrow> double" where
  "dexp (Real a) = Real (exp a)"
| "dexp Infinity = Infinity"
| "dexp Minus_Infinity = Real 0"
| "dexp NaN = NaN"

fun dlog :: "double \<Rightarrow> double" where
  "dlog (Real a) = (if a > 0 then Real (ln a) else if a = 0 then Minus_Infinity else NaN)"
| "dlog Infinity = Infinity"
| "dlog Minus_Infinity = NaN"
| "dlog NaN = NaN"

fun dsin :: "double \<Rightarrow> double" where
  "dsin (Real a) = Real (sin a)"
| "dsin x = NaN"

fun dcos :: "double \<Rightarrow> double" where
  "dcos (Real a) = Real (cos a)"
| "dcos x = NaN"

fun dfloor :: "double \<Rightarrow> double" where
  "dfloor (Real a) = Real (of_int \<lfloor>a\<rfloor>)"
| "dfloor x = x"

text \<open>
  \<open>pow\<close> on finite arguments. A negative base has a power only for an integer exponent.
\<close>

definition real_pow :: "real \<Rightarrow> real \<Rightarrow> double" where
  "real_pow a b =
     (if b = 0 then Real 1
      else if a > 0 then Real (a powr b)
      else if a = 0 then (if b > 0 then Real 0 else Infinity)
      else if of_int \<lfloor>b\<rfloor> \<noteq> b then NaN
      else if even \<lfloor>b\<rfloor> then Real (\<bar>a\<bar> powr b)
      else Real (- (\<bar>a\<bar> powr b)))"

text \<open>The other cases of \<open>pow\<close>, as annex F of the C standard lists them.\<close>

fun dpow :: "double \<Rightarrow> double \<Rightarrow> double" where
  "dpow (Real a) (Real b) = real_pow a b"
| "dpow (Real a) Infinity =
     (if \<bar>a\<bar> < 1 then Real 0 else if \<bar>a\<bar> = 1 then Real 1 else Infinity)"
| "dpow (Real a) Minus_Infinity =
     (if \<bar>a\<bar> < 1 then Infinity else if \<bar>a\<bar> = 1 then Real 1 else Real 0)"
| "dpow (Real a) NaN = (if a = 1 then Real 1 else NaN)"
| "dpow Infinity (Real b) = (if b = 0 then Real 1 else if b < 0 then Real 0 else Infinity)"
| "dpow Minus_Infinity (Real b) =
     (if b = 0 then Real 1 else if b < 0 then Real 0
      else if of_int \<lfloor>b\<rfloor> = b \<and> odd \<lfloor>b\<rfloor> then Minus_Infinity else Infinity)"
| "dpow NaN (Real b) = (if b = 0 then Real 1 else NaN)"
| "dpow x NaN = NaN"
| "dpow NaN y = NaN"
| "dpow x Infinity = Infinity"
| "dpow x Minus_Infinity = Real 0"

section \<open>NAN and INFINITY helpers\<close>

definition coco_is_nan :: "double \<Rightarrow> bool" where
  "coco_is_nan x \<longleftrightarrow> x = NaN"

definition coco_vector_contains_nan :: "double list \<Rightarrow> bool" where
  "coco_vector_contains_nan x \<longleftrightarrow> list_ex coco_is_nan x"

definition coco_vector_set_to_nan :: "nat \<Rightarrow> double list" where
  "coco_vector_set_to_nan n = replicate n NaN"

definition coco_is_inf :: "double \<Rightarrow> bool" where
  "coco_is_inf x \<longleftrightarrow> (if coco_is_nan x then False else x \<le> Minus_Infinity \<or> Infinity \<le> x)"

definition coco_vector_isfinite :: "double list \<Rightarrow> bool" where
  "coco_vector_isfinite x \<longleftrightarrow> \<not> list_ex (\<lambda>v. coco_is_nan v \<or> coco_is_inf v) x"

text \<open>\<open>coco_double_almost_equal\<close>, \<open>coco_double_max\<close>, \<open>coco_double_min\<close> and \<open>coco_double_round\<close> on all doubles.\<close>

definition almost_equal :: "double \<Rightarrow> double \<Rightarrow> double \<Rightarrow> bool" where
  "almost_equal a b precision \<longleftrightarrow> \<bar>a - b\<bar> < precision"

definition dmax :: "double \<Rightarrow> double \<Rightarrow> double" where
  "dmax a b = (if b \<le> a then a else b)"

definition dmin :: "double \<Rightarrow> double \<Rightarrow> double" where
  "dmin a b = (if a \<le> b then a else b)"

definition dround :: "double \<Rightarrow> double" where
  "dround x = dfloor (x + Real (1 / 2))"

definition vector_is_zero :: "double list \<Rightarrow> bool" where
  "vector_is_zero x \<longleftrightarrow>
     \<not> coco_vector_contains_nan x \<and> list_all (\<lambda>v. almost_equal v (Real 0) (Real chosen_precision)) x"

text \<open>The loop \<open>for (i = ...) result += term(i)\<close>.\<close>

definition accumulate :: "double \<Rightarrow> nat list \<Rightarrow> (nat \<Rightarrow> double) \<Rightarrow> double" where
  "accumulate result is term = foldl (\<lambda>r i. r + term i) result is"

text \<open>The matrix \<open>M\<close> is stored row by row in a vector.\<close>

definition coco_is_orthogonal :: "double list \<Rightarrow> nat \<Rightarrow> nat \<Rightarrow> bool" where
  "coco_is_orthogonal M nb_rows nb_columns \<longleftrightarrow>
     nb_rows = nb_columns \<and>
     list_all (\<lambda>i. list_all (\<lambda>j.
       let sum = accumulate (Real 0) [0..<nb_rows] (\<lambda>z. M ! (i * nb_rows + z) * M ! (j * nb_rows + z))
       in \<not> ((i = j \<and> \<not> almost_equal sum (Real 1) (Real chosen_precision))
             \<or> (i \<noteq> j \<and> \<not> almost_equal sum (Real 0) (Real chosen_precision))))
       [0..<nb_rows]) [0..<nb_rows]"

definition DBL_MAX :: real where
  "DBL_MAX = (2 - 1 / 2 ^ 52) * 2 ^ 1023"

definition FLT_MAX :: real where
  "FLT_MAX = (2 - 1 / 2 ^ 23) * 2 ^ 127"

section \<open>Facts about finite values\<close>

lemma minus_Real [simp]: "Real a - Real b = Real (a - b)"
  by (simp add: minus_double_def)

lemma less_eq_Real [simp]: "Real a \<le> Real b \<longleftrightarrow> a \<le> b"
  by (auto simp: less_eq_double_def)

lemma equal_to_Real [simp]: "equal_to (Real a) (Real b) \<longleftrightarrow> a = b"
  by (simp add: equal_to_def)

lemma not_equal_Real [simp]: "not_equal (Real a) (Real b) \<longleftrightarrow> a \<noteq> b"
  by (simp add: not_equal_def)

lemma almost_equal_Real [simp]: "almost_equal (Real a) (Real b) (Real p) \<longleftrightarrow> \<bar>a - b\<bar> < p"
  by (simp add: almost_equal_def)

lemma dmax_Real [simp]: "dmax (Real a) (Real b) = Real (max a b)"
  by (simp add: dmax_def max_def)

lemma dmin_Real [simp]: "dmin (Real a) (Real b) = Real (min a b)"
  by (simp add: dmin_def min_def)

lemma dround_Real [simp]: "dround (Real a) = Real (coco_double_round a)"
  by (simp add: dround_def coco_double_round_def)

lemma real_pow_pos [simp]: "a > 0 \<Longrightarrow> real_pow a b = Real (a powr b)"
  by (simp add: real_pow_def)

lemma real_pow_nonneg: "a \<ge> 0 \<Longrightarrow> b > 0 \<Longrightarrow> real_pow a b = Real (a powr b)"
  by (cases "a = 0") (simp_all add: real_pow_def)

lemma is_nan_Real [simp]: "\<not> coco_is_nan (Real a)"
  by (simp add: coco_is_nan_def)

lemma is_inf_Real [simp]: "\<not> coco_is_inf (Real a)"
  by (simp add: coco_is_inf_def less_eq_double_def)

lemma is_inf_iff: "coco_is_inf x \<longleftrightarrow> x = Infinity \<or> x = Minus_Infinity"
  by (cases x) (auto simp: coco_is_inf_def coco_is_nan_def less_eq_double_def)

lemma contains_nan_Real [simp]: "\<not> coco_vector_contains_nan (map Real x)"
  by (simp add: coco_vector_contains_nan_def list_ex_iff)

lemma isfinite_Real [simp]: "coco_vector_isfinite (map Real x)"
  by (simp add: coco_vector_isfinite_def list_ex_iff)

lemma isfinite_iff: "coco_vector_isfinite x \<longleftrightarrow> (\<exists>r. x = map Real r)"
proof
  assume x: "coco_vector_isfinite x"
  have "v \<in> set x \<Longrightarrow> \<exists>a. v = Real a" for v
    using x by (cases v) (auto simp: coco_vector_isfinite_def list_ex_iff coco_is_nan_def is_inf_iff)
  then have "\<forall>v \<in> set x. v \<in> range Real" by auto
  then have "\<exists>r. x = map Real r" by (induction x) (auto simp: Cons_eq_map_conv)
  then show "\<exists>r. x = map Real r" .
qed auto

lemma accumulate_Real:
  "(\<And>i. i \<in> set is \<Longrightarrow> term i = Real (t i)) \<Longrightarrow>
     accumulate (Real r) is term = Real (r + (\<Sum>i \<leftarrow> is. t i))"
  by (induction "is" arbitrary: r) (simp_all add: accumulate_def add.assoc)

lemma accumulate_upt:
  "(\<And>i. a \<le> i \<Longrightarrow> i < n \<Longrightarrow> term i = Real (t i)) \<Longrightarrow>
     accumulate (Real r) [a..<n] term = Real (r + (\<Sum>i = a..<n. t i))"
  by (subst accumulate_Real [where t = t]) (simp_all add: interv_sum_list_conv_sum_set_nat)

end
