(* ===== verification/Coco_Legacy.thy ===== *)
theory Coco_Legacy
  imports Coco_Double Coco_Problem_Calls
begin

text \<open>
  The random instances of the bbob functions, \<open>suite_bbob_legacy_code.c\<close>: the uniform generator of
  2009 (a minimal standard generator with a shuffling table), Gaussian numbers, rotation matrices,
  optimal points and optimal values. \<open>long\<close> is modelled by the integers: the lemmas bound every
  value for the seeds of the suites. \<open>(int) floor((double) a / (double) b)\<close> is the integer division.
  The constant \<open>coco_pi\<close> stands for \<open>pi\<close>.
\<close>

section \<open>Uniform numbers\<close>

definition lcg_step :: "int \<Rightarrow> int" where
  "lcg_step aktseed =
     (let tmp = aktseed div 127773;
          aktseed = 16807 * (aktseed - tmp * 127773) - 2836 * tmp
      in if aktseed < 0 then aktseed + 2147483647 else aktseed)"

text \<open>The first loop, for \<open>i\<close> from 39 down to 0: the last 32 states fill the table.\<close>

fun fill_table :: "nat list \<Rightarrow> int \<Rightarrow> int list \<Rightarrow> int \<times> int list" where
  "fill_table [] aktseed rgrand = (aktseed, rgrand)"
| "fill_table (i # is) aktseed rgrand =
     (let aktseed = lcg_step aktseed
      in fill_table is aktseed (if i < 32 then rgrand[i := aktseed] else rgrand))"

fun unif_loop :: "nat \<Rightarrow> int \<Rightarrow> int \<Rightarrow> int list \<Rightarrow> real list result" where
  "unif_loop 0 aktseed aktrand rgrand = Inr []"
| "unif_loop (Suc n) aktseed aktrand rgrand =
     (let aktseed = lcg_step aktseed;
          tmp = aktrand div 67108865
      in if tmp < 0 then Inl Out_of_bounds
         else rbind (rnth rgrand (nat tmp)) (\<lambda>aktrand.
           let r = of_int aktrand / 2147483647;
               r = (if r = 0 then 1 / 10 ^ 99 else r)
           in rbind (unif_loop n aktseed aktrand (rgrand[nat tmp := aktseed])) (\<lambda>rs. Inr (r # rs))))"

definition bbob2009_unif :: "nat \<Rightarrow> int \<Rightarrow> real list result" where
  "bbob2009_unif N inseed =
     (let inseed = (if inseed < 0 then - inseed else inseed);
          inseed = (if inseed < 1 then 1 else inseed);
          (aktseed, rgrand) = fill_table (rev [0..<40]) inseed (replicate 32 0)
      in unif_loop N aktseed (rgrand ! 0) rgrand)"

section \<open>Gaussian numbers and rotations\<close>

definition bbob2009_gauss :: "nat \<Rightarrow> int \<Rightarrow> double list result" where
  "bbob2009_gauss N seed =
     (if \<not> 2 * N < 6000 then Inl (Assert_failed ''bbob2009_gauss'')
      else rbind (bbob2009_unif (2 * N) seed) (\<lambda>uniftmp.
        Inr (map (\<lambda>i.
          let g = dsqrt (Real (- 2) * dlog (Real (uniftmp ! i))) * dcos (Real (2 * pi * uniftmp ! (N + i)))
          in if equal_to g (Real 0) then Real (1 / 10 ^ 99) else g) [0..<N])))"

text \<open>
  A square matrix \<open>B\<close> of the rotation code is the list of its columns: the code orthonormalizes the
  columns one after the other, and \<open>bbob2009_reshape\<close> reads them one after the other from the vector.
\<close>

definition bbob2009_reshape :: "double list \<Rightarrow> nat \<Rightarrow> nat \<Rightarrow> double list list" where
  "bbob2009_reshape vector m n = map (\<lambda>j. map (\<lambda>i. vector ! (j * m + i)) [0..<m]) [0..<n]"

definition column_product :: "double list \<Rightarrow> double list \<Rightarrow> double" where
  "column_product c d = accumulate (Real 0) [0..<length c] (\<lambda>k. c ! k * d ! k)"

fun subtract_projections :: "double list \<Rightarrow> double list list \<Rightarrow> double list" where
  "subtract_projections c [] = c"
| "subtract_projections c (d # ds) =
     (let prod = column_product c d
      in subtract_projections (map (\<lambda>k. c ! k - prod * d ! k) [0..<length c]) ds)"

definition normalize_column :: "double list \<Rightarrow> double list" where
  "normalize_column c = (let prod = column_product c c in map (\<lambda>v. ddiv v (dsqrt prod)) c)"

fun orthonormalize :: "double list list \<Rightarrow> double list list \<Rightarrow> double list list" where
  "orthonormalize finished [] = finished"
| "orthonormalize finished (c # cs) =
     orthonormalize (finished @ [normalize_column (subtract_projections c finished)]) cs"

definition bbob2009_compute_rotation :: "int \<Rightarrow> nat \<Rightarrow> double list list result" where
  "bbob2009_compute_rotation seed n =
     (if \<not> n * n < 2000 then Inl (Assert_failed ''bbob2009_compute_rotation'')
      else rbind (bbob2009_gauss (n * n) seed) (\<lambda>gvect.
        Inr (orthonormalize [] (bbob2009_reshape gvect n n))))"

text \<open>\<open>rot[row][column]\<close>, and the copy into a matrix stored row by row with a zero vector \<open>b\<close>.\<close>

definition entry :: "double list list \<Rightarrow> nat \<Rightarrow> nat \<Rightarrow> double" where
  "entry rot row column = rot ! column ! row"

definition bbob2009_copy_rotation_matrix ::
    "double list list \<Rightarrow> nat \<Rightarrow> double list \<times> double list" where
  "bbob2009_copy_rotation_matrix rot n =
     (concat (map (\<lambda>row. map (\<lambda>column. entry rot row column) [0..<n]) [0..<n]), replicate n (Real 0))"

section \<open>Optimal points and values\<close>

definition bbob2009_compute_xopt :: "int \<Rightarrow> nat \<Rightarrow> real list result" where
  "bbob2009_compute_xopt seed n =
     rbind (bbob2009_unif n seed) (\<lambda>xopt.
       Inr (map (\<lambda>v.
         let v = 8 * of_int \<lfloor>10 ^ 4 * v\<rfloor> / 10 ^ 4 - 4 in if v = 0 then - (1 / 10 ^ 5) else v) xopt))"

definition bbob2009_fmin :: "double \<Rightarrow> double \<Rightarrow> double" where
  "bbob2009_fmin a b = (if a < b then a else b)"

definition bbob2009_fmax :: "double \<Rightarrow> double \<Rightarrow> double" where
  "bbob2009_fmax a b = (if b < a then a else b)"

definition bbob2009_round :: "double \<Rightarrow> double" where
  "bbob2009_round x = dfloor (x + Real (1 / 2))"

definition fopt_seed :: "nat \<Rightarrow> int" where
  "fopt_seed function =
     (if function = 4 then 3
      else if function = 18 then 17
      else if function \<in> {101, 102, 103, 107, 108, 109} then 1
      else if function \<in> {104, 105, 106, 110, 111, 112} then 8
      else if function \<in> {113, 114, 115} then 7
      else if function \<in> {116, 117, 118} then 10
      else if function \<in> {119, 120, 121} then 14
      else if function \<in> {122, 123, 124} then 17
      else if function \<in> {125, 126, 127} then 19
      else if function \<in> {128, 129, 130} then 21
      else to_long function)"

definition bbob2009_compute_fopt :: "nat \<Rightarrow> nat \<Rightarrow> double result" where
  "bbob2009_compute_fopt function inst =
     (let rrseed = fopt_seed function + to_long (size_t (10000 * inst)) in
        rbind (bbob2009_gauss 1 rrseed) (\<lambda>gval.
        rbind (bbob2009_gauss 1 (rrseed + 1)) (\<lambda>gval2.
          Inr (bbob2009_fmin (Real 1000) (bbob2009_fmax (Real (- 1000))
            (ddiv (bbob2009_round (ddiv (Real 100 * Real 100 * gval ! 0) (gval2 ! 0))) (Real 100)))))))"

section \<open>The uniform numbers\<close>

text \<open>
  The reference: the minimal standard generator, multiplication by 16807 modulo \<open>2 ^ 31 - 1\<close>.
\<close>

definition modulus :: int where
  "modulus = 2147483647"

definition minimal_standard :: "int \<Rightarrow> nat \<Rightarrow> int" where
  "minimal_standard seed k = 16807 ^ k * seed mod modulus"

lemma minimal_standard_Suc: "minimal_standard seed (Suc k) = 16807 * minimal_standard seed k mod modulus"
  by (simp add: minimal_standard_def mod_mult_right_eq ac_simps)

lemma lcg_step_mod:
  assumes "0 < a" "a < modulus"
  shows "lcg_step a = 16807 * a mod modulus"
proof -
  define t where "t = a div 127773"
  define r where "r = a mod 127773"
  define v where "v = 16807 * r - 2836 * t"
  have a: "a = 127773 * t + r" and r: "0 \<le> r" "r < 127773" by (simp_all add: t_def r_def)
  have t: "0 \<le> t" "t \<le> 16807" using assms a r by (simp_all add: modulus_def)
  have v: "- modulus < v" "v < modulus" using r t by (simp_all add: v_def modulus_def)
  have "16807 * a = v + t * modulus" by (simp add: a v_def modulus_def algebra_simps)
  then have m: "16807 * a mod modulus = v mod modulus" by simp
  have step: "lcg_step a = (if v < 0 then v + modulus else v)"
    unfolding lcg_step_def Let_def t_def [symmetric] by (simp add: v_def modulus_def a algebra_simps)
  show ?thesis
  proof (cases "v < 0")
    case True
    have "v mod modulus = (v + modulus) mod modulus" by simp
    also have "\<dots> = v + modulus" using True v by (intro mod_pos_pos_trivial) auto
    finally show ?thesis using True m step by simp
  next
    case False
    then have "v mod modulus = v" using v by (intro mod_pos_pos_trivial) auto
    then show ?thesis using False m step by simp
  qed
qed

text \<open>16807 has an inverse modulo \<open>2 ^ 31 - 1\<close>, so no state but 0 is followed by 0.\<close>

lemma modulus_inverse: "16807 * 1407677000 = (11017 :: int) * modulus + 1"
  by (simp add: modulus_def)

lemma lcg_step_range:
  assumes "0 < a" "a < modulus"
  shows "0 < lcg_step a \<and> lcg_step a < modulus"
proof -
  have m: "modulus > 0" by (simp add: modulus_def)
  have "16807 * a mod modulus \<noteq> 0"
  proof
    assume "16807 * a mod modulus = 0"
    then have "modulus dvd 16807 * a" by (simp only: mod_eq_0_iff_dvd)
    then have "modulus dvd 1407677000 * (16807 * a)" by (rule dvd_mult)
    moreover have "1407677000 * (16807 * a) = modulus * (11017 * a) + a"
      using modulus_inverse by (simp add: algebra_simps modulus_def)
    ultimately have "modulus dvd a" by (metis dvd_add_right_iff dvd_triv_left)
    then show False using assms by (auto dest: zdvd_imp_le)
  qed
  then show ?thesis
    using m pos_mod_sign [of modulus "16807 * a"] pos_mod_bound [of modulus "16807 * a"]
    unfolding lcg_step_mod [OF assms] by linarith
qed

lemma fill_table_states:
  assumes "0 < a" "a < modulus" "\<forall>i \<in> set is. i < 40"
    and "length t = 32" "fill_table is a t = (a', t')"
  shows "0 < a' \<and> a' < modulus \<and> length t' = 32
    \<and> (\<forall>i < 32. if i \<in> set is then 0 < t' ! i \<and> t' ! i < modulus else t' ! i = t ! i)"
  using assms
proof (induction "is" arbitrary: a t)
  case (Cons i "is")
  let ?a = "lcg_step a"
  have a: "0 < ?a" "?a < modulus" using lcg_step_range Cons.prems by auto
  have "fill_table is ?a (if i < 32 then t[i := ?a] else t) = (a', t')"
    using Cons.prems(5) by (simp add: Let_def)
  from Cons.IH [OF a _ _ this] Cons.prems(3,4)
  have IH: "0 < a'" "a' < modulus" "length t' = 32" and
    "\<And>j. j < 32 \<Longrightarrow> if j \<in> set is then 0 < t' ! j \<and> t' ! j < modulus
       else t' ! j = (if i < 32 then t[i := ?a] else t) ! j"
    by auto
  then have "j < 32 \<Longrightarrow> if j \<in> set (i # is) then 0 < t' ! j \<and> t' ! j < modulus else t' ! j = t ! j" for j
    using a Cons.prems(4) by (cases "j = i") (fastforce split: if_splits)+
  with IH show ?case by blast
qed simp

lemma unif_loop_ok:
  assumes "0 < a" "a < modulus" "0 < b" "b < modulus"
    and "length t = 32" "\<forall>v \<in> set t. 0 < v \<and> v < modulus"
  shows "\<exists>r. unif_loop n a b t = Inr r \<and> length r = n \<and> (\<forall>v \<in> set r. 0 < v \<and> v < 1)"
  using assms
proof (induction n arbitrary: a b t)
  case (Suc n)
  let ?a = "lcg_step a" and ?i = "b div 67108865"
  have a: "0 < ?a" "?a < modulus" using lcg_step_range Suc.prems by auto
  have i: "0 \<le> ?i" "nat ?i < 32"
    using Suc.prems(3,4) by (auto simp: modulus_def pos_imp_zdiv_nonneg_iff nat_less_iff)
  let ?b = "t ! nat ?i"
  have b: "0 < ?b" "?b < modulus" using Suc.prems(5,6) i by (auto simp: nth_mem)
  have "\<forall>v \<in> set (t[nat ?i := ?a]). 0 < v \<and> v < modulus"
    using Suc.prems(6) a set_update_subset_insert [of t "nat ?i" ?a] by auto
  from Suc.IH [OF a b _ this] Suc.prems(5) obtain r where
    r: "unif_loop n ?a ?b (t[nat ?i := ?a]) = Inr r" "length r = n" "\<forall>v \<in> set r. 0 < v \<and> v < 1"
    by auto
  have "(of_int ?b :: real) / 2147483647 \<noteq> 0" using b by simp
  moreover have "0 < (of_int ?b :: real) / 2147483647" using b by simp
  moreover have "(of_int ?b :: real) / 2147483647 < 1"
    using b by (simp add: modulus_def)
  ultimately show ?case using i r Suc.prems(5) by (simp add: Let_def)
qed simp

text \<open>The seeds for which the generator stays in its range.\<close>

definition seed_ok :: "int \<Rightarrow> bool" where
  "seed_ok seed \<longleftrightarrow> \<bar>seed\<bar> < modulus"

lemma bbob2009_unif_ok:
  assumes "seed_ok seed"
  shows "\<exists>r. bbob2009_unif N seed = Inr r \<and> length r = N \<and> (\<forall>v \<in> set r. 0 < v \<and> v < 1)"
proof -
  define s where "s = (if \<bar>seed\<bar> < 1 then 1 else \<bar>seed\<bar>)"
  have s: "0 < s" "s < modulus" using assms by (auto simp: s_def seed_ok_def modulus_def)
  obtain a t where t: "fill_table (rev [0..<40]) s (replicate 32 0) = (a, t)" by fastforce
  from fill_table_states [OF s _ _ this]
  have *: "0 < a" "a < modulus" "length t = 32" "\<forall>i < 32. 0 < t ! i \<and> t ! i < modulus"
    by (auto split: if_splits)
  then have "\<forall>v \<in> set t. 0 < v \<and> v < modulus" by (auto simp: in_set_conv_nth)
  moreover have "0 < t ! 0" "t ! 0 < modulus" using * by auto
  ultimately have "\<exists>r. unif_loop N a (t ! 0) t = Inr r \<and> length r = N \<and> (\<forall>v \<in> set r. 0 < v \<and> v < 1)"
    using * by (intro unif_loop_ok) auto
  moreover have "(if (if seed < 0 then - seed else seed) < 1 then 1
      else (if seed < 0 then - seed else seed)) = s"
    by (auto simp: s_def)
  ultimately show ?thesis using t by (simp add: bbob2009_unif_def Let_def)
qed

end
