(* ===== verification/Coco_Raw_Functions.thy ===== *)
theory Coco_Raw_Functions
  imports Coco_Legacy
begin

text \<open>
  The objective functions of the bbob suite "without connections to any COCO structures" (the
  \<open>f_*_raw\<close> functions of \<open>f_*.c\<close>) on arrays of doubles, and their values on finite arguments. The
  array \<open>x\<close> has at least \<open>n\<close> elements, \<open>n\<close> is the number of variables.
\<close>

section \<open>The functions\<close>

text \<open>\<open>(double) (long) i / ((double) (long) number_of_variables - 1.0)\<close>: not a number for one variable.\<close>

definition position_ratio :: "nat \<Rightarrow> nat \<Rightarrow> double" where
  "position_ratio i n = ddiv (Real (real i)) (Real (real n) - Real 1)"

definition f_sphere_raw :: "double list \<Rightarrow> nat \<Rightarrow> double" where
  "f_sphere_raw x n =
     (if coco_vector_contains_nan (take n x) then NaN
      else accumulate (Real 0) [0..<n] (\<lambda>i. x ! i * x ! i))"

definition f_ellipsoid_raw :: "double list \<Rightarrow> nat \<Rightarrow> double" where
  "f_ellipsoid_raw x n =
     (if coco_vector_contains_nan (take n x) then NaN
      else accumulate (x ! 0 * x ! 0) [1..<n] (\<lambda>i.
        dpow (Real (10 ^ 6)) (position_ratio i n) * x ! i * x ! i))"

definition f_rastrigin_raw :: "double list \<Rightarrow> nat \<Rightarrow> double" where
  "f_rastrigin_raw x n =
     (if coco_vector_contains_nan (take n x) then NaN
      else
        let sum1 = accumulate (Real 0) [0..<n] (\<lambda>i. dcos (Real (2 * pi) * x ! i));
            sum2 = accumulate (Real 0) [0..<n] (\<lambda>i. x ! i * x ! i)
        in if coco_is_inf sum2 then sum2 else Real 10 * (Real (real n) - sum1) + sum2)"

definition f_bueche_rastrigin_raw :: "double list \<Rightarrow> nat \<Rightarrow> double" where
  "f_bueche_rastrigin_raw x n =
     (if coco_vector_contains_nan (take n x) then NaN
      else
        let tmp = accumulate (Real 0) [0..<n] (\<lambda>i. dcos (Real (2 * pi) * x ! i));
            tmp2 = accumulate (Real 0) [0..<n] (\<lambda>i. x ! i * x ! i)
        in Real 10 * (Real (real n) - tmp) + tmp2 + Real 0)"

definition slope :: "nat \<Rightarrow> nat \<Rightarrow> double \<Rightarrow> double" where
  "slope i n best =
     (if Real 0 < best then dpow (dsqrt (Real 100)) (position_ratio i n)
      else - dpow (dsqrt (Real 100)) (position_ratio i n))"

definition f_linear_slope_raw :: "double list \<Rightarrow> nat \<Rightarrow> double list \<Rightarrow> double" where
  "f_linear_slope_raw x n best_parameter =
     (if coco_vector_contains_nan (take n x) then NaN
      else accumulate (Real 0) [0..<n] (\<lambda>i.
        let si = slope i n (best_parameter ! i) in
        if x ! i * best_parameter ! i < Real 25
        then Real 5 * \<bar>si\<bar> - si * x ! i
        else Real 5 * \<bar>si\<bar> - si * best_parameter ! i))"

definition f_attractive_sector_raw :: "double list \<Rightarrow> nat \<Rightarrow> double list \<Rightarrow> double" where
  "f_attractive_sector_raw x n xopt =
     (if coco_vector_contains_nan (take n x) then NaN
      else accumulate (Real 0) [0..<n] (\<lambda>i.
        if Real 0 < xopt ! i * x ! i then Real 100 * Real 100 * x ! i * x ! i else x ! i * x ! i))"

definition f_rosenbrock_raw :: "double list \<Rightarrow> nat \<Rightarrow> double result" where
  "f_rosenbrock_raw x n =
     (if \<not> n > 1 then Inl (Assert_failed ''f_rosenbrock_raw'')
      else if coco_vector_contains_nan (take n x) then Inr NaN
      else
        let s1 = accumulate (Real 0) [0..<n - 1] (\<lambda>i.
              let tmp = x ! i * x ! i - x ! (i + 1) in tmp * tmp);
            s2 = accumulate (Real 0) [0..<n - 1] (\<lambda>i. let tmp = x ! i - Real 1 in tmp * tmp)
        in Inr (Real 100 * s1 + s2))"

definition f_discus_raw :: "double list \<Rightarrow> nat \<Rightarrow> double" where
  "f_discus_raw x n =
     (if coco_vector_contains_nan (take n x) then NaN
      else accumulate (Real (10 ^ 6) * x ! 0 * x ! 0) [1..<n] (\<lambda>i. x ! i * x ! i))"

definition f_bent_cigar_raw :: "double list \<Rightarrow> nat \<Rightarrow> double" where
  "f_bent_cigar_raw x n =
     (if coco_vector_contains_nan (take n x) then NaN
      else accumulate (x ! 0 * x ! 0) [1..<n] (\<lambda>i. Real (10 ^ 6) * x ! i * x ! i))"

text \<open>\<open>vars_40\<close> is the constant 1.\<close>

definition f_sharp_ridge_raw :: "double list \<Rightarrow> nat \<Rightarrow> double result" where
  "f_sharp_ridge_raw x n =
     (if \<not> n > 1 then Inl (Assert_failed ''f_sharp_ridge_raw'')
      else if coco_vector_contains_nan (take n x) then Inr NaN
      else
        let vars_40 = Real 1;
            result = accumulate (Real 0) [1..<n] (\<lambda>i. x ! i * x ! i);
            result = Real 100 * dsqrt (ddiv result vars_40)
        in Inr (accumulate result [0..<1] (\<lambda>i. ddiv (x ! i * x ! i) vars_40)))"

definition f_different_powers_raw :: "double list \<Rightarrow> nat \<Rightarrow> double" where
  "f_different_powers_raw x n =
     (if coco_vector_contains_nan (take n x) then NaN
      else dsqrt (accumulate (Real 0) [0..<n] (\<lambda>i.
        dpow \<bar>x ! i\<bar> (Real 2 + ddiv (Real 4 * Real (real i)) (Real (real n) - Real 1)))))"

text \<open>The data of the Weierstrass function: \<open>f0\<close>, \<open>ak\<close> and \<open>bk\<close>.\<close>

definition F_WEIERSTRASS_SUMMANDS :: nat where
  "F_WEIERSTRASS_SUMMANDS = 12"

type_synonym f_weierstrass_data = "double \<times> double list \<times> double list"

definition f_weierstrass_raw :: "double list \<Rightarrow> nat \<Rightarrow> f_weierstrass_data \<Rightarrow> double" where
  "f_weierstrass_raw x n data =
     (if coco_vector_contains_nan (take n x) then NaN
      else
        let (f0, ak, bk) = data;
            result = foldl (\<lambda>result i. accumulate result [0..<F_WEIERSTRASS_SUMMANDS] (\<lambda>j.
              dcos (Real (2 * pi) * (x ! i + Real (1 / 2)) * bk ! j) * ak ! j)) (Real 0) [0..<n]
        in Real 10 * dpow (ddiv result (Real (real n)) - f0) (Real 3))"

fun schaffers_loop :: "nat list \<Rightarrow> double list \<Rightarrow> double \<Rightarrow> double + double" where
  "schaffers_loop [] x result = Inr result"
| "schaffers_loop (i # is) x result =
     (let tmp = x ! i * x ! i + x ! (i + 1) * x ! (i + 1) in
      if coco_is_inf tmp \<and> coco_is_nan (dsin (Real 50 * dpow tmp (Real (1 / 10)))) then Inl tmp
      else schaffers_loop is x (result + dpow tmp (Real (1 / 4))
        * (Real 1 + dpow (dsin (Real 50 * dpow tmp (Real (1 / 10)))) (Real 2))))"

definition f_schaffers_raw :: "double list \<Rightarrow> nat \<Rightarrow> double result" where
  "f_schaffers_raw x n =
     (if \<not> n > 1 then Inl (Assert_failed ''f_schaffers_raw'')
      else if coco_vector_contains_nan (take n x) then Inr NaN
      else case schaffers_loop [0..<n - 1] x (Real 0) of
        Inl tmp \<Rightarrow> Inr tmp
      | Inr result \<Rightarrow> Inr (dpow (ddiv result (Real (real n) - Real 1)) (Real 2)))"

definition f_griewank_rosenbrock_raw :: "double list \<Rightarrow> nat \<Rightarrow> double" where
  "f_griewank_rosenbrock_raw x n =
     (if coco_vector_contains_nan (take n x) then NaN
      else
        let result = accumulate (Real 0) [0..<n - 1] (\<lambda>i.
              let c1 = x ! i * x ! i - x ! (i + 1); c2 = Real 1 - x ! i;
                  tmp = Real 100 * c1 * c1 + c2 * c2
              in ddiv tmp (Real 4000) - dcos tmp)
        in Real 10 + ddiv (Real 10 * result) (Real (real (n - 1))))"

definition katsuura_factor :: "double list \<Rightarrow> nat \<Rightarrow> nat \<Rightarrow> double" where
  "katsuura_factor x n i =
     (let tmp = accumulate (Real 0) [1..<33] (\<lambda>j.
            let tmp2 = dpow (Real 2) (Real (real j))
            in ddiv \<bar>tmp2 * x ! i - dround (tmp2 * x ! i)\<bar> tmp2);
          tmp = Real 1 + (Real (real i) + Real 1) * tmp
      in dpow tmp (ddiv (Real 10) (dpow (Real (real n)) (Real (12 / 10)))))"

definition f_katsuura_raw :: "double list \<Rightarrow> nat \<Rightarrow> double" where
  "f_katsuura_raw x n =
     (if coco_vector_contains_nan (take n x) then NaN
      else
        let result = foldl (\<lambda>result i. result * katsuura_factor x n i) (Real 1) [0..<n]
        in ddiv (ddiv (Real 10) (Real (real n))) (Real (real n)) * (Real (- 1) + result))"

text \<open>The number \<open>a\<close> of \<open>f_schwefel_raw\<close> is the constant 418.9828872724339.\<close>

definition f_schwefel_raw :: "double list \<Rightarrow> nat \<Rightarrow> double" where
  "f_schwefel_raw x n =
     (if coco_vector_contains_nan (take n x) then NaN
      else
        let penalty = accumulate (Real 0) [0..<n] (\<lambda>i.
              let tmp = \<bar>x ! i\<bar> - Real 500 in if Real 0 < tmp then tmp * tmp else Real 0);
            sum = accumulate (Real 0) [0..<n] (\<lambda>i. x ! i * dsin (dsqrt \<bar>x ! i\<bar>))
        in Real (1 / 100) * (penalty + Real (4189828872724339 / 10 ^ 13) - ddiv sum (Real (real n))))"

section \<open>Generalized functions\<close>

text \<open>
  The functions of the large-scale suite that treat the first \<open>1 / denom\<close> of the variables, rounded up,
  in the way the original functions treat the first one. They have no check for NaN, but the sharp ridge.
\<close>

definition number_of_axes :: "nat \<Rightarrow> nat \<Rightarrow> nat result" where
  "number_of_axes n denom =
     (if denom = 0 then Inl Div_by_zero else Inr (n div denom + (if n mod denom \<noteq> 0 then 1 else 0)))"

definition f_bent_cigar_generalized_raw :: "double list \<Rightarrow> nat \<Rightarrow> nat \<Rightarrow> double result" where
  "f_bent_cigar_generalized_raw x n proportion_long_axes_denom =
     rbind (number_of_axes n proportion_long_axes_denom) (\<lambda>nb_long_axes.
       let result = accumulate (Real 0) [0..<nb_long_axes] (\<lambda>i. x ! i * x ! i)
       in Inr (accumulate result [nb_long_axes..<n] (\<lambda>i. Real (10 ^ 6) * x ! i * x ! i)))"

definition f_discus_generalized_raw :: "double list \<Rightarrow> nat \<Rightarrow> nat \<Rightarrow> double result" where
  "f_discus_generalized_raw x n proportion_short_axes_denom =
     rbind (number_of_axes n proportion_short_axes_denom) (\<lambda>nb_short_axes.
       let result = accumulate (Real 0) [0..<nb_short_axes] (\<lambda>i. x ! i * x ! i) * Real (10 ^ 6)
       in Inr (accumulate result [nb_short_axes..<n] (\<lambda>i. x ! i * x ! i)))"

definition f_sharp_ridge_generalized_raw :: "double list \<Rightarrow> nat \<Rightarrow> nat \<Rightarrow> double result" where
  "f_sharp_ridge_generalized_raw x n proportion_of_linear_dims =
     (if \<not> n > 1 then Inl (Assert_failed ''f_sharp_ridge_generalized_raw'')
      else if coco_vector_contains_nan (take n x) then Inr NaN
      else rbind (number_of_axes n proportion_of_linear_dims) (\<lambda>number_linear_dimensions.
        let result = accumulate (Real 0) [number_linear_dimensions..<n] (\<lambda>i. x ! i * x ! i)
        in Inr (accumulate (Real 100 * dsqrt result) [0..<number_linear_dimensions] (\<lambda>i. x ! i * x ! i))))"

definition f_schwefel_generalized_raw :: "double list \<Rightarrow> nat \<Rightarrow> double" where
  "f_schwefel_generalized_raw x n =
     (let penalty = accumulate (Real 0) [0..<n] (\<lambda>i.
            let tmp = \<bar>x ! i\<bar> - Real 500 in if Real 0 < tmp then tmp * tmp else Real 0);
          sum = accumulate (Real 0) [0..<n] (\<lambda>i. x ! i * dsin (dsqrt \<bar>x ! i\<bar>))
      in Real (1 / 100) * (penalty + Real (4189828872724339 / 10 ^ 15) * Real 100 - ddiv sum (Real (real n))))"

section \<open>Functions with data of their own\<close>

text \<open>
  These functions contain their transformations. Rotations are lists of columns, read by \<open>entry\<close>; the
  other matrices are lists of rows. Scratch vectors in the data are left out.
\<close>

definition matrix_product :: "double list list \<Rightarrow> nat \<Rightarrow> nat \<Rightarrow> double list \<Rightarrow> double" where
  "matrix_product rot n i v = accumulate (Real 0) [0..<n] (\<lambda>j. entry rot i j * v ! j)"

definition boundary_penalty :: "nat \<Rightarrow> double list \<Rightarrow> double" where
  "boundary_penalty n x = accumulate (Real 0) [0..<n] (\<lambda>i.
     let tmp = \<bar>x ! i\<bar> - Real 5 in if Real 0 < tmp then tmp * tmp else Real 0)"

record f_gallagher_data =
  rotation :: "double list list"
  x_local :: "double list list"
  arr_scales :: "double list list"
  number_of_peaks :: nat
  peak_values :: "double list"

definition gallagher_peak :: "nat \<Rightarrow> f_gallagher_data \<Rightarrow> double list \<Rightarrow> nat \<Rightarrow> double" where
  "gallagher_peak n data tmx i =
     (let fac = ddiv (Real (- 1 / 2)) (Real (real n));
          tmp2 = accumulate (Real 0) [0..<n] (\<lambda>j.
            let tmp = tmx ! j - x_local data ! j ! i in arr_scales data ! i ! j * tmp * tmp)
      in peak_values data ! i * dexp (fac * tmp2))"

text \<open>The oscillation at the end; a value that is neither positive nor negative is kept.\<close>

definition gallagher_oscillate :: "double \<Rightarrow> double" where
  "gallagher_oscillate f =
     (let a = Real (1 / 10) in
      if Real 0 < f then
        let t = ddiv (dlog f) a in dpow (dexp (t + Real (49 / 100) * (dsin t + dsin (Real (79 / 100) * t)))) a
      else if f < Real 0 then
        let t = ddiv (dlog (- f)) a
        in - dpow (dexp (t + Real (49 / 100) * (dsin (Real (55 / 100) * t) + dsin (Real (31 / 100) * t)))) a
      else f)"

definition f_gallagher_raw :: "double list \<Rightarrow> nat \<Rightarrow> f_gallagher_data \<Rightarrow> double" where
  "f_gallagher_raw x n data =
     (if coco_vector_contains_nan (take n x) then NaN
      else
        let f_add = boundary_penalty n x;
            tmx = map (\<lambda>i. matrix_product (rotation data) n i x) [0..<n];
            f = foldl (\<lambda>f i. dmax f (gallagher_peak n data tmx i)) (Real 0) [0..<number_of_peaks data];
            f_true = gallagher_oscillate (Real 10 - f)
        in f_true * f_true + f_add)"

record f_step_ellipsoid_data =
  step_xopt :: "double list"
  step_fopt :: double
  step_rot1 :: "double list list"
  step_rot2 :: "double list list"

definition step_round :: "double \<Rightarrow> double" where
  "step_round v =
     (if Real (1 / 2) < \<bar>v\<bar> then dround v else ddiv (dround (Real 10 * v)) (Real 10))"

definition f_step_ellipsoid_raw :: "double list \<Rightarrow> nat \<Rightarrow> f_step_ellipsoid_data \<Rightarrow> double result" where
  "f_step_ellipsoid_raw x n data =
     (if \<not> n > 1 then Inl (Assert_failed ''f_step_ellipsoid_raw'')
      else if coco_vector_contains_nan (take n x) then Inr NaN
      else
        let penalty = boundary_penalty n x;
            v = map (\<lambda>i.
              let c1 = dsqrt (dpow (Real (100 / 10)) (ddiv (Real (real i)) (Real (real (n - 1)))))
              in accumulate (Real 0) [0..<n] (\<lambda>j. c1 * entry (step_rot2 data) i j * (x ! j - step_xopt data ! j)))
              [0..<n];
            x1 = v ! 0;
            v = map step_round v;
            xx = map (\<lambda>i. matrix_product (step_rot1 data) n i v) [0..<n];
            result = accumulate (Real 0) [0..<n] (\<lambda>i. dpow (Real 100) (position_ratio i n) * xx ! i * xx ! i)
        in Inr (Real (1 / 10) * dmax (\<bar>x1\<bar> * Real (1 / 10 ^ 4)) result + penalty + step_fopt data))"

record f_lunacek_bi_rastrigin_data =
  lunacek_xopt :: "double list"
  lunacek_rot1 :: "double list list"
  lunacek_rot2 :: "double list list"

definition f_lunacek_bi_rastrigin_raw ::
    "double list \<Rightarrow> nat \<Rightarrow> f_lunacek_bi_rastrigin_data \<Rightarrow> double result" where
  "f_lunacek_bi_rastrigin_raw x n data =
     (let mu0 = Real (5 / 2); d = Real 1;
          s = Real 1 - ddiv (Real (1 / 2)) (dsqrt (Real (real (n + 20))) - Real (41 / 10));
          mu1 = - dsqrt (ddiv (mu0 * mu0 - d) s)
      in
        if \<not> n > 1 then Inl (Assert_failed ''f_lunacek_bi_rastrigin_raw'')
        else if coco_vector_contains_nan (take n x) then Inr NaN
        else
          let penalty = boundary_penalty n x;
              x_hat = map (\<lambda>i.
                if lunacek_xopt data ! i < Real 0 then Real 2 * x ! i * Real (- 1) else Real 2 * x ! i) [0..<n];
              tmpvect = map (\<lambda>i.
                let c1 = dpow (dsqrt (Real 100)) (ddiv (Real (real i)) (Real (real (n - 1))))
                in accumulate (Real 0) [0..<n] (\<lambda>j. c1 * entry (lunacek_rot2 data) i j * (x_hat ! j - mu0))) [0..<n];
              z = map (\<lambda>i. matrix_product (lunacek_rot1 data) n i tmpvect) [0..<n];
              sum1 = accumulate (Real 0) [0..<n] (\<lambda>i. (x_hat ! i - mu0) * (x_hat ! i - mu0));
              sum2 = accumulate (Real 0) [0..<n] (\<lambda>i. (x_hat ! i - mu1) * (x_hat ! i - mu1));
              sum3 = accumulate (Real 0) [0..<n] (\<lambda>i. dcos (Real (2 * pi) * z ! i))
          in Inr (dmin sum1 (d * Real (real n) + s * sum2) + Real 10 * (Real (real n) - sum3)
            + Real (10 ^ 4) * penalty))"

end
