(* ===== verification/Coco_Raw_Values.thy ===== *)
theory Coco_Raw_Values
  imports Coco_Raw_Functions
begin

text \<open>
  The values of the raw functions on finite points as real functions, with their minima: every raw
  function is non-negative (from two variables on, where the code divides by \<open>n - 1\<close>) and 0 at the
  point that its allocator takes as the best parameter.
\<close>

section \<open>The real functions\<close>

definition sphere_value :: "real list \<Rightarrow> real" where
  "sphere_value x = (\<Sum>i = 0..<length x. x ! i * x ! i)"

definition ellipsoid_value :: "real list \<Rightarrow> real" where
  "ellipsoid_value x = x ! 0 * x ! 0
     + (\<Sum>i = 1..<length x. (10 ^ 6) powr (real i / (real (length x) - 1)) * x ! i * x ! i)"

definition rastrigin_value :: "real list \<Rightarrow> real" where
  "rastrigin_value x = 10 * (real (length x) - (\<Sum>i = 0..<length x. cos (2 * pi * x ! i))) + sphere_value x"

definition slope_value :: "real list \<Rightarrow> nat \<Rightarrow> real" where
  "slope_value best i = (if 0 < best ! i then 1 else - 1) * (sqrt 100 powr (real i / (real (length best) - 1)))"

definition linear_slope_value :: "real list \<Rightarrow> real list \<Rightarrow> real" where
  "linear_slope_value best x = (\<Sum>i = 0..<length x.
     if x ! i * best ! i < 25 then 5 * \<bar>slope_value best i\<bar> - slope_value best i * x ! i
     else 5 * \<bar>slope_value best i\<bar> - slope_value best i * best ! i)"

definition attractive_sector_value :: "real list \<Rightarrow> real list \<Rightarrow> real" where
  "attractive_sector_value xopt x = (\<Sum>i = 0..<length x.
     if 0 < xopt ! i * x ! i then 10000 * x ! i * x ! i else x ! i * x ! i)"

definition rosenbrock_value :: "real list \<Rightarrow> real" where
  "rosenbrock_value x =
     100 * (\<Sum>i = 0..<length x - 1. (x ! i * x ! i - x ! (i + 1)) * (x ! i * x ! i - x ! (i + 1)))
     + (\<Sum>i = 0..<length x - 1. (x ! i - 1) * (x ! i - 1))"

definition discus_value :: "real list \<Rightarrow> real" where
  "discus_value x = 10 ^ 6 * x ! 0 * x ! 0 + (\<Sum>i = 1..<length x. x ! i * x ! i)"

definition bent_cigar_value :: "real list \<Rightarrow> real" where
  "bent_cigar_value x = x ! 0 * x ! 0 + (\<Sum>i = 1..<length x. 10 ^ 6 * x ! i * x ! i)"

definition sharp_ridge_value :: "real list \<Rightarrow> real" where
  "sharp_ridge_value x = 100 * sqrt (\<Sum>i = 1..<length x. x ! i * x ! i) + x ! 0 * x ! 0"

definition different_powers_value :: "real list \<Rightarrow> real" where
  "different_powers_value x =
     sqrt (\<Sum>i = 0..<length x. \<bar>x ! i\<bar> powr (2 + 4 * real i / (real (length x) - 1)))"

definition schaffers_term :: "real list \<Rightarrow> nat \<Rightarrow> real" where
  "schaffers_term x i = (let tmp = x ! i * x ! i + x ! (i + 1) * x ! (i + 1) in
     tmp powr (1 / 4) * (1 + (sin (50 * tmp powr (1 / 10)))\<^sup>2))"

definition schaffers_value :: "real list \<Rightarrow> real" where
  "schaffers_value x = ((\<Sum>i = 0..<length x - 1. schaffers_term x i) / (real (length x) - 1)) powr 2"

definition griewank_term :: "real list \<Rightarrow> nat \<Rightarrow> real" where
  "griewank_term x i = (let c1 = x ! i * x ! i - x ! (i + 1); c2 = 1 - x ! i
     in 100 * c1 * c1 + c2 * c2)"

definition griewank_rosenbrock_value :: "real list \<Rightarrow> real" where
  "griewank_rosenbrock_value x = 10 + 10 * (\<Sum>i = 0..<length x - 1.
     griewank_term x i / 4000 - cos (griewank_term x i)) / real (length x - 1)"

section \<open>Agreement with the code\<close>

lemma take_all_Real: "length x = n \<Longrightarrow> \<not> coco_vector_contains_nan (take n (map Real x))"
  by simp

lemma sphere_raw: "f_sphere_raw (map Real x) (length x) = Real (sphere_value x)"
  by (simp add: f_sphere_raw_def sphere_value_def accumulate_upt [where t = "\<lambda>i. x ! i * x ! i"])

lemma ellipsoid_raw:
  assumes "2 \<le> length x"
  shows "f_ellipsoid_raw (map Real x) (length x) = Real (ellipsoid_value x)"
proof -
  have "x \<noteq> []" using assms by auto
  then show ?thesis using assms
    by (simp add: f_ellipsoid_raw_def ellipsoid_value_def position_ratio_def nth_map
        accumulate_upt [where t = "\<lambda>i. 1000000 powr (real i / (real (length x) - 1)) * x ! i * x ! i"])
qed

lemma cosine_sum:
  "accumulate (Real 0) [0..<length x] (\<lambda>i. dcos (Real (2 * pi) * map Real x ! i))
     = Real (0 + (\<Sum>i = 0..<length x. cos (2 * pi * x ! i)))"
  by (rule accumulate_upt) simp

lemma square_sum:
  "accumulate (Real 0) [0..<length x] (\<lambda>i. map Real x ! i * map Real x ! i) = Real (0 + sphere_value x)"
  unfolding sphere_value_def by (rule accumulate_upt) simp

lemma rastrigin_raw: "f_rastrigin_raw (map Real x) (length x) = Real (rastrigin_value x)"
  by (simp only: f_rastrigin_raw_def length_map take_all_Real cosine_sum square_sum Let_def if_False)
    (simp add: rastrigin_value_def)

lemma bueche_rastrigin_raw: "f_bueche_rastrigin_raw (map Real x) (length x) = Real (rastrigin_value x)"
  by (simp only: f_bueche_rastrigin_raw_def length_map take_all_Real cosine_sum square_sum Let_def if_False)
    (simp add: rastrigin_value_def)

lemma slope_Real:
  assumes "2 \<le> length best" "i < length best"
  shows "slope i (length best) (Real (best ! i)) = Real (slope_value best i)"
  using assms by (simp add: slope_def slope_value_def position_ratio_def)

lemma linear_slope_raw:
  assumes "length best = length x" "2 \<le> length x"
  shows "f_linear_slope_raw (map Real x) (length x) (map Real best) = Real (linear_slope_value best x)"
proof -
  have "slope i (length x) (map Real best ! i) = Real (slope_value best i)" if "i < length x" for i
    using slope_Real [of best i] assms that by simp
  then have "accumulate (Real 0) [0..<length x] (\<lambda>i.
        let si = slope i (length x) (map Real best ! i) in
        if map Real x ! i * map Real best ! i < Real 25
        then Real 5 * \<bar>si\<bar> - si * map Real x ! i
        else Real 5 * \<bar>si\<bar> - si * map Real best ! i)
      = Real (0 + linear_slope_value best x)"
    unfolding linear_slope_value_def by (intro accumulate_upt) (use assms in \<open>simp add: Let_def\<close>)
  then show ?thesis by (simp add: f_linear_slope_raw_def)
qed

lemma attractive_sector_raw:
  assumes "length xopt = length x"
  shows "f_attractive_sector_raw (map Real x) (length x) (map Real xopt) = Real (attractive_sector_value xopt x)"
proof -
  have "accumulate (Real 0) [0..<length x] (\<lambda>i.
        if Real 0 < map Real xopt ! i * map Real x ! i
        then Real 100 * Real 100 * map Real x ! i * map Real x ! i else map Real x ! i * map Real x ! i)
      = Real (0 + attractive_sector_value xopt x)"
    unfolding attractive_sector_value_def by (intro accumulate_upt) (use assms in simp)
  then show ?thesis by (simp add: f_attractive_sector_raw_def)
qed

lemma rosenbrock_raw:
  assumes "2 \<le> length x"
  shows "f_rosenbrock_raw (map Real x) (length x) = Inr (Real (rosenbrock_value x))"
proof -
  have 1: "accumulate (Real 0) [0..<length x - 1] (\<lambda>i.
      let tmp = map Real x ! i * map Real x ! i - map Real x ! (i + 1) in tmp * tmp)
    = Real (0 + (\<Sum>i = 0..<length x - 1. (x ! i * x ! i - x ! (i + 1)) * (x ! i * x ! i - x ! (i + 1))))"
    by (rule accumulate_upt) (simp add: Let_def)
  have 2: "accumulate (Real 0) [0..<length x - 1] (\<lambda>i. let tmp = map Real x ! i - Real 1 in tmp * tmp)
    = Real (0 + (\<Sum>i = 0..<length x - 1. (x ! i - 1) * (x ! i - 1)))"
    by (rule accumulate_upt) (simp add: Let_def)
  have "take (length x) (map Real x) = map Real x" by simp
  then have "f_rosenbrock_raw (map Real x) (length x)
      = Inr (Real 100 * Real (0 + (\<Sum>i = 0..<length x - 1. (x ! i * x ! i - x ! (i + 1)) * (x ! i * x ! i - x ! (i + 1))))
        + Real (0 + (\<Sum>i = 0..<length x - 1. (x ! i - 1) * (x ! i - 1))))"
    unfolding f_rosenbrock_raw_def 1 2 using assms by simp
  then show ?thesis by (simp add: rosenbrock_value_def)
qed

lemma discus_raw:
  assumes "0 < length x"
  shows "f_discus_raw (map Real x) (length x) = Real (discus_value x)"
  using assms
  by (simp add: f_discus_raw_def discus_value_def accumulate_upt [where t = "\<lambda>i. x ! i * x ! i"])

lemma bent_cigar_raw:
  assumes "0 < length x"
  shows "f_bent_cigar_raw (map Real x) (length x) = Real (bent_cigar_value x)"
  using assms
  by (simp add: f_bent_cigar_raw_def bent_cigar_value_def
      accumulate_upt [where t = "\<lambda>i. 1000000 * x ! i * x ! i"])

lemma sharp_ridge_raw:
  assumes "2 \<le> length x"
  shows "f_sharp_ridge_raw (map Real x) (length x) = Inr (Real (sharp_ridge_value x))"
proof -
  have "accumulate (Real 0) [1..<length x] (\<lambda>i. map Real x ! i * map Real x ! i)
      = Real (0 + (\<Sum>i = 1..<length x. x ! i * x ! i))"
    by (rule accumulate_upt) simp
  moreover have "0 \<le> (\<Sum>i = 1..<length x. x ! i * x ! i)" by (intro sum_nonneg) simp
  moreover have "x \<noteq> []" using assms by auto
  ultimately show ?thesis using assms
    by (simp add: f_sharp_ridge_raw_def sharp_ridge_value_def Let_def accumulate_def nth_map)
qed

lemma different_powers_raw:
  assumes "2 \<le> length x"
  shows "f_different_powers_raw (map Real x) (length x) = Real (different_powers_value x)"
proof -
  have "accumulate (Real 0) [0..<length x] (\<lambda>i.
      dpow \<bar>map Real x ! i\<bar> (Real 2 + ddiv (Real 4 * Real (real i)) (Real (real (length x)) - Real 1)))
    = Real (0 + (\<Sum>i = 0..<length x. \<bar>x ! i\<bar> powr (2 + 4 * real i / (real (length x) - 1))))"
  proof (rule accumulate_upt)
    fix i assume "i < length x"
    moreover have "0 < 2 + 4 * real i / (real (length x) - 1)" using assms by (simp add: add_pos_nonneg)
    ultimately show "dpow \<bar>map Real x ! i\<bar> (Real 2 + ddiv (Real 4 * Real (real i)) (Real (real (length x)) - Real 1))
        = Real (\<bar>x ! i\<bar> powr (2 + 4 * real i / (real (length x) - 1)))"
      using assms by (simp add: real_pow_nonneg)
  qed
  moreover have "0 \<le> (\<Sum>i = 0..<length x. \<bar>x ! i\<bar> powr (2 + 4 * real i / (real (length x) - 1)))"
    by (intro sum_nonneg) simp
  ultimately show ?thesis by (simp add: f_different_powers_raw_def different_powers_value_def)
qed

lemma real_pow_2: "real_pow a 2 = Real (a\<^sup>2)"
  by (auto simp: real_pow_def powr_numeral)

lemma schaffers_loop_Real:
  "\<forall>i \<in> set is. i + 1 < length x \<Longrightarrow>
     schaffers_loop is (map Real x) (Real r) = Inr (Real (r + (\<Sum>i \<leftarrow> is. schaffers_term x i)))"
proof (induction "is" arbitrary: r)
  case (Cons i "is")
  have "0 \<le> x ! i * x ! i + x ! (i + 1) * x ! (i + 1)" by simp
  then show ?case using Cons
    by (simp add: Let_def schaffers_term_def real_pow_nonneg real_pow_2 add.assoc)
qed simp

lemma schaffers_term_nonneg: "0 \<le> schaffers_term x i"
  by (simp add: schaffers_term_def Let_def)

lemma schaffers_raw:
  assumes "2 \<le> length x"
  shows "f_schaffers_raw (map Real x) (length x) = Inr (Real (schaffers_value x))"
proof -
  have "schaffers_loop [0..<length x - 1] (map Real x) (Real 0)
      = Inr (Real (0 + (\<Sum>i \<leftarrow> [0..<length x - 1]. schaffers_term x i)))"
    by (rule schaffers_loop_Real) auto
  moreover have "0 \<le> (\<Sum>i = 0..<length x - 1. schaffers_term x i) / (real (length x) - 1)"
    using assms by (intro divide_nonneg_nonneg sum_nonneg schaffers_term_nonneg) auto
  ultimately show ?thesis using assms
    by (simp add: f_schaffers_raw_def schaffers_value_def interv_sum_list_conv_sum_set_nat real_pow_nonneg)
qed

lemma griewank_rosenbrock_raw:
  assumes "2 \<le> length x"
  shows "f_griewank_rosenbrock_raw (map Real x) (length x) = Real (griewank_rosenbrock_value x)"
proof -
  have "accumulate (Real 0) [0..<length x - 1] (\<lambda>i.
      let c1 = map Real x ! i * map Real x ! i - map Real x ! (i + 1); c2 = Real 1 - map Real x ! i;
          tmp = Real 100 * c1 * c1 + c2 * c2
      in ddiv tmp (Real 4000) - dcos tmp)
    = Real (0 + (\<Sum>i = 0..<length x - 1. griewank_term x i / 4000 - cos (griewank_term x i)))"
    by (rule accumulate_upt) (simp add: Let_def griewank_term_def)
  then show ?thesis using assms
    by (simp add: f_griewank_rosenbrock_raw_def griewank_rosenbrock_value_def)
qed

section \<open>Minima\<close>

lemma raw_nonneg:
  "0 \<le> sphere_value x" "0 \<le> ellipsoid_value x" "0 \<le> attractive_sector_value xopt x"
  "0 \<le> rosenbrock_value x" "0 \<le> discus_value x" "0 \<le> bent_cigar_value x"
  "0 \<le> sharp_ridge_value x" "0 \<le> different_powers_value x" "0 \<le> schaffers_value x"
  unfolding sphere_value_def ellipsoid_value_def attractive_sector_value_def rosenbrock_value_def
    discus_value_def bent_cigar_value_def sharp_ridge_value_def different_powers_value_def
    schaffers_value_def
  by (auto intro!: sum_nonneg add_nonneg_nonneg simp: mult.assoc)

lemma rastrigin_nonneg: "0 \<le> rastrigin_value x"
proof -
  have "(\<Sum>i = 0..<length x. cos (2 * pi * x ! i)) \<le> (\<Sum>i = 0..<length x. 1)" by (intro sum_mono) simp
  then show ?thesis using raw_nonneg(1) [of x] by (simp add: rastrigin_value_def)
qed

lemma griewank_rosenbrock_nonneg:
  assumes "2 \<le> length x"
  shows "0 \<le> griewank_rosenbrock_value x"
proof -
  have "0 \<le> griewank_term x i" for i by (simp add: griewank_term_def Let_def mult.assoc)
  then have "- 1 \<le> griewank_term x i / 4000 - cos (griewank_term x i)" for i
    using cos_le_one [of "griewank_term x i"] by (smt (verit) divide_nonneg_nonneg)
  then have "(\<Sum>i = 0..<length x - 1. - 1) \<le> (\<Sum>i = 0..<length x - 1. griewank_term x i / 4000 - cos (griewank_term x i))"
    by (intro sum_mono)
  then have "- real (length x - 1) \<le> (\<Sum>i = 0..<length x - 1. griewank_term x i / 4000 - cos (griewank_term x i))"
    by simp
  then have "- 1 \<le> (\<Sum>i = 0..<length x - 1. griewank_term x i / 4000 - cos (griewank_term x i)) / real (length x - 1)"
    using assms by (simp add: field_simps)
  then show ?thesis by (simp add: griewank_rosenbrock_value_def)
qed

lemma linear_slope_nonneg:
  assumes "\<forall>v \<in> set best. v = 5 \<or> v = - 5" "length best = length x"
  shows "0 \<le> linear_slope_value best x"
  unfolding linear_slope_value_def
proof (rule sum_nonneg)
  fix i assume "i \<in> {0..<length x}"
  then have "best ! i = 5 \<or> best ! i = - 5" using assms by (auto simp: nth_mem)
  moreover have "0 \<le> a \<Longrightarrow> y \<le> 5 \<Longrightarrow> a * y \<le> 5 * a" for a y :: real
    by (metis mult.commute mult_right_mono)
  ultimately show "0 \<le> (if x ! i * best ! i < 25 then 5 * \<bar>slope_value best i\<bar> - slope_value best i * x ! i
      else 5 * \<bar>slope_value best i\<bar> - slope_value best i * best ! i)"
    by (auto simp: slope_value_def) (smt (verit) mult_minus_right powr_ge_zero)+
qed

lemma raw_minimum:
  "sphere_value (replicate n 0) = 0" "0 < n \<Longrightarrow> ellipsoid_value (replicate n 0) = 0"
  "rastrigin_value (replicate n 0) = 0" "length xopt = n \<Longrightarrow> attractive_sector_value xopt (replicate n 0) = 0"
  "rosenbrock_value (replicate n 1) = 0" "0 < n \<Longrightarrow> discus_value (replicate n 0) = 0"
  "0 < n \<Longrightarrow> bent_cigar_value (replicate n 0) = 0" "0 < n \<Longrightarrow> sharp_ridge_value (replicate n 0) = 0"
  "different_powers_value (replicate n 0) = 0" "schaffers_value (replicate n 0) = 0"
  by (auto simp: sphere_value_def ellipsoid_value_def rastrigin_value_def attractive_sector_value_def
      rosenbrock_value_def discus_value_def bent_cigar_value_def sharp_ridge_value_def
      different_powers_value_def schaffers_value_def schaffers_term_def)

lemma griewank_rosenbrock_minimum: "2 \<le> n \<Longrightarrow> griewank_rosenbrock_value (replicate n 1) = 0"
proof -
  assume "2 \<le> n"
  then have "real n - 1 \<noteq> 0" by simp
  then have "(10 - 10 * real n) / (real n - 1) = - 10" by (simp add: field_simps)
  then show ?thesis using \<open>2 \<le> n\<close> by (simp add: griewank_rosenbrock_value_def griewank_term_def)
qed

lemma linear_slope_minimum:
  assumes "\<forall>v \<in> set best. v = 5 \<or> v = - 5"
  shows "linear_slope_value best best = 0"
  unfolding linear_slope_value_def
proof (rule sum.neutral, intro ballI)
  fix i assume "i \<in> {0..<length best}"
  then have "best ! i = 5 \<or> best ! i = - 5" using assms by (auto simp: nth_mem)
  then show "(if best ! i * best ! i < 25 then 5 * \<bar>slope_value best i\<bar> - slope_value best i * best ! i
      else 5 * \<bar>slope_value best i\<bar> - slope_value best i * best ! i) = 0"
    by (auto simp: slope_value_def)
qed

end
