(* ===== verification/Coco_Problem.thy ===== *)
theory Coco_Problem
  imports Coco_Raw_Functions Coco_Problem_Calls
begin

text \<open>
  The problem structure of \<open>coco_internal.h\<close> and the functions of \<open>coco_problem.c\<close> that allocate,
  duplicate, name and read a problem. The onion of problems that wrap each other is a tree: a basic
  problem, a problem around a transformed one, or two stacked problems. The function pointers are
  values that say which function they point to. Gradients, the recommendation of solutions, the
  mutex and the back pointer to the suite are not modelled.
\<close>

section \<open>The structure\<close>

text \<open>The objective functions that a basic problem can point to, with the data they use.\<close>

datatype raw_function =
    Sphere | Ellipsoid | Rastrigin | Bueche_rastrigin | Linear_slope
  | Attractive_sector "double list" | Rosenbrock | Discus | Bent_cigar | Sharp_ridge
  | Different_powers | Weierstrass f_weierstrass_data | Schaffers | Griewank_rosenbrock
  | Katsuura | Schwefel | Gallagher f_gallagher_data | Step_ellipsoid f_step_ellipsoid_data
  | Lunacek_bi_rastrigin f_lunacek_bi_rastrigin_data
  | Bent_cigar_generalized nat | Discus_generalized nat | Sharp_ridge_generalized nat
  | Schwefel_generalized

text \<open>
  \<open>Evaluate_inner\<close> is the default of a transformed problem, \<open>Evaluate_own\<close> the function of its
  transformation, \<open>Evaluate_stacked\<close> the function of a stacked problem; a NULL pointer is \<open>None\<close>.
\<close>

datatype function_pointer = Evaluate_raw raw_function | Evaluate_inner | Evaluate_own | Evaluate_stacked

datatype constraint_pointer = Sum_variables | Constraint_inner | Constraint_own | Constraint_stacked

record coco_problem_s =
  evaluate_function :: "function_pointer option"
  evaluate_constraint :: "constraint_pointer option"
  number_of_variables :: nat
  number_of_objectives :: nat
  number_of_constraints :: nat
  smallest_values_of_interest :: "double list"
  largest_values_of_interest :: "double list"
  number_of_integer_variables :: nat
  initial_solution :: "double list option"
  best_value :: "double list"
  nadir_value :: "double list option"
  best_parameter :: "double list option"
  problem_name :: "string option"
  problem_id :: "string option"
  problem_type :: "string option"
  evaluations :: nat
  evaluations_constraints :: nat
  final_target_delta :: double
  best_observed_fvalue :: double
  best_observed_evaluation :: nat

text \<open>
  The transformations with their data. The vector of \<open>Vars_affine\<close> is the matrix row by row, then
  \<open>b\<close>; that of \<open>Vars_blockrotation\<close> is the rows of the matrix without their zeros, with the size of the
  block and the first column of every row. \<open>Linear_constraint\<close> has the gradient, the shift factor and the
  norm of the gradient. \<open>Logged\<close> is the layer of a logger, whose data are kept outside of the tree.
\<close>

datatype transformation =
    Obj_oscillate
  | Obj_power double
  | Obj_shift double
  | Obj_scale double
  | Obj_penalize double
  | Obj_norm_by_dim
  | Vars_affine "double list" "double list"
  | Vars_shift "double list"
  | Vars_scale double
  | Vars_permutation "nat list"
  | Vars_conditioning double
  | Vars_asymmetric double
  | Vars_brs
  | Vars_oscillate
  | Vars_z_hat "double list"
  | Vars_x_hat int
  | Vars_inverse_permutation "nat list"
  | Vars_blockrotation "double list list" "nat list" "nat list"
  | Vars_discretize "double list"
  | Linear_constraint "double list" double double
  | Logged

datatype coco_problem_t =
    Basic coco_problem_s
  | Transformed coco_problem_s transformation coco_problem_t
  | Stacked coco_problem_s coco_problem_t coco_problem_t

fun fields :: "coco_problem_t \<Rightarrow> coco_problem_s" where
  "fields (Basic p) = p"
| "fields (Transformed p t inner) = p"
| "fields (Stacked p problem1 problem2) = p"

fun with_fields :: "(coco_problem_s \<Rightarrow> coco_problem_s) \<Rightarrow> coco_problem_t \<Rightarrow> coco_problem_t" where
  "with_fields g (Basic p) = Basic (g p)"
| "with_fields g (Transformed p t inner) = Transformed (g p) t inner"
| "with_fields g (Stacked p problem1 problem2) = Stacked (g p) problem1 problem2"

lemma fields_with_fields [simp]: "fields (with_fields g p) = g (fields p)"
  by (cases p) simp_all

section \<open>Allocation\<close>

text \<open>Memory of size 0 is an error; a new vector holds unspecified values, NaN stands for them.\<close>

definition coco_allocate_vector :: "nat \<Rightarrow> double list result" where
  "coco_allocate_vector n =
     (if n = 0 then Inl (Coco_error ''coco_allocate_memory'') else Inr (replicate n NaN))"

definition coco_problem_allocate :: "nat \<Rightarrow> nat \<Rightarrow> nat \<Rightarrow> coco_problem_s result" where
  "coco_problem_allocate nvars nobjs ncons =
     rbind (coco_allocate_vector nvars) (\<lambda>vars.
     rbind (if nobjs > 1 then coco_allocate_vector nobjs else coco_allocate_vector 1) (\<lambda>value.
       Inr \<lparr> evaluate_function = None, evaluate_constraint = None,
         number_of_variables = nvars, number_of_objectives = nobjs, number_of_constraints = ncons,
         smallest_values_of_interest = vars, largest_values_of_interest = vars,
         number_of_integer_variables = 0, initial_solution = None, best_value = value,
         nadir_value = (if nobjs > 1 then Some value else None),
         best_parameter = (if nobjs > 1 then None else Some vars),
         problem_name = None, problem_id = None, problem_type = None,
         evaluations = 0, evaluations_constraints = 0, final_target_delta = Real (1 / 10 ^ 8),
         best_observed_fvalue = Real DBL_MAX, best_observed_evaluation = 0 \<rparr>))"

text \<open>Copying \<open>n\<close> elements of a vector.\<close>

definition copy_vector :: "double list \<Rightarrow> nat \<Rightarrow> double list result" where
  "copy_vector v n = (if length v < n then Inl Out_of_bounds else Inr (take n v))"

definition copy_optional :: "double list option \<Rightarrow> nat \<Rightarrow> double list option \<Rightarrow> double list option result" where
  "copy_optional v n d = (case v of None \<Rightarrow> Inr d | Some v \<Rightarrow> rbind (copy_vector v n) (\<lambda>v. Inr (Some v)))"

text \<open>
  Without objectives or with one, \<open>best_parameter\<close> of the duplicate exists even if the other has none.
\<close>

definition coco_problem_duplicate :: "coco_problem_s \<Rightarrow> coco_problem_s result" where
  "coco_problem_duplicate other =
     rbind (coco_problem_allocate (number_of_variables other) (number_of_objectives other)
       (number_of_constraints other)) (\<lambda>problem.
     rbind (copy_vector (smallest_values_of_interest other) (number_of_variables other)) (\<lambda>smallest.
     rbind (copy_vector (largest_values_of_interest other) (number_of_variables other)) (\<lambda>largest.
     rbind (case best_parameter other of
              None \<Rightarrow> Inr (best_parameter problem)
            | Some v \<Rightarrow>
                if best_parameter problem = None then Inl Null_deref
                else copy_optional (Some v) (number_of_variables other) None) (\<lambda>parameter.
     rbind (copy_optional (initial_solution other) (number_of_variables other) None) (\<lambda>solution.
     rbind (copy_vector (best_value other) (number_of_objectives other)) (\<lambda>value.
     rbind (case nadir_value other of
              None \<Rightarrow> Inr (nadir_value problem)
            | Some v \<Rightarrow>
                if nadir_value problem = None then Inl Null_deref
                else copy_optional (Some v) (number_of_objectives other) None) (\<lambda>nadir.
       Inr (problem
         \<lparr> evaluate_function := evaluate_function other,
           evaluate_constraint := evaluate_constraint other,
           smallest_values_of_interest := smallest,
           largest_values_of_interest := largest,
           best_parameter := parameter,
           number_of_integer_variables := number_of_integer_variables other,
           initial_solution := solution,
           best_value := (if number_of_objectives other = 0 then best_value problem else value),
           nadir_value := nadir,
           problem_name := problem_name other,
           problem_id := problem_id other,
           problem_type := problem_type other,
           evaluations := evaluations other,
           evaluations_constraints := evaluations_constraints other,
           final_target_delta := final_target_delta other,
           best_observed_fvalue := best_observed_fvalue other,
           best_observed_evaluation := best_observed_evaluation other \<rparr>))))))))"

definition coco_problem_allocate_from_scalars ::
    "string \<Rightarrow> raw_function \<Rightarrow> nat \<Rightarrow> double \<Rightarrow> double \<Rightarrow> double \<Rightarrow> coco_problem_s result" where
  "coco_problem_allocate_from_scalars name function nvars smallest largest best =
     rbind (coco_problem_allocate nvars 1 0) (\<lambda>problem.
       Inr (problem
         \<lparr> problem_name := Some name,
           evaluate_function := Some (Evaluate_raw function),
           smallest_values_of_interest := replicate nvars smallest,
           largest_values_of_interest := replicate nvars largest,
           best_parameter := Some (replicate nvars best),
           number_of_integer_variables := 0 \<rparr>))"

section \<open>Names\<close>

text \<open>
  The conversions \<open>%lu\<close> and \<open>%0<digit>lu\<close> of \<open>printf\<close>; every other character stands for itself.
\<close>

definition pad :: "nat \<Rightarrow> string \<Rightarrow> string" where
  "pad w s = replicate (w - length s) (CHR ''0'') @ s"

function format_lu :: "string \<Rightarrow> nat list \<Rightarrow> string" where
  "format_lu s vs =
     (if s = [] then []
      else if vs \<noteq> [] \<and> take 3 s = ''%lu'' then show_nat (hd vs) @ format_lu (drop 3 s) (tl vs)
      else if vs \<noteq> [] \<and> take 2 s = ''%0'' \<and> take 2 (drop 3 s) = ''lu''
      then pad (of_char (s ! 2) - 48) (show_nat (hd vs)) @ format_lu (drop 5 s) (tl vs)
      else hd s # format_lu (tl s) vs)"
  by auto

termination by (relation "measure (length \<circ> fst)") auto

declare format_lu.simps [simp del]

definition coco_problem_id_is_fine :: "string \<Rightarrow> bool" where
  "coco_problem_id_is_fine s \<longleftrightarrow>
     list_all (\<lambda>c. isalpha c \<or> c = CHR ''_'' \<or> c = CHR ''-'' \<or> isdigit c) s"

text \<open>
  The setters get the format and the text that \<open>vsprintf\<close> produces. \<open>coco_problem_set_id\<close> checks
  the id: \<open>coco_problem_id_is_fine\<close> formats the id once more, as a format of its own.
\<close>

definition coco_problem_set_id :: "string \<Rightarrow> string \<Rightarrow> coco_problem_s \<Rightarrow> coco_problem_s result" where
  "coco_problem_set_id fmt written problem =
     rbind (coco_vstrdupf fmt written) (\<lambda>id.
     rbind (coco_vstrdupf id (format_lu id [])) (\<lambda>s.
       if \<not> coco_problem_id_is_fine s then Inl (Coco_error ''coco_problem_set_id'')
       else Inr (problem\<lparr>problem_id := Some id\<rparr>)))"

definition coco_problem_set_name :: "string \<Rightarrow> string \<Rightarrow> coco_problem_s \<Rightarrow> coco_problem_s result" where
  "coco_problem_set_name fmt written problem =
     rbind (coco_vstrdupf fmt written) (\<lambda>name. Inr (problem\<lparr>problem_name := Some name\<rparr>))"

definition coco_problem_set_type :: "string \<Rightarrow> string \<Rightarrow> coco_problem_s \<Rightarrow> coco_problem_s result" where
  "coco_problem_set_type fmt written problem =
     rbind (coco_vstrdupf fmt written) (\<lambda>ptype. Inr (problem\<lparr>problem_type := Some ptype\<rparr>))"

section \<open>Getters\<close>

definition coco_problem_get_dimension :: "coco_problem_s \<Rightarrow> nat result" where
  "coco_problem_get_dimension problem =
     (if number_of_variables problem > 0 then Inr (number_of_variables problem)
      else Inl (Assert_failed ''coco_problem_get_dimension''))"

definition coco_problem_get_id :: "coco_problem_s \<Rightarrow> string result" where
  "coco_problem_get_id problem =
     (case problem_id problem of None \<Rightarrow> Inl (Assert_failed ''coco_problem_get_id'') | Some s \<Rightarrow> Inr s)"

definition coco_problem_get_name :: "coco_problem_s \<Rightarrow> string result" where
  "coco_problem_get_name problem =
     (case problem_name problem of None \<Rightarrow> Inl (Assert_failed ''coco_problem_get_name'') | Some s \<Rightarrow> Inr s)"

definition coco_problem_best_parameter_not_zero :: "coco_problem_s \<Rightarrow> bool result" where
  "coco_problem_best_parameter_not_zero problem =
     (case best_parameter problem of
        None \<Rightarrow> Inl Null_deref
      | Some v \<Rightarrow>
          let v = take (number_of_variables problem) v in
          if coco_vector_contains_nan v then Inr True
          else Inr (\<not> list_all (\<lambda>a. almost_equal a (Real 0) (Real (1 / 10 ^ 9))) v))"

definition coco_problem_final_target_hit :: "coco_problem_s \<Rightarrow> bool" where
  "coco_problem_final_target_hit problem \<longleftrightarrow>
     (if number_of_objectives problem \<noteq> 1 \<or> evaluations problem < 1 then False
      else best_observed_fvalue problem \<le> best_value problem ! 0 + final_target_delta problem)"

definition coco_problem_get_final_target_fvalue1 :: "coco_problem_s \<Rightarrow> double" where
  "coco_problem_get_final_target_fvalue1 problem = best_value problem ! 0 + final_target_delta problem"

definition coco_problem_get_largest_fvalues_of_interest :: "coco_problem_s \<Rightarrow> double list result" where
  "coco_problem_get_largest_fvalues_of_interest problem =
     (if number_of_objectives problem = 1
      then Inl (Coco_error ''coco_problem_get_largest_fvalues_of_interest'')
      else case nadir_value problem of
        None \<Rightarrow> Inl (Coco_error ''coco_problem_get_largest_fvalues_of_interest'')
      | Some v \<Rightarrow> Inr v)"

text \<open>The initial solution, or the centre of the region of interest, rounded for integer variables.\<close>

definition coco_problem_get_initial_solution :: "coco_problem_s \<Rightarrow> double list result" where
  "coco_problem_get_initial_solution problem =
     (case initial_solution problem of
        Some v \<Rightarrow> copy_vector v (number_of_variables problem)
      | None \<Rightarrow>
          rbind (copy_vector (smallest_values_of_interest problem) (number_of_variables problem)) (\<lambda>smallest.
          rbind (copy_vector (largest_values_of_interest problem) (number_of_variables problem)) (\<lambda>largest.
            let centre = map2 (\<lambda>a b. a + Real (1 / 2) * (b - a)) smallest largest in
            if number_of_integer_variables problem > number_of_variables problem then Inl Out_of_bounds
            else Inr (map dround (take (number_of_integer_variables problem) centre)
              @ drop (number_of_integer_variables problem) centre))))"

end
