(* ===== verification/Coco_Evaluation.thy ===== *)
theory Coco_Evaluation
  imports Coco_Problem Coco_Legacy
begin

text \<open>
  The evaluation of problems: \<open>coco_evaluate_constraint\<close>, \<open>coco_is_feasible\<close> and
  \<open>coco_evaluate_function\<close> with their counters and the best observed value, the evaluation functions
  of the raw functions, of every transformation and of stacked problems. The state of an evaluation
  is the tree of problems, every level has its own counters. Arrays that are shorter than the code
  reads are \<open>Out_of_bounds\<close>. Scratch vectors in the data of a transformation are overwritten before
  every use and are not part of the state.
\<close>

type_synonym evaluation = "double list \<Rightarrow> (double list \<times> coco_problem_t) result"

section \<open>Transformed points\<close>

definition affine_row :: "double list \<Rightarrow> double list \<Rightarrow> nat \<Rightarrow> nat \<Rightarrow> double list \<Rightarrow> double" where
  "affine_row M b n i x = accumulate (b ! i) [0..<n] (\<lambda>j. x ! j * M ! (i * n + j))"

definition affine_x :: "double list \<Rightarrow> double list \<Rightarrow> nat \<Rightarrow> nat \<Rightarrow> double list \<Rightarrow> double list" where
  "affine_x M b n inner_n x = map (\<lambda>i. affine_row M b n i x) [0..<inner_n]"

definition shifted_x :: "double list \<Rightarrow> nat \<Rightarrow> double list \<Rightarrow> double list" where
  "shifted_x offset n x = map (\<lambda>i. x ! i - offset ! i) [0..<n]"

definition scaled_x :: "double \<Rightarrow> nat \<Rightarrow> double list \<Rightarrow> double list" where
  "scaled_x factor n x = map (\<lambda>i. factor * x ! i) [0..<n]"

definition conditioned_x :: "double \<Rightarrow> nat \<Rightarrow> double list \<Rightarrow> double list" where
  "conditioned_x alpha n x =
     map (\<lambda>i. dpow alpha (ddiv (Real (1 / 2) * Real (real i)) (Real (real n) - Real 1)) * x ! i) [0..<n]"

definition asymmetric_x :: "double \<Rightarrow> nat \<Rightarrow> double list \<Rightarrow> double list" where
  "asymmetric_x beta n x = map (\<lambda>i.
     if Real 0 < x ! i
     then dpow (x ! i) (Real 1 + ddiv (beta * Real (real i)) (Real (real n) - Real 1) * dsqrt (x ! i))
     else x ! i) [0..<n]"

definition brs_x :: "nat \<Rightarrow> double list \<Rightarrow> double list" where
  "brs_x n x = map (\<lambda>i.
     let factor = dpow (dsqrt (Real 10)) (position_ratio i n);
         factor = (if Real 0 < x ! i \<and> i mod 2 = 0 then factor * Real 10 else factor)
     in factor * x ! i) [0..<n]"

definition oscillate :: "double \<Rightarrow> double" where
  "oscillate v =
     (let alpha = Real (1 / 10) in
      if Real 0 < v then
        let tmp = ddiv (dlog v) alpha;
            base = dexp (tmp + Real (49 / 100) * (dsin tmp + dsin (Real (79 / 100) * tmp)))
        in dpow base alpha
      else if v < Real 0 then
        let tmp = ddiv (dlog (- v)) alpha;
            base = dexp (tmp + Real (49 / 100) * (dsin (Real (55 / 100) * tmp) + dsin (Real (31 / 100) * tmp)))
        in - dpow base alpha
      else Real 0)"

definition oscillated_x :: "nat \<Rightarrow> double list \<Rightarrow> double list" where
  "oscillated_x n x = map (\<lambda>i. oscillate (x ! i)) [0..<n]"

definition z_hat_x :: "double list \<Rightarrow> nat \<Rightarrow> double list \<Rightarrow> double list" where
  "z_hat_x xopt n x =
     x ! 0 # map (\<lambda>i. x ! i + Real (1 / 4) * (x ! (i - 1) - Real 2 * \<bar>xopt ! (i - 1)\<bar>)) [1..<n]"

definition x_hat_x :: "int \<Rightarrow> nat \<Rightarrow> double list \<Rightarrow> double list result" where
  "x_hat_x seed n x =
     rbind (bbob2009_unif n seed) (\<lambda>u. Inr (map (\<lambda>i. if u ! i < 1 / 2 then - x ! i else x ! i) [0..<n]))"

definition linear_x :: "double list \<Rightarrow> double \<Rightarrow> double \<Rightarrow> nat \<Rightarrow> double list \<Rightarrow> double list" where
  "linear_x gradient x_shift_factor gradient_norm n x =
     (let factor = ddiv x_shift_factor gradient_norm
      in map (\<lambda>i. gradient ! i * (x ! i - factor * gradient ! i)) [0..<n])"

section \<open>Constraints\<close>

text \<open>
  The checks before the evaluation of a vector with \<open>m\<close> results: \<open>Some y\<close> is the result for a point
  that is not finite.
\<close>

definition check_point :: "coco_problem_s \<Rightarrow> nat \<Rightarrow> double list \<Rightarrow> double list option result" where
  "check_point p m x =
     rbind (coco_problem_get_dimension p) (\<lambda>n.
       if length x < n then Inl Out_of_bounds
       else case find coco_is_inf (take n x) of
         Some v \<Rightarrow> Inr (Some (replicate m \<bar>v\<bar>))
       | None \<Rightarrow>
           if coco_vector_contains_nan (take n x) then Inr (Some (coco_vector_set_to_nan m))
           else Inr None)"

definition problem_increment_evaluate_constraint :: "coco_problem_s \<Rightarrow> coco_problem_s" where
  "problem_increment_evaluate_constraint p =
     p\<lparr>evaluations_constraints := size_t (evaluations_constraints p + 1)\<rparr>"

text \<open>\<open>coco_evaluate_constraint\<close> of \<open>p\<close>, whose function pointer is \<open>call\<close>.\<close>

definition evaluate_constraint_by :: "evaluation \<Rightarrow> coco_problem_t \<Rightarrow> evaluation" where
  "evaluate_constraint_by call p x =
     (if evaluate_constraint (fields p) = None then Inl (Coco_error ''coco_evaluate_constraint'')
      else rbind (check_point (fields p) (number_of_constraints (fields p)) x) (\<lambda>special.
        case special of
          Some y \<Rightarrow> Inr (y, p)
        | None \<Rightarrow> rbind (call x) (\<lambda>(y, p). Inr (y, with_fields problem_increment_evaluate_constraint p))))"

definition c_sum_variables_evaluate :: "coco_problem_s \<Rightarrow> double list \<Rightarrow> double list result" where
  "c_sum_variables_evaluate self x =
     (if number_of_constraints self \<noteq> 1 then Inl (Assert_failed ''c_sum_variables_evaluate'')
      else if length x < number_of_variables self then Inl Out_of_bounds
      else Inr [accumulate (Real 0) [0..<number_of_variables self] (\<lambda>i. x ! i)])"

text \<open>
  The constraint functions of the transformations: the inner constraints at the transformed point, or
  \<open>m\<close> times NaN for a point that contains NaN.
\<close>

definition transform_constraint :: "nat \<Rightarrow> coco_problem_s \<Rightarrow> transformation \<Rightarrow> coco_problem_t \<Rightarrow> evaluation \<Rightarrow>
    (double list \<Rightarrow> double list) \<Rightarrow> evaluation" where
  "transform_constraint m p t inner eval new_x x =
     (if length x < number_of_variables p then Inl Out_of_bounds
      else if coco_vector_contains_nan (take (number_of_variables p) x)
      then Inr (coco_vector_set_to_nan m, Transformed p t inner)
      else rbind (eval (new_x x)) (\<lambda>(y, inner). Inr (y, Transformed p t inner)))"

definition transform_vars_affine_evaluate_constraint where
  "transform_vars_affine_evaluate_constraint M b p inner eval =
     transform_constraint (number_of_constraints p) p (Vars_affine M b) inner eval
       (affine_x M b (number_of_variables p) (number_of_variables (fields inner)))"

text \<open>The shift sets as many entries to NaN as there are objectives.\<close>

definition transform_vars_shift_evaluate_constraint where
  "transform_vars_shift_evaluate_constraint offset p inner eval =
     transform_constraint (number_of_objectives p) p (Vars_shift offset) inner eval
       (shifted_x offset (number_of_variables p))"

definition transform_vars_asymmetric_evaluate_constraint where
  "transform_vars_asymmetric_evaluate_constraint beta p inner eval =
     transform_constraint (number_of_constraints p) p (Vars_asymmetric beta) inner eval
       (asymmetric_x beta (number_of_variables p))"

definition transform_vars_oscillate_evaluate_constraint where
  "transform_vars_oscillate_evaluate_constraint p inner eval =
     transform_constraint (number_of_constraints p) p Vars_oscillate inner eval
       (oscillated_x (number_of_variables p))"

definition c_linear_single_evaluate where
  "c_linear_single_evaluate gradient x_shift gradient_norm p inner eval x =
     (if number_of_constraints p \<noteq> 1 then Inl (Assert_failed ''c_linear_single_evaluate'')
      else if length x < number_of_variables p then Inl Out_of_bounds
      else rbind (eval (linear_x gradient x_shift gradient_norm (number_of_variables p) x)) (\<lambda>(y, inner).
        Inr (y, Transformed p (Linear_constraint gradient x_shift gradient_norm) inner)))"

text \<open>The other transformations have no constraint function of their own.\<close>

fun transformation_evaluate_constraint ::
    "transformation \<Rightarrow> coco_problem_s \<Rightarrow> coco_problem_t \<Rightarrow> evaluation \<Rightarrow> evaluation" where
  "transformation_evaluate_constraint (Vars_affine M b) = transform_vars_affine_evaluate_constraint M b"
| "transformation_evaluate_constraint (Vars_shift offset) = transform_vars_shift_evaluate_constraint offset"
| "transformation_evaluate_constraint (Vars_asymmetric beta) = transform_vars_asymmetric_evaluate_constraint beta"
| "transformation_evaluate_constraint Vars_oscillate = transform_vars_oscillate_evaluate_constraint"
| "transformation_evaluate_constraint (Linear_constraint gradient x_shift gradient_norm) =
     c_linear_single_evaluate gradient x_shift gradient_norm"
| "transformation_evaluate_constraint t = (\<lambda>p inner eval x. Inl Null_deref)"

text \<open>The call \<open>problem->evaluate_constraint(problem, x, y)\<close>.\<close>

primrec call_evaluate_constraint :: "coco_problem_t \<Rightarrow> evaluation" where
  "call_evaluate_constraint (Basic p) = (\<lambda>x.
     case evaluate_constraint p of
       Some Sum_variables \<Rightarrow> rbind (c_sum_variables_evaluate p x) (\<lambda>y. Inr (y, Basic p))
     | _ \<Rightarrow> Inl Null_deref)"
| "call_evaluate_constraint (Transformed p t inner) = (\<lambda>x.
     let eval = evaluate_constraint_by (call_evaluate_constraint inner) inner
     in case evaluate_constraint p of
          Some Constraint_inner \<Rightarrow> rbind (eval x) (\<lambda>(y, inner). Inr (y, Transformed p t inner))
        | Some Constraint_own \<Rightarrow> transformation_evaluate_constraint t p inner eval x
        | _ \<Rightarrow> Inl Null_deref)"
| "call_evaluate_constraint (Stacked p problem1 problem2) = (\<lambda>x.
     let eval = (\<lambda>q call. if number_of_constraints (fields q) > 0
           then evaluate_constraint_by call q x else Inr ([], q))
     in if evaluate_constraint p \<noteq> Some Constraint_stacked then Inl Null_deref
        else if number_of_constraints p
            \<noteq> number_of_constraints (fields problem1) + number_of_constraints (fields problem2)
        then Inl (Assert_failed ''coco_problem_stacked_evaluate_constraint'')
        else rbind (eval problem1 (call_evaluate_constraint problem1)) (\<lambda>(y1, problem1).
             rbind (eval problem2 (call_evaluate_constraint problem2)) (\<lambda>(y2, problem2).
               Inr (y1 @ y2, Stacked p problem1 problem2))))"

definition coco_evaluate_constraint :: "coco_problem_t \<Rightarrow> evaluation" where
  "coco_evaluate_constraint p = evaluate_constraint_by (call_evaluate_constraint p) p"

definition coco_is_feasible :: "coco_problem_t \<Rightarrow> double list \<Rightarrow> (bool \<times> coco_problem_t) result" where
  "coco_is_feasible p x =
     rbind (coco_problem_get_dimension (fields p)) (\<lambda>n.
       if length x < n then Inl Out_of_bounds
       else if \<not> coco_vector_isfinite (take n x) then Inr (False, p)
       else if number_of_constraints (fields p) = 0 then Inr (True, p)
       else if evaluate_constraint (fields p) = None then Inl (Assert_failed ''coco_is_feasible'')
       else rbind (call_evaluate_constraint p x) (\<lambda>(y, q).
         if length y < number_of_constraints (fields p) then Inl Out_of_bounds
         else Inr (list_all (\<lambda>v. \<not> Real 0 < v) (take (number_of_constraints (fields p)) y), q)))"

section \<open>Objective functions\<close>

text \<open>The assertion \<open>y[0] + 1e-13 >= problem->best_value[0]\<close> of nearly all evaluation functions.\<close>

definition assert_best :: "string \<Rightarrow> coco_problem_s \<Rightarrow> double list \<Rightarrow> unit result" where
  "assert_best name p y =
     rbind (rnth y 0) (\<lambda>v. rbind (rnth (best_value p) 0) (\<lambda>best.
       if best \<le> v + Real (1 / 10 ^ 13) then Inr () else Inl (Assert_failed name)))"

text \<open>In the functions that know about constraints the assertion is restricted to feasible points.\<close>

definition assert_best_if_feasible :: "string \<Rightarrow> double list \<Rightarrow> double list \<times> coco_problem_t \<Rightarrow>
    (double list \<times> coco_problem_t) result" where
  "assert_best_if_feasible name x r =
     (case r of (y, p) \<Rightarrow>
        if number_of_constraints (fields p) > 0
        then rbind (coco_is_feasible p x) (\<lambda>(is_feasible, p).
          if is_feasible then rbind (assert_best name (fields p) y) (\<lambda>_. Inr (y, p)) else Inr (y, p))
        else rbind (assert_best name (fields p) y) (\<lambda>_. Inr (y, p)))"

definition assert_best_always :: "string \<Rightarrow> double list \<Rightarrow> double list \<times> coco_problem_t \<Rightarrow>
    (double list \<times> coco_problem_t) result" where
  "assert_best_always name x r =
     (case r of (y, p) \<Rightarrow> rbind (assert_best name (fields p) y) (\<lambda>_. Inr (y, p)))"

text \<open>
  \<open>alias\<close>: the result array is \<open>best_value\<close> of the problem, so that the function sets it and the
  assertion reads the new value. The allocators compute \<open>best_value\<close> this way.
\<close>

definition assert_best_alias :: "bool \<Rightarrow> string \<Rightarrow> double list \<Rightarrow> double list \<times> coco_problem_t \<Rightarrow>
    (double list \<times> coco_problem_t) result" where
  "assert_best_alias alias name x r =
     (case r of (y, p) \<Rightarrow>
        assert_best_always name x (y, if alias then with_fields (\<lambda>f. f\<lparr>best_value := y\<rparr>) p else p))"

text \<open>
  A raw function: one objective, and the assertion, with \<open>alias\<close> as above.
\<close>

definition evaluate_raw :: "string \<Rightarrow> bool \<Rightarrow> coco_problem_s \<Rightarrow> double list \<Rightarrow> double result \<Rightarrow> double list result" where
  "evaluate_raw name alias p x value =
     (if number_of_objectives p \<noteq> 1 then Inl (Assert_failed name)
      else if length x < number_of_variables p then Inl Out_of_bounds
      else rbind value (\<lambda>v.
        rbind (assert_best name (if alias then p\<lparr>best_value := [v]\<rparr> else p) [v]) (\<lambda>_. Inr [v])))"

definition f_sphere_evaluate ::
  "bool \<Rightarrow> coco_problem_s \<Rightarrow> double list \<Rightarrow> double list result" where
  "f_sphere_evaluate alias p x =
     evaluate_raw ''f_sphere_evaluate'' alias p x (Inr (f_sphere_raw x (number_of_variables p)))"

definition f_ellipsoid_evaluate ::
  "bool \<Rightarrow> coco_problem_s \<Rightarrow> double list \<Rightarrow> double list result" where
  "f_ellipsoid_evaluate alias p x =
     evaluate_raw ''f_ellipsoid_evaluate'' alias p x (Inr (f_ellipsoid_raw x (number_of_variables p)))"

definition f_rastrigin_evaluate ::
  "bool \<Rightarrow> coco_problem_s \<Rightarrow> double list \<Rightarrow> double list result" where
  "f_rastrigin_evaluate alias p x =
     evaluate_raw ''f_rastrigin_evaluate'' alias p x (Inr (f_rastrigin_raw x (number_of_variables p)))"

definition f_bueche_rastrigin_evaluate ::
  "bool \<Rightarrow> coco_problem_s \<Rightarrow> double list \<Rightarrow> double list result" where
  "f_bueche_rastrigin_evaluate alias p x = evaluate_raw ''f_bueche_rastrigin_evaluate'' alias p x
     (Inr (f_bueche_rastrigin_raw x (number_of_variables p)))"

definition f_linear_slope_evaluate ::
  "bool \<Rightarrow> coco_problem_s \<Rightarrow> double list \<Rightarrow> double list result" where
  "f_linear_slope_evaluate alias p x = evaluate_raw ''f_linear_slope_evaluate'' alias p x
     (case best_parameter p of
        None \<Rightarrow> Inl Null_deref
      | Some best \<Rightarrow>
          if length best < number_of_variables p then Inl Out_of_bounds
          else Inr (f_linear_slope_raw x (number_of_variables p) best))"

definition f_attractive_sector_evaluate ::
  "double list \<Rightarrow> bool \<Rightarrow> coco_problem_s \<Rightarrow> double list \<Rightarrow> double list result" where
  "f_attractive_sector_evaluate xopt alias p x = evaluate_raw ''f_attractive_sector_evaluate'' alias p x
     (if length xopt < number_of_variables p then Inl Out_of_bounds
      else Inr (f_attractive_sector_raw x (number_of_variables p) xopt))"

definition f_rosenbrock_evaluate ::
  "bool \<Rightarrow> coco_problem_s \<Rightarrow> double list \<Rightarrow> double list result" where
  "f_rosenbrock_evaluate alias p x =
     evaluate_raw ''f_rosenbrock_evaluate'' alias p x (f_rosenbrock_raw x (number_of_variables p))"

definition f_discus_evaluate ::
  "bool \<Rightarrow> coco_problem_s \<Rightarrow> double list \<Rightarrow> double list result" where
  "f_discus_evaluate alias p x =
     evaluate_raw ''f_discus_evaluate'' alias p x (Inr (f_discus_raw x (number_of_variables p)))"

definition f_bent_cigar_evaluate ::
  "bool \<Rightarrow> coco_problem_s \<Rightarrow> double list \<Rightarrow> double list result" where
  "f_bent_cigar_evaluate alias p x =
     evaluate_raw ''f_bent_cigar_evaluate'' alias p x (Inr (f_bent_cigar_raw x (number_of_variables p)))"

definition f_sharp_ridge_evaluate ::
  "bool \<Rightarrow> coco_problem_s \<Rightarrow> double list \<Rightarrow> double list result" where
  "f_sharp_ridge_evaluate alias p x =
     evaluate_raw ''f_sharp_ridge_evaluate'' alias p x (f_sharp_ridge_raw x (number_of_variables p))"

definition f_different_powers_evaluate ::
  "bool \<Rightarrow> coco_problem_s \<Rightarrow> double list \<Rightarrow> double list result" where
  "f_different_powers_evaluate alias p x = evaluate_raw ''f_different_powers_evaluate'' alias p x
     (Inr (f_different_powers_raw x (number_of_variables p)))"

definition f_weierstrass_evaluate ::
  "f_weierstrass_data \<Rightarrow> bool \<Rightarrow> coco_problem_s \<Rightarrow> double list \<Rightarrow> double list result" where
  "f_weierstrass_evaluate data alias p x = evaluate_raw ''f_weierstrass_evaluate'' alias p x
     (Inr (f_weierstrass_raw x (number_of_variables p) data))"

definition f_schaffers_evaluate ::
  "bool \<Rightarrow> coco_problem_s \<Rightarrow> double list \<Rightarrow> double list result" where
  "f_schaffers_evaluate alias p x =
     evaluate_raw ''f_schaffers_evaluate'' alias p x (f_schaffers_raw x (number_of_variables p))"

definition f_griewank_rosenbrock_evaluate ::
  "bool \<Rightarrow> coco_problem_s \<Rightarrow> double list \<Rightarrow> double list result" where
  "f_griewank_rosenbrock_evaluate alias p x = evaluate_raw ''f_griewank_rosenbrock_evaluate'' alias p x
     (Inr (f_griewank_rosenbrock_raw x (number_of_variables p)))"

definition f_katsuura_evaluate ::
  "bool \<Rightarrow> coco_problem_s \<Rightarrow> double list \<Rightarrow> double list result" where
  "f_katsuura_evaluate alias p x =
     evaluate_raw ''f_katsuura_evaluate'' alias p x (Inr (f_katsuura_raw x (number_of_variables p)))"

definition f_schwefel_evaluate ::
  "bool \<Rightarrow> coco_problem_s \<Rightarrow> double list \<Rightarrow> double list result" where
  "f_schwefel_evaluate alias p x =
     evaluate_raw ''f_schwefel_evaluate'' alias p x (Inr (f_schwefel_raw x (number_of_variables p)))"

definition f_gallagher_evaluate ::
  "f_gallagher_data \<Rightarrow> bool \<Rightarrow> coco_problem_s \<Rightarrow> double list \<Rightarrow> double list result" where
  "f_gallagher_evaluate data alias p x = evaluate_raw ''f_gallagher_evaluate'' alias p x
     (Inr (f_gallagher_raw x (number_of_variables p) data))"

definition f_step_ellipsoid_evaluate ::
  "f_step_ellipsoid_data \<Rightarrow> bool \<Rightarrow> coco_problem_s \<Rightarrow> double list \<Rightarrow> double list result" where
  "f_step_ellipsoid_evaluate data alias p x = evaluate_raw ''f_step_ellipsoid_evaluate'' alias p x
     (f_step_ellipsoid_raw x (number_of_variables p) data)"

definition f_lunacek_bi_rastrigin_evaluate ::
  "f_lunacek_bi_rastrigin_data \<Rightarrow> bool \<Rightarrow> coco_problem_s \<Rightarrow> double list \<Rightarrow> double list result" where
  "f_lunacek_bi_rastrigin_evaluate data alias p x = evaluate_raw ''f_lunacek_bi_rastrigin_evaluate'' alias p x
     (f_lunacek_bi_rastrigin_raw x (number_of_variables p) data)"

definition f_bent_cigar_generalized_evaluate ::
  "nat \<Rightarrow> bool \<Rightarrow> coco_problem_s \<Rightarrow> double list \<Rightarrow> double list result" where
  "f_bent_cigar_generalized_evaluate denom alias p x = evaluate_raw ''f_bent_cigar_generalized_evaluate'' alias p x
     (f_bent_cigar_generalized_raw x (number_of_variables p) denom)"

definition f_discus_generalized_evaluate ::
  "nat \<Rightarrow> bool \<Rightarrow> coco_problem_s \<Rightarrow> double list \<Rightarrow> double list result" where
  "f_discus_generalized_evaluate denom alias p x = evaluate_raw ''f_discus_generalized_evaluate'' alias p x
     (f_discus_generalized_raw x (number_of_variables p) denom)"

definition f_sharp_ridge_generalized_evaluate ::
  "nat \<Rightarrow> bool \<Rightarrow> coco_problem_s \<Rightarrow> double list \<Rightarrow> double list result" where
  "f_sharp_ridge_generalized_evaluate denom alias p x = evaluate_raw ''f_sharp_ridge_generalized_evaluate'' alias p x
     (f_sharp_ridge_generalized_raw x (number_of_variables p) denom)"

definition f_schwefel_generalized_evaluate ::
  "bool \<Rightarrow> coco_problem_s \<Rightarrow> double list \<Rightarrow> double list result" where
  "f_schwefel_generalized_evaluate alias p x = evaluate_raw ''f_schwefel_generalized_evaluate'' alias p x
     (Inr (f_schwefel_generalized_raw x (number_of_variables p)))"

fun raw_evaluate :: "raw_function \<Rightarrow> bool \<Rightarrow> coco_problem_s \<Rightarrow> double list \<Rightarrow> double list result" where
  "raw_evaluate Sphere = f_sphere_evaluate"
| "raw_evaluate Ellipsoid = f_ellipsoid_evaluate"
| "raw_evaluate Rastrigin = f_rastrigin_evaluate"
| "raw_evaluate Bueche_rastrigin = f_bueche_rastrigin_evaluate"
| "raw_evaluate Linear_slope = f_linear_slope_evaluate"
| "raw_evaluate (Attractive_sector xopt) = f_attractive_sector_evaluate xopt"
| "raw_evaluate Rosenbrock = f_rosenbrock_evaluate"
| "raw_evaluate Discus = f_discus_evaluate"
| "raw_evaluate Bent_cigar = f_bent_cigar_evaluate"
| "raw_evaluate Sharp_ridge = f_sharp_ridge_evaluate"
| "raw_evaluate Different_powers = f_different_powers_evaluate"
| "raw_evaluate (Weierstrass data) = f_weierstrass_evaluate data"
| "raw_evaluate Schaffers = f_schaffers_evaluate"
| "raw_evaluate Griewank_rosenbrock = f_griewank_rosenbrock_evaluate"
| "raw_evaluate Katsuura = f_katsuura_evaluate"
| "raw_evaluate Schwefel = f_schwefel_evaluate"
| "raw_evaluate (Gallagher data) = f_gallagher_evaluate data"
| "raw_evaluate (Step_ellipsoid data) = f_step_ellipsoid_evaluate data"
| "raw_evaluate (Lunacek_bi_rastrigin data) = f_lunacek_bi_rastrigin_evaluate data"
| "raw_evaluate (Bent_cigar_generalized denom) = f_bent_cigar_generalized_evaluate denom"
| "raw_evaluate (Discus_generalized denom) = f_discus_generalized_evaluate denom"
| "raw_evaluate (Sharp_ridge_generalized denom) = f_sharp_ridge_generalized_evaluate denom"
| "raw_evaluate Schwefel_generalized = f_schwefel_generalized_evaluate"

section \<open>Transformed problems\<close>

text \<open>
  The evaluation functions of the transformations. \<open>p\<close> is the structure of the transformed problem,
  \<open>eval\<close> is \<open>coco_evaluate_function\<close> of the inner problem, \<open>inner\<close> the inner problem itself.
  \<open>transform_vars\<close> evaluates the inner problem at a transformed point, \<open>transform_obj\<close> changes the
  values; both return NaN at once for a point with NaN.
\<close>

definition transform_vars :: "(double list \<Rightarrow> double list \<times> coco_problem_t \<Rightarrow> (double list \<times> coco_problem_t) result) \<Rightarrow>
    coco_problem_s \<Rightarrow> transformation \<Rightarrow> coco_problem_t \<Rightarrow> evaluation \<Rightarrow>
    (double list \<Rightarrow> double list result) \<Rightarrow> evaluation" where
  "transform_vars check p t inner eval new_x x =
     (if length x < number_of_variables p then Inl Out_of_bounds
      else if coco_vector_contains_nan (take (number_of_variables p) x)
      then Inr (coco_vector_set_to_nan (number_of_objectives p), Transformed p t inner)
      else rbind (new_x x) (\<lambda>x'. rbind (eval x') (\<lambda>(y, inner). check x (y, Transformed p t inner))))"

definition transform_obj :: "(double list \<Rightarrow> double list \<times> coco_problem_t \<Rightarrow> (double list \<times> coco_problem_t) result) \<Rightarrow>
    coco_problem_s \<Rightarrow> transformation \<Rightarrow> coco_problem_t \<Rightarrow> evaluation \<Rightarrow>
    (double list \<Rightarrow> double list) \<Rightarrow> evaluation" where
  "transform_obj check p t inner eval new_y x =
     (if length x < number_of_variables p then Inl Out_of_bounds
      else if coco_vector_contains_nan (take (number_of_variables p) x)
      then Inr (coco_vector_set_to_nan (number_of_objectives p), Transformed p t inner)
      else rbind (eval x) (\<lambda>(y, inner). check x (new_y y, Transformed p t inner)))"

definition transform_obj_oscillate_evaluate where
  "transform_obj_oscillate_evaluate alias p inner eval =
     transform_obj (assert_best_alias alias ''transform_obj_oscillate_evaluate'') p Obj_oscillate inner eval
       (map (\<lambda>v. if not_equal v (Real 0) then oscillate v else v))"

definition transform_obj_power_evaluate where
  "transform_obj_power_evaluate exponent alias p inner eval =
     transform_obj (assert_best_alias alias ''transform_obj_power_evaluate'') p (Obj_power exponent) inner eval
       (map (\<lambda>v. dpow v exponent))"

definition transform_obj_shift_evaluate_function where
  "transform_obj_shift_evaluate_function offset p inner eval =
     transform_obj (assert_best_if_feasible ''transform_obj_shift_evaluate_function'')
       p (Obj_shift offset) inner eval (map (\<lambda>v. v + offset))"

definition transform_obj_scale_evaluate_function where
  "transform_obj_scale_evaluate_function factor p inner eval =
     transform_obj (assert_best_if_feasible ''transform_obj_scale_evaluate_function'')
       p (Obj_scale factor) inner eval (map (\<lambda>v. v * factor))"

text \<open>The penalty for leaving the region of interest; the bounds have to be in order.\<close>

definition out_of_region :: "double \<Rightarrow> double \<Rightarrow> double \<Rightarrow> double" where
  "out_of_region lower upper v =
     (let c1 = v - upper; c2 = lower - v in
      if Real 0 < c1 then c1 * c1 else if Real 0 < c2 then c2 * c2 else Real 0)"

definition penalty :: "coco_problem_s \<Rightarrow> double list \<Rightarrow> double" where
  "penalty p x = accumulate (Real 0) [0..<number_of_variables p] (\<lambda>i.
     out_of_region (smallest_values_of_interest p ! i) (largest_values_of_interest p ! i) (x ! i))"

definition transform_obj_penalize_evaluate where
  "transform_obj_penalize_evaluate factor p inner eval x =
     (if length (smallest_values_of_interest p) < number_of_variables p
         \<or> length (largest_values_of_interest p) < number_of_variables p
      then Inl Out_of_bounds
      else if length x \<ge> number_of_variables p
         \<and> \<not> coco_vector_contains_nan (take (number_of_variables p) x)
         \<and> \<not> list_all (\<lambda>i. smallest_values_of_interest p ! i < largest_values_of_interest p ! i)
               [0..<number_of_variables p]
      then Inl (Assert_failed ''transform_obj_penalize_evaluate'')
      else transform_obj (assert_best_always ''transform_obj_penalize_evaluate'')
        p (Obj_penalize factor) inner eval (map (\<lambda>v. v + factor * penalty p x)) x)"

definition transform_obj_norm_by_dim_evaluate where
  "transform_obj_norm_by_dim_evaluate p inner eval x =
     rbind (eval x) (\<lambda>(y, inner).
     rbind (rnth y 0) (\<lambda>v.
       assert_best_always ''transform_obj_norm_by_dim_evaluate'' x
         (y[0 := v * bbob2009_fmin (Real 1) (ddiv (Real 40) (Real (real (number_of_variables p))))],
          Transformed p Obj_norm_by_dim inner)))"

definition transform_vars_affine_evaluate_function where
  "transform_vars_affine_evaluate_function M b p inner eval =
     transform_vars (assert_best_if_feasible ''transform_vars_affine_evaluate_function'')
       p (Vars_affine M b) inner eval
       (\<lambda>x. Inr (affine_x M b (number_of_variables p) (number_of_variables (fields inner)) x))"

definition transform_vars_shift_evaluate_function where
  "transform_vars_shift_evaluate_function offset p inner eval =
     transform_vars (assert_best_if_feasible ''transform_vars_shift_evaluate_function'')
       p (Vars_shift offset) inner eval (\<lambda>x. Inr (shifted_x offset (number_of_variables p) x))"

definition transform_vars_scale_evaluate where
  "transform_vars_scale_evaluate factor p inner eval =
     transform_vars (assert_best_always ''transform_vars_scale_evaluate'')
       p (Vars_scale factor) inner eval (\<lambda>x. Inr (scaled_x factor (number_of_variables p) x))"

definition transform_vars_conditioning_evaluate where
  "transform_vars_conditioning_evaluate alpha p inner eval =
     transform_vars (assert_best_always ''transform_vars_conditioning_evaluate'')
       p (Vars_conditioning alpha) inner eval (\<lambda>x. Inr (conditioned_x alpha (number_of_variables p) x))"

definition transform_vars_asymmetric_evaluate_function where
  "transform_vars_asymmetric_evaluate_function beta p inner eval =
     transform_vars (assert_best_if_feasible ''transform_vars_asymmetric_evaluate_function'')
       p (Vars_asymmetric beta) inner eval (\<lambda>x. Inr (asymmetric_x beta (number_of_variables p) x))"

definition transform_vars_brs_evaluate where
  "transform_vars_brs_evaluate p inner eval =
     transform_vars (assert_best_always ''transform_vars_brs_evaluate'')
       p Vars_brs inner eval (\<lambda>x. Inr (brs_x (number_of_variables p) x))"

definition transform_vars_oscillate_evaluate_function where
  "transform_vars_oscillate_evaluate_function p inner eval =
     transform_vars (assert_best_if_feasible ''transform_vars_oscillate_evaluate_function'')
       p Vars_oscillate inner eval (\<lambda>x. Inr (oscillated_x (number_of_variables p) x))"

definition transform_vars_z_hat_evaluate where
  "transform_vars_z_hat_evaluate xopt p inner eval =
     transform_vars (assert_best_always ''transform_vars_z_hat_evaluate'')
       p (Vars_z_hat xopt) inner eval (\<lambda>x. Inr (z_hat_x xopt (number_of_variables p) x))"

definition transform_vars_x_hat_evaluate where
  "transform_vars_x_hat_evaluate seed p inner eval =
     transform_vars (assert_best_always ''transform_vars_x_hat_evaluate'')
       p (Vars_x_hat seed) inner eval (x_hat_x seed (number_of_variables p))"

text \<open>The permutation has no check for NaN of its own.\<close>

definition transform_vars_permutation_evaluate where
  "transform_vars_permutation_evaluate P p inner eval x =
     (let n = number_of_variables (fields inner) in
      if length P < n \<or> \<not> list_all (\<lambda>i. P ! i < length x) [0..<n] then Inl Out_of_bounds
      else rbind (eval (map (\<lambda>i. x ! (P ! i)) [0..<n])) (\<lambda>(y, inner).
        assert_best_always ''transform_vars_permutation_evaluate'' x
          (y, Transformed p (Vars_permutation P) inner)))"

text \<open>Entries that the inverse of a permutation does not set are not specified, NaN stands for them.\<close>

definition transform_vars_inverse_permutation_evaluate where
  "transform_vars_inverse_permutation_evaluate P p inner eval x =
     (let n = number_of_variables (fields inner) in
      if length P < n \<or> length x < n \<or> \<not> list_all (\<lambda>i. P ! i < n) [0..<n] then Inl Out_of_bounds
      else rbind (eval (foldl (\<lambda>z i. z[P ! i := x ! i]) (replicate n NaN) [0..<n])) (\<lambda>(y, inner).
        assert_best_always ''transform_vars_inverse_permutation_evaluate'' x
          (y, Transformed p (Vars_inverse_permutation P) inner)))"

text \<open>The product with a block-diagonal matrix; the dimension is the length of the maps.\<close>

definition transform_vars_blockrotation_apply ::
    "double list list \<Rightarrow> nat list \<Rightarrow> nat list \<Rightarrow> double list \<Rightarrow> double list" where
  "transform_vars_blockrotation_apply B sizes firsts x =
     map (\<lambda>i. accumulate (Real 0) [firsts ! i..<firsts ! i + sizes ! i] (\<lambda>j. B ! i ! (j - firsts ! i) * x ! j))
       [0..<length sizes]"

definition transform_vars_blockrotation_evaluate where
  "transform_vars_blockrotation_evaluate B sizes firsts p inner eval x =
     (if number_of_variables (fields inner) \<noteq> length sizes
        \<or> \<not> list_all (\<lambda>i. firsts ! i + sizes ! i \<le> length x) [0..<length sizes] then Inl Out_of_bounds
      else rbind (eval (transform_vars_blockrotation_apply B sizes firsts x)) (\<lambda>(y, inner).
        assert_best_always ''transform_vars_blockrotation_evaluate'' x
          (y, Transformed p (Vars_blockrotation B sizes firsts) inner)))"

text \<open>
  The integer variables: \<open>discretize_bounds\<close> gives the bounds of a variable in the outer problem and
  the first and last of its values in the inner problem, \<open>discretized_value\<close> maps the variable.
  \<open>coco_double_to_int\<close> of NaN is not defined; of an infinity it is an error.
\<close>

definition double_to_int :: "double \<Rightarrow> int result" where
  "double_to_int d =
     (case d of Real v \<Rightarrow> coco_double_to_int v | NaN \<Rightarrow> Inl Out_of_bounds | _ \<Rightarrow> Inl (Coco_error ''coco_double_to_int''))"

definition discretize_bounds ::
    "coco_problem_s \<Rightarrow> coco_problem_s \<Rightarrow> nat \<Rightarrow> (double \<times> double \<times> double \<times> double) result" where
  "discretize_bounds p inner i =
     rbind (rnth (smallest_values_of_interest p) i) (\<lambda>outer_l.
     rbind (rnth (largest_values_of_interest p) i) (\<lambda>outer_u.
     rbind (rnth (smallest_values_of_interest inner) i) (\<lambda>l.
     rbind (rnth (largest_values_of_interest inner) i) (\<lambda>u.
     rbind (double_to_int outer_u) (\<lambda>b. rbind (double_to_int outer_l) (\<lambda>a.
       let n = b - a + 1; distance = ddiv (u - l) (Real (of_int (n + 1)))
       in if \<not> n > 1 then Inl (Assert_failed ''transform_vars_discretize'')
          else Inr (outer_l, outer_u, l + distance, u - distance)))))))"

definition clamp :: "double \<Rightarrow> double \<Rightarrow> double \<Rightarrow> double" where
  "clamp l u z = (let z = (if z < l then l else z) in if u < z then u else z)"

definition inner_value :: "double \<times> double \<times> double \<times> double \<Rightarrow> double \<Rightarrow> double" where
  "inner_value = (\<lambda>(outer_l, outer_u, inner_l, inner_u) z.
     inner_l + ddiv ((inner_u - inner_l) * (z - outer_l)) (outer_u - outer_l))"

definition discretized_value :: "double \<times> double \<times> double \<times> double \<Rightarrow> double \<Rightarrow> double \<Rightarrow> double" where
  "discretized_value bounds offset x =
     inner_value bounds (clamp (fst bounds) (fst (snd bounds)) (dround x)) - offset"

fun discretized_x :: "nat list \<Rightarrow> double list \<Rightarrow> coco_problem_s \<Rightarrow> coco_problem_s \<Rightarrow> double list \<Rightarrow> double list result" where
  "discretized_x [] offset p inner x = Inr []"
| "discretized_x (i # is) offset p inner x =
     rbind (discretize_bounds p inner i) (\<lambda>bounds.
     rbind (rnth offset i) (\<lambda>off.
     rbind (rnth x i) (\<lambda>v.
     rbind (discretized_x is offset p inner x) (\<lambda>vs. Inr (discretized_value bounds off v # vs)))))"

definition transform_vars_discretize_evaluate_function where
  "transform_vars_discretize_evaluate_function offset p inner eval x =
     rbind (coco_problem_get_dimension p) (\<lambda>n.
     rbind (copy_vector x n) (\<lambda>x.
       if coco_vector_contains_nan x
       then Inr (coco_vector_set_to_nan (number_of_objectives p), Transformed p (Vars_discretize offset) inner)
       else rbind (discretized_x [0..<number_of_integer_variables p] offset p (fields inner) x) (\<lambda>z.
            rbind (eval (z @ drop (number_of_integer_variables p) x)) (\<lambda>(y, inner).
              Inr (y, Transformed p (Vars_discretize offset) inner)))))"

text \<open>A linear constraint has no objective function; the function of a logger needs its data.\<close>

fun transformation_evaluate :: "transformation \<Rightarrow> coco_problem_s \<Rightarrow> coco_problem_t \<Rightarrow> evaluation \<Rightarrow> evaluation" where
  "transformation_evaluate Obj_oscillate = transform_obj_oscillate_evaluate False"
| "transformation_evaluate (Obj_power exponent) = transform_obj_power_evaluate exponent False"
| "transformation_evaluate (Obj_shift offset) = transform_obj_shift_evaluate_function offset"
| "transformation_evaluate (Obj_scale factor) = transform_obj_scale_evaluate_function factor"
| "transformation_evaluate (Obj_penalize factor) = transform_obj_penalize_evaluate factor"
| "transformation_evaluate Obj_norm_by_dim = transform_obj_norm_by_dim_evaluate"
| "transformation_evaluate (Vars_affine M b) = transform_vars_affine_evaluate_function M b"
| "transformation_evaluate (Vars_shift offset) = transform_vars_shift_evaluate_function offset"
| "transformation_evaluate (Vars_scale factor) = transform_vars_scale_evaluate factor"
| "transformation_evaluate (Vars_permutation P) = transform_vars_permutation_evaluate P"
| "transformation_evaluate (Vars_conditioning alpha) = transform_vars_conditioning_evaluate alpha"
| "transformation_evaluate (Vars_asymmetric beta) = transform_vars_asymmetric_evaluate_function beta"
| "transformation_evaluate Vars_brs = transform_vars_brs_evaluate"
| "transformation_evaluate Vars_oscillate = transform_vars_oscillate_evaluate_function"
| "transformation_evaluate (Vars_z_hat xopt) = transform_vars_z_hat_evaluate xopt"
| "transformation_evaluate (Vars_x_hat seed) = transform_vars_x_hat_evaluate seed"
| "transformation_evaluate (Vars_inverse_permutation P) = transform_vars_inverse_permutation_evaluate P"
| "transformation_evaluate (Vars_blockrotation B sizes firsts) = transform_vars_blockrotation_evaluate B sizes firsts"
| "transformation_evaluate (Vars_discretize offset) = transform_vars_discretize_evaluate_function offset"
| "transformation_evaluate (Linear_constraint gradient x_shift gradient_norm) = (\<lambda>p inner eval x. Inl Null_deref)"
| "transformation_evaluate Logged = (\<lambda>p inner eval x. Inl Null_deref)"

section \<open>Evaluation with bookkeeping\<close>

definition problem_increment_evaluate_function :: "coco_problem_s \<Rightarrow> coco_problem_s" where
  "problem_increment_evaluate_function p = p\<lparr>evaluations := size_t (evaluations p + 1)\<rparr>"

definition coco_problem_set_best_observed_f_value :: "double \<Rightarrow> coco_problem_s \<Rightarrow> coco_problem_s" where
  "coco_problem_set_best_observed_f_value v p =
     p\<lparr>best_observed_fvalue := v, best_observed_evaluation := evaluations p\<rparr>"

text \<open>What \<open>coco_evaluate_function\<close> does after the function has returned \<open>y\<close>.\<close>

definition bookkeeping :: "double list \<Rightarrow> double list \<times> coco_problem_t \<Rightarrow> (double list \<times> coco_problem_t) result" where
  "bookkeeping x r =
     (case r of (y, p) \<Rightarrow>
        let p = with_fields problem_increment_evaluate_function p in
        rbind (rnth y 0) (\<lambda>v.
          if v < best_observed_fvalue (fields p)
          then rbind (if number_of_constraints (fields p) > 0 then coco_is_feasible p x else Inr (True, p))
            (\<lambda>(is_feasible, p).
              if is_feasible
              then Inr (y, with_fields (coco_problem_set_best_observed_f_value v) p)
              else Inr (y, p))
          else Inr (y, p)))"

text \<open>\<open>coco_evaluate_function\<close> of \<open>p\<close>, whose function pointer is \<open>call\<close>.\<close>

definition evaluate_function_by :: "evaluation \<Rightarrow> coco_problem_t \<Rightarrow> evaluation" where
  "evaluate_function_by call p x =
     (if evaluate_function (fields p) = None then Inl (Assert_failed ''coco_evaluate_function'')
      else rbind (check_point (fields p) (number_of_objectives (fields p)) x) (\<lambda>special.
        case special of
          Some y \<Rightarrow> Inr (y, p)
        | None \<Rightarrow> rbind (call x) (bookkeeping x)))"

text \<open>The stacked function, after both problems have been evaluated.\<close>

definition stacked_check :: "double list \<Rightarrow> double list \<times> coco_problem_t \<Rightarrow> (double list \<times> coco_problem_t) result" where
  "stacked_check x r =
     (case r of (y, p) \<Rightarrow>
        if number_of_constraints (fields p) > 0
        then rbind (coco_is_feasible p x) (\<lambda>(is_feasible, p).
          if is_feasible
          then rbind (assert_best ''coco_problem_stacked_evaluate_function'' (fields p) y) (\<lambda>_. Inr (y, p))
          else Inr (y, p))
        else Inr (y, p))"

text \<open>The call \<open>problem->evaluate_function(problem, x, y)\<close>.\<close>

primrec call_evaluate_function :: "coco_problem_t \<Rightarrow> evaluation" where
  "call_evaluate_function (Basic p) = (\<lambda>x.
     case evaluate_function p of
       Some (Evaluate_raw r) \<Rightarrow> rbind (raw_evaluate r False p x) (\<lambda>y. Inr (y, Basic p))
     | _ \<Rightarrow> Inl Null_deref)"
| "call_evaluate_function (Transformed p t inner) = (\<lambda>x.
     let eval = evaluate_function_by (call_evaluate_function inner) inner
     in case evaluate_function p of
          Some Evaluate_inner \<Rightarrow> rbind (eval x) (\<lambda>(y, inner). Inr (y, Transformed p t inner))
        | Some Evaluate_own \<Rightarrow> transformation_evaluate t p inner eval x
        | _ \<Rightarrow> Inl Null_deref)"
| "call_evaluate_function (Stacked p problem1 problem2) = (\<lambda>x.
     let eval = (\<lambda>q call. if number_of_objectives (fields q) > 0
           then evaluate_function_by call q x else Inr ([], q))
     in if evaluate_function p \<noteq> Some Evaluate_stacked then Inl Null_deref
        else if number_of_objectives p
            \<noteq> number_of_objectives (fields problem1) + number_of_objectives (fields problem2)
        then Inl (Assert_failed ''coco_problem_stacked_evaluate_function'')
        else rbind (eval problem1 (call_evaluate_function problem1)) (\<lambda>(y1, problem1).
             rbind (eval problem2 (call_evaluate_function problem2)) (\<lambda>(y2, problem2).
               stacked_check x (y1 @ y2, Stacked p problem1 problem2))))"

definition coco_evaluate_function :: "coco_problem_t \<Rightarrow> evaluation" where
  "coco_evaluate_function p = evaluate_function_by (call_evaluate_function p) p"

end
