(* ===== verification/Coco_Transformations.thy ===== *)
theory Coco_Transformations
  imports Coco_Evaluation
begin

text \<open>
  The functions that wrap a problem into a transformation (\<open>transform_*.c\<close>), stack two problems
  (\<open>coco_problem.c\<close>) and allocate the constraints of \<open>c_linear.c\<close>. Each gets the problem as a tree and
  returns the new tree; where the code changes the inner problem, the inner tree changes.
\<close>

section \<open>Transformed problems\<close>

definition coco_problem_transformed_allocate ::
    "coco_problem_t \<Rightarrow> transformation \<Rightarrow> string \<Rightarrow> coco_problem_t result" where
  "coco_problem_transformed_allocate inner_problem user_data name_prefix =
     rbind (coco_problem_duplicate (fields inner_problem)) (\<lambda>inner_copy.
     case problem_name (fields inner_problem) of
       None \<Rightarrow> Inl Null_deref
     | Some old_name \<Rightarrow>
         rbind (coco_problem_set_name ''%s(%s)'' (name_prefix @ ''('' @ old_name @ '')'')
           (inner_copy\<lparr>evaluate_function := Some Evaluate_inner,
             evaluate_constraint := Some Constraint_inner\<rparr>)) (\<lambda>inner_copy.
           Inr (Transformed inner_copy user_data inner_problem)))"

definition own_function :: "coco_problem_t \<Rightarrow> coco_problem_t" where
  "own_function = with_fields (\<lambda>p. p\<lparr>evaluate_function := Some Evaluate_own\<rparr>)"

definition own_constraint :: "coco_problem_t \<Rightarrow> coco_problem_t" where
  "own_constraint = with_fields (\<lambda>p. p\<lparr>evaluate_constraint := Some Constraint_own\<rparr>)"

definition set_best_value :: "double list \<Rightarrow> coco_problem_t \<Rightarrow> coco_problem_t" where
  "set_best_value y = with_fields (\<lambda>p. p\<lparr>best_value := y\<rparr>)"

definition set_best_parameter :: "double list \<Rightarrow> coco_problem_t \<Rightarrow> coco_problem_t" where
  "set_best_parameter x = with_fields (\<lambda>p. p\<lparr>best_parameter := Some x\<rparr>)"

definition get_best_parameter :: "coco_problem_t \<Rightarrow> double list result" where
  "get_best_parameter p =
     (case best_parameter (fields p) of
        None \<Rightarrow> Inl Null_deref
      | Some x \<Rightarrow> copy_vector x (number_of_variables (fields p)))"

text \<open>\<open>evaluate(problem, problem->best_parameter, problem->best_value)\<close> for a transformed problem.\<close>

definition evaluate_best_value ::
    "(coco_problem_s \<Rightarrow> coco_problem_t \<Rightarrow> evaluation \<Rightarrow> evaluation) \<Rightarrow> coco_problem_t \<Rightarrow> coco_problem_t result" where
  "evaluate_best_value evaluate problem =
     (case problem of
        Transformed p t inner \<Rightarrow>
          rbind (get_best_parameter problem) (\<lambda>x.
          rbind (evaluate p inner (coco_evaluate_function inner) x) (\<lambda>(y, problem).
            Inr (set_best_value y problem)))
      | _ \<Rightarrow> Inl Null_deref)"

definition transform_obj_oscillate :: "coco_problem_t \<Rightarrow> coco_problem_t result" where
  "transform_obj_oscillate inner_problem =
     rbind (coco_problem_transformed_allocate inner_problem Obj_oscillate ''transform_obj_oscillate'')
       (\<lambda>problem. evaluate_best_value (transform_obj_oscillate_evaluate True) (own_function problem))"

definition transform_obj_power :: "coco_problem_t \<Rightarrow> double \<Rightarrow> coco_problem_t result" where
  "transform_obj_power inner_problem exponent =
     rbind (coco_problem_transformed_allocate inner_problem (Obj_power exponent) ''transform_obj_power'')
       (\<lambda>problem. evaluate_best_value (transform_obj_power_evaluate exponent True) (own_function problem))"

definition transform_obj_shift :: "coco_problem_t \<Rightarrow> double \<Rightarrow> coco_problem_t result" where
  "transform_obj_shift inner_problem offset =
     rbind (coco_problem_transformed_allocate inner_problem (Obj_shift offset) ''transform_obj_shift'')
       (\<lambda>problem.
         let problem = (if number_of_objectives (fields inner_problem) > 0 then own_function problem else problem);
             n = number_of_objectives (fields problem);
             best = best_value (fields problem)
         in Inr (set_best_value (map (\<lambda>v. v + offset) (take n best) @ drop n best) problem))"

definition transform_obj_scale :: "coco_problem_t \<Rightarrow> double \<Rightarrow> coco_problem_t result" where
  "transform_obj_scale inner_problem factor =
     rbind (coco_problem_transformed_allocate inner_problem (Obj_scale factor) ''transform_obj_scale'')
       (\<lambda>problem.
         let problem = (if number_of_objectives (fields inner_problem) > 0 then own_function problem else problem);
             n = number_of_objectives (fields problem);
             best = best_value (fields problem)
         in Inr (set_best_value (map (\<lambda>v. v * factor) (take n best) @ drop n best) problem))"

definition transform_obj_penalize :: "coco_problem_t \<Rightarrow> double \<Rightarrow> coco_problem_t result" where
  "transform_obj_penalize inner_problem factor =
     rbind (coco_problem_transformed_allocate inner_problem (Obj_penalize factor) ''transform_obj_penalize'')
       (\<lambda>problem. Inr (own_function problem))"

definition transform_obj_norm_by_dim :: "coco_problem_t \<Rightarrow> coco_problem_t result" where
  "transform_obj_norm_by_dim inner_problem =
     rbind (coco_problem_transformed_allocate inner_problem Obj_norm_by_dim ''transform_obj_norm_by_dim'')
       (\<lambda>problem. Inr (own_function problem))"

text \<open>The best parameter becomes \<open>M^T (best_parameter - b)\<close> if \<open>M\<close> passes the test of orthogonality.\<close>

definition affine_best_parameter :: "double list \<Rightarrow> double list \<Rightarrow> nat \<Rightarrow> nat \<Rightarrow> double list \<Rightarrow> double list" where
  "affine_best_parameter M b n inner_n best =
     map (\<lambda>i. accumulate (Real 0) [0..<inner_n] (\<lambda>j. M ! (j * n + i) * (best ! j - b ! j))) [0..<n]"

definition transform_vars_affine ::
    "coco_problem_t \<Rightarrow> double list \<Rightarrow> double list \<Rightarrow> nat \<Rightarrow> coco_problem_t result" where
  "transform_vars_affine inner_problem M b nvars =
     (let inner_n = number_of_variables (fields inner_problem) in
      rbind (copy_vector M (inner_n * nvars)) (\<lambda>M.
      rbind (copy_vector b inner_n) (\<lambda>b.
      rbind (coco_problem_transformed_allocate inner_problem (Vars_affine M b) ''transform_vars_affine'')
        (\<lambda>problem.
          let problem = (if number_of_objectives (fields inner_problem) > 0 then own_function problem else problem);
              problem = (if number_of_constraints (fields inner_problem) > 0 then own_constraint problem else problem);
              n = number_of_variables (fields problem)
          in rbind (coco_problem_best_parameter_not_zero (fields inner_problem)) (\<lambda>not_zero.
             if not_zero \<or> \<not> vector_is_zero b then
               if \<not> coco_is_orthogonal M n inner_n then Inr problem
               else rbind (get_best_parameter inner_problem) (\<lambda>best.
                 Inr (set_best_parameter (affine_best_parameter M b n inner_n best) problem))
             else Inr problem)))))"

text \<open>Adding the offset to the first entries of a vector.\<close>

definition add_offset :: "double list \<Rightarrow> double list \<Rightarrow> double list" where
  "add_offset offset x = map (\<lambda>i. x ! i + offset ! i) [0..<length offset]"

definition transform_vars_shift :: "coco_problem_t \<Rightarrow> double list \<Rightarrow> bool \<Rightarrow> coco_problem_t result" where
  "transform_vars_shift inner_problem offset shift_constraint_only =
     rbind (copy_vector offset (number_of_variables (fields inner_problem))) (\<lambda>offset.
     rbind (coco_problem_transformed_allocate inner_problem (Vars_shift offset) ''transform_vars_shift'')
       (\<lambda>problem.
         let problem = (if number_of_objectives (fields inner_problem) > 0 \<and> \<not> shift_constraint_only
               then own_function problem else problem);
             problem = (if number_of_constraints (fields inner_problem) > 0 then own_constraint problem else problem)
         in rbind (get_best_parameter problem) (\<lambda>best.
              let problem = set_best_parameter (add_offset offset best) problem in
              Inr (with_fields (\<lambda>p. p\<lparr>initial_solution := map_option (add_offset offset) (initial_solution p)\<rparr>)
                problem))))"

definition transform_vars_scale :: "coco_problem_t \<Rightarrow> double \<Rightarrow> coco_problem_t result" where
  "transform_vars_scale inner_problem factor =
     rbind (coco_problem_transformed_allocate inner_problem (Vars_scale factor) ''transform_vars_scale'')
       (\<lambda>problem.
         let problem = own_function problem in
         if not_equal factor (Real 0)
         then rbind (get_best_parameter problem) (\<lambda>best.
           Inr (set_best_parameter (map (\<lambda>v. ddiv v factor) best) problem))
         else Inr problem)"

definition transform_vars_permutation :: "coco_problem_t \<Rightarrow> nat list \<Rightarrow> nat \<Rightarrow> coco_problem_t result" where
  "transform_vars_permutation inner_problem P nvars =
     (if \<not> nvars > 0 then Inl (Assert_failed ''transform_vars_permutation'')
      else if length P < number_of_variables (fields inner_problem) then Inl Out_of_bounds
      else rbind (coco_problem_transformed_allocate inner_problem
          (Vars_permutation (take (number_of_variables (fields inner_problem)) P))
          ''transform_vars_permutation'') (\<lambda>problem. Inr (own_function problem)))"

text \<open>
  Three transformations do not update the best parameter: if it is not zero, they set the one of the
  inner problem to NaN, after it has been copied to the outer problem.
\<close>

definition forget_inner_best_parameter :: "coco_problem_t \<Rightarrow> coco_problem_t result" where
  "forget_inner_best_parameter problem =
     (case problem of
        Transformed p t inner \<Rightarrow>
          rbind (coco_problem_best_parameter_not_zero (fields inner)) (\<lambda>not_zero.
            if not_zero
            then Inr (Transformed p t
              (set_best_parameter (coco_vector_set_to_nan (number_of_variables (fields inner))) inner))
            else Inr problem)
      | _ \<Rightarrow> Inl Null_deref)"

definition transform_vars_conditioning :: "coco_problem_t \<Rightarrow> double \<Rightarrow> coco_problem_t result" where
  "transform_vars_conditioning inner_problem alpha =
     rbind (coco_problem_transformed_allocate inner_problem (Vars_conditioning alpha)
       ''transform_vars_conditioning'') (\<lambda>problem. forget_inner_best_parameter (own_function problem))"

definition transform_vars_brs :: "coco_problem_t \<Rightarrow> coco_problem_t result" where
  "transform_vars_brs inner_problem =
     rbind (coco_problem_transformed_allocate inner_problem Vars_brs ''transform_vars_brs'')
       (\<lambda>problem. forget_inner_best_parameter (own_function problem))"

text \<open>
  The backtracking of an initial solution that is no longer feasible: the coordinates are multiplied
  by 0.9 in turn until it is; \<open>None\<close> if this does not end.
\<close>

definition shrink :: "nat \<Rightarrow> double list \<Rightarrow> double list" where
  "shrink i x = x[i := x ! i * Real (9 / 10)]"

partial_function (option) backtrack ::
    "coco_problem_t \<Rightarrow> nat \<Rightarrow> double list \<Rightarrow> nat \<Rightarrow> (double list \<times> coco_problem_t) result option" where
  "backtrack problem inner_n x i =
     (case coco_is_feasible problem (shrink i x) of
        Inl e \<Rightarrow> Some (Inl e)
      | Inr (is_feasible, problem) \<Rightarrow>
          if is_feasible then Some (Inr (shrink i x, problem))
          else backtrack problem inner_n (shrink i x) ((i + 1) mod inner_n))"

definition keep_feasible :: "coco_problem_t \<Rightarrow> coco_problem_t \<Rightarrow> coco_problem_t result" where
  "keep_feasible inner_problem problem =
     (case initial_solution (fields inner_problem) of
        None \<Rightarrow> Inr problem
      | Some x \<Rightarrow>
          rbind (coco_is_feasible problem x) (\<lambda>(is_feasible, problem).
            if is_feasible then Inr problem
            else case backtrack problem (number_of_variables (fields inner_problem)) x 0 of
              None \<Rightarrow> Inl No_return
            | Some r \<Rightarrow> rbind r (\<lambda>(x, problem).
                Inr (with_fields (\<lambda>p. p\<lparr>initial_solution := Some x\<rparr>) problem))))"

definition transform_vars_asymmetric :: "coco_problem_t \<Rightarrow> double \<Rightarrow> coco_problem_t result" where
  "transform_vars_asymmetric inner_problem beta =
     rbind (coco_problem_transformed_allocate inner_problem (Vars_asymmetric beta)
       ''transform_vars_asymmetric'') (\<lambda>problem.
       let problem = (if number_of_objectives (fields inner_problem) > 0 then own_function problem else problem) in
       rbind (if number_of_constraints (fields inner_problem) > 0
              then keep_feasible inner_problem (own_constraint problem) else Inr problem) (\<lambda>problem.
         if number_of_objectives (fields inner_problem) > 0
         then forget_inner_best_parameter problem else Inr problem))"

definition transform_vars_oscillate :: "coco_problem_t \<Rightarrow> coco_problem_t result" where
  "transform_vars_oscillate inner_problem =
     rbind (coco_problem_transformed_allocate inner_problem Vars_oscillate
       ''transform_vars_oscillate'') (\<lambda>problem.
       let problem = (if number_of_objectives (fields inner_problem) > 0 then own_function problem else problem) in
       if number_of_constraints (fields inner_problem) > 0
       then keep_feasible inner_problem (own_constraint problem) else Inr problem)"

text \<open>\<open>strstr(id, "schwefel")\<close>\<close>

definition contains_text :: "string \<Rightarrow> string \<Rightarrow> bool" where
  "contains_text s w \<longleftrightarrow> list_ex (\<lambda>i. take (length w) (drop i s) = w) [0..<Suc (length s)]"

definition transform_vars_z_hat :: "coco_problem_t \<Rightarrow> double list \<Rightarrow> coco_problem_t result" where
  "transform_vars_z_hat inner_problem xopt =
     rbind (copy_vector xopt (number_of_variables (fields inner_problem))) (\<lambda>xopt.
     rbind (coco_problem_transformed_allocate inner_problem (Vars_z_hat xopt) ''transform_vars_z_hat'')
       (\<lambda>problem.
         let problem = own_function problem in
         rbind (coco_problem_get_id (fields inner_problem)) (\<lambda>id.
           if \<not> contains_text id ''schwefel''
           then Inr (set_best_parameter (coco_vector_set_to_nan (number_of_variables (fields problem))) problem)
           else Inr problem)))"

definition transform_vars_x_hat :: "coco_problem_t \<Rightarrow> int \<Rightarrow> coco_problem_t result" where
  "transform_vars_x_hat inner_problem seed =
     rbind (coco_problem_transformed_allocate inner_problem (Vars_x_hat seed) ''transform_vars_x_hat'')
       (\<lambda>problem.
         let problem = own_function problem; n = number_of_variables (fields problem) in
         rbind (coco_problem_best_parameter_not_zero (fields problem)) (\<lambda>not_zero.
           if \<not> not_zero then Inr problem
           else rbind (bbob2009_unif n seed) (\<lambda>u.
                rbind (get_best_parameter problem) (\<lambda>best.
                  Inr (set_best_parameter
                    (map (\<lambda>i. if u ! i < 1 / 2 then best ! i * Real (- 1) else best ! i) [0..<n]) problem)))))"

definition transform_vars_inverse_permutation :: "coco_problem_t \<Rightarrow> nat list \<Rightarrow> nat \<Rightarrow> coco_problem_t result" where
  "transform_vars_inverse_permutation inner_problem P nvars =
     (if \<not> nvars > 0 then Inl (Assert_failed ''transform_vars_inverse_permutation'')
      else if length P < number_of_variables (fields inner_problem) then Inl Out_of_bounds
      else rbind (coco_problem_transformed_allocate inner_problem
          (Vars_inverse_permutation (take (number_of_variables (fields inner_problem)) P))
          ''transform_vars_inverse_permutation'') (\<lambda>problem. Inr (own_function problem)))"

section \<open>Block rotations\<close>

text \<open>
  The size of the block of every row and the end of its block: \<open>bs\<close> starts with the current block, \<open>next\<close>
  is the row behind it.
\<close>

fun block_rows :: "nat list \<Rightarrow> nat list \<Rightarrow> nat \<Rightarrow> (nat \<times> nat) list result" where
  "block_rows [] bs next = Inr []"
| "block_rows (i # is) [] next = Inl Out_of_bounds"
| "block_rows (i # is) (b # bs) next =
     (if i \<ge> next
      then (case bs of
              [] \<Rightarrow> Inl Out_of_bounds
            | c # _ \<Rightarrow> rbind (block_rows is bs (next + c)) (\<lambda>rows. Inr ((c, next + c) # rows)))
      else rbind (block_rows is (b # bs) next) (\<lambda>rows. Inr ((b, next) # rows)))"

definition blocks_of_rows :: "nat \<Rightarrow> nat list \<Rightarrow> (nat \<times> nat) list result" where
  "blocks_of_rows n block_sizes =
     rbind (rnth block_sizes 0) (\<lambda>b. block_rows [0..<n] block_sizes b)"

text \<open>A new block matrix holds unspecified values.\<close>

definition coco_allocate_blockmatrix :: "nat \<Rightarrow> nat list \<Rightarrow> double list list result" where
  "coco_allocate_blockmatrix n block_sizes =
     (if sum_list block_sizes \<noteq> n then Inl (Assert_failed ''coco_allocate_blockmatrix'')
      else rbind (blocks_of_rows n block_sizes) (\<lambda>rows. Inr (map (\<lambda>(b, _). replicate b NaN) rows)))"

definition coco_copy_block_matrix :: "double list list \<Rightarrow> nat \<Rightarrow> nat list \<Rightarrow> double list list result" where
  "coco_copy_block_matrix B dimension block_sizes =
     rbind (coco_allocate_blockmatrix dimension block_sizes) (\<lambda>_.
     rbind (blocks_of_rows dimension block_sizes) (\<lambda>rows.
       if length B < dimension \<or> list_ex (\<lambda>i. length (B ! i) < fst (rows ! i)) [0..<dimension] then Inl Out_of_bounds
       else Inr (map (\<lambda>i. take (fst (rows ! i)) (B ! i)) [0..<dimension])))"

text \<open>The blocks are rotations with the seeds \<open>seed + 1000000 k\<close>, their rows one below the other.\<close>

definition rotation_rows :: "double list list \<Rightarrow> nat \<Rightarrow> double list list" where
  "rotation_rows rot n = map (\<lambda>i. map (entry rot i) [0..<n]) [0..<n]"

fun blockrotation_loop :: "nat list \<Rightarrow> int \<Rightarrow> nat \<Rightarrow> double list list result" where
  "blockrotation_loop [] seed idx_block = Inr []"
| "blockrotation_loop (b # bs) seed idx_block =
     (if \<not> b \<le> 44 then Inl (Assert_failed ''coco_compute_blockrotation'')
      else rbind (bbob2009_compute_rotation (seed + 1000000 * int idx_block) b) (\<lambda>rot.
           rbind (blockrotation_loop bs seed (idx_block + 1)) (\<lambda>rows. Inr (rotation_rows rot b @ rows))))"

definition coco_compute_blockrotation :: "int \<Rightarrow> nat \<Rightarrow> nat list \<Rightarrow> double list list result" where
  "coco_compute_blockrotation seed n block_sizes =
     (if sum_list block_sizes \<noteq> n then Inl (Assert_failed ''coco_compute_blockrotation'')
      else blockrotation_loop block_sizes seed 0)"

text \<open>
  The test of a block rotation on its own rows: the product of the matrix with row \<open>i\<close> must be the unit
  vector \<open>i\<close>, up to the precision.
\<close>

definition transform_vars_blockrotation_get_row ::
    "double list list \<Rightarrow> nat list \<Rightarrow> nat list \<Rightarrow> nat \<Rightarrow> double list" where
  "transform_vars_blockrotation_get_row B sizes firsts i =
     map (\<lambda>j. if j < firsts ! i \<or> j \<ge> firsts ! i + sizes ! i then Real 0 else B ! i ! (j - firsts ! i))
       [0..<length sizes]"

definition transform_vars_blockrotation_test ::
    "double list list \<Rightarrow> nat list \<Rightarrow> nat list \<Rightarrow> nat \<Rightarrow> double \<Rightarrow> unit result" where
  "transform_vars_blockrotation_test B sizes firsts n precision =
     (if list_all (\<lambda>i.
           let y = transform_vars_blockrotation_apply B sizes firsts
                 (transform_vars_blockrotation_get_row B sizes firsts i)
           in list_all (\<lambda>j. almost_equal (y ! j) (if i = j then Real 1 else Real 0) precision) [0..<n]) [0..<n]
      then Inr () else Inl (Coco_error ''transform_vars_blockrotation_test''))"

text \<open>
  A best parameter of the inner problem that is not zero becomes NaN before it is copied to the outer
  problem.
\<close>

definition transform_vars_blockrotation ::
    "coco_problem_t \<Rightarrow> double list list \<Rightarrow> nat \<Rightarrow> nat list \<Rightarrow> coco_problem_t result" where
  "transform_vars_blockrotation inner_problem B nvars block_sizes =
     (if \<not> nvars > 0 then Inl (Assert_failed ''transform_vars_blockrotation'')
      else rbind (coco_copy_block_matrix B nvars block_sizes) (\<lambda>B.
        rbind (blocks_of_rows nvars block_sizes) (\<lambda>rows.
        let sizes = map fst rows; firsts = map (\<lambda>(b, next). next - b) rows in
        rbind (coco_problem_best_parameter_not_zero (fields inner_problem)) (\<lambda>not_zero.
        let inner_problem = (if not_zero
              then set_best_parameter (coco_vector_set_to_nan (number_of_variables (fields inner_problem))) inner_problem
              else inner_problem) in
        rbind (coco_problem_transformed_allocate inner_problem (Vars_blockrotation B sizes firsts)
          ''transform_vars_blockrotation'') (\<lambda>problem.
        rbind (if nvars < 100
               then transform_vars_blockrotation_test B sizes firsts (number_of_variables (fields problem))
                 (Real (1 / 10 ^ 5))
               else Inr ()) (\<lambda>_.
          Inr (own_function problem)))))))"

section \<open>Discretization\<close>

text \<open>
  The best parameter of an integer variable is the integer nearest to the optimum of the inner problem,
  the offset moves its value onto that optimum. \<open>number_of_integer_variables\<close> is \<open>k\<close>.
\<close>

definition discretize_optimum :: "double \<times> double \<times> double \<times> double \<Rightarrow> double \<Rightarrow> double \<times> double" where
  "discretize_optimum = (\<lambda>(outer_l, outer_u, inner_l, inner_u) inner_xopt.
     let outer_xopt = outer_l + ddiv ((outer_u - outer_l) * (inner_xopt - inner_l)) (inner_u - inner_l);
         outer_xopt = clamp outer_l outer_u (dround (outer_xopt + Real (1 / 10 ^ 7)))
     in (outer_xopt, inner_value (outer_l, outer_u, inner_l, inner_u) outer_xopt - inner_xopt))"

fun discretize_loop ::
    "nat list \<Rightarrow> double list \<Rightarrow> double list \<Rightarrow> nat \<Rightarrow> coco_problem_s \<Rightarrow> coco_problem_s \<Rightarrow> double list
      \<Rightarrow> (coco_problem_s \<times> double list) result" where
  "discretize_loop [] smallest largest k inner problem offset = Inr (problem, offset)"
| "discretize_loop (i # is) smallest largest k inner problem offset =
     rbind (rnth smallest i) (\<lambda>l. rbind (rnth largest i) (\<lambda>u.
       if \<not> l < u then Inl (Assert_failed ''transform_vars_discretize'')
       else
         let problem = problem\<lparr>smallest_values_of_interest := (smallest_values_of_interest problem)[i := l],
               largest_values_of_interest := (largest_values_of_interest problem)[i := u]\<rparr> in
         if \<not> i < k then discretize_loop is smallest largest k inner problem (offset[i := Real 0])
         else rbind (discretize_bounds problem inner i) (\<lambda>bounds.
           case (best_parameter inner, best_parameter problem) of
             (Some inner_best, Some best) \<Rightarrow>
               rbind (rnth inner_best i) (\<lambda>inner_xopt.
                 let (outer_xopt, o_i) = discretize_optimum bounds inner_xopt
                 in discretize_loop is smallest largest k inner
                      (problem\<lparr>best_parameter := Some (best[i := outer_xopt])\<rparr>) (offset[i := o_i]))
           | _ \<Rightarrow> Inl Null_deref)))"

definition transform_vars_discretize ::
    "coco_problem_t \<Rightarrow> double list \<Rightarrow> double list \<Rightarrow> nat \<Rightarrow> coco_problem_t result" where
  "transform_vars_discretize inner_problem smallest largest number_of_integers =
     rbind (coco_allocate_vector (number_of_variables (fields inner_problem))) (\<lambda>offset.
     rbind (coco_problem_transformed_allocate inner_problem (Vars_discretize offset) ''transform_vars_discretize'')
       (\<lambda>problem.
         if \<not> number_of_integers > 0 then Inl (Assert_failed ''transform_vars_discretize'')
         else rbind (discretize_loop [0..<number_of_variables (fields problem)] smallest largest number_of_integers
             (fields inner_problem) ((fields problem)\<lparr>number_of_integer_variables := number_of_integers\<rparr>) offset)
           (\<lambda>(p, offset).
             let p = (if number_of_objectives (fields inner_problem) > 0
                      then p\<lparr>evaluate_function := Some Evaluate_own\<rparr> else p)
             in if number_of_constraints p > 0 then Inl (Coco_error ''transform_vars_discretize'')
                else Inr (Transformed (p\<lparr>evaluate_constraint := None\<rparr>) (Vars_discretize offset) inner_problem))))"

section \<open>Stacked problems\<close>

text \<open>
  \<open>coco_evaluate_function(problem1, problem2->best_parameter, &problem->nadir_value[0])\<close>: the first
  result is the entry of the nadir point.
\<close>

definition evaluate_at_best_of :: "coco_problem_t \<Rightarrow> coco_problem_t \<Rightarrow> (double \<times> coco_problem_t) result" where
  "evaluate_at_best_of problem other =
     rbind (get_best_parameter other) (\<lambda>x.
     rbind (coco_evaluate_function problem x) (\<lambda>(y, problem).
     rbind (rnth y 0) (\<lambda>v. Inr (v, problem))))"

definition coco_problem_stacked_allocate ::
    "coco_problem_t \<Rightarrow> coco_problem_t \<Rightarrow> double list \<Rightarrow> double list \<Rightarrow> coco_problem_t result" where
  "coco_problem_stacked_allocate problem1 problem2 smallest largest =
     (let p1 = fields problem1; p2 = fields problem2;
          nobjs = number_of_objectives p1 + number_of_objectives p2;
          ncons = number_of_constraints p1 + number_of_constraints p2
      in
        rbind (coco_problem_get_dimension p1) (\<lambda>n.
        rbind (coco_problem_get_dimension p2) (\<lambda>n2.
        if n \<noteq> n2 then Inl (Assert_failed ''coco_problem_stacked_allocate'')
        else rbind (coco_problem_allocate n nobjs ncons) (\<lambda>problem.
          rbind (coco_problem_get_id p1) (\<lambda>id1. rbind (coco_problem_get_id p2) (\<lambda>id2.
          rbind (coco_problem_get_name p1) (\<lambda>name1. rbind (coco_problem_get_name p2) (\<lambda>name2.
          rbind (copy_vector smallest n) (\<lambda>smallest. rbind (copy_vector largest n) (\<lambda>largest.
          let problem = problem
            \<lparr> problem_id := Some (coco_strconcat (coco_strconcat id1 ''__'') id2),
              problem_name := Some (coco_strconcat (coco_strconcat name1 '' + '') name2),
              evaluate_function := Some Evaluate_stacked,
              evaluate_constraint := (if ncons > 0 then Some Constraint_stacked else None),
              smallest_values_of_interest := smallest, largest_values_of_interest := largest \<rparr>
          in
            if number_of_integer_variables p1 \<noteq> number_of_integer_variables p2
            then Inl (Assert_failed ''coco_problem_stacked_allocate'')
            else
              let problem = problem\<lparr>number_of_integer_variables := number_of_integer_variables p1\<rparr> in
              if ncons > 0 then
                rbind (rupd (best_value problem) 0 (Real (- FLT_MAX))) (\<lambda>best.
                rbind (if number_of_constraints p2 > 0
                       then copy_optional (initial_solution p2) n None else Inr None) (\<lambda>solution.
                  Inr (Stacked (problem\<lparr>best_value := best, initial_solution := solution\<rparr>)
                    problem1 problem2)))
              else case nadir_value problem of
                None \<Rightarrow> Inl (Assert_failed ''coco_problem_stacked_allocate'')
              | Some nadir \<Rightarrow>
                rbind (rnth (best_value p1) 0) (\<lambda>best1. rbind (rnth (best_value p2) 0) (\<lambda>best2.
                rbind (evaluate_at_best_of problem1 problem2) (\<lambda>(nadir1, problem1).
                rbind (evaluate_at_best_of problem2 problem1) (\<lambda>(nadir2, problem2).
                  Inr (Stacked (problem
                    \<lparr> best_value := (best_value problem)[0 := best1, 1 := best2],
                      nadir_value := Some (nadir[0 := nadir1, 1 := nadir2]) \<rparr>) problem1 problem2)))))))))))))))"

section \<open>Linear constraints\<close>

definition c_sum_variables_allocate :: "nat \<Rightarrow> coco_problem_t result" where
  "c_sum_variables_allocate nvars =
     rbind (coco_problem_allocate nvars 0 1) (\<lambda>problem.
     rbind (coco_problem_set_id ''%s_d%02lu'' (''linearconstraint_d'' @ pad 2 (show_nat nvars))
       (problem\<lparr>evaluate_constraint := Some Sum_variables\<rparr>)) (\<lambda>problem.
       Inr (Basic (problem\<lparr>smallest_values_of_interest := replicate nvars (Real (- 5)),
         largest_values_of_interest := replicate nvars (Real 5)\<rparr>))))"

end
