(* ===== verification/Coco_Bbob.thy ===== *)
theory Coco_Bbob
  imports Coco_Transformations
begin

text \<open>
  The problems of the bbob suite: the allocators of the basic problems (\<open>f_*_allocate\<close>) and the
  compositions of transformations that make a bbob problem of them (\<open>f_*_bbob_problem_allocate\<close>), in
  the files \<open>f_*.c\<close>. Every construction gets the function, the dimension, the instance, the random seed
  and the templates for the id and the name, and computes the instance with the generators of
  \<open>Coco_Legacy\<close>. Releasing the temporary arrays is left out.
\<close>

section \<open>Basic problems\<close>

text \<open>\<open>coco_problem_allocate_from_scalars\<close> on \<open>[-5, 5]\<close>, then \<open>coco_problem_set_id(problem, "%s_d%02lu", id, n)\<close>.\<close>

definition allocate_basic :: "string \<Rightarrow> string \<Rightarrow> raw_function \<Rightarrow> nat \<Rightarrow> double \<Rightarrow> coco_problem_s result" where
  "allocate_basic name prefix function n best =
     rbind (coco_problem_allocate_from_scalars name function n (Real (- 5)) (Real 5) best)
       (coco_problem_set_id ''%s_d%02lu'' (prefix @ ''_d'' @ pad 2 (show_nat n)))"

text \<open>\<open>f_evaluate(problem, x, problem->best_value)\<close> and the same at \<open>problem->best_parameter\<close>.\<close>

definition set_best_value_at ::
    "(bool \<Rightarrow> coco_problem_s \<Rightarrow> double list \<Rightarrow> double list result) \<Rightarrow> double list \<Rightarrow> coco_problem_s \<Rightarrow> coco_problem_t result" where
  "set_best_value_at evaluate x problem =
     rbind (evaluate True problem x) (\<lambda>y. Inr (Basic (problem\<lparr>best_value := y\<rparr>)))"

definition evaluate_at_best ::
    "(bool \<Rightarrow> coco_problem_s \<Rightarrow> double list \<Rightarrow> double list result) \<Rightarrow> coco_problem_s \<Rightarrow> coco_problem_t result" where
  "evaluate_at_best evaluate problem =
     (case best_parameter problem of
        None \<Rightarrow> Inl Null_deref
      | Some x \<Rightarrow> set_best_value_at evaluate x problem)"

definition f_sphere_allocate :: "nat \<Rightarrow> coco_problem_t result" where
  "f_sphere_allocate n =
     rbind (allocate_basic ''sphere function'' ''sphere'' Sphere n (Real 0))
       (evaluate_at_best f_sphere_evaluate)"

definition f_ellipsoid_allocate :: "nat \<Rightarrow> coco_problem_t result" where
  "f_ellipsoid_allocate n =
     rbind (allocate_basic ''ellipsoid function'' ''ellipsoid'' Ellipsoid n (Real 0))
       (evaluate_at_best f_ellipsoid_evaluate)"

definition f_rastrigin_allocate :: "nat \<Rightarrow> coco_problem_t result" where
  "f_rastrigin_allocate n =
     rbind (allocate_basic ''Rastrigin function'' ''rastrigin'' Rastrigin n (Real 0))
       (evaluate_at_best f_rastrigin_evaluate)"

definition f_bueche_rastrigin_allocate :: "nat \<Rightarrow> coco_problem_t result" where
  "f_bueche_rastrigin_allocate n =
     rbind (allocate_basic ''Bueche-Rastrigin function'' ''bueche-rastrigin'' Bueche_rastrigin n (Real 0))
       (evaluate_at_best f_bueche_rastrigin_evaluate)"

definition f_rosenbrock_allocate :: "nat \<Rightarrow> coco_problem_t result" where
  "f_rosenbrock_allocate n =
     rbind (allocate_basic ''Rosenbrock function'' ''rosenbrock'' Rosenbrock n (Real 1))
       (evaluate_at_best f_rosenbrock_evaluate)"

definition f_discus_allocate :: "nat \<Rightarrow> coco_problem_t result" where
  "f_discus_allocate n =
     rbind (allocate_basic ''discus function'' ''discus'' Discus n (Real 0))
       (evaluate_at_best f_discus_evaluate)"

definition f_bent_cigar_allocate :: "nat \<Rightarrow> coco_problem_t result" where
  "f_bent_cigar_allocate n =
     rbind (allocate_basic ''bent cigar function'' ''bent_cigar'' Bent_cigar n (Real 0))
       (evaluate_at_best f_bent_cigar_evaluate)"

definition f_sharp_ridge_allocate :: "nat \<Rightarrow> coco_problem_t result" where
  "f_sharp_ridge_allocate n =
     rbind (allocate_basic ''sharp ridge function'' ''sharp_ridge'' Sharp_ridge n (Real 0))
       (evaluate_at_best f_sharp_ridge_evaluate)"

definition f_different_powers_allocate :: "nat \<Rightarrow> coco_problem_t result" where
  "f_different_powers_allocate n =
     rbind (allocate_basic ''different powers function'' ''different_powers'' Different_powers n (Real 0))
       (evaluate_at_best f_different_powers_evaluate)"

definition f_griewank_rosenbrock_allocate :: "nat \<Rightarrow> coco_problem_t result" where
  "f_griewank_rosenbrock_allocate n =
     rbind (allocate_basic ''Griewank Rosenbrock function'' ''griewank_rosenbrock'' Griewank_rosenbrock n (Real 1))
       (evaluate_at_best f_griewank_rosenbrock_evaluate)"

definition f_katsuura_allocate :: "nat \<Rightarrow> coco_problem_t result" where
  "f_katsuura_allocate n =
     rbind (allocate_basic ''Katsuura function'' ''katsuura'' Katsuura n (Real 0))
       (evaluate_at_best f_katsuura_evaluate)"

text \<open>The name of Schaffer's function contains an apostrophe.\<close>

definition f_schaffers_allocate :: "nat \<Rightarrow> coco_problem_t result" where
  "f_schaffers_allocate n =
     rbind (allocate_basic (''Schaffer'' @ [CHR 0x27] @ ''s function'') ''schaffers'' Schaffers n (Real 0))
       (evaluate_at_best f_schaffers_evaluate)"

definition f_schwefel_allocate :: "nat \<Rightarrow> coco_problem_t result" where
  "f_schwefel_allocate n =
     rbind (allocate_basic ''Schwefel function'' ''schwefel'' Schwefel n (Real (42096874633 / 10 ^ 8)))
       (evaluate_at_best f_schwefel_evaluate)"

definition f_attractive_sector_allocate :: "nat \<Rightarrow> double list \<Rightarrow> coco_problem_t result" where
  "f_attractive_sector_allocate n xopt =
     rbind (copy_vector xopt n) (\<lambda>xopt.
     rbind (allocate_basic ''attractive sector function'' ''attractive_sector'' (Attractive_sector xopt) n (Real 0))
       (evaluate_at_best (f_attractive_sector_evaluate xopt)))"

text \<open>The best parameter of the linear slope is the corner of the region of interest that \<open>best\<close> points to.\<close>

definition f_linear_slope_allocate :: "nat \<Rightarrow> double list \<Rightarrow> coco_problem_t result" where
  "f_linear_slope_allocate n best =
     rbind (allocate_basic ''linear slope function'' ''linear_slope'' Linear_slope n (Real 0)) (\<lambda>problem.
     rbind (copy_vector best n) (\<lambda>best.
       evaluate_at_best f_linear_slope_evaluate
         (problem\<lparr>best_parameter := Some (map (\<lambda>i.
            if best ! i < Real 0 then smallest_values_of_interest problem ! i
            else largest_values_of_interest problem ! i) [0..<n])\<rparr>)))"

definition weierstrass_data :: f_weierstrass_data where
  "weierstrass_data =
     (let ak = map (\<lambda>i. dpow (Real (1 / 2)) (Real (real i))) [0..<F_WEIERSTRASS_SUMMANDS];
          bk = map (\<lambda>i. dpow (Real 3) (Real (real i))) [0..<F_WEIERSTRASS_SUMMANDS];
          f0 = accumulate (Real 0) [0..<F_WEIERSTRASS_SUMMANDS] (\<lambda>i.
            ak ! i * dcos (Real (2 * pi) * bk ! i * Real (1 / 2)))
      in (f0, ak, bk))"

definition f_weierstrass_allocate :: "nat \<Rightarrow> coco_problem_t result" where
  "f_weierstrass_allocate n =
     rbind (allocate_basic ''Weierstrass function'' ''weierstrass'' (Weierstrass weierstrass_data) n (Real 0))
       (set_best_value_at (f_weierstrass_evaluate weierstrass_data) (replicate n (Real 0)))"

section \<open>Parts of the constructions\<close>

text \<open>
  The last step: the id and the name from the templates, which get the function, the instance and the
  dimension, and the type.
\<close>

definition name_problem ::
    "string \<Rightarrow> string \<Rightarrow> string \<Rightarrow> nat \<Rightarrow> nat \<Rightarrow> nat \<Rightarrow> coco_problem_t \<Rightarrow> coco_problem_t result" where
  "name_problem id_template name_template ptype function instance dimension problem =
     (let ns = [function, instance, dimension] in
      rbind (coco_problem_set_id id_template (format_lu id_template ns) (fields problem)) (\<lambda>p.
      rbind (coco_problem_set_name name_template (format_lu name_template ns) p) (\<lambda>p.
      rbind (coco_problem_set_type ptype ptype p) (\<lambda>p.
        Inr (with_fields (\<lambda>_. p) problem)))))"

definition large_scale :: "string \<Rightarrow> bool result" where
  "large_scale name_template =
     rbind (coco_strfind name_template ''BBOB large-scale suite'') (\<lambda>i. Inr (0 \<le> i))"

definition norm_if_large_scale :: "string \<Rightarrow> coco_problem_t \<Rightarrow> coco_problem_t result" where
  "norm_if_large_scale name_template problem =
     rbind (large_scale name_template) (\<lambda>large.
       if large then transform_obj_norm_by_dim problem else Inr problem)"

definition coco_rotation_matrix_block_size :: "nat \<Rightarrow> nat result" where
  "coco_rotation_matrix_block_size dimension =
     (case coco_double_to_size_t (coco_double_min (1 * real dimension) 40) of
        None \<Rightarrow> Inl Out_of_bounds
      | Some n \<Rightarrow> Inr n)"

text \<open>
  A matrix stored row by row, and the product of two rotations with a diagonal matrix of powers of
  \<open>base\<close> between them.
\<close>

definition row_matrix :: "nat \<Rightarrow> (nat \<Rightarrow> nat \<Rightarrow> double) \<Rightarrow> double list" where
  "row_matrix n f = concat (map (\<lambda>i. map (f i) [0..<n]) [0..<n])"

definition conditioned_rotation :: "double list list \<Rightarrow> double \<Rightarrow> double list list \<Rightarrow> nat \<Rightarrow> double list" where
  "conditioned_rotation rot1 base rot2 n = row_matrix n (\<lambda>i j.
     accumulate (Real 0) [0..<n] (\<lambda>k. entry rot1 i k * dpow base (position_ratio k n) * entry rot2 k j))"

definition optimum :: "int \<Rightarrow> nat \<Rightarrow> double list result" where
  "optimum seed n = rbind (bbob2009_compute_xopt seed n) (\<lambda>xopt. Inr (map Real xopt))"

text \<open>\<open>zero n\<close> is the vector \<open>b\<close> of the affine transformations.\<close>

abbreviation zero :: "nat \<Rightarrow> double list" where
  "zero n \<equiv> replicate n (Real 0)"

section \<open>The problems\<close>

type_synonym bbob_constructor =
  "nat \<Rightarrow> nat \<Rightarrow> nat \<Rightarrow> int \<Rightarrow> string \<Rightarrow> string \<Rightarrow> coco_problem_t result"

definition f_sphere_bbob_problem_allocate :: bbob_constructor where
  "f_sphere_bbob_problem_allocate function dimension instance rseed id_template name_template =
     rbind (coco_allocate_vector dimension) (\<lambda>_.
     rbind (optimum rseed dimension) (\<lambda>xopt.
     rbind (bbob2009_compute_fopt function instance) (\<lambda>fopt.
     rbind (f_sphere_allocate dimension) (\<lambda>problem.
     rbind (transform_vars_shift problem xopt False) (\<lambda>problem.
     rbind (norm_if_large_scale name_template problem) (\<lambda>problem.
     rbind (transform_obj_shift problem fopt) (\<lambda>problem.
       name_problem id_template name_template ''1-separable'' function instance dimension problem)))))))"

definition f_ellipsoid_bbob_problem_allocate :: bbob_constructor where
  "f_ellipsoid_bbob_problem_allocate function dimension instance rseed id_template name_template =
     rbind (coco_allocate_vector dimension) (\<lambda>_.
     rbind (bbob2009_compute_fopt function instance) (\<lambda>fopt.
     rbind (optimum rseed dimension) (\<lambda>xopt.
     rbind (f_ellipsoid_allocate dimension) (\<lambda>problem.
     rbind (transform_vars_oscillate problem) (\<lambda>problem.
     rbind (transform_vars_shift problem xopt False) (\<lambda>problem.
     rbind (norm_if_large_scale name_template problem) (\<lambda>problem.
     rbind (transform_obj_shift problem fopt) (\<lambda>problem.
       name_problem id_template name_template ''1-separable'' function instance dimension problem))))))))"

definition f_ellipsoid_rotated_bbob_problem_allocate :: bbob_constructor where
  "f_ellipsoid_rotated_bbob_problem_allocate function dimension instance rseed id_template name_template =
     rbind (coco_allocate_vector dimension) (\<lambda>_.
     rbind (optimum rseed dimension) (\<lambda>xopt.
     rbind (bbob2009_compute_fopt function instance) (\<lambda>fopt.
     rbind (bbob2009_compute_rotation (rseed + 1000000) dimension) (\<lambda>rot1.
     rbind (f_ellipsoid_allocate dimension) (\<lambda>problem.
     rbind (transform_vars_oscillate problem) (\<lambda>problem.
     rbind (transform_vars_affine problem (fst (bbob2009_copy_rotation_matrix rot1 dimension)) (zero dimension) dimension) (\<lambda>problem.
     rbind (transform_vars_shift problem xopt False) (\<lambda>problem.
     rbind (transform_obj_shift problem fopt) (\<lambda>problem.
       name_problem id_template name_template ''3-ill-conditioned'' function instance dimension problem)))))))))"

definition f_rastrigin_bbob_problem_allocate :: bbob_constructor where
  "f_rastrigin_bbob_problem_allocate function dimension instance rseed id_template name_template =
     rbind (coco_allocate_vector dimension) (\<lambda>_.
     rbind (bbob2009_compute_fopt function instance) (\<lambda>fopt.
     rbind (optimum rseed dimension) (\<lambda>xopt.
     rbind (f_rastrigin_allocate dimension) (\<lambda>problem.
     rbind (transform_vars_conditioning problem (Real 10)) (\<lambda>problem.
     rbind (transform_vars_asymmetric problem (Real (2 / 10))) (\<lambda>problem.
     rbind (transform_vars_oscillate problem) (\<lambda>problem.
     rbind (transform_vars_shift problem xopt False) (\<lambda>problem.
     rbind (norm_if_large_scale name_template problem) (\<lambda>problem.
     rbind (transform_obj_shift problem fopt) (\<lambda>problem.
       name_problem id_template name_template ''1-separable'' function instance dimension problem))))))))))"

definition f_rastrigin_rotated_bbob_problem_allocate :: bbob_constructor where
  "f_rastrigin_rotated_bbob_problem_allocate function dimension instance rseed id_template name_template =
     rbind (coco_allocate_vector dimension) (\<lambda>_.
     rbind (bbob2009_compute_fopt function instance) (\<lambda>fopt.
     rbind (optimum rseed dimension) (\<lambda>xopt.
     rbind (bbob2009_compute_rotation (rseed + 1000000) dimension) (\<lambda>rot1.
     rbind (bbob2009_compute_rotation rseed dimension) (\<lambda>rot2.
     rbind (f_rastrigin_allocate dimension) (\<lambda>problem.
     rbind (transform_obj_shift problem fopt) (\<lambda>problem.
     rbind (transform_vars_affine problem (conditioned_rotation rot1 (dsqrt (Real 10)) rot2 dimension) (zero dimension) dimension) (\<lambda>problem.
     rbind (transform_vars_asymmetric problem (Real (2 / 10))) (\<lambda>problem.
     rbind (transform_vars_oscillate problem) (\<lambda>problem.
     rbind (transform_vars_affine problem (fst (bbob2009_copy_rotation_matrix rot1 dimension)) (zero dimension) dimension) (\<lambda>problem.
     rbind (transform_vars_shift problem xopt False) (\<lambda>problem.
       name_problem id_template name_template ''4-multi-modal'' function instance dimension problem))))))))))))"

text \<open>The even entries of the optimum become positive.\<close>

definition f_bueche_rastrigin_bbob_problem_allocate :: bbob_constructor where
  "f_bueche_rastrigin_bbob_problem_allocate function dimension instance rseed id_template name_template =
     rbind (coco_allocate_vector dimension) (\<lambda>_.
     rbind (bbob2009_compute_fopt function instance) (\<lambda>fopt.
     rbind (optimum rseed dimension) (\<lambda>xopt.
     rbind (f_bueche_rastrigin_allocate dimension) (\<lambda>problem.
     rbind (transform_vars_brs problem) (\<lambda>problem.
     rbind (transform_vars_oscillate problem) (\<lambda>problem.
     rbind (transform_vars_shift problem (map (\<lambda>i. if i mod 2 = 0 then \<bar>xopt ! i\<bar> else xopt ! i) [0..<dimension]) False) (\<lambda>problem.
     rbind (norm_if_large_scale name_template problem) (\<lambda>problem.
     rbind (transform_obj_shift problem fopt) (\<lambda>problem.
     rbind (transform_obj_penalize problem (Real 100)) (\<lambda>problem.
       name_problem id_template name_template ''1-separable'' function instance dimension problem))))))))))"

definition f_linear_slope_bbob_problem_allocate :: bbob_constructor where
  "f_linear_slope_bbob_problem_allocate function dimension instance rseed id_template name_template =
     rbind (coco_allocate_vector dimension) (\<lambda>_.
     rbind (optimum rseed dimension) (\<lambda>xopt.
     rbind (bbob2009_compute_fopt function instance) (\<lambda>fopt.
     rbind (f_linear_slope_allocate dimension xopt) (\<lambda>problem.
     rbind (norm_if_large_scale name_template problem) (\<lambda>problem.
     rbind (transform_obj_shift problem fopt) (\<lambda>problem.
       name_problem id_template name_template ''1-separable'' function instance dimension problem))))))"

definition f_attractive_sector_bbob_problem_allocate :: bbob_constructor where
  "f_attractive_sector_bbob_problem_allocate function dimension instance rseed id_template name_template =
     rbind (coco_allocate_vector dimension) (\<lambda>_.
     rbind (bbob2009_compute_fopt function instance) (\<lambda>fopt.
     rbind (optimum rseed dimension) (\<lambda>xopt.
     rbind (bbob2009_compute_rotation (rseed + 1000000) dimension) (\<lambda>rot1.
     rbind (bbob2009_compute_rotation rseed dimension) (\<lambda>rot2.
     rbind (f_attractive_sector_allocate dimension xopt) (\<lambda>problem.
     rbind (transform_obj_oscillate problem) (\<lambda>problem.
     rbind (transform_obj_power problem (Real (9 / 10))) (\<lambda>problem.
     rbind (transform_obj_shift problem fopt) (\<lambda>problem.
     rbind (transform_vars_affine problem (conditioned_rotation rot1 (dsqrt (Real 10)) rot2 dimension) (zero dimension) dimension) (\<lambda>problem.
     rbind (transform_vars_shift problem xopt False) (\<lambda>problem.
       name_problem id_template name_template ''2-moderate'' function instance dimension problem)))))))))))"

text \<open>The factor depends on the block size in the large-scale suite.\<close>

definition rosenbrock_factor :: "string \<Rightarrow> nat \<Rightarrow> double result" where
  "rosenbrock_factor name_template dimension =
     rbind (large_scale name_template) (\<lambda>large.
     rbind (if large then coco_rotation_matrix_block_size dimension else Inr dimension) (\<lambda>n.
       Inr (dmax (Real 1) (ddiv (dsqrt (Real (real n))) (Real 8)))))"

definition f_rosenbrock_bbob_problem_allocate :: bbob_constructor where
  "f_rosenbrock_bbob_problem_allocate function dimension instance rseed id_template name_template =
     rbind (coco_allocate_vector dimension) (\<lambda>_.
     rbind (optimum rseed dimension) (\<lambda>xopt.
     rbind (bbob2009_compute_fopt function instance) (\<lambda>fopt.
     rbind (rosenbrock_factor name_template dimension) (\<lambda>factor.
     rbind (f_rosenbrock_allocate dimension) (\<lambda>problem.
     rbind (transform_vars_shift problem (replicate dimension (Real (- 1))) False) (\<lambda>problem.
     rbind (transform_vars_scale problem factor) (\<lambda>problem.
     rbind (transform_vars_shift problem (map (\<lambda>v. v * Real (3 / 4)) xopt) False) (\<lambda>problem.
     rbind (norm_if_large_scale name_template problem) (\<lambda>problem.
     rbind (transform_obj_shift problem fopt) (\<lambda>problem.
       name_problem id_template name_template ''2-moderate'' function instance dimension problem))))))))))"

text \<open>
  The rotated Rosenbrock and the Griewank-Rosenbrock problem set the best parameter to zero before the
  affine transformation and to half the column sums of the rotation, divided by the factor, afterwards.
\<close>

definition half_column_sums :: "double list list \<Rightarrow> double \<Rightarrow> nat \<Rightarrow> double list" where
  "half_column_sums rot factor n =
     map (\<lambda>j. ddiv (accumulate (Real 0) [0..<n] (\<lambda>i. entry rot i j)) (Real 2 * factor)) [0..<n]"

definition f_rosenbrock_rotated_bbob_problem_allocate :: bbob_constructor where
  "f_rosenbrock_rotated_bbob_problem_allocate function dimension instance rseed id_template name_template =
     rbind (coco_allocate_vector dimension) (\<lambda>_.
     rbind (bbob2009_compute_fopt function instance) (\<lambda>fopt.
     rbind (bbob2009_compute_rotation rseed dimension) (\<lambda>rot1.
       let factor = dmax (Real 1) (ddiv (dsqrt (Real (real dimension))) (Real 8)) in
     rbind (f_rosenbrock_allocate dimension) (\<lambda>problem.
     rbind (transform_vars_affine (set_best_parameter (zero dimension) problem)
         (row_matrix dimension (\<lambda>i j. factor * entry rot1 i j)) (replicate dimension (Real (1 / 2))) dimension) (\<lambda>problem.
     rbind (transform_obj_shift problem fopt) (\<lambda>problem.
       name_problem id_template name_template ''2-moderate'' function instance dimension
         (set_best_parameter (half_column_sums rot1 factor dimension) problem)))))))"

definition f_discus_bbob_problem_allocate :: bbob_constructor where
  "f_discus_bbob_problem_allocate function dimension instance rseed id_template name_template =
     rbind (coco_allocate_vector dimension) (\<lambda>_.
     rbind (bbob2009_compute_fopt function instance) (\<lambda>fopt.
     rbind (optimum rseed dimension) (\<lambda>xopt.
     rbind (bbob2009_compute_rotation (rseed + 1000000) dimension) (\<lambda>rot1.
     rbind (f_discus_allocate dimension) (\<lambda>problem.
     rbind (transform_vars_oscillate problem) (\<lambda>problem.
     rbind (transform_vars_affine problem (fst (bbob2009_copy_rotation_matrix rot1 dimension)) (zero dimension) dimension) (\<lambda>problem.
     rbind (transform_vars_shift problem xopt False) (\<lambda>problem.
     rbind (transform_obj_shift problem fopt) (\<lambda>problem.
       name_problem id_template name_template ''3-ill-conditioned'' function instance dimension problem)))))))))"

definition f_bent_cigar_bbob_problem_allocate :: bbob_constructor where
  "f_bent_cigar_bbob_problem_allocate function dimension instance rseed id_template name_template =
     rbind (coco_allocate_vector dimension) (\<lambda>_.
     rbind (bbob2009_compute_fopt function instance) (\<lambda>fopt.
     rbind (optimum (rseed + 1000000) dimension) (\<lambda>xopt.
     rbind (bbob2009_compute_rotation (rseed + 1000000) dimension) (\<lambda>rot1.
     rbind (f_bent_cigar_allocate dimension) (\<lambda>problem.
     rbind (transform_obj_shift problem fopt) (\<lambda>problem.
     rbind (transform_vars_affine problem (fst (bbob2009_copy_rotation_matrix rot1 dimension)) (zero dimension) dimension) (\<lambda>problem.
     rbind (transform_vars_asymmetric problem (Real (1 / 2))) (\<lambda>problem.
     rbind (transform_vars_affine problem (fst (bbob2009_copy_rotation_matrix rot1 dimension)) (zero dimension) dimension) (\<lambda>problem.
     rbind (transform_vars_shift problem xopt False) (\<lambda>problem.
       name_problem id_template name_template ''3-ill-conditioned'' function instance dimension problem))))))))))"

definition f_sharp_ridge_bbob_problem_allocate :: bbob_constructor where
  "f_sharp_ridge_bbob_problem_allocate function dimension instance rseed id_template name_template =
     rbind (coco_allocate_vector dimension) (\<lambda>_.
     rbind (bbob2009_compute_fopt function instance) (\<lambda>fopt.
     rbind (optimum rseed dimension) (\<lambda>xopt.
     rbind (bbob2009_compute_rotation (rseed + 1000000) dimension) (\<lambda>rot1.
     rbind (bbob2009_compute_rotation rseed dimension) (\<lambda>rot2.
     rbind (f_sharp_ridge_allocate dimension) (\<lambda>problem.
     rbind (transform_obj_shift problem fopt) (\<lambda>problem.
     rbind (transform_vars_affine problem (conditioned_rotation rot1 (dsqrt (Real 10)) rot2 dimension) (zero dimension) dimension) (\<lambda>problem.
     rbind (transform_vars_shift problem xopt False) (\<lambda>problem.
       name_problem id_template name_template ''3-ill-conditioned'' function instance dimension problem)))))))))"

definition f_different_powers_bbob_problem_allocate :: bbob_constructor where
  "f_different_powers_bbob_problem_allocate function dimension instance rseed id_template name_template =
     rbind (coco_allocate_vector dimension) (\<lambda>_.
     rbind (bbob2009_compute_fopt function instance) (\<lambda>fopt.
     rbind (optimum rseed dimension) (\<lambda>xopt.
     rbind (bbob2009_compute_rotation (rseed + 1000000) dimension) (\<lambda>rot1.
     rbind (f_different_powers_allocate dimension) (\<lambda>problem.
     rbind (transform_obj_shift problem fopt) (\<lambda>problem.
     rbind (transform_vars_affine problem (fst (bbob2009_copy_rotation_matrix rot1 dimension)) (zero dimension) dimension) (\<lambda>problem.
     rbind (transform_vars_shift problem xopt False) (\<lambda>problem.
       name_problem id_template name_template ''3-ill-conditioned'' function instance dimension problem))))))))"

definition f_weierstrass_bbob_problem_allocate :: bbob_constructor where
  "f_weierstrass_bbob_problem_allocate function dimension instance rseed id_template name_template =
     rbind (coco_allocate_vector dimension) (\<lambda>_.
     rbind (bbob2009_compute_fopt function instance) (\<lambda>fopt.
     rbind (optimum rseed dimension) (\<lambda>xopt.
     rbind (bbob2009_compute_rotation (rseed + 1000000) dimension) (\<lambda>rot1.
     rbind (bbob2009_compute_rotation rseed dimension) (\<lambda>rot2.
     rbind (f_weierstrass_allocate dimension) (\<lambda>problem.
     rbind (transform_obj_shift problem fopt) (\<lambda>problem.
     rbind (transform_vars_affine problem (conditioned_rotation rot1 (ddiv (Real 1) (dsqrt (Real 100))) rot2 dimension) (zero dimension) dimension) (\<lambda>problem.
     rbind (transform_vars_oscillate problem) (\<lambda>problem.
     rbind (transform_vars_affine problem (fst (bbob2009_copy_rotation_matrix rot1 dimension)) (zero dimension) dimension) (\<lambda>problem.
     rbind (transform_vars_shift problem xopt False) (\<lambda>problem.
     rbind (transform_obj_penalize problem (ddiv (Real 10) (Real (real dimension)))) (\<lambda>problem.
       name_problem id_template name_template ''4-multi-modal'' function instance dimension problem))))))))))))"

definition f_schaffers_bbob_problem_allocate :: "double \<Rightarrow> bbob_constructor" where
  "f_schaffers_bbob_problem_allocate conditioning function dimension instance rseed id_template name_template =
     rbind (coco_allocate_vector dimension) (\<lambda>_.
     rbind (bbob2009_compute_fopt function instance) (\<lambda>fopt.
     rbind (optimum rseed dimension) (\<lambda>xopt.
     rbind (bbob2009_compute_rotation (rseed + 1000000) dimension) (\<lambda>rot1.
     rbind (bbob2009_compute_rotation rseed dimension) (\<lambda>rot2.
     rbind (f_schaffers_allocate dimension) (\<lambda>problem.
     rbind (transform_obj_shift problem fopt) (\<lambda>problem.
     rbind (transform_vars_affine problem (row_matrix dimension (\<lambda>i j. entry rot2 i j * dpow (dsqrt conditioning) (position_ratio i dimension))) (zero dimension) dimension) (\<lambda>problem.
     rbind (transform_vars_asymmetric problem (Real (1 / 2))) (\<lambda>problem.
     rbind (transform_vars_affine problem (fst (bbob2009_copy_rotation_matrix rot1 dimension)) (zero dimension) dimension) (\<lambda>problem.
     rbind (transform_vars_shift problem xopt False) (\<lambda>problem.
     rbind (transform_obj_penalize problem (Real 10)) (\<lambda>problem.
       name_problem id_template name_template ''4-multi-modal'' function instance dimension problem))))))))))))"

definition f_griewank_rosenbrock_bbob_problem_allocate :: bbob_constructor where
  "f_griewank_rosenbrock_bbob_problem_allocate function dimension instance rseed id_template name_template =
     rbind (coco_allocate_vector dimension) (\<lambda>_.
     rbind (bbob2009_compute_fopt function instance) (\<lambda>fopt.
     rbind (bbob2009_compute_rotation rseed dimension) (\<lambda>rot1.
       let scales = dmax (Real 1) (ddiv (dsqrt (Real (real dimension))) (Real 8));
           rot1 = map (map (\<lambda>v. v * scales)) rot1 in
     rbind (f_griewank_rosenbrock_allocate dimension) (\<lambda>problem.
     rbind (transform_obj_shift problem fopt) (\<lambda>problem.
     rbind (transform_vars_shift problem (replicate dimension (Real (- (1 / 2)))) False) (\<lambda>problem.
     rbind (transform_vars_affine (set_best_parameter (zero dimension) problem)
         (fst (bbob2009_copy_rotation_matrix rot1 dimension)) (zero dimension) dimension) (\<lambda>problem.
       name_problem id_template name_template ''4-multi-modal'' function instance dimension
         (set_best_parameter (half_column_sums rot1 scales dimension) problem))))))))"

text \<open>In Schwefel's problem \<open>2 |xopt|\<close> is the same for every coordinate.\<close>

definition f_schwefel_bbob_problem_allocate :: bbob_constructor where
  "f_schwefel_bbob_problem_allocate function dimension instance rseed id_template name_template =
     rbind (coco_allocate_vector dimension) (\<lambda>_.
     rbind (bbob2009_compute_fopt function instance) (\<lambda>fopt.
     rbind (bbob2009_unif dimension rseed) (\<lambda>tmp1.
       let xopt = map (\<lambda>v. (if v < 1 / 2 then Real (- 1) else Real 1) * Real (1 / 2) * Real (42096874637 / 10 ^ 10)) tmp1;
           tmp1 = map (\<lambda>v. Real (- 2) * \<bar>v\<bar>) xopt;
           tmp2 = map (\<lambda>v. Real 2 * \<bar>v\<bar>) xopt in
     rbind (f_schwefel_allocate dimension) (\<lambda>problem.
     rbind (transform_vars_scale problem (Real 100)) (\<lambda>problem.
     rbind (transform_vars_shift problem tmp1 False) (\<lambda>problem.
     rbind (transform_vars_conditioning problem (Real 10)) (\<lambda>problem.
     rbind (transform_vars_shift problem tmp2 False) (\<lambda>problem.
     rbind (transform_vars_z_hat problem xopt) (\<lambda>problem.
     rbind (transform_vars_scale problem (Real 2)) (\<lambda>problem.
     rbind (transform_vars_x_hat problem rseed) (\<lambda>problem.
     rbind (transform_obj_shift problem fopt) (\<lambda>problem.
       name_problem id_template name_template ''5-weakly-structured'' function instance dimension problem))))))))))))"

definition f_katsuura_bbob_problem_allocate :: bbob_constructor where
  "f_katsuura_bbob_problem_allocate function dimension instance rseed id_template name_template =
     rbind (coco_allocate_vector dimension) (\<lambda>_.
     rbind (bbob2009_compute_fopt function instance) (\<lambda>fopt.
     rbind (optimum rseed dimension) (\<lambda>xopt.
     rbind (bbob2009_compute_rotation (rseed + 1000000) dimension) (\<lambda>rot1.
     rbind (bbob2009_compute_rotation rseed dimension) (\<lambda>rot2.
     rbind (f_katsuura_allocate dimension) (\<lambda>problem.
     rbind (transform_obj_shift problem fopt) (\<lambda>problem.
     rbind (transform_vars_affine problem (conditioned_rotation rot1 (dsqrt (Real 100)) rot2 dimension) (zero dimension) dimension) (\<lambda>problem.
     rbind (transform_vars_shift problem xopt False) (\<lambda>problem.
     rbind (transform_obj_penalize problem (Real 1)) (\<lambda>problem.
       name_problem id_template name_template ''5-weakly-structured'' function instance dimension problem))))))))))"

end
