(* ===== verification/Coco_Bbob_Special.thy ===== *)
theory Coco_Bbob_Special
  imports Coco_Bbob
begin

text \<open>
  The bbob problems with data of their own, which have no basic allocator: Gallagher's functions with
  101 and 21 peaks, the step ellipsoid and Lunacek's bi-Rastrigin function; and the call of the
  allocators by \<open>coco_get_bbob_problem\<close>.
\<close>

section \<open>Gallagher's functions\<close>

text \<open>
  \<open>qsort\<close> of the indices by random numbers. The numbers of one call of the generator are distinct
  states of it, so that the order of equal elements does not matter.
\<close>

definition random_order :: "real list \<Rightarrow> nat list" where
  "random_order u = sort_key (\<lambda>i. u ! i) [0..<length u]"

text \<open>The largest condition number, \<open>b\<close> and \<open>c\<close>.\<close>

definition gallagher_parameters :: "nat \<Rightarrow> (double \<times> double \<times> double) result" where
  "gallagher_parameters peaks =
     (if peaks = 101 then Inr (dsqrt (Real 1000), Real 10, Real 5)
      else if peaks = 21 then Inr (Real 1000, Real (98 / 10), Real (49 / 10))
      else Inl (Coco_error ''f_gallagher_bbob_problem_allocate''))"

definition arr_condition :: "nat \<Rightarrow> double \<Rightarrow> nat list \<Rightarrow> double list" where
  "arr_condition peaks maxcondition1 perm =
     maxcondition1 # map (\<lambda>i. dpow (Real 1000) (ddiv (Real (real (perm ! (i - 1)))) (Real (real (peaks - 2)))))
       [1..<peaks]"

definition gallagher_peak_values :: "nat \<Rightarrow> double list" where
  "gallagher_peak_values peaks =
     Real 10 # map (\<lambda>i. ddiv (Real (real (i - 1))) (Real (real (peaks - 2))) * (Real (91 / 10) - Real (11 / 10))
       + Real (11 / 10)) [1..<peaks]"

definition gallagher_scale_row :: "nat \<Rightarrow> double \<Rightarrow> nat list \<Rightarrow> double list" where
  "gallagher_scale_row n condition perm =
     map (\<lambda>j. dpow condition (ddiv (Real (real (perm ! j))) (Real (real (n - 1))) - Real (1 / 2))) [0..<n]"

fun gallagher_scales :: "nat list \<Rightarrow> int \<Rightarrow> nat \<Rightarrow> double list \<Rightarrow> double list list result" where
  "gallagher_scales [] rseed n conditions = Inr []"
| "gallagher_scales (i # is) rseed n conditions =
     rbind (bbob2009_unif n (rseed + int (1000 * i))) (\<lambda>random_numbers.
     rbind (gallagher_scales is rseed n conditions) (\<lambda>rows.
       Inr (gallagher_scale_row n (conditions ! i) (random_order random_numbers) # rows)))"

definition gallagher_best :: "nat \<Rightarrow> double \<Rightarrow> double \<Rightarrow> real list \<Rightarrow> double list" where
  "gallagher_best n b c random_numbers =
     map (\<lambda>i. Real (8 / 10) * (b * Real (random_numbers ! i) - c)) [0..<n]"

definition gallagher_x_local ::
    "nat \<Rightarrow> nat \<Rightarrow> double list list \<Rightarrow> double \<Rightarrow> double \<Rightarrow> real list \<Rightarrow> double list list" where
  "gallagher_x_local n peaks rot b c random_numbers =
     map (\<lambda>i. map (\<lambda>j.
       let v = accumulate (Real 0) [0..<n] (\<lambda>k. entry rot i k * (b * Real (random_numbers ! (j * n + k)) - c))
       in if j = 0 then v * Real (8 / 10) else v) [0..<peaks]) [0..<n]"

definition f_gallagher_bbob_problem_allocate :: "nat \<Rightarrow> bbob_constructor" where
  "f_gallagher_bbob_problem_allocate peaks function dimension instance rseed id_template name_template =
     rbind (coco_allocate_vector dimension) (\<lambda>_.
     rbind (gallagher_parameters peaks) (\<lambda>(maxcondition1, b, c).
     rbind (bbob2009_compute_rotation rseed dimension) (\<lambda>rot.
     rbind (bbob2009_unif (peaks - 1) rseed) (\<lambda>random_numbers.
       let conditions = arr_condition peaks maxcondition1 (random_order random_numbers) in
     rbind (gallagher_scales [0..<peaks] rseed dimension conditions) (\<lambda>scales.
     rbind (bbob2009_unif (dimension * peaks) rseed) (\<lambda>random_numbers.
       let data = \<lparr> rotation = rot,
             x_local = gallagher_x_local dimension peaks rot b c random_numbers,
             arr_scales = scales, number_of_peaks = peaks,
             peak_values = gallagher_peak_values peaks \<rparr> in
     rbind (coco_problem_allocate_from_scalars ''Gallagher function'' (Gallagher data) dimension
         (Real (- 5)) (Real 5) (Real 0)) (\<lambda>problem.
     rbind (evaluate_at_best (f_gallagher_evaluate data)
         (problem\<lparr>best_parameter := Some (gallagher_best dimension b c random_numbers)\<rparr>)) (\<lambda>problem.
     rbind (bbob2009_compute_fopt function instance) (\<lambda>fopt.
     rbind (transform_obj_shift problem fopt)
       (name_problem id_template name_template ''5-weakly-structured'' function instance dimension))))))))))"

section \<open>Step ellipsoid\<close>

definition f_step_ellipsoid_bbob_problem_allocate :: bbob_constructor where
  "f_step_ellipsoid_bbob_problem_allocate function dimension instance rseed id_template name_template =
     rbind (coco_allocate_vector dimension) (\<lambda>_.
     rbind (bbob2009_compute_fopt function instance) (\<lambda>fopt.
     rbind (optimum rseed dimension) (\<lambda>xopt.
     rbind (bbob2009_compute_rotation (rseed + 1000000) dimension) (\<lambda>rot1.
     rbind (bbob2009_compute_rotation rseed dimension) (\<lambda>rot2.
       let data = \<lparr> step_xopt = xopt, step_fopt = fopt, step_rot1 = rot1, step_rot2 = rot2 \<rparr> in
     rbind (coco_problem_allocate_from_scalars ''step ellipsoid function'' (Step_ellipsoid data) dimension
         (Real (- 5)) (Real 5) (Real 0)) (\<lambda>problem.
       name_problem id_template name_template ''2-moderate'' function instance dimension
         (Basic (problem\<lparr>best_parameter := Some xopt, best_value := [fopt]\<rparr>))))))))"

section \<open>Lunacek's bi-Rastrigin function\<close>

text \<open>
  The first optimum and the value of \<open>bbob2009_compute_fopt(24, instance)\<close> are computed and not used.
\<close>

definition f_lunacek_bi_rastrigin_bbob_problem_allocate :: bbob_constructor where
  "f_lunacek_bi_rastrigin_bbob_problem_allocate function dimension instance rseed id_template name_template =
     rbind (coco_allocate_vector dimension) (\<lambda>_.
     rbind (bbob2009_compute_fopt 24 instance) (\<lambda>_.
     rbind (optimum rseed dimension) (\<lambda>_.
     rbind (bbob2009_compute_rotation (rseed + 1000000) dimension) (\<lambda>rot1.
     rbind (bbob2009_compute_rotation rseed dimension) (\<lambda>rot2.
     rbind (bbob2009_gauss dimension rseed) (\<lambda>g.
       let half = Real (1 / 2) * Real (5 / 2);
           xopt = map (\<lambda>i. if g ! i < Real 0 then half * Real (- 1) else half) [0..<dimension];
           data = \<lparr> lunacek_xopt = xopt, lunacek_rot1 = rot1, lunacek_rot2 = rot2 \<rparr> in
     rbind (coco_problem_allocate_from_scalars (''Lunacek'' @ [CHR 0x27] @ ''s bi-Rastrigin function'')
         (Lunacek_bi_rastrigin data) dimension (Real (- 5)) (Real 5) (Real 0)) (\<lambda>problem.
     rbind (evaluate_at_best (f_lunacek_bi_rastrigin_evaluate data)
         (problem\<lparr>best_parameter := Some xopt\<rparr>)) (\<lambda>problem.
     rbind (bbob2009_compute_fopt function instance) (\<lambda>fopt.
     rbind (transform_obj_shift problem fopt)
       (name_problem id_template name_template ''5-weakly-structured'' function instance dimension))))))))))"

section \<open>The dispatch\<close>

fun bbob_allocate :: "bbob_allocator \<Rightarrow> bbob_constructor" where
  "bbob_allocate F_sphere = f_sphere_bbob_problem_allocate"
| "bbob_allocate F_ellipsoid = f_ellipsoid_bbob_problem_allocate"
| "bbob_allocate F_rastrigin = f_rastrigin_bbob_problem_allocate"
| "bbob_allocate F_bueche_rastrigin = f_bueche_rastrigin_bbob_problem_allocate"
| "bbob_allocate F_linear_slope = f_linear_slope_bbob_problem_allocate"
| "bbob_allocate F_attractive_sector = f_attractive_sector_bbob_problem_allocate"
| "bbob_allocate F_step_ellipsoid = f_step_ellipsoid_bbob_problem_allocate"
| "bbob_allocate F_rosenbrock = f_rosenbrock_bbob_problem_allocate"
| "bbob_allocate F_rosenbrock_rotated = f_rosenbrock_rotated_bbob_problem_allocate"
| "bbob_allocate F_ellipsoid_rotated = f_ellipsoid_rotated_bbob_problem_allocate"
| "bbob_allocate F_discus = f_discus_bbob_problem_allocate"
| "bbob_allocate F_bent_cigar = f_bent_cigar_bbob_problem_allocate"
| "bbob_allocate F_sharp_ridge = f_sharp_ridge_bbob_problem_allocate"
| "bbob_allocate F_different_powers = f_different_powers_bbob_problem_allocate"
| "bbob_allocate F_rastrigin_rotated = f_rastrigin_rotated_bbob_problem_allocate"
| "bbob_allocate F_weierstrass = f_weierstrass_bbob_problem_allocate"
| "bbob_allocate (F_schaffers conditioning) = f_schaffers_bbob_problem_allocate (Real (real conditioning))"
| "bbob_allocate F_griewank_rosenbrock = f_griewank_rosenbrock_bbob_problem_allocate"
| "bbob_allocate F_schwefel = f_schwefel_bbob_problem_allocate"
| "bbob_allocate (F_gallagher peaks) = f_gallagher_bbob_problem_allocate peaks"
| "bbob_allocate F_katsuura = f_katsuura_bbob_problem_allocate"
| "bbob_allocate F_lunacek_bi_rastrigin = f_lunacek_bi_rastrigin_bbob_problem_allocate"

text \<open>The problem that \<open>coco_get_bbob_problem\<close> returns, with the templates that it passes.\<close>

definition bbob_id_template :: string where
  "bbob_id_template = ''bbob_f%03lu_i%02lu_d%02lu''"

definition bbob_name_template :: string where
  "bbob_name_template = ''BBOB suite problem f%lu instance %lu in %luD''"

definition bbob_problem :: "nat \<Rightarrow> nat \<Rightarrow> nat \<Rightarrow> coco_problem_t result" where
  "bbob_problem function dimension instance =
     rbind (coco_get_bbob_problem function dimension instance) (\<lambda>call.
       case call of
         Alloc (Bbob a) f d i rseed \<Rightarrow> bbob_allocate a f d i rseed bbob_id_template bbob_name_template
       | _ \<Rightarrow> Inl Null_deref)"

end
