(* ===== verification/Coco_Objectives.thy ===== *)
theory Coco_Objectives
  imports Coco_Transformations
begin

text \<open>
  The meaning of a problem: a single-objective problem without constraints implements a real function
  \<open>F\<close> if every evaluation at a finite point returns the value of \<open>F\<close>, whatever has been evaluated
  before, and changes nothing but counters. The locale \<open>transformation_contract\<close> states what a
  transformation promises; under it a transformed problem implements the transformed function and its
  assertion never fails.
\<close>

section \<open>What evaluations depend on\<close>

text \<open>
  \<open>behaviour\<close> blanks the fields that no evaluation depends on: the counters, the names, and the best
  parameter, which only the linear slope reads.
\<close>

definition behaviour :: "coco_problem_s \<Rightarrow> coco_problem_s" where
  "behaviour p = p\<lparr>evaluations := 0, evaluations_constraints := 0,
     best_observed_fvalue := Real DBL_MAX, best_observed_evaluation := 0,
     problem_name := None, problem_id := None, problem_type := None,
     best_parameter := (if evaluate_function p = Some (Evaluate_raw Linear_slope)
       then best_parameter p else None)\<rparr>"

primrec erase :: "coco_problem_t \<Rightarrow> coco_problem_t" where
  "erase (Basic p) = Basic (behaviour p)"
| "erase (Transformed p t inner) = Transformed (behaviour p) t (erase inner)"
| "erase (Stacked p problem1 problem2) = Stacked (behaviour p) (erase problem1) (erase problem2)"

lemma behaviour_eqD:
  assumes "behaviour p = behaviour q"
  shows "evaluate_function p = evaluate_function q" "evaluate_constraint p = evaluate_constraint q"
    "number_of_variables p = number_of_variables q" "number_of_objectives p = number_of_objectives q"
    "number_of_constraints p = number_of_constraints q"
    "smallest_values_of_interest p = smallest_values_of_interest q"
    "largest_values_of_interest p = largest_values_of_interest q"
    "number_of_integer_variables p = number_of_integer_variables q"
    "initial_solution p = initial_solution q" "best_value p = best_value q"
    "nadir_value p = nadir_value q"
    "evaluate_function p = Some (Evaluate_raw Linear_slope) \<Longrightarrow> best_parameter p = best_parameter q"
    "final_target_delta p = final_target_delta q"
  using assms by (cases p, cases q, simp add: behaviour_def split: if_splits)+

lemma erase_Basic: "erase q = Basic r \<longleftrightarrow> (\<exists>p. q = Basic p \<and> behaviour p = r)"
  by (cases q) auto

lemma erase_Transformed:
  "erase q = Transformed r t i \<longleftrightarrow> (\<exists>p inner. q = Transformed p t inner \<and> behaviour p = r \<and> erase inner = i)"
  by (cases q) auto

lemma erase_fields: "erase q = erase p \<Longrightarrow> behaviour (fields q) = behaviour (fields p)"
  by (cases q; cases p) auto

text \<open>The effect of the bookkeeping without constraints.\<close>

definition record_value :: "real \<Rightarrow> coco_problem_s \<Rightarrow> coco_problem_s" where
  "record_value v p =
     (let p = problem_increment_evaluate_function p
      in if Real v < best_observed_fvalue p then coco_problem_set_best_observed_f_value (Real v) p else p)"

lemma behaviour_record_value [simp]: "behaviour (record_value v p) = behaviour p"
  by (simp add: record_value_def behaviour_def problem_increment_evaluate_function_def
      coco_problem_set_best_observed_f_value_def Let_def)

lemma erase_with_fields:
  "(\<And>p. behaviour (g p) = behaviour p) \<Longrightarrow> erase (with_fields g q) = erase q"
  by (cases q) simp_all

lemma with_fields_compose: "with_fields g (with_fields h p) = with_fields (g \<circ> h) p"
  by (cases p) simp_all

lemma with_fields_cong: "g (fields p) = h (fields p) \<Longrightarrow> with_fields g p = with_fields h p"
  by (cases p) simp_all

lemma bookkeeping_unconstrained:
  assumes "number_of_constraints (fields p) = 0"
  shows "bookkeeping x (Real v # y, p) = Inr (Real v # y, with_fields (record_value v) p)"
proof -
  have "number_of_constraints (problem_increment_evaluate_function (fields p)) = 0"
    using assms by (simp add: problem_increment_evaluate_function_def)
  then show ?thesis
    by (auto simp: bookkeeping_def Let_def with_fields_compose record_value_def
        intro!: with_fields_cong)
qed

section \<open>Implemented functions\<close>

definition implements :: "coco_problem_t \<Rightarrow> nat \<Rightarrow> (real list \<Rightarrow> real) \<Rightarrow> bool" where
  "implements p n F \<longleftrightarrow> (\<forall>q x. erase q = erase p \<longrightarrow> length x = n \<longrightarrow>
     (\<exists>q'. call_evaluate_function q (map Real x) = Inr ([Real (F x)], q') \<and> erase q' = erase p
       \<and> fields q' = fields q))"

text \<open>The structure of an unconstrained problem with one objective; \<open>L\<close> bounds the length of its name.\<close>

definition shape :: "coco_problem_s \<Rightarrow> nat \<Rightarrow> bool" where
  "shape p n \<longleftrightarrow> number_of_variables p = n \<and> 0 < n
     \<and> number_of_objectives p = 1 \<and> number_of_constraints p = 0 \<and> number_of_integer_variables p = 0
     \<and> evaluate_function p \<noteq> None
     \<and> smallest_values_of_interest p = replicate n (Real (- 5))
     \<and> largest_values_of_interest p = replicate n (Real 5)
     \<and> initial_solution p = None \<and> nadir_value p = None"

definition well_formed :: "coco_problem_s \<Rightarrow> nat \<Rightarrow> nat \<Rightarrow> bool" where
  "well_formed p n L \<longleftrightarrow> shape p n \<and> (\<exists>s. problem_name p = Some s \<and> length s \<le> L)"

lemma shape_behaviour: "behaviour p = behaviour q \<Longrightarrow> shape p n \<longleftrightarrow> shape q n"
  using behaviour_eqD [of p q] by (simp add: shape_def)

text \<open>
  \<open>objective_problem p n L F best fo\<close>: the problem implements \<open>F\<close> on \<open>n\<close> variables, its best value is
  the lower bound \<open>fo\<close> of \<open>F\<close>, its best parameter is \<open>best\<close>.
\<close>

definition objective_problem ::
    "coco_problem_t \<Rightarrow> nat \<Rightarrow> nat \<Rightarrow> (real list \<Rightarrow> real) \<Rightarrow> real list \<Rightarrow> real \<Rightarrow> bool" where
  "objective_problem p n L F best fo \<longleftrightarrow> well_formed (fields p) n L \<and> implements p n F
     \<and> best_value (fields p) = [Real fo]
     \<and> best_parameter (fields p) = Some (map Real best) \<and> length best = n
     \<and> (\<forall>x. length x = n \<longrightarrow> fo \<le> F x)"

lemma check_point_finite:
  assumes "number_of_variables p = length x" "x \<noteq> []"
  shows "check_point p m (map Real x) = Inr None"
proof -
  have "find coco_is_inf (map Real x) = None" by (auto simp: find_None_iff)
  then show ?thesis using assms by (simp add: check_point_def coco_problem_get_dimension_def)
qed

lemma evaluate_objective:
  assumes "shape (fields p) n" "implements p n F" "erase q = erase p" "length x = n"
  shows "\<exists>q'. evaluate_function_by (call_evaluate_function q) q (map Real x) = Inr ([Real (F x)], q')
    \<and> erase q' = erase p \<and> fields q' = record_value (F x) (fields q)"
proof -
  have shape: "shape (fields q) n" using assms(1) shape_behaviour [OF erase_fields [OF assms(3)]] by simp
  obtain q' where q': "call_evaluate_function q (map Real x) = Inr ([Real (F x)], q')"
    "erase q' = erase p" "fields q' = fields q"
    using assms(2-4) unfolding implements_def by blast
  have "number_of_variables (fields q) = length x" "x \<noteq> []" "number_of_constraints (fields q') = 0"
    and "\<exists>f. evaluate_function (fields q) = Some f"
    using shape assms(4) q'(3) by (auto simp: shape_def)
  then have "evaluate_function_by (call_evaluate_function q) q (map Real x)
      = Inr ([Real (F x)], with_fields (record_value (F x)) q')"
    by (auto simp: evaluate_function_by_def check_point_finite q'(1) bookkeeping_unconstrained)
  then show ?thesis using q'(2,3) by (simp add: erase_with_fields)
qed

lemma implements_erase: "erase p = erase q \<Longrightarrow> implements p n F \<longleftrightarrow> implements q n F"
  by (simp add: implements_def)

text \<open>Renaming a problem, setting its best parameter and counting evaluations keep the function.\<close>

lemma objective_problem_erase:
  assumes "objective_problem p n L F best fo" "erase q = erase p"
    and "problem_name (fields q) = Some s" "length s \<le> K"
    and "best_parameter (fields q) = Some (map Real best')" "length best' = n"
  shows "objective_problem q n K F best' fo"
  using assms shape_behaviour [OF erase_fields [OF assms(2)]]
    behaviour_eqD(10) [OF erase_fields [OF assms(2)]] implements_erase [OF assms(2)]
  by (simp add: objective_problem_def well_formed_def)

text \<open>One evaluation of a problem: the value, and the problem with one evaluation recorded.\<close>

lemma coco_evaluate_function_objective:
  assumes "objective_problem p n L F best fo" "length x = n"
  shows "\<exists>q. coco_evaluate_function p (map Real x) = Inr ([Real (F x)], q)
    \<and> objective_problem q n L F best fo \<and> erase q = erase p
    \<and> fields q = record_value (F x) (fields p)"
proof -
  from assms evaluate_objective [of p n F p x] obtain q where
    "coco_evaluate_function p (map Real x) = Inr ([Real (F x)], q)"
    "erase q = erase p" "fields q = record_value (F x) (fields p)"
    by (auto simp: objective_problem_def well_formed_def coco_evaluate_function_def)
  moreover obtain s where "problem_name (fields p) = Some s" "length s \<le> L"
    using assms(1) by (auto simp: objective_problem_def well_formed_def)
  moreover have "problem_name (record_value (F x) (fields p)) = problem_name (fields p)"
    "best_parameter (record_value (F x) (fields p)) = best_parameter (fields p)"
    by (simp_all add: record_value_def Let_def problem_increment_evaluate_function_def
        coco_problem_set_best_observed_f_value_def)
  ultimately show ?thesis using objective_problem_erase [OF assms(1), of q s L best] assms(1)
    by (auto simp: objective_problem_def)
qed

section \<open>The contract of a transformation\<close>

text \<open>
  At a finite point \<open>x\<close> the transformation evaluates the inner problem at \<open>T x\<close>, returns \<open>G x v\<close> for
  the value \<open>v\<close> it gets, and then checks the assertion. \<open>ok\<close> is the condition on the data, \<open>value_ok\<close>
  the condition on the values of the inner problem.
\<close>

locale transformation_contract =
  fixes t :: transformation and n :: nat and name :: string and ok :: bool
    and T :: "real list \<Rightarrow> real list" and G :: "real list \<Rightarrow> real \<Rightarrow> real"
    and value_ok :: "real \<Rightarrow> bool"
  assumes evaluates:
    "ok \<Longrightarrow> shape p n \<Longrightarrow> number_of_variables (fields inner) = n \<Longrightarrow> length x = n \<Longrightarrow>
       value_ok v \<Longrightarrow> eval (map Real (T x)) = Inr ([Real v], inner') \<Longrightarrow>
       transformation_evaluate t p inner eval (map Real x)
         = assert_best_always name (map Real x) ([Real (G x v)], Transformed p t inner')"
    and length_T: "ok \<Longrightarrow> length x = n \<Longrightarrow> length (T x) = n"
begin

lemma transformed_implements:
  assumes "ok" "objective_problem inner n L F best fo" "shape p n"
    and "evaluate_function p = Some Evaluate_own" "best_value p = [Real fo']"
    and "\<And>x. length x = n \<Longrightarrow> value_ok (F (T x)) \<and> fo' \<le> G x (F (T x))"
  shows "implements (Transformed p t inner) n (\<lambda>x. G x (F (T x)))"
  unfolding implements_def
proof (intro allI impI)
  fix q and x :: "real list"
  assume q: "erase q = erase (Transformed p t inner)" and x: "length x = n"
  then obtain p' inner' where q': "q = Transformed p' t inner'"
    and e: "behaviour p' = behaviour p" "erase inner' = erase inner"
    by (auto simp: erase_Transformed)
  note eq = behaviour_eqD [OF e(1)]
  have wf: "shape p' n" using assms(3) shape_behaviour [OF e(1)] by simp
  have n: "number_of_variables (fields inner') = n"
    using assms(2) behaviour_eqD(3) [OF erase_fields [OF e(2)]]
    by (simp add: objective_problem_def well_formed_def shape_def)
  have "length (T x) = n" using length_T assms(1) x by blast
  with evaluate_objective [of inner n F inner' "T x"] assms(2) e(2) obtain i where
    i: "evaluate_function_by (call_evaluate_function inner') inner' (map Real (T x))
        = Inr ([Real (F (T x))], i)" "erase i = erase inner"
    by (auto simp: objective_problem_def well_formed_def)
  have "call_evaluate_function q (map Real x)
      = assert_best_always name (map Real x) ([Real (G x (F (T x)))], Transformed p' t i)"
    using evaluates [where eval = "evaluate_function_by (call_evaluate_function inner') inner'",
        OF assms(1) wf n x _ i(1)] assms(4) assms(6) [OF x]
    by (simp add: q' Let_def eq)
  also have "\<dots> = Inr ([Real (G x (F (T x)))], Transformed p' t i)"
    using assms(5) assms(6) [OF x]
    by (simp add: assert_best_always_def assert_best_def eq)
  finally show "\<exists>q''. call_evaluate_function q (map Real x) = Inr ([Real (G x (F (T x)))], q'')
      \<and> erase q'' = erase (Transformed p t inner) \<and> fields q'' = fields q"
    using e i(2) q' by simp
qed

lemma transformed_objective:
  assumes "ok" "objective_problem inner n L F best fo" "well_formed p n K"
    and "evaluate_function p = Some Evaluate_own" "best_value p = [Real fo']"
    and "best_parameter p = Some (map Real best')" "length best' = n"
    and "\<And>x. length x = n \<Longrightarrow> value_ok (F (T x)) \<and> fo' \<le> G x (F (T x))"
  shows "objective_problem (Transformed p t inner) n K (\<lambda>x. G x (F (T x))) best' fo'"
  using transformed_implements [OF assms(1,2) _ assms(4,5,8)] assms
  by (simp add: objective_problem_def well_formed_def)

end

end
