(* ===== verification/Coco_Contracts.thy ===== *)
theory Coco_Contracts
  imports Coco_Objectives
begin

text \<open>
  The transformations on real points and values, and their contracts: an interpretation of
  \<open>transformation_contract\<close> for every transformation of the bbob problems. The oscillation of the
  objective value is shown to be monotone.
\<close>

section \<open>Real transformations\<close>

definition affine_point :: "real list \<Rightarrow> real list \<Rightarrow> nat \<Rightarrow> real list \<Rightarrow> real list" where
  "affine_point M b n x = map (\<lambda>i. b ! i + (\<Sum>j = 0..<n. x ! j * M ! (i * n + j))) [0..<n]"

definition shift_point :: "real list \<Rightarrow> real list \<Rightarrow> real list" where
  "shift_point offset x = map (\<lambda>i. x ! i - offset ! i) [0..<length offset]"

definition condition_point :: "real \<Rightarrow> nat \<Rightarrow> real list \<Rightarrow> real list" where
  "condition_point alpha n x = map (\<lambda>i. alpha powr (1 / 2 * real i / (real n - 1)) * x ! i) [0..<n]"

definition asymmetric_point :: "real \<Rightarrow> nat \<Rightarrow> real list \<Rightarrow> real list" where
  "asymmetric_point beta n x = map (\<lambda>i.
     if 0 < x ! i then x ! i powr (1 + beta * real i / (real n - 1) * sqrt (x ! i)) else x ! i) [0..<n]"

definition brs_point :: "nat \<Rightarrow> real list \<Rightarrow> real list" where
  "brs_point n x = map (\<lambda>i.
     (if 0 < x ! i \<and> i mod 2 = 0 then sqrt 10 powr (real i / (real n - 1)) * 10
      else sqrt 10 powr (real i / (real n - 1))) * x ! i) [0..<n]"

definition oscillation :: "real \<Rightarrow> real" where
  "oscillation v =
     (if 0 < v then
        let tmp = ln v / (1 / 10) in exp (tmp + 49 / 100 * (sin tmp + sin (79 / 100 * tmp))) powr (1 / 10)
      else if v < 0 then
        let tmp = ln (- v) / (1 / 10)
        in - (exp (tmp + 49 / 100 * (sin (55 / 100 * tmp) + sin (31 / 100 * tmp))) powr (1 / 10))
      else 0)"

definition region_penalty :: "real list \<Rightarrow> real" where
  "region_penalty x = (\<Sum>i = 0..<length x.
     if 5 < x ! i then (x ! i - 5)\<^sup>2 else if x ! i < - 5 then (- 5 - x ! i)\<^sup>2 else 0)"

lemma oscillate_Real [simp]: "oscillate (Real v) = Real (oscillation v)"
  by (simp add: oscillate_def oscillation_def Let_def)

lemma oscillation_0 [simp]: "oscillation 0 = 0"
  by (simp add: oscillation_def)

section \<open>The oscillation is monotone\<close>

lemma oscillation_exponent_mono:
  fixes c d :: real
  assumes "0 \<le> c" "0 \<le> d" "49 / 100 * (c + d) \<le> 1" "a \<le> b"
  shows "a + 49 / 100 * (sin (c * a) + sin (d * a)) \<le> b + 49 / 100 * (sin (c * b) + sin (d * b))"
proof (rule DERIV_nonneg_imp_nondecreasing [OF \<open>a \<le> b\<close>], intro exI conjI)
  fix x :: real
  show "((\<lambda>x. x + 49 / 100 * (sin (c * x) + sin (d * x))) has_real_derivative
      1 + 49 / 100 * (cos (c * x) * c + cos (d * x) * d)) (at x)"
    by (auto intro!: derivative_eq_intros simp: algebra_simps)
  have "- 1 * c \<le> cos (c * x) * c" "- 1 * d \<le> cos (d * x) * d"
    using assms(1,2) mult_right_mono [OF cos_ge_minus_one] by blast+
  then show "0 \<le> 1 + 49 / 100 * (cos (c * x) * c + cos (d * x) * d)" using assms(3) by argo
qed

lemma oscillation_mono:
  assumes "a \<le> b" shows "oscillation a \<le> oscillation b"
proof -
  consider "0 < a" | "b < 0" | "a \<le> 0" "0 \<le> b" by linarith
  then show ?thesis
  proof cases
    case 1
    then have "ln a / (1 / 10) \<le> ln b / (1 / 10)" using assms by simp
    from oscillation_exponent_mono [OF _ _ _ this, of 1 "79 / 100"] 1 assms
    show ?thesis by (auto simp: oscillation_def Let_def intro!: powr_mono2)
  next
    case 2
    then have "ln (- b) / (1 / 10) \<le> ln (- a) / (1 / 10)" using assms by simp
    from oscillation_exponent_mono [OF _ _ _ this, of "55 / 100" "31 / 100"] 2 assms
    show ?thesis by (auto simp: oscillation_def Let_def intro!: powr_mono2)
  next
    case 3
    then have "oscillation a \<le> 0" "0 \<le> oscillation b" by (auto simp: oscillation_def Let_def)
    then show ?thesis by simp
  qed
qed

section \<open>Contracts\<close>

lemma unconstrained_assert:
  "shape p n \<Longrightarrow> assert_best_if_feasible name x (y, Transformed p t inner)
     = assert_best_always name x (y, Transformed p t inner)"
  by (simp add: assert_best_if_feasible_def assert_best_always_def shape_def)

lemma transform_vars_finite:
  assumes "shape p n" "length x = n" "new_x (map Real x) = Inr x'" "eval x' = Inr (y, inner')"
  shows "transform_vars check p t inner eval new_x (map Real x) = check (map Real x) (y, Transformed p t inner')"
  using assms by (simp add: transform_vars_def shape_def)

lemma transform_obj_finite:
  assumes "shape p n" "length x = n" "eval (map Real x) = Inr (y, inner')"
  shows "transform_obj check p t inner eval new_y (map Real x) = check (map Real x) (new_y y, Transformed p t inner')"
  using assms by (simp add: transform_obj_def shape_def)

lemma ratio_Real: "2 \<le> n \<Longrightarrow> position_ratio i n = Real (real i / (real n - 1))"
  by (simp add: position_ratio_def)

lemma vars_contractI:
  fixes t :: transformation
  assumes "\<And>p inner eval. ok \<Longrightarrow> number_of_variables p = n \<Longrightarrow> number_of_variables (fields inner) = n \<Longrightarrow>
      transformation_evaluate t p inner eval = transform_vars check p t inner eval new_x"
    and "check = assert_best_if_feasible name \<or> check = assert_best_always name"
    and "\<And>x. ok \<Longrightarrow> length x = n \<Longrightarrow> new_x (map Real x) = Inr (map Real (T x)) \<and> length (T x) = n"
  shows "transformation_contract t n name ok T (\<lambda>x v. v) (\<lambda>v. True)"
proof
  fix p inner x v inner' and eval :: evaluation
  assume ok: ok and p: "shape p n" and i: "number_of_variables (fields inner) = n"
    and x: "length x = n" and e: "eval (map Real (T x)) = Inr ([Real v], inner')"
  have n: "number_of_variables p = n" using p by (simp add: shape_def)
  have "new_x (map Real x) = Inr (map Real (T x))" using assms(3) ok x by blast
  then have "transform_vars check p t inner eval new_x (map Real x)
      = check (map Real x) ([Real v], Transformed p t inner')"
    using p x e by (intro transform_vars_finite)
  with assms(2) show "transformation_evaluate t p inner eval (map Real x)
      = assert_best_always name (map Real x) ([Real v], Transformed p t inner')"
    by (auto simp: assms(1) [OF ok n i] unconstrained_assert [OF p])
qed (use assms(3) in blast)

lemma obj_contractI:
  fixes t :: transformation
  assumes "\<And>p inner eval x. ok \<Longrightarrow> shape p n \<Longrightarrow> length x = n \<Longrightarrow>
      transformation_evaluate t p inner eval (map Real x)
        = transform_obj check p t inner eval (new_y p (map Real x)) (map Real x)"
    and "check = assert_best_if_feasible name \<or> check = assert_best_always name"
    and "\<And>p x v. ok \<Longrightarrow> shape p n \<Longrightarrow> length x = n \<Longrightarrow> value_ok v \<Longrightarrow>
      new_y p (map Real x) [Real v] = [Real (G x v)]"
  shows "transformation_contract t n name ok (\<lambda>x. x) G value_ok"
proof
  fix p inner x v inner' and eval :: evaluation
  assume ok: ok and p: "shape p n" and x: "length x = n"
    and v: "value_ok v" and e: "eval (map Real x) = Inr ([Real v], inner')"
  have "transform_obj check p t inner eval (new_y p (map Real x)) (map Real x)
      = check (map Real x) ([Real (G x v)], Transformed p t inner')"
    using transform_obj_finite [of p n x eval "[Real v]" inner' check t inner "new_y p (map Real x)"]
      assms(3) [OF ok p x v] p x e by simp
  with assms(2) show "transformation_evaluate t p inner eval (map Real x)
      = assert_best_always name (map Real x) ([Real (G x v)], Transformed p t inner')"
    by (auto simp: assms(1) [OF ok p x] unconstrained_assert [OF p])
qed

interpretation shift: transformation_contract "Vars_shift (map Real offset)" "length offset"
    "''transform_vars_shift_evaluate_function''" True "shift_point offset" "\<lambda>x v. v" "\<lambda>v. True"
  for offset
  by (rule vars_contractI [where new_x = "\<lambda>x. Inr (shifted_x (map Real offset) (length offset) x)"
        and check = "assert_best_if_feasible ''transform_vars_shift_evaluate_function''"])
    (simp_all add: transform_vars_shift_evaluate_function_def shifted_x_def shift_point_def)

interpretation affine: transformation_contract "Vars_affine (map Real M) (map Real b)" n
    "''transform_vars_affine_evaluate_function''" "length M = n * n \<and> length b = n"
    "affine_point M b n" "\<lambda>x v. v" "\<lambda>v. True"
  for M b n
proof (rule vars_contractI [where new_x = "\<lambda>x. Inr (affine_x (map Real M) (map Real b) n n x)"
      and check = "assert_best_if_feasible ''transform_vars_affine_evaluate_function''"])
  fix x :: "real list"
  assume ok: "length M = n * n \<and> length b = n" and x: "length x = n"
  have "affine_row (map Real M) (map Real b) n i (map Real x)
      = Real (b ! i + (\<Sum>j = 0..<n. x ! j * M ! (i * n + j)))" if "i < n" for i
  proof -
    have "i * n + j < n * n" if "j < n" for j
    proof -
      have "i * n + j < Suc i * n" using that by simp
      also have "\<dots> \<le> n * n" using \<open>i < n\<close> by (intro mult_le_mono1) simp
      finally show ?thesis .
    qed
    then show ?thesis using that ok x unfolding affine_row_def
      by (simp, subst accumulate_upt [where t = "\<lambda>j. x ! j * M ! (i * n + j)"]) auto
  qed
  then show "Inr (affine_x (map Real M) (map Real b) n n (map Real x)) = Inr (map Real (affine_point M b n x))
      \<and> length (affine_point M b n x) = n"
    by (simp add: affine_x_def affine_point_def)
qed (simp_all add: transform_vars_affine_evaluate_function_def)

interpretation scale: transformation_contract "Vars_scale (Real a)" n
    "''transform_vars_scale_evaluate''" True "map (\<lambda>v. a * v)" "\<lambda>x v. v" "\<lambda>v. True"
  for a n
  by (rule vars_contractI [where new_x = "\<lambda>x. Inr (scaled_x (Real a) n x)"
        and check = "assert_best_always ''transform_vars_scale_evaluate''"])
    (simp_all add: transform_vars_scale_evaluate_def scaled_x_def list_eq_iff_nth_eq)

interpretation conditioning: transformation_contract "Vars_conditioning (Real a)" n
    "''transform_vars_conditioning_evaluate''" "2 \<le> n \<and> 0 < a" "condition_point a n" "\<lambda>x v. v" "\<lambda>v. True"
  for a n
  by (rule vars_contractI [where new_x = "\<lambda>x. Inr (conditioned_x (Real a) n x)"
        and check = "assert_best_always ''transform_vars_conditioning_evaluate''"])
    (simp_all add: transform_vars_conditioning_evaluate_def conditioned_x_def condition_point_def)

interpretation asymmetric: transformation_contract "Vars_asymmetric (Real beta)" n
    "''transform_vars_asymmetric_evaluate_function''" "2 \<le> n" "asymmetric_point beta n" "\<lambda>x v. v" "\<lambda>v. True"
  for beta n
  by (rule vars_contractI [where new_x = "\<lambda>x. Inr (asymmetric_x (Real beta) n x)"
        and check = "assert_best_if_feasible ''transform_vars_asymmetric_evaluate_function''"])
    (simp_all add: transform_vars_asymmetric_evaluate_function_def asymmetric_x_def asymmetric_point_def)

interpretation brs: transformation_contract Vars_brs n
    "''transform_vars_brs_evaluate''" "2 \<le> n" "brs_point n" "\<lambda>x v. v" "\<lambda>v. True"
  for n
  by (rule vars_contractI [where new_x = "\<lambda>x. Inr (brs_x n x)"
        and check = "assert_best_always ''transform_vars_brs_evaluate''"])
    (simp_all add: transform_vars_brs_evaluate_def brs_x_def brs_point_def Let_def ratio_Real)

interpretation oscillate: transformation_contract Vars_oscillate n
    "''transform_vars_oscillate_evaluate_function''" True "map oscillation" "\<lambda>x v. v" "\<lambda>v. True"
  for n
  by (rule vars_contractI [where new_x = "\<lambda>x. Inr (oscillated_x n x)"
        and check = "assert_best_if_feasible ''transform_vars_oscillate_evaluate_function''"])
    (simp_all add: transform_vars_oscillate_evaluate_function_def oscillated_x_def list_eq_iff_nth_eq)

interpretation obj_oscillate: transformation_contract Obj_oscillate n
    "''transform_obj_oscillate_evaluate''" True "\<lambda>x. x" "\<lambda>x. oscillation" "\<lambda>v. True"
  for n
  by (rule obj_contractI [where new_y = "\<lambda>p x. map (\<lambda>v. if not_equal v (Real 0) then oscillate v else v)"
        and check = "assert_best_alias False ''transform_obj_oscillate_evaluate''"])
    (simp_all add: transform_obj_oscillate_evaluate_def fun_eq_iff assert_best_alias_def case_prod_unfold)

interpretation obj_power: transformation_contract "Obj_power (Real e)" n
    "''transform_obj_power_evaluate''" "0 < e" "\<lambda>x. x" "\<lambda>x v. v powr e" "\<lambda>v. 0 \<le> v"
  for e n
  by (rule obj_contractI [where new_y = "\<lambda>p x. map (\<lambda>v. dpow v (Real e))"
        and check = "assert_best_alias False ''transform_obj_power_evaluate''"])
    (simp_all add: transform_obj_power_evaluate_def fun_eq_iff assert_best_alias_def case_prod_unfold real_pow_nonneg)

interpretation obj_shift: transformation_contract "Obj_shift (Real c)" n
    "''transform_obj_shift_evaluate_function''" True "\<lambda>x. x" "\<lambda>x v. v + c" "\<lambda>v. True"
  for c n
  by (rule obj_contractI [where new_y = "\<lambda>p x. map (\<lambda>v. v + Real c)"
        and check = "assert_best_if_feasible ''transform_obj_shift_evaluate_function''"])
    (simp_all add: transform_obj_shift_evaluate_function_def)

interpretation obj_scale: transformation_contract "Obj_scale (Real c)" n
    "''transform_obj_scale_evaluate_function''" True "\<lambda>x. x" "\<lambda>x v. v * c" "\<lambda>v. True"
  for c n
  by (rule obj_contractI [where new_y = "\<lambda>p x. map (\<lambda>v. v * Real c)"
        and check = "assert_best_if_feasible ''transform_obj_scale_evaluate_function''"])
    (simp_all add: transform_obj_scale_evaluate_function_def)

lemma penalty_Real:
  assumes "shape p n" "length x = n"
  shows "penalty p (map Real x) = Real (region_penalty x)"
proof -
  have n: "number_of_variables p = n" and r: "smallest_values_of_interest p = replicate n (Real (- 5))"
    "largest_values_of_interest p = replicate n (Real 5)"
    using assms(1) by (auto simp: shape_def)
  have "penalty p (map Real x) = Real (0 + (\<Sum>i = 0..<n.
     if 5 < x ! i then (x ! i - 5)\<^sup>2 else if x ! i < - 5 then (- 5 - x ! i)\<^sup>2 else 0))"
    unfolding penalty_def n r
    by (rule accumulate_upt) (use assms(2) in \<open>simp add: out_of_region_def power2_eq_square\<close>)
  then show ?thesis using assms(2) by (simp add: region_penalty_def)
qed

interpretation obj_penalize: transformation_contract "Obj_penalize (Real c)" n
    "''transform_obj_penalize_evaluate''" True "\<lambda>x. x" "\<lambda>x v. v + c * region_penalty x" "\<lambda>v. True"
  for c n
proof (rule obj_contractI [where new_y = "\<lambda>p x. map (\<lambda>v. v + Real c * penalty p x)"
      and check = "assert_best_always ''transform_obj_penalize_evaluate''"])
  fix p inner and eval :: evaluation and x :: "real list"
  assume p: "shape p n" and x: "length x = n"
  then show "transformation_evaluate (Obj_penalize (Real c)) p inner eval (map Real x)
      = transform_obj (assert_best_always ''transform_obj_penalize_evaluate'') p (Obj_penalize (Real c)) inner
          eval (map (\<lambda>v. v + Real c * penalty p (map Real x))) (map Real x)"
    by (simp add: transform_obj_penalize_evaluate_def shape_def list_all_iff)
qed (auto simp: penalty_Real)

interpretation norm_by_dim: transformation_contract Obj_norm_by_dim n
    "''transform_obj_norm_by_dim_evaluate''" True "\<lambda>x. x" "\<lambda>x v. v * min 1 (40 / real n)" "\<lambda>v. True"
  for n
proof
  fix p inner inner' v and eval :: evaluation and x :: "real list"
  assume p: "shape p n" and e: "eval (map Real x) = Inr ([Real v], inner')"
  have "number_of_variables p = n" "0 < n" using p by (auto simp: shape_def)
  then have "bbob2009_fmin (Real 1) (ddiv (Real 40) (Real (real (number_of_variables p))))
      = Real (min 1 (40 / real n))"
    by (simp add: bbob2009_fmin_def min_def)
  then show "transformation_evaluate Obj_norm_by_dim p inner eval (map Real x)
      = assert_best_always ''transform_obj_norm_by_dim_evaluate'' (map Real x)
          ([Real (v * min 1 (40 / real n))], Transformed p Obj_norm_by_dim inner')"
    by (simp add: transform_obj_norm_by_dim_evaluate_def e)
qed simp

interpretation permutation: transformation_contract "Vars_permutation P" n
    "''transform_vars_permutation_evaluate''" "length P = n \<and> (\<forall>i < n. P ! i < n)"
    "\<lambda>x. map (\<lambda>i. x ! (P ! i)) [0..<n]" "\<lambda>x v. v" "\<lambda>v. True"
  for P n
proof
  fix p inner inner' v and eval :: evaluation and x :: "real list"
  assume P: "length P = n \<and> (\<forall>i < n. P ! i < n)" and n: "number_of_variables (fields inner) = n"
    and x: "length x = n"
    and e: "eval (map Real (map (\<lambda>i. x ! (P ! i)) [0..<n])) = Inr ([Real v], inner')"
  have eq: "map (\<lambda>i. map Real x ! (P ! i)) [0..<n] = map Real (map (\<lambda>i. x ! (P ! i)) [0..<n])"
    using P x by simp
  note e' = e [folded eq]
  show "transformation_evaluate (Vars_permutation P) p inner eval (map Real x)
      = assert_best_always ''transform_vars_permutation_evaluate'' (map Real x)
          ([Real v], Transformed p (Vars_permutation P) inner')"
    using P x e' n by (simp add: transform_vars_permutation_evaluate_def Let_def list_all_iff)
qed simp

end
