(* ===== verification/Coco_Constructors.thy ===== *)
theory Coco_Constructors
  imports Coco_Contracts
begin

text \<open>
  What the functions \<open>transform_*\<close> construct: from a new problem that implements \<open>F\<close> a new problem that
  implements the transformed function, with its best value and best parameter. All constructions
  succeed, the names stay within the buffer of \<open>coco_vstrdupf\<close>.
\<close>

section \<open>New problems\<close>

definition fresh :: "coco_problem_s \<Rightarrow> bool" where
  "fresh p \<longleftrightarrow> evaluations p = 0 \<and> evaluations_constraints p = 0
     \<and> best_observed_fvalue p = Real DBL_MAX \<and> best_observed_evaluation p = 0
     \<and> final_target_delta p = Real (1 / 10 ^ 8)"

definition new_problem ::
    "coco_problem_t \<Rightarrow> nat \<Rightarrow> nat \<Rightarrow> (real list \<Rightarrow> real) \<Rightarrow> real list \<Rightarrow> real \<Rightarrow> bool" where
  "new_problem p n L F best fo \<longleftrightarrow> objective_problem p n L F best fo \<and> fresh (fields p)"

definition gives ::
    "coco_problem_t result \<Rightarrow> nat \<Rightarrow> nat \<Rightarrow> (real list \<Rightarrow> real) \<Rightarrow> real list \<Rightarrow> real \<Rightarrow> bool" where
  "gives r n L F best fo \<longleftrightarrow> (\<exists>p. r = Inr p \<and> new_problem p n L F best fo)"

lemma gives_bind:
  assumes "gives r n L F best fo"
    and "\<And>p. new_problem p n L F best fo \<Longrightarrow> gives (k p) n L' F' best' fo'"
  shows "gives (rbind r k) n L' F' best' fo'"
  using assms by (auto simp: gives_def)

lemma gives_Inr: "new_problem p n L F best fo \<Longrightarrow> gives (Inr p) n L F best fo"
  by (simp add: gives_def)

text \<open>The copy that \<open>coco_problem_transformed_allocate\<close> makes.\<close>

definition copy_of :: "coco_problem_s \<Rightarrow> coco_problem_t \<Rightarrow> nat \<Rightarrow> nat \<Rightarrow> real list \<Rightarrow> real \<Rightarrow> bool" where
  "copy_of p inner n K best fo \<longleftrightarrow> well_formed p n K \<and> best_value p = [Real fo]
     \<and> best_parameter p = Some (map Real best) \<and> length best = n \<and> fresh p"

lemma transformed_allocate_ok:
  assumes "new_problem inner n L F best fo" "length prefix + 2 \<le> k" "L + k \<le> 441"
  shows "\<exists>p. coco_problem_transformed_allocate inner t prefix = Inr (Transformed p t inner)
    \<and> copy_of p inner n (L + k) best fo \<and> evaluate_function p = Some Evaluate_inner"
proof -
  let ?f = "fields inner"
  from assms(1) obtain s where s: "problem_name ?f = Some s" "length s \<le> L"
    and sh: "shape ?f n" and best: "best_value ?f = [Real fo]"
      "best_parameter ?f = Some (map Real best)" "length best = n" and fr: "fresh ?f"
    by (auto simp: new_problem_def objective_problem_def well_formed_def)
  have dup: "\<exists>p. coco_problem_duplicate ?f = Inr p \<and> shape p n \<and> best_value p = [Real fo]
      \<and> best_parameter p = Some (map Real best) \<and> fresh p"
    using sh best fr
    by (auto simp: coco_problem_duplicate_def coco_problem_allocate_def coco_allocate_vector_def
        shape_def copy_vector_def copy_optional_def fresh_def)
  then obtain p where p: "coco_problem_duplicate ?f = Inr p" "shape p n" "best_value p = [Real fo]"
    "best_parameter p = Some (map Real best)" "fresh p" by blast
  define q where "q = p\<lparr>evaluate_function := Some Evaluate_inner,
    evaluate_constraint := Some Constraint_inner, problem_name := Some (prefix @ ''('' @ s @ '')'')\<rparr>"
  have "coco_problem_transformed_allocate inner t prefix = Inr (Transformed q t inner)"
    using p(1) s assms(2,3)
    by (simp add: coco_problem_transformed_allocate_def coco_problem_set_name_def coco_vstrdupf_def
        COCO_VSTRDUPF_BUFLEN_def q_def)
  moreover have "copy_of q inner n (L + k) best fo"
    using p s assms(2) best(3) by (simp add: copy_of_def well_formed_def q_def shape_def fresh_def)
  moreover have "evaluate_function q = Some Evaluate_inner" by (simp add: q_def)
  ultimately show ?thesis by blast
qed

text \<open>Pointing to the function of the transformation and setting the best value and parameter.\<close>

lemma copy_of_own:
  assumes "copy_of p inner n K best fo"
  shows "copy_of (p\<lparr>evaluate_function := Some Evaluate_own\<rparr>) inner n K best fo"
  using assms by (simp add: copy_of_def well_formed_def shape_def fresh_def)

lemma copy_of_value:
  assumes "copy_of p inner n K best fo"
  shows "copy_of (p\<lparr>best_value := [Real fo']\<rparr>) inner n K best fo'"
  using assms by (simp add: copy_of_def well_formed_def shape_def fresh_def)

lemma copy_of_parameter:
  assumes "copy_of p inner n K best fo" "length best' = n"
  shows "copy_of (p\<lparr>best_parameter := Some (map Real best')\<rparr>) inner n K best' fo"
  using assms by (simp add: copy_of_def well_formed_def shape_def fresh_def)

context transformation_contract
begin

lemma constructed:
  assumes "ok" "new_problem inner n L F best fo" "copy_of p inner' n K best' fo'"
    and "evaluate_function p = Some Evaluate_own"
    and "\<And>x. length x = n \<Longrightarrow> value_ok (F (T x)) \<and> fo' \<le> G x (F (T x))"
  shows "new_problem (Transformed p t inner) n K (\<lambda>x. G x (F (T x))) best' fo'"
  using transformed_objective [OF assms(1), of inner L F best fo p K fo' best'] assms
  by (simp add: new_problem_def copy_of_def)

end

lemma new_problemD:
  assumes "new_problem p n L F best fo"
  shows "number_of_objectives (fields p) = 1" "number_of_constraints (fields p) = 0"
    "number_of_variables (fields p) = n" "0 < n" "best_value (fields p) = [Real fo]"
    "best_parameter (fields p) = Some (map Real best)" "length best = n"
    "length x = n \<Longrightarrow> fo \<le> F x"
  using assms by (auto simp: new_problem_def objective_problem_def well_formed_def shape_def)

lemma copy_ofD:
  assumes "copy_of p inner n K best fo"
  shows "number_of_objectives p = 1" "number_of_constraints p = 0"
    "number_of_variables p = n" "0 < n" "best_value p = [Real fo]"
    "best_parameter p = Some (map Real best)" "length best = n" "initial_solution p = None"
  using assms by (auto simp: copy_of_def well_formed_def shape_def)

section \<open>Transformations of the objective value\<close>

lemma transform_obj_shift_gives:
  assumes "new_problem p n L F best fo" "L + 21 \<le> 441"
  shows "gives (transform_obj_shift p (Real c)) n (L + 21) (\<lambda>x. F x + c) best (fo + c)"
proof -
  obtain q where q: "coco_problem_transformed_allocate p (Obj_shift (Real c)) ''transform_obj_shift''
      = Inr (Transformed q (Obj_shift (Real c)) p)" "copy_of q p n (L + 21) best fo"
    using transformed_allocate_ok [OF assms(1), of "''transform_obj_shift''" 21 "(Obj_shift (Real c))"] assms(2) by auto
  note D = new_problemD [OF assms(1)] copy_ofD [OF q(2)]
  have "transform_obj_shift p (Real c) = Inr (Transformed
      (q\<lparr>evaluate_function := Some Evaluate_own, best_value := [Real (fo + c)]\<rparr>) (Obj_shift (Real c)) p)"
    using D q(1) by (simp add: transform_obj_shift_def own_function_def set_best_value_def)
  moreover have "new_problem (Transformed
      (q\<lparr>evaluate_function := Some Evaluate_own, best_value := [Real (fo + c)]\<rparr>) (Obj_shift (Real c)) p)
      n (L + 21) (\<lambda>x. F x + c) best (fo + c)"
    using copy_of_value [OF copy_of_own [OF q(2)]] D(8)
    by (intro obj_shift.constructed [OF _ assms(1)]) auto
  ultimately show ?thesis by (simp add: gives_def)
qed

lemma transform_obj_scale_gives:
  assumes "new_problem p n L F best fo" "L + 21 \<le> 441" "0 \<le> c"
  shows "gives (transform_obj_scale p (Real c)) n (L + 21) (\<lambda>x. F x * c) best (fo * c)"
proof -
  obtain q where q: "coco_problem_transformed_allocate p (Obj_scale (Real c)) ''transform_obj_scale''
      = Inr (Transformed q (Obj_scale (Real c)) p)" "copy_of q p n (L + 21) best fo"
    using transformed_allocate_ok [OF assms(1), of "''transform_obj_scale''" 21 "(Obj_scale (Real c))"] assms(2) by auto
  note D = new_problemD [OF assms(1)] copy_ofD [OF q(2)]
  have "transform_obj_scale p (Real c) = Inr (Transformed
      (q\<lparr>evaluate_function := Some Evaluate_own, best_value := [Real (fo * c)]\<rparr>) (Obj_scale (Real c)) p)"
    using D q(1) by (simp add: transform_obj_scale_def own_function_def set_best_value_def)
  moreover have "new_problem (Transformed
      (q\<lparr>evaluate_function := Some Evaluate_own, best_value := [Real (fo * c)]\<rparr>) (Obj_scale (Real c)) p)
      n (L + 21) (\<lambda>x. F x * c) best (fo * c)"
    using copy_of_value [OF copy_of_own [OF q(2)]] D(8) assms(3)
    by (intro obj_scale.constructed [OF _ assms(1)]) (auto intro: mult_right_mono)
  ultimately show ?thesis by (simp add: gives_def)
qed

lemma region_penalty_nonneg: "0 \<le> region_penalty x"
  by (auto simp: region_penalty_def intro!: sum_nonneg)

lemma transform_obj_penalize_gives:
  assumes "new_problem p n L F best fo" "L + 24 \<le> 441" "0 \<le> c"
  shows "gives (transform_obj_penalize p (Real c)) n (L + 24) (\<lambda>x. F x + c * region_penalty x) best fo"
proof -
  obtain q where q: "coco_problem_transformed_allocate p (Obj_penalize (Real c)) ''transform_obj_penalize''
      = Inr (Transformed q (Obj_penalize (Real c)) p)" "copy_of q p n (L + 24) best fo"
    using transformed_allocate_ok [OF assms(1), of "''transform_obj_penalize''" 24 "(Obj_penalize (Real c))"] assms(2) by auto
  have "transform_obj_penalize p (Real c)
      = Inr (Transformed (q\<lparr>evaluate_function := Some Evaluate_own\<rparr>) (Obj_penalize (Real c)) p)"
    using q(1) by (simp add: transform_obj_penalize_def own_function_def)
  moreover have "fo \<le> F x + c * region_penalty x" if "length x = n" for x
    using new_problemD(8) [OF assms(1) that] mult_nonneg_nonneg [OF assms(3) region_penalty_nonneg [of x]]
    by linarith
  then have "new_problem (Transformed (q\<lparr>evaluate_function := Some Evaluate_own\<rparr>) (Obj_penalize (Real c)) p)
      n (L + 24) (\<lambda>x. F x + c * region_penalty x) best fo"
    using copy_of_own [OF q(2)] by (intro obj_penalize.constructed [OF _ assms(1)]) auto
  ultimately show ?thesis by (simp add: gives_def)
qed

text \<open>The normalization by the dimension keeps the best value, so it must not be positive.\<close>

lemma transform_obj_norm_by_dim_gives:
  assumes "new_problem p n L F best fo" "L + 27 \<le> 441" "fo = 0"
  shows "gives (transform_obj_norm_by_dim p) n (L + 27) (\<lambda>x. F x * min 1 (40 / real n)) best fo"
proof -
  obtain q where q: "coco_problem_transformed_allocate p Obj_norm_by_dim ''transform_obj_norm_by_dim''
      = Inr (Transformed q Obj_norm_by_dim p)" "copy_of q p n (L + 27) best fo"
    using transformed_allocate_ok [OF assms(1), of "''transform_obj_norm_by_dim''" 27 "Obj_norm_by_dim"] assms(2) by auto
  have "transform_obj_norm_by_dim p
      = Inr (Transformed (q\<lparr>evaluate_function := Some Evaluate_own\<rparr>) Obj_norm_by_dim p)"
    using q(1) by (simp add: transform_obj_norm_by_dim_def own_function_def)
  moreover have "fo \<le> F x * min 1 (40 / real n)" if "length x = n" for x
    using new_problemD(8) [OF assms(1) that] assms(3) by simp
  then have "new_problem (Transformed (q\<lparr>evaluate_function := Some Evaluate_own\<rparr>) Obj_norm_by_dim p)
      n (L + 27) (\<lambda>x. F x * min 1 (40 / real n)) best fo"
    using copy_of_own [OF q(2)] by (intro norm_by_dim.constructed [OF _ assms(1)]) auto
  ultimately show ?thesis by (simp add: gives_def)
qed

text \<open>
  Two constructors evaluate the new problem at its best parameter; the evaluation counts for the inner
  problem only.
\<close>

lemma evaluated_inner:
  assumes "new_problem p n L F best fo"
  shows "\<exists>p'. coco_evaluate_function p (map Real best) = Inr ([Real (F best)], p')
    \<and> objective_problem p' n L F best fo"
  using coco_evaluate_function_objective [of p n L F best fo best] assms
  by (auto simp: new_problem_def objective_problem_def)

context transformation_contract
begin

lemma constructed_evaluated:
  assumes "ok" "objective_problem inner n L F best fo" "copy_of p inner' n K best' fo'"
    and "evaluate_function p = Some Evaluate_own"
    and "\<And>x. length x = n \<Longrightarrow> value_ok (F (T x)) \<and> fo' \<le> G x (F (T x))"
  shows "new_problem (Transformed p t inner) n K (\<lambda>x. G x (F (T x))) best' fo'"
  using transformed_objective [OF assms(1,2), of p K fo' best'] assms
  by (simp add: new_problem_def copy_of_def)

end

lemma transform_obj_oscillate_gives:
  assumes "new_problem p n L F best fo" "L + 25 \<le> 441" "F best = fo"
  shows "gives (transform_obj_oscillate p) n (L + 25) (\<lambda>x. oscillation (F x)) best (oscillation fo)"
proof -
  obtain q where q: "coco_problem_transformed_allocate p Obj_oscillate ''transform_obj_oscillate''
      = Inr (Transformed q Obj_oscillate p)" "copy_of q p n (L + 25) best fo"
    using transformed_allocate_ok [OF assms(1), of "''transform_obj_oscillate''" 25 "Obj_oscillate"] assms(2) by auto
  obtain p' where p': "coco_evaluate_function p (map Real best) = Inr ([Real fo], p')"
    "objective_problem p' n L F best fo"
    using evaluated_inner [OF assms(1)] assms(3) by auto
  let ?q = "q\<lparr>evaluate_function := Some Evaluate_own, best_value := [Real (oscillation fo)]\<rparr>"
  note D = new_problemD [OF assms(1)] copy_ofD [OF q(2)]
  have "transform_obj_oscillate p = Inr (Transformed ?q Obj_oscillate p')"
    using D q(1) p'(1)
    by (auto simp: transform_obj_oscillate_def own_function_def evaluate_best_value_def
        get_best_parameter_def copy_vector_def transform_obj_oscillate_evaluate_def transform_obj_def
        assert_best_alias_def assert_best_always_def assert_best_def set_best_value_def)
  moreover have "new_problem (Transformed ?q Obj_oscillate p') n (L + 25) (\<lambda>x. oscillation (F x)) best (oscillation fo)"
    using copy_of_value [OF copy_of_own [OF q(2)]] D(8) oscillation_mono
    by (intro obj_oscillate.constructed_evaluated [OF _ p'(2)]) auto
  ultimately show ?thesis by (simp add: gives_def)
qed

lemma transform_obj_power_gives:
  assumes "new_problem p n L F best fo" "L + 21 \<le> 441" "F best = fo" "0 \<le> fo" "0 < e"
  shows "gives (transform_obj_power p (Real e)) n (L + 21) (\<lambda>x. F x powr e) best (fo powr e)"
proof -
  obtain q where q: "coco_problem_transformed_allocate p (Obj_power (Real e)) ''transform_obj_power''
      = Inr (Transformed q (Obj_power (Real e)) p)" "copy_of q p n (L + 21) best fo"
    using transformed_allocate_ok [OF assms(1), of "''transform_obj_power''" 21 "(Obj_power (Real e))"] assms(2) by auto
  obtain p' where p': "coco_evaluate_function p (map Real best) = Inr ([Real fo], p')"
    "objective_problem p' n L F best fo"
    using evaluated_inner [OF assms(1)] assms(3) by auto
  let ?q = "q\<lparr>evaluate_function := Some Evaluate_own, best_value := [Real (fo powr e)]\<rparr>"
  note D = new_problemD [OF assms(1)] copy_ofD [OF q(2)]
  have "transform_obj_power p (Real e) = Inr (Transformed ?q (Obj_power (Real e)) p')"
    using D q(1) p'(1) assms(4,5)
    by (auto simp: transform_obj_power_def own_function_def evaluate_best_value_def
        get_best_parameter_def copy_vector_def transform_obj_power_evaluate_def transform_obj_def
        assert_best_alias_def assert_best_always_def assert_best_def set_best_value_def real_pow_nonneg)
  moreover have "0 \<le> F x \<and> fo powr e \<le> F x powr e" if "length x = n" for x
    using D(8) [OF that] assms(4,5) by (auto intro: powr_mono2)
  then have "new_problem (Transformed ?q (Obj_power (Real e)) p') n (L + 21) (\<lambda>x. F x powr e) best (fo powr e)"
    using copy_of_value [OF copy_of_own [OF q(2)]] assms(5)
    by (intro obj_power.constructed_evaluated [OF _ p'(2)]) auto
  ultimately show ?thesis by (simp add: gives_def)
qed

end
