(* ===== verification/Coco_Rotations.thy ===== *)
theory Coco_Rotations
  imports Coco_Legacy
begin

text \<open>
  The values of the legacy random instances: Gaussian numbers are finite, optimal points lie in
  \<open>[-4, 4)\<close>, optimal values in \<open>[-1000, 1000]\<close>, and a rotation matrix without NaN is orthogonal: its
  columns are orthonormal by construction, its rows by a dimension argument.
\<close>

section \<open>Gaussian numbers, optimal points and values\<close>

lemma bbob2009_gauss_ok:
  assumes "seed_ok seed" "2 * N < 6000"
  shows "\<exists>g. bbob2009_gauss N seed = Inr (map Real g) \<and> length g = N \<and> (\<forall>v \<in> set g. v \<noteq> 0)"
proof -
  obtain u where u: "bbob2009_unif (2 * N) seed = Inr u" "length u = 2 * N"
    "\<forall>v \<in> set u. 0 < v \<and> v < 1"
    using bbob2009_unif_ok [OF assms(1)] by blast
  define g where "g = map (\<lambda>i. let g = sqrt (- 2 * ln (u ! i)) * cos (2 * pi * u ! (N + i))
    in if g = 0 then 1 / 10 ^ 99 else g) [0..<N]"
  have u01: "0 < u ! i \<and> u ! i \<noteq> 0 \<and> \<not> 1 < u ! i" if "i < N" for i
  proof -
    have "u ! i \<in> set u" using u(2) that by simp
    then show ?thesis using u(3) by force
  qed
  have "bbob2009_gauss N seed = Inr (map Real g)"
    using assms(2)
    by (auto simp: bbob2009_gauss_def u(1) g_def Let_def u01)
  moreover have "length g = N" "\<forall>v \<in> set g. v \<noteq> 0" by (auto simp: g_def Let_def)
  ultimately show ?thesis by blast
qed

lemma bbob2009_compute_xopt_ok:
  assumes "seed_ok seed"
  shows "\<exists>x. bbob2009_compute_xopt seed n = Inr x \<and> length x = n
    \<and> (\<forall>v \<in> set x. - 4 \<le> v \<and> v < 4 \<and> v \<noteq> 0)"
proof -
  obtain u where u: "bbob2009_unif n seed = Inr u" "length u = n" "\<forall>v \<in> set u. 0 < v \<and> v < 1"
    using bbob2009_unif_ok [OF assms] by blast
  have "- 4 \<le> 8 * of_int \<lfloor>10 ^ 4 * v\<rfloor> / 10 ^ 4 - (4 :: real)
      \<and> 8 * of_int \<lfloor>10 ^ 4 * v\<rfloor> / 10 ^ 4 - (4 :: real) < 4" if "0 < v" "v < 1" for v :: real
  proof -
    have "0 \<le> \<lfloor>10 ^ 4 * v\<rfloor>" "\<lfloor>10 ^ 4 * v\<rfloor> < 10000" using that by (auto simp: floor_less_iff)
    then have "0 \<le> (of_int \<lfloor>10 ^ 4 * v\<rfloor> :: real)" "(of_int \<lfloor>10 ^ 4 * v\<rfloor> :: real) < 10000" by linarith+
    then show ?thesis by simp
  qed
  then show ?thesis using u by (auto simp: bbob2009_compute_xopt_def Let_def)
qed

lemma bbob2009_compute_fopt_ok:
  assumes "seed_ok (fopt_seed function + to_long (size_t (10000 * inst)))"
    and "seed_ok (fopt_seed function + to_long (size_t (10000 * inst)) + 1)"
  shows "\<exists>f. bbob2009_compute_fopt function inst = Inr (Real f) \<and> - 1000 \<le> f \<and> f \<le> 1000"
proof -
  obtain g where g: "bbob2009_gauss 1 (fopt_seed function + to_long (size_t (10000 * inst)))
      = Inr (map Real g)" "length g = 1"
    using bbob2009_gauss_ok [OF assms(1), of 1] by auto
  obtain h where h: "bbob2009_gauss 1 (fopt_seed function + to_long (size_t (10000 * inst)) + 1)
      = Inr (map Real h)" "length h = 1" "\<forall>v \<in> set h. v \<noteq> 0"
    using bbob2009_gauss_ok [OF assms(2), of 1] by auto
  have "h ! 0 \<noteq> 0" using h by (auto simp: nth_mem)
  define q where "q = of_int \<lfloor>10000 * g ! 0 / h ! 0 + 1 / 2\<rfloor> / (100 :: real)"
  have "bbob2009_compute_fopt function inst
      = Inr (bbob2009_fmin (Real 1000) (bbob2009_fmax (Real (- 1000)) (Real q)))"
    using g h \<open>h ! 0 \<noteq> 0\<close> by (simp add: bbob2009_compute_fopt_def Let_def bbob2009_round_def q_def)
  moreover have "\<exists>f. bbob2009_fmin (Real 1000) (bbob2009_fmax (Real (- 1000)) (Real q)) = Real f
      \<and> - 1000 \<le> f \<and> f \<le> 1000"
    by (cases "q < - 1000"; cases "1000 < q") (auto simp: bbob2009_fmin_def bbob2009_fmax_def)
  ultimately show ?thesis by auto
qed

section \<open>Rotation matrices\<close>

definition rdot :: "real list \<Rightarrow> real list \<Rightarrow> real" where
  "rdot c d = (\<Sum>k < length c. c ! k * d ! k)"

lemma column_product_Real:
  "length d = length c \<Longrightarrow> column_product (map Real c) (map Real d) = Real (rdot c d)"
  unfolding column_product_def rdot_def
  by (subst accumulate_upt [where t = "\<lambda>k. c ! k * d ! k"]) (simp_all add: atLeast0LessThan)

lemma rdot_sub:
  "rdot e (map (\<lambda>k. c ! k - p * d ! k) [0..<length e]) = rdot e c - p * rdot e d"
  by (simp add: rdot_def right_diff_distrib sum_subtractf sum_distrib_left mult.left_commute)

lemma rdot_commute: "length c = length d \<Longrightarrow> rdot c d = rdot d c"
  by (simp add: rdot_def mult.commute)

definition orthonormal :: "nat \<Rightarrow> real list list \<Rightarrow> bool" where
  "orthonormal n cs \<longleftrightarrow> (\<forall>c \<in> set cs. length c = n)
     \<and> (\<forall>i < length cs. \<forall>j < length cs. rdot (cs ! i) (cs ! j) = (if i = j then 1 else 0))"

lemma orthonormal_Cons:
  assumes "orthonormal n (d # ds)"
  shows "length d = n" "rdot d d = 1" "orthonormal n ds" "e \<in> set ds \<Longrightarrow> rdot d e = 0"
proof -
  have o: "i < Suc (length ds) \<Longrightarrow> j < Suc (length ds) \<Longrightarrow>
      rdot ((d # ds) ! i) ((d # ds) ! j) = (if i = j then 1 else 0)" for i j
    using assms by (auto simp: orthonormal_def)
  show "length d = n" using assms by (simp add: orthonormal_def)
  show "rdot d d = 1" using o [of 0 0] by simp
  show "orthonormal n ds" using assms o [of "Suc i" "Suc j" for i j] by (auto simp: orthonormal_def)
  show "rdot d e = 0" if "e \<in> set ds" using that o [of 0 "Suc j" for j] by (auto simp: in_set_conv_nth)
qed

lemma orthonormal_snoc:
  assumes "orthonormal n cs" "length c = n" "rdot c c = 1" "\<forall>d \<in> set cs. rdot d c = 0"
  shows "orthonormal n (cs @ [c])"
proof -
  have "\<forall>d \<in> set cs. rdot c d = 0"
    using assms by (auto simp: orthonormal_def rdot_commute)
  then show ?thesis using assms by (auto simp: orthonormal_def nth_append less_Suc_eq nth_mem)
qed

lemma subtract_projections_Real:
  assumes "orthonormal n ds" "length c = n"
  shows "\<exists>c'. subtract_projections (map Real c) (map (map Real) ds) = map Real c' \<and> length c' = n
    \<and> (\<forall>e. length e = n \<longrightarrow> rdot e c = 0 \<longrightarrow> (\<forall>d \<in> set ds. rdot e d = 0) \<longrightarrow> rdot e c' = 0)
    \<and> (\<forall>d \<in> set ds. rdot d c' = 0)"
  using assms
proof (induction ds arbitrary: c)
  case Nil
  then show ?case by (intro exI [of _ c]) simp
next
  case (Cons d ds)
  note od = orthonormal_Cons [OF Cons.prems(1)]
  define p where "p = rdot c d"
  define c1 where "c1 = map (\<lambda>k. c ! k - p * d ! k) [0..<n]"
  have len: "length c1 = n" by (simp add: c1_def)
  have "column_product (map Real c) (map Real d) = Real p"
    using column_product_Real od(1) Cons.prems(2) by (simp add: p_def)
  moreover have "map (\<lambda>k. map Real c ! k - Real p * map Real d ! k) [0..<n] = map Real c1"
    using od(1) Cons.prems(2) by (auto simp: c1_def)
  ultimately have step: "subtract_projections (map Real c) (map (map Real) (d # ds))
      = subtract_projections (map Real c1) (map (map Real) ds)"
    using Cons.prems(2) by (simp add: Let_def)
  obtain c' where c': "subtract_projections (map Real c1) (map (map Real) ds) = map Real c'"
    "length c' = n" "\<forall>d \<in> set ds. rdot d c' = 0"
    "\<And>e. length e = n \<Longrightarrow> rdot e c1 = 0 \<Longrightarrow> \<forall>d \<in> set ds. rdot e d = 0 \<Longrightarrow> rdot e c' = 0"
    using Cons.IH [OF od(3) len] by blast
  have c1: "rdot e c1 = rdot e c - p * rdot e d" if "length e = n" for e
    unfolding c1_def that [symmetric] by (rule rdot_sub)
  have "rdot d c1 = 0" using c1 [OF od(1)] od(1,2) Cons.prems(2) by (simp add: p_def rdot_commute)
  then have "rdot d c' = 0" using c'(4) od by blast
  moreover have "rdot e c' = 0"
    if "length e = n" "rdot e c = 0" "\<forall>d \<in> set (d # ds). rdot e d = 0" for e
    using c'(4) c1 that by simp
  ultimately show ?case using step c' by auto
qed

lemma rdot_self: "0 \<le> rdot c c" "rdot c c = 0 \<Longrightarrow> \<forall>v \<in> set c. v = 0"
  by (auto simp: rdot_def sum_nonneg sum_nonneg_eq_0_iff in_set_conv_nth)

lemma normalize_column_Real:
  assumes "rdot c c \<noteq> 0"
  shows "normalize_column (map Real c) = map Real (map (\<lambda>v. v / sqrt (rdot c c)) c)"
  using assms rdot_self(1) [of c] by (simp add: normalize_column_def Let_def column_product_Real)

lemma normalize_column_zero:
  assumes "rdot c c = 0"
  shows "normalize_column (map Real c) = replicate (length c) NaN"
proof -
  have "c ! i = 0" if "i < length c" for i using assms rdot_self(2) [of c] that nth_mem by blast
  then show ?thesis
    using assms by (auto simp: normalize_column_def Let_def column_product_Real signed_infinity_def
      intro!: nth_equalityI)
qed

lemma rdot_scale: "rdot e (map (\<lambda>v. v / r) c) = rdot e c / r" if "length c = length e"
  using that by (simp add: rdot_def sum_divide_distrib)

lemma orthonormalize_prefix: "\<exists>t. orthonormalize finished cs = finished @ t \<and> length t = length cs"
  by (induction cs arbitrary: finished) (auto, metis append.assoc length_Cons append_Cons append_Nil)

lemma orthonormalize_Real:
  assumes "orthonormal n ds" "\<forall>c \<in> set cs. length c = n" "n > 0"
    and "\<forall>c \<in> set (orthonormalize (map (map Real) ds) (map (map Real) cs)). \<not> coco_vector_contains_nan c"
  shows "\<exists>rs. orthonormalize (map (map Real) ds) (map (map Real) cs) = map (map Real) rs
    \<and> length rs = length ds + length cs \<and> orthonormal n rs"
  using assms
proof (induction cs arbitrary: ds)
  case (Cons c cs)
  obtain c' where c': "subtract_projections (map Real c) (map (map Real) ds) = map Real c'"
    "length c' = n" "\<forall>d \<in> set ds. rdot d c' = 0"
    using subtract_projections_Real [OF Cons.prems(1)] Cons.prems(2) by force
  let ?c = "normalize_column (map Real c')"
  have res: "orthonormalize (map (map Real) ds) (map (map Real) (c # cs))
      = orthonormalize (map (map Real) ds @ [?c]) (map (map Real) cs)"
    using c'(1) by simp
  have "?c \<in> set (orthonormalize (map (map Real) ds) (map (map Real) (c # cs)))"
    using orthonormalize_prefix [of "map (map Real) ds @ [?c]" "map (map Real) cs"] res by auto
  then have "\<not> coco_vector_contains_nan ?c" using Cons.prems(4) by blast
  then have nz: "rdot c' c' \<noteq> 0"
    using normalize_column_zero [of c'] c'(2) \<open>n > 0\<close>
    by (auto simp: coco_vector_contains_nan_def list_ex_iff coco_is_nan_def)
  define d where "d = map (\<lambda>v. v / sqrt (rdot c' c')) c'"
  have d: "?c = map Real d" "length d = n" using normalize_column_Real [OF nz] c'(2) by (simp_all add: d_def)
  have "d ! k * d ! k = c' ! k * c' ! k / rdot c' c'" if "k < n" for k
    using that c'(2) rdot_self(1) [of c'] by (simp add: d_def)
  then have "rdot d d = (\<Sum>k < n. (c' ! k * c' ! k) / rdot c' c')"
    using d(2) by (simp add: rdot_def [of d])
  also have "\<dots> = 1" using nz c'(2) by (simp add: sum_divide_distrib [symmetric] rdot_def)
  finally have "rdot d d = 1" .
  moreover have "\<forall>e \<in> set ds. rdot e d = 0"
    using c' Cons.prems(1) by (auto simp: d_def rdot_scale orthonormal_def)
  ultimately have "orthonormal n (ds @ [d])" using orthonormal_snoc Cons.prems(1) d(2) by blast
  from Cons.IH [OF this] Cons.prems res d(1) show ?case by auto
qed auto

text \<open>
  Bessel's inequality for the unit vector \<open>k\<close>, and its consequence for a square matrix: as many
  orthonormal columns as there are rows make the rows orthonormal.
\<close>

lemma bessel_gap:
  fixes c :: "nat \<Rightarrow> nat \<Rightarrow> real"
  assumes o: "\<And>i j. i < n \<Longrightarrow> j < n \<Longrightarrow> (\<Sum>l < n. c i l * c j l) = (if i = j then 1 else 0)"
    and k: "k < n"
  shows "(\<Sum>l < n. ((if k = l then 1 else 0) - (\<Sum>i < n. c i k * c i l))\<^sup>2) = 1 - (\<Sum>i < n. c i k * c i k)"
proof -
  define p where "p l = (\<Sum>i < n. c i k * c i l)" for l
  define u where "u l = (if k = l then 1 else 0 :: real)" for l
  have "(\<Sum>l < n. (u l - p l)\<^sup>2) = (\<Sum>l < n. u l * u l) - 2 * (\<Sum>l < n. u l * p l) + (\<Sum>l < n. p l * p l)"
    by (simp add: power2_eq_square algebra_simps sum.distrib sum_subtractf sum_distrib_left)
  moreover have "(\<Sum>l < n. u l * u l) = 1" "(\<Sum>l < n. u l * p l) = p k"
    using k by (simp_all add: u_def if_distrib [of "\<lambda>x. x * _"] cong: if_cong)
  moreover have "(\<Sum>l < n. p l * p l) = p k"
  proof -
    have "(\<Sum>l < n. p l * p l) = (\<Sum>l < n. \<Sum>i < n. \<Sum>j < n. c i k * c j k * (c i l * c j l))"
      by (simp add: p_def sum_product ac_simps)
    also have "\<dots> = (\<Sum>i < n. \<Sum>l < n. \<Sum>j < n. c i k * c j k * (c i l * c j l))"
      by (rule sum.swap)
    also have "\<dots> = (\<Sum>i < n. \<Sum>j < n. \<Sum>l < n. c i k * c j k * (c i l * c j l))"
      by (intro sum.cong [OF refl] sum.swap)
    also have "\<dots> = (\<Sum>i < n. \<Sum>j < n. c i k * c j k * (if i = j then 1 else 0))"
      by (simp add: sum_distrib_left [symmetric] o)
    also have "\<dots> = p k" by (simp add: p_def if_distrib [of "\<lambda>x. _ * x"] cong: if_cong)
    finally show ?thesis .
  qed
  ultimately show ?thesis by (simp add: u_def p_def)
qed

lemma orthonormal_rows:
  fixes c :: "nat \<Rightarrow> nat \<Rightarrow> real"
  assumes o: "\<And>i j. i < n \<Longrightarrow> j < n \<Longrightarrow> (\<Sum>l < n. c i l * c j l) = (if i = j then 1 else 0)"
    and k: "k < n" and l: "l < n"
  shows "(\<Sum>i < n. c i k * c i l) = (if k = l then 1 else 0)"
proof -
  define s where "s k = (\<Sum>i < n. c i k * c i k)" for k
  have gap: "(\<Sum>l < n. ((if k = l then 1 else 0) - (\<Sum>i < n. c i k * c i l))\<^sup>2) = 1 - s k" if "k < n" for k
    unfolding s_def using bessel_gap [of n c k] o that by blast
  have le: "0 \<le> 1 - s k" if "k < n" for k
    unfolding gap [OF that, symmetric] by (intro sum_nonneg) simp
  have "(\<Sum>k < n. s k) = (\<Sum>i < n. \<Sum>k < n. c i k * c i k)" unfolding s_def by (rule sum.swap)
  also have "\<dots> = real n" by (simp add: o)
  finally have "(\<Sum>k < n. 1 - s k) = 0" by (simp add: sum_subtractf)
  then have "\<forall>k \<in> {..<n}. 1 - s k = 0" using le by (subst (asm) sum_nonneg_eq_0_iff) auto
  then have "(\<Sum>l < n. ((if k = l then 1 else 0) - (\<Sum>i < n. c i k * c i l))\<^sup>2) = 0"
    using gap [OF k] k by simp
  then have "\<forall>l \<in> {..<n}. ((if k = l then 1 else 0) - (\<Sum>i < n. c i k * c i l))\<^sup>2 = 0"
    by (subst (asm) sum_nonneg_eq_0_iff) auto
  then show ?thesis using l by auto
qed

text \<open>The computed matrix.\<close>

definition finite_rotation :: "nat \<Rightarrow> double list list \<Rightarrow> real list list \<Rightarrow> bool" where
  "finite_rotation n rot rs \<longleftrightarrow> rot = map (map Real) rs \<and> length rs = n \<and> orthonormal n rs"

lemma finite_rotation_columns:
  assumes "finite_rotation n rot rs" "i < n" "j < n"
  shows "(\<Sum>k < n. rs ! i ! k * rs ! j ! k) = (if i = j then 1 else 0)"
  using assms by (auto simp: finite_rotation_def orthonormal_def rdot_def)

lemma finite_rotation_rows:
  assumes "finite_rotation n rot rs" "k < n" "l < n"
  shows "(\<Sum>i < n. rs ! i ! k * rs ! i ! l) = (if k = l then 1 else 0)"
  using orthonormal_rows [of n "\<lambda>i k. rs ! i ! k" k l] finite_rotation_columns [OF assms(1)] assms(2,3)
  by blast

lemma finite_rotation_entry:
  "finite_rotation n rot rs \<Longrightarrow> i < n \<Longrightarrow> j < n \<Longrightarrow> entry rot i j = Real (rs ! j ! i)"
  by (simp add: finite_rotation_def orthonormal_def entry_def)

lemma bbob2009_compute_rotation_ok:
  assumes "seed_ok seed" "n * n < 2000" "n > 0"
  shows "\<exists>rot. bbob2009_compute_rotation seed n = Inr rot \<and> length rot = n \<and>
    ((\<forall>c \<in> set rot. \<not> coco_vector_contains_nan c) \<longrightarrow> (\<exists>rs. finite_rotation n rot rs))"
proof -
  obtain g where g: "bbob2009_gauss (n * n) seed = Inr (map Real g)" "length g = n * n"
    using bbob2009_gauss_ok [OF assms(1), of "n * n"] assms(2) by auto
  define cs where "cs = map (\<lambda>j. map (\<lambda>i. g ! (j * n + i)) [0..<n]) [0..<n]"
  have ij: "j * n + i < n * n" if "i < n" "j < n" for i j
  proof -
    have "j * n + i < Suc j * n" using that by simp
    also have "\<dots> \<le> n * n" using that by (intro mult_le_mono1) simp
    finally show ?thesis .
  qed
  have "bbob2009_reshape (map Real g) n n = map (map Real) cs"
    using g(2) ij by (auto simp: bbob2009_reshape_def cs_def)
  then have rot: "bbob2009_compute_rotation seed n = Inr (orthonormalize [] (map (map Real) cs))"
    using assms(2) g(1) by (simp add: bbob2009_compute_rotation_def)
  have cs: "\<forall>c \<in> set cs. length c = n" "length cs = n" by (auto simp: cs_def)
  have "length (orthonormalize [] (map (map Real) cs)) = n"
    using orthonormalize_prefix [of "[]" "map (map Real) cs"] cs(2) by auto
  moreover have "orthonormal n []" by (simp add: orthonormal_def)
  ultimately show ?thesis
    using rot cs assms(3) orthonormalize_Real [of n "[]" cs] by (auto simp: finite_rotation_def)
qed

text \<open>The copy of a rotation passes the test \<open>coco_is_orthogonal\<close> of \<open>transform_vars_affine\<close>.\<close>

lemma nth_matrix:
  assumes "i < m" "j < n"
  shows "concat (map (\<lambda>i. map (f i) [0..<n]) [0..<m]) ! (i * n + j) = f i j"
  using assms
proof (induction m)
  case (Suc m)
  have len: "length (concat (map (\<lambda>i. map (f i) [0..<n]) [0..<m])) = m * n"
    by (simp add: length_concat comp_def sum_list_triv)
  show ?case
  proof (cases "i = m")
    case False
    then have "i * n + j < m * n"
      using Suc.prems by (metis Suc_leI add.commute less_antisym mult_Suc mult_le_mono1 nat_add_left_cancel_less order_less_le_trans)
    then show ?thesis using Suc False len by (simp add: nth_append)
  qed (use Suc.prems len in \<open>simp add: nth_append\<close>)
qed simp

lemma length_matrix: "length (concat (map (\<lambda>i. map (f i) [0..<n]) [0..<m])) = m * n"
  by (simp add: length_concat comp_def sum_list_triv)

text \<open>\<open>rs\<close> has \<open>n\<close> orthonormal columns, of length \<open>n\<close>, and orthonormal rows.\<close>

definition orthogonal_matrix :: "nat \<Rightarrow> real list list \<Rightarrow> bool" where
  "orthogonal_matrix n rs \<longleftrightarrow> length rs = n \<and> (\<forall>c \<in> set rs. length c = n)
     \<and> (\<forall>i < n. \<forall>j < n. (\<Sum>k < n. rs ! i ! k * rs ! j ! k) = (if i = j then 1 else 0))
     \<and> (\<forall>k < n. \<forall>l < n. (\<Sum>i < n. rs ! i ! k * rs ! i ! l) = (if k = l then 1 else 0))"

lemma finite_rotation_orthogonal:
  assumes "finite_rotation n rot rs"
  shows "rot = map (map Real) rs" "orthogonal_matrix n rs"
proof -
  show "rot = map (map Real) rs" using assms by (simp add: finite_rotation_def)
  have "length rs = n" "\<forall>c \<in> set rs. length c = n" using assms by (auto simp: finite_rotation_def orthonormal_def)
  then show "orthogonal_matrix n rs"
    unfolding orthogonal_matrix_def
    using finite_rotation_columns [OF assms] finite_rotation_rows [OF assms] by blast
qed

text \<open>
  C17. The rotation matrices of the legacy code are orthogonal: for at most 44 variables
  \<open>bbob2009_compute_rotation\<close> returns a matrix, which is finite with orthonormal columns and
  orthonormal rows unless one of its entries is NaN (when the random vectors are linearly dependent).
\<close>

theorem bbob2009_rotation_orthogonal:
  assumes "seed_ok seed" "0 < n" "n \<le> 44"
  shows "\<exists>rot. bbob2009_compute_rotation seed n = Inr rot \<and> length rot = n
    \<and> (list_ex coco_vector_contains_nan rot \<or> (\<exists>rs. rot = map (map Real) rs \<and> orthogonal_matrix n rs))"
proof -
  have "n * n \<le> 44 * 44" using assms(3) by (intro mult_le_mono)
  then obtain rot where rot: "bbob2009_compute_rotation seed n = Inr rot" "length rot = n"
    "(\<forall>c \<in> set rot. \<not> coco_vector_contains_nan c) \<longrightarrow> (\<exists>rs. finite_rotation n rot rs)"
    using bbob2009_compute_rotation_ok [OF assms(1), of n] assms(2) by auto
  then show ?thesis using finite_rotation_orthogonal unfolding list_ex_iff by blast
qed

lemma bbob2009_rotation_orthogonal_witness:
  "\<exists>rot. bbob2009_compute_rotation 10001 3 = Inr rot \<and> length rot = 3
    \<and> (list_ex coco_vector_contains_nan rot \<or> (\<exists>rs. rot = map (map Real) rs \<and> orthogonal_matrix 3 rs))"
  by (rule bbob2009_rotation_orthogonal) (simp_all add: seed_ok_def modulus_def)

end
