(* ===== verification/Coco_Point_Constructors.thy ===== *)
theory Coco_Point_Constructors
  imports Coco_Constructors Coco_Rotations
begin

text \<open>
  What the constructors of the transformations of decision vectors give. They keep the best value; the
  best parameter is shifted, scaled, rotated or kept. A transformation that does not update the best
  parameter is only applied to problems whose best parameter is the origin.
\<close>

abbreviation origin :: "nat \<Rightarrow> real list" where
  "origin n \<equiv> replicate n 0"

definition unshift_point :: "real list \<Rightarrow> real list \<Rightarrow> real list" where
  "unshift_point offset x = map (\<lambda>i. x ! i + offset ! i) [0..<length offset]"

lemma length_unshift [simp]: "length (unshift_point offset x) = length offset"
  by (simp add: unshift_point_def)

lemma shift_unshift: "length x = length offset \<Longrightarrow> shift_point offset (unshift_point offset x) = x"
  by (auto simp: shift_point_def unshift_point_def intro: nth_equalityI)

lemma length_shift_point [simp]: "length (shift_point offset x) = length offset"
  by (simp add: shift_point_def)

lemma transform_vars_shift_gives:
  assumes "new_problem p n L F best fo" "L + 22 \<le> 441" "length offset = n"
  shows "gives (transform_vars_shift p (map Real offset) False) n (L + 22)
    (\<lambda>x. F (shift_point offset x)) (unshift_point offset best) fo"
proof -
  obtain q where q: "coco_problem_transformed_allocate p (Vars_shift (map Real offset)) ''transform_vars_shift''
      = Inr (Transformed q (Vars_shift (map Real offset)) p)" "copy_of q p n (L + 22) best fo"
    using transformed_allocate_ok [OF assms(1), of "''transform_vars_shift''" 22 "Vars_shift (map Real offset)"]
      assms(2) by auto
  note D = new_problemD [OF assms(1)] copy_ofD [OF q(2)]
  let ?q = "q\<lparr>evaluate_function := Some Evaluate_own,
    best_parameter := Some (map Real (unshift_point offset best))\<rparr>"
  have add: "add_offset (map Real offset) (map Real best) = map Real (unshift_point offset best)"
    using D(7) assms(3) by (simp add: add_offset_def unshift_point_def)
  have "transform_vars_shift p (map Real offset) False
      = Inr (Transformed (?q\<lparr>initial_solution := None\<rparr>) (Vars_shift (map Real offset)) p)"
    using D q(1) assms(3) add
    by (simp add: transform_vars_shift_def own_function_def copy_vector_def get_best_parameter_def
        set_best_parameter_def)
  moreover have "?q\<lparr>initial_solution := None\<rparr> = ?q" using D(16) by simp
  moreover have "new_problem (Transformed ?q (Vars_shift (map Real offset)) p) n (L + 22)
      (\<lambda>x. F (shift_point offset x)) (unshift_point offset best) fo"
    using copy_of_parameter [OF copy_of_own [OF q(2)]] D(8) assms(3)
    using shift.constructed [where offset = offset and inner = p and p = ?q and inner' = p and F = F
        and K = "L + 22" and fo' = fo and best' = "unshift_point offset best"] assms(1) by simp
  ultimately show ?thesis by (simp add: gives_def)
qed

lemma transform_vars_scale_gives:
  assumes "new_problem p n L F best fo" "L + 22 \<le> 441" "a \<noteq> 0"
  shows "gives (transform_vars_scale p (Real a)) n (L + 22)
    (\<lambda>x. F (map (\<lambda>v. a * v) x)) (map (\<lambda>v. v / a) best) fo"
proof -
  obtain q where q: "coco_problem_transformed_allocate p (Vars_scale (Real a)) ''transform_vars_scale''
      = Inr (Transformed q (Vars_scale (Real a)) p)" "copy_of q p n (L + 22) best fo"
    using transformed_allocate_ok [OF assms(1), of "''transform_vars_scale''" 22 "Vars_scale (Real a)"] assms(2) by auto
  note D = new_problemD [OF assms(1)] copy_ofD [OF q(2)]
  let ?q = "q\<lparr>evaluate_function := Some Evaluate_own,
    best_parameter := Some (map Real (map (\<lambda>v. v / a) best))\<rparr>"
  have "transform_vars_scale p (Real a) = Inr (Transformed ?q (Vars_scale (Real a)) p)"
    using D q(1) assms(3)
    by (simp add: transform_vars_scale_def own_function_def copy_vector_def get_best_parameter_def
        set_best_parameter_def comp_def)
  moreover have "new_problem (Transformed ?q (Vars_scale (Real a)) p) n (L + 22)
      (\<lambda>x. F (map (\<lambda>v. a * v) x)) (map (\<lambda>v. v / a) best) fo"
    using copy_of_parameter [OF copy_of_own [OF q(2)], of "map (\<lambda>v. v / a) best"] D
    by (intro scale.constructed [OF _ assms(1)]) auto
  ultimately show ?thesis by (simp add: gives_def)
qed

lemma transform_vars_permutation_gives:
  assumes "new_problem p n L F best fo" "L + 28 \<le> 441" "length P = n" "\<forall>i < n. P ! i < n"
  shows "gives (transform_vars_permutation p P n) n (L + 28)
    (\<lambda>x. F (map (\<lambda>i. x ! (P ! i)) [0..<n])) best fo"
proof -
  obtain q where q: "coco_problem_transformed_allocate p (Vars_permutation P) ''transform_vars_permutation''
      = Inr (Transformed q (Vars_permutation P) p)" "copy_of q p n (L + 28) best fo"
    using transformed_allocate_ok [OF assms(1), of "''transform_vars_permutation''" 28 "Vars_permutation P"]
      assms(2) by auto
  note D = new_problemD [OF assms(1)] copy_ofD [OF q(2)]
  let ?q = "q\<lparr>evaluate_function := Some Evaluate_own\<rparr>"
  have "transform_vars_permutation p P n = Inr (Transformed ?q (Vars_permutation P) p)"
    using D q(1) assms(3) by (simp add: transform_vars_permutation_def own_function_def)
  moreover have "new_problem (Transformed ?q (Vars_permutation P) p) n (L + 28)
      (\<lambda>x. F (map (\<lambda>i. x ! (P ! i)) [0..<n])) best fo"
    using copy_of_own [OF q(2)] D(8) assms(3,4)
    by (intro permutation.constructed [OF _ assms(1)]) auto
  ultimately show ?thesis by (simp add: gives_def)
qed

lemma transform_vars_oscillate_gives:
  assumes "new_problem p n L F best fo" "L + 26 \<le> 441"
  shows "gives (transform_vars_oscillate p) n (L + 26) (\<lambda>x. F (map oscillation x)) best fo"
proof -
  obtain q where q: "coco_problem_transformed_allocate p Vars_oscillate ''transform_vars_oscillate''
      = Inr (Transformed q Vars_oscillate p)" "copy_of q p n (L + 26) best fo"
    using transformed_allocate_ok [OF assms(1), of "''transform_vars_oscillate''" 26 Vars_oscillate] assms(2) by auto
  note D = new_problemD [OF assms(1)] copy_ofD [OF q(2)]
  let ?q = "q\<lparr>evaluate_function := Some Evaluate_own\<rparr>"
  have "transform_vars_oscillate p = Inr (Transformed ?q Vars_oscillate p)"
    using D q(1) by (simp add: transform_vars_oscillate_def own_function_def)
  moreover have "new_problem (Transformed ?q Vars_oscillate p) n (L + 26) (\<lambda>x. F (map oscillation x)) best fo"
    using copy_of_own [OF q(2)] D(8) by (intro oscillate.constructed [OF _ assms(1)]) auto
  ultimately show ?thesis by (simp add: gives_def)
qed

section \<open>Best parameter at the origin\<close>

lemma best_parameter_origin:
  assumes "new_problem p n L F (origin n) fo"
  shows "coco_problem_best_parameter_not_zero (fields p) = Inr False"
  using new_problemD [OF assms]
  by (simp add: coco_problem_best_parameter_not_zero_def coco_vector_contains_nan_def list_ex_iff list_all_iff)

lemma forget_origin:
  assumes "new_problem p n L F (origin n) fo"
  shows "forget_inner_best_parameter (Transformed q t p) = Inr (Transformed q t p)"
  using best_parameter_origin [OF assms] by (simp add: forget_inner_best_parameter_def)

lemma transform_vars_conditioning_gives:
  assumes "new_problem p n L F (origin n) fo" "L + 29 \<le> 441" "2 \<le> n" "0 < a"
  shows "gives (transform_vars_conditioning p (Real a)) n (L + 29) (\<lambda>x. F (condition_point a n x)) (origin n) fo"
proof -
  obtain q where q: "coco_problem_transformed_allocate p (Vars_conditioning (Real a)) ''transform_vars_conditioning''
      = Inr (Transformed q (Vars_conditioning (Real a)) p)" "copy_of q p n (L + 29) (origin n) fo"
    using transformed_allocate_ok [OF assms(1), of "''transform_vars_conditioning''" 29 "Vars_conditioning (Real a)"]
      assms(2) by auto
  let ?q = "q\<lparr>evaluate_function := Some Evaluate_own\<rparr>"
  have "transform_vars_conditioning p (Real a) = Inr (Transformed ?q (Vars_conditioning (Real a)) p)"
    using q(1) forget_origin [OF assms(1)] by (simp add: transform_vars_conditioning_def own_function_def)
  moreover have "new_problem (Transformed ?q (Vars_conditioning (Real a)) p) n (L + 29)
      (\<lambda>x. F (condition_point a n x)) (origin n) fo"
    using copy_of_own [OF q(2)] new_problemD(8) [OF assms(1)] assms(3,4)
    by (intro conditioning.constructed [OF _ assms(1)]) (auto simp: condition_point_def)
  ultimately show ?thesis by (simp add: gives_def)
qed

lemma transform_vars_brs_gives:
  assumes "new_problem p n L F (origin n) fo" "L + 20 \<le> 441" "2 \<le> n"
  shows "gives (transform_vars_brs p) n (L + 20) (\<lambda>x. F (brs_point n x)) (origin n) fo"
proof -
  obtain q where q: "coco_problem_transformed_allocate p Vars_brs ''transform_vars_brs''
      = Inr (Transformed q Vars_brs p)" "copy_of q p n (L + 20) (origin n) fo"
    using transformed_allocate_ok [OF assms(1), of "''transform_vars_brs''" 20 Vars_brs] assms(2) by auto
  let ?q = "q\<lparr>evaluate_function := Some Evaluate_own\<rparr>"
  have "transform_vars_brs p = Inr (Transformed ?q Vars_brs p)"
    using q(1) forget_origin [OF assms(1)] by (simp add: transform_vars_brs_def own_function_def)
  moreover have "new_problem (Transformed ?q Vars_brs p) n (L + 20) (\<lambda>x. F (brs_point n x)) (origin n) fo"
    using copy_of_own [OF q(2)] new_problemD(8) [OF assms(1)] assms(3)
    by (intro brs.constructed [OF _ assms(1)]) (auto simp: brs_point_def)
  ultimately show ?thesis by (simp add: gives_def)
qed

lemma transform_vars_asymmetric_gives:
  assumes "new_problem p n L F (origin n) fo" "L + 27 \<le> 441" "2 \<le> n"
  shows "gives (transform_vars_asymmetric p (Real beta)) n (L + 27) (\<lambda>x. F (asymmetric_point beta n x)) (origin n) fo"
proof -
  obtain q where q: "coco_problem_transformed_allocate p (Vars_asymmetric (Real beta)) ''transform_vars_asymmetric''
      = Inr (Transformed q (Vars_asymmetric (Real beta)) p)" "copy_of q p n (L + 27) (origin n) fo"
    using transformed_allocate_ok [OF assms(1), of "''transform_vars_asymmetric''" 27 "Vars_asymmetric (Real beta)"]
      assms(2) by auto
  let ?q = "q\<lparr>evaluate_function := Some Evaluate_own\<rparr>"
  note D = new_problemD [OF assms(1)]
  have "transform_vars_asymmetric p (Real beta) = Inr (Transformed ?q (Vars_asymmetric (Real beta)) p)"
    using q(1) D forget_origin [OF assms(1)] by (simp add: transform_vars_asymmetric_def own_function_def Let_def)
  moreover have "new_problem (Transformed ?q (Vars_asymmetric (Real beta)) p) n (L + 27)
      (\<lambda>x. F (asymmetric_point beta n x)) (origin n) fo"
    using copy_of_own [OF q(2)] D(8) assms(3)
    by (intro asymmetric.constructed [OF _ assms(1)]) (auto simp: asymmetric_point_def)
  ultimately show ?thesis by (simp add: gives_def)
qed

section \<open>Affine transformations\<close>

text \<open>
  The best parameter afterwards is unchanged if it is the origin and \<open>b\<close> is zero; otherwise it is the
  product with the transposed matrix, if the matrix passes the test of orthogonality.
\<close>

lemma transform_vars_affine_gives:
  assumes "new_problem p n L F best fo" "L + 23 \<le> 441" "length M = n * n" "length b = n"
  shows "\<exists>best'. gives (transform_vars_affine p (map Real M) (map Real b) n) n (L + 23)
      (\<lambda>x. F (affine_point M b n x)) best' fo
    \<and> (best = origin n \<and> b = origin n \<longrightarrow> best' = origin n)"
proof -
  let ?t = "Vars_affine (map Real M) (map Real b)"
  obtain q where q: "coco_problem_transformed_allocate p ?t ''transform_vars_affine''
      = Inr (Transformed q ?t p)" "copy_of q p n (L + 23) best fo"
    using transformed_allocate_ok [OF assms(1), of "''transform_vars_affine''" 23 ?t] assms(2) by auto
  note D = new_problemD [OF assms(1)] copy_ofD [OF q(2)]
  let ?q = "q\<lparr>evaluate_function := Some Evaluate_own\<rparr>"
  have "\<exists>nz. coco_problem_best_parameter_not_zero (fields p) = Inr nz"
    using D by (simp add: coco_problem_best_parameter_not_zero_def Let_def)
  then obtain nz where nz: "coco_problem_best_parameter_not_zero (fields p) = Inr nz" by blast
  define moved where "moved \<longleftrightarrow> (nz \<or> \<not> vector_is_zero (map Real b)) \<and> coco_is_orthogonal (map Real M) n n"
  define best' where "best' = (if moved
    then map (\<lambda>i. \<Sum>j = 0..<n. M ! (j * n + i) * (best ! j - b ! j)) [0..<n] else best)"
  have ij: "j * n + i < n * n" if "i < n" "j < n" for i j
  proof -
    have "j * n + i < Suc j * n" using that by simp
    also have "\<dots> \<le> n * n" using that by (intro mult_le_mono1) simp
    finally show ?thesis .
  qed
  have row: "accumulate (Real 0) [0..<n] (\<lambda>j. map Real M ! (j * n + i) * (map Real best ! j - map Real b ! j))
      = Real (0 + (\<Sum>j = 0..<n. M ! (j * n + i) * (best ! j - b ! j)))" if "i < n" for i
    by (rule accumulate_upt) (use that ij D(7) assms(3,4) in simp)
  have moved_best: "affine_best_parameter (map Real M) (map Real b) n n (map Real best)
      = map Real (map (\<lambda>i. \<Sum>j = 0..<n. M ! (j * n + i) * (best ! j - b ! j)) [0..<n])"
    unfolding affine_best_parameter_def using row by simp
  have same: "?q\<lparr>best_parameter := Some (map Real best)\<rparr> = ?q" using D(14) by simp
  have n: "number_of_variables (fields p) = n" "number_of_variables q = n"
    "number_of_objectives (fields p) = 1" "number_of_constraints (fields p) = 0"
    using D by auto
  have "transform_vars_affine p (map Real M) (map Real b) n
      = (if moved then Inr (set_best_parameter (affine_best_parameter (map Real M) (map Real b) n n (map Real best))
           (Transformed ?q ?t p)) else Inr (Transformed ?q ?t p))"
    using D(6,7) q(1) assms(3,4)
    by (simp add: transform_vars_affine_def n nz own_function_def copy_vector_def get_best_parameter_def moved_def Let_def)
  then have "transform_vars_affine p (map Real M) (map Real b) n
      = Inr (Transformed (?q\<lparr>best_parameter := Some (map Real best')\<rparr>) ?t p)"
    using moved_best same by (auto simp: best'_def set_best_parameter_def)
  moreover have "\<not> moved" if "best = origin n" "b = origin n"
  proof -
    have "\<not> nz" using nz best_parameter_origin [of p n L F fo] assms(1) that(1) by simp
    moreover have "vector_is_zero (map Real b)"
      using that(2) by (simp add: vector_is_zero_def coco_vector_contains_nan_def list_ex_iff list_all_iff
          chosen_precision_def)
    ultimately show ?thesis by (simp add: moved_def)
  qed
  moreover have "length best' = n" using D(7) by (simp add: best'_def)
  then have "new_problem (Transformed (?q\<lparr>best_parameter := Some (map Real best')\<rparr>) ?t p) n (L + 23)
      (\<lambda>x. F (affine_point M b n x)) best' fo"
    using copy_of_parameter [OF copy_of_own [OF q(2)]] D(8) assms(3,4)
    by (intro affine.constructed [OF _ assms(1)]) (auto simp: affine_point_def)
  ultimately show ?thesis by (intro exI [of _ best']) (auto simp: gives_def best'_def)
qed

lemma transform_vars_affine_origin_gives:
  assumes "new_problem p n L F (origin n) fo" "L + 23 \<le> 441" "length M = n * n"
  shows "gives (transform_vars_affine p (map Real M) (map Real (origin n)) n) n (L + 23)
      (\<lambda>x. F (affine_point M (origin n) n x)) (origin n) fo"
  using transform_vars_affine_gives [OF assms(1-3), of "origin n"] by auto

lemma affine_origin: "length x = n \<Longrightarrow> x = origin n \<Longrightarrow> affine_point M (origin n) n x = origin n"
  by (auto simp: affine_point_def intro: nth_equalityI)

lemma oscillation_origin: "map oscillation (origin n) = origin n"
  by simp

lemma point_origin [simp]:
  "condition_point a n (origin n) = origin n"
  "asymmetric_point beta n (origin n) = origin n"
  "brs_point n (origin n) = origin n"
  "affine_point M (origin n) n (origin n) = origin n"
  by (auto simp: condition_point_def asymmetric_point_def brs_point_def affine_point_def intro: nth_equalityI)

end
