(* ===== verification/Coco_Special_Values.thy ===== *)
theory Coco_Special_Values
  imports Coco_Raw_Values Coco_Bbob_Special Coco_Point_Constructors
begin

text \<open>
  The values of the Weierstrass and Katsuura functions and of the functions with data of their own, on
  finite points and finite data, with their minima.
\<close>

section \<open>Weierstrass\<close>

definition weierstrass_sum :: "real list \<Rightarrow> nat \<Rightarrow> real" where
  "weierstrass_sum x i = (\<Sum>j = 0..<F_WEIERSTRASS_SUMMANDS. cos (2 * pi * (x ! i + 1 / 2) * 3 ^ j) * (1 / 2) ^ j)"

definition weierstrass_value :: "real list \<Rightarrow> real" where
  "weierstrass_value x = 10 * ((\<Sum>i = 0..<length x. weierstrass_sum x i) / real (length x)
     + (\<Sum>j = 0..<F_WEIERSTRASS_SUMMANDS. (1 / 2) ^ j)) powr 3"

lemma cos_odd_pi: "cos (2 * pi * 3 ^ j * (1 / 2)) = - 1"
proof -
  have "2 * pi * 3 ^ j * (1 / 2) = real (3 ^ j) * pi" by simp
  then have "cos (2 * pi * 3 ^ j * (1 / 2)) = (- 1) ^ (3 ^ j)" by (simp only: cos_npi)
  then show ?thesis by simp
qed

lemma weierstrass_data_Real:
  "weierstrass_data = (Real (- (\<Sum>j = 0..<F_WEIERSTRASS_SUMMANDS. (1 / 2) ^ j)),
     map Real (map (\<lambda>j. (1 / 2) ^ j) [0..<F_WEIERSTRASS_SUMMANDS]),
     map Real (map (\<lambda>j. 3 ^ j) [0..<F_WEIERSTRASS_SUMMANDS]))"
proof -
  have ak: "map (\<lambda>i. dpow (Real (1 / 2)) (Real (real i))) [0..<F_WEIERSTRASS_SUMMANDS]
      = map Real (map (\<lambda>j. (1 / 2) ^ j) [0..<F_WEIERSTRASS_SUMMANDS])"
    by (simp add: powr_realpow)
  have bk: "map (\<lambda>i. dpow (Real 3) (Real (real i))) [0..<F_WEIERSTRASS_SUMMANDS]
      = map Real (map (\<lambda>j. 3 ^ j) [0..<F_WEIERSTRASS_SUMMANDS])"
    by (simp add: powr_realpow)
  have "accumulate (Real 0) [0..<F_WEIERSTRASS_SUMMANDS] (\<lambda>i.
      map Real (map (\<lambda>j. (1 / 2) ^ j) [0..<F_WEIERSTRASS_SUMMANDS]) ! i
        * dcos (Real (2 * pi) * map Real (map (\<lambda>j. 3 ^ j) [0..<F_WEIERSTRASS_SUMMANDS]) ! i * Real (1 / 2)))
    = Real (0 + (\<Sum>j = 0..<F_WEIERSTRASS_SUMMANDS. - ((1 / 2) ^ j)))"
    by (rule accumulate_upt) (simp add: cos_odd_pi [simplified])
  then show ?thesis by (simp only: weierstrass_data_def ak bk Let_def) (simp add: sum_negf)
qed

lemma foldl_accumulate:
  assumes "\<And>r i. i \<in> set is \<Longrightarrow> f (Real r) i = Real (r + t i)"
  shows "foldl f (Real r) is = Real (r + (\<Sum>i \<leftarrow> is. t i))"
  using assms by (induction "is" arbitrary: r) (simp_all add: add.assoc)

lemma weierstrass_inner:
  "i < length x \<Longrightarrow> accumulate (Real r) [0..<F_WEIERSTRASS_SUMMANDS] (\<lambda>j.
     dcos (Real (2 * pi) * (map Real x ! i + Real (1 / 2))
       * map Real (map (\<lambda>j. 3 ^ j) [0..<F_WEIERSTRASS_SUMMANDS]) ! j)
     * map Real (map (\<lambda>j. (1 / 2) ^ j) [0..<F_WEIERSTRASS_SUMMANDS]) ! j)
   = Real (r + weierstrass_sum x i)"
  unfolding weierstrass_sum_def by (rule accumulate_upt) simp

lemma weierstrass_sum_ge:
  "- (\<Sum>j = 0..<F_WEIERSTRASS_SUMMANDS. (1 / 2) ^ j) \<le> weierstrass_sum x i"
proof -
  have "- 1 * (1 / 2) ^ j \<le> cos (2 * pi * (x ! i + 1 / 2) * 3 ^ j) * (1 / 2) ^ j" for j
    by (rule mult_right_mono) auto
  then have "(\<Sum>j = 0..<F_WEIERSTRASS_SUMMANDS. - 1 * (1 / 2) ^ j) \<le> weierstrass_sum x i"
    unfolding weierstrass_sum_def by (intro sum_mono)
  then show ?thesis by (simp add: sum_negf)
qed

lemma weierstrass_base_nonneg:
  assumes "0 < length x"
  shows "0 \<le> (\<Sum>i = 0..<length x. weierstrass_sum x i) / real (length x)
    + (\<Sum>j = 0..<F_WEIERSTRASS_SUMMANDS. (1 / 2) ^ j)"
proof -
  have "(\<Sum>i = 0..<length x. - (\<Sum>j = 0..<F_WEIERSTRASS_SUMMANDS. (1 / 2) ^ j)) \<le> (\<Sum>i = 0..<length x. weierstrass_sum x i)"
    by (intro sum_mono weierstrass_sum_ge)
  then have "- real (length x) * (\<Sum>j = 0..<F_WEIERSTRASS_SUMMANDS. (1 / 2) ^ j) \<le> (\<Sum>i = 0..<length x. weierstrass_sum x i)"
    by simp
  then show ?thesis using assms by (simp add: field_simps)
qed

lemma weierstrass_raw:
  assumes "0 < length x"
  shows "f_weierstrass_raw (map Real x) (length x) weierstrass_data = Real (weierstrass_value x)"
proof -
  have "foldl (\<lambda>result i. accumulate result [0..<F_WEIERSTRASS_SUMMANDS] (\<lambda>j.
      dcos (Real (2 * pi) * (map Real x ! i + Real (1 / 2))
        * map Real (map (\<lambda>j. 3 ^ j) [0..<F_WEIERSTRASS_SUMMANDS]) ! j)
      * map Real (map (\<lambda>j. (1 / 2) ^ j) [0..<F_WEIERSTRASS_SUMMANDS]) ! j)) (Real 0) [0..<length x]
    = Real (0 + (\<Sum>i \<leftarrow> [0..<length x]. weierstrass_sum x i))"
    by (rule foldl_accumulate) (use weierstrass_inner in auto)
  then show ?thesis using assms weierstrass_base_nonneg [OF assms]
    by (simp only: f_weierstrass_raw_def weierstrass_data_Real case_prod_conv length_map take_all_Real Let_def if_False)
      (simp add: weierstrass_value_def interv_sum_list_conv_sum_set_nat real_pow_nonneg)
qed

lemma weierstrass_nonneg: "0 \<le> weierstrass_value x"
  by (simp add: weierstrass_value_def)

lemma weierstrass_minimum: "0 < n \<Longrightarrow> weierstrass_value (origin n) = 0"
proof -
  assume n: "0 < n"
  have "weierstrass_sum (origin n) i = - (\<Sum>j = 0..<F_WEIERSTRASS_SUMMANDS. (1 / 2) ^ j)" if "i < n" for i
  proof -
    have "cos (2 * pi * (origin n ! i + 1 / 2) * 3 ^ j) = - 1" for j
      using cos_odd_pi [of j] that by (simp add: ac_simps)
    then show ?thesis by (simp add: weierstrass_sum_def sum_negf)
  qed
  then show ?thesis using n by (simp add: weierstrass_value_def)
qed

section \<open>Katsuura\<close>

definition katsuura_sum :: "real list \<Rightarrow> nat \<Rightarrow> real" where
  "katsuura_sum x i = (\<Sum>j = 1..<33. \<bar>2 ^ j * x ! i - coco_double_round (2 ^ j * x ! i)\<bar> / 2 ^ j)"

definition katsuura_term :: "real list \<Rightarrow> nat \<Rightarrow> real" where
  "katsuura_term x i = (1 + (real i + 1) * katsuura_sum x i) powr (10 / real (length x) powr (12 / 10))"

definition katsuura_value :: "real list \<Rightarrow> real" where
  "katsuura_value x = 10 / real (length x) / real (length x) * (- 1 + (\<Prod>i = 0..<length x. katsuura_term x i))"

lemma katsuura_sum_nonneg: "0 \<le> katsuura_sum x i"
  by (auto simp: katsuura_sum_def intro!: sum_nonneg)

lemma katsuura_factor_Real:
  assumes "i < length x"
  shows "katsuura_factor (map Real x) (length x) i = Real (katsuura_term x i)"
proof -
  have "accumulate (Real 0) [1..<33] (\<lambda>j.
      let tmp2 = dpow (Real 2) (Real (real j))
      in ddiv \<bar>tmp2 * map Real x ! i - dround (tmp2 * map Real x ! i)\<bar> tmp2) = Real (0 + katsuura_sum x i)"
    unfolding katsuura_sum_def by (rule accumulate_upt) (use assms in \<open>simp add: powr_realpow\<close>)
  moreover have "0 < 1 + (real i + 1) * katsuura_sum x i"
    using katsuura_sum_nonneg [of x i] by (simp add: add_pos_nonneg)
  moreover have "x \<noteq> []" using assms by auto
  ultimately show ?thesis unfolding katsuura_factor_def Let_def
    by (simp add: katsuura_term_def)
qed

lemma foldl_product:
  assumes "\<And>i. i \<in> set is \<Longrightarrow> f i = Real (t i)"
  shows "foldl (\<lambda>r i. r * f i) (Real r) is = Real (r * (\<Prod>i \<leftarrow> is. t i))"
  using assms by (induction "is" arbitrary: r) (simp_all add: mult.assoc)

lemma katsuura_raw:
  assumes "0 < length x"
  shows "f_katsuura_raw (map Real x) (length x) = Real (katsuura_value x)"
proof -
  have "foldl (\<lambda>r i. r * katsuura_factor (map Real x) (length x) i) (Real 1) [0..<length x]
      = Real (1 * (\<Prod>i \<leftarrow> [0..<length x]. katsuura_term x i))"
    by (rule foldl_product) (simp add: katsuura_factor_Real)
  then show ?thesis using assms prod.distinct_set_conv_list [of "[0..<length x]" "katsuura_term x"]
    by (simp add: f_katsuura_raw_def katsuura_value_def)
qed

lemma katsuura_nonneg: "0 \<le> katsuura_value x"
proof -
  have "1 \<le> katsuura_term x i" for i
    unfolding katsuura_term_def using katsuura_sum_nonneg [of x i] by (intro ge_one_powr_ge_zero) auto
  then have "1 \<le> (\<Prod>i = 0..<length x. katsuura_term x i)" by (intro prod_ge_1)
  then show ?thesis by (simp add: katsuura_value_def)
qed

lemma katsuura_minimum: "katsuura_value (origin n) = 0"
proof -
  have "katsuura_term (origin n) i = 1" if "i < n" for i
    using that by (simp add: katsuura_term_def katsuura_sum_def coco_double_round_def)
  then show ?thesis by (simp add: katsuura_value_def)
qed

end
