(* ===== verification/Coco_Data_Values.thy ===== *)
theory Coco_Data_Values
  imports Coco_Special_Values
begin

text \<open>
  The values of the functions with data of their own (Gallagher, step ellipsoid, Lunacek) on finite
  points and finite data, with their minima.
\<close>

section \<open>Shared parts\<close>

definition boundary_value :: "real list \<Rightarrow> real" where
  "boundary_value x = (\<Sum>i = 0..<length x. if 0 < \<bar>x ! i\<bar> - 5 then (\<bar>x ! i\<bar> - 5) * (\<bar>x ! i\<bar> - 5) else 0)"

lemma boundary_penalty_Real: "boundary_penalty (length x) (map Real x) = Real (boundary_value x)"
proof -
  have "boundary_penalty (length x) (map Real x) = Real (0 + boundary_value x)"
    unfolding boundary_penalty_def boundary_value_def by (rule accumulate_upt) (simp add: Let_def)
  then show ?thesis by simp
qed

lemma boundary_value_nonneg: "0 \<le> boundary_value x"
  by (auto simp: boundary_value_def intro!: sum_nonneg)

lemma boundary_value_inside:
  assumes "\<forall>v \<in> set x. \<bar>v\<bar> \<le> 5"
  shows "boundary_value x = 0"
proof -
  have "\<not> 0 < \<bar>x ! i\<bar> - 5" if "i < length x" for i using assms nth_mem [OF that] by force
  then show ?thesis by (simp add: boundary_value_def)
qed

definition real_entries :: "double list list \<Rightarrow> nat \<Rightarrow> (nat \<Rightarrow> nat \<Rightarrow> real) \<Rightarrow> bool" where
  "real_entries rot n R \<longleftrightarrow> (\<forall>i < n. \<forall>j < n. entry rot i j = Real (R i j))"

lemma finite_rotation_entries: "finite_rotation n rot rs \<Longrightarrow> real_entries rot n (\<lambda>i j. rs ! j ! i)"
  by (simp add: real_entries_def finite_rotation_entry)

lemma matrix_product_Real:
  assumes "real_entries rot n R" "i < n" "length w = n"
  shows "matrix_product rot n i (map Real w) = Real (\<Sum>j = 0..<n. R i j * w ! j)"
proof -
  have "matrix_product rot n i (map Real w) = Real (0 + (\<Sum>j = 0..<n. R i j * w ! j))"
    unfolding matrix_product_def
    by (rule accumulate_upt) (use assms in \<open>simp add: real_entries_def\<close>)
  then show ?thesis by simp
qed

lemma matrix_products_Real:
  assumes "real_entries rot n R" "length w = n"
  shows "map (\<lambda>i. matrix_product rot n i (map Real w)) [0..<n]
    = map Real (map (\<lambda>i. \<Sum>j = 0..<n. R i j * w ! j) [0..<n])"
  using matrix_product_Real [OF assms(1) _ assms(2)] by simp

section \<open>Gallagher\<close>

definition gallagher_data_ok ::
    "f_gallagher_data \<Rightarrow> nat \<Rightarrow> (nat \<Rightarrow> nat \<Rightarrow> real) \<Rightarrow> (nat \<Rightarrow> nat \<Rightarrow> real) \<Rightarrow> (nat \<Rightarrow> nat \<Rightarrow> real) \<Rightarrow> (nat \<Rightarrow> real) \<Rightarrow> bool" where
  "gallagher_data_ok data n R X A W \<longleftrightarrow> 0 < n \<and> real_entries (rotation data) n R
     \<and> (\<forall>i < number_of_peaks data. peak_values data ! i = Real (W i) \<and> 0 \<le> W i \<and> W i \<le> 10
          \<and> (\<forall>j < n. x_local data ! j ! i = Real (X j i) \<and> arr_scales data ! i ! j = Real (A i j) \<and> 0 \<le> A i j))"

definition gallagher_peak_value ::
    "nat \<Rightarrow> (nat \<Rightarrow> nat \<Rightarrow> real) \<Rightarrow> (nat \<Rightarrow> nat \<Rightarrow> real) \<Rightarrow> (nat \<Rightarrow> real) \<Rightarrow> real list \<Rightarrow> nat \<Rightarrow> real" where
  "gallagher_peak_value n X A W w i =
     W i * exp (- 1 / 2 / real n * (\<Sum>j = 0..<n. A i j * (w ! j - X j i) * (w ! j - X j i)))"

definition gallagher_height ::
    "nat \<Rightarrow> (nat \<Rightarrow> nat \<Rightarrow> real) \<Rightarrow> (nat \<Rightarrow> nat \<Rightarrow> real) \<Rightarrow> (nat \<Rightarrow> nat \<Rightarrow> real) \<Rightarrow> (nat \<Rightarrow> real) \<Rightarrow> nat \<Rightarrow> real list \<Rightarrow> real" where
  "gallagher_height n R X A W m x = foldl (\<lambda>f i. max f
     (gallagher_peak_value n X A W (map (\<lambda>i. \<Sum>j = 0..<n. R i j * x ! j) [0..<n]) i)) 0 [0..<m]"

definition gallagher_value ::
    "nat \<Rightarrow> (nat \<Rightarrow> nat \<Rightarrow> real) \<Rightarrow> (nat \<Rightarrow> nat \<Rightarrow> real) \<Rightarrow> (nat \<Rightarrow> nat \<Rightarrow> real) \<Rightarrow> (nat \<Rightarrow> real) \<Rightarrow> nat \<Rightarrow> real list \<Rightarrow> real" where
  "gallagher_value n R X A W m x =
     oscillation (10 - gallagher_height n R X A W m x) * oscillation (10 - gallagher_height n R X A W m x)
     + boundary_value x"

lemma gallagher_oscillate_Real: "gallagher_oscillate (Real v) = Real (oscillation v)"
  by (simp add: gallagher_oscillate_def oscillation_def Let_def)

lemma gallagher_peak_Real:
  assumes "gallagher_data_ok data n R X A W" "i < number_of_peaks data" "length w = n"
  shows "gallagher_peak n data (map Real w) i = Real (gallagher_peak_value n X A W w i)"
proof -
  have "accumulate (Real 0) [0..<n] (\<lambda>j.
      let tmp = map Real w ! j - x_local data ! j ! i in arr_scales data ! i ! j * tmp * tmp)
    = Real (0 + (\<Sum>j = 0..<n. A i j * (w ! j - X j i) * (w ! j - X j i)))"
    by (rule accumulate_upt) (use assms in \<open>simp add: gallagher_data_ok_def Let_def\<close>)
  then show ?thesis using assms unfolding gallagher_peak_def Let_def
    by (simp add: gallagher_peak_value_def gallagher_data_ok_def)
qed

lemma foldl_max_Real:
  assumes "\<And>i. i \<in> set is \<Longrightarrow> f i = Real (t i)"
  shows "foldl (\<lambda>r i. dmax r (f i)) (Real r) is = Real (foldl (\<lambda>r i. max r (t i)) r is)"
  using assms by (induction "is" arbitrary: r) simp_all

lemma foldl_max_ge: "(r :: real) \<le> foldl (\<lambda>r i. max r (t i)) r is"
  by (induction "is" arbitrary: r) (auto intro: order_trans [OF max.cobounded1])

lemma foldl_max_elem:
  fixes r :: real
  shows "i \<in> set is \<Longrightarrow> t i \<le> foldl (\<lambda>r i. max r (t i)) r is"
proof (induction "is" arbitrary: r)
  case (Cons j "is")
  then show ?case using foldl_max_ge [of "max r (t j)" t "is"] by auto
qed simp

lemma foldl_max_le:
  fixes r :: real
  shows "r \<le> c \<Longrightarrow> \<forall>i \<in> set is. t i \<le> c \<Longrightarrow> foldl (\<lambda>r i. max r (t i)) r is \<le> c"
  by (induction "is" arbitrary: r) auto

lemma gallagher_raw:
  assumes "gallagher_data_ok data (length x) R X A W"
  shows "f_gallagher_raw (map Real x) (length x) data
    = Real (gallagher_value (length x) R X A W (number_of_peaks data) x)"
proof -
  let ?w = "map (\<lambda>i. \<Sum>j = 0..<length x. R i j * x ! j) [0..<length x]"
  have tmx: "map (\<lambda>i. matrix_product (rotation data) (length x) i (map Real x)) [0..<length x] = map Real ?w"
    using assms by (intro matrix_products_Real) (auto simp: gallagher_data_ok_def)
  have "foldl (\<lambda>f i. dmax f (gallagher_peak (length x) data (map Real ?w) i)) (Real 0) [0..<number_of_peaks data]
      = Real (gallagher_height (length x) R X A W (number_of_peaks data) x)"
    unfolding gallagher_height_def
    by (rule foldl_max_Real) (use gallagher_peak_Real [OF assms, of _ ?w] in auto)
  then show ?thesis
    by (simp only: f_gallagher_raw_def length_map take_all_Real tmx Let_def if_False boundary_penalty_Real)
      (simp add: gallagher_oscillate_Real gallagher_value_def)
qed

lemma gallagher_nonneg: "0 \<le> gallagher_value n R X A W m x"
  by (simp add: gallagher_value_def boundary_value_nonneg add_nonneg_nonneg)

lemma gallagher_minimum:
  assumes "gallagher_data_ok data (length x) R X A W" "0 < number_of_peaks data" "W 0 = 10"
    and "\<And>j. j < length x \<Longrightarrow> X j 0 = (\<Sum>k = 0..<length x. R j k * x ! k)" "\<forall>v \<in> set x. \<bar>v\<bar> \<le> 5"
  shows "gallagher_value (length x) R X A W (number_of_peaks data) x = 0"
proof -
  let ?w = "map (\<lambda>i. \<Sum>j = 0..<length x. R i j * x ! j) [0..<length x]"
  let ?t = "gallagher_peak_value (length x) X A W ?w" and ?n = "real (length x)"
  have n: "0 < length x" using assms(1) by (simp add: gallagher_data_ok_def)
  have le: "?t i \<le> 10" if "i < number_of_peaks data" for i
  proof -
    have W: "0 \<le> W i" "W i \<le> 10" and A: "\<And>j. j < length x \<Longrightarrow> 0 \<le> A i j"
      using assms(1) that by (auto simp: gallagher_data_ok_def)
    have "0 \<le> (\<Sum>j = 0..<length x. A i j * (?w ! j - X j i) * (?w ! j - X j i))"
      using A by (intro sum_nonneg) (simp add: mult.assoc)
    then have "- 1 / 2 / ?n * (\<Sum>j = 0..<length x. A i j * (?w ! j - X j i) * (?w ! j - X j i)) \<le> 0"
      using n by (intro mult_nonpos_nonneg) auto
    then have "exp (- 1 / 2 / ?n * (\<Sum>j = 0..<length x. A i j * (?w ! j - X j i) * (?w ! j - X j i))) \<le> 1"
      by simp
    then have "?t i \<le> W i * 1" unfolding gallagher_peak_value_def using W(1) by (intro mult_left_mono)
    then show ?thesis using W(2) by simp
  qed
  have "(\<Sum>j = 0..<length x. A 0 j * (?w ! j - X j 0) * (?w ! j - X j 0)) = 0"
    using assms(4) by (intro sum.neutral) auto
  then have "?t 0 = 10" using assms(3) unfolding gallagher_peak_value_def by simp
  moreover have "?t 0 \<le> gallagher_height (length x) R X A W (number_of_peaks data) x"
    unfolding gallagher_height_def by (rule foldl_max_elem) (use assms(2) in simp)
  moreover have "gallagher_height (length x) R X A W (number_of_peaks data) x \<le> 10"
    unfolding gallagher_height_def by (rule foldl_max_le) (use le in auto)
  ultimately have "gallagher_height (length x) R X A W (number_of_peaks data) x = 10" by simp
  then show ?thesis using boundary_value_inside [OF assms(5)] by (simp add: gallagher_value_def)
qed

section \<open>Step ellipsoid\<close>

definition step_value :: "real \<Rightarrow> real" where
  "step_value v = (if 1 / 2 < \<bar>v\<bar> then coco_double_round v else coco_double_round (10 * v) / 10)"

definition step_point :: "nat \<Rightarrow> (nat \<Rightarrow> nat \<Rightarrow> real) \<Rightarrow> real list \<Rightarrow> real list \<Rightarrow> real list" where
  "step_point n R2 xopt x = map (\<lambda>i.
     \<Sum>j = 0..<n. sqrt (10 powr (real i / real (n - 1))) * R2 i j * (x ! j - xopt ! j)) [0..<n]"

definition step_ellipsoid_value ::
    "(nat \<Rightarrow> nat \<Rightarrow> real) \<Rightarrow> (nat \<Rightarrow> nat \<Rightarrow> real) \<Rightarrow> real list \<Rightarrow> real \<Rightarrow> real list \<Rightarrow> real" where
  "step_ellipsoid_value R1 R2 xopt fopt x =
     (let n = length x; v = step_point n R2 xopt x;
          xx = map (\<lambda>i. \<Sum>j = 0..<n. R1 i j * map step_value v ! j) [0..<n]
      in 1 / 10 * max (\<bar>v ! 0\<bar> * (1 / 10 ^ 4)) (\<Sum>i = 0..<n. 100 powr (real i / (real n - 1)) * xx ! i * xx ! i)
        + boundary_value x + fopt)"

lemma step_round_Real: "step_round (Real v) = Real (step_value v)"
  by (simp add: step_round_def step_value_def)

lemma step_ellipsoid_raw:
  assumes "2 \<le> length x" "length xopt = length x" "real_entries rot1 (length x) R1" "real_entries rot2 (length x) R2"
  shows "f_step_ellipsoid_raw (map Real x) (length x)
      \<lparr> step_xopt = map Real xopt, step_fopt = Real fopt, step_rot1 = rot1, step_rot2 = rot2 \<rparr>
    = Inr (Real (step_ellipsoid_value R1 R2 xopt fopt x))"
proof -
  let ?n = "length x" and ?v = "step_point (length x) R2 xopt x"
  let ?xx = "map (\<lambda>i. \<Sum>j = 0..<?n. R1 i j * map step_value ?v ! j) [0..<?n]"
  have "accumulate (Real 0) [0..<?n] (\<lambda>j.
      dsqrt (dpow (Real (100 / 10)) (ddiv (Real (real i)) (Real (real (?n - 1)))))
        * entry rot2 i j * (map Real x ! j - map Real xopt ! j))
    = Real (0 + ?v ! i)" if "i < ?n" for i
  proof -
    have "?v ! i = (\<Sum>j = 0..<?n. sqrt (10 powr (real i / real (?n - 1))) * R2 i j * (x ! j - xopt ! j))"
      using that by (simp add: step_point_def)
    then show ?thesis
      by (simp only:, intro accumulate_upt) (use assms that in \<open>simp add: real_entries_def\<close>)
  qed
  then have v: "map (\<lambda>i. accumulate (Real 0) [0..<?n] (\<lambda>j.
      dsqrt (dpow (Real (100 / 10)) (ddiv (Real (real i)) (Real (real (?n - 1)))))
        * entry rot2 i j * (map Real x ! j - map Real xopt ! j))) [0..<?n]
    = map Real ?v"
    by (intro nth_equalityI) (auto simp: step_point_def)
  have len: "length (map step_value ?v) = ?n" by (simp add: step_point_def)
  have xx: "map (\<lambda>i. matrix_product rot1 ?n i (map Real (map step_value ?v))) [0..<?n] = map Real ?xx"
    by (rule matrix_products_Real [OF assms(3) len])
  have sum: "accumulate (Real 0) [0..<?n] (\<lambda>i. dpow (Real 100) (position_ratio i ?n) * map Real ?xx ! i * map Real ?xx ! i)
      = Real (0 + (\<Sum>i = 0..<?n. 100 powr (real i / (real ?n - 1)) * ?xx ! i * ?xx ! i))"
    by (rule accumulate_upt) (use assms(1) in \<open>simp add: ratio_Real del: upt_Suc\<close>)
  have rounded: "map step_round (map Real ?v) = map Real (map step_value ?v)"
    by (simp add: step_round_Real)
  have first: "map Real ?v ! 0 = Real (?v ! 0)" using assms(1) len by (intro nth_map) auto
  have "1 < ?n" using assms(1) by simp
  then show ?thesis
    by (simp only: f_step_ellipsoid_raw_def f_step_ellipsoid_data.select_convs length_map take_all_Real Let_def
        if_False not_True_eq_False boundary_penalty_Real v rounded xx sum first)
      (simp add: step_ellipsoid_value_def Let_def)
qed

lemma step_ellipsoid_ge: "fopt \<le> step_ellipsoid_value R1 R2 xopt fopt x"
proof -
  have "0 \<le> max (\<bar>v\<bar> * (1 / 10 ^ 4)) s" for v s :: real by (simp add: max.coboundedI1)
  then show ?thesis using boundary_value_nonneg [of x]
    by (simp add: step_ellipsoid_value_def Let_def add_nonneg_nonneg)
qed

lemma step_ellipsoid_minimum:
  assumes "0 < length xopt" "\<forall>v \<in> set xopt. \<bar>v\<bar> \<le> 5"
  shows "step_ellipsoid_value R1 R2 xopt fopt xopt = fopt"
proof -
  have "step_point (length xopt) R2 xopt xopt = origin (length xopt)"
    by (auto simp: step_point_def intro: nth_equalityI)
  then show ?thesis using boundary_value_inside [OF assms(2)] assms(1)
    by (simp add: step_ellipsoid_value_def Let_def step_value_def coco_double_round_def)
qed

section \<open>Lunacek\<close>

definition lunacek_s :: "nat \<Rightarrow> real" where
  "lunacek_s n = 1 - 1 / 2 / (sqrt (real (n + 20)) - 41 / 10)"

definition lunacek_mu1 :: "nat \<Rightarrow> real" where
  "lunacek_mu1 n = - sqrt ((5 / 2 * (5 / 2) - 1) / lunacek_s n)"

definition lunacek_x_hat :: "real list \<Rightarrow> real list \<Rightarrow> real list" where
  "lunacek_x_hat xopt x = map (\<lambda>i. if xopt ! i < 0 then 2 * x ! i * - 1 else 2 * x ! i) [0..<length x]"

definition lunacek_z :: "(nat \<Rightarrow> nat \<Rightarrow> real) \<Rightarrow> (nat \<Rightarrow> nat \<Rightarrow> real) \<Rightarrow> real list \<Rightarrow> real list" where
  "lunacek_z R1 R2 x_hat = (let n = length x_hat in map (\<lambda>i. \<Sum>j = 0..<n. R1 i j * map (\<lambda>i.
     \<Sum>j = 0..<n. sqrt 100 powr (real i / real (n - 1)) * R2 i j * (x_hat ! j - 5 / 2)) [0..<n] ! j) [0..<n])"

definition lunacek_value :: "(nat \<Rightarrow> nat \<Rightarrow> real) \<Rightarrow> (nat \<Rightarrow> nat \<Rightarrow> real) \<Rightarrow> real list \<Rightarrow> real list \<Rightarrow> real" where
  "lunacek_value R1 R2 xopt x =
     (let n = length x; x_hat = lunacek_x_hat xopt x; z = lunacek_z R1 R2 x_hat
      in min (\<Sum>i = 0..<n. (x_hat ! i - 5 / 2) * (x_hat ! i - 5 / 2))
           (1 * real n + lunacek_s n * (\<Sum>i = 0..<n. (x_hat ! i - lunacek_mu1 n) * (x_hat ! i - lunacek_mu1 n)))
         + 10 * (real n - (\<Sum>i = 0..<n. cos (2 * pi * z ! i))) + 10 ^ 4 * boundary_value x)"

lemma lunacek_s_pos:
  assumes "2 \<le> n"
  shows "0 < lunacek_s n" "sqrt (real (n + 20)) \<noteq> 41 / 10"
proof -
  have "sqrt ((465 / 100)\<^sup>2) \<le> sqrt (real (n + 20))"
    using assms by (intro real_sqrt_le_mono) (simp add: power2_eq_square)
  then have le: "465 / 100 \<le> sqrt (real (n + 20))" by simp
  then show "sqrt (real (n + 20)) \<noteq> 41 / 10" by linarith
  have "1 / 2 / (sqrt (real (n + 20)) - 41 / 10) \<le> 1 / 2 / (55 / 100)"
    using le by (intro divide_left_mono) auto
  then show "0 < lunacek_s n" by (simp add: lunacek_s_def)
qed

lemma lunacek_constants:
  assumes "2 \<le> n"
  shows "Real 1 - ddiv (Real (1 / 2)) (dsqrt (Real (real (n + 20))) - Real (41 / 10)) = Real (lunacek_s n)"
    and "- dsqrt (ddiv (Real (5 / 2) * Real (5 / 2) - Real 1) (Real (lunacek_s n))) = Real (lunacek_mu1 n)"
proof -
  note s = lunacek_s_pos [OF assms]
  show "Real 1 - ddiv (Real (1 / 2)) (dsqrt (Real (real (n + 20))) - Real (41 / 10)) = Real (lunacek_s n)"
    using s(2) by (simp add: lunacek_s_def)
  have "lunacek_s n \<noteq> 0" "0 \<le> (5 / 2 * (5 / 2) - 1) / lunacek_s n" using s(1) by simp_all
  then show "- dsqrt (ddiv (Real (5 / 2) * Real (5 / 2) - Real 1) (Real (lunacek_s n))) = Real (lunacek_mu1 n)"
    unfolding lunacek_mu1_def by simp
qed

lemma lunacek_x_hat_Real:
  assumes "length xopt = length x"
  shows "map (\<lambda>i. if map Real xopt ! i < Real 0 then Real 2 * map Real x ! i * Real (- 1)
      else Real 2 * map Real x ! i) [0..<length x] = map Real (lunacek_x_hat xopt x)"
  using assms by (simp add: lunacek_x_hat_def)

lemma lunacek_z_Real:
  assumes "real_entries rot1 (length h) R1" "real_entries rot2 (length h) R2" "2 \<le> length h"
  shows "map (\<lambda>i. matrix_product rot1 (length h) i (map (\<lambda>i. accumulate (Real 0) [0..<length h] (\<lambda>j.
      dpow (dsqrt (Real 100)) (ddiv (Real (real i)) (Real (real (length h - 1))))
        * entry rot2 i j * (map Real h ! j - Real (5 / 2)))) [0..<length h])) [0..<length h]
    = map Real (lunacek_z R1 R2 h)"
proof -
  let ?n = "length h"
  let ?t = "map (\<lambda>i. \<Sum>j = 0..<?n. sqrt 100 powr (real i / real (?n - 1)) * R2 i j * (h ! j - 5 / 2)) [0..<?n]"
  have "accumulate (Real 0) [0..<?n] (\<lambda>j.
      dpow (dsqrt (Real 100)) (ddiv (Real (real i)) (Real (real (?n - 1))))
        * entry rot2 i j * (map Real h ! j - Real (5 / 2))) = Real (0 + ?t ! i)" if "i < ?n" for i
  proof -
    have "?t ! i = (\<Sum>j = 0..<?n. sqrt 100 powr (real i / real (?n - 1)) * R2 i j * (h ! j - 5 / 2))"
      using that by simp
    then show ?thesis
      by (simp only:, intro accumulate_upt) (use assms that in \<open>simp add: real_entries_def\<close>)
  qed
  then have "map (\<lambda>i. accumulate (Real 0) [0..<?n] (\<lambda>j.
      dpow (dsqrt (Real 100)) (ddiv (Real (real i)) (Real (real (?n - 1))))
        * entry rot2 i j * (map Real h ! j - Real (5 / 2)))) [0..<?n] = map Real ?t"
    by (intro nth_equalityI) auto
  then show ?thesis
    using matrix_products_Real [OF assms(1), of ?t] by (simp only: lunacek_z_def Let_def length_map length_upt diff_zero)
qed

lemma lunacek_raw:
  assumes "2 \<le> length x" "length xopt = length x" "real_entries rot1 (length x) R1" "real_entries rot2 (length x) R2"
  shows "f_lunacek_bi_rastrigin_raw (map Real x) (length x)
      \<lparr> lunacek_xopt = map Real xopt, lunacek_rot1 = rot1, lunacek_rot2 = rot2 \<rparr>
    = Inr (Real (lunacek_value R1 R2 xopt x))"
proof -
  define h where "h = lunacek_x_hat xopt x"
  have n: "length h = length x" by (simp add: h_def lunacek_x_hat_def)
  let ?n = "length x" and ?z = "lunacek_z R1 R2 h"
  have z: "length ?z = ?n" by (simp add: lunacek_z_def Let_def n)
  note z_Real = lunacek_z_Real [of rot1 h R1 rot2 R2, unfolded n, OF assms(3,4,1)]
  have sum1: "accumulate (Real 0) [0..<?n] (\<lambda>i. (map Real h ! i - Real (5 / 2)) * (map Real h ! i - Real (5 / 2)))
      = Real (0 + (\<Sum>i = 0..<?n. (h ! i - 5 / 2) * (h ! i - 5 / 2)))"
    by (rule accumulate_upt) (simp add: n)
  have sum2: "accumulate (Real 0) [0..<?n] (\<lambda>i. (map Real h ! i - Real (lunacek_mu1 ?n)) * (map Real h ! i - Real (lunacek_mu1 ?n)))
      = Real (0 + (\<Sum>i = 0..<?n. (h ! i - lunacek_mu1 ?n) * (h ! i - lunacek_mu1 ?n)))"
    by (rule accumulate_upt) (simp add: n)
  have sum3: "accumulate (Real 0) [0..<?n] (\<lambda>i. dcos (Real (2 * pi) * map Real ?z ! i))
      = Real (0 + (\<Sum>i = 0..<?n. cos (2 * pi * ?z ! i)))"
    by (rule accumulate_upt) (simp add: z)
  have "1 < ?n" using assms(1) by simp
  then show ?thesis
    by (simp only: f_lunacek_bi_rastrigin_raw_def f_lunacek_bi_rastrigin_data.select_convs length_map take_all_Real
        Let_def if_False not_True_eq_False boundary_penalty_Real lunacek_x_hat_Real [OF assms(2)] h_def [symmetric]
        lunacek_constants [OF assms(1)] z_Real sum1 sum2 sum3)
      (simp add: lunacek_value_def Let_def h_def)
qed

lemma lunacek_nonneg:
  assumes "2 \<le> length x"
  shows "0 \<le> lunacek_value R1 R2 xopt x"
proof -
  have "(\<Sum>i = 0..<length x. cos (2 * pi * z ! i)) \<le> (\<Sum>i = 0..<length x. 1)" for z
    by (intro sum_mono) simp
  then have 1: "0 \<le> 10 * (real (length x) - (\<Sum>i = 0..<length x. cos (2 * pi * z ! i)))" for z by simp
  have sq: "0 \<le> (\<Sum>i = 0..<length x. (h ! i - c) * (h ! i - c))" for h and c :: real
    by (intro sum_nonneg) simp
  have "0 \<le> lunacek_s (length x)" using lunacek_s_pos(1) [OF assms] by simp
  then have "0 \<le> min (\<Sum>i = 0..<length x. (h ! i - 5 / 2) * (h ! i - 5 / 2)) (1 * real (length x)
      + lunacek_s (length x) * (\<Sum>i = 0..<length x. (h ! i - lunacek_mu1 (length x)) * (h ! i - lunacek_mu1 (length x))))" for h
    using sq [of h] by simp
  then show ?thesis using 1 boundary_value_nonneg [of x]
    by (simp only: lunacek_value_def Let_def) (simp add: add_nonneg_nonneg)
qed

text \<open>At the optimum every coordinate of \<open>x_hat\<close> is \<open>mu0\<close>.\<close>

lemma lunacek_minimum:
  assumes "2 \<le> length xopt" "\<forall>v \<in> set xopt. v = 5 / 4 \<or> v = - 5 / 4"
  shows "lunacek_value R1 R2 xopt xopt = 0"
proof -
  have v: "xopt ! i = 5 / 4 \<or> xopt ! i = - 5 / 4" if "i < length xopt" for i
    using assms(2) nth_mem [OF that] by blast
  have h: "lunacek_x_hat xopt xopt = replicate (length xopt) (5 / 2)"
    using v by (intro nth_equalityI) (force simp: lunacek_x_hat_def)+
  have z: "lunacek_z R1 R2 (replicate (length xopt) (5 / 2)) = origin (length xopt)"
    by (auto simp: lunacek_z_def Let_def intro: nth_equalityI)
  have "boundary_value xopt = 0" using assms(2) by (intro boundary_value_inside) force
  moreover have "0 \<le> 1 * real (length xopt) + lunacek_s (length xopt)
      * (\<Sum>i = 0..<length xopt. (5 / 2 - lunacek_mu1 (length xopt)) * (5 / 2 - lunacek_mu1 (length xopt)))"
    using lunacek_s_pos(1) [OF assms(1)] by (intro add_nonneg_nonneg mult_nonneg_nonneg sum_nonneg zero_le_square) auto
  ultimately show ?thesis by (simp add: lunacek_value_def Let_def h z)
qed

end
