(* ===== verification/Coco_Raw_Contracts.thy ===== *)
theory Coco_Raw_Contracts
  imports Coco_Data_Values
begin

text \<open>
  What a basic problem promises: the locale \<open>raw_contract\<close> for a raw function on \<open>n\<close> variables, its
  interpretations for the functions of the bbob suite, and what the basic allocators give.
\<close>

section \<open>Solved problems\<close>

text \<open>A new problem whose best parameter attains its best value.\<close>

definition solved ::
    "coco_problem_t \<Rightarrow> nat \<Rightarrow> nat \<Rightarrow> (real list \<Rightarrow> real) \<Rightarrow> real list \<Rightarrow> real \<Rightarrow> bool" where
  "solved p n L F best fo \<longleftrightarrow> new_problem p n L F best fo \<and> F best = fo"

definition solves ::
    "coco_problem_t result \<Rightarrow> nat \<Rightarrow> nat \<Rightarrow> (real list \<Rightarrow> real) \<Rightarrow> real list \<Rightarrow> real \<Rightarrow> bool" where
  "solves r n L F best fo \<longleftrightarrow> (\<exists>p. r = Inr p \<and> solved p n L F best fo)"

lemma solves_bind:
  assumes "solves r n L F best fo" "\<And>p. solved p n L F best fo \<Longrightarrow> solves (k p) n L' F' best' fo'"
  shows "solves (rbind r k) n L' F' best' fo'"
  using assms by (auto simp: solves_def)

lemma gives_solves:
  "gives r n L F best fo \<Longrightarrow> F best = fo \<Longrightarrow> solves r n L F best fo"
  by (auto simp: gives_def solves_def solved_def)

section \<open>The contract of a raw function\<close>

text \<open>
  At a finite point the evaluation function of \<open>r\<close> sets the value of \<open>V\<close>, whose minimum \<open>m\<close> is attained
  at \<open>best\<close>; only the linear slope reads the best parameter of the problem.
\<close>

locale raw_contract =
  fixes r :: raw_function and n :: nat and name :: string and ok :: bool
    and V :: "real list \<Rightarrow> real" and best :: "real list" and m :: real
  assumes evaluates:
    "ok \<Longrightarrow> length x = n \<Longrightarrow> number_of_variables p = length x \<Longrightarrow>
       (r = Linear_slope \<longrightarrow> best_parameter p = Some (map Real best)) \<Longrightarrow>
       raw_evaluate r alias p (map Real x) = evaluate_raw name alias p (map Real x) (Inr (Real (V x)))"
    and minimal: "ok \<Longrightarrow> length x = n \<Longrightarrow> m \<le> V x"
    and attained: "ok \<Longrightarrow> V best = m"
    and length_best: "ok \<Longrightarrow> length best = n"
begin

lemma implements_basic:
  assumes "ok" "shape p n" "evaluate_function p = Some (Evaluate_raw r)"
    and "best_parameter p = Some (map Real best)" "best_value p = [Real m]"
  shows "implements (Basic p) n V"
  unfolding implements_def
proof (intro allI impI)
  fix q and x :: "real list"
  assume "erase q = erase (Basic p)" and x: "length x = n"
  then obtain p' where q: "q = Basic p'" and e: "behaviour p' = behaviour p"
    by (auto simp: erase_Basic)
  note eq = behaviour_eqD [OF e]
  have "number_of_variables p' = n" "number_of_objectives p' = 1" "best_value p' = [Real m]"
    "evaluate_function p' = Some (Evaluate_raw r)"
    using assms(2,3,5) eq(1,3,4,10) by (simp_all add: shape_def)
  moreover have "r = Linear_slope \<longrightarrow> best_parameter p' = Some (map Real best)"
    using eq(12) assms(3,4) eq(1) by auto
  ultimately have "call_evaluate_function q (map Real x) = Inr ([Real (V x)], q)"
    using evaluates [of x p' False] minimal [of x] x assms(1)
    by (simp add: q evaluate_raw_def assert_best_def)
  then show "\<exists>q'. call_evaluate_function q (map Real x) = Inr ([Real (V x)], q')
      \<and> erase q' = erase (Basic p) \<and> fields q' = fields q"
    using e q by simp
qed

lemma basic_solved:
  assumes "ok" "well_formed p n L" "fresh p" "evaluate_function p = Some (Evaluate_raw r)"
    and "best_parameter p = Some (map Real best)" "best_value p = [Real m]"
  shows "solved (Basic p) n L V best m"
  using implements_basic [of p] assms length_best minimal attained
  by (simp add: solved_def new_problem_def objective_problem_def well_formed_def)

lemma best_value_set:
  assumes "ok" "well_formed p n L" "fresh p" "evaluate_function p = Some (Evaluate_raw r)"
    and "best_parameter p = Some (map Real best)"
  shows "solves (set_best_value_at (raw_evaluate r) (map Real best) p) n L V best m"
proof -
  have n: "number_of_variables p = n" "number_of_objectives p = 1"
    using assms(2) by (simp_all add: well_formed_def shape_def)
  have "raw_evaluate r True p (map Real best) = Inr [Real m]"
    using evaluates [of best p True] assms(1,5) n length_best attained
    by (simp add: evaluate_raw_def assert_best_def)
  then have "set_best_value_at (raw_evaluate r) (map Real best) p = Inr (Basic (p\<lparr>best_value := [Real m]\<rparr>))"
    by (simp add: set_best_value_at_def)
  moreover have "solved (Basic (p\<lparr>best_value := [Real m]\<rparr>)) n L V best m"
    using assms by (intro basic_solved) (auto simp: well_formed_def shape_def fresh_def)
  ultimately show ?thesis by (simp add: solves_def)
qed

lemma evaluated_at_best:
  assumes "ok" "well_formed p n L" "fresh p" "evaluate_function p = Some (Evaluate_raw r)"
    and "best_parameter p = Some (map Real best)"
  shows "solves (evaluate_at_best (raw_evaluate r) p) n L V best m"
  using best_value_set [OF assms] assms(5) by (simp add: evaluate_at_best_def)

end

section \<open>Allocation\<close>

lemma format_lu_Nil [simp]: "format_lu s [] = s"
proof (induction s)
  case (Cons c s)
  then show ?case by (simp add: format_lu.simps [of "c # s"])
qed (simp add: format_lu.simps)

lemma length_show_nat: "n < 10 ^ k \<Longrightarrow> 0 < k \<Longrightarrow> length (show_nat n) \<le> k"
proof (induction n arbitrary: k rule: show_nat.induct)
  case (1 n)
  show ?case
  proof (cases "n < 10")
    case True
    then show ?thesis using 1 by (simp add: show_nat.simps [of n])
  next
    case False
    then have "1 < k" using 1 by (cases k; cases "k - 1") auto
    then have "n div 10 < 10 ^ (k - 1)" using 1(2) by (cases k) (auto simp: div_less_iff_less_mult mult.commute)
    then have "length (show_nat (n div 10)) \<le> k - 1" using 1(1) False \<open>1 < k\<close> by simp
    then show ?thesis using False \<open>1 < k\<close> by (simp add: show_nat.simps [of n])
  qed
qed

lemma digits_fine: "coco_problem_id_is_fine (show_nat n)" "coco_problem_id_is_fine (pad w (show_nat n))"
proof -
  show "coco_problem_id_is_fine (show_nat n)"
    using show_nat_digits [of n] by (auto simp: coco_problem_id_is_fine_def list_all_iff)
  then show "coco_problem_id_is_fine (pad w (show_nat n))"
    by (auto simp: coco_problem_id_is_fine_def pad_def list_all_iff isdigit_def)
qed

lemma fine_append [simp]:
  "coco_problem_id_is_fine (s @ t) \<longleftrightarrow> coco_problem_id_is_fine s \<and> coco_problem_id_is_fine t"
  by (simp add: coco_problem_id_is_fine_def)

lemma length_pad: "length (pad w s) = max w (length s)"
  by (simp add: pad_def max_def)

definition newly_allocated ::
    "coco_problem_s \<Rightarrow> nat \<Rightarrow> raw_function \<Rightarrow> real list \<Rightarrow> bool" where
  "newly_allocated p n r best \<longleftrightarrow> well_formed p n 40 \<and> fresh p
     \<and> evaluate_function p = Some (Evaluate_raw r) \<and> best_parameter p = Some (map Real best)"

lemma allocate_from_scalars_ok:
  assumes "0 < n" "length name \<le> 40"
  shows "\<exists>p. coco_problem_allocate_from_scalars name r n (Real (- 5)) (Real 5) (Real b) = Inr p
    \<and> newly_allocated p n r (replicate n b)"
  using assms
  by (auto simp: coco_problem_allocate_from_scalars_def coco_problem_allocate_def coco_allocate_vector_def
      newly_allocated_def well_formed_def shape_def fresh_def)

lemma allocate_basic_ok:
  assumes "0 < n" "n < 100" "length name \<le> 40" "length prefix \<le> 30" "coco_problem_id_is_fine prefix"
  shows "\<exists>p. allocate_basic name prefix r n (Real b) = Inr p \<and> newly_allocated p n r (replicate n b)"
proof -
  obtain p where p: "coco_problem_allocate_from_scalars name r n (Real (- 5)) (Real 5) (Real b) = Inr p"
    "newly_allocated p n r (replicate n b)"
    using allocate_from_scalars_ok [OF assms(1,3)] by blast
  let ?s = "prefix @ ''_d'' @ pad 2 (show_nat n)"
  have "length (show_nat n) \<le> 2" using length_show_nat [of n 2] assms(2) by simp
  then have "length ?s \<le> 34" using assms(4) by (simp add: length_pad)
  moreover have "coco_problem_id_is_fine ?s"
    using assms(5) digits_fine by (simp add: coco_problem_id_is_fine_def isalpha_def)
  ultimately have "allocate_basic name prefix r n (Real b) = Inr (p\<lparr>problem_id := Some ?s\<rparr>)"
    using p(1) by (simp add: allocate_basic_def coco_problem_set_id_def coco_vstrdupf_def COCO_VSTRDUPF_BUFLEN_def)
  moreover have "newly_allocated (p\<lparr>problem_id := Some ?s\<rparr>) n r (replicate n b)"
    using p(2) by (simp add: newly_allocated_def well_formed_def shape_def fresh_def)
  ultimately show ?thesis by blast
qed

context raw_contract
begin

lemma allocated:
  assumes "ok" "best = replicate n b" "0 < n" "n < 100"
    and "length fname \<le> 40" "length prefix \<le> 30" "coco_problem_id_is_fine prefix"
  shows "solves (rbind (allocate_basic fname prefix r n (Real b)) (evaluate_at_best (raw_evaluate r))) n 40 V best m"
proof -
  obtain p where "allocate_basic fname prefix r n (Real b) = Inr p" "newly_allocated p n r (replicate n b)"
    using allocate_basic_ok [OF assms(3-7)] by blast
  then show ?thesis using evaluated_at_best [of p 40] assms(1,2) by (simp add: newly_allocated_def)
qed

end

end
