(* ===== verification/Coco_Basic_Problems.thy ===== *)
theory Coco_Basic_Problems
  imports Coco_Raw_Contracts
begin

text \<open>
  Every raw function of the bbob suite but Schwefel's fulfils the contract \<open>raw_contract\<close>, and what the
  basic allocators give: a new problem with the function, its minimum and the point of the minimum.
\<close>

section \<open>Interpretations\<close>

interpretation sphere: raw_contract Sphere n "''f_sphere_evaluate''" True sphere_value "origin n" 0
  for n
  by unfold_locales (auto simp: f_sphere_evaluate_def sphere_raw raw_nonneg raw_minimum)

interpretation ellipsoid: raw_contract Ellipsoid n "''f_ellipsoid_evaluate''" "2 \<le> n" ellipsoid_value "origin n" 0
  for n
  by unfold_locales (auto simp: f_ellipsoid_evaluate_def ellipsoid_raw raw_nonneg raw_minimum)

interpretation rastrigin: raw_contract Rastrigin n "''f_rastrigin_evaluate''" True rastrigin_value "origin n" 0
  for n
  by unfold_locales (auto simp: f_rastrigin_evaluate_def rastrigin_raw rastrigin_nonneg raw_minimum)

interpretation bueche_rastrigin: raw_contract Bueche_rastrigin n "''f_bueche_rastrigin_evaluate''" True
    rastrigin_value "origin n" 0
  for n
  by unfold_locales (auto simp: f_bueche_rastrigin_evaluate_def bueche_rastrigin_raw rastrigin_nonneg raw_minimum)

interpretation linear_slope: raw_contract Linear_slope n "''f_linear_slope_evaluate''"
    "2 \<le> n \<and> length best = n \<and> (\<forall>v \<in> set best. v = 5 \<or> v = - 5)" "linear_slope_value best" best 0
  for best n
  by unfold_locales
    (auto simp: f_linear_slope_evaluate_def linear_slope_raw linear_slope_nonneg linear_slope_minimum)

interpretation attractive_sector: raw_contract "Attractive_sector (map Real xopt)" n
    "''f_attractive_sector_evaluate''" "length xopt = n" "attractive_sector_value xopt" "origin n" 0
  for xopt n
  by unfold_locales (auto simp: f_attractive_sector_evaluate_def attractive_sector_raw [symmetric] raw_nonneg raw_minimum)

interpretation rosenbrock: raw_contract Rosenbrock n "''f_rosenbrock_evaluate''" "2 \<le> n" rosenbrock_value
    "replicate n 1" 0
  for n
  by unfold_locales (auto simp: f_rosenbrock_evaluate_def rosenbrock_raw raw_nonneg raw_minimum)

interpretation discus: raw_contract Discus n "''f_discus_evaluate''" "0 < n" discus_value "origin n" 0
  for n
  by unfold_locales (auto simp: f_discus_evaluate_def discus_raw raw_nonneg raw_minimum)

interpretation bent_cigar: raw_contract Bent_cigar n "''f_bent_cigar_evaluate''" "0 < n" bent_cigar_value "origin n" 0
  for n
  by unfold_locales (auto simp: f_bent_cigar_evaluate_def bent_cigar_raw raw_nonneg raw_minimum)

interpretation sharp_ridge: raw_contract Sharp_ridge n "''f_sharp_ridge_evaluate''" "2 \<le> n" sharp_ridge_value "origin n" 0
  for n
  by unfold_locales (auto simp: f_sharp_ridge_evaluate_def sharp_ridge_raw raw_nonneg raw_minimum)

interpretation different_powers: raw_contract Different_powers n "''f_different_powers_evaluate''" "2 \<le> n"
    different_powers_value "origin n" 0
  for n
  by unfold_locales (auto simp: f_different_powers_evaluate_def different_powers_raw raw_nonneg raw_minimum)

interpretation weierstrass: raw_contract "Weierstrass weierstrass_data" n "''f_weierstrass_evaluate''" "0 < n"
    weierstrass_value "origin n" 0
  for n
  by unfold_locales (auto simp: f_weierstrass_evaluate_def weierstrass_raw weierstrass_nonneg weierstrass_minimum)

interpretation schaffers: raw_contract Schaffers n "''f_schaffers_evaluate''" "2 \<le> n" schaffers_value "origin n" 0
  for n
  by unfold_locales (auto simp: f_schaffers_evaluate_def schaffers_raw raw_nonneg raw_minimum)

interpretation griewank_rosenbrock: raw_contract Griewank_rosenbrock n "''f_griewank_rosenbrock_evaluate''"
    "2 \<le> n" griewank_rosenbrock_value "replicate n 1" 0
  for n
  by unfold_locales (auto simp: f_griewank_rosenbrock_evaluate_def griewank_rosenbrock_raw
      griewank_rosenbrock_nonneg griewank_rosenbrock_minimum)

interpretation katsuura: raw_contract Katsuura n "''f_katsuura_evaluate''" "0 < n" katsuura_value "origin n" 0
  for n
  by unfold_locales (auto simp: f_katsuura_evaluate_def katsuura_raw katsuura_nonneg katsuura_minimum)

interpretation gallagher: raw_contract "Gallagher data" n "''f_gallagher_evaluate''"
    "length best = n \<and> gallagher_data_ok data n R X A W \<and> 0 < number_of_peaks data \<and> W 0 = 10
     \<and> (\<forall>j < n. X j 0 = (\<Sum>k = 0..<n. R j k * best ! k)) \<and> (\<forall>v \<in> set best. \<bar>v\<bar> \<le> 5)"
    "gallagher_value n R X A W (number_of_peaks data)" best 0
  for data n R X A W best
  by unfold_locales
    (auto simp: f_gallagher_evaluate_def gallagher_raw gallagher_nonneg intro: gallagher_minimum)

interpretation step_ellipsoid: raw_contract
    "Step_ellipsoid \<lparr> step_xopt = map Real xopt, step_fopt = Real fopt, step_rot1 = rot1, step_rot2 = rot2 \<rparr>" n
    "''f_step_ellipsoid_evaluate''"
    "2 \<le> n \<and> length xopt = n \<and> real_entries rot1 n R1 \<and> real_entries rot2 n R2 \<and> (\<forall>v \<in> set xopt. \<bar>v\<bar> \<le> 5)"
    "step_ellipsoid_value R1 R2 xopt fopt" xopt fopt
  for xopt fopt rot1 rot2 n R1 R2
  by unfold_locales (auto simp: f_step_ellipsoid_evaluate_def step_ellipsoid_raw step_ellipsoid_ge
      intro: step_ellipsoid_minimum)

interpretation lunacek: raw_contract
    "Lunacek_bi_rastrigin \<lparr> lunacek_xopt = map Real xopt, lunacek_rot1 = rot1, lunacek_rot2 = rot2 \<rparr>" n
    "''f_lunacek_bi_rastrigin_evaluate''"
    "2 \<le> n \<and> length xopt = n \<and> real_entries rot1 n R1 \<and> real_entries rot2 n R2
     \<and> (\<forall>v \<in> set xopt. v = 5 / 4 \<or> v = - 5 / 4)"
    "lunacek_value R1 R2 xopt" xopt 0
  for xopt rot1 rot2 n R1 R2
  by unfold_locales (auto simp: f_lunacek_bi_rastrigin_evaluate_def lunacek_raw lunacek_nonneg lunacek_minimum)

section \<open>The basic allocators\<close>

lemma fine_prefix:
  "coco_problem_id_is_fine ''sphere''" "coco_problem_id_is_fine ''ellipsoid''"
  "coco_problem_id_is_fine ''rastrigin''" "coco_problem_id_is_fine ''bueche-rastrigin''"
  "coco_problem_id_is_fine ''rosenbrock''" "coco_problem_id_is_fine ''discus''"
  "coco_problem_id_is_fine ''bent_cigar''" "coco_problem_id_is_fine ''sharp_ridge''"
  "coco_problem_id_is_fine ''different_powers''" "coco_problem_id_is_fine ''griewank_rosenbrock''"
  "coco_problem_id_is_fine ''katsuura''" "coco_problem_id_is_fine ''schaffers''"
  "coco_problem_id_is_fine ''weierstrass''" "coco_problem_id_is_fine ''attractive_sector''"
  "coco_problem_id_is_fine ''linear_slope''"
  by (simp_all add: coco_problem_id_is_fine_def isalpha_def)

lemma basic_solves:
  assumes "2 \<le> n" "n < 100"
  shows "solves (f_sphere_allocate n) n 40 sphere_value (origin n) 0"
    "solves (f_ellipsoid_allocate n) n 40 ellipsoid_value (origin n) 0"
    "solves (f_rastrigin_allocate n) n 40 rastrigin_value (origin n) 0"
    "solves (f_bueche_rastrigin_allocate n) n 40 rastrigin_value (origin n) 0"
    "solves (f_rosenbrock_allocate n) n 40 rosenbrock_value (replicate n 1) 0"
    "solves (f_discus_allocate n) n 40 discus_value (origin n) 0"
    "solves (f_bent_cigar_allocate n) n 40 bent_cigar_value (origin n) 0"
    "solves (f_sharp_ridge_allocate n) n 40 sharp_ridge_value (origin n) 0"
    "solves (f_different_powers_allocate n) n 40 different_powers_value (origin n) 0"
    "solves (f_griewank_rosenbrock_allocate n) n 40 griewank_rosenbrock_value (replicate n 1) 0"
    "solves (f_katsuura_allocate n) n 40 katsuura_value (origin n) 0"
    "solves (f_schaffers_allocate n) n 40 schaffers_value (origin n) 0"
  using assms sphere.allocated [OF _ refl] ellipsoid.allocated [OF _ refl] rastrigin.allocated [OF _ refl]
    bueche_rastrigin.allocated [OF _ refl] rosenbrock.allocated [OF _ refl] discus.allocated [OF _ refl]
    bent_cigar.allocated [OF _ refl] sharp_ridge.allocated [OF _ refl] different_powers.allocated [OF _ refl]
    griewank_rosenbrock.allocated [OF _ refl] katsuura.allocated [OF _ refl] schaffers.allocated [OF _ refl]
  by (simp_all add: f_sphere_allocate_def f_ellipsoid_allocate_def f_rastrigin_allocate_def
      f_bueche_rastrigin_allocate_def f_rosenbrock_allocate_def f_discus_allocate_def f_bent_cigar_allocate_def
      f_sharp_ridge_allocate_def f_different_powers_allocate_def f_griewank_rosenbrock_allocate_def
      f_katsuura_allocate_def f_schaffers_allocate_def fine_prefix)

lemma attractive_sector_solves:
  assumes "2 \<le> n" "n < 100" "length xopt = n"
  shows "solves (f_attractive_sector_allocate n (map Real xopt)) n 40 (attractive_sector_value xopt) (origin n) 0"
  using assms attractive_sector.allocated [OF _ refl]
  by (simp add: f_attractive_sector_allocate_def copy_vector_def fine_prefix)

lemma weierstrass_solves:
  assumes "2 \<le> n" "n < 100"
  shows "solves (f_weierstrass_allocate n) n 40 weierstrass_value (origin n) 0"
proof -
  obtain p where "allocate_basic ''Weierstrass function'' ''weierstrass'' (Weierstrass weierstrass_data) n (Real 0) = Inr p"
    "newly_allocated p n (Weierstrass weierstrass_data) (origin n)"
    using allocate_basic_ok [of n "''Weierstrass function''" "''weierstrass''" "Weierstrass weierstrass_data" 0]
      assms fine_prefix by auto
  then show ?thesis using weierstrass.best_value_set [of n p 40] assms(1)
    by (simp add: f_weierstrass_allocate_def newly_allocated_def)
qed

text \<open>The best parameter of the linear slope is the corner that the signs of \<open>x\<close> select.\<close>

definition slope_corner :: "real list \<Rightarrow> real list" where
  "slope_corner x = map (\<lambda>v. if v < 0 then - 5 else 5) x"

lemma linear_slope_solves:
  assumes "2 \<le> n" "n < 100" "length x = n"
  shows "solves (f_linear_slope_allocate n (map Real x)) n 40 (linear_slope_value (slope_corner x)) (slope_corner x) 0"
proof -
  obtain p where p: "allocate_basic ''linear slope function'' ''linear_slope'' Linear_slope n (Real 0) = Inr p"
    "newly_allocated p n Linear_slope (origin n)"
    using allocate_basic_ok [of n "''linear slope function''" "''linear_slope''" Linear_slope 0]
      assms fine_prefix by auto
  let ?p = "p\<lparr>best_parameter := Some (map Real (slope_corner x))\<rparr>"
  have "smallest_values_of_interest p = replicate n (Real (- 5))" "largest_values_of_interest p = replicate n (Real 5)"
    using p(2) by (simp_all add: newly_allocated_def well_formed_def shape_def)
  then have "map (\<lambda>i. if map Real x ! i < Real 0 then smallest_values_of_interest p ! i
      else largest_values_of_interest p ! i) [0..<n] = map Real (slope_corner x)"
    using assms(3) by (auto simp: slope_corner_def intro: nth_equalityI)
  then have "f_linear_slope_allocate n (map Real x) = evaluate_at_best f_linear_slope_evaluate ?p"
    using p(1) assms(3) by (simp add: f_linear_slope_allocate_def copy_vector_def)
  moreover have "well_formed ?p n 40" "fresh ?p" "evaluate_function ?p = Some (Evaluate_raw Linear_slope)"
    using p(2) by (simp_all add: newly_allocated_def well_formed_def shape_def fresh_def)
  moreover have "2 \<le> n \<and> length (slope_corner x) = n \<and> (\<forall>v \<in> set (slope_corner x). v = 5 \<or> v = - 5)"
    using assms by (auto simp: slope_corner_def)
  ultimately show ?thesis using linear_slope.evaluated_at_best [of n "slope_corner x" ?p 40] by simp
qed

end
