(* ===== verification/Coco_Solved_Steps.thy ===== *)
theory Coco_Solved_Steps
  imports Coco_Basic_Problems
begin

text \<open>
  The steps of the constructions of the bbob problems on solved problems: every transformation of a
  solved problem gives a solved problem, and so does naming it.
\<close>

section \<open>Transformations\<close>

lemma solves_eq:
  assumes "solves r n L F best fo" "F = F'" "best = best'" "fo = fo'"
  shows "solves r n L F' best' fo'"
  using assms by simp

lemma solvedD:
  assumes "solved p n L F best fo"
  shows "new_problem p n L F best fo" "F best = fo" "length best = n" "0 < n"
  using assms new_problemD(4,7) [of p n L F best fo] by (simp_all add: solved_def)

lemma solved_obj_shift:
  assumes "solved p n L F best fo" "L + 21 \<le> 441"
  shows "solves (transform_obj_shift p (Real c)) n (L + 21) (\<lambda>x. F x + c) best (fo + c)"
  using transform_obj_shift_gives [OF solvedD(1) [OF assms(1)] assms(2)] solvedD(2) [OF assms(1)]
  by (intro gives_solves) auto

lemma solved_obj_scale:
  assumes "solved p n L F best fo" "L + 21 \<le> 441" "0 \<le> c"
  shows "solves (transform_obj_scale p (Real c)) n (L + 21) (\<lambda>x. F x * c) best (fo * c)"
  using transform_obj_scale_gives [OF solvedD(1) [OF assms(1)] assms(2,3)] solvedD(2) [OF assms(1)]
  by (intro gives_solves) auto

lemma region_penalty_inside:
  assumes "\<forall>v \<in> set x. \<bar>v\<bar> \<le> 5"
  shows "region_penalty x = 0"
proof -
  have "\<not> 5 < x ! i \<and> \<not> x ! i < - 5" if "i < length x" for i
    using assms nth_mem [OF that] by (auto simp: abs_le_iff)
  then show ?thesis by (simp add: region_penalty_def)
qed

lemma solved_obj_penalize:
  assumes "solved p n L F best fo" "L + 24 \<le> 441" "0 \<le> c" "\<forall>v \<in> set best. \<bar>v\<bar> \<le> 5"
  shows "solves (transform_obj_penalize p (Real c)) n (L + 24) (\<lambda>x. F x + c * region_penalty x) best fo"
  using transform_obj_penalize_gives [OF solvedD(1) [OF assms(1)] assms(2,3)] solvedD(2) [OF assms(1)]
    region_penalty_inside [OF assms(4)]
  by (intro gives_solves) auto

lemma solved_obj_norm_by_dim:
  assumes "solved p n L F best 0" "L + 27 \<le> 441"
  shows "solves (transform_obj_norm_by_dim p) n (L + 27) (\<lambda>x. F x * min 1 (40 / real n)) best 0"
  using transform_obj_norm_by_dim_gives [OF solvedD(1) [OF assms(1)] assms(2)] solvedD(2) [OF assms(1)]
  by (intro gives_solves) auto

lemma solved_obj_oscillate:
  assumes "solved p n L F best fo" "L + 25 \<le> 441"
  shows "solves (transform_obj_oscillate p) n (L + 25) (\<lambda>x. oscillation (F x)) best (oscillation fo)"
  using transform_obj_oscillate_gives [OF solvedD(1) [OF assms(1)] assms(2) solvedD(2) [OF assms(1)]]
    solvedD(2) [OF assms(1)]
  by (intro gives_solves) auto

lemma solved_obj_power:
  assumes "solved p n L F best fo" "L + 21 \<le> 441" "0 \<le> fo" "0 < e"
  shows "solves (transform_obj_power p (Real e)) n (L + 21) (\<lambda>x. F x powr e) best (fo powr e)"
  using transform_obj_power_gives [OF solvedD(1) [OF assms(1)] assms(2) solvedD(2) [OF assms(1)] assms(3,4)]
    solvedD(2) [OF assms(1)]
  by (intro gives_solves) auto

lemma solved_vars_shift:
  assumes "solved p n L F best fo" "L + 22 \<le> 441" "length offset = n"
  shows "solves (transform_vars_shift p (map Real offset) False) n (L + 22)
    (\<lambda>x. F (shift_point offset x)) (unshift_point offset best) fo"
  using transform_vars_shift_gives [OF solvedD(1) [OF assms(1)] assms(2,3)] solvedD(2,3) [OF assms(1)]
    shift_unshift [of best offset] assms(3)
  by (intro gives_solves) auto

lemma solved_vars_scale:
  assumes "solved p n L F best fo" "L + 22 \<le> 441" "a \<noteq> 0"
  shows "solves (transform_vars_scale p (Real a)) n (L + 22)
    (\<lambda>x. F (map (\<lambda>v. a * v) x)) (map (\<lambda>v. v / a) best) fo"
proof -
  have "map (\<lambda>v. a * v) (map (\<lambda>v. v / a) best) = best" using assms(3) by (simp add: comp_def)
  then show ?thesis
    using transform_vars_scale_gives [OF solvedD(1) [OF assms(1)] assms(2,3)] solvedD(2) [OF assms(1)]
    by (intro gives_solves) auto
qed

lemma solved_vars_oscillate:
  assumes "solved p n L F (origin n) fo" "L + 26 \<le> 441"
  shows "solves (transform_vars_oscillate p) n (L + 26) (\<lambda>x. F (map oscillation x)) (origin n) fo"
  using transform_vars_oscillate_gives [OF solvedD(1) [OF assms(1)] assms(2)] solvedD(2) [OF assms(1)]
  by (intro gives_solves) auto

lemma solved_vars_conditioning:
  assumes "solved p n L F (origin n) fo" "L + 29 \<le> 441" "2 \<le> n" "0 < a"
  shows "solves (transform_vars_conditioning p (Real a)) n (L + 29) (\<lambda>x. F (condition_point a n x)) (origin n) fo"
  using transform_vars_conditioning_gives [OF solvedD(1) [OF assms(1)] assms(2-4)] solvedD(2) [OF assms(1)]
  by (intro gives_solves) auto

lemma solved_vars_brs:
  assumes "solved p n L F (origin n) fo" "L + 20 \<le> 441" "2 \<le> n"
  shows "solves (transform_vars_brs p) n (L + 20) (\<lambda>x. F (brs_point n x)) (origin n) fo"
  using transform_vars_brs_gives [OF solvedD(1) [OF assms(1)] assms(2,3)] solvedD(2) [OF assms(1)]
  by (intro gives_solves) auto

lemma solved_vars_asymmetric:
  assumes "solved p n L F (origin n) fo" "L + 27 \<le> 441" "2 \<le> n"
  shows "solves (transform_vars_asymmetric p (Real beta)) n (L + 27)
    (\<lambda>x. F (asymmetric_point beta n x)) (origin n) fo"
  using transform_vars_asymmetric_gives [OF solvedD(1) [OF assms(1)] assms(2,3)] solvedD(2) [OF assms(1)]
  by (intro gives_solves) auto

text \<open>\<open>M\<close> is a matrix of doubles that are finite, the real matrix is \<open>M'\<close>.\<close>

lemma solved_vars_affine:
  assumes "solved p n L F (origin n) fo" "L + 23 \<le> 441" "M = map Real M'" "length M' = n * n"
  shows "solves (transform_vars_affine p M (zero n) n) n (L + 23)
    (\<lambda>x. F (affine_point M' (origin n) n x)) (origin n) fo"
  using transform_vars_affine_origin_gives [OF solvedD(1) [OF assms(1)] assms(2,4)] solvedD(2) [OF assms(1)] assms(3)
  by (intro gives_solves) (simp_all add: map_replicate_const)

lemma solved_vars_permutation:
  assumes "solved p n L F (origin n) fo" "L + 28 \<le> 441" "length P = n" "\<forall>i < n. P ! i < n"
  shows "solves (transform_vars_permutation p P n) n (L + 28)
    (\<lambda>x. F (map (\<lambda>i. x ! (P ! i)) [0..<n])) (origin n) fo"
proof -
  have "map (\<lambda>i. origin n ! (P ! i)) [0..<n] = origin n" using assms(4) by (auto intro: nth_equalityI)
  then show ?thesis
    using transform_vars_permutation_gives [OF solvedD(1) [OF assms(1)] assms(2-4)] solvedD(2) [OF assms(1)]
    by (intro gives_solves) auto
qed

section \<open>Setting the best parameter and naming\<close>

lemma erase_set_best:
  assumes "evaluate_function (fields p) \<noteq> Some (Evaluate_raw Linear_slope)"
  shows "erase (set_best_parameter x p) = erase p"
  using assms by (cases p) (simp_all add: set_best_parameter_def behaviour_def)

lemma set_best_parameter_new:
  assumes "new_problem p n L F best fo" "length best' = n"
    and "evaluate_function (fields p) \<noteq> Some (Evaluate_raw Linear_slope)"
  shows "new_problem (set_best_parameter (map Real best') p) n L F best' fo"
proof -
  obtain s where s: "problem_name (fields p) = Some s" "length s \<le> L"
    using assms(1) by (auto simp: new_problem_def objective_problem_def well_formed_def)
  have "problem_name (fields (set_best_parameter (map Real best') p)) = Some s"
    "best_parameter (fields (set_best_parameter (map Real best') p)) = Some (map Real best')"
    using s(1) by (simp_all add: set_best_parameter_def)
  moreover have "objective_problem p n L F best fo" using assms(1) by (simp add: new_problem_def)
  ultimately have "objective_problem (set_best_parameter (map Real best') p) n L F best' fo"
    using objective_problem_erase erase_set_best [OF assms(3)] s(2) assms(2) by blast
  moreover have "fresh (fields (set_best_parameter (map Real best') p))"
    using assms(1) by (simp add: new_problem_def set_best_parameter_def fresh_def)
  ultimately show ?thesis by (simp add: new_problem_def)
qed

lemma format_lu_steps:
  "format_lu [] vs = []"
  "c \<noteq> CHR ''%'' \<Longrightarrow> format_lu (c # s) vs = c # format_lu s vs"
  "format_lu (CHR ''%'' # CHR ''l'' # CHR ''u'' # s) (v # vs) = show_nat v @ format_lu s vs"
  "format_lu (CHR ''%'' # CHR ''0'' # d # CHR ''l'' # CHR ''u'' # s) (v # vs)
     = pad (of_char d - 48) (show_nat v) @ format_lu s vs"
proof -
  show "format_lu [] vs = []" by (subst format_lu.simps) simp
  show "c \<noteq> CHR ''%'' \<Longrightarrow> format_lu (c # s) vs = c # format_lu s vs" by (subst format_lu.simps) simp
  show "format_lu (CHR ''%'' # CHR ''l'' # CHR ''u'' # s) (v # vs) = show_nat v @ format_lu s vs"
    by (subst format_lu.simps) simp
  show "format_lu (CHR ''%'' # CHR ''0'' # d # CHR ''l'' # CHR ''u'' # s) (v # vs)
      = pad (of_char d - 48) (show_nat v) @ format_lu s vs"
    by (subst format_lu.simps) (simp add: numeral_eq_Suc)
qed

lemma bbob_id:
  "format_lu bbob_id_template [f, i, d] = ''bbob_f'' @ pad 3 (show_nat f) @ ''_i'' @ pad 2 (show_nat i)
     @ ''_d'' @ pad 2 (show_nat d)"
  by (simp add: bbob_id_template_def format_lu_steps)

lemma bbob_name:
  "format_lu bbob_name_template [f, i, d] = ''BBOB suite problem f'' @ show_nat f @ '' instance ''
     @ show_nat i @ '' in '' @ show_nat d @ ''D''"
  by (simp add: bbob_name_template_def format_lu_steps)

lemma not_large_scale: "large_scale bbob_name_template = Inr False"
  by code_simp

lemma norm_not_large_scale [simp]: "norm_if_large_scale bbob_name_template p = Inr p"
  by (simp add: norm_if_large_scale_def not_large_scale)

lemma solved_name_problem:
  assumes "solved p n L F best fo" "f < 10 ^ 20" "i < 10 ^ 20" "d < 10 ^ 20" "length ptype \<le> 30"
  shows "solves (name_problem bbob_id_template bbob_name_template ptype f i d p) n 110 F best fo"
proof -
  let ?f = "fields p" and ?id = "format_lu bbob_id_template [f, i, d]"
    and ?name = "format_lu bbob_name_template [f, i, d]"
  have len: "length (show_nat f) \<le> 20" "length (show_nat i) \<le> 20" "length (show_nat d) \<le> 20"
    using length_show_nat [of _ 20] assms(2-4) by simp_all
  then have "length ?id \<le> 100" "length ?name \<le> 110" by (simp_all add: bbob_id bbob_name length_pad)
  moreover have "coco_problem_id_is_fine ?id"
    unfolding bbob_id using digits_fine by (simp add: coco_problem_id_is_fine_def isalpha_def)
  moreover have "length bbob_id_template = 25" "length bbob_name_template = 44"
    by (simp_all add: bbob_id_template_def bbob_name_template_def)
  ultimately have "name_problem bbob_id_template bbob_name_template ptype f i d p
      = Inr (with_fields (\<lambda>_. ?f\<lparr>problem_id := Some ?id, problem_name := Some ?name, problem_type := Some ptype\<rparr>) p)"
    using assms(5)
    by (simp add: name_problem_def Let_def coco_problem_set_id_def coco_problem_set_name_def coco_problem_set_type_def
        coco_vstrdupf_def COCO_VSTRDUPF_BUFLEN_def)
  moreover let ?q = "with_fields (\<lambda>_. ?f\<lparr>problem_id := Some ?id, problem_name := Some ?name, problem_type := Some ptype\<rparr>) p"
  have e: "erase ?q = erase p" by (cases p) (simp_all add: behaviour_def)
  have o: "objective_problem p n L F best fo" using assms(1) by (simp add: solved_def new_problem_def)
  have "problem_name (fields ?q) = Some ?name" "best_parameter (fields ?q) = Some (map Real best)"
    using new_problemD(6) [OF solvedD(1) [OF assms(1)]] by simp_all
  then have "objective_problem ?q n 110 F best fo"
    using objective_problem_erase [OF o e] \<open>length ?name \<le> 110\<close> solvedD(3) [OF assms(1)] by blast
  then have "solved ?q n 110 F best fo"
    using solvedD [OF assms(1)] by (simp add: solved_def new_problem_def fresh_def)
  ultimately show ?thesis by (simp add: solves_def)
qed

end
