(* ===== verification/Coco_Bbob_Solved.thy ===== *)
theory Coco_Bbob_Solved
  imports Coco_Solved_Steps
begin

text \<open>
  The bbob problems that are compositions of transformations are solved problems: their construction
  succeeds and gives a problem that implements the composed function, whose minimum, the value of
  \<open>bbob2009_compute_fopt\<close>, is attained at the best parameter.
\<close>

section \<open>Instances\<close>

definition instance_data :: "nat \<Rightarrow> nat \<Rightarrow> int \<Rightarrow> nat \<Rightarrow> real list \<Rightarrow> real \<Rightarrow> bool" where
  "instance_data f i s n xopt fo \<longleftrightarrow> 2 \<le> n \<and> n \<le> 44 \<and> f < 10 ^ 20 \<and> i < 10 ^ 20
     \<and> optimum s n = Inr (map Real xopt) \<and> length xopt = n \<and> (\<forall>v \<in> set xopt. \<bar>v\<bar> \<le> 4)
     \<and> bbob2009_compute_fopt f i = Inr (Real fo)"

lemma instance_dataD:
  assumes "instance_data f i s n xopt fo"
  shows "2 \<le> n" "n < 100" "n < 10 ^ 20" "f < 10 ^ 20" "i < 10 ^ 20" "optimum s n = Inr (map Real xopt)"
    "length xopt = n" "\<forall>v \<in> set xopt. \<bar>v\<bar> \<le> 4" "bbob2009_compute_fopt f i = Inr (Real fo)"
    "coco_allocate_vector n = Inr (replicate n NaN)" "0 < n"
  using assms by (auto simp: instance_data_def coco_allocate_vector_def)

definition rotation_data :: "int \<Rightarrow> nat \<Rightarrow> double list list \<Rightarrow> real list list \<Rightarrow> bool" where
  "rotation_data s n rot rs \<longleftrightarrow> bbob2009_compute_rotation s n = Inr rot \<and> finite_rotation n rot rs"

lemma rotation_entry: "rotation_data s n rot rs \<Longrightarrow> i < n \<Longrightarrow> j < n \<Longrightarrow> entry rot i j = Real (rs ! j ! i)"
  by (auto simp: rotation_data_def intro: finite_rotation_entry)

section \<open>Matrices\<close>

definition real_matrix :: "nat \<Rightarrow> (nat \<Rightarrow> nat \<Rightarrow> real) \<Rightarrow> real list" where
  "real_matrix n g = concat (map (\<lambda>i. map (g i) [0..<n]) [0..<n])"

lemma length_real_matrix [simp]: "length (real_matrix n g) = n * n"
  by (simp add: real_matrix_def length_matrix)

lemma row_matrix_Real:
  assumes "\<And>i j. i < n \<Longrightarrow> j < n \<Longrightarrow> f i j = Real (g i j)"
  shows "row_matrix n f = map Real (real_matrix n g)"
proof -
  have "map (\<lambda>i. map (f i) [0..<n]) [0..<n] = map (\<lambda>i. map (\<lambda>j. Real (g i j)) [0..<n]) [0..<n]"
    by (intro map_cong [OF refl]) (simp add: assms)
  then show ?thesis by (simp only: row_matrix_def real_matrix_def map_concat map_map comp_def)
qed

definition rotation_matrix :: "nat \<Rightarrow> real list list \<Rightarrow> real list" where
  "rotation_matrix n rs = real_matrix n (\<lambda>i j. rs ! j ! i)"

definition product_matrix :: "nat \<Rightarrow> real list list \<Rightarrow> real \<Rightarrow> real list list \<Rightarrow> real list" where
  "product_matrix n rs1 base rs2 = real_matrix n (\<lambda>i j.
     \<Sum>k = 0..<n. rs1 ! k ! i * base powr (real k / (real n - 1)) * rs2 ! j ! k)"

definition scaled_matrix :: "nat \<Rightarrow> real list list \<Rightarrow> real \<Rightarrow> real list" where
  "scaled_matrix n rs base = real_matrix n (\<lambda>i j. rs ! j ! i * base powr (real i / (real n - 1)))"

lemma rotation_matrix_Real:
  assumes "rotation_data s n rot rs"
  shows "fst (bbob2009_copy_rotation_matrix rot n) = map Real (rotation_matrix n rs)"
  using row_matrix_Real [of n "entry rot" "\<lambda>i j. rs ! j ! i"] rotation_entry [OF assms]
  by (simp add: bbob2009_copy_rotation_matrix_def row_matrix_def rotation_matrix_def)

lemma conditioned_rotation_Real:
  assumes "rotation_data s1 n rot1 rs1" "rotation_data s2 n rot2 rs2" "2 \<le> n" "0 < base"
  shows "conditioned_rotation rot1 (Real base) rot2 n = map Real (product_matrix n rs1 base rs2)"
  unfolding conditioned_rotation_def product_matrix_def
proof (rule row_matrix_Real)
  fix i j assume ij: "i < n" "j < n"
  have "accumulate (Real 0) [0..<n] (\<lambda>k. entry rot1 i k * dpow (Real base) (position_ratio k n) * entry rot2 k j)
      = Real (0 + (\<Sum>k = 0..<n. rs1 ! k ! i * base powr (real k / (real n - 1)) * rs2 ! j ! k))"
    by (rule accumulate_upt)
      (use assms(3,4) ij in \<open>simp add: rotation_entry [OF assms(1)] rotation_entry [OF assms(2)] ratio_Real\<close>)
  then show "accumulate (Real 0) [0..<n] (\<lambda>k. entry rot1 i k * dpow (Real base) (position_ratio k n) * entry rot2 k j)
      = Real (\<Sum>k = 0..<n. rs1 ! k ! i * base powr (real k / (real n - 1)) * rs2 ! j ! k)" by simp
qed

lemma scaled_rotation_Real:
  assumes "rotation_data s n rot rs" "2 \<le> n" "0 < base"
  shows "row_matrix n (\<lambda>i j. entry rot i j * dpow (Real base) (position_ratio i n)) = map Real (scaled_matrix n rs base)"
  unfolding scaled_matrix_def
  by (rule row_matrix_Real) (use assms(2,3) in \<open>simp add: rotation_entry [OF assms(1)] ratio_Real\<close>)

section \<open>Points\<close>

lemma unshift_origin [simp]: "length xopt = n \<Longrightarrow> unshift_point xopt (origin n) = xopt"
  by (auto simp: unshift_point_def intro: nth_equalityI)

lemma bound_4_5: "\<forall>v \<in> set x. \<bar>v\<bar> \<le> 4 \<Longrightarrow> \<forall>v \<in> set x. \<bar>v :: real\<bar> \<le> 5"
  by force

definition even_abs :: "real list \<Rightarrow> real list" where
  "even_abs x = map (\<lambda>i. if i mod 2 = 0 then \<bar>x ! i\<bar> else x ! i) [0..<length x]"

lemma even_abs_Real:
  "length x = n \<Longrightarrow> map (\<lambda>i. if i mod 2 = 0 then \<bar>map Real x ! i\<bar> else map Real x ! i) [0..<n] = map Real (even_abs x)"
  by (auto simp: even_abs_def)

lemma even_abs_bound: "\<forall>v \<in> set x. \<bar>v\<bar> \<le> c \<Longrightarrow> \<forall>v \<in> set (even_abs x). \<bar>v\<bar> \<le> c"
  by (auto simp: even_abs_def nth_mem)

lemma length_even_abs [simp]: "length (even_abs x) = length x"
  by (simp add: even_abs_def)

section \<open>Problems without rotations\<close>

lemma sphere_problem:
  assumes "instance_data f i s n xopt fo"
  shows "solves (f_sphere_bbob_problem_allocate f n i s bbob_id_template bbob_name_template) n 110
    (\<lambda>x. sphere_value (shift_point xopt x) + fo) xopt fo"
  apply (rule solves_eq)
  apply (simp add: f_sphere_bbob_problem_allocate_def instance_dataD [OF assms(1)])
  apply (rule solves_bind, rule basic_solves(1) [OF instance_dataD(1,2) [OF assms(1)]])
  apply (rule solves_bind, erule solved_vars_shift, simp, rule instance_dataD(7) [OF assms(1)])
  apply (rule solves_bind, erule solved_obj_shift, simp)
  apply (erule solved_name_problem, (rule instance_dataD [OF assms(1)])+, simp)
  apply (simp_all add: instance_dataD [OF assms(1)])
  done

lemma ellipsoid_problem:
  assumes "instance_data f i s n xopt fo"
  shows "solves (f_ellipsoid_bbob_problem_allocate f n i s bbob_id_template bbob_name_template) n 110
    (\<lambda>x. ellipsoid_value (map oscillation (shift_point xopt x)) + fo) xopt fo"
  apply (rule solves_eq)
  apply (simp add: f_ellipsoid_bbob_problem_allocate_def instance_dataD [OF assms(1)])
  apply (rule solves_bind, rule basic_solves(2) [OF instance_dataD(1,2) [OF assms(1)]])
  apply (rule solves_bind, erule solved_vars_oscillate, simp)
  apply (rule solves_bind, erule solved_vars_shift, simp, rule instance_dataD(7) [OF assms(1)])
  apply (rule solves_bind, erule solved_obj_shift, simp)
  apply (erule solved_name_problem, (rule instance_dataD [OF assms(1)])+, simp)
  apply (simp_all add: instance_dataD [OF assms(1)])
  done

lemma rastrigin_problem:
  assumes "instance_data f i s n xopt fo"
  shows "solves (f_rastrigin_bbob_problem_allocate f n i s bbob_id_template bbob_name_template) n 110
    (\<lambda>x. rastrigin_value (condition_point 10 n (asymmetric_point (2 / 10) n (map oscillation (shift_point xopt x)))) + fo) xopt fo"
  apply (rule solves_eq)
  apply (simp add: f_rastrigin_bbob_problem_allocate_def instance_dataD [OF assms(1)])
  apply (rule solves_bind, rule basic_solves(3) [OF instance_dataD(1,2) [OF assms(1)]])
  apply (rule solves_bind, erule solved_vars_conditioning, simp, rule instance_dataD(1) [OF assms(1)], simp)
  apply (rule solves_bind, erule solved_vars_asymmetric, simp, rule instance_dataD(1) [OF assms(1)])
  apply (rule solves_bind, erule solved_vars_oscillate, simp)
  apply (rule solves_bind, erule solved_vars_shift, simp, rule instance_dataD(7) [OF assms(1)])
  apply (rule solves_bind, erule solved_obj_shift, simp)
  apply (erule solved_name_problem, (rule instance_dataD [OF assms(1)])+, simp)
  apply (simp_all add: instance_dataD [OF assms(1)])
  done

lemma bueche_rastrigin_problem:
  assumes "instance_data f i s n xopt fo"
  shows "solves (f_bueche_rastrigin_bbob_problem_allocate f n i s bbob_id_template bbob_name_template) n 110
    (\<lambda>x. rastrigin_value (brs_point n (map oscillation (shift_point (even_abs xopt) x))) + fo + 100 * region_penalty x) (even_abs xopt) fo"
  apply (rule solves_eq)
  apply (simp add: f_bueche_rastrigin_bbob_problem_allocate_def instance_dataD [OF assms(1)] even_abs_Real)
  apply (rule solves_bind, rule basic_solves(4) [OF instance_dataD(1,2) [OF assms(1)]])
  apply (rule solves_bind, erule solved_vars_brs, simp, rule instance_dataD(1) [OF assms(1)])
  apply (rule solves_bind, erule solved_vars_oscillate, simp)
  apply (rule solves_bind, erule solved_vars_shift, simp, simp add: instance_dataD(7) [OF assms(1)])
  apply (rule solves_bind, erule solved_obj_shift, simp)
  apply (rule solves_bind, erule solved_obj_penalize, simp, simp, simp add: instance_dataD(7) [OF assms(1)] even_abs_bound [OF bound_4_5 [OF instance_dataD(8) [OF assms(1)]]])
  apply (erule solved_name_problem, (rule instance_dataD [OF assms(1)])+, simp)
  apply (simp_all add: instance_dataD [OF assms(1)])
  done

lemma linear_slope_problem:
  assumes "instance_data f i s n xopt fo"
  shows "solves (f_linear_slope_bbob_problem_allocate f n i s bbob_id_template bbob_name_template) n 110
    (\<lambda>x. linear_slope_value (slope_corner xopt) x + fo) (slope_corner xopt) fo"
  apply (rule solves_eq)
  apply (simp add: f_linear_slope_bbob_problem_allocate_def instance_dataD [OF assms(1)])
  apply (rule solves_bind, rule linear_slope_solves [OF instance_dataD(1,2,7) [OF assms(1)]])
  apply (rule solves_bind, erule solved_obj_shift, simp)
  apply (erule solved_name_problem, (rule instance_dataD [OF assms(1)])+, simp)
  apply (simp_all add: instance_dataD [OF assms(1)])
  done

section \<open>Problems with rotations\<close>

lemma ellipsoid_rotated_problem:
  assumes "instance_data f i s n xopt fo" "rotation_data (s + 1000000) n rot1 rs1"
  shows "solves (f_ellipsoid_rotated_bbob_problem_allocate f n i s bbob_id_template bbob_name_template) n 110
    (\<lambda>x. ellipsoid_value (map oscillation (affine_point (rotation_matrix n rs1) (origin n) n (shift_point xopt x))) + fo) xopt fo"
  apply (rule solves_eq)
  apply (simp add: f_ellipsoid_rotated_bbob_problem_allocate_def instance_dataD [OF assms(1)] rotation_data_def [THEN iffD1, THEN conjunct1, OF assms(2)])
  apply (rule solves_bind, rule basic_solves(2) [OF instance_dataD(1,2) [OF assms(1)]])
  apply (rule solves_bind, erule solved_vars_oscillate, simp)
  apply (rule solves_bind, erule solved_vars_affine, simp, rule rotation_matrix_Real [OF assms(2)], simp add: rotation_matrix_def)
  apply (rule solves_bind, erule solved_vars_shift, simp, rule instance_dataD(7) [OF assms(1)])
  apply (rule solves_bind, erule solved_obj_shift, simp)
  apply (erule solved_name_problem, (rule instance_dataD [OF assms(1)])+, simp)
  apply (simp_all add: instance_dataD [OF assms(1)])
  done

lemma discus_problem:
  assumes "instance_data f i s n xopt fo" "rotation_data (s + 1000000) n rot1 rs1"
  shows "solves (f_discus_bbob_problem_allocate f n i s bbob_id_template bbob_name_template) n 110
    (\<lambda>x. discus_value (map oscillation (affine_point (rotation_matrix n rs1) (origin n) n (shift_point xopt x))) + fo) xopt fo"
  apply (rule solves_eq)
  apply (simp add: f_discus_bbob_problem_allocate_def instance_dataD [OF assms(1)] rotation_data_def [THEN iffD1, THEN conjunct1, OF assms(2)])
  apply (rule solves_bind, rule basic_solves(6) [OF instance_dataD(1,2) [OF assms(1)]])
  apply (rule solves_bind, erule solved_vars_oscillate, simp)
  apply (rule solves_bind, erule solved_vars_affine, simp, rule rotation_matrix_Real [OF assms(2)], simp add: rotation_matrix_def)
  apply (rule solves_bind, erule solved_vars_shift, simp, rule instance_dataD(7) [OF assms(1)])
  apply (rule solves_bind, erule solved_obj_shift, simp)
  apply (erule solved_name_problem, (rule instance_dataD [OF assms(1)])+, simp)
  apply (simp_all add: instance_dataD [OF assms(1)])
  done

lemma different_powers_problem:
  assumes "instance_data f i s n xopt fo" "rotation_data (s + 1000000) n rot1 rs1"
  shows "solves (f_different_powers_bbob_problem_allocate f n i s bbob_id_template bbob_name_template) n 110
    (\<lambda>x. different_powers_value (affine_point (rotation_matrix n rs1) (origin n) n (shift_point xopt x)) + fo) xopt fo"
  apply (rule solves_eq)
  apply (simp add: f_different_powers_bbob_problem_allocate_def instance_dataD [OF assms(1)] rotation_data_def [THEN iffD1, THEN conjunct1, OF assms(2)])
  apply (rule solves_bind, rule basic_solves(9) [OF instance_dataD(1,2) [OF assms(1)]])
  apply (rule solves_bind, erule solved_obj_shift, simp)
  apply (rule solves_bind, erule solved_vars_affine, simp, rule rotation_matrix_Real [OF assms(2)], simp add: rotation_matrix_def)
  apply (rule solves_bind, erule solved_vars_shift, simp, rule instance_dataD(7) [OF assms(1)])
  apply (erule solved_name_problem, (rule instance_dataD [OF assms(1)])+, simp)
  apply (simp_all add: instance_dataD [OF assms(1)])
  done

lemma sharp_ridge_problem:
  assumes "instance_data f i s n xopt fo" "rotation_data (s + 1000000) n rot1 rs1" "rotation_data s n rot2 rs2"
  shows "solves (f_sharp_ridge_bbob_problem_allocate f n i s bbob_id_template bbob_name_template) n 110
    (\<lambda>x. sharp_ridge_value (affine_point (product_matrix n rs1 (sqrt 10) rs2) (origin n) n (shift_point xopt x)) + fo) xopt fo"
  apply (rule solves_eq)
  apply (simp add: f_sharp_ridge_bbob_problem_allocate_def instance_dataD [OF assms(1)] rotation_data_def [THEN iffD1, THEN conjunct1, OF assms(2)] rotation_data_def [THEN iffD1, THEN conjunct1, OF assms(3)])
  apply (rule solves_bind, rule basic_solves(8) [OF instance_dataD(1,2) [OF assms(1)]])
  apply (rule solves_bind, erule solved_obj_shift, simp)
  apply (rule solves_bind, erule solved_vars_affine, simp, rule conditioned_rotation_Real [OF assms(2,3) instance_dataD(1) [OF assms(1)]], simp, simp add: product_matrix_def)
  apply (rule solves_bind, erule solved_vars_shift, simp, rule instance_dataD(7) [OF assms(1)])
  apply (erule solved_name_problem, (rule instance_dataD [OF assms(1)])+, simp)
  apply (simp_all add: instance_dataD [OF assms(1)])
  done

lemma rastrigin_rotated_problem:
  assumes "instance_data f i s n xopt fo" "rotation_data (s + 1000000) n rot1 rs1" "rotation_data s n rot2 rs2"
  shows "solves (f_rastrigin_rotated_bbob_problem_allocate f n i s bbob_id_template bbob_name_template) n 110
    (\<lambda>x. rastrigin_value (affine_point (product_matrix n rs1 (sqrt 10) rs2) (origin n) n (asymmetric_point (2 / 10) n (map oscillation (affine_point (rotation_matrix n rs1) (origin n) n (shift_point xopt x))))) + fo) xopt fo"
  apply (rule solves_eq)
  apply (simp add: f_rastrigin_rotated_bbob_problem_allocate_def instance_dataD [OF assms(1)] rotation_data_def [THEN iffD1, THEN conjunct1, OF assms(2)] rotation_data_def [THEN iffD1, THEN conjunct1, OF assms(3)])
  apply (rule solves_bind, rule basic_solves(3) [OF instance_dataD(1,2) [OF assms(1)]])
  apply (rule solves_bind, erule solved_obj_shift, simp)
  apply (rule solves_bind, erule solved_vars_affine, simp, rule conditioned_rotation_Real [OF assms(2,3) instance_dataD(1) [OF assms(1)]], simp, simp add: product_matrix_def)
  apply (rule solves_bind, erule solved_vars_asymmetric, simp, rule instance_dataD(1) [OF assms(1)])
  apply (rule solves_bind, erule solved_vars_oscillate, simp)
  apply (rule solves_bind, erule solved_vars_affine, simp, rule rotation_matrix_Real [OF assms(2)], simp add: rotation_matrix_def)
  apply (rule solves_bind, erule solved_vars_shift, simp, rule instance_dataD(7) [OF assms(1)])
  apply (erule solved_name_problem, (rule instance_dataD [OF assms(1)])+, simp)
  apply (simp_all add: instance_dataD [OF assms(1)])
  done

lemma attractive_sector_problem:
  assumes "instance_data f i s n xopt fo" "rotation_data (s + 1000000) n rot1 rs1" "rotation_data s n rot2 rs2"
  shows "solves (f_attractive_sector_bbob_problem_allocate f n i s bbob_id_template bbob_name_template) n 110
    (\<lambda>x. oscillation (attractive_sector_value xopt (affine_point (product_matrix n rs1 (sqrt 10) rs2) (origin n) n (shift_point xopt x))) powr (9 / 10) + fo) xopt fo"
  apply (rule solves_eq)
  apply (simp add: f_attractive_sector_bbob_problem_allocate_def instance_dataD [OF assms(1)] rotation_data_def [THEN iffD1, THEN conjunct1, OF assms(2)] rotation_data_def [THEN iffD1, THEN conjunct1, OF assms(3)])
  apply (rule solves_bind, rule attractive_sector_solves [OF instance_dataD(1,2,7) [OF assms(1)]])
  apply (rule solves_bind, erule solved_obj_oscillate, simp)
  apply (rule solves_bind, erule solved_obj_power, simp, simp, simp)
  apply (rule solves_bind, erule solved_obj_shift, simp)
  apply (rule solves_bind, erule solved_vars_affine, simp, rule conditioned_rotation_Real [OF assms(2,3) instance_dataD(1) [OF assms(1)]], simp, simp add: product_matrix_def)
  apply (rule solves_bind, erule solved_vars_shift, simp, rule instance_dataD(7) [OF assms(1)])
  apply (erule solved_name_problem, (rule instance_dataD [OF assms(1)])+, simp)
  apply (simp_all add: instance_dataD [OF assms(1)])
  done

lemma weierstrass_problem:
  assumes "instance_data f i s n xopt fo" "rotation_data (s + 1000000) n rot1 rs1" "rotation_data s n rot2 rs2"
  shows "solves (f_weierstrass_bbob_problem_allocate f n i s bbob_id_template bbob_name_template) n 110
    (\<lambda>x. weierstrass_value (affine_point (product_matrix n rs1 (1 / sqrt 100) rs2) (origin n) n (map oscillation (affine_point (rotation_matrix n rs1) (origin n) n (shift_point xopt x)))) + fo + 10 / real n * region_penalty x) xopt fo"
  apply (rule solves_eq)
  apply (simp add: f_weierstrass_bbob_problem_allocate_def instance_dataD [OF assms(1)] rotation_data_def [THEN iffD1, THEN conjunct1, OF assms(2)] rotation_data_def [THEN iffD1, THEN conjunct1, OF assms(3)])
  apply (rule solves_bind, rule weierstrass_solves [OF instance_dataD(1,2) [OF assms(1)]])
  apply (rule solves_bind, erule solved_obj_shift, simp)
  apply (rule solves_bind, erule solved_vars_affine, simp, rule conditioned_rotation_Real [OF assms(2,3) instance_dataD(1) [OF assms(1)]], simp, simp add: product_matrix_def)
  apply (rule solves_bind, erule solved_vars_oscillate, simp)
  apply (rule solves_bind, erule solved_vars_affine, simp, rule rotation_matrix_Real [OF assms(2)], simp add: rotation_matrix_def)
  apply (rule solves_bind, erule solved_vars_shift, simp, rule instance_dataD(7) [OF assms(1)])
  apply (rule solves_bind, erule solved_obj_penalize, simp, simp, simp add: instance_dataD(7) [OF assms(1)] bound_4_5 [OF instance_dataD(8) [OF assms(1)]])
  apply (erule solved_name_problem, (rule instance_dataD [OF assms(1)])+, simp)
  apply (simp_all add: instance_dataD [OF assms(1)])
  done

lemma schaffers_problem:
  assumes "instance_data f i s n xopt fo" "rotation_data (s + 1000000) n rot1 rs1" "rotation_data s n rot2 rs2" "0 < c"
  shows "solves (f_schaffers_bbob_problem_allocate (Real c) f n i s bbob_id_template bbob_name_template) n 110
    (\<lambda>x. schaffers_value (affine_point (scaled_matrix n rs2 (sqrt c)) (origin n) n (asymmetric_point (1 / 2) n (affine_point (rotation_matrix n rs1) (origin n) n (shift_point xopt x)))) + fo + 10 * region_penalty x) xopt fo"
  apply (rule solves_eq)
  apply (simp add: f_schaffers_bbob_problem_allocate_def instance_dataD [OF assms(1)] rotation_data_def [THEN iffD1, THEN conjunct1, OF assms(2)] rotation_data_def [THEN iffD1, THEN conjunct1, OF assms(3)] leD [OF less_imp_le [OF assms(4)]])
  apply (rule solves_bind, rule basic_solves(12) [OF instance_dataD(1,2) [OF assms(1)]])
  apply (rule solves_bind, erule solved_obj_shift, simp)
  apply (rule solves_bind, erule solved_vars_affine, simp, rule scaled_rotation_Real [OF assms(3) instance_dataD(1) [OF assms(1)]], simp add: assms(4), simp add: scaled_matrix_def)
  apply (rule solves_bind, erule solved_vars_asymmetric, simp, rule instance_dataD(1) [OF assms(1)])
  apply (rule solves_bind, erule solved_vars_affine, simp, rule rotation_matrix_Real [OF assms(2)], simp add: rotation_matrix_def)
  apply (rule solves_bind, erule solved_vars_shift, simp, rule instance_dataD(7) [OF assms(1)])
  apply (rule solves_bind, erule solved_obj_penalize, simp, simp, simp add: instance_dataD(7) [OF assms(1)] bound_4_5 [OF instance_dataD(8) [OF assms(1)]])
  apply (erule solved_name_problem, (rule instance_dataD [OF assms(1)])+, simp)
  apply (simp_all add: instance_dataD [OF assms(1)])
  done

lemma katsuura_problem:
  assumes "instance_data f i s n xopt fo" "rotation_data (s + 1000000) n rot1 rs1" "rotation_data s n rot2 rs2"
  shows "solves (f_katsuura_bbob_problem_allocate f n i s bbob_id_template bbob_name_template) n 110
    (\<lambda>x. katsuura_value (affine_point (product_matrix n rs1 (sqrt 100) rs2) (origin n) n (shift_point xopt x)) + fo + 1 * region_penalty x) xopt fo"
  apply (rule solves_eq)
  apply (simp add: f_katsuura_bbob_problem_allocate_def instance_dataD [OF assms(1)] rotation_data_def [THEN iffD1, THEN conjunct1, OF assms(2)] rotation_data_def [THEN iffD1, THEN conjunct1, OF assms(3)])
  apply (rule solves_bind, rule basic_solves(11) [OF instance_dataD(1,2) [OF assms(1)]])
  apply (rule solves_bind, erule solved_obj_shift, simp)
  apply (rule solves_bind, erule solved_vars_affine, simp, rule conditioned_rotation_Real [OF assms(2,3) instance_dataD(1) [OF assms(1)]], simp, simp add: product_matrix_def)
  apply (rule solves_bind, erule solved_vars_shift, simp, rule instance_dataD(7) [OF assms(1)])
  apply (rule solves_bind, erule solved_obj_penalize, simp, simp, simp add: instance_dataD(7) [OF assms(1)] bound_4_5 [OF instance_dataD(8) [OF assms(1)]])
  apply (erule solved_name_problem, (rule instance_dataD [OF assms(1)])+, simp)
  apply (simp_all add: instance_dataD [OF assms(1)])
  done

end
