(* ===== verification/Coco_Bbob_Rosenbrock.thy ===== *)
theory Coco_Bbob_Rosenbrock
  imports Coco_Bbob_Solved
begin

text \<open>
  The problems built on Rosenbrock's function and the bent cigar: the rotated Rosenbrock and the
  Griewank-Rosenbrock problem set their best parameter by hand, to half the column sums of the
  rotation, which the affine transformation maps to the minimum because the rows are orthonormal too.
\<close>

section \<open>Setting the best parameter by hand\<close>

lemma solves_bind_eq:
  assumes "solves r n L F best fo" "\<And>p. r = Inr p \<Longrightarrow> solved p n L F best fo \<Longrightarrow> solves (k p) n L' F' best' fo'"
  shows "solves (rbind r k) n L' F' best' fo'"
  using assms by (auto simp: solves_def)

definition free_best :: "coco_problem_t \<Rightarrow> bool" where
  "free_best p \<longleftrightarrow> evaluate_function (fields p) \<noteq> Some (Evaluate_raw Linear_slope)"

lemma set_best_parameter_solved:
  assumes "new_problem p n L F best0 fo" "free_best p" "length best = n" "F best = fo"
  shows "solved (set_best_parameter (map Real best) p) n L F best fo"
  using set_best_parameter_new [OF assms(1,3)] assms(2,4) by (simp add: solved_def free_best_def)

lemma set_best_parameter_fields [simp]:
  "evaluate_function (fields (set_best_parameter x p)) = evaluate_function (fields p)"
  "number_of_objectives (fields (set_best_parameter x p)) = number_of_objectives (fields p)"
  by (simp_all add: set_best_parameter_def)

lemma rosenbrock_free:
  "f_rosenbrock_allocate n = Inr p \<Longrightarrow> free_best p"
  "f_griewank_rosenbrock_allocate n = Inr p \<Longrightarrow> free_best p"
  by (auto simp: f_rosenbrock_allocate_def f_griewank_rosenbrock_allocate_def allocate_basic_def
      coco_problem_allocate_from_scalars_def coco_problem_allocate_def coco_problem_set_id_def
      evaluate_at_best_def set_best_value_at_def free_best_def Let_def rbind_eq_Inr split: if_splits option.splits)

lemma solved_objectives: "solved p n L F best fo \<Longrightarrow> number_of_objectives (fields p) = 1"
  by (simp add: solved_def new_problem_def objective_problem_def well_formed_def shape_def)

lemma transformed_free:
  "transform_obj_shift p c = Inr q \<Longrightarrow> number_of_objectives (fields p) = 1 \<Longrightarrow> free_best q"
  "transform_vars_shift p x False = Inr q \<Longrightarrow> number_of_objectives (fields p) = 1 \<Longrightarrow> free_best q"
  "transform_vars_affine p M v n = Inr q \<Longrightarrow> number_of_objectives (fields p) = 1 \<Longrightarrow> free_best q"
  by (auto simp: transform_obj_shift_def transform_vars_shift_def transform_vars_affine_def own_function_def own_constraint_def
      set_best_value_def set_best_parameter_def free_best_def Let_def rbind_eq_Inr split: if_splits option.splits)

section \<open>Factors and sums\<close>

text \<open>The factor \<open>max 1 (sqrt n / 8)\<close> is 1 for at most 64 variables; rotations exist for at most 44.\<close>

lemma factor_one:
  assumes "n \<le> 44"
  shows "dmax (Real 1) (ddiv (dsqrt (Real (real n))) (Real 8)) = Real 1"
proof -
  have "sqrt (real n) \<le> sqrt (8\<^sup>2)" using assms by (intro real_sqrt_le_mono) simp
  then have "sqrt (real n) / 8 \<le> 1" by simp
  then have m: "max 1 (sqrt (real n) / 8) = 1" by (rule max_absorb1)
  have "dmax (Real 1) (ddiv (dsqrt (Real (real n))) (Real 8)) = Real (max 1 (sqrt (real n) / 8))" by simp
  then show ?thesis by (simp only: m)
qed

lemma rosenbrock_factor_one: "n \<le> 44 \<Longrightarrow> rosenbrock_factor bbob_name_template n = Inr (Real 1)"
  by (simp only: rosenbrock_factor_def not_large_scale rbind_simps if_False factor_one)

definition half_sums :: "nat \<Rightarrow> real list list \<Rightarrow> real list" where
  "half_sums n rs = map (\<lambda>j. (\<Sum>i = 0..<n. rs ! j ! i) / 2) [0..<n]"

lemma length_half_sums [simp]: "length (half_sums n rs) = n"
  by (simp add: half_sums_def)

lemma half_column_sums_Real:
  assumes "finite_rotation n rot rs"
  shows "half_column_sums rot (Real 1) n = map Real (half_sums n rs)"
proof -
  have "accumulate (Real 0) [0..<n] (\<lambda>i. entry rot i j) = Real (0 + (\<Sum>i = 0..<n. rs ! j ! i))" if "j < n" for j
    by (rule accumulate_upt) (simp add: finite_rotation_entry [OF assms] that)
  then show ?thesis by (simp add: half_column_sums_def half_sums_def)
qed

lemma affine_half_sums:
  assumes "finite_rotation n rot rs" "length b = n"
  shows "affine_point (rotation_matrix n rs) b n (half_sums n rs) = map (\<lambda>v. v + 1 / 2) b"
proof (rule nth_equalityI)
  fix i assume "i < length (affine_point (rotation_matrix n rs) b n (half_sums n rs))"
  then have i: "i < n" by (simp add: affine_point_def)
  have M: "rotation_matrix n rs ! (i * n + j) = rs ! j ! i" if "j < n" for j
    using nth_matrix [of i n j n "\<lambda>i j. rs ! j ! i"] i that by (simp add: rotation_matrix_def real_matrix_def)
  have "(\<Sum>j = 0..<n. half_sums n rs ! j * rotation_matrix n rs ! (i * n + j))
      = (\<Sum>j = 0..<n. \<Sum>l = 0..<n. rs ! j ! l * rs ! j ! i / 2)"
    by (intro sum.cong [OF refl]) (simp add: half_sums_def M sum_divide_distrib sum_distrib_right)
  also have "\<dots> = (\<Sum>l = 0..<n. \<Sum>j = 0..<n. rs ! j ! l * rs ! j ! i / 2)" by (rule sum.swap)
  also have "\<dots> = (\<Sum>l = 0..<n. (if l = i then 1 else 0) / 2)"
    by (intro sum.cong [OF refl])
      (simp add: finite_rotation_rows [OF assms(1) _ i, folded atLeast0LessThan] flip: sum_divide_distrib)
  also have "\<dots> = 1 / 2" using i by (simp flip: sum_divide_distrib)
  finally show "affine_point (rotation_matrix n rs) b n (half_sums n rs) ! i = map (\<lambda>v. v + 1 / 2) b ! i"
    using i assms(2) by (simp add: affine_point_def)
qed (simp add: affine_point_def assms(2))

lemma instance_small: "instance_data f i s n xopt fo \<Longrightarrow> n \<le> 44"
  by (simp add: instance_data_def)

lemma rotation_computed:
  assumes "rotation_data s n rot rs"
  shows "bbob2009_compute_rotation s n = Inr rot" "finite_rotation n rot rs"
  using assms by (simp_all add: rotation_data_def)

section \<open>Rosenbrock\<close>

lemma shift_minus_one: "map (\<lambda>v. v / 1) (unshift_point (replicate n (- 1)) (replicate n 1)) = origin n"
  by (auto simp: unshift_point_def intro: nth_equalityI)

lemma rosenbrock_problem:
  assumes "instance_data f i s n xopt fo"
  shows "solves (f_rosenbrock_bbob_problem_allocate f n i s bbob_id_template bbob_name_template) n 110
    (\<lambda>x. rosenbrock_value (shift_point (replicate n (- 1)) (map (\<lambda>v. 1 * v)
       (shift_point (map (\<lambda>v. v * (3 / 4)) xopt) x))) + fo) (map (\<lambda>v. v * (3 / 4)) xopt) fo"
proof -
  have r: "replicate n (Real (- 1)) = map Real (replicate n (- 1))"
    "map (\<lambda>v. v * Real (3 / 4)) (map Real xopt) = map Real (map (\<lambda>v. v * (3 / 4)) xopt)" by simp_all
  show ?thesis
    apply (rule solves_eq)
    apply (simp only: f_rosenbrock_bbob_problem_allocate_def instance_dataD [OF assms(1)] r rbind_simps
        rosenbrock_factor_one [OF instance_small [OF assms(1)]] norm_not_large_scale)
    apply (rule solves_bind, rule basic_solves(5) [OF instance_dataD(1,2) [OF assms(1)]])
    apply (rule solves_bind, erule solved_vars_shift, simp, simp)
    apply (rule solves_bind, erule solved_vars_scale, simp, simp)
    apply (rule solves_bind, simp only: shift_minus_one, erule solved_vars_shift, simp)
    apply (simp add: instance_dataD [OF assms(1)])
    apply (rule solves_bind, erule solved_obj_shift, simp)
    apply (erule solved_name_problem, (rule instance_dataD [OF assms(1)])+, simp)
    apply (simp_all add: instance_dataD [OF assms(1)])
    done
qed

section \<open>Bent cigar\<close>

text \<open>The optimum and the rotation of this problem are both computed from \<open>s + 1000000\<close>.\<close>

lemma bent_cigar_problem:
  assumes "instance_data f i (s + 1000000) n xopt fo" "rotation_data (s + 1000000) n rot1 rs1"
  shows "solves (f_bent_cigar_bbob_problem_allocate f n i s bbob_id_template bbob_name_template) n 110
    (\<lambda>x. bent_cigar_value (affine_point (rotation_matrix n rs1) (origin n) n (asymmetric_point (1 / 2) n
       (affine_point (rotation_matrix n rs1) (origin n) n (shift_point xopt x)))) + fo) xopt fo"
  apply (rule solves_eq)
  apply (simp add: f_bent_cigar_bbob_problem_allocate_def instance_dataD [OF assms(1)] rotation_computed(1) [OF assms(2)])
  apply (rule solves_bind, rule basic_solves(7) [OF instance_dataD(1,2) [OF assms(1)]])
  apply (rule solves_bind, erule solved_obj_shift, simp)
  apply (rule solves_bind, erule solved_vars_affine, simp, rule rotation_matrix_Real [OF assms(2)], simp add: rotation_matrix_def)
  apply (rule solves_bind, erule solved_vars_asymmetric, simp, rule instance_dataD(1) [OF assms(1)])
  apply (rule solves_bind, erule solved_vars_affine, simp, rule rotation_matrix_Real [OF assms(2)], simp add: rotation_matrix_def)
  apply (rule solves_bind, erule solved_vars_shift, simp, rule instance_dataD(7) [OF assms(1)])
  apply (erule solved_name_problem, (rule instance_dataD [OF assms(1)])+, simp)
  apply (simp_all add: instance_dataD [OF assms(1)])
  done

section \<open>Rotated Rosenbrock\<close>

lemma rosenbrock_half: "map (\<lambda>v. v + 1 / 2) (replicate n (1 / 2)) = replicate n (1 :: real)"
  by simp

lemma rosenbrock_rotated_problem:
  assumes "instance_data f i s n xopt fo" "rotation_data s n rot rs"
  shows "solves (f_rosenbrock_rotated_bbob_problem_allocate f n i s bbob_id_template bbob_name_template) n 110
    (\<lambda>x. rosenbrock_value (affine_point (rotation_matrix n rs) (replicate n (1 / 2)) n x) + fo) (half_sums n rs) fo"
proof -
  note n = instance_dataD(1,2) [OF assms(1)] and rot = rotation_computed [OF assms(2)]
  obtain p where p: "f_rosenbrock_allocate n = Inr p" "solved p n 40 rosenbrock_value (replicate n 1) 0"
    using basic_solves(5) [OF n] by (auto simp: solves_def)
  let ?p = "set_best_parameter (map Real (origin n)) p" and ?M = "rotation_matrix n rs"
  let ?F = "\<lambda>x. rosenbrock_value (affine_point ?M (replicate n (1 / 2)) n x)"
  have "new_problem ?p n 40 rosenbrock_value (origin n) 0"
    using set_best_parameter_new [OF solvedD(1) [OF p(2)], of "origin n"] rosenbrock_free(1) [OF p(1)]
    by (simp add: free_best_def)
  from transform_vars_affine_gives [OF this, of ?M "replicate n (1 / 2)"]
  obtain q b where q: "transform_vars_affine ?p (map Real ?M) (map Real (replicate n (1 / 2))) n = Inr q"
    "new_problem q n 63 ?F b 0" by (auto simp: gives_def rotation_matrix_def)
  from transform_obj_shift_gives [OF q(2), of fo]
  obtain r where r: "transform_obj_shift q (Real fo) = Inr r" "new_problem r n 84 (\<lambda>x. ?F x + fo) b fo"
    by (auto simp: gives_def)
  have "number_of_objectives (fields q) = 1"
    using q(2) by (simp add: new_problem_def objective_problem_def well_formed_def shape_def)
  then have "solved (set_best_parameter (map Real (half_sums n rs)) r) n 84 (\<lambda>x. ?F x + fo) (half_sums n rs) fo"
    using transformed_free(1) [OF r(1)] raw_minimum
    by (intro set_best_parameter_solved [OF r(2)]) (simp_all add: affine_half_sums [OF rot(2)])
  note named = solved_name_problem [OF this instance_dataD(4,5,3) [OF assms(1)], of "''2-moderate''"]
  have M: "row_matrix n (\<lambda>i j. Real 1 * entry rot i j) = map Real ?M"
    unfolding rotation_matrix_def by (rule row_matrix_Real) (simp add: rotation_entry [OF assms(2)])
  have z: "zero n = map Real (origin n)" "replicate n (Real (1 / 2)) = map Real (replicate n (1 / 2))" by simp_all
  show ?thesis
    by (simp only: f_rosenbrock_rotated_bbob_problem_allocate_def instance_dataD [OF assms(1)] rot(1) rbind_simps
        factor_one [OF instance_small [OF assms(1)]] Let_def M z p(1) q(1) r(1) half_column_sums_Real [OF rot(2)])
      (rule named, simp)
qed

section \<open>Griewank-Rosenbrock\<close>

lemma griewank_rosenbrock_problem:
  assumes "instance_data f i s n xopt fo" "rotation_data s n rot rs"
  shows "solves (f_griewank_rosenbrock_bbob_problem_allocate f n i s bbob_id_template bbob_name_template) n 110
    (\<lambda>x. griewank_rosenbrock_value (shift_point (replicate n (- (1 / 2)))
       (affine_point (rotation_matrix n rs) (origin n) n x)) + fo) (half_sums n rs) fo"
proof -
  note n = instance_dataD(1,2) [OF assms(1)] and rot = rotation_computed [OF assms(2)]
  let ?M = "rotation_matrix n rs" and ?c = "replicate n (- (1 / 2))"
  let ?F = "\<lambda>x. griewank_rosenbrock_value (shift_point ?c x) + fo"
  obtain p where p: "f_griewank_rosenbrock_allocate n = Inr p" "solved p n 40 griewank_rosenbrock_value (replicate n 1) 0"
    using basic_solves(10) [OF n] by (auto simp: solves_def)
  obtain p1 where p1: "transform_obj_shift p (Real fo) = Inr p1"
    "solved p1 n 61 (\<lambda>x. griewank_rosenbrock_value x + fo) (replicate n 1) fo"
    using solved_obj_shift [OF p(2), of fo] by (auto simp: solves_def)
  obtain p2 b where p2: "transform_vars_shift p1 (map Real ?c) False = Inr p2" "solved p2 n 83 ?F b fo"
    using solved_vars_shift [OF p1(2), of ?c] by (auto simp: solves_def)
  let ?p = "set_best_parameter (map Real (origin n)) p2"
  have "new_problem ?p n 83 ?F (origin n) fo"
    using set_best_parameter_new [OF solvedD(1) [OF p2(2)], of "origin n"]
      transformed_free(2) [OF p2(1) solved_objectives [OF p1(2)]] by (simp add: free_best_def)
  from transform_vars_affine_origin_gives [OF this, of ?M]
  obtain q where q: "transform_vars_affine ?p (map Real ?M) (map Real (origin n)) n = Inr q"
    "new_problem q n 106 (\<lambda>x. ?F (affine_point ?M (origin n) n x)) (origin n) fo"
    by (auto simp: gives_def rotation_matrix_def)
  have "free_best q" using transformed_free(3) [OF q(1)] solved_objectives [OF p2(2)] by simp
  moreover have "shift_point ?c (affine_point ?M (origin n) n (half_sums n rs)) = replicate n 1"
    by (auto simp: affine_half_sums [OF rot(2)] shift_point_def intro: nth_equalityI)
  then have "?F (affine_point ?M (origin n) n (half_sums n rs)) = fo"
    using n by (simp add: griewank_rosenbrock_minimum)
  ultimately have "solved (set_best_parameter (map Real (half_sums n rs)) q) n 106
      (\<lambda>x. ?F (affine_point ?M (origin n) n x)) (half_sums n rs) fo"
    by (intro set_best_parameter_solved [OF q(2)]) simp_all
  note named = solved_name_problem [OF this instance_dataD(4,5,3) [OF assms(1)], of "''4-multi-modal''"]
  have "map (map (\<lambda>v. v * Real 1)) rot = rot" using rot(2) by (simp add: finite_rotation_def comp_def)
  moreover have "zero n = map Real (origin n)" "replicate n (Real (- (1 / 2))) = map Real ?c" by simp_all
  ultimately show ?thesis
    by (simp only: f_griewank_rosenbrock_bbob_problem_allocate_def instance_dataD [OF assms(1)] rot(1) rbind_simps
        factor_one [OF instance_small [OF assms(1)]] Let_def rotation_matrix_Real [OF assms(2)]
        p(1) p1(1) p2(1) q(1) half_column_sums_Real [OF rot(2)])
      (rule named, simp)
qed

end
