(* ===== verification/Coco_Bbob_Optima.thy ===== *)
theory Coco_Bbob_Optima
  imports Coco_Bbob_Rosenbrock
begin

text \<open>
  The bbob problems with data of their own are solved problems: Gallagher's functions, the step
  ellipsoid and Lunacek's function. With them every bbob problem but Schwefel's is solved.
\<close>

section \<open>Gallagher\<close>

lemma random_order_less: "k < length u \<Longrightarrow> random_order u ! k < length u"
proof -
  assume "k < length u"
  then have "random_order u ! k \<in> set (random_order u)" by (intro nth_mem) (simp add: random_order_def)
  then show ?thesis by (simp add: random_order_def)
qed

lemma upt_pred: "Suc k < n \<Longrightarrow> [Suc 0..<n] ! k - Suc 0 = k"
  using nth_upt [of "Suc 0" k n] by simp

definition real_condition :: "nat \<Rightarrow> real \<Rightarrow> nat list \<Rightarrow> nat \<Rightarrow> real" where
  "real_condition peaks m perm i =
     (if i = 0 then m else 1000 powr (real (perm ! (i - 1)) / real (peaks - 2)))"

lemma arr_condition_Real:
  assumes "i < peaks" "2 < peaks"
  shows "arr_condition peaks (Real m) perm ! i = Real (real_condition peaks m perm i)"
  using assms by (cases i) (auto simp: arr_condition_def real_condition_def upt_pred)

lemma real_condition_pos: "0 < m \<Longrightarrow> 0 < real_condition peaks m perm i"
  by (simp add: real_condition_def)

definition real_height :: "nat \<Rightarrow> nat \<Rightarrow> real" where
  "real_height peaks i = (if i = 0 then 10 else real (i - 1) / real (peaks - 2) * (91 / 10 - 11 / 10) + 11 / 10)"

lemma peak_values_Real:
  assumes "i < peaks" "2 < peaks"
  shows "gallagher_peak_values peaks ! i = Real (real_height peaks i)"
  using assms by (cases i) (auto simp: gallagher_peak_values_def real_height_def upt_pred)

lemma real_height_bounds:
  assumes "i < peaks" "2 < peaks"
  shows "0 \<le> real_height peaks i" "real_height peaks i \<le> 10"
proof -
  define q where "q = real (i - 1) / real (peaks - 2)"
  have "0 \<le> q" "q \<le> 1" using assms by (simp_all add: q_def)
  then show "0 \<le> real_height peaks i" "real_height peaks i \<le> 10"
    unfolding real_height_def q_def [symmetric] by simp_all
qed

definition real_scale :: "nat \<Rightarrow> real \<Rightarrow> nat list \<Rightarrow> nat \<Rightarrow> real" where
  "real_scale n c perm j = c powr (real (perm ! j) / real (n - 1) - 1 / 2)"

lemma scale_row_Real:
  assumes "j < n" "2 \<le> n" "0 < c"
  shows "gallagher_scale_row n (Real c) perm ! j = Real (real_scale n c perm j)"
  using assms by (simp add: gallagher_scale_row_def real_scale_def)

text \<open>The rows of the scales are those of the permutations that the seeds \<open>rseed + 1000 i\<close> give.\<close>

lemma gallagher_scales_ok:
  assumes "\<And>i. i \<in> set is \<Longrightarrow> seed_ok (s + int (1000 * i))" "\<And>i. i \<in> set is \<Longrightarrow> conditions ! i = Real (C i) \<and> 0 < C i"
    and "2 \<le> n"
  shows "\<exists>rows. gallagher_scales is s n conditions = Inr rows \<and> length rows = length is
    \<and> (\<forall>k < length is. \<exists>perm. \<forall>j < n. rows ! k ! j = Real (real_scale n (C (is ! k)) perm j))"
  using assms(1,2)
proof (induction "is")
  case (Cons i "is")
  obtain u where u: "bbob2009_unif n (s + int (1000 * i)) = Inr u"
    using bbob2009_unif_ok [OF Cons.prems(1) [of i], of n] by auto
  obtain rows where rows: "gallagher_scales is s n conditions = Inr rows" "length rows = length is"
    "\<forall>k < length is. \<exists>perm. \<forall>j < n. rows ! k ! j = Real (real_scale n (C (is ! k)) perm j)"
    using Cons.IH [OF Cons.prems(1,2)] by (force simp del: of_nat_mult)
  let ?row = "gallagher_scale_row n (conditions ! i) (random_order u)"
  have "\<forall>j < n. ?row ! j = Real (real_scale n (C i) (random_order u) j)"
    using Cons.prems(2) [of i] assms(3) by (simp add: scale_row_Real)
  then have "\<forall>k < length (i # is). \<exists>perm. \<forall>j < n. (?row # rows) ! k ! j = Real (real_scale n (C ((i # is) ! k)) perm j)"
    using rows(3) by (auto simp: less_Suc_eq_0_disj)
  then show ?case using u rows(1,2) by simp
qed simp

text \<open>The optima of the peaks in the rotated space.\<close>

definition real_x_local :: "nat \<Rightarrow> real list list \<Rightarrow> real \<Rightarrow> real \<Rightarrow> real list \<Rightarrow> nat \<Rightarrow> nat \<Rightarrow> real" where
  "real_x_local n rs b c u i j =
     (\<Sum>k = 0..<n. rs ! k ! i * (b * u ! (j * n + k) - c)) * (if j = 0 then 8 / 10 else 1)"

lemma x_local_Real:
  assumes "finite_rotation n rot rs" "i < n" "j < peaks"
  shows "gallagher_x_local n peaks rot (Real b) (Real c) u ! i ! j = Real (real_x_local n rs b c u i j)"
proof -
  have "accumulate (Real 0) [0..<n] (\<lambda>k. entry rot i k * (Real b * Real (u ! (j * n + k)) - Real c))
      = Real (0 + (\<Sum>k = 0..<n. rs ! k ! i * (b * u ! (j * n + k) - c)))"
    by (rule accumulate_upt) (simp add: finite_rotation_entry [OF assms(1,2)])
  then have "Let (accumulate (Real 0) [0..<n] (\<lambda>k. entry rot i k * (Real b * Real (u ! (j * n + k)) - Real c)))
      (\<lambda>v. if j = 0 then v * Real (8 / 10) else v) = Real (real_x_local n rs b c u i j)"
    by (simp only: Let_def) (simp add: real_x_local_def)
  then show ?thesis using assms(2,3) by (simp only: gallagher_x_local_def) simp
qed

definition real_gallagher_best :: "nat \<Rightarrow> real \<Rightarrow> real \<Rightarrow> real list \<Rightarrow> real list" where
  "real_gallagher_best n b c u = map (\<lambda>i. 8 / 10 * (b * u ! i - c)) [0..<n]"

lemma gallagher_best_Real: "gallagher_best n (Real b) (Real c) u = map Real (real_gallagher_best n b c u)"
  by (simp add: gallagher_best_def real_gallagher_best_def)

lemma real_gallagher_best_bound:
  assumes "\<forall>v \<in> set u. 0 < v \<and> v < 1" "n \<le> length u" "0 < b" "b \<le> 10" "c = b / 2"
  shows "\<forall>v \<in> set (real_gallagher_best n b c u). \<bar>v\<bar> \<le> 5"
proof -
  have "\<bar>8 / 10 * (b * u ! i - c)\<bar> \<le> 5" if "i < n" for i
  proof -
    have u: "0 < u ! i" "u ! i < 1" using assms(1,2) that by (simp_all add: nth_mem)
    have "0 < b * u ! i" "b * u ! i < b * 1"
      using u assms(3) by (simp, intro mult_strict_left_mono)
    then show ?thesis using assms(4,5) by (simp add: abs_le_iff)
  qed
  then show ?thesis by (auto simp: real_gallagher_best_def)
qed

lemma real_x_local_best:
  "real_x_local n rs b c u i 0 = (\<Sum>k = 0..<n. rs ! k ! i * real_gallagher_best n b c u ! k)"
  unfolding real_x_local_def sum_distrib_right
  by (intro sum.cong [OF refl]) (simp add: real_gallagher_best_def)

lemma gallagher_parameters_Real:
  assumes "peaks = 101 \<or> peaks = 21"
  obtains m b c where "gallagher_parameters peaks = Inr (Real m, Real b, Real c)"
    "0 < m" "0 < b" "b \<le> 10" "c = b / 2" "2 < peaks"
proof (cases "peaks = 101")
  case True
  then show thesis by (intro that [of "sqrt 1000" 10 5]) (simp_all add: gallagher_parameters_def)
next
  case False
  then have "peaks = 21" using assms by simp
  then show thesis by (intro that [of 1000 "98 / 10" "49 / 10"]) (simp_all add: gallagher_parameters_def)
qed

definition permutations :: "nat \<Rightarrow> nat \<Rightarrow> (nat \<Rightarrow> real) \<Rightarrow> double list list \<Rightarrow> (nat \<Rightarrow> nat \<Rightarrow> real) \<Rightarrow> bool" where
  "permutations n peaks C rows A \<longleftrightarrow> (\<forall>i < peaks. \<forall>j < n. rows ! i ! j = Real (A i j) \<and> 0 \<le> A i j)"

lemma gallagher_scales_permutations:
  assumes "\<And>i. i < peaks \<Longrightarrow> seed_ok (s + int (1000 * i))" "0 < m" "2 < peaks" "2 \<le> n"
  obtains rows A where "gallagher_scales [0..<peaks] s n (arr_condition peaks (Real m) perm) = Inr rows"
    "permutations n peaks (real_condition peaks m perm) rows A"
proof -
  let ?C = "real_condition peaks m perm"
  have "\<exists>rows. gallagher_scales [0..<peaks] s n (arr_condition peaks (Real m) perm) = Inr rows
      \<and> length rows = length [0..<peaks]
      \<and> (\<forall>k < length [0..<peaks]. \<exists>perm. \<forall>j < n. rows ! k ! j = Real (real_scale n (?C ([0..<peaks] ! k)) perm j))"
    using assms arr_condition_Real real_condition_pos by (intro gallagher_scales_ok) auto
  then obtain rows where rows: "gallagher_scales [0..<peaks] s n (arr_condition peaks (Real m) perm) = Inr rows"
    "\<forall>k < peaks. \<exists>perm. \<forall>j < n. rows ! k ! j = Real (real_scale n (?C k) perm j)" by auto
  from rows(2) obtain q where "\<forall>k < peaks. \<forall>j < n. rows ! k ! j = Real (real_scale n (?C k) (q k) j)"
    by (auto simp: choice_iff')
  then have "permutations n peaks ?C rows (\<lambda>k j. real_scale n (?C k) (q k) j)"
    by (auto simp: permutations_def real_scale_def)
  with rows(1) that show thesis by blast
qed

lemma gallagher_problem:
  assumes "instance_data f i s n xopt fo" "rotation_data s n rot rs" "peaks = 101 \<or> peaks = 21"
    and "\<And>i. i < peaks \<Longrightarrow> seed_ok (s + int (1000 * i))"
  shows "\<exists>F best. solves (f_gallagher_bbob_problem_allocate peaks f n i s bbob_id_template bbob_name_template) n 110 F best fo"
proof -
  note n = instance_dataD(1,2,11) [OF assms(1)] and rot = rotation_computed [OF assms(2)]
  obtain m b c where mbc: "gallagher_parameters peaks = Inr (Real m, Real b, Real c)"
    "0 < m" "0 < b" "b \<le> 10" "c = b / 2" "2 < peaks"
    using gallagher_parameters_Real [OF assms(3)] by metis
  have s: "seed_ok s" using assms(4) [of 0] mbc(6) by simp
  obtain u1 where u1: "bbob2009_unif (peaks - 1) s = Inr u1" using bbob2009_unif_ok [OF s] by blast
  obtain u where u: "bbob2009_unif (n * peaks) s = Inr u" "length u = n * peaks" "\<forall>v \<in> set u. 0 < v \<and> v < 1"
    using bbob2009_unif_ok [OF s] by blast
  obtain rows A where rows: "gallagher_scales [0..<peaks] s n (arr_condition peaks (Real m) (random_order u1)) = Inr rows"
    "permutations n peaks (real_condition peaks m (random_order u1)) rows A"
    using gallagher_scales_permutations [OF assms(4) mbc(2,6) n(1)] by metis
  define data where "data = \<lparr> rotation = rot, x_local = gallagher_x_local n peaks rot (Real b) (Real c) u,
    arr_scales = rows, number_of_peaks = peaks, peak_values = gallagher_peak_values peaks \<rparr>"
  let ?best = "real_gallagher_best n b c u"
  let ?V = "gallagher_value n (\<lambda>i j. rs ! j ! i) (real_x_local n rs b c u) A (real_height peaks) (number_of_peaks data)"
  have "gallagher_data_ok data n (\<lambda>i j. rs ! j ! i) (real_x_local n rs b c u) A (real_height peaks)"
    using n finite_rotation_entries [OF rot(2)] x_local_Real [OF rot(2)] rows(2) real_height_bounds peak_values_Real mbc(6)
    by (auto simp: gallagher_data_ok_def data_def permutations_def)
  moreover have "n \<le> length u" using u(2) mbc(6) by simp
  ultimately have ok: "length ?best = n \<and> gallagher_data_ok data n (\<lambda>i j. rs ! j ! i) (real_x_local n rs b c u) A (real_height peaks)
      \<and> 0 < number_of_peaks data \<and> real_height peaks 0 = 10
      \<and> (\<forall>j < n. real_x_local n rs b c u j 0 = (\<Sum>k = 0..<n. rs ! k ! j * ?best ! k)) \<and> (\<forall>v \<in> set ?best. \<bar>v\<bar> \<le> 5)"
    using real_gallagher_best_bound [OF u(3) _ mbc(3-5)] mbc(6) real_x_local_best
    by (auto simp: data_def real_height_def real_gallagher_best_def)
  obtain p where p: "coco_problem_allocate_from_scalars ''Gallagher function'' (Gallagher data) n (Real (- 5)) (Real 5) (Real 0) = Inr p"
    "newly_allocated p n (Gallagher data) (replicate n 0)"
    using allocate_from_scalars_ok [OF n(3), of "''Gallagher function''" "Gallagher data" 0] by auto
  let ?p = "p\<lparr>best_parameter := Some (map Real ?best)\<rparr>"
  have "solves (evaluate_at_best (f_gallagher_evaluate data) ?p) n 40 ?V ?best 0"
    using gallagher.evaluated_at_best [OF ok, of ?p 40] p(2) ok
    by (simp add: newly_allocated_def well_formed_def shape_def fresh_def)
  then obtain p1 where p1: "evaluate_at_best (f_gallagher_evaluate data) ?p = Inr p1" "solved p1 n 40 ?V ?best 0"
    by (auto simp: solves_def)
  obtain p2 where p2: "transform_obj_shift p1 (Real fo) = Inr p2" "solved p2 n 61 (\<lambda>x. ?V x + fo) ?best fo"
    using solved_obj_shift [OF p1(2), of fo] by (auto simp: solves_def)
  have "f_gallagher_bbob_problem_allocate peaks f n i s bbob_id_template bbob_name_template
      = name_problem bbob_id_template bbob_name_template ''5-weakly-structured'' f i n p2"
    by (simp only: f_gallagher_bbob_problem_allocate_def instance_dataD [OF assms(1)] mbc(1) rot(1) u1 u(1) rows(1)
        rbind_simps Let_def prod.case data_def [symmetric] p(1) gallagher_best_Real p1(1) p2(1))
  then show ?thesis
    using solved_name_problem [OF p2(2) instance_dataD(4,5,3) [OF assms(1)], of "''5-weakly-structured''"] by auto
qed

section \<open>Step ellipsoid\<close>

lemma step_ellipsoid_problem:
  assumes "instance_data f i s n xopt fo" "rotation_data (s + 1000000) n rot1 rs1" "rotation_data s n rot2 rs2"
  shows "solves (f_step_ellipsoid_bbob_problem_allocate f n i s bbob_id_template bbob_name_template) n 110
    (step_ellipsoid_value (\<lambda>i j. rs1 ! j ! i) (\<lambda>i j. rs2 ! j ! i) xopt fo) xopt fo"
proof -
  note n = instance_dataD(1,2,7,11) [OF assms(1)] and rot = rotation_computed [OF assms(2)] rotation_computed [OF assms(3)]
  let ?data = "\<lparr> step_xopt = map Real xopt, step_fopt = Real fo, step_rot1 = rot1, step_rot2 = rot2 \<rparr>"
  obtain p where p: "coco_problem_allocate_from_scalars ''step ellipsoid function'' (Step_ellipsoid ?data) n (Real (- 5)) (Real 5) (Real 0) = Inr p"
    "newly_allocated p n (Step_ellipsoid ?data) (replicate n 0)"
    using allocate_from_scalars_ok [OF n(4), of "''step ellipsoid function''" "Step_ellipsoid ?data" 0] by auto
  let ?p = "p\<lparr>best_parameter := Some (map Real xopt), best_value := [Real fo]\<rparr>"
  have ok: "2 \<le> n \<and> length xopt = n \<and> real_entries rot1 n (\<lambda>i j. rs1 ! j ! i)
      \<and> real_entries rot2 n (\<lambda>i j. rs2 ! j ! i) \<and> (\<forall>v \<in> set xopt. \<bar>v\<bar> \<le> 5)"
    using n rot finite_rotation_entries bound_4_5 [OF instance_dataD(8) [OF assms(1)]] by blast
  have "solved (Basic ?p) n 40 (step_ellipsoid_value (\<lambda>i j. rs1 ! j ! i) (\<lambda>i j. rs2 ! j ! i) xopt fo) xopt fo"
    using p(2) by (intro step_ellipsoid.basic_solved [OF ok, of ?p 40])
      (simp_all add: newly_allocated_def well_formed_def shape_def fresh_def)
  from solved_name_problem [OF this instance_dataD(4,5,3) [OF assms(1)], of "''2-moderate''"]
  show ?thesis
    by (simp only: f_step_ellipsoid_bbob_problem_allocate_def instance_dataD [OF assms(1)] rot rbind_simps Let_def p(1)) simp
qed

section \<open>Lunacek\<close>

lemma lunacek_problem:
  assumes "instance_data f i s n x0 fo" "rotation_data (s + 1000000) n rot1 rs1" "rotation_data s n rot2 rs2"
    and "bbob2009_gauss n s = Inr (map Real g)" "length g = n" "bbob2009_compute_fopt 24 i = Inr fo24"
  shows "\<exists>F best. solves (f_lunacek_bi_rastrigin_bbob_problem_allocate f n i s bbob_id_template bbob_name_template) n 110 F best fo"
proof -
  note n = instance_dataD(1,2,11) [OF assms(1)] and rot = rotation_computed [OF assms(2)] rotation_computed [OF assms(3)]
  define xopt where "xopt = map (\<lambda>v. if v < 0 then - 5 / 4 else 5 / 4 :: real) g"
  have len: "length xopt = n" and xopt: "\<forall>v \<in> set xopt. v = 5 / 4 \<or> v = - 5 / 4"
    using assms(5) by (auto simp: xopt_def)
  have x: "map (\<lambda>i. if map Real g ! i < Real 0 then Real (1 / 2) * Real (5 / 2) * Real (- 1) else Real (1 / 2) * Real (5 / 2)) [0..<n]
      = map Real xopt"
    using assms(5) by (auto simp: xopt_def intro: nth_equalityI)
  define data where "data = \<lparr> lunacek_xopt = map Real xopt, lunacek_rot1 = rot1, lunacek_rot2 = rot2 \<rparr>"
  let ?name = "''Lunacek'' @ [CHR 0x27] @ ''s bi-Rastrigin function''"
  let ?V = "lunacek_value (\<lambda>i j. rs1 ! j ! i) (\<lambda>i j. rs2 ! j ! i) xopt"
  obtain p where p: "coco_problem_allocate_from_scalars ?name (Lunacek_bi_rastrigin data) n (Real (- 5)) (Real 5) (Real 0) = Inr p"
    "newly_allocated p n (Lunacek_bi_rastrigin data) (replicate n 0)"
    using allocate_from_scalars_ok [OF n(3), of ?name "Lunacek_bi_rastrigin data" 0] by auto
  let ?p = "p\<lparr>best_parameter := Some (map Real xopt)\<rparr>"
  have "2 \<le> n \<and> length xopt = n \<and> real_entries rot1 n (\<lambda>i j. rs1 ! j ! i)
      \<and> real_entries rot2 n (\<lambda>i j. rs2 ! j ! i) \<and> (\<forall>v \<in> set xopt. v = 5 / 4 \<or> v = - 5 / 4)"
    using n len xopt rot finite_rotation_entries by blast
  then have "solves (evaluate_at_best (f_lunacek_bi_rastrigin_evaluate data) ?p) n 40 ?V xopt 0"
    using lunacek.evaluated_at_best [of n xopt rot1 "\<lambda>i j. rs1 ! j ! i" rot2 "\<lambda>i j. rs2 ! j ! i" ?p 40] p(2)
    by (simp add: newly_allocated_def well_formed_def shape_def fresh_def flip: data_def)
  then obtain p1 where p1: "evaluate_at_best (f_lunacek_bi_rastrigin_evaluate data) ?p = Inr p1" "solved p1 n 40 ?V xopt 0"
    by (auto simp: solves_def)
  obtain p2 where p2: "transform_obj_shift p1 (Real fo) = Inr p2" "solved p2 n 61 (\<lambda>x. ?V x + fo) xopt fo"
    using solved_obj_shift [OF p1(2), of fo] by (auto simp: solves_def)
  have "f_lunacek_bi_rastrigin_bbob_problem_allocate f n i s bbob_id_template bbob_name_template
      = name_problem bbob_id_template bbob_name_template ''5-weakly-structured'' f i n p2"
    by (simp only: f_lunacek_bi_rastrigin_bbob_problem_allocate_def instance_dataD [OF assms(1)] rot assms(4,6)
        rbind_simps Let_def x data_def [symmetric] p(1) p1(1) p2(1))
  then show ?thesis
    using solved_name_problem [OF p2(2) instance_dataD(4,5,3) [OF assms(1)], of "''5-weakly-structured''"] by auto
qed

end
