(* ===== verification/Coco_Bbob_Suite.thy ===== *)
theory Coco_Bbob_Suite
  imports Coco_Bbob_Optima
begin

text \<open>
  All bbob problems: \<open>coco_get_bbob_problem\<close> constructs a solved problem for every function but
  Schwefel's, and what the evaluations of such a problem observe.
\<close>

section \<open>Seeds and instances\<close>

lemma bbob_seed_small: "k \<le> 100 \<Longrightarrow> i \<le> 200000 \<Longrightarrow> bbob_seed k i = int k + 10000 * int i"
  by (simp add: bbob_seed_def to_long_def)

lemma seed_ok_small: "0 \<le> s \<Longrightarrow> s \<le> 2002000000 \<Longrightarrow> seed_ok s"
  by (simp add: seed_ok_def modulus_def)

lemma fopt_exists:
  assumes "f \<le> 24" "i \<le> 200000"
  shows "\<exists>fo. bbob2009_compute_fopt f i = Inr (Real fo) \<and> - 1000 \<le> fo \<and> fo \<le> 1000"
proof (rule bbob2009_compute_fopt_ok)
  have "0 \<le> fopt_seed f" "fopt_seed f \<le> 24" using assms(1) by (auto simp: fopt_seed_def to_long_def)
  moreover have "to_long (size_t (10000 * i)) = 10000 * int i" using assms(2) by (simp add: to_long_def)
  ultimately show "seed_ok (fopt_seed f + to_long (size_t (10000 * i)))"
    "seed_ok (fopt_seed f + to_long (size_t (10000 * i)) + 1)"
    using assms(2) by (simp_all add: seed_ok_small)
qed

lemma instance_exists:
  assumes "seed_ok s" "2 \<le> n" "n \<le> 44" "f \<le> 24" "i \<le> 200000" "bbob2009_compute_fopt f i = Inr (Real fo)"
  obtains xopt where "instance_data f i s n xopt fo"
proof -
  obtain x where x: "bbob2009_compute_xopt s n = Inr x" "length x = n" "\<forall>v \<in> set x. - 4 \<le> v \<and> v < 4 \<and> v \<noteq> 0"
    using bbob2009_compute_xopt_ok [OF assms(1)] by blast
  then have "instance_data f i s n x fo"
    using assms(2-6) by (auto simp: instance_data_def optimum_def abs_le_iff)
  with that show thesis .
qed

text \<open>The rotations that a construction computes contain no NaN.\<close>

definition rotation_without_nan :: "int \<Rightarrow> nat \<Rightarrow> bool" where
  "rotation_without_nan seed n \<longleftrightarrow> (case bbob2009_compute_rotation seed n of
     Inl _ \<Rightarrow> False
   | Inr rot \<Rightarrow> \<not> list_ex coco_vector_contains_nan rot)"

lemma rotation_exists:
  assumes "seed_ok s" "2 \<le> n" "n \<le> 44" "rotation_without_nan s n"
  obtains rot rs where "rotation_data s n rot rs"
proof -
  have "n * n \<le> 44 * 44" using assms(3) by (intro mult_le_mono)
  then obtain rot where rot: "bbob2009_compute_rotation s n = Inr rot"
    "(\<forall>c \<in> set rot. \<not> coco_vector_contains_nan c) \<longrightarrow> (\<exists>rs. finite_rotation n rot rs)"
    using bbob2009_compute_rotation_ok [OF assms(1), of n] assms(2) by auto
  moreover have "\<forall>c \<in> set rot. \<not> coco_vector_contains_nan c"
    using assms(4) rot(1) by (simp add: rotation_without_nan_def list_ex_iff)
  ultimately show thesis using that by (auto simp: rotation_data_def)
qed

section \<open>Every function\<close>

lemma bbob_problem_calls:
  "bbob_problem 1 = (\<lambda>d i. f_sphere_bbob_problem_allocate 1 d i (bbob_seed 1 i) bbob_id_template bbob_name_template)"
  "bbob_problem 2 = (\<lambda>d i. f_ellipsoid_bbob_problem_allocate 2 d i (bbob_seed 2 i) bbob_id_template bbob_name_template)"
  "bbob_problem 3 = (\<lambda>d i. f_rastrigin_bbob_problem_allocate 3 d i (bbob_seed 3 i) bbob_id_template bbob_name_template)"
  "bbob_problem 4 = (\<lambda>d i. f_bueche_rastrigin_bbob_problem_allocate 4 d i (bbob_seed 3 i) bbob_id_template bbob_name_template)"
  "bbob_problem 5 = (\<lambda>d i. f_linear_slope_bbob_problem_allocate 5 d i (bbob_seed 5 i) bbob_id_template bbob_name_template)"
  "bbob_problem 6 = (\<lambda>d i. f_attractive_sector_bbob_problem_allocate 6 d i (bbob_seed 6 i) bbob_id_template bbob_name_template)"
  "bbob_problem 7 = (\<lambda>d i. f_step_ellipsoid_bbob_problem_allocate 7 d i (bbob_seed 7 i) bbob_id_template bbob_name_template)"
  "bbob_problem 8 = (\<lambda>d i. f_rosenbrock_bbob_problem_allocate 8 d i (bbob_seed 8 i) bbob_id_template bbob_name_template)"
  "bbob_problem 9 = (\<lambda>d i. f_rosenbrock_rotated_bbob_problem_allocate 9 d i (bbob_seed 9 i) bbob_id_template bbob_name_template)"
  "bbob_problem 10 = (\<lambda>d i. f_ellipsoid_rotated_bbob_problem_allocate 10 d i (bbob_seed 10 i) bbob_id_template bbob_name_template)"
  "bbob_problem 11 = (\<lambda>d i. f_discus_bbob_problem_allocate 11 d i (bbob_seed 11 i) bbob_id_template bbob_name_template)"
  "bbob_problem 12 = (\<lambda>d i. f_bent_cigar_bbob_problem_allocate 12 d i (bbob_seed 12 i) bbob_id_template bbob_name_template)"
  "bbob_problem 13 = (\<lambda>d i. f_sharp_ridge_bbob_problem_allocate 13 d i (bbob_seed 13 i) bbob_id_template bbob_name_template)"
  "bbob_problem 14 = (\<lambda>d i. f_different_powers_bbob_problem_allocate 14 d i (bbob_seed 14 i) bbob_id_template bbob_name_template)"
  "bbob_problem 15 = (\<lambda>d i. f_rastrigin_rotated_bbob_problem_allocate 15 d i (bbob_seed 15 i) bbob_id_template bbob_name_template)"
  "bbob_problem 16 = (\<lambda>d i. f_weierstrass_bbob_problem_allocate 16 d i (bbob_seed 16 i) bbob_id_template bbob_name_template)"
  "bbob_problem 17 = (\<lambda>d i. f_schaffers_bbob_problem_allocate (Real 10) 17 d i (bbob_seed 17 i) bbob_id_template bbob_name_template)"
  "bbob_problem 18 = (\<lambda>d i. f_schaffers_bbob_problem_allocate (Real 1000) 18 d i (bbob_seed 17 i) bbob_id_template bbob_name_template)"
  "bbob_problem 19 = (\<lambda>d i. f_griewank_rosenbrock_bbob_problem_allocate 19 d i (bbob_seed 19 i) bbob_id_template bbob_name_template)"
  "bbob_problem 21 = (\<lambda>d i. f_gallagher_bbob_problem_allocate 101 21 d i (bbob_seed 21 i) bbob_id_template bbob_name_template)"
  "bbob_problem 22 = (\<lambda>d i. f_gallagher_bbob_problem_allocate 21 22 d i (bbob_seed 22 i) bbob_id_template bbob_name_template)"
  "bbob_problem 23 = (\<lambda>d i. f_katsuura_bbob_problem_allocate 23 d i (bbob_seed 23 i) bbob_id_template bbob_name_template)"
  "bbob_problem 24 = (\<lambda>d i. f_lunacek_bi_rastrigin_bbob_problem_allocate 24 d i (bbob_seed 24 i) bbob_id_template bbob_name_template)"
  by (simp_all add: bbob_problem_def coco_get_bbob_problem_def Let_def fun_eq_iff)

definition solvable :: "nat \<Rightarrow> nat \<Rightarrow> nat \<Rightarrow> real \<Rightarrow> bool" where
  "solvable f n i fo \<longleftrightarrow> (\<exists>F best. solves (bbob_problem f n i) n 110 F best fo)"

lemma solvableI: "solves (bbob_problem f n i) n 110 F best fo \<Longrightarrow> solvable f n i fo"
  by (auto simp: solvable_def)

lemma solvable_separable:
  assumes "2 \<le> n" "n \<le> 44" "i \<le> 200000" "f \<in> {1, 2, 3, 4, 5, 8}" "bbob2009_compute_fopt f i = Inr (Real fo)"
  shows "solvable f n i fo"
proof -
  have f: "f \<le> 24" using assms(4) by auto
  define s where "s = bbob_seed (if f = 4 then 3 else f) i"
  have "seed_ok s" using assms(3) f by (simp add: s_def bbob_seed_small seed_ok_small)
  then obtain x where x: "instance_data f i s n x fo" using instance_exists assms f by metis
  consider "f = 1" | "f = 2" | "f = 3" | "f = 4" | "f = 5" | "f = 8" using assms(4) by auto
  then show ?thesis
  proof cases
    case 1 then show ?thesis using sphere_problem [OF x] by (intro solvableI) (simp add: bbob_problem_calls [unfolded One_nat_def] s_def)
  next
    case 2 then show ?thesis using ellipsoid_problem [OF x] by (intro solvableI) (simp add: bbob_problem_calls [unfolded One_nat_def] s_def)
  next
    case 3 then show ?thesis using rastrigin_problem [OF x] by (intro solvableI) (simp add: bbob_problem_calls [unfolded One_nat_def] s_def)
  next
    case 4 then show ?thesis using bueche_rastrigin_problem [OF x] by (intro solvableI) (simp add: bbob_problem_calls [unfolded One_nat_def] s_def)
  next
    case 5 then show ?thesis using linear_slope_problem [OF x] by (intro solvableI) (simp add: bbob_problem_calls [unfolded One_nat_def] s_def)
  next
    case 6 then show ?thesis using rosenbrock_problem [OF x] by (intro solvableI) (simp add: bbob_problem_calls [unfolded One_nat_def] s_def)
  qed
qed

lemma solvable_rotated:
  assumes "2 \<le> n" "n \<le> 44" "i \<le> 200000" "f \<le> 24" "f \<notin> {0, 1, 2, 3, 4, 5, 8, 20}"
    and "bbob2009_compute_fopt f i = Inr (Real fo)"
    and "rotation_without_nan (bbob_seed (if f = 18 then 17 else f) i) n"
    and "rotation_without_nan (bbob_seed (if f = 18 then 17 else f) i + 1000000) n"
  shows "solvable f n i fo"
proof -
  define s where "s = bbob_seed (if f = 18 then 17 else f) i"
  have ok: "seed_ok s" "seed_ok (s + 1000000)" "\<And>k. k < 101 \<Longrightarrow> seed_ok (s + int (1000 * k))"
    using assms(3,4) by (simp_all add: s_def bbob_seed_small seed_ok_small)
  obtain x x1 where x: "instance_data f i s n x fo" and x1: "instance_data f i (s + 1000000) n x1 fo"
    using instance_exists [OF _ assms(1,2,4,3,6)] ok(1,2) by metis
  obtain rot1 rs1 rot2 rs2 where r1: "rotation_data (s + 1000000) n rot1 rs1" and r2: "rotation_data s n rot2 rs2"
    using rotation_exists [OF ok(1) assms(1,2)] rotation_exists [OF ok(2) assms(1,2)] assms(7,8) by (metis s_def)
  obtain fo24 where fo24: "bbob2009_compute_fopt 24 i = Inr fo24" using fopt_exists [of 24 i] assms(3) by auto
  obtain g where g: "bbob2009_gauss n s = Inr (map Real g)" "length g = n"
    using bbob2009_gauss_ok [OF ok(1), of n] assms(2) by auto
  have "f \<in> {..24} - {0, 1, 2, 3, 4, 5, 8, 20}" using assms(4,5) by simp
  then have "f = 6 \<or> f = 7 \<or> f = 9 \<or> f = 10 \<or> f = 11 \<or> f = 12 \<or> f = 13 \<or> f = 14 \<or> f = 15 \<or> f = 16 \<or> f = 17 \<or> f = 18 \<or> f = 19 \<or> f = 21 \<or> f = 22 \<or> f = 23 \<or> f = 24"
    unfolding Diff_iff insert_iff empty_iff atMost_iff by presburger
  then consider "f = 6" | "f = 7" | "f = 9" | "f = 10" | "f = 11" | "f = 12" | "f = 13" | "f = 14" | "f = 15" | "f = 16" | "f = 17" | "f = 18" | "f = 19" | "f = 21" | "f = 22" | "f = 23" | "f = 24"
    by blast
  then show ?thesis
  proof cases
    case 1 then show ?thesis using attractive_sector_problem [OF x r1 r2] by (intro solvableI) (simp add: bbob_problem_calls s_def)
  next
    case 2 then show ?thesis using step_ellipsoid_problem [OF x r1 r2] by (intro solvableI) (simp add: bbob_problem_calls s_def)
  next
    case 3 then show ?thesis using rosenbrock_rotated_problem [OF x r2] by (intro solvableI) (simp add: bbob_problem_calls s_def)
  next
    case 4 then show ?thesis using ellipsoid_rotated_problem [OF x r1] by (intro solvableI) (simp add: bbob_problem_calls s_def)
  next
    case 5 then show ?thesis using discus_problem [OF x r1] by (intro solvableI) (simp add: bbob_problem_calls s_def)
  next
    case 6 then show ?thesis using bent_cigar_problem [OF x1 r1] by (intro solvableI) (simp add: bbob_problem_calls s_def)
  next
    case 7 then show ?thesis using sharp_ridge_problem [OF x r1 r2] by (intro solvableI) (simp add: bbob_problem_calls s_def)
  next
    case 8 then show ?thesis using different_powers_problem [OF x r1] by (intro solvableI) (simp add: bbob_problem_calls s_def)
  next
    case 9 then show ?thesis using rastrigin_rotated_problem [OF x r1 r2] by (intro solvableI) (simp add: bbob_problem_calls s_def)
  next
    case 10 then show ?thesis using weierstrass_problem [OF x r1 r2] by (intro solvableI) (simp add: bbob_problem_calls s_def)
  next
    case 11 then show ?thesis using schaffers_problem [OF x r1 r2, of 10] by (intro solvableI) (simp add: bbob_problem_calls s_def)
  next
    case 12 then show ?thesis using schaffers_problem [OF x r1 r2, of 1000] by (intro solvableI) (simp add: bbob_problem_calls s_def)
  next
    case 13 then show ?thesis using griewank_rosenbrock_problem [OF x r2] by (intro solvableI) (simp add: bbob_problem_calls s_def)
  next
    case 14 then show ?thesis using gallagher_problem [OF x r2, of 101] ok(3) by (auto simp: solvable_def bbob_problem_calls s_def)
  next
    case 15 then show ?thesis using gallagher_problem [OF x r2, of 21] ok(3) by (auto simp: solvable_def bbob_problem_calls s_def)
  next
    case 16 then show ?thesis using katsuura_problem [OF x r1 r2] by (intro solvableI) (simp add: bbob_problem_calls s_def)
  next
    case 17 then show ?thesis using lunacek_problem [OF x r1 r2 g fo24] by (auto simp: solvable_def bbob_problem_calls s_def)
  qed
qed

end
