(* ===== verification/Coco_Bbob_Runs.thy ===== *)
theory Coco_Bbob_Runs
  imports Coco_Bbob_Suite
begin

text \<open>
  Runs of evaluations: what a problem has recorded after any sequence of calls of
  \<open>coco_evaluate_function\<close>, and the properties of the bbob problems that a user relies on.
\<close>

section \<open>Sequences of evaluations\<close>

fun evaluate_points :: "coco_problem_t \<Rightarrow> double list list \<Rightarrow> (double list list \<times> coco_problem_t) result" where
  "evaluate_points p [] = Inr ([], p)"
| "evaluate_points p (x # xs) =
     rbind (coco_evaluate_function p x) (\<lambda>(y, p).
     rbind (evaluate_points p xs) (\<lambda>(ys, p). Inr (y # ys, p)))"

lemma evaluate_points_objective:
  assumes "objective_problem p n L F best fo" "\<forall>x \<in> set xs. length x = n"
  shows "\<exists>q. evaluate_points p (map (map Real) xs) = Inr (map (\<lambda>x. [Real (F x)]) xs, q)
    \<and> objective_problem q n L F best fo \<and> fields q = fold record_value (map F xs) (fields p)"
  using assms
proof (induction xs arbitrary: p)
  case (Cons x xs)
  then obtain q where q: "coco_evaluate_function p (map Real x) = Inr ([Real (F x)], q)"
    "objective_problem q n L F best fo" "fields q = record_value (F x) (fields p)"
    using coco_evaluate_function_objective [of p n L F best fo x] by auto
  with Cons.IH [OF q(2)] Cons.prems(2) show ?case by auto
qed simp

text \<open>\<open>observed p vs\<close>: the record of \<open>p\<close> is that of the values \<open>vs\<close>.\<close>

definition observed :: "coco_problem_s \<Rightarrow> real list \<Rightarrow> bool" where
  "observed p vs \<longleftrightarrow> evaluations p = length vs
     \<and> best_observed_fvalue p = Real (Min (insert DBL_MAX (set vs)))
     \<and> (let k = best_observed_evaluation p in
          if k = 0 then \<forall>v \<in> set vs. DBL_MAX \<le> v
          else k \<le> length vs \<and> vs ! (k - 1) < DBL_MAX \<and> (\<forall>v \<in> set vs. vs ! (k - 1) \<le> v)
            \<and> (\<forall>j < k - 1. vs ! (k - 1) < vs ! j))"

lemma observed_fresh: "fresh p \<Longrightarrow> observed p []"
  by (simp add: observed_def fresh_def)

lemma observed_record:
  assumes "observed p vs" "length vs + 1 < 2 ^ 64"
  shows "observed (record_value v p) (vs @ [v])"
proof -
  let ?m = "Min (insert DBL_MAX (set vs))" and ?k = "best_observed_evaluation p"
  have e: "evaluations p = length vs" "best_observed_fvalue p = Real ?m" using assms(1) by (simp_all add: observed_def)
  have set: "insert DBL_MAX (set (vs @ [v])) = insert v (insert DBL_MAX (set vs))" by auto
  have m: "Min (insert DBL_MAX (set (vs @ [v]))) = min v ?m" unfolding set by (subst Min_insert) auto
  have le: "?m \<le> DBL_MAX" "\<And>w. w \<in> set vs \<Longrightarrow> ?m \<le> w" by (auto intro: Min_le)
  have size: "size_t (Suc (length vs)) = Suc (length vs)" using assms(2) by simp
  show ?thesis
  proof (cases "v < ?m")
    case True
    moreover have "\<forall>j < length vs. v < vs ! j" using True le(2) by (meson nth_mem order_less_le_trans)
    moreover have "\<forall>w \<in> set vs. v \<le> w" using True le(2) by force
    ultimately show ?thesis using e m le(1) size
      by (simp add: observed_def record_value_def problem_increment_evaluate_function_def
          coco_problem_set_best_observed_f_value_def Let_def nth_append)
  next
    case False
    have k: "if ?k = 0 then \<forall>v \<in> set vs. DBL_MAX \<le> v
        else ?k \<le> length vs \<and> vs ! (?k - 1) < DBL_MAX \<and> (\<forall>v \<in> set vs. vs ! (?k - 1) \<le> v)
          \<and> (\<forall>j < ?k - 1. vs ! (?k - 1) < vs ! j)"
      using assms(1) unfolding observed_def Let_def by blast
    have "DBL_MAX \<le> v" if "?k = 0"
    proof -
      have "?m = DBL_MAX" using k that by (intro Min_eqI) auto
      then show ?thesis using False by simp
    qed
    moreover have "vs ! (?k - 1) \<le> v" if "?k \<noteq> 0"
    proof -
      have "?m = vs ! (?k - 1)" using k that by (intro Min_eqI) (auto simp: nth_mem)
      then show ?thesis using False by simp
    qed
    ultimately have q: "if ?k = 0 then \<forall>v \<in> set (vs @ [v]). DBL_MAX \<le> v
        else ?k \<le> length (vs @ [v]) \<and> (vs @ [v]) ! (?k - 1) < DBL_MAX
          \<and> (\<forall>w \<in> set (vs @ [v]). (vs @ [v]) ! (?k - 1) \<le> w)
          \<and> (\<forall>j < ?k - 1. (vs @ [v]) ! (?k - 1) < (vs @ [v]) ! j)"
      using k by (cases "?k = 0") (auto simp: nth_append)
    have r: "record_value v p = p\<lparr>evaluations := Suc (length vs)\<rparr>"
      using False e size by (simp add: record_value_def problem_increment_evaluate_function_def Let_def del: Min_gr_iff)
    have m2: "min v ?m = ?m" by (rule min_absorb2) (use False in \<open>simp only: not_less\<close>)
    have "evaluations (record_value v p) = length (vs @ [v])" by (simp add: r)
    moreover have "best_observed_fvalue (record_value v p) = Real (Min (insert DBL_MAX (set (vs @ [v]))))"
      unfolding m m2 e(2) [symmetric] by (simp add: r)
    moreover have "best_observed_evaluation (record_value v p) = ?k" by (simp add: r)
    ultimately show ?thesis using q unfolding observed_def Let_def by (simp only: simp_thms)
  qed
qed

lemma observed_fold:
  assumes "observed p ws" "length ws + length vs < 2 ^ 64"
  shows "observed (fold record_value vs p) (ws @ vs)"
  using assms
proof (induction vs arbitrary: p ws)
  case (Cons v vs)
  from Cons.IH [OF observed_record [OF Cons.prems(1)], of v] Cons.prems(2) show ?case by simp
qed simp

lemma fold_record_value_other:
  "best_value (fold record_value vs p) = best_value p"
  "final_target_delta (fold record_value vs p) = final_target_delta p"
  "number_of_objectives (fold record_value vs p) = number_of_objectives p"
  by (induction vs arbitrary: p) (simp_all add: record_value_def problem_increment_evaluate_function_def
      coco_problem_set_best_observed_f_value_def Let_def)

section \<open>The bbob problems\<close>

text \<open>
  The separable functions and Rosenbrock's need no rotation. \<open>rotations_available f d i\<close>: the
  rotations that the other functions compute contain no NaN.
\<close>

definition rotations_available :: "nat \<Rightarrow> nat \<Rightarrow> nat \<Rightarrow> bool" where
  "rotations_available f d i \<longleftrightarrow> f \<in> {1, 2, 3, 4, 5, 8}
     \<or> (let s = bbob_seed (if f = 18 then 17 else f) i
        in rotation_without_nan s d \<and> rotation_without_nan (s + 1000000) d)"

lemma bbob_problem_solved:
  assumes "1 \<le> f" "f \<le> 24" "f \<noteq> 20" "2 \<le> d" "d \<le> 44" "i \<le> 200000" "rotations_available f d i"
  obtains p F best fo where "bbob_problem f d i = Inr p" "solved p d 110 F best fo"
    "bbob2009_compute_fopt f i = Inr (Real fo)" "- 1000 \<le> fo" "fo \<le> 1000"
proof -
  obtain fo where fo: "bbob2009_compute_fopt f i = Inr (Real fo)" "- 1000 \<le> fo" "fo \<le> 1000"
    using fopt_exists assms(2,6) by blast
  have "solvable f d i fo"
  proof (cases "f \<in> {1, 2, 3, 4, 5, 8}")
    case True
    then show ?thesis using solvable_separable [OF assms(4-6)] fo(1) by blast
  next
    case False
    then have "f \<notin> {0, 1, 2, 3, 4, 5, 8, 20}" using assms(1,3) by auto
    then show ?thesis
      using solvable_rotated [OF assms(4-6,2)] fo(1) assms(7) False
      by (simp only: rotations_available_def Let_def simp_thms)
  qed
  then show thesis using fo that by (auto simp: solvable_def solves_def)
qed

lemma final_target_iff:
  assumes "observed q vs" "vs \<noteq> []" "number_of_objectives q = 1" "best_value q = [Real fo]"
    and "final_target_delta q = Real (1 / 10 ^ 8)" "fo \<le> 1000"
  shows "coco_problem_final_target_hit q \<longleftrightarrow> (\<exists>v \<in> set vs. v \<le> fo + 1 / 10 ^ 8)"
proof -
  have "\<not> DBL_MAX \<le> fo + 1 / 10 ^ 8" using assms(6) by (simp add: DBL_MAX_def)
  then have "Min (insert DBL_MAX (set vs)) \<le> fo + 1 / 10 ^ 8 \<longleftrightarrow> (\<exists>v \<in> set vs. v \<le> fo + 1 / 10 ^ 8)"
    by (subst Min_le_iff) auto
  moreover have "evaluations q = length vs" "best_observed_fvalue q = Real (Min (insert DBL_MAX (set vs)))"
    using assms(1) by (simp_all only: observed_def)
  ultimately show ?thesis using assms(2-5)
    by (simp only: coco_problem_final_target_hit_def) (simp add: Suc_le_eq)
qed



text \<open>
  C10. The bbob problems are minimisation problems with the optimum they say: evaluating a new problem at
  its best parameter returns exactly its best value, which is that of \<open>bbob2009_compute_fopt\<close>, the
  value at any finite point is not below it,
  and the evaluations of a point are all the same, whatever was evaluated before.
\<close>

theorem bbob_problem_optimum:
  assumes "1 \<le> f" "f \<le> 24" "f \<noteq> 20" "2 \<le> d" "d \<le> 44" "i \<le> 200000" "rotations_available f d i"
  shows "\<exists>p F best fo. bbob_problem f d i = Inr p \<and> best_parameter (fields p) = Some (map Real best)
    \<and> best_value (fields p) = [Real fo] \<and> bbob2009_compute_fopt f i = Inr (Real fo)
    \<and> length best = d \<and> F best = fo
    \<and> (\<forall>x. length x = d \<longrightarrow> fo \<le> F x)
    \<and> (\<forall>xs. (\<forall>x \<in> set xs. length x = d) \<longrightarrow>
         (\<exists>q. evaluate_points p (map (map Real) xs) = Inr (map (\<lambda>x. [Real (F x)]) xs, q)))"
proof -
  obtain p F best fo where p: "bbob_problem f d i = Inr p" "solved p d 110 F best fo"
    "bbob2009_compute_fopt f i = Inr (Real fo)"
    using bbob_problem_solved [OF assms] by metis
  have o: "objective_problem p d 110 F best fo" using p(2) by (simp add: solved_def new_problem_def)
  have "\<exists>q. evaluate_points p (map (map Real) xs) = Inr (map (\<lambda>x. [Real (F x)]) xs, q)"
    if "\<forall>x \<in> set xs. length x = d" for xs
    using evaluate_points_objective [OF o that] by blast
  with p(1,3) o solvedD(2) [OF p(2)] show ?thesis unfolding objective_problem_def by blast
qed

lemma bbob_problem_optimum_witness:
  "\<exists>p F best fo. bbob_problem 8 3 5 = Inr p \<and> best_parameter (fields p) = Some (map Real best)
    \<and> best_value (fields p) = [Real fo] \<and> bbob2009_compute_fopt 8 5 = Inr (Real fo)
    \<and> length best = 3 \<and> F best = fo
    \<and> (\<forall>x. length x = 3 \<longrightarrow> fo \<le> F x)
    \<and> (\<forall>xs. (\<forall>x \<in> set xs. length x = 3) \<longrightarrow>
         (\<exists>q. evaluate_points p (map (map Real) xs) = Inr (map (\<lambda>x. [Real (F x)]) xs, q)))"
  by (rule bbob_problem_optimum) (simp_all add: rotations_available_def)

text \<open>
  C11. After any run of fewer than 2^64 evaluations of finite points the record of a bbob problem is
  that of the run: the number of evaluations is its length, the best observed value is the smallest
  value returned (or the initial DBL_MAX), the best observed evaluation is the number, from 1, of the
  first evaluation that returned it, and the final target is hit exactly when some value came within
  1e-8 of the optimal value.
\<close>

theorem bbob_problem_run_observed:
  assumes "1 \<le> f" "f \<le> 24" "f \<noteq> 20" "2 \<le> d" "d \<le> 44" "i \<le> 200000" "rotations_available f d i"
    and "\<forall>x \<in> set xs. length x = d" "xs \<noteq> []" "length xs < 2 ^ 64"
  shows "\<exists>p fo vs q. bbob_problem f d i = Inr p \<and> bbob2009_compute_fopt f i = Inr (Real fo)
    \<and> evaluate_points p (map (map Real) xs) = Inr (map (\<lambda>v. [Real v]) vs, q) \<and> length vs = length xs
    \<and> observed (fields q) vs \<and> (\<forall>v \<in> set vs. fo \<le> v)
    \<and> (coco_problem_final_target_hit (fields q) \<longleftrightarrow> (\<exists>v \<in> set vs. v \<le> fo + 1 / 10 ^ 8))"
proof -
  obtain p F best fo where p: "bbob_problem f d i = Inr p" "solved p d 110 F best fo"
    "bbob2009_compute_fopt f i = Inr (Real fo)" "fo \<le> 1000"
    using bbob_problem_solved [OF assms(1-7)] by metis
  have o: "objective_problem p d 110 F best fo" and fresh: "fresh (fields p)"
    using p(2) by (simp_all add: solved_def new_problem_def)
  let ?vs = "map F xs"
  obtain q where q: "evaluate_points p (map (map Real) xs) = Inr (map (\<lambda>x. [Real (F x)]) xs, q)"
    "objective_problem q d 110 F best fo" "fields q = fold record_value ?vs (fields p)"
    using evaluate_points_objective [OF o assms(8)] by blast
  have obs: "observed (fields q) ?vs"
    unfolding q(3) using observed_fold [OF observed_fresh [OF fresh], of ?vs] assms(10) by simp
  moreover have "number_of_objectives (fields q) = 1" "best_value (fields q) = [Real fo]"
    using q(2) by (simp_all add: objective_problem_def well_formed_def shape_def)
  moreover have "final_target_delta (fields q) = Real (1 / 10 ^ 8)"
    using fresh by (simp add: q(3) fold_record_value_other fresh_def)
  ultimately have "coco_problem_final_target_hit (fields q) \<longleftrightarrow> (\<exists>v \<in> set ?vs. v \<le> fo + 1 / 10 ^ 8)"
    using assms(9) p(4) by (intro final_target_iff) auto
  moreover have "\<forall>v \<in> set ?vs. fo \<le> v" using o assms(8) by (auto simp: objective_problem_def)
  moreover have "map (\<lambda>v. [Real v]) ?vs = map (\<lambda>x. [Real (F x)]) xs" by simp
  ultimately show ?thesis using p(1,3) q(1) obs by (metis length_map)
qed

lemma bbob_problem_run_observed_witness:
  "\<exists>p fo vs q. bbob_problem 5 2 3 = Inr p \<and> bbob2009_compute_fopt 5 3 = Inr (Real fo)
    \<and> evaluate_points p (map (map Real) [[1, 2], [0, 0 :: real]]) = Inr (map (\<lambda>v. [Real v]) vs, q)
    \<and> length vs = length [[1, 2], [0, 0 :: real]]
    \<and> observed (fields q) vs \<and> (\<forall>v \<in> set vs. fo \<le> v)
    \<and> (coco_problem_final_target_hit (fields q) \<longleftrightarrow> (\<exists>v \<in> set vs. v \<le> fo + 1 / 10 ^ 8))"
  by (rule bbob_problem_run_observed) (simp_all add: rotations_available_def)

end
