(* ===== verification/Coco_Permutations.thy ===== *)
theory Coco_Permutations
  imports Coco_Bbob "HOL-Library.Multiset"
begin

text \<open>
  The permutations of the large-scale suite, \<open>transform_vars_permutation_helpers.c\<close>, and the sizes of
  its rotated blocks. The global \<open>perm_random_data\<close> that the comparison reads is an argument.
\<close>

section \<open>Sorting indices by random data\<close>

text \<open>\<open>qsort\<close> of the C library; it leaves the order of equal elements open, here they keep theirs.\<close>

fun insert_by :: "('a \<Rightarrow> 'a \<Rightarrow> int) \<Rightarrow> 'a \<Rightarrow> 'a list \<Rightarrow> 'a list" where
  "insert_by compar x [] = [x]"
| "insert_by compar x (y # ys) = (if compar x y \<le> 0 then x # y # ys else y # insert_by compar x ys)"

definition qsort :: "('a \<Rightarrow> 'a \<Rightarrow> int) \<Rightarrow> 'a list \<Rightarrow> 'a list" where
  "qsort compar xs = foldr (insert_by compar) xs []"

definition f_compare_doubles_for_random_permutation :: "double list \<Rightarrow> nat \<Rightarrow> nat \<Rightarrow> int" where
  "f_compare_doubles_for_random_permutation perm_random_data a b =
     (let temp = perm_random_data ! a - perm_random_data ! b
      in if temp > Real 0 then 1 else if temp < Real 0 then - 1 else 0)"

definition coco_compute_random_permutation :: "int \<Rightarrow> nat \<Rightarrow> nat list result" where
  "coco_compute_random_permutation seed n =
     rbind (coco_allocate_vector n) (\<lambda>_.
     rbind (bbob2009_gauss n seed) (\<lambda>perm_random_data.
       Inr (qsort (f_compare_doubles_for_random_permutation perm_random_data) [0..<n])))"

definition coco_compute_permutation_from_sequence :: "double list \<Rightarrow> nat \<Rightarrow> nat list result" where
  "coco_compute_permutation_from_sequence seq n =
     rbind (coco_allocate_vector n) (\<lambda>_.
     rbind (copy_vector seq n) (\<lambda>perm_random_data.
       Inr (qsort (f_compare_doubles_for_random_permutation perm_random_data) [0..<n])))"

section \<open>Truncated uniform swaps\<close>

definition coco_random_unif_integer :: "int \<Rightarrow> int \<Rightarrow> int \<Rightarrow> int result" where
  "coco_random_unif_integer lower_bound upper_bound seed =
     rbind (bbob2009_unif 1 seed) (\<lambda>tmp_uniform.
       let range = upper_bound - lower_bound + 1
       in Inr (c_truncate (tmp_uniform ! 0 * of_int range) + lower_bound))"

definition swap_elements :: "'a list \<Rightarrow> nat \<Rightarrow> nat \<Rightarrow> 'a list result" where
  "swap_elements P i j = rbind (rnth P i) (\<lambda>a. rbind (rnth P j) (\<lambda>b. Inr (P[i := b, j := a])))"

text \<open>The loop over \<open>idx_swap\<close>: the second variable is drawn from the range of the first one without it.\<close>

fun swap_loop :: "nat list \<Rightarrow> nat list \<Rightarrow> int \<Rightarrow> nat \<Rightarrow> nat \<Rightarrow> nat list \<Rightarrow> nat list result" where
  "swap_loop [] idx_order seed n swap_range P = Inr P"
| "swap_loop (idx_swap # rest) idx_order seed n swap_range P =
     rbind (rnth idx_order idx_swap) (\<lambda>first.
       let lower_bound = (if first < swap_range then 0 else first - swap_range);
           upper_bound = (if first + swap_range > n - 1 then n - 1 else first + swap_range)
       in rbind (coco_random_unif_integer (int lower_bound) (int upper_bound - 1)
             (seed + (1 + int idx_swap) * 1000)) (\<lambda>r.
           let second = nat (r mod 2 ^ 64);
               second = (if second \<ge> first then second + 1 else second)
           in rbind (swap_elements P first second) (swap_loop rest idx_order seed n swap_range)))"

text \<open>
  Without a range, the code calls \<open>coco_compute_random_permutation\<close>, which frees the global array, and
  frees it again at the end.
\<close>

definition coco_compute_truncated_uniform_swap_permutation ::
    "int \<Rightarrow> nat \<Rightarrow> nat \<Rightarrow> nat \<Rightarrow> nat list result" where
  "coco_compute_truncated_uniform_swap_permutation seed n nb_swaps swap_range =
     (if n \<le> 40 then Inr [0..<n]
      else rbind (bbob2009_unif n seed) (\<lambda>perm_random_data.
        if swap_range > 0
        then let idx_order = qsort (f_compare_doubles_for_random_permutation (map Real perm_random_data)) [0..<n]
             in swap_loop [0..<nb_swaps] idx_order seed n swap_range [0..<n]
        else rbind (coco_compute_random_permutation seed n) (\<lambda>_. Inl Double_free)))"

definition coco_get_swap_range :: "nat \<Rightarrow> string \<Rightarrow> nat result" where
  "coco_get_swap_range dimension suite_name =
     (if suite_name = ''bbob-largescale'' then Inr (dimension div 3)
      else Inl (Coco_error ''coco_get_swap_range''))"

definition coco_get_nb_swaps :: "nat \<Rightarrow> string \<Rightarrow> nat result" where
  "coco_get_nb_swaps dimension suite_name =
     (if suite_name = ''bbob-largescale'' then Inr dimension
      else Inl (Coco_error ''coco_get_nb_swaps''))"

section \<open>Sizes of blocks\<close>

text \<open>The blocks of the large-scale suite; \<open>None\<close> (NULL) for another suite.\<close>

definition coco_get_block_sizes :: "nat \<Rightarrow> string \<Rightarrow> nat list option result" where
  "coco_get_block_sizes dimension suite_name =
     (if suite_name = ''bbob-largescale''
      then rbind (coco_rotation_matrix_block_size dimension) (\<lambda>block_size.
        if block_size = 0 then Inl Div_by_zero
        else
          let nb_blocks = dimension div block_size + (if dimension mod block_size > 0 then 1 else 0)
          in Inr (Some (replicate (nb_blocks - 1) block_size @ [dimension - (nb_blocks - 1) * block_size])))
      else Inr None)"

section \<open>Permutations\<close>

lemma mset_insert_by [simp]: "mset (insert_by compar x ys) = add_mset x (mset ys)"
  by (induction ys) auto

lemma mset_qsort [simp]: "mset (qsort compar xs) = mset xs"
  unfolding qsort_def by (induction xs) auto

lemma length_qsort [simp]: "length (qsort compar xs) = length xs"
  using mset_qsort by (metis size_mset)

lemma set_qsort [simp]: "set (qsort compar xs) = set xs"
  using mset_qsort by (metis set_mset_mset)

lemma compare_Real:
  "i < length u \<Longrightarrow> j < length u \<Longrightarrow>
    f_compare_doubles_for_random_permutation (map Real u) i j \<le> 0 \<longleftrightarrow> u ! i \<le> u ! j"
  by (simp add: f_compare_doubles_for_random_permutation_def Let_def minus_double_def)

lemma insert_by_insort_key:
  assumes "\<And>y. y \<in> set ys \<Longrightarrow> compar x y \<le> 0 \<longleftrightarrow> (f x :: 'k :: linorder) \<le> f y"
  shows "insert_by compar x ys = insort_key f x ys"
  using assms by (induction ys) auto

lemma qsort_sort_key:
  assumes "\<And>x y. x \<in> set xs \<Longrightarrow> y \<in> set xs \<Longrightarrow> compar x y \<le> 0 \<longleftrightarrow> (f x :: 'k :: linorder) \<le> f y"
  shows "qsort compar xs = sort_key f xs"
  using assms
proof (induction xs)
  case (Cons x xs)
  then have "qsort compar xs = sort_key f xs" by simp
  then have "qsort compar (x # xs) = insert_by compar x (sort_key f xs)"
    by (simp add: qsort_def)
  also have "\<dots> = insort_key f x (sort_key f xs)"
    using Cons.prems by (intro insert_by_insort_key) simp
  finally show ?case by simp
qed (simp add: qsort_def)

lemma qsort_random_data:
  "qsort (f_compare_doubles_for_random_permutation (map Real u)) [0..<length u] = sort_key (\<lambda>i. u ! i) [0..<length u]"
  by (rule qsort_sort_key) (simp add: compare_Real)

text \<open>One swap of two different positions that are at most \<open>r\<close> apart.\<close>

definition local_swap :: "nat \<Rightarrow> (nat list \<times> nat list) set" where
  "local_swap r = {(P, Q). \<exists>i j. i < length P \<and> j < length P \<and> i \<noteq> j \<and> i \<le> j + r \<and> j \<le> i + r
     \<and> Q = P[i := P ! j, j := P ! i]}"

lemma local_swap_mset: "(P, Q) \<in> local_swap r \<Longrightarrow> mset Q = mset P"
  by (auto simp: local_swap_def mset_swap)

lemma local_swaps_mset: "(P, Q) \<in> local_swap r ^^ k \<Longrightarrow> mset Q = mset P"
proof (induction k arbitrary: Q)
  case (Suc k)
  then show ?case by (auto dest: local_swap_mset)
qed simp

lemma c_truncate_range:
  assumes "0 < u" "u < 1" "0 < k"
  shows "0 \<le> c_truncate (u * of_int k)" "c_truncate (u * of_int k) < k"
proof -
  have "0 \<le> u * of_int k" "u * of_int k < of_int k" using assms by simp_all
  then show "0 \<le> c_truncate (u * of_int k)" "c_truncate (u * of_int k) < k"
    by (simp_all add: c_truncate_def floor_less_iff)
qed

lemma random_unif_integer_range:
  assumes "lower \<le> upper" "seed_ok seed"
  shows "\<exists>r. coco_random_unif_integer lower upper seed = Inr r \<and> lower \<le> r \<and> r \<le> upper"
proof -
  obtain u where u: "bbob2009_unif 1 seed = Inr u" "length u = 1" "\<forall>v \<in> set u. 0 < v \<and> v < 1"
    using bbob2009_unif_ok [OF assms(2)] by blast
  then have "0 < u ! 0" "u ! 0 < 1" by auto
  with c_truncate_range [of "u ! 0" "upper - lower + 1"] u assms(1) show ?thesis
    by (auto simp: coco_random_unif_integer_def Let_def)
qed

lemma swap_elements_local:
  assumes "i < length P" "j < length P" "i \<noteq> j" "i \<le> j + r" "j \<le> i + r"
  shows "\<exists>Q. swap_elements P i j = Inr Q \<and> (P, Q) \<in> local_swap r \<and> length Q = length P"
  using assms by (auto simp: swap_elements_def local_swap_def)

lemma swap_bounds:
  fixes first n r :: nat and s :: int
  defines "lower \<equiv> (if first < r then 0 else first - r)"
    and "upper \<equiv> (if first + r > n - 1 then n - 1 else first + r)"
  assumes "first < n" "0 < r" "1 < n"
  shows "int lower \<le> int upper - 1"
    and "int lower \<le> s \<Longrightarrow> s \<le> int upper - 1 \<Longrightarrow> second = (if nat s \<ge> first then nat s + 1 else nat s) \<Longrightarrow>
      second < n \<and> first \<noteq> second \<and> first \<le> second + r \<and> second \<le> first + r"
  using assms(3-) unfolding lower_def upper_def by (auto split: if_splits)

lemma swap_loop_local:
  assumes "\<forall>k \<in> set ks. k < length idx_order \<and> seed_ok (seed + (1 + int k) * 1000)"
    and "\<forall>i \<in> set idx_order. i < n" "length P = n" "0 < r" "1 < n" "n < 2 ^ 63"
  shows "\<exists>Q. swap_loop ks idx_order seed n r P = Inr Q \<and> (P, Q) \<in> local_swap r ^^ length ks"
  using assms
proof (induction ks arbitrary: P)
  case (Cons k ks)
  let ?first = "idx_order ! k"
  let ?lower = "if ?first < r then 0 else ?first - r"
  let ?upper = "if ?first + r > n - 1 then n - 1 else ?first + r"
  have first: "?first < n" using Cons.prems by simp
  note bounds = swap_bounds [OF first Cons.prems(4,5)]
  obtain s where s: "coco_random_unif_integer (int ?lower) (int ?upper - 1) (seed + (1 + int k) * 1000) = Inr s"
    "int ?lower \<le> s" "s \<le> int ?upper - 1"
    using random_unif_integer_range [OF bounds(1)] Cons.prems(1) by auto
  have "0 \<le> s" "s < 2 ^ 64" using s(2,3) first Cons.prems(6) by (auto split: if_splits)
  then have mod: "s mod 2 ^ 64 = s" by (rule mod_pos_pos_trivial)
  let ?second = "if nat s \<ge> ?first then nat s + 1 else nat s"
  have "?second < n \<and> ?first \<noteq> ?second \<and> ?first \<le> ?second + r \<and> ?second \<le> ?first + r"
    using bounds(2) [OF s(2,3) refl] .
  then obtain P' where P': "swap_elements P ?first ?second = Inr P'" "(P, P') \<in> local_swap r" "length P' = n"
    using swap_elements_local [of ?first P ?second r] first Cons.prems(3) by auto
  obtain Q where Q: "swap_loop ks idx_order seed n r P' = Inr Q" "(P', Q) \<in> local_swap r ^^ length ks"
    using Cons.IH [of P'] Cons.prems P'(3) by auto
  have "(P, Q) \<in> local_swap r ^^ Suc (length ks)" by (rule relpow_Suc_I2 [OF P'(2) Q(2)])
  moreover have "swap_loop (k # ks) idx_order seed n r P = Inr Q"
    using Cons.prems(1) Q(1) by (simp only: swap_loop.simps rnth_in rbind_simps Let_def s(1) mod P'(1) list.set_intros)
  ultimately show ?case by auto
qed simp

section \<open>Properties\<close>

text \<open>
  C26. The permutation of a large-scale problem is the identity in dimension 40 and below. Above, for a
  range and a number of swaps that is at most the dimension, the code returns a list that comes from the
  identity by exactly \<open>nb_swaps\<close> swaps of two different positions at most \<open>swap_range\<close> apart, so it is a
  permutation.
\<close>

theorem truncated_uniform_swaps:
  assumes "0 < swap_range" "nb_swaps \<le> n" "n < 2 ^ 20" "0 \<le> seed" "seed < 2 ^ 30"
  shows "\<exists>P. coco_compute_truncated_uniform_swap_permutation seed n nb_swaps swap_range = Inr P
    \<and> mset P = mset [0..<n]
    \<and> (if n \<le> 40 then P = [0..<n] else ([0..<n], P) \<in> local_swap swap_range ^^ nb_swaps)"
proof (cases "n \<le> 40")
  case False
  obtain u where u: "bbob2009_unif n seed = Inr u"
    using bbob2009_unif_ok [of seed n] assms by (auto simp: seed_ok_def modulus_def)
  let ?order = "qsort (f_compare_doubles_for_random_permutation (map Real u)) [0..<n]"
  have "seed_ok (seed + (1 + int k) * 1000)" if "k < n" for k
    using that assms by (simp add: seed_ok_def modulus_def)
  then have "\<exists>Q. swap_loop [0..<nb_swaps] ?order seed n swap_range [0..<n] = Inr Q
      \<and> ([0..<n], Q) \<in> local_swap swap_range ^^ length [0..<nb_swaps]"
    using assms False by (intro swap_loop_local) auto
  then show ?thesis
    using False assms(1) u local_swaps_mset
    by (auto simp: coco_compute_truncated_uniform_swap_permutation_def Let_def)
qed (simp add: coco_compute_truncated_uniform_swap_permutation_def)

theorem truncated_uniform_swaps_witness:
  "\<exists>P. coco_compute_truncated_uniform_swap_permutation 1000001 160 160 53 = Inr P
    \<and> mset P = mset [0..<160] \<and> ([0..<160], P) \<in> local_swap 53 ^^ 160"
  using truncated_uniform_swaps [of 53 160 160 1000001] by simp

text \<open>
  Without a range the code releases the random data twice.
\<close>

theorem swaps_without_range_free_twice:
  assumes "40 < n" "n < 3000" "0 \<le> seed" "seed < 2 ^ 30"
  shows "coco_compute_truncated_uniform_swap_permutation seed n nb_swaps 0 = Inl Double_free"
proof -
  have ok: "seed_ok seed" using assms by (simp add: seed_ok_def modulus_def)
  obtain u where u: "bbob2009_unif n seed = Inr u" using bbob2009_unif_ok [OF ok] by blast
  obtain u2 where u2: "bbob2009_unif (2 * n) seed = Inr u2" using bbob2009_unif_ok [OF ok] by blast
  show ?thesis
    using assms u u2 by (simp add: coco_compute_truncated_uniform_swap_permutation_def
      coco_compute_random_permutation_def coco_allocate_vector_def bbob2009_gauss_def)
qed

theorem swaps_without_range_free_twice_witness:
  "coco_compute_truncated_uniform_swap_permutation 1 41 41 0 = Inl Double_free"
  by (rule swaps_without_range_free_twice) simp_all

end
