(* ===== verification/Coco_Largescale.thy ===== *)
theory Coco_Largescale
  imports Coco_Permutations
begin

text \<open>
  The large-scale problems: the generalized functions (\<open>f_*_generalized.c\<close>) and the problems whose
  rotations are block-diagonal matrices between two permutations (\<open>f_*_permblockdiag_bbob_problem_allocate\<close>
  in the files \<open>f_*.c\<close>). The step ellipsoid, Gallagher's and Lunacek's functions of the large-scale suite share mutable
  data between the problems of an onion (\<open>versatile_data\<close>) and are not modelled.
\<close>

section \<open>Basic problems\<close>

text \<open>The data of a generalized function are part of its function pointer.\<close>

definition allocate_generalized ::
    "string \<Rightarrow> string \<Rightarrow> string \<Rightarrow> nat \<Rightarrow> raw_function \<Rightarrow> nat \<Rightarrow> double \<Rightarrow> coco_problem_s result" where
  "allocate_generalized name template prefix width function n best =
     rbind (coco_problem_allocate_from_scalars name function n (Real (- 5)) (Real 5) best)
       (coco_problem_set_id template (prefix @ ''_d'' @ pad width (show_nat n)))"

definition f_bent_cigar_generalized_allocate :: "nat \<Rightarrow> nat \<Rightarrow> coco_problem_t result" where
  "f_bent_cigar_generalized_allocate n denom =
     rbind (allocate_generalized ''generalized bent cigar function'' ''%s_d%04lu'' ''bent_cigar'' 4
         (Bent_cigar_generalized denom) n (Real 0))
       (evaluate_at_best (f_bent_cigar_generalized_evaluate denom))"

definition f_discus_generalized_allocate :: "nat \<Rightarrow> nat \<Rightarrow> coco_problem_t result" where
  "f_discus_generalized_allocate n denom =
     rbind (allocate_generalized ''generalized discus function'' ''%s_d%04lu'' ''discus_generalized'' 4
         (Discus_generalized denom) n (Real 0))
       (evaluate_at_best (f_discus_generalized_evaluate denom))"

definition f_sharp_ridge_generalized_allocate :: "nat \<Rightarrow> nat \<Rightarrow> coco_problem_t result" where
  "f_sharp_ridge_generalized_allocate n denom =
     rbind (allocate_generalized ''sharp ridge function'' ''%s_d%02lu'' ''sharp_ridge_generalized'' 2
         (Sharp_ridge_generalized denom) n (Real 0))
       (evaluate_at_best (f_sharp_ridge_generalized_evaluate denom))"

definition f_schwefel_generalized_allocate :: "nat \<Rightarrow> coco_problem_t result" where
  "f_schwefel_generalized_allocate n =
     rbind (allocate_generalized ''Schwefel function'' ''%s_d%02lu'' ''schwefel'' 2
         Schwefel_generalized n (Real (42096874633 / 10 ^ 8)))
       (evaluate_at_best f_schwefel_generalized_evaluate)"

section \<open>Parts of the constructions\<close>

text \<open>
  The block sizes with the block rotation of a seed, a permutation, and the three transformations that
  put the rotation between two permutations.
\<close>

definition block_rotation :: "int \<Rightarrow> nat \<Rightarrow> (nat list \<times> double list list) result" where
  "block_rotation seed dimension =
     rbind (coco_get_block_sizes dimension ''bbob-largescale'') (\<lambda>block_sizes.
     case block_sizes of
       None \<Rightarrow> Inl Null_deref
     | Some block_sizes \<Rightarrow>
         rbind (coco_allocate_blockmatrix dimension block_sizes) (\<lambda>_.
         rbind (coco_compute_blockrotation seed dimension block_sizes) (\<lambda>B. Inr (block_sizes, B))))"

definition swap_permutation :: "int \<Rightarrow> nat \<Rightarrow> nat list result" where
  "swap_permutation seed dimension =
     rbind (coco_get_swap_range dimension ''bbob-largescale'') (\<lambda>swap_range.
     rbind (coco_get_nb_swaps dimension ''bbob-largescale'') (\<lambda>nb_swaps.
       coco_compute_truncated_uniform_swap_permutation seed dimension nb_swaps swap_range))"

definition permuted_rotation ::
    "coco_problem_t \<Rightarrow> nat list \<Rightarrow> nat list \<times> double list list \<Rightarrow> nat list \<Rightarrow> nat \<Rightarrow> coco_problem_t result" where
  "permuted_rotation problem P B P' dimension =
     rbind (transform_vars_permutation problem P dimension) (\<lambda>problem.
     rbind (transform_vars_blockrotation problem (snd B) dimension (fst B)) (\<lambda>problem.
       transform_vars_permutation problem P' dimension))"

text \<open>The four permutations of a problem with two rotations.\<close>

definition four_permutations :: "int \<Rightarrow> nat \<Rightarrow> (nat list \<times> nat list \<times> nat list \<times> nat list) result" where
  "four_permutations seed dimension =
     rbind (swap_permutation seed dimension) (\<lambda>P. rbind (swap_permutation (seed + 1000000) dimension) (\<lambda>Q.
     rbind (swap_permutation (seed + 2000000) dimension) (\<lambda>R.
     rbind (swap_permutation (seed + 3000000) dimension) (\<lambda>S. Inr (P, Q, R, S)))))"

section \<open>The problems\<close>

definition f_attractive_sector_permblockdiag_bbob_problem_allocate :: bbob_constructor where
  "f_attractive_sector_permblockdiag_bbob_problem_allocate function dimension instance rseed id_template name_template =
     rbind (coco_allocate_vector dimension) (\<lambda>_.
     rbind (bbob2009_compute_fopt function instance) (\<lambda>fopt.
     rbind (optimum rseed dimension) (\<lambda>xopt.
     rbind (block_rotation (rseed + 1000000) dimension) (\<lambda>B1.
     rbind (block_rotation rseed dimension) (\<lambda>B2.
     rbind (four_permutations (rseed + 2000000) dimension) (\<lambda>(P11, P12, P21, P22).
     rbind (f_attractive_sector_allocate dimension xopt) (\<lambda>problem.
     rbind (transform_obj_norm_by_dim problem) (\<lambda>problem.
     rbind (transform_obj_oscillate problem) (\<lambda>problem.
     rbind (transform_obj_power problem (Real (9 / 10))) (\<lambda>problem.
     rbind (transform_obj_shift problem fopt) (\<lambda>problem.
     rbind (permuted_rotation problem P22 B1 P21 dimension) (\<lambda>problem.
     rbind (transform_vars_conditioning problem (Real 10)) (\<lambda>problem.
     rbind (permuted_rotation problem P12 B2 P11 dimension) (\<lambda>problem.
     rbind (transform_vars_shift problem xopt False) (\<lambda>problem.
       name_problem id_template name_template ''2-moderate'' function instance dimension problem)))))))))))))))"

definition f_ellipsoid_permblockdiag_bbob_problem_allocate :: bbob_constructor where
  "f_ellipsoid_permblockdiag_bbob_problem_allocate function dimension instance rseed id_template name_template =
     rbind (coco_allocate_vector dimension) (\<lambda>_.
     rbind (optimum rseed dimension) (\<lambda>xopt.
     rbind (bbob2009_compute_fopt function instance) (\<lambda>fopt.
     rbind (block_rotation (rseed + 1000000) dimension) (\<lambda>B.
     rbind (swap_permutation (rseed + 2000000) dimension) (\<lambda>P1.
     rbind (swap_permutation (rseed + 3000000) dimension) (\<lambda>P2.
     rbind (f_ellipsoid_allocate dimension) (\<lambda>problem.
     rbind (transform_vars_oscillate problem) (\<lambda>problem.
     rbind (permuted_rotation problem P2 B P1 dimension) (\<lambda>problem.
     rbind (transform_vars_shift problem xopt False) (\<lambda>problem.
     rbind (transform_obj_norm_by_dim problem) (\<lambda>problem.
     rbind (transform_obj_shift problem fopt) (\<lambda>problem.
       name_problem id_template name_template ''3-ill-conditioned'' function instance dimension problem))))))))))))"

definition f_different_powers_permblockdiag_bbob_problem_allocate :: bbob_constructor where
  "f_different_powers_permblockdiag_bbob_problem_allocate function dimension instance rseed id_template name_template =
     rbind (coco_allocate_vector dimension) (\<lambda>_.
     rbind (bbob2009_compute_fopt function instance) (\<lambda>fopt.
     rbind (optimum rseed dimension) (\<lambda>xopt.
     rbind (block_rotation (rseed + 1000000) dimension) (\<lambda>B.
     rbind (swap_permutation (rseed + 2000000) dimension) (\<lambda>P1.
     rbind (swap_permutation (rseed + 3000000) dimension) (\<lambda>P2.
     rbind (f_different_powers_allocate dimension) (\<lambda>problem.
     rbind (permuted_rotation problem P2 B P1 dimension) (\<lambda>problem.
     rbind (transform_vars_shift problem xopt False) (\<lambda>problem.
     rbind (transform_obj_norm_by_dim problem) (\<lambda>problem.
     rbind (transform_obj_shift problem fopt) (\<lambda>problem.
       name_problem id_template name_template ''3-ill-conditioned'' function instance dimension problem)))))))))))"

definition f_bent_cigar_generalized_permblockdiag_bbob_problem_allocate :: bbob_constructor where
  "f_bent_cigar_generalized_permblockdiag_bbob_problem_allocate function dimension instance rseed id_template name_template =
     rbind (coco_allocate_vector dimension) (\<lambda>_.
     rbind (optimum (rseed + 1000000) dimension) (\<lambda>xopt.
     rbind (bbob2009_compute_fopt function instance) (\<lambda>fopt.
     rbind (block_rotation (rseed + 1000000) dimension) (\<lambda>B.
     rbind (swap_permutation (rseed + 2000000) dimension) (\<lambda>P1.
     rbind (swap_permutation (rseed + 3000000) dimension) (\<lambda>P2.
     rbind (f_bent_cigar_generalized_allocate dimension 40) (\<lambda>problem.
     rbind (permuted_rotation problem P2 B P1 dimension) (\<lambda>problem.
     rbind (transform_vars_asymmetric problem (Real (5 / 10))) (\<lambda>problem.
     rbind (permuted_rotation problem P2 B P1 dimension) (\<lambda>problem.
     rbind (transform_vars_shift problem xopt False) (\<lambda>problem.
     rbind (transform_obj_norm_by_dim problem) (\<lambda>problem.
     rbind (transform_obj_shift problem fopt) (\<lambda>problem.
       name_problem id_template name_template ''3-ill-conditioned'' function instance dimension problem)))))))))))))"

definition f_discus_generalized_permblockdiag_bbob_problem_allocate :: bbob_constructor where
  "f_discus_generalized_permblockdiag_bbob_problem_allocate function dimension instance rseed id_template name_template =
     rbind (coco_allocate_vector dimension) (\<lambda>_.
     rbind (optimum rseed dimension) (\<lambda>xopt.
     rbind (bbob2009_compute_fopt function instance) (\<lambda>fopt.
     rbind (block_rotation (rseed + 1000000) dimension) (\<lambda>B.
     rbind (swap_permutation (rseed + 2000000) dimension) (\<lambda>P1.
     rbind (swap_permutation (rseed + 3000000) dimension) (\<lambda>P2.
     rbind (f_discus_generalized_allocate dimension 40) (\<lambda>problem.
     rbind (transform_vars_oscillate problem) (\<lambda>problem.
     rbind (permuted_rotation problem P2 B P1 dimension) (\<lambda>problem.
     rbind (transform_vars_shift problem xopt False) (\<lambda>problem.
     rbind (transform_obj_norm_by_dim problem) (\<lambda>problem.
     rbind (transform_obj_shift problem fopt) (\<lambda>problem.
       name_problem id_template name_template ''3-ill-conditioned'' function instance dimension problem))))))))))))"

definition f_sharp_ridge_generalized_permblockdiag_bbob_problem_allocate :: bbob_constructor where
  "f_sharp_ridge_generalized_permblockdiag_bbob_problem_allocate function dimension instance rseed id_template name_template =
     rbind (coco_allocate_vector dimension) (\<lambda>_.
     rbind (bbob2009_compute_fopt function instance) (\<lambda>fopt.
     rbind (optimum rseed dimension) (\<lambda>xopt.
     rbind (block_rotation (rseed + 1000000) dimension) (\<lambda>B1.
     rbind (block_rotation rseed dimension) (\<lambda>B2.
     rbind (four_permutations (rseed + 3000000) dimension) (\<lambda>(P11, P21, P12, P22).
     rbind (f_sharp_ridge_generalized_allocate dimension 40) (\<lambda>problem.
     rbind (permuted_rotation problem P21 B1 P11 dimension) (\<lambda>problem.
     rbind (transform_vars_conditioning problem (Real 10)) (\<lambda>problem.
     rbind (permuted_rotation problem P22 B2 P12 dimension) (\<lambda>problem.
     rbind (transform_vars_shift problem xopt False) (\<lambda>problem.
     rbind (transform_obj_norm_by_dim problem) (\<lambda>problem.
     rbind (transform_obj_shift problem fopt) (\<lambda>problem.
       name_problem id_template name_template ''3-ill-conditioned'' function instance dimension problem)))))))))))))"

definition f_rastrigin_permblockdiag_bbob_problem_allocate :: bbob_constructor where
  "f_rastrigin_permblockdiag_bbob_problem_allocate function dimension instance rseed id_template name_template =
     rbind (coco_allocate_vector dimension) (\<lambda>_.
     rbind (bbob2009_compute_fopt function instance) (\<lambda>fopt.
     rbind (optimum rseed dimension) (\<lambda>xopt.
     rbind (block_rotation (rseed + 1000000) dimension) (\<lambda>B1.
     rbind (block_rotation rseed dimension) (\<lambda>B2.
     rbind (four_permutations (rseed + 3000000) dimension) (\<lambda>(P11, P12, P21, P22).
     rbind (f_rastrigin_allocate dimension) (\<lambda>problem.
     rbind (permuted_rotation problem P12 B1 P11 dimension) (\<lambda>problem.
     rbind (transform_vars_conditioning problem (Real 10)) (\<lambda>problem.
     rbind (permuted_rotation problem P22 B2 P21 dimension) (\<lambda>problem.
     rbind (transform_vars_asymmetric problem (Real (2 / 10))) (\<lambda>problem.
     rbind (transform_vars_oscillate problem) (\<lambda>problem.
     rbind (permuted_rotation problem P12 B1 P11 dimension) (\<lambda>problem.
     rbind (transform_vars_shift problem xopt False) (\<lambda>problem.
     rbind (transform_obj_norm_by_dim problem) (\<lambda>problem.
     rbind (transform_obj_shift problem fopt) (\<lambda>problem.
       name_problem id_template name_template ''4-multi-modal'' function instance dimension problem))))))))))))))))"

definition f_weierstrass_permblockdiag_bbob_problem_allocate :: bbob_constructor where
  "f_weierstrass_permblockdiag_bbob_problem_allocate function dimension instance rseed id_template name_template =
     rbind (coco_allocate_vector dimension) (\<lambda>_.
     rbind (bbob2009_compute_fopt function instance) (\<lambda>fopt.
     rbind (optimum rseed dimension) (\<lambda>xopt.
     rbind (block_rotation (rseed + 1000000) dimension) (\<lambda>B1.
     rbind (block_rotation rseed dimension) (\<lambda>B2.
     rbind (four_permutations (rseed + 3000000) dimension) (\<lambda>(P11, P21, P12, P22).
     rbind (f_weierstrass_allocate dimension) (\<lambda>problem.
     rbind (permuted_rotation problem P22 B1 P12 dimension) (\<lambda>problem.
     rbind (transform_vars_conditioning problem (Real (1 / 100))) (\<lambda>problem.
     rbind (permuted_rotation problem P21 B2 P11 dimension) (\<lambda>problem.
     rbind (transform_vars_oscillate problem) (\<lambda>problem.
     rbind (permuted_rotation problem P22 B1 P12 dimension) (\<lambda>problem.
     rbind (transform_vars_shift problem xopt False) (\<lambda>problem.
     rbind (transform_obj_penalize problem (ddiv (Real 10) (Real (real dimension)))) (\<lambda>problem.
     rbind (transform_obj_shift problem fopt) (\<lambda>problem.
       name_problem id_template name_template ''4-multi-modal'' function instance dimension problem)))))))))))))))"

definition f_schaffers_permblockdiag_bbob_problem_allocate :: "double \<Rightarrow> bbob_constructor" where
  "f_schaffers_permblockdiag_bbob_problem_allocate conditioning function dimension instance rseed id_template name_template =
     rbind (coco_allocate_vector dimension) (\<lambda>_.
     rbind (bbob2009_compute_fopt function instance) (\<lambda>fopt.
     rbind (optimum rseed dimension) (\<lambda>xopt.
     rbind (block_rotation (rseed + 1000000) dimension) (\<lambda>B1.
     rbind (block_rotation rseed dimension) (\<lambda>B2.
     rbind (four_permutations (rseed + 3000000) dimension) (\<lambda>(P11, P21, P12, P22).
     rbind (f_schaffers_allocate dimension) (\<lambda>problem.
     rbind (transform_vars_conditioning problem conditioning) (\<lambda>problem.
     rbind (permuted_rotation problem P21 B2 P11 dimension) (\<lambda>problem.
     rbind (transform_vars_asymmetric problem (Real (5 / 10))) (\<lambda>problem.
     rbind (permuted_rotation problem P22 B1 P12 dimension) (\<lambda>problem.
     rbind (transform_vars_shift problem xopt False) (\<lambda>problem.
     rbind (transform_obj_penalize problem (Real 10)) (\<lambda>problem.
     rbind (transform_obj_shift problem fopt) (\<lambda>problem.
       name_problem id_template name_template ''4-multi-modal'' function instance dimension problem))))))))))))))"

definition f_katsuura_permblockdiag_bbob_problem_allocate :: bbob_constructor where
  "f_katsuura_permblockdiag_bbob_problem_allocate function dimension instance rseed id_template name_template =
     rbind (coco_allocate_vector dimension) (\<lambda>_.
     rbind (bbob2009_compute_fopt function instance) (\<lambda>fopt.
     rbind (optimum rseed dimension) (\<lambda>xopt.
     rbind (block_rotation (rseed + 1000000) dimension) (\<lambda>B1.
     rbind (block_rotation rseed dimension) (\<lambda>B2.
     rbind (four_permutations (rseed + 3000000) dimension) (\<lambda>(P11, P12, P21, P22).
     rbind (f_katsuura_allocate dimension) (\<lambda>problem.
     rbind (permuted_rotation problem P22 B1 P21 dimension) (\<lambda>problem.
     rbind (transform_vars_conditioning problem (Real 100)) (\<lambda>problem.
     rbind (permuted_rotation problem P12 B2 P11 dimension) (\<lambda>problem.
     rbind (transform_vars_shift problem xopt False) (\<lambda>problem.
     rbind (transform_obj_penalize problem (Real 1)) (\<lambda>problem.
     rbind (transform_obj_shift problem fopt) (\<lambda>problem.
       name_problem id_template name_template ''5-weakly-structured'' function instance dimension problem)))))))))))))"

definition f_rosenbrock_permblockdiag_bbob_problem_allocate :: bbob_constructor where
  "f_rosenbrock_permblockdiag_bbob_problem_allocate function dimension instance rseed id_template name_template =
     rbind (coco_allocate_vector dimension) (\<lambda>_.
     rbind (coco_rotation_matrix_block_size dimension) (\<lambda>block_size.
     rbind (bbob2009_compute_fopt function instance) (\<lambda>fopt.
       let factor = dmax (Real 1) (ddiv (dsqrt (Real (real block_size))) (Real 8)) in
     rbind (optimum rseed dimension) (\<lambda>xopt.
     rbind (block_rotation rseed dimension) (\<lambda>B.
     rbind (swap_permutation (rseed + 2000000) dimension) (\<lambda>P1.
     rbind (swap_permutation (rseed + 3000000) dimension) (\<lambda>P2.
     rbind (f_rosenbrock_allocate dimension) (\<lambda>problem.
     rbind (transform_vars_shift problem (replicate dimension (Real (- 1))) False) (\<lambda>problem.
     rbind (transform_vars_scale problem factor) (\<lambda>problem.
     rbind (permuted_rotation problem P2 B P1 dimension) (\<lambda>problem.
     rbind (transform_vars_shift problem (map (\<lambda>v. v * Real (3 / 4)) xopt) False) (\<lambda>problem.
     rbind (transform_obj_norm_by_dim problem) (\<lambda>problem.
     rbind (transform_obj_shift problem fopt) (\<lambda>problem.
       name_problem id_template name_template ''2-moderate'' function instance dimension problem))))))))))))))"

text \<open>
  The optimum of the Griewank-Rosenbrock problem is set by hand: half the column sums of the blocks, divided
  by the scale, then the entry \<open>j\<close> goes to \<open>P1[j]\<close>.
\<close>

definition block_column_sums :: "double \<Rightarrow> nat list \<Rightarrow> double list list \<Rightarrow> double list" where
  "block_column_sums scales block_sizes B =
     concat (map (\<lambda>k. let start = sum_list (take k block_sizes); b = block_sizes ! k in
       map (\<lambda>j. ddiv (accumulate (Real 0) [0..<b] (\<lambda>i. B ! (start + i) ! j)) (Real 2 * scales)) [0..<b])
       [0..<length block_sizes])"

fun scatter :: "nat list \<Rightarrow> 'a list \<Rightarrow> 'a list \<Rightarrow> 'a list result" where
  "scatter (p # ps) (v # vs) x = rbind (rupd x p v) (scatter ps vs)"
| "scatter _ _ x = Inr x"

definition set_scattered :: "nat list \<Rightarrow> double list \<Rightarrow> coco_problem_t \<Rightarrow> coco_problem_t result" where
  "set_scattered P v problem =
     (case best_parameter (fields problem) of
        None \<Rightarrow> Inl Null_deref
      | Some x \<Rightarrow> rbind (scatter P v x) (\<lambda>x. Inr (set_best_parameter x problem)))"

definition f_griewank_rosenbrock_permblockdiag_bbob_bbob_problem_allocate :: bbob_constructor where
  "f_griewank_rosenbrock_permblockdiag_bbob_bbob_problem_allocate function dimension instance rseed id_template name_template =
     rbind (coco_allocate_vector dimension) (\<lambda>_.
     rbind (coco_rotation_matrix_block_size dimension) (\<lambda>block_size.
     rbind (bbob2009_compute_fopt function instance) (\<lambda>fopt.
       let scales = dmax (Real 1) (ddiv (dsqrt (Real (real block_size))) (Real 8)) in
     rbind (block_rotation rseed dimension) (\<lambda>B.
     rbind (swap_permutation (rseed + 2000000) dimension) (\<lambda>P1.
     rbind (swap_permutation (rseed + 3000000) dimension) (\<lambda>P2.
     rbind (f_griewank_rosenbrock_allocate dimension) (\<lambda>problem.
     rbind (transform_vars_shift problem (replicate dimension (Real (- (1 / 2)))) False) (\<lambda>problem.
     rbind (transform_vars_scale problem scales) (\<lambda>problem.
     rbind (permuted_rotation problem P2 B P1 dimension) (\<lambda>problem.
     rbind (transform_obj_shift problem fopt) (\<lambda>problem.
     rbind (set_scattered P1 (block_column_sums scales (fst B) (snd B)) problem) (\<lambda>problem.
       name_problem id_template name_template ''4-multi-modal'' function instance dimension problem))))))))))))"

definition f_schwefel_generalized_bbob_problem_allocate :: bbob_constructor where
  "f_schwefel_generalized_bbob_problem_allocate function dimension instance rseed id_template name_template =
     rbind (coco_allocate_vector dimension) (\<lambda>_.
     rbind (bbob2009_compute_fopt function instance) (\<lambda>fopt.
     rbind (bbob2009_unif dimension rseed) (\<lambda>tmp1.
       let xopt = map (\<lambda>v. if v - 1 / 2 < 0 then Real (1 / 2) * Real (42096874637 / 10 ^ 10) * Real (- 1)
             else Real (1 / 2) * Real (42096874637 / 10 ^ 10)) tmp1;
           tmp1 = map (\<lambda>v. Real (- 2) * \<bar>v\<bar>) xopt;
           tmp2 = map (\<lambda>v. Real 2 * \<bar>v\<bar>) xopt in
     rbind (f_schwefel_generalized_allocate dimension) (\<lambda>problem.
     rbind (transform_vars_scale problem (Real 100)) (\<lambda>problem.
     rbind (transform_vars_shift problem tmp1 False) (\<lambda>problem.
     rbind (transform_vars_conditioning problem (Real 10)) (\<lambda>problem.
     rbind (transform_vars_shift problem tmp2 False) (\<lambda>problem.
     rbind (transform_vars_z_hat problem xopt) (\<lambda>problem.
     rbind (transform_vars_scale problem (Real 2)) (\<lambda>problem.
     rbind (transform_vars_x_hat problem rseed) (\<lambda>problem.
     rbind (transform_obj_shift problem fopt) (\<lambda>problem.
       name_problem id_template name_template ''5-weakly-structured'' function instance dimension problem))))))))))))"

end
