(* ===== verification/Coco_Triggers.thy ===== *)
theory Coco_Triggers
  imports Coco_Double Coco_Problem_Calls Coco_Ranges
begin

text \<open>
  The triggers of the observers, first part of \<open>coco_observer.c\<close>: targets of the objective value and
  numbers of evaluations at which a logger writes a line. The structures are records.
\<close>

section \<open>Targets\<close>

record coco_observer_targets_t =
  target_exponent :: int
  target_value :: double
  target_triggers :: nat
  target_precision :: double

definition coco_observer_targets :: "nat \<Rightarrow> double \<Rightarrow> coco_observer_targets_t" where
  "coco_observer_targets number_of_targets precision =
     \<lparr> target_exponent = INT_MAX, target_value = Real DBL_MAX,
       target_triggers = number_of_targets, target_precision = precision \<rparr>"

fun dlog10 :: "double \<Rightarrow> double" where
  "dlog10 (Real a) = (if a > 0 then Real (log 10 a) else if a = 0 then Minus_Infinity else NaN)"
| "dlog10 Infinity = Infinity"
| "dlog10 Minus_Infinity = NaN"
| "dlog10 NaN = NaN"

fun dceil :: "double \<Rightarrow> double" where
  "dceil (Real a) = Real (of_int \<lceil>a\<rceil>)"
| "dceil x = x"

text \<open>The result of arithmetic on \<open>int\<close>, and the conversion of a double to \<open>int\<close>.\<close>

definition c_int :: "int \<Rightarrow> int result" where
  "c_int v = (if INT_MIN \<le> v \<and> v \<le> INT_MAX then Inr v else Inl Int_overflow)"

definition to_int :: "double \<Rightarrow> int result" where
  "to_int d = (case d of Real v \<Rightarrow> c_int (c_truncate v) | _ \<Rightarrow> Inl Int_overflow)"

definition coco_observer_targets_trigger ::
    "coco_observer_targets_t \<Rightarrow> double \<Rightarrow> (bool \<times> coco_observer_targets_t) result" where
  "coco_observer_targets_trigger targets given_value =
     (let n = Real (of_int (to_long (target_triggers targets)));
          precision = target_precision targets
      in
        if Real 0 \<le> given_value then
          let verified_value =
                (if equal_to given_value (Real 0) then ddiv precision (Real 10)
                 else if given_value < precision then precision else given_value)
          in rbind (to_int (dceil (dlog10 verified_value * n))) (\<lambda>current_exponent.
               if current_exponent < target_exponent targets
               then Inr (True, targets
                 \<lparr> target_exponent := current_exponent,
                   target_value := (if equal_to given_value (Real 0) then Real 0
                     else dpow (Real 10) (ddiv (Real (of_int current_exponent)) n)) \<rparr>)
               else Inr (False, targets))
        else
          let verified_value = (if - precision < given_value then precision else - given_value)
          in rbind (to_int (dfloor (dlog10 verified_value * n))) (\<lambda>current_exponent.
             rbind (to_int (dceil (dlog10 (ddiv precision (Real 10)) * n))) (\<lambda>lowest.
             rbind (c_int (2 * lowest)) (\<lambda>t. rbind (c_int (t - current_exponent)) (\<lambda>t.
             rbind (c_int (t - 1)) (\<lambda>adjusted_exponent.
               if adjusted_exponent < target_exponent targets
               then Inr (True, targets
                 \<lparr> target_exponent := adjusted_exponent,
                   target_value := - dpow (Real 10) (ddiv (Real (of_int current_exponent)) n) \<rparr>)
               else Inr (False, targets)))))))"

section \<open>Numbers of evaluations\<close>

definition COCO_MAX_EVALS_TO_LOG :: nat where
  "COCO_MAX_EVALS_TO_LOG = 1000"

record coco_observer_evaluations_t =
  value1 :: nat
  exponent1 :: nat
  evaluation_triggers :: nat
  value2 :: nat
  exponent2 :: nat
  base_evaluations :: "nat list"
  base_count :: nat
  base_index :: nat
  base_dimension :: nat

definition coco_observer_evaluations :: "string \<Rightarrow> nat \<Rightarrow> coco_observer_evaluations_t result" where
  "coco_observer_evaluations base dimension =
     rbind (coco_string_parse_ranges (Some base) 1 0 COCO_MAX_EVALS_TO_LOG) (\<lambda>numbers.
     rbind (coco_count_numbers numbers COCO_MAX_EVALS_TO_LOG) (\<lambda>count.
     case numbers of
       None \<Rightarrow> Inl Null_deref
     | Some numbers \<Rightarrow>
         rbind (rnth numbers 0) (\<lambda>first.
           Inr \<lparr> value1 = 1, exponent1 = 0, evaluation_triggers = 20,
             value2 = size_t (dimension * first), exponent2 = 0, base_evaluations = numbers,
             base_count = count, base_index = 0, base_dimension = dimension \<rparr>)))"

text \<open>\<open>coco_double_to_size_t\<close> of a double; of a value outside of \<open>size_t\<close> it is not defined.\<close>

definition to_size_t :: "double \<Rightarrow> nat result" where
  "to_size_t d =
     (case d of
        Real v \<Rightarrow> (case coco_double_to_size_t v of None \<Rightarrow> Inl Out_of_bounds | Some n \<Rightarrow> Inr n)
      | _ \<Rightarrow> Inl Out_of_bounds)"

definition first_trigger_value :: "nat \<Rightarrow> nat \<Rightarrow> nat result" where
  "first_trigger_value triggers e =
     to_size_t (dfloor (dpow (Real 10) (ddiv (Real (real e)) (Real (real triggers)))))"

text \<open>The loop that looks for the next value of the first trigger, with its exponent.\<close>

partial_function (option) next_first :: "nat \<Rightarrow> nat \<Rightarrow> nat \<Rightarrow> (nat \<times> nat) result option" where
  "next_first triggers v e =
     (case first_trigger_value triggers e of
        Inl err \<Rightarrow> Some (Inl err)
      | Inr w \<Rightarrow> if w \<le> v then next_first triggers v (Suc e) else Some (Inr (e, w)))"

definition coco_observer_evaluations_trigger_first ::
    "coco_observer_evaluations_t \<Rightarrow> nat \<Rightarrow> (bool \<times> coco_observer_evaluations_t) result" where
  "coco_observer_evaluations_trigger_first evals evaluation_number =
     (if evaluation_number \<ge> value1 evals
      then case next_first (evaluation_triggers evals) (value1 evals) (exponent1 evals) of
             None \<Rightarrow> Inl No_return
           | Some r \<Rightarrow> rbind r (\<lambda>(e, w). Inr (True, evals\<lparr>exponent1 := e, value1 := w\<rparr>))
      else Inr (False, evals))"

text \<open>The next base number; after the last one the exponent grows.\<close>

definition next_base :: "coco_observer_evaluations_t \<Rightarrow> coco_observer_evaluations_t" where
  "next_base evals =
     (if base_index evals < size_sub (base_count evals) 1
      then evals\<lparr>base_index := base_index evals + 1\<rparr>
      else evals\<lparr>base_index := 0, exponent2 := exponent2 evals + 1\<rparr>)"

definition coco_observer_evaluations_trigger_second ::
    "coco_observer_evaluations_t \<Rightarrow> nat \<Rightarrow> (bool \<times> coco_observer_evaluations_t) result" where
  "coco_observer_evaluations_trigger_second evals evaluation_number =
     (if evaluation_number \<ge> value2 evals
      then
        let evals = next_base evals
        in rbind (rnth (base_evaluations evals) (base_index evals)) (\<lambda>b.
           rbind (to_size_t (dpow (Real 10) (Real (real (exponent2 evals)))
               * Real (of_int (to_long (base_dimension evals))) * Real (of_int (to_long b)))) (\<lambda>w.
             Inr (True, evals\<lparr>value2 := w\<rparr>)))
      else Inr (False, evals))"

definition coco_observer_evaluations_trigger ::
    "coco_observer_evaluations_t \<Rightarrow> nat \<Rightarrow> (bool \<times> coco_observer_evaluations_t) result" where
  "coco_observer_evaluations_trigger evals evaluation_number =
     rbind (coco_observer_evaluations_trigger_first evals evaluation_number) (\<lambda>(first, evals).
     rbind (coco_observer_evaluations_trigger_second evals evaluation_number) (\<lambda>(second, evals).
       Inr (first \<or> second, evals)))"

section \<open>The exponent of a target\<close>

text \<open>
  The exponent that the trigger compares, as a function of the value: it falls with the value, also from
  the positive values over zero to the negative ones.
\<close>

definition lowest_exponent :: "nat \<Rightarrow> real \<Rightarrow> int" where
  "lowest_exponent n precision = \<lceil>log 10 (precision / 10) * real n\<rceil>"

definition effective_exponent :: "nat \<Rightarrow> real \<Rightarrow> real \<Rightarrow> int" where
  "effective_exponent n precision v =
     (if v = 0 then lowest_exponent n precision
      else if 0 < v then \<lceil>log 10 (max precision v) * real n\<rceil>
      else 2 * lowest_exponent n precision - \<lfloor>log 10 (max precision (- v)) * real n\<rfloor> - 1)"

text \<open>The target that belongs to the value: a power of \<open>10 ^ (1 / n)\<close>, zero, or a negative power.\<close>

definition target_of :: "nat \<Rightarrow> real \<Rightarrow> real \<Rightarrow> real" where
  "target_of n precision v =
     (if v = 0 then 0
      else if 0 < v then 10 powr (of_int \<lceil>log 10 (max precision v) * real n\<rceil> / real n)
      else - (10 powr (of_int \<lfloor>log 10 (max precision (- v)) * real n\<rfloor> / real n)))"

definition trigger_bounds :: "nat \<Rightarrow> real \<Rightarrow> real \<Rightarrow> bool" where
  "trigger_bounds n precision v \<longleftrightarrow> 1 \<le> n \<and> n \<le> 10 ^ 6 \<and> 1 / 10 ^ 20 \<le> precision \<and> precision \<le> 1 \<and> \<bar>v\<bar> \<le> 10 ^ 30"

lemma log_bounds:
  fixes a :: real
  assumes "1 / 10 ^ 30 \<le> a" "a \<le> 10 ^ 30" "n \<le> 10 ^ 6"
  shows "\<bar>log 10 a * real n\<bar> \<le> 30 * 10 ^ 6"
proof -
  have a: "0 < a" using assms(1) by (rule less_le_trans [rotated]) simp
  have e: "log 10 (10 ^ 30) = (30 :: real)" "log 10 (1 / 10 ^ 30) = (- 30 :: real)"
    using log_pow_cancel [of 10 30] by (simp_all add: log_divide_pos log_inverse divide_inverse del: power_numeral)
  have "log 10 a \<le> log 10 (10 ^ 30)" using a assms(2) by (subst log_le_cancel_iff) simp_all
  then have u: "log 10 a \<le> 30" by (simp only: e)
  have "log 10 (1 / 10 ^ 30) \<le> log 10 a" using a assms(1) by (subst log_le_cancel_iff) simp_all
  then have "- 30 \<le> log 10 a" by (simp only: e)
  with u have "\<bar>log 10 a\<bar> \<le> 30" by simp
  moreover have "real n \<le> 10 ^ 6" using assms(3) by (metis of_nat_le_iff of_nat_numeral of_nat_power)
  ultimately have "\<bar>log 10 a\<bar> * real n \<le> 30 * 10 ^ 6" by (intro mult_mono) simp_all
  then show ?thesis by (simp only: abs_mult abs_of_nat)
qed

lemma c_int_in [simp]: "INT_MIN \<le> v \<Longrightarrow> v \<le> INT_MAX \<Longrightarrow> c_int v = Inr v"
  by (simp add: c_int_def)

lemma c_int_small: "- 1000000000 \<le> v \<Longrightarrow> v \<le> 1000000000 \<Longrightarrow> c_int v = Inr v"
  by (simp add: INT_MIN_def INT_MAX_def)

lemma to_int_of_int [simp]: "to_int (Real (of_int k)) = c_int k"
  by (simp add: to_int_def c_truncate_def)

lemma exponent_bounds:
  fixes r :: real
  assumes "\<bar>r\<bar> \<le> 30 * 10 ^ 6"
  shows "- 30000000 \<le> \<lceil>r\<rceil>" "\<lceil>r\<rceil> \<le> 30000000" "- 30000000 \<le> \<lfloor>r\<rfloor>" "\<lfloor>r\<rfloor> \<le> 30000000"
proof -
  have "- 30000000 \<le> r" "r \<le> 30000000" using assms by (simp_all add: abs_le_iff)
  with ceiling_correct [of r] floor_correct [of r]
  show "- 30000000 \<le> \<lceil>r\<rceil>" "\<lceil>r\<rceil> \<le> 30000000" "- 30000000 \<le> \<lfloor>r\<rfloor>" "\<lfloor>r\<rfloor> \<le> 30000000"
    by linarith+
qed

lemma targets_trigger_real:
  assumes "trigger_bounds n precision v"
    and "target_triggers targets = n" "target_precision targets = Real precision"
  shows "coco_observer_targets_trigger targets (Real v) =
    (if effective_exponent n precision v < target_exponent targets
     then Inr (True, targets\<lparr>target_exponent := effective_exponent n precision v,
       target_value := Real (target_of n precision v)\<rparr>)
     else Inr (False, targets))"
proof -
  have n: "1 \<le> n" "n \<le> 10 ^ 6" and p: "1 / 10 ^ 20 \<le> precision" "precision \<le> 1" and v: "\<bar>v\<bar> \<le> 10 ^ 30"
    using assms(1) by (simp_all add: trigger_bounds_def)
  have p0: "0 < precision" using p(1) by (rule less_le_trans [rotated]) simp
  have n64: "to_long n = int n" using n(2) by (simp add: to_long_def)
  let ?c = "\<lambda>a. log 10 a * real n"
  have low: "\<bar>?c (precision / 10)\<bar> \<le> 30 * 10 ^ 6"
    using p n(2) by (intro log_bounds) simp_all
  have big: "\<bar>?c (max precision w)\<bar> \<le> 30 * 10 ^ 6" if "w \<le> 10 ^ 30" for w
    using p n(2) that by (intro log_bounds) (auto simp: max_def)
  note E = exponent_bounds [OF low] exponent_bounds [OF big]
  consider "v = 0" | "0 < v" | "v < 0" by linarith
  then show ?thesis
  proof cases
    case 1
    have "c_int \<lceil>?c (precision / 10)\<rceil> = Inr \<lceil>?c (precision / 10)\<rceil>"
      using E(1,2) by (intro c_int_small) linarith+
    then show ?thesis using 1 assms(2,3) p0
      by (simp add: coco_observer_targets_trigger_def Let_def n64 effective_exponent_def lowest_exponent_def
          target_of_def mult.commute)
  next
    case 2
    have "v \<le> 10 ^ 30" using v by simp
    then have "c_int \<lceil>?c (max precision v)\<rceil> = Inr \<lceil>?c (max precision v)\<rceil>"
      using E(5,6) [of v] by (intro c_int_small) linarith+
    moreover have "(if v < precision then Real precision else Real v) = Real (max precision v)" by simp
    moreover have "0 < max precision v" using p0 by simp
    ultimately show ?thesis using 2 assms(2,3) n(1)
      by (simp add: coco_observer_targets_trigger_def Let_def n64 effective_exponent_def target_of_def)
  next
    case 3
    have "- v \<le> 10 ^ 30" using v by simp
    note B = E(1,2) E(7,8) [OF this]
    define w where "w = max precision (- v)"
    have w: "0 < w" "(if - Real precision < Real v then Real precision else - Real v) = Real w"
      using p0 by (simp_all add: w_def)
    let ?cur = "\<lfloor>?c w\<rfloor>" and ?low = "\<lceil>?c (precision / 10)\<rceil>"
    have "c_int ?cur = Inr ?cur" "c_int ?low = Inr ?low" "c_int (2 * ?low) = Inr (2 * ?low)"
      "c_int (2 * ?low - ?cur) = Inr (2 * ?low - ?cur)" "c_int (2 * ?low - ?cur - 1) = Inr (2 * ?low - ?cur - 1)"
      using B unfolding w_def by (intro c_int_small; linarith)+
    moreover have "effective_exponent n precision v = 2 * ?low - ?cur - 1"
      "target_of n precision v = - (10 powr (of_int ?cur / real n))"
      using 3 by (simp_all add: effective_exponent_def target_of_def lowest_exponent_def w_def)
    ultimately show ?thesis using 3 assms(2,3) n(1) p0 w(1)
      by (simp add: coco_observer_targets_trigger_def Let_def n64 w(2) del: uminus_double.simps less_double.simps) simp
  qed
qed

text \<open>A smaller value never has a larger exponent.\<close>

lemma lowest_exponent_below:
  assumes "0 < precision" "1 \<le> n"
  shows "lowest_exponent n precision \<le> \<lfloor>log 10 precision * real n\<rfloor>"
proof -
  have "log 10 (precision / 10) * real n = log 10 precision * real n - real n"
    using assms(1) by (simp add: log_divide_pos algebra_simps)
  then have "lowest_exponent n precision = \<lceil>log 10 precision * real n\<rceil> - int n"
    by (simp add: lowest_exponent_def) (metis ceiling_diff_of_int of_int_of_nat_eq)
  moreover have "\<lceil>log 10 precision * real n\<rceil> \<le> \<lfloor>log 10 precision * real n\<rfloor> + 1" by linarith
  ultimately show ?thesis using assms(2) by simp
qed

lemma log_scaled_mono:
  "0 < a \<Longrightarrow> a \<le> b \<Longrightarrow> log 10 a * real n \<le> log 10 b * real n"
  by (intro mult_right_mono) simp_all

lemma effective_exponent_sign:
  assumes "0 < precision" "1 \<le> n"
  shows "0 < v \<Longrightarrow> lowest_exponent n precision \<le> effective_exponent n precision v"
    and "v < 0 \<Longrightarrow> effective_exponent n precision v < lowest_exponent n precision"
proof -
  have m: "log 10 precision * real n \<le> log 10 (max precision w) * real n" for w
    using assms(1) by (intro log_scaled_mono) simp_all
  note low = lowest_exponent_below [OF assms]
  show "lowest_exponent n precision \<le> effective_exponent n precision v" if "0 < v"
    using that low m [of v] by (simp add: effective_exponent_def) linarith
  show "effective_exponent n precision v < lowest_exponent n precision" if "v < 0"
    using that low floor_mono [OF m [of "- v"]] by (simp add: effective_exponent_def)
qed

lemma effective_exponent_mono:
  assumes "0 < precision" "1 \<le> n" "v \<le> w"
  shows "effective_exponent n precision v \<le> effective_exponent n precision w"
proof -
  note sign = effective_exponent_sign [OF assms(1,2)]
  consider "0 < v" | "w < 0" | "v \<le> 0" "0 \<le> w" using assms(3) by linarith
  then show ?thesis
  proof cases
    case 1
    have "log 10 (max precision v) * real n \<le> log 10 (max precision w) * real n"
      using assms by (intro log_scaled_mono) (simp_all add: max.coboundedI1 max.coboundedI2)
    then show ?thesis using 1 assms(3) by (simp add: effective_exponent_def ceiling_mono)
  next
    case 2
    have "log 10 (max precision (- w)) * real n \<le> log 10 (max precision (- v)) * real n"
      using assms by (intro log_scaled_mono) (simp_all add: max.coboundedI1 max.coboundedI2)
    from floor_mono [OF this] show ?thesis using 2 assms(3) by (simp add: effective_exponent_def)
  next
    case 3
    have "effective_exponent n precision v \<le> lowest_exponent n precision"
      using 3(1) sign(2) [of v] by (cases "v = 0") (simp_all add: effective_exponent_def)
    moreover have "lowest_exponent n precision \<le> effective_exponent n precision w"
      using 3(2) sign(1) [of w] by (cases "w = 0") (simp_all add: effective_exponent_def)
    ultimately show ?thesis by simp
  qed
qed

text \<open>The target of a value is not below the value, and less than one step of \<open>10 ^ (1 / n)\<close> away from it.\<close>

lemma target_of_above:
  assumes "0 < precision" "1 \<le> n" "v = 0 \<or> precision \<le> \<bar>v\<bar>"
  shows "v \<le> target_of n precision v"
    "0 < v \<Longrightarrow> target_of n precision v < 10 powr (1 / real n) * v"
    "v < 0 \<Longrightarrow> 10 powr (1 / real n) * target_of n precision v < v"
proof -
  have pow: "10 powr (log 10 a) = a" if "0 < a" for a :: real using that by simp
  have n: "0 < real n" using assms(2) by simp
  have up: "a \<le> 10 powr (of_int \<lceil>log 10 a * real n\<rceil> / real n)"
    "10 powr (of_int \<lceil>log 10 a * real n\<rceil> / real n) < 10 powr (1 / real n) * a" if a: "0 < a" for a :: real
  proof -
    have "log 10 a \<le> of_int \<lceil>log 10 a * real n\<rceil> / real n"
      using n by (simp add: le_divide_eq)
    then have "10 powr log 10 a \<le> 10 powr (of_int \<lceil>log 10 a * real n\<rceil> / real n)" by simp
    then show "a \<le> 10 powr (of_int \<lceil>log 10 a * real n\<rceil> / real n)" using pow [OF a] by simp
    have "of_int \<lceil>log 10 a * real n\<rceil> < log 10 a * real n + 1" by linarith
    then have "of_int \<lceil>log 10 a * real n\<rceil> / real n < 1 / real n + log 10 a"
      using n by (simp add: divide_less_eq algebra_simps)
    then have "10 powr (of_int \<lceil>log 10 a * real n\<rceil> / real n) < 10 powr (1 / real n + log 10 a)" by simp
    then show "10 powr (of_int \<lceil>log 10 a * real n\<rceil> / real n) < 10 powr (1 / real n) * a"
      using pow [OF a] by (simp add: powr_add)
  qed
  have down: "10 powr (of_int \<lfloor>log 10 a * real n\<rfloor> / real n) \<le> a"
    "a < 10 powr (1 / real n) * 10 powr (of_int \<lfloor>log 10 a * real n\<rfloor> / real n)" if a: "0 < a" for a :: real
  proof -
    have "of_int \<lfloor>log 10 a * real n\<rfloor> / real n \<le> log 10 a" using n by (simp add: divide_le_eq)
    then have "10 powr (of_int \<lfloor>log 10 a * real n\<rfloor> / real n) \<le> 10 powr log 10 a" by simp
    then show "10 powr (of_int \<lfloor>log 10 a * real n\<rfloor> / real n) \<le> a" using pow [OF a] by simp
    have "log 10 a * real n < of_int \<lfloor>log 10 a * real n\<rfloor> + 1" by linarith
    then have "log 10 a < 1 / real n + of_int \<lfloor>log 10 a * real n\<rfloor> / real n"
      using n by (simp add: less_divide_eq field_simps)
    then have "10 powr log 10 a < 10 powr (1 / real n + of_int \<lfloor>log 10 a * real n\<rfloor> / real n)" by simp
    then show "a < 10 powr (1 / real n) * 10 powr (of_int \<lfloor>log 10 a * real n\<rfloor> / real n)"
      using pow [OF a] by (simp add: powr_add)
  qed
  have m: "max precision \<bar>v\<bar> = \<bar>v\<bar>" if "v \<noteq> 0" using assms(3) that by simp
  show "v \<le> target_of n precision v"
    using up(1) [of v] down(1) [of "- v"] m by (cases "v = 0"; cases "0 < v") (auto simp: target_of_def)
  show "target_of n precision v < 10 powr (1 / real n) * v" if "0 < v"
    using up(2) [of v] m that by (auto simp: target_of_def)
  show "10 powr (1 / real n) * target_of n precision v < v" if "v < 0"
    using down(2) [of "- v"] m that by (auto simp: target_of_def)
qed

section \<open>Runs of the target trigger\<close>

fun targets_run :: "coco_observer_targets_t \<Rightarrow> double list \<Rightarrow> (bool list \<times> coco_observer_targets_t) result" where
  "targets_run targets [] = Inr ([], targets)"
| "targets_run targets (v # vs) =
     rbind (coco_observer_targets_trigger targets v) (\<lambda>(hit, targets).
     rbind (targets_run targets vs) (\<lambda>(hits, targets). Inr (hit # hits, targets)))"

text \<open>The reference: a value hits a target if its exponent is below all exponents before.\<close>

fun record_hits :: "int \<Rightarrow> int list \<Rightarrow> bool list" where
  "record_hits e [] = []"
| "record_hits e (k # ks) = ((k < e) # record_hits (min e k) ks)"

lemma record_hits_nth:
  "i < length ks \<Longrightarrow> record_hits e ks ! i \<longleftrightarrow> ks ! i < e \<and> (\<forall>j < i. ks ! i < ks ! j)"
proof (induction ks arbitrary: e i)
  case (Cons k ks)
  show ?case
  proof (cases i)
    case (Suc j)
    then have "record_hits e (k # ks) ! i \<longleftrightarrow> ks ! j < min e k \<and> (\<forall>l < j. ks ! j < ks ! l)"
      using Cons by simp
    also have "\<dots> \<longleftrightarrow> (k # ks) ! i < e \<and> (\<forall>l < i. (k # ks) ! i < (k # ks) ! l)"
      using Suc by (auto simp: less_Suc_eq_0_disj)
    finally show ?thesis .
  qed simp
qed simp

lemma length_record_hits [simp]: "length (record_hits e ks) = length ks"
  by (induction ks arbitrary: e) simp_all

lemma targets_run_record:
  assumes "\<forall>v \<in> set vs. trigger_bounds n precision v"
    and "target_triggers targets = n" "target_precision targets = Real precision"
  shows "\<exists>t. targets_run targets (map Real vs)
      = Inr (record_hits (target_exponent targets) (map (effective_exponent n precision) vs), t)
    \<and> target_exponent t = Min (insert (target_exponent targets) (effective_exponent n precision ` set vs))"
  using assms
proof (induction vs arbitrary: targets)
  case (Cons v vs)
  let ?k = "effective_exponent n precision v"
  define t where "t = (if ?k < target_exponent targets
    then targets\<lparr>target_exponent := ?k, target_value := Real (target_of n precision v)\<rparr> else targets)"
  have step: "coco_observer_targets_trigger targets (Real v) = Inr (?k < target_exponent targets, t)"
    using targets_trigger_real [of n precision v targets] Cons.prems by (simp add: t_def)
  have e: "target_exponent t = min (target_exponent targets) ?k" by (simp add: t_def)
  have same: "target_triggers t = n" "target_precision t = Real precision"
    using Cons.prems(2,3) by (simp_all add: t_def)
  obtain t' where t': "targets_run t (map Real vs)
      = Inr (record_hits (target_exponent t) (map (effective_exponent n precision) vs), t')"
    "target_exponent t' = Min (insert (target_exponent t) (effective_exponent n precision ` set vs))"
    using Cons.IH [OF _ same] Cons.prems(1) by auto
  have "target_exponent t' = Min (insert (target_exponent targets) (effective_exponent n precision ` set (v # vs)))"
    unfolding t'(2) e by (cases "vs = []") (simp_all add: min.assoc)
  then show ?case using step t'(1) by (simp add: e)
qed simp

section \<open>The first trigger of the evaluations\<close>

definition power_floor :: "nat \<Rightarrow> nat \<Rightarrow> nat" where
  "power_floor n k = nat \<lfloor>10 powr (real k / real n)\<rfloor>"

lemma power_floor_mono: "j \<le> k \<Longrightarrow> power_floor n j \<le> power_floor n k"
  unfolding power_floor_def by (intro nat_mono floor_mono) (simp add: divide_right_mono)

lemma power_floor_0 [simp]: "power_floor n 0 = 1"
  by (simp add: power_floor_def)

lemma power_floor_real: "real (power_floor n k) \<le> 10 powr (real k / real n)"
  "10 powr (real k / real n) < real (power_floor n k) + 1"
  by (simp_all add: power_floor_def)

lemma to_size_t_of_nat [simp]: "k < 2 ^ 64 \<Longrightarrow> to_size_t (Real (real k)) = Inr k"
  by (simp add: to_size_t_def coco_double_to_size_t_def coco_double_round_def nat_less_iff)

lemma first_trigger_value_ok:
  assumes "1 \<le> n" "power_floor n k < 2 ^ 64"
  shows "first_trigger_value n k = Inr (power_floor n k)"
proof -
  have "real (power_floor n k) = of_int \<lfloor>10 powr (real k / real n)\<rfloor>" by (simp add: power_floor_def)
  then show ?thesis using assms to_size_t_of_nat [of "power_floor n k"]
    by (simp add: first_trigger_value_def)
qed

text \<open>One step of the exponent multiplies by 10 at most, ten times the exponent of a number exceeds it.\<close>

lemma power_floor_Suc:
  assumes "1 \<le> n" "power_floor n k \<le> v" "v \<le> 10 ^ 17"
  shows "power_floor n (Suc k) < 10 ^ 19"
proof -
  have "10 powr (real (Suc k) / real n) \<le> 10 powr (real k / real n + 1)"
    using assms(1) by (simp add: add_divide_distrib divide_le_eq)
  also have "\<dots> < 10 * (real (power_floor n k) + 1)"
    using power_floor_real(2) [of k n] by (simp add: powr_add)
  also have "\<dots> \<le> 10 * (10 ^ 17 + 1)" using assms(2,3) by simp
  finally have "real (power_floor n (Suc k)) < 10 ^ 19" using power_floor_real(1) [of n "Suc k"] by simp
  then show ?thesis by simp
qed

lemma power_floor_unbounded:
  assumes "1 \<le> n"
  shows "v < power_floor n (n * Suc v)"
proof -
  have "real (n * Suc v) / real n = real (Suc v)" using assms by (simp only: of_nat_mult) simp
  then have "power_floor n (n * Suc v) = nat \<lfloor>10 powr real (Suc v)\<rfloor>"
    unfolding power_floor_def by (simp only:)
  also have "\<dots> = nat \<lfloor>(10 :: real) ^ Suc v\<rfloor>" by (subst powr_realpow) simp_all
  also have "\<dots> = 10 ^ Suc v" by (metis floor_of_nat nat_int of_nat_numeral of_nat_power)
  also have "Suc v < 10 ^ Suc v" by (rule power_gt_expt) simp
  finally show ?thesis by linarith
qed

lemma next_first_least:
  assumes "1 \<le> n" "v \<le> 10 ^ 17" "v < power_floor n K" "\<forall>j < e. power_floor n j \<le> v"
  shows "\<exists>k. next_first n v e = Some (Inr (k, power_floor n k)) \<and> v < power_floor n k
    \<and> (\<forall>j < k. power_floor n j \<le> v)"
  using assms(4)
proof (induction "K - e" arbitrary: e rule: less_induct)
  case less
  have "power_floor n e < 10 ^ 19"
    using less.prems power_floor_Suc [OF assms(1) _ assms(2), of "e - 1"] by (cases e) simp_all
  then have val: "first_trigger_value n e = Inr (power_floor n e)"
    by (intro first_trigger_value_ok [OF assms(1)]) (rule less_trans, assumption, simp)
  show ?case
  proof (cases "power_floor n e \<le> v")
    case True
    have "e < K" using True assms(3) power_floor_mono [of K e n] by (cases "e < K") simp_all
    then obtain k where k: "next_first n v (Suc e) = Some (Inr (k, power_floor n k))"
      "v < power_floor n k" "\<forall>j < k. power_floor n j \<le> v"
      using less.hyps [of "Suc e"] less.prems True less_Suc_eq [of _ e] by (metis diff_less_mono2 lessI)
    moreover have "next_first n v e = next_first n v (Suc e)"
      using True val by (subst next_first.simps) simp
    ultimately show ?thesis by auto
  next
    case False
    then have "next_first n v e = Some (Inr (e, power_floor n e))"
      using val by (subst next_first.simps) simp
    then show ?thesis using False less.prems by auto
  qed
qed

text \<open>
  The state of the first trigger after \<open>m\<close> evaluations: it waits for the least number of the form
  \<open>\<lfloor>10 ^ (k / n)\<rfloor>\<close> above \<open>m\<close>.
\<close>

definition first_waits :: "coco_observer_evaluations_t \<Rightarrow> nat \<Rightarrow> bool" where
  "first_waits evals m \<longleftrightarrow>
     (let n = evaluation_triggers evals; k = exponent1 evals in
      1 \<le> n \<and> value1 evals = power_floor n k \<and> m < value1 evals \<and> (\<forall>j < k. power_floor n j \<le> m))"

lemma first_trigger_step:
  assumes "first_waits evals m" "m < 10 ^ 17"
  shows "\<exists>k w. coco_observer_evaluations_trigger_first evals (Suc m)
      = Inr (\<exists>k. Suc m = power_floor (evaluation_triggers evals) k, evals\<lparr>exponent1 := k, value1 := w\<rparr>)
    \<and> first_waits (evals\<lparr>exponent1 := k, value1 := w\<rparr>) (Suc m)"
proof -
  let ?n = "evaluation_triggers evals" and ?k = "exponent1 evals"
  have F: "1 \<le> ?n" "value1 evals = power_floor ?n ?k" "m < power_floor ?n ?k" "\<forall>j < ?k. power_floor ?n j \<le> m"
    using assms(1) by (simp_all add: first_waits_def Let_def)
  have hit: "(\<exists>k. Suc m = power_floor ?n k) \<longleftrightarrow> Suc m = power_floor ?n ?k"
  proof
    assume "\<exists>k. Suc m = power_floor ?n k"
    then obtain k where k: "Suc m = power_floor ?n k" ..
    then have "\<not> k < ?k" using F(4) by force
    then have "power_floor ?n ?k \<le> power_floor ?n k" by (simp add: power_floor_mono)
    then show "Suc m = power_floor ?n ?k" using k F(3) by simp
  qed blast
  show ?thesis
  proof (cases "Suc m = power_floor ?n ?k")
    case True
    then have "\<forall>j < ?k. power_floor ?n j \<le> Suc m" using F(4) by auto
    then obtain k where k: "next_first ?n (Suc m) ?k = Some (Inr (k, power_floor ?n k))"
      "Suc m < power_floor ?n k" "\<forall>j < k. power_floor ?n j \<le> Suc m"
      using next_first_least [OF F(1) _ power_floor_unbounded [OF F(1), of "Suc m"], of ?k] assms(2) by auto
    then show ?thesis using True F(1,2) hit
      by (intro exI [of _ k] exI [of _ "power_floor ?n k"])
        (simp add: coco_observer_evaluations_trigger_first_def first_waits_def)
  next
    case False
    then have "first_waits evals (Suc m)" using F by (auto simp: first_waits_def Let_def le_Suc_eq)
    moreover have "evals\<lparr>exponent1 := ?k, value1 := value1 evals\<rparr> = evals" by simp
    moreover have "coco_observer_evaluations_trigger_first evals (Suc m) = Inr (\<exists>k. Suc m = power_floor ?n k, evals)"
      using False F(2,3) by (simp add: coco_observer_evaluations_trigger_first_def hit)
    ultimately show ?thesis by metis
  qed
qed

section \<open>The second trigger of the evaluations\<close>

text \<open>The sequence of values of the second trigger, for the base numbers \<open>bs\<close> and the dimension \<open>d\<close>.\<close>

definition base_value_at :: "nat list \<Rightarrow> nat \<Rightarrow> nat \<Rightarrow> nat" where
  "base_value_at bs d k = 10 ^ (k div length bs) * d * bs ! (k mod length bs)"

text \<open>Base numbers that increase and stay below ten times the first one.\<close>

definition increasing_base :: "nat list \<Rightarrow> bool" where
  "increasing_base bs \<longleftrightarrow> bs \<noteq> [] \<and> 0 < hd bs \<and> sorted_wrt (<) bs \<and> last bs < 10 * hd bs"

lemma base_nth_bounds:
  assumes "increasing_base bs" "i < length bs"
  shows "hd bs \<le> bs ! i" "bs ! i < 10 * hd bs" "0 < bs ! i"
proof -
  have s: "sorted_wrt (<) bs" and ne: "bs \<noteq> []" and hd: "0 < hd bs" and l: "last bs < 10 * hd bs"
    using assms(1) by (simp_all add: increasing_base_def)
  show "hd bs \<le> bs ! i"
    using sorted_wrt_nth_less [OF s, of 0 i] assms(2) ne by (cases i) (simp_all add: hd_conv_nth)
  then show "0 < bs ! i" using hd by simp
  have "bs ! i \<le> last bs"
    using sorted_wrt_nth_less [OF s, of i "length bs - 1"] assms(2) ne
    by (cases "i = length bs - 1") (simp_all add: last_conv_nth less_imp_le)
  then show "bs ! i < 10 * hd bs" using l by simp
qed

lemma base_value_Suc:
  assumes "increasing_base bs" "0 < d"
  shows "base_value_at bs d k < base_value_at bs d (Suc k)"
    and "base_value_at bs d (Suc k) \<le> 10 * base_value_at bs d k"
proof -
  let ?c = "length bs" and ?i = "k mod length bs"
  have c: "0 < ?c" using assms(1) by (simp add: increasing_base_def)
  then have i: "?i < ?c" by simp
  note b = base_nth_bounds [OF assms(1) i]
  have "base_value_at bs d k < base_value_at bs d (Suc k) \<and> base_value_at bs d (Suc k) \<le> 10 * base_value_at bs d k"
  proof (cases "Suc ?i = ?c")
    case True
    then have "Suc k mod ?c = 0" "Suc k div ?c = Suc (k div ?c)"
      by (simp_all add: mod_Suc div_Suc)
    moreover have "bs ! 0 = hd bs" using assms(1) by (simp add: increasing_base_def hd_conv_nth)
    ultimately show ?thesis using b assms(2) by (simp add: base_value_at_def)
  next
    case False
    then have e: "Suc k mod ?c = Suc ?i" "Suc k div ?c = k div ?c" by (simp_all add: mod_Suc div_Suc)
    have "Suc ?i < ?c" using False i by simp
    then have "bs ! ?i < bs ! Suc ?i" "bs ! Suc ?i < 10 * hd bs"
      using assms(1) sorted_wrt_nth_less [of "(<)" bs ?i "Suc ?i"] base_nth_bounds(2) [OF assms(1)]
      by (simp_all add: increasing_base_def)
    then show ?thesis using b assms(2) by (simp add: base_value_at_def e)
  qed
  then show "base_value_at bs d k < base_value_at bs d (Suc k)"
    "base_value_at bs d (Suc k) \<le> 10 * base_value_at bs d k" by blast+
qed

lemma base_value_mono:
  assumes "increasing_base bs" "0 < d"
  shows "j < k \<Longrightarrow> base_value_at bs d j < base_value_at bs d k"
  using base_value_Suc(1) [OF assms] by (rule lift_Suc_mono_less)

definition second_waits :: "coco_observer_evaluations_t \<Rightarrow> nat list \<Rightarrow> nat \<Rightarrow> nat \<Rightarrow> bool" where
  "second_waits evals bs d m \<longleftrightarrow> increasing_base bs \<and> 0 < d \<and> length bs < 2 ^ 64 \<and>
     base_evaluations evals = bs @ [0] \<and> base_count evals = length bs \<and> base_dimension evals = d \<and>
     (\<exists>k. base_index evals = k mod length bs \<and> exponent2 evals = k div length bs
        \<and> value2 evals = base_value_at bs d k \<and> m < value2 evals \<and> (\<forall>j < k. base_value_at bs d j \<le> m))"

lemma second_waitsI:
  assumes "increasing_base bs" "0 < d" "length bs < 2 ^ 64"
    and "i = k mod length bs" "e = k div length bs" "w = base_value_at bs d k" "\<forall>j < k. base_value_at bs d j \<le> m"
    and "base_evaluations evals = bs @ [0]" "base_count evals = length bs" "base_dimension evals = d"
    and "base_index evals = i" "exponent2 evals = e" "value2 evals = w" "m < w"
  shows "second_waits evals bs d m"
  unfolding second_waits_def using assms by metis

lemma base_factor_bounds:
  assumes "base_value_at bs d k \<le> b" "increasing_base bs" "0 < d"
  shows "d \<le> b" "bs ! (k mod length bs) \<le> b"
proof -
  have i: "k mod length bs < length bs" using assms(2) by (simp add: increasing_base_def)
  have pos: "1 \<le> (10 :: nat) ^ (k div length bs)" "1 \<le> bs ! (k mod length bs)" "1 \<le> d"
    using base_nth_bounds(3) [OF assms(2) i] assms(3) by simp_all
  have "1 * d * 1 \<le> 10 ^ (k div length bs) * d * bs ! (k mod length bs)"
    using pos by (intro mult_le_mono order_refl)
  from order_trans [OF this assms(1) [unfolded base_value_at_def]] show "d \<le> b" by simp
  have "1 * 1 * bs ! (k mod length bs) \<le> 10 ^ (k div length bs) * d * bs ! (k mod length bs)"
    using pos by (intro mult_le_mono order_refl)
  from order_trans [OF this assms(1) [unfolded base_value_at_def]] show "bs ! (k mod length bs) \<le> b" by simp
qed

lemma next_index:
  assumes "0 < c" "c < 2 ^ 64" "base_index evals = k mod c" "exponent2 evals = k div c" "base_count evals = c"
  shows "next_base evals = evals\<lparr>base_index := Suc k mod c, exponent2 := Suc k div c\<rparr>"
proof (cases "Suc (k mod c) = c")
  case True
  then have "Suc k mod c = 0" "Suc k div c = Suc (k div c)" by (simp_all add: mod_Suc div_Suc)
  then show ?thesis using True assms by (simp add: next_base_def)
next
  case False
  then have e: "Suc k mod c = Suc (k mod c)" "Suc k div c = k div c" by (simp_all add: mod_Suc div_Suc)
  have "k mod c < c" using assms(1) by simp
  then have "k mod c < c - 1" using False by linarith
  moreover have "evals\<lparr>base_index := i, exponent2 := exponent2 evals\<rparr> = evals\<lparr>base_index := i\<rparr>" for i by simp
  ultimately show ?thesis using assms e by (simp add: next_base_def)
qed

lemma second_trigger_step:
  assumes "second_waits evals bs d m" "m < 10 ^ 17"
  shows "\<exists>i e w. coco_observer_evaluations_trigger_second evals (Suc m)
      = Inr (\<exists>k. Suc m = base_value_at bs d k, evals\<lparr>base_index := i, exponent2 := e, value2 := w\<rparr>)
    \<and> second_waits (evals\<lparr>base_index := i, exponent2 := e, value2 := w\<rparr>) bs d (Suc m)"
proof -
  let ?c = "length bs"
  obtain k where S: "increasing_base bs" "0 < d" "?c < 2 ^ 64" "base_evaluations evals = bs @ [0]"
    "base_count evals = ?c" "base_dimension evals = d" and k: "base_index evals = k mod ?c"
    "exponent2 evals = k div ?c" "value2 evals = base_value_at bs d k" "m < base_value_at bs d k"
    "\<forall>j < k. base_value_at bs d j \<le> m"
    using assms(1) by (auto simp: second_waits_def)
  note mono = base_value_mono [OF S(1,2)]
  have c: "0 < ?c" using S(1) by (simp add: increasing_base_def)
  have hit: "(\<exists>k. Suc m = base_value_at bs d k) \<longleftrightarrow> Suc m = base_value_at bs d k"
    using k(4,5) mono by (metis Suc_le_eq linorder_neqE_nat not_less_eq_eq order_less_irrefl)
  show ?thesis
  proof (cases "Suc m = base_value_at bs d k")
    case True
    define i e W where "i = Suc k mod ?c" and "e = Suc k div ?c" and "W = base_value_at bs d (Suc k)"
    let ?b = "bs ! i"
    have i: "i < ?c" using c by (simp add: i_def)
    have nb: "next_base evals = evals\<lparr>base_index := i, exponent2 := e\<rparr>"
      using next_index [OF c S(3) k(1,2) S(5)] by (simp add: i_def e_def)
    have w: "Suc m < W" "W \<le> 10 ^ 18"
      using base_value_Suc [OF S(1,2), of k] True assms(2) by (simp_all add: W_def)
    have "W = 10 ^ e * d * ?b" by (simp add: W_def base_value_at_def i_def e_def)
    moreover have "to_long d = int d" "to_long ?b = int ?b"
      using base_factor_bounds [OF w(2) [unfolded W_def] S(1,2)] by (simp_all add: to_long_def i_def)
    moreover have "10 powr real e = (10 :: real) ^ e" by (rule powr_realpow) simp
    ultimately have "to_size_t (dpow (Real 10) (Real (real e)) * Real (of_int (to_long d))
        * Real (of_int (to_long ?b))) = to_size_t (Real (real W))"
      by simp
    also have "\<dots> = Inr W" using w(2) by (intro to_size_t_of_nat) (rule le_less_trans, assumption, simp)
    finally have size: "to_size_t (dpow (Real 10) (Real (real e)) * Real (of_int (to_long d))
        * Real (of_int (to_long ?b))) = Inr W" .
    have "value2 evals \<le> Suc m" "rnth (base_evaluations evals) i = Inr ?b"
      using True S(4) k(3) i by (simp_all add: nth_append)
    then have "coco_observer_evaluations_trigger_second evals (Suc m) = Inr (True,
        evals\<lparr>base_index := i, exponent2 := e, value2 := W\<rparr>)"
      by (simp add: coco_observer_evaluations_trigger_second_def nb Let_def S(6) size del: dpow.simps times_double.simps)
    moreover have "second_waits (evals\<lparr>base_index := i, exponent2 := e, value2 := W\<rparr>) bs d (Suc m)"
    proof (rule second_waitsI [OF S(1-3)])
      show "i = Suc k mod ?c" "e = Suc k div ?c" "W = base_value_at bs d (Suc k)"
        by (rule i_def, rule e_def, rule W_def)
      show "\<forall>j < Suc k. base_value_at bs d j \<le> Suc m" using True k(5) by (auto simp: less_Suc_eq)
    qed (simp_all add: S(4-6) w(1))
    ultimately show ?thesis
      unfolding hit using True by - (rule exI [of _ i], rule exI [of _ e], rule exI [of _ W], simp)
  next
    case False
    then have "second_waits evals bs d (Suc m)"
      using S k by (auto simp: second_waits_def le_Suc_eq intro!: exI [of _ k])
    moreover have "evals\<lparr>base_index := base_index evals, exponent2 := exponent2 evals, value2 := value2 evals\<rparr> = evals"
      by simp
    moreover have "coco_observer_evaluations_trigger_second evals (Suc m)
        = Inr (\<exists>k. Suc m = base_value_at bs d k, evals)"
      using False k(3,4) by (simp add: coco_observer_evaluations_trigger_second_def hit)
    ultimately show ?thesis
      by (simp only: hit) (rule exI [of _ "base_index evals"], rule exI [of _ "exponent2 evals"],
        rule exI [of _ "value2 evals"], simp)
  qed
qed

section \<open>Runs of the evaluation triggers\<close>

fun evaluations_run ::
    "coco_observer_evaluations_t \<Rightarrow> nat list \<Rightarrow> (bool list \<times> coco_observer_evaluations_t) result" where
  "evaluations_run evals [] = Inr ([], evals)"
| "evaluations_run evals (m # ms) =
     rbind (coco_observer_evaluations_trigger evals m) (\<lambda>(hit, evals).
     rbind (evaluations_run evals ms) (\<lambda>(hits, evals). Inr (hit # hits, evals)))"

definition evaluations_wait :: "coco_observer_evaluations_t \<Rightarrow> nat list \<Rightarrow> nat \<Rightarrow> nat \<Rightarrow> bool" where
  "evaluations_wait evals bs d m \<longleftrightarrow>
     evaluation_triggers evals = 20 \<and> first_waits evals m \<and> second_waits evals bs d m"

text \<open>The numbers of evaluations that are logged.\<close>

definition logged_evaluation :: "nat list \<Rightarrow> nat \<Rightarrow> nat \<Rightarrow> bool" where
  "logged_evaluation bs d m \<longleftrightarrow> (\<exists>k. m = power_floor 20 k) \<or> (\<exists>k. m = base_value_at bs d k)"

lemma evaluations_trigger_step:
  assumes "evaluations_wait evals bs d m" "m < 10 ^ 17"
  shows "\<exists>evals'. coco_observer_evaluations_trigger evals (Suc m) = Inr (logged_evaluation bs d (Suc m), evals')
    \<and> evaluations_wait evals' bs d (Suc m)"
proof -
  have W: "evaluation_triggers evals = 20" "first_waits evals m" "second_waits evals bs d m"
    using assms(1) by (simp_all add: evaluations_wait_def)
  obtain k w where 1: "coco_observer_evaluations_trigger_first evals (Suc m)
      = Inr (\<exists>k. Suc m = power_floor 20 k, evals\<lparr>exponent1 := k, value1 := w\<rparr>)"
    "first_waits (evals\<lparr>exponent1 := k, value1 := w\<rparr>) (Suc m)"
    using first_trigger_step [OF W(2) assms(2)] W(1) by auto
  have "second_waits (evals\<lparr>exponent1 := k, value1 := w\<rparr>) bs d m" using W(3) by (simp add: second_waits_def)
  from second_trigger_step [OF this assms(2)] obtain i e v where
    2: "coco_observer_evaluations_trigger_second (evals\<lparr>exponent1 := k, value1 := w\<rparr>) (Suc m)
      = Inr (\<exists>k. Suc m = base_value_at bs d k,
          evals\<lparr>exponent1 := k, value1 := w, base_index := i, exponent2 := e, value2 := v\<rparr>)"
    "second_waits (evals\<lparr>exponent1 := k, value1 := w, base_index := i, exponent2 := e, value2 := v\<rparr>) bs d (Suc m)"
    by auto
  have "first_waits (evals\<lparr>exponent1 := k, value1 := w, base_index := i, exponent2 := e, value2 := v\<rparr>) (Suc m)"
    using 1(2) by (simp add: first_waits_def)
  then show ?thesis using 1(1) 2 W(1)
    by (simp add: coco_observer_evaluations_trigger_def evaluations_wait_def logged_evaluation_def)
qed

lemma evaluations_run_logged:
  assumes "evaluations_wait evals bs d m" "m + n \<le> 10 ^ 17"
  shows "\<exists>evals'. evaluations_run evals (map (\<lambda>i. Suc (m + i)) [0..<n])
      = Inr (map (\<lambda>i. logged_evaluation bs d (Suc (m + i))) [0..<n], evals')
    \<and> evaluations_wait evals' bs d (m + n)"
  using assms
proof (induction n arbitrary: evals m)
  case (Suc n)
  obtain e where e: "coco_observer_evaluations_trigger evals (Suc m) = Inr (logged_evaluation bs d (Suc m), e)"
    "evaluations_wait e bs d (Suc m)"
    using evaluations_trigger_step [OF Suc.prems(1)] Suc.prems(2) by auto
  have s: "map (\<lambda>i. f (Suc (m + i))) [0..<Suc n] = f (Suc m) # map (\<lambda>i. f (Suc (Suc m + i))) [0..<n]"
    for f :: "nat \<Rightarrow> 'a"
    by (simp add: upt_conv_Cons map_Suc_upt [symmetric] del: upt_Suc)
  from Suc.IH [OF e(2)] Suc.prems(2) e(1) show ?case
    using s [of "\<lambda>v. v"] s [of "logged_evaluation bs d"] by auto
qed simp

section \<open>Properties\<close>

lemma effective_exponent_small:
  assumes "trigger_bounds n precision v"
  shows "effective_exponent n precision v < INT_MAX"
proof -
  have n: "1 \<le> n" "n \<le> 10 ^ 6" and p: "1 / 10 ^ 20 \<le> precision" "precision \<le> 1" and v: "\<bar>v\<bar> \<le> 10 ^ 30"
    using assms by (simp_all add: trigger_bounds_def)
  have p0: "0 < precision" using p(1) by (rule less_le_trans [rotated]) simp
  have "effective_exponent n precision v \<le> effective_exponent n precision (10 ^ 30)"
    using v n(1) by (intro effective_exponent_mono [OF p0]) simp_all
  also have "max precision (10 ^ 30) = 10 ^ 30" using p(2) by simp
  then have "effective_exponent n precision (10 ^ 30) = \<lceil>log 10 (10 ^ 30) * real n\<rceil>"
    by (simp only: effective_exponent_def) simp
  also have "\<dots> \<le> 30000000"
    using log_bounds [of "10 ^ 30" n] n(2) exponent_bounds(2) by simp
  finally show ?thesis by (simp add: INT_MAX_def)
qed

text \<open>
  C24. A value triggers if and only if its exponent lies below the exponents of all values before, so a
  value that triggers is a strict improvement, and the first value always triggers.
\<close>

theorem target_trigger_records:
  assumes "\<forall>v \<in> set vs. trigger_bounds n precision v"
  shows "\<exists>hits t. targets_run (coco_observer_targets n (Real precision)) (map Real vs) = Inr (hits, t)
    \<and> length hits = length vs
    \<and> (\<forall>i < length vs. (hits ! i \<longleftrightarrow>
          (\<forall>j < i. effective_exponent n precision (vs ! i) < effective_exponent n precision (vs ! j)))
        \<and> (hits ! i \<longrightarrow> (\<forall>j < i. vs ! i < vs ! j)))"
proof -
  let ?t = "coco_observer_targets n (Real precision)" and ?e = "effective_exponent n precision"
  obtain t where t: "targets_run ?t (map Real vs) = Inr (record_hits INT_MAX (map ?e vs), t)"
    using targets_run_record [OF assms, of ?t] by (auto simp: coco_observer_targets_def)
  have "record_hits INT_MAX (map ?e vs) ! i \<longleftrightarrow> (\<forall>j < i. ?e (vs ! i) < ?e (vs ! j))" if "i < length vs" for i
    using that assms effective_exponent_small by (simp add: record_hits_nth)
  moreover have "vs ! i < vs ! j" if "i < length vs" "j < i" "?e (vs ! i) < ?e (vs ! j)" for i j
  proof (rule ccontr)
    assume "\<not> vs ! i < vs ! j"
    moreover have "trigger_bounds n precision (vs ! i)" using assms that(1) by simp
    then have "1 \<le> n" "1 / 10 ^ 20 \<le> precision" by (simp_all add: trigger_bounds_def)
    moreover from this(2) have "0 < precision" by (rule less_le_trans [rotated]) simp
    ultimately have "?e (vs ! j) \<le> ?e (vs ! i)" by (intro effective_exponent_mono) simp_all
    then show False using that(3) by simp
  qed
  ultimately show ?thesis using t by (intro exI [of _ "record_hits INT_MAX (map ?e vs)"] exI [of _ t]) simp
qed

theorem target_trigger_records_witness:
  "\<exists>hits t. targets_run (coco_observer_targets 100 (Real (1 / 10 ^ 8))) (map Real [3, 5, - 2]) = Inr (hits, t)
    \<and> length hits = 3 \<and> \<not> hits ! 1"
proof -
  have "\<forall>v \<in> set [3, 5, - 2]. trigger_bounds 100 (1 / 10 ^ 8) v" by (simp add: trigger_bounds_def)
  from target_trigger_records [OF this] obtain hits t where h:
    "targets_run (coco_observer_targets 100 (Real (1 / 10 ^ 8))) (map Real [3, 5, - 2]) = Inr (hits, t)"
    "length hits = 3" "\<forall>i < 3. hits ! i \<longrightarrow> (\<forall>j < i. [3, 5, - 2] ! i < ([3, 5, - 2] :: real list) ! j)"
    by auto
  have "\<not> hits ! 1" using h(3) [rule_format, of 1 0] by auto
  then show ?thesis using h(1,2) by blast
qed



lemma evaluations_wait_new:
  assumes "coco_observer_evaluations base d = Inr evals" "base_evaluations evals = bs @ [0]"
    and "increasing_base bs" "length bs < 1000" "0 < d" "d * hd bs < 2 ^ 64"
  shows "evaluations_wait evals bs d 0"
proof -
  have nz: "\<forall>b \<in> set bs. b \<noteq> 0" using base_nth_bounds(3) [OF assms(3)] by (fastforce simp: in_set_conv_nth)
  have ne: "bs \<noteq> []" using assms(3) by (simp add: increasing_base_def)
  obtain numbers where num: "coco_string_parse_ranges (Some base) 1 0 COCO_MAX_EVALS_TO_LOG = Inr (Some numbers)"
    and n: "numbers = bs @ [0]"
    using assms(1,2) by (auto simp: coco_observer_evaluations_def rbind_eq_Inr split: option.splits)
  have count: "coco_count_numbers (Some (bs @ [0])) COCO_MAX_EVALS_TO_LOG = Inr (length bs)"
    using count_numbers_loop_prefix [OF nz, of 1000 0 "[]"] assms(4)
    by (simp add: coco_count_numbers_def COCO_MAX_EVALS_TO_LOG_def)
  have e: "evals = \<lparr> value1 = 1, exponent1 = 0, evaluation_triggers = 20, value2 = d * hd bs, exponent2 = 0,
      base_evaluations = bs @ [0], base_count = length bs, base_index = 0, base_dimension = d \<rparr>"
    using assms(1,6) num n count ne by (simp add: coco_observer_evaluations_def hd_conv_nth nth_append)
  have "second_waits evals bs d 0"
    using assms(3-5) ne
    by (intro second_waitsI [where k = 0 and i = 0 and e = 0 and w = "d * hd bs"])
      (simp_all add: e base_value_at_def hd_conv_nth increasing_base_def)
  moreover have "first_waits evals 0" by (simp add: e first_waits_def)
  ultimately show ?thesis by (simp add: evaluations_wait_def e)
qed



end
