(* ===== verification/Coco_Files.thy ===== *)
theory Coco_Files
  imports Coco_Double Coco_Options
begin

text \<open>
  The files that the observers write: a model of the file system, paths and directories
  (\<open>coco_utilities.c\<close>), and \<open>fprintf\<close>. A path is a string; two spellings of the same path are not
  identified. A stream opened for appending is its path (\<open>FILE *\<close>, NULL is \<open>None\<close>), what has been written
  to it counts as being in the file. A file holds the pieces that were written: texts, and numbers with their
  conversion specification, whose digits are left to \<open>printf\<close>.
\<close>

section \<open>The file system\<close>

datatype chunk = Text string | Number string double

text \<open>
  \<open>refused\<close> are the paths that the system does not let the process create or open, for whatever reason.
\<close>

record file_system =
  directories :: "string set"
  files :: "string \<Rightarrow> chunk list option"
  refused :: "string \<Rightarrow> bool"

text \<open>The path before the last separator; \<open>None\<close> for an entry of the working directory.\<close>

definition parent_directory :: "string \<Rightarrow> string option" where
  "parent_directory path =
     (case dropWhile (\<lambda>c. c \<noteq> CHR ''/'') (rev path) of
        [] \<Rightarrow> None
      | _ # r \<Rightarrow> Some (rev r))"

definition coco_directory_exists :: "file_system \<Rightarrow> string \<Rightarrow> bool" where
  "coco_directory_exists fs path \<longleftrightarrow> path \<in> directories fs"

definition coco_file_exists :: "file_system \<Rightarrow> string \<Rightarrow> bool" where
  "coco_file_exists fs path \<longleftrightarrow> files fs path \<noteq> None"

text \<open>The parent of a new entry has to be a directory; the empty prefix is the root.\<close>

definition has_parent :: "file_system \<Rightarrow> string \<Rightarrow> bool" where
  "has_parent fs path \<longleftrightarrow>
     (case parent_directory path of None \<Rightarrow> True | Some d \<Rightarrow> d = [] \<or> coco_directory_exists fs d)"

section \<open>Directories and paths\<close>

text \<open>0 for a new directory, 1 if the path existed.\<close>

definition coco_mkdir :: "string \<Rightarrow> file_system \<Rightarrow> (nat \<times> file_system) result" where
  "coco_mkdir path fs =
     (if path \<noteq> [] \<and> (coco_directory_exists fs path \<or> coco_file_exists fs path) then Inr (1, fs)
      else if path = [] \<or> refused fs path \<or> \<not> has_parent fs path then Inl (Coco_error ''coco_mkdir'')
      else Inr (0, fs\<lparr>directories := insert path (directories fs)\<rparr>))"

fun create_nested :: "string \<Rightarrow> string \<Rightarrow> file_system \<Rightarrow> file_system result" where
  "create_nested tmp [] fs = Inr fs"
| "create_nested tmp (p # ps) fs =
     (if p = CHR ''/''
      then rbind (coco_mkdir tmp fs) (\<lambda>(_, fs). create_nested (tmp @ [p]) ps fs)
      else create_nested (tmp @ [p]) ps fs)"

definition strip_separators :: "string \<Rightarrow> string" where
  "strip_separators path =
     (let tmp = (if last path = CHR ''/'' then butlast path else path)
      in if char_at tmp 0 = CHR ''/'' then tl tmp else tmp)"

definition coco_create_directory :: "string \<Rightarrow> file_system \<Rightarrow> (nat \<times> file_system) result" where
  "coco_create_directory path fs =
     (if path = [] then Inl Out_of_bounds
      else
        let tmp = strip_separators path
        in rbind (create_nested [] tmp fs) (coco_mkdir tmp))"

definition pad_zeros :: "nat \<Rightarrow> string \<Rightarrow> string" where
  "pad_zeros w s = replicate (w - length s) (CHR ''0'') @ s"

fun unique_loop :: "nat list \<Rightarrow> string \<Rightarrow> file_system \<Rightarrow> (string \<times> file_system) result" where
  "unique_loop [] path fs = Inl (Coco_error ''coco_create_unique_directory'')"
| "unique_loop (counter # counters) path fs =
     rbind (coco_vstrdupf ''%s-%03d'' (path @ ''-'' @ pad_zeros 3 (show_nat counter))) (\<lambda>new_path.
     rbind (coco_create_directory new_path fs) (\<lambda>(existed, fs).
       if existed = 0 then Inr (new_path, fs) else unique_loop counters path fs))"

definition coco_create_unique_directory :: "string \<Rightarrow> file_system \<Rightarrow> (string \<times> file_system) result" where
  "coco_create_unique_directory path fs =
     rbind (coco_create_directory path fs) (\<lambda>(existed, fs).
       if existed = 0 then Inr (path, fs) else unique_loop [1..<999] path fs)"

text \<open>
  The length of the path is read once, before the first component is appended.
\<close>

fun join_loop :: "nat \<Rightarrow> nat \<Rightarrow> string \<Rightarrow> string list \<Rightarrow> string result" where
  "join_loop path_length path_max_length path [] = Inr path"
| "join_loop path_length path_max_length path (component # components) =
     (if path_length + 1 + length component \<ge> path_max_length then Inl (Coco_error ''coco_join_path'')
      else
        let path = (if path \<noteq> [] then path @ take (path_max_length - length path - 1) ''/'' else path);
            path = path @ take (path_max_length - length path - 1) component
        in join_loop path_length path_max_length path components)"

definition coco_join_path :: "string \<Rightarrow> nat \<Rightarrow> string list \<Rightarrow> string result" where
  "coco_join_path path path_max_length components = join_loop (length path) path_max_length path components"

definition COCO_PATH_MAX :: nat where
  "COCO_PATH_MAX = 4096"

section \<open>Streams\<close>

text \<open>\<open>fopen(path, "a")\<close> creates a file that does not exist.\<close>

definition fopen_append :: "string \<Rightarrow> file_system \<Rightarrow> string option \<times> file_system" where
  "fopen_append path fs =
     (if path = [] \<or> refused fs path \<or> coco_directory_exists fs path \<or> \<not> has_parent fs path then (None, fs)
      else (Some path,
        if coco_file_exists fs path then fs else fs\<lparr>files := (files fs)(path := Some [])\<rparr>))"

text \<open>Whether \<open>fopen(path, "r")\<close> succeeds.\<close>

definition fopen_read :: "string \<Rightarrow> file_system \<Rightarrow> bool" where
  "fopen_read path fs \<longleftrightarrow> \<not> refused fs path \<and> (coco_file_exists fs path \<or> coco_directory_exists fs path)"

definition fprintf :: "string option \<Rightarrow> chunk list \<Rightarrow> file_system \<Rightarrow> file_system result" where
  "fprintf stream chunks fs =
     (case stream of
        None \<Rightarrow> Inl Null_deref
      | Some path \<Rightarrow>
          (case files fs path of
             None \<Rightarrow> Inr fs
           | Some content \<Rightarrow> Inr (fs\<lparr>files := (files fs)(path := Some (content @ chunks))\<rparr>)))"

text \<open>The loggers end with an error, here with the name of their function, if a file cannot be opened.\<close>

definition open_append :: "string \<Rightarrow> string \<Rightarrow> file_system \<Rightarrow> (string \<times> file_system) result" where
  "open_append name file_path fs =
     (case fopen_append file_path fs of
        (None, fs) \<Rightarrow> Inl (Coco_error name)
      | (Some f, fs) \<Rightarrow> Inr (f, fs))"

definition show_int :: "int \<Rightarrow> string" where
  "show_int k = (if k < 0 then CHR ''-'' # show_nat (nat (- k)) else show_nat (nat k))"

definition newline :: string where
  "newline = [CHR 0x0A]"

definition tabulator :: string where
  "tabulator = [CHR 0x09]"

section \<open>Facts\<close>

lemma coco_join_path_one:
  assumes "length path + 1 + length component < m"
  shows "coco_join_path path m [component] = Inr (if path = [] then component else path @ ''/'' @ component)"
  using assms by (simp add: coco_join_path_def)

lemma coco_mkdir_new:
  assumes "coco_mkdir path fs = Inr (e, fs')"
  shows "path \<noteq> [] \<and> files fs' = files fs \<and> refused fs' = refused fs \<and> directories fs \<subseteq> directories fs'
    \<and> directories fs' \<subseteq> insert path (directories fs)
    \<and> (e = 0 \<longrightarrow> \<not> coco_directory_exists fs path \<and> \<not> coco_file_exists fs path \<and> coco_directory_exists fs' path)"
  using assms by (auto simp: coco_mkdir_def coco_directory_exists_def split: if_splits)

lemma create_nested_keeps:
  assumes "create_nested tmp ps fs = Inr fs'"
  shows "files fs' = files fs \<and> refused fs' = refused fs \<and> directories fs \<subseteq> directories fs'"
  using assms
proof (induction tmp ps fs rule: create_nested.induct)
  case (2 tmp p ps fs)
  then show ?case by (auto simp: rbind_eq_Inr dest!: coco_mkdir_new split: if_splits)
qed simp

text \<open>\<open>0\<close> is the answer for a path that did not exist, without its separators at both ends.\<close>

lemma coco_create_directory_new:
  assumes "coco_create_directory path fs = Inr (e, fs')"
  shows "files fs' = files fs \<and> refused fs' = refused fs \<and> directories fs \<subseteq> directories fs'
    \<and> (e = 0 \<longrightarrow> \<not> coco_directory_exists fs (strip_separators path)
        \<and> \<not> coco_file_exists fs (strip_separators path) \<and> coco_directory_exists fs' (strip_separators path))"
  using assms
  by (fastforce simp: coco_create_directory_def rbind_eq_Inr Let_def coco_directory_exists_def coco_file_exists_def
      dest!: coco_mkdir_new create_nested_keeps split: if_splits)

definition relative_path :: "string \<Rightarrow> bool" where
  "relative_path path \<longleftrightarrow> path \<noteq> [] \<and> hd path \<noteq> CHR ''/'' \<and> last path \<noteq> CHR ''/''"

lemma strip_relative [simp]: "relative_path path \<Longrightarrow> strip_separators path = path"
  by (cases path) (auto simp: relative_path_def strip_separators_def char_at_def Let_def)

lemma relative_path_numbered:
  assumes "relative_path path"
  shows "relative_path (path @ ''-'' @ pad_zeros w (show_nat n))"
proof -
  have ne: "show_nat n \<noteq> []" by (rule show_nat_nonempty)
  then have "isdigit (last (show_nat n))"
    using show_nat_digits [of n] by (simp add: list_all_iff)
  then have "last (show_nat n) \<noteq> CHR ''/''" by (auto simp: isdigit_def)
  then show ?thesis
    using assms ne by (simp add: relative_path_def pad_zeros_def)
qed

text \<open>What \<open>coco_create_unique_directory\<close> promises: \<open>p\<close> is new, and nothing else is lost or written.\<close>

definition new_directory :: "file_system \<Rightarrow> string \<Rightarrow> file_system \<Rightarrow> bool" where
  "new_directory fs p fs' \<longleftrightarrow>
     \<not> coco_directory_exists fs p \<and> \<not> coco_file_exists fs p \<and> coco_directory_exists fs' p
     \<and> files fs' = files fs \<and> refused fs' = refused fs \<and> directories fs \<subseteq> directories fs'"

lemma new_directory_later:
  assumes "new_directory fs1 p fs2" and "files fs1 = files fs" "refused fs1 = refused fs"
    and "directories fs \<subseteq> directories fs1"
  shows "new_directory fs p fs2"
  using assms by (auto simp: new_directory_def coco_directory_exists_def coco_file_exists_def)

lemma unique_loop_new:
  assumes "unique_loop ks path fs = Inr (p, fs')" and "relative_path path"
  shows "new_directory fs p fs' \<and> (\<exists>k\<in>set ks. p = path @ ''-'' @ pad_zeros 3 (show_nat k))"
  using assms
proof (induction ks path fs rule: unique_loop.induct)
  case (2 k ks path fs)
  let ?q = "path @ ''-'' @ pad_zeros 3 (show_nat k)"
  have rel: "relative_path ?q" using relative_path_numbered [OF 2(3)] .
  from 2(2) obtain e fs1 where q: "coco_vstrdupf ''%s-%03d'' ?q = Inr ?q"
    and c: "coco_create_directory ?q fs = Inr (e, fs1)"
    and r: "if e = 0 then Inr (?q, fs1) = Inr (p, fs') else unique_loop ks path fs1 = Inr (p, fs')"
    by (auto simp: rbind_eq_Inr coco_vstrdupf_def split: if_splits)
  note new = coco_create_directory_new [OF c, unfolded strip_relative [OF rel]]
  show ?case
  proof (cases "e = 0")
    case True
    then show ?thesis using r new by (simp add: new_directory_def)
  next
    case False
    then have l: "unique_loop ks path fs1 = Inr (p, fs')" using r by simp
    have "new_directory fs1 p fs' \<and> (\<exists>k\<in>set ks. p = path @ ''-'' @ pad_zeros 3 (show_nat k))"
      using 2(1) [OF False l 2(3)] .
    then show ?thesis using new new_directory_later [of fs1 p fs' fs] by auto
  qed
qed simp

section \<open>Properties\<close>

text \<open>
  C27. \<open>coco_create_unique_directory\<close> returns, for a relative path, a directory that exists afterwards and was
  neither a directory nor a file before; its name is the path itself or the path with a number between 1
  and 998. No file is changed and no directory disappears.
\<close>

theorem unique_directory_is_new:
  assumes "coco_create_unique_directory path fs = Inr (p, fs')" and "relative_path path"
  shows "new_directory fs p fs'
    \<and> (p = path \<or> (\<exists>k\<in>{1..998}. p = path @ ''-'' @ pad_zeros 3 (show_nat k)))"
proof -
  from assms(1) obtain e fs1 where c: "coco_create_directory path fs = Inr (e, fs1)"
    and r: "if e = 0 then p = path \<and> fs' = fs1 else unique_loop [1..<999] path fs1 = Inr (p, fs')"
    by (auto simp: coco_create_unique_directory_def rbind_eq_Inr simp del: upt_rec_numeral split: if_splits)
  note new = coco_create_directory_new [OF c, unfolded strip_relative [OF assms(2)]]
  show ?thesis
  proof (cases "e = 0")
    case True
    then show ?thesis using r new by (simp add: new_directory_def)
  next
    case False
    then have "unique_loop [1..<999] path fs1 = Inr (p, fs')" using r by (simp only: if_False)
    note unique_loop_new [OF this assms(2)]
    then show ?thesis using new new_directory_later [of fs1 p fs' fs] by (auto simp del: upt_rec_numeral)
  qed
qed

definition sample_file_system :: file_system where
  "sample_file_system = \<lparr> directories = {''a'', ''a-001''}, files = (\<lambda>_. None), refused = (\<lambda>_. False) \<rparr>"

lemma sample_unique_directory:
  "coco_create_unique_directory ''a'' sample_file_system
     = Inr (''a-002'', sample_file_system\<lparr>directories := {''a-002'', ''a'', ''a-001''}\<rparr>)"
proof -
  define ks :: "nat list" where "ks = [3..<999]"
  have "[1..<999] = 1 # [Suc 1..<999]" "[2..<999] = 2 # [Suc 2..<999]" by (rule upt_conv_Cons, simp)+
  moreover have "Suc 1 = 2" "Suc 2 = 3" by simp_all
  ultimately have u: "[1..<999] = 1 # 2 # ks" unfolding ks_def by metis
  have s: "show_nat 1 = ''1''" "show_nat 2 = ''2''" by code_simp+
  note defs = coco_create_directory_def strip_separators_def char_at_def s pad_zeros_def
    coco_mkdir_def has_parent_def parent_directory_def coco_directory_exists_def coco_file_exists_def
    sample_file_system_def coco_vstrdupf_def COCO_VSTRDUPF_BUFLEN_def numeral_3_eq_3 Let_def
  have "coco_create_directory ''a'' sample_file_system = Inr (1, sample_file_system)"
    "coco_create_directory ''a-001'' sample_file_system = Inr (1, sample_file_system)"
    "coco_create_directory ''a-002'' sample_file_system
      = Inr (0, sample_file_system\<lparr>directories := {''a-002'', ''a'', ''a-001''}\<rparr>)"
    by (simp_all add: defs del: One_nat_def)
  moreover have "path @ ''-'' @ pad_zeros 3 (show_nat 1) = ''a-001''"
    "path @ ''-'' @ pad_zeros 3 (show_nat 2) = ''a-002''" if "path = ''a''" for path
    using that by (simp_all add: s pad_zeros_def numeral_3_eq_3 del: One_nat_def)
  moreover have "coco_vstrdupf ''%s-%03d'' ''a-001'' = Inr ''a-001''" "coco_vstrdupf ''%s-%03d'' ''a-002'' = Inr ''a-002''"
    by (simp_all add: coco_vstrdupf_def COCO_VSTRDUPF_BUFLEN_def)
  ultimately show ?thesis
    unfolding coco_create_unique_directory_def u
    by (simp del: One_nat_def)
qed

theorem unique_directory_is_new_witness:
  "new_directory sample_file_system ''a-002'' (sample_file_system\<lparr>directories := {''a-002'', ''a'', ''a-001''}\<rparr>)
    \<and> (''a-002'' = ''a'' \<or> (\<exists>k\<in>{1..998}. ''a-002'' = ''a'' @ ''-'' @ pad_zeros 3 (show_nat k)))"
  by (rule unique_directory_is_new [OF sample_unique_directory]) (simp add: relative_path_def)

end
