(* ===== verification/Coco_Hypervolume_Values.thy ===== *)
theory Coco_Hypervolume_Values
  imports Coco_Problem
begin

text \<open>
  The best known hypervolumes of the bi-objective problems (\<open>suite_biobj_best_values_hyp.c\<close>). Every string
  of the table is a key and a number between 0 and 1 with 15 digits after the point. \<open>best_hyp_\<close> with the number of a function has the
  numbers of this function, times 10 to the 15: a list for every instance, with one number for every dimension.
  The strings for the instances 11 to 15 and for the functions 56 to 92 all end in 1.0.
\<close>

section \<open>The numbers\<close>

definition one_digits :: nat where
  "one_digits = 10 ^ 15"

definition no_best_hyp :: "nat list" where
  "no_best_hyp = replicate 6 one_digits"

definition best_hyp_1 :: "nat list list" where
  "best_hyp_1 =
   [[833332923849452, 833332590193468, 833332871970114, 833332983507963, 833332656879612, 833314650345829],
    [833332931307885, 833332733855334, 833332480608307, 833332975206005, 833333117544167, 833314493712438],
    [833332922354197, 833332806949774, 833332842547238, 833332977573570, 833333116146967, 833314058645234],
    [833332867309178, 833332594337647, 833332839988488, 833332988612530, 833333104916722, 833314378132203],
    [833332945296347, 833332652221029, 833332837022086, 833332990781764, 833333113205696, 833314458103617],
    [833332799189226, 833332521560045, 833332854255201, 833332431471356, 833333105010663, 833140980202184],
    [833332799479431, 833332509886665, 833332870930573, 833332985899831, 833332882157948, 833025632391428],
    [833332644870580, 833332802814295, 833332837685789, 833332980221363, 833333103071380, 833065287510734],
    [833332608159240, 833332813941859, 833332858149369, 833332976673314, 833333112988244, 833017475872989],
    [833332793837110, 833332797396180, 833332479626792, 833332975447230, 833332903259388, 833049367302132]] @ replicate 5 no_best_hyp"

definition best_hyp_2 :: "nat list list" where
  "best_hyp_2 =
   [[995822561023240, 879310431864156, 953384084311242, 978189643915096, 951903142351403, 949824650187359],
    [917892814584968, 981135909601684, 966473231322075, 954022219761768, 980915316952865, 967820288072087],
    [990979165827488, 952601084184924, 950364402842151, 890666848167831, 971903877089018, 962240289831067],
    [956280253169872, 889457145687917, 881363552894039, 972589938217805, 977355424486821, 976521983119385],
    [960749326556107, 924022607296279, 861593353038038, 933915127767411, 962923115039428, 960311958395483],
    [875386399710729, 948381052595089, 910439280190353, 977165791278565, 971870013922785, 972319995645285],
    [832403909990292, 875220188815227, 912587284654367, 958804666468614, 977380321260569, 968045916312069],
    [829465051906365, 974523475625668, 936067436058678, 922560458802353, 967069143117920, 963122260805039],
    [991879825579866, 978472046555062, 942549982385051, 953997088214724, 961031595278923, 973807415276184],
    [947432430910857, 991603200976025, 948442017309507, 965514596960421, 970944129483383, 963693463826435]] @ replicate 5 no_best_hyp"

definition best_hyp_3 :: "nat list list" where
  "best_hyp_3 =
   [[811764227919237, 974987686406398, 846755821475001, 916897326744567, 887093378512445, 877301209968849],
    [870719320227517, 845126230251145, 961675547477218, 980164167551993, 950054357943145, 941149877177212],
    [843027854657315, 860130827007275, 836876534262302, 985500464678158, 867661654006730, 885731348325649],
    [816337758672414, 965017447879510, 832979226365889, 908658717348390, 932782033778145, 911122582165054],
    [854019720086261, 879236357635921, 959277121197834, 881588676730308, 875617568043751, 897748784259607],
    [830343055064749, 944959812797630, 970527337180708, 844333191961208, 910362127777293, 913082625433224],
    [868151338090149, 869382169348494, 903912429165581, 845699441056724, 923299654935261, 907453227472945],
    [990911524871468, 835187869372628, 922645354726611, 886866796169689, 924597832045464, 901676028146734],
    [813085530790926, 929449915590067, 852770622828177, 988149709245385, 891263868986904, 960313249884054],
    [806842793172941, 889858712567055, 872339918273572, 838785952959289, 932837871417158, 919291853546905]] @ replicate 5 no_best_hyp"

definition best_hyp_4 :: "nat list list" where
  "best_hyp_4 =
   [[965338726794382, 968687951515035, 943989863409768, 944838255687357, 935875503168791, 938346564293152],
    [970390735576566, 955014817645219, 963230490151800, 954675551328523, 941764787741878, 942548357947242],
    [971131699210568, 910481413771928, 937880321716215, 951455403991113, 931490116714832, 935912840885351],
    [977012543483185, 994699731867687, 944471116749840, 936538418626468, 942534311803126, 936539435934015],
    [924874420000501, 923161919375749, 942091615902321, 941633909892918, 948833719064138, 941340383563524],
    [972712023086024, 943259154470174, 950605294323082, 952990287497578, 950812808533448, 941972851884953],
    [955670149154298, 967708425195390, 954782909290990, 963225833055543, 945577888150042, 946077143098894],
    [907747209528065, 921849147005426, 959565746288096, 948097764116263, 941570417466490, 934063924497575],
    [810228484370594, 940463955038713, 933584265077007, 942896781839956, 933010807630098, 935798291522789],
    [954309122443056, 918874808389024, 935604060678033, 926101932209592, 933741140736711, 935392338253246]] @ replicate 5 no_best_hyp"

definition best_hyp_5 :: "nat list list" where
  "best_hyp_5 =
   [[754128843554063, 728475348474197, 732294673842556, 714081601978928, 694491269656484, 709897599941799],
    [954990573126856, 688043584247301, 714739513483451, 730746486457995, 689211189126236, 698143247686728],
    [684482936855002, 802889224282279, 699898464202400, 683945382318722, 697145640312030, 694224764943005],
    [878631790550396, 744997244910120, 776093236181555, 716317814175257, 705280280057881, 699990681454391],
    [926275561653235, 701518937377523, 737170729705834, 749504681924043, 695500720128268, 698208388110590],
    [885993423655518, 753054842415797, 777207864089930, 760062484063981, 701429647524717, 703399229288760],
    [733322624337346, 837353794951257, 732469624019470, 704094291056772, 714293887126808, 702091851169133],
    [720852977164468, 718993847264250, 719205565720365, 695251774184546, 721402091348061, 698735224096643],
    [843425481280734, 678680980278178, 774526799831117, 702694287379912, 700114467616452, 695637998755007],
    [781317669360153, 935431588217515, 765296061050919, 703665546454890, 695348707691516, 699213843205399]] @ replicate 5 no_best_hyp"

definition best_hyp_6 :: "nat list list" where
  "best_hyp_6 =
   [[667254444373576, 954292615388024, 846018108006070, 937011171661415, 931062491929114, 923107376979132],
    [901470541064455, 863894446994245, 867726820357307, 875243417373076, 910534831484962, 943043761978475],
    [884300125495847, 833639337871505, 848595402210255, 895943187528683, 932804873601530, 902613635336386],
    [945804377878614, 921371854303564, 935945307405495, 930064024521303, 901083959683698, 876264281037954],
    [942603371250243, 899137550818265, 930569530909069, 743374275978944, 918107792651112, 858546452709913],
    [899088058493637, 836273396344679, 811666818853098, 928896921971501, 868880077191445, 914009310714674],
    [813378211274640, 899764157891963, 877044131516540, 815103763392029, 935546623083071, 918203928752294],
    [910565241257933, 667404103609139, 937319850801338, 930156422143394, 910955371810017, 925981149845227],
    [675947010648316, 867855866365995, 897324697379564, 845127370421703, 949720407857437, 945411493883968],
    [882457686653892, 907422193376687, 905219354104915, 906496647250774, 901309728619030, 921989810690995]] @ replicate 5 no_best_hyp"

definition best_hyp_7 :: "nat list list" where
  "best_hyp_7 =
   [[936972575085523, 937571783523299, 860222475841532, 897609185174781, 942671659576489, 910485687990751],
    [906340900885370, 923761423740148, 893388606223265, 896254312553792, 900483922216280, 865795482651835],
    [886134331413053, 921398210499996, 868192249749793, 894160344923831, 898091141981344, 889534578187546],
    [870759950441604, 933982487161439, 870207948851616, 884508750253254, 894023396251866, 905164921817996],
    [911523577984129, 887628704517619, 911689477358187, 868303705443327, 888205577785785, 912756246768348],
    [937861505018401, 945942900173665, 915705285244223, 891206796700426, 884437403163543, 883827465078616],
    [871209654272761, 911170901726427, 885356348557851, 895861833448791, 894942450950192, 854575042999799],
    [849406116302883, 909560273134834, 846611979908353, 916959924844533, 891124123593114, 905849069194381],
    [877457921891718, 928694938524451, 890504447918247, 911171424258652, 898982426181766, 867135361861662],
    [907426576520353, 920344140918204, 897609858978946, 902681008338079, 933248995366967, 893566872525990]] @ replicate 5 no_best_hyp"

definition best_hyp_8 :: "nat list list" where
  "best_hyp_8 =
   [[903849381293032, 911799446711896, 942810865795991, 982310271948219, 969081195591175, 941602861002529],
    [784765299142009, 882040732286310, 909602249858625, 916464603099051, 905238001542862, 942706996827259],
    [748604947410058, 850955572510764, 805508853750290, 931243739617921, 950573205092055, 882551515361396],
    [743267364302322, 667007078367313, 927892758832404, 951140771552574, 956543860986805, 924431301334235],
    [865136714427976, 893998699750253, 917998781925269, 930536026397557, 910195152512765, 944277101801299],
    [829476441539014, 895408933722067, 889128202192725, 912648355358455, 929751402682770, 912322766676420],
    [933714327146467, 911121051771586, 901891452886488, 876772709102926, 948895341508442, 871778232072206],
    [901615894941159, 935771577639889, 913263769388604, 924413116450644, 942886981112154, 832711391708555],
    [904705113882673, 941784988928111, 833932222374868, 920117214003409, 913696814139621, 935225792568577],
    [904870851433164, 934442126180304, 952539863227733, 924171076528587, 918327947939103, 962723183344110]] @ replicate 5 no_best_hyp"

definition best_hyp_9 :: "nat list list" where
  "best_hyp_9 =
   [[925657814170223, 904197423117471, 932181427920137, 940801691617986, 960316065946310, 966662588954428],
    [977793751262295, 992207394369088, 961854320874622, 975991497292509, 962608726627843, 963762685971772],
    [968705844447316, 986085524471979, 930451696324880, 955044825826449, 970332351664872, 969394339815251],
    [948342668463238, 940844214602507, 950696199447794, 944322425851199, 961728387760400, 963103853915457],
    [860780709822583, 939789647695892, 968561825403842, 940734136756500, 963736063540811, 967143960180269],
    [957398241336098, 987802627245661, 910234055809238, 958616029953390, 969292910703259, 960785018243888],
    [990548357014945, 962705179569111, 974605803220911, 974607189329728, 975338881485032, 972104542550424],
    [889502838059927, 964124022283451, 959709821835848, 954117820334898, 950915150582074, 959892153059548],
    [950460190109210, 983671960174457, 964992545695910, 979833476209204, 978347861561944, 967598075906950],
    [869881009407849, 943447288797987, 920154801176530, 944146078493198, 957505476179459, 964026681541125]] @ replicate 5 no_best_hyp"

definition best_hyp_10 :: "nat list list" where
  "best_hyp_10 =
   [[922987888165046, 927568092282234, 867913922452004, 879667617760632, 840992193517756, 730862112175264],
    [889244712003482, 883788429112751, 898119402291299, 798834395729540, 812130174416182, 663856072359917],
    [921418301089463, 901135310123523, 890601509335293, 710848076679431, 798315835129164, 747904986400848],
    [942089494535008, 932702272655739, 946972264766413, 906395334139304, 800335891125016, 638845426804670],
    [940003750569188, 934364067558401, 934949844294875, 842838836991676, 778548919281115, 640157170132133],
    [884512896964566, 929345926122951, 937753565304302, 916302417802770, 804216801427507, 690918114180113],
    [972916090945292, 971450633117566, 941727082076548, 817927199823897, 763258585381718, 739991394439648],
    [926524440495943, 950976461393930, 975346535085332, 916401249392711, 857675602487971, 775583712514456],
    [663726926800968, 879016548436657, 942218870289438, 904838192250101, 792568176822578, 722036310804938],
    [909615354906003, 950985467384464, 937047585618269, 894128956510904, 748700702453785, 532852626529976]] @ replicate 5 no_best_hyp"

definition best_hyp_11 :: "nat list list" where
  "best_hyp_11 =
   [[823972812562388, 878621203194964, 812586648665059, 836592516333072, 836424820585753, 826157745787494],
    [834474640589775, 833334234596160, 813664713043024, 829501419795512, 835498021013514, 836861505054914],
    [817436951100827, 827370208306986, 841073303364040, 821941232889153, 835250205841700, 842912564518251],
    [883087616206635, 841524279183524, 886492170474548, 834701874121709, 838340761867027, 836846910424672],
    [849344297999467, 775581024465445, 834556160894165, 840911958504972, 841666619239648, 833867420433639],
    [826928090908244, 829311542360003, 835849754824295, 834281888590491, 835890818567694, 833909224886551],
    [827124524692875, 834101026397339, 822553859716167, 828565235659249, 847995795586526, 839429981523613],
    [816785490280523, 828801608657967, 821726221706212, 837631789427020, 842921662278686, 840655475524800],
    [832761545730916, 824043534074746, 792984808020167, 824441637294302, 829359805622782, 826982642746262],
    [826872158038815, 815632322967258, 813174586531673, 845302354695332, 827523794821044, 834513234276812]] @ replicate 5 no_best_hyp"

definition best_hyp_12 :: "nat list list" where
  "best_hyp_12 =
   [[981019021891034, 997359054292220, 999992980228967, 997430774247223, 999555509973294, 999389239789896],
    [999911394690186, 999935184954457, 999910225023882, 999751444384452, 999573550016330, 999835569504230],
    [999915740303757, 999886885606420, 947369433553171, 999905015565585, 999773283216776, 999807886346771],
    [972347947492247, 934336745551181, 973688344818477, 999926003977452, 999900680810457, 999665196282814],
    [908760849106752, 934983963630235, 999480774733750, 999713953626639, 999230870967443, 995378202120478],
    [951004550116135, 994674719769856, 999941998845874, 998789935943491, 999917048335107, 998885474175385],
    [999977426010364, 999953601829309, 969731923038145, 999958334143000, 999849852199318, 999855587362279],
    [995578051763076, 848219286038717, 999934633214172, 999745727463896, 999509720168614, 994977499522366],
    [927643402901094, 999275263954279, 999973997783679, 999920783244525, 999724134576184, 998416448289325],
    [865823542233124, 999979025107695, 999720439186375, 998457916849131, 998159410929698, 999763956776766]] @ replicate 5 no_best_hyp"

definition best_hyp_13 :: "nat list list" where
  "best_hyp_13 =
   [[944888481495913, 999495787566523, 999803029691490, 999291777318943, 950020375722517, 988891641941712],
    [999759637668710, 998700086450386, 998548467880571, 999205394321604, 970036413257736, 990113397448570],
    [999951136530969, 962146148205073, 999819062980181, 999219213475386, 945700443762299, 991648066114144],
    [999963191976562, 999978301764668, 999810945856148, 991558939642803, 997758867066474, 986681645879782],
    [999818304544863, 999920718261273, 999370197155656, 994191582583059, 998411773863768, 986683196829484],
    [999786254118461, 999444869224228, 996137458986228, 999373545789059, 971364486469867, 976307325115025],
    [998281928552673, 999947731590753, 957830089646704, 997028847143220, 986328888917346, 993096262654648],
    [986263129922459, 987267926473285, 998553113394840, 997550762872402, 992896154059295, 993156766863208],
    [999837952938782, 999565585857190, 993083126723309, 996849023496994, 998252533454138, 985232252457824],
    [999981682852072, 998118852374587, 993827383263134, 999188102145963, 999301545811323, 988746713126202]] @ replicate 5 no_best_hyp"

definition best_hyp_14 :: "nat list list" where
  "best_hyp_14 =
   [[912474502758044, 832552981303613, 935814561082043, 856132946104561, 838350394077427, 858947036385989],
    [997754601564265, 996014288588860, 842217695273373, 880401726227052, 909312507872731, 872697649399011],
    [966433483456690, 983421791352917, 792220674897986, 931296898791649, 918558442682632, 866794368082230],
    [982900075173571, 999128374327137, 854119062144995, 871684724976058, 902486214917498, 905428785220358],
    [987028385153950, 986703979079455, 966176301186096, 940533252230839, 885673184125202, 880595320603629],
    [989626579264181, 967890488352312, 951167651281388, 969713179805528, 877598942889784, 884063329838707],
    [888026642624433, 994848097170878, 993474418345262, 918352873191297, 846020394087209, 886227765574340],
    [785490555803731, 812199702852755, 963234245077621, 837741778995617, 864659883079803, 888056073328803],
    [999595374320139, 836230878758369, 828145060746739, 903161047421889, 900002248950141, 862656054750155],
    [980393179492728, 871033820732873, 987722998698588, 804358216871116, 948265232823403, 879075253366757]] @ replicate 5 no_best_hyp"

definition best_hyp_15 :: "nat list list" where
  "best_hyp_15 =
   [[978329958464595, 928763486090370, 948217515777184, 965014252434939, 988172010920960, 979685330107244],
    [941436984787556, 954422322416083, 979714682662946, 992135269377142, 957738383640000, 979390495405073],
    [998672057695252, 994036428905887, 980685118388359, 991363095374915, 982822742987328, 980720242095878],
    [825079630387599, 975014914860254, 944764896851763, 994605465945425, 973604110003641, 993852848505890],
    [988337565201807, 932553406858140, 867422911031452, 985327846602946, 988082796248327, 992448395031419],
    [969099569124418, 955415507003273, 975696462708374, 985311334071489, 985018339453307, 977396751957974],
    [982639481792181, 904575831150473, 993550969605167, 956852344383798, 977291264392811, 982446927782356],
    [925538670864120, 886713197832339, 977590338126398, 987530968987965, 972980219387174, 987718098552715],
    [985677211419677, 988758882716527, 932574336998797, 974249913721194, 951580788703233, 981177296001791],
    [932483359039571, 760369148662153, 962419327722367, 968517586729314, 983982954449852, 989503840372814]] @ replicate 5 no_best_hyp"

definition best_hyp_16 :: "nat list list" where
  "best_hyp_16 =
   [[981136805943563, 999116528856403, 991930799152053, 985572038817464, 975714609419363, 956990166830896],
    [965606293624667, 934172295812466, 954688360663971, 962101153358912, 979237967235992, 958279379670396],
    [959401186688791, 943745810462135, 990038348199901, 968591811327548, 989124335582215, 970723944014379],
    [995345570126699, 997825564404976, 984839714537455, 985360159508032, 980330681207284, 966902504082311],
    [999043230290520, 953343574406745, 995257304189170, 974600005218726, 978627892686058, 981349905490900],
    [139769187387063, 932548729932145, 966456880272056, 978734131874224, 984064160757473, 936638336407728],
    [997713548522536, 955359679744685, 994067502225735, 954136637460491, 972292039636678, 946972200685131],
    [968081586517578, 985370098786813, 982997262020142, 983981918026254, 992281167041330, 906801714715668],
    [971216964728232, 973148118267147, 975600577622356, 993920099434157, 980655093439768, 964135748091886],
    [928290354838167, 992105778427930, 955140928713979, 993839635641078, 985730027740502, 949573101002550]] @ replicate 5 no_best_hyp"

definition best_hyp_17 :: "nat list list" where
  "best_hyp_17 =
   [[979958736285246, 899963827746614, 980383162441116, 991667904464048, 976040274918623, 977329603108451],
    [942990267586704, 931457132513428, 971736847883754, 982592256494084, 977069573194543, 977917762018740],
    [941726980158077, 956417557572814, 967908237120145, 990870743467526, 988448519986969, 956758020414636],
    [766767768354889, 861040742950137, 995694983895964, 993525252835279, 994425581013768, 987502438468208],
    [940686879206378, 855795658694083, 989699773758120, 988141216910086, 998383309638694, 970878934399012],
    [987721346183989, 933842682645463, 995114738748214, 988337346516209, 986706062517203, 929788434606291],
    [996488999370768, 955505256269616, 997336955837073, 994446054246338, 998927058918791, 960619879218413],
    [889890847545346, 847970499485007, 935311368226691, 992365339808906, 982187603171574, 946639360992838],
    [939038516134587, 986156728736634, 953446290144602, 991419467988624, 994472378706110, 919518078858342],
    [998456596594862, 954549550539068, 982859786689298, 994326972525940, 989077431151756, 946069625906736]] @ replicate 5 no_best_hyp"

definition best_hyp_18 :: "nat list list" where
  "best_hyp_18 =
   [[969204955463581, 998688677345057, 998492990918753, 992631755064189, 947928180148035, 946549388502231],
    [953409672783533, 993777613644610, 991743086947726, 962770435464250, 950150835780217, 985237661051139],
    [999403474100123, 999304357758777, 946583934581978, 992475805892152, 960674247077403, 977803190233087],
    [990015009660456, 998331133141258, 973769141045947, 950033214296972, 933611850388737, 983210373781807],
    [999935348038347, 975931995071483, 941223676186121, 954466530642470, 975454397797652, 972762716762444],
    [999890664800389, 951984261631391, 972237437217906, 983832662814702, 988509799002198, 943847382150639],
    [999722916185884, 939354361285139, 973505022362569, 956653936959765, 975130531493727, 963260507409640],
    [979522633177982, 983582859809175, 972341214517837, 943622394038077, 985012761018232, 967820102584116],
    [826540269777394, 955266931664022, 990400188081170, 973719812711369, 927184296777493, 940826217021873],
    [981170857987276, 977487404321554, 973161994860676, 930485909829110, 958214791812810, 936687847583049]] @ replicate 5 no_best_hyp"

definition best_hyp_19 :: "nat list list" where
  "best_hyp_19 =
   [[865811770731921, 973017247057512, 992521544728759, 992015676750431, 985727207095561, 968708111444335],
    [920899455182180, 986110943385011, 989654348796015, 998069566869596, 971946796974695, 950410504770783],
    [904545299274402, 957587365401640, 982449904527118, 991760867868237, 993345216975816, 963213924146087],
    [999884821364810, 996381011503881, 992031985964079, 992986860540315, 976801738275965, 972957229459967],
    [997258709261627, 959361859257914, 993758691718374, 992128970471116, 984470434825430, 939395739172570],
    [955211504788045, 991795027816023, 995294664426083, 993453063414076, 988881226912081, 930889367257548],
    [916748358468225, 976697911415346, 998897439560711, 985337158797574, 984294297663750, 977668769343021],
    [954028862879188, 958851958123935, 981617688258936, 991957920230594, 993384581430229, 931400004959781],
    [949454854397529, 968348328188755, 957151920037808, 990791529652153, 981446422252370, 961629256198723],
    [946066683377767, 980578550259608, 999356136024621, 988518494846568, 988884026870925, 896565501410778]] @ replicate 5 no_best_hyp"

definition best_hyp_20 :: "nat list list" where
  "best_hyp_20 =
   [[995718026456638, 813230762836442, 967871002432375, 999902739804120, 999775497498613, 999664116664435],
    [910960748030164, 974017477797567, 814003461767120, 999677569102844, 999654004306429, 999790560996347],
    [985777930049723, 999442800070996, 892413297548470, 972685717809694, 999810203444123, 997306868880074],
    [890180220604319, 925392845818037, 999111564516406, 999930995483195, 999631609770450, 999889174125538],
    [980549386581144, 963675021169463, 946995300479762, 999846864012334, 958608264570341, 999836960921451],
    [869043334279351, 999660960854221, 888668538214566, 921065924714680, 999867187743562, 999694714553354],
    [951115687828409, 864351550293221, 999632572524201, 972934973625756, 982969587225086, 999588862627488],
    [840742965786629, 849646747099705, 994543846130131, 999724942401950, 999806100292651, 999263843535335],
    [998339920553951, 999067290809170, 963580072588558, 999433695629111, 999767702792318, 999829335473340],
    [994832672081393, 945569229589977, 859870669342559, 999803407505220, 999323836369105, 998019183408066]] @ replicate 5 no_best_hyp"

definition best_hyp_21 :: "nat list list" where
  "best_hyp_21 =
   [[999736618189728, 911543728863680, 912545592283940, 993980399482700, 981413338740226, 983728574746616],
    [985471502176322, 980784705794501, 998160647068493, 997301495041459, 993496201263574, 996307110176717],
    [973889905170571, 968954320323192, 929908020902274, 998453798823771, 993066368397647, 995963598347175],
    [999788754145244, 954074968597077, 928306129173680, 904334442460224, 996041198064085, 968559650834793],
    [890725681076297, 999573377249035, 997872881727144, 958085510372521, 982091917659635, 985788879474571],
    [998906461755895, 898698179313327, 999922910143998, 993121495443903, 995678603147139, 990854319668004],
    [862088180810070, 994766867282409, 999835182167843, 997671966993714, 953953966750356, 978273920139613],
    [986058931076662, 999631463214444, 942384927863932, 996932728163747, 988146384617908, 998385840941191],
    [972494611963315, 998500373745383, 998994382749117, 981106741445144, 981978280713147, 989400835138566],
    [940893377121817, 949363879049512, 979604346471867, 977275303898697, 972982656541522, 997081448699098]] @ replicate 5 no_best_hyp"

definition best_hyp_22 :: "nat list list" where
  "best_hyp_22 =
   [[700916438458949, 694484080130242, 986978393520645, 837909044739840, 771234269693943, 795805716891725],
    [999055968888817, 742603415635723, 764278616146223, 728760863755530, 756692138841068, 854998423517715],
    [678523358470699, 951238744037570, 735426416509445, 862594276552713, 863135740546530, 775341469507760],
    [846367984738874, 803806833320501, 834646162414875, 842317802659711, 915887707245297, 805194046957110],
    [856039950461191, 929859265278102, 892887709868479, 819642006415066, 789452742291418, 764365637153030],
    [977995690715274, 724548962936434, 812081047098926, 861080402018885, 761773450745187, 890819565561763],
    [910044699639924, 691497046586329, 722689208326945, 786295128946995, 763717376257625, 771665444522524],
    [906996575764602, 835949129023862, 772262918155847, 940087182487452, 769339400709221, 784553862839583],
    [968992795251485, 916981949396889, 950507879748341, 899124450109738, 812683075569951, 825849882521296],
    [928391619677447, 652494766185522, 761558277329775, 743060120366039, 700275027790970, 822934283135951]] @ replicate 5 no_best_hyp"

definition best_hyp_23 :: "nat list list" where
  "best_hyp_23 =
   [[992534054268812, 872237030138405, 980182962061889, 991308488908461, 941127578039942, 969136640388886],
    [996445292624505, 862095706452471, 919722216097581, 957106291743395, 916213075021448, 976239423933783],
    [928112249455155, 880344320238549, 894403398636602, 985390261740675, 969070196929476, 978589794415086],
    [965419264936455, 925757047133570, 887977988719971, 980016070326204, 983100676088016, 970816589257367],
    [738909732737773, 840966518574642, 891343027607885, 954458858293685, 958522644454065, 952036620183425],
    [897625000364078, 850455709554025, 902953778767981, 953871508298359, 961806271708952, 973529155239116],
    [911732420138085, 945122055110574, 984532827314458, 892809064107139, 885739321899932, 957880351545702],
    [980413763708752, 940189636105499, 912738863710758, 957188314008682, 968134176347444, 974280055391648],
    [965467065790784, 949242147095511, 975255259508653, 957152835866277, 930236450073095, 972137109059265],
    [965992184639191, 935204676725171, 842935224036951, 926191647516182, 896701726989031, 969163906891611]] @ replicate 5 no_best_hyp"

definition best_hyp_24 :: "nat list list" where
  "best_hyp_24 =
   [[886263607678189, 987114738235866, 869900434826347, 954785088308314, 943800367180536, 949986153251480],
    [988139648340057, 906308249603081, 948010371784443, 897865958220916, 987059232687201, 968007269361948],
    [952811649213530, 855068095684849, 935534198962083, 911447630079168, 982501571019476, 932892937400739],
    [953732580833603, 931783237315413, 881151127927997, 968856602598105, 950459841911081, 944023946290275],
    [823877137496916, 892824055307102, 958081666884363, 939871414605463, 927432042163679, 949016725327886],
    [961551593219125, 993394862477095, 874370681463446, 955515530362279, 969428910758238, 966430959788954],
    [881087719966057, 927025246802620, 953592183500972, 930995458287158, 937478402473053, 925844990010482],
    [746749823443233, 975106631219541, 910590009382779, 976367018095116, 910905968470937, 903930930125308],
    [941309282349682, 997025018274453, 972035209899614, 910417850467829, 942610674256181, 900887613079224],
    [929447945801003, 995092437929069, 877392585145231, 948433552062243, 958192162368286, 929477278156345]] @ replicate 5 no_best_hyp"

definition best_hyp_25 :: "nat list list" where
  "best_hyp_25 =
   [[890543038798975, 996743415999830, 993207593187196, 986814215720081, 980467784715618, 965373602633378],
    [944370927074528, 961712928294577, 983975393346627, 972675484610256, 937188891611961, 980258323163874],
    [978560043300318, 957789042519712, 970084792278332, 988227800329668, 986540713045901, 966498227782967],
    [827380671367650, 985284603938040, 992678058338896, 972909138535233, 992295634647113, 955202373496471],
    [903625214843076, 987244839347358, 938620430685910, 957995840802201, 961012519647219, 936720256813014],
    [953597929830999, 973854013837476, 795906462798231, 962497101024527, 996988957184134, 889472473043087],
    [723624129010671, 964012619854987, 909500148998780, 993126174158272, 996350558340747, 958555839241515],
    [877837312082041, 873300181393398, 991399141885842, 965310117151957, 996417564685983, 954034666543565],
    [865140328123062, 995947820347842, 964898722604236, 972570074149609, 946782160081355, 917252796575144],
    [885990743877604, 983929386161724, 942512487443841, 998291464917026, 971696871369013, 951976806873060]] @ replicate 5 no_best_hyp"

definition best_hyp_26 :: "nat list list" where
  "best_hyp_26 =
   [[978921982681011, 999860007752057, 949035194489816, 999623861039334, 999902274088330, 999593261593257],
    [994494713596938, 988829353431115, 979222106784557, 999635351294537, 996348467425628, 997476701245914],
    [999888275992974, 996486879482429, 984010781647230, 997283808894049, 999942747534485, 999675454511395],
    [929919263339422, 996886251406220, 965393641764490, 999902015865428, 999910685806054, 992570055689473],
    [732359031442187, 919257197619109, 999565024330862, 998146858129032, 994309396955916, 995553407285418],
    [998259269935287, 999730545891778, 999950884709179, 999961381926083, 996029693542029, 999915832962006],
    [958138168639729, 982256290624622, 999648489126283, 997384707121421, 970139253020355, 988318689116821],
    [893980110702659, 904151590886388, 993795024317420, 995847245270051, 999614815433601, 999580757097517],
    [928186501872019, 948229931197733, 999708624389292, 976182017061119, 991850094961123, 999529662180170],
    [975780733014457, 792423375244880, 994495887173813, 999418944318252, 986079733726734, 999900773346504]] @ replicate 5 no_best_hyp"

definition best_hyp_27 :: "nat list list" where
  "best_hyp_27 =
   [[903502360859576, 987126659857804, 992204039648331, 981633765867045, 977456099993406, 933361039015257],
    [951959020655848, 953826363356710, 932663039854700, 903607612085008, 966846358922970, 895128052744702],
    [957759418302702, 964059704651274, 978491185290137, 991362976843701, 966360698252087, 922382792737987],
    [960857862516853, 952867716096942, 981450553799186, 987221945469656, 978986516494064, 877932504329183],
    [930274907344689, 960952865988819, 975426290474826, 981754257654295, 926159038181840, 842053796842232],
    [962264097364663, 993501202677761, 964516742175064, 952513248144868, 951520512743833, 885894360808665],
    [950865324455741, 946807607449187, 997102178147074, 966057902059931, 933505493507962, 811723833872017],
    [989196266545765, 944526899527912, 982111603130709, 995676001826639, 940450662237770, 760563946752818],
    [931460125810749, 986123409450877, 999683816880195, 925587074782249, 983192589804257, 854360098666703],
    [976309654875098, 995372072303659, 937317068589800, 959888207198668, 980521651346730, 787348659613970]] @ replicate 5 no_best_hyp"

definition best_hyp_28 :: "nat list list" where
  "best_hyp_28 =
   [[977401999066625, 998639738664743, 995557746846828, 994072439832833, 992463218537431, 992414213096006],
    [998930207760655, 993519710437286, 991806547665404, 992230831814733, 990009499042260, 990106398998538],
    [999666285076891, 977207039636466, 993682678054200, 994082775916324, 993735723579743, 993556096096843],
    [984721520157451, 992074459843054, 997393288512045, 992803283337928, 994521653588152, 992190072632095],
    [999901258252883, 990127198930246, 987358603286700, 993739971345883, 995300696754144, 992485959020777],
    [999626447634610, 958212010427058, 997899397583847, 993885165299602, 992419988958514, 991015746943900],
    [997315263406170, 991252216118587, 991916981494586, 995119902702797, 991092804449868, 991380726848034],
    [985044198727011, 970025788092634, 991797875341854, 994125424477083, 990425211605881, 991812429475186],
    [992233419283827, 978709253453134, 995106604135360, 995406461110909, 992532195946441, 992693013689914],
    [999840936604087, 994850417699833, 989213621719788, 996382743554660, 993636432001135, 989841821448926]] @ replicate 5 no_best_hyp"

definition best_hyp_29 :: "nat list list" where
  "best_hyp_29 =
   [[972457455413490, 866370346657890, 870445739074006, 894388363117107, 808762122504279, 840453851920017],
    [999165568899664, 939195283003279, 882828302937317, 804966339230319, 859893815195278, 835724630030829],
    [993280459075654, 980543061350425, 830303971380969, 851093726256976, 830680809881492, 837222139669099],
    [966909956807889, 973842229090499, 899730185027102, 894932413687638, 865286297173798, 836656239480014],
    [988529417699778, 949159799844754, 927476309493910, 900624474319130, 835998458242497, 846002036747550],
    [967561275916612, 967381034072613, 931360954695002, 847570141723538, 842328347108882, 824828363278599],
    [981144976196740, 957221055688806, 902497486504058, 947016245190751, 821568365741335, 861935573164123],
    [984747228463624, 924610488247452, 804302384537842, 919025320584330, 842093400939269, 852737325066746],
    [992967815171660, 997316964918812, 872403467217192, 868612481971066, 832062370273532, 824499220933538],
    [998399141958328, 957728840680481, 987548487098636, 855764301444605, 862220662567331, 815090921214875]] @ replicate 5 no_best_hyp"

definition best_hyp_30 :: "nat list list" where
  "best_hyp_30 =
   [[976212496500615, 795600491238115, 940212728170741, 926791108055421, 962016418104353, 971355928747424],
    [996222809065562, 931861838448886, 982392914075324, 979277027146897, 948080162530366, 968917233282535],
    [941596330281521, 913955563877558, 914687792830228, 986335271790599, 968017340368554, 963762378676632],
    [983030095609877, 977328392211862, 979633656408353, 980904314822086, 981008986766704, 989250894160866],
    [995608485934112, 938514746776463, 933174697747160, 978395618518700, 986572139258712, 943187951117802],
    [869044705496845, 941160771663024, 956684475241962, 943060007508355, 983039746676330, 981497478183836],
    [850960681023553, 992467861821325, 978309575157745, 961499382394324, 977389065119878, 984027487033295],
    [994801823711915, 971842687259984, 983779330291038, 979515650534861, 962484456332405, 989696154928725],
    [940370678583058, 992737527012105, 985290453392201, 951809039137262, 958857385033886, 980920533375933],
    [833084721027244, 971038926173698, 988040718239608, 964535015378092, 969259910717665, 956033907644104]] @ replicate 5 no_best_hyp"

definition best_hyp_31 :: "nat list list" where
  "best_hyp_31 =
   [[955984203318467, 988038763109000, 973310702562224, 961863891126134, 965891744541523, 964799971076738],
    [963697290724264, 923775493019718, 977110292317126, 943832912280240, 968205987196875, 930030695053169],
    [981722066734756, 984776066232686, 976057593637481, 955101239990016, 971423707814403, 952189734459685],
    [952958780406800, 994016773366593, 977998109456579, 972504038682838, 975249631453836, 953391474750933],
    [989988727984181, 975602682258664, 985516667669071, 974740149273617, 962503915381192, 954674973148641],
    [993357857224112, 997778716569991, 972233776312855, 965556182517270, 967195654811397, 980987684830602],
    [974743597398361, 980529945532394, 969699321870536, 967682773907980, 965103317096624, 940523398304900],
    [979779884141499, 941945659669748, 966924518837618, 959246003469760, 968526371519269, 932858285108423],
    [975510769784063, 946197097176584, 957823291215911, 986319214118380, 961832047996528, 938909433905805],
    [933842856787938, 961940385993735, 950563580668377, 974970269649730, 972029378489098, 932931521286107]] @ replicate 5 no_best_hyp"

definition best_hyp_32 :: "nat list list" where
  "best_hyp_32 =
   [[920330807593056, 915347636063932, 972868759339442, 949751776226948, 982261266068264, 961314360293532],
    [675234526590275, 922157604765695, 938926461979921, 964591928399060, 963820281610019, 957708349242610],
    [921767853591544, 968199302056700, 983208237869525, 963910336376183, 981327925011236, 965118174109783],
    [944003999651929, 906091440313324, 988063008394600, 988153900557819, 990484909433935, 962618969844935],
    [844964589477472, 983689208376728, 982677657147418, 993430675481161, 990033697332113, 951484636110526],
    [936204097698518, 956619283725773, 950112390592106, 946943467616295, 989994441779766, 919737293782797],
    [957436979340003, 944961624486113, 978229682653724, 979327906952184, 979526216532551, 910205393765360],
    [969123822394381, 995708954595939, 987304424437171, 972058059457178, 967219697949135, 949088678292387],
    [721600217882241, 987357454724409, 970303366825941, 967120897293300, 946781561034528, 944323858726891],
    [650841308813176, 976666059973336, 965946078228456, 988498634332224, 986184571295129, 919965785330364]] @ replicate 5 no_best_hyp"

definition best_hyp_33 :: "nat list list" where
  "best_hyp_33 =
   [[997888861007257, 997624607259834, 998342123785751, 995514921361480, 990229526419369, 996701111011607],
    [997492969261123, 998822661203961, 989647953655975, 995932074985828, 995150898775676, 994052083498776],
    [999823325771698, 935833479827530, 999018432915998, 998456700267246, 998381767176213, 994147433157067],
    [959892993583654, 989064355606771, 999673943582960, 996077761850721, 996916761370186, 994789090637766],
    [966110435471982, 998861256315896, 999857137978720, 999704303631583, 994312060281260, 994376965244970],
    [988009732046640, 998480224248358, 994232785423387, 997422760448887, 995665197211799, 991042766384042],
    [908430553337673, 893739385154451, 975829278284660, 999470787751560, 986509510317036, 994583833048433],
    [999902182898304, 995374809986469, 999239753141073, 997624890172242, 998073374826546, 995614476200213],
    [797570804275967, 817567756795762, 881506581668767, 997480885377791, 995999979147304, 991403299118439],
    [999798379887308, 999774876932958, 998698332765040, 999978774834782, 994436919909665, 990882022342690]] @ replicate 5 no_best_hyp"

definition best_hyp_34 :: "nat list list" where
  "best_hyp_34 =
   [[929758929322608, 914925194601784, 981337253946081, 966135341522572, 950027819314510, 936086573703597],
    [996825933655160, 914730991843946, 991099954828458, 959859389596542, 945916596486679, 927594653284621],
    [990964408471433, 962894086641955, 968963676660207, 983124332815711, 940566682476787, 906946793901871],
    [967251442667350, 985996809599654, 990433973580184, 985663113470084, 948754075971924, 946951667926375],
    [956107428609130, 990692180330387, 991916562797896, 986752097164820, 946958487980024, 918444229830166],
    [992429886449376, 932399280827160, 977893847715360, 958563676459415, 894811155382025, 931703102080399],
    [997954492490622, 968805690123032, 968367998531163, 987731138382579, 969075746932237, 917332073668378],
    [986443420424866, 987754907741372, 974500340117013, 978729873615868, 953820740741337, 924674794407715],
    [979374484880669, 985062906638243, 971686099090047, 974275115903830, 954195747728012, 901234461994402],
    [986288225521123, 995621185099773, 979832910022795, 967225902546355, 977569814442117, 952895733599954]] @ replicate 5 no_best_hyp"

definition best_hyp_35 :: "nat list list" where
  "best_hyp_35 =
   [[928165023377733, 534055619821766, 635785264847719, 580893332905660, 555009913932858, 559291679999780],
    [502442148070469, 788715455127397, 581829083029604, 592322531696048, 562948570954766, 592245557480910],
    [875499317155131, 573982254861297, 768271998392316, 606855088657482, 608162028996865, 570890760357843],
    [818254253194650, 945470032951302, 735474192489836, 582620387060225, 561822431849767, 578381821406569],
    [572776224251585, 773381678533065, 761556411704463, 597858723534282, 540863511855373, 564959774511071],
    [980545810362832, 835515917249604, 562675894859738, 587998910768782, 610158534435878, 557990262720255],
    [990109059705509, 582852699773140, 622869533970826, 558675575323569, 581910823709002, 575992078136005],
    [585094381837897, 650187942772000, 527195232798797, 589619688257382, 560957241658461, 571976375123490],
    [812412156635612, 853294574665627, 536664471012996, 540732629900937, 596217349423397, 558307017123422],
    [997531862926884, 587724972246620, 714494414954690, 588778532125469, 602194058692651, 579319565668644]] @ replicate 5 no_best_hyp"

definition best_hyp_36 :: "nat list list" where
  "best_hyp_36 =
   [[945914909650879, 700109856462607, 885952164445788, 781262866659404, 804662561948655, 843727110022577],
    [982339540243401, 737153235635198, 930168983454577, 793783018152196, 853227721845795, 813629554178298],
    [808775848047423, 842944476275771, 627315450736968, 756222564706876, 787428462209797, 828040162624608],
    [913204042095969, 970232389126045, 914724538410507, 850577591819772, 765304766819093, 832480177648528],
    [771462368593207, 852784708249660, 954700600300869, 808824228788957, 865957681426684, 817384571058914],
    [933757511624877, 801490292261758, 831167509137038, 753171814797282, 886786607453693, 847003001535661],
    [937778239862453, 733737285335212, 893219544430853, 726223759918117, 877639804021368, 793394212282513],
    [773830567033427, 582247061486501, 936003331558890, 876721678494681, 824199112721230, 866349154828268],
    [891599150476082, 625247418888436, 820474066076352, 861572066804544, 829598520946785, 831002696373230],
    [934505677966086, 705534355336708, 921117234905876, 835625761352605, 809940774549477, 791407454276026]] @ replicate 5 no_best_hyp"

definition best_hyp_37 :: "nat list list" where
  "best_hyp_37 =
   [[887327150785189, 807659103583171, 835169073581692, 783383806133355, 842538681321092, 789266834004849],
    [737269531615254, 835012042630217, 929695833351144, 807367846432204, 795982543055911, 799926339032289],
    [802436789939889, 779817789428857, 841136949398313, 836194268914144, 810391886715767, 795436593770643],
    [827630242603522, 927472402212497, 767439994597515, 783346258032096, 834870828901681, 773457976069492],
    [833851305921953, 841497210688420, 837678216567634, 756617132180980, 761274844547117, 808772206948863],
    [966420015253537, 920849455423808, 873507320873903, 804471040357580, 789492844708795, 827597990486504],
    [865979675631339, 888456306531734, 854814203846037, 772690622496085, 758857267001082, 777389827183152],
    [954408950578442, 780283570455847, 877427033200894, 824052669824190, 854319728694541, 741015280728301],
    [651230495436546, 972084171390988, 877591783597792, 933689627469846, 825557689086336, 812287034624196],
    [846357897009702, 783860232975673, 780136988735689, 828012221896017, 843542995824816, 778211407123295]] @ replicate 5 no_best_hyp"

definition best_hyp_38 :: "nat list list" where
  "best_hyp_38 =
   [[877156843506436, 866660750237696, 915603692393344, 843099701921333, 863967450160593, 824400441198263],
    [906613260227146, 793052724368069, 873182776085757, 886942198063175, 839510401884203, 846825019783951],
    [700820333532969, 753316709210581, 891034871722847, 876129020211822, 838138772336944, 884522048799347],
    [629304231237416, 886856579988315, 807520695902719, 888020207269440, 900010122202705, 861091112317590],
    [802625605762915, 930559083395830, 906957714667672, 873582089195529, 879901788772980, 853941170248609],
    [853438943384095, 904605729077286, 809818054476904, 832582085732755, 900769552940082, 868311434245990],
    [737929740773552, 950678057069629, 873532192074075, 910023034171693, 875502508826690, 851028475183864],
    [935955754649867, 843236331688389, 904238494052232, 881791805051563, 860665425596752, 787794169083193],
    [629808149332137, 945175953384347, 849833350256497, 776135238303976, 852273565562963, 848647145774241],
    [861762938112428, 908446440795465, 950441319887604, 935265987677227, 898876233462130, 883444006163019]] @ replicate 5 no_best_hyp"

definition best_hyp_39 :: "nat list list" where
  "best_hyp_39 =
   [[904226041231484, 853573746699372, 891207393990008, 980211550827831, 867119325562294, 840147372120187],
    [983637777721370, 963324588533684, 979070560169339, 937097427270213, 927055417557828, 872981528838690],
    [979201351160540, 842277108051492, 903051958458865, 857805673867875, 868170329189111, 881480213422992],
    [978307712731035, 956663318916884, 968094919360432, 906017852170130, 876867427446496, 887145156397282],
    [986275618889540, 958680470699555, 921040002155228, 884172759606038, 868533797925938, 866860232364979],
    [996952730131110, 953947539293277, 845030994798176, 891285361180478, 889771417560960, 887168950613248],
    [945548966985767, 990685319479432, 943155366283496, 844355265733683, 871126501732900, 852384048442937],
    [784535495200657, 787172668018590, 992843816462946, 810579392397199, 849764168665382, 852499131000823],
    [995638433562137, 929891599701217, 880536302208195, 992998001826045, 902078102558508, 875004561638512],
    [733472668213708, 811074833803342, 906479471448780, 864345054451404, 870539322571479, 863108028491588]] @ replicate 5 no_best_hyp"

definition best_hyp_40 :: "nat list list" where
  "best_hyp_40 =
   [[800161494536693, 914340224327633, 903892856481269, 728473869257068, 604365459168164, 459307378153473],
    [814422943992905, 684385884079890, 823853518802178, 744541086997719, 645764795297761, 481198540236717],
    [841354252700995, 938507644904524, 809182823776307, 729687061912397, 527197277062025, 594846348813518],
    [545132030408484, 820237436915800, 914046946523336, 707855529463683, 748188983914643, 594662978172518],
    [710070245743081, 761269356172402, 946428096409420, 738294222442384, 619037463430707, 525261934519682],
    [940602213917627, 965600494584402, 874266215663434, 712568335159037, 837228563460123, 581922202344157],
    [911307906444006, 831573964105432, 906195003329187, 785546219384903, 632231071888189, 602091185443697],
    [931109790953942, 960523180912951, 866076738417337, 823347856120497, 681358009427460, 591788902137592],
    [929776153108144, 706659001418762, 846713727987104, 873474383102206, 679130772298345, 561415958634155],
    [978837863487893, 932807541759723, 839724013939153, 835128803151321, 720869751773177, 555111732383338]] @ replicate 5 no_best_hyp"

definition best_hyp_41 :: "nat list list" where
  "best_hyp_41 =
   [[822033307817962, 885738075689406, 975610197116841, 976594721097833, 971528564301038, 965160551572485],
    [914732085156474, 923052605100394, 924070436138730, 931074251640139, 981609407937339, 951243795129035],
    [853587922588129, 914428027190248, 974030934514910, 872008403001157, 941022611913163, 954750241529540],
    [512373847991457, 695238799108705, 889989722498128, 951237336242326, 913071583840937, 980678709328714],
    [821558599298996, 822872733697532, 876473147087528, 966128724260189, 924564290390755, 951503528251981],
    [767877747901371, 896826333117921, 792741819695997, 893687033801400, 963777758984029, 958296705553301],
    [935919502696871, 915129505092837, 922633056935486, 850434631393912, 901424361629473, 978178007181946],
    [948612145014462, 818796188016961, 967973190423149, 823557579779486, 958607082914751, 945546529248454],
    [784344360812359, 946504928270416, 824379078684278, 938668422809685, 980249890151125, 949698682084359],
    [636649862585077, 839207215249613, 911512650028684, 875925359818394, 976035237647000, 953358560472507]] @ replicate 5 no_best_hyp"

definition best_hyp_42 :: "nat list list" where
  "best_hyp_42 =
   [[948464970307738, 964394084499346, 935365033796674, 943128312717771, 963643732031699, 965657560445270],
    [938890033676112, 896774246071198, 918221443136859, 933845341832528, 934284063910811, 930178208511253],
    [813087641534480, 936776356752616, 860970332418219, 912972610994230, 940879346362087, 938604902807888],
    [882606100873865, 956287162433495, 929527509865346, 870792113484450, 953784523505501, 917639525057008],
    [980207584330832, 933372828275547, 970898927457852, 914627662372202, 957373316635058, 953427715660606],
    [948846761282047, 887124002044022, 935908567200754, 944780454333613, 949590672140516, 923157629370350],
    [973656420019213, 912513948568898, 955518741476096, 896366744021679, 966419103159295, 938747933877435],
    [917270613774874, 966076886108044, 947996999410747, 954771017540515, 956942184799609, 905355950827379],
    [966954242919577, 965253588182618, 917762969301912, 927523147148266, 963016275684763, 903749434997353],
    [968069449243095, 958413404226314, 931477412814219, 946346732258908, 967523989495793, 870374219537932]] @ replicate 5 no_best_hyp"

definition best_hyp_43 :: "nat list list" where
  "best_hyp_43 =
   [[806235943768491, 961033203638514, 898217378671209, 993264379743037, 940948652738029, 983857298283952],
    [928981208319704, 900499905679907, 953668359506045, 943994958453547, 958781146064377, 975597556762495],
    [703325658552559, 738244890811554, 988642280121935, 982688206261094, 973220372898028, 944180440428360],
    [955511395205191, 898306002923848, 945720250592969, 963172283120474, 966626097868362, 966946756102161],
    [527808863109296, 967872270114991, 902672633183536, 969216100402235, 979575039404802, 966070621705196],
    [913935322722399, 914558564989063, 973356892013738, 932387469095507, 961581182505789, 918320667845127],
    [901301713558448, 882128040824323, 963346626771001, 985079491142971, 968594673624419, 950843373521710],
    [701553018378812, 969205249181385, 952748332982779, 987278435011227, 976546324177090, 957306668204760],
    [862739669961301, 862473364865682, 990618031218341, 979466959858262, 972941110626848, 855701729006963],
    [848752159713627, 820261488990871, 940942353330467, 959250198964312, 982486894377839, 966505095865004]] @ replicate 5 no_best_hyp"

definition best_hyp_44 :: "nat list list" where
  "best_hyp_44 =
   [[990000595892640, 989550585423686, 993557596127607, 977883915649076, 989486565699468, 992108571259436],
    [996682463157142, 744916519935829, 951282424534247, 975039053298177, 984828537903076, 981720374250759],
    [982516671080787, 988830152101750, 958340799855323, 978364069931773, 977809886620423, 982023087875918],
    [975372409782800, 927814333720962, 965365808549549, 987132635647892, 984400141874121, 980545459880095],
    [992233483129565, 972161392354809, 966253887504727, 972827697321209, 974162510436130, 981283407181326],
    [955968657960968, 938348236403148, 926885126651733, 970964654710173, 981304079255180, 989117615203209],
    [982852507134425, 968227402387315, 996067968789636, 961750345752744, 936897342317752, 987908927174219],
    [881906919128662, 950801778125565, 982836821697150, 976118709915315, 985350032800047, 981973075253610],
    [974727927786401, 993236716308686, 952963758145309, 966612414910251, 996512281009713, 991905893016871],
    [742777154829549, 788223027934632, 997556014152405, 974890816409705, 961984655728772, 984830506106585]] @ replicate 5 no_best_hyp"

definition best_hyp_45 :: "nat list list" where
  "best_hyp_45 =
   [[951720778563444, 828188774139641, 917829241994999, 962469633903938, 916304775084538, 785675041892531],
    [797328068544284, 976528938897792, 892698290420688, 937581779101428, 852142004666287, 842088275967232],
    [729950961654969, 953106329190224, 953232088542056, 939036646431562, 945642771814716, 870390002108839],
    [962996637246124, 954354478584170, 946648046778442, 932574403452305, 929155103399460, 920627283625365],
    [924715343675183, 942411861147468, 909309881321831, 875483160778896, 913250748248638, 885145586412210],
    [904151517470615, 926797766252780, 908617558889420, 974109498807929, 850302309800901, 845186435780144],
    [436539479783815, 967414649977868, 948236042645629, 960582199925476, 868675710134838, 882136275227096],
    [780758545153498, 986355057252456, 971723931694909, 895507628923304, 920745397390923, 935690944028907],
    [717458466488061, 983845938391830, 661805959381686, 944316649954434, 879514185323017, 874909222653475],
    [963315916430492, 911574142441829, 888738706562716, 921140534269231, 919843625609510, 862108899490471]] @ replicate 5 no_best_hyp"

definition best_hyp_46 :: "nat list list" where
  "best_hyp_46 =
   [[761066104646006, 903455657283090, 947155255052143, 919954436328063, 945598418627500, 854396387596525],
    [848797542826665, 962407933268246, 903214891429348, 909587131133991, 966860028053004, 870595248224547],
    [924046984238807, 899715614728189, 893336832760998, 895450896546758, 927204345279249, 891228213110070],
    [934267008284511, 892788551956789, 909706115828279, 908484577426152, 942407577748297, 945168681141010],
    [925925620986090, 846193701948347, 942645632857587, 901215565547812, 908885610056779, 922071009546490],
    [860734962124473, 909512574555902, 912395540418240, 945879219145466, 934417784485787, 896824860378772],
    [839634628439667, 924631055190915, 905744579684656, 936001504422621, 931713066453506, 844508631054395],
    [936215978446970, 935361352163704, 930770425017802, 940363563270556, 901716131910073, 876036789920220],
    [883558016602446, 961217059863281, 920512705062287, 915637929973320, 919588637937134, 832647572651101],
    [881302389490815, 912389800404993, 950846397090625, 940838283358756, 957739921106021, 866216426397061]] @ replicate 5 no_best_hyp"

definition best_hyp_47 :: "nat list list" where
  "best_hyp_47 =
   [[712272111791356, 868966645319236, 942803986114097, 958595956960254, 956311217436412, 897754675221834],
    [939177930209109, 954707497948604, 930188556236347, 907412646523823, 957628844998111, 897070275922110],
    [739793311026710, 961193348929021, 976761772334493, 947746576774328, 948952272573593, 910206700506767],
    [779551399583096, 940080659208807, 923138847386112, 954607220664130, 950790324701075, 959029969929543],
    [944459738086973, 910114477537581, 870342540144716, 976767183928314, 925275080789924, 960071913752091],
    [844227429918601, 970327206332497, 923220981670475, 958667740503491, 963271559272385, 889244323840422],
    [868593925185596, 831195707749476, 973478443591967, 981014053828823, 990613064893604, 892267489922570],
    [958237497140224, 914357101153653, 925329224941109, 955671208532904, 960990198339395, 899984046495390],
    [889918311037458, 962481922443155, 951487158898893, 938769098398943, 942997363149960, 855410552220298],
    [645459744382548, 900594867338457, 913296663358001, 955661889534839, 957137531350378, 817284464911829]] @ replicate 5 no_best_hyp"

definition best_hyp_48 :: "nat list list" where
  "best_hyp_48 =
   [[848026567036178, 973370144857933, 970800527122283, 975895168240419, 973375090620421, 967214456244375],
    [994793675128085, 870173205353387, 991213945773693, 987508273428610, 974128630034868, 950354813207245],
    [974655409279260, 980825113451769, 992968816240894, 980232053391337, 973440818791231, 963798862128042],
    [991892550874017, 977081432021119, 979439532610778, 971231534195990, 985547755790250, 963752407198306],
    [988654650933056, 980478926766229, 973958153574718, 988012377114494, 964751207182267, 974037853059613],
    [389161282124619, 992882959391076, 970629126722307, 983341943001059, 970668477893046, 939575270632468],
    [986578674413247, 985043874797828, 988805264493350, 982119946475616, 993810678267889, 923761463863783],
    [954772791083423, 954650939645044, 972928647840613, 974914493338424, 987509150847552, 934297273342588],
    [957382149250395, 953072541289578, 976017541500116, 992404633270568, 980543548849746, 925438387242997],
    [993959990229703, 983284115742582, 974352914287965, 994718446676883, 988265396177716, 914954240869837]] @ replicate 5 no_best_hyp"

definition best_hyp_49 :: "nat list list" where
  "best_hyp_49 =
   [[926653583269295, 957627451209422, 956464400283289, 924691143308051, 883001271777902, 808010446209920],
    [961467454994650, 946679568656762, 955517449441158, 850133695702020, 840080814232969, 774650848356241],
    [848123581192731, 942236304247361, 964450544000933, 928249510306635, 870765936863144, 774359285613625],
    [934365886903383, 927010836573489, 968264078437842, 879063574520805, 874796797376654, 904891343924901],
    [928529428713596, 899348277744186, 951111018439651, 876306137236896, 841627007998341, 866802118424087],
    [786973926020565, 938858420224315, 892745715408364, 960146156492849, 921534008454093, 794969577213544],
    [725230278357155, 976798654205709, 959532844172694, 949618692671281, 859873584525347, 764664632091040],
    [959123907095592, 979610246558130, 887922490868379, 951943512943179, 924566368254306, 765412859882910],
    [970413096029000, 934579800752181, 984332151398107, 919846544331273, 817439482831461, 781086100934854],
    [914459126016654, 956448691116473, 983357299901989, 971101207563038, 908009824573513, 853708880678775]] @ replicate 5 no_best_hyp"

definition best_hyp_50 :: "nat list list" where
  "best_hyp_50 =
   [[908153019029111, 969143802394247, 971221008283031, 937806045408397, 970534096699938, 963208776860388],
    [951055982970115, 967318967089656, 954449745524030, 962522683964437, 972725400959617, 961091047677661],
    [921885288089289, 913001104267832, 961402283754169, 935786175448639, 961360669884832, 930380508112140],
    [908169184637656, 826472492158909, 972864780921446, 980278685964988, 988771672486027, 948589732443901],
    [808869771430175, 990888217555794, 994314364726843, 975063208666217, 984258303473839, 974082920338684],
    [917893652037625, 982435397284171, 960919636000301, 932682528025179, 987220010500114, 949611215723517],
    [900109012077019, 920306601245777, 964454455379369, 920054372340101, 969312542880872, 909610744875217],
    [947066859501796, 907539940520492, 934424379801040, 955482538306266, 967561661901138, 920378712617924],
    [864750386477023, 838936880954842, 974769010237717, 959771707855121, 978814760423101, 919391253272068],
    [901004616658922, 792672193879899, 861738251567046, 967553940320211, 979927098989679, 921438436191370]] @ replicate 5 no_best_hyp"

definition best_hyp_51 :: "nat list list" where
  "best_hyp_51 =
   [[940860622956402, 868132937449447, 986104585596155, 980590654398549, 988870039487499, 962072401299433],
    [909955920096103, 990190457639888, 980597486676055, 991120502560612, 993638471205306, 971053668423443],
    [941593321951149, 933223460442475, 972313234080961, 968916597600458, 984620917109957, 976831958247220],
    [986038980461909, 947539307416669, 983531663993893, 997696597033701, 989275960210909, 987757024704872],
    [971128897412135, 983405022796850, 994450760664070, 965345335670043, 985153015165469, 980794637268118],
    [911416519677454, 973249576387185, 983513317510326, 982481654524230, 981270294614853, 976389464264435],
    [993373695494302, 993098771393319, 986024836022638, 990500668757965, 981966525510357, 966246144584898],
    [985466839182422, 761177260258873, 964401210532718, 995237997246082, 985624637157006, 962822382253301],
    [942349371111133, 994401740148738, 981355916126111, 982895323802829, 992431408415566, 904488520450946],
    [969188689957788, 982914020236925, 961917917181196, 976536065224792, 982313386455097, 972730879274001]] @ replicate 5 no_best_hyp"

definition best_hyp_52 :: "nat list list" where
  "best_hyp_52 =
   [[947011565973429, 887655083094057, 961544365098409, 880609852012585, 951850617726202, 959665804760387],
    [786879929743507, 975827723704229, 979002884357261, 908877396177977, 952795318395061, 763031400172234],
    [931104872267525, 944892661248204, 981095090201299, 928681714337413, 898681720929998, 930998941682665],
    [719116774075094, 963898316853337, 990702143798999, 991866341435212, 922398943813953, 850048158211609],
    [781598890865292, 970416804183748, 986024903943445, 882103650889895, 937532910793425, 915203342619471],
    [642310315034435, 891675389086588, 973023404031696, 800202443940251, 868836337974470, 869567853696131],
    [921082784944154, 981614450878430, 944431471766394, 956950187414469, 943960851479189, 872863936698003],
    [993175903549896, 936550893756555, 974796495933045, 913646661161340, 900335395151447, 926013943945283],
    [975729533922839, 946974860900458, 973454345970633, 937299524235731, 987128376438317, 849349703458808],
    [873618189290749, 976858150689502, 968338375271559, 948528475089375, 926756784862981, 857193764938067]] @ replicate 5 no_best_hyp"

definition best_hyp_53 :: "nat list list" where
  "best_hyp_53 =
   [[997875692921781, 999784714181698, 999101073133201, 997770935634617, 993620588032558, 997008253936025],
    [975730767360763, 981829133734374, 998940051716482, 995012930374049, 987972894242487, 997893943682911],
    [975730768524520, 981829137688355, 997632245909664, 999758330110187, 998226457785466, 999617870488956],
    [997875695023842, 999784714340619, 999956640160364, 998086949083842, 998921075119552, 998673414327444],
    [706101956086970, 998471514383848, 998401788287043, 999964506688086, 995342078634822, 992053521228669],
    [975730736637401, 981829088690173, 999948601090440, 999359368456460, 991810210157473, 994170782028727],
    [975730732746261, 981829051670767, 997626866918283, 991073860517323, 994946657102409, 997128393161806],
    [975730731124355, 981829129285381, 986891604919335, 992859639681137, 991326253228450, 993144813419714],
    [997875685000665, 999784714335332, 999955671721642, 999954725874065, 997813381121439, 989629515726637],
    [706101787141003, 998471495513510, 996114532965430, 999940309390393, 998288727005705, 996969229118885]] @ replicate 5 no_best_hyp"

definition best_hyp_54 :: "nat list list" where
  "best_hyp_54 =
   [[943563947345365, 975179483828660, 986735978557260, 971020975989233, 975754562298456, 940619701836704],
    [929274474829962, 971505490328074, 988596502264416, 979018161955299, 978503935730430, 944836572146846],
    [991716135247573, 991021577879334, 990017103886950, 971485743914789, 985298830810207, 956655441082847],
    [984075359489210, 985246735720961, 992621802368755, 987233984371954, 980209807661969, 913196115921382],
    [977343826732106, 956277057377107, 991382525490389, 963574327834559, 984351904270309, 912702276221518],
    [737530413924196, 999165572581585, 989460331214994, 978486755665419, 975547602300677, 972391142773130],
    [905800915025149, 998327608576897, 978766814862955, 967201101453933, 965349683834782, 952199451989289],
    [989659979524769, 980826071667587, 978332540639450, 986066276830726, 988117414569477, 965650240352066],
    [948189832749533, 982166030217899, 994880188200191, 983274688085683, 977318477762187, 961157141306381],
    [974466009143839, 993510177330670, 979811064365768, 980122926489943, 973981891477217, 808176202164876]] @ replicate 5 no_best_hyp"

definition best_hyp_55 :: "nat list list" where
  "best_hyp_55 =
   [[994912013563836, 969816640299804, 966515517568895, 911775730837247, 625511450683819, 718241618381943],
    [936711803357930, 932687634023037, 982279478571098, 933516109255220, 739370942673084, 523868454410108],
    [979743710493495, 960031091125810, 964544646626252, 953346430698596, 669096157082512, 275426248650253],
    [931560158530144, 978791413401360, 987527825777800, 853420086888775, 673468643988903, 395054772003883],
    [890941864072125, 890297839156039, 972349521936232, 932483593169201, 831137046489323, 613317764576754],
    [878456416911427, 907837070000508, 960630894628764, 872164591569205, 788122550862569, 319534927517951],
    [938782814424875, 971714983311250, 986550279789914, 938174903148621, 737311436988115, 491484808717019],
    [901150986249256, 986755213840288, 986851570930107, 863147731496326, 696497298536161, 396202187649523],
    [869253762734078, 938483554432844, 960424634210952, 910655216684625, 782795793522196, 444870008526301],
    [851309741230642, 983937286062800, 960687748293214, 892965931330228, 753936183639365, 320849661893284]] @ replicate 5 no_best_hyp"

definition best_hyp_rest :: "nat list list list" where
  "best_hyp_rest = replicate 37 (replicate 15 no_best_hyp)"

definition best_hyp :: "nat list list list" where
  "best_hyp =
    [best_hyp_1, best_hyp_2, best_hyp_3, best_hyp_4, best_hyp_5, best_hyp_6, best_hyp_7, best_hyp_8,
     best_hyp_9, best_hyp_10, best_hyp_11, best_hyp_12, best_hyp_13, best_hyp_14, best_hyp_15,
     best_hyp_16, best_hyp_17, best_hyp_18, best_hyp_19, best_hyp_20, best_hyp_21, best_hyp_22,
     best_hyp_23, best_hyp_24, best_hyp_25, best_hyp_26, best_hyp_27, best_hyp_28, best_hyp_29,
     best_hyp_30, best_hyp_31, best_hyp_32, best_hyp_33, best_hyp_34, best_hyp_35, best_hyp_36,
     best_hyp_37, best_hyp_38, best_hyp_39, best_hyp_40, best_hyp_41, best_hyp_42, best_hyp_43,
     best_hyp_44, best_hyp_45, best_hyp_46, best_hyp_47, best_hyp_48, best_hyp_49, best_hyp_50,
     best_hyp_51, best_hyp_52, best_hyp_53, best_hyp_54, best_hyp_55] @ best_hyp_rest"

section \<open>What the numbers have in common\<close>

definition known_row :: "nat list \<Rightarrow> bool" where
  "known_row v \<longleftrightarrow> length v = 6 \<and> list_all (\<lambda>h. 0 < h \<and> h < one_digits) v"

definition known_rows :: "nat list list \<Rightarrow> bool" where
  "known_rows vs \<longleftrightarrow> (\<exists>us. vs = us @ replicate 5 no_best_hyp \<and> length us = 10 \<and> list_all known_row us)"

named_theorems hyp_data

lemma known_rowsI: "length us = 10 \<Longrightarrow> list_all known_row us \<Longrightarrow> known_rows (us @ replicate 5 no_best_hyp)"
  by (auto simp: known_rows_def)

lemma known_rows_1 [hyp_data]: "known_rows best_hyp_1"
  unfolding best_hyp_1_def by (rule known_rowsI) (simp_all add: known_row_def one_digits_def)

lemma known_rows_2 [hyp_data]: "known_rows best_hyp_2"
  unfolding best_hyp_2_def by (rule known_rowsI) (simp_all add: known_row_def one_digits_def)

lemma known_rows_3 [hyp_data]: "known_rows best_hyp_3"
  unfolding best_hyp_3_def by (rule known_rowsI) (simp_all add: known_row_def one_digits_def)

lemma known_rows_4 [hyp_data]: "known_rows best_hyp_4"
  unfolding best_hyp_4_def by (rule known_rowsI) (simp_all add: known_row_def one_digits_def)

lemma known_rows_5 [hyp_data]: "known_rows best_hyp_5"
  unfolding best_hyp_5_def by (rule known_rowsI) (simp_all add: known_row_def one_digits_def)

lemma known_rows_6 [hyp_data]: "known_rows best_hyp_6"
  unfolding best_hyp_6_def by (rule known_rowsI) (simp_all add: known_row_def one_digits_def)

lemma known_rows_7 [hyp_data]: "known_rows best_hyp_7"
  unfolding best_hyp_7_def by (rule known_rowsI) (simp_all add: known_row_def one_digits_def)

lemma known_rows_8 [hyp_data]: "known_rows best_hyp_8"
  unfolding best_hyp_8_def by (rule known_rowsI) (simp_all add: known_row_def one_digits_def)

lemma known_rows_9 [hyp_data]: "known_rows best_hyp_9"
  unfolding best_hyp_9_def by (rule known_rowsI) (simp_all add: known_row_def one_digits_def)

lemma known_rows_10 [hyp_data]: "known_rows best_hyp_10"
  unfolding best_hyp_10_def by (rule known_rowsI) (simp_all add: known_row_def one_digits_def)

lemma known_rows_11 [hyp_data]: "known_rows best_hyp_11"
  unfolding best_hyp_11_def by (rule known_rowsI) (simp_all add: known_row_def one_digits_def)

lemma known_rows_12 [hyp_data]: "known_rows best_hyp_12"
  unfolding best_hyp_12_def by (rule known_rowsI) (simp_all add: known_row_def one_digits_def)

lemma known_rows_13 [hyp_data]: "known_rows best_hyp_13"
  unfolding best_hyp_13_def by (rule known_rowsI) (simp_all add: known_row_def one_digits_def)

lemma known_rows_14 [hyp_data]: "known_rows best_hyp_14"
  unfolding best_hyp_14_def by (rule known_rowsI) (simp_all add: known_row_def one_digits_def)

lemma known_rows_15 [hyp_data]: "known_rows best_hyp_15"
  unfolding best_hyp_15_def by (rule known_rowsI) (simp_all add: known_row_def one_digits_def)

lemma known_rows_16 [hyp_data]: "known_rows best_hyp_16"
  unfolding best_hyp_16_def by (rule known_rowsI) (simp_all add: known_row_def one_digits_def)

lemma known_rows_17 [hyp_data]: "known_rows best_hyp_17"
  unfolding best_hyp_17_def by (rule known_rowsI) (simp_all add: known_row_def one_digits_def)

lemma known_rows_18 [hyp_data]: "known_rows best_hyp_18"
  unfolding best_hyp_18_def by (rule known_rowsI) (simp_all add: known_row_def one_digits_def)

lemma known_rows_19 [hyp_data]: "known_rows best_hyp_19"
  unfolding best_hyp_19_def by (rule known_rowsI) (simp_all add: known_row_def one_digits_def)

lemma known_rows_20 [hyp_data]: "known_rows best_hyp_20"
  unfolding best_hyp_20_def by (rule known_rowsI) (simp_all add: known_row_def one_digits_def)

lemma known_rows_21 [hyp_data]: "known_rows best_hyp_21"
  unfolding best_hyp_21_def by (rule known_rowsI) (simp_all add: known_row_def one_digits_def)

lemma known_rows_22 [hyp_data]: "known_rows best_hyp_22"
  unfolding best_hyp_22_def by (rule known_rowsI) (simp_all add: known_row_def one_digits_def)

lemma known_rows_23 [hyp_data]: "known_rows best_hyp_23"
  unfolding best_hyp_23_def by (rule known_rowsI) (simp_all add: known_row_def one_digits_def)

lemma known_rows_24 [hyp_data]: "known_rows best_hyp_24"
  unfolding best_hyp_24_def by (rule known_rowsI) (simp_all add: known_row_def one_digits_def)

lemma known_rows_25 [hyp_data]: "known_rows best_hyp_25"
  unfolding best_hyp_25_def by (rule known_rowsI) (simp_all add: known_row_def one_digits_def)

lemma known_rows_26 [hyp_data]: "known_rows best_hyp_26"
  unfolding best_hyp_26_def by (rule known_rowsI) (simp_all add: known_row_def one_digits_def)

lemma known_rows_27 [hyp_data]: "known_rows best_hyp_27"
  unfolding best_hyp_27_def by (rule known_rowsI) (simp_all add: known_row_def one_digits_def)

lemma known_rows_28 [hyp_data]: "known_rows best_hyp_28"
  unfolding best_hyp_28_def by (rule known_rowsI) (simp_all add: known_row_def one_digits_def)

lemma known_rows_29 [hyp_data]: "known_rows best_hyp_29"
  unfolding best_hyp_29_def by (rule known_rowsI) (simp_all add: known_row_def one_digits_def)

lemma known_rows_30 [hyp_data]: "known_rows best_hyp_30"
  unfolding best_hyp_30_def by (rule known_rowsI) (simp_all add: known_row_def one_digits_def)

lemma known_rows_31 [hyp_data]: "known_rows best_hyp_31"
  unfolding best_hyp_31_def by (rule known_rowsI) (simp_all add: known_row_def one_digits_def)

lemma known_rows_32 [hyp_data]: "known_rows best_hyp_32"
  unfolding best_hyp_32_def by (rule known_rowsI) (simp_all add: known_row_def one_digits_def)

lemma known_rows_33 [hyp_data]: "known_rows best_hyp_33"
  unfolding best_hyp_33_def by (rule known_rowsI) (simp_all add: known_row_def one_digits_def)

lemma known_rows_34 [hyp_data]: "known_rows best_hyp_34"
  unfolding best_hyp_34_def by (rule known_rowsI) (simp_all add: known_row_def one_digits_def)

lemma known_rows_35 [hyp_data]: "known_rows best_hyp_35"
  unfolding best_hyp_35_def by (rule known_rowsI) (simp_all add: known_row_def one_digits_def)

lemma known_rows_36 [hyp_data]: "known_rows best_hyp_36"
  unfolding best_hyp_36_def by (rule known_rowsI) (simp_all add: known_row_def one_digits_def)

lemma known_rows_37 [hyp_data]: "known_rows best_hyp_37"
  unfolding best_hyp_37_def by (rule known_rowsI) (simp_all add: known_row_def one_digits_def)

lemma known_rows_38 [hyp_data]: "known_rows best_hyp_38"
  unfolding best_hyp_38_def by (rule known_rowsI) (simp_all add: known_row_def one_digits_def)

lemma known_rows_39 [hyp_data]: "known_rows best_hyp_39"
  unfolding best_hyp_39_def by (rule known_rowsI) (simp_all add: known_row_def one_digits_def)

lemma known_rows_40 [hyp_data]: "known_rows best_hyp_40"
  unfolding best_hyp_40_def by (rule known_rowsI) (simp_all add: known_row_def one_digits_def)

lemma known_rows_41 [hyp_data]: "known_rows best_hyp_41"
  unfolding best_hyp_41_def by (rule known_rowsI) (simp_all add: known_row_def one_digits_def)

lemma known_rows_42 [hyp_data]: "known_rows best_hyp_42"
  unfolding best_hyp_42_def by (rule known_rowsI) (simp_all add: known_row_def one_digits_def)

lemma known_rows_43 [hyp_data]: "known_rows best_hyp_43"
  unfolding best_hyp_43_def by (rule known_rowsI) (simp_all add: known_row_def one_digits_def)

lemma known_rows_44 [hyp_data]: "known_rows best_hyp_44"
  unfolding best_hyp_44_def by (rule known_rowsI) (simp_all add: known_row_def one_digits_def)

lemma known_rows_45 [hyp_data]: "known_rows best_hyp_45"
  unfolding best_hyp_45_def by (rule known_rowsI) (simp_all add: known_row_def one_digits_def)

lemma known_rows_46 [hyp_data]: "known_rows best_hyp_46"
  unfolding best_hyp_46_def by (rule known_rowsI) (simp_all add: known_row_def one_digits_def)

lemma known_rows_47 [hyp_data]: "known_rows best_hyp_47"
  unfolding best_hyp_47_def by (rule known_rowsI) (simp_all add: known_row_def one_digits_def)

lemma known_rows_48 [hyp_data]: "known_rows best_hyp_48"
  unfolding best_hyp_48_def by (rule known_rowsI) (simp_all add: known_row_def one_digits_def)

lemma known_rows_49 [hyp_data]: "known_rows best_hyp_49"
  unfolding best_hyp_49_def by (rule known_rowsI) (simp_all add: known_row_def one_digits_def)

lemma known_rows_50 [hyp_data]: "known_rows best_hyp_50"
  unfolding best_hyp_50_def by (rule known_rowsI) (simp_all add: known_row_def one_digits_def)

lemma known_rows_51 [hyp_data]: "known_rows best_hyp_51"
  unfolding best_hyp_51_def by (rule known_rowsI) (simp_all add: known_row_def one_digits_def)

lemma known_rows_52 [hyp_data]: "known_rows best_hyp_52"
  unfolding best_hyp_52_def by (rule known_rowsI) (simp_all add: known_row_def one_digits_def)

lemma known_rows_53 [hyp_data]: "known_rows best_hyp_53"
  unfolding best_hyp_53_def by (rule known_rowsI) (simp_all add: known_row_def one_digits_def)

lemma known_rows_54 [hyp_data]: "known_rows best_hyp_54"
  unfolding best_hyp_54_def by (rule known_rowsI) (simp_all add: known_row_def one_digits_def)

lemma known_rows_55 [hyp_data]: "known_rows best_hyp_55"
  unfolding best_hyp_55_def by (rule known_rowsI) (simp_all add: known_row_def one_digits_def)

lemma best_hyp_rows: "\<exists>us. best_hyp = us @ best_hyp_rest \<and> length us = 55 \<and> list_all known_rows us"
  unfolding best_hyp_def by (intro exI conjI) (rule refl, simp, simp add: hyp_data)

end
