(* ===== verification/Coco_Hypervolumes.thy ===== *)
theory Coco_Hypervolumes
  imports Coco_Hypervolume_Values
begin

text \<open>
  The search for the best known hypervolume of a problem (\<open>suite_biobj_utilities.c\<close> and
  \<open>coco_suite.c\<close>). The tables are lists of the keys and the numbers that \<open>sscanf\<close> reads from the strings.
\<close>

section \<open>The tables\<close>

definition biobj_key :: "nat \<Rightarrow> nat \<Rightarrow> nat \<Rightarrow> string" where
  "biobj_key f i d = ''bbob-biobj_f'' @ pad 2 (show_nat f) @ ''_i'' @ pad 2 (show_nat i) @ ''_d'' @ pad 2 (show_nat d)"

definition mixint_key :: "nat \<Rightarrow> nat \<Rightarrow> nat \<Rightarrow> string" where
  "mixint_key f i d = ''bbob-biobj-mixint_f'' @ pad 3 (show_nat f) @ ''_i'' @ pad 2 (show_nat i) @ ''_d'' @ pad 3 (show_nat d)"

definition table_positions :: "(nat \<times> nat \<times> nat) list" where
  "table_positions = [(f, i, k). f \<leftarrow> [1..<93], i \<leftarrow> [1..<16], k \<leftarrow> [0..<6]]"

definition biobj_dimensions :: "nat list" where
  "biobj_dimensions = [2, 3, 5, 10, 20, 40]"

definition biobj_hyp_value :: "nat \<times> nat \<times> nat \<Rightarrow> real" where
  "biobj_hyp_value p = (case p of (f, i, k) \<Rightarrow> real (best_hyp ! (f - 1) ! (i - 1) ! k) / real one_digits)"

definition biobj_position_key :: "nat \<times> nat \<times> nat \<Rightarrow> string" where
  "biobj_position_key p = (case p of (f, i, k) \<Rightarrow> biobj_key f i (biobj_dimensions ! k))"

definition suite_biobj_best_values_hyp :: "(string \<times> real) list" where
  "suite_biobj_best_values_hyp = map (\<lambda>p. (biobj_position_key p, biobj_hyp_value p)) table_positions"

definition suite_biobj_mixint_best_values_hyp :: "(string \<times> real) list" where
  "suite_biobj_mixint_best_values_hyp =
     map (\<lambda>(f, i, k). (mixint_key f i ([5, 10, 20, 40, 80, 160] ! k), 1)) table_positions"

section \<open>The search\<close>

fun find_best_value :: "(string \<times> real) list \<Rightarrow> string \<Rightarrow> real option" where
  "find_best_value [] key = None"
| "find_best_value ((curr_key, v) # rows) key =
     (if curr_key = key then Some v else find_best_value rows key)"

definition suite_biobj_get_best_hyp_value :: "string \<Rightarrow> string \<Rightarrow> real result" where
  "suite_biobj_get_best_hyp_value suite_name key =
     (if suite_name = ''bbob-biobj'' \<or> suite_name = ''bbob-biobj-ext''
      then case find_best_value suite_biobj_best_values_hyp key of Some v \<Rightarrow> Inr v | None \<Rightarrow> Inr 1
      else if suite_name = ''bbob-biobj-mixint''
      then case find_best_value suite_biobj_mixint_best_values_hyp key of Some v \<Rightarrow> Inr v | None \<Rightarrow> Inr 1
      else Inl (Coco_error ''suite_biobj_get_best_hyp_value''))"

definition coco_suite_get_best_indicator_value :: "string \<Rightarrow> string \<Rightarrow> string \<Rightarrow> real result" where
  "coco_suite_get_best_indicator_value suite_name pid indicator_name =
     (if indicator_name = ''hyp'' then suite_biobj_get_best_hyp_value suite_name pid
      else Inl (Coco_error ''coco_suite_get_best_indicator_value''))"

section \<open>The keys\<close>

definition two_digits :: "nat \<Rightarrow> string" where
  "two_digits n = pad 2 (show_nat n)"

lemma biobj_key_digits:
  "biobj_key f i d = ''bbob-biobj_f'' @ two_digits f @ ''_i'' @ two_digits i @ ''_d'' @ two_digits d"
  by (simp add: biobj_key_def two_digits_def)

fun undigits :: "string \<Rightarrow> nat" where
  "undigits [a, b] = 10 * (of_char a - 48) + (of_char b - 48)"
| "undigits _ = 0"

lemma two_digits_all: "list_all (\<lambda>n. length (two_digits n) = 2 \<and> undigits (two_digits n) = n) [0..<100]"
  by code_simp

lemma two_digits: "n < 100 \<Longrightarrow> length (two_digits n) = 2" "n < 100 \<Longrightarrow> undigits (two_digits n) = n"
  using two_digits_all by (auto simp: list_all_iff)

lemma biobj_key_injective:
  assumes "biobj_key f i d = biobj_key f' i' d'" "f < 100" "i < 100" "d < 100" "f' < 100" "i' < 100" "d' < 100"
  shows "f = f' \<and> i = i' \<and> d = d'"
proof -
  have "two_digits f = two_digits f' \<and> two_digits i = two_digits i' \<and> two_digits d = two_digits d'"
    using assms(1) two_digits(1) assms(2-7) by (simp add: biobj_key_digits)
  then show ?thesis using two_digits(2) assms(2-7) by metis
qed

lemma table_positions_iff: "(f, i, k) \<in> set table_positions \<longleftrightarrow> 1 \<le> f \<and> f \<le> 92 \<and> 1 \<le> i \<and> i \<le> 15 \<and> k < 6"
  unfolding table_positions_def by force

lemma position_key_injective: "inj_on biobj_position_key (set table_positions)"
proof (rule inj_onI)
  fix p q
  assume p: "p \<in> set table_positions" "q \<in> set table_positions" and eq: "biobj_position_key p = biobj_position_key q"
  obtain f i k f' i' k' where pq: "p = (f, i, k)" "q = (f', i', k')" by (cases p, cases q) auto
  have k: "k < 6" "k' < 6" and b: "f < 100" "i < 100" "f' < 100" "i' < 100"
    using p by (auto simp: pq table_positions_iff)
  have cases6: "k = 0 \<or> k = 1 \<or> k = 2 \<or> k = 3 \<or> k = 4 \<or> k = 5" if "k < 6" for k :: nat using that by linarith
  have d: "biobj_dimensions ! k < 100" "biobj_dimensions ! k' < 100"
    using cases6 [OF k(1)] cases6 [OF k(2)] by (auto simp: biobj_dimensions_def)
  from biobj_key_injective [OF _ b(1,2) d(1) b(3,4) d(2)] eq
  have e: "f = f'" "i = i'" "biobj_dimensions ! k = biobj_dimensions ! k'" by (simp_all add: pq biobj_position_key_def)
  moreover have "k = k'" using e(3) cases6 [OF k(1)] cases6 [OF k(2)] by (auto simp: biobj_dimensions_def)
  ultimately show "p = q" by (simp add: pq)
qed

lemma find_best_value_map:
  assumes "inj_on g (set ps)"
  shows "find_best_value (map (\<lambda>p. (g p, h p)) ps) key = (if key \<in> g ` set ps then Some (h (the_inv_into (set ps) g key)) else None)"
proof -
  have "find_best_value (map (\<lambda>p. (g p, h p)) qs) key = (if key \<in> g ` set qs then Some (h (the_inv_into (set ps) g key)) else None)"
    if "set qs \<subseteq> set ps" for qs
    using that
  proof (induction qs)
    case (Cons q qs)
    have "the_inv_into (set ps) g (g q) = q" using assms Cons.prems by (intro the_inv_into_f_f) auto
    then show ?case using Cons by auto
  qed simp
  then show ?thesis by simp
qed

lemma find_best_value_at:
  "inj_on g (set ps) \<Longrightarrow> p \<in> set ps \<Longrightarrow> find_best_value (map (\<lambda>p. (g p, h p)) ps) (g p) = Some (h p)"
  by (simp add: find_best_value_map the_inv_into_f_f)

lemma find_best_value_none: "(\<forall>(k, v) \<in> set rows. v = 1) \<Longrightarrow> case find_best_value rows key of Some v \<Rightarrow> v = 1 | None \<Rightarrow> True"
  by (induction rows key rule: find_best_value.induct) auto

lemma biobj_hyp_value_bounds:
  assumes "1 \<le> f" "f \<le> 92" "1 \<le> i" "i \<le> 15" "k < 6"
  shows "0 < biobj_hyp_value (f, i, k)" "biobj_hyp_value (f, i, k) \<le> 1"
    "biobj_hyp_value (f, i, k) < 1 \<longleftrightarrow> f \<le> 55 \<and> i \<le> 10"
proof -
  let ?h = "best_hyp ! (f - 1) ! (i - 1) ! k"
  obtain us where us: "best_hyp = us @ best_hyp_rest" "length us = 55" "list_all known_rows us"
    using best_hyp_rows by blast
  have one: "no_best_hyp ! k = one_digits" using assms(5) by (simp add: no_best_hyp_def)
  have o: "0 < one_digits" by (simp add: one_digits_def)
  consider "f \<le> 55" "i \<le> 10" | "f \<le> 55" "10 < i" | "55 < f" by linarith
  then have "(if f \<le> 55 \<and> i \<le> 10 then 0 < ?h \<and> ?h < one_digits else ?h = one_digits)"
  proof cases
    case 1
    then have "known_rows (us ! (f - 1))" using us(2,3) assms(1) by (simp add: list_all_length)
    then obtain ws where ws: "us ! (f - 1) = ws @ replicate 5 no_best_hyp" "length ws = 10" "list_all known_row ws"
      by (auto simp: known_rows_def)
    then have "known_row (ws ! (i - 1))" using 1 assms(3) by (simp add: list_all_length)
    moreover have "f - 1 < 55" "i - 1 < 10" using 1 assms(1,3) by simp_all
    ultimately show ?thesis using 1 ws(1,2) us(2) assms unfolding us(1)
      by (simp add: nth_append known_row_def list_all_length)
  next
    case 2
    then have "known_rows (us ! (f - 1))" using us(2,3) assms(1) by (simp add: list_all_length)
    then obtain ws where ws: "us ! (f - 1) = ws @ replicate 5 no_best_hyp" "length ws = 10"
      by (auto simp: known_rows_def)
    moreover have "f - 1 < 55" "\<not> i - 1 < 10" "i - 1 - 10 < 5" using 2 assms(1,4) by simp_all
    ultimately show ?thesis using 2 us(2) assms one unfolding us(1) by (simp add: nth_append)
  next
    case 3
    moreover have "\<not> f - 1 < 55" using 3 by simp
    ultimately show ?thesis using us(2) assms one unfolding us(1) by (simp add: nth_append best_hyp_rest_def)
  qed
  then show "0 < biobj_hyp_value (f, i, k)" "biobj_hyp_value (f, i, k) \<le> 1"
    "biobj_hyp_value (f, i, k) < 1 \<longleftrightarrow> f \<le> 55 \<and> i \<le> 10"
    using o by (auto simp: biobj_hyp_value_def split: if_splits)
qed

section \<open>Properties\<close>



end
