(* ===== verification/Coco_Observer.thy ===== *)
theory Coco_Observer
  imports Coco_Files Coco_Triggers
begin

text \<open>
  Observers: the structure, its options and the four kinds of observers (\<open>coco_observer.c\<close>,
  \<open>observer_toy.c\<close>, \<open>observer_bbob.c\<close>, \<open>observer_biobj.c\<close>, \<open>observer_rw.c\<close>). The function pointers that an
  observer holds are the kind of its logger. Option values of a string that holds the key without a value are
  not written by \<open>sscanf\<close>: where the code then reads the indeterminate buffer, the model has
  \<open>Uninitialized\<close>.
\<close>

section \<open>Reading options\<close>

text \<open>
  The conversion \<open>%lf\<close>: decimal numbers with an optional exponent, infinities and NaN. Hexadecimal numbers
  are read as the 0 in front of their x, and what follows the first three letters of a word is not read.
\<close>

definition span_digits :: "string \<Rightarrow> string \<times> string" where
  "span_digits s = (takeWhile isdigit s, dropWhile isdigit s)"

definition scan_exponent :: "string \<Rightarrow> int option" where
  "scan_exponent s =
     (if s = [] \<or> (hd s \<noteq> CHR ''e'' \<and> hd s \<noteq> CHR ''E'') then Some 0
      else
        let t = tl s;
            neg = (char_at t 0 = CHR ''-'');
            t = (if neg \<or> char_at t 0 = CHR ''+'' then tl t else t);
            digits = fst (span_digits t)
        in if digits = [] then None
           else Some (if neg then - int (decimal_value 0 digits) else int (decimal_value 0 digits)))"

definition lower :: "char \<Rightarrow> char" where
  "lower c = (if 65 \<le> (of_char c :: nat) \<and> (of_char c :: nat) \<le> 90 then char_of ((of_char c :: nat) + 32) else c)"

definition decimal_number :: "nat \<Rightarrow> int \<Rightarrow> real" where
  "decimal_number n e = (if e \<ge> 0 then real n * 10 ^ nat e else real n / 10 ^ nat (- e))"

definition scan_lf :: "string \<Rightarrow> double scan" where
  "scan_lf s =
     (let s = dropWhile isspace s in
      if s = [] then (- 1, None)
      else
        let neg = (hd s = CHR ''-'');
            t = (if neg \<or> hd s = CHR ''+'' then tl s else s);
            sg = (\<lambda>d. if neg then - d else d :: double);
            (whole, t1) = span_digits t;
            (fraction, t2) = (if char_at t1 0 = CHR ''.'' then span_digits (tl t1) else ([], t1))
        in if map lower (take 3 t) = ''inf'' then (1, Some (sg Infinity))
           else if map lower (take 3 t) = ''nan'' then (1, Some NaN)
           else if whole = [] \<and> fraction = [] then (0, None)
           else case scan_exponent t2 of
             None \<Rightarrow> (0, None)
           | Some e \<Rightarrow>
               (1, Some (sg (Real (decimal_number (decimal_value 0 (whole @ fraction)) (e - int (length fraction)))))))"

definition coco_options_read_double :: "string option \<Rightarrow> string \<Rightarrow> double scan result" where
  "coco_options_read_double = coco_options_read scan_lf"

text \<open>A text option with a default, in a buffer of \<open>cap\<close> bytes.\<close>

definition read_text :: "string option \<Rightarrow> string \<Rightarrow> nat \<Rightarrow> string \<Rightarrow> string result" where
  "read_text options key cap preset =
     rbind (coco_options_read_string options key) (\<lambda>(r, value).
       if r = 0 then Inr preset
       else case value of
         None \<Rightarrow> Inl Uninitialized
       | Some s \<Rightarrow> if length s < cap then Inr s else Inl Buffer_overflow)"

text \<open>A number with a default, which also replaces values that the code does not accept.\<close>

definition read_checked ::
    "(string option \<Rightarrow> string \<Rightarrow> 'v scan result) \<Rightarrow> string option \<Rightarrow> string \<Rightarrow> 'v \<Rightarrow> ('v \<Rightarrow> bool) \<Rightarrow> 'v result" where
  "read_checked read options key preset bad =
     rbind (read options key) (\<lambda>(r, value).
       let v = (case value of None \<Rightarrow> preset | Some v \<Rightarrow> v)
       in Inr (if r \<noteq> 0 \<and> bad v then preset else v))"

text \<open>A number that is set to the default only if nothing has been read.\<close>

definition read_or_default ::
    "(string option \<Rightarrow> string \<Rightarrow> 'v scan result) \<Rightarrow> string option \<Rightarrow> string \<Rightarrow> 'v \<Rightarrow> 'v result" where
  "read_or_default read options key preset =
     rbind (read options key) (\<lambda>(r, value).
       if r = 0 then Inr preset else case value of None \<Rightarrow> Inl Uninitialized | Some v \<Rightarrow> Inr v)"

text \<open>A word that selects a mode: an unknown word leaves the mode as it is.\<close>

definition read_mode :: "string option \<Rightarrow> string \<Rightarrow> (string \<Rightarrow> 'm option) \<Rightarrow> 'm \<Rightarrow> 'm result" where
  "read_mode options key mode preset =
     rbind (coco_options_read_string options key) (\<lambda>(r, value).
       if r > 0
       then case value of
              None \<Rightarrow> Inl Uninitialized
            | Some s \<Rightarrow>
                if length s \<le> COCO_PATH_MAX
                then Inr (case mode s of None \<Rightarrow> preset | Some m \<Rightarrow> m)
                else Inl Buffer_overflow
       else Inr preset)"

section \<open>The structure\<close>

datatype logger_function = Logger_toy | Logger_bbob | Logger_biobj | Logger_rw

datatype observer_biobj_log_nondom_e = LOG_NONDOM_NONE | LOG_NONDOM_FINAL | LOG_NONDOM_ALL | LOG_NONDOM_READ

datatype observer_biobj_log_vars_e = LOG_VARS_NEVER | LOG_VARS_LOW_DIM | LOG_VARS_ALWAYS

text \<open>
  \<open>previous_function\<close> and \<open>previous_dimension\<close> are not initialized when no indicators are computed, and
  not used either; they are - 1 here.
\<close>

record observer_biobj_data_t =
  biobj_log_nondom_mode :: observer_biobj_log_nondom_e
  biobj_log_vars_mode :: observer_biobj_log_vars_e
  biobj_compute_indicators :: int
  biobj_produce_all_data :: int
  biobj_previous_function :: int
  biobj_previous_dimension :: int

datatype observer_rw_log_e = LOG_NEVER | LOG_LOW_DIM | LOG_ALWAYS

record observer_rw_data_t =
  rw_log_vars_mode :: observer_rw_log_e
  rw_log_cons_mode :: observer_rw_log_e
  rw_low_dim_vars :: nat
  rw_low_dim_cons :: nat
  rw_log_only_better :: int
  rw_log_time :: int

datatype observer_data = Toy_data "string option" | Biobj_data observer_biobj_data_t | Rw_data observer_rw_data_t

record coco_observer_t =
  is_active :: bool
  observer_name :: string
  result_folder :: string
  algorithm_name :: string
  algorithm_info :: string
  number_target_triggers :: nat
  observer_target_precision :: double
  number_evaluation_triggers :: nat
  base_evaluation_triggers :: string
  precision_x :: int
  precision_f :: int
  precision_g :: int
  observer_log_discrete_as_int :: int
  logger_allocate_function :: "logger_function option"
  observer_data :: "observer_data option"

definition coco_observer_allocate ::
    "string \<Rightarrow> string \<Rightarrow> string \<Rightarrow> string \<Rightarrow> nat \<Rightarrow> double \<Rightarrow> nat \<Rightarrow> string \<Rightarrow> int \<Rightarrow> int \<Rightarrow> int \<Rightarrow> int
      \<Rightarrow> coco_observer_t" where
  "coco_observer_allocate folder name algorithm info target_number precision evaluation_number base px pf pg discrete =
     \<lparr> is_active = True, observer_name = name, result_folder = folder, algorithm_name = algorithm,
       algorithm_info = info, number_target_triggers = target_number, observer_target_precision = precision,
       number_evaluation_triggers = evaluation_number, base_evaluation_triggers = base,
       precision_x = px, precision_f = pf, precision_g = pg, observer_log_discrete_as_int = discrete,
       logger_allocate_function = None, observer_data = None \<rparr>"

section \<open>The kinds of observers\<close>

definition observer_toy ::
    "coco_observer_t \<Rightarrow> string option \<Rightarrow> file_system \<Rightarrow> (coco_observer_t \<times> string list \<times> file_system) result" where
  "observer_toy observer options fs =
     rbind (read_text options ''file_name'' (COCO_PATH_MAX + 1) ''first_hitting_times.dat'') (\<lambda>string_value.
     rbind (coco_create_directory (result_folder observer) fs) (\<lambda>(_, fs).
     rbind (coco_join_path (result_folder observer) COCO_PATH_MAX [string_value]) (\<lambda>file_name.
       case fopen_append file_name fs of
         (None, fs) \<Rightarrow> Inl (Coco_error ''observer_toy'')
       | (Some log_file, fs) \<Rightarrow>
           Inr (observer\<lparr>logger_allocate_function := Some Logger_toy,
               observer_data := Some (Toy_data (Some log_file))\<rparr>, [''file_name''], fs))))"

definition observer_bbob :: "coco_observer_t \<Rightarrow> coco_observer_t" where
  "observer_bbob observer = observer\<lparr>logger_allocate_function := Some Logger_bbob, observer_data := None\<rparr>"

definition nondom_mode :: "string \<Rightarrow> observer_biobj_log_nondom_e option" where
  "nondom_mode s =
     (if s = ''none'' then Some LOG_NONDOM_NONE else if s = ''final'' then Some LOG_NONDOM_FINAL
      else if s = ''all'' then Some LOG_NONDOM_ALL else if s = ''read'' then Some LOG_NONDOM_READ else None)"

definition vars_mode :: "string \<Rightarrow> observer_biobj_log_vars_e option" where
  "vars_mode s =
     (if s = ''none'' then Some LOG_VARS_NEVER else if s = ''all'' then Some LOG_VARS_ALWAYS
      else if s = ''low_dim'' then Some LOG_VARS_LOW_DIM else None)"

definition observer_biobj ::
    "coco_observer_t \<Rightarrow> string option \<Rightarrow> (coco_observer_t \<times> string list) result" where
  "observer_biobj observer options =
     rbind (read_mode options ''log_nondominated'' nondom_mode LOG_NONDOM_ALL) (\<lambda>nondom.
     rbind (read_mode options ''log_decision_variables'' vars_mode LOG_VARS_LOW_DIM) (\<lambda>vars.
     rbind (read_or_default coco_options_read_int options ''compute_indicators'' 1) (\<lambda>compute.
     rbind (read_or_default coco_options_read_int options ''produce_all_data'' 0) (\<lambda>produce.
       let data = \<lparr> biobj_log_nondom_mode = nondom, biobj_log_vars_mode = vars, biobj_compute_indicators = compute,
             biobj_produce_all_data = produce, biobj_previous_function = - 1, biobj_previous_dimension = - 1 \<rparr>;
           data = (if produce \<noteq> 0
             then data\<lparr>biobj_compute_indicators := 1, biobj_log_nondom_mode := LOG_NONDOM_ALL,
               biobj_log_vars_mode := LOG_VARS_LOW_DIM\<rparr>
             else data);
           observer = observer\<lparr>logger_allocate_function := Some Logger_biobj, observer_data := Some (Biobj_data data)\<rparr>
       in Inr (if biobj_log_nondom_mode data = LOG_NONDOM_NONE \<and> biobj_compute_indicators data = 0
               then observer\<lparr>is_active := False\<rparr> else observer,
             [''log_nondominated'', ''log_decision_variables'', ''compute_indicators'', ''produce_all_data''])))))"

definition log_mode :: "string \<Rightarrow> observer_rw_log_e option" where
  "log_mode s =
     (if s = ''none'' then Some LOG_NEVER else if s = ''all'' then Some LOG_ALWAYS
      else if s = ''low_dim'' then Some LOG_LOW_DIM else None)"

definition observer_rw ::
    "coco_observer_t \<Rightarrow> string option \<Rightarrow> (coco_observer_t \<times> string list) result" where
  "observer_rw observer options =
     rbind (read_mode options ''log_variables'' log_mode LOG_ALWAYS) (\<lambda>vars.
     rbind (read_mode options ''log_constraints'' log_mode LOG_ALWAYS) (\<lambda>cons.
     rbind (read_or_default coco_options_read_size_t options ''low_dim_vars'' 10) (\<lambda>low_vars.
     rbind (read_or_default coco_options_read_size_t options ''low_dim_cons'' 10) (\<lambda>low_cons.
     rbind (read_or_default coco_options_read_int options ''log_only_better'' 0) (\<lambda>better.
     rbind (read_or_default coco_options_read_int options ''log_time'' 0) (\<lambda>time.
       Inr (observer\<lparr>logger_allocate_function := Some Logger_rw,
           observer_data := Some (Rw_data \<lparr> rw_log_vars_mode = vars, rw_log_cons_mode = cons,
             rw_low_dim_vars = low_vars, rw_low_dim_cons = low_cons, rw_log_only_better = better,
             rw_log_time = time \<rparr>)\<rparr>,
         [''log_variables'', ''log_constraints'', ''low_dim_vars'', ''low_dim_cons'', ''log_only_better'',
          ''log_time''])))))))"

section \<open>The constructor\<close>

text \<open>
  The warning about option keys that are not known; only the texts are built here, which can fail.
\<close>

definition known_observer_keys :: "string list" where
  "known_observer_keys =
     [''result_folder'', ''algorithm_name'', ''algorithm_info'', ''number_target_triggers'', ''target_precision'',
      ''number_evaluation_triggers'', ''base_evaluation_triggers'', ''precision_x'', ''precision_f'', ''precision_g'',
      ''log_discrete_as_int'']"

definition check_redundant_keys :: "string list option \<Rightarrow> string option \<Rightarrow> unit result" where
  "check_redundant_keys additional_option_keys observer_options =
     rbind (coco_option_keys_add known_observer_keys additional_option_keys) (\<lambda>known_option_keys.
     rbind (coco_option_keys observer_options) (\<lambda>given_option_keys.
       case (given_option_keys, known_option_keys) of
         (Some given, Some known) \<Rightarrow>
           rbind (coco_option_keys_get_redundant known given) (\<lambda>redundant.
             if redundant = None then Inr ()
             else rbind (coco_option_keys_get_output_string redundant
                    (''coco_observer(): Some keys in observer options were ignored:'' @ newline)) (\<lambda>_.
                  rbind (coco_option_keys_get_output_string known_option_keys
                    (''Valid keys for observer options are:'' @ newline)) (\<lambda>_. Inr ())))
       | (Some given, None) \<Rightarrow> Inl (Assert_failed ''coco_option_keys_get_redundant'')
       | (None, _) \<Rightarrow> Inr ()))"

text \<open>The general options, read in the order of the code after the result folder has been created.\<close>

definition read_precision :: "string option \<Rightarrow> string \<Rightarrow> int \<Rightarrow> int result" where
  "read_precision options key preset =
     read_checked coco_options_read_int options key preset (\<lambda>v. v < 1 \<or> v > 32)"

definition allocate_with_options ::
    "string \<Rightarrow> string \<Rightarrow> string option \<Rightarrow> coco_observer_t result" where
  "allocate_with_options path name options =
     rbind (read_text options ''algorithm_name'' (COCO_PATH_MAX + 1) ''ALG'') (\<lambda>algorithm.
     rbind (read_text options ''algorithm_info'' (5 * COCO_PATH_MAX) []) (\<lambda>info.
     rbind (read_checked coco_options_read_size_t options ''number_target_triggers'' 100 (\<lambda>v. v = 0)) (\<lambda>target_number.
     rbind (read_checked coco_options_read_double options ''target_precision'' (Real (1 / 10 ^ 8))
         (\<lambda>v. Real 1 < v \<or> v \<le> Real 0)) (\<lambda>precision.
     rbind (read_checked coco_options_read_size_t options ''number_evaluation_triggers'' 20 (\<lambda>v. v < 4)) (\<lambda>evaluation_number.
     rbind (read_text options ''base_evaluation_triggers'' COCO_PATH_MAX ''1,2,5'') (\<lambda>base.
     rbind (read_precision options ''precision_x'' 8) (\<lambda>px.
     rbind (read_precision options ''precision_f'' 15) (\<lambda>pf.
     rbind (read_precision options ''precision_g'' 3) (\<lambda>pg.
     rbind (read_checked coco_options_read_int options ''log_discrete_as_int'' 0 (\<lambda>v. v < 0 \<or> v > 1)) (\<lambda>discrete.
       Inr (coco_observer_allocate path name algorithm info target_number precision evaluation_number base
         px pf pg discrete)))))))))))"

text \<open>The choice by name; \<open>None\<close> for a name that is not known.\<close>

definition choose_observer ::
    "coco_observer_t \<Rightarrow> string option \<Rightarrow> file_system
      \<Rightarrow> (coco_observer_t \<times> string list option \<times> file_system) option result" where
  "choose_observer observer options fs =
     (let name = observer_name observer;
          bbob = Inr (Some (observer_bbob observer, None, fs));
          biobj = rbind (observer_biobj observer options) (\<lambda>(observer, keys). Inr (Some (observer, Some keys, fs)))
      in if name = ''toy''
         then rbind (observer_toy observer options fs) (\<lambda>(observer, keys, fs). Inr (Some (observer, Some keys, fs)))
         else if name = ''bbob'' then bbob
         else if name = ''bbob-biobj'' then biobj
         else if name = ''bbob-biobj-ext'' then biobj
         else if take 16 name = ''bbob-constrained'' then bbob
         else if name = ''bbob-largescale'' then bbob
         else if name = ''bbob-mixint'' then bbob
         else if name = ''bbob-biobj-mixint'' then biobj
         else if name = ''rw''
         then rbind (observer_rw observer options) (\<lambda>(observer, keys). Inr (Some (observer, Some keys, fs)))
         else Inr None)"

definition coco_observer ::
    "string \<Rightarrow> string option \<Rightarrow> file_system \<Rightarrow> (coco_observer_t option \<times> file_system) result" where
  "coco_observer name options fs =
     (if name = ''no_observer'' \<or> name = [] then Inr (None, fs)
      else
        rbind (read_text options ''result_folder'' (COCO_PATH_MAX + 1) ''default'') (\<lambda>folder.
        rbind (coco_join_path ''exdata'' COCO_PATH_MAX [folder]) (\<lambda>path.
        rbind (coco_create_unique_directory path fs) (\<lambda>(path, fs).
        rbind (allocate_with_options path name options) (\<lambda>observer.
        rbind (choose_observer observer options fs) (\<lambda>chosen.
          case chosen of
            None \<Rightarrow> Inr (None, fs)
          | Some (observer, keys, fs) \<Rightarrow>
              rbind (check_redundant_keys keys options) (\<lambda>_. Inr (Some observer, fs))))))))"

definition coco_observer_get_result_folder :: "coco_observer_t option \<Rightarrow> string" where
  "coco_observer_get_result_folder observer =
     (case observer of
        None \<Rightarrow> []
      | Some observer \<Rightarrow> if \<not> is_active observer then [] else result_folder observer)"

section \<open>The suite of a problem\<close>

text \<open>
  What a logger reads of a problem besides its own fields: the name of its suite (\<open>None\<close> for a NULL pointer)
  and its position in the suite.
\<close>

record suite_link =
  link_suite_name :: "string option"
  link_dep_index :: nat
  link_dep_function :: nat
  link_dep_instance :: nat

definition coco_problem_get_suite_dep_function :: "suite_link \<Rightarrow> nat result" where
  "coco_problem_get_suite_dep_function link =
     (if link_dep_function link > 0 then Inr (link_dep_function link)
      else Inl (Assert_failed ''coco_problem_get_suite_dep_function''))"

definition coco_problem_get_suite_dep_instance :: "suite_link \<Rightarrow> nat result" where
  "coco_problem_get_suite_dep_instance link =
     (if link_dep_instance link > 0 then Inr (link_dep_instance link)
      else Inl (Assert_failed ''coco_problem_get_suite_dep_instance''))"

definition linked_suite :: "string \<Rightarrow> suite_link \<Rightarrow> string result" where
  "linked_suite name link =
     (case link_suite_name link of None \<Rightarrow> Inl (Assert_failed name) | Some s \<Rightarrow> Inr s)"

definition coco_version :: string where
  "coco_version = ''2.6.2.1''"

end
