(* ===== verification/Coco_Observed.thy ===== *)
theory Coco_Observed
  imports Coco_Observer Coco_Bbob_Runs
begin

text \<open>
  Problems with a logger around them. The logger is the outermost layer \<open>Logged\<close> of a problem; its data,
  the files and the global variables it uses are a state \<open>'s\<close> that is passed through the evaluations. The
  locale \<open>logger_contract\<close> states what every logger promises: it returns what the inner problem returns.
\<close>

section \<open>Evaluation\<close>

text \<open>The evaluation function of a logger, with the logger's state.\<close>

type_synonym 's evaluator = "coco_problem_t \<Rightarrow> double list \<Rightarrow> 's \<Rightarrow> (double list \<times> coco_problem_t \<times> 's) result"

text \<open>\<open>coco_evaluate_function\<close> of a problem whose function pointer is that of the logger.\<close>

definition coco_evaluate_observed :: "'s evaluator \<Rightarrow> 's evaluator" where
  "coco_evaluate_observed logger p x s =
     (if evaluate_function (fields p) = None then Inl (Assert_failed ''coco_evaluate_function'')
      else rbind (check_point (fields p) (number_of_objectives (fields p)) x) (\<lambda>special.
        case special of
          Some y \<Rightarrow> Inr (y, p, s)
        | None \<Rightarrow>
            rbind (logger p x s) (\<lambda>(y, p, s).
            rbind (bookkeeping x (y, p)) (\<lambda>(y, p). Inr (y, p, s)))))"

fun observe_points :: "'s evaluator \<Rightarrow> coco_problem_t \<Rightarrow> double list list \<Rightarrow> 's
    \<Rightarrow> (double list list \<times> coco_problem_t \<times> 's) result" where
  "observe_points logger p [] s = Inr ([], p, s)"
| "observe_points logger p (x # xs) s =
     rbind (coco_evaluate_observed logger p x s) (\<lambda>(y, p, s).
     rbind (observe_points logger p xs s) (\<lambda>(ys, p, s). Inr (y # ys, p, s)))"

section \<open>What an evaluation keeps\<close>

text \<open>The call of the function pointer of a problem leaves the fields of this problem as they are.\<close>

definition keeps :: "coco_problem_s \<Rightarrow> (double list \<times> coco_problem_t) result \<Rightarrow> bool" where
  "keeps p r \<longleftrightarrow> (\<forall>y q. r = Inr (y, q) \<longrightarrow> fields q = p)"

named_theorems keeping

lemma keeps_Inl [keeping, simp]: "keeps p (Inl e)"
  by (simp add: keeps_def)

lemma keeps_Inr [simp]: "keeps p (Inr (y, q)) \<longleftrightarrow> fields q = p"
  by (simp add: keeps_def)

lemma keeps_bind [keeping]: "(\<And>v. m = Inr v \<Longrightarrow> keeps p (f v)) \<Longrightarrow> keeps p (rbind m f)"
  by (cases m) auto

lemma keeps_if [keeping]: "(b \<Longrightarrow> keeps p r) \<Longrightarrow> (\<not> b \<Longrightarrow> keeps p s) \<Longrightarrow> keeps p (if b then r else s)"
  by simp

lemma keeps_prod [keeping]: "(\<And>a b. v = (a, b) \<Longrightarrow> keeps p (f a b)) \<Longrightarrow> keeps p (case v of (a, b) \<Rightarrow> f a b)"
  by (cases v) simp

lemma call_evaluate_constraint_keeps: "keeps (fields p) (call_evaluate_constraint p x)"
proof (cases p)
  case (Transformed f t inner)
  then show ?thesis
    by (cases t) (auto simp: keeps_def rbind_eq_Inr Let_def transform_constraint_def
        transform_vars_affine_evaluate_constraint_def transform_vars_shift_evaluate_constraint_def
        transform_vars_asymmetric_evaluate_constraint_def transform_vars_oscillate_evaluate_constraint_def
        c_linear_single_evaluate_def split: option.splits constraint_pointer.splits if_splits)
qed (auto simp: keeps_def rbind_eq_Inr Let_def split: option.splits constraint_pointer.splits if_splits)

lemma coco_is_feasible_keeps: "coco_is_feasible p x = Inr (b, q) \<Longrightarrow> fields q = fields p"
  using call_evaluate_constraint_keeps [of p x]
  by (auto simp: coco_is_feasible_def rbind_eq_Inr keeps_def split: if_splits)

lemma assert_best_if_feasible_keeps [keeping]: "fields q = p \<Longrightarrow> keeps p (assert_best_if_feasible name x (y, q))"
  by (auto simp: assert_best_if_feasible_def keeps_def rbind_eq_Inr dest: coco_is_feasible_keeps split: if_splits)

lemma assert_best_always_keeps [keeping]: "fields q = p \<Longrightarrow> keeps p (assert_best_always name x (y, q))"
  by (auto simp: assert_best_always_def keeps_def rbind_eq_Inr)

lemma assert_best_alias_keeps [keeping]: "fields q = p \<Longrightarrow> keeps p (assert_best_alias False name x (y, q))"
  by (simp add: assert_best_alias_def assert_best_always_keeps)

lemma stacked_check_keeps [keeping]: "fields q = p \<Longrightarrow> keeps p (stacked_check x (y, q))"
  by (auto simp: stacked_check_def keeps_def rbind_eq_Inr dest: coco_is_feasible_keeps split: if_splits)

lemma transform_vars_keeps [keeping]:
  "(\<And>y inner. keeps p (check x (y, Transformed p t inner))) \<Longrightarrow> keeps p (transform_vars check p t inner eval new_x x)"
  by (auto simp: transform_vars_def intro!: keeping)

lemma transform_obj_keeps [keeping]:
  "(\<And>y inner. keeps p (check x (y, Transformed p t inner))) \<Longrightarrow> keeps p (transform_obj check p t inner eval new_y x)"
  by (auto simp: transform_obj_def intro!: keeping)

lemmas evaluates_defs =
  transform_obj_oscillate_evaluate_def transform_obj_power_evaluate_def transform_obj_shift_evaluate_function_def
  transform_obj_scale_evaluate_function_def transform_obj_penalize_evaluate_def transform_obj_norm_by_dim_evaluate_def
  transform_vars_affine_evaluate_function_def transform_vars_shift_evaluate_function_def
  transform_vars_scale_evaluate_def transform_vars_conditioning_evaluate_def
  transform_vars_asymmetric_evaluate_function_def transform_vars_brs_evaluate_def
  transform_vars_oscillate_evaluate_function_def transform_vars_z_hat_evaluate_def
  transform_vars_x_hat_evaluate_def transform_vars_permutation_evaluate_def
  transform_vars_inverse_permutation_evaluate_def transform_vars_blockrotation_evaluate_def
  transform_vars_discretize_evaluate_function_def

lemma transformation_evaluate_keeps: "keeps p (transformation_evaluate t p inner eval x)"
  by (cases t) (auto simp: evaluates_defs Let_def intro!: keeping)

lemma call_evaluate_function_keeps: "keeps (fields p) (call_evaluate_function p x)"
proof (cases p)
  case (Transformed f t inner)
  then show ?thesis
    using transformation_evaluate_keeps [of f t inner]
    by (auto simp: keeps_def rbind_eq_Inr Let_def split: option.splits function_pointer.splits)
next
  case (Stacked f p1 p2)
  then show ?thesis by (auto simp: Let_def intro!: keeping)
qed (auto simp: keeps_def rbind_eq_Inr split: option.splits function_pointer.splits)

section \<open>Loggers are transparent\<close>

text \<open>The fields in which the outer problem repeats the inner one; the problems have no constraints.\<close>

definition mirrors :: "coco_problem_s \<Rightarrow> coco_problem_s \<Rightarrow> bool" where
  "mirrors outer inner \<longleftrightarrow>
     number_of_constraints outer = 0 \<and> number_of_constraints inner = 0
     \<and> evaluate_function outer \<noteq> None \<and> evaluate_function inner \<noteq> None
     \<and> number_of_variables outer = number_of_variables inner
     \<and> number_of_objectives outer = number_of_objectives inner
     \<and> evaluations outer = evaluations inner
     \<and> best_observed_fvalue outer = best_observed_fvalue inner
     \<and> best_observed_evaluation outer = best_observed_evaluation inner"

lemma bookkeeping_mirrors:
  assumes "bookkeeping x (y, inner) = Inr (y', inner')" and "mirrors (fields outer) (fields inner)"
  shows "y' = y \<and> (\<exists>outer'. bookkeeping x (y, outer) = Inr (y, outer') \<and> mirrors (fields outer') (fields inner')
    \<and> (\<exists>f. outer' = with_fields f outer))"
  using assms
  by (auto simp: bookkeeping_def Let_def rbind_eq_Inr mirrors_def with_fields_compose rnth_def
      problem_increment_evaluate_function_def coco_problem_set_best_observed_f_value_def split: if_splits)

locale logger_contract =
  fixes logger :: "'s evaluator"
  assumes transparent:
    "number_of_constraints f = 0 \<Longrightarrow> logger (Transformed f Logged inner) x s = Inr (y, q, s') \<Longrightarrow>
       \<exists>inner'. coco_evaluate_function inner x = Inr (y, inner') \<and> q = Transformed f Logged inner'"
begin

lemma evaluate_transparent:
  assumes "coco_evaluate_observed logger (Transformed f Logged inner) x s = Inr (y, q, s')"
    and "mirrors f (fields inner)"
  shows "\<exists>f' inner'. q = Transformed f' Logged inner' \<and> coco_evaluate_function inner x = Inr (y, inner')
    \<and> mirrors f' (fields inner')"
proof -
  have eq: "check_point f (number_of_objectives f) x = check_point (fields inner) (number_of_objectives (fields inner)) x"
    using assms(2) by (simp add: check_point_def coco_problem_get_dimension_def mirrors_def)
  from assms(1) obtain special where
    special: "check_point (fields inner) (number_of_objectives (fields inner)) x = Inr special"
    and rest: "(case special of Some y \<Rightarrow> Inr (y, Transformed f Logged inner, s)
      | None \<Rightarrow> rbind (logger (Transformed f Logged inner) x s) (\<lambda>(y, p, s).
          rbind (bookkeeping x (y, p)) (\<lambda>(y, p). Inr (y, p, s)))) = Inr (y, q, s')"
    unfolding eq [symmetric] by (auto simp: coco_evaluate_observed_def rbind_eq_Inr split: if_splits)
  show ?thesis
  proof (cases special)
    case (Some z)
    then show ?thesis using special rest assms(2)
      by (auto simp: coco_evaluate_function_def evaluate_function_by_def mirrors_def)
  next
    case None
    with rest obtain y1 q1 q2 where l: "logger (Transformed f Logged inner) x s = Inr (y1, q1, s')"
      and b: "bookkeeping x (y1, q1) = Inr (y, q2)" and q: "q = q2"
      by (auto simp: rbind_eq_Inr)
    obtain inner1 where i: "coco_evaluate_function inner x = Inr (y1, inner1)" "q1 = Transformed f Logged inner1"
      using transparent [OF _ l] assms(2) by (auto simp: mirrors_def)
    obtain y0 inner0 where c: "call_evaluate_function inner x = Inr (y0, inner0)"
      "bookkeeping x (y0, inner0) = Inr (y1, inner1)"
      using i(1) special None
      by (auto simp: coco_evaluate_function_def evaluate_function_by_def rbind_eq_Inr split: if_splits)
    have f: "fields inner0 = fields inner"
      using call_evaluate_function_keeps [of inner x] c(1) by (simp add: keeps_def)
    have m: "mirrors (fields (Transformed f Logged inner1)) (fields inner0)"
      using assms(2) f by simp
    obtain outer' g where o: "y1 = y0" "bookkeeping x (y0, Transformed f Logged inner1) = Inr (y0, outer')"
      "mirrors (fields outer') (fields inner1)" "outer' = with_fields g (Transformed f Logged inner1)"
      using bookkeeping_mirrors [OF c(2) m] by blast
    then show ?thesis using i b q by auto
  qed
qed

theorem run_transparent:
  assumes "observe_points logger (Transformed f Logged inner) xs s = Inr (ys, q, s')" and "mirrors f (fields inner)"
  shows "\<exists>f' inner'. q = Transformed f' Logged inner' \<and> evaluate_points inner xs = Inr (ys, inner')
    \<and> mirrors f' (fields inner')"
  using assms
proof (induction xs arbitrary: f inner s ys)
  case (Cons x xs)
  then obtain y p1 s1 ys' where e: "coco_evaluate_observed logger (Transformed f Logged inner) x s = Inr (y, p1, s1)"
    and r: "observe_points logger p1 xs s1 = Inr (ys', q, s')" and y: "ys = y # ys'"
    by (auto simp: rbind_eq_Inr)
  obtain f1 inner1 where 1: "p1 = Transformed f1 Logged inner1" "coco_evaluate_function inner x = Inr (y, inner1)"
    "mirrors f1 (fields inner1)"
    using evaluate_transparent [OF e Cons.prems(2)] by blast
  with Cons.IH [OF r [unfolded 1(1)] 1(3)] y show ?case by auto
next
  case Nil
  then show ?case by auto
qed

end

section \<open>Loggers as recorders of a run\<close>

text \<open>
  The layer of a logger around an unconstrained problem with one objective, as
  \<open>coco_problem_transformed_allocate\<close> makes it.
\<close>

definition logged_layer :: "coco_problem_s \<Rightarrow> nat \<Rightarrow> bool" where
  "logged_layer f n \<longleftrightarrow> evaluate_function f = Some Evaluate_own \<and> number_of_variables f = n \<and> n > 0
     \<and> number_of_objectives f = 1 \<and> number_of_constraints f = 0 \<and> number_of_integer_variables f = 0
     \<and> evaluations_constraints f = 0"

lemma logged_layer_record [simp]: "logged_layer (record_value v f) n = logged_layer f n"
  by (simp add: logged_layer_def record_value_def Let_def problem_increment_evaluate_function_def
      coco_problem_set_best_observed_f_value_def)

text \<open>
  A logger of single-objective problems: \<open>inv h s\<close> says that \<open>s\<close> is the right state after the evaluations
  \<open>h\<close>, points with their values. The logger keeps it for at most \<open>limit\<close> evaluations with the values \<open>ok\<close>.
\<close>

locale recording_logger = logger_contract logger for logger :: "'s evaluator" +
  fixes n :: nat and fo :: real and inv :: "(real list \<times> real) list \<Rightarrow> 's \<Rightarrow> bool"
    and ok :: "real \<Rightarrow> bool" and limit :: nat
  assumes records:
    "logged_layer f n \<Longrightarrow> inv h s \<Longrightarrow> length h < limit \<Longrightarrow> length x = n \<Longrightarrow> ok v \<Longrightarrow> fo \<le> v \<Longrightarrow>
       coco_evaluate_function inner (map Real x) = Inr ([Real v], inner') \<Longrightarrow>
       \<exists>s'. logger (Transformed f Logged inner) (map Real x) s = Inr ([Real v], Transformed f Logged inner', s')
         \<and> inv (h @ [(x, v)]) s'"
begin

lemma observe_one:
  assumes "logged_layer f n" "inv h s" "length h < limit" "length x = n" "ok (F x)"
    and "objective_problem inner n L F best fo"
  shows "\<exists>inner' s'. coco_evaluate_observed logger (Transformed f Logged inner) (map Real x) s
      = Inr ([Real (F x)], Transformed (record_value (F x) f) Logged inner', s')
    \<and> coco_evaluate_function inner (map Real x) = Inr ([Real (F x)], inner')
    \<and> inv (h @ [(x, F x)]) s' \<and> objective_problem inner' n L F best fo"
proof -
  obtain inner' where i: "coco_evaluate_function inner (map Real x) = Inr ([Real (F x)], inner')"
    "objective_problem inner' n L F best fo"
    using coco_evaluate_function_objective [OF assms(6,4)] by blast
  have le: "fo \<le> F x" using assms(4,6) by (simp add: objective_problem_def)
  obtain s' where s: "logger (Transformed f Logged inner) (map Real x) s
      = Inr ([Real (F x)], Transformed f Logged inner', s')" "inv (h @ [(x, F x)]) s'"
    using records [OF assms(1-5) le i(1)] by blast
  have "check_point f (number_of_objectives f) (map Real x) = Inr None"
    using assms(1,4) by (intro check_point_finite) (auto simp: logged_layer_def)
  then show ?thesis using assms(1) i s bookkeeping_unconstrained [of "Transformed f Logged inner'" "map Real x" "F x" "[]"]
    by (auto simp: coco_evaluate_observed_def logged_layer_def)
qed

theorem observe_run:
  assumes "logged_layer f n" "inv h s" "length h + length xs \<le> limit"
    and "\<forall>x \<in> set xs. length x = n \<and> ok (F x)" and "objective_problem inner n L F best fo"
  shows "\<exists>inner' s'. observe_points logger (Transformed f Logged inner) (map (map Real) xs) s
      = Inr (map (\<lambda>x. [Real (F x)]) xs, Transformed (fold record_value (map F xs) f) Logged inner', s')
    \<and> evaluate_points inner (map (map Real) xs) = Inr (map (\<lambda>x. [Real (F x)]) xs, inner')
    \<and> inv (h @ map (\<lambda>x. (x, F x)) xs) s'"
  using assms
proof (induction xs arbitrary: f h s inner)
  case (Cons x xs)
  then obtain inner1 s1 where 1: "coco_evaluate_observed logger (Transformed f Logged inner) (map Real x) s
      = Inr ([Real (F x)], Transformed (record_value (F x) f) Logged inner1, s1)"
    "coco_evaluate_function inner (map Real x) = Inr ([Real (F x)], inner1)"
    "inv (h @ [(x, F x)]) s1" "objective_problem inner1 n L F best fo"
    using observe_one [of f h s x F inner L best] by auto
  obtain inner2 s2 where 2: "observe_points logger (Transformed (record_value (F x) f) Logged inner1) (map (map Real) xs) s1
      = Inr (map (\<lambda>x. [Real (F x)]) xs, Transformed (fold record_value (map F xs) (record_value (F x) f)) Logged inner2, s2)"
    "evaluate_points inner1 (map (map Real) xs) = Inr (map (\<lambda>x. [Real (F x)]) xs, inner2)"
    "inv ((h @ [(x, F x)]) @ map (\<lambda>x. (x, F x)) xs) s2"
    using Cons.IH [of "record_value (F x) f" "h @ [(x, F x)]" s1 inner1] Cons.prems 1(3,4) by auto
  show ?case using 1(1,2) 2 by auto
next
  case Nil
  then show ?case by auto
qed

end

text \<open>What is written over a run, when evaluation \<open>e\<close> after the evaluations \<open>h\<close> writes \<open>f h e\<close>.\<close>

definition run_lines :: "('e list \<Rightarrow> 'e \<Rightarrow> 'c list) \<Rightarrow> 'e list \<Rightarrow> 'c list" where
  "run_lines f h = concat (map (\<lambda>i. f (take i h) (h ! i)) [0..<length h])"

lemma run_lines_Nil [simp]: "run_lines f [] = []"
  by (simp add: run_lines_def)

lemma run_lines_snoc [simp]: "run_lines f (h @ [e]) = run_lines f h @ f h e"
proof -
  have "f (take i (h @ [e])) ((h @ [e]) ! i) = f (take i h) (h ! i)" if "i < length h" for i
    using that by (simp add: nth_append)
  then have "map (\<lambda>i. f (take i (h @ [e])) ((h @ [e]) ! i)) [0..<length h] = map (\<lambda>i. f (take i h) (h ! i)) [0..<length h]"
    by (intro map_cong) auto
  moreover have "take (length h) (h @ [e]) = h" by simp
  ultimately show ?thesis
    by (simp only: run_lines_def length_append_singleton upt_Suc_append le0 map_append concat_append list.map
        nth_append_length concat.simps append_Nil2)
qed

text \<open>An evaluation with a value below all values before.\<close>

definition improves :: "(real list \<times> real) list \<Rightarrow> real list \<times> real \<Rightarrow> bool" where
  "improves h e \<longleftrightarrow> (\<forall>w \<in> set (map snd h). snd e < w)"

lemma improves_iff: "h \<noteq> [] \<Longrightarrow> improves h e \<longleftrightarrow> snd e < Min (set (map snd h))"
  by (simp add: improves_def)

lemma best_after:
  "Min (set (map snd (h @ [e]))) = (if h = [] \<or> improves h e then snd e else Min (set (map snd h)))"
proof (cases "h = []")
  case False
  then have "set (map snd (h @ [e])) = insert (snd e) (set (map snd h))" by auto
  with False have m: "Min (set (map snd (h @ [e]))) = min (snd e) (Min (set (map snd h)))"
    by simp
  show ?thesis unfolding m improves_iff [OF False] using False by (auto simp only: min_def split: if_splits)
qed simp

section \<open>The ids of the bbob problems\<close>

definition identified :: "coco_problem_t result \<Rightarrow> bool" where
  "identified r \<longleftrightarrow> (\<forall>p. r = Inr p \<longrightarrow> problem_id (fields p) \<noteq> None)"

named_theorems identifying

lemma identified_Inl [identifying]: "identified (Inl e)"
  by (simp add: identified_def)

lemma identified_bind [identifying]: "(\<And>v. identified (f v)) \<Longrightarrow> identified (rbind m f)"
  by (cases m) (simp_all add: identified_def)

lemma identified_if [identifying]: "identified r \<Longrightarrow> identified s \<Longrightarrow> identified (if b then r else s)"
  by simp

lemma identified_prod [identifying]: "(\<And>a b. identified (f a b)) \<Longrightarrow> identified (case v of (a, b) \<Rightarrow> f a b)"
  by (cases v) simp

lemma identified_option [identifying]:
  "identified r \<Longrightarrow> (\<And>v. identified (f v)) \<Longrightarrow> identified (case m of None \<Rightarrow> r | Some v \<Rightarrow> f v)"
  by (cases m) simp_all

lemma name_problem_identified [identifying]: "identified (name_problem id_template name_template ptype f i d p)"
  by (auto simp: identified_def name_problem_def rbind_eq_Inr coco_problem_set_id_def coco_problem_set_name_def
      coco_problem_set_type_def Let_def split: if_splits)

lemmas bbob_allocate_defs =
  f_sphere_bbob_problem_allocate_def f_ellipsoid_bbob_problem_allocate_def f_rastrigin_bbob_problem_allocate_def
  f_bueche_rastrigin_bbob_problem_allocate_def f_linear_slope_bbob_problem_allocate_def
  f_attractive_sector_bbob_problem_allocate_def f_step_ellipsoid_bbob_problem_allocate_def
  f_rosenbrock_bbob_problem_allocate_def f_rosenbrock_rotated_bbob_problem_allocate_def
  f_ellipsoid_rotated_bbob_problem_allocate_def f_discus_bbob_problem_allocate_def
  f_bent_cigar_bbob_problem_allocate_def f_sharp_ridge_bbob_problem_allocate_def
  f_different_powers_bbob_problem_allocate_def f_rastrigin_rotated_bbob_problem_allocate_def
  f_weierstrass_bbob_problem_allocate_def f_schaffers_bbob_problem_allocate_def
  f_griewank_rosenbrock_bbob_problem_allocate_def f_schwefel_bbob_problem_allocate_def
  f_gallagher_bbob_problem_allocate_def f_katsuura_bbob_problem_allocate_def
  f_lunacek_bi_rastrigin_bbob_problem_allocate_def

lemma bbob_allocate_identified: "identified (bbob_allocate a f d i rseed id_template name_template)"
  by (cases a; simp only: bbob_allocate.simps; unfold bbob_allocate_defs Let_def; intro identifying)

lemma bbob_problem_id:
  assumes "bbob_problem f d i = Inr p"
  shows "\<exists>pid. problem_id (fields p) = Some pid"
proof -
  obtain call where c: "coco_get_bbob_problem f d i = Inr call"
    "(case call of Alloc (Bbob a) f d i rseed \<Rightarrow> bbob_allocate a f d i rseed bbob_id_template bbob_name_template
       | _ \<Rightarrow> Inl Null_deref) = Inr p"
    using assms by (auto simp: bbob_problem_def rbind_eq_Inr)
  then obtain a f' d' i' s where "bbob_allocate a f' d' i' s bbob_id_template bbob_name_template = Inr p"
    by (cases call; simp split: allocator.splits)
  with bbob_allocate_identified [of a f' d' i' s] show ?thesis by (auto simp: identified_def)
qed

end
