(* ===== verification/Coco_Logger_Toy.thy ===== *)
theory Coco_Logger_Toy
  imports Coco_Observed
begin

text \<open>
  The toy logger (\<open>logger_toy.c\<close>): it writes a line whenever the value of an evaluation hits a new target.
  The streams are flushed after every evaluation, which the model of files does not see.
\<close>

section \<open>Formatted output\<close>

text \<open>The conversion \<open>%.*e\<close> with its precision, and texts between single quotes.\<close>

definition e_format :: "int \<Rightarrow> string" where
  "e_format precision = ''%.'' @ show_int precision @ ''e''"

definition quoted :: "string \<Rightarrow> string" where
  "quoted s = [CHR 0x27] @ s @ [CHR 0x27]"

definition problem_header :: "string \<Rightarrow> string \<Rightarrow> string \<Rightarrow> string" where
  "problem_header suite pid pname =
     ''suite = '' @ quoted suite @ '', problem_id = '' @ quoted pid @ '', problem_name = '' @ quoted pname
     @ '', coco_version = '' @ quoted coco_version @ newline"

section \<open>The logger\<close>

record logger_toy_data_t =
  toy_log_file :: "string option"
  toy_targets :: coco_observer_targets_t
  toy_number_of_evaluations :: nat
  toy_precision_x :: int
  toy_precision_f :: int

abbreviation fields where "fields \<equiv> Coco_Problem.fields"

type_synonym toy_state = "logger_toy_data_t \<times> file_system"

definition toy_line :: "int \<Rightarrow> int \<Rightarrow> nat \<Rightarrow> double \<Rightarrow> double \<Rightarrow> double list \<Rightarrow> chunk list" where
  "toy_line px pf k v target x =
     [Text (show_nat k), Text tabulator, Number (e_format pf) v, Text tabulator, Number (e_format pf) target]
     @ concat (map (\<lambda>v. [Text tabulator, Number (e_format px) v]) x) @ [Text newline]"

definition logger_toy_evaluate :: "toy_state evaluator" where
  "logger_toy_evaluate problem x s =
     (case (problem, s) of
        (Transformed p t inner, (logger, fs)) \<Rightarrow>
          rbind (coco_evaluate_function inner x) (\<lambda>(y, inner).
          rbind (rnth y 0) (\<lambda>v.
          rbind (coco_observer_targets_trigger (toy_targets logger) v) (\<lambda>(hit, targets).
            let logger = logger\<lparr>toy_number_of_evaluations := size_t (toy_number_of_evaluations logger + 1),
                  toy_targets := targets\<rparr>
            in if hit
               then rbind (copy_vector x (number_of_variables p)) (\<lambda>x.
                    rbind (fprintf (toy_log_file logger) (toy_line (toy_precision_x logger) (toy_precision_f logger)
                      (toy_number_of_evaluations logger) v (target_value targets) x) fs) (\<lambda>fs.
                      Inr (y, Transformed p t inner, logger, fs)))
               else Inr (y, Transformed p t inner, logger, fs))))
      | _ \<Rightarrow> Inl Null_deref)"

text \<open>The constructor writes three lines and returns the problem with the logger around it.\<close>

definition logger_toy ::
    "coco_observer_t \<Rightarrow> suite_link \<Rightarrow> coco_problem_t \<Rightarrow> file_system \<Rightarrow> (coco_problem_t \<times> toy_state) result" where
  "logger_toy observer link inner_problem fs =
     (case observer_data observer of
        Some (Toy_data log_file) \<Rightarrow>
          let logger = \<lparr> toy_log_file = log_file,
                toy_targets = coco_observer_targets (number_target_triggers observer) (observer_target_precision observer),
                toy_number_of_evaluations = 0, toy_precision_x = precision_x observer,
                toy_precision_f = precision_f observer \<rparr>
          in rbind (coco_problem_transformed_allocate inner_problem Logged (observer_name observer)) (\<lambda>problem.
             rbind (linked_suite ''logger_toy'' link) (\<lambda>suite.
             rbind (coco_problem_get_id (fields inner_problem)) (\<lambda>pid.
             rbind (coco_problem_get_name (fields inner_problem)) (\<lambda>pname.
             rbind (fprintf log_file
                 [Text newline, Text (problem_header suite pid pname),
                  Text (''% evaluation number | function value | target hit | ''
                    @ show_nat (number_of_variables (fields inner_problem)) @ '' variables '' @ newline)] fs) (\<lambda>fs.
               Inr (own_function problem, logger, fs))))))
      | _ \<Rightarrow> Inl Null_deref)"

text \<open>\<open>logger_toy_free\<close> releases the targets only; the stream belongs to the observer.\<close>

section \<open>What a run writes\<close>

text \<open>The targets after the values \<open>vs\<close>.\<close>

definition targets_after :: "nat \<Rightarrow> real \<Rightarrow> real list \<Rightarrow> coco_observer_targets_t \<Rightarrow> bool" where
  "targets_after N P vs t \<longleftrightarrow> target_triggers t = N \<and> target_precision t = Real P
     \<and> target_exponent t = Min (insert INT_MAX (effective_exponent N P ` set vs))"

definition hits_target :: "nat \<Rightarrow> real \<Rightarrow> real list \<Rightarrow> real \<Rightarrow> bool" where
  "hits_target N P vs v \<longleftrightarrow> (\<forall>w \<in> set vs. effective_exponent N P v < effective_exponent N P w)"

lemma targets_after_new: "targets_after N P [] (coco_observer_targets N (Real P))"
  by (simp add: targets_after_def coco_observer_targets_def)

lemma targets_after_step:
  assumes "trigger_bounds N P v" "targets_after N P vs t"
  shows "\<exists>t'. coco_observer_targets_trigger t (Real v) = Inr (hits_target N P vs v, t') \<and> targets_after N P (vs @ [v]) t'
    \<and> (hits_target N P vs v \<longrightarrow> target_value t' = Real (target_of N P v))"
proof -
  let ?e = "effective_exponent N P"
  have s: "target_triggers t = N" "target_precision t = Real P"
    "target_exponent t = Min (insert INT_MAX (?e ` set vs))"
    using assms(2) by (simp_all add: targets_after_def)
  have hit: "?e v < target_exponent t \<longleftrightarrow> hits_target N P vs v"
    using effective_exponent_small [OF assms(1)] by (simp add: s(3) hits_target_def)
  have set: "insert INT_MAX (?e ` set (vs @ [v])) = insert (?e v) (insert INT_MAX (?e ` set vs))" by auto
  have m: "Min (insert INT_MAX (?e ` set (vs @ [v]))) = min (?e v) (target_exponent t)"
    unfolding set s(3) by (subst Min_insert) auto
  have "coco_observer_targets_trigger t (Real v) = Inr (?e v < target_exponent t,
      if ?e v < target_exponent t then t\<lparr>target_exponent := ?e v, target_value := Real (target_of N P v)\<rparr> else t)"
    using targets_trigger_real [OF assms(1) s(1,2)] by simp
  then show ?thesis unfolding hit [symmetric] targets_after_def m using s(1,2) by (simp add: min_def)
qed

text \<open>The line of an evaluation after the evaluations \<open>h\<close>, if it hits a target.\<close>

definition toy_lines :: "nat \<Rightarrow> real \<Rightarrow> int \<Rightarrow> int \<Rightarrow> (real list \<times> real) list \<Rightarrow> real list \<times> real \<Rightarrow> chunk list" where
  "toy_lines N P px pf h e =
     (if hits_target N P (map snd h) (snd e)
      then toy_line px pf (Suc (length h)) (Real (snd e)) (Real (target_of N P (snd e))) (map Real (fst e))
      else [])"

definition toy_inv ::
    "nat \<Rightarrow> real \<Rightarrow> string \<Rightarrow> chunk list \<Rightarrow> int \<Rightarrow> int \<Rightarrow> (real list \<times> real) list \<Rightarrow> toy_state \<Rightarrow> bool" where
  "toy_inv N P log_file written px pf h s \<longleftrightarrow>
     (case s of (logger, fs) \<Rightarrow>
        toy_log_file logger = Some log_file \<and> toy_number_of_evaluations logger = length h
        \<and> toy_precision_x logger = px \<and> toy_precision_f logger = pf
        \<and> targets_after N P (map snd h) (toy_targets logger)
        \<and> files fs log_file = Some (written @ run_lines (toy_lines N P px pf) h))"

lemma fprintf_open:
  "files fs f = Some c \<Longrightarrow> fprintf (Some f) chunks fs = Inr (fs\<lparr>files := (files fs)(f \<mapsto> c @ chunks)\<rparr>)"
  by (simp add: fprintf_def)

lemma logger_toy_transparent:
  assumes "logger_toy_evaluate (Transformed f Logged inner) x s = Inr (y, q, s')"
  shows "\<exists>inner'. coco_evaluate_function inner x = Inr (y, inner') \<and> q = Transformed f Logged inner'"
  using assms by (auto simp: logger_toy_evaluate_def rbind_eq_Inr Let_def split: prod.splits if_splits)

interpretation toy: recording_logger logger_toy_evaluate n fo "toy_inv N P log_file written px pf" "trigger_bounds N P" "2 ^ 64 - 1"
proof unfold_locales
  fix f h s inner inner' and x :: "real list" and v :: real
  assume a: "logged_layer f n" "toy_inv N P log_file written px pf h s" "length h < 2 ^ 64 - 1" "length x = n"
    "trigger_bounds N P v" "coco_evaluate_function inner (map Real x) = Inr ([Real v], inner')"
  obtain logger fs where s: "s = (logger, fs)" by (cases s)
  have i: "toy_log_file logger = Some log_file" "toy_number_of_evaluations logger = length h"
    "toy_precision_x logger = px" "toy_precision_f logger = pf"
    "targets_after N P (map snd h) (toy_targets logger)"
    "files fs log_file = Some (written @ run_lines (toy_lines N P px pf) h)"
    using a(2) by (simp_all add: toy_inv_def s)
  obtain t where t: "coco_observer_targets_trigger (toy_targets logger) (Real v) = Inr (hits_target N P (map snd h) v, t)"
    "targets_after N P (map snd h @ [v]) t" "hits_target N P (map snd h) v \<Longrightarrow> target_value t = Real (target_of N P v)"
    using targets_after_step [OF a(5) i(5)] by blast
  have size: "size_t (Suc (length h)) = Suc (length h)" using a(3) by simp
  have x: "copy_vector (map Real x) (number_of_variables f) = Inr (map Real x)"
    using a(1,4) by (simp add: copy_vector_def logged_layer_def)
  show "\<exists>s'. logger_toy_evaluate (Transformed f Logged inner) (map Real x) s
      = Inr ([Real v], Transformed f Logged inner', s') \<and> toy_inv N P log_file written px pf (h @ [(x, v)]) s'"
    using t x i
    by (auto simp: logger_toy_evaluate_def s a(6) Let_def size fprintf_open toy_inv_def toy_lines_def)
qed (rule logger_toy_transparent)

section \<open>Properties\<close>

definition toy_header :: "string \<Rightarrow> coco_problem_s \<Rightarrow> chunk list" where
  "toy_header suite p =
     [Text newline, Text (problem_header suite (the (problem_id p)) (the (problem_name p))),
      Text (''% evaluation number | function value | target hit | ''
        @ show_nat (number_of_variables p) @ '' variables '' @ newline)]"

lemma logger_toy_new:
  assumes "new_problem p n L F best fo" "problem_id (fields p) = Some pid" "L + length (observer_name observer) + 2 \<le> 441"
    and "observer_data observer = Some (Toy_data (Some log_file))" "observer_target_precision observer = Real P"
    and "link_suite_name link = Some suite" "files fs log_file = Some written"
  shows "\<exists>f s. logger_toy observer link p fs = Inr (Transformed f Logged p, s) \<and> logged_layer f n
    \<and> toy_inv (number_target_triggers observer) P log_file (written @ toy_header suite (fields p))
        (precision_x observer) (precision_f observer) [] s"
proof -
  obtain f where f: "coco_problem_transformed_allocate p Logged (observer_name observer) = Inr (Transformed f Logged p)"
    "copy_of f p n (L + (length (observer_name observer) + 2)) best fo"
    using transformed_allocate_ok [OF assms(1), of "observer_name observer" _ Logged] assms(3) by fastforce
  obtain pname where pname: "problem_name (fields p) = Some pname"
    using assms(1) by (auto simp: new_problem_def objective_problem_def well_formed_def)
  have layer: "logged_layer (f\<lparr>evaluate_function := Some Evaluate_own\<rparr>) n"
    using f(2) by (simp add: logged_layer_def copy_of_def well_formed_def shape_def fresh_def)
  show ?thesis
    using layer
    by (simp add: logger_toy_def assms f(1) linked_suite_def coco_problem_get_id_def coco_problem_get_name_def pname
        fprintf_open own_function_def toy_inv_def targets_after_new toy_header_def)
qed

text \<open>
  The toy logger around a bbob problem: a run returns the values that the run of the problem without logger
  returns, and appends to the log file, after the header, one line for every evaluation whose value hits a
  target that no value before has hit.
\<close>

theorem toy_log_of_run:
  assumes "1 \<le> f" "f \<le> 24" "f \<noteq> 20" "2 \<le> d" "d \<le> 44" "i \<le> 200000" "rotations_available f d i"
    and "observer_data observer = Some (Toy_data (Some log_file))" "observer_target_precision observer = Real P"
    and "length (observer_name observer) \<le> 300" "link_suite_name link = Some suite" "files fs log_file = Some written"
  shows "\<exists>p F. bbob_problem f d i = Inr p
    \<and> (\<forall>x. length x = d \<longrightarrow> (\<exists>p'. coco_evaluate_function p (map Real x) = Inr ([Real (F x)], p')))
    \<and> (\<forall>xs. length xs < 2 ^ 64 \<and> (\<forall>x \<in> set xs. length x = d \<and> trigger_bounds (number_target_triggers observer) P (F x))
        \<longrightarrow> (\<exists>q s q' s' p'. logger_toy observer link p fs = Inr (q, s)
          \<and> observe_points logger_toy_evaluate q (map (map Real) xs) s = Inr (map (\<lambda>x. [Real (F x)]) xs, q', s')
          \<and> evaluate_points p (map (map Real) xs) = Inr (map (\<lambda>x. [Real (F x)]) xs, p')
          \<and> files (snd s') log_file = Some (written @ toy_header suite (fields p)
              @ run_lines (toy_lines (number_target_triggers observer) P (precision_x observer) (precision_f observer))
                  (map (\<lambda>x. (x, F x)) xs))))"
proof -
  let ?N = "number_target_triggers observer"
  obtain p F best fo where p: "bbob_problem f d i = Inr p" "solved p d 110 F best fo"
    using bbob_problem_solved [OF assms(1-7)] by metis
  obtain pid where pid: "problem_id (fields p) = Some pid" using bbob_problem_id [OF p(1)] by blast
  have new: "new_problem p d 110 F best fo" and o: "objective_problem p d 110 F best fo"
    using p(2) by (simp_all add: solved_def new_problem_def)
  obtain l s where l: "logger_toy observer link p fs = Inr (Transformed l Logged p, s)" "logged_layer l d"
    "toy_inv ?N P log_file (written @ toy_header suite (fields p)) (precision_x observer) (precision_f observer) [] s"
    using logger_toy_new [OF new pid _ assms(8,9,11,12)] assms(10) by auto
  have "\<exists>q s q' s' p'. logger_toy observer link p fs = Inr (q, s)
      \<and> observe_points logger_toy_evaluate q (map (map Real) xs) s = Inr (map (\<lambda>x. [Real (F x)]) xs, q', s')
      \<and> evaluate_points p (map (map Real) xs) = Inr (map (\<lambda>x. [Real (F x)]) xs, p')
      \<and> files (snd s') log_file = Some (written @ toy_header suite (fields p)
          @ run_lines (toy_lines ?N P (precision_x observer) (precision_f observer)) (map (\<lambda>x. (x, F x)) xs))"
    if "length xs < 2 ^ 64" "\<forall>x \<in> set xs. length x = d \<and> trigger_bounds ?N P (F x)" for xs
    using toy.observe_run [OF l(2,3) _ that(2) o] that(1) l(1) by (fastforce simp: toy_inv_def)
  then show ?thesis using p(1) coco_evaluate_function_objective [OF o] by blast
qed

end
