(* ===== verification/Coco_Logger_Biobj.thy ===== *)
theory Coco_Logger_Biobj
  imports Coco_Archive Coco_Biobj_Nodes Coco_Hypervolumes Coco_Logger_Toy
begin

text \<open>
  The bi-objective logger (\<open>logger_biobj.c\<close>): an archive of the non-dominated solutions in an AVL tree, ordered
  by the last objective, a buffer of those that are not yet written, ordered by time, and the
  hypervolume indicator, which every update of the archive adjusts.

  The two trees point to the same items; here each has its own copy. They differ only in the contribution to the
  indicator, which is never read in the buffer. \<open>malloc\<close> is a parameter, the address that the
  allocation of a node of the tree returns. Values that are not finite are outside of the model.
\<close>

section \<open>Data\<close>

record logger_biobj_indicator_t =
  ind_name :: string
  ind_dat_file :: "string option"
  ind_tdat_file :: "string option"
  ind_info_file :: "string option"
  target_hit :: bool
  ind_targets :: coco_observer_targets_t
  evaluation_logged :: bool
  ind_evaluations :: coco_observer_evaluations_t
  best_indicator :: real
  current_indicator :: real
  additional_penalty :: real
  overall_indicator :: real
  previous_indicator :: real

text \<open>The indicators are an array of one element, which is not initialized if they are not computed.\<close>

record logger_biobj_data_t =
  log_nondom_mode :: observer_biobj_log_nondom_e
  adat_file :: "string option"
  biobj_log_vars :: bool
  biobj_precision_x :: int
  biobj_precision_f :: int
  biobj_log_discrete_as_int :: int
  biobj_number_of_evaluations :: nat
  biobj_number_of_variables :: nat
  biobj_number_of_integer_variables :: nat
  biobj_number_of_objectives :: nat
  biobj_suite_dep_instance :: nat
  previous_evaluations :: nat
  archive_tree :: "logger_biobj_avl_item avl_tree"
  buffer_tree :: "logger_biobj_avl_item avl_tree"
  compute_indicators :: bool
  hyp_indicator :: "logger_biobj_indicator_t option"

abbreviation fields where "fields \<equiv> Coco_Problem.fields"

type_synonym biobj_state = "logger_biobj_data_t \<times> file_system"

type_synonym biobj_malloc = "logger_biobj_avl_item avl_tree \<Rightarrow> addr"

fun real_values :: "double list \<Rightarrow> real list result" where
  "real_values [] = Inr []"
| "real_values (Real v # vs) = rbind (real_values vs) (\<lambda>ws. Inr (v # ws))"
| "real_values (_ # vs) = Inl Not_finite"

section \<open>The update of the archive\<close>

definition adjust_indicator ::
    "(logger_biobj_indicator_t \<Rightarrow> logger_biobj_indicator_t) \<Rightarrow> logger_biobj_data_t \<Rightarrow> logger_biobj_data_t result" where
  "adjust_indicator f logger =
     (if compute_indicators logger
      then case hyp_indicator logger of
             None \<Rightarrow> Inl Uninitialized
           | Some indicator \<Rightarrow> Inr (logger\<lparr>hyp_indicator := Some (f indicator)\<rparr>)
      else Inr logger)"

definition add_to_indicator :: "real \<Rightarrow> logger_biobj_indicator_t \<Rightarrow> logger_biobj_indicator_t" where
  "add_to_indicator v indicator = indicator\<lparr>current_indicator := current_indicator indicator + v\<rparr>"

text \<open>A dominated node loses its contribution and leaves both trees.\<close>

definition remove_solution ::
    "logger_biobj_data_t \<Rightarrow> ptr \<Rightarrow> logger_biobj_avl_item avl_node \<Rightarrow> logger_biobj_data_t result" where
  "remove_solution logger node n =
     rbind (adjust_indicator (add_to_indicator (- indicator_contribution (n_item n))) logger) (\<lambda>logger.
     rbind (on_heap (avl_item_delete (buffer_tree logger) (n_item n))) (\<lambda>(buffer, _).
     rbind (on_heap (avl_node_delete (archive_tree logger) node)) (\<lambda>(archive, _).
       Inr (logger\<lparr>buffer_tree := buffer, archive_tree := archive\<rparr>))))"

definition search_archive ::
    "logger_biobj_data_t \<Rightarrow> logger_biobj_avl_item \<Rightarrow> (bool \<times> logger_biobj_data_t \<times> ptr) result" where
  "search_archive logger node_item =
     rbind (on_heap (avl_item_search_right (archive_tree logger) node_item)) (\<lambda>(node, _).
       if node = None then Inr (True, logger, head (archive_tree logger))
       else
         rbind (on_heap (deref (archive_tree logger) node)) (\<lambda>n.
         rbind (mo_get_dominance (item_normalized_y node_item) (item_normalized_y (n_item n))
             (biobj_number_of_objectives logger)) (\<lambda>dominance.
           if dominance > - 1 then
             (if dominance = 1
              then rbind (remove_solution logger node n) (\<lambda>logger. Inr (True, logger, n_next n))
              else Inr (True, logger, n_next n))
           else Inr (False, logger, None))))"

partial_function (option) remove_dominated_solutions ::
    "logger_biobj_avl_item \<Rightarrow> logger_biobj_data_t \<Rightarrow> ptr \<Rightarrow> logger_biobj_data_t result option" where
  "remove_dominated_solutions node_item logger next_node =
    (if next_node = None then Some (Inr logger)
     else do {
       n \<leftarrow> deref (archive_tree logger) next_node;
       (case mo_get_dominance (item_normalized_y node_item) (item_normalized_y (n_item n))
            (biobj_number_of_objectives logger) of
          Inl e \<Rightarrow> Some (Inl e)
        | Inr dominance \<Rightarrow>
            if dominance = 1 then
              (case remove_solution logger next_node n of
                 Inl e \<Rightarrow> Some (Inl e)
               | Inr logger \<Rightarrow> remove_dominated_solutions node_item logger (n_next n))
            else Some (Inr logger)) })"

declare remove_dominated_solutions.simps [code]

definition set_contribution ::
    "ptr \<Rightarrow> real \<Rightarrow> logger_biobj_data_t \<Rightarrow> logger_biobj_data_t result" where
  "set_contribution node h logger =
     (if \<not> h \<ge> 0 then Inl (Assert_failed ''logger_biobj_tree_update'')
      else rbind (on_heap (put node (\<lambda>n. n\<lparr>n_item := (n_item n)\<lparr>indicator_contribution := h\<rparr>\<rparr>) (archive_tree logger)))
        (\<lambda>t. Inr (logger\<lparr>archive_tree := t\<rparr>)))"

text \<open>The new contribution of the next solution, whose neighbour the new one has become.\<close>

definition adjust_next ::
    "logger_biobj_avl_item \<Rightarrow> ptr \<Rightarrow> logger_biobj_data_t \<Rightarrow> logger_biobj_data_t result" where
  "adjust_next node_item next_node logger =
     (if next_node = None then Inr logger
      else
        rbind (on_heap (deref (archive_tree logger) next_node)) (\<lambda>n.
          let next_item = n_item n
          in if within_ROI next_item
             then
               let h = (item_normalized_y node_item ! 0 - item_normalized_y next_item ! 0)
                   * (1 - item_normalized_y next_item ! 1)
               in rbind (adjust_indicator (add_to_indicator (- indicator_contribution next_item)) logger) (\<lambda>logger.
                  rbind (set_contribution next_node h logger) (adjust_indicator (add_to_indicator h)))
             else Inr logger))"

text \<open>The contribution of the new solution, from the previous one or the reference point.\<close>

definition new_contribution ::
    "logger_biobj_avl_item \<Rightarrow> ptr \<Rightarrow> logger_biobj_data_t \<Rightarrow> real result" where
  "new_contribution node_item previous logger =
     rbind (if previous = None then Inr None
            else rbind (on_heap (deref (archive_tree logger) previous)) (\<lambda>n.
              Inr (if within_ROI (n_item n) then Some (n_item n) else None))) (\<lambda>neighbour.
       Inr ((case neighbour of
               Some previous_item \<Rightarrow> item_normalized_y previous_item ! 0 - item_normalized_y node_item ! 0
             | None \<Rightarrow> 1 - item_normalized_y node_item ! 0) * (1 - item_normalized_y node_item ! 1)))"

definition adjust_contributions ::
    "logger_biobj_avl_item \<Rightarrow> ptr \<Rightarrow> logger_biobj_data_t \<Rightarrow> logger_biobj_data_t result" where
  "adjust_contributions node_item new_node logger =
     (if compute_indicators logger \<and> within_ROI node_item
      then
        rbind (on_heap (deref (archive_tree logger) new_node)) (\<lambda>n.
        rbind (adjust_next node_item (n_next n) logger) (\<lambda>logger.
        rbind (new_contribution node_item (n_prev n) logger) (\<lambda>h.
        rbind (set_contribution new_node h logger) (adjust_indicator (add_to_indicator h)))))
      else Inr logger)"

definition logger_biobj_tree_update ::
    "biobj_malloc \<Rightarrow> logger_biobj_data_t \<Rightarrow> logger_biobj_avl_item \<Rightarrow> (bool \<times> logger_biobj_data_t) result" where
  "logger_biobj_tree_update malloc logger node_item =
     rbind (search_archive logger node_item) (\<lambda>(trigger_update, logger, next_node).
       if \<not> trigger_update then Inr (False, logger)
       else
         rbind (rbind (on_heap (remove_dominated_solutions node_item logger next_node)) id) (\<lambda>logger.
         rbind (on_heap (avl_item_insert (archive_tree logger) (Some (malloc (archive_tree logger))) node_item))
           (\<lambda>(archive, new_node).
             if new_node = None then Inl (Assert_failed ''logger_biobj_tree_update'')
             else
               rbind (on_heap (avl_item_insert (buffer_tree logger) (Some (malloc (buffer_tree logger))) node_item))
                 (\<lambda>(buffer, _).
               rbind (adjust_contributions node_item new_node (logger\<lparr>archive_tree := archive, buffer_tree := buffer\<rparr>))
                 (\<lambda>logger. Inr (True, logger))))))"

section \<open>Output\<close>

fun biobj_variables :: "int \<Rightarrow> int \<Rightarrow> nat \<Rightarrow> real list \<Rightarrow> chunk list result" where
  "biobj_variables discrete px n_int [] = Inr []"
| "biobj_variables discrete px n_int (v # vs) =
     rbind (if n_int > 0 \<and> discrete \<noteq> 0
            then rbind (coco_double_to_int v) (\<lambda>k. Inr [Text (show_int k @ tabulator)])
            else Inr [Number (e_format px) (Real v), Text tabulator]) (\<lambda>c.
     rbind (biobj_variables discrete px (n_int - 1) vs) (\<lambda>cs. Inr (c @ cs)))"

definition solution_line ::
    "nat \<Rightarrow> nat \<Rightarrow> nat \<Rightarrow> bool \<Rightarrow> int \<Rightarrow> int \<Rightarrow> int \<Rightarrow> logger_biobj_avl_item \<Rightarrow> chunk list result" where
  "solution_line n n_int num_obj with_vars px pf discrete item =
     (if length (item_y item) < num_obj \<or> with_vars \<and> length (item_x item) < n then Inl Out_of_bounds
      else
        rbind (if with_vars then biobj_variables discrete px n_int (take n (item_x item)) else Inr []) (\<lambda>variables.
          Inr ([Text (show_nat (evaluation_number item) @ tabulator)]
            @ concat (map (\<lambda>v. [Number (e_format pf) (Real v), Text tabulator]) (take num_obj (item_y item)))
            @ variables @ [Text newline])))"

partial_function (option) tree_output_loop ::
    "(logger_biobj_avl_item \<Rightarrow> chunk list result) \<Rightarrow> string option \<Rightarrow> logger_biobj_avl_item avl_tree \<Rightarrow> ptr \<Rightarrow> nat
      \<Rightarrow> file_system \<Rightarrow> (nat \<times> file_system) result option" where
  "tree_output_loop line file t solution number_of_nodes fs =
    (if solution = None then Some (Inr (number_of_nodes, fs))
     else do {
       n \<leftarrow> deref t solution;
       (case rbind (line (n_item n)) (\<lambda>chunks. fprintf file chunks fs) of
          Inl e \<Rightarrow> Some (Inl e)
        | Inr fs \<Rightarrow> tree_output_loop line file t (n_next n) (Suc number_of_nodes) fs) })"

declare tree_output_loop.simps [code]

definition logger_biobj_tree_output ::
    "string option \<Rightarrow> logger_biobj_avl_item avl_tree \<Rightarrow> logger_biobj_data_t \<Rightarrow> file_system \<Rightarrow> (nat \<times> file_system) result" where
  "logger_biobj_tree_output file t logger fs =
     (if tail t = None then Inr (0, fs)
      else rbind (on_heap (tree_output_loop
          (solution_line (biobj_number_of_variables logger) (biobj_number_of_integer_variables logger)
            (biobj_number_of_objectives logger) (biobj_log_vars logger) (biobj_precision_x logger)
            (biobj_precision_f logger) (biobj_log_discrete_as_int logger))
          file t (head t) 0 fs)) id)"

definition indicator_line :: "int \<Rightarrow> nat \<Rightarrow> real \<Rightarrow> chunk list" where
  "indicator_line pf k v = [Text (show_nat k @ tabulator), Number (e_format pf) (Real v)]"

text \<open>The overall value after an update, and whether it hits a target.\<close>

definition update_overall ::
    "nat \<Rightarrow> logger_biobj_avl_item \<Rightarrow> logger_biobj_indicator_t \<Rightarrow> logger_biobj_indicator_t result" where
  "update_overall num_obj node_item indicator =
     rbind (if coco_double_almost_equal (current_indicator indicator) 0 mo_precision
            then rbind (mo_get_distance_to_ROI (item_normalized_y node_item) num_obj) (\<lambda>new_distance.
              let penalty = coco_double_min (additional_penalty indicator) new_distance
              in if \<not> penalty \<ge> 0 then Inl (Assert_failed ''logger_biobj_output'') else Inr penalty)
            else Inr 0) (\<lambda>penalty.
     let overall = best_indicator indicator - current_indicator indicator + penalty
     in rbind (coco_observer_targets_trigger (ind_targets indicator) (Real overall)) (\<lambda>(hit, targets).
          Inr (indicator\<lparr>additional_penalty := penalty, overall_indicator := overall, target_hit := hit,
            ind_targets := targets\<rparr>)))"

definition log_target :: "int \<Rightarrow> nat \<Rightarrow> logger_biobj_indicator_t \<Rightarrow> file_system \<Rightarrow> file_system result" where
  "log_target pf k indicator fs =
     fprintf (ind_dat_file indicator) (indicator_line pf k (overall_indicator indicator)
       @ [Text tabulator, Number (e_format pf) (target_value (ind_targets indicator)), Text newline]) fs"

text \<open>A line in the .tdat file if the number of evaluations is one of the trigger's.\<close>

definition log_evaluation ::
    "int \<Rightarrow> nat \<Rightarrow> real \<Rightarrow> logger_biobj_indicator_t \<times> file_system \<Rightarrow> (logger_biobj_indicator_t \<times> file_system) result" where
  "log_evaluation pf k v s =
     (case s of (indicator, fs) \<Rightarrow>
        rbind (coco_observer_evaluations_trigger (ind_evaluations indicator) k) (\<lambda>(hit, evals).
          let indicator = indicator\<lparr>evaluation_logged := hit, ind_evaluations := evals\<rparr>
          in rbind (if hit then fprintf (ind_tdat_file indicator) (indicator_line pf k v @ [Text newline]) fs
                    else Inr fs) (\<lambda>fs. Inr (indicator, fs))))"

fun log_skipped ::
    "int \<Rightarrow> nat list \<Rightarrow> logger_biobj_indicator_t \<times> file_system \<Rightarrow> (logger_biobj_indicator_t \<times> file_system) result" where
  "log_skipped pf [] s = Inr s"
| "log_skipped pf (j # js) s = rbind (log_evaluation pf j (previous_indicator (fst s)) s) (log_skipped pf js)"

definition logger_biobj_output ::
    "logger_biobj_data_t \<Rightarrow> bool \<Rightarrow> logger_biobj_avl_item \<Rightarrow> file_system \<Rightarrow> biobj_state result" where
  "logger_biobj_output logger update_performed node_item fs =
     (if \<not> compute_indicators logger then Inr (logger, fs)
      else case hyp_indicator logger of
        None \<Rightarrow> Inl Uninitialized
      | Some indicator \<Rightarrow>
          let indicator = indicator\<lparr>target_hit := False, previous_indicator := overall_indicator indicator\<rparr>;
              pf = biobj_precision_f logger;
              k = biobj_number_of_evaluations logger
          in rbind (if update_performed then update_overall (biobj_number_of_objectives logger) node_item indicator
                    else Inr indicator) (\<lambda>indicator.
             rbind (if target_hit indicator then log_target pf k indicator fs else Inr fs) (\<lambda>fs.
             rbind (if log_nondom_mode logger = LOG_NONDOM_READ
                    then log_skipped pf [previous_evaluations logger + 1..<k] (indicator, fs)
                    else Inr (indicator, fs)) (\<lambda>(indicator, fs).
             rbind (log_evaluation pf k (overall_indicator indicator) (indicator, fs)) (\<lambda>(indicator, fs).
               Inr (logger\<lparr>hyp_indicator := Some indicator\<rparr>, fs))))))"

section \<open>Evaluation\<close>

definition solution_item ::
    "coco_problem_s \<Rightarrow> logger_biobj_data_t \<Rightarrow> double list \<Rightarrow> double list \<Rightarrow> logger_biobj_avl_item result" where
  "solution_item p logger x y =
     rbind (real_values x) (\<lambda>x.
     rbind (real_values y) (\<lambda>y.
     rbind (real_values (best_value p)) (\<lambda>ideal_point.
     rbind (case nadir_value p of None \<Rightarrow> Inl Null_deref | Some v \<Rightarrow> real_values v) (\<lambda>nadir_point.
       logger_biobj_node_create ideal_point nadir_point x y (biobj_number_of_evaluations logger)
         (biobj_number_of_variables logger) (biobj_number_of_objectives logger)))))"

definition flush_buffer :: "logger_biobj_data_t \<Rightarrow> file_system \<Rightarrow> biobj_state result" where
  "flush_buffer logger fs =
     rbind (logger_biobj_tree_output (adat_file logger) (buffer_tree logger) logger fs) (\<lambda>(_, fs).
     rbind (on_heap (avl_tree_purge (buffer_tree logger))) (\<lambda>buffer. Inr (logger\<lparr>buffer_tree := buffer\<rparr>, fs)))"

definition logger_biobj_evaluate :: "biobj_malloc \<Rightarrow> biobj_state evaluator" where
  "logger_biobj_evaluate malloc problem x s =
     (case (problem, s) of
        (Transformed p t inner, (logger, fs)) \<Rightarrow>
          rbind (coco_evaluate_function inner x) (\<lambda>(y, inner).
          let logger = logger\<lparr>biobj_number_of_evaluations := size_t (biobj_number_of_evaluations logger + 1)\<rparr>
          in rbind (solution_item (fields inner) logger x y) (\<lambda>node_item.
             rbind (logger_biobj_tree_update malloc logger node_item) (\<lambda>(update_performed, logger).
             rbind (if update_performed \<and> log_nondom_mode logger = LOG_NONDOM_ALL then flush_buffer logger fs
                    else Inr (logger, fs)) (\<lambda>(logger, fs).
             rbind (logger_biobj_output logger update_performed node_item fs) (\<lambda>s.
               Inr (y, Transformed p t inner, s))))))
      | _ \<Rightarrow> Inl Null_deref)"

text \<open>Solutions from a file: the archive is updated without an evaluation.\<close>

definition coco_logger_biobj_feed_solution ::
    "biobj_malloc \<Rightarrow> coco_problem_t \<Rightarrow> nat \<Rightarrow> double list \<Rightarrow> biobj_state \<Rightarrow> (bool \<times> biobj_state) result" where
  "coco_logger_biobj_feed_solution malloc problem evaluation y s =
     (case (problem, s) of
        (Transformed p t inner, (logger, fs)) \<Rightarrow>
          if log_nondom_mode logger \<noteq> LOG_NONDOM_READ then Inl (Assert_failed ''coco_logger_biobj_feed_solution'')
          else if biobj_number_of_evaluations logger \<ge> evaluation then Inl (Coco_error ''coco_logger_biobj_reconstruct'')
          else
            let logger = logger\<lparr>previous_evaluations := biobj_number_of_evaluations logger,
                  biobj_number_of_evaluations := evaluation\<rparr>
            in rbind (coco_allocate_vector (number_of_variables p)) (\<lambda>_.
               rbind (solution_item (fields inner) logger (replicate (number_of_variables p) (Real 0)) y) (\<lambda>node_item.
               rbind (logger_biobj_tree_update malloc logger node_item) (\<lambda>(update_performed, logger).
               rbind (logger_biobj_output logger update_performed node_item fs) (\<lambda>s. Inr (update_performed, s)))))
      | _ \<Rightarrow> Inl Null_deref)"

section \<open>The end of a run\<close>

text \<open>The archive in the order of time.\<close>

partial_function (option) resort_loop ::
    "biobj_malloc \<Rightarrow> logger_biobj_avl_item avl_tree \<Rightarrow> ptr \<Rightarrow> logger_biobj_avl_item avl_tree
      \<Rightarrow> logger_biobj_avl_item avl_tree option" where
  "resort_loop malloc t solution resorted =
    (if solution = None then Some resorted
     else do {
       n \<leftarrow> deref t solution;
       r \<leftarrow> avl_item_insert resorted (Some (malloc resorted)) (n_item n);
       resort_loop malloc t (n_next n) (fst r) })"

declare resort_loop.simps [code]

definition logger_biobj_finalize :: "biobj_malloc \<Rightarrow> logger_biobj_data_t \<Rightarrow> file_system \<Rightarrow> file_system result" where
  "logger_biobj_finalize malloc logger fs =
     (let t = archive_tree logger; empty = avl_tree_init avl_tree_compare_by_eval_number False
      in rbind (if tail t = None then Inr empty else on_heap (resort_loop malloc t (head t) empty)) (\<lambda>resorted.
         rbind (logger_biobj_tree_output (adat_file logger) resorted logger fs) (\<lambda>(_, fs).
         rbind (on_heap (avl_tree_purge resorted)) (\<lambda>_. Inr fs))))"

definition logger_biobj_indicator_finalize ::
    "logger_biobj_indicator_t \<Rightarrow> logger_biobj_data_t \<Rightarrow> file_system \<Rightarrow> file_system result" where
  "logger_biobj_indicator_finalize indicator logger fs =
     (let pf = biobj_precision_f logger; k = biobj_number_of_evaluations logger; v = overall_indicator indicator
      in rbind (if target_hit indicator then Inr fs else log_target pf k indicator fs) (\<lambda>fs.
         rbind (if evaluation_logged indicator then Inr fs
                else fprintf (ind_tdat_file indicator) (indicator_line pf k v @ [Text newline]) fs) (\<lambda>fs.
         fprintf (ind_info_file indicator)
           [Text ('', '' @ show_nat (biobj_suite_dep_instance logger) @ '':'' @ show_nat k @ ''|''),
            Number ''%.1e'' (Real v)] fs)))"

definition logger_biobj_indicator_free :: "logger_biobj_indicator_t \<Rightarrow> logger_biobj_indicator_t" where
  "logger_biobj_indicator_free indicator =
     indicator\<lparr>ind_dat_file := None, ind_tdat_file := None, ind_info_file := None\<rparr>"

definition logger_biobj_free :: "biobj_malloc \<Rightarrow> biobj_state \<Rightarrow> biobj_state result" where
  "logger_biobj_free malloc s =
     (case s of (logger, fs) \<Rightarrow>
        rbind (if log_nondom_mode logger = LOG_NONDOM_FINAL then logger_biobj_finalize malloc logger fs else Inr fs) (\<lambda>fs.
        rbind (if compute_indicators logger
               then case hyp_indicator logger of
                      None \<Rightarrow> Inl Uninitialized
                    | Some indicator \<Rightarrow>
                        rbind (logger_biobj_indicator_finalize indicator logger fs) (\<lambda>fs.
                          Inr (logger\<lparr>hyp_indicator := Some (logger_biobj_indicator_free indicator)\<rparr>, fs))
               else Inr (logger, fs)) (\<lambda>(logger, fs).
        rbind (if log_nondom_mode logger \<in> {LOG_NONDOM_ALL, LOG_NONDOM_FINAL} \<and> adat_file logger \<noteq> None
               then fprintf (adat_file logger)
                 [Text (''% evaluations = '' @ show_nat (biobj_number_of_evaluations logger) @ newline)] fs
               else Inr fs) (\<lambda>fs.
        rbind (on_heap (avl_tree_purge (archive_tree logger))) (\<lambda>archive.
        rbind (on_heap (avl_tree_purge (buffer_tree logger))) (\<lambda>buffer.
          Inr (logger\<lparr>adat_file := None, archive_tree := archive, buffer_tree := buffer\<rparr>, fs)))))))"


section \<open>Constructors\<close>

text \<open>A file in the folder for the problems of the type; the folder is created if it does not exist.\<close>

definition open_in_folder :: "string \<Rightarrow> string \<Rightarrow> string \<Rightarrow> file_system \<Rightarrow> (string \<times> file_system) result" where
  "open_in_folder folder ptype file_name fs =
     rbind (coco_join_path folder COCO_PATH_MAX [ptype]) (\<lambda>path_name.
     rbind (coco_create_directory path_name fs) (\<lambda>(_, fs).
     rbind (coco_join_path path_name COCO_PATH_MAX [file_name]) (\<lambda>path_name.
       open_append ''logger_biobj_indicator'' path_name fs)))"

text \<open>The conversion \<open>%2lu\<close>.\<close>

definition show_2lu :: "nat \<Rightarrow> string" where
  "show_2lu n = replicate (2 - length (show_nat n)) (CHR '' '') @ show_nat n"

definition info_header ::
    "logger_biobj_data_t \<Rightarrow> coco_observer_t \<Rightarrow> observer_biobj_data_t \<Rightarrow> suite_link \<Rightarrow> string \<Rightarrow> nat \<Rightarrow> string \<Rightarrow> string \<Rightarrow> bool
      \<Rightarrow> string \<Rightarrow> chunk list" where
  "info_header logger observer data problem_link suite n ptype indicator info_file_exists file_name =
     (if info_file_exists then []
      else [Text (''suite = '' @ quoted suite @ '', algorithm = '' @ quoted (algorithm_name observer) @ '', indicator = ''
          @ quoted indicator @ '', folder = '' @ quoted ptype @ '', coco_version = '' @ quoted coco_version @ newline
          @ ''% '' @ algorithm_info observer)]
        @ (if log_nondom_mode logger = LOG_NONDOM_READ then [Text '' (reconstructed)''] else []))
     @ (if biobj_previous_function data \<noteq> to_long (link_dep_function problem_link) \<or> biobj_previous_dimension data \<noteq> to_long n
        then [Text (newline @ ''function = '' @ show_2lu (link_dep_function problem_link) @ '', ''),
          Text (''dim = '' @ show_2lu n @ '', ''), Text file_name]
        else [])"

definition data_header :: "suite_link \<Rightarrow> string \<Rightarrow> int \<Rightarrow> real \<Rightarrow> string \<Rightarrow> chunk list" where
  "data_header problem_link pname pf v columns =
     [Text (''%'' @ newline @ ''% index = '' @ show_nat (link_dep_index problem_link) @ '', name = '' @ pname @ newline),
      Text (''% instance = '' @ show_nat (link_dep_instance problem_link) @ '', reference value = ''),
      Number (e_format pf) (Real v), Text newline, Text (columns @ newline)]"

definition logger_biobj_indicator ::
    "logger_biobj_data_t \<Rightarrow> coco_observer_t \<Rightarrow> observer_biobj_data_t \<Rightarrow> suite_link \<Rightarrow> coco_problem_s \<Rightarrow> string \<Rightarrow> file_system
      \<Rightarrow> (logger_biobj_indicator_t \<times> file_system) result" where
  "logger_biobj_indicator logger observer data problem_link p indicator fs =
     rbind (linked_suite ''logger_biobj_indicator'' problem_link) (\<lambda>suite.
     rbind (coco_problem_get_id p) (\<lambda>pid.
     rbind (coco_suite_get_best_indicator_value suite pid indicator) (\<lambda>best.
     rbind (coco_observer_evaluations (base_evaluation_triggers observer) (number_of_variables p)) (\<lambda>evals.
     case (problem_type p, problem_name p) of
       (Some ptype, Some pname) \<Rightarrow>
         let folder = result_folder observer
         in rbind (coco_create_directory folder fs) (\<lambda>(_, fs).
            rbind (coco_join_path folder COCO_PATH_MAX [ptype @ ''_'' @ indicator @ ''.info'']) (\<lambda>info_path.
            let info_file_exists = coco_file_exists fs info_path
            in rbind (open_append ''logger_biobj_indicator'' info_path fs) (\<lambda>(info, fs).
               rbind (coco_remove_from_string pid ''_i'' ''_d'') (\<lambda>prefix.
               let file_name = prefix @ ''_'' @ indicator
               in rbind (open_in_folder folder ptype (file_name @ ''.tdat'') fs) (\<lambda>(tdat, fs).
                  rbind (open_in_folder folder ptype (file_name @ ''.dat'') fs) (\<lambda>(dat, fs).
                  rbind (fprintf (Some info) (info_header logger observer data problem_link suite (number_of_variables p) ptype
                    indicator info_file_exists (file_name @ ''.dat'')) fs) (\<lambda>fs.
                  rbind (fprintf (Some dat) (data_header problem_link pname (biobj_precision_f logger) best
                    ''% function evaluation | indicator value | target hit'') fs) (\<lambda>fs.
                  rbind (fprintf (Some tdat) (data_header problem_link pname (biobj_precision_f logger) best
                    ''% function evaluation | indicator value'') fs) (\<lambda>fs.
                    Inr (\<lparr> ind_name = indicator, ind_dat_file = Some dat, ind_tdat_file = Some tdat,
                      ind_info_file = Some info, target_hit = False,
                      ind_targets = coco_observer_targets (number_target_triggers observer)
                        (observer_target_precision observer),
                      evaluation_logged = False, ind_evaluations = evals, best_indicator = best, current_indicator = 0,
                      additional_penalty = DBL_MAX, overall_indicator = 0, previous_indicator = 0 \<rparr>, fs))))))))))
     | _ \<Rightarrow> Inl Null_deref))))"

text \<open>The file for the archive of the solutions, with the line that says what is in it.\<close>

definition open_adat_file ::
    "logger_biobj_data_t \<Rightarrow> coco_observer_t \<Rightarrow> coco_problem_s \<Rightarrow> file_system \<Rightarrow> (string option \<times> file_system) result" where
  "open_adat_file logger observer p fs =
     (if log_nondom_mode logger \<notin> {LOG_NONDOM_ALL, LOG_NONDOM_FINAL} then Inr (None, fs)
      else
        rbind (coco_join_path (result_folder observer) COCO_PATH_MAX [''archive'']) (\<lambda>path_name.
        rbind (coco_create_directory path_name fs) (\<lambda>(_, fs).
        rbind (coco_problem_get_id p) (\<lambda>pid.
        rbind (coco_join_path path_name COCO_PATH_MAX
          [pid @ (if log_nondom_mode logger = LOG_NONDOM_ALL then ''_nondom_all.adat'' else ''_nondom_final.adat'')]) (\<lambda>path_name.
        rbind (open_append ''logger_biobj'' path_name fs) (\<lambda>(adat, fs).
        rbind (coco_problem_get_name p) (\<lambda>pname.
        rbind (fprintf (Some adat)
            [Text (''% instance = '' @ show_nat (biobj_suite_dep_instance logger) @ '', name = '' @ pname @ newline),
             Text (''% function evaluation | '' @ show_nat (number_of_objectives p) @ '' objectives ''
               @ (if biobj_log_vars logger then ''| '' @ show_nat (number_of_variables p) @ '' variables'' else [])
               @ newline)] fs) (\<lambda>fs.
          Inr (Some adat, fs)))))))))"

definition new_logger_biobj ::
    "coco_observer_t \<Rightarrow> observer_biobj_data_t \<Rightarrow> suite_link \<Rightarrow> coco_problem_s \<Rightarrow> logger_biobj_data_t" where
  "new_logger_biobj observer data problem_link p =
     \<lparr> log_nondom_mode = biobj_log_nondom_mode data, adat_file = None,
       biobj_log_vars = (\<not> (biobj_log_vars_mode data = LOG_VARS_LOW_DIM \<and> number_of_variables p > 5
         \<or> biobj_log_vars_mode data = LOG_VARS_NEVER)),
       biobj_precision_x = precision_x observer, biobj_precision_f = precision_f observer,
       biobj_log_discrete_as_int = observer_log_discrete_as_int observer, biobj_number_of_evaluations = 0,
       biobj_number_of_variables = number_of_variables p,
       biobj_number_of_integer_variables = number_of_integer_variables p,
       biobj_number_of_objectives = number_of_objectives p, biobj_suite_dep_instance = link_dep_instance problem_link,
       previous_evaluations = 0,
       archive_tree = avl_tree_init avl_tree_compare_by_last_objective True,
       buffer_tree = avl_tree_init avl_tree_compare_by_eval_number False,
       compute_indicators = (biobj_compute_indicators data \<noteq> 0), hyp_indicator = None \<rparr>"

text \<open>The observer remembers the function and the dimension of the problem.\<close>

definition remember_problem ::
    "suite_link \<Rightarrow> coco_problem_s \<Rightarrow> observer_biobj_data_t \<Rightarrow> coco_observer_t \<Rightarrow> coco_observer_t" where
  "remember_problem problem_link p data observer =
     observer\<lparr>observer_data := Some (Biobj_data (data\<lparr>biobj_previous_function := to_long (link_dep_function problem_link),
       biobj_previous_dimension := to_long (number_of_variables p)\<rparr>))\<rparr>"

definition logger_biobj ::
    "coco_observer_t \<Rightarrow> suite_link \<Rightarrow> coco_problem_t \<Rightarrow> file_system
      \<Rightarrow> (coco_problem_t \<times> biobj_state \<times> coco_observer_t) result" where
  "logger_biobj observer problem_link inner_problem fs =
     (let p = fields inner_problem
      in if number_of_objectives p \<noteq> 2 then Inl (Coco_error ''logger_biobj'')
         else case observer_data observer of
           Some (Biobj_data data) \<Rightarrow>
             let logger = new_logger_biobj observer data problem_link p
             in rbind (open_adat_file logger observer p fs) (\<lambda>(adat, fs).
                let logger = logger\<lparr>adat_file := adat\<rparr>
                in rbind (if compute_indicators logger
                     then rbind (logger_biobj_indicator logger observer data problem_link p ''hyp'' fs) (\<lambda>(indicator, fs).
                       Inr (logger\<lparr>hyp_indicator := Some indicator\<rparr>, fs, remember_problem problem_link p data observer))
                     else Inr (logger, fs, observer)) (\<lambda>(logger, fs, observer).
                   rbind (coco_problem_transformed_allocate inner_problem Logged (observer_name observer)) (\<lambda>problem.
                     Inr (own_function problem, (logger, fs), observer))))
         | _ \<Rightarrow> Inl Null_deref)"

section \<open>Transparency\<close>

lemma logger_biobj_transparent:
  assumes "logger_biobj_evaluate malloc (Transformed f Logged inner) x s = Inr (y, q, s')"
  shows "\<exists>inner'. coco_evaluate_function inner x = Inr (y, inner') \<and> q = Transformed f Logged inner'"
  using assms by (cases s) (auto simp: logger_biobj_evaluate_def rbind_eq_Inr Let_def split: prod.splits)

interpretation biobj_log: logger_contract "logger_biobj_evaluate malloc"
  by unfold_locales (rule logger_biobj_transparent)

end
