(* ===== verification/Coco_Biobj_Solutions.thy ===== *)
theory Coco_Biobj_Solutions
  imports Coco_Logger_Biobj Coco_Archive_Values
begin

text \<open>
  The solutions of the bi-objective logger as lists: they form the same fronts as the items of
  \<open>coco_archive\<close>, and the contributions of the solutions to the indicator add up to the hypervolume, the number of
  grid cells that are dominated.
\<close>

section \<open>Solutions and fronts\<close>

definition front_item :: "logger_biobj_avl_item \<Rightarrow> archive_item" where
  "front_item x = \<lparr> normalized_y = item_normalized_y x, item_text = [] \<rparr>"

definition solution_ok :: "logger_biobj_avl_item \<Rightarrow> bool" where
  "solution_ok x \<longleftrightarrow> normalized (front_item x)
     \<and> (within_ROI x \<longleftrightarrow> cell 0 (front_item x) \<le> roi \<and> cell 1 (front_item x) \<le> roi)"

abbreviation (input) u0 :: "logger_biobj_avl_item \<Rightarrow> real" where
  "u0 x \<equiv> y0 (front_item x)"

abbreviation (input) u1 :: "logger_biobj_avl_item \<Rightarrow> real" where
  "u1 x \<equiv> y1 (front_item x)"

lemma normalized_front_item [simp]: "normalized_y (front_item x) = item_normalized_y x"
  by (simp add: front_item_def)

lemma front_item_contribution [simp]: "front_item (x\<lparr>indicator_contribution := h\<rparr>) = front_item x"
  by (simp add: front_item_def)

lemma solution_ok_contribution [simp]: "solution_ok (x\<lparr>indicator_contribution := h\<rparr>) = solution_ok x"
  by (simp add: solution_ok_def)

lemma compare_front_items:
  "avl_tree_compare_by_last_objective x z = coco_archive_compare_by_last_objective (front_item x) (front_item z)"
  by (simp add: avl_tree_compare_by_last_objective_def coco_archive_compare_by_last_objective_def)

lemma ascending_front_items:
  "ascending avl_tree_compare_by_last_objective xs
    \<longleftrightarrow> ascending coco_archive_compare_by_last_objective (map front_item xs)"
  by (simp add: ascending_def sorted_wrt_map compare_front_items)

interpretation by_front: comparator avl_tree_compare_by_last_objective solution_ok
  by unfold_locales (auto simp: compare_front_items solution_ok_def compare_signs)

lemma node_create_ok:
  assumes "length ideal_point = 2" "length nadir_point = 2" "\<forall>i < 2. nadir_point ! i - ideal_point ! i > mo_discretization"
    and "n \<le> length x" "length y = 2"
  shows "\<exists>item. logger_biobj_node_create ideal_point nadir_point x y k n 2 = Inr item \<and> solution_ok item
    \<and> mo_normalize y ideal_point nadir_point 2 = Inr (item_normalized_y item) \<and> evaluation_number item = k
    \<and> indicator_contribution item = 0"
proof -
  obtain a b where g: "mo_normalize y ideal_point nadir_point 2 = Inr (grid [a, b])"
    "a = 0 \<longrightarrow> roi \<le> b" "b = 0 \<longrightarrow> roi \<le> a"
    using mo_normalize_grid [OF assms(5,1,2,3)] by blast
  define item where "item = \<lparr> item_x = take n x, item_y = y, item_normalized_y = grid [a, b],
    evaluation_number = k, indicator_contribution = 0, within_ROI = (a \<le> roi \<and> b \<le> roi) \<rparr>"
  have "logger_biobj_node_create ideal_point nadir_point x y k n 2 = Inr item"
    using assms(4,5) g(1) by (simp add: logger_biobj_node_create_def copy_loop_all within_ROI_grid item_def)
  moreover have "normalized (front_item item)" using g(2,3) by (auto simp: normalized_def item_def)
  moreover have "cell 0 (front_item item) = a" "cell 1 (front_item item) = b"
    by (simp_all add: cell_def item_def grid2)
  ultimately show ?thesis using g(1) by (intro exI [of _ item]) (simp add: solution_ok_def item_def)
qed

section \<open>Contributions\<close>

definition reference_after :: "logger_biobj_avl_item \<Rightarrow> real" where
  "reference_after x = (if within_ROI x then u0 x else 1)"

definition contribution_from :: "real \<Rightarrow> logger_biobj_avl_item \<Rightarrow> real" where
  "contribution_from r x = (if within_ROI x then (r - u0 x) * (1 - u1 x) else 0)"

text \<open>The contributions of a list of solutions, \<open>r\<close> is the end of the first one's strip of cells.\<close>

fun contributed :: "real \<Rightarrow> logger_biobj_avl_item list \<Rightarrow> bool" where
  "contributed r [] \<longleftrightarrow> True"
| "contributed r (x # xs) \<longleftrightarrow> indicator_contribution x = contribution_from r x \<and> contributed (reference_after x) xs"

definition reference_at_end :: "real \<Rightarrow> logger_biobj_avl_item list \<Rightarrow> real" where
  "reference_at_end r xs = (if xs = [] then r else reference_after (last xs))"

definition total_contribution :: "logger_biobj_avl_item list \<Rightarrow> real" where
  "total_contribution xs = sum_list (map indicator_contribution xs)"

lemma total_contribution_simps [simp]:
  "total_contribution [] = 0"
  "total_contribution (x # xs) = indicator_contribution x + total_contribution xs"
  "total_contribution (xs @ ys) = total_contribution xs + total_contribution ys"
  by (simp_all add: total_contribution_def)

lemma reference_at_end_Cons [simp]: "reference_at_end r (x # xs) = reference_at_end (reference_after x) xs"
  by (simp add: reference_at_end_def)

lemma reference_at_end_Nil [simp]: "reference_at_end r [] = r"
  by (simp add: reference_at_end_def)

lemma contributed_append [simp]:
  "contributed r (xs @ ys) \<longleftrightarrow> contributed r xs \<and> contributed (reference_at_end r xs) ys"
  by (induction xs arbitrary: r) auto

section \<open>The contributions are the hypervolume\<close>

lemma solution_y: "solution_ok x \<Longrightarrow> u0 x = real (cell 0 (front_item x)) * mo_discretization"
  "solution_ok x \<Longrightarrow> u1 x = real (cell 1 (front_item x)) * mo_discretization"
  unfolding solution_ok_def using y_cell by blast+

lemma strip_area:
  assumes "solution_ok x" "cell 0 (front_item x) \<le> c" "cell 1 (front_item x) \<le> roi"
  shows "(real c * mo_discretization - u0 x) * (1 - u1 x)
    = real ((c - cell 0 (front_item x)) * (roi - cell 1 (front_item x))) * mo_discretization ^ 2"
proof -
  have "real c * mo_discretization - u0 x = real (c - cell 0 (front_item x)) * mo_discretization"
    using assms(1,2) by (simp add: solution_y of_nat_diff algebra_simps del: normalized_front_item)
  moreover have "1 - u1 x = real (roi - cell 1 (front_item x)) * mo_discretization"
    using assms(1,3) by (simp add: solution_y of_nat_diff algebra_simps mo_discretization_def del: One_nat_def normalized_front_item)
  ultimately show ?thesis by (simp only: power2_eq_square of_nat_mult) (simp only: mult_ac)
qed

lemma outside_no_contribution:
  "\<forall>x \<in> set xs. \<not> within_ROI x \<Longrightarrow> contributed r xs \<Longrightarrow> total_contribution xs = 0"
  by (induction xs arbitrary: r) (auto simp: contribution_from_def)

lemma contributed_cells:
  assumes "contributed (real c * mo_discretization) xs" "\<forall>x \<in> set xs. solution_ok x"
    and "sorted_wrt (\<lambda>x z. cell 1 x < cell 1 z \<and> cell 0 x > cell 0 z) (map front_item xs)"
    and "c = roi \<or> c < roi \<and> (\<forall>x \<in> set xs. cell 0 (front_item x) < c)"
  shows "total_contribution xs = real (card (left_cells c (map front_item xs))) * mo_discretization ^ 2"
  using assms
proof (induction xs arbitrary: c)
  case Nil
  then show ?case by (simp add: left_cells_def)
next
  case (Cons x xs)
  let ?a = "cell 0 (front_item x)" and ?b = "cell 1 (front_item x)"
  have okx: "solution_ok x" and ok: "\<forall>x \<in> set xs. solution_ok x" using Cons.prems(2) by simp_all
  have later: "\<forall>z \<in> set xs. cell 0 (front_item z) < ?a \<and> ?b < cell 1 (front_item z)"
    and sorted: "sorted_wrt (\<lambda>x z. cell 1 x < cell 1 z \<and> cell 0 x > cell 0 z) (map front_item xs)"
    using Cons.prems(3) by auto
  show ?case
  proof (cases "within_ROI x")
    case True
    then have roi: "?a \<le> roi" "?b \<le> roi" using okx by (simp_all add: solution_ok_def)
    have c: "?a \<le> c" using Cons.prems(4) roi(1) by auto
    let ?block = "{?a..<c} \<times> {?b..<roi}"
    have l: "left_cells c (map front_item (x # xs)) = ?block \<union> left_cells ?a (map front_item xs)"
      using later c by (fastforce simp: left_cells_def)
    have "?block \<inter> left_cells ?a (map front_item xs) = {}" by (auto simp: left_cells_def)
    then have card: "card (left_cells c (map front_item (x # xs)))
        = (c - ?a) * (roi - ?b) + card (left_cells ?a (map front_item xs))"
      unfolding l using finite_left_cells by (subst card_Un_disjoint) simp_all
    have "contributed (real ?a * mo_discretization) xs"
      using Cons.prems(1) True okx solution_y(1) [OF okx] by (simp add: reference_after_def)
    then have IH: "total_contribution xs = real (card (left_cells ?a (map front_item xs))) * mo_discretization ^ 2"
      using Cons.prems(4) roi(1) later by (intro Cons.IH ok sorted) auto
    have "indicator_contribution x = real ((c - ?a) * (roi - ?b)) * mo_discretization ^ 2"
      using Cons.prems(1) True strip_area [OF okx c roi(2)] by (simp add: contribution_from_def)
    then show ?thesis unfolding card using IH by (simp add: distrib_right)
  next
    case False
    then have out: "?a > roi \<or> ?b > roi" using okx by (auto simp: solution_ok_def)
    have zero: "indicator_contribution x = 0" and rest: "contributed 1 xs"
      using Cons.prems(1) False by (simp_all add: contribution_from_def reference_after_def)
    have drop: "left_cells c (map front_item (x # xs)) = left_cells c (map front_item xs)"
      using out Cons.prems(4) by (auto simp: left_cells_def)
    show ?thesis
    proof (cases "?b > roi")
      case True
      then have "\<forall>z \<in> set xs. \<not> within_ROI z" using later ok by (fastforce simp: solution_ok_def)
      then have "total_contribution xs = 0" using rest by (rule outside_no_contribution)
      moreover have "left_cells c (map front_item xs) = {}" using True later by (fastforce simp: left_cells_def)
      ultimately show ?thesis using zero by (simp only: drop total_contribution_simps) simp
    next
      case False
      then have "c = roi" using out Cons.prems(4) by auto
      moreover have "total_contribution xs = real (card (left_cells roi (map front_item xs))) * mo_discretization ^ 2"
        using rest one_on_grid by (intro Cons.IH ok sorted) simp_all
      ultimately show ?thesis using zero drop by simp
    qed
  qed
qed

lemma contributed_hypervolume:
  assumes "contributed 1 xs" "\<forall>x \<in> set xs. solution_ok x" "front (map front_item xs)"
  shows "total_contribution xs = real (card (dominated_cells (map front_item xs))) * mo_discretization ^ 2"
proof -
  have "dominated_cells (map front_item xs) = left_cells roi (map front_item xs)"
    by (simp add: dominated_cells_def left_cells_def)
  then show ?thesis
    using contributed_cells [of roi xs] assms front_cells [OF assms(3)] one_on_grid by simp
qed

section \<open>Adding a solution\<close>

lemma dominates_cells:
  assumes "normalized x" "normalized z"
  shows "dominates x z \<longleftrightarrow> cell 0 x \<le> cell 0 z \<and> cell 1 x \<le> cell 1 z \<and> (cell 0 x < cell 0 z \<or> cell 1 x < cell 1 z)"
    "covers x z \<longleftrightarrow> cell 0 x \<le> cell 0 z \<and> cell 1 x \<le> cell 1 z"
  using assms by (auto simp: dominates_def covers_def y_cell grid_le simp del: One_nat_def)

lemma set_front_add:
  assumes "normalized x" "\<forall>z \<in> set xs. normalized z" "\<not> (\<exists>z \<in> set xs. covers z x)"
  shows "set (front_add x xs) = insert x {z \<in> set xs. \<not> dominates x z}"
proof -
  let ?ys = "filter (\<lambda>z. \<not> dominates x z) xs"
  have ne: "coco_archive_compare_by_last_objective x z \<noteq> 0" if "z \<in> set ?ys" for z
  proof
    assume "coco_archive_compare_by_last_objective x z = 0"
    then have "y1 x = y1 z" using that assms compare_signs(3) [of x z] by simp
    moreover have "\<not> covers z x" using that assms(3) by auto
    ultimately have "dominates x z" by (auto simp: covers_def dominates_def)
    with that show False by simp
  qed
  then have no: "\<not> (\<exists>z \<in> set ?ys. coco_archive_compare_by_last_objective x z = 0)" by blast
  have "front_add x xs = filter (\<lambda>z. coco_archive_compare_by_last_objective x z > 0) ?ys @ x
      # filter (\<lambda>z. coco_archive_compare_by_last_objective x z < 0) ?ys"
    using assms(3) no by (simp only: front_add_def ordered_insert_def if_False)
  moreover have "0 < coco_archive_compare_by_last_objective x z \<or> coco_archive_compare_by_last_objective x z < 0"
    if "z \<in> set ?ys" for z
    using ne [OF that] by linarith
  ultimately show ?thesis by auto
qed

lemma dominated_cells_front_add:
  assumes "normalized x" "\<forall>z \<in> set xs. normalized z"
  shows "dominated_cells (front_add x xs) = dominated_cells (x # xs)"
proof (cases "\<exists>z \<in> set xs. covers z x")
  case True
  then obtain z where z: "z \<in> set xs" "cell 0 z \<le> cell 0 x" "cell 1 z \<le> cell 1 x"
    using assms by (auto simp: dominates_cells simp del: One_nat_def)
  have "front_add x xs = xs" using True by (simp add: front_add_def)
  moreover have "\<exists>v \<in> set xs. cell 0 v \<le> i \<and> cell 1 v \<le> j" if "cell 0 x \<le> i" "cell 1 x \<le> j" for i j
    using z that by (intro bexI [of _ z]) auto
  ultimately show ?thesis by (auto simp: dominated_cells_def)
next
  case False
  have less: "cell 0 x \<le> cell 0 z \<and> cell 1 x \<le> cell 1 z" if "z \<in> set xs" "dominates x z" for z
    using that assms by (simp add: dominates_cells)
  have "(\<exists>v \<in> set (front_add x xs). cell 0 v \<le> i \<and> cell 1 v \<le> j) \<longleftrightarrow> (\<exists>v \<in> set (x # xs). cell 0 v \<le> i \<and> cell 1 v \<le> j)" for i j
    unfolding set_front_add [OF assms False] using less by (auto dest: order_trans)
  then show ?thesis by (simp add: dominated_cells_def)
qed

text \<open>
  The solutions after an update: \<open>ps\<close> and \<open>qs\<close> are those that stay, before and behind the new one; the new one
  gets its contribution, that of the next one is computed again.
\<close>

definition adjusted_solutions ::
    "logger_biobj_avl_item \<Rightarrow> logger_biobj_avl_item list \<Rightarrow> logger_biobj_avl_item list \<Rightarrow> logger_biobj_avl_item list" where
  "adjusted_solutions x ps qs =
     (if within_ROI x
      then ps @ x\<lparr>indicator_contribution := contribution_from (reference_at_end 1 ps) x\<rparr>
        # (case qs of [] \<Rightarrow> []
           | q # r \<Rightarrow> (if within_ROI q then q\<lparr>indicator_contribution := contribution_from (u0 x) q\<rparr> else q) # r)
      else ps @ x # qs)"

lemma front_item_adjusted: "map front_item (adjusted_solutions x ps qs) = map front_item (ps @ x # qs)"
  by (simp add: adjusted_solutions_def split: list.split)

lemma front_neighbours:
  assumes "front (map front_item (ps @ x # qs))"
  shows "p \<in> set ps \<Longrightarrow> u0 p > u0 x \<and> u1 p < u1 x" "q \<in> set qs \<Longrightarrow> u0 x > u0 q \<and> u1 x < u1 q"
  using assms by (auto simp: front_def sorted_wrt_append)

lemma within_ROI_bounds:
  assumes "solution_ok x"
  shows "within_ROI x \<longleftrightarrow> u0 x \<le> 1 \<and> u1 x \<le> 1"
proof -
  have "u0 x \<le> 1 \<longleftrightarrow> cell 0 (front_item x) \<le> roi" "u1 x \<le> 1 \<longleftrightarrow> cell 1 (front_item x) \<le> roi"
    unfolding one_on_grid solution_y [OF assms] by (rule grid_le)+
  with assms show ?thesis by (simp add: solution_ok_def)
qed

lemma contribution_nonnegative:
  assumes "front (map front_item (ps @ x # qs))" "\<forall>z \<in> set (ps @ x # qs). solution_ok z"
  shows "contribution_from (reference_at_end 1 ps) x \<ge> 0" "q \<in> set qs \<Longrightarrow> contribution_from (u0 x) q \<ge> 0"
proof -
  show "contribution_from (reference_at_end 1 ps) x \<ge> 0"
  proof (cases "within_ROI x")
    case True
    then have "u0 x \<le> 1 \<and> u1 x \<le> 1" using assms(2) within_ROI_bounds [of x] by simp
    moreover have "u0 x \<le> reference_at_end 1 ps"
      using front_neighbours(1) [OF assms(1), of "last ps"] calculation
      by (auto simp: reference_at_end_def reference_after_def)
    ultimately show ?thesis by (simp add: contribution_from_def del: normalized_front_item)
  qed (simp add: contribution_from_def)
  show "contribution_from (u0 x) q \<ge> 0" if "q \<in> set qs"
  proof (cases "within_ROI q")
    case True
    have "u0 q \<le> 1 \<and> u1 q \<le> 1" using that True assms(2) within_ROI_bounds [of q] by simp
    with front_neighbours(2) [OF assms(1) that] show ?thesis
      by (simp add: contribution_from_def del: normalized_front_item)
  qed (simp add: contribution_from_def)
qed

lemma adjusted_contributed:
  assumes c: "contributed 1 (ps @ ms @ qs)" and x: "indicator_contribution x = 0"
    and ok: "\<forall>z \<in> set (ps @ ms @ x # qs). solution_ok z"
    and ms: "\<forall>m \<in> set ms. dominates (front_item x) (front_item m)"
    and fr: "front (map front_item (ps @ x # qs))"
  shows "contributed 1 (adjusted_solutions x ps qs)"
proof (cases "within_ROI x")
  case True
  with c show ?thesis
    by (cases qs) (auto simp: adjusted_solutions_def contribution_from_def reference_after_def)
next
  case False
  have "contributed 1 qs"
  proof (cases qs)
    case (Cons q r)
    show ?thesis
    proof (cases "within_ROI q")
      case True
      then have "u1 q \<le> 1" using within_ROI_bounds [of q] ok Cons by simp
      moreover have "u1 x < u1 q" using front_neighbours(2) [OF fr] Cons by simp
      ultimately have big: "u0 x > 1" using False within_ROI_bounds [of x] ok by simp
      have "\<not> within_ROI z" if "z \<in> set (ps @ ms)" for z
      proof -
        have "u0 z \<ge> u0 x" using that ms front_neighbours(1) [OF fr, of z] by (auto simp: dominates_def)
        with big show ?thesis using within_ROI_bounds [of z] ok that by auto
      qed
      then have "reference_at_end 1 (ps @ ms) = 1"
        using last_in_set [of "ps @ ms"] unfolding reference_at_end_def reference_after_def by metis
      with c show ?thesis by (simp add: reference_at_end_def split: if_splits)
    qed (use c Cons in \<open>auto simp: contribution_from_def\<close>)
  qed simp
  with c False x show ?thesis
    by (simp add: adjusted_solutions_def contribution_from_def reference_after_def)
qed

lemma adjusted_total:
  "total_contribution (adjusted_solutions x ps qs) = total_contribution ps + total_contribution qs
    + (if within_ROI x
       then contribution_from (reference_at_end 1 ps) x
         + (case qs of [] \<Rightarrow> 0 | q # r \<Rightarrow> if within_ROI q then contribution_from (u0 x) q - indicator_contribution q else 0)
       else indicator_contribution x)"
  by (simp add: adjusted_solutions_def split: list.split)

end
