(* ===== verification/Coco_Biobj_Archive.thy ===== *)
theory Coco_Biobj_Archive
  imports Coco_Biobj_Solutions
begin

text \<open>
  The update of the bi-objective logger's archive on the trees: it refines the update of a front, keeps the
  buffer among the solutions of the archive, and the indicator is the hypervolume of the archive.
\<close>

section \<open>Items change their contribution\<close>

lemma shape_item: "h a = Some n \<Longrightarrow> Avl_Shape.shape (h(a \<mapsto> n\<lparr>n_item := i\<rparr>)) p t = Avl_Shape.shape h p t"
  by (induction t arbitrary: p) (auto split: if_splits)

lemma linked_item:
  "nodes s a = Some n \<Longrightarrow>
    linked (node_view (s\<lparr>nodes := (nodes s)(a \<mapsto> n\<lparr>n_item := i\<rparr>)\<rparr>)) p zs q = linked (node_view s) p zs q"
  by (induction zs arbitrary: p) (auto simp: node_view_def kept_def)

lemma set_contribution_ok:
  assumes ord: "ordered solution_ok (archive_tree l) t" "cmpitem (archive_tree l) = avl_tree_compare_by_last_objective"
    and c: "c \<in> set_tree t" and h: "h \<ge> 0"
  shows "\<exists>s'. set_contribution (Some c) h l = Inr (l\<lparr>archive_tree := s'\<rparr>) \<and> ordered solution_ok s' t
    \<and> item_of s' = (item_of (archive_tree l))(c := (item_of (archive_tree l) c)\<lparr>indicator_contribution := h\<rparr>)
    \<and> cmpitem s' = cmpitem (archive_tree l) \<and> frees s' = frees (archive_tree l)
    \<and> dom (nodes s') = dom (nodes (archive_tree l))"
proof -
  let ?s = "archive_tree l"
  have inv: "avl_inv ?s t" using ord(1) by (simp add: ordered_def)
  then obtain n where n: "nodes ?s c = Some n" using shape_defined c by (fastforce simp: avl_inv_def)
  define i where "i = (n_item n)\<lparr>indicator_contribution := h\<rparr>"
  define s' where "s' = ?s\<lparr>nodes := (nodes ?s)(c \<mapsto> n\<lparr>n_item := i\<rparr>)\<rparr>"
  have run: "set_contribution (Some c) h l = Inr (l\<lparr>archive_tree := s'\<rparr>)"
    using h n by (simp add: set_contribution_def put_def on_heap_def s'_def i_def)
  have items: "item_of s' = (item_of ?s)(c := (item_of ?s c)\<lparr>indicator_contribution := h\<rparr>)"
    using n by (auto simp: item_of_def s'_def i_def fun_eq_iff)
  have inv': "avl_inv s' t"
    using inv shape_item [of "nodes ?s" c n i] n linked_item [OF n, of i] by (simp add: avl_inv_def s'_def)
  have fronts: "map front_item (contents s' t) = map front_item (contents ?s t)"
    by (simp add: contents_def items)
  have "\<forall>x \<in> set (contents s' t). solution_ok x"
    using ord(1) by (auto simp: ordered_def contents_def items)
  moreover have "ascending (cmpitem s') (contents s' t)"
  proof -
    have "ascending avl_tree_compare_by_last_objective (contents ?s t)" using ord by (simp add: ordered_def)
    then show ?thesis unfolding ascending_front_items fronts [symmetric]
      using ord(2) by (simp add: s'_def ascending_front_items)
  qed
  ultimately have "ordered solution_ok s' t" using inv' by (simp add: ordered_def)
  then show ?thesis using run items n by (intro exI [of _ s']) (auto simp: s'_def)
qed

section \<open>The state between two updates\<close>

text \<open>What an update leaves alone.\<close>

definition settings :: "logger_biobj_data_t \<Rightarrow> logger_biobj_data_t" where
  "settings l = l\<lparr>archive_tree := avl_tree_init avl_tree_compare_by_last_objective True,
     buffer_tree := avl_tree_init avl_tree_compare_by_eval_number False,
     hyp_indicator := map_option (\<lambda>i. i\<lparr>current_indicator := 0\<rparr>) (hyp_indicator l)\<rparr>"

lemma settings_fields:
  assumes "settings l' = settings l"
  shows "compute_indicators l' = compute_indicators l" "biobj_number_of_objectives l' = biobj_number_of_objectives l"
    "biobj_number_of_evaluations l' = biobj_number_of_evaluations l" "biobj_number_of_variables l' = biobj_number_of_variables l"
    "log_nondom_mode l' = log_nondom_mode l" "hyp_indicator l' = None \<longleftrightarrow> hyp_indicator l = None"
proof -
  show "compute_indicators l' = compute_indicators l" using arg_cong [OF assms, of compute_indicators] by (simp add: settings_def)
  show "biobj_number_of_objectives l' = biobj_number_of_objectives l"
    using arg_cong [OF assms, of biobj_number_of_objectives] by (simp add: settings_def)
  show "biobj_number_of_evaluations l' = biobj_number_of_evaluations l"
    using arg_cong [OF assms, of biobj_number_of_evaluations] by (simp add: settings_def)
  show "biobj_number_of_variables l' = biobj_number_of_variables l"
    using arg_cong [OF assms, of biobj_number_of_variables] by (simp add: settings_def)
  show "log_nondom_mode l' = log_nondom_mode l" using arg_cong [OF assms, of log_nondom_mode] by (simp add: settings_def)
  show "hyp_indicator l' = None \<longleftrightarrow> hyp_indicator l = None"
    using arg_cong [OF assms, of "\<lambda>l. hyp_indicator l = None"] by (simp add: settings_def)
qed

lemma settings_trees [simp]:
  "settings (l\<lparr>archive_tree := s\<rparr>) = settings l" "settings (l\<lparr>buffer_tree := s\<rparr>) = settings l"
  by (simp_all add: settings_def)

abbreviation current_value :: "logger_biobj_data_t \<Rightarrow> real" where
  "current_value l \<equiv> current_indicator (the (hyp_indicator l))"

definition has_indicator :: "logger_biobj_data_t \<Rightarrow> bool" where
  "has_indicator l \<longleftrightarrow> (compute_indicators l \<longrightarrow> hyp_indicator l \<noteq> None)"

lemma has_indicator_settings: "settings l' = settings l \<Longrightarrow> has_indicator l' = has_indicator l"
  using settings_fields(1,6) [of l' l] by (simp add: has_indicator_def)

definition adjusted_indicator :: "real \<Rightarrow> logger_biobj_data_t \<Rightarrow> logger_biobj_data_t" where
  "adjusted_indicator v l =
     (if compute_indicators l then l\<lparr>hyp_indicator := map_option (add_to_indicator v) (hyp_indicator l)\<rparr> else l)"

lemma adjust_indicator_ok: "has_indicator l \<Longrightarrow> adjust_indicator (add_to_indicator v) l = Inr (adjusted_indicator v l)"
  by (auto simp: adjust_indicator_def adjusted_indicator_def has_indicator_def)

lemma adjusted_indicator_fields [simp]:
  "archive_tree (adjusted_indicator v l) = archive_tree l" "buffer_tree (adjusted_indicator v l) = buffer_tree l"
  "settings (adjusted_indicator v l) = settings l" "compute_indicators (adjusted_indicator v l) = compute_indicators l"
  "has_indicator (adjusted_indicator v l) = has_indicator l"
  by (auto simp: adjusted_indicator_def settings_def has_indicator_def add_to_indicator_def option.map_comp comp_def)

lemma adjusted_indicator_value [simp]:
  "compute_indicators l \<Longrightarrow> has_indicator l \<Longrightarrow> current_value (adjusted_indicator v l) = current_value l + v"
  by (auto simp: adjusted_indicator_def has_indicator_def add_to_indicator_def)

section \<open>Removing solutions\<close>

text \<open>The buffer is ordered by the numbers of the evaluations.\<close>

definition buffer_ok :: "logger_biobj_data_t \<Rightarrow> addr tree \<Rightarrow> bool" where
  "buffer_ok l tb \<longleftrightarrow> ordered (\<lambda>_. True) (buffer_tree l) tb \<and> cmpitem (buffer_tree l) = avl_tree_compare_by_eval_number
     \<and> \<not> frees (buffer_tree l) \<and> finite (dom (nodes (buffer_tree l)))"

text \<open>The solutions at the nodes \<open>zs\<close> have been removed from both trees.\<close>

definition solutions_removed ::
    "logger_biobj_data_t \<Rightarrow> addr tree \<Rightarrow> logger_biobj_data_t \<Rightarrow> addr tree \<Rightarrow> addr tree \<Rightarrow> addr list \<Rightarrow> bool" where
  "solutions_removed l tb l' t' tb' zs \<longleftrightarrow>
     settings l' = settings l \<and> ordered solution_ok (archive_tree l') t'
     \<and> same_items (set zs) (archive_tree l) (archive_tree l') \<and> (\<forall>z \<in> set zs. nodes (archive_tree l') z = None)
     \<and> buffer_ok l' tb'
     \<and> contents (buffer_tree l') tb' = filter (\<lambda>y. evaluation_number y \<notin> evaluation_number ` item_of (archive_tree l) ` set zs)
         (contents (buffer_tree l) tb)
     \<and> (compute_indicators l \<longrightarrow>
         current_value l' = current_value l - total_contribution (map (item_of (archive_tree l)) zs))"

lemma buffer_delete_ok:
  assumes "buffer_ok l tb"
  shows "\<exists>s' tb' r. avl_item_delete (buffer_tree l) x = Some (s', r) \<and> buffer_ok (l\<lparr>buffer_tree := s'\<rparr>) tb'
    \<and> contents s' tb' = filter (\<lambda>y. evaluation_number y \<noteq> evaluation_number x) (contents (buffer_tree l) tb)"
proof -
  let ?s = "buffer_tree l"
  from assms have b: "ordered (\<lambda>_. True) ?s tb" "cmpitem ?s = avl_tree_compare_by_eval_number"
    by (simp_all add: buffer_ok_def)
  have cmp: "comparator (cmpitem ?s) (\<lambda>_. True)" unfolding b(2) by (rule by_eval_number.comparator_axioms)
  from item_delete_ok [OF cmp b(1), of x] obtain s' tb' r where r: "avl_item_delete ?s x = Some (s', r)"
    "ordered (\<lambda>_. True) s' tb'" "contents s' tb' = ordered_delete (cmpitem ?s) x (contents ?s tb)"
    "cmpitem s' = cmpitem ?s" "frees s' = frees ?s" "\<forall>c. nodes ?s c = None \<longrightarrow> nodes s' c = None" by blast
  have "ordered_delete (cmpitem ?s) x (contents ?s tb)
      = filter (\<lambda>y. evaluation_number y \<noteq> evaluation_number x) (contents ?s tb)"
    unfolding ordered_delete_def b(2) by (intro filter_cong) (auto simp: avl_tree_compare_by_eval_number_def)
  moreover have "dom (nodes s') \<subseteq> dom (nodes ?s)" using r(6) by (auto simp: domIff)
  ultimately show ?thesis using r assms
    by (intro exI [of _ s'] exI [of _ tb'] exI [of _ r]) (auto simp: buffer_ok_def intro: finite_subset)
qed

lemma same_items_kept: "same_items A s s' \<Longrightarrow> c \<notin> A \<Longrightarrow> nodes s' c \<noteq> None \<Longrightarrow> item_of s' c = item_of s c"
proof -
  assume "same_items A s s'" "c \<notin> A" "nodes s' c \<noteq> None"
  then have "map_option n_item (nodes s' c) = map_option n_item (nodes s c)" "nodes s' c \<noteq> None"
    by (simp_all add: same_items_def)
  then show ?thesis by (cases "nodes s c") (auto simp: item_of_def)
qed

lemma ordered_defined: "ordered ok s t \<Longrightarrow> z \<in> set_tree t \<Longrightarrow> nodes s z \<noteq> None"
  using shape_defined [of "nodes s" None t z] by (auto simp: ordered_def avl_inv_def)

lemma removed_items_kept:
  assumes "solutions_removed l tb l' t' tb' zs" "z \<in> set_tree t'"
  shows "item_of (archive_tree l') z = item_of (archive_tree l) z" "z \<notin> set zs"
proof -
  have d: "nodes (archive_tree l') z \<noteq> None"
    using assms ordered_defined unfolding solutions_removed_def by blast
  with assms(1) show "z \<notin> set zs" by (auto simp: solutions_removed_def)
  with d assms(1) show "item_of (archive_tree l') z = item_of (archive_tree l) z"
    unfolding solutions_removed_def by (blast intro: same_items_kept)
qed

lemma solutions_removed_append:
  assumes r: "solutions_removed l tb l1 t1 tb1 us" "solutions_removed l1 tb1 l2 t2 tb2 vs" and vs: "set vs \<subseteq> set_tree t1"
  shows "solutions_removed l tb l2 t2 tb2 (us @ vs)"
proof -
  have items: "\<forall>z \<in> set vs. item_of (archive_tree l1) z = item_of (archive_tree l) z"
    using removed_items_kept(1) [OF r(1)] vs by blast
  then have m: "map (item_of (archive_tree l1)) vs = map (item_of (archive_tree l)) vs"
    "item_of (archive_tree l1) ` set vs = item_of (archive_tree l) ` set vs" by auto
  have same: "same_items (set us) (archive_tree l) (archive_tree l1)" "same_items (set vs) (archive_tree l1) (archive_tree l2)"
    "\<forall>z \<in> set us. nodes (archive_tree l1) z = None" "\<forall>z \<in> set vs. nodes (archive_tree l2) z = None"
    using r by (simp_all add: solutions_removed_def)
  have "same_items (set (us @ vs)) (archive_tree l) (archive_tree l2)"
    using same_items_trans [OF same_items_mono [OF same(1)] same_items_mono [OF same(2)]] by simp
  moreover have "nodes (archive_tree l2) z = None" if "z \<in> set (us @ vs)" for z
  proof (cases "z \<in> set vs")
    case False
    then have "map_option n_item (nodes (archive_tree l2) z) = map_option n_item (nodes (archive_tree l1) z)"
      "nodes (archive_tree l1) z = None"
      using that same by (simp_all add: same_items_def)
    then show ?thesis by simp
  qed (use same in simp)
  moreover have "compute_indicators l1 = compute_indicators l" "settings l2 = settings l"
    using r settings_fields(1) [of l1 l] by (simp_all add: solutions_removed_def)
  moreover have "filter (\<lambda>y. evaluation_number y \<notin> evaluation_number ` item_of (archive_tree l) ` set vs)
      (filter (\<lambda>y. evaluation_number y \<notin> evaluation_number ` item_of (archive_tree l) ` set us) xs)
    = filter (\<lambda>y. evaluation_number y \<notin> evaluation_number ` item_of (archive_tree l) ` set (us @ vs)) xs" for xs
    by (auto intro!: filter_cong)
  ultimately show ?thesis using r unfolding solutions_removed_def m by auto
qed

lemma solutions_removed_none:
  "ordered solution_ok (archive_tree l) t \<Longrightarrow> buffer_ok l tb \<Longrightarrow> solutions_removed l tb l t tb []"
  by (simp add: solutions_removed_def)

lemma remove_solution_ok:
  assumes ord: "ordered solution_ok (archive_tree l) t" and io: "inorder t = us @ a # vs"
    and n: "nodes (archive_tree l) a = Some n" and b: "buffer_ok l tb" and ind: "has_indicator l"
  shows "\<exists>l' t' tb'. remove_solution l (Some a) n = Inr l' \<and> solutions_removed l tb l' t' tb' [a] \<and> inorder t' = us @ vs"
proof -
  let ?x = "item_of (archive_tree l) a"
  have item: "n_item n = ?x" using n by (simp add: item_of_def)
  let ?l = "adjusted_indicator (- indicator_contribution ?x) l"
  have "buffer_ok ?l tb" using b by (simp add: buffer_ok_def)
  from buffer_delete_ok [OF this, of ?x] obtain sb tb' r where sb: "avl_item_delete (buffer_tree l) ?x = Some (sb, r)"
    "buffer_ok (?l\<lparr>buffer_tree := sb\<rparr>) tb'"
    "contents sb tb' = filter (\<lambda>y. evaluation_number y \<noteq> evaluation_number ?x) (contents (buffer_tree l) tb)" by auto
  from node_delete_ok [OF ord io] obtain s t' where s: "avl_node_delete (archive_tree l) (Some a) = Some (s, Some ?x)"
    "ordered solution_ok s t'" "inorder t' = us @ vs" "same_items {a} (archive_tree l) s" "nodes s a = None" by blast
  let ?l' = "?l\<lparr>buffer_tree := sb, archive_tree := s\<rparr>"
  have "remove_solution l (Some a) n = Inr ?l'"
    using sb(1) s(1) by (simp add: remove_solution_def item adjust_indicator_ok [OF ind] on_heap_def)
  moreover have "current_value ?l' = current_value l - indicator_contribution ?x" if "compute_indicators l"
    using adjusted_indicator_value [OF that ind, of "- indicator_contribution ?x"] by simp
  ultimately show ?thesis using s sb
    by (intro exI [of _ ?l'] exI [of _ t'] exI [of _ tb']) (simp add: solutions_removed_def buffer_ok_def)
qed

text \<open>The loop removes the solutions behind the new one that it dominates.\<close>

lemma solution_dominance:
  assumes "solution_ok x" "solution_ok z"
  shows "mo_get_dominance (item_normalized_y x) (item_normalized_y z) 2 =
    Inr (if u0 x = u0 z \<and> u1 x = u1 z then - 2 else if dominates (front_item x) (front_item z) then 1
      else if dominates (front_item z) (front_item x) then - 1 else 0)"
  using dominance_normalized [of "front_item x" "front_item z"] assms by (simp add: solution_ok_def)

lemma remove_dominated_solutions_ok:
  assumes "ordered solution_ok (archive_tree l) t" "inorder t = us @ ns" "solution_ok x" "buffer_ok l tb"
    and "has_indicator l" "biobj_number_of_objectives l = 2"
    and "\<forall>z \<in> set ns. u1 x < u1 (item_of (archive_tree l) z)"
  shows "\<exists>l' t' tb'. remove_dominated_solutions x l (first_of ns None) = Some (Inr l')
    \<and> inorder t' = us @ dropWhile (\<lambda>z. dominates (front_item x) (front_item (item_of (archive_tree l) z))) ns
    \<and> solutions_removed l tb l' t' tb' (takeWhile (\<lambda>z. dominates (front_item x) (front_item (item_of (archive_tree l) z))) ns)"
  using assms
proof (induction ns arbitrary: l t tb)
  case Nil
  then show ?case
    by (intro exI [of _ l] exI [of _ t] exI [of _ tb])
      (subst remove_dominated_solutions.simps, simp add: solutions_removed_none)
next
  case (Cons a ns)
  let ?s = "archive_tree l"
  let ?d = "\<lambda>z. dominates (front_item x) (front_item (item_of ?s z))"
  have inv: "avl_inv ?s t" using Cons.prems(1) by (simp add: ordered_def)
  obtain n where n: "nodes ?s a = Some n" "n_next n = first_of ns None" "n_item n = item_of ?s a"
    using next_node [OF inv Cons.prems(2)] by blast
  have ok: "solution_ok (item_of ?s a)" using Cons.prems(1,2) by (auto simp: ordered_def contents_def)
  have "u1 x < u1 (item_of ?s a)" using Cons.prems(7) by simp
  then have dom: "mo_get_dominance (item_normalized_y x) (item_normalized_y (item_of ?s a)) 2 = Inr (if ?d a then 1 else 0)"
    using solution_dominance [OF Cons.prems(3) ok] by (auto simp: dominates_def)
  show ?case
  proof (cases "?d a")
    case False
    then show ?thesis using n dom Cons.prems
      by (intro exI [of _ l] exI [of _ t] exI [of _ tb])
        (subst remove_dominated_solutions.simps, simp add: solutions_removed_none deref_def)
  next
    case True
    from remove_solution_ok [OF Cons.prems(1,2) n(1) Cons.prems(4,5)] obtain l1 t1 tb1 where
      l1: "remove_solution l (Some a) n = Inr l1" "solutions_removed l tb l1 t1 tb1 [a]" "inorder t1 = us @ ns" by blast
    have set: "settings l1 = settings l" using l1(2) by (simp add: solutions_removed_def)
    have sub: "set ns \<subseteq> set_tree t1" using l1(3) by (simp flip: set_inorder)
    have item: "item_of (archive_tree l1) z = item_of ?s z" if "z \<in> set ns" for z
      using removed_items_kept(1) [OF l1(2)] that sub by blast
    have eq: "dropWhile (\<lambda>z. dominates (front_item x) (front_item (item_of (archive_tree l1) z))) ns = dropWhile ?d ns"
      "takeWhile (\<lambda>z. dominates (front_item x) (front_item (item_of (archive_tree l1) z))) ns = takeWhile ?d ns"
      using item by (auto intro: dropWhile_cong takeWhile_cong)
    have "\<exists>l' t' tb'. remove_dominated_solutions x l1 (first_of ns None) = Some (Inr l')
      \<and> inorder t' = us @ dropWhile ?d ns \<and> solutions_removed l1 tb1 l' t' tb' (takeWhile ?d ns)"
      unfolding eq [symmetric]
    proof (rule Cons.IH)
      show "ordered solution_ok (archive_tree l1) t1" "buffer_ok l1 tb1" using l1(2) by (simp_all add: solutions_removed_def)
      show "has_indicator l1" "biobj_number_of_objectives l1 = 2"
        using Cons.prems(5,6) set has_indicator_settings [OF set] settings_fields(2) [OF set] by simp_all
    qed (use Cons.prems l1(3) item in simp_all)
    then obtain l' t' tb' where l': "remove_dominated_solutions x l1 (first_of ns None) = Some (Inr l')"
      "inorder t' = us @ dropWhile ?d ns" "solutions_removed l1 tb1 l' t' tb' (takeWhile ?d ns)" by blast
    have "solutions_removed l tb l' t' tb' ([a] @ takeWhile ?d ns)"
      using sub by (intro solutions_removed_append [OF l1(2) l'(3)]) (auto dest: set_takeWhileD)
    moreover have "remove_dominated_solutions x l (Some a) = Some (Inr l')"
      using n dom True l1(1) l'(1) Cons.prems(6) by (subst remove_dominated_solutions.simps) (simp add: deref_def)
    ultimately show ?thesis using l'(2) True by (intro exI [of _ l'] exI [of _ t'] exI [of _ tb']) simp
  qed
qed

section \<open>Finding the position of a solution\<close>

lemma directed_filters: "directed c zs \<Longrightarrow> zs = filter (\<lambda>a. c a \<ge> 0) zs @ filter (\<lambda>a. c a < 0) zs"
proof (induction zs)
  case (Cons a zs)
  then have IH: "zs = filter (\<lambda>a. c a \<ge> 0) zs @ filter (\<lambda>a. c a < 0) zs" by (simp add: directed_def)
  show ?case
  proof (cases "c a < 0")
    case True
    with Cons.prems have neg: "\<forall>b \<in> set zs. c b < 0" by (simp add: directed_def)
    then have "filter (\<lambda>a. c a \<ge> 0) zs = []" "filter (\<lambda>a. c a < 0) zs = zs"
      by (auto simp: filter_empty_conv intro!: filter_True)
    with True show ?thesis by simp
  next
    case False
    with IH show ?thesis by simp
  qed
qed simp

lemma solution_position:
  assumes ord: "ordered solution_ok s t" and cmp: "cmpitem s = avl_tree_compare_by_last_objective" and x: "solution_ok x"
  obtains us ns where "inorder t = us @ ns" "\<forall>z \<in> set us. u1 (item_of s z) \<le> u1 x" "\<forall>z \<in> set ns. u1 x < u1 (item_of s z)"
    "avl_item_search_right s x = Some (last_of us None, \<exists>z \<in> set_tree t. cmp_at s x z = 0)"
proof -
  have inv: "avl_inv s t" using ord by (simp add: ordered_def)
  have "comparator (cmpitem s) solution_ok" unfolding cmp by (rule by_front.comparator_axioms)
  then have dir: "directed (cmp_at s x) (inorder t)" using ord x by (rule directed_contents(1))
  have sgn: "cmp_at s x z \<ge> 0 \<longleftrightarrow> u1 (item_of s z) \<le> u1 x" "cmp_at s x z < 0 \<longleftrightarrow> u1 x < u1 (item_of s z)"
    if "z \<in> set_tree t" for z
  proof -
    have "normalized (front_item (item_of s z))" "normalized (front_item x)"
      using that ord x by (auto simp: ordered_def contents_def solution_ok_def)
    from compare_normalized [OF this(2,1)] cmp show "cmp_at s x z \<ge> 0 \<longleftrightarrow> u1 (item_of s z) \<le> u1 x"
      "cmp_at s x z < 0 \<longleftrightarrow> u1 x < u1 (item_of s z)" by (auto simp: compare_front_items)
  qed
  show thesis
    by (rule that [OF directed_filters [OF dir] _ _ search_right_last [OF inv dir]]) (use sgn in auto)
qed

lemma search_archive_ok:
  assumes ord: "ordered solution_ok (archive_tree l) t" and cmp: "cmpitem (archive_tree l) = avl_tree_compare_by_last_objective"
    and x: "solution_ok x" and fr: "front (map front_item (contents (archive_tree l) t))"
    and b: "buffer_ok l tb" and ind: "has_indicator l" and two: "biobj_number_of_objectives l = 2"
  defines "covered \<equiv> \<exists>z \<in> set (contents (archive_tree l) t). covers (front_item z) (front_item x)"
  shows "covered \<and> search_archive l x = Inr (False, l, None)
    \<or> \<not> covered \<and> (\<exists>l1 t1 tb1 us zs ns. search_archive l x = Inr (True, l1, first_of ns None)
        \<and> solutions_removed l tb l1 t1 tb1 zs \<and> inorder t1 = us @ ns \<and> inorder t = us @ zs @ ns
        \<and> (\<forall>z \<in> set ns. u1 x < u1 (item_of (archive_tree l) z))
        \<and> (\<forall>z \<in> set zs. dominates (front_item x) (front_item (item_of (archive_tree l) z)))
        \<and> front_add (front_item x) (map front_item (contents (archive_tree l) t))
          = map front_item (map (item_of (archive_tree l)) us) @ front_item x
            # dropWhile (dominates (front_item x)) (map front_item (map (item_of (archive_tree l)) ns))
        \<and> front (front_add (front_item x) (map front_item (contents (archive_tree l) t))))"
proof -
  let ?s = "archive_tree l" and ?i = "item_of (archive_tree l)" and ?x = "front_item x"
  let ?f = "\<lambda>zs. map front_item (map (item_of (archive_tree l)) zs)"
  obtain vs ns where io: "inorder t = vs @ ns" and vs: "\<forall>z \<in> set vs. u1 (?i z) \<le> u1 x"
    and ns: "\<forall>z \<in> set ns. u1 x < u1 (?i z)"
    and search: "avl_item_search_right ?s x = Some (last_of vs None, \<exists>z \<in> set_tree t. cmp_at ?s x z = 0)"
    using solution_position [OF ord cmp x] by blast
  have avl: "avl_inv ?s t" using ord by (simp add: ordered_def)
  have c: "map front_item (contents ?s t) = ?f vs @ ?f ns" by (simp add: contents_def io)
  have nx: "normalized ?x" using x by (simp add: solution_ok_def)
  have vs': "\<forall>z \<in> set (?f vs). y1 z \<le> y1 ?x" and ns': "\<forall>z \<in> set (?f ns). y1 ?x < y1 z" using vs ns by auto
  note split = front_split [OF fr [unfolded c] nx vs' ns', folded c]
  have cov: "covered \<longleftrightarrow> (\<exists>z \<in> set (map front_item (contents ?s t)). covers z ?x)" by (simp add: covered_def)
  show ?thesis
  proof (cases vs rule: rev_cases)
    case Nil
    have h: "head ?s = first_of ns None" using avl io Nil by (simp add: avl_inv_def)
    have "search_archive l x = Inr (True, l, first_of ns None)"
      using search Nil h by (simp add: search_archive_def on_heap_def)
    moreover have "\<not> covered" using cov split(1) Nil by simp
    ultimately show ?thesis using split(2,3) Nil io ns solutions_removed_none [OF ord b]
      by (intro disjI2 conjI exI [of _ l] exI [of _ t] exI [of _ tb] exI [of _ "[]"] exI [of _ ns]) simp_all
  next
    case (snoc us z)
    have io': "inorder t = us @ z # ns" using io snoc by simp
    obtain n where n: "nodes ?s z = Some n" "n_next n = first_of ns None" "n_item n = ?i z"
      using next_node [OF avl io'] by blast
    have okz: "solution_ok (?i z)" using ord io' by (auto simp: ordered_def contents_def)
    have yz: "u1 (?i z) \<le> u1 x" using vs snoc by simp
    have covz: "covered \<longleftrightarrow> u0 (?i z) \<le> u0 x" using cov split(1) snoc by simp
    note dom = solution_dominance [OF x okz]
    have start: "search_archive l x =
        rbind (mo_get_dominance (item_normalized_y x) (item_normalized_y (?i z)) 2) (\<lambda>dominance.
            if dominance > - 1 then
              (if dominance = 1 then rbind (remove_solution l (Some z) n) (\<lambda>l. Inr (True, l, n_next n))
               else Inr (True, l, n_next n))
            else Inr (False, l, None))"
      using search snoc n two by (simp add: search_archive_def on_heap_def deref_def)
    have before: "\<forall>w \<in> set us. u1 (?i w) < u1 (?i z)" using fr c snoc by (auto simp: front_def sorted_wrt_append)
    show ?thesis
    proof (cases "u0 (?i z) \<le> u0 x")
      case True
      then have "mo_get_dominance (item_normalized_y x) (item_normalized_y (?i z)) 2 = Inr (- 1)
        \<or> mo_get_dominance (item_normalized_y x) (item_normalized_y (?i z)) 2 = Inr (- 2)"
        using dom yz by (auto simp: dominates_def)
      then have "search_archive l x = Inr (False, l, None)" using start by auto
      with covz True show ?thesis by blast
    next
      case False
      then have lt: "u0 x < u0 (?i z)" by simp
      then have side: "?f vs = [] \<or> y0 ?x < y0 (last (?f vs))" using snoc by simp
      note add = split(2) [OF side] and fradd = split(3) [OF side]
      show ?thesis
      proof (cases "u1 (?i z) = u1 x")
        case True
        then have d: "dominates ?x (front_item (?i z))" using lt by (simp add: dominates_def)
        then have d1: "mo_get_dominance (item_normalized_y x) (item_normalized_y (?i z)) 2 = Inr 1"
          using dom lt by simp
        from remove_solution_ok [OF ord io' n(1) b ind] obtain l1 t1 tb1 where
          l1: "remove_solution l (Some z) n = Inr l1" "solutions_removed l tb l1 t1 tb1 [z]" "inorder t1 = us @ ns" by blast
        have "search_archive l x = Inr (True, l1, first_of ns None)" using start d1 l1(1) n(2) by simp
        moreover have "filter (\<lambda>w. y1 w \<noteq> y1 ?x) (?f vs) = ?f us"
        proof -
          have "filter (\<lambda>w. u1 (?i w) \<noteq> u1 x) us = us" using before True by (intro filter_True) auto
          with snoc True show ?thesis by (simp add: filter_map comp_def)
        qed
        ultimately show ?thesis using covz False l1(2,3) io' ns d add fradd
          by (intro disjI2 conjI exI [of _ l1] exI [of _ t1] exI [of _ tb1] exI [of _ us] exI [of _ "[z]"] exI [of _ ns])
            simp_all
      next
        case ne: False
        then have "mo_get_dominance (item_normalized_y x) (item_normalized_y (?i z)) 2 = Inr 0"
          using dom lt yz by (auto simp: dominates_def)
        then have "search_archive l x = Inr (True, l, first_of ns None)" using start n(2) by simp
        moreover have "filter (\<lambda>w. y1 w \<noteq> y1 ?x) (?f vs) = ?f vs"
        proof (rule filter_True)
          have "u1 (?i w) \<noteq> u1 x" if "w \<in> set vs" for w using that before ne yz snoc by fastforce
          then show "\<forall>w \<in> set (?f vs). y1 w \<noteq> y1 ?x" by auto
        qed
        ultimately show ?thesis using covz False io ns add fradd solutions_removed_none [OF ord b]
          by (intro disjI2 conjI exI [of _ l] exI [of _ t] exI [of _ tb] exI [of _ vs] exI [of _ "[]"] exI [of _ ns])
            simp_all
      qed
    qed
  qed
qed

section \<open>The contributions of the neighbours\<close>

lemma adjust_contributions_ok:
  assumes ord: "ordered solution_ok (archive_tree l) t" and cmp: "cmpitem (archive_tree l) = avl_tree_compare_by_last_objective"
    and io: "inorder t = us @ b # ns" and x: "item_of (archive_tree l) b = x" and ind: "has_indicator l"
    and fr: "front (map front_item (contents (archive_tree l) t))" and zero: "indicator_contribution x = 0"
  defines "adjusted \<equiv> adjusted_solutions x (map (item_of (archive_tree l)) us) (map (item_of (archive_tree l)) ns)"
  shows "\<exists>l'. adjust_contributions x (Some b) l = Inr l' \<and> settings l' = settings l \<and> buffer_tree l' = buffer_tree l
    \<and> ordered solution_ok (archive_tree l') t \<and> cmpitem (archive_tree l') = cmpitem (archive_tree l)
    \<and> frees (archive_tree l') = frees (archive_tree l) \<and> dom (nodes (archive_tree l')) = dom (nodes (archive_tree l))
    \<and> contents (archive_tree l') t = (if compute_indicators l then adjusted else contents (archive_tree l) t)
    \<and> (compute_indicators l \<longrightarrow> current_value l' = current_value l + total_contribution adjusted
        - total_contribution (contents (archive_tree l) t))"
proof (cases "compute_indicators l \<and> within_ROI x")
  case False
  then have "adjust_contributions x (Some b) l = Inr l" by (auto simp: adjust_contributions_def)
  moreover have "contents (archive_tree l) t = adjusted" if "compute_indicators l"
    using False that io x by (simp add: adjusted_def adjusted_solutions_def contents_def)
  ultimately show ?thesis using ord by (intro exI [of _ l]) auto
next
  case True
  let ?s = "archive_tree l" and ?i = "item_of (archive_tree l)"
  let ?ps = "map ?i us" and ?qs = "map ?i ns"
  have inv: "avl_inv ?s t" using ord by (simp add: ordered_def)
  have dist: "distinct (us @ b # ns)" using inv io unfolding avl_inv_def by metis
  have c: "contents ?s t = ?ps @ x # ?qs" by (simp add: contents_def io x)
  have ok: "\<forall>z \<in> set (?ps @ x # ?qs). solution_ok z" using ord unfolding ordered_def c by blast
  have fr': "front (map front_item (?ps @ x # ?qs))" using fr unfolding c .
  note nonneg = contribution_nonnegative [OF fr' ok]
  obtain n where n: "nodes ?s b = Some n" "n_next n = first_of ns None" "n_prev n = last_of us None"
    using inv io by (auto simp: avl_inv_def node_view_def kept_def)
  have st: "set_tree t = set us \<union> insert b (set ns)" using io by (simp flip: set_inorder)
  define h where "h = contribution_from (reference_at_end 1 ?ps) x"
  define v where "v = (case ns of [] \<Rightarrow> 0 | a # _ \<Rightarrow> if within_ROI (?i a)
    then contribution_from (u0 x) (?i a) - indicator_contribution (?i a) else 0)"
  define item1 where "item1 = (case ns of [] \<Rightarrow> ?i | a # _ \<Rightarrow> if within_ROI (?i a)
    then ?i(a := (?i a)\<lparr>indicator_contribution := contribution_from (u0 x) (?i a)\<rparr>) else ?i)"
  have "\<exists>l1. adjust_next x (n_next n) l = Inr l1 \<and> settings l1 = settings l \<and> buffer_tree l1 = buffer_tree l
    \<and> ordered solution_ok (archive_tree l1) t \<and> cmpitem (archive_tree l1) = cmpitem ?s
    \<and> frees (archive_tree l1) = frees ?s \<and> dom (nodes (archive_tree l1)) = dom (nodes ?s)
    \<and> item_of (archive_tree l1) = item1 \<and> current_value l1 = current_value l + v"
  proof (cases "\<exists>a ms. ns = a # ms \<and> within_ROI (?i a)")
    case False
    have "adjust_next x (n_next n) l = Inr l"
    proof (cases ns)
      case Nil
      then show ?thesis using n(2) by (simp add: adjust_next_def)
    next
      case (Cons a ms)
      then obtain m where m: "nodes ?s a = Some m" "n_item m = ?i a"
        using ordered_defined [OF ord, of a] st by (auto simp: item_of_def)
      moreover have "\<not> within_ROI (?i a)" using False Cons by blast
      ultimately show ?thesis using n(2) Cons by (simp add: adjust_next_def deref_def on_heap_def)
    qed
    with False ord show ?thesis by (intro exI [of _ l]) (auto simp: v_def item1_def split: list.split)
  next
    case a: True
    then obtain a ms where ns: "ns = a # ms" "within_ROI (?i a)" by blast
    then obtain m where m: "nodes ?s a = Some m" "n_item m = ?i a"
      using ordered_defined [OF ord, of a] st by (auto simp: item_of_def)
    let ?h = "contribution_from (u0 x) (?i a)"
    have h: "?h = (item_normalized_y x ! 0 - item_normalized_y (?i a) ! 0) * (1 - item_normalized_y (?i a) ! 1)"
      using ns(2) by (simp add: contribution_from_def)
    let ?l = "adjusted_indicator (- indicator_contribution (?i a)) l"
    have "ordered solution_ok (archive_tree ?l) t" "cmpitem (archive_tree ?l) = avl_tree_compare_by_last_objective"
      "a \<in> set_tree t" "?h \<ge> 0"
      using ord cmp st ns nonneg(2) [of "?i a"] by simp_all
    from set_contribution_ok [OF this] obtain s' where s': "set_contribution (Some a) ?h ?l = Inr (?l\<lparr>archive_tree := s'\<rparr>)"
      "ordered solution_ok s' t" "item_of s' = ?i(a := (?i a)\<lparr>indicator_contribution := ?h\<rparr>)"
      "cmpitem s' = cmpitem ?s" "frees s' = frees ?s" "dom (nodes s') = dom (nodes ?s)" by auto
    let ?l1 = "adjusted_indicator ?h (?l\<lparr>archive_tree := s'\<rparr>)"
    have ind1: "has_indicator (?l\<lparr>archive_tree := s'\<rparr>)" using ind by (simp add: has_indicator_def [of "_\<lparr>archive_tree := _\<rparr>"])
        (simp add: has_indicator_def [of l] adjusted_indicator_def)
    have "adjust_next x (n_next n) l = Inr ?l1"
      using n(2) ns m s'(1) adjust_indicator_ok [OF ind] adjust_indicator_ok [OF ind1, of ?h]
      by (simp add: adjust_next_def deref_def on_heap_def Let_def h [unfolded One_nat_def, symmetric])
    moreover have "current_value ?l1 = current_value l + v"
    proof -
      have "current_value ?l1 = current_value (?l\<lparr>archive_tree := s'\<rparr>) + ?h"
        using True ind1 by (intro adjusted_indicator_value) simp_all
      also have "current_value (?l\<lparr>archive_tree := s'\<rparr>) = current_value l - indicator_contribution (?i a)"
        using True ind adjusted_indicator_value [of l "- indicator_contribution (?i a)"] by simp
      finally show ?thesis using ns by (simp add: v_def)
    qed
    ultimately show ?thesis using s' ns by (intro exI [of _ ?l1]) (simp add: item1_def)
  qed
  then obtain l1 where l1: "adjust_next x (n_next n) l = Inr l1" "settings l1 = settings l" "buffer_tree l1 = buffer_tree l"
    "ordered solution_ok (archive_tree l1) t" "cmpitem (archive_tree l1) = cmpitem ?s"
    "frees (archive_tree l1) = frees ?s" "dom (nodes (archive_tree l1)) = dom (nodes ?s)"
    "item_of (archive_tree l1) = item1" "current_value l1 = current_value l + v" by blast
  have ind1: "has_indicator l1" and comp1: "compute_indicators l1"
    using ind True l1(2) has_indicator_settings settings_fields(1) by blast+
  have us_item: "item1 z = ?i z" if "z \<in> set us \<or> z = b" for z
    using that dist by (auto simp: item1_def split: list.split)
  have new: "new_contribution x (n_prev n) l1 = Inr h"
  proof (cases us rule: rev_cases)
    case Nil
    then show ?thesis using n(3) True by (simp add: new_contribution_def h_def contribution_from_def)
  next
    case (snoc ws p)
    then obtain m where m: "nodes (archive_tree l1) p = Some m"
      using ordered_defined [OF l1(4), of p] st by auto
    then have "n_item m = ?i p" using us_item [of p] snoc l1(8) unfolding item_of_def by (metis in_set_conv_decomp option.sel)
    then show ?thesis using n(3) snoc m True
      by (simp add: new_contribution_def deref_def on_heap_def h_def contribution_from_def reference_at_end_def reference_after_def)
  qed
  have "b \<in> set_tree t" "h \<ge> 0" using st nonneg(1) by (simp_all add: h_def)
  from set_contribution_ok [OF l1(4) _ this] cmp l1(5) obtain s' where s':
    "set_contribution (Some b) h l1 = Inr (l1\<lparr>archive_tree := s'\<rparr>)" "ordered solution_ok s' t"
    "item_of s' = item1(b := x\<lparr>indicator_contribution := h\<rparr>)"
    "cmpitem s' = cmpitem ?s" "frees s' = frees ?s" "dom (nodes s') = dom (nodes ?s)"
    using us_item [of b] x by (auto simp: l1)
  let ?l' = "adjusted_indicator h (l1\<lparr>archive_tree := s'\<rparr>)"
  have ind2: "has_indicator (l1\<lparr>archive_tree := s'\<rparr>)" using ind1 by (simp add: has_indicator_def)
  have run: "adjust_contributions x (Some b) l = Inr ?l'"
    using True n(1) l1(1) new s'(1) adjust_indicator_ok [OF ind2, of h]
    by (simp add: adjust_contributions_def deref_def on_heap_def)
  have cont: "contents s' t = adjusted"
  proof -
    have "map (item_of s') us = ?ps" using us_item dist by (auto simp: s'(3))
    moreover have "map (item_of s') ns = (case ?qs of [] \<Rightarrow> []
        | q # r \<Rightarrow> (if within_ROI q then q\<lparr>indicator_contribution := contribution_from (u0 x) q\<rparr> else q) # r)"
      using dist by (cases ns) (auto simp: s'(3) item1_def)
    moreover have "item_of s' b = x\<lparr>indicator_contribution := h\<rparr>" by (simp add: s'(3))
    ultimately show ?thesis using True by (simp add: contents_def io adjusted_def adjusted_solutions_def h_def)
  qed
  have "current_value ?l' = current_value l + v + h"
    using comp1 ind2 l1(9) adjusted_indicator_value [of "l1\<lparr>archive_tree := s'\<rparr>" h] by simp
  moreover have "total_contribution adjusted = total_contribution (contents ?s t) + v + h"
    unfolding c adjusted_def adjusted_total using True zero by (cases ns) (simp_all add: v_def h_def)
  ultimately show ?thesis
    using run cont s' l1(2,3) True by (intro exI [of _ ?l']) simp
qed

end
