(* ===== verification/Coco_Biobj_Updates.thy ===== *)
theory Coco_Biobj_Updates
  imports Coco_Biobj_Archive
begin

text \<open>
  Sequences of updates of the bi-objective logger: no assertion fails, the archive is the front of all
  solutions, and the indicator is the part of the region of interest that they dominate.
\<close>

section \<open>Inserting a solution\<close>

text \<open>\<open>malloc\<close> returns an address that is not in use as long as finitely many are.\<close>

definition fresh_malloc :: "biobj_malloc \<Rightarrow> bool" where
  "fresh_malloc malloc \<longleftrightarrow> (\<forall>s. finite (dom (nodes s)) \<longrightarrow> nodes s (malloc s) = None)"

lemma front_distinct: "front xs \<Longrightarrow> distinct xs"
proof -
  have "sorted_wrt (\<lambda>x z. y1 x < y1 z \<and> y0 x > y0 z) xs \<Longrightarrow> distinct xs" by (induction xs) auto
  then show "front xs \<Longrightarrow> distinct xs" by (simp add: front_def)
qed

lemma archive_insert_ok:
  assumes ord: "ordered solution_ok s t" and cmp: "cmpitem s = avl_tree_compare_by_last_objective"
    and io: "inorder t = us @ ns" and x: "solution_ok x" and b: "nodes s b = None" and size: "size t + 1 < 2 ^ 64"
    and fr: "front (map front_item (map (item_of s) us @ x # map (item_of s) ns))"
  shows "\<exists>s' t'. avl_item_insert s (Some b) x = Some (s', Some b) \<and> ordered solution_ok s' t' \<and> inorder t' = us @ b # ns
    \<and> item_of s' b = x \<and> map (item_of s') us = map (item_of s) us \<and> map (item_of s') ns = map (item_of s) ns
    \<and> cmpitem s' = cmpitem s \<and> frees s' = frees s \<and> dom (nodes s') \<subseteq> insert b (dom (nodes s))"
proof -
  let ?ps = "map (item_of s) us" and ?qs = "map (item_of s) ns"
  have c: "contents s t = ?ps @ ?qs" by (simp add: contents_def io)
  have cmpc: "comparator (cmpitem s) solution_ok" unfolding cmp by (rule by_front.comparator_axioms)
  have sgn: "cmpitem s x z > 0 \<longleftrightarrow> u1 x > u1 z" "cmpitem s x z < 0 \<longleftrightarrow> u1 x < u1 z" if "solution_ok z" for z
    using that x compare_signs [of "front_item x" "front_item z"]
    by (simp_all add: cmp compare_front_items solution_ok_def)
  have ok: "\<forall>z \<in> set (?ps @ ?qs). solution_ok z" using ord by (simp add: ordered_def c)
  have dir: "\<forall>z \<in> set ?ps. cmpitem s x z > 0" "\<forall>z \<in> set ?qs. cmpitem s x z < 0"
    using ok sgn front_neighbours [OF fr] by auto
  have none: "\<not> (\<exists>y \<in> set (contents s t). cmpitem s x y = 0)" using dir c by auto
  have ins: "ordered_insert (cmpitem s) x (contents s t) = ?ps @ x # ?qs"
  proof -
    have "filter (\<lambda>y. cmpitem s x y > 0) (contents s t) = ?ps" "filter (\<lambda>y. cmpitem s x y < 0) (contents s t) = ?qs"
      using dir c by (auto simp: filter_empty_conv intro!: filter_True)
    with none show ?thesis by (simp add: ordered_insert_def)
  qed
  from item_insert_ok [OF cmpc ord x size b] none ins obtain s' t' xs ys where s':
    "avl_item_insert s (Some b) x = Some (s', Some b)" "ordered solution_ok s' t'" "contents s' t' = ?ps @ x # ?qs"
    "item_of s' b = x" "same_items {b} s s'" "inorder t = xs @ ys" "inorder t' = xs @ b # ys" by auto
  have "map (item_of s') xs = ?ps"
  proof -
    have "distinct (map front_item (?ps @ x # ?qs))" by (rule front_distinct [OF fr])
    then have "distinct (?ps @ x # ?qs)" by (simp only: distinct_map)
    then have "x \<notin> set ?ps" "x \<notin> set ?qs" by simp_all
    moreover have "map (item_of s') xs @ x # map (item_of s') ys = ?ps @ x # ?qs"
      using s'(3,4,7) by (simp add: contents_def)
    ultimately show ?thesis
      using append_Cons_eq_iff [of x ?ps ?qs "map (item_of s') xs" "map (item_of s') ys"] by simp
  qed
  then have "length xs = length us" by (metis length_map)
  then have eq: "xs = us" "ys = ns" using s'(6) io by (metis append_eq_append_conv)+
  have "map (item_of s') us = ?ps" "map (item_of s') ns = ?qs"
    using s'(3,4,7) \<open>map (item_of s') xs = ?ps\<close> unfolding eq by (simp_all add: contents_def)
  moreover have "dom (nodes s') \<subseteq> insert b (dom (nodes s))"
  proof
    fix c assume "c \<in> dom (nodes s')"
    with s'(5) show "c \<in> insert b (dom (nodes s))"
      unfolding same_items_def by (metis domIff insertCI map_option_is_None singletonD)
  qed
  ultimately show ?thesis using s' unfolding eq
    by (intro exI [of _ s'] exI [of _ t']) (simp add: same_items_def)
qed

lemma buffer_insert_ok:
  assumes b: "buffer_ok l tb" and new: "\<forall>y \<in> set (contents (buffer_tree l) tb). evaluation_number y \<noteq> evaluation_number x"
    and fresh: "nodes (buffer_tree l) c = None" and size: "size tb + 1 < 2 ^ 64"
  shows "\<exists>s' tb' p. avl_item_insert (buffer_tree l) (Some c) x = Some (s', p) \<and> buffer_ok (l\<lparr>buffer_tree := s'\<rparr>) tb'
    \<and> set (contents s' tb') = insert x (set (contents (buffer_tree l) tb)) \<and> size tb' = size tb + 1"
proof -
  let ?s = "buffer_tree l"
  from b have ord: "ordered (\<lambda>_. True) ?s tb" "cmpitem ?s = avl_tree_compare_by_eval_number"
    by (simp_all add: buffer_ok_def)
  have cmp: "comparator (cmpitem ?s) (\<lambda>_. True)" unfolding ord(2) by (rule by_eval_number.comparator_axioms)
  have sgn: "cmpitem ?s x y > 0 \<or> cmpitem ?s x y < 0" if "y \<in> set (contents ?s tb)" for y
    using new that by (auto simp: ord(2) avl_tree_compare_by_eval_number_def)
  then have none: "\<not> (\<exists>y \<in> set (contents ?s tb). cmpitem ?s x y = 0)" by fastforce
  from item_insert_ok [OF cmp ord(1) _ size fresh, of x] none obtain s' tb' where s':
    "avl_item_insert ?s (Some c) x = Some (s', Some c)" "ordered (\<lambda>_. True) s' tb'"
    "contents s' tb' = ordered_insert (cmpitem ?s) x (contents ?s tb)" "same_items {c} ?s s'"
    "\<exists>xs ys. inorder tb = xs @ ys \<and> inorder tb' = xs @ c # ys" by auto
  have "set (contents s' tb') = insert x (set (contents ?s tb))"
    unfolding s'(3) ordered_insert_def using none sgn by auto
  moreover have "size tb' = size tb + 1"
  proof -
    from s'(5) obtain xs ys where "inorder tb = xs @ ys" "inorder tb' = xs @ c # ys" by blast
    then have "length (inorder tb') = length (inorder tb) + 1" by (simp del: length_inorder)
    then show ?thesis by simp
  qed
  moreover have "dom (nodes s') \<subseteq> insert c (dom (nodes ?s))"
  proof
    fix d assume "d \<in> dom (nodes s')"
    with s'(4) show "d \<in> insert c (dom (nodes ?s))"
      unfolding same_items_def by (metis domIff insertCI map_option_is_None singletonD)
  qed
  ultimately show ?thesis using s' b
    by (intro exI [of _ s'] exI [of _ tb'] exI [of _ "Some c"])
      (auto simp: buffer_ok_def same_items_def intro: finite_subset)
qed

section \<open>The invariant\<close>

text \<open>The tree of the buffer points to the items of the archive; the contribution is not read there.\<close>

definition bare :: "logger_biobj_avl_item \<Rightarrow> logger_biobj_avl_item" where
  "bare x = x\<lparr>indicator_contribution := 0\<rparr>"

lemma bare_number [simp]: "evaluation_number (bare x) = evaluation_number x"
  by (simp add: bare_def)

text \<open>
  The buffer holds the solutions of the archive that are newer than the evaluation \<open>m\<close>, the last one that was
  written: no solution that has left the archive and has been freed.
\<close>

definition biobj_inv :: "nat \<Rightarrow> logger_biobj_data_t \<Rightarrow> addr tree \<Rightarrow> addr tree \<Rightarrow> bool" where
  "biobj_inv m l t tb \<longleftrightarrow>
     ordered solution_ok (archive_tree l) t \<and> cmpitem (archive_tree l) = avl_tree_compare_by_last_objective
     \<and> frees (archive_tree l) \<and> finite (dom (nodes (archive_tree l)))
     \<and> front (map front_item (contents (archive_tree l) t)) \<and> biobj_number_of_objectives l = 2 \<and> has_indicator l
     \<and> (compute_indicators l \<longrightarrow> contributed 1 (contents (archive_tree l) t)
         \<and> current_value l = total_contribution (contents (archive_tree l) t))
     \<and> buffer_ok l tb \<and> distinct (map evaluation_number (contents (archive_tree l) t))
     \<and> (\<forall>x \<in> set (contents (archive_tree l) t). evaluation_number x \<le> biobj_number_of_evaluations l)
     \<and> bare ` set (contents (buffer_tree l) tb) = bare ` {x \<in> set (contents (archive_tree l) t). m < evaluation_number x}"

lemma bare_filter: "bare ` {x \<in> S. P (evaluation_number x)} = {x \<in> bare ` S. P (evaluation_number x)}"
  by auto

lemma bare_adjusted: "indicator_contribution x = 0 \<Longrightarrow> map bare (adjusted_solutions x ps qs) = map bare (ps @ x # qs)"
  by (auto simp: adjusted_solutions_def bare_def split: list.split)

lemma buffer_solutions:
  assumes d: "distinct (map evaluation_number (ps @ ms @ qs))"
    and b: "bare ` B = bare ` {y \<in> set (ps @ ms @ qs). m < evaluation_number y}" and x: "m < evaluation_number x"
    and c: "map bare cs = map bare (ps @ x # qs)"
  shows "bare ` insert x {y \<in> B. evaluation_number y \<notin> evaluation_number ` set ms} = bare ` {y \<in> set cs. m < evaluation_number y}"
proof -
  have "bare ` set cs = insert (bare x) (bare ` set (ps @ qs))" using arg_cong [OF c, of set] by (simp add: image_Un)
  then have cs: "bare ` {y \<in> set cs. m < evaluation_number y}
      = insert (bare x) {y \<in> bare ` set (ps @ qs). m < evaluation_number y}"
    using x unfolding bare_filter by auto
  have "bare ` {y \<in> B. evaluation_number y \<notin> evaluation_number ` set ms}
      = {y \<in> bare ` set (ps @ ms @ qs). m < evaluation_number y \<and> evaluation_number y \<notin> evaluation_number ` set ms}"
    unfolding bare_filter [of B "\<lambda>n. n \<notin> evaluation_number ` set ms"] b bare_filter [of _ "\<lambda>n. m < n"] by auto
  also have "\<dots> = {y \<in> bare ` set (ps @ qs). m < evaluation_number y}"
    using d by auto (metis IntI empty_iff image_eqI)+
  finally show ?thesis unfolding cs by simp
qed

section \<open>One update\<close>

abbreviation archive_front :: "logger_biobj_data_t \<Rightarrow> addr tree \<Rightarrow> archive_item list" where
  "archive_front l t \<equiv> map front_item (contents (archive_tree l) t)"

text \<open>The trees after the dominated solutions have left: \<open>ms\<close> are the nodes removed between \<open>us\<close> and \<open>ns\<close>.\<close>

lemma removal_ok:
  assumes inv: "biobj_inv m l t tb" and x: "solution_ok x"
    and new: "\<not> (\<exists>z \<in> set (contents (archive_tree l) t). covers (front_item z) (front_item x))"
  shows "\<exists>l1 next_node l2 t2 tb2 us ms ns. search_archive l x = Inr (True, l1, next_node)
    \<and> remove_dominated_solutions x l1 next_node = Some (Inr l2) \<and> solutions_removed l tb l2 t2 tb2 ms
    \<and> inorder t2 = us @ ns \<and> inorder t = us @ ms @ ns
    \<and> (\<forall>z \<in> set ms. dominates (front_item x) (front_item (item_of (archive_tree l) z)))
    \<and> front_add (front_item x) (archive_front l t)
        = map front_item (map (item_of (archive_tree l)) us @ x # map (item_of (archive_tree l)) ns)
    \<and> front (front_add (front_item x) (archive_front l t))"
proof -
  let ?i = "item_of (archive_tree l)"
  from inv have ord: "ordered solution_ok (archive_tree l) t" "cmpitem (archive_tree l) = avl_tree_compare_by_last_objective"
    "front (archive_front l t)" "buffer_ok l tb" "has_indicator l" "biobj_number_of_objectives l = 2"
    unfolding biobj_inv_def by blast+
  from search_archive_ok [OF ord(1,2) x ord(3-6)] new obtain l1 t1 tb1 us zs ns where s:
    "search_archive l x = Inr (True, l1, first_of ns None)" "solutions_removed l tb l1 t1 tb1 zs"
    "inorder t1 = us @ ns" "inorder t = us @ zs @ ns" "\<forall>z \<in> set ns. u1 x < u1 (?i z)"
    "\<forall>z \<in> set zs. dominates (front_item x) (front_item (?i z))"
    "front_add (front_item x) (archive_front l t)
      = map front_item (map ?i us) @ front_item x # dropWhile (dominates (front_item x)) (map front_item (map ?i ns))"
    "front (front_add (front_item x) (archive_front l t))" by blast
  have set: "settings l1 = settings l" using s(2) by (simp add: solutions_removed_def)
  have sub: "set ns \<subseteq> set_tree t1" using s(3) by (simp flip: set_inorder)
  have item: "item_of (archive_tree l1) z = ?i z" if "z \<in> set ns" for z
    using removed_items_kept(1) [OF s(2)] that sub by blast
  let ?d = "\<lambda>z. dominates (front_item x) (front_item (?i z))"
  have eq: "dropWhile (\<lambda>z. dominates (front_item x) (front_item (item_of (archive_tree l1) z))) ns = dropWhile ?d ns"
    "takeWhile (\<lambda>z. dominates (front_item x) (front_item (item_of (archive_tree l1) z))) ns = takeWhile ?d ns"
    using item by (auto intro: dropWhile_cong takeWhile_cong)
  have "\<exists>l' t' tb'. remove_dominated_solutions x l1 (first_of ns None) = Some (Inr l')
    \<and> inorder t' = us @ dropWhile ?d ns \<and> solutions_removed l1 tb1 l' t' tb' (takeWhile ?d ns)"
    unfolding eq [symmetric]
  proof (rule remove_dominated_solutions_ok [OF _ s(3) x])
    show "ordered solution_ok (archive_tree l1) t1" "buffer_ok l1 tb1" using s(2) by (simp_all add: solutions_removed_def)
    show "has_indicator l1" "biobj_number_of_objectives l1 = 2"
      using ord(5,6) has_indicator_settings [OF set] settings_fields(2) [OF set] by simp_all
    show "\<forall>z \<in> set ns. u1 x < u1 (item_of (archive_tree l1) z)" using s(5) item by simp
  qed
  then obtain l2 t2 tb2 where r: "remove_dominated_solutions x l1 (first_of ns None) = Some (Inr l2)"
    "inorder t2 = us @ dropWhile ?d ns" "solutions_removed l1 tb1 l2 t2 tb2 (takeWhile ?d ns)" by blast
  have "solutions_removed l tb l2 t2 tb2 (zs @ takeWhile ?d ns)"
    using sub by (intro solutions_removed_append [OF s(2) r(3)]) (auto dest: set_takeWhileD)
  moreover have "dropWhile (dominates (front_item x)) (map front_item (map ?i ns)) = map front_item (map ?i (dropWhile ?d ns))"
    by (simp add: dropWhile_map comp_def)
  moreover have "\<forall>z \<in> set (zs @ takeWhile ?d ns). ?d z" using s(6) by (auto dest: set_takeWhileD)
  moreover have "inorder t = us @ (zs @ takeWhile ?d ns) @ dropWhile ?d ns" using s(4) by simp
  ultimately show ?thesis using s(1,7,8) r(1,2)
    by - (rule exI [of _ l1], rule exI [of _ "first_of ns None"], rule exI [of _ l2], rule exI [of _ t2], rule exI [of _ tb2],
      rule exI [of _ us], rule exI [of _ "zs @ takeWhile ?d ns"], rule exI [of _ "dropWhile ?d ns"], simp)
qed

lemma tree_update_ok:
  assumes inv: "biobj_inv m l t tb" and x: "solution_ok x" "indicator_contribution x = 0"
    and ev: "\<forall>y \<in> set (contents (archive_tree l) t). evaluation_number y < evaluation_number x" "m < evaluation_number x"
      "evaluation_number x \<le> biobj_number_of_evaluations l"
    and size: "size t + 1 < 2 ^ 64" "size tb + 1 < 2 ^ 64" and malloc: "fresh_malloc malloc"
  defines "covered \<equiv> \<exists>z \<in> set (contents (archive_tree l) t). covers (front_item z) (front_item x)"
  shows "\<exists>l' t' tb'. logger_biobj_tree_update malloc l x = Inr (\<not> covered, l') \<and> biobj_inv m l' t' tb' \<and> settings l' = settings l
    \<and> archive_front l' t' = front_add (front_item x) (archive_front l t) \<and> size t' \<le> size t + 1 \<and> size tb' \<le> size tb + 1
    \<and> (\<forall>y \<in> set (contents (archive_tree l') t'). evaluation_number y \<le> evaluation_number x)"
proof (cases covered)
  case True
  from inv have ord: "ordered solution_ok (archive_tree l) t" "cmpitem (archive_tree l) = avl_tree_compare_by_last_objective"
    "front (archive_front l t)" "buffer_ok l tb" "has_indicator l" "biobj_number_of_objectives l = 2"
    unfolding biobj_inv_def by blast+
  from search_archive_ok [OF ord(1,2) x(1) ord(3-6)] True have "search_archive l x = Inr (False, l, None)"
    unfolding covered_def by blast
  then have "logger_biobj_tree_update malloc l x = Inr (False, l)" by (simp add: logger_biobj_tree_update_def)
  moreover have "front_add (front_item x) (archive_front l t) = archive_front l t"
    using True by (auto simp: front_add_def covered_def)
  ultimately show ?thesis using True inv ev(1)
    by (intro exI [of _ l] exI [of _ t] exI [of _ tb]) (auto intro: less_imp_le)
next
  case False
  let ?i = "item_of (archive_tree l)"
  from inv have i: "cmpitem (archive_tree l) = avl_tree_compare_by_last_objective" "frees (archive_tree l)"
    "finite (dom (nodes (archive_tree l)))" "biobj_number_of_objectives l = 2" "has_indicator l"
    "compute_indicators l \<Longrightarrow> contributed 1 (contents (archive_tree l) t)
      \<and> current_value l = total_contribution (contents (archive_tree l) t)"
    "distinct (map evaluation_number (contents (archive_tree l) t))" "ordered solution_ok (archive_tree l) t"
    "\<forall>x \<in> set (contents (archive_tree l) t). evaluation_number x \<le> biobj_number_of_evaluations l"
    "bare ` set (contents (buffer_tree l) tb) = bare ` {x \<in> set (contents (archive_tree l) t). m < evaluation_number x}"
    unfolding biobj_inv_def by blast+
  from removal_ok [OF inv x(1)] False obtain l1 next_node l2 t2 tb2 us ms ns where r:
    "search_archive l x = Inr (True, l1, next_node)" "remove_dominated_solutions x l1 next_node = Some (Inr l2)"
    "solutions_removed l tb l2 t2 tb2 ms" "inorder t2 = us @ ns" "inorder t = us @ ms @ ns"
    "\<forall>z \<in> set ms. dominates (front_item x) (front_item (?i z))"
    "front_add (front_item x) (archive_front l t) = map front_item (map ?i us @ x # map ?i ns)"
    "front (front_add (front_item x) (archive_front l t))" unfolding covered_def by blast
  define ps where "ps = map ?i us"
  define qs where "qs = map ?i ns"
  define rs where "rs = map ?i ms"
  have c: "contents (archive_tree l) t = ps @ rs @ qs" by (simp add: contents_def r(5) ps_def qs_def rs_def)
  have ok: "\<forall>z \<in> set (ps @ rs @ x # qs). solution_ok z" using i(8) x(1) unfolding ordered_def c by auto
  have dom: "\<forall>z \<in> set rs. dominates (front_item x) (front_item z)" using r(6) by (simp add: rs_def)
  have fr: "front (map front_item (ps @ x # qs))" using r(7,8) by (simp add: ps_def qs_def)
  have l2: "settings l2 = settings l" "ordered solution_ok (archive_tree l2) t2"
    "same_items (set ms) (archive_tree l) (archive_tree l2)" "buffer_ok l2 tb2"
    "contents (buffer_tree l2) tb2 = filter (\<lambda>y. evaluation_number y \<notin> evaluation_number ` set rs) (contents (buffer_tree l) tb)"
    "compute_indicators l \<Longrightarrow> current_value l2 = current_value l - total_contribution rs"
    "\<forall>z \<in> set ms. nodes (archive_tree l2) z = None"
    using r(3) by (simp_all add: solutions_removed_def rs_def)
  have "set us \<union> set ns = set_tree t2" using r(4) by (simp flip: set_inorder)
  then have items2: "map (item_of (archive_tree l2)) us = ps" "map (item_of (archive_tree l2)) ns = qs"
    using removed_items_kept(1) [OF r(3)] by (auto simp: ps_def qs_def)
  have fields2: "cmpitem (archive_tree l2) = avl_tree_compare_by_last_objective" "frees (archive_tree l2)"
    using l2(3) i(1,2) by (simp_all add: same_items_def)
  have dom2: "dom (nodes (archive_tree l2)) \<subseteq> dom (nodes (archive_tree l))"
  proof
    fix d assume d: "d \<in> dom (nodes (archive_tree l2))"
    with l2(7) have "d \<notin> set ms" by auto
    with d l2(3) show "d \<in> dom (nodes (archive_tree l))"
      unfolding same_items_def by (metis domIff map_option_is_None)
  qed
  let ?b = "malloc (archive_tree l2)" and ?bb = "malloc (buffer_tree l2)"
  have fresh: "nodes (archive_tree l2) ?b = None" "nodes (buffer_tree l2) ?bb = None"
    using malloc finite_subset [OF dom2 i(3)] l2(4) by (simp_all add: fresh_malloc_def buffer_ok_def)
  have size2: "size t2 + 1 < 2 ^ 64" "size t2 \<le> size t"
    using size(1) r(4,5) length_inorder [of t] length_inorder [of t2] by simp_all
  have size2b: "size tb2 + 1 < 2 ^ 64" "size tb2 \<le> size tb"
  proof -
    have "length (contents (buffer_tree l2) tb2) \<le> length (contents (buffer_tree l) tb)" unfolding l2(5) by (rule length_filter_le)
    then show "size tb2 \<le> size tb" by (simp add: contents_def)
    with size(2) show "size tb2 + 1 < 2 ^ 64" by simp
  qed
  have fr2: "front (map front_item (map (item_of (archive_tree l2)) us @ x # map (item_of (archive_tree l2)) ns))"
    using fr by (simp only: items2)
  from archive_insert_ok [OF l2(2) fields2(1) r(4) x(1) fresh(1) size2(1) fr2] obtain s3 t3 where s3:
    "avl_item_insert (archive_tree l2) (Some ?b) x = Some (s3, Some ?b)" "ordered solution_ok s3 t3"
    "inorder t3 = us @ ?b # ns" "item_of s3 ?b = x" "map (item_of s3) us = ps" "map (item_of s3) ns = qs"
    "cmpitem s3 = avl_tree_compare_by_last_objective" "frees s3" "dom (nodes s3) \<subseteq> insert ?b (dom (nodes (archive_tree l2)))"
    unfolding items2 by (auto simp: fields2)
  have c3: "contents s3 t3 = ps @ x # qs" by (simp add: contents_def s3(3-6))
  have newb: "\<forall>y \<in> set (contents (buffer_tree l2) tb2). evaluation_number y \<noteq> evaluation_number x"
  proof
    fix y assume "y \<in> set (contents (buffer_tree l2) tb2)"
    then have "bare y \<in> bare ` set (contents (buffer_tree l) tb)" by (simp add: l2(5))
    then obtain z where "z \<in> set (contents (archive_tree l) t)" "bare y = bare z" unfolding i(10) by auto
    then have "evaluation_number z < evaluation_number x" "evaluation_number y = evaluation_number z"
      using ev(1) bare_number by metis+
    then show "evaluation_number y \<noteq> evaluation_number x" by simp
  qed
  from buffer_insert_ok [OF l2(4) newb fresh(2) size2b(1)] obtain sb tb3 p where sb:
    "avl_item_insert (buffer_tree l2) (Some ?bb) x = Some (sb, p)" "buffer_ok (l2\<lparr>buffer_tree := sb\<rparr>) tb3"
    "set (contents sb tb3) = insert x (set (contents (buffer_tree l2) tb2))" "size tb3 = size tb2 + 1" by blast
  let ?l3 = "l2\<lparr>archive_tree := s3, buffer_tree := sb\<rparr>"
  have set3: "settings ?l3 = settings l" using l2(1) by simp
  have a3: "ordered solution_ok (archive_tree ?l3) t3" "cmpitem (archive_tree ?l3) = avl_tree_compare_by_last_objective"
    "inorder t3 = us @ ?b # ns" "item_of (archive_tree ?l3) ?b = x" "has_indicator ?l3"
    "front (map front_item (contents (archive_tree ?l3) t3))"
    using s3 i(5) has_indicator_settings [OF set3] fr by (simp_all add: c3 del: map_append)
  let ?a = "adjusted_solutions x ps qs"
  from adjust_contributions_ok [OF a3 x(2)] obtain l4 where l4:
    "adjust_contributions x (Some ?b) ?l3 = Inr l4" "settings l4 = settings ?l3" "buffer_tree l4 = sb"
    "ordered solution_ok (archive_tree l4) t3" "cmpitem (archive_tree l4) = avl_tree_compare_by_last_objective"
    "frees (archive_tree l4)" "dom (nodes (archive_tree l4)) = dom (nodes s3)"
    "contents (archive_tree l4) t3 = (if compute_indicators l2 then ?a else ps @ x # qs)"
    "compute_indicators l2 \<Longrightarrow> current_value l4 = current_value l2 + total_contribution ?a - total_contribution (ps @ x # qs)"
    using s3(5-8) c3 by auto
  have set4: "settings l4 = settings l" using l4(2) set3 by simp
  note f4 = settings_fields [OF set4]
  have comp2: "compute_indicators l2 = compute_indicators l" using settings_fields(1) [OF l2(1)] .
  have fronts: "archive_front l4 t3 = map front_item (ps @ x # qs)"
    unfolding l4(8) using front_item_adjusted by (simp only: if_distrib [of "map front_item"]) simp
  have run: "logger_biobj_tree_update malloc l x = Inr (True, l4)"
    using r(1,2) s3(1) sb(1) l4(1) by (simp add: logger_biobj_tree_update_def on_heap_def)
  have bares: "map bare (contents (archive_tree l4) t3) = map bare (ps @ x # qs)"
    unfolding l4(8) using bare_adjusted [OF x(2)] by simp
  have "map evaluation_number zs = map evaluation_number (map bare zs)" for zs by (simp add: comp_def)
  then have numbers: "map evaluation_number (contents (archive_tree l4) t3) = map evaluation_number (ps @ x # qs)"
    using bares by metis
  then have number_set: "evaluation_number ` set (contents (archive_tree l4) t3) = evaluation_number ` set (ps @ x # qs)"
    by (metis set_map)
  have older: "\<forall>y \<in> set (ps @ rs @ qs). evaluation_number y < evaluation_number x" using ev(1) c by simp
  have latest: "\<forall>y \<in> set (contents (archive_tree l4) t3). evaluation_number y \<le> evaluation_number x"
  proof
    fix y assume "y \<in> set (contents (archive_tree l4) t3)"
    then have "evaluation_number y \<in> evaluation_number ` set (ps @ x # qs)" unfolding number_set [symmetric] by blast
    with older show "evaluation_number y \<le> evaluation_number x" by (auto intro: less_imp_le)
  qed
  have "biobj_inv m l4 t3 tb3"
    unfolding biobj_inv_def
  proof (intro conjI)
    show "finite (dom (nodes (archive_tree l4)))"
      unfolding l4(7) using s3(9) finite_subset [OF dom2 i(3)] by (meson finite.insertI finite_subset)
    show "front (archive_front l4 t3)" unfolding fronts by (rule fr)
    show "biobj_number_of_objectives l4 = 2" "has_indicator l4"
      using f4(2) i(4,5) has_indicator_settings [OF set4] by simp_all
    show "compute_indicators l4 \<longrightarrow> contributed 1 (contents (archive_tree l4) t3)
      \<and> current_value l4 = total_contribution (contents (archive_tree l4) t3)"
    proof
      assume "compute_indicators l4"
      then have comp: "compute_indicators l" "compute_indicators l2" using f4(1) comp2 by simp_all
      have "contributed 1 ?a"
        using i(6) [OF comp(1)] ok dom fr x(2) unfolding c by (intro adjusted_contributed [of ps rs qs]) simp_all
      moreover have "current_value l4 = total_contribution ?a"
        using l4(9) [OF comp(2)] l2(6) [OF comp(1)] i(6) [OF comp(1)] x(2) by (simp add: c)
      ultimately show "contributed 1 (contents (archive_tree l4) t3)
        \<and> current_value l4 = total_contribution (contents (archive_tree l4) t3)" using l4(8) comp(2) by simp
    qed
    show "buffer_ok l4 tb3" using sb(2) l4(3) by (simp add: buffer_ok_def)
    show "distinct (map evaluation_number (contents (archive_tree l4) t3))"
      unfolding numbers using i(7) older by (auto simp: c)
    show "\<forall>x \<in> set (contents (archive_tree l4) t3). evaluation_number x \<le> biobj_number_of_evaluations l4"
      using latest ev(3) f4(3) by auto
    show "bare ` set (contents (buffer_tree l4) tb3)
        = bare ` {x \<in> set (contents (archive_tree l4) t3). m < evaluation_number x}"
    proof -
      have "set (contents (buffer_tree l4) tb3)
          = insert x {y \<in> set (contents (buffer_tree l) tb). evaluation_number y \<notin> evaluation_number ` set rs}"
        using sb(3) l4(3) by (simp add: l2(5))
      then show ?thesis using buffer_solutions [OF _ _ ev(2) bares, of rs "set (contents (buffer_tree l) tb)"] i(7,10)
        by (simp add: c)
    qed
  qed (use l4 in simp_all)
  moreover have "archive_front l4 t3 = front_add (front_item x) (archive_front l t)"
    unfolding fronts r(7) by (simp add: ps_def qs_def)
  moreover have "size t3 = size t2 + 1"
  proof -
    have "length (inorder t3) = length (inorder t2) + 1" unfolding s3(3) r(4) by simp
    then show ?thesis by simp
  qed
  ultimately show ?thesis using run set4 latest sb(4) size2(2) size2b(2) False
    by (intro exI [of _ l4] exI [of _ t3] exI [of _ tb3]) simp
qed

end
