(* ===== verification/Coco_Biobj_Values.thy ===== *)
theory Coco_Biobj_Values
  imports Coco_Biobj_Updates
begin

text \<open>
  The value that the bi-objective logger reports after a sequence of solutions, and the lines that it
  writes: the reference value minus the dominated part of the region of interest, plus the smallest distance
  to the region while nothing in it is dominated.
\<close>

section \<open>The front of a sequence of solutions\<close>

lemma normalized_bounds: "normalized x \<Longrightarrow> 0 \<le> y0 x \<and> 0 \<le> y1 x"
  by (rule nonnegative)

lemma covers_refl: "covers x x"
  by (simp add: covers_def)

lemma covers_transitive: "covers x y \<Longrightarrow> covers y z \<Longrightarrow> covers x z"
  by (auto simp: covers_def)

lemma dominates_covers: "dominates x z \<Longrightarrow> covers x z"
  by (simp add: dominates_def covers_def)

lemma front_of_items:
  assumes "\<forall>x \<in> set xs. normalized x"
  shows "set (fold front_add xs []) \<subseteq> set xs \<and> (\<forall>x \<in> set xs. \<exists>z \<in> set (fold front_add xs []). covers z x)
    \<and> dominated_cells (fold front_add xs []) = dominated_cells xs"
  using assms
proof (induction xs rule: rev_induct)
  case (snoc x xs)
  let ?F = "fold front_add xs []"
  have x: "normalized x" and IH: "set ?F \<subseteq> set xs" "\<forall>x \<in> set xs. \<exists>z \<in> set ?F. covers z x"
    "dominated_cells ?F = dominated_cells xs" using snoc by simp_all
  have F: "\<forall>z \<in> set ?F. normalized z" using IH(1) snoc.prems by auto
  have cells: "dominated_cells (front_add x ?F) = dominated_cells (xs @ [x])"
    unfolding dominated_cells_front_add [OF x F] using IH(3) by (auto simp: dominated_cells_def)
  show ?case
  proof (cases "\<exists>z \<in> set ?F. covers z x")
    case True
    then have "front_add x ?F = ?F" by (simp add: front_add_def)
    with True IH cells show ?thesis by auto
  next
    case False
    note s = set_front_add [OF x F False]
    have "\<exists>z \<in> set (front_add x ?F). covers z v" if "v \<in> set (xs @ [x])" for v
    proof (cases "v = x")
      case False
      with that IH(2) obtain z where z: "z \<in> set ?F" "covers z v" by auto
      show ?thesis
      proof (cases "dominates x z")
        case True
        with z have "covers x v" by (blast intro: covers_transitive dominates_covers)
        then show ?thesis by (auto simp: s)
      qed (use z in \<open>auto simp: s\<close>)
    qed (use covers_refl in \<open>auto simp: s\<close>)
    moreover have "set (front_add x ?F) \<subseteq> set (xs @ [x])" using IH(1) by (auto simp: s)
    ultimately show ?thesis using cells by simp
  qed
qed (simp add: dominated_cells_def)

lemma covered_by_front:
  assumes "\<forall>x \<in> set xs. normalized x"
  shows "(\<exists>z \<in> set (fold front_add xs []). covers z x) \<longleftrightarrow> (\<exists>z \<in> set xs. covers z x)"
  using front_of_items [OF assms] by (blast intro: covers_transitive)

section \<open>The value of the indicator\<close>

definition dominated_volume :: "archive_item list \<Rightarrow> real" where
  "dominated_volume xs = real (card (dominated_cells xs)) * mo_discretization ^ 2"

lemma dominated_cells_subset: "dominated_cells xs \<subseteq> {..<roi} \<times> {..<roi}"
  by (auto simp: dominated_cells_def)

lemma dominated_volume_bounds: "0 \<le> dominated_volume xs" "dominated_volume xs \<le> 1"
proof -
  show "0 \<le> dominated_volume xs" by (simp add: dominated_volume_def)
  have "card (dominated_cells xs) \<le> card ({..<roi} \<times> {..<roi})"
    by (rule card_mono [OF _ dominated_cells_subset]) simp
  then have "card (dominated_cells xs) \<le> roi * roi" by simp
  then have "dominated_volume xs \<le> real (roi * roi) * mo_discretization ^ 2"
    unfolding dominated_volume_def by (intro mult_right_mono of_nat_mono) simp_all
  then show "dominated_volume xs \<le> 1" by (simp add: mo_discretization_def power2_eq_square)
qed

lemma dominated_volume_mono:
  assumes "dominated_cells xs \<subseteq> dominated_cells ys"
  shows "dominated_volume xs \<le> dominated_volume ys"
proof -
  have "finite (dominated_cells ys)" by (rule finite_subset [OF dominated_cells_subset]) simp
  then have "card (dominated_cells xs) \<le> card (dominated_cells ys)" using assms by (rule card_mono)
  then show ?thesis unfolding dominated_volume_def by (intro mult_right_mono of_nat_mono) simp_all
qed

lemma dominated_volume_covered:
  assumes "\<forall>z \<in> set (x # xs). normalized z" "\<exists>z \<in> set xs. covers z x"
  shows "dominated_volume (xs @ [x]) = dominated_volume xs"
proof -
  have "front_add x xs = xs" using assms(2) by (simp add: front_add_def)
  then have "dominated_cells (x # xs) = dominated_cells xs"
    using dominated_cells_front_add [of x xs] assms(1) by simp
  moreover have "dominated_cells (xs @ [x]) = dominated_cells (x # xs)" by (auto simp: dominated_cells_def)
  ultimately show ?thesis by (simp add: dominated_volume_def)
qed

text \<open>The Euclidean distance to the region of interest.\<close>

definition roi_distance :: "archive_item \<Rightarrow> real" where
  "roi_distance x = sqrt ((max 0 (y0 x - 1)) ^ 2 + (max 0 (y1 x - 1)) ^ 2)"

lemma distance_ok:
  assumes "normalized x"
  shows "mo_get_distance_to_ROI (normalized_y x) 2 = Inr (roi_distance x)"
proof -
  have inside: "mo_is_within_ROI (normalized_y x) 2 = Inr (y0 x \<le> 1 \<and> y1 x \<le> 1)"
    unfolding within_ROI_item [OF assms] one_on_grid y_cell [OF assms] by (simp only: grid_le)
  obtain a b where "normalized_y x = grid [a, b]" using assms by (auto simp: normalized_def)
  then have l: "length (normalized_y x) = 2" by (simp add: grid2)
  have e: "rnth (normalized_y x) 0 = Inr (y0 x)" "rnth (normalized_y x) (Suc 0) = Inr (y1 x)"
    using l by (simp_all add: rnth_def)
  show ?thesis
    using normalized_bounds [OF assms]
    by (auto simp: mo_get_distance_to_ROI_def inside e roi_distance_def Let_def max_def)
qed

lemma roi_distance_bounds:
  assumes "y0 x \<le> B" "y1 x \<le> B" "0 \<le> B"
  shows "0 \<le> roi_distance x" "roi_distance x \<le> 2 * B"
proof -
  have "roi_distance x \<le> max 0 (y0 x - 1) + max 0 (y1 x - 1)"
    unfolding roi_distance_def by (rule sqrt_sum_squares_le_sum) simp_all
  then show "roi_distance x \<le> 2 * B" using assms by linarith
qed (simp add: roi_distance_def)

lemma roi_distance_covers: "covers z x \<Longrightarrow> roi_distance z \<le> roi_distance x"
  unfolding roi_distance_def covers_def by (intro real_sqrt_le_mono add_mono power_mono max.mono) auto

definition penalty_of :: "archive_item list \<Rightarrow> real" where
  "penalty_of xs = (if coco_double_almost_equal (dominated_volume xs) 0 mo_precision
     then Min (roi_distance ` set xs) else 0)"

definition overall_of :: "real \<Rightarrow> archive_item list \<Rightarrow> real" where
  "overall_of best xs = best - dominated_volume xs + penalty_of xs"

definition overall_values :: "real \<Rightarrow> archive_item list \<Rightarrow> real list" where
  "overall_values best xs = map (\<lambda>j. overall_of best (take (Suc j) xs)) [0..<length xs]"

lemma overall_values_snoc: "overall_values best (xs @ [x]) = overall_values best xs @ [overall_of best (xs @ [x])]"
  by (simp add: overall_values_def)

lemma overall_last: "xs \<noteq> [] \<Longrightarrow> overall_of best xs \<in> set (overall_values best xs)"
  by (cases xs rule: rev_cases) (simp_all add: overall_values_snoc)

lemma penalty_nonnegative: "xs \<noteq> [] \<Longrightarrow> 0 \<le> penalty_of xs"
  by (auto simp: penalty_of_def roi_distance_def)

lemma Min_snoc: "xs \<noteq> [] \<Longrightarrow> Min (f ` set (xs @ [x])) = min (f x) (Min (f ` set xs))"
proof -
  assume "xs \<noteq> []"
  moreover have "f ` set (xs @ [x]) = insert (f x) (f ` set xs)" by simp
  ultimately show ?thesis by (simp only: finite_imageI finite_set Min_insert image_is_empty set_empty not_False_eq_True)
qed

lemma penalty_snoc:
  assumes "xs \<noteq> []"
  shows "penalty_of (xs @ [x]) = (if coco_double_almost_equal (dominated_volume (xs @ [x])) 0 mo_precision
    then coco_double_min (penalty_of xs) (roi_distance x) else 0)"
proof (cases "coco_double_almost_equal (dominated_volume (xs @ [x])) 0 mo_precision")
  case True
  have "dominated_volume xs \<le> dominated_volume (xs @ [x])"
    by (rule dominated_volume_mono) (auto simp: dominated_cells_def)
  then have "coco_double_almost_equal (dominated_volume xs) 0 mo_precision"
    using True dominated_volume_bounds(1) [of xs] by (simp add: coco_double_almost_equal_def)
  then show ?thesis unfolding penalty_of_def Min_snoc [OF assms]
    using True by (simp only: if_True coco_double_min_def min_def) auto
qed (simp add: penalty_of_def)

lemma overall_covered:
  assumes "\<forall>z \<in> set (x # xs). normalized z" "z \<in> set xs" "covers z x"
  shows "penalty_of (xs @ [x]) = penalty_of xs" "overall_of best (xs @ [x]) = overall_of best xs"
proof -
  have v: "dominated_volume (xs @ [x]) = dominated_volume xs"
    using assms by (intro dominated_volume_covered) auto
  have "Min (roi_distance ` set xs) \<le> roi_distance x"
    using roi_distance_covers [OF assms(3)] assms(2) by (meson Min_le finite_imageI finite_set image_eqI order_trans)
  moreover have "xs \<noteq> []" using assms(2) by auto
  ultimately show "penalty_of (xs @ [x]) = penalty_of xs"
    unfolding penalty_of_def v Min_snoc [OF \<open>xs \<noteq> []\<close>] by (simp only: min_absorb2)
  with v show "overall_of best (xs @ [x]) = overall_of best xs" by (simp add: overall_of_def)
qed

lemma overall_bounds:
  assumes "xs \<noteq> []" "\<forall>x \<in> set xs. y0 x \<le> 10 ^ 9 \<and> y1 x \<le> 10 ^ 9" "\<bar>best\<bar> \<le> 1"
  shows "\<bar>overall_of best xs\<bar> \<le> 10 ^ 30"
proof -
  have "hd xs \<in> set xs" using assms(1) by simp
  then have "Min (roi_distance ` set xs) \<le> roi_distance (hd xs)" by (intro Min_le) auto
  also have "\<dots> \<le> 2 * 10 ^ 9" using assms(2) \<open>hd xs \<in> set xs\<close> by (intro roi_distance_bounds(2)) auto
  finally have "penalty_of xs \<le> 2 * 10 ^ 9" by (simp add: penalty_of_def)
  then show ?thesis
    using penalty_nonnegative [OF assms(1)] dominated_volume_bounds [of xs] assms(3) by (simp add: overall_of_def)
qed

end
