(* ===== verification/Coco_Logger_Bbob.thy ===== *)
theory Coco_Logger_Bbob
  imports Coco_Logger_Toy
begin

text \<open>
  The bbob logger (\<open>logger_bbob.c\<close>): an index file for a function, data files for every dimension, lines
  in the .dat file when a target is hit, and in the .tdat file at given numbers of evaluations. The global
  variables of the file are a record. The mutex around the initialization, the log level and the
  flushing of streams are not modelled. The names are built in buffers of 4096 bytes, which the numbers of
  at most 20 digits never fill.
\<close>

section \<open>Data\<close>

record bbob_globals =
  bbob_current_dim :: nat
  bbob_current_funId :: nat
  bbob_infoFile_firstInstance :: nat
  bbob_dimensions_in_current_infoFile :: "nat list"
  bbob_logger_is_open :: bool

definition bbob_number_of_dimensions :: nat where
  "bbob_number_of_dimensions = 6"

definition initial_bbob_globals :: bbob_globals where
  "initial_bbob_globals = \<lparr> bbob_current_dim = 0, bbob_current_funId = 0, bbob_infoFile_firstInstance = 0,
     bbob_dimensions_in_current_infoFile = replicate 6 0, bbob_logger_is_open = False \<rparr>"

text \<open>The best value is not initialized before the first evaluation; NaN stands for it.\<close>

record logger_bbob_data_t =
  bbob_observer :: coco_observer_t
  is_initialized :: bool
  index_file :: "string option"
  fdata_file :: "string option"
  tdata_file :: "string option"
  rdata_file :: "string option"
  bbob_number_of_evaluations :: nat
  bbob_evaluations_constraints :: nat
  best_fvalue :: double
  last_fvalue :: double
  written_last_eval :: bool
  best_solution :: "double list"
  function_id :: nat
  instance_id :: nat
  bbob_number_of_variables :: nat
  bbob_number_of_integer_variables :: nat
  bbob_log_discrete_as_int :: int
  optimal_fvalue :: double
  bbob_targets :: coco_observer_targets_t
  bbob_evaluations :: coco_observer_evaluations_t

abbreviation fields where "fields \<equiv> Coco_Problem.fields"

type_synonym bbob_state = "logger_bbob_data_t \<times> bbob_globals \<times> file_system"

definition fvalue_logged_for_infinite :: double where
  "fvalue_logged_for_infinite = Real (3 * 10 ^ 21)"

definition fvalue_logged_for_nan :: double where
  "fvalue_logged_for_nan = Real (2 * 10 ^ 21)"

section \<open>Lines\<close>

definition constraint_limits :: "real list" where
  "constraint_limits = [0, 1 / 10 ^ 7, 1 / 10 ^ 6, 1 / 10 ^ 5, 1 / 10 ^ 4, 1 / 10 ^ 3, 1 / 10 ^ 2, 1 / 10, 1]"

definition single_digit_constraint_value :: "double \<Rightarrow> nat" where
  "single_digit_constraint_value c = length (takeWhile (\<lambda>limit. \<not> c \<le> Real limit) constraint_limits)"

fun variables_text :: "int \<Rightarrow> nat \<Rightarrow> double list \<Rightarrow> chunk list result" where
  "variables_text discrete n_int [] = Inr []"
| "variables_text discrete n_int (v # vs) =
     rbind (if n_int > 0 \<and> discrete \<noteq> 0
            then rbind (double_to_int v) (\<lambda>k. Inr [Text ('' '' @ show_int k)])
            else Inr [Text '' '', Number ''%+5.4e'' v]) (\<lambda>c.
     rbind (variables_text discrete (n_int - 1) vs) (\<lambda>cs. Inr (c @ cs)))"

text \<open>\<open>constraints\<close> is \<open>None\<close> for NULL.\<close>

definition logger_bbob_write_data ::
    "string option \<Rightarrow> nat \<Rightarrow> nat \<Rightarrow> double \<Rightarrow> double \<Rightarrow> double \<Rightarrow> double list \<Rightarrow> nat \<Rightarrow> nat \<Rightarrow> double list option \<Rightarrow> nat
      \<Rightarrow> int \<Rightarrow> file_system \<Rightarrow> file_system result" where
  "logger_bbob_write_data target_file f_evaluations cons_evaluations fvalue best optimal x n n_int constraints
      m discrete fs =
     rbind (if m > 0
        then case constraints of
            Some c \<Rightarrow>
              rbind (copy_vector c m) (\<lambda>c. Inr (map (\<lambda>v. Text (show_nat (single_digit_constraint_value v))) c))
          | None \<Rightarrow> Inr (map (\<lambda>i. Text (show_nat (i mod 10))) [0..<m])
        else Inr [Number ''%+10.9e'' best]) (\<lambda>fifth.
     rbind (if size_sub n n_int < 22
        then rbind (copy_vector x n) (variables_text discrete n_int) else Inr []) (\<lambda>variables.
       fprintf target_file
         ([Text (show_nat f_evaluations @ '' '' @ show_nat cons_evaluations @ '' ''),
           Number ''%+10.9e'' (best - optimal), Text '' '', Number ''%+10.9e'' fvalue, Text '' '']
          @ fifth @ variables @ [Text newline]) fs))"

definition bbob_file_header_str :: "double \<Rightarrow> chunk list" where
  "bbob_file_header_str optimal =
     [Text ''% f evaluations | g evaluations | best noise-free fitness - Fopt ('', Number ''%13.12e'' optimal,
      Text ('') + sum g_i+ | measured fitness | best measured fitness or single-digit g-values | x1 | x2...''
        @ newline)]"

section \<open>Opening the files\<close>

definition logger_bbob_open_dataFile ::
    "string option \<Rightarrow> string \<Rightarrow> string \<Rightarrow> string \<Rightarrow> file_system \<Rightarrow> (string option \<times> file_system) result" where
  "logger_bbob_open_dataFile target_file path dataFile_path file_extension fs =
     rbind (coco_join_path [] (COCO_PATH_MAX + 2) [path, dataFile_path @ file_extension]) (\<lambda>file_path.
       if target_file \<noteq> None then Inr (target_file, fs)
       else rbind (open_append ''logger_bbob_error_io'' file_path fs) (\<lambda>(f, fs). Inr (Some f, fs)))"

definition info_file_name :: "string \<Rightarrow> nat \<Rightarrow> string" where
  "info_file_name prefix first_instance = prefix @ ''_i'' @ show_nat first_instance @ ''.info''"

text \<open>
  The index file for a new dimension or function: whether a line is started, the path of the file and the
  changed globals. \<open>i\<close> is the position of the dimension in the list of the current file.
\<close>

definition new_index_entry ::
    "nat \<Rightarrow> nat \<Rightarrow> nat \<Rightarrow> string \<Rightarrow> bbob_globals \<Rightarrow> (bool \<times> string \<times> bbob_globals) result" where
  "new_index_entry n funId inst file_path g =
     (if bbob_current_dim g \<noteq> n
      then
        let dims = bbob_dimensions_in_current_infoFile g;
            i = length (takeWhile (\<lambda>d. d \<noteq> 0 \<and> d \<noteq> n) dims)
        in if i < bbob_number_of_dimensions \<and> dims ! i = 0
           then Inr (True, file_path, g\<lparr>bbob_dimensions_in_current_infoFile := dims[i := n]\<rparr>)
           else
             let old = show_nat (bbob_infoFile_firstInstance g);
                 (newLine, file_path, g) =
                   (if i < bbob_number_of_dimensions
                    then (False, info_file_name (take (length file_path - length old - 7) file_path) inst,
                      g\<lparr>bbob_infoFile_firstInstance := inst\<rparr>)
                    else (True, file_path, g))
             in rbind (rupd (replicate bbob_number_of_dimensions 0) i n) (\<lambda>dims.
                  Inr (newLine, file_path, g\<lparr>bbob_dimensions_in_current_infoFile := dims\<rparr>))
      else Inr (bbob_current_funId g \<noteq> funId, file_path, g))"

text \<open>\<open>(int) strtol(s, NULL, 10)\<close> for the text of a number.\<close>

definition strtol_int :: "nat \<Rightarrow> int" where
  "strtol_int n = (int (min n (2 ^ 63 - 1)) + 2 ^ 31) mod 2 ^ 32 - 2 ^ 31"

definition index_line :: "string \<Rightarrow> string \<Rightarrow> nat \<Rightarrow> nat \<Rightarrow> string \<Rightarrow> nat \<Rightarrow> chunk list" where
  "index_line suite algorithm funId n dataFile_path first_instance =
     [Text (''suite = '' @ quoted suite @ '', funcId = '' @ show_int (strtol_int funId) @ '', DIM = '' @ show_nat n
        @ '', Precision = ''), Number ''%.3e'' (Real (1 / 10 ^ 8)),
      Text ('', algId = '' @ quoted algorithm @ '', coco_version = '' @ quoted coco_version
        @ '', logger = '' @ quoted ''bbob'' @ '', data_format = '' @ quoted ''bbob-new2'' @ newline),
      Text (''%'' @ newline), Text (dataFile_path @ ''_i'' @ show_nat first_instance @ ''.dat'')]"

definition logger_bbob_openIndexFile ::
    "logger_bbob_data_t \<Rightarrow> string \<Rightarrow> string \<Rightarrow> nat \<Rightarrow> string \<Rightarrow> string \<Rightarrow> bbob_globals \<Rightarrow> file_system \<Rightarrow> bbob_state result" where
  "logger_bbob_openIndexFile logger folder_path indexFile_prefix funId dataFile_path suite g fs =
     (let g = (if bbob_infoFile_firstInstance g = 0
               then g\<lparr>bbob_infoFile_firstInstance := instance_id logger\<rparr> else g);
          n = bbob_number_of_variables logger;
          file_name = info_file_name (indexFile_prefix @ ''_f'' @ show_nat (function_id logger))
            (bbob_infoFile_firstInstance g)
      in rbind (coco_join_path [] (COCO_PATH_MAX + 2) [folder_path, file_name]) (\<lambda>file_path.
         if index_file logger \<noteq> None then Inr (logger, g, fs)
         else
           let exists = fopen_read file_path fs in
           if exists \<and> bbob_current_dim g = n \<and> bbob_current_funId g = function_id logger
           then rbind (open_append ''logger_bbob_error_io'' file_path fs) (\<lambda>(f, fs). Inr (logger\<lparr>index_file := Some f\<rparr>, g, fs))
           else
             rbind (new_index_entry n (function_id logger) (instance_id logger) file_path g) (\<lambda>(newLine, file_path, g).
             rbind (open_append ''logger_bbob_error_io'' file_path fs) (\<lambda>(f, fs).
             rbind (if exists \<and> newLine then fprintf (Some f) [Text newline] fs else Inr fs) (\<lambda>fs.
             rbind (fprintf (Some f) (index_line suite (algorithm_name (bbob_observer logger)) funId n dataFile_path
                 (bbob_infoFile_firstInstance g)) fs) (\<lambda>fs.
               Inr (logger\<lparr>index_file := Some f\<rparr>,
                 g\<lparr>bbob_current_dim := n, bbob_current_funId := function_id logger\<rparr>, fs)))))))"

text \<open>Opening one of the three data files and writing its header.\<close>

definition open_with_header ::
    "string option \<Rightarrow> string \<Rightarrow> string \<Rightarrow> string \<Rightarrow> double \<Rightarrow> file_system \<Rightarrow> (string option \<times> file_system) result" where
  "open_with_header target_file path dataFile_path file_extension optimal fs =
     rbind (logger_bbob_open_dataFile target_file path dataFile_path file_extension fs) (\<lambda>(f, fs).
     rbind (fprintf f (bbob_file_header_str optimal) fs) (\<lambda>fs. Inr (f, fs)))"

definition logger_bbob_initialize :: "suite_link \<Rightarrow> coco_problem_t \<Rightarrow> bbob_state \<Rightarrow> bbob_state result" where
  "logger_bbob_initialize link inner_problem s =
     (case s of (logger, g, fs) \<Rightarrow>
        if is_initialized logger then Inr s
        else if problem_id (fields inner_problem) = None then Inl (Assert_failed ''logger_bbob_initialize'')
        else
          rbind (coco_problem_get_suite_dep_function link) (\<lambda>funId.
          let folder = result_folder (bbob_observer logger);
              dataFile_path = ''data_f'' @ show_nat funId
          in rbind (coco_join_path [] (COCO_PATH_MAX + 2) [folder, dataFile_path]) (\<lambda>folder_path.
             rbind (coco_create_directory folder_path fs) (\<lambda>(_, fs).
             let dataFile_path = dataFile_path @ ''/bbobexp_f'' @ show_nat funId
                   @ ''_DIM'' @ show_nat (number_of_variables (fields inner_problem))
             in rbind (linked_suite ''logger_bbob_initialize'' link) (\<lambda>suite.
                rbind (logger_bbob_openIndexFile logger folder ''bbobexp'' funId dataFile_path suite g fs) (\<lambda>(logger, g, fs).
                rbind (coco_problem_get_suite_dep_instance link) (\<lambda>inst.
                rbind (fprintf (index_file logger) [Text ('', '' @ show_nat inst)] fs) (\<lambda>fs.
                let dataFile_path = dataFile_path @ ''_i'' @ show_nat (bbob_infoFile_firstInstance g)
                in rbind (open_with_header (fdata_file logger) folder dataFile_path ''.dat'' (optimal_fvalue logger) fs) (\<lambda>(dat, fs).
                   rbind (open_with_header (tdata_file logger) folder dataFile_path ''.tdat'' (optimal_fvalue logger) fs) (\<lambda>(tdat, fs).
                   rbind (open_with_header (rdata_file logger) folder dataFile_path ''.rdat'' (optimal_fvalue logger) fs) (\<lambda>(rdat, fs).
                     Inr (logger\<lparr>fdata_file := dat, tdata_file := tdat, rdata_file := rdat, is_initialized := True\<rparr>,
                       g, fs))))))))))))"


section \<open>Evaluation\<close>

definition weight_constraints :: real where
  "weight_constraints = 1"

text \<open>The logged values are never NaN or infinite.\<close>

definition logged_value :: "double \<Rightarrow> double" where
  "logged_value v =
     (if coco_is_nan v then fvalue_logged_for_nan else if coco_is_inf v then fvalue_logged_for_infinite else v)"

definition sum_of_violations :: "double list \<Rightarrow> double" where
  "sum_of_violations cons =
     logged_value (foldl (\<lambda>s c. if Real 0 < c then s + c else s) (Real 0) cons * Real weight_constraints)"

text \<open>The data of the logger with the number and the value of the current evaluation.\<close>

definition count_evaluation :: "coco_problem_s \<Rightarrow> double \<Rightarrow> logger_bbob_data_t \<Rightarrow> logger_bbob_data_t" where
  "count_evaluation p v logger = logger\<lparr>bbob_evaluations_constraints := evaluations_constraints p,
     bbob_number_of_evaluations := size_t (bbob_number_of_evaluations logger + 1),
     written_last_eval := False, last_fvalue := v\<rparr>"

definition write_evaluation ::
    "string option \<Rightarrow> logger_bbob_data_t \<Rightarrow> coco_problem_s \<Rightarrow> double \<Rightarrow> double list \<Rightarrow> double list option
      \<Rightarrow> file_system \<Rightarrow> file_system result" where
  "write_evaluation target_file logger p v x cons fs =
     logger_bbob_write_data target_file (bbob_number_of_evaluations logger) (bbob_evaluations_constraints logger) v
       (best_fvalue logger) (optimal_fvalue logger) x (number_of_variables p) (Coco_Problem.number_of_integer_variables p) cons
       (number_of_constraints p) (bbob_log_discrete_as_int logger) fs"

text \<open>The best value, and a line in the .dat file at the first evaluation and at every target that is hit.\<close>

definition update_best ::
    "coco_problem_s \<Rightarrow> double \<Rightarrow> double \<Rightarrow> double list \<Rightarrow> double list option \<Rightarrow> logger_bbob_data_t \<times> file_system
      \<Rightarrow> (logger_bbob_data_t \<times> file_system) result" where
  "update_best p sum_value v x cons s =
     (case s of (logger, fs) \<Rightarrow>
        if bbob_number_of_evaluations logger = 1 \<or> sum_value < best_fvalue logger
        then
          rbind (copy_vector x (number_of_variables p)) (\<lambda>solution.
          let logger = logger\<lparr>best_fvalue := sum_value, best_solution := solution\<rparr>
          in rbind (if bbob_number_of_evaluations logger = 1 then Inr (True, bbob_targets logger)
                    else coco_observer_targets_trigger (bbob_targets logger)
                      (best_fvalue logger - optimal_fvalue logger)) (\<lambda>(hit, targets).
             let logger = logger\<lparr>bbob_targets := targets\<rparr>
             in if hit
                then rbind (write_evaluation (fdata_file logger) logger p v x cons fs) (\<lambda>fs. Inr (logger, fs))
                else Inr (logger, fs)))
        else Inr (logger, fs))"

text \<open>A line in the .tdat file at the numbers of evaluations of the trigger.\<close>

definition log_evaluation_number ::
    "coco_problem_s \<Rightarrow> double \<Rightarrow> double list \<Rightarrow> double list option \<Rightarrow> logger_bbob_data_t \<times> file_system
      \<Rightarrow> (logger_bbob_data_t \<times> file_system) result" where
  "log_evaluation_number p v x cons s =
     (case s of (logger, fs) \<Rightarrow>
        rbind (coco_observer_evaluations_trigger (bbob_evaluations logger)
            (size_t (bbob_number_of_evaluations logger + bbob_evaluations_constraints logger))) (\<lambda>(hit, evals).
          let logger = logger\<lparr>bbob_evaluations := evals\<rparr>
          in if hit
             then rbind (write_evaluation (tdata_file logger) logger p v x cons fs) (\<lambda>fs.
                    Inr (logger\<lparr>written_last_eval := True\<rparr>, fs))
             else Inr (logger, fs)))"

definition logger_bbob_evaluate :: "suite_link \<Rightarrow> bbob_state evaluator" where
  "logger_bbob_evaluate link problem x s =
     (case problem of
        Transformed p t inner \<Rightarrow>
          rbind (if number_of_constraints p = 0 then Inr (True, inner) else coco_is_feasible inner x) (\<lambda>(feasible, inner).
          rbind (logger_bbob_initialize link inner s) (\<lambda>(logger, g, fs).
          rbind (coco_evaluate_function inner x) (\<lambda>(y, inner).
          rbind (rnth y 0) (\<lambda>v.
            let logger = count_evaluation p v logger;
                y_logged = logged_value v
            in if feasible \<and> \<not> optimal_fvalue logger \<le> y_logged + Real (1 / 10 ^ 13)
               then Inl (Assert_failed ''logger_bbob_evaluate'')
               else
                 rbind (if number_of_constraints p = 0 then Inr ([], inner)
                        else rbind (call_evaluate_constraint inner x) (\<lambda>(c, inner).
                             rbind (copy_vector c (number_of_constraints p)) (\<lambda>c. Inr (c, inner)))) (\<lambda>(cons, inner).
                 let max_fvalue = (if optimal_fvalue logger < y_logged then y_logged else optimal_fvalue logger);
                     sum_value = max_fvalue + sum_of_violations cons;
                     cons' = (if number_of_constraints p = 0 then None else Some cons)
                 in rbind (update_best p sum_value y_logged x cons' (logger, fs)) (\<lambda>s.
                    rbind (log_evaluation_number p y_logged x cons' s) (\<lambda>(logger, fs).
                      Inr (y, Transformed p t inner, logger, g, fs)))))))) 
      | _ \<Rightarrow> Inl Null_deref)"

section \<open>Constructor and end of a run\<close>

definition logger_bbob_free :: "bbob_state \<Rightarrow> bbob_state result" where
  "logger_bbob_free s =
     (case s of (logger, g, fs) \<Rightarrow>
        rbind (if index_file logger = None then Inr fs
               else fprintf (index_file logger)
                 [Text ('':'' @ show_nat (bbob_number_of_evaluations logger) @ ''|''),
                  Number ''%.1e'' (best_fvalue logger - optimal_fvalue logger)] fs) (\<lambda>fs.
        rbind (if tdata_file logger = None \<or> written_last_eval logger then Inr fs
               else logger_bbob_write_data (tdata_file logger) (bbob_number_of_evaluations logger)
                 (bbob_evaluations_constraints logger) (best_fvalue logger) (best_fvalue logger) (optimal_fvalue logger)
                 (best_solution logger) (bbob_number_of_variables logger) (bbob_number_of_integer_variables logger) None 0
                 (bbob_log_discrete_as_int logger) fs) (\<lambda>fs.
          Inr (logger\<lparr>index_file := None, fdata_file := None, tdata_file := None, rdata_file := None\<rparr>,
            g\<lparr>bbob_logger_is_open := False\<rparr>, fs))))"

text \<open>The best solution is not initialized before the first evaluation.\<close>

definition logger_bbob ::
    "coco_observer_t \<Rightarrow> suite_link \<Rightarrow> coco_problem_t \<Rightarrow> bbob_globals \<Rightarrow> file_system \<Rightarrow> (coco_problem_t \<times> bbob_state) result" where
  "logger_bbob observer link inner_problem g fs =
     (if bbob_logger_is_open g then Inl (Coco_error ''logger_bbob'')
      else
        let p = fields inner_problem
        in rbind (case best_value p of [] \<Rightarrow> Inr (Real 0) | v # _ \<Rightarrow> Inr v) (\<lambda>optimal.
           rbind (coco_allocate_vector (number_of_variables p)) (\<lambda>solution.
           rbind (coco_problem_get_suite_dep_function link) (\<lambda>funId.
           rbind (coco_problem_get_suite_dep_instance link) (\<lambda>inst.
           rbind (coco_observer_evaluations (base_evaluation_triggers observer) (number_of_variables p)) (\<lambda>evals.
           rbind (coco_problem_transformed_allocate inner_problem Logged (observer_name observer)) (\<lambda>problem.
             Inr (own_function problem,
               \<lparr> bbob_observer = observer, is_initialized = False, index_file = None, fdata_file = None,
                 tdata_file = None, rdata_file = None, bbob_number_of_evaluations = 0,
                 bbob_evaluations_constraints = 0, best_fvalue = NaN, last_fvalue = Real DBL_MAX,
                 written_last_eval = False, best_solution = solution, function_id = funId, instance_id = inst,
                 bbob_number_of_variables = number_of_variables p,
                 bbob_number_of_integer_variables = Coco_Problem.number_of_integer_variables p,
                 bbob_log_discrete_as_int = observer_log_discrete_as_int observer, optimal_fvalue = optimal,
                 bbob_targets = coco_observer_targets (number_target_triggers observer) (observer_target_precision observer),
                 bbob_evaluations = evals \<rparr>, g\<lparr>bbob_logger_is_open := True\<rparr>, fs))))))))"


section \<open>What a run writes\<close>

text \<open>
  A line for an unconstrained problem with \<open>d\<close> continuous variables. The values after the first one that
  improve on all values before reach the trigger; the first value does not.
\<close>

definition bbob_line :: "nat \<Rightarrow> real \<Rightarrow> nat \<Rightarrow> real \<Rightarrow> real \<Rightarrow> real list \<Rightarrow> chunk list" where
  "bbob_line d fo k v best x =
     [Text (show_nat k @ '' 0 ''), Number ''%+10.9e'' (Real (best - fo)), Text '' '', Number ''%+10.9e'' (Real v),
      Text '' '', Number ''%+10.9e'' (Real best)]
     @ (if d < 22 then concat (map (\<lambda>v. [Text '' '', Number ''%+5.4e'' (Real v)]) x) else []) @ [Text newline]"

definition registered_values :: "real \<Rightarrow> (real list \<times> real) list \<Rightarrow> real list" where
  "registered_values fo = run_lines (\<lambda>h e. if h \<noteq> [] \<and> improves h e then [snd e - fo] else [])"

definition dat_lines :: "nat \<Rightarrow> nat \<Rightarrow> real \<Rightarrow> real \<Rightarrow> (real list \<times> real) list \<Rightarrow> real list \<times> real \<Rightarrow> chunk list" where
  "dat_lines d N P fo h e =
     (if h = [] \<or> improves h e \<and> hits_target N P (registered_values fo h) (snd e - fo)
      then bbob_line d fo (Suc (length h)) (snd e) (snd e) (fst e) else [])"

definition tdat_lines :: "nat \<Rightarrow> nat list \<Rightarrow> real \<Rightarrow> (real list \<times> real) list \<Rightarrow> real list \<times> real \<Rightarrow> chunk list" where
  "tdat_lines d bs fo h e =
     (if logged_evaluation bs d (Suc (length h))
      then bbob_line d fo (Suc (length h)) (snd e) (Min (set (map snd (h @ [e])))) (fst e) else [])"

text \<open>The constants of a run: triggers, base numbers, the two files and what they held before.\<close>

datatype bbob_run =
  Bbob_run (run_targets: nat) (run_precision: real) (run_base: "nat list") (dat_file: string) (tdat_file: string)
    (info_file: string) (dat_before: "chunk list") (tdat_before: "chunk list") (info_before: "chunk list")

text \<open>The first point with the best value.\<close>

definition best_point :: "(real list \<times> real) list \<Rightarrow> real list" where
  "best_point h = fst (the (find (\<lambda>e. snd e = Min (set (map snd h))) h))"

definition bbob_inv :: "bbob_run \<Rightarrow> nat \<Rightarrow> real \<Rightarrow> (real list \<times> real) list \<Rightarrow> bbob_state \<Rightarrow> bool" where
  "bbob_inv r d fo h s \<longleftrightarrow>
     (case s of (logger, g, fs) \<Rightarrow>
        d < 2 ^ 64 \<and> is_initialized logger \<and> fdata_file logger = Some (dat_file r) \<and> tdata_file logger = Some (tdat_file r)
        \<and> index_file logger = Some (info_file r) \<and> distinct [dat_file r, tdat_file r, info_file r]
        \<and> bbob_number_of_variables logger = d \<and> bbob_number_of_integer_variables logger = 0
        \<and> bbob_evaluations_constraints logger = 0
        \<and> (written_last_eval logger \<longleftrightarrow> h \<noteq> [] \<and> logged_evaluation (run_base r) d (length h))
        \<and> bbob_number_of_evaluations logger = length h \<and> optimal_fvalue logger = Real fo
        \<and> (h \<noteq> [] \<longrightarrow> best_fvalue logger = Real (Min (set (map snd h))) \<and> best_solution logger = map Real (best_point h))
        \<and> targets_after (run_targets r) (run_precision r) (registered_values fo h) (bbob_targets logger)
        \<and> evaluations_wait (bbob_evaluations logger) (run_base r) d (length h)
        \<and> files fs (dat_file r) = Some (dat_before r @ run_lines (dat_lines d (run_targets r) (run_precision r) fo) h)
        \<and> files fs (tdat_file r) = Some (tdat_before r @ run_lines (tdat_lines d (run_base r) fo) h)
        \<and> files fs (info_file r) = Some (info_before r))"

lemma variables_text_real: "variables_text c 0 (map Real x) = Inr (concat (map (\<lambda>v. [Text '' '', Number ''%+5.4e'' (Real v)]) x))"
  by (induction x) simp_all

lemma show_nat_0: "show_nat 0 = ''0''"
  by code_simp

lemma write_evaluation_line:
  assumes "logged_layer p d" "d < 2 ^ 64" "length x = d" "files fs f = Some c"
    and "best_fvalue logger = Real best" "optimal_fvalue logger = Real fo" "bbob_evaluations_constraints logger = 0"
  shows "write_evaluation (Some f) logger p (Real v) (map Real x) None fs
    = Inr (fs\<lparr>files := (files fs)(f \<mapsto> c @ bbob_line d fo (bbob_number_of_evaluations logger) v best x)\<rparr>)"
  using assms
  by (simp add: write_evaluation_def logger_bbob_write_data_def logged_layer_def copy_vector_def size_sub_def
      variables_text_real fprintf_open bbob_line_def show_nat_0)

text \<open>The values that are registered, extended by an evaluation.\<close>

lemma registered_values_snoc:
  "registered_values fo (h @ [e]) = registered_values fo h @ (if h \<noteq> [] \<and> improves h e then [snd e - fo] else [])"
  by (simp add: registered_values_def)

lemma registered_values_single: "registered_values fo [] = []" "registered_values fo [e] = []"
  using registered_values_snoc [of fo "[]" e] by (simp_all add: registered_values_def)

lemma find_append: "find P (xs @ ys) = (case find P xs of None \<Rightarrow> find P ys | Some x \<Rightarrow> Some x)"
  by (induction xs) simp_all

lemma best_point_snoc:
  "best_point (h @ [e]) = (if h = [] \<or> improves h e then fst e else best_point h)"
proof -
  have none: "find (\<lambda>a. snd a = snd e) h = None" if "h = [] \<or> improves h e"
    using that by (auto simp: find_None_iff improves_def)
  have some: "\<exists>a. find (\<lambda>a. snd a = Min (set (map snd h))) h = Some a" if "h \<noteq> []"
  proof (rule ccontr)
    assume "\<nexists>a. find (\<lambda>a. snd a = Min (set (map snd h))) h = Some a"
    then have "find (\<lambda>a. snd a = Min (set (map snd h))) h = None" by (meson not_None_eq)
    then have "\<forall>a \<in> set h. snd a \<noteq> Min (set (map snd h))" by (simp only: find_None_iff) blast
    moreover have "Min (set (map snd h)) \<in> set (map snd h)" using that by (intro Min_in) auto
    ultimately show False by auto
  qed
  consider "h = [] \<or> improves h e" | "h \<noteq> []" "\<not> improves h e" by blast
  then show ?thesis
  proof cases
    case 1
    then show ?thesis using none by (simp only: best_point_def best_after find_append) simp
  next
    case 2
    from some [OF 2(1)] obtain a where "find (\<lambda>a. snd a = Min (set (map snd h))) h = Some a" ..
    then show ?thesis using 2 by (simp only: best_point_def best_after find_append) simp
  qed
qed

lemma update_best_step:
  assumes "logged_layer p d" "d < 2 ^ 64" "length x = d" "trigger_bounds N P (v - fo)"
    and "bbob_number_of_evaluations logger = Suc (length h)" "optimal_fvalue logger = Real fo"
    and "bbob_evaluations_constraints logger = 0" "fdata_file logger = Some f" "files fs f = Some c"
    and "h \<noteq> [] \<longrightarrow> best_fvalue logger = Real (Min (set (map snd h)))"
    and "h \<noteq> [] \<longrightarrow> best_solution logger = map Real (best_point h)"
    and "targets_after N P (registered_values fo h) (bbob_targets logger)"
  shows "\<exists>targets fs'. update_best p (Real v) (Real v) (map Real x) None (logger, fs)
      = Inr (logger\<lparr>best_fvalue := Real (Min (set (map snd (h @ [(x, v)])))), best_solution := map Real (best_point (h @ [(x, v)])),
          bbob_targets := targets\<rparr>, fs')
    \<and> targets_after N P (registered_values fo (h @ [(x, v)])) targets
    \<and> files fs' = (files fs)(f \<mapsto> c @ dat_lines d N P fo h (x, v))"
proof -
  have x: "copy_vector (map Real x) (number_of_variables p) = Inr (map Real x)"
    using assms(1,3) by (simp add: copy_vector_def logged_layer_def)
  let ?w = "\<lambda>targets. logger\<lparr>best_fvalue := Real v, best_solution := map Real x, bbob_targets := targets\<rparr>"
  have w: "write_evaluation (Some f) (?w t) p (Real v) (map Real x) None fs
    = Inr (fs\<lparr>files := (files fs)(f \<mapsto> c @ bbob_line d fo (Suc (length h)) v v x)\<rparr>)" for t
    using write_evaluation_line [OF assms(1,2,3,9), of "?w t"] assms(5-7) by simp
  consider "h = []" | "h \<noteq> []" "improves h (x, v)" | "h \<noteq> []" "\<not> improves h (x, v)" by blast
  then show ?thesis
  proof cases
    case 1
    have "?w (bbob_targets logger) = logger\<lparr>best_fvalue := Real v, best_solution := map Real x\<rparr>" by simp
    with w [of "bbob_targets logger"] 1 show ?thesis
      using x assms(5,6,8,12)
      by (intro exI [of _ "bbob_targets logger"]
          exI [of _ "fs\<lparr>files := (files fs)(f \<mapsto> c @ bbob_line d fo (Suc (length h)) v v x)\<rparr>"])
        (simp add: update_best_def Let_def registered_values_single dat_lines_def
          best_point_snoc [of "[]", simplified])
  next
    case 2
    obtain t where t: "coco_observer_targets_trigger (bbob_targets logger) (Real (v - fo))
        = Inr (hits_target N P (registered_values fo h) (v - fo), t)"
      "targets_after N P (registered_values fo h @ [v - fo]) t"
      using targets_after_step [OF assms(4,12)] by blast
    let ?fs = "if hits_target N P (registered_values fo h) (v - fo)
      then fs\<lparr>files := (files fs)(f \<mapsto> c @ bbob_line d fo (Suc (length h)) v v x)\<rparr> else fs"
    have lt: "Real v < best_fvalue logger" using 2 assms(10) improves_iff [of h "(x, v)"] by simp
    have m: "Min (set (map snd (h @ [(x, v)]))) = v" using best_after [of h "(x, v)"] 2 by simp
    have "update_best p (Real v) (Real v) (map Real x) None (logger, fs) = Inr (?w t, ?fs)"
      using 2(1) x w lt t(1) assms(5,6,8) by (simp add: update_best_def Let_def)
    moreover have "files ?fs = (files fs)(f \<mapsto> c @ dat_lines d N P fo h (x, v))"
      using 2 assms(9) by (auto simp: dat_lines_def)
    ultimately show ?thesis using 2 t(2) unfolding m best_point_snoc by (auto simp: registered_values_snoc)
  next
    case 3
    have lt: "\<not> Real v < best_fvalue logger" using 3 assms(10) improves_iff [of h "(x, v)"] by simp
    have m: "Min (set (map snd (h @ [(x, v)]))) = Min (set (map snd h))" using best_after [of h "(x, v)"] 3 by simp
    have "update_best p (Real v) (Real v) (map Real x) None (logger, fs) = Inr (logger, fs)"
      using 3(1) lt assms(5) by (simp add: update_best_def)
    then show ?thesis using 3 assms(9-12) unfolding m best_point_snoc
      by (intro exI [of _ "bbob_targets logger"] exI [of _ fs])
        (simp add: registered_values_snoc dat_lines_def fun_upd_idem)
  qed
qed

lemma log_evaluation_number_step:
  assumes "logged_layer p d" "d < 2 ^ 64" "length x = d" "length h < 10 ^ 17"
    and "bbob_number_of_evaluations logger = Suc (length h)" "optimal_fvalue logger = Real fo"
    and "bbob_evaluations_constraints logger = 0" "tdata_file logger = Some f" "files fs f = Some c"
    and "best_fvalue logger = Real (Min (set (map snd (h @ [(x, v)]))))"
    and "evaluations_wait (bbob_evaluations logger) bs d (length h)"
  shows "\<exists>logger' fs' evals. log_evaluation_number p (Real v) (map Real x) None (logger, fs) = Inr (logger', fs')
    \<and> (logger' = logger\<lparr>bbob_evaluations := evals\<rparr> \<or> logger' = logger\<lparr>bbob_evaluations := evals, written_last_eval := True\<rparr>)
    \<and> (written_last_eval logger' \<longleftrightarrow> logged_evaluation bs d (Suc (length h)) \<or> written_last_eval logger)
    \<and> evaluations_wait evals bs d (Suc (length h))
    \<and> files fs' = (files fs)(f \<mapsto> c @ tdat_lines d bs fo h (x, v))"
proof -
  obtain evals where e: "coco_observer_evaluations_trigger (bbob_evaluations logger) (Suc (length h))
      = Inr (logged_evaluation bs d (Suc (length h)), evals)" "evaluations_wait evals bs d (Suc (length h))"
    using evaluations_trigger_step [OF assms(11,4)] by blast
  have size: "size_t (Suc (length h)) = Suc (length h)" using assms(4) by simp
  let ?l = "logger\<lparr>bbob_evaluations := evals\<rparr>"
  have w: "write_evaluation (Some f) ?l p (Real v) (map Real x) None fs
    = Inr (fs\<lparr>files := (files fs)(f \<mapsto> c @ bbob_line d fo (Suc (length h)) v (Min (set (map snd (h @ [(x, v)])))) x)\<rparr>)"
    using write_evaluation_line [OF assms(1,2,3,9), of ?l] assms(5-7,10) by simp
  show ?thesis
  proof (cases "logged_evaluation bs d (Suc (length h))")
    case True
    let ?fs = "fs\<lparr>files := (files fs)(f \<mapsto> c @ tdat_lines d bs fo h (x, v))\<rparr>"
    have "log_evaluation_number p (Real v) (map Real x) None (logger, fs) = Inr (?l\<lparr>written_last_eval := True\<rparr>, ?fs)"
      using True e(1) w assms(5,7,8)
      by (simp add: log_evaluation_number_def size Let_def tdat_lines_def del: set_map map_append set_append)
    then show ?thesis using True e(2) by auto
  next
    case False
    then have "log_evaluation_number p (Real v) (map Real x) None (logger, fs) = Inr (?l, fs)"
      using e(1) assms(5,7) by (simp add: log_evaluation_number_def size Let_def)
    then show ?thesis using False e(2) assms(9) by (auto simp: tdat_lines_def fun_upd_idem)
  qed
qed


lemma logged_value_real [simp]: "logged_value (Real v) = Real v"
  by (simp add: logged_value_def coco_is_nan_def)

lemma sum_of_violations_Nil: "sum_of_violations [] = Real 0"
  by (simp add: sum_of_violations_def)

lemma logger_bbob_transparent:
  assumes "number_of_constraints f = 0" "logger_bbob_evaluate link (Transformed f Logged inner) x s = Inr (y, q, s')"
  shows "\<exists>inner'. coco_evaluate_function inner x = Inr (y, inner') \<and> q = Transformed f Logged inner'"
  using assms
  by (auto simp: logger_bbob_evaluate_def rbind_eq_Inr Let_def split: prod.splits if_splits)

lemma logger_bbob_records:
  assumes "logged_layer f d" "bbob_inv r d fo h s" "length h < 10 ^ 17" "length x = d"
    and "trigger_bounds (run_targets r) (run_precision r) (v - fo)" "fo \<le> v"
    and "coco_evaluate_function inner (map Real x) = Inr ([Real v], inner')"
  shows "\<exists>s'. logger_bbob_evaluate link (Transformed f Logged inner) (map Real x) s
      = Inr ([Real v], Transformed f Logged inner', s') \<and> bbob_inv r d fo (h @ [(x, v)]) s'"
proof -
  obtain logger g fs where s: "s = (logger, g, fs)" by (cases s)
  let ?N = "run_targets r" and ?P = "run_precision r" and ?bs = "run_base r"
  note inv = assms(2) [unfolded s bbob_inv_def prod.case]
  have f: "number_of_constraints f = 0" "evaluations_constraints f = 0" using assms(1) by (simp_all add: logged_layer_def)
  have size: "size_t (Suc (length h)) = Suc (length h)" using assms(3) by simp
  define l where "l = count_evaluation f (Real v) logger"
  have l: "bbob_number_of_evaluations l = Suc (length h)" "optimal_fvalue l = Real fo" "bbob_evaluations_constraints l = 0"
    "fdata_file l = Some (dat_file r)" "tdata_file l = Some (tdat_file r)" "index_file l = Some (info_file r)"
    "is_initialized l" "\<not> written_last_eval l" "bbob_number_of_variables l = d" "bbob_number_of_integer_variables l = 0"
    "h \<noteq> [] \<longrightarrow> best_fvalue l = Real (Min (set (map snd h)))"
    "h \<noteq> [] \<longrightarrow> best_solution l = map Real (best_point h)"
    "targets_after ?N ?P (registered_values fo h) (bbob_targets l)"
    "evaluations_wait (bbob_evaluations l) ?bs d (length h)"
    using inv f size by (simp_all add: l_def count_evaluation_def)
  have d: "d < 2 ^ 64" "distinct [dat_file r, tdat_file r, info_file r]" using inv by simp_all
  have ne: "tdat_file r \<noteq> dat_file r" "info_file r \<noteq> dat_file r" "info_file r \<noteq> tdat_file r" using d(2) by auto
  have files: "files fs (dat_file r) = Some (dat_before r @ run_lines (dat_lines d ?N ?P fo) h)"
    "files fs (tdat_file r) = Some (tdat_before r @ run_lines (tdat_lines d ?bs fo) h)"
    "files fs (info_file r) = Some (info_before r)"
    using inv by simp_all
  obtain targets fs1 where 1: "update_best f (Real v) (Real v) (map Real x) None (l, fs)
      = Inr (l\<lparr>best_fvalue := Real (Min (set (map snd (h @ [(x, v)])))), best_solution := map Real (best_point (h @ [(x, v)])),
          bbob_targets := targets\<rparr>, fs1)"
    "targets_after ?N ?P (registered_values fo (h @ [(x, v)])) targets"
    "files fs1 = (files fs)(dat_file r \<mapsto> (dat_before r @ run_lines (dat_lines d ?N ?P fo) h) @ dat_lines d ?N ?P fo h (x, v))"
    using update_best_step [OF assms(1) d(1) assms(4,5) l(1-4) files(1) l(11-13)] by blast
  let ?l = "l\<lparr>best_fvalue := Real (Min (set (map snd (h @ [(x, v)])))), best_solution := map Real (best_point (h @ [(x, v)])),
    bbob_targets := targets\<rparr>"
  have "files fs1 (tdat_file r) = Some (tdat_before r @ run_lines (tdat_lines d ?bs fo) h)"
    using 1(3) files(2) ne by simp
  from log_evaluation_number_step [OF assms(1) d(1) assms(4,3) _ _ _ _ this, of ?l fo v ?bs] l
  obtain l2 fs2 evals where 2: "log_evaluation_number f (Real v) (map Real x) None (?l, fs1) = Inr (l2, fs2)"
    "l2 = ?l\<lparr>bbob_evaluations := evals\<rparr> \<or> l2 = ?l\<lparr>bbob_evaluations := evals, written_last_eval := True\<rparr>"
    "written_last_eval l2 \<longleftrightarrow> logged_evaluation ?bs d (Suc (length h)) \<or> written_last_eval ?l"
    "evaluations_wait evals ?bs d (Suc (length h))"
    "files fs2 = (files fs1)(tdat_file r \<mapsto> (tdat_before r @ run_lines (tdat_lines d ?bs fo) h) @ tdat_lines d ?bs fo h (x, v))"
    by auto
  have "logger_bbob_evaluate link (Transformed f Logged inner) (map Real x) s
      = Inr ([Real v], Transformed f Logged inner', l2, g, fs2)"
    using inv f assms(6,7) l(2) 1(1) 2(1)
    by (auto simp: logger_bbob_evaluate_def s logger_bbob_initialize_def sum_of_violations_Nil l_def [symmetric] Let_def)
  moreover have "bbob_inv r d fo (h @ [(x, v)]) (l2, g, fs2)"
    using 2(2)
  proof
    assume e: "l2 = ?l\<lparr>bbob_evaluations := evals\<rparr>"
    show ?thesis using 1(2,3) 2(3-5) l d ne files(3) unfolding e bbob_inv_def prod.case
      by (simp del: set_map map_append set_append)
  next
    assume e: "l2 = ?l\<lparr>bbob_evaluations := evals, written_last_eval := True\<rparr>"
    show ?thesis using 1(2,3) 2(3-5) l d ne files(3) unfolding e bbob_inv_def prod.case
      by (simp del: set_map map_append set_append)
  qed
  ultimately show ?thesis by blast
qed

interpretation bbob_log: recording_logger "logger_bbob_evaluate link" d fo "bbob_inv r d fo"
  "\<lambda>v. trigger_bounds (run_targets r) (run_precision r) (v - fo)" "10 ^ 17"
  by unfold_locales (erule (1) logger_bbob_transparent, rule logger_bbob_records)


section \<open>The start of a run\<close>

lemma openIndexFile_keeps:
  assumes "logger_bbob_openIndexFile logger folder prefix funId path suite g fs = Inr (logger', g', fs')"
  shows "logger' = logger\<lparr>index_file := index_file logger'\<rparr>"
  using assms by (auto simp: logger_bbob_openIndexFile_def rbind_eq_Inr Let_def split: if_splits)

lemma logger_bbob_initialize_keeps:
  assumes "logger_bbob_initialize link p (logger, g, fs) = Inr (logger', g', fs')" "\<not> is_initialized logger"
  shows "logger' = logger\<lparr>index_file := index_file logger', fdata_file := fdata_file logger',
    tdata_file := tdata_file logger', rdata_file := rdata_file logger', is_initialized := True\<rparr>"
  using assms
  by (auto simp: logger_bbob_initialize_def rbind_eq_Inr Let_def split: if_splits dest!: openIndexFile_keeps)

lemma logger_bbob_initialize_again:
  assumes "logger_bbob_initialize link p s = Inr s'"
  shows "logger_bbob_initialize link p s' = Inr s'"
proof -
  obtain logger g fs logger' g' fs' where s: "s = (logger, g, fs)" "s' = (logger', g', fs')"
    by (cases s, cases s') auto
  show ?thesis
  proof (cases "is_initialized logger")
    case True
    then show ?thesis using assms by (simp add: s logger_bbob_initialize_def)
  next
    case False
    with logger_bbob_initialize_keeps [OF assms [unfolded s]] have "is_initialized logger'"
      by (metis logger_bbob_data_t.select_convs(2) logger_bbob_data_t.surjective logger_bbob_data_t.update_convs(2))
    then show ?thesis by (simp add: s logger_bbob_initialize_def)
  qed
qed

text \<open>The first evaluation initializes the logger.\<close>

lemma observe_points_initialized:
  assumes "logger_bbob_initialize link p s = Inr s'" "logged_layer f n" "length x = n"
  shows "observe_points (logger_bbob_evaluate link) (Transformed f Logged p) (map Real x # xs) s
    = observe_points (logger_bbob_evaluate link) (Transformed f Logged p) (map Real x # xs) s'"
proof -
  have "check_point f (number_of_objectives f) (map Real x) = Inr None"
    using assms(2,3) by (intro check_point_finite) (auto simp: logged_layer_def)
  moreover have "logger_bbob_evaluate link (Transformed f Logged p) (map Real x) s
      = logger_bbob_evaluate link (Transformed f Logged p) (map Real x) s'"
    using assms(2) logger_bbob_initialize_again [OF assms(1)]
    by (simp add: logger_bbob_evaluate_def assms(1) logged_layer_def)
  ultimately show ?thesis using assms(2) by (simp add: coco_evaluate_observed_def logged_layer_def)
qed

definition new_logger_bbob ::
    "coco_observer_t \<Rightarrow> suite_link \<Rightarrow> nat \<Rightarrow> real \<Rightarrow> coco_observer_evaluations_t \<Rightarrow> logger_bbob_data_t" where
  "new_logger_bbob observer link n fo evals =
     \<lparr> bbob_observer = observer, is_initialized = False, index_file = None, fdata_file = None,
       tdata_file = None, rdata_file = None, bbob_number_of_evaluations = 0,
       bbob_evaluations_constraints = 0, best_fvalue = NaN, last_fvalue = Real DBL_MAX,
       written_last_eval = False, best_solution = replicate n NaN, function_id = link_dep_function link,
       instance_id = link_dep_instance link, bbob_number_of_variables = n, bbob_number_of_integer_variables = 0,
       bbob_log_discrete_as_int = observer_log_discrete_as_int observer, optimal_fvalue = Real fo,
       bbob_targets = coco_observer_targets (number_target_triggers observer) (observer_target_precision observer),
       bbob_evaluations = evals \<rparr>"

lemma logger_bbob_new:
  assumes "new_problem p n L F best fo" "L + length (observer_name observer) + 2 \<le> 441"
    and "coco_observer_evaluations (base_evaluation_triggers observer) n = Inr evals" "\<not> bbob_logger_is_open g"
    and "0 < link_dep_function link" "0 < link_dep_instance link"
  shows "\<exists>f. logger_bbob observer link p g fs
      = Inr (Transformed f Logged p, new_logger_bbob observer link n fo evals, g\<lparr>bbob_logger_is_open := True\<rparr>, fs)
    \<and> logged_layer f n"
proof -
  obtain f where f: "coco_problem_transformed_allocate p Logged (observer_name observer) = Inr (Transformed f Logged p)"
    "copy_of f p n (L + (length (observer_name observer) + 2)) best fo"
    using transformed_allocate_ok [OF assms(1), of "observer_name observer" _ Logged] assms(2) by fastforce
  have p: "best_value (fields p) = [Real fo]" "number_of_variables (fields p) = n" "0 < n"
    "Coco_Problem.number_of_integer_variables (fields p) = 0"
    using assms(1) by (simp_all add: new_problem_def objective_problem_def well_formed_def shape_def)
  have layer: "logged_layer (f\<lparr>evaluate_function := Some Evaluate_own\<rparr>) n"
    using f(2) by (simp add: logged_layer_def copy_of_def well_formed_def shape_def fresh_def)
  show ?thesis
    using layer p
    by (simp add: logger_bbob_def assms f(1) coco_problem_get_suite_dep_function_def own_function_def
        coco_problem_get_suite_dep_instance_def coco_allocate_vector_def new_logger_bbob_def)
qed


section \<open>Properties\<close>

text \<open>The end of a run: the index file gets the number of evaluations, the .tdat file the last line.\<close>

lemma logger_bbob_free_step:
  assumes "bbob_inv r d fo h s" "h \<noteq> []" "length (best_point h) = d"
  shows "\<exists>s'. logger_bbob_free s = Inr s'
    \<and> files (snd (snd s')) (info_file r) = Some (info_before r
        @ [Text ('':'' @ show_nat (length h) @ ''|''), Number ''%.1e'' (Real (Min (set (map snd h)) - fo))])
    \<and> files (snd (snd s')) (dat_file r)
        = Some (dat_before r @ run_lines (dat_lines d (run_targets r) (run_precision r) fo) h)
    \<and> files (snd (snd s')) (tdat_file r) = Some (tdat_before r @ run_lines (tdat_lines d (run_base r) fo) h
        @ (if logged_evaluation (run_base r) d (length h) then []
           else bbob_line d fo (length h) (Min (set (map snd h))) (Min (set (map snd h))) (best_point h)))"
proof -
  obtain logger g fs where s: "s = (logger, g, fs)" by (cases s)
  note inv = assms(1) [unfolded s bbob_inv_def prod.case]
  define best where "best = Min (set (map snd h))"
  define tdat where "tdat = tdat_before r @ run_lines (tdat_lines d (run_base r) fo) h"
  define idx where "idx = info_before r
    @ [Text ('':'' @ show_nat (length h) @ ''|''), Number ''%.1e'' (Real (best - fo))]"
  have l: "best_fvalue logger = Real best" "best_solution logger = map Real (best_point h)" "optimal_fvalue logger = Real fo"
    "index_file logger = Some (info_file r)" "tdata_file logger = Some (tdat_file r)"
    "bbob_number_of_evaluations logger = length h" "bbob_evaluations_constraints logger = 0"
    "bbob_number_of_variables logger = d" "bbob_number_of_integer_variables logger = 0" "d < 2 ^ 64"
    "written_last_eval logger \<longleftrightarrow> logged_evaluation (run_base r) d (length h)"
    "files fs (info_file r) = Some (info_before r)" "files fs (tdat_file r) = Some tdat"
    using inv assms(2) by (simp_all add: best_def tdat_def)
  have ne: "tdat_file r \<noteq> dat_file r" "info_file r \<noteq> dat_file r" "info_file r \<noteq> tdat_file r" using inv by auto
  have w: "logger_bbob_write_data (Some (tdat_file r)) (length h) 0 (Real best) (Real best) (Real fo)
      (map Real (best_point h)) d 0 None 0 c fs'
    = Inr (fs'\<lparr>files := (files fs')(tdat_file r \<mapsto> tdat @ bbob_line d fo (length h) best best (best_point h))\<rparr>)"
    if "files fs' (tdat_file r) = Some tdat" for fs' c
    using l(10) assms(3) that
    by (simp add: logger_bbob_write_data_def copy_vector_def size_sub_def variables_text_real fprintf_open
        bbob_line_def show_nat_0)
  have "logger_bbob_free s = Inr (logger\<lparr>index_file := None, fdata_file := None, tdata_file := None, rdata_file := None\<rparr>,
      g\<lparr>bbob_logger_is_open := False\<rparr>,
      if logged_evaluation (run_base r) d (length h) then fs\<lparr>files := (files fs)(info_file r \<mapsto> idx)\<rparr>
      else fs\<lparr>files := (files fs)(info_file r \<mapsto> idx,
        tdat_file r \<mapsto> tdat @ bbob_line d fo (length h) best best (best_point h))\<rparr>)"
    using l w ne by (simp add: logger_bbob_free_def s fprintf_open idx_def)
  then show ?thesis using inv ne l(13) by (simp add: idx_def tdat_def best_def [symmetric] del: set_map)
qed

lemma best_point_in: "h \<noteq> [] \<Longrightarrow> best_point h \<in> set (map fst h)"
proof (induction h rule: rev_induct)
  case (snoc e h)
  then show ?case by (cases "h = []") (auto simp: best_point_snoc best_point_snoc [of "[]", simplified])
qed simp

text \<open>
  C18. The bbob logger around a bbob problem whose files could be opened: a run returns the values that the run of the
  problem without logger returns. The .dat file has a line for the first evaluation and for every
  improvement that hits a target which no improvement after the first evaluation has hit; the .tdat file has a
  line at every number of evaluations of the trigger, and for the last evaluation in any case. The index file gets
  the number of evaluations and the best value.
\<close>

theorem bbob_log_of_run:
  assumes "1 \<le> f" "f \<le> 24" "f \<noteq> 20" "2 \<le> d" "d \<le> 44" "i \<le> 200000" "rotations_available f d i"
    and "bbob_problem f d i = Inr p" "logger_bbob observer link p g fs = Inr (q, s)"
    and "logger_bbob_initialize link p s = Inr (logger, g', fs')" "index_file logger = Some idx"
    and "fdata_file logger = Some dat" "tdata_file logger = Some tdat" "distinct [dat, tdat, idx]"
    and "files fs' dat = Some w1" "files fs' tdat = Some w2" "files fs' idx = Some w3"
    and "observer_target_precision observer = Real P" "length (observer_name observer) \<le> 300"
    and "coco_observer_evaluations (base_evaluation_triggers observer) d = Inr evals"
    and "base_evaluations evals = bs @ [0]" "increasing_base bs" "length bs < 1000" "d * hd bs < 2 ^ 64"
  shows "\<exists>F fo. best_value (fields p) = [Real fo]
    \<and> (\<forall>x. length x = d \<longrightarrow> fo \<le> F x \<and> (\<exists>p'. coco_evaluate_function p (map Real x) = Inr ([Real (F x)], p')))
    \<and> (\<forall>xs. xs \<noteq> [] \<and> length xs \<le> 10 ^ 17
      \<and> (\<forall>x \<in> set xs. length x = d \<and> trigger_bounds (number_target_triggers observer) P (F x - fo))
    \<longrightarrow> (\<exists>q' s' p' s''. observe_points (logger_bbob_evaluate link) q (map (map Real) xs) s
          = Inr (map (\<lambda>x. [Real (F x)]) xs, q', s')
        \<and> evaluate_points p (map (map Real) xs) = Inr (map (\<lambda>x. [Real (F x)]) xs, p')
        \<and> logger_bbob_free s' = Inr s''
        \<and> (let h = map (\<lambda>x. (x, F x)) xs; best = Min (set (map snd h)); written = files (snd (snd s'')) in
            written dat = Some (w1 @ run_lines (dat_lines d (number_target_triggers observer) P fo) h)
            \<and> written tdat = Some (w2 @ run_lines (tdat_lines d bs fo) h
                @ (if logged_evaluation bs d (length h) then [] else bbob_line d fo (length h) best best (best_point h)))
            \<and> written idx = Some (w3 @ [Text ('':'' @ show_nat (length h) @ ''|''), Number ''%.1e'' (Real (best - fo))]))))"
proof -
  let ?N = "number_target_triggers observer"
  obtain F best fo where p: "solved p d 110 F best fo"
    using bbob_problem_solved [OF assms(1-7)] assms(8) by force
  have new: "new_problem p d 110 F best fo" and o: "objective_problem p d 110 F best fo"
    using p by (simp_all add: solved_def new_problem_def)
  have g: "\<not> bbob_logger_is_open g" "0 < link_dep_function link" "0 < link_dep_instance link"
    using assms(9) by (auto simp: logger_bbob_def rbind_eq_Inr Let_def coco_problem_get_suite_dep_function_def
        coco_problem_get_suite_dep_instance_def split: if_splits)
  have "110 + length (observer_name observer) + 2 \<le> 441" using assms(19) by simp
  from logger_bbob_new [OF new this assms(20) g, of fs] assms(9)
  obtain l where l: "q = Transformed l Logged p" "s = (new_logger_bbob observer link d fo evals, g\<lparr>bbob_logger_is_open := True\<rparr>, fs)"
    "logged_layer l d"
    by auto
  define r where "r = Bbob_run ?N P bs dat tdat idx w1 w2 w3"
  have n0: "\<not> is_initialized (new_logger_bbob observer link d fo evals)" by (simp add: new_logger_bbob_def)
  have logger: "logger = (new_logger_bbob observer link d fo evals)\<lparr>index_file := Some idx, fdata_file := Some dat,
      tdata_file := Some tdat, rdata_file := rdata_file logger, is_initialized := True\<rparr>"
    using logger_bbob_initialize_keeps [OF assms(10) [unfolded l(2)] n0] assms(11-13) by simp
  have "evaluations_wait evals bs d 0" using assms(4) evaluations_wait_new [OF assms(20-23) _ assms(24)] by simp
  then have inv: "bbob_inv r d fo [] (logger, g', fs')"
    using assms(5,14-18)
    by (subst logger) (simp add: bbob_inv_def r_def new_logger_bbob_def registered_values_single targets_after_new)
  show ?thesis
  proof (rule exI [of _ F], rule exI [of _ fo], intro conjI allI impI, goal_cases)
    case 1
    then show ?case using o by (simp add: objective_problem_def)
  next
    case (2 x)
    then show ?case using o by (simp add: objective_problem_def)
  next
    case (3 x)
    then show ?case using coco_evaluate_function_objective [OF o] by blast
  next
    case (4 xs)
    then have xs: "xs \<noteq> []" "length xs \<le> 10 ^ 17" "\<forall>x \<in> set xs. length x = d \<and> trigger_bounds ?N P (F x - fo)"
      by simp_all
    let ?h = "map (\<lambda>x. (x, F x)) xs"
    have ok: "\<forall>x \<in> set xs. length x = d \<and> trigger_bounds (run_targets r) (run_precision r) (F x - fo)"
      using xs(3) by (simp add: r_def)
    from bbob_log.observe_run [OF l(3) inv _ ok o, of link] xs(2)
    obtain q' s' p' where run: "observe_points (logger_bbob_evaluate link) q (map (map Real) xs) (logger, g', fs')
        = Inr (map (\<lambda>x. [Real (F x)]) xs, q', s')"
      "evaluate_points p (map (map Real) xs) = Inr (map (\<lambda>x. [Real (F x)]) xs, p')" "bbob_inv r d fo ?h s'"
      by (auto simp: l(1))
    have same: "observe_points (logger_bbob_evaluate link) q (map (map Real) xs) s
        = observe_points (logger_bbob_evaluate link) q (map (map Real) xs) (logger, g', fs')"
      using xs(1,3) observe_points_initialized [OF assms(10) l(3)] by (cases xs) (auto simp: l(1))
    have "best_point ?h \<in> set xs" using best_point_in [of ?h] xs(1) by (auto simp: o_def)
    then have "length (best_point ?h) = d" using xs(3) by simp
    from logger_bbob_free_step [OF run(3) _ this] xs(1) obtain s'' where "logger_bbob_free s' = Inr s''"
      "files (snd (snd s'')) idx = Some (w3
        @ [Text ('':'' @ show_nat (length ?h) @ ''|''), Number ''%.1e'' (Real (Min (set (map snd ?h)) - fo))])"
      "files (snd (snd s'')) dat = Some (w1 @ run_lines (dat_lines d ?N P fo) ?h)"
      "files (snd (snd s'')) tdat = Some (w2 @ run_lines (tdat_lines d bs fo) ?h
        @ (if logged_evaluation bs d (length ?h) then []
           else bbob_line d fo (length ?h) (Min (set (map snd ?h))) (Min (set (map snd ?h))) (best_point ?h)))"
      by (auto simp: r_def simp del: set_map)
    with run(1,2) show "\<exists>q' s' p' s''. observe_points (logger_bbob_evaluate link) q (map (map Real) xs) s
          = Inr (map (\<lambda>x. [Real (F x)]) xs, q', s')
        \<and> evaluate_points p (map (map Real) xs) = Inr (map (\<lambda>x. [Real (F x)]) xs, p')
        \<and> logger_bbob_free s' = Inr s''
        \<and> (let h = ?h; best = Min (set (map snd h)); written = files (snd (snd s'')) in
            written dat = Some (w1 @ run_lines (dat_lines d ?N P fo) h)
            \<and> written tdat = Some (w2 @ run_lines (tdat_lines d bs fo) h
                @ (if logged_evaluation bs d (length h) then [] else bbob_line d fo (length h) best best (best_point h)))
            \<and> written idx = Some (w3 @ [Text ('':'' @ show_nat (length h) @ ''|''), Number ''%.1e'' (Real (best - fo))]))"
      unfolding same Let_def by blast
  qed
qed


text \<open>A small observer, a problem of the suite and an empty result folder, for the example.\<close>

definition example_observer :: coco_observer_t where
  "example_observer = coco_observer_allocate ''res'' ''bbob'' ''alg'' ''info'' 10 (Real (1 / 10 ^ 8)) 20 ''1,2,5'' 8 15 3 1"

definition example_link :: suite_link where
  "example_link = \<lparr> link_suite_name = Some ''bbob'', link_dep_index = 0, link_dep_function = 1, link_dep_instance = 1 \<rparr>"

definition example_files :: file_system where
  "example_files = \<lparr> directories = {''res''}, files = (\<lambda>_. None), refused = (\<lambda>_. False) \<rparr>"

definition example_evals :: coco_observer_evaluations_t where
  "example_evals = \<lparr> value1 = 1, exponent1 = 0, evaluation_triggers = 20, value2 = 2, exponent2 = 0,
      base_evaluations = [1, 2, 5] @ [0], base_count = 3, base_index = 0, base_dimension = 2 \<rparr>"

lemma example_evaluations: "coco_observer_evaluations ''1,2,5'' 2 = Inr example_evals"
  by code_simp

lemma show_nats: "show_nat 1 = ''1''" "show_nat (Suc 0) = ''1''" "show_nat 2 = ''2''"
  by code_simp+

definition example_fs1 :: file_system where
  "example_fs1 = \<lparr> directories = {''res/data_f1'', ''res''}, files = (\<lambda>_. None), refused = (\<lambda>_. False) \<rparr>"

lemma example_paths:
  "coco_join_path [] (COCO_PATH_MAX + 2) [''res'', ''data_f1''] = Inr ''res/data_f1''"
  "coco_join_path [] (COCO_PATH_MAX + 2) [''res'', ''bbobexp_f1_i1.info''] = Inr ''res/bbobexp_f1_i1.info''"
  "coco_join_path [] (COCO_PATH_MAX + 2) [''res'', ''data_f1/bbobexp_f1_DIM2_i1.dat''] = Inr ''res/data_f1/bbobexp_f1_DIM2_i1.dat''"
  "coco_join_path [] (COCO_PATH_MAX + 2) [''res'', ''data_f1/bbobexp_f1_DIM2_i1.tdat''] = Inr ''res/data_f1/bbobexp_f1_DIM2_i1.tdat''"
  "coco_join_path [] (COCO_PATH_MAX + 2) [''res'', ''data_f1/bbobexp_f1_DIM2_i1.rdat''] = Inr ''res/data_f1/bbobexp_f1_DIM2_i1.rdat''"
  by code_simp+

lemma example_directory: "coco_create_directory ''res/data_f1'' example_files = Inr (0, example_fs1)"
  by (simp add: coco_create_directory_def strip_separators_def example_files_def example_fs1_def char_at_def
      coco_mkdir_def has_parent_def parent_directory_def coco_directory_exists_def coco_file_exists_def Let_def)

lemma example_streams:
  assumes "directories fs = {''res/data_f1'', ''res''}" "refused fs = (\<lambda>_. False)"
  shows "open_append name ''res/bbobexp_f1_i1.info'' fs
      = Inr (''res/bbobexp_f1_i1.info'', if files fs ''res/bbobexp_f1_i1.info'' \<noteq> None then fs
          else fs\<lparr>files := (files fs)(''res/bbobexp_f1_i1.info'' := Some [])\<rparr>)"
    "open_append name ''res/data_f1/bbobexp_f1_DIM2_i1.dat'' fs
      = Inr (''res/data_f1/bbobexp_f1_DIM2_i1.dat'', if files fs ''res/data_f1/bbobexp_f1_DIM2_i1.dat'' \<noteq> None then fs
          else fs\<lparr>files := (files fs)(''res/data_f1/bbobexp_f1_DIM2_i1.dat'' := Some [])\<rparr>)"
    "open_append name ''res/data_f1/bbobexp_f1_DIM2_i1.tdat'' fs
      = Inr (''res/data_f1/bbobexp_f1_DIM2_i1.tdat'', if files fs ''res/data_f1/bbobexp_f1_DIM2_i1.tdat'' \<noteq> None then fs
          else fs\<lparr>files := (files fs)(''res/data_f1/bbobexp_f1_DIM2_i1.tdat'' := Some [])\<rparr>)"
    "open_append name ''res/data_f1/bbobexp_f1_DIM2_i1.rdat'' fs
      = Inr (''res/data_f1/bbobexp_f1_DIM2_i1.rdat'', if files fs ''res/data_f1/bbobexp_f1_DIM2_i1.rdat'' \<noteq> None then fs
          else fs\<lparr>files := (files fs)(''res/data_f1/bbobexp_f1_DIM2_i1.rdat'' := Some [])\<rparr>)"
  using assms
  by (simp_all add: open_append_def fopen_append_def has_parent_def parent_directory_def coco_directory_exists_def
      coco_file_exists_def)

lemma example_initialized:
  assumes "problem_id (fields p) = Some pid" "number_of_variables (fields p) = 2"
  shows "\<exists>logger g fs dat tdat idx w1 w2 w3. logger_bbob_initialize example_link p
      (new_logger_bbob example_observer example_link 2 fo evals, initial_bbob_globals\<lparr>bbob_logger_is_open := True\<rparr>, example_files)
      = Inr (logger, g, fs)
    \<and> index_file logger = Some idx \<and> fdata_file logger = Some dat \<and> tdata_file logger = Some tdat
    \<and> distinct [dat, tdat, idx] \<and> files fs dat = Some w1 \<and> files fs tdat = Some w2 \<and> files fs idx = Some w3"
  using assms example_paths
  by (simp add: logger_bbob_initialize_def new_logger_bbob_def example_observer_def coco_observer_allocate_def
      example_link_def coco_problem_get_suite_dep_function_def coco_problem_get_suite_dep_instance_def Let_def show_nats
      example_directory linked_suite_def logger_bbob_openIndexFile_def initial_bbob_globals_def info_file_name_def
      fopen_read_def example_fs1_def coco_file_exists_def coco_directory_exists_def new_index_entry_def
      bbob_number_of_dimensions_def example_streams fprintf_def open_with_header_def logger_bbob_open_dataFile_def)


theorem bbob_log_of_run_witness:
  "\<exists>p q s q' s' s'' dat w x y. bbob_problem 1 2 1 = Inr p
    \<and> logger_bbob example_observer example_link p initial_bbob_globals example_files = Inr (q, s)
    \<and> observe_points (logger_bbob_evaluate example_link) q [map Real x] s = Inr ([[Real y]], q', s')
    \<and> logger_bbob_free s' = Inr s''
    \<and> files (snd (snd s'')) dat = Some (w @ dat_lines 2 10 (1 / 10 ^ 8) y [] (x, y))"
proof -
  have rot: "rotations_available 1 2 1" by (simp add: rotations_available_def)
  have num: "1 \<le> (1 :: nat)" "(1 :: nat) \<le> 24" "(1 :: nat) \<noteq> 20" "2 \<le> (2 :: nat)" "(2 :: nat) \<le> 44"
    "(1 :: nat) \<le> 200000"
    by simp_all
  from bbob_problem_solved [OF this rot] obtain p F best fo
    where p: "bbob_problem 1 2 1 = Inr p" "solved p 2 110 F best fo" by metis
  have new: "new_problem p 2 110 F best fo" and o: "objective_problem p 2 110 F best fo"
    using p(2) by (simp_all add: solved_def new_problem_def)
  obtain pid where pid: "problem_id (fields p) = Some pid" using bbob_problem_id [OF p(1)] by blast
  have n: "number_of_variables (fields p) = 2" using o by (simp add: objective_problem_def well_formed_def shape_def)
  have obs: "observer_name example_observer = ''bbob''" "base_evaluation_triggers example_observer = ''1,2,5''"
    "number_target_triggers example_observer = 10" "observer_target_precision example_observer = Real (1 / 10 ^ 8)"
    by (simp_all add: example_observer_def coco_observer_allocate_def)
  have ev: "coco_observer_evaluations (base_evaluation_triggers example_observer) 2 = Inr example_evals"
    unfolding obs by (rule example_evaluations)
  obtain l where l: "logger_bbob example_observer example_link p initial_bbob_globals example_files
      = Inr (Transformed l Logged p, new_logger_bbob example_observer example_link 2 fo example_evals,
          initial_bbob_globals\<lparr>bbob_logger_is_open := True\<rparr>, example_files)"
    using logger_bbob_new [OF new _ ev, of initial_bbob_globals example_link example_files]
    by (auto simp: obs(1) initial_bbob_globals_def example_link_def)
  obtain logger g fs dat tdat idx w1 w2 w3 where init: "logger_bbob_initialize example_link p
      (new_logger_bbob example_observer example_link 2 fo example_evals,
        initial_bbob_globals\<lparr>bbob_logger_is_open := True\<rparr>, example_files) = Inr (logger, g, fs)"
    "index_file logger = Some idx" "fdata_file logger = Some dat" "tdata_file logger = Some tdat"
    "distinct [dat, tdat, idx]" "files fs dat = Some w1" "files fs tdat = Some w2" "files fs idx = Some w3"
    using example_initialized [OF pid n] by metis
  have base: "base_evaluations example_evals = [1, 2, 5] @ [0]" "increasing_base [1, 2, 5]"
    "length [1, 2, 5 :: nat] < 1000" "2 * hd [1, 2, 5] < (2 :: nat) ^ 64"
    by (simp_all add: example_evals_def increasing_base_def)
  have "length (observer_name example_observer) \<le> 300" by (simp add: obs)
  note log = bbob_log_of_run [OF num rot p(1) l init obs(4) this ev base]
  have best: "length best = 2" "F best = fo" using o p(2) by (simp_all add: objective_problem_def solved_def)
  show ?thesis
    using log unfolding obs(3) Let_def
  proof (elim exE conjE, goal_cases)
    case (1 F' fo')
    have "fo' = fo" using 1(1) o by (simp add: objective_problem_def)
    have "F' best = fo"
      using 1(2) [rule_format, OF best(1)] coco_evaluate_function_objective [OF o best(1)] best(2) by auto
    with \<open>fo' = fo\<close> have "[best] \<noteq> [] \<and> length [best] \<le> 10 ^ 17
      \<and> (\<forall>x \<in> set [best]. length x = 2 \<and> trigger_bounds 10 (1 / 10 ^ 8) (F' x - fo'))"
      using best(1) by (simp add: trigger_bounds_def)
    from mp [OF spec [OF 1(3)] this] show ?case
    proof (elim exE conjE, goal_cases)
      case (1 q' s' p' s'')
      have w: "files (snd (snd s'')) dat = Some (w1 @ dat_lines 2 10 (1 / 10 ^ 8) fo [] (best, fo))"
        using 1(4) by (simp add: run_lines_def \<open>fo' = fo\<close> \<open>F' best = fo\<close>)
      have r: "observe_points (logger_bbob_evaluate example_link) (Transformed l Logged p) [map Real best]
          (new_logger_bbob example_observer example_link 2 fo example_evals,
            initial_bbob_globals\<lparr>bbob_logger_is_open := True\<rparr>, example_files) = Inr ([[Real fo]], q', s')"
        using 1(1) by (simp add: \<open>F' best = fo\<close>)
      show ?case by (intro exI conjI) (rule p(1), rule l, rule r, rule 1(3), rule w)
    qed
  qed
qed

end
