(* ===== verification/Coco_Logger_Rw.thy ===== *)
theory Coco_Logger_Rw
  imports Coco_Logger_Toy
begin

text \<open>
  The logger of the real-world suites (\<open>logger_rw.c\<close>): one file for every problem, with a line for every
  evaluation or for the evaluations that improve on all before. The seconds between the two readings of the
  clock in an evaluation are a parameter, a function of the number of the evaluation.
\<close>

section \<open>The logger\<close>

record logger_rw_data_t =
  out_file :: "string option"
  rw_number_of_evaluations :: nat
  rw_best_value :: double
  rw_current_value :: double
  log_vars :: bool
  log_cons :: bool
  rw_logs_only_better :: bool
  rw_logs_time :: bool
  rw_precision_x :: int
  rw_precision_f :: int
  rw_precision_g :: int
  rw_log_discrete_as_int :: int

abbreviation fields where "fields \<equiv> Coco_Problem.fields"

type_synonym rw_state = "logger_rw_data_t \<times> file_system"

text \<open>An integer variable is written twice: the branch for it has no \<open>else\<close>.\<close>

fun rw_variables :: "int \<Rightarrow> int \<Rightarrow> nat \<Rightarrow> double list \<Rightarrow> chunk list result" where
  "rw_variables discrete px n_int [] = Inr []"
| "rw_variables discrete px n_int (v # vs) =
     rbind (if n_int > 0 \<and> discrete \<noteq> 0
            then rbind (double_to_int v) (\<lambda>k. Inr [Text ('' '' @ show_int k)]) else Inr []) (\<lambda>c.
     rbind (rw_variables discrete px (n_int - 1) vs) (\<lambda>cs.
       Inr (c @ [Number (e_format px) v, Text tabulator] @ cs)))"

definition rw_numbers :: "int \<Rightarrow> double list \<Rightarrow> chunk list" where
  "rw_numbers precision vs = concat (map (\<lambda>v. [Number (e_format precision) v, Text tabulator]) vs)"

definition rw_line ::
    "(nat \<Rightarrow> double) \<Rightarrow> coco_problem_s \<Rightarrow> logger_rw_data_t \<Rightarrow> double list \<Rightarrow> double list \<Rightarrow> double list \<Rightarrow> chunk list result" where
  "rw_line seconds p logger x y cons =
     rbind (copy_vector y (number_of_objectives p)) (\<lambda>y.
     rbind (if log_vars logger
            then rbind (copy_vector x (number_of_variables p))
              (rw_variables (rw_log_discrete_as_int logger) (rw_precision_x logger) (number_of_integer_variables p))
            else Inr []) (\<lambda>variables.
       Inr ([Text (show_nat (rw_number_of_evaluations logger) @ tabulator)] @ rw_numbers (rw_precision_f logger) y
         @ variables
         @ (if log_cons logger then rw_numbers (rw_precision_g logger) cons else [])
         @ (if rw_logs_time logger
            then [Number ''%.0f'' (seconds (rw_number_of_evaluations logger)), Text tabulator] else [])
         @ [Text newline])))"

definition logger_rw_evaluate :: "(nat \<Rightarrow> double) \<Rightarrow> rw_state evaluator" where
  "logger_rw_evaluate seconds problem x s =
     (case (problem, s) of
        (Transformed p t inner, (logger, fs)) \<Rightarrow>
          rbind (coco_evaluate_function inner x) (\<lambda>(y, inner).
          rbind (if number_of_objectives p = 1 then rnth y 0 else Inr (rw_current_value logger)) (\<lambda>current.
          rbind (if number_of_constraints p = 0 then Inr ([], inner)
                 else rbind (call_evaluate_constraint inner x) (\<lambda>(c, inner).
                      rbind (copy_vector c (number_of_constraints p)) (\<lambda>c. Inr (c, inner)))) (\<lambda>(cons, inner).
          let better = (number_of_objectives p = 1 \<and> current < rw_best_value logger);
              logger = logger\<lparr>rw_number_of_evaluations := size_t (rw_number_of_evaluations logger + 1),
                rw_current_value := current, rw_best_value := (if better then current else rw_best_value logger)\<rparr>
          in if better \<or> \<not> rw_logs_only_better logger
             then rbind (rw_line seconds p logger x y cons) (\<lambda>line.
                  rbind (fprintf (out_file logger) line fs) (\<lambda>fs. Inr (y, Transformed p t inner, logger, fs)))
             else Inr (y, Transformed p t inner, logger, fs))))
      | _ \<Rightarrow> Inl Null_deref)"

definition logger_rw_free :: "rw_state \<Rightarrow> rw_state" where
  "logger_rw_free s = (case s of (logger, fs) \<Rightarrow> (logger\<lparr>out_file := None\<rparr>, fs))"

section \<open>Constructor\<close>

definition rw_logs :: "observer_rw_log_e \<Rightarrow> nat \<Rightarrow> nat \<Rightarrow> bool" where
  "rw_logs mode low_dim n \<longleftrightarrow> \<not> (mode = LOG_LOW_DIM \<and> n > low_dim \<or> mode = LOG_NEVER)"

text \<open>The plural s of the variables and constraints does not depend on whether they are logged.\<close>

definition rw_header :: "logger_rw_data_t \<Rightarrow> coco_problem_s \<Rightarrow> chunk list" where
  "rw_header logger p =
     [Text (''% evaluation | '' @ show_nat (number_of_objectives p) @ '' objective''),
      Text (if number_of_objectives p > 1 then ''s'' else []),
      Text (if log_vars logger then '' | '' @ show_nat (number_of_variables p) @ '' variable'' else []),
      Text (if number_of_variables p > 1 then ''s'' else []),
      Text (if log_cons logger then '' | '' @ show_nat (number_of_constraints p) @ '' constraint'' else []),
      Text (if number_of_constraints p > 1 then ''s'' else []),
      Text (if rw_logs_time logger then '' | evaluation time (s)'' else []), Text newline]"

definition new_logger_rw :: "coco_observer_t \<Rightarrow> observer_rw_data_t \<Rightarrow> coco_problem_s \<Rightarrow> string \<Rightarrow> logger_rw_data_t" where
  "new_logger_rw observer data p path =
     \<lparr> out_file = Some path, rw_number_of_evaluations = 0, rw_best_value = Real DBL_MAX, rw_current_value = Real DBL_MAX,
       log_vars = rw_logs (rw_log_vars_mode data) (rw_low_dim_vars data) (number_of_variables p),
       log_cons = (rw_logs (rw_log_cons_mode data) (rw_low_dim_cons data) (number_of_constraints p)
         \<and> number_of_constraints p \<noteq> 0),
       rw_logs_only_better = (rw_log_only_better data \<noteq> 0 \<and> number_of_objectives p = 1),
       rw_logs_time = (rw_log_time data \<noteq> 0), rw_precision_x = precision_x observer,
       rw_precision_f = precision_f observer, rw_precision_g = precision_g observer,
       rw_log_discrete_as_int = observer_log_discrete_as_int observer \<rparr>"

definition logger_rw ::
    "coco_observer_t \<Rightarrow> suite_link \<Rightarrow> coco_problem_t \<Rightarrow> file_system \<Rightarrow> (coco_problem_t \<times> rw_state) result" where
  "logger_rw observer link inner_problem fs =
     (case observer_data observer of
        Some (Rw_data data) \<Rightarrow>
          let p = fields inner_problem
          in rbind (coco_create_directory (result_folder observer) fs) (\<lambda>(_, fs).
             rbind (coco_problem_get_id p) (\<lambda>pid.
             rbind (coco_join_path (result_folder observer) COCO_PATH_MAX [pid @ ''_rw.txt'']) (\<lambda>path.
             rbind (open_append ''logger_rw'' path fs) (\<lambda>(f, fs).
             let logger = new_logger_rw observer data p f
             in case link_suite_name link of
                  None \<Rightarrow> Inl Null_deref
                | Some suite \<Rightarrow>
                    rbind (coco_problem_get_name p) (\<lambda>pname.
                    rbind (fprintf (Some f) (Text (newline @ ''% '' @ problem_header suite pid pname) # rw_header logger p) fs) (\<lambda>fs.
                    rbind (coco_problem_transformed_allocate inner_problem Logged (observer_name observer)) (\<lambda>problem.
                      Inr (own_function problem, logger, fs))))))))
      | _ \<Rightarrow> Inl Null_deref)"

section \<open>What a run writes\<close>

definition rw_lines ::
    "(nat \<Rightarrow> double) \<Rightarrow> bool \<Rightarrow> bool \<Rightarrow> bool \<Rightarrow> int \<Rightarrow> int \<Rightarrow> (real list \<times> real) list \<Rightarrow> real list \<times> real \<Rightarrow> chunk list" where
  "rw_lines seconds vars only_better timed px pf h e =
     (if \<not> only_better \<or> snd e < DBL_MAX \<and> improves h e
      then [Text (show_nat (Suc (length h)) @ tabulator)] @ rw_numbers pf [Real (snd e)]
        @ (if vars then rw_numbers px (map Real (fst e)) else [])
        @ (if timed then [Number ''%.0f'' (seconds (Suc (length h))), Text tabulator] else []) @ [Text newline]
      else [])"

definition rw_inv ::
    "(nat \<Rightarrow> double) \<Rightarrow> logger_rw_data_t \<Rightarrow> string \<Rightarrow> chunk list \<Rightarrow> (real list \<times> real) list \<Rightarrow> rw_state \<Rightarrow> bool" where
  "rw_inv seconds logger0 path written h s \<longleftrightarrow>
     (case s of (logger, fs) \<Rightarrow>
        (\<exists>current. logger = logger0\<lparr>rw_number_of_evaluations := length h, rw_current_value := current,
          rw_best_value := Real (Min (insert DBL_MAX (set (map snd h))))\<rparr>)
        \<and> out_file logger0 = Some path \<and> \<not> log_cons logger0
        \<and> files fs path = Some (written @ run_lines (rw_lines seconds (log_vars logger0) (rw_logs_only_better logger0)
            (rw_logs_time logger0) (rw_precision_x logger0) (rw_precision_f logger0)) h))"

lemma rw_variables_real: "rw_variables c px 0 vs = Inr (rw_numbers px vs)"
  by (induction vs) (simp_all add: rw_numbers_def)

lemma logger_rw_transparent:
  assumes "number_of_constraints f = 0" "logger_rw_evaluate seconds (Transformed f Logged inner) x s = Inr (y, q, s')"
  shows "\<exists>inner'. coco_evaluate_function inner x = Inr (y, inner') \<and> q = Transformed f Logged inner'"
  using assms by (auto simp: logger_rw_evaluate_def rbind_eq_Inr Let_def split: prod.splits if_splits)

lemma rw_better:
  "v < Min (insert DBL_MAX (set (map snd h))) \<longleftrightarrow> v < DBL_MAX \<and> improves h (x, v)"
  by (auto simp: improves_def)

lemma rw_best_after:
  "Min (insert DBL_MAX (set (map snd (h @ [e])))) =
     (if snd e < Min (insert DBL_MAX (set (map snd h))) then snd e else Min (insert DBL_MAX (set (map snd h))))"
proof -
  have "insert DBL_MAX (set (map snd (h @ [e]))) = insert (snd e) (insert DBL_MAX (set (map snd h)))" by auto
  then have m: "Min (insert DBL_MAX (set (map snd (h @ [e])))) = min (snd e) (Min (insert DBL_MAX (set (map snd h))))"
    by (simp only:) (rule Min_insert, simp_all)
  show ?thesis unfolding m by (auto simp only: min_def split: if_splits)
qed

lemma logger_rw_records:
  assumes "logged_layer f d" "rw_inv seconds logger0 path written h s" "length h < 2 ^ 64 - 1" "length x = d"
    and "coco_evaluate_function inner (map Real x) = Inr ([Real v], inner')"
  shows "\<exists>s'. logger_rw_evaluate seconds (Transformed f Logged inner) (map Real x) s
      = Inr ([Real v], Transformed f Logged inner', s') \<and> rw_inv seconds logger0 path written (h @ [(x, v)]) s'"
proof -
  obtain logger fs where s: "s = (logger, fs)" by (cases s)
  let ?m = "Min (insert DBL_MAX (set (map snd h)))" and ?m' = "Min (insert DBL_MAX (set (map snd (h @ [(x, v)]))))"
  let ?lines = "rw_lines seconds (log_vars logger0) (rw_logs_only_better logger0)
    (rw_logs_time logger0) (rw_precision_x logger0) (rw_precision_f logger0)"
  obtain current where l: "logger = logger0\<lparr>rw_number_of_evaluations := length h, rw_current_value := current,
      rw_best_value := Real ?m\<rparr>" "out_file logger0 = Some path" "\<not> log_cons logger0"
    "files fs path = Some (written @ run_lines ?lines h)"
    using assms(2) by (auto simp: rw_inv_def s)
  have f: "number_of_objectives f = 1" "number_of_constraints f = 0" "number_of_integer_variables f = 0"
    "number_of_variables f = d"
    using assms(1) by (simp_all add: logged_layer_def)
  have size: "size_t (Suc (length h)) = Suc (length h)" using assms(3) by simp
  let ?l = "logger0\<lparr>rw_number_of_evaluations := Suc (length h), rw_current_value := Real v, rw_best_value := Real ?m'\<rparr>"
  have m': "?m' = (if v < ?m then v else ?m)" using rw_best_after [of h "(x, v)"] by simp
  have line: "rw_line seconds f ?l (map Real x) [Real v] [] = Inr (?lines h (x, v))"
    if "\<not> rw_logs_only_better logger0 \<or> v < ?m"
    using that l(3) assms(4) f rw_better [of v h x]
    by (simp add: rw_line_def copy_vector_def rw_variables_real rw_lines_def del: Min_less_iff Min_insert set_map)
  let ?go = "v < ?m \<or> \<not> rw_logs_only_better logger0"
  let ?fs = "if ?go then fs\<lparr>files := (files fs)(path \<mapsto> (written @ run_lines ?lines h) @ ?lines h (x, v))\<rparr> else fs"
  have e: "logger_rw_evaluate seconds (Transformed f Logged inner) (map Real x) s
      = Inr ([Real v], Transformed f Logged inner', ?l, ?fs)"
    using assms(5) f l(2) line fprintf_open [OF l(4)] size
    unfolding logger_rw_evaluate_def s prod.case coco_problem_t.case l(1) m'
    by (cases "v < ?m") (auto simp: Let_def simp del: Min_less_iff Min_insert set_map)
  have none: "?lines h (x, v) = []" if "\<not> ?go"
    using that rw_better [of v h x] by (simp add: rw_lines_def del: Min_less_iff Min_insert set_map)
  have "rw_inv seconds logger0 path written (h @ [(x, v)]) (?l, ?fs)"
    using l(2-4) none unfolding rw_inv_def prod.case
    by (intro conjI exI [of _ "Real v"]) (auto simp del: Min_less_iff Min_insert set_map map_append set_append)
  with e show ?thesis by blast
qed

interpretation rw_log: recording_logger "logger_rw_evaluate seconds" d fo "rw_inv seconds logger0 path written"
  "\<lambda>v. True" "2 ^ 64 - 1"
  by unfold_locales (erule (1) logger_rw_transparent, rule logger_rw_records)


section \<open>Properties\<close>

text \<open>
  The real-world logger around a bbob problem: a run returns the values that the run of the problem without
  logger returns, and the output file gets a line for every evaluation, or only for the evaluations with a value
  below all values before, if the observer asks for these.
\<close>

theorem rw_log_of_run:
  assumes "1 \<le> f" "f \<le> 24" "f \<noteq> 20" "2 \<le> d" "d \<le> 44" "i \<le> 200000" "rotations_available f d i"
    and "bbob_problem f d i = Inr p" "observer_data observer = Some (Rw_data data)"
    and "logger_rw observer link p fs = Inr (q, logger, fs')" "out_file logger = Some path" "files fs' path = Some written"
    and "length (observer_name observer) \<le> 300"
  shows "\<exists>F. (\<forall>x. length x = d \<longrightarrow> (\<exists>p'. coco_evaluate_function p (map Real x) = Inr ([Real (F x)], p')))
    \<and> (\<forall>xs. length xs < 2 ^ 64 \<and> (\<forall>x \<in> set xs. length x = d) \<longrightarrow>
        (\<exists>q' s' p'. observe_points (logger_rw_evaluate seconds) q (map (map Real) xs) (logger, fs')
            = Inr (map (\<lambda>x. [Real (F x)]) xs, q', s')
          \<and> evaluate_points p (map (map Real) xs) = Inr (map (\<lambda>x. [Real (F x)]) xs, p')
          \<and> files (snd s') path = Some (written @ run_lines (rw_lines seconds
              (rw_logs (rw_log_vars_mode data) (rw_low_dim_vars data) d) (rw_log_only_better data \<noteq> 0)
              (rw_log_time data \<noteq> 0) (precision_x observer) (precision_f observer)) (map (\<lambda>x. (x, F x)) xs))))"
proof -
  obtain F best fo where p: "solved p d 110 F best fo"
    using bbob_problem_solved [OF assms(1-7)] assms(8) by force
  have new: "new_problem p d 110 F best fo" and o: "objective_problem p d 110 F best fo"
    using p by (simp_all add: solved_def new_problem_def)
  have shape: "number_of_variables (fields p) = d" "number_of_objectives (fields p) = 1" "number_of_constraints (fields p) = 0"
    using o by (simp_all add: objective_problem_def well_formed_def shape_def)
  obtain l where a: "coco_problem_transformed_allocate p Logged (observer_name observer) = Inr (Transformed l Logged p)"
    "copy_of l p d (110 + (length (observer_name observer) + 2)) best fo"
    using transformed_allocate_ok [OF new, of "observer_name observer" _ Logged] assms(13) by fastforce
  have q: "q = own_function (Transformed l Logged p)" "logger = new_logger_rw observer data (fields p) path"
    using assms(9-11) a(1)
    by (auto simp: logger_rw_def rbind_eq_Inr Let_def new_logger_rw_def split: option.splits prod.splits)
  have layer: "logged_layer (l\<lparr>evaluate_function := Some Evaluate_own\<rparr>) d"
    using a(2) by (simp add: logged_layer_def copy_of_def well_formed_def shape_def fresh_def)
  have inv: "rw_inv seconds logger path written [] (logger, fs')"
    using assms(12) shape by (simp add: rw_inv_def q(2) new_logger_rw_def)
  have log: "log_vars logger = rw_logs (rw_log_vars_mode data) (rw_low_dim_vars data) d"
    "rw_logs_only_better logger \<longleftrightarrow> rw_log_only_better data \<noteq> 0" "rw_logs_time logger \<longleftrightarrow> rw_log_time data \<noteq> 0"
    "rw_precision_x logger = precision_x observer" "rw_precision_f logger = precision_f observer"
    using shape by (simp_all add: q(2) new_logger_rw_def)
  have "\<exists>q' s' p'. observe_points (logger_rw_evaluate seconds) q (map (map Real) xs) (logger, fs')
        = Inr (map (\<lambda>x. [Real (F x)]) xs, q', s')
      \<and> evaluate_points p (map (map Real) xs) = Inr (map (\<lambda>x. [Real (F x)]) xs, p')
      \<and> files (snd s') path = Some (written @ run_lines (rw_lines seconds
          (rw_logs (rw_log_vars_mode data) (rw_low_dim_vars data) d) (rw_log_only_better data \<noteq> 0)
          (rw_log_time data \<noteq> 0) (precision_x observer) (precision_f observer)) (map (\<lambda>x. (x, F x)) xs))"
    if "length xs < 2 ^ 64" "\<forall>x \<in> set xs. length x = d" for xs
    using rw_log.observe_run [OF layer inv _ _ o, of xs] that o
    by (fastforce simp: rw_inv_def log q(1) own_function_def)
  then show ?thesis using coco_evaluate_function_objective [OF o] by blast
qed

end
