(* ===== verification/Coco_Observers.thy ===== *)
theory Coco_Observers
  imports Coco_Logger_Biobj Coco_Logger_Bbob Coco_Logger_Rw
begin

text \<open>
  Observers and the problems they observe (\<open>coco_observer.c\<close>): which logger an observer puts around a
  problem, and what is left when it is taken away again.
\<close>

section \<open>Observing a problem\<close>

text \<open>The data of the logger; the bbob logger also has global variables.\<close>

datatype logger_data =
    Toy_logger logger_toy_data_t
  | Bbob_logger logger_bbob_data_t
  | Biobj_logger logger_biobj_data_t
  | Rw_logger logger_rw_data_t

text \<open>The observer, the data of its logger if there is one, the global variables of the bbob logger and the files.\<close>

type_synonym observed_state = "coco_observer_t \<times> logger_data option \<times> bbob_globals \<times> file_system"

abbreviation fields where "fields \<equiv> Coco_Problem.fields"

definition allocate_logger ::
    "logger_function \<Rightarrow> coco_observer_t \<Rightarrow> suite_link \<Rightarrow> coco_problem_t \<Rightarrow> bbob_globals \<Rightarrow> file_system
      \<Rightarrow> (coco_problem_t \<times> observed_state) result" where
  "allocate_logger f observer problem_link problem g fs =
     (case f of
        Logger_toy \<Rightarrow>
          rbind (logger_toy observer problem_link problem fs) (\<lambda>(q, logger, fs). Inr (q, observer, Some (Toy_logger logger), g, fs))
      | Logger_bbob \<Rightarrow>
          rbind (logger_bbob observer problem_link problem g fs) (\<lambda>(q, logger, g, fs). Inr (q, observer, Some (Bbob_logger logger), g, fs))
      | Logger_biobj \<Rightarrow>
          rbind (logger_biobj observer problem_link problem fs) (\<lambda>(q, (logger, fs), observer).
            Inr (q, observer, Some (Biobj_logger logger), g, fs))
      | Logger_rw \<Rightarrow>
          rbind (logger_rw observer problem_link problem fs) (\<lambda>(q, logger, fs). Inr (q, observer, Some (Rw_logger logger), g, fs)))"

text \<open>\<open>None\<close> for a problem that is NULL; an observer that is not active, or NULL, changes nothing.\<close>

definition coco_problem_add_observer ::
    "coco_problem_t option \<Rightarrow> coco_observer_t option \<Rightarrow> suite_link \<Rightarrow> bbob_globals \<Rightarrow> file_system
      \<Rightarrow> (coco_problem_t option \<times> coco_observer_t option \<times> logger_data option \<times> bbob_globals \<times> file_system) result" where
  "coco_problem_add_observer problem observer problem_link g fs =
     (case (problem, observer) of
        (Some p, Some obs) \<Rightarrow>
          if \<not> is_active obs then Inr (problem, observer, None, g, fs)
          else (case logger_allocate_function obs of
            None \<Rightarrow> Inl (Assert_failed ''coco_problem_add_observer'')
          | Some f \<Rightarrow>
              rbind (allocate_logger f obs problem_link p g fs) (\<lambda>(q, obs, logger, g, fs).
                Inr (Some q, Some obs, logger, g, fs)))
      | _ \<Rightarrow> Inr (problem, observer, None, g, fs))"

definition free_logger ::
    "biobj_malloc \<Rightarrow> logger_data \<Rightarrow> bbob_globals \<Rightarrow> file_system \<Rightarrow> (bbob_globals \<times> file_system) result" where
  "free_logger malloc logger g fs =
     (case logger of
        Toy_logger l \<Rightarrow> Inr (g, fs)
      | Bbob_logger l \<Rightarrow> rbind (logger_bbob_free (l, g, fs)) (\<lambda>(_, g, fs). Inr (g, fs))
      | Biobj_logger l \<Rightarrow> rbind (logger_biobj_free malloc (l, fs)) (\<lambda>(_, fs). Inr (g, fs))
      | Rw_logger l \<Rightarrow> (case logger_rw_free (l, fs) of (_, fs) \<Rightarrow> Inr (g, fs)))"

text \<open>
  The prefix of the name has to be the name of the observer. \<open>coco_problem_transformed_free_data\<close> frees
  the logger and the outer problem.
\<close>

definition coco_problem_remove_observer ::
    "biobj_malloc \<Rightarrow> coco_problem_t \<Rightarrow> coco_observer_t option \<Rightarrow> logger_data \<Rightarrow> bbob_globals \<Rightarrow> file_system
      \<Rightarrow> (coco_problem_t \<times> bbob_globals \<times> file_system) result" where
  "coco_problem_remove_observer malloc problem observer logger g fs =
     (case observer of
        None \<Rightarrow> Inr (problem, g, fs)
      | Some obs \<Rightarrow>
          if \<not> is_active obs then Inr (problem, g, fs)
          else
            rbind (coco_problem_get_name (fields problem)) (\<lambda>pname.
            rbind (coco_remove_from_string pname ''('' []) (\<lambda>prefix.
              if prefix \<noteq> observer_name obs then Inl (Coco_error ''coco_problem_remove_observer'')
              else case problem of
                Transformed p t inner \<Rightarrow>
                  rbind (free_logger malloc logger g fs) (\<lambda>(g, fs). Inr (inner, g, fs))
              | _ \<Rightarrow> Inl Null_deref)))"


section \<open>Facts\<close>

lemma remove_from_parenthesis:
  assumes "CHR ''('' \<notin> set name"
  shows "coco_remove_from_string (name @ CHR ''('' # rest) ''('' [] = Inr name"
proof -
  have "strstr (name @ CHR ''('' # rest) ''('' = Some (length name)"
    using assms by (induction name) auto
  then show ?thesis by (simp add: coco_remove_from_string_def)
qed

lemma coco_vstrdupf_text: "coco_vstrdupf fmt s = Inr t \<Longrightarrow> t = s"
  by (auto simp: coco_vstrdupf_def split: if_splits)

text \<open>A logger is a layer around the problem, which puts the name of the observer before that of the problem.\<close>

definition wrapped :: "coco_problem_t \<Rightarrow> coco_observer_t \<Rightarrow> coco_problem_t \<Rightarrow> bool" where
  "wrapped p obs q \<longleftrightarrow> (\<exists>f pname. q = Transformed f Logged p \<and> problem_name (fields p) = Some pname
     \<and> problem_name f = Some (observer_name obs @ CHR ''('' # pname @ '')''))"

lemma transformed_allocate_observed:
  assumes "coco_problem_transformed_allocate p Logged (observer_name obs) = Inr q"
  shows "wrapped p obs (own_function q)"
  using assms
  by (auto simp: coco_problem_transformed_allocate_def rbind_eq_Inr wrapped_def own_function_def
      coco_problem_set_name_def dest!: coco_vstrdupf_text split: option.splits)

text \<open>A property of a result, if there is one.\<close>

definition on_result :: "('a \<Rightarrow> bool) \<Rightarrow> 'a result \<Rightarrow> bool" where
  "on_result P r \<longleftrightarrow> (\<forall>v. r = Inr v \<longrightarrow> P v)"

named_theorems resulting

lemma on_result_Inl [resulting]: "on_result P (Inl e)"
  by (simp add: on_result_def)

lemma on_result_Inr [resulting]: "P v \<Longrightarrow> on_result P (Inr v)"
  by (simp add: on_result_def)

lemma on_result_bind [resulting]: "(\<And>v. m = Inr v \<Longrightarrow> on_result P (f v)) \<Longrightarrow> on_result P (rbind m f)"
  by (cases m) (simp_all add: on_result_def)

lemma on_result_if [resulting]: "(b \<Longrightarrow> on_result P r) \<Longrightarrow> (\<not> b \<Longrightarrow> on_result P s) \<Longrightarrow> on_result P (if b then r else s)"
  by simp

lemma on_result_prod [resulting]:
  "(\<And>a b. v = (a, b) \<Longrightarrow> on_result P (f a b)) \<Longrightarrow> on_result P (case v of (a, b) \<Rightarrow> f a b)"
  by (cases v) simp

lemma on_result_option [resulting]:
  "(m = None \<Longrightarrow> on_result P r) \<Longrightarrow> (\<And>v. m = Some v \<Longrightarrow> on_result P (f v)) \<Longrightarrow>
    on_result P (case m of None \<Rightarrow> r | Some v \<Rightarrow> f v)"
  by (cases m) simp_all

lemma on_result_data [resulting]:
  "(\<And>v. d = Toy_data v \<Longrightarrow> on_result P (f v)) \<Longrightarrow> (\<And>v. d = Biobj_data v \<Longrightarrow> on_result P (g v)) \<Longrightarrow>
    (\<And>v. d = Rw_data v \<Longrightarrow> on_result P (h v)) \<Longrightarrow>
    on_result P (case d of Toy_data v \<Rightarrow> f v | Biobj_data v \<Rightarrow> g v | Rw_data v \<Rightarrow> h v)"
  by (cases d) simp_all

lemma on_resultD: "on_result P r \<Longrightarrow> r = Inr v \<Longrightarrow> P v"
  by (simp add: on_result_def)

lemma logger_toy_observed: "on_result (\<lambda>(q, s). wrapped p obs q) (logger_toy obs problem_link p fs)"
  unfolding logger_toy_def Let_def by (intro resulting) (simp add: transformed_allocate_observed)

lemma logger_bbob_observed: "on_result (\<lambda>(q, s). wrapped p obs q) (logger_bbob obs problem_link p g fs)"
  unfolding logger_bbob_def Let_def by (intro resulting) (simp add: transformed_allocate_observed)

lemma logger_rw_observed: "on_result (\<lambda>(q, s). wrapped p obs q) (logger_rw obs problem_link p fs)"
  unfolding logger_rw_def Let_def by (intro resulting) (simp add: transformed_allocate_observed)

lemma logger_biobj_observed:
  "on_result (\<lambda>(q, s, obs'). wrapped p obs q \<and> observer_name obs' = observer_name obs \<and> is_active obs' = is_active obs)
     (logger_biobj obs problem_link p fs)"
  unfolding logger_biobj_def Let_def
  by (intro resulting) (auto simp: transformed_allocate_observed remember_problem_def rbind_eq_Inr split: if_splits)

lemma allocate_logger_observed:
  "on_result (\<lambda>(q, obs', s). wrapped p obs q \<and> observer_name obs' = observer_name obs \<and> is_active obs' = is_active obs)
     (allocate_logger f obs problem_link p g fs)"
  proof (cases f)
  case Logger_toy
  have "wrapped p obs q" if "logger_toy obs problem_link p fs = Inr (q, s)" for q s
    using on_resultD [OF logger_toy_observed that] by simp
  with Logger_toy show ?thesis
    unfolding allocate_logger_def by (simp only: logger_function.case) (intro resulting, simp)
next
  case Logger_bbob
  have "wrapped p obs q" if "logger_bbob obs problem_link p g fs = Inr (q, s)" for q s
    using on_resultD [OF logger_bbob_observed that] by simp
  with Logger_bbob show ?thesis
    unfolding allocate_logger_def by (simp only: logger_function.case) (intro resulting, simp)
next
  case Logger_biobj
  have "wrapped p obs q \<and> observer_name obs' = observer_name obs \<and> is_active obs' = is_active obs"
    if "logger_biobj obs problem_link p fs = Inr (q, s, obs')" for q s obs'
    using on_resultD [OF logger_biobj_observed that] by simp
  with Logger_biobj show ?thesis
    unfolding allocate_logger_def
    by (simp only: logger_function.case) (intro resulting, auto simp: on_result_def split: prod.splits)
next
  case Logger_rw
  have "wrapped p obs q" if "logger_rw obs problem_link p fs = Inr (q, s)" for q s
    using on_resultD [OF logger_rw_observed that] by simp
  with Logger_rw show ?thesis
    unfolding allocate_logger_def by (simp only: logger_function.case) (intro resulting, simp)
qed

section \<open>Properties\<close>

text \<open>
  C21. Removing the observer that was added gives the inner problem back, in its state after any
  evaluations, and what remains of the logger is what freeing it leaves. The name of the observer must have no parenthesis.
\<close>

theorem observer_removed:
  assumes "coco_problem_add_observer (Some p) (Some obs) problem_link g fs = Inr (Some q, obs', Some logger, g', fs')"
    and "CHR ''('' \<notin> set (observer_name obs)" "problem_name (fields (Transformed f t p')) = problem_name (fields q)"
  shows "(\<exists>f'. q = Transformed f' Logged p)
    \<and> coco_problem_remove_observer malloc (Transformed f t p') obs' logger' g1 fs1
        = rbind (free_logger malloc logger' g1 fs1) (\<lambda>(g, fs). Inr (p', g, fs))"
proof -
  obtain lf obs1 where a: "is_active obs" "allocate_logger lf obs problem_link p g fs = Inr (q, obs1, Some logger, g', fs')"
    "obs' = Some obs1"
    using assms(1) by (auto simp: coco_problem_add_observer_def rbind_eq_Inr split: if_splits option.splits)
  have o: "wrapped p obs q" "observer_name obs1 = observer_name obs" "is_active obs1"
    using on_resultD [OF allocate_logger_observed a(2)] a(1) by simp_all
  obtain fq pname where q: "q = Transformed fq Logged p" "problem_name fq = Some (observer_name obs @ CHR ''('' # pname @ '')'')"
    using o(1) by (auto simp: wrapped_def)
  have "coco_problem_get_name (fields (Transformed f t p')) = Inr (observer_name obs @ CHR ''('' # pname @ '')'')"
    using assms(3) q by (simp add: coco_problem_get_name_def)
  then show ?thesis
    using q(1) o(2,3) remove_from_parenthesis [OF assms(2)] by (simp add: coco_problem_remove_observer_def a(3))
qed

theorem observer_removed_witness:
  "\<exists>p q obs' logger g fs. coco_problem_add_observer (Some p) (Some (observer_bbob example_observer)) example_link
      initial_bbob_globals example_files = Inr (Some q, obs', Some logger, g, fs)
    \<and> (\<exists>f. q = Transformed f Logged p)
    \<and> coco_problem_remove_observer (\<lambda>_. 0) q obs' logger g fs = Inr (p, initial_bbob_globals, example_files)"
proof -
  let ?obs = "observer_bbob example_observer"
  have rot: "rotations_available 1 2 1" by (simp add: rotations_available_def)
  have num: "1 \<le> (1 :: nat)" "(1 :: nat) \<le> 24" "(1 :: nat) \<noteq> 20" "2 \<le> (2 :: nat)" "(2 :: nat) \<le> 44"
    "(1 :: nat) \<le> 200000"
    by simp_all
  from bbob_problem_solved [OF this rot] obtain p F best fo where "solved p 2 110 F best fo" by metis
  then have new: "new_problem p 2 110 F best fo" by (simp add: solved_def)
  have obs: "is_active ?obs" "observer_name ?obs = ''bbob''" "logger_allocate_function ?obs = Some Logger_bbob"
    "base_evaluation_triggers ?obs = ''1,2,5''"
    by (simp_all add: observer_bbob_def example_observer_def coco_observer_allocate_def)
  have ev: "coco_observer_evaluations (base_evaluation_triggers ?obs) 2 = Inr example_evals"
    unfolding obs by (rule example_evaluations)
  let ?l = "new_logger_bbob ?obs example_link 2 fo example_evals"
  let ?g = "initial_bbob_globals\<lparr>bbob_logger_is_open := True\<rparr>"
  obtain f where l: "logger_bbob ?obs example_link p initial_bbob_globals example_files
      = Inr (Transformed f Logged p, ?l, ?g, example_files)"
    using logger_bbob_new [OF new _ ev, of initial_bbob_globals example_link example_files]
    by (auto simp: obs(2) initial_bbob_globals_def example_link_def)
  have add: "coco_problem_add_observer (Some p) (Some ?obs) example_link initial_bbob_globals example_files
      = Inr (Some (Transformed f Logged p), Some ?obs, Some (Bbob_logger ?l), ?g, example_files)"
    by (simp add: coco_problem_add_observer_def obs(1,3) allocate_logger_def l)
  have name: "CHR ''('' \<notin> set (observer_name ?obs)" by (simp add: obs(2))
  have free: "free_logger (\<lambda>_. 0) (Bbob_logger ?l) ?g example_files = Inr (initial_bbob_globals, example_files)"
    by (simp add: free_logger_def logger_bbob_free_def new_logger_bbob_def initial_bbob_globals_def)
  from observer_removed [OF add name refl, of "\<lambda>_. 0" "Bbob_logger ?l" ?g example_files]
  have "coco_problem_remove_observer (\<lambda>_. 0) (Transformed f Logged p) (Some ?obs) (Bbob_logger ?l) ?g example_files
      = Inr (p, initial_bbob_globals, example_files)"
    unfolding free by simp
  with add show ?thesis by blast
qed


section \<open>The options of an observer\<close>

text \<open>A conversion that fails with 0 has not stored a value.\<close>

definition quiet :: "(string \<Rightarrow> 'v scan) \<Rightarrow> bool" where
  "quiet sc \<longleftrightarrow> (\<forall>s v. sc s = (0, v) \<longrightarrow> v = None)"

definition stored :: "'v scan \<Rightarrow> bool" where
  "stored r \<longleftrightarrow> (fst r = 0 \<longrightarrow> snd r = None)"

lemma stored_rules:
  "stored (k, None)" "stored (1, Some v)" "stored r \<Longrightarrow> stored r' \<Longrightarrow> stored (if b then r else r')"
  "(\<And>a b. stored (f a b)) \<Longrightarrow> stored (case p of (a, b) \<Rightarrow> f a b)"
  "stored r \<Longrightarrow> (\<And>v. stored (h v)) \<Longrightarrow> stored (case m of None \<Rightarrow> r | Some v \<Rightarrow> h v)"
  by (auto simp: stored_def split: prod.splits option.splits)

lemma quiet_stored: "(\<And>s. stored (sc s)) \<Longrightarrow> quiet sc"
  by (auto simp: quiet_def stored_def) (metis fst_conv snd_conv)

lemma quiet_conversions: "quiet scan_i" "quiet scan_lu" "quiet scan_lf"
proof -
  show "quiet scan_i" by (rule quiet_stored, unfold scan_i_def Let_def) (intro stored_rules)
  show "quiet scan_lu" by (rule quiet_stored, unfold scan_lu_def Let_def) (intro stored_rules)
  show "quiet scan_lf" by (rule quiet_stored, unfold scan_lf_def Let_def) (intro stored_rules)
qed

lemma read_checked_accepted:
  assumes "quiet sc" "\<not> bad preset"
  shows "on_result (\<lambda>v. \<not> bad v) (read_checked (coco_options_read sc) options key preset bad)"
proof -
  have "v = None" if "coco_options_read sc options key = Inr (0, v)" for v
    using that assms(1) by (auto simp: coco_options_read_def quiet_def rbind_eq_Inr Let_def split: option.splits if_splits)
  with assms(2) show ?thesis
    by (auto simp: on_result_def read_checked_def rbind_eq_Inr Let_def split: option.splits if_splits)
qed

definition accepted_options :: "string \<Rightarrow> coco_observer_t \<Rightarrow> bool" where
  "accepted_options name obs \<longleftrightarrow> observer_name obs = name
     \<and> 1 \<le> number_target_triggers obs \<and> 4 \<le> number_evaluation_triggers obs
     \<and> (observer_target_precision obs = NaN \<or> (\<exists>P. observer_target_precision obs = Real P \<and> 0 < P \<and> P \<le> 1))
     \<and> (\<forall>p \<in> {precision_x obs, precision_f obs, precision_g obs}. 1 \<le> p \<and> p \<le> 32)
     \<and> observer_log_discrete_as_int obs \<in> {0, 1}"

lemma precision_accepted: "\<not> (Real 1 < v \<or> v \<le> Real 0) \<Longrightarrow> v = NaN \<or> (\<exists>P. v = Real P \<and> 0 < P \<and> P \<le> 1)"
  by (cases v) (auto simp: less_eq_double_def)

lemma allocate_with_options_accepted:
  "on_result (accepted_options name) (allocate_with_options path name options)"
proof -
  have int: "on_result (\<lambda>v. \<not> bad v) (read_checked coco_options_read_int options key preset bad)" if "\<not> bad preset" for key preset bad
    unfolding coco_options_read_int_def using that by (rule read_checked_accepted [OF quiet_conversions(1)])
  have nat: "on_result (\<lambda>v. \<not> bad v) (read_checked coco_options_read_size_t options key preset bad)" if "\<not> bad preset" for key preset bad
    unfolding coco_options_read_size_t_def using that by (rule read_checked_accepted [OF quiet_conversions(2)])
  have dbl: "on_result (\<lambda>v. \<not> (Real 1 < v \<or> v \<le> Real 0)) (read_checked coco_options_read_double options ''target_precision''
      (Real (1 / 10 ^ 8)) (\<lambda>v. Real 1 < v \<or> v \<le> Real 0))"
    unfolding coco_options_read_double_def by (rule read_checked_accepted [OF quiet_conversions(3)]) (simp add: less_eq_double_def)
  have pr: "on_result (\<lambda>v. \<not> (v < 1 \<or> v > 32)) (read_precision options key preset)" if "\<not> (preset < 1 \<or> preset > 32)" for key preset
    unfolding read_precision_def using that by (rule int)
  show ?thesis
    unfolding allocate_with_options_def
  proof (intro on_result_bind on_result_Inr, goal_cases)
    case (1 algorithm info tn tp en base px pf pg discrete)
    have "\<not> tn = 0" "\<not> en < 4" "\<not> (discrete < 0 \<or> discrete > 1)"
      using on_resultD [OF nat 1(3)] on_resultD [OF nat 1(5)] on_resultD [OF int 1(10)] by simp_all
    moreover have "\<not> (px < 1 \<or> px > 32)" "\<not> (pf < 1 \<or> pf > 32)" "\<not> (pg < 1 \<or> pg > 32)"
      using on_resultD [OF pr 1(7)] on_resultD [OF pr 1(8)] on_resultD [OF pr 1(9)] by simp_all
    moreover note precision_accepted [OF on_resultD [OF dbl 1(4)]]
    ultimately show ?case by (auto simp: accepted_options_def coco_observer_allocate_def)
  qed
qed

text \<open>The data of the observer is what its logger takes it for.\<close>

definition data_fits :: "coco_observer_t \<Rightarrow> bool" where
  "data_fits obs \<longleftrightarrow>
     (case logger_allocate_function obs of
        None \<Rightarrow> False
      | Some Logger_bbob \<Rightarrow> True
      | Some Logger_toy \<Rightarrow> (\<exists>f. observer_data obs = Some (Toy_data (Some f)))
      | Some Logger_biobj \<Rightarrow> (\<exists>d. observer_data obs = Some (Biobj_data d))
      | Some Logger_rw \<Rightarrow> (\<exists>d. observer_data obs = Some (Rw_data d)))"

definition configured :: "coco_observer_t \<Rightarrow> coco_observer_t \<Rightarrow> bool" where
  "configured obs obs' \<longleftrightarrow> data_fits obs' \<and> (\<exists>f d a. obs' = obs\<lparr>logger_allocate_function := f, observer_data := d, is_active := a\<rparr>)"

lemma configured_bbob: "configured obs (observer_bbob obs)"
  unfolding configured_def
  by (intro conjI exI [of _ "Some Logger_bbob"] exI [of _ None] exI [of _ "is_active obs"])
    (simp_all add: data_fits_def observer_bbob_def)

lemma configured_toy: "on_result (\<lambda>(obs', s). configured obs obs') (observer_toy obs options fs)"
proof -
  have "configured obs (obs\<lparr>logger_allocate_function := Some Logger_toy, observer_data := Some (Toy_data (Some f))\<rparr>)" for f
    unfolding configured_def
    by (intro conjI exI [of _ "Some Logger_toy"] exI [of _ "Some (Toy_data (Some f))"] exI [of _ "is_active obs"])
      (simp_all add: data_fits_def)
  then show ?thesis
    unfolding observer_toy_def
    by (intro on_result_bind on_result_prod) (auto simp: on_result_def split: option.splits prod.splits)
qed

lemma configured_rw: "on_result (\<lambda>(obs', s). configured obs obs') (observer_rw obs options)"
proof -
  have "configured obs (obs\<lparr>logger_allocate_function := Some Logger_rw, observer_data := Some (Rw_data d)\<rparr>)" for d
    unfolding configured_def
    by (intro conjI exI [of _ "Some Logger_rw"] exI [of _ "Some (Rw_data d)"] exI [of _ "is_active obs"])
      (simp_all add: data_fits_def)
  then show ?thesis by (auto simp: on_result_def observer_rw_def rbind_eq_Inr)
qed

lemma configured_biobj: "on_result (\<lambda>(obs', s). configured obs obs') (observer_biobj obs options)"
proof -
  have "configured obs (let obs' = obs\<lparr>logger_allocate_function := Some Logger_biobj, observer_data := Some (Biobj_data d)\<rparr>
      in if b then obs'\<lparr>is_active := False\<rparr> else obs')" for d b
    unfolding configured_def
    by (intro conjI exI [of _ "Some Logger_biobj"] exI [of _ "Some (Biobj_data d)"] exI [of _ "if b then False else is_active obs"])
      (simp_all add: data_fits_def Let_def)
  then have "configured obs (if b then obs\<lparr>logger_allocate_function := Some Logger_biobj, observer_data := Some (Biobj_data d), is_active := False\<rparr>
      else obs\<lparr>logger_allocate_function := Some Logger_biobj, observer_data := Some (Biobj_data d)\<rparr>)" for d b
    by (simp add: Let_def)
  note c = this [of True, simplified] this [of False, simplified]
  show ?thesis unfolding observer_biobj_def Let_def by (intro on_result_bind on_result_Inr) (simp add: c)
qed

lemma choose_observer_configured:
  "on_result (\<lambda>r. \<forall>obs' s. r = Some (obs', s) \<longrightarrow> configured obs obs') (choose_observer obs options fs)"
  unfolding choose_observer_def Let_def
  by (intro on_result_if on_result_bind on_result_prod on_result_Inr)
    (auto simp: configured_bbob dest: on_resultD [OF configured_toy] on_resultD [OF configured_biobj] on_resultD [OF configured_rw])

text \<open>
  C22. Every observer that the constructor returns has the name asked for, at least one target and four evaluation
  triggers, precisions between 1 and 32 and a target precision that is in (0, 1] or NaN; it has a logger, and its data
  are of the type for which the logger takes them.
\<close>

theorem observer_options_accepted:
  assumes "coco_observer name options fs = Inr (Some obs, fs')"
  shows "accepted_options name obs \<and> data_fits obs"
proof -
  obtain path fs1 obs1 keys fs2 where o: "allocate_with_options path name options = Inr obs1"
    "choose_observer obs1 options fs1 = Inr (Some (obs, keys, fs2))"
    using assms by (auto simp: coco_observer_def rbind_eq_Inr split: if_splits option.splits)
  have "accepted_options name obs1" by (rule on_resultD [OF allocate_with_options_accepted o(1)])
  moreover have "configured obs1 obs" using on_resultD [OF choose_observer_configured o(2)] by blast
  ultimately show ?thesis by (auto simp: configured_def accepted_options_def)
qed


lemma example_observer_made:
  assumes "directories fs = {}" "files fs = (\<lambda>_. None)" "refused fs = (\<lambda>_. False)"
  shows "\<exists>obs fs'. coco_observer ''bbob'' None fs = Inr (Some obs, fs') \<and> result_folder obs = ''exdata/default''"
proof -
  have j: "coco_join_path ''exdata'' COCO_PATH_MAX [''default''] = Inr ''exdata/default''" by code_simp
  have k: "check_redundant_keys None None = Inr ()" by code_simp
  obtain fs' where u: "coco_create_unique_directory ''exdata/default'' fs = Inr (''exdata/default'', fs')"
    using assms
    by (simp add: coco_create_unique_directory_def coco_create_directory_def strip_separators_def char_at_def Let_def
        coco_mkdir_def has_parent_def parent_directory_def coco_directory_exists_def coco_file_exists_def)
  have r: "read_text None key cap preset = Inr preset" "read_checked (coco_options_read sc) None key v bad = Inr v"
    for key cap preset and sc :: "string \<Rightarrow> 'v scan" and v bad
    by (simp_all add: read_text_def read_checked_def coco_options_read_string_def coco_options_read_def)
  show ?thesis
    by (simp add: coco_observer_def r j u k allocate_with_options_def read_precision_def coco_options_read_int_def
        coco_options_read_size_t_def coco_options_read_double_def choose_observer_def coco_observer_allocate_def
        observer_bbob_def)
qed


theorem observer_options_accepted_witness:
  "\<exists>fs obs fs'. coco_observer ''bbob'' None fs = Inr (Some obs, fs') \<and> data_fits obs \<and> precision_x obs \<le> 32"
proof -
  let ?fs = "\<lparr> directories = {}, files = (\<lambda>_. None), refused = (\<lambda>_. False) \<rparr>"
  from example_observer_made [of ?fs] obtain obs fs' where o: "coco_observer ''bbob'' None ?fs = Inr (Some obs, fs')"
    by auto
  from observer_options_accepted [OF this] have "data_fits obs" "precision_x obs \<le> 32"
    by (simp_all add: accepted_options_def)
  with o show ?thesis by blast
qed

end
