(* ===== verification/Coco_Biobj_Runs.thy ===== *)
theory Coco_Biobj_Runs
  imports Coco_Biobj_Values Coco_Observers
begin

text \<open>
  Runs of evaluations of a problem with the bi-objective logger around it: what the logger returns, how its
  archive and its indicator develop, and the lines that it writes.
\<close>

section \<open>The lines of a run\<close>

definition biobj_dat_lines :: "nat \<Rightarrow> real \<Rightarrow> int \<Rightarrow> real \<Rightarrow> archive_item list \<Rightarrow> archive_item \<Rightarrow> chunk list" where
  "biobj_dat_lines N P pf best h x =
     (let v = overall_of best (h @ [x])
      in if hits_target N P (overall_values best h) v
         then indicator_line pf (Suc (length h)) v
           @ [Text tabulator, Number (e_format pf) (Real (target_of N P v)), Text newline]
         else [])"

definition biobj_tdat_lines :: "nat list \<Rightarrow> nat \<Rightarrow> int \<Rightarrow> real \<Rightarrow> archive_item list \<Rightarrow> archive_item \<Rightarrow> chunk list" where
  "biobj_tdat_lines bs d pf best h x =
     (if logged_evaluation bs d (Suc (length h))
      then indicator_line pf (Suc (length h)) (overall_of best (h @ [x])) @ [Text newline] else [])"

text \<open>
  The indicator after the solutions \<open>h\<close>. \<open>N\<close> and \<open>P\<close> belong to the targets, \<open>bs\<close> and \<open>d\<close> to the numbers of
  evaluations, the files are open.
\<close>

datatype biobj_run = Biobj_run
  (biobj_targets: nat)
  (biobj_target_precision: real)
  (biobj_bases: "nat list")
  (biobj_dimension: nat)
  (biobj_best: real)
  (biobj_dat: string)
  (biobj_tdat: string)

definition indicator_after :: "biobj_run \<Rightarrow> archive_item list \<Rightarrow> logger_biobj_indicator_t \<Rightarrow> bool" where
  "indicator_after r h ind \<longleftrightarrow>
     targets_after (biobj_targets r) (biobj_target_precision r) (overall_values (biobj_best r) h) (ind_targets ind)
     \<and> evaluations_wait (ind_evaluations ind) (biobj_bases r) (biobj_dimension r) (length h)
     \<and> best_indicator ind = biobj_best r \<and> ind_dat_file ind = Some (biobj_dat r) \<and> ind_tdat_file ind = Some (biobj_tdat r)
     \<and> (if h = [] then additional_penalty ind = DBL_MAX
        else additional_penalty ind = penalty_of h \<and> overall_indicator ind = overall_of (biobj_best r) h)"

definition trigger_settings :: "biobj_run \<Rightarrow> bool" where
  "trigger_settings r \<longleftrightarrow> trigger_bounds (biobj_targets r) (biobj_target_precision r) 0 \<and> \<bar>biobj_best r\<bar> \<le> 1"

definition bounded_item :: "archive_item \<Rightarrow> bool" where
  "bounded_item x \<longleftrightarrow> normalized x \<and> y0 x \<le> 10 ^ 9 \<and> y1 x \<le> 10 ^ 9"

section \<open>The output after an evaluation\<close>

lemma trigger_overall:
  assumes "trigger_settings r" "\<forall>z \<in> set xs. bounded_item z" "xs \<noteq> []"
  shows "trigger_bounds (biobj_targets r) (biobj_target_precision r) (overall_of (biobj_best r) xs)"
  using assms overall_bounds [of xs "biobj_best r"]
  by (simp add: trigger_settings_def trigger_bounds_def bounded_item_def)

lemma distance_below_DBL_MAX: "bounded_item x \<Longrightarrow> roi_distance x \<le> DBL_MAX"
proof -
  assume "bounded_item x"
  then have "roi_distance x \<le> 2 * 10 ^ 9" by (intro roi_distance_bounds) (simp_all add: bounded_item_def)
  also have "(2 * 10 ^ 9 :: real) \<le> 2 ^ 40" by simp
  also have "(2 :: real) ^ 40 \<le> 2 ^ 1023" by (rule power_increasing) simp_all
  also have "\<dots> \<le> DBL_MAX" unfolding DBL_MAX_def by (simp add: field_simps del: power_numeral)
  finally show ?thesis .
qed

lemma update_overall_ok:
  assumes ind: "indicator_after r h ind" and cur: "current_indicator ind = dominated_volume (h @ [front_item x])"
    and b: "\<forall>z \<in> set (h @ [front_item x]). bounded_item z" and r: "trigger_settings r"
  shows "\<exists>targets. update_overall 2 x ind = Inr (ind\<lparr>additional_penalty := penalty_of (h @ [front_item x]),
        overall_indicator := overall_of (biobj_best r) (h @ [front_item x]),
        target_hit := hits_target (biobj_targets r) (biobj_target_precision r) (overall_values (biobj_best r) h)
          (overall_of (biobj_best r) (h @ [front_item x])), ind_targets := targets\<rparr>)
    \<and> targets_after (biobj_targets r) (biobj_target_precision r) (overall_values (biobj_best r) (h @ [front_item x])) targets
    \<and> (hits_target (biobj_targets r) (biobj_target_precision r) (overall_values (biobj_best r) h)
          (overall_of (biobj_best r) (h @ [front_item x])) \<longrightarrow>
        target_value targets = Real (target_of (biobj_targets r) (biobj_target_precision r)
          (overall_of (biobj_best r) (h @ [front_item x]))))"
proof -
  let ?x = "front_item x"
  have bx: "bounded_item ?x" "normalized ?x" using b by (simp_all add: bounded_item_def)
  have d: "mo_get_distance_to_ROI (item_normalized_y x) 2 = Inr (roi_distance ?x)"
    using distance_ok [OF bx(2)] by simp
  have p: "(if coco_double_almost_equal (current_indicator ind) 0 mo_precision
      then coco_double_min (additional_penalty ind) (roi_distance ?x) else 0) = penalty_of (h @ [?x])"
  proof (cases "h = []")
    case True
    then show ?thesis using ind distance_below_DBL_MAX [OF bx(1)]
      by (simp add: indicator_after_def cur penalty_of_def coco_double_min_def)
  next
    case False
    then show ?thesis using ind unfolding cur penalty_snoc [OF False] by (simp add: indicator_after_def)
  qed
  have "0 \<le> penalty_of (h @ [?x])" by (rule penalty_nonnegative) simp
  then have penalty: "(if coco_double_almost_equal (current_indicator ind) 0 mo_precision
      then rbind (mo_get_distance_to_ROI (item_normalized_y x) 2) (\<lambda>new_distance.
        let penalty = coco_double_min (additional_penalty ind) new_distance
        in if \<not> penalty \<ge> 0 then Inl (Assert_failed ''logger_biobj_output'') else Inr penalty)
      else Inr 0) = Inr (penalty_of (h @ [?x]))"
    using p d by (auto simp: Let_def split: if_splits)
  have "trigger_bounds (biobj_targets r) (biobj_target_precision r) (overall_of (biobj_best r) (h @ [?x]))"
    by (rule trigger_overall [OF r b]) simp
  from targets_after_step [OF this] ind obtain targets where
    "coco_observer_targets_trigger (ind_targets ind) (Real (overall_of (biobj_best r) (h @ [?x])))
      = Inr (hits_target (biobj_targets r) (biobj_target_precision r) (overall_values (biobj_best r) h)
          (overall_of (biobj_best r) (h @ [?x])), targets)"
    "targets_after (biobj_targets r) (biobj_target_precision r)
      (overall_values (biobj_best r) h @ [overall_of (biobj_best r) (h @ [?x])]) targets"
    "hits_target (biobj_targets r) (biobj_target_precision r) (overall_values (biobj_best r) h)
        (overall_of (biobj_best r) (h @ [?x])) \<longrightarrow>
      target_value targets = Real (target_of (biobj_targets r) (biobj_target_precision r) (overall_of (biobj_best r) (h @ [?x])))"
    unfolding indicator_after_def by blast
  moreover have "best_indicator ind - current_indicator ind + penalty_of (h @ [?x]) = overall_of (biobj_best r) (h @ [?x])"
    using ind cur by (simp add: overall_of_def indicator_after_def)
  ultimately show ?thesis
    by (intro exI [of _ targets]) (simp add: update_overall_def penalty overall_values_snoc Let_def)
qed

text \<open>A solution that is covered changes neither the value nor the targets.\<close>

lemma targets_after_again:
  assumes "targets_after N P vs t" "v \<in> set vs"
  shows "targets_after N P (vs @ [v]) t" "\<not> hits_target N P vs v"
proof -
  have "effective_exponent N P ` set (vs @ [v]) = effective_exponent N P ` set vs" using assms(2) by auto
  with assms(1) show "targets_after N P (vs @ [v]) t" by (simp add: targets_after_def)
  show "\<not> hits_target N P vs v" using assms(2) by (auto simp: hits_target_def)
qed

lemma output_ok:
  assumes ind: "indicator_after r h ind" and l: "hyp_indicator l = Some ind" "compute_indicators l"
    "biobj_number_of_objectives l = 2" "biobj_number_of_evaluations l = Suc (length h)" "log_nondom_mode l \<noteq> LOG_NONDOM_READ"
    and cur: "current_indicator ind = dominated_volume (h @ [front_item x])"
    and b: "\<forall>z \<in> set (h @ [front_item x]). bounded_item z" and r: "trigger_settings r" and size: "length h < 10 ^ 17"
    and f: "files fs (biobj_dat r) = Some w1" "files fs (biobj_tdat r) = Some w2" "biobj_dat r \<noteq> biobj_tdat r"
  shows "\<exists>ind' fs'. logger_biobj_output l (\<not> (\<exists>z \<in> set h. covers z (front_item x))) x fs
      = Inr (l\<lparr>hyp_indicator := Some ind'\<rparr>, fs') \<and> indicator_after r (h @ [front_item x]) ind'
    \<and> current_indicator ind' = current_indicator ind
    \<and> files fs' (biobj_dat r) = Some (w1 @ biobj_dat_lines (biobj_targets r) (biobj_target_precision r)
        (biobj_precision_f l) (biobj_best r) h (front_item x))
    \<and> files fs' (biobj_tdat r) = Some (w2 @ biobj_tdat_lines (biobj_bases r) (biobj_dimension r)
        (biobj_precision_f l) (biobj_best r) h (front_item x))"
proof -
  let ?x = "front_item x" and ?N = "biobj_targets r" and ?P = "biobj_target_precision r" and ?best = "biobj_best r"
  let ?v = "overall_of ?best (h @ [?x])"
  let ?hit = "hits_target ?N ?P (overall_values ?best h) ?v"
  let ?ind = "ind\<lparr>target_hit := False, previous_indicator := overall_indicator ind\<rparr>"
  let ?covered = "\<exists>z \<in> set h. covers z ?x"
  have ind': "indicator_after r h ?ind" using ind by (simp add: indicator_after_def)
  have cur': "current_indicator ?ind = dominated_volume (h @ [?x])" using cur by simp
  have "\<exists>ind1. (if \<not> ?covered then update_overall 2 x ?ind else Inr ?ind) = Inr ind1
    \<and> targets_after ?N ?P (overall_values ?best (h @ [?x])) (ind_targets ind1) \<and> target_hit ind1 = ?hit
    \<and> (?hit \<longrightarrow> target_value (ind_targets ind1) = Real (target_of ?N ?P ?v))
    \<and> additional_penalty ind1 = penalty_of (h @ [?x]) \<and> overall_indicator ind1 = ?v
    \<and> ind_evaluations ind1 = ind_evaluations ind \<and> best_indicator ind1 = ?best \<and> current_indicator ind1 = current_indicator ind
    \<and> ind_dat_file ind1 = Some (biobj_dat r) \<and> ind_tdat_file ind1 = Some (biobj_tdat r)"
  proof (cases ?covered)
    case True
    then obtain z where z: "z \<in> set h" "covers z ?x" by blast
    have n: "\<forall>z \<in> set (?x # h). normalized z" using b by (simp add: bounded_item_def)
    note same = overall_covered [OF n z]
    have ne: "h \<noteq> []" using z by auto
    have mem: "?v \<in> set (overall_values ?best h)" unfolding same(2) by (rule overall_last [OF ne])
    have t: "targets_after ?N ?P (overall_values ?best h) (ind_targets ind)" using ind by (simp add: indicator_after_def)
    show ?thesis using True ind ne targets_after_again [OF t mem] same
      by (intro exI [of _ ?ind]) (simp add: indicator_after_def overall_values_snoc)
  next
    case False
    from update_overall_ok [OF ind' cur' b r] ind False show ?thesis
      by (elim exE conjE) (rule exI, auto simp: indicator_after_def)
  qed
  then obtain ind1 where i: "(if \<not> ?covered then update_overall 2 x ?ind else Inr ?ind) = Inr ind1"
    "targets_after ?N ?P (overall_values ?best (h @ [?x])) (ind_targets ind1)" "target_hit ind1 = ?hit"
    "?hit \<longrightarrow> target_value (ind_targets ind1) = Real (target_of ?N ?P ?v)"
    "additional_penalty ind1 = penalty_of (h @ [?x])" "overall_indicator ind1 = ?v"
    "ind_evaluations ind1 = ind_evaluations ind" "best_indicator ind1 = ?best" "current_indicator ind1 = current_indicator ind"
    "ind_dat_file ind1 = Some (biobj_dat r)" "ind_tdat_file ind1 = Some (biobj_tdat r)" by blast
  have "evaluations_wait (ind_evaluations ind) (biobj_bases r) (biobj_dimension r) (length h)"
    using ind by (simp add: indicator_after_def)
  from evaluations_trigger_step [OF this size] obtain evals where
    e: "coco_observer_evaluations_trigger (ind_evaluations ind) (Suc (length h))
      = Inr (logged_evaluation (biobj_bases r) (biobj_dimension r) (Suc (length h)), evals)"
    "evaluations_wait evals (biobj_bases r) (biobj_dimension r) (Suc (length h))" by blast
  let ?logged = "logged_evaluation (biobj_bases r) (biobj_dimension r) (Suc (length h))"
  let ?ind2 = "ind1\<lparr>evaluation_logged := ?logged, ind_evaluations := evals\<rparr>"
  let ?pf = "biobj_precision_f l"
  let ?dat = "biobj_dat_lines ?N ?P ?pf ?best h ?x" and ?tdat = "biobj_tdat_lines (biobj_bases r) (biobj_dimension r) ?pf ?best h ?x"
  let ?fs1 = "fs\<lparr>files := (files fs)(biobj_dat r := Some (w1 @ ?dat))\<rparr>"
  let ?fs2 = "?fs1\<lparr>files := (files ?fs1)(biobj_tdat r := Some (w2 @ ?tdat))\<rparr>"
  have log1: "(if target_hit ind1 then log_target ?pf (Suc (length h)) ind1 fs else Inr fs) = Inr ?fs1"
    using i f(1) by (auto simp: log_target_def fprintf_def biobj_dat_lines_def Let_def fun_upd_idem)
  have f2: "files ?fs1 (biobj_tdat r) = Some w2" using f by simp
  have log2: "log_evaluation ?pf (Suc (length h)) (overall_indicator ind1) (ind1, ?fs1) = Inr (?ind2, ?fs2)"
    using i f2 e(1) by (auto simp: log_evaluation_def fprintf_def biobj_tdat_lines_def Let_def fun_upd_idem)
  have "logger_biobj_output l (\<not> ?covered) x fs = Inr (l\<lparr>hyp_indicator := Some ?ind2\<rparr>, ?fs2)"
    unfolding logger_biobj_output_def Let_def l(3,4)
    by (simp only: l(1,2,5) option.case if_False not_True_eq_False i(1) rbind_simps log1 log2 prod.case)
  then show ?thesis using i e(2) f(3)
    by (intro exI [of _ ?ind2] exI [of _ ?fs2]) (simp add: indicator_after_def)
qed

section \<open>One evaluation\<close>

text \<open>The solution that a vector of objective values becomes.\<close>

definition normalized_item :: "real list \<Rightarrow> real list \<Rightarrow> real list \<Rightarrow> archive_item" where
  "normalized_item ideal_point nadir_point y =
     \<lparr> normalized_y = (case mo_normalize y ideal_point nadir_point 2 of Inr v \<Rightarrow> v | Inl _ \<Rightarrow> []), item_text = [] \<rparr>"

definition region :: "real list \<Rightarrow> real list \<Rightarrow> bool" where
  "region ideal_point nadir_point \<longleftrightarrow> length ideal_point = 2 \<and> length nadir_point = 2
     \<and> (\<forall>i < 2. nadir_point ! i - ideal_point ! i > mo_discretization)"

definition with_region :: "coco_problem_s \<Rightarrow> real list \<Rightarrow> real list \<Rightarrow> bool" where
  "with_region p ideal_point nadir_point \<longleftrightarrow> region ideal_point nadir_point
     \<and> best_value p = map Real ideal_point \<and> nadir_value p = Some (map Real nadir_point)"

text \<open>The state after the solutions \<open>h\<close>; the files began with \<open>w1\<close> and \<open>w2\<close>.\<close>

definition biobj_state_after ::
    "biobj_run \<Rightarrow> nat \<Rightarrow> int \<Rightarrow> chunk list \<Rightarrow> chunk list \<Rightarrow> archive_item list \<Rightarrow> biobj_state \<Rightarrow> bool" where
  "biobj_state_after r n pf w1 w2 h s \<longleftrightarrow> (case s of (l, fs) \<Rightarrow>
     (\<exists>t tb. biobj_inv 0 l t tb \<and> archive_front l t = fold front_add h [] \<and> size t \<le> length h \<and> size tb \<le> length h)
     \<and> biobj_number_of_evaluations l = length h \<and> (\<forall>z \<in> set h. bounded_item z)
     \<and> log_nondom_mode l \<noteq> LOG_NONDOM_ALL \<and> log_nondom_mode l \<noteq> LOG_NONDOM_READ
     \<and> biobj_number_of_variables l = n \<and> biobj_precision_f l = pf \<and> compute_indicators l
     \<and> (\<exists>ind. hyp_indicator l = Some ind \<and> indicator_after r h ind)
     \<and> files fs (biobj_dat r) = Some (w1 @ run_lines
         (biobj_dat_lines (biobj_targets r) (biobj_target_precision r) pf (biobj_best r)) h)
     \<and> files fs (biobj_tdat r) = Some (w2 @ run_lines
         (biobj_tdat_lines (biobj_bases r) (biobj_dimension r) pf (biobj_best r)) h))"

lemma real_values_map [simp]: "real_values (map Real v) = Inr v"
  by (induction v) simp_all

lemma settings_precision: "settings l' = settings l \<Longrightarrow> biobj_precision_f l' = biobj_precision_f l"
  by (drule arg_cong [of _ _ biobj_precision_f]) (simp add: settings_def)

lemma settings_indicator:
  assumes "settings l' = settings l" "hyp_indicator l = Some ind"
  shows "\<exists>v. hyp_indicator l' = Some (ind\<lparr>current_indicator := v\<rparr>)"
proof -
  have "map_option (\<lambda>i. i\<lparr>current_indicator := 0\<rparr>) (hyp_indicator l') = Some (ind\<lparr>current_indicator := 0\<rparr>)"
    using arg_cong [OF assms(1), of hyp_indicator] assms(2) by (simp add: settings_def)
  then obtain i where i: "hyp_indicator l' = Some i" "i\<lparr>current_indicator := 0\<rparr> = ind\<lparr>current_indicator := 0\<rparr>" by auto
  have "i = (i\<lparr>current_indicator := 0\<rparr>)\<lparr>current_indicator := current_indicator i\<rparr>" by simp
  then have "i = ind\<lparr>current_indicator := current_indicator i\<rparr>" unfolding i(2) by simp
  with i(1) show ?thesis by metis
qed

lemma biobj_inv_evaluations:
  "biobj_inv m l t tb \<Longrightarrow> biobj_number_of_evaluations l \<le> k \<Longrightarrow> biobj_inv m (l\<lparr>biobj_number_of_evaluations := k\<rparr>) t tb"
  by (auto simp: biobj_inv_def has_indicator_def buffer_ok_def)

lemma biobj_inv_indicator:
  assumes "biobj_inv m l t tb" "hyp_indicator l = Some ind" "current_indicator ind' = current_indicator ind"
  shows "biobj_inv m (l\<lparr>hyp_indicator := Some ind'\<rparr>) t tb"
  using assms by (simp add: biobj_inv_def has_indicator_def buffer_ok_def)

lemma archive_value:
  assumes inv: "biobj_inv m l t tb" and "compute_indicators l" and fr: "archive_front l t = fold front_add h []"
    and h: "\<forall>z \<in> set h. normalized z"
  shows "current_value l = dominated_volume h"
proof -
  have "current_value l = total_contribution (contents (archive_tree l) t)" using assms by (simp add: biobj_inv_def)
  also have "\<dots> = dominated_volume (archive_front l t)"
    unfolding dominated_volume_def using assms
    by (intro contributed_hypervolume) (auto simp: biobj_inv_def ordered_def)
  also have "\<dots> = dominated_volume h" unfolding fr dominated_volume_def using front_of_items [OF h] by simp
  finally show ?thesis .
qed

lemma biobj_evaluate_ok:
  assumes s: "biobj_state_after r n pf w1 w2 h s" and r: "trigger_settings r" "biobj_dat r \<noteq> biobj_tdat r"
    and malloc: "fresh_malloc malloc" and h: "length h < 10 ^ 17"
    and inner: "coco_evaluate_function inner (map Real x) = Inr (map Real y, inner')"
    and p: "with_region (fields inner') ideal_point nadir_point" and x: "length x = n" and y: "length y = 2"
    and b: "bounded_item (normalized_item ideal_point nadir_point y)"
  shows "\<exists>s'. logger_biobj_evaluate malloc (Transformed f Logged inner) (map Real x) s
      = Inr (map Real y, Transformed f Logged inner', s')
    \<and> biobj_state_after r n pf w1 w2 (h @ [normalized_item ideal_point nadir_point y]) s'"
proof -
  obtain l fs where s': "s = (l, fs)" by (cases s)
  let ?x = "normalized_item ideal_point nadir_point y"
  from s obtain t tb ind where i: "biobj_inv 0 l t tb" "archive_front l t = fold front_add h []"
    "size t \<le> length h" "size tb \<le> length h" "biobj_number_of_evaluations l = length h" "\<forall>z \<in> set h. bounded_item z"
    "log_nondom_mode l \<noteq> LOG_NONDOM_ALL" "log_nondom_mode l \<noteq> LOG_NONDOM_READ" "biobj_number_of_variables l = n"
    "biobj_precision_f l = pf" "compute_indicators l" "hyp_indicator l = Some ind" "indicator_after r h ind"
    "files fs (biobj_dat r) = Some (w1 @ run_lines (biobj_dat_lines (biobj_targets r) (biobj_target_precision r) pf (biobj_best r)) h)"
    "files fs (biobj_tdat r) = Some (w2 @ run_lines (biobj_tdat_lines (biobj_bases r) (biobj_dimension r) pf (biobj_best r)) h)"
    unfolding biobj_state_after_def s' prod.case by blast
  let ?l = "l\<lparr>biobj_number_of_evaluations := Suc (length h)\<rparr>"
  have nat: "size_t (Suc (length h)) = Suc (length h)" using h by simp
  have inv: "biobj_inv 0 ?l t tb" using i(1,5) by (intro biobj_inv_evaluations) simp_all
  have two: "biobj_number_of_objectives l = 2" using i(1) by (simp add: biobj_inv_def)
  have reg: "length ideal_point = 2" "length nadir_point = 2" "\<forall>i < 2. nadir_point ! i - ideal_point ! i > mo_discretization"
    using p by (simp_all add: with_region_def region_def)
  obtain item where item: "logger_biobj_node_create ideal_point nadir_point x y (Suc (length h)) n 2 = Inr item"
    "solution_ok item" "mo_normalize y ideal_point nadir_point 2 = Inr (item_normalized_y item)"
    "evaluation_number item = Suc (length h)" "indicator_contribution item = 0"
    using node_create_ok [OF reg _ y, of n x "Suc (length h)"] x by auto
  have fi: "front_item item = ?x" using item(3) by (simp add: normalized_item_def front_item_def)
  have create: "solution_item (fields inner') ?l (map Real x) (map Real y) = Inr item"
    using p item(1) i(9) two by (simp add: solution_item_def with_region_def)
  have old: "\<forall>z \<in> set (contents (archive_tree ?l) t). evaluation_number z < evaluation_number item"
    using i(1,5) item(4) by (auto simp: biobj_inv_def le_imp_less_Suc)
  have "size t + 1 < 2 ^ 64" "size tb + 1 < 2 ^ 64" "0 < evaluation_number item"
    "evaluation_number item \<le> biobj_number_of_evaluations ?l"
    using i(3,4) h item(4) by simp_all
  from tree_update_ok [OF inv item(2,5) old this(3,4,1,2) malloc] obtain l2 t2 tb2 where
    u: "logger_biobj_tree_update malloc ?l item
        = Inr (\<not> (\<exists>z \<in> set (contents (archive_tree ?l) t). covers (front_item z) (front_item item)), l2)"
      "biobj_inv 0 l2 t2 tb2" "settings l2 = settings ?l"
      "archive_front l2 t2 = front_add (front_item item) (archive_front ?l t)" "size t2 \<le> size t + 1" "size tb2 \<le> size tb + 1"
    by blast
  have norm: "\<forall>z \<in> set h. normalized z" "\<forall>z \<in> set (h @ [?x]). normalized z" "\<forall>z \<in> set (h @ [?x]). bounded_item z"
    using i(6) b by (auto simp: bounded_item_def)
  have "(\<exists>z \<in> set (contents (archive_tree ?l) t). covers (front_item z) ?x) \<longleftrightarrow> (\<exists>z \<in> set (archive_front l t). covers z ?x)"
    by simp
  also have "\<dots> \<longleftrightarrow> (\<exists>z \<in> set h. covers z ?x)" unfolding i(2) by (rule covered_by_front [OF norm(1)])
  finally have update: "logger_biobj_tree_update malloc ?l item = Inr (\<not> (\<exists>z \<in> set h. covers z ?x), l2)"
    using u(1) fi by simp
  have front2: "archive_front l2 t2 = fold front_add (h @ [?x]) []" using u(4) i(2) fi by simp
  note set2 = settings_fields [OF u(3)]
  have comp2: "compute_indicators l2" using set2(1) i(11) by simp
  from settings_indicator [OF u(3), of ind] i(12) obtain v where v: "hyp_indicator l2 = Some (ind\<lparr>current_indicator := v\<rparr>)" by auto
  have cur: "current_indicator (ind\<lparr>current_indicator := v\<rparr>) = dominated_volume (h @ [front_item item])"
    using archive_value [OF u(2) comp2 front2 norm(2)] v fi by simp
  have out: "indicator_after r h (ind\<lparr>current_indicator := v\<rparr>)" using i(13) by (simp add: indicator_after_def)
  have l2: "biobj_number_of_objectives l2 = 2" "biobj_number_of_evaluations l2 = Suc (length h)"
    "log_nondom_mode l2 \<noteq> LOG_NONDOM_READ" "log_nondom_mode l2 \<noteq> LOG_NONDOM_ALL" "biobj_number_of_variables l2 = n"
    "biobj_precision_f l2 = pf"
    using set2 settings_precision [OF u(3)] two i(7-10) by simp_all
  from output_ok [OF out v comp2 l2(1-3) cur norm(3) [folded fi] r(1) h i(14,15) r(2)] obtain ind' fs' where
    o: "logger_biobj_output l2 (\<not> (\<exists>z \<in> set h. covers z ?x)) item fs = Inr (l2\<lparr>hyp_indicator := Some ind'\<rparr>, fs')"
      "indicator_after r (h @ [?x]) ind'" "current_indicator ind' = v"
      "files fs' (biobj_dat r) = Some ((w1 @ run_lines (biobj_dat_lines (biobj_targets r) (biobj_target_precision r) pf (biobj_best r)) h)
        @ biobj_dat_lines (biobj_targets r) (biobj_target_precision r) pf (biobj_best r) h ?x)"
      "files fs' (biobj_tdat r) = Some ((w2 @ run_lines (biobj_tdat_lines (biobj_bases r) (biobj_dimension r) pf (biobj_best r)) h)
        @ biobj_tdat_lines (biobj_bases r) (biobj_dimension r) pf (biobj_best r) h ?x)"
    unfolding fi l2(6) by auto
  let ?l2 = "l2\<lparr>hyp_indicator := Some ind'\<rparr>"
  have "logger_biobj_evaluate malloc (Transformed f Logged inner) (map Real x) s
      = Inr (map Real y, Transformed f Logged inner', ?l2, fs')"
    using inner create update o(1) l2(4) i(5) nat by (simp add: logger_biobj_evaluate_def s' Let_def)
  moreover have "\<exists>t tb. biobj_inv 0 ?l2 t tb \<and> archive_front ?l2 t = fold front_add (h @ [?x]) []
    \<and> size t \<le> length (h @ [?x]) \<and> size tb \<le> length (h @ [?x])"
  proof (intro exI conjI)
    show "biobj_inv 0 ?l2 t2 tb2" using o(3) by (intro biobj_inv_indicator [OF u(2) v]) simp
    show "archive_front ?l2 t2 = fold front_add (h @ [?x]) []" using front2 by simp
  qed (use u(5,6) i(3,4) in simp_all)
  ultimately show ?thesis
    using norm(3) l2 comp2 o(2,4,5) by (intro exI [of _ "(?l2, fs')"]) (simp add: biobj_state_after_def)
qed

section \<open>A run\<close>

text \<open>An evaluation changes the counters and the best observed value of a problem only.\<close>

lemma bookkeeping_region:
  assumes "bookkeeping x (y, p) = Inr (y', q)" "number_of_constraints (fields p) = 0"
  shows "best_value (fields q) = best_value (fields p) \<and> nadir_value (fields q) = nadir_value (fields p)"
  using assms
  by (auto simp: bookkeeping_def Let_def rbind_eq_Inr problem_increment_evaluate_function_def
      coco_problem_set_best_observed_f_value_def split: if_splits)

lemma evaluate_region:
  assumes "coco_evaluate_function p x = Inr (y, q)" "number_of_constraints (fields p) = 0"
  shows "best_value (fields q) = best_value (fields p) \<and> nadir_value (fields q) = nadir_value (fields p)"
proof -
  from assms(1) consider "q = p" | y0 q0 where "call_evaluate_function p x = Inr (y0, q0)" "bookkeeping x (y0, q0) = Inr (y, q)"
    by (auto simp: coco_evaluate_function_def evaluate_function_by_def rbind_eq_Inr split: if_splits option.splits)
  then show ?thesis
  proof cases
    case 2
    have "fields q0 = fields p" using call_evaluate_function_keeps [of p x] 2(1) by (simp add: keeps_def)
    with bookkeeping_region [OF 2(2)] assms(2) show ?thesis by simp
  qed simp
qed

lemma bookkeeping_variables:
  assumes "bookkeeping x (y, p) = Inr (y', q)" "number_of_constraints (fields p) = 0"
  shows "number_of_variables (fields q) = number_of_variables (fields p)"
  using assms
  by (auto simp: bookkeeping_def Let_def rbind_eq_Inr problem_increment_evaluate_function_def
      coco_problem_set_best_observed_f_value_def split: if_splits)

text \<open>If the inner problem returns a value and the logger does, then the problem with the logger does.\<close>

lemma observed_step:
  assumes m: "mirrors f (fields inner)" and x: "number_of_variables f = length x" "x \<noteq> []"
    and inner: "coco_evaluate_function inner (map Real x) = Inr (y, inner')"
    and logger: "logger (Transformed f Logged inner) (map Real x) s = Inr (y, Transformed f Logged inner', s')"
  shows "\<exists>f'. coco_evaluate_observed logger (Transformed f Logged inner) (map Real x) s = Inr (y, Transformed f' Logged inner', s')
    \<and> mirrors f' (fields inner') \<and> number_of_variables f' = number_of_variables f"
proof -
  have check: "check_point (fields inner) (number_of_objectives (fields inner)) (map Real x) = Inr None"
    "check_point f (number_of_objectives f) (map Real x) = Inr None"
    using m x by (auto simp: mirrors_def intro: check_point_finite)
  obtain y0 inner0 where c: "call_evaluate_function inner (map Real x) = Inr (y0, inner0)"
    "bookkeeping (map Real x) (y0, inner0) = Inr (y, inner')"
    using inner check by (auto simp: coco_evaluate_function_def evaluate_function_by_def rbind_eq_Inr split: if_splits)
  have "fields inner0 = fields inner"
    using call_evaluate_function_keeps [of inner "map Real x"] c(1) by (simp add: keeps_def)
  then have "mirrors (fields (Transformed f Logged inner')) (fields inner0)" using m by simp
  from bookkeeping_mirrors [OF c(2) this] obtain outer' g where o: "y = y0"
    "bookkeeping (map Real x) (y0, Transformed f Logged inner') = Inr (y0, outer')"
    "mirrors (fields outer') (fields inner')" "outer' = with_fields g (Transformed f Logged inner')" by blast
  have "number_of_variables (fields outer') = number_of_variables f"
    using m bookkeeping_variables [OF o(2)] by (simp add: mirrors_def)
  then show ?thesis using o check m logger by (auto simp: coco_evaluate_observed_def mirrors_def)
qed

lemma biobj_run_ok:
  assumes "biobj_state_after r n pf w1 w2 h s" "trigger_settings r" "biobj_dat r \<noteq> biobj_tdat r" "fresh_malloc malloc"
    and "length h + length xs \<le> 10 ^ 17" "mirrors f (fields inner)" "number_of_variables f = n" "0 < n"
    and "with_region (fields inner) ideal_point nadir_point"
    and "evaluate_points inner (map (map Real) xs) = Inr (map (map Real) ys, inner')"
    and "\<forall>x \<in> set xs. length x = n"
    and "\<forall>y \<in> set ys. length y = 2 \<and> bounded_item (normalized_item ideal_point nadir_point y)"
  shows "\<exists>q' s'. observe_points (logger_biobj_evaluate malloc) (Transformed f Logged inner) (map (map Real) xs) s
      = Inr (map (map Real) ys, q', s')
    \<and> biobj_state_after r n pf w1 w2 (h @ map (normalized_item ideal_point nadir_point) ys) s'"
  using assms
proof (induction xs arbitrary: h s f inner ys)
  case Nil
  then show ?case by simp
next
  case (Cons x xs)
  note P = Cons.prems
  from P(10) obtain y ys' inner1 where y: "ys = y # ys'" "coco_evaluate_function inner (map Real x) = Inr (map Real y, inner1)"
    "evaluate_points inner1 (map (map Real) xs) = Inr (map (map Real) ys', inner')"
    by (auto simp: rbind_eq_Inr map_eq_Cons_conv Cons_eq_map_conv)
  have none: "number_of_constraints (fields inner) = 0" using P(6) by (simp add: mirrors_def)
  have reg: "with_region (fields inner1) ideal_point nadir_point"
    using evaluate_region [OF y(2) none] P(9) by (simp add: with_region_def)
  have x: "length x = n" "x \<noteq> []" using P(8,11) by auto
  have b: "length y = 2" "bounded_item (normalized_item ideal_point nadir_point y)" using P(12) y(1) by simp_all
  have "length h < 10 ^ 17" using P(5) by simp
  from biobj_evaluate_ok [OF P(1-4) this y(2) reg x(1) b] obtain s1 where
    s1: "logger_biobj_evaluate malloc (Transformed f Logged inner) (map Real x) s
        = Inr (map Real y, Transformed f Logged inner1, s1)"
      "biobj_state_after r n pf w1 w2 (h @ [normalized_item ideal_point nadir_point y]) s1" by blast
  have "number_of_variables f = length x" using P(7) x(1) by simp
  from observed_step [of f inner x "map Real y" inner1 "logger_biobj_evaluate malloc" s s1, OF P(6) this x(2) y(2) s1(1)]
    P(7) obtain f1 where
    f1: "coco_evaluate_observed (logger_biobj_evaluate malloc) (Transformed f Logged inner) (map Real x) s
        = Inr (map Real y, Transformed f1 Logged inner1, s1)"
      "mirrors f1 (fields inner1)" "number_of_variables f1 = n" by auto
  have "length (h @ [normalized_item ideal_point nadir_point y]) + length xs \<le> 10 ^ 17" using P(5) by simp
  from Cons.IH [OF s1(2) P(2-4) this f1(2,3) P(8) reg y(3)] P(11,12) y(1) f1(1) show ?case by auto
qed

section \<open>The start of a run\<close>

lemma find_best_value_row: "find_best_value rows key = Some v \<Longrightarrow> v \<in> snd ` set rows"
  by (induction rows key rule: find_best_value.induct) (auto split: if_splits)

lemma best_indicator_bounds:
  assumes "coco_suite_get_best_indicator_value suite pid indicator = Inr v"
  shows "0 < v \<and> v \<le> 1"
proof -
  have "0 < w \<and> w \<le> 1" if "find_best_value suite_biobj_best_values_hyp pid = Some w" for w
    using find_best_value_row [OF that] biobj_hyp_value_bounds(1,2)
    by (auto simp: suite_biobj_best_values_hyp_def table_positions_iff)
  moreover have "w = 1" if "find_best_value suite_biobj_mixint_best_values_hyp pid = Some w" for w
    using find_best_value_row [OF that] by (auto simp: suite_biobj_mixint_best_values_hyp_def)
  ultimately show ?thesis using assms
    by (fastforce simp: coco_suite_get_best_indicator_value_def suite_biobj_get_best_hyp_value_def
        split: if_splits option.splits)
qed

lemma logger_biobj_indicator_new:
  assumes "logger_biobj_indicator logger observer data problem_link p indicator fs = Inr (ind, fs')"
  shows "(\<exists>suite pid. coco_suite_get_best_indicator_value suite pid indicator = Inr (best_indicator ind))
    \<and> coco_observer_evaluations (base_evaluation_triggers observer) (number_of_variables p) = Inr (ind_evaluations ind)
    \<and> ind_targets ind = coco_observer_targets (number_target_triggers observer) (observer_target_precision observer)
    \<and> current_indicator ind = 0 \<and> additional_penalty ind = DBL_MAX"
  using assms unfolding logger_biobj_indicator_def Let_def
  by (cases "problem_type p"; cases "problem_name p") (auto simp: rbind_eq_Inr intro!: exI)

lemma transformed_mirrors:
  assumes "coco_problem_transformed_allocate p Logged prefix = Inr q"
    and "number_of_constraints (fields p) = 0" "evaluate_function (fields p) \<noteq> None"
  shows "\<exists>f. own_function q = Transformed f Logged p \<and> mirrors f (fields p)"
  using assms
  by (auto simp: coco_problem_transformed_allocate_def coco_problem_duplicate_def coco_problem_allocate_def
      coco_problem_set_name_def own_function_def mirrors_def rbind_eq_Inr split: option.splits)

lemma logger_biobj_started:
  assumes start: "logger_biobj observer problem_link p fs = Inr (q, (l, fs'), obs')" and ind: "hyp_indicator l = Some ind"
    and p: "number_of_constraints (fields p) = 0" "evaluate_function (fields p) \<noteq> None"
  shows "(\<exists>f. q = Transformed f Logged p \<and> mirrors f (fields p)) \<and> biobj_inv 0 l \<langle>\<rangle> \<langle>\<rangle>
    \<and> contents (archive_tree l) \<langle>\<rangle> = [] \<and> biobj_number_of_evaluations l = 0 \<and> compute_indicators l
    \<and> biobj_number_of_variables l = number_of_variables (fields p) \<and> biobj_precision_f l = precision_f observer
    \<and> 0 < best_indicator ind \<and> best_indicator ind \<le> 1
    \<and> coco_observer_evaluations (base_evaluation_triggers observer) (number_of_variables (fields p)) = Inr (ind_evaluations ind)
    \<and> ind_targets ind = coco_observer_targets (number_target_triggers observer) (observer_target_precision observer)
    \<and> additional_penalty ind = DBL_MAX"
proof -
  have two: "number_of_objectives (fields p) = 2" using start by (simp add: logger_biobj_def Let_def split: if_splits)
  have "\<exists>data. observer_data observer = Some (Biobj_data data)"
  proof (cases "observer_data observer")
    case None
    then show ?thesis using start two by (simp add: logger_biobj_def Let_def)
  next
    case (Some d)
    then show ?thesis using start two by (cases d) (simp_all add: logger_biobj_def Let_def)
  qed
  then obtain data where data: "observer_data observer = Some (Biobj_data data)" by blast
  from start obtain adat problem fs1 ob where l0: "q = own_function problem"
    "coco_problem_transformed_allocate p Logged (observer_name ob) = Inr problem"
    and l1: "(if compute_indicators (new_logger_biobj observer data problem_link (fields p))
        then rbind (logger_biobj_indicator ((new_logger_biobj observer data problem_link (fields p))\<lparr>adat_file := adat\<rparr>) observer data problem_link
            (fields p) ''hyp'' fs1) (\<lambda>(indicator, fs).
          Inr ((new_logger_biobj observer data problem_link (fields p))\<lparr>adat_file := adat, hyp_indicator := Some indicator\<rparr>, fs,
            remember_problem problem_link (fields p) data observer))
        else Inr ((new_logger_biobj observer data problem_link (fields p))\<lparr>adat_file := adat\<rparr>, fs1, observer)) = Inr (l, fs', ob)"
    unfolding logger_biobj_def Let_def by (auto simp: two data rbind_eq_Inr)
  let ?l = "new_logger_biobj observer data problem_link (fields p)"
  have comp: "compute_indicators ?l"
    using l1 ind by (auto simp: new_logger_biobj_def split: if_splits)
  with l1 obtain i where i: "logger_biobj_indicator (?l\<lparr>adat_file := adat\<rparr>) observer data problem_link (fields p) ''hyp'' fs1 = Inr (i, fs')"
    "l = ?l\<lparr>adat_file := adat, hyp_indicator := Some i\<rparr>"
    by (auto simp: rbind_eq_Inr)
  have "i = ind" using i(2) ind by simp
  with logger_biobj_indicator_new [OF i(1)] obtain suite pid where
    b: "coco_suite_get_best_indicator_value suite pid ''hyp'' = Inr (best_indicator ind)"
    "coco_observer_evaluations (base_evaluation_triggers observer) (number_of_variables (fields p)) = Inr (ind_evaluations ind)"
    "ind_targets ind = coco_observer_targets (number_target_triggers observer) (observer_target_precision observer)"
    "current_indicator ind = 0" "additional_penalty ind = DBL_MAX" by blast
  have l: "archive_tree l = avl_tree_init avl_tree_compare_by_last_objective True"
    "buffer_tree l = avl_tree_init avl_tree_compare_by_eval_number False" "biobj_number_of_objectives l = 2"
    "biobj_number_of_evaluations l = 0" "biobj_number_of_variables l = number_of_variables (fields p)"
    "biobj_precision_f l = precision_f observer" "compute_indicators l"
    using comp by (simp_all add: i(2) new_logger_biobj_def two)
  have "biobj_inv 0 l \<langle>\<rangle> \<langle>\<rangle>"
    using b(4) ind l
    by (simp add: biobj_inv_def ordered_def contents_def ascending_def front_def has_indicator_def buffer_ok_def
        avl_inv_def avl_tree_init_def)
  then show ?thesis
    using transformed_mirrors [OF l0(2) p] l0(1) best_indicator_bounds [OF b(1)] b(2,3,5) l
    by (simp add: contents_def)
qed

section \<open>Properties\<close>


section \<open>An example\<close>

text \<open>Two sphere functions of two variables; the region of interest is the square from 0 to 10.\<close>

definition example_sphere :: coco_problem_s where
  "example_sphere = \<lparr> evaluate_function = Some (Evaluate_raw Sphere), evaluate_constraint = None,
     number_of_variables = 2, number_of_objectives = 1, number_of_constraints = 0,
     smallest_values_of_interest = [Real (- 5), Real (- 5)], largest_values_of_interest = [Real 5, Real 5],
     number_of_integer_variables = 0, initial_solution = None, best_value = [Real 0], nadir_value = None,
     best_parameter = Some [Real 0, Real 0], problem_name = Some ''sphere'', problem_id = Some ''sphere'',
     problem_type = None, evaluations = 0, evaluations_constraints = 0, final_target_delta = Real (1 / 10 ^ 8),
     best_observed_fvalue = Real DBL_MAX, best_observed_evaluation = 0 \<rparr>"

definition example_biobj_problem :: coco_problem_t where
  "example_biobj_problem = Stacked (example_sphere\<lparr>evaluate_function := Some Evaluate_stacked,
     number_of_objectives := 2, best_value := [Real 0, Real 0], nadir_value := Some [Real 10, Real 10],
     best_parameter := None, problem_name := Some ''two'', problem_id := Some ''b_f1_i1_d2'', problem_type := Some ''t''\<rparr>)
     (Basic example_sphere) (Basic example_sphere)"

definition example_biobj_data :: observer_biobj_data_t where
  "example_biobj_data = \<lparr> biobj_log_nondom_mode = LOG_NONDOM_NONE, biobj_log_vars_mode = LOG_VARS_NEVER,
     biobj_compute_indicators = 1, biobj_produce_all_data = 0, biobj_previous_function = - 1,
     biobj_previous_dimension = - 1 \<rparr>"

definition example_biobj_observer :: coco_observer_t where
  "example_biobj_observer = example_observer\<lparr>observer_name := ''o'', result_folder := ''r'',
     logger_allocate_function := Some Logger_biobj, observer_data := Some (Biobj_data example_biobj_data)\<rparr>"

definition example_biobj_link :: suite_link where
  "example_biobj_link = example_link\<lparr>link_suite_name := Some ''bbob-biobj-mixint''\<rparr>"

definition example_biobj_files :: file_system where
  "example_biobj_files = \<lparr> directories = {''r'', ''r/t''}, files = (\<lambda>_. None), refused = (\<lambda>_. False) \<rparr>"

lemma DBL_MAX_bound: "1 < DBL_MAX"
proof -
  have "(1 :: real) < 2" by simp
  also have "(2 :: real) = 2 ^ 1" by simp
  also have "(2 :: real) ^ 1 \<le> 2 ^ 1023" by (rule power_increasing) simp_all
  also have "\<dots> \<le> DBL_MAX" unfolding DBL_MAX_def by (simp add: field_simps del: power_numeral)
  finally show ?thesis .
qed

lemma example_sphere_value:
  "evaluate_function_by (call_evaluate_function (Basic example_sphere)) (Basic example_sphere) [Real 1, Real 0]
    = Inr ([Real 1], Basic (example_sphere\<lparr>evaluations := 1, best_observed_fvalue := Real 1, best_observed_evaluation := 1\<rparr>))"
  apply (simp add: evaluate_function_by_def example_sphere_def check_point_def coco_problem_get_dimension_def f_sphere_evaluate_def
    evaluate_raw_def assert_best_def DBL_MAX_bound coco_vector_contains_nan_def f_sphere_raw_def accumulate_def bookkeeping_def rnth_def problem_increment_evaluate_function_def
    coco_problem_set_best_observed_f_value_def Let_def upt_rec)
  done

lemma example_best: "coco_suite_get_best_indicator_value ''bbob-biobj-mixint'' pid ''hyp'' = Inr 1"
  using find_best_value_row [of suite_biobj_mixint_best_values_hyp pid]
  by (auto simp: coco_suite_get_best_indicator_value_def suite_biobj_get_best_hyp_value_def
      suite_biobj_mixint_best_values_hyp_def split: option.split)

lemma example_biobj_paths:
  "coco_join_path ''r'' COCO_PATH_MAX [''t_hyp.info''] = Inr ''r/t_hyp.info''"
  "coco_join_path ''r'' COCO_PATH_MAX [''t''] = Inr ''r/t''"
  "coco_join_path ''r/t'' COCO_PATH_MAX [''b_f1_d2_hyp.tdat''] = Inr ''r/t/b_f1_d2_hyp.tdat''"
  "coco_join_path ''r/t'' COCO_PATH_MAX [''b_f1_d2_hyp.dat''] = Inr ''r/t/b_f1_d2_hyp.dat''"
  "coco_remove_from_string ''b_f1_i1_d2'' ''_i'' ''_d'' = Inr ''b_f1_d2''"
  "coco_vstrdupf ''%s(%s)'' ''o(two)'' = Inr ''o(two)''"
  by code_simp+

definition example_directories :: "file_system \<Rightarrow> bool" where
  "example_directories fs \<longleftrightarrow> directories fs = {''r'', ''r/t''} \<and> refused fs = (\<lambda>_. False)"

lemma example_directory_exists:
  assumes "example_directories fs"
  shows "coco_create_directory ''r'' fs = Inr (1, fs)" "coco_create_directory ''r/t'' fs = Inr (1, fs)"
  using assms by (simp_all add: example_directories_def coco_create_directory_def strip_separators_def char_at_def Let_def
      coco_mkdir_def has_parent_def parent_directory_def coco_directory_exists_def coco_file_exists_def)

lemma example_parents:
  "parent_directory ''r/t_hyp.info'' = Some ''r''" "parent_directory ''r/t/b_f1_d2_hyp.tdat'' = Some ''r/t''"
  "parent_directory ''r/t/b_f1_d2_hyp.dat'' = Some ''r/t''"
  by code_simp+

lemma example_open:
  assumes "example_directories fs" "files fs path = None" "parent_directory path = Some d" "d \<in> {''r'', ''r/t''}"
    and "path \<notin> {[], ''r'', ''r/t''}"
  shows "open_append name path fs = Inr (path, fs\<lparr>files := (files fs)(path := Some [])\<rparr>)"
  using assms by (simp add: example_directories_def open_append_def fopen_append_def has_parent_def
      coco_directory_exists_def coco_file_exists_def)

lemma example_open_in_folder:
  assumes "example_directories fs" "coco_join_path ''r/t'' COCO_PATH_MAX [file] = Inr path" "files fs path = None"
    and "parent_directory path = Some d" "d \<in> {''r'', ''r/t''}" "path \<notin> {[], ''r'', ''r/t''}"
  shows "open_in_folder ''r'' ''t'' file fs = Inr (path, fs\<lparr>files := (files fs)(path := Some [])\<rparr>)"
  using assms(2) by (simp add: open_in_folder_def example_biobj_paths(2) example_directory_exists [OF assms(1)]
      example_open [OF assms(1,3-6)])

lemma example_indicator:
  "\<exists>ind fs' w1 w2. logger_biobj_indicator logger example_biobj_observer data example_biobj_link (fields example_biobj_problem)
      ''hyp'' example_biobj_files = Inr (ind, fs')
    \<and> ind_dat_file ind = Some ''r/t/b_f1_d2_hyp.dat'' \<and> ind_tdat_file ind = Some ''r/t/b_f1_d2_hyp.tdat''
    \<and> files fs' ''r/t/b_f1_d2_hyp.dat'' = Some w1 \<and> files fs' ''r/t/b_f1_d2_hyp.tdat'' = Some w2
    \<and> ind_evaluations ind = example_evals"
proof -
  have f: "example_directories (example_biobj_files\<lparr>files := g\<rparr>)" for g
    by (simp add: example_directories_def example_biobj_files_def)
  have f0: "example_directories example_biobj_files" "files example_biobj_files = (\<lambda>_. None)"
    by (simp_all add: example_directories_def example_biobj_files_def)
  have p: "problem_type (fields example_biobj_problem) = Some ''t''" "problem_name (fields example_biobj_problem) = Some ''two''"
    "problem_id (fields example_biobj_problem) = Some ''b_f1_i1_d2''" "number_of_variables (fields example_biobj_problem) = 2"
    by (simp_all add: example_biobj_problem_def example_sphere_def)
  have o: "result_folder example_biobj_observer = ''r''" "base_evaluation_triggers example_biobj_observer = ''1,2,5''"
    by (simp_all add: example_biobj_observer_def example_observer_def coco_observer_allocate_def)
  have l: "linked_suite name example_biobj_link = Inr ''bbob-biobj-mixint''" for name
    by (simp add: linked_suite_def example_biobj_link_def example_link_def)
  show ?thesis
    by (simp add: logger_biobj_indicator_def l p o coco_problem_get_id_def example_best example_evaluations Let_def
        example_directory_exists [OF f0(1)] example_biobj_paths example_open [OF f0(1) _ example_parents(1)] f0(2)
        example_open_in_folder [OF f _ _ example_parents(2)] example_open_in_folder [OF f _ _ example_parents(3)] fprintf_def)
qed

lemma example_logger:
  "\<exists>q l fs' obs' ind dat tdat w1 w2. logger_biobj example_biobj_observer example_biobj_link example_biobj_problem
      example_biobj_files = Inr (q, (l, fs'), obs')
    \<and> hyp_indicator l = Some ind \<and> ind_dat_file ind = Some dat \<and> ind_tdat_file ind = Some tdat \<and> dat \<noteq> tdat
    \<and> files fs' dat = Some w1 \<and> files fs' tdat = Some w2 \<and> log_nondom_mode l = LOG_NONDOM_NONE
    \<and> ind_evaluations ind = example_evals"
proof -
  let ?l = "new_logger_biobj example_biobj_observer example_biobj_data example_biobj_link (fields example_biobj_problem)"
  obtain ind fs' w1 w2 where i: "logger_biobj_indicator (?l\<lparr>adat_file := None\<rparr>) example_biobj_observer example_biobj_data
      example_biobj_link (fields example_biobj_problem) ''hyp'' example_biobj_files = Inr (ind, fs')"
    "ind_dat_file ind = Some ''r/t/b_f1_d2_hyp.dat''" "ind_tdat_file ind = Some ''r/t/b_f1_d2_hyp.tdat''"
    "files fs' ''r/t/b_f1_d2_hyp.dat'' = Some w1" "files fs' ''r/t/b_f1_d2_hyp.tdat'' = Some w2"
    "ind_evaluations ind = example_evals"
    using example_indicator by blast
  have two: "number_of_objectives (fields example_biobj_problem) = 2"
    by (simp add: example_biobj_problem_def example_sphere_def)
  have o: "observer_data example_biobj_observer = Some (Biobj_data example_biobj_data)"
    "observer_name (remember_problem example_biobj_link (fields example_biobj_problem) example_biobj_data example_biobj_observer) = ''o''"
    by (simp_all add: example_biobj_observer_def remember_problem_def)
  have m: "log_nondom_mode ?l = LOG_NONDOM_NONE" "compute_indicators ?l"
    by (simp_all add: new_logger_biobj_def example_biobj_data_def)
  have a: "open_adat_file ?l example_biobj_observer (fields example_biobj_problem) example_biobj_files = Inr (None, example_biobj_files)"
    by (simp add: open_adat_file_def m)
  obtain q where "coco_problem_transformed_allocate example_biobj_problem Logged ''o'' = Inr q"
    by (auto simp: coco_problem_transformed_allocate_def coco_problem_duplicate_def coco_problem_allocate_def coco_allocate_vector_def
        example_biobj_problem_def example_sphere_def copy_vector_def copy_optional_def coco_problem_set_name_def example_biobj_paths)
  then show ?thesis
    using i m by (simp add: logger_biobj_def Let_def two o a)
qed

lemma example_solution:
  "mo_normalize [1, 1] [0, 0] [10, 10] 2 = Inr (grid [200000000000, 200000000000])"
  by (simp add: mo_normalize_def upt_rec rnth_def rupd_def normalize_loop.simps adjust_extreme_def grid_def normalize_value_def Let_def
      mo_discretization_def mo_precision_def coco_double_almost_equal_def coco_double_round_def)

lemma example_cells:
  assumes "normalized_y x = grid [200000000000, 200000000000]"
  shows "real (card (dominated_cells [x])) * mo_discretization ^ 2 = 81 / 100"
proof -
  have "dominated_cells [x] = {200000000000..<roi} \<times> {200000000000..<roi}"
    using assms by (auto simp: dominated_cells_def cell_def grid2 One_nat_def)
  then have "card (dominated_cells [x]) = 1800000000000 * 1800000000000" by (simp only: card_cartesian_product card_atLeastLessThan) simp
  then show ?thesis by (simp add: mo_discretization_def power2_eq_square)
qed

lemma example_evaluation:
  "\<exists>p'. evaluate_points example_biobj_problem [map Real [1, 0]] = Inr ([map Real [1, 1]], p')"
proof -
  let ?B = "Basic (example_sphere\<lparr>evaluations := 1, best_observed_fvalue := Real 1, best_observed_evaluation := 1\<rparr>)"
  obtain P where P: "example_biobj_problem = Stacked P (Basic example_sphere) (Basic example_sphere)"
    "evaluate_function P = Some Evaluate_stacked" "number_of_objectives P = 2" "number_of_constraints P = 0"
    "number_of_variables P = 2"
    by (simp add: example_biobj_problem_def example_sphere_def)
  have o: "number_of_objectives example_sphere = 1" by (simp add: example_sphere_def)
  have c: "check_point P 2 (map Real [1, 0]) = Inr None" by (rule check_point_finite) (simp_all add: P(5))
  have call: "call_evaluate_function example_biobj_problem [Real 1, Real 0] = Inr ([Real 1, Real 1], Stacked P ?B ?B)"
    unfolding P(1) call_evaluate_function.simps(3) Let_def using P(2-4) o
    by (simp add: example_sphere_value stacked_check_def del: call_evaluate_function.simps)
  have "number_of_constraints (fields (Stacked P ?B ?B)) = 0" using P(4) by simp
  from bookkeeping_unconstrained [OF this, of "[Real 1, Real 0]" 1 "[Real 1]"]
  have "bookkeeping [Real 1, Real 0] ([Real 1, Real 1], Stacked P ?B ?B)
    = Inr ([Real 1, Real 1], with_fields (record_value 1) (Stacked P ?B ?B))" .
  moreover have "fields example_biobj_problem = P" unfolding P(1) by simp
  ultimately show ?thesis using c call P(2-4)
    by (simp add: coco_evaluate_function_def evaluate_function_by_def del: call_evaluate_function.simps)
qed


end
