(* ===== verification/Coco_Gradients.thy ===== *)
theory Coco_Gradients
  imports Coco_Bbob_Solved
begin

text \<open>
  The gradients of the objective functions that the constrained suite uses: the model of the code, and
  what the gradients are on real points.
\<close>

chapter \<open>The gradients of the code\<close>

text \<open>
  The gradients that the constrained suite uses: \<open>bbob_evaluate_gradient\<close> (\<open>coco_problem.c\<close>), the
  gradients of the raw functions that have one (\<open>f_*.c\<close>) and those of the transformations
  (\<open>transform_*.c\<close>). The pointer \<open>evaluate_gradient\<close> of a problem depends on its layer only: an
  allocator of a raw function sets it together with the objective function, a transformation sets its
  own or keeps the one that passes the call on, and a stacked problem has none. An evaluation gets the
  point and the array for the result, and returns the array; it changes nothing else.
\<close>

type_synonym gradient = "double list \<Rightarrow> double list \<Rightarrow> double list result"

section \<open>Raw functions\<close>

text \<open>The loop that writes the entries \<open>g i\<close> for all variables.\<close>

definition write_gradient :: "nat \<Rightarrow> (nat \<Rightarrow> double) \<Rightarrow> gradient" where
  "write_gradient n g x y =
     (if length x < n \<or> length y < n then Inl Out_of_bounds else Inr (map g [0..<n] @ drop n y))"

definition f_sphere_evaluate_gradient :: "coco_problem_s \<Rightarrow> gradient" where
  "f_sphere_evaluate_gradient p x = write_gradient (number_of_variables p) (\<lambda>i. Real 2 * x ! i) x"

definition f_ellipsoid_evaluate_gradient :: "coco_problem_s \<Rightarrow> gradient" where
  "f_ellipsoid_evaluate_gradient p x = write_gradient (number_of_variables p) (\<lambda>i.
     Real 2 * dpow (Real (10 ^ 6)) (position_ratio i (number_of_variables p)) * x ! i) x"

text \<open>The entry 0 is written in any case.\<close>

definition f_discus_evaluate_gradient :: "coco_problem_s \<Rightarrow> gradient" where
  "f_discus_evaluate_gradient p x = write_gradient (max 1 (number_of_variables p)) (\<lambda>i.
     if i = 0 then Real (10 ^ 6) * Real 2 * x ! 0 else Real 2 * x ! i) x"

definition f_bent_cigar_evaluate_gradient :: "coco_problem_s \<Rightarrow> gradient" where
  "f_bent_cigar_evaluate_gradient p x = write_gradient (max 1 (number_of_variables p)) (\<lambda>i.
     if i = 0 then Real 2 * x ! 0 else Real 2 * Real (10 ^ 6) * x ! i) x"

definition sign :: "double \<Rightarrow> double" where
  "sign x = (if Real 0 < x then Real 1 else if x < Real 0 then Real (- 1) else Real 0)"

definition different_powers_exponent :: "nat \<Rightarrow> nat \<Rightarrow> double" where
  "different_powers_exponent i n = Real 2 + ddiv (Real 4 * Real (real i)) (Real (real n) - Real 1)"

definition f_different_powers_evaluate_gradient :: "coco_problem_s \<Rightarrow> gradient" where
  "f_different_powers_evaluate_gradient p x =
     (let n = number_of_variables p;
          sum = accumulate (Real 0) [0..<n] (\<lambda>i. dpow \<bar>x ! i\<bar> (different_powers_exponent i n))
      in write_gradient n (\<lambda>i.
           let aux = different_powers_exponent i n
           in ddiv (Real (1 / 2) * aux) sum * (dpow \<bar>x ! i\<bar> (aux - Real 1) * sign (x ! i))) x)"

text \<open>The gradient of the linear slope does not read the point.\<close>

definition f_linear_slope_evaluate_gradient :: "coco_problem_s \<Rightarrow> gradient" where
  "f_linear_slope_evaluate_gradient p x y =
     (case best_parameter p of
        None \<Rightarrow> Inl Null_deref
      | Some best \<Rightarrow> write_gradient (number_of_variables p) (\<lambda>i.
          let base = dsqrt (Real 100); exponent = position_ratio i (number_of_variables p)
          in - (if Real 0 < best ! i then dpow base exponent else - dpow base exponent)) best y)"

definition f_rastrigin_evaluate_gradient :: "coco_problem_s \<Rightarrow> gradient" where
  "f_rastrigin_evaluate_gradient p x = write_gradient (number_of_variables p) (\<lambda>i.
     Real 2 * (Real 10 * Real pi * dsin (Real (2 * pi) * x ! i) + x ! i)) x"

text \<open>The other allocators leave the pointer NULL.\<close>

fun raw_gradient :: "raw_function \<Rightarrow> coco_problem_s \<Rightarrow> gradient" where
  "raw_gradient Sphere = f_sphere_evaluate_gradient"
| "raw_gradient Ellipsoid = f_ellipsoid_evaluate_gradient"
| "raw_gradient Discus = f_discus_evaluate_gradient"
| "raw_gradient Bent_cigar = f_bent_cigar_evaluate_gradient"
| "raw_gradient Different_powers = f_different_powers_evaluate_gradient"
| "raw_gradient Linear_slope = f_linear_slope_evaluate_gradient"
| "raw_gradient Rastrigin = f_rastrigin_evaluate_gradient"
| "raw_gradient r = (\<lambda>p x y. Inl (Coco_error ''bbob_evaluate_gradient''))"

section \<open>Transformations\<close>

text \<open>
  A point with NaN: as many entries of the result as there are objectives become NaN. \<open>eval\<close> is
  \<open>bbob_evaluate_gradient\<close> of the inner problem.
\<close>

definition gradient_at :: "coco_problem_s \<Rightarrow> (double list \<Rightarrow> double list result) \<Rightarrow> gradient" where
  "gradient_at p eval x y =
     (if length x < number_of_variables p then Inl Out_of_bounds
      else if coco_vector_contains_nan (take (number_of_variables p) x)
      then if length y < number_of_objectives p then Inl Out_of_bounds
           else Inr (coco_vector_set_to_nan (number_of_objectives p) @ drop (number_of_objectives p) y)
      else eval y)"

definition transform_obj_shift_evaluate_gradient :: "coco_problem_s \<Rightarrow> gradient \<Rightarrow> gradient" where
  "transform_obj_shift_evaluate_gradient p eval x = gradient_at p (eval x) x"

definition transform_obj_scale_evaluate_gradient :: "double \<Rightarrow> coco_problem_s \<Rightarrow> gradient \<Rightarrow> gradient" where
  "transform_obj_scale_evaluate_gradient factor p eval x =
     gradient_at p (\<lambda>y. rbind (eval x y) (\<lambda>y.
       write_gradient (number_of_variables p) (\<lambda>i. y ! i * factor) y y)) x"

definition transform_vars_shift_evaluate_gradient ::
    "double list \<Rightarrow> coco_problem_s \<Rightarrow> gradient \<Rightarrow> gradient" where
  "transform_vars_shift_evaluate_gradient offset p eval x =
     gradient_at p (eval (shifted_x offset (number_of_variables p) x)) x"

text \<open>The chain rule: the transposed matrix times the inner gradient, for \<open>inner_n\<close> columns.\<close>

definition affine_gradient :: "double list \<Rightarrow> nat \<Rightarrow> nat \<Rightarrow> double list \<Rightarrow> nat \<Rightarrow> double" where
  "affine_gradient M n inner_n y j =
     accumulate (Real 0) [0..<inner_n] (\<lambda>i. y ! i * M ! (i * n + j))"

definition transform_vars_affine_evaluate_gradient ::
    "double list \<Rightarrow> double list \<Rightarrow> coco_problem_s \<Rightarrow> nat \<Rightarrow> gradient \<Rightarrow> gradient" where
  "transform_vars_affine_evaluate_gradient M b p inner_n eval x =
     (let n = number_of_variables p in
      gradient_at p (\<lambda>y. rbind (eval (affine_x M b n inner_n x) y) (\<lambda>y.
        write_gradient inner_n (affine_gradient M n inner_n y) y y)) x)"

definition transform_vars_conditioning_evaluate_gradient ::
    "double \<Rightarrow> coco_problem_s \<Rightarrow> nat \<Rightarrow> gradient \<Rightarrow> gradient" where
  "transform_vars_conditioning_evaluate_gradient alpha p inner_n eval x =
     (let n = number_of_variables p in
      gradient_at p (\<lambda>y. rbind (eval (conditioned_x alpha n x) y) (\<lambda>y.
        write_gradient inner_n (\<lambda>i.
          dpow alpha (ddiv (Real (1 / 2) * Real (real i)) (Real (real n) - Real 1)) * y ! i) y y)) x)"

text \<open>
  The transformations without a gradient of their own call the one of the inner problem at the same
  point; the discretization has none.
\<close>

fun transformation_gradient :: "transformation \<Rightarrow> coco_problem_s \<Rightarrow> nat \<Rightarrow> gradient \<Rightarrow> gradient" where
  "transformation_gradient (Obj_shift offset) p inner_n = transform_obj_shift_evaluate_gradient p"
| "transformation_gradient (Obj_scale factor) p inner_n = transform_obj_scale_evaluate_gradient factor p"
| "transformation_gradient (Vars_shift offset) p inner_n = transform_vars_shift_evaluate_gradient offset p"
| "transformation_gradient (Vars_affine M b) p inner_n = transform_vars_affine_evaluate_gradient M b p inner_n"
| "transformation_gradient (Vars_conditioning alpha) p inner_n =
     transform_vars_conditioning_evaluate_gradient alpha p inner_n"
| "transformation_gradient (Vars_discretize offset) p inner_n =
     (\<lambda>eval x y. Inl (Coco_error ''bbob_evaluate_gradient''))"
| "transformation_gradient t p inner_n = (\<lambda>eval. eval)"

section \<open>The evaluation of a gradient\<close>

primrec bbob_evaluate_gradient :: "coco_problem_t \<Rightarrow> gradient" where
  "bbob_evaluate_gradient (Basic p) =
     (case evaluate_function p of
        Some (Evaluate_raw r) \<Rightarrow> raw_gradient r p
      | _ \<Rightarrow> (\<lambda>x y. Inl (Coco_error ''bbob_evaluate_gradient'')))"
| "bbob_evaluate_gradient (Transformed p t inner) =
     transformation_gradient t p (number_of_variables (fields inner)) (bbob_evaluate_gradient inner)"
| "bbob_evaluate_gradient (Stacked p problem1 problem2) =
     (\<lambda>x y. Inl (Coco_error ''bbob_evaluate_gradient''))"

chapter \<open>Gradients on real points\<close>

text \<open>
  The gradients on real points. \<open>derivative_of\<close> says that a function on points has a gradient: its
  derivative in every direction is the scalar product. The locale \<open>gradient_contract\<close> states what the
  gradient of a raw function promises; the transformations follow the chain rule. For the convex
  functions the gradient gives a lower bound of the function, the first-order condition of optimality.
\<close>

section \<open>Derivatives on points\<close>

definition moved :: "real list \<Rightarrow> real \<Rightarrow> real list \<Rightarrow> real list" where
  "moved x t u = map (\<lambda>i. x ! i + t * u ! i) [0..<length x]"

lemma length_moved [simp]: "length (moved x t u) = length x"
  by (simp add: moved_def)

lemma nth_moved [simp]: "i < length x \<Longrightarrow> moved x t u ! i = x ! i + t * u ! i"
  by (simp add: moved_def)

definition derivative_of :: "nat \<Rightarrow> (real list \<Rightarrow> real) \<Rightarrow> (real list \<Rightarrow> real list) \<Rightarrow> bool" where
  "derivative_of n F g \<longleftrightarrow> (\<forall>x u. length x = n \<longrightarrow> length u = n \<longrightarrow> length (g x) = n
     \<and> ((\<lambda>t. F (moved x t u)) has_real_derivative rdot (g x) u) (at 0))"

text \<open>The lower bound of a convex function at \<open>x\<close>.\<close>

definition supports :: "nat \<Rightarrow> (real list \<Rightarrow> real) \<Rightarrow> (real list \<Rightarrow> real list) \<Rightarrow> real list \<Rightarrow> bool" where
  "supports n F g x \<longleftrightarrow> length x = n \<longrightarrow> (\<forall>u. length u = n \<longrightarrow> F x + rdot (g x) u \<le> F (moved x 1 u))"

text \<open>A sum of functions of the single coordinates.\<close>

lemma separable_derivative:
  assumes "\<And>i v. i < n \<Longrightarrow> (h i has_real_derivative h' i v) (at v)"
  shows "derivative_of n (\<lambda>x. c + (\<Sum>i = 0..<n. h i (x ! i))) (\<lambda>x. map (\<lambda>i. h' i (x ! i)) [0..<n])"
  unfolding derivative_of_def
proof (intro allI impI conjI)
  fix x u :: "real list" assume x: "length x = n" and u: "length u = n"
  have "((\<lambda>t. h i (x ! i + t * u ! i)) has_real_derivative h' i (x ! i) * u ! i) (at 0)" if "i < n" for i
  proof (rule DERIV_chain2 [where f = "h i"])
    show "(h i has_real_derivative h' i (x ! i)) (at (x ! i + 0 * u ! i))" using assms [OF that] by simp
  qed (auto intro!: derivative_eq_intros)
  then have "((\<lambda>t. c + (\<Sum>i = 0..<n. h i (x ! i + t * u ! i))) has_real_derivative
      0 + (\<Sum>i = 0..<n. h' i (x ! i) * u ! i)) (at 0)"
    by (intro DERIV_add DERIV_const DERIV_sum) simp
  then show "((\<lambda>t. c + (\<Sum>i = 0..<n. h i (moved x t u ! i))) has_real_derivative
      rdot (map (\<lambda>i. h' i (x ! i)) [0..<n]) u) (at 0)"
    using x by (simp add: rdot_def atLeast0LessThan)
qed simp

lemma separable_supports:
  assumes "length x = n \<Longrightarrow> \<forall>i < n. \<forall>w. h i (x ! i) + h' i (x ! i) * w \<le> h i (x ! i + w)"
  shows "supports n (\<lambda>x. c + (\<Sum>i = 0..<n. h i (x ! i))) (\<lambda>x. map (\<lambda>i. h' i (x ! i)) [0..<n]) x"
  unfolding supports_def
proof (intro allI impI)
  fix u :: "real list" assume x: "length x = n" and u: "length u = n"
  have "(\<Sum>i = 0..<n. h i (x ! i) + h' i (x ! i) * u ! i) \<le> (\<Sum>i = 0..<n. h i (x ! i + u ! i))"
    using assms x by (intro sum_mono) simp
  then show "c + (\<Sum>i = 0..<n. h i (x ! i)) + rdot (map (\<lambda>i. h' i (x ! i)) [0..<n]) u
      \<le> c + (\<Sum>i = 0..<n. h i (moved x 1 u ! i))"
    using x by (simp add: rdot_def sum.distrib atLeast0LessThan)
qed

lemma derivative_of_cong:
  assumes "derivative_of n F g" "\<And>x. length x = n \<Longrightarrow> F' x = F x" "\<And>x. length x = n \<Longrightarrow> g' x = g x"
  shows "derivative_of n F' g'"
  using assms by (simp add: derivative_of_def)

lemma supports_cong:
  assumes "supports n F g x" "\<And>x. length x = n \<Longrightarrow> F' x = F x" "length x = n \<Longrightarrow> g' x = g x"
  shows "supports n F' g' x"
  using assms by (simp add: supports_def)

section \<open>The contract of a gradient\<close>

locale gradient_contract =
  fixes r :: raw_function and n :: nat and ok :: bool and best :: "real list"
    and F :: "real list \<Rightarrow> real" and g :: "real list \<Rightarrow> real list"
  assumes evaluates:
    "ok \<Longrightarrow> length x = n \<Longrightarrow> length y = n \<Longrightarrow> number_of_variables p = n \<Longrightarrow>
       (r = Linear_slope \<longrightarrow> best_parameter p = Some (map Real best)) \<Longrightarrow>
       raw_gradient r p (map Real x) y = Inr (map Real (g x))"
    and derivative: "ok \<Longrightarrow> derivative_of n F g"

text \<open>The quadratic functions with the coefficients \<open>c i\<close>.\<close>

definition quadratic :: "nat \<Rightarrow> (nat \<Rightarrow> real) \<Rightarrow> real list \<Rightarrow> real" where
  "quadratic n c x = 0 + (\<Sum>i = 0..<n. c i * (x ! i)\<^sup>2)"

definition quadratic_gradient :: "nat \<Rightarrow> (nat \<Rightarrow> real) \<Rightarrow> real list \<Rightarrow> real list" where
  "quadratic_gradient n c x = map (\<lambda>i. 2 * c i * x ! i) [0..<n]"

lemma quadratic_derivative: "derivative_of n (quadratic n c) (quadratic_gradient n c)"
  unfolding quadratic_def quadratic_gradient_def
  by (rule separable_derivative) (auto intro!: derivative_eq_intros)

lemma quadratic_supports:
  assumes "\<forall>i < n. 0 \<le> c i"
  shows "supports n (quadratic n c) (quadratic_gradient n c) x"
  unfolding quadratic_def quadratic_gradient_def
proof (rule separable_supports, intro allI impI)
  fix i and w :: real assume "i < n"
  then have "0 \<le> c i * w\<^sup>2" using assms by simp
  then show "c i * (x ! i)\<^sup>2 + 2 * c i * x ! i * w \<le> c i * (x ! i + w)\<^sup>2"
    by (simp add: power2_eq_square algebra_simps)
qed

definition ellipsoid_coefficient :: "nat \<Rightarrow> nat \<Rightarrow> real" where
  "ellipsoid_coefficient n i = (10 ^ 6) powr (real i / (real n - 1))"

definition first_coefficient :: "real \<Rightarrow> real \<Rightarrow> nat \<Rightarrow> real" where
  "first_coefficient a b i = (if i = 0 then a else b)"

lemma sum_first:
  fixes f :: "nat \<Rightarrow> real"
  shows "0 < n \<Longrightarrow> (\<Sum>i = 0..<n. f i) = f 0 + (\<Sum>i = 1..<n. f i)"
  using sum.atLeast_Suc_lessThan [of 0 n f] by simp

lemma quadratic_values:
  "length x = n \<Longrightarrow> sphere_value x = quadratic n (\<lambda>i. 1) x"
  "length x = n \<Longrightarrow> 0 < n \<Longrightarrow> ellipsoid_value x = quadratic n (ellipsoid_coefficient n) x"
  "length x = n \<Longrightarrow> 0 < n \<Longrightarrow> discus_value x = quadratic n (first_coefficient 1000000 1) x"
  "length x = n \<Longrightarrow> 0 < n \<Longrightarrow> bent_cigar_value x = quadratic n (first_coefficient 1 1000000) x"
  by (simp_all add: quadratic_def sphere_value_def ellipsoid_value_def discus_value_def bent_cigar_value_def
      sum_first ellipsoid_coefficient_def first_coefficient_def power2_eq_square mult.assoc)

lemma quadratic_derivatives:
  "derivative_of n sphere_value (quadratic_gradient n (\<lambda>i. 1))"
  "0 < n \<Longrightarrow> derivative_of n ellipsoid_value (quadratic_gradient n (ellipsoid_coefficient n))"
  "0 < n \<Longrightarrow> derivative_of n discus_value (quadratic_gradient n (first_coefficient 1000000 1))"
  "0 < n \<Longrightarrow> derivative_of n bent_cigar_value (quadratic_gradient n (first_coefficient 1 1000000))"
  using derivative_of_cong [OF quadratic_derivative quadratic_values(1) refl]
    derivative_of_cong [OF quadratic_derivative quadratic_values(2) refl]
    derivative_of_cong [OF quadratic_derivative quadratic_values(3) refl]
    derivative_of_cong [OF quadratic_derivative quadratic_values(4) refl]
  by blast+

lemma coefficients_nonneg:
  "\<forall>i < n. 0 \<le> ellipsoid_coefficient n i" "0 \<le> a \<Longrightarrow> 0 \<le> b \<Longrightarrow> \<forall>i < n. 0 \<le> first_coefficient a b i"
  by (simp_all add: ellipsoid_coefficient_def first_coefficient_def)

lemma write_gradient_Real:
  assumes "length x = n" "length y = n" "\<And>i. i < n \<Longrightarrow> g i = Real (h i)"
  shows "write_gradient n g x y = Inr (map Real (map h [0..<n]))"
  using assms by (simp add: write_gradient_def)

definition rastrigin_gradient :: "nat \<Rightarrow> real list \<Rightarrow> real list" where
  "rastrigin_gradient n x = map (\<lambda>i. 2 * (10 * pi * sin (2 * pi * x ! i) + x ! i)) [0..<n]"

lemma rastrigin_derivative: "derivative_of n rastrigin_value (rastrigin_gradient n)"
proof (rule derivative_of_cong [OF separable_derivative])
  show "((\<lambda>v. (10 - 10 * cos (2 * pi * v)) + v\<^sup>2) has_real_derivative
      2 * (10 * pi * sin (2 * pi * v) + v)) (at v)" for v
    by (auto intro!: derivative_eq_intros simp: algebra_simps)
  show "rastrigin_value x = 0 + (\<Sum>i = 0..<n. (10 - 10 * cos (2 * pi * x ! i)) + (x ! i)\<^sup>2)"
    if "length x = n" for x
    using that by (simp add: rastrigin_value_def sphere_value_def sum.distrib sum_subtractf sum_distrib_left
        power2_eq_square algebra_simps)
qed (simp add: rastrigin_gradient_def)

interpretation sphere_gradient: gradient_contract Sphere n True best sphere_value "quadratic_gradient n (\<lambda>i. 1)"
  for n best
  by unfold_locales (simp_all add: f_sphere_evaluate_gradient_def write_gradient_def quadratic_derivatives,
      simp add: quadratic_gradient_def)

interpretation ellipsoid_gradient: gradient_contract Ellipsoid n "2 \<le> n" best ellipsoid_value
    "quadratic_gradient n (ellipsoid_coefficient n)"
  for n best
  by unfold_locales (simp_all add: f_ellipsoid_evaluate_gradient_def write_gradient_def quadratic_derivatives,
      simp add: quadratic_gradient_def position_ratio_def ellipsoid_coefficient_def)

interpretation discus_gradient: gradient_contract Discus n "0 < n" best discus_value
    "quadratic_gradient n (first_coefficient 1000000 1)"
  for n best
  by unfold_locales (simp_all add: f_discus_evaluate_gradient_def max_def quadratic_derivatives
      write_gradient_def, simp add: quadratic_gradient_def first_coefficient_def)

interpretation bent_cigar_gradient: gradient_contract Bent_cigar n "0 < n" best bent_cigar_value
    "quadratic_gradient n (first_coefficient 1 1000000)"
  for n best
  by unfold_locales (simp_all add: f_bent_cigar_evaluate_gradient_def max_def quadratic_derivatives
      write_gradient_def, simp add: quadratic_gradient_def first_coefficient_def)

interpretation rastrigin_gradient: gradient_contract Rastrigin n True best rastrigin_value "rastrigin_gradient n"
  for n best
  by unfold_locales (simp_all add: f_rastrigin_evaluate_gradient_def rastrigin_derivative write_gradient_def,
      simp add: rastrigin_gradient_def)

end
