(* ===== verification/Coco_Constrained.thy ===== *)
theory Coco_Constrained
  imports Coco_Gradients
begin

text \<open>
  The model of the constrained suite: its linear constraints (\<open>c_linear.c\<close>) and its problems
  (\<open>suite_cons_bbob_problems.c\<close>, \<open>suite_cons_bbob.c\<close>).
\<close>

chapter \<open>Linear constraints\<close>

text \<open>
  The constrained suite: the linear constraints of \<open>c_linear.c\<close> and the constrained problems of
  \<open>suite_cons_bbob_problems.c\<close>. A constraint is the sum of the variables behind a layer
  \<open>Linear_constraint\<close> with the gradient, the shift and the norm; the constraints are stacked one after
  the other, the objective function in front of them. A pointer to the data of a constraint is its
  number in the stack.
\<close>

section \<open>Vectors\<close>

definition vector_scale :: "double list \<Rightarrow> double \<Rightarrow> double \<Rightarrow> double list" where
  "vector_scale x nom denom =
     (let nom = (if not_equal denom (Real 0) then ddiv nom denom else nom) in map (\<lambda>v. v * nom) x)"

definition vector_norm :: "double list \<Rightarrow> double" where
  "vector_norm x = dsqrt (accumulate (Real 0) [0..<length x] (\<lambda>i. x ! i * x ! i))"

definition vector_scalar_product :: "double list \<Rightarrow> double list \<Rightarrow> double" where
  "vector_scalar_product x y = accumulate (Real 0) [0..<length x] (\<lambda>i. x ! i * y ! i)"

section \<open>One constraint\<close>

text \<open>
  \<open>coco_problem_transformed_allocate\<close> for a problem without a name: it passes NULL to the conversion
  \<open>%s\<close>, which the C standard leaves undefined (\<open>null_text = None\<close>); a library may write a text for it.
\<close>

definition transformed_allocate_unnamed ::
    "string option \<Rightarrow> coco_problem_t \<Rightarrow> transformation \<Rightarrow> string \<Rightarrow> coco_problem_t result" where
  "transformed_allocate_unnamed null_text inner_problem user_data name_prefix =
     rbind (coco_problem_duplicate (fields inner_problem)) (\<lambda>inner_copy.
     case (case problem_name (fields inner_problem) of None \<Rightarrow> null_text | Some old_name \<Rightarrow> Some old_name) of
       None \<Rightarrow> Inl Null_deref
     | Some old_name \<Rightarrow>
         rbind (coco_problem_set_name ''%s(%s)'' (name_prefix @ ''('' @ old_name @ '')'')
           (inner_copy\<lparr>evaluate_function := Some Evaluate_inner,
             evaluate_constraint := Some Constraint_inner\<rparr>)) (\<lambda>inner_copy.
           Inr (Transformed inner_copy user_data inner_problem)))"

definition c_linear_transform ::
    "string option \<Rightarrow> coco_problem_t \<Rightarrow> double list \<Rightarrow> double \<Rightarrow> coco_problem_t result" where
  "c_linear_transform null_text inner_problem gradient shift_factor =
     rbind (copy_vector gradient (number_of_variables (fields inner_problem))) (\<lambda>gradient.
       let gradient_norm = vector_norm gradient in
       if gradient_norm \<le> Real 0 then Inl (Coco_error ''c_linear_transform'')
       else rbind (transformed_allocate_unnamed null_text inner_problem
           (Linear_constraint gradient shift_factor gradient_norm) ''gradient_linear_constraint'')
         (\<lambda>self. Inr (own_constraint self)))"

text \<open>
  The constraint is turned around if the point is not feasible; the point becomes the initial solution.
\<close>

definition c_guarantee_feasible_point :: "coco_problem_t \<Rightarrow> double list \<Rightarrow> coco_problem_t result" where
  "c_guarantee_feasible_point problem feasible_direction =
     (if number_of_constraints (fields problem) \<noteq> 1 then Inl (Assert_failed ''c_guarantee_feasible_point'')
      else rbind (coco_evaluate_constraint problem feasible_direction) (\<lambda>(y, problem).
        rbind (rnth y 0) (\<lambda>constraint_value.
        rbind (copy_vector feasible_direction (number_of_variables (fields problem))) (\<lambda>x0.
          case problem of
            Transformed p (Linear_constraint gradient x_shift gradient_norm) inner \<Rightarrow>
              let gradient = (if Real 0 < constraint_value then map (\<lambda>v. v * Real (- 1)) gradient else gradient)
              in Inr (Transformed (p\<lparr>initial_solution := Some x0\<rparr>)
                   (Linear_constraint gradient x_shift gradient_norm) inner)
          | _ \<Rightarrow> Inl Null_deref))))"

text \<open>\<open>coco_random_normal\<close> as a double: for \<open>u1 = 0\<close> it is not finite.\<close>

definition random_normal :: "coco_random_state \<Rightarrow> double \<times> coco_random_state" where
  "random_normal state =
     (let (u1, state) = coco_random_uniform state;
          (u2, state) = coco_random_uniform state
      in (dsqrt (Real (- 2) * dlog (Real u1)) * dcos (Real (2 * pi * u2)), state))"

fun random_normals :: "nat \<Rightarrow> coco_random_state \<Rightarrow> double list" where
  "random_normals 0 state = []"
| "random_normals (Suc n) state = (case random_normal state of (z, state) \<Rightarrow> z # random_normals n state)"

text \<open>The name and the type of the constraint; the templates get function, instance and dimension.\<close>

definition name_constraint ::
    "string \<Rightarrow> string \<Rightarrow> string \<Rightarrow> nat list \<Rightarrow> coco_problem_t \<Rightarrow> coco_problem_t result" where
  "name_constraint id_template name_template ptype ns problem =
     rbind (coco_problem_set_id id_template (format_lu id_template ns) (fields problem)) (\<lambda>p.
     rbind (coco_problem_set_name name_template (format_lu name_template ns) p) (\<lambda>p.
     rbind (coco_problem_set_type ptype ptype p) (\<lambda>p. Inr (with_fields (\<lambda>_. p) problem))))"

text \<open>
  A given gradient is scaled in place, so that the result includes it.
\<close>

definition c_linear_single_cons_bbob_problem_allocate ::
    "string option \<Rightarrow> nat \<Rightarrow> nat \<Rightarrow> nat \<Rightarrow> nat \<Rightarrow> double \<Rightarrow> string \<Rightarrow> string \<Rightarrow> double list option \<Rightarrow> double
      \<Rightarrow> double list \<Rightarrow> (coco_problem_t \<times> double list option) result" where
  "c_linear_single_cons_bbob_problem_allocate null_text function dimension instance constraint_number factor1
       id_template name_template gradient x_shift_factor feasible_direction =
     rbind (c_sum_variables_allocate dimension) (\<lambda>problem.
       let seed_cons_i = word_of_nat (function + 10000 * instance + 50000 * constraint_number) :: 32 word;
           (u, random_generator) = coco_random_uniform (coco_random_new seed_cons_i);
           factor2 = dpow (Real 100) (Real u);
           gradient = map_option (\<lambda>g. vector_scale g (factor1 * factor2) (vector_norm g)) gradient;
           new_gradient = (case gradient of
               Some g \<Rightarrow> g
             | None \<Rightarrow> map (\<lambda>z. ddiv (factor1 * z * factor2) (dsqrt (Real (real dimension))))
                 (random_normals dimension random_generator))
       in rbind (c_linear_transform null_text problem new_gradient x_shift_factor) (\<lambda>problem.
          rbind (c_guarantee_feasible_point problem feasible_direction) (\<lambda>problem.
          rbind (name_constraint id_template name_template ''linear'' [function, instance, dimension] problem)
            (\<lambda>problem. Inr (problem, gradient)))))"

section \<open>The stack of constraints\<close>

text \<open>The data of constraint \<open>k\<close> of a stack, and the stack with another gradient of constraint \<open>k\<close>.\<close>

fun constraint_data :: "coco_problem_t \<Rightarrow> nat \<Rightarrow> (double list \<times> double \<times> double) option" where
  "constraint_data (Transformed p (Linear_constraint gradient x_shift gradient_norm) inner) k =
     Some (gradient, x_shift, gradient_norm)"
| "constraint_data (Stacked p problem1 problem2) k =
     (if k < number_of_constraints (fields problem1) then constraint_data problem1 k
      else constraint_data problem2 (k - number_of_constraints (fields problem1)))"
| "constraint_data problem k = None"

fun set_gradient :: "coco_problem_t \<Rightarrow> nat \<Rightarrow> double list \<Rightarrow> coco_problem_t" where
  "set_gradient (Transformed p (Linear_constraint gradient x_shift gradient_norm) inner) k g =
     Transformed p (Linear_constraint g x_shift gradient_norm) inner"
| "set_gradient (Stacked p problem1 problem2) k g =
     (if k < number_of_constraints (fields problem1) then Stacked p (set_gradient problem1 k g) problem2
      else Stacked p problem1 (set_gradient problem2 (k - number_of_constraints (fields problem1)) g))"
| "set_gradient problem k g = problem"

definition con_update_linear_combination ::
    "double list \<Rightarrow> coco_problem_t \<Rightarrow> double \<Rightarrow> double list result" where
  "con_update_linear_combination linear_combination problem weight =
     (case problem of
        Transformed p (Linear_constraint gradient x_shift gradient_norm) inner \<Rightarrow>
          if equal_to weight (Real 0) then Inr linear_combination
          else if length linear_combination < number_of_variables p \<or> length gradient < number_of_variables p
          then Inl Out_of_bounds
          else Inr (map (\<lambda>i. linear_combination ! i + weight * gradient ! i) [0..<number_of_variables p]
            @ drop (number_of_variables p) linear_combination)
      | _ \<Rightarrow> Inl Null_deref)"

text \<open>
  The variables of the loop over the constraints: the stack so far, the number \<open>active\<close> of active
  constraints, the number of inactive constraints left, the linear combination of the gradients, the
  array with the first gradient, the pointer to the data of its constraint, and the two generators.
\<close>

datatype stack_state = Stack_state
  (stack_problem: coco_problem_t) (stack_active: nat) (stack_inactive: nat)
  (stack_combination: "double list") (stack_gradient: "double list") (stack_first: "nat option")
  (stack_random: coco_random_state) (stack_random2: coco_random_state)

text \<open>The templates and numbers that do not change in the loop.\<close>

datatype stack_setting = Stack_setting
  (set_null_text: "string option") (set_function: nat) (set_dimension: nat) (set_instance: nat)
  (set_factor1: double) (set_id_template: string) (set_name_template: string)
  (set_feasible_direction: "double list") (set_active: nat) (set_total: nat)

definition single_constraint ::
    "stack_setting \<Rightarrow> nat \<Rightarrow> double list option \<Rightarrow> double \<Rightarrow> (coco_problem_t \<times> double list option) result" where
  "single_constraint s constraint_number gradient shift_factor =
     c_linear_single_cons_bbob_problem_allocate (set_null_text s) (set_function s) (set_dimension s)
       (set_instance s) constraint_number (set_factor1 s) (set_id_template s) (set_name_template s)
       gradient shift_factor (set_feasible_direction s)"

text \<open>
  Where an active constraint ends up: the one along the given gradient is remembered, the others are
  added to the linear combination with a random weight. \<open>k\<close> is the number of the constraint.
\<close>

definition register_active ::
    "nat \<Rightarrow> coco_problem_t \<times> double list option \<Rightarrow> stack_state \<Rightarrow> stack_state result" where
  "register_active k r st =
     (case r of (problem, gradient) \<Rightarrow>
        case gradient of
          Some g \<Rightarrow> Inr (Stack_state (stack_problem st) (stack_active st) (stack_inactive st)
            (stack_combination st) g (Some k) (stack_random st) (stack_random2 st))
        | None \<Rightarrow>
            let (u, random2) = coco_random_uniform (stack_random2 st) in
            rbind (con_update_linear_combination (stack_combination st) problem (Real u)) (\<lambda>combination.
              Inr (Stack_state (stack_problem st) (stack_active st) (stack_inactive st)
                combination (stack_gradient st) (stack_first st) (stack_random st) random2)))"

text \<open>Stacking a constraint: the id becomes the name, as a format, then id and type are set.\<close>

definition stack_constraint :: "stack_setting \<Rightarrow> coco_problem_t \<Rightarrow> coco_problem_t \<Rightarrow> coco_problem_t result" where
  "stack_constraint s problem_c problem_c2 =
     rbind (coco_problem_stacked_allocate problem_c problem_c2
         (smallest_values_of_interest (fields problem_c2)) (largest_values_of_interest (fields problem_c2)))
       (\<lambda>problem_c.
     rbind (coco_problem_get_id (fields problem_c)) (\<lambda>id.
     rbind (coco_problem_set_name id (format_lu id []) (fields problem_c)) (\<lambda>p.
     rbind (coco_problem_set_id ''bbob-constrained_f%02lu_i%02lu_d%02lu''
         (format_lu ''bbob-constrained_f%02lu_i%02lu_d%02lu'' [set_function s, set_instance s, set_dimension s]) p)
       (\<lambda>p.
     case problem_type (fields problem_c2) of
       None \<Rightarrow> Inl Null_deref
     | Some t \<Rightarrow>
         rbind (coco_problem_set_type ''%s_%s'' (t @ ''_'' @ t) p) (\<lambda>p.
           Inr (with_fields (\<lambda>_. p) problem_c))))))"

text \<open>
  The kind of the constraint \<open>j\<close>: active as long as there are active constraints left and the random
  number is large enough. \<open>Inr (Some shift)\<close> is a shift of an inactive constraint.
\<close>

definition draw_kind :: "stack_setting \<Rightarrow> nat \<Rightarrow> nat \<Rightarrow> coco_random_state \<Rightarrow> bool \<times> coco_random_state" where
  "draw_kind s i inactive random =
     (if i < set_active s
      then let (u, random) = coco_random_uniform random in
           (ddiv (Real (real inactive)) (Real (real (set_total s))) < Real u + Real (1 / 10 ^ 23), random)
      else (False, random))"

text \<open>
  One round of the loop. The number of an inactive constraint is the one of the last active constraint,
  since the number of active constraints is never exceeded.
\<close>

definition stack_step :: "stack_setting \<Rightarrow> nat \<Rightarrow> stack_state \<Rightarrow> stack_state result" where
  "stack_step s j st =
     (case draw_kind s (stack_active st) (stack_inactive st) (stack_random st) of (is_active, random) \<Rightarrow>
      rbind (if is_active then
               let i = stack_active st + 1 in
               Inr (i, stack_inactive st,
                 if size_t (i - 1 + set_instance s) mod set_active s \<noteq> 0 then None else Some (stack_gradient st),
                 Real 0, random)
             else if stack_inactive st = 0 then Inl (Coco_error ''c_linear_cons_bbob_problem_allocate'')
             else let (u, random) = coco_random_uniform random in
               Inr (stack_active st, stack_inactive st - 1, None, Real (1 / 100) + Real 2 * Real u, random))
        (\<lambda>(i, inactive, gradient, shift_factor, random).
      rbind (single_constraint s (if i \<le> set_active s then i else size_sub (set_total s) inactive)
          gradient shift_factor) (\<lambda>(problem_c2, gradient).
      let st = Stack_state (stack_problem st) i inactive (stack_combination st) (stack_gradient st)
            (stack_first st) random (stack_random2 st)
      in rbind (if equal_to shift_factor (Real 0) then register_active (j - 1) (problem_c2, gradient) st
                else Inr st) (\<lambda>st.
         rbind (stack_constraint s (stack_problem st) problem_c2) (\<lambda>problem_c.
           Inr (Stack_state problem_c (stack_active st) (stack_inactive st) (stack_combination st)
             (stack_gradient st) (stack_first st) (stack_random st) (stack_random2 st)))))))"

fun stack_loop :: "stack_setting \<Rightarrow> nat list \<Rightarrow> stack_state \<Rightarrow> stack_state result" where
  "stack_loop s [] st = Inr st"
| "stack_loop s (j # js) st = rbind (stack_step s j st) (stack_loop s js)"

text \<open>
  The last step changes the gradient of the remembered constraint without changing the optimum: a
  multiple of the linear combination is subtracted, then the norm is restored.
\<close>

definition disguise :: "nat \<Rightarrow> stack_state \<Rightarrow> coco_problem_t result" where
  "disguise dimension st =
     (case stack_first st of
        None \<Rightarrow> Inl Null_deref
      | Some k \<Rightarrow>
          case constraint_data (stack_problem st) k of
            None \<Rightarrow> Inl Null_deref
          | Some (gradient, x_shift, gradient_norm) \<Rightarrow>
              let combination = stack_combination st;
                  fac = vector_scalar_product combination gradient
              in if fac < Real 0 then Inl (Coco_error ''c_linear_cons_bbob_problem_allocate'')
                 else
                   let d = Real (real dimension);
                       fac = (if fac \<le> Real 0 then d else dmin d (ddiv (gradient_norm * gradient_norm) fac));
                       (u, _) = coco_random_uniform (stack_random2 st);
                       fac = fac * ddiv (Real 1 + Real u) (Real 2 + ddiv (Real 1) d);
                       gradient = map (\<lambda>i. gradient ! i - fac * combination ! i) [0..<dimension];
                       fac = vector_norm gradient
                   in if equal_to fac (Real 0) then Inl (Coco_error ''c_linear_cons_bbob_problem_allocate'')
                      else Inr (set_gradient (stack_problem st) k (vector_scale gradient gradient_norm fac)))"

definition c_linear_cons_bbob_problem_allocate ::
    "string option \<Rightarrow> nat \<Rightarrow> nat \<Rightarrow> nat \<Rightarrow> nat \<Rightarrow> string \<Rightarrow> string \<Rightarrow> double list \<Rightarrow> coco_problem_t result" where
  "c_linear_cons_bbob_problem_allocate null_text function dimension instance number_of_active_constraints
       id_template name_template feasible_direction =
     (let active_only = take 28 id_template = ''bbob-constrained-active-only'';
          inactive = (if active_only then 0 else number_of_active_constraints div 2);
          disguise_gradient = (take 28 id_template \<noteq> ''bbob-constrained-no-disguise'');
          total = number_of_active_constraints + inactive;
          seed_cons = word_of_nat (function + 10000 * instance) :: 32 word;
          (u, random) = coco_random_uniform (coco_random_new seed_cons);
          random2 = coco_random_new seed_cons;
          factor1 = Real 100 * dpow (Real 10) (Real u);
          s = Stack_setting null_text function dimension instance factor1 id_template name_template
            feasible_direction number_of_active_constraints total
      in
        rbind (coco_allocate_vector dimension) (\<lambda>_.
        rbind (copy_vector feasible_direction dimension) (\<lambda>v.
        let gradient_c1 = map uminus v in
        if number_of_active_constraints = 0 then Inl Div_by_zero
        else rbind (single_constraint s 1
            (if instance mod number_of_active_constraints \<noteq> 0 then None else Some gradient_c1) (Real 0))
          (\<lambda>(problem_c, gradient).
        rbind (register_active 0 (problem_c, gradient)
            (Stack_state problem_c 1 inactive (replicate dimension (Real 0)) gradient_c1 None random random2)) (\<lambda>st.
        rbind (stack_loop s [2..<total + 1] st) (\<lambda>st.
          if number_of_active_constraints > 1 \<and> disguise_gradient then disguise dimension st
          else Inr (stack_problem st)))))))"

chapter \<open>Constrained problems\<close>

text \<open>
  The problems of the constrained suite (\<open>suite_cons_bbob_problems.c\<close>, \<open>suite_cons_bbob.c\<close>): the objective
  functions without their nonlinear transformations (\<open>f_*.c\<close>), the feasible direction, the stack of an
  objective function and its constraints, and the transformations of the whole problem.
\<close>

section \<open>Objective functions\<close>

definition f_ellipsoid_cons_bbob_problem_allocate :: bbob_constructor where
  "f_ellipsoid_cons_bbob_problem_allocate function dimension instance rseed id_template name_template =
     rbind (coco_allocate_vector dimension) (\<lambda>_.
     rbind (bbob2009_compute_fopt function instance) (\<lambda>fopt.
     rbind (optimum rseed dimension) (\<lambda>xopt.
     rbind (f_ellipsoid_allocate dimension) (\<lambda>problem.
     rbind (transform_vars_shift problem xopt False) (\<lambda>problem.
     rbind (transform_obj_shift problem fopt) (\<lambda>problem.
       name_problem id_template name_template ''1-separable'' function instance dimension problem))))))"

definition f_ellipsoid_rotated_cons_bbob_problem_allocate :: bbob_constructor where
  "f_ellipsoid_rotated_cons_bbob_problem_allocate function dimension instance rseed id_template name_template =
     rbind (coco_allocate_vector dimension) (\<lambda>_.
     rbind (optimum rseed dimension) (\<lambda>xopt.
     rbind (bbob2009_compute_fopt function instance) (\<lambda>fopt.
     rbind (bbob2009_compute_rotation (rseed + 1000000) dimension) (\<lambda>rot1.
     rbind (f_ellipsoid_allocate dimension) (\<lambda>problem.
     rbind (transform_vars_affine problem (fst (bbob2009_copy_rotation_matrix rot1 dimension)) (zero dimension) dimension) (\<lambda>problem.
     rbind (transform_vars_shift problem xopt False) (\<lambda>problem.
     rbind (transform_obj_shift problem fopt) (\<lambda>problem.
       name_problem id_template name_template ''3-ill-conditioned'' function instance dimension problem))))))))"

definition f_discus_cons_bbob_problem_allocate :: bbob_constructor where
  "f_discus_cons_bbob_problem_allocate function dimension instance rseed id_template name_template =
     rbind (coco_allocate_vector dimension) (\<lambda>_.
     rbind (bbob2009_compute_fopt function instance) (\<lambda>fopt.
     rbind (optimum rseed dimension) (\<lambda>xopt.
     rbind (bbob2009_compute_rotation (rseed + 1000000) dimension) (\<lambda>rot1.
     rbind (f_discus_allocate dimension) (\<lambda>problem.
     rbind (transform_vars_affine problem (fst (bbob2009_copy_rotation_matrix rot1 dimension)) (zero dimension) dimension) (\<lambda>problem.
     rbind (transform_vars_shift problem xopt False) (\<lambda>problem.
     rbind (transform_obj_shift problem fopt) (\<lambda>problem.
       name_problem id_template name_template ''3-ill-conditioned'' function instance dimension problem))))))))"

definition f_bent_cigar_cons_bbob_problem_allocate :: bbob_constructor where
  "f_bent_cigar_cons_bbob_problem_allocate function dimension instance rseed id_template name_template =
     rbind (coco_allocate_vector dimension) (\<lambda>_.
     rbind (bbob2009_compute_fopt function instance) (\<lambda>fopt.
     rbind (optimum (rseed + 1000000) dimension) (\<lambda>xopt.
     rbind (bbob2009_compute_rotation (rseed + 1000000) dimension) (\<lambda>rot1.
     rbind (f_bent_cigar_allocate dimension) (\<lambda>problem.
     rbind (transform_obj_shift problem fopt) (\<lambda>problem.
     rbind (transform_vars_affine problem (fst (bbob2009_copy_rotation_matrix rot1 dimension)) (zero dimension) dimension) (\<lambda>problem.
     rbind (transform_vars_shift problem xopt False) (\<lambda>problem.
       name_problem id_template name_template ''3-ill-conditioned'' function instance dimension problem))))))))"

text \<open>The optimum of the different powers function is moved to the distance 0.01 from the origin.\<close>

definition near_origin :: "double list \<Rightarrow> double list" where
  "near_origin xopt =
     (let result = dsqrt (accumulate (Real 0) [0..<length xopt] (\<lambda>i. xopt ! i * xopt ! i))
      in map (\<lambda>v. v * ddiv (Real (1 / 100)) result) xopt)"

definition f_different_powers_bbob_constrained_problem_allocate :: bbob_constructor where
  "f_different_powers_bbob_constrained_problem_allocate function dimension instance rseed id_template name_template =
     rbind (coco_allocate_vector dimension) (\<lambda>_.
     rbind (bbob2009_compute_fopt function instance) (\<lambda>fopt.
     rbind (optimum rseed dimension) (\<lambda>xopt.
     rbind (bbob2009_compute_rotation (rseed + 1000000) dimension) (\<lambda>rot1.
     rbind (f_different_powers_allocate dimension) (\<lambda>problem.
     rbind (transform_obj_shift problem fopt) (\<lambda>problem.
     rbind (transform_vars_affine problem (fst (bbob2009_copy_rotation_matrix rot1 dimension)) (zero dimension) dimension) (\<lambda>problem.
     rbind (transform_vars_shift problem (near_origin xopt) False) (\<lambda>problem.
       name_problem id_template name_template ''3-ill-conditioned'' function instance dimension problem))))))))"

text \<open>
  The optimum of the Rastrigin function is a vector of integers, \<open>(int)\<close> truncates towards 0; the origin
  is replaced by a vector that depends on the index only.
\<close>

definition f_rastrigin_cons_compute_xopt :: "int \<Rightarrow> nat \<Rightarrow> real list result" where
  "f_rastrigin_cons_compute_xopt rseed n =
     rbind (bbob2009_unif n rseed) (\<lambda>xopt.
       let xopt = map (\<lambda>v. of_int (c_truncate (10 * v - 5))) xopt in
       Inr (if coco_vector_is_zero xopt then map (\<lambda>i. real (i mod 9) - 4) [0..<n] else xopt))"

definition f_rastrigin_cons_bbob_problem_allocate :: bbob_constructor where
  "f_rastrigin_cons_bbob_problem_allocate function dimension instance rseed id_template name_template =
     rbind (coco_allocate_vector dimension) (\<lambda>_.
     rbind (f_rastrigin_cons_compute_xopt rseed dimension) (\<lambda>xopt.
     rbind (bbob2009_compute_fopt function instance) (\<lambda>fopt.
     rbind (f_rastrigin_allocate dimension) (\<lambda>problem.
     rbind (transform_vars_shift problem (map Real xopt) False) (\<lambda>problem.
     rbind (transform_obj_shift problem fopt) (\<lambda>problem.
       name_problem id_template name_template ''1-separable'' function instance dimension problem))))))"

definition f_rastrigin_rotated_cons_bbob_problem_allocate :: bbob_constructor where
  "f_rastrigin_rotated_cons_bbob_problem_allocate function dimension instance rseed id_template name_template =
     rbind (coco_allocate_vector dimension) (\<lambda>_.
     rbind (bbob2009_compute_rotation (rseed + 1000000) dimension) (\<lambda>rot1.
     rbind (f_rastrigin_cons_compute_xopt rseed dimension) (\<lambda>xopt.
     rbind (bbob2009_compute_fopt function instance) (\<lambda>fopt.
     rbind (f_rastrigin_allocate dimension) (\<lambda>problem.
     rbind (transform_vars_shift problem (map Real xopt) False) (\<lambda>problem.
     rbind (transform_vars_affine problem (fst (bbob2009_copy_rotation_matrix rot1 dimension)) (zero dimension) dimension) (\<lambda>problem.
     rbind (transform_obj_shift problem fopt) (\<lambda>problem.
       name_problem id_template name_template ''1-separable'' function instance dimension problem))))))))"

section \<open>The feasible direction\<close>

text \<open>
  The largest relative step that reaches a bound of \<open>[-5, 5]\<close> from \<open>xopt\<close>, and the direction scaled to
  between 0.75 and 1 of the way.
\<close>

definition largest_abs :: "double list \<Rightarrow> nat \<Rightarrow> double" where
  "largest_abs xopt n = foldl (\<lambda>m i. dmax m \<bar>xopt ! i\<bar>) (Real 0) [0..<n]"

definition largest_relative :: "double list \<Rightarrow> double list \<Rightarrow> nat \<Rightarrow> double" where
  "largest_relative direction xopt n =
     foldl (\<lambda>m i. dmax (dmax m (ddiv (direction ! i) (Real 5 - xopt ! i)))
       (ddiv (direction ! i) (Real (- 5) - xopt ! i))) (Real 0) [0..<n]"

definition feasible_direction_set_length ::
    "double list \<Rightarrow> double list \<Rightarrow> nat \<Rightarrow> int \<Rightarrow> double list result" where
  "feasible_direction_set_length feasible_direction xopt dimension rseed =
     (if length feasible_direction < dimension \<or> length xopt < dimension then Inl Out_of_bounds
      else if Real 5 < largest_abs xopt dimension then Inl (Coco_error ''feasible_direction_set_length'')
      else rbind (bbob2009_unif 1 (rseed + 412)) (\<lambda>r.
        Inr (vector_scale (take dimension feasible_direction) (Real (3 / 4 + r ! 0 * (1 - 3 / 4)))
            (largest_relative feasible_direction xopt dimension)
          @ drop dimension feasible_direction)))"

section \<open>Constrained problems\<close>

text \<open>
  \<open>problem->evaluate_function(problem, problem->best_parameter, problem->best_value)\<close> of a stacked problem,
  where the assertion reads the new best value, and of a transformed problem that passes the call on.
\<close>

fun evaluate_in_place :: "coco_problem_t \<Rightarrow> coco_problem_t result" where
  "evaluate_in_place (Stacked p problem1 problem2) =
     (case best_parameter p of
        None \<Rightarrow> Inl Null_deref
      | Some x \<Rightarrow>
          let eval = (\<lambda>q. if number_of_objectives (fields q) > 0 then coco_evaluate_function q x else Inr ([], q))
          in if evaluate_function p \<noteq> Some Evaluate_stacked then Inl Null_deref
             else if number_of_objectives p
                 \<noteq> number_of_objectives (fields problem1) + number_of_objectives (fields problem2)
             then Inl (Assert_failed ''coco_problem_stacked_evaluate_function'')
             else rbind (eval problem1) (\<lambda>(y1, problem1). rbind (eval problem2) (\<lambda>(y2, problem2).
                rbind (stacked_check x (y1 @ y2, Stacked (p\<lparr>best_value := y1 @ y2\<rparr>) problem1 problem2))
                  (\<lambda>(y, problem). Inr problem))))"
| "evaluate_in_place (Transformed p t inner) =
     (case best_parameter p of
        None \<Rightarrow> Inl Null_deref
      | Some x \<Rightarrow>
          if evaluate_function p \<noteq> Some Evaluate_inner then Inl Null_deref
          else rbind (coco_evaluate_function inner x) (\<lambda>(y, inner).
            Inr (Transformed (p\<lparr>best_value := y\<rparr>) t inner)))"
| "evaluate_in_place (Basic p) = Inl Null_deref"

definition reset_counters :: "coco_problem_t \<Rightarrow> coco_problem_t" where
  "reset_counters = with_fields (\<lambda>p. p\<lparr>evaluations := 0, evaluations_constraints := 0\<rparr>)"

text \<open>
  The common part of the allocators: the direction is the gradient at the origin, the constraints are
  stacked below the objective function, the origin becomes the best parameter. The result contains the
  type of the objective function and the one of the constraints.
\<close>

definition stack_objective ::
    "string option \<Rightarrow> nat \<Rightarrow> nat \<Rightarrow> nat \<Rightarrow> nat \<Rightarrow> int \<Rightarrow> double list \<Rightarrow> double list \<Rightarrow> string \<Rightarrow> string
      \<Rightarrow> coco_problem_t \<Rightarrow> (coco_problem_t \<times> string \<times> string) result" where
  "stack_objective null_text function dimension instance number_of_linear_constraints rseed feasible_direction
       xopt id_template name_template problem =
     rbind (bbob_evaluate_gradient problem (zero dimension) feasible_direction) (\<lambda>feasible_direction.
     rbind (feasible_direction_set_length feasible_direction xopt dimension rseed) (\<lambda>feasible_direction.
     rbind (c_linear_cons_bbob_problem_allocate null_text function dimension instance
         number_of_linear_constraints id_template name_template feasible_direction) (\<lambda>problem_c.
     rbind (coco_problem_stacked_allocate problem problem_c
         (smallest_values_of_interest (fields problem_c)) (largest_values_of_interest (fields problem_c))) (\<lambda>stacked.
     case (best_parameter (fields stacked), problem_type (fields problem), problem_type (fields problem_c)) of
       (Some v, Some t, Some t_c) \<Rightarrow> Inr (set_best_parameter (zero dimension) stacked, t, t_c)
     | _ \<Rightarrow> Inl Null_deref))))"

definition set_combined_type :: "string \<Rightarrow> string \<Rightarrow> coco_problem_t \<Rightarrow> coco_problem_t result" where
  "set_combined_type t t_c problem =
     rbind (coco_problem_set_type ''%s_%s'' (t @ ''_'' @ t_c) (fields problem)) (\<lambda>p.
       Inr (with_fields (\<lambda>_. p) problem))"

text \<open>
  All allocators but the one of the linear slope: \<open>objective\<close> allocates the objective function,
  \<open>nonlinear\<close> are the transformations of the whole problem before the shift.
\<close>

definition constrained_allocate ::
    "bbob_constructor \<Rightarrow> (coco_problem_t \<Rightarrow> coco_problem_t result) \<Rightarrow>
      string option \<Rightarrow> nat \<Rightarrow> nat \<Rightarrow> nat \<Rightarrow> nat \<Rightarrow> int \<Rightarrow> double list \<Rightarrow> double list \<Rightarrow> string \<Rightarrow> string
      \<Rightarrow> coco_problem_t result" where
  "constrained_allocate objective nonlinear null_text function dimension instance number_of_linear_constraints
       rseed feasible_direction xopt id_template name_template =
     rbind (coco_allocate_vector dimension) (\<lambda>_.
     rbind (objective function dimension instance rseed id_template name_template) (\<lambda>problem.
     rbind (stack_objective null_text function dimension instance number_of_linear_constraints rseed
         feasible_direction xopt id_template name_template problem) (\<lambda>(problem, t, t_c).
     rbind (evaluate_in_place problem) (\<lambda>problem.
     rbind (nonlinear (reset_counters problem)) (\<lambda>problem.
     rbind (transform_vars_shift problem xopt False) (\<lambda>problem.
       set_combined_type t t_c problem))))))"

definition f_sphere_c_linear_cons_bbob_problem_allocate where
  "f_sphere_c_linear_cons_bbob_problem_allocate = constrained_allocate f_sphere_bbob_problem_allocate Inr"

definition f_ellipsoid_c_linear_cons_bbob_problem_allocate where
  "f_ellipsoid_c_linear_cons_bbob_problem_allocate =
     constrained_allocate f_ellipsoid_cons_bbob_problem_allocate transform_vars_oscillate"

definition f_ellipsoid_rotated_c_linear_cons_bbob_problem_allocate where
  "f_ellipsoid_rotated_c_linear_cons_bbob_problem_allocate =
     constrained_allocate f_ellipsoid_rotated_cons_bbob_problem_allocate transform_vars_oscillate"

definition f_discus_c_linear_cons_bbob_problem_allocate where
  "f_discus_c_linear_cons_bbob_problem_allocate =
     constrained_allocate f_discus_cons_bbob_problem_allocate transform_vars_oscillate"

definition f_bent_cigar_c_linear_cons_bbob_problem_allocate where
  "f_bent_cigar_c_linear_cons_bbob_problem_allocate =
     constrained_allocate f_bent_cigar_cons_bbob_problem_allocate
       (\<lambda>problem. transform_vars_asymmetric problem (Real (2 / 10)))"

definition f_different_powers_c_linear_cons_bbob_problem_allocate where
  "f_different_powers_c_linear_cons_bbob_problem_allocate =
     constrained_allocate f_different_powers_bbob_constrained_problem_allocate Inr"

definition f_rastrigin_c_linear_cons_bbob_problem_allocate where
  "f_rastrigin_c_linear_cons_bbob_problem_allocate =
     constrained_allocate f_rastrigin_cons_bbob_problem_allocate (\<lambda>problem.
       rbind (transform_vars_asymmetric problem (Real (2 / 10))) transform_vars_oscillate)"

definition f_rastrigin_rotated_c_linear_cons_bbob_problem_allocate where
  "f_rastrigin_rotated_c_linear_cons_bbob_problem_allocate =
     constrained_allocate f_rastrigin_rotated_cons_bbob_problem_allocate (\<lambda>problem.
       rbind (transform_vars_asymmetric problem (Real (2 / 10))) transform_vars_oscillate)"

text \<open>
  For the linear slope only the constraints are shifted, and the best value is the one at the shifted
  origin.
\<close>

definition f_linear_slope_c_linear_cons_bbob_problem_allocate ::
    "string option \<Rightarrow> nat \<Rightarrow> nat \<Rightarrow> nat \<Rightarrow> nat \<Rightarrow> int \<Rightarrow> double list \<Rightarrow> double list \<Rightarrow> string \<Rightarrow> string
      \<Rightarrow> coco_problem_t result" where
  "f_linear_slope_c_linear_cons_bbob_problem_allocate null_text function dimension instance
       number_of_linear_constraints rseed feasible_direction xopt id_template name_template =
     rbind (coco_allocate_vector dimension) (\<lambda>_.
     rbind (f_linear_slope_bbob_problem_allocate function dimension instance rseed id_template name_template) (\<lambda>problem.
     rbind (stack_objective null_text function dimension instance number_of_linear_constraints rseed
         feasible_direction xopt id_template name_template problem) (\<lambda>(problem, t, t_c).
     rbind (transform_vars_shift problem xopt True) (\<lambda>problem.
     rbind (evaluate_in_place problem) (\<lambda>problem.
       set_combined_type t t_c (reset_counters problem))))))"

section \<open>The suite\<close>

text \<open>
  The construction behind the call \<open>Constrained\<close> of \<open>Coco_Problem_Calls\<close>: the allocator, the factor of the
  objective function, and the templates, which depend on the name of the suite.
\<close>

fun cons_constructor where
  "cons_constructor C_sphere = (f_sphere_c_linear_cons_bbob_problem_allocate, 10)"
| "cons_constructor C_ellipsoid = (f_ellipsoid_c_linear_cons_bbob_problem_allocate, 1 / 10 ^ 4)"
| "cons_constructor C_linear_slope = (f_linear_slope_c_linear_cons_bbob_problem_allocate, 10)"
| "cons_constructor C_ellipsoid_rotated = (f_ellipsoid_rotated_c_linear_cons_bbob_problem_allocate, 1 / 10 ^ 4)"
| "cons_constructor C_discus = (f_discus_c_linear_cons_bbob_problem_allocate, 1 / 10 ^ 4)"
| "cons_constructor C_bent_cigar = (f_bent_cigar_c_linear_cons_bbob_problem_allocate, 1 / 10 ^ 4)"
| "cons_constructor C_different_powers = (f_different_powers_c_linear_cons_bbob_problem_allocate, 10 ^ 2)"
| "cons_constructor C_rastrigin = (f_rastrigin_c_linear_cons_bbob_problem_allocate, 10)"
| "cons_constructor C_rastrigin_rotated = (f_rastrigin_rotated_c_linear_cons_bbob_problem_allocate, 10)"

definition cons_prefix :: "string \<Rightarrow> string" where
  "cons_prefix suite_name =
     (if suite_name = ''bbob-constrained-active-only'' \<or> suite_name = ''bbob-constrained-no-disguise''
      then suite_name else ''bbob-constrained'')"

definition construct_constrained ::
    "string option \<Rightarrow> cons_allocator \<Rightarrow> string \<Rightarrow> nat \<Rightarrow> nat \<Rightarrow> nat \<Rightarrow> nat \<Rightarrow> int \<Rightarrow> coco_problem_t result" where
  "construct_constrained null_text a suite_name function dimension instance number_of_linear_constraints rseed =
     (case cons_constructor a of (constructor, factor) \<Rightarrow>
      rbind (coco_allocate_vector dimension) (\<lambda>feasible_direction.
      rbind (optimum (to_long (size_t (function + size_t (10000 * instance)))) dimension) (\<lambda>xopt.
      rbind (constructor null_text function dimension instance number_of_linear_constraints rseed
          feasible_direction xopt (cons_prefix suite_name @ ''_f%03lu_i%02lu_d%02lu'')
          (cons_prefix suite_name @ '' suite problem f%lu instance %lu in %luD'')) (\<lambda>problem.
        transform_obj_scale problem (Real factor)))))"

text \<open>The id and the name that \<open>suite_cons_bbob_get_problem\<close> gives to the problem.\<close>

definition name_in_cons_suite :: "string \<Rightarrow> nat \<Rightarrow> nat \<Rightarrow> nat \<Rightarrow> coco_problem_t \<Rightarrow> coco_problem_t result" where
  "name_in_cons_suite suite_name function dimension instance problem =
     (let ns = [function, instance, dimension] in
      rbind (coco_problem_set_id ''%s_f%03lu_i%02lu_d%02lu''
        (suite_name @ format_lu ''_f%03lu_i%02lu_d%02lu'' ns) (fields problem)) (\<lambda>p.
      rbind (coco_problem_set_name ''%s suite problem f%lu instance %lu in %luD''
        (suite_name @ format_lu '' suite problem f%lu instance %lu in %luD'' ns) p) (\<lambda>p.
        Inr (with_fields (\<lambda>_. p) problem))))"

text \<open>
  \<open>suite_cons_bbob_get_problem\<close> for the function, the dimension and the instance that the suite looks up.
\<close>

definition suite_cons_bbob_problem :: "string option \<Rightarrow> string \<Rightarrow> nat \<Rightarrow> nat \<Rightarrow> nat \<Rightarrow> coco_problem_t result" where
  "suite_cons_bbob_problem null_text suite_name function dimension instance =
     rbind (coco_get_cons_bbob_problem suite_name function dimension instance) (\<lambda>call.
       case call of
         Constrained a suite_name function dimension instance number_of_linear_constraints rseed \<Rightarrow>
           rbind (construct_constrained null_text a suite_name function dimension instance
               number_of_linear_constraints rseed)
             (name_in_cons_suite suite_name function dimension instance)
       | _ \<Rightarrow> Inl Null_deref)"

end
