(* ===== verification/Coco_Constraints.thy ===== *)
theory Coco_Constraints
  imports Coco_Constrained Coco_Solved_Steps
begin

text \<open>
  The linear constraints: their values at finite points, the allocation of one constraint and of a
  stack of them, the invariant of the loop over the constraints, and what the finished stack satisfies.
\<close>

chapter \<open>Values of constraints\<close>

text \<open>
  The meaning of the linear constraints on real points: a stack of constraints evaluates to the list of
  the affine functions \<open>constraint_value\<close>, whatever has been evaluated before.
\<close>

section \<open>Implemented constraints\<close>

text \<open>Like \<open>implements\<close>, for the constraint functions \<open>cs\<close>.\<close>

definition imposes :: "coco_problem_t \<Rightarrow> nat \<Rightarrow> (real list \<Rightarrow> real) list \<Rightarrow> bool" where
  "imposes p n cs \<longleftrightarrow> (\<forall>q x. erase q = erase p \<longrightarrow> length x = n \<longrightarrow>
     (\<exists>q'. call_evaluate_constraint q (map Real x) = Inr (map (\<lambda>c. Real (c x)) cs, q')
       \<and> erase q' = erase p \<and> fields q' = fields q))"

lemma imposes_erase: "erase p = erase q \<Longrightarrow> imposes p n cs \<longleftrightarrow> imposes q n cs"
  by (simp add: imposes_def)

lemma erase_Stacked:
  "erase q = Stacked r i1 i2 \<longleftrightarrow> (\<exists>p p1 p2. q = Stacked p p1 p2 \<and> behaviour p = r \<and> erase p1 = i1 \<and> erase p2 = i2)"
  by (cases q) auto

lemma behaviour_increment_constraint [simp]:
  "behaviour (problem_increment_evaluate_constraint p) = behaviour p"
  by (simp add: behaviour_def problem_increment_evaluate_constraint_def)

text \<open>The counted evaluation of the constraints.\<close>

lemma evaluate_imposes:
  assumes "imposes p n cs" "erase q = erase p" "length x = n" "0 < n"
    and "number_of_variables (fields q) = n" "evaluate_constraint (fields q) \<noteq> None"
  shows "\<exists>q'. evaluate_constraint_by (call_evaluate_constraint q) q (map Real x)
      = Inr (map (\<lambda>c. Real (c x)) cs, q') \<and> erase q' = erase p
      \<and> fields q' = problem_increment_evaluate_constraint (fields q)"
proof -
  obtain q' where q': "call_evaluate_constraint q (map Real x) = Inr (map (\<lambda>c. Real (c x)) cs, q')"
    "erase q' = erase p" "fields q' = fields q"
    using assms(1-3) unfolding imposes_def by blast
  have "check_point (fields q) (number_of_constraints (fields q)) (map Real x) = Inr None"
    using assms(3-5) by (intro check_point_finite) auto
  then have "evaluate_constraint_by (call_evaluate_constraint q) q (map Real x)
      = Inr (map (\<lambda>c. Real (c x)) cs, with_fields problem_increment_evaluate_constraint q')"
    using assms(6) by (simp add: evaluate_constraint_by_def q'(1))
  then show ?thesis using q'(2,3) by (simp add: erase_with_fields)
qed

section \<open>Stacks of linear constraints\<close>

text \<open>A constraint is its gradient, its shift and the norm of the gradient.\<close>

type_synonym linear = "real list \<times> real \<times> real"

definition constraint_value :: "linear \<Rightarrow> real list \<Rightarrow> real" where
  "constraint_value d x = (case d of (g, s, m) \<Rightarrow> rdot g x - s / m * rdot g g)"

definition layer_fields :: "nat \<Rightarrow> nat \<Rightarrow> constraint_pointer \<Rightarrow> coco_problem_s \<Rightarrow> bool" where
  "layer_fields n k c p \<longleftrightarrow> number_of_variables p = n \<and> 0 < n \<and> number_of_objectives p = 0
     \<and> number_of_constraints p = k \<and> evaluate_constraint p = Some c"

inductive constraint_stack :: "nat \<Rightarrow> coco_problem_t \<Rightarrow> linear list \<Rightarrow> bool" for n where
  single: "layer_fields n 1 Constraint_own p \<Longrightarrow> layer_fields n 1 Sum_variables b \<Longrightarrow> length g = n \<Longrightarrow> 0 < m \<Longrightarrow>
    constraint_stack n (Transformed p (Linear_constraint (map Real g) (Real s) (Real m)) (Basic b)) [(g, s, m)]"
| stacked: "constraint_stack n p1 ds \<Longrightarrow> constraint_stack n p2 [d] \<Longrightarrow>
    layer_fields n (Suc (length ds)) Constraint_stacked p \<Longrightarrow> constraint_stack n (Stacked p p1 p2) (ds @ [d])"

lemma layer_behaviour: "behaviour p = behaviour q \<Longrightarrow> layer_fields n k c p \<longleftrightarrow> layer_fields n k c q"
  using behaviour_eqD [of p q] by (simp add: layer_fields_def)

lemma constraint_stack_fields:
  "constraint_stack n q ds \<Longrightarrow> ds \<noteq> [] \<and> (\<exists>c. layer_fields n (length ds) c (fields q))"
  by (induction rule: constraint_stack.induct) auto

lemma constraint_stack_fieldsD:
  assumes "constraint_stack n q ds"
  shows "number_of_variables (fields q) = n" "0 < n" "number_of_objectives (fields q) = 0"
    "number_of_constraints (fields q) = length ds" "evaluate_constraint (fields q) \<noteq> None" "ds \<noteq> []"
  using constraint_stack_fields [OF assms] by (auto simp: layer_fields_def)

lemma constraint_stack_erase:
  "constraint_stack n q ds \<Longrightarrow> erase q' = erase q \<Longrightarrow> constraint_stack n q' ds"
proof (induction arbitrary: q' rule: constraint_stack.induct)
  case (single p b g m s)
  from single.prems obtain p' b' where "q' = Transformed p' (Linear_constraint (map Real g) (Real s) (Real m)) (Basic b')"
    "behaviour p' = behaviour p" "behaviour b' = behaviour b"
    by (auto simp: erase_Transformed erase_Basic)
  with single.hyps show ?case
    by (simp add: constraint_stack.single layer_behaviour [OF \<open>behaviour p' = behaviour p\<close>]
        layer_behaviour [OF \<open>behaviour b' = behaviour b\<close>])
next
  case (stacked p1 ds p2 d p)
  from stacked.prems obtain p' q1 q2 where q': "q' = Stacked p' q1 q2"
    "behaviour p' = behaviour p" "erase q1 = erase p1" "erase q2 = erase p2"
    by (auto simp: erase_Stacked)
  with stacked.hyps(3) have "layer_fields n (Suc (length ds)) Constraint_stacked p'"
    by (simp add: layer_behaviour [OF q'(2)])
  then show ?case using stacked.IH q' constraint_stack.stacked by blast
qed

lemma constraint_stack_gradient_length:
  "constraint_stack n q ds \<Longrightarrow> \<forall>(g, s, m) \<in> set ds. length g = n \<and> 0 < m"
  by (induction rule: constraint_stack.induct) auto

section \<open>Evaluation\<close>

lemma linear_sum:
  assumes "length g = n" "length x = n" "m \<noteq> 0"
  shows "accumulate (Real 0) [0..<n] (\<lambda>i. linear_x (map Real g) (Real s) (Real m) n (map Real x) ! i)
    = Real (constraint_value (g, s, m) x)"
proof -
  have "accumulate (Real 0) [0..<n] (\<lambda>i. linear_x (map Real g) (Real s) (Real m) n (map Real x) ! i)
      = Real (0 + (\<Sum>i = 0..<n. g ! i * (x ! i - s / m * g ! i)))"
    using assms by (intro accumulate_upt) (simp add: linear_x_def)
  also have "(\<Sum>i = 0..<n. g ! i * (x ! i - s / m * g ! i)) = constraint_value (g, s, m) x"
    using assms by (simp add: constraint_value_def rdot_def right_diff_distrib sum_subtractf sum_distrib_left
        atLeast0LessThan mult.left_commute)
  finally show ?thesis by simp
qed

lemma length_linear_x [simp]: "length (linear_x g s m n x) = n"
  by (simp add: linear_x_def Let_def)

lemma linear_x_Real:
  assumes "length g = n" "length x = n" "m \<noteq> 0"
  shows "linear_x (map Real g) (Real s) (Real m) n (map Real x)
    = map Real (map (\<lambda>i. g ! i * (x ! i - s / m * g ! i)) [0..<n])"
  using assms by (simp add: linear_x_def)

lemma basic_imposes:
  assumes "layer_fields n 1 Sum_variables b"
  shows "imposes (Basic b) n [\<lambda>x. \<Sum>i < n. x ! i]"
  unfolding imposes_def
proof (intro allI impI)
  fix q and x :: "real list" assume q: "erase q = erase (Basic b)" and x: "length x = n"
  then obtain b' where b': "q = Basic b'" "behaviour b' = behaviour b" by (auto simp: erase_Basic)
  have l: "layer_fields n 1 Sum_variables b'" using assms by (simp add: layer_behaviour [OF b'(2)])
  have "accumulate (Real 0) [0..<n] (\<lambda>i. map Real x ! i) = Real (0 + (\<Sum>i = 0..<n. x ! i))"
    using x by (intro accumulate_upt) simp
  then have "call_evaluate_constraint q (map Real x) = Inr ([Real (\<Sum>i < n. x ! i)], q)"
    using b'(1) l x by (simp add: layer_fields_def c_sum_variables_evaluate_def atLeast0LessThan)
  then show "\<exists>q'. call_evaluate_constraint q (map Real x) = Inr (map (\<lambda>c. Real (c x)) [\<lambda>x. \<Sum>i < n. x ! i], q')
      \<and> erase q' = erase (Basic b) \<and> fields q' = fields q"
    using q by simp
qed

lemma single_imposes:
  assumes "layer_fields n 1 Constraint_own p" "layer_fields n 1 Sum_variables b" "length g = n" "0 < m"
  shows "imposes (Transformed p (Linear_constraint (map Real g) (Real s) (Real m)) (Basic b)) n
    [constraint_value (g, s, m)]"
  unfolding imposes_def
proof (intro allI impI)
  let ?t = "Linear_constraint (map Real g) (Real s) (Real m)"
  fix q and x :: "real list"
  assume q: "erase q = erase (Transformed p ?t (Basic b))" and x: "length x = n"
  then obtain p' b' where q': "q = Transformed p' ?t (Basic b')" and e: "behaviour p' = behaviour p" "behaviour b' = behaviour b"
    by (auto simp: erase_Transformed erase_Basic)
  have l: "layer_fields n 1 Constraint_own p'" "layer_fields n 1 Sum_variables b'"
    using assms(1,2) by (simp_all add: layer_behaviour [OF e(1)] layer_behaviour [OF e(2)])
  define z where "z = map (\<lambda>i. g ! i * (x ! i - s / m * g ! i)) [0..<n]"
  have z: "linear_x (map Real g) (Real s) (Real m) n (map Real x) = map Real z" "length z = n"
    using linear_x_Real [of g n x m s] assms(3,4) x by (simp_all add: z_def)
  obtain i where i: "evaluate_constraint_by (call_evaluate_constraint (Basic b')) (Basic b') (map Real z)
      = Inr ([Real (\<Sum>i < n. z ! i)], i)" "erase i = erase (Basic b)"
    using evaluate_imposes [OF basic_imposes [OF assms(2)], of "Basic b'" z] e(2) z(2) l(2)
    by (auto simp: layer_fields_def)
  have "(\<Sum>i < n. z ! i) = constraint_value (g, s, m) x"
    using assms(3) x by (simp add: z_def constraint_value_def rdot_def right_diff_distrib sum_subtractf
        sum_distrib_left mult.left_commute)
  then have "call_evaluate_constraint q (map Real x) = Inr ([Real (constraint_value (g, s, m) x)], Transformed p' ?t i)"
    using l(1) x i(1) z(1)
    by (simp add: q' Let_def layer_fields_def c_linear_single_evaluate_def del: call_evaluate_constraint.simps(1))
  then show "\<exists>q'. call_evaluate_constraint q (map Real x) = Inr (map (\<lambda>c. Real (c x)) [constraint_value (g, s, m)], q')
      \<and> erase q' = erase (Transformed p ?t (Basic b)) \<and> fields q' = fields q"
    using i(2) e(1) q' by simp
qed

lemma stacked_imposes:
  assumes "cs1 \<noteq> [] \<longrightarrow> imposes p1 n cs1" "cs2 \<noteq> [] \<longrightarrow> imposes p2 n cs2" "0 < n"
    and "number_of_variables (fields p1) = n" "number_of_variables (fields p2) = n"
    and "number_of_constraints (fields p1) = length cs1" "number_of_constraints (fields p2) = length cs2"
    and "cs1 \<noteq> [] \<longrightarrow> evaluate_constraint (fields p1) \<noteq> None" "cs2 \<noteq> [] \<longrightarrow> evaluate_constraint (fields p2) \<noteq> None"
    and "evaluate_constraint p = Some Constraint_stacked" "number_of_constraints p = length cs1 + length cs2"
  shows "imposes (Stacked p p1 p2) n (cs1 @ cs2)"
  unfolding imposes_def
proof (intro allI impI)
  fix q and x :: "real list"
  assume q: "erase q = erase (Stacked p p1 p2)" and x: "length x = n"
  then obtain p' q1 q2 where q': "q = Stacked p' q1 q2" and e: "behaviour p' = behaviour p"
    "erase q1 = erase p1" "erase q2 = erase p2"
    by (auto simp: erase_Stacked)
  note b = behaviour_eqD [OF e(1)] behaviour_eqD [OF erase_fields [OF e(2)]] behaviour_eqD [OF erase_fields [OF e(3)]]
  define eval where "eval = (\<lambda>r. if number_of_constraints (fields r) > 0
    then evaluate_constraint_by (call_evaluate_constraint r) r (map Real x) else Inr ([], r))"
  have part: "\<exists>i. eval r = Inr (map (\<lambda>c. Real (c x)) cs, i) \<and> erase i = erase s"
    if "cs \<noteq> [] \<longrightarrow> imposes s n cs" "erase r = erase s" "number_of_variables (fields s) = n"
      "number_of_constraints (fields s) = length cs" "cs \<noteq> [] \<longrightarrow> evaluate_constraint (fields s) \<noteq> None" for r s cs
  proof (cases "cs = []")
    case True
    then show ?thesis using that behaviour_eqD(5) [OF erase_fields [OF that(2)]] by (auto simp: eval_def)
  next
    case False
    note b = behaviour_eqD [OF erase_fields [OF that(2)]]
    show ?thesis using evaluate_imposes [OF _ that(2) x assms(3)] False that(1,3-5)
      by (auto simp: eval_def b(2,3,5))
  qed
  obtain i1 where i1: "eval q1 = Inr (map (\<lambda>c. Real (c x)) cs1, i1)" "erase i1 = erase p1"
    using part [OF assms(1) e(2)] assms by blast
  obtain i2 where i2: "eval q2 = Inr (map (\<lambda>c. Real (c x)) cs2, i2)" "erase i2 = erase p2"
    using part [OF assms(2) e(3)] assms by blast
  have c: "evaluate_constraint p' = Some Constraint_stacked" "number_of_constraints p' = number_of_constraints (fields q1)
      + number_of_constraints (fields q2)"
    using assms b by simp_all
  have "call_evaluate_constraint q (map Real x)
      = rbind (eval q1) (\<lambda>(y1, p1). rbind (eval q2) (\<lambda>(y2, p2). Inr (y1 @ y2, Stacked p' p1 p2)))"
    using c by (simp add: q' eval_def)
  then have "call_evaluate_constraint q (map Real x) = Inr (map (\<lambda>c. Real (c x)) (cs1 @ cs2), Stacked p' i1 i2)"
    using i1(1) i2(1) by simp
  then show "\<exists>q'. call_evaluate_constraint q (map Real x) = Inr (map (\<lambda>c. Real (c x)) (cs1 @ cs2), q')
      \<and> erase q' = erase (Stacked p p1 p2) \<and> fields q' = fields q"
    using i1(2) i2(2) e(1) q' by simp
qed

lemma stack_imposes: "constraint_stack n q ds \<Longrightarrow> imposes q n (map constraint_value ds)"
proof (induction rule: constraint_stack.induct)
  case (single p b g m s)
  then show ?case using single_imposes by simp
next
  case (stacked p1 ds p2 d p)
  note f1 = constraint_stack_fieldsD [OF stacked.hyps(1)] and f2 = constraint_stack_fieldsD [OF stacked.hyps(2)]
  from stacked_imposes [of "map constraint_value ds" p1 n "[constraint_value d]" p2 p] stacked.IH f1 f2 stacked.hyps(3)
  show ?case by (auto simp: layer_fields_def)
qed

section \<open>The data of a constraint\<close>

lemma constraint_data_stack:
  "constraint_stack n q ds \<Longrightarrow> k < length ds \<Longrightarrow>
     constraint_data q k = (case ds ! k of (g, s, m) \<Rightarrow> Some (map Real g, Real s, Real m))"
proof (induction arbitrary: k rule: constraint_stack.induct)
  case (stacked p1 ds p2 d p)
  then show ?case using constraint_stack_fieldsD(4) [OF stacked.hyps(1)]
    by (auto simp: nth_append less_Suc_eq)
qed simp

lemma set_gradient_fields [simp]: "fields (set_gradient q k g) = fields q"
  by (induction q k g rule: set_gradient.induct) simp_all

lemma set_gradient_stack:
  "constraint_stack n q ds \<Longrightarrow> k < length ds \<Longrightarrow> length g = n \<Longrightarrow>
     constraint_stack n (set_gradient q k (map Real g)) (ds[k := (g, snd (ds ! k))])"
proof (induction arbitrary: k rule: constraint_stack.induct)
  case (single p b g' m s)
  then show ?case by (auto intro: constraint_stack.single)
next
  case (stacked p1 ds p2 d p)
  note f1 = constraint_stack_fieldsD(4) [OF stacked.hyps(1)]
  show ?case
  proof (cases "k < length ds")
    case True
    then show ?thesis using stacked f1
      by (auto simp: nth_append list_update_append intro!: constraint_stack.stacked)
  next
    case False
    then have "k = length ds" using stacked.prems by simp
    then show ?thesis using stacked.IH(2) [of 0] stacked f1
      by (auto simp: nth_append list_update_append intro!: constraint_stack.stacked)
  qed
qed

chapter \<open>Allocation\<close>

text \<open>
  The allocation of one linear constraint and of a stack of them succeeds: what a single constraint
  looks like, and what stacking it gives. The text that the library writes for the missing name of the
  sum of the variables has to be short.
\<close>

section \<open>Vectors\<close>

lemma rdot_self_nonneg: "0 \<le> rdot g g"
  by (auto simp: rdot_def intro: sum_nonneg)

lemma rdot_self_pos:
  assumes "\<exists>v \<in> set g. v \<noteq> 0" shows "0 < rdot g g"
proof -
  obtain i where "i < length g" "g ! i \<noteq> 0" using assms by (auto simp: in_set_conv_nth)
  then have "0 < g ! i * g ! i" "g ! i * g ! i \<le> rdot g g"
    by (auto simp: rdot_def mult_less_0_iff zero_less_mult_iff intro!: member_le_sum)
  then show ?thesis by linarith
qed

lemma vector_norm_Real: "vector_norm (map Real g) = Real (sqrt (rdot g g))"
proof -
  have "accumulate (Real 0) [0..<length g] (\<lambda>i. map Real g ! i * map Real g ! i) = Real (0 + (\<Sum>i = 0..<length g. g ! i * g ! i))"
    by (intro accumulate_upt) simp
  then show ?thesis using rdot_self_nonneg [of g] by (simp add: vector_norm_def rdot_def atLeast0LessThan)
qed

lemma vector_scale_Real:
  "d \<noteq> 0 \<Longrightarrow> vector_scale (map Real x) (Real a) (Real d) = map Real (map (\<lambda>v. a / d * v) x)"
  by (simp add: vector_scale_def mult.commute)

lemma rdot_scaled: "rdot (map (\<lambda>v. a * v) g) x = a * rdot g x"
  by (simp add: rdot_def sum_distrib_left mult.assoc)

lemma rdot_scaled_right: "length x = length g \<Longrightarrow> rdot g (map (\<lambda>v. a * v) x) = a * rdot g x"
  by (simp add: rdot_def sum_distrib_left mult.left_commute)

lemma rdot_minus: "rdot (map uminus g) x = - rdot g x" "rdot g (map uminus g) = - rdot g g"
  by (simp_all add: rdot_def sum_negf)

section \<open>One constraint\<close>

definition plain_fields :: "nat \<Rightarrow> coco_problem_s \<Rightarrow> bool" where
  "plain_fields n p \<longleftrightarrow> smallest_values_of_interest p = replicate n (Real (- 5))
     \<and> largest_values_of_interest p = replicate n (Real 5) \<and> number_of_integer_variables p = 0"

text \<open>The stack after its allocation: it has an id, a name and a type, and the initial solution \<open>fd\<close>.\<close>

definition constraint_problem :: "nat \<Rightarrow> real list \<Rightarrow> coco_problem_t \<Rightarrow> linear list \<Rightarrow> bool" where
  "constraint_problem n fd q ds \<longleftrightarrow> constraint_stack n q ds \<and> plain_fields n (fields q)
     \<and> (\<exists>s. problem_id (fields q) = Some s \<and> length s \<le> 100)
     \<and> (\<exists>s. problem_name (fields q) = Some s \<and> length s \<le> 202)
     \<and> initial_solution (fields q) = Some (map Real fd)
     \<and> (\<exists>t. problem_type (fields q) = Some t \<and> length t \<le> 20)"

definition sum_problem :: "nat \<Rightarrow> coco_problem_s \<Rightarrow> bool" where
  "sum_problem n b \<longleftrightarrow> layer_fields n 1 Sum_variables b \<and> plain_fields n b \<and> problem_name b = None
     \<and> initial_solution b = None \<and> best_parameter b = Some (replicate n NaN) \<and> best_value b = [NaN]
     \<and> nadir_value b = None"

lemma sum_variables_ok:
  assumes "0 < n" "n < 10 ^ 20"
  shows "\<exists>b. c_sum_variables_allocate n = Inr (Basic b) \<and> sum_problem n b"
proof -
  have "coco_problem_id_is_fine (''linearconstraint_d'' @ pad 2 (show_nat n))"
    using digits_fine by (simp add: coco_problem_id_is_fine_def isalpha_def)
  moreover have "length (pad 2 (show_nat n)) \<le> 22" using length_show_nat [OF assms(2)] by (simp add: length_pad)
  ultimately show ?thesis using assms(1)
    by (simp add: c_sum_variables_allocate_def coco_problem_allocate_def coco_allocate_vector_def
        coco_problem_set_id_def coco_vstrdupf_def COCO_VSTRDUPF_BUFLEN_def sum_problem_def layer_fields_def
        plain_fields_def)
qed

lemma linear_transform_ok:
  assumes "sum_problem n b" "length g = n" "\<exists>v \<in> set g. v \<noteq> 0" "length s0 \<le> 300"
  shows "\<exists>p. c_linear_transform (Some s0) (Basic b) (map Real g) (Real s)
      = Inr (Transformed p (Linear_constraint (map Real g) (Real s) (Real (sqrt (rdot g g)))) (Basic b))
    \<and> layer_fields n 1 Constraint_own p \<and> plain_fields n p"
proof -
  have "0 < sqrt (rdot g g)" using rdot_self_pos [OF assms(3)] by simp
  then show ?thesis using assms(1,2,4)
    by (simp add: c_linear_transform_def copy_vector_def vector_norm_Real transformed_allocate_unnamed_def
        coco_problem_duplicate_def coco_problem_allocate_def coco_allocate_vector_def copy_optional_def
        coco_problem_set_name_def coco_vstrdupf_def COCO_VSTRDUPF_BUFLEN_def own_constraint_def
        sum_problem_def layer_fields_def plain_fields_def)
qed

text \<open>Turning a constraint around.\<close>

definition turned :: "linear \<Rightarrow> real list \<Rightarrow> linear" where
  "turned d x = (case d of (g, s, m) \<Rightarrow> if 0 < constraint_value d x then (map uminus g, s, m) else d)"

lemma turned_feasible:
  assumes "length g = length x" "0 \<le> s" "m = sqrt (rdot g g)"
  shows "constraint_value (turned (g, s, m) x) x \<le> 0"
proof -
  define k where "k = s / m * rdot g g"
  have "0 \<le> k" using assms rdot_self_nonneg [of g] by (simp add: k_def)
  moreover have "constraint_value (g, s, m) x = rdot g x - k"
    "constraint_value (map uminus g, s, m) x = - rdot g x - k"
    by (simp_all add: constraint_value_def rdot_minus k_def)
  ultimately show ?thesis by (simp add: turned_def)
qed

lemma guarantee_feasible_ok:
  assumes "layer_fields n 1 Constraint_own p" "plain_fields n p" "layer_fields n 1 Sum_variables b"
    and "length g = n" "0 < m" "length fd = n"
  shows "\<exists>q. c_guarantee_feasible_point (Transformed p (Linear_constraint (map Real g) (Real s) (Real m)) (Basic b)) (map Real fd)
      = Inr q \<and> constraint_stack n q [turned (g, s, m) fd] \<and> plain_fields n (fields q)
      \<and> initial_solution (fields q) = Some (map Real fd)"
proof -
  let ?t = "Linear_constraint (map Real g) (Real s) (Real m)" and ?d = "(g, s, m)"
  let ?q = "Transformed p ?t (Basic b)"
  have st: "constraint_stack n ?q [?d]" using assms by (intro constraint_stack.single)
  note f = constraint_stack_fieldsD [OF st]
  obtain q' where q': "evaluate_constraint_by (call_evaluate_constraint ?q) ?q (map Real fd)
      = Inr ([Real (constraint_value ?d fd)], q')" "erase q' = erase ?q"
      "fields q' = problem_increment_evaluate_constraint (fields ?q)"
    using evaluate_imposes [OF stack_imposes [OF st] refl assms(6)] f by auto
  from q'(2) obtain p' b' where p': "q' = Transformed p' ?t (Basic b')" "behaviour p' = behaviour p" "behaviour b' = behaviour b"
    by (auto simp: erase_Transformed erase_Basic)
  have l: "layer_fields n 1 Constraint_own p'" "layer_fields n 1 Sum_variables b'"
    using assms(1,3) by (simp_all add: layer_behaviour [OF p'(2)] layer_behaviour [OF p'(3)])
  define g' where "g' = (if 0 < constraint_value ?d fd then map uminus g else g)"
  have g': "turned ?d fd = (g', s, m)" "length g' = n" using assms(4) by (simp_all add: turned_def g'_def)
  have "(if Real 0 < Real (constraint_value ?d fd) then map (\<lambda>v. v * Real (- 1)) (map Real g) else map Real g) = map Real g'"
    by (simp add: g'_def)
  then have "c_guarantee_feasible_point ?q (map Real fd)
      = Inr (Transformed (p'\<lparr>initial_solution := Some (map Real fd)\<rparr>) (Linear_constraint (map Real g') (Real s) (Real m)) (Basic b'))"
    using q'(1) p'(1) l(1) assms(1,6) f
    by (simp add: c_guarantee_feasible_point_def coco_evaluate_constraint_def copy_vector_def layer_fields_def)
  moreover have "constraint_stack n (Transformed (p'\<lparr>initial_solution := Some (map Real fd)\<rparr>)
      (Linear_constraint (map Real g') (Real s) (Real m)) (Basic b')) [turned ?d fd]"
    unfolding g' using l g' assms(5) by (intro constraint_stack.single) (simp_all add: layer_fields_def)
  moreover have "plain_fields n p'"
    using assms(2) behaviour_eqD [OF p'(2)] by (simp add: plain_fields_def)
  ultimately show ?thesis by (auto simp: plain_fields_def)
qed

section \<open>The allocation of one constraint\<close>

definition templates_ok :: "string \<Rightarrow> string \<Rightarrow> nat list \<Rightarrow> bool" where
  "templates_ok id_template name_template ns \<longleftrightarrow> length id_template < 200 \<and> length name_template < 200
     \<and> length (format_lu id_template ns) \<le> 100 \<and> length (format_lu name_template ns) \<le> 150
     \<and> coco_problem_id_is_fine (format_lu id_template ns)"

text \<open>
  The random numbers of constraint \<open>k\<close>: they are finite and not all zero.
\<close>

definition constraint_normals :: "nat \<Rightarrow> nat \<Rightarrow> nat \<Rightarrow> nat \<Rightarrow> double list" where
  "constraint_normals f i k n = random_normals n (snd (coco_random_uniform (coco_random_new
     (word_of_nat (f + 10000 * i + 50000 * k)))))"

definition draws_ok :: "nat \<Rightarrow> nat \<Rightarrow> nat \<Rightarrow> nat \<Rightarrow> bool" where
  "draws_ok f i n k \<longleftrightarrow> (\<exists>zs. constraint_normals f i k n = map Real zs \<and> (\<exists>z \<in> set zs. z \<noteq> 0))"

definition setting_ok :: "stack_setting \<Rightarrow> nat \<Rightarrow> real list \<Rightarrow> bool" where
  "setting_ok s n fd \<longleftrightarrow> (\<exists>s0. set_null_text s = Some s0 \<and> length s0 \<le> 300) \<and> set_dimension s = n \<and> 0 < n \<and> n < 10 ^ 20
     \<and> set_function s < 10 ^ 20 \<and> set_instance s < 10 ^ 20
     \<and> templates_ok (set_id_template s) (set_name_template s) [set_function s, set_instance s, set_dimension s]
     \<and> (\<exists>f1 > 0. set_factor1 s = Real f1) \<and> set_feasible_direction s = map Real fd \<and> length fd = n"

lemma length_random_normals [simp]: "length (random_normals n r) = n"
  by (induction n arbitrary: r) (simp_all split: prod.split)

lemma name_constraint_ok:
  assumes "constraint_stack n q ds" "plain_fields n (fields q)" "initial_solution (fields q) = Some (map Real fd)"
    and "templates_ok id_template name_template ns" "length ptype \<le> 20"
  shows "\<exists>q'. name_constraint id_template name_template ptype ns q = Inr q' \<and> constraint_problem n fd q' ds
    \<and> problem_type (fields q') = Some ptype"
proof -
  let ?p = "(fields q)\<lparr>problem_id := Some (format_lu id_template ns),
    problem_name := Some (format_lu name_template ns), problem_type := Some ptype\<rparr>"
  have "name_constraint id_template name_template ptype ns q = Inr (with_fields (\<lambda>_. ?p) q)"
    using assms(4,5) by (simp add: name_constraint_def coco_problem_set_id_def coco_problem_set_name_def
        coco_problem_set_type_def coco_vstrdupf_def COCO_VSTRDUPF_BUFLEN_def templates_ok_def)
  moreover have "erase (with_fields (\<lambda>_. ?p) q) = erase q" by (cases q) (simp_all add: behaviour_def)
  then have "constraint_stack n (with_fields (\<lambda>_. ?p) q) ds" using constraint_stack_erase [OF assms(1)] by simp
  ultimately show ?thesis using assms(2-5)
    by (simp add: constraint_problem_def plain_fields_def templates_ok_def)
qed

lemma uniform_nonneg:
  "random_ok r \<Longrightarrow> random_ok (snd (coco_random_uniform r)) \<and> 0 \<le> fst (coco_random_uniform r) \<and> fst (coco_random_uniform r) \<le> 1"
  using coco_random_uniform_ok [of r "fst (coco_random_uniform r)" "snd (coco_random_uniform r)"] by simp

text \<open>The gradient \<open>g\<close>: a positive multiple of the given one, or the random one.\<close>

lemma single_ok:
  assumes s: "setting_ok s n fd" and shift: "0 \<le> shift"
    and gradient: "gradient = Some (map Real g0) \<and> length g0 = n \<and> (\<exists>v \<in> set g0. v \<noteq> 0)
      \<or> gradient = None \<and> draws_ok (set_function s) (set_instance s) n k"
  shows "\<exists>q g a. 0 < a \<and> single_constraint s k gradient (Real shift) = Inr (q, map_option (\<lambda>_. map Real g) gradient)
    \<and> (gradient \<noteq> None \<longrightarrow> g = map (\<lambda>v. a * v) g0) \<and> length g = n \<and> (\<exists>v \<in> set g. v \<noteq> 0)
    \<and> constraint_problem n fd q [turned (g, shift, sqrt (rdot g g)) fd] \<and> problem_type (fields q) = Some ''linear''"
proof -
  obtain s0 f1 where s0: "set_null_text s = Some s0" "length s0 \<le> 300" and f1: "set_factor1 s = Real f1" "0 < f1"
    and n: "set_dimension s = n" "0 < n" "n < 10 ^ 20" "set_feasible_direction s = map Real fd" "length fd = n"
    and t: "templates_ok (set_id_template s) (set_name_template s) [set_function s, set_instance s, n]"
    using s by (auto simp: setting_ok_def)
  obtain b where b: "c_sum_variables_allocate n = Inr (Basic b)" "sum_problem n b"
    using sum_variables_ok [OF n(2,3)] by blast
  define seed :: "32 word" where "seed = word_of_nat (set_function s + 10000 * set_instance s + 50000 * k)"
  obtain u r where ur: "coco_random_uniform (coco_random_new seed) = (u, r)" by fastforce
  have f2: "0 < f1 * 100 powr u" using f1(2) by simp
  define a where "a = (if gradient = None then 1 else f1 * 100 powr u / sqrt (rdot g0 g0))"
  obtain zs where zs: "gradient = None \<longrightarrow>
      constraint_normals (set_function s) (set_instance s) k n = map Real zs \<and> (\<exists>z \<in> set zs. z \<noteq> 0)"
    using gradient by (auto simp: draws_ok_def)
  define g where "g = (if gradient = None then map (\<lambda>z. f1 * z * 100 powr u / sqrt (real n)) zs else map (\<lambda>v. a * v) g0)"
  have normals: "random_normals n r = map Real zs" "\<exists>z \<in> set zs. z \<noteq> 0" "length zs = n" if "gradient = None"
  proof -
    show "random_normals n r = map Real zs" "\<exists>z \<in> set zs. z \<noteq> 0"
      using that zs ur by (simp_all add: constraint_normals_def seed_def)
    from \<open>random_normals n r = map Real zs\<close> show "length zs = n" by (metis length_map length_random_normals)
  qed
  have given: "gradient = Some (map Real g0)" "length g0 = n" "0 < sqrt (rdot g0 g0)" "\<exists>v \<in> set g0. v \<noteq> 0" if "gradient \<noteq> None"
    using that gradient rdot_self_pos [of g0] by auto
  have "0 < a" using f2 given by (auto simp: a_def)
  have g: "length g = n" "\<exists>v \<in> set g. v \<noteq> 0"
    using normals(2,3) given \<open>0 < a\<close> f1(2) n(2) by (auto simp: g_def)
  have scaled: "map_option (\<lambda>G. vector_scale G (Real f1 * dpow (Real 100) (Real u)) (vector_norm G)) gradient
      = map_option (\<lambda>_. map Real g) gradient"
    using given by (cases gradient) (auto simp: vector_norm_Real vector_scale_Real g_def a_def)
  have "map (\<lambda>z. ddiv (Real f1 * z * dpow (Real 100) (Real u)) (dsqrt (Real (real n)))) (random_normals n r) = map Real g"
    if "gradient = None"
    using that normals [OF that] n(2) by (simp add: g_def)
  then have chosen: "(case map_option (\<lambda>_. map Real g) gradient of Some G \<Rightarrow> G | None \<Rightarrow>
      map (\<lambda>z. ddiv (Real f1 * z * dpow (Real 100) (Real u)) (dsqrt (Real (real n)))) (random_normals n r)) = map Real g"
    by (cases gradient) simp_all
  obtain p where p: "c_linear_transform (Some s0) (Basic b) (map Real g) (Real shift)
      = Inr (Transformed p (Linear_constraint (map Real g) (Real shift) (Real (sqrt (rdot g g)))) (Basic b))"
    "layer_fields n 1 Constraint_own p" "plain_fields n p"
    using linear_transform_ok [OF b(2) g s0(2)] by blast
  have "0 < sqrt (rdot g g)" using rdot_self_pos [OF g(2)] by simp
  then obtain q where q: "c_guarantee_feasible_point (Transformed p (Linear_constraint (map Real g) (Real shift)
      (Real (sqrt (rdot g g)))) (Basic b)) (map Real fd) = Inr q" "constraint_stack n q [turned (g, shift, sqrt (rdot g g)) fd]"
    "plain_fields n (fields q)" "initial_solution (fields q) = Some (map Real fd)"
    using guarantee_feasible_ok [OF p(2,3) _ g(1) _ n(5), of b "sqrt (rdot g g)" shift] b(2)
    unfolding sum_problem_def by blast
  obtain q' where q': "name_constraint (set_id_template s) (set_name_template s) ''linear''
      [set_function s, set_instance s, n] q = Inr q'" "constraint_problem n fd q' [turned (g, shift, sqrt (rdot g g)) fd]"
    "problem_type (fields q') = Some ''linear''"
    using name_constraint_ok [OF q(2-4) t, of "''linear''"] by auto
  have "single_constraint s k gradient (Real shift) = Inr (q', map_option (\<lambda>_. map Real g) gradient)"
    unfolding single_constraint_def c_linear_single_cons_bbob_problem_allocate_def n(1) b(1) rbind_simps
      seed_def [symmetric] ur Let_def prod.case f1(1) scaled chosen s0(1) p(1) n(4) q(1) q'(1) ..
  moreover have "gradient \<noteq> None \<longrightarrow> g = map (\<lambda>v. a * v) g0" by (simp add: g_def)
  ultimately show ?thesis using \<open>0 < a\<close> g q'(2,3) by blast
qed

section \<open>Stacking\<close>

lemma stacked_id:
  "format_lu ''bbob-constrained_f%02lu_i%02lu_d%02lu'' [f, i, d] = ''bbob-constrained_f'' @ pad 2 (show_nat f) @ ''_i''
     @ pad 2 (show_nat i) @ ''_d'' @ pad 2 (show_nat d)"
  by (simp add: format_lu_steps)

lemma length_strconcat: "length (coco_strconcat a b) \<le> length a + length b"
proof -
  have "coco_strconcat a b = takeWhile (\<lambda>c. c \<noteq> NUL) ((a @ b) @ [NUL])"
    by (simp add: coco_strconcat_def)
  also have "\<dots> = takeWhile (\<lambda>c. c \<noteq> NUL) (a @ b)" by (rule takeWhile_tail) simp
  finally show ?thesis using length_takeWhile_le [of "\<lambda>c. c \<noteq> NUL" "a @ b"] by simp
qed

text \<open>Stacking a problem with a stack of constraints; an objective function is stacked the same way.\<close>

lemma stacked_allocate_ok:
  assumes q2: "constraint_problem n fd q2 ds2" "length fd = n"
    and q1: "number_of_variables (fields q1) = n" "problem_id (fields q1) = Some id1" "problem_name (fields q1) = Some name1"
      "number_of_integer_variables (fields q1) = 0" "number_of_objectives (fields q1) \<le> 1"
  shows "\<exists>p s. coco_problem_stacked_allocate q1 q2 (smallest_values_of_interest (fields q2)) (largest_values_of_interest (fields q2))
      = Inr (Stacked p q1 q2) \<and> evaluate_function p = Some Evaluate_stacked \<and> evaluate_constraint p = Some Constraint_stacked
    \<and> number_of_variables p = n \<and> number_of_objectives p = number_of_objectives (fields q1)
    \<and> number_of_constraints p = number_of_constraints (fields q1) + length ds2 \<and> plain_fields n p
    \<and> initial_solution p = Some (map Real fd) \<and> best_value p = [Real (- FLT_MAX)]
    \<and> best_parameter p = Some (replicate n NaN) \<and> nadir_value p = None
    \<and> problem_id p = Some s \<and> length s \<le> length id1 + 102
    \<and> (\<exists>s. problem_name p = Some s \<and> length s \<le> length name1 + 205)
    \<and> evaluations p = 0 \<and> evaluations_constraints p = 0 \<and> best_observed_fvalue p = Real DBL_MAX
    \<and> best_observed_evaluation p = 0 \<and> final_target_delta p = Real (1 / 10 ^ 8)"
proof -
  obtain id2 name2 where q2': "constraint_stack n q2 ds2" "plain_fields n (fields q2)"
    "problem_id (fields q2) = Some id2" "length id2 \<le> 100" "problem_name (fields q2) = Some name2" "length name2 \<le> 202"
    "initial_solution (fields q2) = Some (map Real fd)"
    using q2 by (auto simp: constraint_problem_def)
  note f = constraint_stack_fieldsD [OF q2'(1)]
  have "length (coco_strconcat (coco_strconcat id1 ''__'') id2) \<le> length id1 + 102"
    using length_strconcat [of "coco_strconcat id1 ''__''" id2] length_strconcat [of id1 "''__''"] q2'(4) by simp
  moreover have "length (coco_strconcat (coco_strconcat name1 '' + '') name2) \<le> length name1 + 205"
    using length_strconcat [of "coco_strconcat name1 '' + ''" name2] length_strconcat [of name1 "'' + ''"] q2'(6) by simp
  moreover have "0 < length ds2" using f(6) by simp
  ultimately show ?thesis using q1 q2(2) q2' f(1-4)
    by (simp add: coco_problem_stacked_allocate_def Let_def coco_problem_get_dimension_def coco_problem_allocate_def
        coco_allocate_vector_def coco_problem_get_id_def coco_problem_get_name_def plain_fields_def copy_vector_def
        copy_optional_def)
qed

lemma stack_constraint_ok:
  assumes s: "setting_ok s n fd" and q1: "constraint_problem n fd q1 ds"
    and q2: "constraint_problem n fd q2 [d]" "problem_type (fields q2) = Some ''linear''"
  shows "\<exists>q. stack_constraint s q1 q2 = Inr q \<and> constraint_problem n fd q (ds @ [d])"
proof -
  have n: "length fd = n" "set_dimension s = n" "n < 10 ^ 20" "set_function s < 10 ^ 20" "set_instance s < 10 ^ 20"
    using s by (auto simp: setting_ok_def)
  obtain id1 name1 where q1': "constraint_stack n q1 ds" "problem_id (fields q1) = Some id1" "length id1 \<le> 100"
    "problem_name (fields q1) = Some name1" "plain_fields n (fields q1)"
    using q1 by (auto simp: constraint_problem_def)
  note f = constraint_stack_fieldsD [OF q1'(1)]
  obtain p s' where p: "coco_problem_stacked_allocate q1 q2 (smallest_values_of_interest (fields q2)) (largest_values_of_interest (fields q2))
      = Inr (Stacked p q1 q2)" "evaluate_constraint p = Some Constraint_stacked" "number_of_variables p = n"
    "number_of_objectives p = 0" "number_of_constraints p = length ds + 1" "plain_fields n p"
    "initial_solution p = Some (map Real fd)" "problem_id p = Some s'" "length s' \<le> 202"
    using stacked_allocate_ok [OF q2(1) n(1) f(1) q1'(2,4)] q1'(3,5) f(3,4) by (auto simp: plain_fields_def)
  let ?id = "format_lu ''bbob-constrained_f%02lu_i%02lu_d%02lu'' [set_function s, set_instance s, n]"
  have "length (show_nat (set_function s)) \<le> 20" "length (show_nat (set_instance s)) \<le> 20" "length (show_nat n) \<le> 20"
    using length_show_nat [of _ 20] n(3-5) by simp_all
  then have "length ?id \<le> 100" by (simp add: stacked_id length_pad)
  moreover have "coco_problem_id_is_fine ?id"
    using digits_fine by (simp add: stacked_id coco_problem_id_is_fine_def isalpha_def)
  moreover define p' where "p' = p\<lparr>problem_name := Some s', problem_id := Some ?id, problem_type := Some ''linear_linear''\<rparr>"
  ultimately have "stack_constraint s q1 q2 = Inr (Stacked p' q1 q2)"
    using p(1,8,9) q1'(3) q2(2) n(2)
    by (simp add: stack_constraint_def coco_problem_get_id_def coco_problem_set_name_def coco_problem_set_id_def
        coco_problem_set_type_def coco_vstrdupf_def COCO_VSTRDUPF_BUFLEN_def p'_def)
  moreover have "constraint_stack n (Stacked p' q1 q2) (ds @ [d])"
    using q1'(1) q2(1) p f(2) by (intro constraint_stack.stacked) (simp_all add: constraint_problem_def layer_fields_def p'_def)
  ultimately show ?thesis using p(6,7,9) \<open>length ?id \<le> 100\<close> by (simp add: constraint_problem_def plain_fields_def p'_def)
qed

chapter \<open>Directions\<close>

text \<open>
  The stack of constraints that \<open>c_linear_cons_bbob_problem_allocate\<close> builds for a direction \<open>fd\<close>: the
  direction is feasible, and so is the origin, and every feasible point is on the side of the
  direction. The second fact holds because one gradient is a negative multiple of the direction, and the
  disguise of this gradient subtracts a combination of the others with nonnegative weights only.
\<close>

section \<open>The data of a stack\<close>

definition linear_ok :: "real list \<Rightarrow> linear \<Rightarrow> bool" where
  "linear_ok fd d \<longleftrightarrow> (case d of (g, s, m) \<Rightarrow> length g = length fd \<and> 0 \<le> s \<and> 0 < m
     \<and> constraint_value d fd \<le> 0)"

text \<open>The constraint along the direction, with the factor \<open>a\<close>.\<close>

definition along :: "real list \<Rightarrow> real \<Rightarrow> linear" where
  "along fd a = (map (\<lambda>v. a * v) (map uminus fd), 0, a * sqrt (rdot fd fd))"

text \<open>
  \<open>c\<close> is the linear combination and \<open>first\<close> the number of the constraint along the direction: where the
  others are satisfied, the combination is not positive.
\<close>

definition data_inv :: "real list \<Rightarrow> nat option \<Rightarrow> linear list \<Rightarrow> real list \<Rightarrow> bool" where
  "data_inv fd first ds c \<longleftrightarrow> (\<forall>d \<in> set ds. linear_ok fd d) \<and> length c = length fd \<and> rdot c fd \<le> 0
     \<and> (\<forall>z. length z = length fd \<longrightarrow> (\<forall>i < length ds. first \<noteq> Some i \<longrightarrow> constraint_value (ds ! i) z \<le> 0)
         \<longrightarrow> rdot c z \<le> 0)
     \<and> (\<forall>i. first = Some i \<longrightarrow> i < length ds \<and> (\<exists>a > 0. ds ! i = along fd a))"

lemma constraint_value_0 [simp]: "constraint_value (g, 0, m) z = rdot g z"
  by (simp add: constraint_value_def)

lemma along_value: "constraint_value (along fd a) z = - a * rdot fd z"
  using rdot_scaled [of a "map uminus fd" z] by (simp add: along_def rdot_minus)

lemma along_ok: "0 < a \<Longrightarrow> 0 < rdot fd fd \<Longrightarrow> linear_ok fd (along fd a)"
  using along_value [of fd a fd] by (simp add: linear_ok_def along_def)

definition add_multiple :: "real list \<Rightarrow> real \<Rightarrow> real list \<Rightarrow> real list" where
  "add_multiple c w g = map (\<lambda>i. c ! i + w * g ! i) [0..<length c]"

lemma rdot_add_multiple: "length g = length c \<Longrightarrow> rdot (add_multiple c w g) z = rdot c z + w * rdot g z"
  by (simp add: rdot_def add_multiple_def distrib_right sum.distrib sum_distrib_left mult.assoc)

lemma data_inv_empty: "data_inv fd None [] (replicate (length fd) 0)"
  by (simp add: data_inv_def rdot_def)

lemma data_inv_first:
  assumes "data_inv fd None ds c" "0 < a" "0 < rdot fd fd"
  shows "data_inv fd (Some (length ds)) (ds @ [along fd a]) c"
  using assms along_ok [OF assms(2,3)] unfolding data_inv_def
  by (auto simp: nth_append split: if_splits)

lemma data_inv_other:
  assumes "data_inv fd first ds c" "linear_ok fd d"
  shows "data_inv fd first (ds @ [d]) c"
  unfolding data_inv_def
proof (intro conjI allI impI ballI)
  fix z assume z: "length z = length fd"
    "\<forall>i < length (ds @ [d]). first \<noteq> Some i \<longrightarrow> constraint_value ((ds @ [d]) ! i) z \<le> 0"
  have "constraint_value (ds ! i) z \<le> 0" if "i < length ds" "first \<noteq> Some i" for i
    using z(2) [rule_format, of i] that by (simp add: nth_append)
  then show "rdot c z \<le> 0" using assms(1) z(1) by (auto simp: data_inv_def)
qed (use assms in \<open>auto simp: data_inv_def nth_append\<close>)

lemma data_inv_weighted:
  assumes inv: "data_inv fd first ds c" and d: "linear_ok fd (g, 0, m)" and w: "0 \<le> w"
  shows "data_inv fd first (ds @ [(g, 0, m)]) (add_multiple c w g)"
  unfolding data_inv_def
proof (intro conjI allI impI ballI)
  have g: "length g = length c" "rdot g fd \<le> 0" using d inv by (simp_all add: linear_ok_def data_inv_def)
  note sum = rdot_add_multiple [OF g(1)]
  have "w * rdot g fd \<le> 0" using w g(2) by (rule mult_nonneg_nonpos)
  then show "rdot (add_multiple c w g) fd \<le> 0" using inv by (simp add: sum data_inv_def)
  fix z assume z: "length z = length fd"
    "\<forall>i < length (ds @ [(g, 0, m)]). first \<noteq> Some i \<longrightarrow> constraint_value ((ds @ [(g, 0, m)]) ! i) z \<le> 0"
  have "first \<noteq> Some (length ds)" using inv by (auto simp: data_inv_def)
  then have "rdot g z \<le> 0" using z(2) by (auto dest: spec [where x = "length ds"])
  then have "w * rdot g z \<le> 0" using w by (simp add: mult_nonneg_nonpos)
  moreover have "rdot c z \<le> 0"
    using data_inv_other [OF inv d] z by (auto simp: data_inv_def)
  ultimately show "rdot (add_multiple c w g) z \<le> 0" by (simp add: sum)
qed (use inv d in \<open>auto simp: data_inv_def nth_append add_multiple_def\<close>)

section \<open>The result\<close>

definition directs :: "real list \<Rightarrow> linear list \<Rightarrow> bool" where
  "directs fd ds \<longleftrightarrow> (\<forall>d \<in> set ds. constraint_value d fd \<le> 0 \<and> constraint_value d (replicate (length fd) 0) \<le> 0)
     \<and> (\<forall>z. length z = length fd \<longrightarrow> (\<forall>d \<in> set ds. constraint_value d z \<le> 0) \<longrightarrow> 0 \<le> rdot fd z)"

lemma linear_ok_origin:
  assumes "linear_ok fd d" shows "constraint_value d (replicate (length fd) 0) \<le> 0"
proof -
  obtain g s m where d: "d = (g, s, m)" by (cases d) auto
  have "rdot g (replicate (length fd) 0) = 0" using assms d by (simp add: rdot_def linear_ok_def)
  moreover have "0 \<le> s / m * rdot g g" using assms d rdot_self_nonneg [of g] by (simp add: linear_ok_def)
  ultimately show ?thesis by (simp add: d constraint_value_def)
qed

lemma undisguised_directs:
  assumes "data_inv fd (Some k) ds c"
  shows "directs fd ds"
  unfolding directs_def
proof (intro conjI ballI allI impI)
  obtain a where a: "k < length ds" "0 < a" "ds ! k = along fd a" using assms by (auto simp: data_inv_def)
  fix z assume "\<forall>d \<in> set ds. constraint_value d z \<le> 0"
  then have "constraint_value (along fd a) z \<le> 0" using a nth_mem by metis
  then show "0 \<le> rdot fd z" using a(2) by (simp add: along_value zero_le_mult_iff)
qed (use assms linear_ok_origin in \<open>auto simp: data_inv_def linear_ok_def\<close>)

lemma disguise_factor:
  fixes f a e n t :: real
  assumes "0 < f" "0 < a" "0 \<le> e" "0 < n" "0 < t" "t < 1"
  defines "fac \<equiv> (if a * e \<le> 0 then n else min n ((a * sqrt f) * (a * sqrt f) / (a * e))) * t"
  shows "0 \<le> fac \<and> fac * e < a * f"
proof (cases "e = 0")
  case True
  then show ?thesis using assms by simp
next
  case False
  then have e: "0 < e" "0 < a * e" using assms by simp_all
  have "(a * sqrt f) * (a * sqrt f) / (a * e) = a * f / e" using assms e by (simp add: field_simps)
  then have fac: "fac = min n (a * f / e) * t" using e by (simp add: fac_def)
  have pos: "0 < a * f / e" using assms e by simp
  have "fac * e \<le> a * f / e * t * e"
    unfolding fac using assms e by (intro mult_right_mono) auto
  also have "\<dots> = a * f * t" using e by simp
  also have "\<dots> < a * f" using assms by simp
  finally show ?thesis using assms pos by (simp add: fac)
qed

lemma disguised_directs:
  assumes inv: "data_inv fd (Some k) ds c" and a: "ds ! k = along fd a" "0 < a"
    and fac: "0 \<le> fac" "fac * (- rdot c fd) < a * rdot fd fd" and r: "0 < r"
    and g: "length g = length fd" "\<And>z. rdot g z = r * (- a * rdot fd z - fac * rdot c z)"
  shows "directs fd (ds[k := (g, 0, m)])"
  unfolding directs_def
proof (intro conjI ballI allI impI)
  have k: "k < length ds" using inv by (simp add: data_inv_def)
  fix d assume "d \<in> set (ds[k := (g, 0, m)])"
  then consider "d = (g, 0, m)" | "linear_ok fd d"
    using set_update_subset_insert [of ds k "(g, 0, m)"] inv by (auto simp: data_inv_def)
  then have "constraint_value d fd \<le> 0 \<and> constraint_value d (replicate (length fd) 0) \<le> 0"
  proof cases
    case 1
    have "- a * rdot fd fd - fac * rdot c fd \<le> 0" using fac(2) by simp
    then have "constraint_value d fd \<le> 0" using r by (simp add: 1 g(2) mult_le_0_iff)
    moreover have "constraint_value d (replicate (length fd) 0) \<le> 0" using g(1) by (simp add: 1 rdot_def)
    ultimately show ?thesis by blast
  next
    case 2
    then show ?thesis using linear_ok_origin by (auto simp: linear_ok_def)
  qed
  then show "constraint_value d fd \<le> 0" "constraint_value d (replicate (length fd) 0) \<le> 0" by blast+
next
  have k: "k < length ds" using inv by (simp add: data_inv_def)
  fix z assume z: "length z = length fd" "\<forall>d \<in> set (ds[k := (g, 0, m)]). constraint_value d z \<le> 0"
  have v: "constraint_value (ds[k := (g, 0, m)] ! i) z \<le> 0" if "i < length ds" for i
    using z(2) that by (metis length_list_update nth_mem)
  have "constraint_value (ds ! i) z \<le> 0" if "i < length ds" "Some k \<noteq> Some i" for i
    using v [OF that(1)] that(2) by simp
  then have "rdot c z \<le> 0" using inv z(1) unfolding data_inv_def by blast
  then have "fac * rdot c z \<le> 0" using fac(1) by (simp add: mult_nonneg_nonpos)
  moreover have "r * (- a * rdot fd z - fac * rdot c z) \<le> 0" using v [OF k] k by (simp add: g(2))
  then have "- a * rdot fd z - fac * rdot c z \<le> 0" using r by (simp add: mult_le_0_iff)
  ultimately have "0 \<le> a * rdot fd z" by simp
  then show "0 \<le> rdot fd z" using a(2) by (simp add: zero_le_mult_iff)
qed

chapter \<open>The loop over the constraints\<close>

text \<open>
  The loop of \<open>c_linear_cons_bbob_problem_allocate\<close> runs to its end: the numbers of active and inactive
  constraints add up, exactly one active constraint is the one along the direction, and the data of the
  stack satisfy the invariant \<open>data_inv\<close>. The random numbers of the constraints have to be finite.
\<close>

section \<open>One round\<close>

definition state_data :: "nat \<Rightarrow> real list \<Rightarrow> stack_state \<Rightarrow> linear list \<Rightarrow> real list \<Rightarrow> bool" where
  "state_data n fd st ds c \<longleftrightarrow> stack_combination st = map Real c \<and> data_inv fd (stack_first st) ds c
     \<and> (stack_first st = None \<longrightarrow> stack_gradient st = map Real (map uminus fd))
     \<and> random_ok (stack_random st) \<and> random_ok (stack_random2 st)"

lemma turned_ok:
  assumes "length g = length fd" "0 \<le> s" "\<exists>v \<in> set g. v \<noteq> 0"
  shows "linear_ok fd (turned (g, s, sqrt (rdot g g)) fd)"
  using turned_feasible [OF assms(1,2) refl] rdot_self_pos [OF assms(3)] assms(1,2)
  by (auto simp: linear_ok_def turned_def)

lemma turned_data: "\<exists>g'. turned (g, s, m) fd = (g', s, m)"
  by (simp add: turned_def)

lemma turned_along:
  assumes "0 < a" "0 < rdot fd fd"
  shows "turned (map (\<lambda>v. a * v) (map uminus fd), 0, sqrt (rdot (map (\<lambda>v. a * v) (map uminus fd)) (map (\<lambda>v. a * v) (map uminus fd)))) fd
    = along fd a"
proof -
  define g where "g = map (\<lambda>v. a * v) (map uminus fd)"
  have "rdot g g = a * rdot (map uminus fd) g" unfolding g_def by (rule rdot_scaled)
  also have "rdot (map uminus fd) g = a * rdot (map uminus fd) (map uminus fd)"
    unfolding g_def by (rule rdot_scaled_right) simp
  finally have "rdot g g = a\<^sup>2 * rdot fd fd" by (simp add: rdot_minus power2_eq_square)
  then have m: "sqrt (rdot g g) = a * sqrt (rdot fd fd)" using assms(1) by (simp add: real_sqrt_mult)
  then have "(g, 0, sqrt (rdot g g)) = along fd a" by (simp add: along_def g_def)
  moreover have "constraint_value (along fd a) fd \<le> 0" using assms by (simp add: along_value)
  ultimately have "turned (g, 0, sqrt (rdot g g)) fd = along fd a" by (simp add: turned_def)
  then show ?thesis by (simp only: g_def)
qed

lemma constraint_single:
  assumes "constraint_stack n q [(g, s, m)]"
  shows "\<exists>p b. q = Transformed p (Linear_constraint (map Real g) (Real s) (Real m)) (Basic b)
    \<and> number_of_variables p = n \<and> length g = n"
  using assms
  by (cases rule: constraint_stack.cases) (auto simp: layer_fields_def Cons_eq_append_conv dest: constraint_stack_fields)

lemma update_combination:
  assumes "constraint_stack n q [(g, s, m)]" "length c = n"
  shows "con_update_linear_combination (map Real c) q (Real w) = Inr (map Real (add_multiple c w g))"
proof -
  obtain p b where "q = Transformed p (Linear_constraint (map Real g) (Real s) (Real m)) (Basic b)"
    "number_of_variables p = n" "length g = n"
    using constraint_single [OF assms(1)] by blast
  moreover have "add_multiple c 0 g = c" by (simp add: add_multiple_def map_nth)
  moreover have "w \<noteq> 0 \<Longrightarrow> map (\<lambda>i. map Real c ! i + Real w * map Real g ! i) [0..<n] = map Real (add_multiple c w g)"
    using assms(2) \<open>length g = n\<close> by (simp add: add_multiple_def)
  ultimately show ?thesis using assms(2) by (cases "w = 0") (simp_all add: con_update_linear_combination_def)
qed

text \<open>An active constraint: the given gradient \<open>-fd\<close>, which is used once, or a random one.\<close>

lemma active_ok:
  assumes s: "setting_ok s n fd" and fd: "\<exists>v \<in> set fd. v \<noteq> 0" and data: "state_data n fd st ds c"
    and gradient: "gradient = Some (stack_gradient st) \<and> stack_first st = None
      \<or> gradient = None \<and> draws_ok (set_function s) (set_instance s) n i"
  shows "\<exists>q2 G d c' st'. single_constraint s i gradient (Real 0) = Inr (q2, G) \<and> constraint_problem n fd q2 [d]
    \<and> problem_type (fields q2) = Some ''linear'' \<and> register_active (length ds) (q2, G) st = Inr st'
    \<and> state_data n fd st' (ds @ [d]) c' \<and> stack_problem st' = stack_problem st \<and> stack_active st' = stack_active st
    \<and> stack_inactive st' = stack_inactive st \<and> stack_random st' = stack_random st
    \<and> (stack_first st' \<noteq> None \<longleftrightarrow> gradient \<noteq> None \<or> stack_first st \<noteq> None)"
proof (cases "gradient = None")
  case True
  then obtain q2 g where q2: "single_constraint s i None (Real 0) = Inr (q2, None)" "length g = n" "\<exists>v \<in> set g. v \<noteq> 0"
    "constraint_problem n fd q2 [turned (g, 0, sqrt (rdot g g)) fd]" "problem_type (fields q2) = Some ''linear''"
    using single_ok [OF s order_refl, of gradient "[]" i] gradient by auto
  obtain g' where g': "turned (g, 0, sqrt (rdot g g)) fd = (g', 0, sqrt (rdot g g))" using turned_data by blast
  have n: "length fd = n" using s by (auto simp: setting_ok_def)
  have ok: "linear_ok fd (g', 0, sqrt (rdot g g))" using turned_ok [of g fd 0] q2(2,3) n g' by simp
  obtain u r where ur: "coco_random_uniform (stack_random2 st) = (u, r)" by fastforce
  have u: "0 \<le> u" "random_ok r" using uniform_nonneg [of "stack_random2 st"] data ur by (auto simp: state_data_def)
  have c: "length c = n" "stack_combination st = map Real c" using data n by (simp_all add: state_data_def data_inv_def)
  have "con_update_linear_combination (map Real c) q2 (Real u) = Inr (map Real (add_multiple c u g'))"
    using update_combination [OF _ c(1), of q2 g' 0 "sqrt (rdot g g)"] q2(4) g' by (simp add: constraint_problem_def)
  then have "register_active (length ds) (q2, None) st = Inr (Stack_state (stack_problem st) (stack_active st)
      (stack_inactive st) (map Real (add_multiple c u g')) (stack_gradient st) (stack_first st) (stack_random st) r)"
    by (simp add: register_active_def ur c(2))
  moreover have "state_data n fd (Stack_state (stack_problem st) (stack_active st)
      (stack_inactive st) (map Real (add_multiple c u g')) (stack_gradient st) (stack_first st) (stack_random st) r)
      (ds @ [(g', 0, sqrt (rdot g g))]) (add_multiple c u g')"
    using data data_inv_weighted [OF _ ok u(1)] u(2) by (simp add: state_data_def)
  ultimately show ?thesis using q2(1,4,5) g' True
    by (intro exI [of _ q2] exI [of _ None] exI [of _ "(g', 0, sqrt (rdot g g))"] exI [of _ "add_multiple c u g'"]
        exI [of _ "Stack_state (stack_problem st) (stack_active st) (stack_inactive st) (map Real (add_multiple c u g'))
          (stack_gradient st) (stack_first st) (stack_random st) r"]) simp
next
  case False
  then have f: "gradient = Some (map Real (map uminus fd))" "stack_first st = None"
    using gradient data by (auto simp: state_data_def)
  have n: "length fd = n" using s by (auto simp: setting_ok_def)
  have fd': "\<exists>v \<in> set (map uminus fd). v \<noteq> 0" using fd by auto
  obtain q2 a where q2: "0 < a" "single_constraint s i gradient (Real 0) = Inr (q2, Some (map Real (map (\<lambda>v. a * v) (map uminus fd))))"
    "constraint_problem n fd q2 [along fd a]" "problem_type (fields q2) = Some ''linear''"
    using single_ok [OF s order_refl, of gradient "map uminus fd" i] f(1) n fd' turned_along [OF _ rdot_self_pos [OF fd]]
    by auto
  let ?G = "map Real (map (\<lambda>v. a * v) (map uminus fd))"
  let ?st = "Stack_state (stack_problem st) (stack_active st) (stack_inactive st) (stack_combination st) ?G
    (Some (length ds)) (stack_random st) (stack_random2 st)"
  have "register_active (length ds) (q2, Some ?G) st = Inr ?st" by (simp add: register_active_def)
  moreover have "state_data n fd ?st (ds @ [along fd a]) c"
    using data f(2) data_inv_first [OF _ q2(1) rdot_self_pos [OF fd]] by (simp add: state_data_def)
  ultimately show ?thesis using q2 False
    by (intro exI [of _ q2] exI [of _ "Some ?G"] exI [of _ "along fd a"] exI [of _ c] exI [of _ ?st]) simp
qed

section \<open>Counting\<close>

text \<open>\<open>hits s i\<close>: the active constraint \<open>i\<close> is the one along the direction.\<close>

definition hits :: "stack_setting \<Rightarrow> nat \<Rightarrow> bool" where
  "hits s i \<longleftrightarrow> size_t (i - 1 + set_instance s) mod set_active s = 0"

definition counts :: "stack_setting \<Rightarrow> nat \<Rightarrow> stack_state \<Rightarrow> bool" where
  "counts s k st \<longleftrightarrow> 1 \<le> stack_active st \<and> stack_active st \<le> set_active s
     \<and> k + (set_active s - stack_active st) + stack_inactive st = set_total s
     \<and> (stack_first st \<noteq> None \<longleftrightarrow> (\<exists>i \<in> {1..stack_active st}. hits s i))"

definition in_range :: "stack_setting \<Rightarrow> bool" where
  "in_range s \<longleftrightarrow> set_instance s + set_active s < 2 ^ 64"

lemma hits_range: "in_range s \<Longrightarrow> i \<le> set_active s \<Longrightarrow> hits s i \<longleftrightarrow> (i - 1 + set_instance s) mod set_active s = 0"
  by (simp add: hits_def in_range_def)

lemma hits_once:
  assumes "in_range s" "hits s i" "hits s j" "1 \<le> i" "i < j" "j \<le> set_active s"
  shows False
proof -
  have "(i - 1 + set_instance s) mod set_active s = 0" "(j - 1 + set_instance s) mod set_active s = 0"
    using assms hits_range [OF assms(1)] by simp_all
  then have "set_active s dvd (j - 1 + set_instance s) - (i - 1 + set_instance s)"
    by (intro dvd_diff_nat) (simp_all add: mod_eq_0_iff_dvd)
  moreover have "(j - 1 + set_instance s) - (i - 1 + set_instance s) = j - i" using assms(4,5) by simp
  ultimately show False using assms(4-6) by (simp add: nat_dvd_not_less)
qed

lemma hits_some:
  assumes "in_range s" "1 \<le> set_active s"
  shows "\<exists>i \<in> {1..set_active s}. hits s i"
proof -
  let ?m = "set_active s" and ?r = "set_instance s mod set_active s"
  have r: "?r < ?m" using assms(2) by simp
  show ?thesis
  proof (cases "?r = 0")
    case True
    then show ?thesis using assms hits_range [OF assms(1), of 1] by (intro bexI [of _ 1]) simp_all
  next
    case False
    have "?m - ?r + set_instance s = ?m * (1 + set_instance s div ?m)"
    proof -
      have "set_instance s = ?m * (set_instance s div ?m) + ?r" by simp
      then have "?m - ?r + set_instance s = (?m - ?r + ?r) + ?m * (set_instance s div ?m)" by linarith
      then show ?thesis using r by simp
    qed
    then have "(?m - ?r + 1 - 1 + set_instance s) mod ?m = 0" by simp
    then have "hits s (?m - ?r + 1)" using False r hits_range [OF assms(1), of "?m - ?r + 1"] by simp
    then show ?thesis using False r by (intro bexI [of _ "?m - ?r + 1"]) auto
  qed
qed

section \<open>The loop\<close>

definition loop_inv :: "stack_setting \<Rightarrow> nat \<Rightarrow> real list \<Rightarrow> nat \<Rightarrow> stack_state \<Rightarrow> bool" where
  "loop_inv s n fd k st \<longleftrightarrow> counts s k st \<and> (\<exists>ds c. constraint_problem n fd (stack_problem st) ds
     \<and> length ds = k \<and> state_data n fd st ds c)"

text \<open>What the loop relies on.\<close>

definition loop_ok :: "stack_setting \<Rightarrow> nat \<Rightarrow> real list \<Rightarrow> bool" where
  "loop_ok s n fd \<longleftrightarrow> setting_ok s n fd \<and> in_range s \<and> (\<exists>v \<in> set fd. v \<noteq> 0) \<and> 0 < set_total s
     \<and> (\<forall>i \<in> {1..set_active s}. draws_ok (set_function s) (set_instance s) n i)"

lemma stacked_state:
  assumes "setting_ok s n fd" "constraint_problem n fd (stack_problem st) ds" "constraint_problem n fd q2 [d]"
    and "problem_type (fields q2) = Some ''linear''" "state_data n fd st (ds @ [d]) c" "counts s (Suc (length ds)) st"
  shows "\<exists>st'. rbind (stack_constraint s (stack_problem st) q2) (\<lambda>problem_c. Inr (Stack_state problem_c
      (stack_active st) (stack_inactive st) (stack_combination st) (stack_gradient st) (stack_first st)
      (stack_random st) (stack_random2 st))) = Inr st' \<and> loop_inv s n fd (Suc (length ds)) st'"
proof -
  obtain q where "stack_constraint s (stack_problem st) q2 = Inr q" "constraint_problem n fd q (ds @ [d])"
    using stack_constraint_ok [OF assms(1,2,3,4)] by blast
  then show ?thesis using assms(5,6)
    by (auto simp: loop_inv_def counts_def state_data_def intro!: exI [of _ "ds @ [d]"] exI [of _ c])
qed

lemma step_active:
  assumes ok: "loop_ok s n fd" and inv: "loop_inv s n fd k st" and k: "k = j - 1" "0 < j"
    and kind: "draw_kind s (stack_active st) (stack_inactive st) (stack_random st) = (True, random)"
      "random_ok random" "stack_active st < set_active s"
  shows "\<exists>st'. stack_step s j st = Inr st' \<and> loop_inv s n fd (Suc k) st'"
proof -
  let ?i = "stack_active st + 1"
  obtain ds c where ds: "constraint_problem n fd (stack_problem st) ds" "length ds = k" "state_data n fd st ds c"
    using inv by (auto simp: loop_inv_def)
  have s: "setting_ok s n fd" "in_range s" "\<exists>v \<in> set fd. v \<noteq> 0" using ok by (simp_all add: loop_ok_def)
  have counts: "counts s k st" using inv by (simp add: loop_inv_def)
  define st1 where "st1 = Stack_state (stack_problem st) ?i (stack_inactive st) (stack_combination st)
    (stack_gradient st) (stack_first st) random (stack_random2 st)"
  have data1: "state_data n fd st1 ds c" using ds(3) kind(2) by (simp add: state_data_def st1_def)
  let ?gradient = "if size_t (?i - 1 + set_instance s) mod set_active s \<noteq> 0 then None else Some (stack_gradient st)"
  have "stack_first st = None" if "hits s ?i"
    using counts hits_once [OF s(2) _ that, of "i" for i] kind(3) by (force simp: counts_def)
  then have g: "?gradient = Some (stack_gradient st1) \<and> stack_first st1 = None
      \<or> ?gradient = None \<and> draws_ok (set_function s) (set_instance s) n ?i"
    using ok kind(3) by (auto simp: loop_ok_def hits_def st1_def)
  obtain q2 G d c' st2 where q2: "single_constraint s ?i ?gradient (Real 0) = Inr (q2, G)" "constraint_problem n fd q2 [d]"
    "problem_type (fields q2) = Some ''linear''" "register_active (length ds) (q2, G) st1 = Inr st2"
    "state_data n fd st2 (ds @ [d]) c'" "stack_problem st2 = stack_problem st1" "stack_active st2 = stack_active st1"
    "stack_inactive st2 = stack_inactive st1" "stack_first st2 \<noteq> None \<longleftrightarrow> ?gradient \<noteq> None \<or> stack_first st1 \<noteq> None"
    using active_ok [OF s(1,3) data1 g] by blast
  have "(\<exists>i \<in> {1..?i}. hits s i) \<longleftrightarrow> hits s ?i \<or> (\<exists>i \<in> {1..stack_active st}. hits s i)"
    by (auto simp: atLeastAtMostSuc_conv)
  then have "counts s (Suc (length ds)) st2"
    using counts q2(7-9) ds(2) kind(3) by (auto simp: counts_def st1_def hits_def)
  from stacked_state [OF s(1) _ q2(2,3,5) this] ds(1) q2(6) obtain st' where
    st': "rbind (stack_constraint s (stack_problem st2) q2) (\<lambda>problem_c. Inr (Stack_state problem_c
      (stack_active st2) (stack_inactive st2) (stack_combination st2) (stack_gradient st2) (stack_first st2)
      (stack_random st2) (stack_random2 st2))) = Inr st'" "loop_inv s n fd (Suc (length ds)) st'"
    by (auto simp: st1_def)
  have "stack_step s j st = Inr st'"
    using kind(1,3) q2(1,4) st'(1) ds(2) k by (simp add: stack_step_def Let_def st1_def del: One_nat_def)
  then show ?thesis using st'(2) ds(2) by blast
qed

lemma step_inactive:
  assumes ok: "loop_ok s n fd" and inv: "loop_inv s n fd k st"
    and kind: "draw_kind s (stack_active st) (stack_inactive st) (stack_random st) = (False, random)"
      "random_ok random" "stack_inactive st \<noteq> 0"
  shows "\<exists>st'. stack_step s j st = Inr st' \<and> loop_inv s n fd (Suc k) st'"
proof -
  let ?i = "stack_active st"
  obtain ds c where ds: "constraint_problem n fd (stack_problem st) ds" "length ds = k" "state_data n fd st ds c"
    using inv by (auto simp: loop_inv_def)
  have s: "setting_ok s n fd" "length fd = n" using ok by (auto simp: loop_ok_def setting_ok_def)
  have counts: "counts s k st" using inv by (simp add: loop_inv_def)
  obtain u r where ur: "coco_random_uniform random = (u, r)" by fastforce
  have u: "0 \<le> u" "random_ok r" using uniform_nonneg [OF kind(2)] ur by auto
  define shift where "shift = 1 / 100 + 2 * u"
  define st1 where "st1 = Stack_state (stack_problem st) ?i (stack_inactive st - 1) (stack_combination st)
    (stack_gradient st) (stack_first st) r (stack_random2 st)"
  have i: "?i \<le> set_active s" "draws_ok (set_function s) (set_instance s) n ?i"
    using counts ok by (auto simp: counts_def loop_ok_def)
  obtain q2 g where q2: "single_constraint s ?i None (Real shift) = Inr (q2, None)" "length g = n" "\<exists>v \<in> set g. v \<noteq> 0"
    "constraint_problem n fd q2 [turned (g, shift, sqrt (rdot g g)) fd]" "problem_type (fields q2) = Some ''linear''"
    using single_ok [OF s(1), of shift None "[]" ?i] i(2) u(1) by (auto simp: shift_def)
  have "linear_ok fd (turned (g, shift, sqrt (rdot g g)) fd)"
    using turned_ok [of g fd shift] q2(2,3) s(2) u(1) by (simp add: shift_def)
  then have data1: "state_data n fd st1 (ds @ [turned (g, shift, sqrt (rdot g g)) fd]) c"
    using ds(3) u(2) data_inv_other by (auto simp: state_data_def st1_def)
  have "Suc k + (set_active s - ?i) + (stack_inactive st - 1) = set_total s"
    using counts kind(3) by (simp only: counts_def) linarith
  then have "counts s (Suc (length ds)) st1" using counts ds(2) by (simp add: counts_def st1_def)
  from stacked_state [OF s(1) _ q2(4,5) data1 this] ds(1) obtain st' where
    st': "rbind (stack_constraint s (stack_problem st1) q2) (\<lambda>problem_c. Inr (Stack_state problem_c
      (stack_active st1) (stack_inactive st1) (stack_combination st1) (stack_gradient st1) (stack_first st1)
      (stack_random st1) (stack_random2 st1))) = Inr st'" "loop_inv s n fd (Suc (length ds)) st'"
    by (auto simp: st1_def)
  have "Real (1 / 100) + Real 2 * Real u = Real shift" "\<not> equal_to (Real shift) (Real 0)"
    using u(1) by (simp_all add: shift_def)
  then have "stack_step s j st = Inr st'"
    using kind(1,3) i(1) ur q2(1) st'(1) by (simp add: stack_step_def Let_def st1_def)
  then show ?thesis using st'(2) ds(2) by blast
qed

lemma step_ok:
  assumes ok: "loop_ok s n fd" and inv: "loop_inv s n fd k st" and k: "j = Suc k" "k < set_total s"
  shows "\<exists>st'. stack_step s j st = Inr st' \<and> loop_inv s n fd (Suc k) st'"
proof -
  have counts: "counts s k st" and r: "random_ok (stack_random st)"
    using inv by (auto simp: loop_inv_def state_data_def)
  obtain u random where ur: "coco_random_uniform (stack_random st) = (u, random)" by fastforce
  have u: "0 \<le> u" "random_ok random" using uniform_nonneg [OF r] ur by auto
  show ?thesis
  proof (cases "stack_active st < set_active s")
    case True
    have t: "0 < set_total s" using ok by (simp add: loop_ok_def)
    show ?thesis
    proof (cases "real (stack_inactive st) / real (set_total s) < u + 1 / 10 ^ 23")
      case less: True
      then have "draw_kind s (stack_active st) (stack_inactive st) (stack_random st) = (True, random)"
        using True t by (simp add: draw_kind_def ur)
      from step_active [OF ok inv _ _ this u(2) True] k show ?thesis by simp
    next
      case False
      then have "draw_kind s (stack_active st) (stack_inactive st) (stack_random st) = (False, random)"
        using True t by (simp add: draw_kind_def ur)
      note kind = this
      have "0 < u + 1 / 10 ^ 23" using u(1) by (simp add: add_nonneg_pos)
      moreover have "stack_inactive st \<noteq> 0"
      proof
        assume "stack_inactive st = 0"
        then have "real (stack_inactive st) / real (set_total s) = 0" by simp
        with False \<open>0 < u + 1 / 10 ^ 23\<close> show False by metis
      qed
      ultimately show ?thesis using step_inactive [OF ok inv kind u(2)] by blast
    qed
  next
    case False
    then have "draw_kind s (stack_active st) (stack_inactive st) (stack_random st) = (False, stack_random st)"
      by (simp add: draw_kind_def)
    moreover have "stack_inactive st \<noteq> 0" using False counts k(2) by (auto simp: counts_def)
    ultimately show ?thesis using step_inactive [OF ok inv _ r] by blast
  qed
qed

lemma loop_end:
  assumes "loop_ok s n fd"
  shows "loop_inv s n fd k st \<Longrightarrow> k \<le> set_total s \<Longrightarrow>
    \<exists>st'. stack_loop s [Suc k..<Suc (set_total s)] st = Inr st' \<and> loop_inv s n fd (set_total s) st'"
proof (induction "set_total s - k" arbitrary: k st)
  case (Suc m)
  then have k: "k < set_total s" by simp
  obtain st1 where st1: "stack_step s (Suc k) st = Inr st1" "loop_inv s n fd (Suc k) st1"
    using step_ok [OF assms Suc.prems(1) refl k] by blast
  then show ?case using Suc.hyps(1) [of "Suc k" st1] Suc.hyps(2) k
    by (simp add: upt_conv_Cons del: upt_Suc)
qed auto

chapter \<open>The result\<close>

text \<open>
  The constraints of the constrained suite are allocated without an error, for every number of
  constraints: the errors and the NULL pointer that the code checks for cannot occur, the direction and
  the origin are feasible, and all feasible points are on the side of the direction, so that the origin
  satisfies the conditions of optimality for every objective function with this gradient.
\<close>

section \<open>The disguise\<close>

lemma scalar_product_Real:
  "length y = length x \<Longrightarrow> vector_scalar_product (map Real x) (map Real y) = Real (rdot x y)"
  unfolding vector_scalar_product_def
  by (subst accumulate_upt [where t = "\<lambda>i. x ! i * y ! i"]) (simp_all add: rdot_def atLeast0LessThan)

lemma rdot_along:
  "length c = length fd \<Longrightarrow> rdot c (map (\<lambda>v. a * v) (map uminus fd)) = a * (- rdot c fd)"
  by (simp add: rdot_def sum_distrib_left sum_negf mult.left_commute)

lemma rdot_subtract:
  "length g = length c \<Longrightarrow> rdot (map (\<lambda>i. g ! i - f * c ! i) [0..<length c]) z = rdot g z - f * rdot c z"
  by (simp add: rdot_def left_diff_distrib sum_subtractf sum_distrib_left mult.assoc)

lemma rdot_nonzero:
  assumes "rdot h z \<noteq> 0" shows "\<exists>v \<in> set h. v \<noteq> 0"
proof (rule ccontr)
  assume "\<not> ?thesis"
  then have "h ! i = 0" if "i < length h" for i using that nth_mem [of i h] by blast
  then show False using assms by (simp add: rdot_def)
qed

lemma disguise_ok:
  assumes inv: "loop_inv s n fd k st" and first: "stack_first st \<noteq> None" and fd: "\<exists>v \<in> set fd. v \<noteq> 0" "length fd = n" "0 < n"
  shows "\<exists>q ds. disguise n st = Inr q \<and> constraint_problem n fd q ds \<and> directs fd ds \<and> length ds = k"
proof -
  obtain ds c where ds: "constraint_problem n fd (stack_problem st) ds" "length ds = k" "state_data n fd st ds c"
    using inv by (auto simp: loop_inv_def)
  obtain i where i: "stack_first st = Some i" using first by blast
  have inv: "data_inv fd (Some i) ds c" and c: "stack_combination st = map Real c" "length c = n" and r: "random_ok (stack_random2 st)"
    using ds(3) i fd(2) by (auto simp: state_data_def data_inv_def)
  obtain a where a: "i < length ds" "0 < a" "ds ! i = along fd a" using inv by (auto simp: data_inv_def)
  have st: "constraint_stack n (stack_problem st) ds" using ds(1) by (simp add: constraint_problem_def)
  define g where "g = map (\<lambda>v. a * v) (map uminus fd)"
  define m where "m = a * sqrt (rdot fd fd)"
  have g: "length g = n" "rdot g z = - a * rdot fd z" for z
    using fd(2) rdot_scaled [of a "map uminus fd" z] by (simp_all add: g_def rdot_minus)
  have data: "constraint_data (stack_problem st) i = Some (map Real g, Real 0, Real m)"
    using constraint_data_stack [OF st a(1)] by (simp add: a(3) along_def g_def m_def)
  define e where "e = - rdot c fd"
  have e: "0 \<le> e" using inv by (simp add: data_inv_def e_def)
  have fac0: "vector_scalar_product (map Real c) (map Real g) = Real (a * e)"
    using scalar_product_Real [of g c] rdot_along [of c fd a] c(2) g(1) fd(2) by (simp add: e_def g_def)
  obtain u r' where u: "coco_random_uniform (stack_random2 st) = (u, r')" by fastforce
  have u1: "0 \<le> u" "u \<le> 1" using uniform_nonneg [OF r] u by auto
  define t where "t = (1 + u) / (2 + 1 / real n)"
  have "0 < 1 / real n" using fd(3) by simp
  then have "0 < 2 + 1 / real n" "1 + u < 2 + 1 / real n" using u1(2) by linarith+
  then have t: "0 < t" "t < 1" using u1(1) unfolding t_def by (simp_all add: divide_less_eq_1_pos del: add_divide_distrib)
  have f: "0 < rdot fd fd" using rdot_self_pos [OF fd(1)] .
  define fac where "fac = (if a * e \<le> 0 then real n else min (real n) (m * m / (a * e))) * t"
  have fac: "0 \<le> fac" "fac * e < a * rdot fd fd"
    using disguise_factor [OF f a(2) e, of "real n" t] t fd(3) unfolding fac_def m_def by auto
  define h where "h = map (\<lambda>i. g ! i - fac * c ! i) [0..<n]"
  have h: "length h = n" "rdot h z = - a * rdot fd z - fac * rdot c z" for z
    using rdot_subtract [of g c fac z] c(2) g by (simp_all add: h_def)
  have "rdot h fd < 0" using fac(2) by (simp add: h(2) e_def)
  then have "\<exists>v \<in> set h. v \<noteq> 0" using rdot_nonzero [of h fd] by simp
  then have norm_h: "0 < sqrt (rdot h h)" using rdot_self_pos by simp
  define h' where "h' = map (\<lambda>v. m / sqrt (rdot h h) * v) h"
  have "0 < m" using a(2) f by (simp add: m_def)
  then have factor: "0 < m / sqrt (rdot h h)" using norm_h by simp
  have h': "length h' = n" "rdot h' z = m / sqrt (rdot h h) * (- a * rdot fd z - fac * rdot c z)" for z
    using h rdot_scaled [of "m / sqrt (rdot h h)" h z] by (simp_all add: h'_def)
  have code_fac: "(if Real (a * e) \<le> Real 0 then Real (real n) else dmin (Real (real n)) (ddiv (Real m * Real m) (Real (a * e))))
      * ddiv (Real 1 + Real u) (Real 2 + ddiv (Real 1) (Real (real n))) = Real fac"
  proof -
    have "2 + 1 / real n \<noteq> 0" using fd(3) by (simp add: add_pos_pos less_imp_neq [symmetric])
    then show ?thesis using fd(3) by (simp add: fac_def t_def)
  qed
  have code_h: "map (\<lambda>i. map Real g ! i - Real fac * map Real c ! i) [0..<n] = map Real h"
    using g(1) c(2) by (simp add: h_def)
  have code_h': "vector_scale (map Real h) (Real m) (Real (sqrt (rdot h h))) = map Real h'"
    using vector_scale_Real [of "sqrt (rdot h h)" h m] norm_h by (simp add: h'_def)
  have "\<not> Real (a * e) < Real 0" using a(2) e by (simp add: not_less)
  moreover have "\<not> equal_to (Real (sqrt (rdot h h))) (Real 0)" using norm_h by simp
  ultimately have "disguise n st = Inr (set_gradient (stack_problem st) i (map Real h'))"
    unfolding disguise_def i data option.case prod.case Let_def c(1) fac0 u code_fac code_h vector_norm_Real code_h'
    by (simp only: if_False)
  moreover have "constraint_stack n (set_gradient (stack_problem st) i (map Real h')) (ds[i := (h', 0, m)])"
    using set_gradient_stack [OF st a(1) h'(1)] by (simp add: a(3) along_def m_def)
  then have "constraint_problem n fd (set_gradient (stack_problem st) i (map Real h')) (ds[i := (h', 0, m)])"
    using ds(1) by (simp add: constraint_problem_def)
  moreover have "directs fd (ds[i := (h', 0, m)])"
    using disguised_directs [OF inv a(3,2) fac(1) _ factor] fac(2) h' fd(2) by (simp add: e_def)
  ultimately show ?thesis using ds(2) by auto
qed

section \<open>All constraints\<close>

definition total_constraints :: "string \<Rightarrow> nat \<Rightarrow> nat" where
  "total_constraints id_template m =
     m + (if take 28 id_template = ''bbob-constrained-active-only'' then 0 else m div 2)"

lemma linear_cons_ok:
  assumes names: "length s0 \<le> 300" "templates_ok id_template name_template [function, instance, n]"
    and range: "0 < n" "n < 10 ^ 20" "function < 10 ^ 20" "instance + m < 2 ^ 64" "1 \<le> m"
    and fd: "length fd = n" "\<exists>v \<in> set fd. v \<noteq> 0"
    and draws: "m = 1 \<or> (\<forall>i \<in> {1..m}. draws_ok function instance n i)"
  shows "\<exists>q ds. c_linear_cons_bbob_problem_allocate (Some s0) function n instance m id_template name_template
      (map Real fd) = Inr q \<and> constraint_problem n fd q ds \<and> directs fd ds
    \<and> length ds = total_constraints id_template m"
proof -
  define seed :: "32 word" where "seed = word_of_nat (function + 10000 * instance)"
  obtain u r where ur: "coco_random_uniform (coco_random_new seed) = (u, r)" by fastforce
  have r: "random_ok r" "random_ok (coco_random_new seed)"
    using uniform_nonneg [OF coco_random_new_ok, of seed] ur coco_random_new_ok by auto
  define inactive where "inactive = (if take 28 id_template = ''bbob-constrained-active-only'' then 0 else m div 2)"
  define s where "s = Stack_setting (Some s0) function n instance (Real 100 * dpow (Real 10) (Real u)) id_template
    name_template (map Real fd) m (m + inactive)"
  have setting: "setting_ok s n fd"
    using names range fd(1) by (auto simp: setting_ok_def s_def intro!: exI [of _ "100 * 10 powr u"])
  have in_range: "in_range s" using range by (simp add: in_range_def s_def)
  have sel: "set_active s = m" "set_total s = m + inactive" "set_instance s = instance" "set_function s = function"
    by (simp_all add: s_def)
  let ?g = "map Real (map uminus fd)"
  let ?gradient = "if instance mod m \<noteq> 0 then None else Some ?g"
  have first: "m = 1 \<Longrightarrow> instance mod m = 0" by simp
  have hit1: "hits s 1 \<longleftrightarrow> instance mod m = 0" using hits_range [OF in_range, of 1] range(5) by (simp add: sel)
  define st0 where "st0 q = Stack_state q 1 inactive (replicate n (Real 0)) ?g None r (coco_random_new seed)" for q
  have data0: "state_data n fd (st0 q) [] (replicate (length fd) 0)" for q
    using r data_inv_empty [of fd] fd(1) by (simp add: state_data_def st0_def)
  have gradient0: "?gradient = Some (stack_gradient (st0 q)) \<and> stack_first (st0 q) = None
      \<or> ?gradient = None \<and> draws_ok (set_function s) (set_instance s) n 1" for q
    using draws first range(5) by (auto simp: st0_def sel)
  obtain q2 G where q2: "single_constraint s 1 ?gradient (Real 0) = Inr (q2, G)"
    using active_ok [OF setting fd(2) data0 gradient0] by blast
  from active_ok [OF setting fd(2) data0 [of q2] gradient0 [of q2]] q2 obtain d c st1 where
    st1: "constraint_problem n fd q2 [d]" "register_active 0 (q2, G) (st0 q2) = Inr st1" "state_data n fd st1 [d] c"
    "stack_problem st1 = q2" "stack_active st1 = 1" "stack_inactive st1 = inactive"
    "stack_first st1 \<noteq> None \<longleftrightarrow> ?gradient \<noteq> None"
    by (auto simp: st0_def)
  have "counts s 1 st1" using st1(5-7) range(5) hit1 by (auto simp: counts_def sel)
  then have inv: "loop_inv s n fd 1 st1"
    using st1(1,3,4) unfolding loop_inv_def by (intro conjI exI [of _ "[d]"] exI [of _ c]) simp_all
  have "\<exists>st2. stack_loop s [2..<m + inactive + 1] st1 = Inr st2 \<and> loop_inv s n fd (m + inactive) st2"
  proof (cases "m = 1")
    case True
    then have "inactive = 0" by (simp add: inactive_def)
    then show ?thesis using True inv by simp
  next
    case False
    then have "loop_ok s n fd" using setting in_range fd(2) draws range(5) by (simp add: loop_ok_def sel)
    from loop_end [OF this inv] show ?thesis using range(5) by (simp add: sel numeral_2_eq_2 del: upt_Suc)
  qed
  then obtain st2 where st2: "stack_loop s [2..<m + inactive + 1] st1 = Inr st2" "loop_inv s n fd (m + inactive) st2"
    by blast
  have "stack_active st2 = m" using st2(2) by (auto simp: loop_inv_def counts_def sel)
  then have some: "stack_first st2 \<noteq> None"
    using st2(2) hits_some [OF in_range] range(5) by (auto simp: loop_inv_def counts_def sel)
  have code: "c_linear_cons_bbob_problem_allocate (Some s0) function n instance m id_template name_template (map Real fd)
      = (if m > 1 \<and> take 28 id_template \<noteq> ''bbob-constrained-no-disguise'' then disguise n st2 else Inr (stack_problem st2))"
  proof -
    have "map uminus (map Real fd) = ?g" "copy_vector (map Real fd) n = Inr (map Real fd)"
      "coco_allocate_vector n = Inr (replicate n NaN)" "m \<noteq> 0"
      using fd(1) range(1,5) by (simp_all add: copy_vector_def coco_allocate_vector_def)
    moreover note st0_def [of q2, symmetric]
    ultimately show ?thesis
      unfolding c_linear_cons_bbob_problem_allocate_def seed_def [symmetric] ur Let_def prod.case
        inactive_def [symmetric] s_def [symmetric]
      by (simp only: rbind_simps if_False q2 prod.case st1(2) st2(1))
  qed
  have tot: "total_constraints id_template m = m + inactive" by (simp add: total_constraints_def inactive_def)
  show ?thesis
  proof (cases "m > 1 \<and> take 28 id_template \<noteq> ''bbob-constrained-no-disguise''")
    case True
    then show ?thesis using disguise_ok [OF st2(2) some fd(2,1) range(1)] by (simp add: code tot)
  next
    case False
    obtain ds c where ds: "constraint_problem n fd (stack_problem st2) ds" "length ds = m + inactive" "state_data n fd st2 ds c"
      using st2(2) by (auto simp: loop_inv_def)
    obtain k where "stack_first st2 = Some k" using some by blast
    then have "directs fd ds" using ds(3) undisguised_directs by (auto simp: state_data_def)
    moreover have "c_linear_cons_bbob_problem_allocate (Some s0) function n instance m id_template name_template (map Real fd)
        = Inr (stack_problem st2)" unfolding code using False by (simp only: if_False)
    ultimately show ?thesis using ds(1,2) tot by auto
  qed
qed

end
