(* ===== verification/Coco_Constrained_Solved.thy ===== *)
theory Coco_Constrained_Solved
  imports Coco_Constraints
begin

text \<open>
  Problems with constraints: their evaluation and bookkeeping, and the steps of the allocators of the
  constrained suite, which keep that the best parameter is the constrained minimum.
\<close>

chapter \<open>Evaluation\<close>

text \<open>
  Problems with one objective function and constraints: their evaluation with the bookkeeping, which
  records feasible points only, and what stacking and the transformations give. The assertions on the
  best value hold, since they are restricted to feasible points.
\<close>

section \<open>Feasible points\<close>

definition feasible :: "(real list \<Rightarrow> real) list \<Rightarrow> real list \<Rightarrow> bool" where
  "feasible cs x \<longleftrightarrow> (\<forall>c \<in> set cs. c x \<le> 0)"

definition constrained_shape :: "coco_problem_s \<Rightarrow> nat \<Rightarrow> nat \<Rightarrow> bool" where
  "constrained_shape p n m \<longleftrightarrow> number_of_variables p = n \<and> 0 < n \<and> number_of_objectives p = 1
     \<and> number_of_constraints p = m \<and> 0 < m \<and> evaluate_function p \<noteq> None
     \<and> evaluate_function p \<noteq> Some (Evaluate_raw Linear_slope) \<and> evaluate_constraint p \<noteq> None
     \<and> plain_fields n p \<and> nadir_value p = None"

lemma constrained_shape_behaviour:
  "behaviour p = behaviour q \<Longrightarrow> constrained_shape p n m \<longleftrightarrow> constrained_shape q n m"
  using behaviour_eqD [of p q] by (simp add: constrained_shape_def plain_fields_def)

lemma is_feasible_imposes:
  assumes "constrained_shape (fields p) n (length cs)" "imposes p n cs" "erase q = erase p" "length x = n"
  shows "\<exists>q'. coco_is_feasible q (map Real x) = Inr (feasible cs x, q') \<and> erase q' = erase p \<and> fields q' = fields q"
proof -
  obtain q' where q': "call_evaluate_constraint q (map Real x) = Inr (map (\<lambda>c. Real (c x)) cs, q')"
    "erase q' = erase p" "fields q' = fields q"
    using assms(2-4) unfolding imposes_def by blast
  have s: "constrained_shape (fields q) n (length cs)"
    using assms(1) constrained_shape_behaviour [OF erase_fields [OF assms(3)]] by simp
  have "list_all (\<lambda>v. \<not> Real 0 < v) (map (\<lambda>c. Real (c x)) cs) = feasible cs x"
    by (auto simp: feasible_def list_all_iff not_less)
  then have "coco_is_feasible q (map Real x) = Inr (feasible cs x, q')"
    using s assms(4) q'(1)
    by (auto simp: coco_is_feasible_def constrained_shape_def coco_problem_get_dimension_def)
  then show ?thesis using q'(2,3) by blast
qed

text \<open>The effect of the bookkeeping: the value of an infeasible point is not recorded.\<close>

definition record_feasible :: "bool \<Rightarrow> real \<Rightarrow> coco_problem_s \<Rightarrow> coco_problem_s" where
  "record_feasible ok v p = (if ok then record_value v p else problem_increment_evaluate_function p)"

lemma behaviour_increment_function [simp]:
  "behaviour (problem_increment_evaluate_function p) = behaviour p"
  by (simp add: behaviour_def problem_increment_evaluate_function_def)

lemma behaviour_record_feasible [simp]: "behaviour (record_feasible ok v p) = behaviour p"
  by (simp add: record_feasible_def)

lemma bookkeeping_constrained:
  assumes "constrained_shape (fields p) n (length cs)" "imposes p n cs" "erase q = erase p" "length x = n"
  shows "\<exists>q'. bookkeeping (map Real x) (Real v # y, q) = Inr (Real v # y, q') \<and> erase q' = erase p
    \<and> fields q' = record_feasible (feasible cs x) v (fields q)"
proof -
  let ?q = "with_fields problem_increment_evaluate_function q"
  have e: "erase ?q = erase p" using assms(3) by (simp add: erase_with_fields)
  obtain q' where q': "coco_is_feasible ?q (map Real x) = Inr (feasible cs x, q')" "erase q' = erase p" "fields q' = fields ?q"
    using is_feasible_imposes [OF assms(1,2) e assms(4)] by blast
  have "0 < number_of_constraints (problem_increment_evaluate_function (fields q))"
    using assms(1) behaviour_eqD(5) [OF erase_fields [OF assms(3)]]
    by (simp add: constrained_shape_def problem_increment_evaluate_function_def)
  then have code: "bookkeeping (map Real x) (Real v # y, q) =
      (if Real v < best_observed_fvalue (fields ?q) \<and> feasible cs x
       then Inr (Real v # y, with_fields (coco_problem_set_best_observed_f_value (Real v)) q')
       else if Real v < best_observed_fvalue (fields ?q) then Inr (Real v # y, q') else Inr (Real v # y, ?q))"
    using q'(1) by (simp add: bookkeeping_def Let_def)
  have set: "behaviour (coco_problem_set_best_observed_f_value (Real v) r) = behaviour r" for r
    by (simp add: behaviour_def coco_problem_set_best_observed_f_value_def)
  show ?thesis unfolding code using q'(2,3) e
    by (auto simp: record_feasible_def record_value_def Let_def erase_with_fields set)
qed

lemma evaluate_constrained:
  assumes "constrained_shape (fields p) n (length cs)" "implements p n F" "imposes p n cs"
    and "erase q = erase p" "length x = n"
  shows "\<exists>q'. evaluate_function_by (call_evaluate_function q) q (map Real x) = Inr ([Real (F x)], q')
    \<and> erase q' = erase p \<and> fields q' = record_feasible (feasible cs x) (F x) (fields q)"
proof -
  have s: "constrained_shape (fields q) n (length cs)"
    using assms(1) constrained_shape_behaviour [OF erase_fields [OF assms(4)]] by simp
  obtain q' where q': "call_evaluate_function q (map Real x) = Inr ([Real (F x)], q')"
    "erase q' = erase p" "fields q' = fields q"
    using assms(2,4,5) unfolding implements_def by blast
  have "check_point (fields q) (number_of_objectives (fields q)) (map Real x) = Inr None"
    using s assms(5) by (intro check_point_finite) (auto simp: constrained_shape_def)
  then have "evaluate_function_by (call_evaluate_function q) q (map Real x) = bookkeeping (map Real x) ([Real (F x)], q')"
    using s q'(1) by (auto simp: evaluate_function_by_def constrained_shape_def)
  then show ?thesis using bookkeeping_constrained [OF assms(1,3) q'(2) assms(5), of "F x" "[]"] q'(3) by simp
qed

lemma assert_best_feasible:
  assumes "constrained_shape (fields p) n (length cs)" "imposes p n cs" "erase q = erase p" "length x = n"
    and "best_value (fields p) = [Real b]" "feasible cs x \<Longrightarrow> b \<le> v"
  shows "\<exists>q'. assert_best_if_feasible name (map Real x) ([Real v], q) = Inr ([Real v], q')
    \<and> erase q' = erase p \<and> fields q' = fields q"
    and "\<exists>q'. stacked_check (map Real x) ([Real v], q) = Inr ([Real v], q') \<and> erase q' = erase p \<and> fields q' = fields q"
proof -
  obtain q' where q': "coco_is_feasible q (map Real x) = Inr (feasible cs x, q')" "erase q' = erase p" "fields q' = fields q"
    using is_feasible_imposes [OF assms(1-4)] by blast
  note b = behaviour_eqD [OF erase_fields [OF assms(3)]]
  have "0 < number_of_constraints (fields q)" "best_value (fields q') = [Real b]"
    using assms(1,5) b q'(3) by (simp_all add: constrained_shape_def)
  moreover have "feasible cs x \<Longrightarrow> assert_best s (fields q') [Real v] = Inr ()" for s
    using calculation(2) assms(6) by (simp add: assert_best_def)
  ultimately show "\<exists>q'. assert_best_if_feasible name (map Real x) ([Real v], q) = Inr ([Real v], q')
      \<and> erase q' = erase p \<and> fields q' = fields q"
    "\<exists>q'. stacked_check (map Real x) ([Real v], q) = Inr ([Real v], q') \<and> erase q' = erase p \<and> fields q' = fields q"
    using q' by (auto simp: assert_best_if_feasible_def stacked_check_def)
qed

section \<open>Stacked problems\<close>

lemma stacked_eval:
  assumes p1: "objective_problem p1 n L F best fo" and cs: "imposes (Stacked p p1 p2) n cs"
    and p: "constrained_shape p n (length cs)" "evaluate_function p = Some Evaluate_stacked" "number_of_objectives (fields p2) = 0"
    and best: "best_value p = [Real b]" "feasible cs x \<Longrightarrow> b \<le> F x"
    and q: "erase q = erase (Stacked p p1 p2)" and x: "length x = n"
  shows "\<exists>q'. call_evaluate_function q (map Real x) = Inr ([Real (F x)], q')
    \<and> erase q' = erase (Stacked p p1 p2) \<and> fields q' = fields q"
proof -
  obtain p' q1 q2 where q': "q = Stacked p' q1 q2" and e: "behaviour p' = behaviour p" "erase q1 = erase p1" "erase q2 = erase p2"
    using q by (auto simp: erase_Stacked)
  note b = behaviour_eqD [OF e(1)] behaviour_eqD [OF erase_fields [OF e(2)]] behaviour_eqD [OF erase_fields [OF e(3)]]
  have s1: "shape (fields p1) n" "implements p1 n F"
    using p1 by (simp_all add: objective_problem_def well_formed_def)
  obtain i1 where i1: "evaluate_function_by (call_evaluate_function q1) q1 (map Real x) = Inr ([Real (F x)], i1)" "erase i1 = erase p1"
    using evaluate_objective [OF s1 e(2) x] by blast
  have o: "number_of_objectives (fields q1) = 1" "number_of_objectives (fields q2) = 0" "number_of_objectives p' = 1"
    "evaluate_function p' = Some Evaluate_stacked"
    using s1(1) p b by (simp_all add: shape_def constrained_shape_def)
  have "erase (Stacked p' i1 q2) = erase (Stacked p p1 p2)" using e i1(2) by simp
  from assert_best_feasible(2) [OF _ cs this x] p(1) best obtain r where
    r: "stacked_check (map Real x) ([Real (F x)], Stacked p' i1 q2) = Inr ([Real (F x)], r)"
      "erase r = erase (Stacked p p1 p2)" "fields r = p'"
    by auto
  have "call_evaluate_function q (map Real x) = stacked_check (map Real x) ([Real (F x)], Stacked p' i1 q2)"
    using o i1(1) by (simp add: q' Let_def)
  then show ?thesis using r q' by simp
qed

lemma stacked_implements:
  assumes "objective_problem p1 n L F best fo" "imposes (Stacked p p1 p2) n cs"
    and "constrained_shape p n (length cs)" "evaluate_function p = Some Evaluate_stacked" "number_of_objectives (fields p2) = 0"
    and "best_value p = [Real b]" "\<And>x. length x = n \<Longrightarrow> feasible cs x \<Longrightarrow> b \<le> F x"
  shows "implements (Stacked p p1 p2) n F"
  unfolding implements_def using stacked_eval [OF assms(1-6)] assms(7) by blast

section \<open>Transformed problems\<close>

text \<open>
  At a finite point \<open>x\<close> the transformation evaluates function and constraints of the inner problem at
  \<open>T x\<close>; \<open>own\<close> says that it has a constraint function of its own.
\<close>

locale constrained_transformation =
  fixes t :: transformation and n :: nat and name :: string and own :: bool
    and T :: "real list \<Rightarrow> real list" and G :: "real \<Rightarrow> real"
  assumes evaluates:
    "number_of_variables p = n \<Longrightarrow> length x = n \<Longrightarrow> eval (map Real (T x)) = Inr ([Real v], inner') \<Longrightarrow>
       transformation_evaluate t p inner eval (map Real x)
         = assert_best_if_feasible name (map Real x) ([Real (G v)], Transformed p t inner')"
    and imposes_at:
    "own \<Longrightarrow> number_of_variables p = n \<Longrightarrow> length x = n \<Longrightarrow> eval (map Real (T x)) = Inr (y, inner') \<Longrightarrow>
       transformation_evaluate_constraint t p inner eval (map Real x) = Inr (y, Transformed p t inner')"
    and passes: "\<not> own \<Longrightarrow> length x = n \<Longrightarrow> T x = x"
    and length_T: "length x = n \<Longrightarrow> length (T x) = n"
begin

lemma transformed_imposes:
  assumes inner: "constrained_shape (fields inner) n (length cs)" "imposes inner n cs"
    and p: "number_of_variables p = n" "evaluate_constraint p = Some (if own then Constraint_own else Constraint_inner)"
  shows "imposes (Transformed p t inner) n (map (\<lambda>c x. c (T x)) cs)"
  unfolding imposes_def
proof (intro allI impI)
  fix q and x :: "real list"
  assume q: "erase q = erase (Transformed p t inner)" and x: "length x = n"
  then obtain p' inner' where q': "q = Transformed p' t inner'"
    and e: "behaviour p' = behaviour p" "erase inner' = erase inner"
    by (auto simp: erase_Transformed)
  note b = behaviour_eqD [OF e(1)] behaviour_eqD [OF erase_fields [OF e(2)]]
  have "0 < n" "number_of_variables (fields inner') = n" "evaluate_constraint (fields inner') \<noteq> None"
    using inner(1) b by (simp_all add: constrained_shape_def)
  from evaluate_imposes [OF inner(2) e(2) length_T [OF x] this] obtain i where
    i: "evaluate_constraint_by (call_evaluate_constraint inner') inner' (map Real (T x))
      = Inr (map (\<lambda>c. Real (c (T x))) cs, i)" "erase i = erase inner" by blast
  have "call_evaluate_constraint q (map Real x) = Inr (map (\<lambda>c. Real (c (T x))) cs, Transformed p' t i)"
  proof (cases own)
    case True
    have "number_of_variables p' = n" using p b by simp
    from imposes_at [where eval = "evaluate_constraint_by (call_evaluate_constraint inner') inner'", OF True this x i(1)]
    show ?thesis using True p b by (simp add: q' Let_def)
  next
    case False
    then show ?thesis using passes [OF False x] i(1) p b by (simp add: q' Let_def)
  qed
  then show "\<exists>q'. call_evaluate_constraint q (map Real x) = Inr (map (\<lambda>c. Real (c x)) (map (\<lambda>c x. c (T x)) cs), q')
      \<and> erase q' = erase (Transformed p t inner) \<and> fields q' = fields q"
    using i(2) e(1) q' by (simp add: comp_def)
qed

lemma transformed_constrained:
  assumes inner: "constrained_shape (fields inner) n (length cs)" "implements inner n F" "imposes inner n cs"
    and p: "constrained_shape p n (length cs)" "evaluate_function p = Some Evaluate_own"
      "evaluate_constraint p = Some (if own then Constraint_own else Constraint_inner)"
    and best: "best_value p = [Real b]" "\<And>x. length x = n \<Longrightarrow> feasible cs (T x) \<Longrightarrow> b \<le> G (F (T x))"
  shows "implements (Transformed p t inner) n (\<lambda>x. G (F (T x)))"
  unfolding implements_def
proof (intro allI impI)
  fix q and x :: "real list"
  assume q: "erase q = erase (Transformed p t inner)" and x: "length x = n"
  then obtain p' inner' where q': "q = Transformed p' t inner'"
    and e: "behaviour p' = behaviour p" "erase inner' = erase inner"
    by (auto simp: erase_Transformed)
  note b = behaviour_eqD [OF e(1)]
  have n: "number_of_variables p' = n" "evaluate_function p' = Some Evaluate_own"
    using p b by (simp_all add: constrained_shape_def)
  obtain i where i: "evaluate_function_by (call_evaluate_function inner') inner' (map Real (T x)) = Inr ([Real (F (T x))], i)"
    "erase i = erase inner"
    using evaluate_constrained [OF inner e(2) length_T [OF x]] by blast
  have "number_of_variables p = n" using p(1) by (simp add: constrained_shape_def)
  note c = transformed_imposes [OF inner(1,3) this p(3)]
  have "erase (Transformed p' t i) = erase (Transformed p t inner)" using e i(2) by simp
  moreover have "feasible (map (\<lambda>c x. c (T x)) cs) x \<Longrightarrow> b \<le> G (F (T x))"
    using best(2) [OF x] by (simp add: feasible_def)
  ultimately obtain r where r: "assert_best_if_feasible name (map Real x) ([Real (G (F (T x)))], Transformed p' t i)
      = Inr ([Real (G (F (T x)))], r)" "erase r = erase (Transformed p t inner)" "fields r = p'"
    using assert_best_feasible(1) [OF _ c _ x, of "Transformed p' t i" b "G (F (T x))" name] p(1) best(1) by auto
  have "call_evaluate_function q (map Real x)
      = assert_best_if_feasible name (map Real x) ([Real (G (F (T x)))], Transformed p' t i)"
    using evaluates [where eval = "evaluate_function_by (call_evaluate_function inner') inner'", OF n(1) x i(1)] n(2)
    by (simp add: q' Let_def)
  then show "\<exists>q''. call_evaluate_function q (map Real x) = Inr ([Real (G (F (T x)))], q'')
      \<and> erase q'' = erase (Transformed p t inner) \<and> fields q'' = fields q"
    using r q' by simp
qed

end

lemma transform_vars_Real:
  assumes "number_of_variables p = n" "length x = n" "eval z = Inr (y, inner')" "new_x (map Real x) = Inr z"
  shows "transform_vars check p t inner eval new_x (map Real x) = check (map Real x) (y, Transformed p t inner')"
  using assms by (simp add: transform_vars_def)

lemma transform_constraint_Real:
  assumes "number_of_variables p = n" "length x = n" "eval z = Inr (y, inner')" "new_x (map Real x) = z"
  shows "transform_constraint m p t inner eval new_x (map Real x) = Inr (y, Transformed p t inner')"
  using assms by (simp add: transform_constraint_def)

lemma shifted_x_Real:
  assumes "length offset = n" "length x = n"
  shows "shifted_x (map Real offset) n (map Real x) = map Real (shift_point offset x)"
  using assms by (simp add: shifted_x_def shift_point_def)

lemma oscillated_x_Real:
  "length x = n \<Longrightarrow> oscillated_x n (map Real x) = map Real (map oscillation x)"
  by (auto simp: oscillated_x_def intro: nth_equalityI)

interpretation constrained_shift: constrained_transformation "Vars_shift (map Real offset)" "length offset"
    "''transform_vars_shift_evaluate_function''" True "shift_point offset" "\<lambda>v. v"
  for offset
  by unfold_locales (auto simp: transform_vars_shift_evaluate_function_def transform_vars_shift_evaluate_constraint_def
      shifted_x_Real intro!: transform_vars_Real transform_constraint_Real)

interpretation constrained_scale: constrained_transformation "Obj_scale (Real factor)" n
    "''transform_obj_scale_evaluate_function''" False "\<lambda>x. x" "\<lambda>v. v * factor"
  for factor n
  by unfold_locales (simp_all add: transform_obj_scale_evaluate_function_def transform_obj_def)

interpretation constrained_oscillate: constrained_transformation Vars_oscillate n
    "''transform_vars_oscillate_evaluate_function''" True "map oscillation" "\<lambda>v. v"
  for n
  by unfold_locales (auto simp: transform_vars_oscillate_evaluate_function_def transform_vars_oscillate_evaluate_constraint_def
      oscillated_x_Real comp_def intro!: transform_vars_Real transform_constraint_Real)

chapter \<open>Transformations of constrained problems\<close>

text \<open>
  What the last steps of the allocators of the constrained suite construct: the shift of the whole
  problem, the combined type and the factor of the objective function keep that the best parameter is
  the constrained minimum and that the initial solution is feasible.
\<close>

section \<open>Constrained problems\<close>

text \<open>
  \<open>constrained q n L F cs best x0\<close>: a new problem with the objective function \<open>F\<close> and the constraints
  \<open>cs\<close>, whose best parameter \<open>best\<close> is feasible and minimal among the feasible points; the initial
  solution \<open>x0\<close> is feasible.
\<close>

definition minimal_at :: "nat \<Rightarrow> (real list \<Rightarrow> real) \<Rightarrow> (real list \<Rightarrow> real) list \<Rightarrow> real list \<Rightarrow> bool" where
  "minimal_at n F cs best \<longleftrightarrow> length best = n \<and> feasible cs best
     \<and> (\<forall>x. length x = n \<longrightarrow> feasible cs x \<longrightarrow> F best \<le> F x)"

definition constrained :: "coco_problem_t \<Rightarrow> nat \<Rightarrow> nat \<Rightarrow> (real list \<Rightarrow> real) \<Rightarrow> (real list \<Rightarrow> real) list \<Rightarrow>
    real list \<Rightarrow> real list \<Rightarrow> bool" where
  "constrained q n L F cs best x0 \<longleftrightarrow> constrained_shape (fields q) n (length cs) \<and> implements q n F \<and> imposes q n cs
     \<and> fresh (fields q) \<and> (\<exists>s. problem_name (fields q) = Some s \<and> length s \<le> L)
     \<and> best_value (fields q) = [Real (F best)] \<and> best_parameter (fields q) = Some (map Real best)
     \<and> minimal_at n F cs best \<and> initial_solution (fields q) = Some (map Real x0) \<and> length x0 = n \<and> feasible cs x0"

lemma constrainedD:
  assumes "constrained q n L F cs best x0"
  shows "constrained_shape (fields q) n (length cs)" "implements q n F" "imposes q n cs" "fresh (fields q)"
    "best_value (fields q) = [Real (F best)]" "best_parameter (fields q) = Some (map Real best)"
    "minimal_at n F cs best" "initial_solution (fields q) = Some (map Real x0)" "length x0 = n" "feasible cs x0"
  using assms by (simp_all add: constrained_def)

lemma constrained_copy:
  assumes c: "constrained inner n L F cs best x0" and k: "length prefix + 2 \<le> k" "L + k \<le> 441"
  shows "\<exists>p. coco_problem_transformed_allocate inner t prefix = Inr (Transformed p t inner)
    \<and> constrained_shape p n (length cs) \<and> evaluate_constraint p = Some Constraint_inner \<and> fresh p
    \<and> best_value p = [Real (F best)] \<and> best_parameter p = Some (map Real best)
    \<and> initial_solution p = Some (map Real x0) \<and> (\<exists>s. problem_name p = Some s \<and> length s \<le> L + k)"
proof -
  let ?f = "fields inner"
  obtain s where s: "problem_name ?f = Some s" "length s \<le> L" using c by (auto simp: constrained_def)
  note D = constrainedD [OF c]
  have "length best = n" using D(7) by (simp add: minimal_at_def)
  then have "\<exists>p. coco_problem_duplicate ?f = Inr p \<and> constrained_shape p n (length cs) \<and> fresh p
      \<and> best_value p = [Real (F best)] \<and> best_parameter p = Some (map Real best)
      \<and> initial_solution p = Some (map Real x0)"
    using D by (auto simp: coco_problem_duplicate_def coco_problem_allocate_def coco_allocate_vector_def
        constrained_shape_def plain_fields_def copy_vector_def copy_optional_def fresh_def)
  then obtain p where p: "coco_problem_duplicate ?f = Inr p" "constrained_shape p n (length cs)" "fresh p"
    "best_value p = [Real (F best)]" "best_parameter p = Some (map Real best)" "initial_solution p = Some (map Real x0)" by blast
  define q where "q = p\<lparr>evaluate_function := Some Evaluate_inner,
    evaluate_constraint := Some Constraint_inner, problem_name := Some (prefix @ ''('' @ s @ '')'')\<rparr>"
  have "coco_problem_transformed_allocate inner t prefix = Inr (Transformed q t inner)"
    using p(1) s k
    by (simp add: coco_problem_transformed_allocate_def coco_problem_set_name_def coco_vstrdupf_def
        COCO_VSTRDUPF_BUFLEN_def q_def)
  then show ?thesis using p s(2) k(1)
    by (intro exI [of _ q]) (simp add: q_def constrained_shape_def plain_fields_def fresh_def)
qed

section \<open>The shift\<close>

lemma shift_point_unshift: "length x = length offset \<Longrightarrow> shift_point offset (unshift_point offset x) = x"
  by (auto simp: shift_point_def unshift_point_def intro: nth_equalityI)

lemma add_offset_Real:
  "length x = length offset \<Longrightarrow> add_offset (map Real offset) (map Real x) = map Real (unshift_point offset x)"
  by (simp add: add_offset_def unshift_point_def)

lemma minimal_at_shift:
  assumes "minimal_at n F cs best" "length offset = n"
  shows "minimal_at n (\<lambda>x. F (shift_point offset x)) (map (\<lambda>c x. c (shift_point offset x)) cs) (unshift_point offset best)"
  using assms by (auto simp: minimal_at_def feasible_def shift_point_unshift)

lemma constrained_vars_shift:
  assumes c: "constrained q n L F cs best x0" and L: "L + 22 \<le> 441" and o: "length offset = n"
  shows "\<exists>q'. transform_vars_shift q (map Real offset) False = Inr q'
    \<and> constrained q' n (L + 22) (\<lambda>x. F (shift_point offset x)) (map (\<lambda>c x. c (shift_point offset x)) cs)
        (unshift_point offset best) (unshift_point offset x0)"
proof -
  let ?t = "Vars_shift (map Real offset)"
  note D = constrainedD [OF c]
  obtain p where p: "coco_problem_transformed_allocate q ?t ''transform_vars_shift'' = Inr (Transformed p ?t q)"
    "constrained_shape p n (length cs)" "evaluate_constraint p = Some Constraint_inner" "fresh p"
    "best_value p = [Real (F best)]" "best_parameter p = Some (map Real best)" "initial_solution p = Some (map Real x0)"
    "\<exists>s. problem_name p = Some s \<and> length s \<le> L + 22"
    using constrained_copy [OF c, of "''transform_vars_shift''" 22 ?t] L by auto
  have best: "length best = n" using D(7) by (simp add: minimal_at_def)
  have b: "shift_point offset (unshift_point offset best) = best" using best o by (simp add: shift_point_unshift)
  define r where "r = p\<lparr>evaluate_function := Some Evaluate_own, evaluate_constraint := Some Constraint_own,
    best_parameter := Some (map Real (unshift_point offset best)),
    initial_solution := Some (map Real (unshift_point offset x0))\<rparr>"
  have code: "transform_vars_shift q (map Real offset) False = Inr (Transformed r ?t q)"
    using D(1,9) p best o
    by (simp add: transform_vars_shift_def constrained_shape_def copy_vector_def own_function_def own_constraint_def
        get_best_parameter_def set_best_parameter_def add_offset_Real r_def)
  have r: "constrained_shape r n (length cs)" "evaluate_function r = Some Evaluate_own"
    "evaluate_constraint r = Some (if True then Constraint_own else Constraint_inner)" "best_value r = [Real (F best)]"
    "number_of_variables r = n"
    using p by (simp_all add: r_def constrained_shape_def plain_fields_def)
  have "implements (Transformed r ?t q) n (\<lambda>x. F (shift_point offset x))"
    using constrained_shift.transformed_constrained [where inner = q and offset = offset and cs = cs and F = F and p = r and b = "F best"] D(1-3,7) r o
    by (auto simp: minimal_at_def)
  moreover have "imposes (Transformed r ?t q) n (map (\<lambda>c x. c (shift_point offset x)) cs)"
    using constrained_shift.transformed_imposes [where inner = q and offset = offset and cs = cs and p = r] D(1,3) r o by auto
  moreover have "feasible (map (\<lambda>c x. c (shift_point offset x)) cs) (unshift_point offset x0)"
    using D(9,10) o by (simp add: feasible_def shift_point_unshift)
  ultimately have "constrained (Transformed r ?t q) n (L + 22) (\<lambda>x. F (shift_point offset x))
      (map (\<lambda>c x. c (shift_point offset x)) cs) (unshift_point offset best) (unshift_point offset x0)"
    using r p minimal_at_shift [OF D(7) o] o b
    by (simp add: constrained_def r_def fresh_def)
  then show ?thesis using code by blast
qed

section \<open>The factor of the objective function and the type\<close>

lemma constrained_obj_scale:
  assumes c: "constrained q n L F cs best x0" and L: "L + 21 \<le> 441" and a: "0 \<le> a"
  shows "\<exists>q'. transform_obj_scale q (Real a) = Inr q' \<and> constrained q' n (L + 21) (\<lambda>x. F x * a) cs best x0"
proof -
  let ?t = "Obj_scale (Real a)"
  note D = constrainedD [OF c]
  obtain p where p: "coco_problem_transformed_allocate q ?t ''transform_obj_scale'' = Inr (Transformed p ?t q)"
    "constrained_shape p n (length cs)" "evaluate_constraint p = Some Constraint_inner" "fresh p"
    "best_value p = [Real (F best)]" "best_parameter p = Some (map Real best)" "initial_solution p = Some (map Real x0)"
    "\<exists>s. problem_name p = Some s \<and> length s \<le> L + 21"
    using constrained_copy [OF c, of "''transform_obj_scale''" 21 ?t] L by auto
  define r where "r = p\<lparr>evaluate_function := Some Evaluate_own, best_value := [Real (F best * a)]\<rparr>"
  have code: "transform_obj_scale q (Real a) = Inr (Transformed r ?t q)"
    using D(1) p by (simp add: transform_obj_scale_def constrained_shape_def own_function_def set_best_value_def r_def)
  have r: "constrained_shape r n (length cs)" "evaluate_function r = Some Evaluate_own"
    "evaluate_constraint r = Some (if False then Constraint_own else Constraint_inner)" "best_value r = [Real (F best * a)]"
    "number_of_variables r = n"
    using p by (simp_all add: r_def constrained_shape_def plain_fields_def)
  have m: "minimal_at n (\<lambda>x. F x * a) cs best"
    using D(7) a by (auto simp: minimal_at_def intro: mult_right_mono)
  have "implements (Transformed r ?t q) n (\<lambda>x. F x * a)"
    using constrained_scale.transformed_constrained [where inner = q and n = n and cs = cs and F = F and p = r and b = "F best * a" and factor = a] D(1-3) r m
    by (auto simp: minimal_at_def)
  moreover have "imposes (Transformed r ?t q) n cs"
    using constrained_scale.transformed_imposes [where inner = q and n = n and cs = cs and p = r and factor = a] D(1,3) r by auto
  ultimately have "constrained (Transformed r ?t q) n (L + 21) (\<lambda>x. F x * a) cs best x0"
    using r p m D(9,10) by (simp add: constrained_def r_def fresh_def)
  then show ?thesis using code by blast
qed

lemma constrained_type:
  assumes c: "constrained q n L F cs best x0" and t: "length t + length t_c < 400"
  shows "\<exists>q'. set_combined_type t t_c q = Inr q' \<and> constrained q' n L F cs best x0
    \<and> problem_type (fields q') = Some (t @ ''_'' @ t_c)"
proof -
  let ?p = "(fields q)\<lparr>problem_type := Some (t @ ''_'' @ t_c)\<rparr>"
  let ?q = "with_fields (\<lambda>_. ?p) q"
  have "set_combined_type t t_c q = Inr ?q"
    using t by (simp add: set_combined_type_def coco_problem_set_type_def coco_vstrdupf_def COCO_VSTRDUPF_BUFLEN_def)
  moreover have e: "erase ?q = erase q" by (cases q) (simp_all add: behaviour_def)
  then have "constrained ?q n L F cs best x0"
    using c constrained_shape_behaviour [OF erase_fields [OF e]] implements_erase [OF e] imposes_erase [OF e]
    by (simp add: constrained_def fresh_def)
  ultimately show ?thesis by simp
qed

chapter \<open>Objective functions with a gradient\<close>

text \<open>
  Objective functions whose gradient the code can evaluate, and the direction that the constrained
  problems take from it: scaled, it leads from the optimum to a point within the region of interest.
\<close>

section \<open>Gradients of problems\<close>

definition gradient_problem :: "coco_problem_t \<Rightarrow> nat \<Rightarrow> (real list \<Rightarrow> real list) \<Rightarrow> bool" where
  "gradient_problem p n g \<longleftrightarrow> (\<forall>q x y. erase q = erase p \<longrightarrow> length x = n \<longrightarrow> length y = n \<longrightarrow>
     bbob_evaluate_gradient q (map Real x) y = Inr (map Real (g x)))"

lemma gradient_problem_erase: "erase p = erase q \<Longrightarrow> gradient_problem p n g \<longleftrightarrow> gradient_problem q n g"
  by (simp add: gradient_problem_def)

context gradient_contract
begin

lemma gradient_basic:
  assumes "ok" "number_of_variables b = n" "evaluate_function b = Some (Evaluate_raw r)" "r \<noteq> Linear_slope"
  shows "gradient_problem (Basic b) n g"
  unfolding gradient_problem_def
proof (intro allI impI)
  fix q and x :: "real list" and y :: "double list"
  assume "erase q = erase (Basic b)" and x: "length x = n" "length y = n"
  then obtain b' where q: "q = Basic b'" and e: "behaviour b' = behaviour b" by (auto simp: erase_Basic)
  have "number_of_variables b' = n" "evaluate_function b' = Some (Evaluate_raw r)"
    using assms(2,3) behaviour_eqD(1,3) [OF e] by simp_all
  then show "bbob_evaluate_gradient q (map Real x) y = Inr (map Real (g x))"
    using evaluates [OF assms(1) x, of b'] assms(4) by (simp add: q)
qed

end

lemma gradient_at_Real:
  "length x = number_of_variables p \<Longrightarrow> gradient_at p eval (map Real x) y = eval y"
  by (simp add: gradient_at_def)

lemma gradient_vars_shift:
  assumes "gradient_problem inner n g" "number_of_variables p = n" "length offset = n"
  shows "gradient_problem (Transformed p (Vars_shift (map Real offset)) inner) n (\<lambda>x. g (shift_point offset x))"
  unfolding gradient_problem_def
proof (intro allI impI)
  let ?t = "Vars_shift (map Real offset)"
  fix q and x :: "real list" and y :: "double list"
  assume "erase q = erase (Transformed p ?t inner)" and x: "length x = n" "length y = n"
  then obtain p' inner' where q: "q = Transformed p' ?t inner'" and e: "behaviour p' = behaviour p" "erase inner' = erase inner"
    by (auto simp: erase_Transformed)
  have n: "number_of_variables p' = n" using assms(2) behaviour_eqD(3) [OF e(1)] by simp
  have "length (shift_point offset x) = n" using assms(3) by (simp add: shift_point_def)
  then have "bbob_evaluate_gradient inner' (map Real (shift_point offset x)) y = Inr (map Real (g (shift_point offset x)))"
    using assms(1) e(2) x(2) unfolding gradient_problem_def by blast
  then show "bbob_evaluate_gradient q (map Real x) y = Inr (map Real (g (shift_point offset x)))"
    using n x(1) shifted_x_Real [OF assms(3) x(1)]
    by (simp add: q transform_vars_shift_evaluate_gradient_def gradient_at_Real)
qed

lemma gradient_obj_shift:
  assumes "gradient_problem inner n g" "number_of_variables p = n"
  shows "gradient_problem (Transformed p (Obj_shift c) inner) n g"
  unfolding gradient_problem_def
proof (intro allI impI)
  fix q and x :: "real list" and y :: "double list"
  assume "erase q = erase (Transformed p (Obj_shift c) inner)" and x: "length x = n" "length y = n"
  then obtain p' inner' where q: "q = Transformed p' (Obj_shift c) inner'" and e: "behaviour p' = behaviour p" "erase inner' = erase inner"
    by (auto simp: erase_Transformed)
  have "number_of_variables p' = n" using assms(2) behaviour_eqD(3) [OF e(1)] by simp
  then show "bbob_evaluate_gradient q (map Real x) y = Inr (map Real (g x))"
    using assms(1) e(2) x unfolding gradient_problem_def
    by (simp add: q transform_obj_shift_evaluate_gradient_def gradient_at_Real)
qed

section \<open>Smooth problems\<close>

definition smooth ::
    "coco_problem_t result \<Rightarrow> nat \<Rightarrow> nat \<Rightarrow> (real list \<Rightarrow> real) \<Rightarrow> real list \<Rightarrow> real \<Rightarrow> (real list \<Rightarrow> real list) \<Rightarrow> bool" where
  "smooth r n L F best fo g \<longleftrightarrow> (\<exists>p. r = Inr p \<and> solved p n L F best fo \<and> gradient_problem p n g)"

lemma smooth_bind:
  assumes "smooth r n L F best fo g"
    "\<And>p. solved p n L F best fo \<Longrightarrow> gradient_problem p n g \<Longrightarrow> smooth (k p) n L' F' best' fo' g'"
  shows "smooth (rbind r k) n L' F' best' fo' g'"
  using assms by (auto simp: smooth_def)

lemma smooth_vars_shift:
  assumes "solved p n L F best fo" "gradient_problem p n g" "L + 22 \<le> 441" "length offset = n"
  shows "smooth (transform_vars_shift p (map Real offset) False) n (L + 22) (\<lambda>x. F (shift_point offset x))
    (unshift_point offset best) fo (\<lambda>x. g (shift_point offset x))"
proof -
  obtain q where q: "transform_vars_shift p (map Real offset) False = Inr q"
    "solved q n (L + 22) (\<lambda>x. F (shift_point offset x)) (unshift_point offset best) fo"
    using solved_vars_shift [OF assms(1,3,4)] by (auto simp: solves_def)
  have "number_of_variables (fields p) = n" using new_problemD(3) [OF solvedD(1) [OF assms(1)]] .
  then obtain r where r: "q = Transformed r (Vars_shift (map Real offset)) p"
    using q(1) assms(4)
    by (auto simp: transform_vars_shift_def rbind_eq_Inr copy_vector_def coco_problem_transformed_allocate_def
        own_function_def own_constraint_def set_best_parameter_def Let_def split: if_splits option.splits)
  have "number_of_variables r = n" using new_problemD(3) [OF solvedD(1) [OF q(2)]] r by simp
  then show ?thesis using q r gradient_vars_shift [OF assms(2) _ assms(4)] by (auto simp: smooth_def)
qed

lemma smooth_obj_shift:
  assumes "solved p n L F best fo" "gradient_problem p n g" "L + 21 \<le> 441"
  shows "smooth (transform_obj_shift p (Real c)) n (L + 21) (\<lambda>x. F x + c) best (fo + c) g"
proof -
  obtain q where q: "transform_obj_shift p (Real c) = Inr q" "solved q n (L + 21) (\<lambda>x. F x + c) best (fo + c)"
    using solved_obj_shift [OF assms(1,3)] by (auto simp: solves_def)
  obtain r where r: "q = Transformed r (Obj_shift (Real c)) p"
    using q(1)
    by (auto simp: transform_obj_shift_def rbind_eq_Inr coco_problem_transformed_allocate_def
        own_function_def set_best_value_def Let_def split: if_splits option.splits)
  have "number_of_variables r = n" using new_problemD(3) [OF solvedD(1) [OF q(2)]] r by simp
  then show ?thesis using q r gradient_obj_shift [OF assms(2)] by (auto simp: smooth_def)
qed

lemma basic_allocated:
  assumes "rbind (allocate_basic name prefix r n best) (evaluate_at_best ev) = Inr p"
  shows "\<exists>b. p = Basic b \<and> evaluate_function b = Some (Evaluate_raw r)"
  using assms
  by (auto simp: rbind_eq_Inr allocate_basic_def coco_problem_allocate_from_scalars_def coco_problem_set_id_def
      evaluate_at_best_def set_best_value_at_def coco_problem_allocate_def Let_def split: if_splits option.splits)

lemma sphere_smooth:
  assumes "2 \<le> n" "n < 100"
  shows "smooth (f_sphere_allocate n) n 40 sphere_value (origin n) 0 (quadratic_gradient n (\<lambda>i. 1))"
proof -
  obtain p where p: "f_sphere_allocate n = Inr p" "solved p n 40 sphere_value (origin n) 0"
    using basic_solves(1) [OF assms] by (auto simp: solves_def)
  obtain b where b: "p = Basic b" "evaluate_function b = Some (Evaluate_raw Sphere)"
    using basic_allocated p(1) unfolding f_sphere_allocate_def by blast
  have "number_of_variables b = n" using new_problemD(3) [OF solvedD(1) [OF p(2)]] b(1) by simp
  then have "gradient_problem p n (quadratic_gradient n (\<lambda>i. 1))"
    unfolding b(1) using b(2) by (intro sphere_gradient.gradient_basic) simp_all
  then show ?thesis using p by (auto simp: smooth_def)
qed

section \<open>Names\<close>

text \<open>A problem with a name and an id, to be stacked.\<close>

definition named_problem :: "coco_problem_t \<Rightarrow> string \<Rightarrow> bool" where
  "named_problem q t \<longleftrightarrow> (\<exists>s. problem_id (fields q) = Some s \<and> length s \<le> 100)
     \<and> (\<exists>s. problem_name (fields q) = Some s \<and> length s \<le> 150) \<and> problem_type (fields q) = Some t"

lemma smooth_name_problem:
  assumes p: "solved p n L F best fo" "gradient_problem p n g"
    and t: "templates_ok id_template name_template [f, i, d]" "length ptype \<le> 30"
  shows "\<exists>q. name_problem id_template name_template ptype f i d p = Inr q \<and> solved q n 150 F best fo
    \<and> gradient_problem q n g \<and> named_problem q ptype"
proof -
  let ?id = "format_lu id_template [f, i, d]" and ?name = "format_lu name_template [f, i, d]"
  let ?q = "with_fields (\<lambda>_. (fields p)\<lparr>problem_id := Some ?id, problem_name := Some ?name, problem_type := Some ptype\<rparr>) p"
  have "name_problem id_template name_template ptype f i d p = Inr ?q"
    using t by (simp add: name_problem_def Let_def templates_ok_def coco_problem_set_id_def coco_problem_set_name_def
        coco_problem_set_type_def coco_vstrdupf_def COCO_VSTRDUPF_BUFLEN_def)
  moreover have e: "erase ?q = erase p" by (cases p) (simp_all add: behaviour_def)
  have len: "length ?name \<le> 150" "length ?id \<le> 100" using t(1) by (simp_all add: templates_ok_def)
  have o: "objective_problem p n L F best fo" using p(1) by (simp add: solved_def new_problem_def)
  have "problem_name (fields ?q) = Some ?name" "best_parameter (fields ?q) = Some (map Real best)"
    using new_problemD(6) [OF solvedD(1) [OF p(1)]] by simp_all
  then have "objective_problem ?q n 150 F best fo"
    using objective_problem_erase [OF o e] len(1) solvedD(3) [OF p(1)] by blast
  then have "solved ?q n 150 F best fo"
    using solvedD [OF p(1)] by (simp add: solved_def new_problem_def fresh_def)
  moreover have "named_problem ?q ptype" using len by (simp add: named_problem_def)
  ultimately show ?thesis using gradient_problem_erase [OF e] p(2) by blast
qed

section \<open>The feasible direction\<close>

lemma largest_abs_Real:
  "\<exists>m. foldl (\<lambda>m i. dmax m \<bar>map Real x ! i\<bar>) (Real a) is = Real m \<and> (\<forall>b. a \<le> b \<longrightarrow> (\<forall>i \<in> set is. \<bar>x ! i\<bar> \<le> b) \<longrightarrow> m \<le> b)"
  if "\<forall>i \<in> set is. i < length x"
  using that
proof (induction "is" arbitrary: a)
  case (Cons i "is")
  have "dmax (Real a) \<bar>map Real x ! i\<bar> = Real (max a \<bar>x ! i\<bar>)" using Cons.prems by (simp add: dmax_def max_def)
  moreover obtain m where "foldl (\<lambda>m i. dmax m \<bar>map Real x ! i\<bar>) (Real (max a \<bar>x ! i\<bar>)) is = Real m"
    "\<forall>b. max a \<bar>x ! i\<bar> \<le> b \<longrightarrow> (\<forall>i \<in> set is. \<bar>x ! i\<bar> \<le> b) \<longrightarrow> m \<le> b"
    using Cons.IH [of "max a \<bar>x ! i\<bar>"] Cons.prems by auto
  ultimately show ?case by (intro exI [of _ m]) simp
qed simp

text \<open>The largest relative step is at least each of the ratios, and it is one of them.\<close>

lemma largest_relative_Real:
  assumes "\<forall>i \<in> set is. i < length g \<and> i < length x \<and> \<bar>x ! i\<bar> < 5"
  shows "\<exists>m. foldl (\<lambda>m i. dmax (dmax m (ddiv (map Real g ! i) (Real 5 - map Real x ! i)))
       (ddiv (map Real g ! i) (Real (- 5) - map Real x ! i))) (Real a) is = Real m \<and> a \<le> m
     \<and> (\<forall>i \<in> set is. g ! i / (5 - x ! i) \<le> m \<and> g ! i / (- 5 - x ! i) \<le> m)"
  using assms
proof (induction "is" arbitrary: a)
  case (Cons i "is")
  define b where "b = max (max a (g ! i / (5 - x ! i))) (g ! i / (- 5 - x ! i))"
  have i: "i < length g" "i < length x" "\<bar>x ! i\<bar> < 5" using Cons.prems by simp_all
  then have "5 - x ! i \<noteq> 0" "- 5 - x ! i \<noteq> 0" by auto
  then have "dmax (dmax (Real a) (ddiv (map Real g ! i) (Real 5 - map Real x ! i)))
      (ddiv (map Real g ! i) (Real (- 5) - map Real x ! i)) = Real b"
    using i by (simp add: b_def dmax_def max_def)
  moreover obtain m where "foldl (\<lambda>m i. dmax (dmax m (ddiv (map Real g ! i) (Real 5 - map Real x ! i)))
       (ddiv (map Real g ! i) (Real (- 5) - map Real x ! i))) (Real b) is = Real m" "b \<le> m"
    "\<forall>i \<in> set is. g ! i / (5 - x ! i) \<le> m \<and> g ! i / (- 5 - x ! i) \<le> m"
    using Cons.IH [of b] Cons.prems by auto
  ultimately show ?case by (intro exI [of _ m]) (auto simp: b_def)
qed simp

lemma feasible_direction_ok:
  assumes g: "length g = n" "\<exists>v \<in> set g. v \<noteq> 0" and x: "length x = n" "\<forall>v \<in> set x. \<bar>v\<bar> < 5"
    and seed: "seed_ok (rseed + 412)"
  shows "\<exists>a > 0. feasible_direction_set_length (map Real g) (map Real x) n rseed = Inr (map Real (map (\<lambda>v. a * v) g))
    \<and> (\<forall>i < n. \<bar>x ! i + a * g ! i\<bar> \<le> 5)"
proof -
  have x5: "\<bar>x ! i\<bar> < 5" if "i < n" for i using that x by simp
  obtain m where m: "largest_abs (map Real x) n = Real m" "m \<le> 5"
    using largest_abs_Real [of "[0..<n]" x 0] x(1) x5 by (fastforce simp: largest_abs_def less_imp_le)
  obtain l where l: "largest_relative (map Real g) (map Real x) n = Real l" "0 \<le> l"
    "\<forall>i < n. g ! i / (5 - x ! i) \<le> l \<and> g ! i / (- 5 - x ! i) \<le> l"
    using largest_relative_Real [of "[0..<n]" g x 0] g(1) x(1) x5 by (auto simp: largest_relative_def)
  have bounds: "g ! i \<le> l * (5 - x ! i)" "- g ! i \<le> l * (5 + x ! i)" if "i < n" for i
  proof -
    have p: "0 < 5 - x ! i" "0 < 5 + x ! i" using x5 [OF that] by auto
    show "g ! i \<le> l * (5 - x ! i)" using l(3) that pos_divide_le_eq [OF p(1)] by blast
    have "- 5 - x ! i < 0" using p(2) by simp
    then have "l * (- 5 - x ! i) \<le> g ! i" using l(3) that neg_divide_le_eq by blast
    then show "- g ! i \<le> l * (5 + x ! i)" by (simp add: algebra_simps)
  qed
  obtain k where k: "k < n" "g ! k \<noteq> 0" using g by (auto simp: in_set_conv_nth)
  have "l \<noteq> 0" using bounds [OF k(1)] k(2) by auto
  then have pos: "0 < l" using l(2) by simp
  obtain r where r: "bbob2009_unif 1 (rseed + 412) = Inr r" "length r = 1" "0 < r ! 0" "r ! 0 < 1"
    using bbob2009_unif_ok [OF seed, of 1] by (auto simp: length_Suc_conv)
  define c where "c = 3 / 4 + r ! 0 * (1 - 3 / 4)"
  have c: "0 < c" "c \<le> 1" using r by (simp_all add: c_def)
  have "feasible_direction_set_length (map Real g) (map Real x) n rseed
      = Inr (vector_scale (map Real g) (Real c) (Real l))"
    using g(1) x(1) m l(1) r(1) by (simp add: feasible_direction_set_length_def c_def)
  then have code: "feasible_direction_set_length (map Real g) (map Real x) n rseed = Inr (map Real (map (\<lambda>v. c / l * v) g))"
    using vector_scale_Real [of l g c] pos by simp
  have "\<bar>x ! i + c / l * g ! i\<bar> \<le> 5" if "i < n" for i
  proof -
    have p: "0 < 5 - x ! i" "0 < 5 + x ! i" using x5 [OF that] by auto
    have "c / l * g ! i \<le> c * (5 - x ! i)" "c / l * (- g ! i) \<le> c * (5 + x ! i)"
      using bounds [OF that] mult_left_mono [of _ _ "c / l"] c(1) pos by fastforce+
    moreover have "c * (5 - x ! i) \<le> 5 - x ! i" "c * (5 + x ! i) \<le> 5 + x ! i"
      using c p by (simp_all add: mult_left_le_one_le)
    ultimately show ?thesis by (simp add: abs_le_iff)
  qed
  then show ?thesis using code c(1) pos by (intro exI [of _ "c / l"]) simp
qed

chapter \<open>Stacks of objective function and constraints\<close>

text \<open>
  The problems of the constrained suite without nonlinear transformations are built without an error:
  the origin of the stacked problem, and the shifted origin of the whole problem, is the constrained
  minimum of a function that its gradient at the origin supports.
\<close>

section \<open>The stack of the objective function and its constraints\<close>

text \<open>The stack \<open>Stacked p q q2\<close> before its best value is evaluated.\<close>

definition stack_ready :: "coco_problem_s \<Rightarrow> coco_problem_t \<Rightarrow> nat \<Rightarrow> real list \<Rightarrow> linear list \<Rightarrow> bool" where
  "stack_ready p q2 n fd ds \<longleftrightarrow> constraint_problem n fd q2 ds \<and> directs fd ds \<and> length fd = n
     \<and> constrained_shape p n (length ds) \<and> evaluate_function p = Some Evaluate_stacked
     \<and> evaluate_constraint p = Some Constraint_stacked \<and> best_parameter p = Some (zero n)
     \<and> initial_solution p = Some (map Real fd) \<and> fresh p \<and> (\<exists>s. problem_name p = Some s \<and> length s \<le> 355)"

definition along_gradient :: "real list \<Rightarrow> real list \<Rightarrow> real list \<Rightarrow> bool" where
  "along_gradient v xopt fd \<longleftrightarrow> (\<exists>a > 0. fd = map (\<lambda>w. a * w) v) \<and> (\<forall>i < length v. \<bar>xopt ! i + fd ! i\<bar> \<le> 5)"

lemma stack_objective_ok:
  assumes q: "solved q n 150 F best fo" "gradient_problem q n g" "named_problem q t"
    and g: "length (g (origin n)) = n" "\<exists>v \<in> set (g (origin n)). v \<noteq> 0"
    and x: "length xopt = n" "\<forall>v \<in> set xopt. \<bar>v\<bar> < 5" and seed: "seed_ok (rseed + 412)"
    and names: "length s0 \<le> 300" "templates_ok id_template name_template [f, i, n]"
    and range: "n < 10 ^ 20" "f < 10 ^ 20" "i + m < 2 ^ 64" "1 \<le> m"
    and draws: "m = 1 \<or> (\<forall>k \<in> {1..m}. draws_ok f i n k)" and fd0: "length fd0 = n"
  shows "\<exists>p q2 fd ds t_c. stack_objective (Some s0) f n i m rseed fd0 (map Real xopt) id_template name_template q
      = Inr (Stacked p q q2, t, t_c) \<and> length t_c \<le> 20 \<and> stack_ready p q2 n fd ds
    \<and> along_gradient (g (origin n)) xopt fd \<and> length ds = total_constraints id_template m"
proof -
  have n: "0 < n" using solvedD(4) [OF q(1)] .
  have "bbob_evaluate_gradient q (map Real (origin n)) fd0 = Inr (map Real (g (origin n)))"
    using q(2) fd0 unfolding gradient_problem_def by (metis length_replicate)
  then have gradient: "bbob_evaluate_gradient q (zero n) fd0 = Inr (map Real (g (origin n)))" by simp
  obtain a where a: "0 < a" "feasible_direction_set_length (map Real (g (origin n))) (map Real xopt) n rseed
      = Inr (map Real (map (\<lambda>v. a * v) (g (origin n))))" "\<forall>i < n. \<bar>xopt ! i + a * g (origin n) ! i\<bar> \<le> 5"
    using feasible_direction_ok [OF g x seed] by blast
  define fd where "fd = map (\<lambda>v. a * v) (g (origin n))"
  have fd: "length fd = n" "\<exists>v \<in> set fd. v \<noteq> 0" using g a(1) by (auto simp: fd_def)
  have along: "along_gradient (g (origin n)) xopt fd"
    using a(1,3) g(1) by (auto simp: along_gradient_def fd_def)
  obtain q2 ds where q2: "c_linear_cons_bbob_problem_allocate (Some s0) f n i m id_template name_template (map Real fd) = Inr q2"
    "constraint_problem n fd q2 ds" "directs fd ds" "length ds = total_constraints id_template m"
    using linear_cons_ok [OF names n range fd draws] by blast
  obtain id1 name1 where names1: "problem_id (fields q) = Some id1" "problem_name (fields q) = Some name1"
    "length name1 \<le> 150" "problem_type (fields q) = Some t"
    using q(3) by (auto simp: named_problem_def)
  obtain t_c where t_c: "problem_type (fields q2) = Some t_c" "length t_c \<le> 20"
    using q2(2) by (auto simp: constraint_problem_def)
  have stack: "constraint_stack n q2 ds" using q2(2) by (simp add: constraint_problem_def)
  have sh: "shape (fields q) n" using q(1) by (simp add: solved_def new_problem_def objective_problem_def well_formed_def)
  then have "number_of_variables (fields q) = n" "number_of_integer_variables (fields q) = 0"
    "number_of_objectives (fields q) \<le> 1"
    by (simp_all add: shape_def)
  from stacked_allocate_ok [OF q2(2) fd(1) this(1) names1(1,2) this(2,3)] obtain p s s' where
    p: "coco_problem_stacked_allocate q q2 (smallest_values_of_interest (fields q2)) (largest_values_of_interest (fields q2))
      = Inr (Stacked p q q2)" "evaluate_function p = Some Evaluate_stacked" "evaluate_constraint p = Some Constraint_stacked"
    "number_of_variables p = n" "number_of_objectives p = number_of_objectives (fields q)"
    "number_of_constraints p = number_of_constraints (fields q) + length ds" "plain_fields n p"
    "initial_solution p = Some (map Real fd)" "best_parameter p = Some (replicate n NaN)" "nadir_value p = None"
    "problem_name p = Some s'" "length s' \<le> length name1 + 205" "evaluations p = 0" "evaluations_constraints p = 0"
    "best_observed_fvalue p = Real DBL_MAX" "best_observed_evaluation p = 0" "final_target_delta p = Real (1 / 10 ^ 8)"
    by blast
  define r where "r = p\<lparr>best_parameter := Some (zero n)\<rparr>"
  have "stack_objective (Some s0) f n i m rseed fd0 (map Real xopt) id_template name_template q
      = Inr (Stacked r q q2, t, t_c)"
    using gradient a(2) q2(1) p(1,9) names1(4) t_c(1)
    by (simp add: stack_objective_def fd_def [symmetric] set_best_parameter_def r_def)
  moreover have "stack_ready r q2 n fd ds"
    using p(2-17) q2(2,3) fd(1) sh names1(3) n constraint_stack_fieldsD(6) [OF stack]
    by (simp add: stack_ready_def r_def constrained_shape_def shape_def plain_fields_def fresh_def)
  ultimately show ?thesis using t_c(2) along q2(4) by blast
qed

section \<open>The best value\<close>

lemma constrained_erase:
  assumes "constrained q n L F cs best x0" "erase r = erase q" "fields r = fields q"
  shows "constrained r n L F cs best x0"
  using assms implements_erase [OF assms(2)] imposes_erase [OF assms(2)] by (simp add: constrained_def)

lemma minimal_origin:
  assumes "directs fd ds" "length fd = n" "supports n F g (origin n)" "along_gradient (g (origin n)) xopt fd"
  shows "minimal_at n F (map constraint_value ds) (origin n)"
  unfolding minimal_at_def
proof (intro conjI allI impI)
  obtain a where a: "0 < a" "fd = map (\<lambda>w. a * w) (g (origin n))" using assms(4) by (auto simp: along_gradient_def)
  show "feasible (map constraint_value ds) (origin n)" using assms(1,2) by (auto simp: feasible_def directs_def)
  fix x :: "real list" assume x: "length x = n" and f: "feasible (map constraint_value ds) x"
  then have "0 \<le> rdot fd x" using assms(1,2) unfolding directs_def feasible_def by auto
  then have "0 \<le> rdot (g (origin n)) x" using a by (simp add: rdot_scaled zero_le_mult_iff)
  moreover have "F (origin n) + rdot (g (origin n)) x \<le> F (moved (origin n) 1 x)"
    using assms(3) x unfolding supports_def by simp
  moreover have "moved (origin n) 1 x = x" using x by (auto intro: nth_equalityI)
  ultimately show "F (origin n) \<le> F x" by simp
qed simp

lemma evaluate_stack_ok:
  assumes q: "solved q n L F best fo" and p: "stack_ready p q2 n fd ds"
    and m: "minimal_at n F (map constraint_value ds) (origin n)"
  shows "\<exists>r. evaluate_in_place (Stacked p q q2) = Inr r
    \<and> constrained (reset_counters r) n 355 F (map constraint_value ds) (origin n) fd"
proof -
  let ?cs = "map constraint_value ds" and ?v = "F (origin n)"
  let ?p = "p\<lparr>best_value := [Real ?v]\<rparr>"
  have c: "constraint_problem n fd q2 ds" "directs fd ds" "length fd = n" using p by (simp_all add: stack_ready_def)
  have stack: "constraint_stack n q2 ds" using c(1) by (simp add: constraint_problem_def)
  note f2 = constraint_stack_fieldsD [OF stack]
  have o: "objective_problem q n L F best fo" using q by (simp add: solved_def new_problem_def)
  obtain q' where q': "coco_evaluate_function q (map Real (origin n)) = Inr ([Real ?v], q')"
    "objective_problem q' n L F best fo" "erase q' = erase q"
    using coco_evaluate_function_objective [OF o, of "origin n"] by auto
  have sh: "number_of_objectives (fields r) = 1 \<and> number_of_constraints (fields r) = 0 \<and> number_of_variables (fields r) = n"
    if "objective_problem r n L F best fo" for r
    using that by (simp add: objective_problem_def well_formed_def shape_def)
  have shape_p: "constrained_shape ?p n (length ?cs)" "evaluate_function ?p = Some Evaluate_stacked"
    using p by (simp_all add: stack_ready_def constrained_shape_def plain_fields_def)
  have sum: "imposes (Stacked ?p q' q2) n ?cs"
    using stacked_imposes [of "[]" q' n ?cs q2 ?p] stack_imposes [OF stack] f2 sh [OF q'(2)] p
    by (simp add: stack_ready_def constrained_shape_def)
  have "feasible ?cs (origin n)" using m by (simp add: minimal_at_def)
  obtain r where r: "stacked_check (map Real (origin n)) ([Real ?v], Stacked ?p q' q2) = Inr ([Real ?v], r)"
    "erase r = erase (Stacked ?p q' q2)" "fields r = ?p"
    using assert_best_feasible(2) [OF _ sum refl, of "origin n" ?v ?v] shape_p(1) by auto
  have "evaluate_in_place (Stacked p q q2) = Inr r"
    using p q'(1) f2(3) sh [OF o] r(1)
    by (simp add: stack_ready_def constrained_shape_def Let_def)
  moreover have "implements (Stacked ?p q' q2) n F"
    using stacked_implements [OF q'(2) sum shape_p] f2(3) m by (simp add: minimal_at_def)
  then have "implements r n F" "imposes r n ?cs"
    using implements_erase [OF r(2)] imposes_erase [OF r(2)] sum by simp_all
  moreover have e: "erase (reset_counters r) = erase r"
    by (simp add: reset_counters_def erase_with_fields behaviour_def)
  ultimately show ?thesis
    using implements_erase [OF e] imposes_erase [OF e] p m r(3) c(2,3)
    by (auto simp: constrained_def stack_ready_def reset_counters_def constrained_shape_def plain_fields_def fresh_def
        feasible_def directs_def)
qed

end
