(* ===== verification/Coco_Constrained_Properties.thy ===== *)
theory Coco_Constrained_Properties
  imports Coco_Constrained_Solved Coco_Bbob_Runs
begin

text \<open>
  The results on the constrained suite.
\<close>

chapter \<open>The sphere problems\<close>

text \<open>
  The sphere problems of the constrained suite, from the call of the suite to runs of evaluations:
  every step of the construction succeeds, the best parameter is the constrained minimum, the initial
  solution is feasible and within the region of interest, and the record of a run is the one of the
  feasible points.
\<close>

section \<open>Templates\<close>

definition cons_suite_names :: "string list" where
  "cons_suite_names = [''bbob-constrained'', ''bbob-constrained-active-only'', ''bbob-constrained-no-disguise'']"

lemma cons_suite_cases:
  assumes "suite_name \<in> set cons_suite_names"
  obtains "suite_name = ''bbob-constrained''" | "suite_name = ''bbob-constrained-active-only''"
    | "suite_name = ''bbob-constrained-no-disguise''"
  using assms by (auto simp: cons_suite_names_def)

lemma cons_suite_prefix: "suite_name \<in> set cons_suite_names \<Longrightarrow> cons_prefix suite_name = suite_name"
  by (auto simp: cons_suite_names_def cons_prefix_def)

lemma cons_id: "suite_name \<in> set cons_suite_names \<Longrightarrow>
    format_lu (suite_name @ ''_f%03lu_i%02lu_d%02lu'') [f, i, d]
      = suite_name @ ''_f'' @ pad 3 (show_nat f) @ ''_i'' @ pad 2 (show_nat i) @ ''_d'' @ pad 2 (show_nat d)"
  by (erule cons_suite_cases) (simp_all add: format_lu_steps)

lemma cons_name: "suite_name \<in> set cons_suite_names \<Longrightarrow>
    format_lu (suite_name @ '' suite problem f%lu instance %lu in %luD'') [f, i, d]
      = suite_name @ '' suite problem f'' @ show_nat f @ '' instance '' @ show_nat i @ '' in '' @ show_nat d @ ''D''"
  by (erule cons_suite_cases) (simp_all add: format_lu_steps)

lemma cons_suite_fine:
  "suite_name \<in> set cons_suite_names \<Longrightarrow> coco_problem_id_is_fine suite_name \<and> length suite_name \<le> 28"
  by (erule cons_suite_cases) (simp_all add: coco_problem_id_is_fine_def isalpha_def)

lemma cons_texts:
  assumes "suite_name \<in> set cons_suite_names" "f < 10 ^ 20" "i < 10 ^ 20" "d < 10 ^ 20"
  shows "length (format_lu (suite_name @ ''_f%03lu_i%02lu_d%02lu'') [f, i, d]) \<le> 100"
    "length (format_lu (suite_name @ '' suite problem f%lu instance %lu in %luD'') [f, i, d]) \<le> 150"
    "coco_problem_id_is_fine (format_lu (suite_name @ ''_f%03lu_i%02lu_d%02lu'') [f, i, d])"
proof -
  have len: "length (show_nat f) \<le> 20" "length (show_nat i) \<le> 20" "length (show_nat d) \<le> 20"
    using length_show_nat [of _ 20] assms(2-4) by simp_all
  moreover from this have "max 3 (length (show_nat f)) \<le> 20" "max 2 (length (show_nat i)) \<le> 20" "max 2 (length (show_nat d)) \<le> 20"
    by simp_all
  ultimately show "length (format_lu (suite_name @ ''_f%03lu_i%02lu_d%02lu'') [f, i, d]) \<le> 100"
    "length (format_lu (suite_name @ '' suite problem f%lu instance %lu in %luD'') [f, i, d]) \<le> 150"
    using cons_suite_fine [OF assms(1)] unfolding cons_id [OF assms(1)] cons_name [OF assms(1)]
    by (simp_all add: length_pad del: max.bounded_iff)
  show "coco_problem_id_is_fine (format_lu (suite_name @ ''_f%03lu_i%02lu_d%02lu'') [f, i, d])"
    using cons_suite_fine [OF assms(1)] digits_fine
    by (simp add: cons_id [OF assms(1)] coco_problem_id_is_fine_def isalpha_def)
qed

lemma cons_templates_ok:
  assumes "suite_name \<in> set cons_suite_names" "f < 10 ^ 20" "i < 10 ^ 20" "d < 10 ^ 20"
  shows "templates_ok (suite_name @ ''_f%03lu_i%02lu_d%02lu'')
    (suite_name @ '' suite problem f%lu instance %lu in %luD'') [f, i, d]"
  using cons_texts [OF assms] cons_suite_fine [OF assms(1)] by (simp add: templates_ok_def)

lemma cons_not_large_scale:
  "suite_name \<in> set cons_suite_names \<Longrightarrow>
     large_scale (suite_name @ '' suite problem f%lu instance %lu in %luD'') = Inr False"
  by (erule cons_suite_cases) (simp only: append.simps, code_simp)+

lemma cons_total:
  "suite_name \<in> set cons_suite_names \<Longrightarrow> total_constraints (suite_name @ ''_f%03lu_i%02lu_d%02lu'') m
     = m + (if suite_name = ''bbob-constrained-active-only'' then 0 else m div 2)"
  by (erule cons_suite_cases) (simp_all add: total_constraints_def)

section \<open>The sphere\<close>

lemma supports_shift:
  assumes "supports n F g (shift_point offset x)" "length offset = n" "length x = n"
  shows "supports n (\<lambda>x. F (shift_point offset x) + c) (\<lambda>x. g (shift_point offset x)) x"
  unfolding supports_def
proof (intro allI impI)
  fix u :: "real list" assume u: "length u = n"
  have "shift_point offset (moved x 1 u) = moved (shift_point offset x) 1 u"
    using assms(2,3) by (auto simp: shift_point_def moved_def)
  then show "F (shift_point offset x) + c + rdot (g (shift_point offset x)) u \<le> F (shift_point offset (moved x 1 u)) + c"
    using assms u by (simp add: supports_def shift_point_def)
qed

lemma sphere_objective:
  assumes inst: "instance_data f i s n xopt fo"
    and t: "templates_ok id_template name_template [f, i, n]" "large_scale name_template = Inr False"
  shows "\<exists>q. f_sphere_bbob_problem_allocate f n i s id_template name_template = Inr q
    \<and> solved q n 150 (\<lambda>x. sphere_value (shift_point xopt x) + fo) xopt fo
    \<and> gradient_problem q n (\<lambda>x. quadratic_gradient n (\<lambda>i. 1) (shift_point xopt x)) \<and> named_problem q ''1-separable''"
proof -
  note D = instance_dataD [OF inst]
  obtain p1 where p1: "f_sphere_allocate n = Inr p1" "solved p1 n 40 sphere_value (origin n) 0"
    "gradient_problem p1 n (quadratic_gradient n (\<lambda>i. 1))"
    using sphere_smooth [OF D(1,2)] by (auto simp: smooth_def)
  obtain p2 where p2: "transform_vars_shift p1 (map Real xopt) False = Inr p2"
    "solved p2 n 62 (\<lambda>x. sphere_value (shift_point xopt x)) xopt 0"
    "gradient_problem p2 n (\<lambda>x. quadratic_gradient n (\<lambda>i. 1) (shift_point xopt x))"
    using smooth_vars_shift [OF p1(2,3) _ D(7)] D(7) by (auto simp: smooth_def)
  obtain p3 where p3: "transform_obj_shift p2 (Real fo) = Inr p3"
    "solved p3 n 83 (\<lambda>x. sphere_value (shift_point xopt x) + fo) xopt fo"
    "gradient_problem p3 n (\<lambda>x. quadratic_gradient n (\<lambda>i. 1) (shift_point xopt x))"
    using smooth_obj_shift [OF p2(2,3), of fo] by (auto simp: smooth_def)
  have "norm_if_large_scale name_template p2 = Inr p2" using t(2) by (simp add: norm_if_large_scale_def)
  then have "f_sphere_bbob_problem_allocate f n i s id_template name_template
      = name_problem id_template name_template ''1-separable'' f i n p3"
    using D(6,9,10) p1(1) p2(1) p3(1) by (simp add: f_sphere_bbob_problem_allocate_def)
  then show ?thesis using smooth_name_problem [OF p3(2,3) t(1), of "''1-separable''"] by simp
qed

section \<open>The whole problem\<close>

definition shifted_constraints :: "real list \<Rightarrow> linear list \<Rightarrow> (real list \<Rightarrow> real) list" where
  "shifted_constraints offset ds = map (\<lambda>d x. constraint_value d (shift_point offset x)) ds"

lemma constrained_allocate_ok:
  assumes q: "objective f n i rseed id_template name_template = Inr q" "solved q n 150 F best fo"
      "gradient_problem q n g" "named_problem q t" "length t \<le> 30"
    and g: "length (g (origin n)) = n" "\<exists>v \<in> set (g (origin n)). v \<noteq> 0" "supports n F g (origin n)"
    and x: "length xopt = n" "\<forall>v \<in> set xopt. \<bar>v\<bar> < 5" and seed: "seed_ok (rseed + 412)"
    and names: "length s0 \<le> 300" "templates_ok id_template name_template [f, i, n]"
    and range: "n < 10 ^ 20" "f < 10 ^ 20" "i + m < 2 ^ 64" "1 \<le> m"
    and draws: "m = 1 \<or> (\<forall>k \<in> {1..m}. draws_ok f i n k)" and fd0: "length fd0 = n"
  shows "\<exists>r ds x0. constrained_allocate objective Inr (Some s0) f n i m rseed fd0 (map Real xopt) id_template name_template
      = Inr r \<and> constrained r n 377 (\<lambda>x. F (shift_point xopt x)) (shifted_constraints xopt ds) xopt x0
    \<and> length ds = total_constraints id_template m \<and> (\<forall>v \<in> set x0. \<bar>v\<bar> \<le> 5)"
proof -
  obtain p q2 fd ds t_c where p: "stack_objective (Some s0) f n i m rseed fd0 (map Real xopt) id_template name_template q
      = Inr (Stacked p q q2, t, t_c)" "length t_c \<le> 20" "stack_ready p q2 n fd ds"
    "along_gradient (g (origin n)) xopt fd" "length ds = total_constraints id_template m"
    using stack_objective_ok [OF q(2-4) g(1,2) x seed names range draws fd0] by blast
  have fd: "directs fd ds" "length fd = n" using p(3) by (simp_all add: stack_ready_def)
  obtain r where r: "evaluate_in_place (Stacked p q q2) = Inr r"
    "constrained (reset_counters r) n 355 F (map constraint_value ds) (origin n) fd"
    using evaluate_stack_ok [OF q(2) p(3) minimal_origin [OF fd g(3) p(4)]] by blast
  obtain r' where r': "transform_vars_shift (reset_counters r) (map Real xopt) False = Inr r'"
    "constrained r' n 377 (\<lambda>x. F (shift_point xopt x)) (shifted_constraints xopt ds) xopt (unshift_point xopt fd)"
    using constrained_vars_shift [OF r(2) _ x(1)] x(1) by (auto simp: shifted_constraints_def comp_def)
  obtain r'' where r'': "set_combined_type t t_c r' = Inr r''"
    "constrained r'' n 377 (\<lambda>x. F (shift_point xopt x)) (shifted_constraints xopt ds) xopt (unshift_point xopt fd)"
    using constrained_type [OF r'(2), of t t_c] q(5) p(2) by auto
  have "0 < n" using solvedD(4) [OF q(2)] .
  then have "constrained_allocate objective Inr (Some s0) f n i m rseed fd0 (map Real xopt) id_template name_template = Inr r''"
    using q(1) p(1) r(1) r'(1) r''(1) by (simp add: constrained_allocate_def coco_allocate_vector_def)
  moreover have "\<bar>v\<bar> \<le> 5" if "v \<in> set (unshift_point xopt fd)" for v
    using that p(4) g(1) x(1) by (auto simp: unshift_point_def along_gradient_def add.commute)
  ultimately show ?thesis using r''(2) p(5) by blast
qed

lemma constrained_named:
  assumes c: "constrained q n L F cs best x0"
    and s: "suite_name \<in> set cons_suite_names" "f < 10 ^ 20" "i < 10 ^ 20" "d < 10 ^ 20"
  shows "\<exists>r. name_in_cons_suite suite_name f d i q = Inr r \<and> constrained r n 150 F cs best x0"
proof -
  let ?id = "format_lu (suite_name @ ''_f%03lu_i%02lu_d%02lu'') [f, i, d]"
    and ?name = "format_lu (suite_name @ '' suite problem f%lu instance %lu in %luD'') [f, i, d]"
  let ?p = "(fields q)\<lparr>problem_id := Some ?id, problem_name := Some ?name\<rparr>"
  have texts: "suite_name @ format_lu ''_f%03lu_i%02lu_d%02lu'' [f, i, d] = ?id"
    "suite_name @ format_lu '' suite problem f%lu instance %lu in %luD'' [f, i, d] = ?name"
    unfolding cons_id [OF s(1)] cons_name [OF s(1)] by (simp_all add: format_lu_steps)
  note t = cons_texts [OF s]
  have "name_in_cons_suite suite_name f d i q = Inr (with_fields (\<lambda>_. ?p) q)"
    unfolding name_in_cons_suite_def Let_def texts using t
    by (simp add: coco_problem_set_id_def coco_problem_set_name_def coco_vstrdupf_def COCO_VSTRDUPF_BUFLEN_def)
  moreover have e: "erase (with_fields (\<lambda>_. ?p) q) = erase q" by (cases q) (simp_all add: behaviour_def)
  then have "constrained (with_fields (\<lambda>_. ?p) q) n 150 F cs best x0"
    using c t(2) constrained_shape_behaviour [OF erase_fields [OF e]] implements_erase [OF e] imposes_erase [OF e]
    by (simp add: constrained_def fresh_def)
  ultimately show ?thesis by blast
qed

text \<open>The function of the sphere problems: \<open>z\<close> is the optimum of the unconstrained function.\<close>

definition sphere_function :: "real list \<Rightarrow> real list \<Rightarrow> real \<Rightarrow> real list \<Rightarrow> real" where
  "sphere_function z xopt fo x = (sphere_value (shift_point z (shift_point xopt x)) + fo) * 10"

lemma cons_sphere_call:
  assumes "1 \<le> f" "f \<le> 6" "i \<le> 100000"
  shows "coco_get_cons_bbob_problem suite_name f d i
    = Inr (Constrained C_sphere suite_name f d i (nb_of_linear_constraints f d) (int f + 20000 * int i))"
proof -
  have "\<lceil>real f / real 6\<rceil> = 1" using assms(1,2) by (intro ceiling_unique) auto
  then have "obj_function_type f = 1" by (simp add: obj_function_type_def)
  moreover have "to_long (size_t (f + size_t (20000 * i))) = int f + 20000 * int i"
    using assms by (simp add: to_long_def)
  ultimately show ?thesis by (simp add: coco_get_cons_bbob_problem_def Let_def)
qed

lemma nb_bounds:
  assumes "1 \<le> f" "f \<le> 6" "d \<le> 44"
  shows "1 \<le> nb_of_linear_constraints f d" "nb_of_linear_constraints f d \<le> 200"
    "f = 1 \<Longrightarrow> nb_of_linear_constraints f d = 1"
  using assms by (auto simp: nb_of_linear_constraints_def Let_def c_mod_def)

lemma constrained_sphere_problem:
  assumes s: "suite_name \<in> set cons_suite_names" and f: "1 \<le> f" "f \<le> 6" and d: "2 \<le> d" "d \<le> 44"
    and i: "i \<le> 100000" and s0: "length s0 \<le> 300"
    and draws: "f = 1 \<or> (\<forall>k \<in> {1..nb_of_linear_constraints f d}. draws_ok f i d k)"
  obtains q ds z xopt x0 fo where "suite_cons_bbob_problem (Some s0) suite_name f d i = Inr q"
    "optimum (int f + 10000 * int i) d = Inr (map Real xopt)" "optimum (int f + 20000 * int i) d = Inr (map Real z)"
    "bbob2009_compute_fopt f i = Inr (Real fo)"
    "constrained q d 150 (sphere_function z xopt fo) (shifted_constraints xopt ds) xopt x0"
    "\<forall>v \<in> set x0. \<bar>v\<bar> \<le> 5" "length ds = nb_of_linear_constraints f d
      + (if suite_name = ''bbob-constrained-active-only'' then 0 else nb_of_linear_constraints f d div 2)"
proof -
  let ?m = "nb_of_linear_constraints f d"
  let ?id = "suite_name @ ''_f%03lu_i%02lu_d%02lu''" and ?name = "suite_name @ '' suite problem f%lu instance %lu in %luD''"
  define rseed where "rseed = int f + 20000 * int i"
  have small: "f < 10 ^ 20" "i < 10 ^ 20" "d < 10 ^ 20" using f(2) i d(2) by simp_all
  have seeds: "seed_ok (int f + 10000 * int i)" "seed_ok rseed" "seed_ok (rseed + 412)"
    using f i by (auto simp: rseed_def intro!: seed_ok_small)
  obtain fo where fo: "bbob2009_compute_fopt f i = Inr (Real fo)" using fopt_exists [of f i] f(2) i by auto
  obtain z where z: "instance_data f i rseed d z fo"
    using instance_exists [OF seeds(2) d _ _ fo] f(2) i by auto
  note Z = instance_dataD [OF z]
  obtain z' where z': "bbob2009_compute_xopt rseed d = Inr z'" "\<forall>v \<in> set z'. v \<noteq> 0"
    using bbob2009_compute_xopt_ok [OF seeds(2)] by blast
  have nonzero: "\<forall>v \<in> set z. v \<noteq> 0"
  proof -
    have "map Real z = map Real z'" using z' Z(6) by (simp add: optimum_def)
    then have "z = z'" by (rule map_injective) (simp add: inj_def)
    then show ?thesis using z'(2) by simp
  qed
  obtain xopt where xopt: "bbob2009_compute_xopt (int f + 10000 * int i) d = Inr xopt" "length xopt = d"
    "\<forall>v \<in> set xopt. - 4 \<le> v \<and> v < 4"
    using bbob2009_compute_xopt_ok [OF seeds(1), of d] by blast
  have x5: "\<forall>v \<in> set xopt. \<bar>v\<bar> < 5" using xopt(3) by force
  have t: "templates_ok ?id ?name [f, i, d]" using cons_templates_ok [OF s small] .
  obtain q where q: "f_sphere_bbob_problem_allocate f d i rseed ?id ?name = Inr q"
    "solved q d 150 (\<lambda>x. sphere_value (shift_point z x) + fo) z fo"
    "gradient_problem q d (\<lambda>x. quadratic_gradient d (\<lambda>i. 1) (shift_point z x))" "named_problem q ''1-separable''"
    using sphere_objective [OF z t cons_not_large_scale [OF s]] by blast
  let ?g = "\<lambda>x. quadratic_gradient d (\<lambda>i. 1) (shift_point z x)"
  have g: "length (?g (origin d)) = d" by (simp add: quadratic_gradient_def)
  have "?g (origin d) ! 0 = - 2 * z ! 0" using d(1) Z(7) by (simp add: quadratic_gradient_def shift_point_def)
  moreover have "z ! 0 \<noteq> 0" using nonzero d(1) Z(7) by (simp add: nth_mem)
  ultimately have "?g (origin d) ! 0 \<noteq> 0" by simp
  moreover have "?g (origin d) ! 0 \<in> set (?g (origin d))" using d(1) g by (intro nth_mem) simp
  ultimately have g0: "\<exists>v \<in> set (?g (origin d)). v \<noteq> 0" by blast
  have "supports d sphere_value (quadratic_gradient d (\<lambda>i. 1)) (shift_point z (origin d))"
    by (rule supports_cong [OF quadratic_supports [where n = d and c = "\<lambda>i. 1"]]) (simp_all add: quadratic_values(1))
  then have sup: "supports d (\<lambda>x. sphere_value (shift_point z x) + fo) ?g (origin d)"
    using supports_shift [OF _ Z(7)] by simp
  have m: "i + ?m < 2 ^ 64" "1 \<le> ?m" using nb_bounds(1,2) [OF f d(2)] i by auto
  have dr: "?m = 1 \<or> (\<forall>k \<in> {1..?m}. draws_ok f i d k)" using draws nb_bounds(3) [OF f d(2)] by blast
  obtain r ds x0 where r: "constrained_allocate f_sphere_bbob_problem_allocate Inr (Some s0) f d i ?m rseed
      (replicate d NaN) (map Real xopt) ?id ?name = Inr r"
    "constrained r d 377 (\<lambda>x. sphere_value (shift_point z (shift_point xopt x)) + fo) (shifted_constraints xopt ds) xopt x0"
    "length ds = total_constraints ?id ?m" "\<forall>v \<in> set x0. \<bar>v\<bar> \<le> 5"
    using constrained_allocate_ok [where objective = f_sphere_bbob_problem_allocate and ?fd0.0 = "replicate d NaN",
        OF q _ g g0 sup xopt(2) x5 seeds(3) s0 t small(3,1) m dr] by auto
  obtain r' where r': "transform_obj_scale r (Real 10) = Inr r'"
    "constrained r' d 398 (sphere_function z xopt fo) (shifted_constraints xopt ds) xopt x0"
    using constrained_obj_scale [OF r(2), of 10] by (auto simp: sphere_function_def [abs_def])
  obtain r'' where r'': "name_in_cons_suite suite_name f d i r' = Inr r''"
    "constrained r'' d 150 (sphere_function z xopt fo) (shifted_constraints xopt ds) xopt x0"
    using constrained_named [OF r'(2) s small] by blast
  have opt: "optimum (int f + 10000 * int i) d = Inr (map Real xopt)" using xopt(1) by (simp add: optimum_def)
  moreover have "to_long (size_t (f + size_t (10000 * i))) = int f + 10000 * int i"
    using f i by (simp add: to_long_def)
  ultimately have "construct_constrained (Some s0) C_sphere suite_name f d i ?m rseed = Inr r'"
    using r(1) r'(1) d(1)
    by (simp add: construct_constrained_def cons_suite_prefix [OF s] coco_allocate_vector_def
        f_sphere_c_linear_cons_bbob_problem_allocate_def)
  then have "suite_cons_bbob_problem (Some s0) suite_name f d i = Inr r''"
    using cons_sphere_call [OF f i] r''(1) by (simp add: suite_cons_bbob_problem_def rseed_def)
  then show thesis using that opt Z(6,9) r''(2) r(3,4) cons_total [OF s] by (simp add: rseed_def)
qed

chapter \<open>Properties\<close>

text \<open>
  The properties of the constrained suite that a user relies on: the gradients that it uses are the
  derivatives of the functions, the linear constraints are built around the direction they get, the
  sphere problems have the constrained minimum they say, and a run of evaluations records the best
  feasible value.
\<close>

section \<open>Runs of evaluations\<close>

lemma evaluate_points_constrained:
  assumes "constrained_shape (fields p) n (length cs)" "implements p n F" "imposes p n cs"
    and "erase q = erase p" "\<forall>x \<in> set xs. length x = n"
  shows "\<exists>q'. evaluate_points q (map (map Real) xs) = Inr (map (\<lambda>x. [Real (F x)]) xs, q') \<and> erase q' = erase p
    \<and> fields q' = fold (\<lambda>x. record_feasible (feasible cs x) (F x)) xs (fields q)"
  using assms(4,5)
proof (induction xs arbitrary: q)
  case (Cons x xs)
  then obtain r where r: "coco_evaluate_function q (map Real x) = Inr ([Real (F x)], r)" "erase r = erase p"
    "fields r = record_feasible (feasible cs x) (F x) (fields q)"
    using evaluate_constrained [OF assms(1-3), of q x] by (auto simp: coco_evaluate_function_def)
  with Cons.IH [OF r(2)] Cons.prems(2) show ?case by auto
qed simp

lemma record_feasible_fields:
  assumes "best_observed_fvalue p = Real b" "evaluations p + 1 < 2 ^ 64"
  shows "best_observed_fvalue (record_feasible ok v p) = Real (if ok \<and> v < b then v else b)"
    "evaluations (record_feasible ok v p) = evaluations p + 1"
  using assms by (auto simp: record_feasible_def record_value_def problem_increment_evaluate_function_def
      coco_problem_set_best_observed_f_value_def Let_def)

lemma Min_insert2:
  fixes a b :: real
  assumes "finite S"
  shows "Min (insert b (insert a S)) = Min (insert (if a < b then a else b) S)"
  using assms by (cases "S = {}") (auto simp: min_def)

lemma record_feasible_fold:
  assumes "best_observed_fvalue p = Real b" "evaluations p + length xs < 2 ^ 64"
  shows "best_observed_fvalue (fold (\<lambda>x. record_feasible (ok x) (F x)) xs p) = Real (Min (insert b (F ` {x \<in> set xs. ok x})))
    \<and> evaluations (fold (\<lambda>x. record_feasible (ok x) (F x)) xs p) = evaluations p + length xs"
  using assms
proof (induction xs arbitrary: p b)
  case (Cons x xs)
  let ?b = "if ok x \<and> F x < b then F x else b" and ?S = "F ` {x \<in> set xs. ok x}"
  have r: "best_observed_fvalue (record_feasible (ok x) (F x) p) = Real ?b"
    "evaluations (record_feasible (ok x) (F x) p) = evaluations p + 1"
    using record_feasible_fields [OF Cons.prems(1)] Cons.prems(2) by simp_all
  have "F ` {y \<in> set (x # xs). ok y} = (if ok x then insert (F x) ?S else ?S)" by auto
  moreover have "finite ?S" by simp
  ultimately have "Min (insert b (F ` {y \<in> set (x # xs). ok y})) = Min (insert ?b ?S)"
    using Min_insert2 [of ?S b "F x"] by presburger
  with Cons.IH [OF r(1)] r(2) Cons.prems(2) show ?case by simp
qed simp

section \<open>Derivatives\<close>

context raw_contract
begin

lemma raw_value:
  assumes "ok" "r \<noteq> Linear_slope" "length x = n" "number_of_variables p = n"
    and "number_of_objectives p = 1" "best_value p = [Real m]"
  shows "raw_evaluate r False p (map Real x) = Inr [Real (V x)]"
  using evaluates [OF assms(1,3), of p False] minimal [OF assms(1,3)] assms
  by (simp add: evaluate_raw_def assert_best_def)

end

lemma differentiable_raw:
  assumes "\<And>x. length x = n \<Longrightarrow> raw_evaluate r False p (map Real x) = Inr [Real (F x)]"
    and "\<And>x y. length x = n \<Longrightarrow> length y = n \<Longrightarrow> raw_gradient r p (map Real x) y = Inr (map Real (g x))"
    and "derivative_of n F g"
  shows "\<exists>F g. \<forall>x y. length x = n \<longrightarrow> length y = n \<longrightarrow>
      raw_evaluate r False p (map Real x) = Inr [Real (F x)]
    \<and> raw_gradient r p (map Real x) y = Inr (map Real (g x)) \<and> length (g x) = n
    \<and> (\<forall>u. length u = n \<longrightarrow> ((\<lambda>t. F (moved x t u)) has_real_derivative (\<Sum>i < n. g x ! i * u ! i)) (at 0))"
  using assms unfolding derivative_of_def rdot_def by (intro exI [of _ F] exI [of _ g]) metis

text \<open>
  C16. For the sphere, the ellipsoid, the discus, the bent cigar and the Rastrigin function, in two or
  more variables: the raw evaluation function and the raw gradient do not fail at a finite point, and
  the gradient is the derivative of the function: in every direction \<open>u\<close> the derivative at \<open>x\<close> is the
  scalar product of the gradient and \<open>u\<close>.
\<close>

theorem raw_gradients_are_derivatives:
  assumes "r \<in> {Sphere, Ellipsoid, Discus, Bent_cigar, Rastrigin}" "2 \<le> n"
    and "number_of_variables p = n" "number_of_objectives p = 1" "best_value p = [Real 0]"
  shows "\<exists>F g. \<forall>x y. length x = n \<longrightarrow> length y = n \<longrightarrow>
      raw_evaluate r False p (map Real x) = Inr [Real (F x)]
    \<and> raw_gradient r p (map Real x) y = Inr (map Real (g x)) \<and> length (g x) = n
    \<and> (\<forall>u. length u = n \<longrightarrow> ((\<lambda>t. F (moved x t u)) has_real_derivative (\<Sum>i < n. g x ! i * u ! i)) (at 0))"
proof -
  consider "r = Sphere" | "r = Ellipsoid" | "r = Discus" | "r = Bent_cigar" | "r = Rastrigin" using assms(1) by blast
  then show ?thesis
  proof cases
    case 1 show ?thesis unfolding 1 using assms(2-)
      by (intro differentiable_raw [OF sphere.raw_value sphere_gradient.evaluates sphere_gradient.derivative]) auto
  next
    case 2 show ?thesis unfolding 2 using assms(2-)
      by (intro differentiable_raw [OF ellipsoid.raw_value ellipsoid_gradient.evaluates ellipsoid_gradient.derivative]) auto
  next
    case 3 show ?thesis unfolding 3 using assms(2-)
      by (intro differentiable_raw [OF discus.raw_value discus_gradient.evaluates discus_gradient.derivative]) auto
  next
    case 4 show ?thesis unfolding 4 using assms(2-)
      by (intro differentiable_raw [OF bent_cigar.raw_value bent_cigar_gradient.evaluates bent_cigar_gradient.derivative]) auto
  next
    case 5 show ?thesis unfolding 5 using assms(2-)
      by (intro differentiable_raw [OF rastrigin.raw_value rastrigin_gradient.evaluates rastrigin_gradient.derivative]) auto
  qed
qed

lemma raw_gradients_are_derivatives_witness:
  "\<exists>p F g. \<forall>x y. length x = 2 \<longrightarrow> length y = 2 \<longrightarrow>
      raw_evaluate Rastrigin False p (map Real x) = Inr [Real (F x)]
    \<and> raw_gradient Rastrigin p (map Real x) y = Inr (map Real (g x)) \<and> length (g x) = 2
    \<and> (\<forall>u. length u = 2 \<longrightarrow> ((\<lambda>t. F (moved x t u)) has_real_derivative (\<Sum>i < 2. g x ! i * u ! i)) (at 0))"
proof -
  obtain p where p: "coco_problem_allocate 2 1 0 = Inr p" "number_of_variables p = 2" "number_of_objectives p = 1"
    by (auto simp: coco_problem_allocate_def coco_allocate_vector_def)
  then have "number_of_variables (p\<lparr>best_value := [Real 0]\<rparr>) = 2" "number_of_objectives (p\<lparr>best_value := [Real 0]\<rparr>) = 1"
    "best_value (p\<lparr>best_value := [Real 0]\<rparr>) = [Real 0]" by simp_all
  from raw_gradients_are_derivatives [OF _ _ this, of Rastrigin] show ?thesis by blast
qed

section \<open>Linear constraints\<close>



section \<open>The sphere problems\<close>

text \<open>
  C13. The sphere problems of the constrained suite, functions 1 to 6 in 2 to 44 variables and instances
  up to 100000, in each of the three variants of the suite: the whole construction succeeds (from
  the second function on provided that the normal random numbers of the constraints are finite and not
  all zero). The best parameter is the point
  \<open>xopt\<close> of the instance, it is feasible, no feasible point has a smaller value of the objective
  function, and the best value is the value there. The initial solution is feasible and lies within
  [-5, 5]. At every finite point the evaluations return the values of the scaled sphere function and of
  the constraints, and \<open>coco_is_feasible\<close> says whether all constraints are satisfied.
\<close>

theorem constrained_sphere_optimum:
  assumes "suite_name \<in> set cons_suite_names" "1 \<le> f" "f \<le> 6" "2 \<le> d" "d \<le> 44"
    and "i \<le> 100000" "length null_text \<le> 300"
    and "f = 1 \<or> (\<forall>k \<in> {1..nb_of_linear_constraints f d}. draws_ok f i d k)"
  shows "\<exists>q z xopt x0 fo F cs. suite_cons_bbob_problem (Some null_text) suite_name f d i = Inr q
    \<and> optimum (int f + 10000 * int i) d = Inr (map Real xopt) \<and> optimum (int f + 20000 * int i) d = Inr (map Real z)
    \<and> bbob2009_compute_fopt f i = Inr (Real fo) \<and> F = sphere_function z xopt fo
    \<and> best_parameter (fields q) = Some (map Real xopt) \<and> best_value (fields q) = [Real (F xopt)]
    \<and> length xopt = d \<and> feasible cs xopt \<and> (\<forall>x. length x = d \<longrightarrow> feasible cs x \<longrightarrow> F xopt \<le> F x)
    \<and> initial_solution (fields q) = Some (map Real x0) \<and> length x0 = d \<and> feasible cs x0 \<and> (\<forall>v \<in> set x0. \<bar>v\<bar> \<le> 5)
    \<and> number_of_constraints (fields q) = length cs
    \<and> length cs = nb_of_linear_constraints f d
        + (if suite_name = ''bbob-constrained-active-only'' then 0 else nb_of_linear_constraints f d div 2)
    \<and> (\<forall>x. length x = d \<longrightarrow> (\<exists>q1 q2 q3. coco_evaluate_function q (map Real x) = Inr ([Real (F x)], q1)
        \<and> coco_evaluate_constraint q (map Real x) = Inr (map (\<lambda>c. Real (c x)) cs, q2)
        \<and> coco_is_feasible q (map Real x) = Inr (feasible cs x, q3)))"
proof -
  obtain q ds z xopt x0 fo where q: "suite_cons_bbob_problem (Some null_text) suite_name f d i = Inr q"
    "optimum (int f + 10000 * int i) d = Inr (map Real xopt)" "optimum (int f + 20000 * int i) d = Inr (map Real z)"
    "bbob2009_compute_fopt f i = Inr (Real fo)"
    "constrained q d 150 (sphere_function z xopt fo) (shifted_constraints xopt ds) xopt x0"
    "\<forall>v \<in> set x0. \<bar>v\<bar> \<le> 5" "length ds = nb_of_linear_constraints f d
      + (if suite_name = ''bbob-constrained-active-only'' then 0 else nb_of_linear_constraints f d div 2)"
    by (rule constrained_sphere_problem [OF assms])
  let ?F = "sphere_function z xopt fo" and ?cs = "shifted_constraints xopt ds"
  note D = constrainedD [OF q(5)]
  have s: "0 < d" "number_of_variables (fields q) = d" "evaluate_constraint (fields q) \<noteq> None"
    "number_of_constraints (fields q) = length ?cs"
    using D(1) by (simp_all add: constrained_shape_def)
  have e: "\<exists>q1 q2 q3. coco_evaluate_function q (map Real x) = Inr ([Real (?F x)], q1)
      \<and> coco_evaluate_constraint q (map Real x) = Inr (map (\<lambda>c. Real (c x)) ?cs, q2)
      \<and> coco_is_feasible q (map Real x) = Inr (feasible ?cs x, q3)" if x: "length x = d" for x
    using evaluate_constrained [OF D(1-3) refl x] is_feasible_imposes [OF D(1,3) refl x]
      evaluate_imposes [OF D(3) refl x s(1-3)]
    by (simp only: coco_evaluate_function_def coco_evaluate_constraint_def) blast
  have len: "length ?cs = length ds" by (simp add: shifted_constraints_def)
  show ?thesis using q(1-4,6,7) D(5-10) s(4) e len
    by (intro exI [of _ q] exI [of _ z] exI [of _ xopt] exI [of _ x0] exI [of _ fo] exI [of _ ?F] exI [of _ ?cs])
      (simp add: minimal_at_def)
qed

lemma constrained_sphere_optimum_witness:
  "\<exists>q z xopt x0 fo F cs. suite_cons_bbob_problem (Some ''(null)'') ''bbob-constrained'' 1 2 7 = Inr q
    \<and> optimum (int 1 + 10000 * int 7) 2 = Inr (map Real xopt) \<and> optimum (int 1 + 20000 * int 7) 2 = Inr (map Real z)
    \<and> bbob2009_compute_fopt 1 7 = Inr (Real fo) \<and> F = sphere_function z xopt fo
    \<and> best_parameter (fields q) = Some (map Real xopt) \<and> best_value (fields q) = [Real (F xopt)]
    \<and> length xopt = 2 \<and> feasible cs xopt \<and> (\<forall>x. length x = 2 \<longrightarrow> feasible cs x \<longrightarrow> F xopt \<le> F x)
    \<and> initial_solution (fields q) = Some (map Real x0) \<and> length x0 = 2 \<and> feasible cs x0 \<and> (\<forall>v \<in> set x0. \<bar>v\<bar> \<le> 5)
    \<and> number_of_constraints (fields q) = length cs
    \<and> length cs = nb_of_linear_constraints 1 2
        + (if ''bbob-constrained'' = ''bbob-constrained-active-only'' then 0 else nb_of_linear_constraints 1 2 div 2)
    \<and> (\<forall>x. length x = 2 \<longrightarrow> (\<exists>q1 q2 q3. coco_evaluate_function q (map Real x) = Inr ([Real (F x)], q1)
        \<and> coco_evaluate_constraint q (map Real x) = Inr (map (\<lambda>c. Real (c x)) cs, q2)
        \<and> coco_is_feasible q (map Real x) = Inr (feasible cs x, q3)))"
  by (rule constrained_sphere_optimum) (simp_all add: cons_suite_names_def)

text \<open>
  C15. A run of fewer than 2^64 evaluations of a sphere problem of the constrained suite: every
  evaluation returns the value of the function, the number of evaluations is counted, and the best
  observed value is the smallest value at the feasible points of the run (or the initial DBL_MAX),
  where the points that count are those that \<open>coco_is_feasible\<close> accepts.
\<close>

theorem constrained_sphere_run_observed:
  assumes "suite_name \<in> set cons_suite_names" "1 \<le> f" "f \<le> 6" "2 \<le> d" "d \<le> 44"
    and "i \<le> 100000" "length null_text \<le> 300"
    and "f = 1 \<or> (\<forall>k \<in> {1..nb_of_linear_constraints f d}. draws_ok f i d k)"
    and "\<forall>x \<in> set xs. length x = d" "length xs < 2 ^ 64"
  shows "\<exists>q F ok r. suite_cons_bbob_problem (Some null_text) suite_name f d i = Inr q
    \<and> evaluate_points q (map (map Real) xs) = Inr (map (\<lambda>x. [Real (F x)]) xs, r)
    \<and> (\<forall>x \<in> set xs. \<exists>q'. coco_is_feasible q (map Real x) = Inr (ok x, q'))
    \<and> evaluations (fields r) = length xs
    \<and> best_observed_fvalue (fields r) = Real (Min (insert DBL_MAX (F ` {x \<in> set xs. ok x})))"
proof -
  obtain q ds z xopt x0 fo where q: "suite_cons_bbob_problem (Some null_text) suite_name f d i = Inr q"
    "constrained q d 150 (sphere_function z xopt fo) (shifted_constraints xopt ds) xopt x0"
    using constrained_sphere_problem [OF assms(1-8)] by metis
  let ?F = "sphere_function z xopt fo" and ?cs = "shifted_constraints xopt ds"
  note D = constrainedD [OF q(2)]
  obtain r where r: "evaluate_points q (map (map Real) xs) = Inr (map (\<lambda>x. [Real (?F x)]) xs, r)"
    "fields r = fold (\<lambda>x. record_feasible (feasible ?cs x) (?F x)) xs (fields q)"
    using evaluate_points_constrained [OF D(1-3) refl assms(9)] by blast
  have "best_observed_fvalue (fields q) = Real DBL_MAX" "evaluations (fields q) = 0" using D(4) by (simp_all add: fresh_def)
  from record_feasible_fold [OF this(1), of xs "feasible ?cs" ?F] this(2) assms(10)
  have "best_observed_fvalue (fields r) = Real (Min (insert DBL_MAX (?F ` {x \<in> set xs. feasible ?cs x})))"
    "evaluations (fields r) = length xs"
    unfolding r(2) by simp_all
  moreover have "\<exists>q'. coco_is_feasible q (map Real x) = Inr (feasible ?cs x, q')" if "x \<in> set xs" for x
    using is_feasible_imposes [OF D(1,3) refl, of x] assms(9) that by blast
  ultimately show ?thesis using q(1) r(1)
    by (intro exI [of _ q] exI [of _ ?F] exI [of _ "feasible ?cs"] exI [of _ r]) simp
qed

lemma constrained_sphere_run_observed_witness:
  "\<exists>q F ok r. suite_cons_bbob_problem (Some ''(null)'') ''bbob-constrained'' 1 2 7 = Inr q
    \<and> evaluate_points q (map (map Real) [[0, 0], [1, - 2], [5, 5]]) = Inr (map (\<lambda>x. [Real (F x)]) [[0, 0], [1, - 2], [5, 5]], r)
    \<and> (\<forall>x \<in> set [[0, 0], [1, - 2], [5, 5]]. \<exists>q'. coco_is_feasible q (map Real x) = Inr (ok x, q'))
    \<and> evaluations (fields r) = length [[0, 0], [1, - 2], [5, 5 :: real]]
    \<and> best_observed_fvalue (fields r)
        = Real (Min (insert DBL_MAX (F ` {x \<in> set [[0, 0], [1, - 2], [5, 5]]. ok x})))"
  by (rule constrained_sphere_run_observed) (simp_all add: cons_suite_names_def)

end
