(* ===== verification/Spec2Isabelle.thy ===== *)
theory Spec2Isabelle
  imports Coco_Strings Coco_Ranges Coco_Options Coco_Numerics Coco_Problem_Calls Coco_Biobj
    Coco_Suites Coco_Suite_Next Coco_Suite_Construct Coco_Suite_Complete
    Avl_Properties Coco_Archive_Create Coco_Archive_Properties
    Coco_Bbob_Runs Coco_Largescale Coco_Permutations Coco_Triggers Coco_Files
    Coco_Biobj_Runs Coco_Constrained_Properties
begin

text \<open>
  Verification library for the native benchmarking code of d-optimas: the COCO platform in
  \<open>src/native/coco.c\<close>, which the Java side of the repository calls through \<open>src/native/CocoJNI.c\<close>. The
  program hands out optimization problems: a suite (\<open>coco_suite\<close>) is constructed from a name and two
  option strings, is iterated over, and gives problems; archives keep the non-dominated solutions of
  bi-objective problems in an AVL tree; an observer puts a logger around a problem, which writes the
  course of the evaluations to files.

  Conventions. An operation that can fail returns a sum, \<open>Inl\<close> with the kind of failure (a call of
  \<open>coco_error\<close>, a failing assertion, an access out of bounds, a NULL dereference, a division by zero),
  or \<open>Inr\<close> with its result and the changed state. On the heap of the AVL tree the option monad is used:
  None is undefined behaviour or a loop that does not end. \<open>size_t\<close> is 64 bits, with the wrap-around
  written out where values can reach it; counts and depths of the AVL tree are words of 64 and 8 bits;
  \<open>double\<close> is modelled by real numbers, so that statements on floating-point code are about exact
  arithmetic; C strings are lists of characters without the terminating NUL.

  The parts, in the order of the code:

  \<^item> \<open>Coco_Prelude\<close>: failures, \<open>size_t\<close>, characters, array accesses.

  \<^item> \<open>Coco_Strings\<close> (\<open>coco_string.c\<close>): \<open>coco_strfind\<close>, \<open>coco_string_split\<close>, \<open>coco_string_trim\<close>,
  \<open>coco_remove_from_string\<close>, shown equal to list-level specifications, and the round trip of splitting.

  \<^item> \<open>Coco_Ranges\<close> (\<open>coco_utilities.c\<close>): \<open>coco_string_parse_ranges\<close> and \<open>coco_count_numbers\<close>; parsing
  of printed ranges, bounds of the parsed numbers, the array of \<open>COCO_MAX_INSTANCES\<close> entries.

  \<^item> \<open>Coco_Options\<close>: option strings, option keys and \<open>coco_vstrdupf\<close> with its fixed buffer.

  \<^item> \<open>Coco_Numerics\<close>: rounding, vectors, the lagged Fibonacci generator, and the multi-objective
  utilities \<open>mo_normalize\<close>, \<open>mo_get_dominance\<close> and \<open>mo_is_within_ROI\<close>; normalized vectors lie on a grid,
  on which dominance is decided exactly.

  \<^item> \<open>Coco_Problem_Calls\<close>, \<open>Coco_Biobj\<close>: which problem every suite constructs for a function, dimension
  and instance, as a tree of calls of the allocators, with seeds, transformations, the discretization of
  mixed-integer problems, the pairing of functions and the search for new bi-objective instances.

  \<^item> \<open>Coco_Suites\<close>, \<open>Coco_Suite_Next\<close>, \<open>Coco_Suite_Construct\<close>, \<open>Coco_Suite_Complete\<close> (\<open>coco_suite.c\<close>):
  the tables of the eight suites, encoding and decoding of problem indices, the searches for the next
  instance, function and dimension, the constructor with its filters, and the theorem that iterating over
  a constructed suite returns every problem that was not filtered out exactly once, in order, and ends.

  \<^item> \<open>Avl_Model\<close>, \<open>Avl_Operations\<close> (\<open>mo_avl_tree.c\<close>): the augmented AVL tree as a heap of nodes with parent,
  child and neighbour pointers. \<open>Avl_Shape\<close>, \<open>Avl_Rotations\<close>, \<open>Avl_Balance\<close> and \<open>Avl_Rebalance\<close> relate the
  heap to binary trees of addresses and show what rotations and rebalancing do; \<open>Avl_Neighbours\<close> adds the
  doubly linked list and defines the invariant \<open>avl_inv\<close>; \<open>Avl_Insert\<close>, \<open>Avl_Delete\<close> and \<open>Avl_Search\<close>
  treat the operations; \<open>Avl_Items\<close> lifts them to ordered lists of items under the contract of the
  comparison function, the locale \<open>comparator\<close>; \<open>Avl_Properties\<close> has the results: any sequence of client
  calls (the relation \<open>reachable\<close>) refines an ordered list, and no call touches NULL or a freed node.
  Every loop is shown to end, the depth field never exceeds 128 and the count is exact below \<open>2 ^ 64\<close>
  nodes.

  \<^item> \<open>Coco_Archive\<close> (\<open>coco_archive.c\<close>): the archive's record and operations. \<open>Coco_Front\<close> has the abstract
  front of non-dominated items and interprets \<open>comparator\<close> for the archive's order; \<open>Coco_Archive_Add\<close>
  shows that \<open>coco_archive_add_solution\<close> refines the update of the front; \<open>Coco_Archive_Values\<close> that the
  hypervolume is a number of grid cells; \<open>Coco_Archive_Texts\<close> that the output is complete;
  \<open>Coco_Archive_Extremes\<close> and \<open>Coco_Archive_Create\<close> model the constructor; \<open>Coco_Archive_Properties\<close> has
  the results.

  \<^item> \<open>Coco_Biobj_Nodes\<close> (\<open>logger_biobj.c\<close>): the items of the trees of the bi-objective logger and their
  two orders, which satisfy \<open>comparator\<close> as well.

  \<^item> \<open>Coco_Double\<close>: \<open>double\<close> as a real number, an infinity or NaN, with the operations of the code; exact
  arithmetic otherwise. \<open>Coco_Legacy\<close> and \<open>Coco_Rotations\<close> (\<open>suite_bbob_legacy_code.c\<close>): the generator
  of 2009, Gaussian numbers, optimal points and values, and rotation matrices, which are orthogonal.

  \<^item> \<open>Coco_Problem\<close>, \<open>Coco_Evaluation\<close> (\<open>coco_problem.c\<close>): problems as trees of basic, transformed and
  stacked problems with their counters, \<open>coco_evaluate_function\<close> and \<open>coco_evaluate_constraint\<close>;
  \<open>Coco_Raw_Functions\<close> the objective functions, \<open>Coco_Transformations\<close> the constructors of the
  transformations. \<open>Coco_Objectives\<close> says when a problem implements a real function and has the locale
  \<open>transformation_contract\<close>, which \<open>Coco_Contracts\<close> interprets for every transformation;
  \<open>Coco_Constructors\<close> and \<open>Coco_Point_Constructors\<close> show what the constructors give.

  \<^item> \<open>Coco_Bbob\<close>, \<open>Coco_Bbob_Special\<close> (\<open>f_*.c\<close>, \<open>suite_bbob.c\<close>): the construction of the bbob problems.
  \<open>Coco_Raw_Values\<close>, \<open>Coco_Special_Values\<close> and \<open>Coco_Data_Values\<close> have the minima of the functions;
  \<open>Coco_Raw_Contracts\<close> the locale \<open>raw_contract\<close>, interpreted for them in \<open>Coco_Basic_Problems\<close>;
  \<open>Coco_Solved_Steps\<close> the steps of a construction on solved problems; \<open>Coco_Bbob_Solved\<close>,
  \<open>Coco_Bbob_Rosenbrock\<close> and \<open>Coco_Bbob_Optima\<close> that every problem but Schwefel's attains its best value
  at its best parameter; \<open>Coco_Bbob_Suite\<close> puts them together for 2 to 44 variables, the bound of the
  rotations, and \<open>Coco_Bbob_Runs\<close> shows what runs of evaluations observe.

  \<^item> \<open>Coco_Permutations\<close>, \<open>Coco_Largescale\<close>: the permutations of the large-scale suite, which move no index
  farther than the swap range, and its generalized and block-rotated problems.

  \<^item> \<open>Coco_Triggers\<close> (\<open>coco_observer.c\<close>): when a logger writes a line. The numbers of evaluations are those
  of an explicit set, the targets those that the best value so far has passed. \<open>Coco_Files\<close>: a file
  system of directories and files of written pieces, paths, and the search for a new directory.

  \<^item> \<open>Coco_Observer\<close>: the constructor \<open>coco_observer\<close> with its options, the toy, bbob, bbob-biobj and rw
  observers. \<open>Coco_Observed\<close>: a problem with a logger around it, runs of evaluations, and the locale
  \<open>logger_contract\<close>, which says that a logger does not change what a problem returns; it is interpreted
  in \<open>Coco_Logger_Toy\<close>, \<open>Coco_Logger_Bbob\<close>, \<open>Coco_Logger_Rw\<close> and \<open>Coco_Logger_Biobj\<close>, one theory for each
  \<open>logger_*.c\<close>. The lines that the first three write in a run are given in closed form.
  \<open>Coco_Observers\<close>: adding an observer to a problem and removing it.

  \<^item> \<open>Coco_Biobj_Solutions\<close>, \<open>Coco_Biobj_Archive\<close>, \<open>Coco_Biobj_Updates\<close>: \<open>logger_biobj_tree_update\<close> refines the
  update of a front, the buffer holds solutions of the archive only, and the contributions add up to the
  hypervolume. \<open>Coco_Biobj_Values\<close> has the reported value in closed form, \<open>Coco_Biobj_Runs\<close> the theorem on
  runs of evaluations with the bi-objective logger.

  \<^item> \<open>Coco_Hypervolume_Values\<close>, \<open>Coco_Hypervolumes\<close> (\<open>suite_biobj_utilities.c\<close>): the tables of best known
  hypervolumes and the search in them, which finds the entry of every problem of the suites.

  \<^item> \<open>Coco_Gradients\<close>: \<open>bbob_evaluate_gradient\<close> with the gradients of the raw functions and of the
  transformations; the locale \<open>gradient_contract\<close>, which says that a gradient is the derivative of the
  function, interpreted for five raw functions, and the lower bounds that the gradients of convex
  functions give.

  \<^item> \<open>Coco_Constrained\<close> (\<open>c_linear.c\<close>, \<open>suite_cons_bbob_problems.c\<close>, \<open>suite_cons_bbob.c\<close>): the linear
  constraints and the allocators of the constrained suite. \<open>Coco_Constraints\<close>: what a stack of
  constraints evaluates to, that allocating and stacking succeeds, the invariant of the loop over the
  constraints and its result: all feasible points are on the side of the direction, also after the
  disguise of the gradients. \<open>Coco_Constrained_Solved\<close>: the evaluation with constraints, the locale
  \<open>constrained_transformation\<close>, interpreted for the transformations of whole problems, and the steps of
  an allocator; \<open>Coco_Constrained_Properties\<close> puts them together for the sphere problems (functions 1 to
  6, 2 to 44 variables) and has the results. The other eight functions of the suite are modelled
  without a theorem on their minimum.

  Parameters of the model, for code outside the modelled part: the objective functions at the extreme
  points (\<open>objective_of\<close>), the ideal and nadir points of a problem, the pointers that \<open>malloc\<close> returns
  (NULL or not in use), the text that \<open>vsprintf\<close> writes, for the name of a linear constraint also in place of NULL. Recursion is structural, has a measure, or is a
  \<open>partial_function\<close> whose termination is a theorem.

  Not modelled: recommendations, the freeing of problems and suites, the mutex, the log
  level and flushing; removing files and directories; the minimum of Schwefel's function (its
  optimum is a rounded decimal, so that the statement is one about the decimals); the large-scale step ellipsoid, Gallagher's and Lunacek's problems, whose parts
  share \<open>versatile_data\<close>; the JNI glue \<open>CocoJNI.c\<close>, which copies arrays between Java and C, and the Java
  side. The functions of the AVL tree under \<open>!AVL_TREE_COMMENT_UNUSED\<close> are not compiled.
\<close>

end
